(* ===== verification/Go_Strings.thy ===== *)
theory Go_Strings
  imports Main
begin

text \<open>
  Go's strings and the functions of the \<^verbatim>\<open>strings\<close>, \<^verbatim>\<open>unicode\<close> and \<^verbatim>\<open>utf8\<close>
  packages that the modelled code calls.

  A Go string is a sequence of bytes, and so is Isabelle's \<^typ>\<open>string\<close>: a \<^typ>\<open>char\<close> is
  one byte. Everything that Go defines on code points (\<^verbatim>\<open>TrimSpace\<close>, \<^verbatim>\<open>range\<close> over a
  string) is defined here over the UTF-8 bytes, with the same treatment of invalid encodings:
  a byte that starts no valid sequence is one code point U+FFFD of width 1.

  The theory also holds the lemma collections of the development and the generic facts about
  lists and results that the components share.
\<close>

named_theorems go_simps \<open>unfolding rules of the standard library functions\<close>
named_theorems inv_intros \<open>invariant preservation, one rule per operation\<close>

section \<open>Results\<close>

text \<open>
  \<^verbatim>\<open>(T, error)\<close> is a sum: \<open>Inl\<close> an error, \<open>Inr\<close> a value. \<open>res_bind\<close> is the
  early return \<^verbatim>\<open>if err != nil { return err }\<close>.
\<close>

type_synonym ('e, 'a) res = "'e + 'a"

definition res_bind :: "('e, 'a) res \<Rightarrow> ('a \<Rightarrow> ('e, 'b) res) \<Rightarrow> ('e, 'b) res" where
  "res_bind r k = (case r of Inl e \<Rightarrow> Inl e | Inr x \<Rightarrow> k x)"

lemma res_bind_simps [simp]:
  "res_bind (Inl e) k = Inl e"
  "res_bind (Inr x) k = k x"
  by (simp_all add: res_bind_def)

lemma res_bind_Inr_iff: "res_bind r k = Inr y \<longleftrightarrow> (\<exists>x. r = Inr x \<and> k x = Inr y)"
  by (cases r) simp_all

lemma res_bind_Inl_iff: "res_bind r k = Inl e \<longleftrightarrow> r = Inl e \<or> (\<exists>x. r = Inr x \<and> k x = Inl e)"
  by (cases r) simp_all

text \<open>A loop whose body checks one element and returns at the first error.\<close>

fun first_error :: "('a \<Rightarrow> 'e option) \<Rightarrow> 'a list \<Rightarrow> 'e option" where
  "first_error f [] = None"
| "first_error f (x # xs) = (case f x of Some e \<Rightarrow> Some e | None \<Rightarrow> first_error f xs)"

lemma first_error_None_iff [simp]: "first_error f xs = None \<longleftrightarrow> (\<forall>x\<in>set xs. f x = None)"
  by (induction xs) (auto split: option.splits)

lemma first_error_SomeD: "first_error f xs = Some e \<Longrightarrow> \<exists>x\<in>set xs. f x = Some e"
  by (induction xs) (auto split: option.splits)

lemma first_error_append:
  "first_error f (xs @ ys) =
     (case first_error f xs of Some e \<Rightarrow> Some e | None \<Rightarrow> first_error f ys)"
  by (induction xs) (simp_all del: first_error_None_iff split: option.split)

section \<open>Prefixes, suffixes, search\<close>

definition has_prefix :: "'a list \<Rightarrow> 'a list \<Rightarrow> bool" where
  "has_prefix s p \<longleftrightarrow> take (length p) s = p"

definition has_suffix :: "'a list \<Rightarrow> 'a list \<Rightarrow> bool" where
  "has_suffix s p \<longleftrightarrow> length p \<le> length s \<and> drop (length s - length p) s = p"

definition trim_suffix :: "'a list \<Rightarrow> 'a list \<Rightarrow> 'a list" where
  "trim_suffix s p = (if has_suffix s p then take (length s - length p) s else s)"

definition trim_prefix :: "'a list \<Rightarrow> 'a list \<Rightarrow> 'a list" where
  "trim_prefix s p = (if has_prefix s p then drop (length p) s else s)"

fun str_contains :: "string \<Rightarrow> string \<Rightarrow> bool" where
  "str_contains [] t \<longleftrightarrow> t = []"
| "str_contains (c # s) t \<longleftrightarrow> has_prefix (c # s) t \<or> str_contains s t"

lemma has_prefix_iff: "has_prefix s p \<longleftrightarrow> (\<exists>r. s = p @ r)"
  by (auto simp: has_prefix_def) (metis append_take_drop_id)

lemma has_prefix_Nil [simp]: "has_prefix s []"
  by (simp add: has_prefix_def)

lemma has_prefix_append [simp]: "has_prefix (p @ r) p"
  by (simp add: has_prefix_def)

lemma has_prefix_Cons [simp]: "has_prefix (c # s) (d # p) \<longleftrightarrow> c = d \<and> has_prefix s p"
  by (auto simp: has_prefix_def)

lemma has_prefix_empty [simp]: "has_prefix [] p \<longleftrightarrow> p = []"
  by (auto simp: has_prefix_def)

lemma has_suffix_iff: "has_suffix s p \<longleftrightarrow> (\<exists>r. s = r @ p)"
proof
  assume "has_suffix s p"
  then have "s = take (length s - length p) s @ p"
    by (metis append_take_drop_id has_suffix_def)
  then show "\<exists>r. s = r @ p" ..
qed (auto simp: has_suffix_def)

lemma has_suffix_append [simp]: "has_suffix (r @ p) p"
  by (auto simp: has_suffix_iff)

lemma trim_suffix_append [simp]: "trim_suffix (r @ p) p = r"
  by (simp add: trim_suffix_def)

lemma str_contains_iff: "str_contains s t \<longleftrightarrow> (\<exists>u v. s = u @ t @ v)"
proof (induction s)
  case Nil
  then show ?case by auto
next
  case (Cons c s)
  have "(\<exists>u v. c # s = u @ t @ v) \<longleftrightarrow> has_prefix (c # s) t \<or> (\<exists>u v. s = u @ t @ v)"
    (is "?l \<longleftrightarrow> ?r")
  proof
    assume ?l
    then obtain u v where "c # s = u @ t @ v" by blast
    then show ?r by (cases u) (auto simp: has_prefix_iff)
  next
    assume ?r
    then show ?l
      by (metis append_Cons append_Nil has_prefix_iff)
  qed
  with Cons show ?case by simp
qed

section \<open>Split and Join\<close>

text \<open>
  \<^verbatim>\<open>strings.Split\<close> with a separator that is not empty. The accumulator holds the
  current part reversed. (An empty separator, which the modelled code never passes, would
  split into code points; here it leaves the string whole.)
\<close>

fun split_aux :: "string \<Rightarrow> nat \<Rightarrow> string \<Rightarrow> string \<Rightarrow> string list" where
  "split_aux sep (Suc k) acc (c # s) = split_aux sep k acc s"
| "split_aux sep 0 acc (c # s) =
     (if sep \<noteq> [] \<and> has_prefix (c # s) sep
      then rev acc # split_aux sep (length sep - 1) [] s
      else split_aux sep 0 (c # acc) s)"
| "split_aux sep k acc [] = [rev acc]"

definition split_str :: "string \<Rightarrow> string \<Rightarrow> string list" where
  "split_str s sep = split_aux sep 0 [] s"

fun join_str :: "string list \<Rightarrow> string \<Rightarrow> string" where
  "join_str [] sep = []"
| "join_str [x] sep = x"
| "join_str (x # y # xs) sep = x @ sep @ join_str (y # xs) sep"

lemma join_str_Cons: "xs \<noteq> [] \<Longrightarrow> join_str (x # xs) sep = x @ sep @ join_str xs sep"
  by (cases xs) simp_all

lemma split_aux_not_Nil [simp]: "split_aux sep k acc s \<noteq> []"
  by (induction sep k acc s rule: split_aux.induct) auto

lemma split_str_not_Nil [simp]: "split_str s sep \<noteq> []"
  by (simp add: split_str_def)

lemma split_aux_drop: "k \<le> length s \<Longrightarrow> split_aux sep k acc s = split_aux sep 0 acc (drop k s)"
proof (induction k arbitrary: s)
  case (Suc k)
  then show ?case by (cases s) auto
qed simp

lemma has_prefix_drop: "has_prefix s p \<Longrightarrow> s = p @ drop (length p) s"
  by (auto simp: has_prefix_iff)

lemma join_split_aux:
  "k \<le> length s \<Longrightarrow> join_str (split_aux sep k acc s) sep = rev acc @ drop k s"
proof (induction sep k acc s rule: split_aux.induct)
  case (2 sep acc c s)
  show ?case
  proof (cases "sep \<noteq> [] \<and> has_prefix (c # s) sep")
    case True
    then have le: "length sep - 1 \<le> length s"
      by (cases sep) (auto simp: has_prefix_iff)
    have eq: "c # s = sep @ drop (length sep - 1) s"
      using True has_prefix_drop [of "c # s" sep] by (cases sep) auto
    have "join_str (split_aux sep (length sep - 1) [] s) sep = drop (length sep - 1) s"
      using "2.IH"(1) [OF True le] by simp
    moreover have "split_aux sep 0 acc (c # s) = rev acc # split_aux sep (length sep - 1) [] s"
      using True by simp
    ultimately have "join_str (split_aux sep 0 acc (c # s)) sep
        = rev acc @ sep @ drop (length sep - 1) s"
      by (simp add: join_str_Cons)
    also have "\<dots> = rev acc @ c # s" using eq by simp
    finally show ?thesis by simp
  next
    case False
    then have "join_str (split_aux sep 0 (c # acc) s) sep = rev acc @ c # s"
      using "2.IH"(2) by simp
    then show ?thesis using False by auto
  qed
qed auto

lemma join_split [simp]: "join_str (split_str s sep) sep = s"
  by (simp add: split_str_def join_split_aux)

text \<open>With a one-byte separator the parts are free of it, and splitting inverts joining.\<close>

lemma split_aux_char_Cons:
  "split_aux [d] 0 acc (c # s) =
     (if c = d then rev acc # split_aux [d] 0 [] s else split_aux [d] 0 (c # acc) s)"
  by simp

lemma split_aux_char_parts:
  "d \<notin> set acc \<Longrightarrow> x \<in> set (split_aux [d] 0 acc s) \<Longrightarrow> d \<notin> set x"
proof (induction s arbitrary: acc)
  case (Cons c s)
  show ?case
  proof (cases "c = d")
    case True
    with Cons.prems have "x = rev acc \<or> x \<in> set (split_aux [d] 0 [] s)" by simp
    then show ?thesis using Cons.prems(1) Cons.IH [of "[]"] by auto
  next
    case False
    with Cons.prems(2) have "x \<in> set (split_aux [d] 0 (c # acc) s)" by simp
    with Cons.IH [of "c # acc"] False Cons.prems(1) show ?thesis by simp
  qed
qed simp

lemma split_str_char_parts: "x \<in> set (split_str s [d]) \<Longrightarrow> d \<notin> set x"
  by (auto simp: split_str_def dest: split_aux_char_parts [rotated])

lemma split_aux_char_end: "d \<notin> set x \<Longrightarrow> split_aux [d] 0 acc x = [rev acc @ x]"
  by (induction x arbitrary: acc) auto

lemma split_aux_char_step:
  "d \<notin> set x \<Longrightarrow> split_aux [d] 0 acc (x @ d # r) = (rev acc @ x) # split_aux [d] 0 [] r"
  by (induction x arbitrary: acc) auto

lemma split_join_char:
  "xs \<noteq> [] \<Longrightarrow> \<forall>x\<in>set xs. d \<notin> set x \<Longrightarrow> split_str (join_str xs [d]) [d] = xs"
proof (induction xs "[d]" rule: join_str.induct)
  case (2 x)
  then show ?case by (simp add: split_str_def split_aux_char_end)
next
  case (3 x y xs)
  then show ?case by (simp add: split_str_def split_aux_char_step)
qed simp

section \<open>UTF-8\<close>

abbreviation byte :: "char \<Rightarrow> nat" where
  "byte c \<equiv> of_char c"

definition rune_error :: nat where
  "rune_error = 65533"

definition cont_byte :: "char \<Rightarrow> bool" where
  "cont_byte c \<longleftrightarrow> 128 \<le> byte c \<and> byte c < 192"

text \<open>
  \<^verbatim>\<open>utf8.DecodeRuneInString\<close>: the code point and its width in bytes; an invalid byte is
  U+FFFD of width 1, the end of the string U+FFFD of width 0. \<open>second_ok\<close> is the range the
  second byte may have after the first (no overlong forms, no surrogates, at most U+10FFFF).
\<close>

definition second_ok :: "nat \<Rightarrow> nat \<Rightarrow> bool" where
  "second_ok b0 b1 \<longleftrightarrow>
     (if b0 = 224 then 160 \<le> b1 \<and> b1 < 192
      else if b0 = 237 then 128 \<le> b1 \<and> b1 < 160
      else if b0 = 240 then 144 \<le> b1 \<and> b1 < 192
      else if b0 = 244 then 128 \<le> b1 \<and> b1 < 144
      else 128 \<le> b1 \<and> b1 < 192)"

definition decode_rune :: "string \<Rightarrow> nat \<times> nat" where
  "decode_rune s =
     (case s of
        [] \<Rightarrow> (rune_error, 0)
      | a # s1 \<Rightarrow>
         (if byte a < 128 then (byte a, 1)
          else if byte a < 194 \<or> 244 < byte a then (rune_error, 1)
          else case s1 of
             [] \<Rightarrow> (rune_error, 1)
           | b # s2 \<Rightarrow>
              (if \<not> second_ok (byte a) (byte b) then (rune_error, 1)
               else if byte a < 224 then ((byte a - 192) * 64 + (byte b - 128), 2)
               else case s2 of
                  [] \<Rightarrow> (rune_error, 1)
                | c # s3 \<Rightarrow>
                   (if \<not> cont_byte c then (rune_error, 1)
                    else if byte a < 240
                    then ((byte a - 224) * 4096 + (byte b - 128) * 64 + (byte c - 128), 3)
                    else case s3 of
                       [] \<Rightarrow> (rune_error, 1)
                     | d # _ \<Rightarrow>
                        (if \<not> cont_byte d then (rune_error, 1)
                         else ((byte a - 240) * 262144 + (byte b - 128) * 4096
                                 + (byte c - 128) * 64 + (byte d - 128), 4))))))"

lemma decode_rune_width:
  "s \<noteq> [] \<Longrightarrow> 1 \<le> snd (decode_rune s) \<and> snd (decode_rune s) \<le> length s"
  by (auto simp: decode_rune_def split: list.splits)

lemma decode_rune_ascii [simp]: "byte a < 128 \<Longrightarrow> decode_rune (a # s) = (byte a, 1)"
  by (simp add: decode_rune_def)

text \<open>\<^verbatim>\<open>range s\<close>: the code points of a string, one after the other.\<close>

function runes :: "string \<Rightarrow> nat list" where
  "runes s =
     (if s = [] then []
      else fst (decode_rune s) # runes (drop (snd (decode_rune s)) s))"
  by pat_completeness auto
termination
  by (relation "measure length") (auto dest: decode_rune_width)

declare runes.simps [simp del]

text \<open>\<^verbatim>\<open>utf8.AppendRune\<close> (\<^verbatim>\<open>strings.Builder.WriteRune\<close>).\<close>

definition encode_rune :: "nat \<Rightarrow> string" where
  "encode_rune r =
     (let r = (if 55296 \<le> r \<and> r < 57344 \<or> 1114111 < r then rune_error else r) in
      if r < 128 then [char_of r]
      else if r < 2048 then [char_of (192 + r div 64), char_of (128 + r mod 64)]
      else if r < 65536
      then [char_of (224 + r div 4096), char_of (128 + r div 64 mod 64), char_of (128 + r mod 64)]
      else [char_of (240 + r div 262144), char_of (128 + r div 4096 mod 64),
            char_of (128 + r div 64 mod 64), char_of (128 + r mod 64)])"

text \<open>
  Evaluation takes the ASCII case first, which spares it the large code points (as numbers of
  type \<^typ>\<open>nat\<close>, they are evaluated in unary).
\<close>

definition encode_wide :: "nat \<Rightarrow> string" where
  "encode_wide r = encode_rune r"

lemma encode_rune_code [code]: "encode_rune r = (if r < 128 then [char_of r] else encode_wide r)"
  by (simp add: encode_wide_def encode_rune_def)

lemma encode_wide_code [code]: "encode_wide r =
     (let r = (if 55296 \<le> r \<and> r < 57344 \<or> 1114111 < r then rune_error else r) in
      if r < 128 then [char_of r]
      else if r < 2048 then [char_of (192 + r div 64), char_of (128 + r mod 64)]
      else if r < 65536
      then [char_of (224 + r div 4096), char_of (128 + r div 64 mod 64), char_of (128 + r mod 64)]
      else [char_of (240 + r div 262144), char_of (128 + r div 4096 mod 64),
            char_of (128 + r div 64 mod 64), char_of (128 + r mod 64)])"
  by (simp add: encode_wide_def encode_rune_def)

text \<open>\<^verbatim>\<open>utf8.DecodeLastRuneInString\<close>: looks back at most four bytes for a first byte.\<close>

definition decode_last_rune :: "string \<Rightarrow> nat \<times> nat" where
  "decode_last_rune s =
     (if s = [] then (rune_error, 0)
      else if byte (last s) < 128 then (byte (last s), 1)
      else
        (let n = length s in
         case find (\<lambda>k. k \<le> n \<and> \<not> cont_byte (s ! (n - k))) [2, 3, 4] of
           None \<Rightarrow> (rune_error, 1)
         | Some k \<Rightarrow>
            (let rw = decode_rune (drop (n - k) s)
             in if snd rw = k then rw else (rune_error, 1))))"

lemma decode_last_rune_width:
  assumes "s \<noteq> []"
  shows "1 \<le> snd (decode_last_rune s)" and "snd (decode_last_rune s) \<le> length s"
  using assms
  by (auto simp: decode_last_rune_def Let_def find_Some_iff Suc_leI split: option.splits)

lemma decode_last_rune_pos: "s \<noteq> [] \<Longrightarrow> 0 < snd (decode_last_rune s)"
  using decode_last_rune_width(1) [of s] by simp

section \<open>White space\<close>

text \<open>\<^verbatim>\<open>unicode.IsSpace\<close>.\<close>

definition is_space :: "nat \<Rightarrow> bool" where
  "is_space r \<longleftrightarrow>
     9 \<le> r \<and> r \<le> 13 \<or> r = 32 \<or> r = 133 \<or> r = 160 \<or> r = 5760
     \<or> 8192 \<le> r \<and> r \<le> 8202 \<or> r = 8232 \<or> r = 8233 \<or> r = 8239 \<or> r = 8287 \<or> r = 12288"

definition is_wide_space :: "nat \<Rightarrow> bool" where
  "is_wide_space r \<longleftrightarrow>
     r = 133 \<or> r = 160 \<or> r = 5760 \<or> 8192 \<le> r \<and> r \<le> 8202 \<or> r = 8232 \<or> r = 8233 \<or> r = 8239
     \<or> r = 8287 \<or> r = 12288"

lemma is_space_code [code]:
  "is_space r \<longleftrightarrow> (if r < 128 then 9 \<le> r \<and> r \<le> 13 \<or> r = 32 else is_wide_space r)"
  by (auto simp: is_space_def is_wide_space_def)

function trim_left :: "string \<Rightarrow> string" where
  "trim_left s =
     (if s \<noteq> [] \<and> is_space (fst (decode_rune s))
      then trim_left (drop (snd (decode_rune s)) s) else s)"
  by pat_completeness auto
termination
  by (relation "measure length") (auto dest: decode_rune_width)

function trim_right :: "string \<Rightarrow> string" where
  "trim_right s =
     (if s \<noteq> [] \<and> is_space (fst (decode_last_rune s))
      then trim_right (take (length s - snd (decode_last_rune s)) s) else s)"
  by pat_completeness auto
termination
  by (relation "measure length") (auto intro!: diff_less dest: decode_last_rune_pos)

declare trim_left.simps [simp del] trim_right.simps [simp del]

definition trim_space :: "string \<Rightarrow> string" where
  "trim_space s = trim_right (trim_left s)"

lemma trim_left_Nil [simp]: "trim_left [] = []"
  by (simp add: trim_left.simps)

lemma trim_right_Nil [simp]: "trim_right [] = []"
  by (simp add: trim_right.simps)

lemma trim_space_Nil [simp]: "trim_space [] = []"
  by (simp add: trim_space_def)

lemma trim_left_Cons_ascii:
  "byte a < 128 \<Longrightarrow> trim_left (a # s) = (if is_space (byte a) then trim_left s else a # s)"
  by (subst trim_left.simps) simp

lemma trim_right_snoc_ascii:
  "byte a < 128 \<Longrightarrow> trim_right (s @ [a]) = (if is_space (byte a) then trim_right s else s @ [a])"
  by (subst trim_right.simps) (simp add: decode_last_rune_def)

text \<open>A string that begins and ends in a visible ASCII byte is its own trimmed form.\<close>

definition visible :: "char \<Rightarrow> bool" where
  "visible c \<longleftrightarrow> 33 \<le> byte c \<and> byte c < 127"

lemma visible_not_space [simp]: "visible c \<Longrightarrow> byte c < 128" "visible c \<Longrightarrow> \<not> is_space (byte c)"
  by (auto simp: visible_def is_space_def)

lemma trim_space_visible:
  assumes "s \<noteq> []" "visible (hd s)" "visible (last s)"
  shows "trim_space s = s"
proof -
  obtain a r where "s = a # r" using assms(1) by (cases s) auto
  with assms(2) have l: "trim_left s = s" by (simp add: trim_left_Cons_ascii)
  obtain b q where "s = q @ [b]" using assms(1) by (cases s rule: rev_cases) auto
  with assms(3) have "trim_right s = s" by (simp add: trim_right_snoc_ascii)
  with l show ?thesis by (simp add: trim_space_def)
qed

section \<open>Numbers and letter case\<close>

text \<open>\<^verbatim>\<open>strconv.Itoa\<close>, and \<^verbatim>\<open>%d\<close>.\<close>

function pos_str :: "int \<Rightarrow> string" where
  "pos_str n = (if n < 10 then [char_of (48 + n)] else pos_str (n div 10) @ [char_of (48 + n mod 10)])"
  by pat_completeness auto
termination
  by (relation "measure nat") auto

declare pos_str.simps [simp del]

definition int_str :: "int \<Rightarrow> string" where
  "int_str i = (if i < 0 then CHR ''-'' # pos_str (- i) else pos_str i)"

definition nat_str :: "nat \<Rightarrow> string" where
  "nat_str n = pos_str (int n)"

text \<open>
  \<^verbatim>\<open>strings.ToLower\<close> and \<^verbatim>\<open>strings.ToUpper\<close> on the ASCII letters; the code maps
  only names it compares with ASCII literals, so the letters beyond ASCII are left as they
  are.
\<close>

definition lower_char :: "char \<Rightarrow> char" where
  "lower_char c = (if 65 \<le> byte c \<and> byte c \<le> 90 then char_of (byte c + 32) else c)"

definition upper_char :: "char \<Rightarrow> char" where
  "upper_char c = (if 97 \<le> byte c \<and> byte c \<le> 122 then char_of (byte c - 32) else c)"

definition to_lower :: "string \<Rightarrow> string" where
  "to_lower s = map lower_char s"

definition to_upper :: "string \<Rightarrow> string" where
  "to_upper s = map upper_char s"

definition equal_fold :: "string \<Rightarrow> string \<Rightarrow> bool" where
  "equal_fold a b \<longleftrightarrow> to_lower a = to_lower b"

end
