(* ===== verification/Go_Float.thy ===== *)
theory Go_Float
  imports Go_Strings
begin

text \<open>
  Go's \<^verbatim>\<open>float64\<close>, as far as the modelled code uses it: conversion from an integer and
  from a decimal or hexadecimal literal (\<^verbatim>\<open>strconv.ParseFloat\<close>, correctly rounded to 53
  bits, ties to even), the comparison operators, \<^verbatim>\<open>math.Trunc\<close>, and the shortest decimal
  rendering that \<^verbatim>\<open>fmt\<close> and \<^verbatim>\<open>encoding/json\<close> print.

  A finite float is a sign, a mantissa and an exponent, with value \<open>\<plusminus> m * 2 ^ e\<close>; the
  mantissa has 53 bits, or fewer at the least exponent \<open>-1074\<close> (zero has mantissa 0), so
  that two floats of one sign compare as the pairs \<open>(e, m)\<close> do.
\<close>

datatype float64 =
    FNaN
  | FInf bool            \<comment> \<open>the sign: \<open>True\<close> is minus\<close>
  | FFin bool int int    \<comment> \<open>sign, mantissa, exponent\<close>

section \<open>Comparison\<close>

definition mag_less :: "int \<Rightarrow> int \<Rightarrow> int \<Rightarrow> int \<Rightarrow> bool" where
  "mag_less m e m' e' \<longleftrightarrow> e < e' \<or> e = e' \<and> m < m'"

fun f_less :: "float64 \<Rightarrow> float64 \<Rightarrow> bool" where
  "f_less FNaN y = False"
| "f_less x FNaN = False"
| "f_less (FInf s) (FInf s') = (s \<and> \<not> s')"
| "f_less (FInf s) (FFin s' m' e') = s"
| "f_less (FFin s m e) (FInf s') = (\<not> s')"
| "f_less (FFin s m e) (FFin s' m' e') =
     (if s then (if s' then mag_less m' e' m e else \<not> (m = 0 \<and> m' = 0))
      else (if s' then False else mag_less m e m' e'))"

fun f_eq :: "float64 \<Rightarrow> float64 \<Rightarrow> bool" where
  "f_eq (FInf s) (FInf s') = (s = s')"
| "f_eq (FFin s m e) (FFin s' m' e') = (m = 0 \<and> m' = 0 \<or> s = s' \<and> m = m' \<and> e = e')"
| "f_eq x y = False"

definition f_le :: "float64 \<Rightarrow> float64 \<Rightarrow> bool" where
  "f_le x y \<longleftrightarrow> f_less x y \<or> f_eq x y"

lemma f_eq_refl: "x \<noteq> FNaN \<Longrightarrow> f_eq x x"
  by (cases x) simp_all

lemma f_eq_sym: "f_eq x y = f_eq y x"
  by (cases x; cases y) auto

section \<open>Rounding\<close>

function ilog2 :: "int \<Rightarrow> int" where
  "ilog2 n = (if n < 2 then 0 else 1 + ilog2 (n div 2))"
  by pat_completeness auto
termination
  by (relation "measure nat") auto

declare ilog2.simps [simp del]

definition pow2 :: "int \<Rightarrow> int" where
  "pow2 k = 2 ^ nat k"

text \<open>\<open>n / d\<close> to the nearest integer, ties to even.\<close>

definition round_div :: "int \<Rightarrow> int \<Rightarrow> int" where
  "round_div n d =
     (let q = n div d; r = n mod d
      in if 2 * r < d then q else if d < 2 * r then q + 1
         else if even q then q else q + 1)"

text \<open>The float nearest to \<open>\<plusminus> n / d\<close>, for \<open>0 \<le> n\<close> and \<open>0 < d\<close>.\<close>

definition mk_float :: "bool \<Rightarrow> int \<Rightarrow> int \<Rightarrow> float64" where
  "mk_float neg n d =
     (if n = 0 then FFin neg 0 (-1074)
      else
        (let t = ilog2 n - ilog2 d;
             big = (if 0 \<le> t then d * pow2 t \<le> n else d \<le> n * pow2 (- t));
             e = max (t - 53 + (if big then 1 else 0)) (-1074);
             m = (if 0 \<le> e then round_div n (d * pow2 e) else round_div (n * pow2 (- e)) d);
             m' = (if m = pow2 53 then pow2 52 else m);
             e' = (if m = pow2 53 then e + 1 else e)
         in if 971 < e' then FInf neg else FFin neg m' e'))"

text \<open>\<^verbatim>\<open>float64(i)\<close> of an integer.\<close>

definition float_of_int :: "int \<Rightarrow> float64" where
  "float_of_int i = mk_float (i < 0) \<bar>i\<bar> 1"

text \<open>\<^verbatim>\<open>x == math.Trunc(x)\<close>: infinities are their own truncation, NaN equals nothing.\<close>

fun f_integral :: "float64 \<Rightarrow> bool" where
  "f_integral FNaN = False"
| "f_integral (FInf s) = True"
| "f_integral (FFin s m e) = (0 \<le> e \<or> m mod pow2 (- e) = 0)"

section \<open>strconv.ParseFloat\<close>

definition dec_digit :: "char \<Rightarrow> int option" where
  "dec_digit c = (if 48 \<le> byte c \<and> byte c \<le> 57 then Some (int (byte c) - 48) else None)"

definition hex_digit :: "char \<Rightarrow> int option" where
  "hex_digit c =
     (if 48 \<le> byte c \<and> byte c \<le> 57 then Some (int (byte c) - 48)
      else if 97 \<le> byte c \<and> byte c \<le> 102 then Some (int (byte c) - 87)
      else if 65 \<le> byte c \<and> byte c \<le> 70 then Some (int (byte c) - 55)
      else None)"

text \<open>
  The mantissa: digits with at most one point. The state is the number read, the count of
  digits after the point, whether a point was read and whether a digit was. Underscores are
  skipped here; \<open>underscore_ok\<close> checks where they stand.
\<close>

fun read_mant :: "int \<Rightarrow> (char \<Rightarrow> int option) \<Rightarrow> string \<Rightarrow> int \<Rightarrow> int \<Rightarrow> bool \<Rightarrow> bool
    \<Rightarrow> int \<times> int \<times> bool \<times> string" where
  "read_mant base dig [] n f pt ds = (n, f, ds, [])"
| "read_mant base dig (c # s) n f pt ds =
     (if c = CHR ''_'' then read_mant base dig s n f pt ds
      else if c = CHR ''.''
      then (if pt then (n, f, ds, c # s) else read_mant base dig s n f True ds)
      else case dig c of
             Some v \<Rightarrow> read_mant base dig s (n * base + v) (if pt then f + 1 else f) pt True
           | None \<Rightarrow> (n, f, ds, c # s))"

fun read_digits :: "string \<Rightarrow> int \<Rightarrow> bool \<Rightarrow> int \<times> bool \<times> string" where
  "read_digits [] n ds = (n, ds, [])"
| "read_digits (c # s) n ds =
     (if c = CHR ''_'' then read_digits s n ds
      else case dec_digit c of
             Some v \<Rightarrow> read_digits s (n * 10 + v) True
           | None \<Rightarrow> (n, ds, c # s))"

definition read_sign :: "string \<Rightarrow> bool \<times> string" where
  "read_sign s =
     (case s of
        [] \<Rightarrow> (False, [])
      | c # r \<Rightarrow> if c = CHR ''-'' then (True, r) else if c = CHR ''+'' then (False, r) else (False, s))"

text \<open>The exponent, \<open>None\<close> when its marker is not followed by a digit.\<close>

definition read_exp :: "char \<Rightarrow> string \<Rightarrow> (int option \<times> string) option" where
  "read_exp marker s =
     (case s of
        [] \<Rightarrow> Some (None, [])
      | c # r \<Rightarrow>
         (if lower_char c = marker
          then (let (neg, r1) = read_sign r in
                if r1 = [] \<or> dec_digit (hd r1) = None then None
                else (let (n, ds, r2) = read_digits r1 0 False
                      in Some (Some (if neg then - n else n), r2)))
          else Some (None, s)))"

text \<open>
  \<^verbatim>\<open>underscoreOK\<close>: an underscore stands between digits, or after the base prefix. The
  state is the class of the previous character: start, digit, underscore, other.
\<close>

datatype us_state = UStart | UDigit | UUnder | UOther

fun us_run :: "bool \<Rightarrow> us_state \<Rightarrow> string \<Rightarrow> bool" where
  "us_run hex st [] = (st \<noteq> UUnder)"
| "us_run hex st (c # s) =
     (if dec_digit c \<noteq> None \<or> hex \<and> hex_digit c \<noteq> None then us_run hex UDigit s
      else if c = CHR ''_'' then (st = UDigit \<and> us_run hex UUnder s)
      else (st \<noteq> UUnder \<and> us_run hex UOther s))"

definition has_base_prefix :: "string \<Rightarrow> bool" where
  "has_base_prefix s \<longleftrightarrow>
     2 \<le> length s \<and> s ! 0 = CHR ''0'' \<and> lower_char (s ! 1) \<in> {CHR ''x'', CHR ''b'', CHR ''o''}"

definition underscore_ok :: "string \<Rightarrow> bool" where
  "underscore_ok s =
     (let r = snd (read_sign s) in
      if has_base_prefix r
      then us_run (lower_char (r ! 1) = CHR ''x'') UDigit (drop 2 r)
      else us_run False UStart r)"

definition parse_special :: "string \<Rightarrow> float64 option" where
  "parse_special s =
     (let (neg, r) = read_sign s in
      if to_lower r = ''inf'' \<or> to_lower r = ''infinity'' then Some (FInf neg)
      else if to_lower s = ''nan'' then Some FNaN else None)"

text \<open>\<open>\<plusminus> n * base ^ x\<close>, rounded.\<close>

definition scaled_float :: "bool \<Rightarrow> int \<Rightarrow> int \<Rightarrow> int \<Rightarrow> float64" where
  "scaled_float neg n base x =
     (if 0 \<le> x then mk_float neg (n * base ^ nat x) 1 else mk_float neg n (base ^ nat (- x)))"

definition parse_number :: "string \<Rightarrow> float64 option" where
  "parse_number s =
     (let (neg, r) = read_sign s;
          hex = (has_base_prefix r \<and> lower_char (r ! 1) = CHR ''x'' \<and> 2 < length r);
          (n, f, ds, r1) = (if hex then read_mant 16 hex_digit (drop 2 r) 0 0 False False
                            else read_mant 10 dec_digit r 0 0 False False)
      in if \<not> ds then None
         else case read_exp (if hex then CHR ''p'' else CHR ''e'') r1 of
             None \<Rightarrow> None
           | Some (x, rest) \<Rightarrow>
              (if rest \<noteq> [] \<or> (hex \<and> x = None) \<or> (CHR ''_'' \<in> set s \<and> \<not> underscore_ok s)
               then None
               else Some (if hex
                          then scaled_float neg n 2 ((case x of None \<Rightarrow> 0 | Some k \<Rightarrow> k) - 4 * f)
                          else scaled_float neg n 10 ((case x of None \<Rightarrow> 0 | Some k \<Rightarrow> k) - f))))"

text \<open>
  \<open>None\<close> stands for a non-nil error: the syntax is wrong, or the literal is out of range
  (an infinity that the literal does not spell).
\<close>

definition parse_float :: "string \<Rightarrow> float64 option" where
  "parse_float s =
     (case parse_special s of
        Some v \<Rightarrow> Some v
      | None \<Rightarrow>
         (case parse_number s of
            Some (FInf b) \<Rightarrow> None
          | r \<Rightarrow> r))"

section \<open>Shortest decimal rendering\<close>

text \<open>The exponent \<open>k\<close> with \<open>10 ^ k \<le> n / d < 10 ^ (k + 1)\<close>, searched from a bound.\<close>

definition ge_pow10 :: "int \<Rightarrow> int \<Rightarrow> int \<Rightarrow> bool" where
  "ge_pow10 n d k \<longleftrightarrow> (if 0 \<le> k then d * 10 ^ nat k \<le> n else d \<le> n * 10 ^ nat (- k))"

fun dec_exp :: "nat \<Rightarrow> int \<Rightarrow> int \<Rightarrow> int \<Rightarrow> int" where
  "dec_exp 0 n d k = k"
| "dec_exp (Suc fuel) n d k =
     (if ge_pow10 n d (k + 1) then dec_exp fuel n d (k + 1)
      else if \<not> ge_pow10 n d k then dec_exp fuel n d (k - 1) else k)"

text \<open>
  The shortest digits: with \<open>p\<close> digits, the two neighbours of the value are tried, the
  nearer one first; the first \<open>p\<close> for which one of them rounds back to the float is taken
  (17 digits always do). The result is the digits and the decimal exponent of the last one.
\<close>

fun shortest :: "nat \<Rightarrow> nat \<Rightarrow> int \<Rightarrow> int \<Rightarrow> int \<Rightarrow> float64 \<Rightarrow> int \<times> int" where
  "shortest 0 p n d k x = (0, 0)"
| "shortest (Suc fuel) p n d k x =
     (let q = k - int p + 1;
          num = (if 0 \<le> q then n else n * 10 ^ nat (- q));
          den = (if 0 \<le> q then d * 10 ^ nat q else d);
          lo = num div den;
          near = round_div num den;
          far = (if near = lo then lo + 1 else lo)
      in if scaled_float False near 10 q = x then (near, q)
         else if scaled_float False far 10 q = x then (far, q)
         else shortest fuel (Suc p) n d k x)"

fun strip_zeros :: "nat \<Rightarrow> int \<Rightarrow> int \<Rightarrow> int \<times> int" where
  "strip_zeros 0 n q = (n, q)"
| "strip_zeros (Suc fuel) n q =
     (if n \<noteq> 0 \<and> n mod 10 = 0 then strip_zeros fuel (n div 10) (q + 1) else (n, q))"

text \<open>Digits and the position of the point (\<^verbatim>\<open>digs.d\<close> and \<^verbatim>\<open>digs.dp\<close>).\<close>

definition float_digits :: "int \<Rightarrow> int \<Rightarrow> string \<times> int" where
  "float_digits m e =
     (if m = 0 then ([], 0)
      else (let n = (if 0 \<le> e then m * pow2 e else m);
                d = (if 0 \<le> e then 1 else pow2 (- e));
                k = dec_exp 700 n d ((ilog2 m + e) * 3 div 10);
                (v, q) = shortest 17 1 n d k (FFin False m e);
                (v', q') = strip_zeros 20 v q;
                ds = pos_str v'
            in (ds, q' + int (length ds))))"

text \<open>\<^verbatim>\<open>fmtE\<close> and \<^verbatim>\<open>fmtF\<close> of the shortest digits.\<close>

definition exp_str :: "int \<Rightarrow> string" where
  "exp_str x =
     (let a = pos_str \<bar>x\<bar>
      in (if x < 0 then ''-'' else ''+'') @ (if length a < 2 then ''0'' @ a else a))"

definition fmt_e :: "string \<Rightarrow> int \<Rightarrow> string" where
  "fmt_e ds dp =
     (case ds of
        [] \<Rightarrow> ''0e+00''
      | c # r \<Rightarrow> c # (if r = [] then [] else CHR ''.'' # r) @ ''e'' @ exp_str (dp - 1))"

definition fmt_f :: "string \<Rightarrow> int \<Rightarrow> string" where
  "fmt_f ds dp =
     (if 0 < dp
      then (let k = nat dp in
            if length ds \<le> k then ds @ replicate (k - length ds) CHR ''0''
            else take k ds @ ''.'' @ drop k ds)
      else ''0'' @ (if ds = [] then [] else ''.'' @ replicate (nat (- dp)) CHR ''0'' @ ds))"

text \<open>
  \<^verbatim>\<open>%v\<close>, that is \<^verbatim>\<open>%g\<close> with the shortest digits: the exponent form below \<open>1e-4\<close> and
  from \<open>1e6\<close> on.
\<close>

fun float_fmt_v :: "float64 \<Rightarrow> string" where
  "float_fmt_v FNaN = ''NaN''"
| "float_fmt_v (FInf s) = (if s then ''-Inf'' else ''+Inf'')"
| "float_fmt_v (FFin s m e) =
     (let (ds, dp) = float_digits m e
      in (if s then ''-'' else []) @
         (if ds \<noteq> [] \<and> (dp - 1 < -4 \<or> 6 \<le> dp - 1) then fmt_e ds dp else fmt_f ds dp))"

text \<open>
  \<^verbatim>\<open>encoding/json\<close>: the exponent form below \<open>1e-6\<close> and from \<open>1e21\<close> on, with a
  one-digit negative exponent not padded. NaN and infinities are an error.
\<close>

definition json_exp_clean :: "string \<Rightarrow> string" where
  "json_exp_clean s =
     (let n = length s in
      if 4 \<le> n \<and> take 3 (drop (n - 4) s) = ''e-0'' then take (n - 2) s @ drop (n - 1) s else s)"

fun float_json :: "float64 \<Rightarrow> string option" where
  "float_json FNaN = None"
| "float_json (FInf s) = None"
| "float_json (FFin s m e) =
     (let (ds, dp) = float_digits m e
      in Some ((if s then ''-'' else []) @
           (if ds \<noteq> [] \<and> (dp - 1 < -6 \<or> 21 \<le> dp - 1) then json_exp_clean (fmt_e ds dp)
            else fmt_f ds dp)))"

end
