(* ===== verification/Go_Values.thy ===== *)
theory Go_Values
  imports Go_Float "HOL-Library.AList" "HOL-Library.List_Lexorder" "HOL-Library.Char_ord"
begin

text \<open>
  Dynamic values: what Go's \<^verbatim>\<open>any\<close> holds in the modelled code (values decoded from YAML
  and JSON, and the few that the code builds itself), \<^verbatim>\<open>map[string]any\<close>, their rendering by
  \<^verbatim>\<open>fmt.Sprint\<close> and \<^verbatim>\<open>json.Marshal\<close>, and \<^verbatim>\<open>json.Unmarshal\<close>.

  A map is an association list with distinct keys whose order stands for the order in which Go
  happens to iterate over it; \<open>None\<close> is the nil map, which reads like an empty one and cannot
  be written to.
\<close>

datatype gval =
    GNull
  | GBool bool
  | GInt int                       \<comment> \<open>\<^verbatim>\<open>int\<close>, \<^verbatim>\<open>int64\<close>\<close>
  | GFloat float64
  | GStr string
  | GList "gval list"              \<comment> \<open>\<^verbatim>\<open>[]any\<close>\<close>
  | GStrs "string list"            \<comment> \<open>\<^verbatim>\<open>[]string\<close>\<close>
  | GMap "(string \<times> gval) list"   \<comment> \<open>\<^verbatim>\<open>map[string]any\<close>\<close>
  | GNilMap                        \<comment> \<open>a nil \<^verbatim>\<open>map[string]any\<close> inside an \<^verbatim>\<open>any\<close>\<close>

type_synonym gomap = "(string \<times> gval) list option"

definition entries :: "gomap \<Rightarrow> (string \<times> gval) list" where
  "entries m = (case m of None \<Rightarrow> [] | Some kv \<Rightarrow> kv)"

definition mget :: "gomap \<Rightarrow> string \<Rightarrow> gval option" where
  "mget m k = map_of (entries m) k"

definition any_map :: "gomap \<Rightarrow> gval" where
  "any_map m = (case m of None \<Rightarrow> GNilMap | Some kv \<Rightarrow> GMap kv)"

text \<open>The type assertion \<^verbatim>\<open>v.(map[string]any)\<close>; \<open>None\<close> is \<^verbatim>\<open>ok == false\<close>.\<close>

definition as_map :: "gval \<Rightarrow> gomap option" where
  "as_map v = (case v of GMap kv \<Rightarrow> Some (Some kv) | GNilMap \<Rightarrow> Some None | _ \<Rightarrow> None)"

definition as_str :: "gval option \<Rightarrow> string" where
  "as_str v = (case v of Some (GStr s) \<Rightarrow> s | _ \<Rightarrow> [])"

lemma entries_simps [simp]: "entries None = []" "entries (Some kv) = kv"
  by (simp_all add: entries_def)

lemma mget_simps [simp]: "mget None k = None" "mget (Some kv) k = map_of kv k"
  by (simp_all add: mget_def)

lemma as_map_any_map [simp]: "as_map (any_map m) = Some m"
  by (simp add: as_map_def any_map_def split: option.splits)

section \<open>fmt.Sprint\<close>

fun gval_sprint :: "gval \<Rightarrow> string" where
  "gval_sprint GNull = ''<nil>''"
| "gval_sprint (GBool b) = (if b then ''true'' else ''false'')"
| "gval_sprint (GInt i) = int_str i"
| "gval_sprint (GFloat x) = float_fmt_v x"
| "gval_sprint (GStr s) = s"
| "gval_sprint (GList xs) = ''['' @ join_str (map gval_sprint xs) '' '' @ '']''"
| "gval_sprint (GStrs xs) = ''['' @ join_str xs '' '' @ '']''"
| "gval_sprint (GMap kv) =
     ''map['' @ join_str (map (\<lambda>e. fst e @ '':'' @ snd e)
                       (sort_key fst (map (\<lambda>e. (fst e, gval_sprint (snd e))) kv))) '' '' @ '']''"
| "gval_sprint GNilMap = ''map[]''"

section \<open>json.Marshal\<close>

definition hex_char :: "nat \<Rightarrow> char" where
  "hex_char n = (if n < 10 then char_of (48 + n) else char_of (87 + n))"

definition json_esc_u :: "nat \<Rightarrow> string" where
  "json_esc_u n = [CHR 0x5C, CHR ''u'', hex_char (n div 4096), hex_char (n div 256 mod 16),
                   hex_char (n div 16 mod 16), hex_char (n mod 16)]"

definition json_rune :: "nat \<Rightarrow> nat \<Rightarrow> string" where
  "json_rune r w =
     (if r = 34 \<or> r = 92 then [CHR 0x5C, char_of r]
      else if r = 8 then [CHR 0x5C, CHR ''b'']
      else if r = 12 then [CHR 0x5C, CHR ''f'']
      else if r = 10 then [CHR 0x5C, CHR ''n'']
      else if r = 13 then [CHR 0x5C, CHR ''r'']
      else if r = 9 then [CHR 0x5C, CHR ''t'']
      else if r < 32 \<or> r = 60 \<or> r = 62 \<or> r = 38 then json_esc_u r
      else if r = rune_error \<and> w = 1 then json_esc_u rune_error
      else if r = 8232 \<or> r = 8233 then json_esc_u r
      else encode_rune r)"

definition json_ascii :: "nat \<Rightarrow> string" where
  "json_ascii r =
     (if r = 34 \<or> r = 92 then [CHR 0x5C, char_of r]
      else if r = 8 then [CHR 0x5C, CHR ''b'']
      else if r = 12 then [CHR 0x5C, CHR ''f'']
      else if r = 10 then [CHR 0x5C, CHR ''n'']
      else if r = 13 then [CHR 0x5C, CHR ''r'']
      else if r = 9 then [CHR 0x5C, CHR ''t'']
      else if r < 32 \<or> r = 60 \<or> r = 62 \<or> r = 38 then json_esc_u r
      else [char_of r])"

definition json_wide :: "nat \<Rightarrow> nat \<Rightarrow> string" where
  "json_wide r w =
     (if r = rune_error \<and> w = 1 then json_esc_u rune_error
      else if r = 8232 \<or> r = 8233 then json_esc_u r
      else encode_rune r)"

lemma json_rune_code [code]: "json_rune r w = (if r < 128 then json_ascii r else json_wide r w)"
  by (auto simp: json_rune_def json_ascii_def json_wide_def rune_error_def encode_rune_def)

function json_str_body :: "string \<Rightarrow> string" where
  "json_str_body s =
     (if s = [] then []
      else json_rune (fst (decode_rune s)) (snd (decode_rune s))
             @ json_str_body (drop (snd (decode_rune s)) s))"
  by pat_completeness auto
termination
  by (relation "measure length") (auto dest: decode_rune_width)

declare json_str_body.simps [simp del]

definition json_str :: "string \<Rightarrow> string" where
  "json_str s = CHR 0x22 # json_str_body s @ [CHR 0x22]"

fun opt_all :: "'a option list \<Rightarrow> 'a list option" where
  "opt_all [] = Some []"
| "opt_all (None # xs) = None"
| "opt_all (Some x # xs) = map_option ((#) x) (opt_all xs)"

text \<open>\<open>None\<close> is the error of a NaN or an infinity.\<close>

fun gval_json :: "gval \<Rightarrow> string option" where
  "gval_json GNull = Some ''null''"
| "gval_json (GBool b) = Some (if b then ''true'' else ''false'')"
| "gval_json (GInt i) = Some (int_str i)"
| "gval_json (GFloat x) = float_json x"
| "gval_json (GStr s) = Some (json_str s)"
| "gval_json (GList xs) =
     map_option (\<lambda>ys. ''['' @ join_str ys '','' @ '']'') (opt_all (map gval_json xs))"
| "gval_json (GStrs xs) = Some (''['' @ join_str (map json_str xs) '','' @ '']'')"
| "gval_json (GMap kv) =
     map_option (\<lambda>ys. ''{'' @ join_str ys '','' @ ''}'')
       (opt_all (map (\<lambda>e. map_option (\<lambda>j. json_str (fst e) @ '':'' @ j) (snd e))
          (sort_key fst (map (\<lambda>e. (fst e, gval_json (snd e))) kv))))"
| "gval_json GNilMap = Some ''null''"

definition gomap_json :: "gomap \<Rightarrow> string option" where
  "gomap_json m = gval_json (any_map m)"

section \<open>json.Unmarshal\<close>

fun skip_ws :: "string \<Rightarrow> string" where
  "skip_ws [] = []"
| "skip_ws (c # s) = (if byte c = 32 \<or> byte c = 9 \<or> byte c = 10 \<or> byte c = 13 then skip_ws s else c # s)"

definition hex4 :: "string \<Rightarrow> nat option" where
  "hex4 s =
     (case s of
        a # b # c # d # _ \<Rightarrow>
          (case (hex_digit a, hex_digit b, hex_digit c, hex_digit d) of
             (Some x, Some y, Some z, Some w) \<Rightarrow>
                Some (nat (x * 4096 + y * 256 + z * 16 + w))
           | _ \<Rightarrow> None)
      | _ \<Rightarrow> None)"

text \<open>
  A \<^verbatim>\<open>\u\<close> escape, after its four digits: a high surrogate takes the low surrogate escape
  that follows; a lone surrogate becomes U+FFFD.
\<close>

definition json_u :: "nat \<Rightarrow> string \<Rightarrow> nat \<times> string" where
  "json_u r rest =
     (if 55296 \<le> r \<and> r < 57344
      then (case rest of
              a # b # s \<Rightarrow>
                (if a = CHR 0x5C \<and> b = CHR ''u''
                 then case hex4 s of
                        Some r2 \<Rightarrow>
                          (if r < 56320 \<and> 56320 \<le> r2 \<and> r2 < 57344
                           then ((r - 55296) * 1024 + (r2 - 56320) + 65536, drop 4 s)
                           else (rune_error, rest))
                      | None \<Rightarrow> (rune_error, rest)
                 else (rune_error, rest))
            | _ \<Rightarrow> (rune_error, rest))
      else (r, rest))"

text \<open>The body of a string literal up to its closing quote; the accumulator is the result.\<close>

fun json_chars :: "nat \<Rightarrow> string \<Rightarrow> string \<Rightarrow> (string \<times> string) option" where
  "json_chars 0 s acc = None"
| "json_chars (Suc fuel) s acc =
     (case s of
        [] \<Rightarrow> None
      | c # r \<Rightarrow>
         (if byte c = 34 then Some (acc, r)
          else if byte c < 32 then None
          else if byte c = 92
          then (case r of
                  [] \<Rightarrow> None
                | e # r1 \<Rightarrow>
                   (if e = CHR ''u''
                    then case hex4 r1 of
                           None \<Rightarrow> None
                         | Some v \<Rightarrow>
                            (let (rn, r2) = json_u v (drop 4 r1)
                             in json_chars fuel r2 (acc @ encode_rune rn))
                    else if byte e = 34 \<or> byte e = 92 \<or> e = CHR ''/'' then json_chars fuel r1 (acc @ [e])
                    else if e = CHR ''b'' then json_chars fuel r1 (acc @ [char_of (8::nat)])
                    else if e = CHR ''f'' then json_chars fuel r1 (acc @ [char_of (12::nat)])
                    else if e = CHR ''n'' then json_chars fuel r1 (acc @ [char_of (10::nat)])
                    else if e = CHR ''r'' then json_chars fuel r1 (acc @ [char_of (13::nat)])
                    else if e = CHR ''t'' then json_chars fuel r1 (acc @ [char_of (9::nat)])
                    else None))
          else (let (rn, w) = decode_rune s
                in json_chars fuel (drop w s) (acc @ encode_rune rn))))"

definition json_string :: "string \<Rightarrow> (string \<times> string) option" where
  "json_string s = json_chars (Suc (length s)) s []"

text \<open>The number grammar of JSON: the literal and what follows it.\<close>

definition take_digits :: "string \<Rightarrow> string \<times> string" where
  "take_digits s = (takeWhile (\<lambda>c. dec_digit c \<noteq> None) s, dropWhile (\<lambda>c. dec_digit c \<noteq> None) s)"

definition json_num_int :: "string \<Rightarrow> (string \<times> string) option" where
  "json_num_int s =
     (let (sgn, r) = (case s of c # r \<Rightarrow> if c = CHR ''-'' then ([c], r) else ([], s) | [] \<Rightarrow> ([], []));
          (ds, r1) = take_digits r
      in if ds = [] then None
         else if hd ds = CHR ''0'' then Some (sgn @ ''0'', drop 1 r)
         else Some (sgn @ ds, r1))"

definition json_num_frac :: "string \<Rightarrow> (string \<times> string) option" where
  "json_num_frac s =
     (case s of
        c # r \<Rightarrow> if c = CHR ''.''
                 then (let (ds, r1) = take_digits r in if ds = [] then None else Some (c # ds, r1))
                 else Some ([], s)
      | [] \<Rightarrow> Some ([], []))"

definition json_num_exp :: "string \<Rightarrow> (string \<times> string) option" where
  "json_num_exp s =
     (case s of
        c # r \<Rightarrow>
          if lower_char c = CHR ''e''
          then (let (sgn, r1) = (case r of
                                   d # q \<Rightarrow> if d = CHR ''+'' \<or> d = CHR ''-'' then ([d], q) else ([], r)
                                 | [] \<Rightarrow> ([], []));
                    (ds, r2) = take_digits r1
                in if ds = [] then None else Some (c # sgn @ ds, r2))
          else Some ([], s)
      | [] \<Rightarrow> Some ([], []))"

definition json_number :: "string \<Rightarrow> (float64 \<times> string) option" where
  "json_number s =
     (case json_num_int s of
        None \<Rightarrow> None
      | Some (a, r1) \<Rightarrow>
         (case json_num_frac r1 of
            None \<Rightarrow> None
          | Some (b, r2) \<Rightarrow>
             (case json_num_exp r2 of
                None \<Rightarrow> None
              | Some (c, r3) \<Rightarrow> map_option (\<lambda>x. (x, r3)) (parse_float (a @ b @ c)))))"

text \<open>
  Values. The fuel bounds the recursion and is never short (each call consumes a byte); the
  depth is \<^verbatim>\<open>encoding/json\<close>'s limit of 10000 nested values. Members are kept in document
  order, repeated keys included; \<open>dedup\<close> then lets a later one overwrite.
\<close>

fun json_val :: "nat \<Rightarrow> int \<Rightarrow> string \<Rightarrow> (gval \<times> string) option"
  and json_elems :: "nat \<Rightarrow> int \<Rightarrow> string \<Rightarrow> gval list \<Rightarrow> (gval list \<times> string) option"
  and json_members :: "nat \<Rightarrow> int \<Rightarrow> string \<Rightarrow> (string \<times> gval) list
        \<Rightarrow> ((string \<times> gval) list \<times> string) option" where
  "json_val 0 d s = None"
| "json_val (Suc fuel) d s =
     (case skip_ws s of
        [] \<Rightarrow> None
      | c # r \<Rightarrow>
         (if c = CHR ''{''
          then (if 10000 < d then None
                else case skip_ws r of
                       [] \<Rightarrow> None
                     | e # r1 \<Rightarrow>
                        (if e = CHR ''}'' then Some (GMap [], r1)
                         else map_option (\<lambda>(kv, q). (GMap kv, q)) (json_members fuel (d + 1) r [])))
          else if c = CHR ''[''
          then (if 10000 < d then None
                else case skip_ws r of
                       [] \<Rightarrow> None
                     | e # r1 \<Rightarrow>
                        (if e = CHR '']'' then Some (GList [], r1)
                         else map_option (\<lambda>(xs, q). (GList xs, q)) (json_elems fuel (d + 1) r [])))
          else if byte c = 34 then map_option (\<lambda>(x, q). (GStr x, q)) (json_string r)
          else if has_prefix (c # r) ''null'' then Some (GNull, drop 4 (c # r))
          else if has_prefix (c # r) ''true'' then Some (GBool True, drop 4 (c # r))
          else if has_prefix (c # r) ''false'' then Some (GBool False, drop 5 (c # r))
          else map_option (\<lambda>(x, q). (GFloat x, q)) (json_number (c # r))))"
| "json_elems 0 d s acc = None"
| "json_elems (Suc fuel) d s acc =
     (case json_val fuel d s of
        None \<Rightarrow> None
      | Some (v, r) \<Rightarrow>
         (case skip_ws r of
            [] \<Rightarrow> None
          | c # r1 \<Rightarrow>
             (if c = CHR '','' then json_elems fuel d r1 (acc @ [v])
              else if c = CHR '']'' then Some (acc @ [v], r1) else None)))"
| "json_members 0 d s acc = None"
| "json_members (Suc fuel) d s acc =
     (case skip_ws s of
        [] \<Rightarrow> None
      | c # r \<Rightarrow>
         (if byte c \<noteq> 34 then None
          else case json_string r of
             None \<Rightarrow> None
           | Some (k, r1) \<Rightarrow>
              (case skip_ws r1 of
                 [] \<Rightarrow> None
               | c1 # r2 \<Rightarrow>
                  (if c1 \<noteq> CHR '':'' then None
                   else case json_val fuel d r2 of
                      None \<Rightarrow> None
                    | Some (v, r3) \<Rightarrow>
                       (case skip_ws r3 of
                          [] \<Rightarrow> None
                        | c2 # r4 \<Rightarrow>
                           (if c2 = CHR '','' then json_members fuel d r4 (acc @ [(k, v)])
                            else if c2 = CHR ''}'' then Some (acc @ [(k, v)], r4)
                            else None))))))"

fun dedup :: "gval \<Rightarrow> gval" where
  "dedup (GMap kv) =
     GMap (foldl (\<lambda>m e. AList.update (fst e) (snd e) m) [] (map (\<lambda>e. (fst e, dedup (snd e))) kv))"
| "dedup (GList xs) = GList (map dedup xs)"
| "dedup v = v"

text \<open>The whole document; \<open>None\<close> is a syntax error.\<close>

definition json_parse_raw :: "string \<Rightarrow> gval option" where
  "json_parse_raw s =
     (case json_val (2 * length s + 2) 1 s of
        None \<Rightarrow> None
      | Some (v, r) \<Rightarrow> if skip_ws r = [] then Some v else None)"

definition json_parse :: "string \<Rightarrow> gval option" where
  "json_parse s = map_option dedup (json_parse_raw s)"

text \<open>\<^verbatim>\<open>json.Unmarshal(b, &m)\<close> into a nil \<^verbatim>\<open>map[string]any\<close>: \<open>None\<close> is an error.\<close>

definition json_parse_map :: "string \<Rightarrow> gomap option" where
  "json_parse_map s =
     (case json_parse s of
        Some (GMap kv) \<Rightarrow> Some (Some kv)
      | Some GNull \<Rightarrow> Some None
      | _ \<Rightarrow> None)"

text \<open>
  \<^verbatim>\<open>json.Unmarshal\<close> into a struct with one string field: the keys that equal its name up
  to case are assigned in document order, null leaves the field as it is, any other value is
  an error (as is a document that is neither an object nor null). \<open>None\<close> is an error.
\<close>

fun assign_field :: "string \<Rightarrow> string \<Rightarrow> (string \<times> gval) list \<Rightarrow> string option" where
  "assign_field name cur [] = Some cur"
| "assign_field name cur ((k, v) # kv) =
     (if equal_fold k name
      then (case v of
              GStr s \<Rightarrow> assign_field name s kv
            | GNull \<Rightarrow> assign_field name cur kv
            | _ \<Rightarrow> None)
      else assign_field name cur kv)"

definition json_parse_field :: "string \<Rightarrow> string \<Rightarrow> string option" where
  "json_parse_field name s =
     (case json_parse_raw s of
        Some (GMap kv) \<Rightarrow> assign_field name [] kv
      | Some GNull \<Rightarrow> Some []
      | _ \<Rightarrow> None)"

end
