(* ===== verification/Workflow_Types.thy ===== *)
theory Workflow_Types
  imports Go_Values
begin

text \<open>
  The value types of the workflow subsystem (\<^verbatim>\<open>internal/workflow/types.go\<close>): the
  definition of a workflow (nodes, edges, schemas), the status of a run or of a node, and what
  a run returns. The string enumerations of the source are datatypes with one more constructor
  for a string that is none of the constants, which a YAML file may contain.
\<close>

datatype status =
    StatusRunning
  | StatusSucceeded
  | StatusFailed
  | StatusNeedsIntervention
  | StatusWaiting

definition resumable :: "status \<Rightarrow> bool" where
  "resumable st \<longleftrightarrow> st = StatusWaiting \<or> st = StatusFailed"

datatype node_kind =
    KindTool
  | KindLLM
  | KindCode
  | KindReply
  | KindQuestionRewrite
  | KindHTTP
  | KindKBSearch
  | KindSet
  | KindCondition
  | KindForm
  | KindOther string

datatype side_effect =
    SidePure
  | SideIdempotent
  | SideNonIdempotent
  | SideOther string     \<comment> \<open>among them the empty string, which means pure\<close>

datatype concurrency =
    ConcurrencyAllow
  | ConcurrencySerial
  | ConcurrencyCancelPrevious
  | ConcurrencyOther string

record wf_node =
  n_name :: string
  n_kind :: node_kind
  n_tool :: string
  n_input :: gomap
  n_prompt :: string
  n_code :: string
  n_language :: string
  n_output :: gomap
  n_side :: side_effect

record wf_edge =
  e_from :: string
  e_to :: string
  e_when :: string
  e_desc :: string

definition when_default :: string where
  "when_default = ''default''"

definition when_llm_route :: string where
  "when_llm_route = ''llm_route''"

record wf_def =
  d_id :: string
  d_version :: int
  d_title :: string
  d_description :: string
  d_schema :: gomap
  d_nodes :: "wf_node list"
  d_edges :: "wf_edge list"
  d_output :: gomap
  d_concurrency :: concurrency

text \<open>
  One node's outcome inside the snapshot, the pending form of a waiting run, and the result of
  a run. \<open>'e\<close> is the type of the errors (\<^verbatim>\<open>Workflow_Runner\<close> gives it): the model keeps
  the error itself where the source keeps its rendered text.
\<close>

record 'e node_output =
  o_name :: string
  o_kind :: node_kind
  o_status :: status
  o_output :: gomap
  o_error :: "'e option"
  o_attempt :: int

record pending_form =
  pf_node :: string
  pf_schema :: gomap

record 'e execution_result =
  r_run_id :: string
  r_status :: status
  r_result :: gomap
  r_error :: "(string \<times> 'e) option"
  r_pending :: "pending_form option"
  r_snapshot :: "(string \<times> 'e node_output) list"

text \<open>The progress events of a run, in the order the sink receives them.\<close>

datatype 'e run_event =
    NodeStart string
  | NodeComplete string status gomap "'e option"
  | Done status gomap

end
