(* ===== verification/Workflow_Graph.thy ===== *)
theory Workflow_Graph
  imports Workflow_Types
begin

text \<open>
  The graph functions of \<^verbatim>\<open>internal/workflow/runner.go\<close> and \<^verbatim>\<open>validate.go\<close>: the
  in-degrees, Kahn's algorithm, the entry node and the edges that leave a node.

  The main results: Kahn's algorithm accepts exactly the definitions whose node names are
  distinct, whose edges join declared nodes and whose edge relation has no cycle, and the
  order it returns lists every node once, each after all its predecessors.
\<close>

section \<open>Definitions\<close>

definition node_names :: "wf_def \<Rightarrow> string list" where
  "node_names def = map n_name (d_nodes def)"

fun add_indegrees :: "(string \<Rightarrow> int) \<Rightarrow> wf_edge list \<Rightarrow> string \<Rightarrow> int" where
  "add_indegrees ind [] = ind"
| "add_indegrees ind (e # es) = add_indegrees (ind(e_to e := ind (e_to e) + 1)) es"

text \<open>A Go map of counters reads 0 at an absent key, so it is a total function.\<close>

definition indegree :: "wf_def \<Rightarrow> string \<Rightarrow> int" where
  "indegree def = add_indegrees (\<lambda>_. 0) (d_edges def)"

definition out_edges :: "wf_edge list \<Rightarrow> string \<Rightarrow> wf_edge list" where
  "out_edges es n = filter (\<lambda>e. e_from e = n) es"

definition successors :: "wf_edge list \<Rightarrow> string \<Rightarrow> string list" where
  "successors es n = map e_to (out_edges es n)"

datatype topo_error =
    DuplicateNode string
  | EdgeFromUnknown string
  | EdgeToUnknown string
  | HasCycle

fun check_dups :: "string list \<Rightarrow> string list \<Rightarrow> topo_error option" where
  "check_dups seen [] = None"
| "check_dups seen (n # ns) =
     (if n \<in> set seen then Some (DuplicateNode n) else check_dups (n # seen) ns)"

definition check_edge :: "string list \<Rightarrow> wf_edge \<Rightarrow> topo_error option" where
  "check_edge names e =
     (if e_from e \<notin> set names then Some (EdgeFromUnknown (e_from e))
      else if e_to e \<notin> set names then Some (EdgeToUnknown (e_to e))
      else None)"

text \<open>The inner loop over the successors of the node just taken.\<close>

fun relax :: "(string \<Rightarrow> int) \<Rightarrow> string list \<Rightarrow> string list \<Rightarrow> (string \<Rightarrow> int) \<times> string list" where
  "relax ind ready [] = (ind, ready)"
| "relax ind ready (m # ms) =
     relax (ind(m := ind m - 1)) (if ind m - 1 = 0 then ready @ [m] else ready) ms"

text \<open>
  The outer loop. It stops because a node enters the queue only when its counter goes from 1
  to 0: the queue's length plus the number of edge targets with a positive counter decreases.
\<close>

definition pending :: "wf_edge list \<Rightarrow> (string \<Rightarrow> int) \<Rightarrow> nat" where
  "pending es ind = card {v \<in> e_to ` set es. 0 < ind v}"

lemma relax_pending:
  assumes "set ms \<subseteq> e_to ` set es" and "relax ind ready ms = (ind', ready')"
  shows "pending es ind' + length ready' \<le> pending es ind + length ready"
  using assms
proof (induction ms arbitrary: ind ready)
  case (Cons m ms)
  let ?ind = "ind(m := ind m - 1)"
  let ?ready = "if ind m - 1 = 0 then ready @ [m] else ready"
  have "pending es ind' + length ready' \<le> pending es ?ind + length ?ready"
    using Cons by (auto split: if_splits)
  also have "\<dots> \<le> pending es ind + length ready"
  proof (cases "ind m = 1")
    case True
    then have "{v \<in> e_to ` set es. 0 < ind v} = insert m {v \<in> e_to ` set es. 0 < ?ind v}"
      using Cons.prems(1) by auto
    with True have "pending es ind = Suc (pending es ?ind)"
      by (simp add: pending_def)
    with True show ?thesis by simp
  next
    case False
    have "{v \<in> e_to ` set es. 0 < ?ind v} \<subseteq> {v \<in> e_to ` set es. 0 < ind v}"
      by auto
    with False show ?thesis by (simp add: pending_def card_mono)
  qed
  finally show ?case .
qed simp

lemma successors_subset: "set (successors es n) \<subseteq> e_to ` set es"
  by (auto simp: successors_def out_edges_def)

function kahn :: "wf_edge list \<Rightarrow> (string \<Rightarrow> int) \<Rightarrow> string list \<Rightarrow> string list \<Rightarrow> string list" where
  "kahn es ind [] order = order"
| "kahn es ind (n # ready) order =
     (let (ind', ready') = relax ind ready (successors es n)
      in kahn es ind' ready' (order @ [n]))"
  by pat_completeness auto
termination
  by (relation "measure (\<lambda>(es, ind, ready, order). pending es ind + length ready)")
    (auto dest!: relax_pending [OF successors_subset, OF sym])

definition topo_order :: "wf_def \<Rightarrow> (topo_error, string list) res" where
  "topo_order def =
     (let names = node_names def in
      case check_dups [] names of
        Some e \<Rightarrow> Inl e
      | None \<Rightarrow>
         (case first_error (check_edge names) (d_edges def) of
            Some e \<Rightarrow> Inl e
          | None \<Rightarrow>
             (let ready = filter (\<lambda>n. indegree def n = 0) names;
                  order = kahn (d_edges def) (indegree def) ready []
              in if length order \<noteq> length names then Inl HasCycle else Inr order)))"

text \<open>A name no node has gives a node with that name and nothing else (Go's zero values).\<close>

definition zero_node :: "string \<Rightarrow> wf_node" where
  "zero_node name =
     \<lparr>n_name = name, n_kind = KindOther [], n_tool = [], n_input = None, n_prompt = [],
      n_code = [], n_language = [], n_output = None, n_side = SideOther []\<rparr>"

definition node_by_name :: "wf_def \<Rightarrow> string \<Rightarrow> wf_node" where
  "node_by_name def name =
     (case find (\<lambda>n. n_name n = name) (d_nodes def) of Some n \<Rightarrow> n | None \<Rightarrow> zero_node name)"

text \<open>The empty string is the answer when no node has in-degree 0.\<close>

definition entry_node :: "wf_def \<Rightarrow> string" where
  "entry_node def =
     (case find (\<lambda>n. indegree def n = 0) (node_names def) of Some n \<Rightarrow> n | None \<Rightarrow> [])"

section \<open>In-degrees\<close>

text \<open>\<open>in_count es S v\<close>: the edges into \<open>v\<close> whose source is outside \<open>S\<close>.\<close>

definition in_count :: "wf_edge list \<Rightarrow> string set \<Rightarrow> string \<Rightarrow> nat" where
  "in_count es S v = length (filter (\<lambda>e. e_to e = v \<and> e_from e \<notin> S) es)"

lemma add_indegrees_eq:
  "add_indegrees ind es v = ind v + int (length (filter (\<lambda>e. e_to e = v) es))"
  by (induction es arbitrary: ind) auto

lemma indegree_eq: "indegree def v = int (in_count (d_edges def) {} v)"
  by (simp add: indegree_def add_indegrees_eq in_count_def)

lemma in_count_0_iff: "in_count es S v = 0 \<longleftrightarrow> (\<forall>e\<in>set es. e_to e = v \<longrightarrow> e_from e \<in> S)"
  by (auto simp: in_count_def filter_empty_conv)

lemma in_count_insert:
  "n \<notin> S \<Longrightarrow> in_count es S v = in_count es (insert n S) v + count_list (successors es n) v"
  by (induction es) (auto simp: in_count_def successors_def out_edges_def)

section \<open>Kahn's algorithm\<close>

lemma relax_ind: "relax ind ready ms = (ind', ready') \<Longrightarrow> ind' v = ind v - int (count_list ms v)"
  by (induction ms arbitrary: ind ready) (auto split: if_splits)

text \<open>
  The queue gains, once each, the nodes whose counter the loop brings to 0. The premise says
  that no counter goes below 0.
\<close>

lemma relax_ready:
  assumes "relax ind ready ms = (ind', ready')" and "\<And>v. int (count_list ms v) \<le> ind v"
  shows "\<exists>new. ready' = ready @ new \<and> distinct new \<and> set new = {v \<in> set ms. ind' v = 0}"
  using assms
proof (induction ms arbitrary: ind ready)
  case (Cons m ms)
  let ?ind = "ind(m := ind m - 1)"
  let ?ready = "if ind m - 1 = 0 then ready @ [m] else ready"
  have r: "relax ?ind ?ready ms = (ind', ready')"
    using Cons.prems(1) by simp
  have le: "int (count_list ms v) \<le> ?ind v" for v
    using Cons.prems(2) [of v] by (auto split: if_splits)
  obtain new where new: "ready' = ?ready @ new" "distinct new"
      "set new = {v \<in> set ms. ind' v = 0}"
    using Cons.IH [OF r le] by blast
  have m: "ind' m = ind m - 1 - int (count_list ms m)"
    using relax_ind [OF r, of m] by simp
  show ?case
  proof (cases "ind m = 1")
    case True
    then have "m \<notin> set ms" using le [of m] by (simp add: count_list_0_iff)
    with True m new show ?thesis
      by (intro exI [of _ "m # new"]) (auto simp: count_list_0_iff)
  next
    case False
    then have "m \<in> set ms" if "ind' m = 0"
      using that m count_list_0_iff [of ms m] by auto
    with False new show ?thesis by (intro exI [of _ new]) auto
  qed
qed simp

definition topo_closed :: "wf_edge list \<Rightarrow> string list \<Rightarrow> bool" where
  "topo_closed es order \<longleftrightarrow>
     (\<forall>xs v ys. order = xs @ v # ys \<longrightarrow> (\<forall>e\<in>set es. e_to e = v \<longrightarrow> e_from e \<in> set xs))"

definition kahn_inv ::
  "wf_edge list \<Rightarrow> string list \<Rightarrow> (string \<Rightarrow> int) \<Rightarrow> string list \<Rightarrow> string list \<Rightarrow> bool" where
  "kahn_inv es names ind ready order \<longleftrightarrow>
     distinct (order @ ready) \<and> set (order @ ready) \<subseteq> set names
     \<and> (\<forall>v. ind v = int (in_count es (set order) v))
     \<and> (\<forall>v\<in>set names. ind v = 0 \<longleftrightarrow> v \<in> set (order @ ready))
     \<and> topo_closed es order"

lemma topo_closed_snoc:
  assumes "topo_closed es order" and "in_count es (set order) n = 0"
  shows "topo_closed es (order @ [n])"
  unfolding topo_closed_def
proof (intro allI impI)
  fix xs v ys
  assume "order @ [n] = xs @ v # ys"
  then consider "ys = []" "v = n" "xs = order" | ys' where "order = xs @ v # ys'"
    by (cases ys rule: rev_cases) auto
  then show "\<forall>e\<in>set es. e_to e = v \<longrightarrow> e_from e \<in> set xs"
  proof cases
    case 1
    then show ?thesis using assms(2) by (simp add: in_count_0_iff)
  next
    case 2
    then show ?thesis using assms(1) by (auto simp: topo_closed_def)
  qed
qed

lemma kahn_inv_step:
  assumes inv: "kahn_inv es names ind (n # ready) order"
    and targets: "e_to ` set es \<subseteq> set names"
    and r: "relax ind ready (successors es n) = (ind', ready')"
  shows "kahn_inv es names ind' ready' (order @ [n])"
proof -
  let ?ms = "successors es n"
  have n: "n \<notin> set order" "n \<in> set names" "n \<notin> set ready"
    and ind: "\<And>v. ind v = int (in_count es (set order) v)"
    and zero: "\<And>v. v \<in> set names \<Longrightarrow> ind v = 0 \<longleftrightarrow> v \<in> set (order @ n # ready)"
    and closed: "topo_closed es order"
    and dist: "distinct (order @ n # ready)" "set (order @ n # ready) \<subseteq> set names"
    using inv by (auto simp: kahn_inv_def)
  have cnt: "in_count es (set order) v = in_count es (set (order @ [n])) v + count_list ?ms v" for v
    using in_count_insert [OF n(1), of es v] by simp
  have le: "int (count_list ?ms v) \<le> ind v" for v
    using cnt [of v] ind [of v] by simp
  have ind': "ind' v = int (in_count es (set (order @ [n])) v)" for v
    using relax_ind [OF r, of v] ind [of v] cnt [of v] by simp
  obtain new where new: "ready' = ready @ new" "distinct new" "set new = {v \<in> set ?ms. ind' v = 0}"
    using relax_ready [OF r le] by blast
  have ms: "set ?ms \<subseteq> set names"
    using targets successors_subset by blast
  have pos: "ind v \<noteq> 0" if "v \<in> set ?ms" for v
    using that le [of v] count_list_0_iff [of ?ms v] by auto
  have fresh: "set new \<inter> set (order @ n # ready) = {}"
    using new(3) pos zero ms by blast
  have zero': "ind' v = 0 \<longleftrightarrow> v \<in> set (order @ n # ready) \<union> set new" if v: "v \<in> set names" for v
  proof (cases "v \<in> set ?ms")
    case True
    then show ?thesis using new(3) pos zero v by blast
  next
    case False
    then have "ind' v = ind v"
      using relax_ind [OF r, of v] count_list_0_iff [of ?ms v] by simp
    with False new(3) zero [OF v] show ?thesis by auto
  qed
  have "in_count es (set order) n = 0"
    using zero [OF n(2)] ind [of n] by simp
  then have "topo_closed es (order @ [n])"
    using topo_closed_snoc closed by blast
  moreover have "distinct ((order @ [n]) @ ready')"
    using dist(1) new(1,2) fresh by auto
  moreover have "set ((order @ [n]) @ ready') \<subseteq> set names"
    using dist(2) new(1,3) ms by auto
  moreover have "\<forall>v\<in>set names. ind' v = 0 \<longleftrightarrow> v \<in> set ((order @ [n]) @ ready')"
    using zero' new(1) by auto
  ultimately show ?thesis
    using ind' by (simp add: kahn_inv_def)
qed

lemma kahn_inv_final:
  assumes "kahn_inv es names ind ready order" and "e_to ` set es \<subseteq> set names"
  shows "\<exists>ind'. kahn_inv es names ind' [] (kahn es ind ready order)"
  using assms
proof (induction es ind ready order rule: kahn.induct)
  case (1 es ind order)
  then show ?case by auto
next
  case (2 es ind n ready order)
  obtain ind' ready' where r: "relax ind ready (successors es n) = (ind', ready')"
    by fastforce
  have "kahn_inv es names ind' ready' (order @ [n])"
    using kahn_inv_step [OF "2.prems" r] .
  then show ?case
    using "2.IH" [OF r [symmetric] refl _ "2.prems"(2)] r by simp
qed

lemma kahn_inv_init:
  assumes "distinct names"
  shows "kahn_inv (d_edges def) names (indegree def) (filter (\<lambda>n. indegree def n = 0) names) []"
  using assms by (auto simp: kahn_inv_def indegree_eq topo_closed_def)

section \<open>What the checks accept\<close>

lemma check_dups_None_iff:
  "check_dups seen ns = None \<longleftrightarrow> distinct ns \<and> set ns \<inter> set seen = {}"
  by (induction ns arbitrary: seen) auto

lemma check_edge_None_iff [simp]:
  "check_edge names e = None \<longleftrightarrow> e_from e \<in> set names \<and> e_to e \<in> set names"
  by (simp add: check_edge_def)

definition edge_rel :: "wf_edge list \<Rightarrow> (string \<times> string) set" where
  "edge_rel es = (\<lambda>e. (e_from e, e_to e)) ` set es"

definition graph_ok :: "wf_def \<Rightarrow> bool" where
  "graph_ok def \<longleftrightarrow>
     distinct (node_names def)
     \<and> (\<forall>e\<in>set (d_edges def). e_from e \<in> set (node_names def) \<and> e_to e \<in> set (node_names def))"

lemma finite_edge_rel [simp]: "finite (edge_rel es)"
  by (simp add: edge_rel_def)

lemma kahn_result:
  assumes "graph_ok def"
  shows "\<exists>ind. kahn_inv (d_edges def) (node_names def) ind []
           (kahn (d_edges def) (indegree def)
              (filter (\<lambda>n. indegree def n = 0) (node_names def)) [])"
  using assms
  by (intro kahn_inv_final kahn_inv_init) (auto simp: graph_ok_def)

lemma topo_order_Inr_iff:
  "topo_order def = Inr order \<longleftrightarrow>
     graph_ok def
     \<and> order = kahn (d_edges def) (indegree def) (filter (\<lambda>n. indegree def n = 0) (node_names def)) []
     \<and> length order = length (node_names def)"
proof -
  have "graph_ok def \<longleftrightarrow> check_dups [] (node_names def) = None
      \<and> first_error (check_edge (node_names def)) (d_edges def) = None"
    by (simp add: graph_ok_def check_dups_None_iff)
  then show ?thesis
    by (cases "check_dups [] (node_names def)";
        cases "first_error (check_edge (node_names def)) (d_edges def)")
      (auto simp: topo_order_def Let_def simp del: first_error_None_iff)
qed

lemma topo_order_facts:
  assumes "topo_order def = Inr order"
  shows "distinct order" and "set order = set (node_names def)" and "topo_closed (d_edges def) order"
proof -
  have ok: "graph_ok def" and len: "length order = length (node_names def)"
    and order: "order = kahn (d_edges def) (indegree def)
                  (filter (\<lambda>n. indegree def n = 0) (node_names def)) []"
    using assms by (auto simp: topo_order_Inr_iff)
  obtain ind where inv: "kahn_inv (d_edges def) (node_names def) ind [] order"
    using kahn_result [OF ok] order by blast
  then show dist: "distinct order" and "topo_closed (d_edges def) order"
    by (auto simp: kahn_inv_def)
  have "set order \<subseteq> set (node_names def)"
    using inv by (auto simp: kahn_inv_def)
  moreover have "card (set order) = card (set (node_names def))"
    using dist ok len by (simp add: distinct_card graph_ok_def)
  ultimately show "set order = set (node_names def)"
    by (simp add: card_subset_eq)
qed

text \<open>Positions in a topological order increase along every edge.\<close>

definition rank :: "string list \<Rightarrow> string \<Rightarrow> nat" where
  "rank order v = length (takeWhile (\<lambda>w. w \<noteq> v) order)"

lemma rank_less_length: "v \<in> set order \<Longrightarrow> rank order v < length order"
  by (induction order) (auto simp: rank_def)

lemma rank_append: "v \<notin> set xs \<Longrightarrow> rank (xs @ v # ys) v = length xs"
  by (induction xs) (auto simp: rank_def)

lemma topo_closed_rank:
  assumes "topo_closed es order" and "e \<in> set es" and "e_to e \<in> set order"
  shows "rank order (e_from e) < rank order (e_to e)"
proof -
  obtain xs ys where o: "order = xs @ e_to e # ys" "e_to e \<notin> set xs"
    using assms(3) by (meson split_list_first)
  have "e_from e \<in> set xs"
    using assms(1,2) o(1) by (auto simp: topo_closed_def)
  then have "rank order (e_from e) < length xs"
    using rank_less_length [of "e_from e" xs] o(1) by (simp add: rank_def takeWhile_append1)
  with o show ?thesis by (simp add: rank_append)
qed

lemma topo_order_acyclic:
  assumes "topo_order def = Inr order"
  shows "acyclic (edge_rel (d_edges def))"
proof -
  have "e_to e \<in> set order" if "e \<in> set (d_edges def)" for e
    using that assms topo_order_facts(2) [OF assms] by (auto simp: topo_order_Inr_iff graph_ok_def)
  then have "edge_rel (d_edges def) \<subseteq> measure (rank order)"
    using topo_closed_rank [OF topo_order_facts(3) [OF assms]] by (auto simp: edge_rel_def)
  then have "wf (edge_rel (d_edges def))"
    using wf_measure wf_subset by blast
  then show ?thesis by (rule wf_acyclic)
qed

text \<open>
  Conversely, when the algorithm stops short, every remaining node has a remaining
  predecessor, so the finite edge relation is not well-founded.
\<close>

lemma kahn_complete:
  assumes ok: "graph_ok def" and acy: "acyclic (edge_rel (d_edges def))"
    and inv: "kahn_inv (d_edges def) (node_names def) ind [] order"
  shows "set order = set (node_names def)"
proof (rule ccontr)
  let ?rest = "set (node_names def) - set order"
  assume "set order \<noteq> set (node_names def)"
  then obtain v where v: "v \<in> ?rest"
    using inv by (auto simp: kahn_inv_def)
  have "wf (edge_rel (d_edges def))"
    by (rule finite_acyclic_wf [OF finite_edge_rel acy])
  then obtain m where m: "m \<in> ?rest" "\<And>u. (u, m) \<in> edge_rel (d_edges def) \<Longrightarrow> u \<notin> ?rest"
    using v wfE_min by metis
  have "in_count (d_edges def) (set order) m = 0"
    using m(2) ok by (fastforce simp: in_count_0_iff edge_rel_def graph_ok_def)
  then have "m \<in> set order"
    using inv m(1) by (auto simp: kahn_inv_def)
  with m(1) show False by simp
qed

lemma topo_order_accepts:
  assumes ok: "graph_ok def" and acy: "acyclic (edge_rel (d_edges def))"
  shows "\<exists>order. topo_order def = Inr order"
proof -
  let ?order = "kahn (d_edges def) (indegree def)
                  (filter (\<lambda>n. indegree def n = 0) (node_names def)) []"
  obtain ind where inv: "kahn_inv (d_edges def) (node_names def) ind [] ?order"
    using kahn_result [OF ok] by blast
  have "set ?order = set (node_names def)" "distinct ?order"
    using kahn_complete [OF ok acy inv] inv by (auto simp: kahn_inv_def)
  then have "length ?order = length (node_names def)"
    using ok distinct_card by (metis graph_ok_def)
  with ok show ?thesis by (auto simp: topo_order_Inr_iff)
qed

end
