(* ===== verification/Workflow_Refs.thy ===== *)
theory Workflow_Refs
  imports Workflow_Types
begin

text \<open>
  References and edge conditions (\<^verbatim>\<open>internal/workflow/runner.go\<close>): the scope a node resolves
  against, \<^verbatim>\<open>${...}\<close> substitution, the decoding of a leaf's raw output, and the
  evaluation of a deterministic \<^verbatim>\<open>when\<close> expression.

  The regular expressions of the source are written out as scanners over bytes: every class
  in them is ASCII or the complement of an ASCII byte, so bytes and code points agree.
\<close>

section \<open>Scope and lookup\<close>

text \<open>\<^verbatim>\<open>refScope\<close>; an absent entry of the Go map \<^verbatim>\<open>outputs\<close> reads as the nil map.\<close>

record ref_scope =
  sc_input :: gomap
  sc_outputs :: "string \<Rightarrow> gomap"
  sc_vars :: gomap

fun dig :: "gval \<Rightarrow> string list \<Rightarrow> gval option" where
  "dig v [] = Some v"
| "dig v (p # ps) =
     (case as_map v of
        None \<Rightarrow> None
      | Some m \<Rightarrow> (case mget m p of None \<Rightarrow> None | Some v' \<Rightarrow> dig v' ps))"

definition scope_root :: "ref_scope \<Rightarrow> string \<Rightarrow> gomap" where
  "scope_root sc ns =
     (if ns = ''input'' then sc_input sc
      else if ns = ''var'' then sc_vars sc
      else sc_outputs sc ns)"

definition lookup :: "ref_scope \<Rightarrow> string \<Rightarrow> gval option" where
  "lookup sc expr =
     (let parts = split_str expr ''.''; root = scope_root sc (hd parts)
      in if root = None then None else dig (any_map root) (tl parts))"

section \<open>Substitution\<close>

text \<open>
  The matches of \<^verbatim>\<open>\$\{([^}]+)\}\<close> in a string, left to right, with the bytes between
  them.
\<close>

datatype segment = Lit char | Ref string

definition not_close :: "char \<Rightarrow> bool" where
  "not_close c \<longleftrightarrow> c \<noteq> CHR ''}''"

definition ref_open :: string where
  "ref_open = ''${''"

definition ref_body :: "string \<Rightarrow> string" where
  "ref_body s = takeWhile not_close (drop 2 s)"

definition ref_rest :: "string \<Rightarrow> string" where
  "ref_rest s = dropWhile not_close (drop 2 s)"

definition ref_here :: "string \<Rightarrow> bool" where
  "ref_here s \<longleftrightarrow> has_prefix s ref_open \<and> ref_body s \<noteq> [] \<and> ref_rest s \<noteq> []"

lemma ref_rest_shorter: "length (ref_rest s) \<le> length s"
  unfolding ref_rest_def by (metis diff_le_self dual_order.trans length_drop length_dropWhile_le)

function segments :: "string \<Rightarrow> segment list" where
  "segments s =
     (if s = [] then []
      else if ref_here s then Ref (ref_body s) # segments (tl (ref_rest s))
      else Lit (hd s) # segments (tl s))"
  by pat_completeness auto
termination
proof (relation "measure length", goal_cases)
  case (2 s)
  then have "ref_rest s \<noteq> []" by (simp add: ref_here_def)
  then show ?case using ref_rest_shorter [of s] by (cases "ref_rest s") auto
qed auto

declare segments.simps [simp del]

text \<open>\<^verbatim>\<open>refPattern.FindAllStringSubmatch\<close>: the expressions of the references.\<close>

definition ref_exprs :: "string \<Rightarrow> string list" where
  "ref_exprs s = concat (map (\<lambda>g. case g of Ref e \<Rightarrow> [e] | Lit c \<Rightarrow> []) (segments s))"

definition stringify :: "gval \<Rightarrow> string" where
  "stringify v =
     (case v of
        GStr s \<Rightarrow> s
      | GNull \<Rightarrow> []
      | _ \<Rightarrow> (case gval_json v of Some j \<Rightarrow> j | None \<Rightarrow> gval_sprint v))"

definition subst_segment :: "ref_scope \<Rightarrow> segment \<Rightarrow> string" where
  "subst_segment sc g =
     (case g of
        Lit c \<Rightarrow> [c]
      | Ref e \<Rightarrow> (case lookup sc e of None \<Rightarrow> ref_open @ e @ ''}'' | Some v \<Rightarrow> stringify v))"

definition resolve_refs :: "string \<Rightarrow> ref_scope \<Rightarrow> string" where
  "resolve_refs s sc = concat (map (subst_segment sc) (segments s))"

text \<open>\<^verbatim>\<open>exactRef\<close>: the whole string is one reference.\<close>

definition exact_ref :: "string \<Rightarrow> string option" where
  "exact_ref s = (if ref_here s \<and> tl (ref_rest s) = [] then Some (ref_body s) else None)"

definition resolve_value :: "ref_scope \<Rightarrow> gval \<Rightarrow> gval" where
  "resolve_value sc v =
     (case v of
        GStr s \<Rightarrow>
          (case exact_ref s of
             Some e \<Rightarrow> (case lookup sc e of Some val \<Rightarrow> val | None \<Rightarrow> GStr (resolve_refs s sc))
           | None \<Rightarrow> GStr (resolve_refs s sc))
      | _ \<Rightarrow> v)"

definition resolve_input :: "gomap \<Rightarrow> ref_scope \<Rightarrow> gomap" where
  "resolve_input m sc =
     (if entries m = [] then None
      else Some (map (\<lambda>(k, v). (k, resolve_value sc v)) (entries m)))"

section \<open>Leaf outputs\<close>

text \<open>A raw \<^verbatim>\<open>null\<close> decodes without an error into the nil map.\<close>

definition parse_output :: "string \<Rightarrow> gomap" where
  "parse_output raw =
     (let trim = trim_space raw in
      case (if trim \<noteq> [] then json_parse_map trim else None) of
        Some m \<Rightarrow> m
      | None \<Rightarrow> Some [(''result'', GStr raw)])"

text \<open>
  \<open>None\<close> is Go's run-time panic: the last branch writes to the decoded map, which is nil
  when the reply was \<^verbatim>\<open>null\<close>.
\<close>

definition rewritten_query :: "string \<Rightarrow> gomap option" where
  "rewritten_query raw =
     (let parsed = parse_output raw in
      if mget parsed ''query'' \<noteq> None then Some parsed
      else case mget parsed ''result'' of
        Some r \<Rightarrow>
          (if length (entries parsed) = 1 then Some (Some [(''query'', r)])
           else Some (Some (AList.update ''query'' (GStr (trim_space raw)) (entries parsed))))
      | None \<Rightarrow>
          (case parsed of
             None \<Rightarrow> None
           | Some kv \<Rightarrow> Some (Some (AList.update ''query'' (GStr (trim_space raw)) kv))))"

text \<open>\<open>None\<close> is the nil map of headers.\<close>

definition header_map :: "gval option \<Rightarrow> (string \<times> string) list option" where
  "header_map v =
     (case Option.bind v as_map of
        None \<Rightarrow> None
      | Some m \<Rightarrow>
          (if entries m = [] then None
           else Some (map (\<lambda>(k, x). (k, gval_sprint x)) (entries m))))"

section \<open>Edge conditions\<close>

datatype cmp_op = OpGe | OpLe | OpEq | OpNe | OpGt | OpLt | OpContain | OpNotContain

datatype expr_error =
    BadWhen string
  | UnresolvedRef string
  | NeedsNumbers cmp_op gval string

fun to_float :: "gval \<Rightarrow> float64 option" where
  "to_float (GFloat x) = Some x"
| "to_float (GInt i) = Some (float_of_int i)"
| "to_float (GStr s) = parse_float s"
| "to_float _ = None"

definition contains_val :: "gval \<Rightarrow> string \<Rightarrow> bool" where
  "contains_val v lit =
     (case v of
        GStr s \<Rightarrow> str_contains s lit
      | GList xs \<Rightarrow> (\<exists>x\<in>set xs. gval_sprint x = lit)
      | _ \<Rightarrow> str_contains (gval_sprint v) lit)"

definition compare_num :: "cmp_op \<Rightarrow> float64 \<Rightarrow> float64 \<Rightarrow> bool" where
  "compare_num op x y =
     (case op of
        OpGt \<Rightarrow> f_less y x
      | OpLt \<Rightarrow> f_less x y
      | OpGe \<Rightarrow> f_le y x
      | OpLe \<Rightarrow> f_le x y
      | OpEq \<Rightarrow> f_eq x y
      | OpNe \<Rightarrow> \<not> f_eq x y
      | _ \<Rightarrow> False)"

definition compare_val :: "gval \<Rightarrow> cmp_op \<Rightarrow> string \<Rightarrow> (expr_error, bool) res" where
  "compare_val v op lit =
     (if op = OpContain then Inr (contains_val v lit)
      else if op = OpNotContain then Inr (\<not> contains_val v lit)
      else case (to_float v, to_float (GStr lit)) of
        (Some x, Some y) \<Rightarrow> Inr (compare_num op x y)
      | _ \<Rightarrow>
         (if op = OpEq then Inr (gval_sprint v = lit)
          else if op = OpNe then Inr (gval_sprint v \<noteq> lit)
          else Inl (NeedsNumbers op v lit)))"

text \<open>
  \<^verbatim>\<open>exprPattern\<close>, applied to a trimmed expression. The operators are tried in the order of
  the alternation; the literal is not empty and holds no newline (which \<^verbatim>\<open>.\<close> does not
  match), and the match goes on to the next alternative where it is.
\<close>

definition re_space :: "char \<Rightarrow> bool" where
  "re_space c \<longleftrightarrow> byte c = 32 \<or> byte c = 9 \<or> byte c = 10 \<or> byte c = 12 \<or> byte c = 13"

definition cmp_ops :: "(string \<times> cmp_op) list" where
  "cmp_ops = [(''>='', OpGe), (''<='', OpLe), (''=='', OpEq), (''!='', OpNe), (''>'', OpGt),
              (''<'', OpLt), (''contain'', OpContain), (''not_contain'', OpNotContain)]"

fun match_op :: "(string \<times> cmp_op) list \<Rightarrow> string \<Rightarrow> (cmp_op \<times> string) option" where
  "match_op [] r = None"
| "match_op ((t, op) # ops) r =
     (let lit = dropWhile re_space (drop (length t) r) in
      if has_prefix r t \<and> lit \<noteq> [] \<and> CHR 0x0A \<notin> set lit then Some (op, lit)
      else match_op ops r)"

definition match_expr :: "string \<Rightarrow> (string \<times> cmp_op \<times> string) option" where
  "match_expr e =
     (if ref_here e
      then map_option (\<lambda>(op, lit). (ref_body e, op, lit))
             (match_op cmp_ops (dropWhile re_space (tl (ref_rest e))))
      else None)"

definition eval_atom :: "string \<Rightarrow> ref_scope \<Rightarrow> (expr_error, bool) res" where
  "eval_atom e sc =
     (case match_expr e of
        None \<Rightarrow> Inl (BadWhen e)
      | Some (r, op, lit) \<Rightarrow>
         (case lookup sc r of
            None \<Rightarrow> Inl (UnresolvedRef r)
          | Some v \<Rightarrow> compare_val v op (trim_space lit)))"

definition split_top :: "string \<Rightarrow> string \<Rightarrow> string list" where
  "split_top e op = map trim_space (split_str e op)"

text \<open>The two loops over the parts: the first error, or the first part that decides.\<close>

fun all_seq :: "(expr_error, bool) res list \<Rightarrow> (expr_error, bool) res" where
  "all_seq [] = Inr True"
| "all_seq (r # rs) =
     (case r of Inl e \<Rightarrow> Inl e | Inr b \<Rightarrow> if b then all_seq rs else Inr False)"

fun any_seq :: "(expr_error, bool) res list \<Rightarrow> (expr_error, bool) res" where
  "any_seq [] = Inr False"
| "any_seq (r # rs) =
     (case r of Inl e \<Rightarrow> Inl e | Inr b \<Rightarrow> if b then Inr True else any_seq rs)"

lemma length_split_parts:
  "x \<in> set (split_aux sep k acc s) \<Longrightarrow> length x \<le> length acc + length s"
proof (induction sep k acc s rule: split_aux.induct)
  case (2 sep acc c s)
  show ?case
  proof (cases "sep \<noteq> [] \<and> has_prefix (c # s) sep")
    case True
    with "2.prems" have "x = rev acc \<or> x \<in> set (split_aux sep (length sep - 1) [] s)"
      by simp
    with "2.IH"(1) [OF True] show ?thesis by auto
  next
    case False
    with "2.prems" have "x \<in> set (split_aux sep 0 (c # acc) s)" by auto
    then show ?thesis using "2.IH"(2) [OF False] by simp
  qed
qed auto

lemma split_str_shorter:
  assumes "x \<in> set (split_str s sep)" and "1 < length (split_str s sep)"
  shows "length x < length s"
proof -
  have "length x < length acc + length s"
    if "x \<in> set (split_aux sep k acc s)" "1 < length (split_aux sep k acc s)" "acc = [] \<or> k = 0"
    for k acc
    using that
  proof (induction sep k acc s rule: split_aux.induct)
    case (1 sep k acc c s)
    then show ?case using length_split_parts [of x sep k "[]" s] by auto
  next
    case (2 sep acc c s)
    show ?case
    proof (cases "sep \<noteq> [] \<and> has_prefix (c # s) sep")
      case True
      with "2.prems" have "x = rev acc \<or> x \<in> set (split_aux sep (length sep - 1) [] s)"
        by simp
      then show ?thesis using length_split_parts [of x sep "length sep - 1" "[]" s] by auto
    next
      case False
      then show ?thesis using "2.IH"(2) "2.prems" by auto
    qed
  qed auto
  from this [of 0 "[]"] show ?thesis using assms by (simp add: split_str_def)
qed

lemma length_trim_left: "length (trim_left s) \<le> length s"
  by (induction s rule: trim_left.induct) (subst trim_left.simps, auto intro: order_trans)

lemma length_trim_right: "length (trim_right s) \<le> length s"
  by (induction s rule: trim_right.induct) (subst trim_right.simps, auto intro: order_trans)

lemma length_trim_space: "length (trim_space s) \<le> length s"
  unfolding trim_space_def by (rule order_trans [OF length_trim_right length_trim_left])

lemma split_top_shorter:
  assumes "p \<in> set (split_top (trim_space e) op)" and "1 < length (split_top (trim_space e) op)"
  shows "length p < length e"
proof -
  obtain x where "x \<in> set (split_str (trim_space e) op)" "p = trim_space x"
    using assms(1) by (auto simp: split_top_def)
  then have "length p < length (trim_space e)"
    using split_str_shorter [of x "trim_space e" op] assms(2) length_trim_space [of x]
    by (simp add: split_top_def)
  then show ?thesis using length_trim_space [of e] by simp
qed

function eval_expr :: "ref_scope \<Rightarrow> string \<Rightarrow> (expr_error, bool) res" where
  "eval_expr sc expr =
     (let e = trim_space expr; ands = split_top e ''&&''; ors = split_top e ''||'' in
      if 1 < length ands then all_seq (map (eval_expr sc) ands)
      else if 1 < length ors then any_seq (map (eval_expr sc) ors)
      else eval_atom e sc)"
  by pat_completeness auto
termination
  by (relation "measure (\<lambda>(sc, e). length e)") (auto dest: split_top_shorter)

declare eval_expr.simps [simp del]

end
