(* ===== verification/Workflow_Validate.thy ===== *)
theory Workflow_Validate
  imports Workflow_Graph Workflow_Refs
begin

text \<open>
  The structural validation of a workflow definition and of an input or form object
  (\<^verbatim>\<open>internal/workflow/validate.go\<close>). A validation error is kept as the node it names, the
  field or reference it names and a reason, where the source formats a message.
\<close>

section \<open>Definitions\<close>

datatype val_reason =
    TopoFailed topo_error
  | NoEntry
  | ManyEntries "string list"
  | NeedsTemplate
  | NeedsPrompt
  | NeedsURL
  | NeedsCode
  | BadLanguage string
  | NeedsProperties
  | UnknownKind node_kind
  | InputNotDeclared string
  | UnknownNode string
  | NotInSchema string string
  | MissingRequired string string
  | WrongType string string string gval
  | BadID

record validation_error =
  ve_node :: string
  ve_field :: string
  ve_reason :: val_reason

definition verr :: "string \<Rightarrow> string \<Rightarrow> val_reason \<Rightarrow> validation_error" where
  "verr node field r = \<lparr>ve_node = node, ve_field = field, ve_reason = r\<rparr>"

text \<open>\<^verbatim>\<open>^[A-Za-z0-9][A-Za-z0-9_-]{0,63}$\<close>\<close>

definition alnum :: "char \<Rightarrow> bool" where
  "alnum c \<longleftrightarrow> 48 \<le> byte c \<and> byte c \<le> 57 \<or> 65 \<le> byte c \<and> byte c \<le> 90 \<or> 97 \<le> byte c \<and> byte c \<le> 122"

definition id_pattern :: "string \<Rightarrow> bool" where
  "id_pattern s =
     (case s of
        [] \<Rightarrow> False
      | c # r \<Rightarrow> alnum c \<and> length r \<le> 63 \<and> (\<forall>x\<in>set r. alnum x \<or> x = CHR ''_'' \<or> x = CHR ''-''))"

definition validate_id :: "string \<Rightarrow> validation_error option" where
  "validate_id s = (if id_pattern s then None else Some (verr [] ''id'' BadID))"

definition entry_names :: "wf_def \<Rightarrow> string list" where
  "entry_names def = filter (\<lambda>n. indegree def n = 0) (node_names def)"

definition exactly_one_entry :: "wf_def \<Rightarrow> validation_error option" where
  "exactly_one_entry def =
     (case entry_names def of
        [] \<Rightarrow> Some (verr [] [] NoEntry)
      | [n] \<Rightarrow> None
      | ns \<Rightarrow> Some (verr [] [] (ManyEntries ns)))"

definition known_languages :: "string list" where
  "known_languages = [''python'', ''py'', ''sh'', ''shell'']"

text \<open>A value that is not a map, a nil map and an absent one all read as no fields.\<close>

definition fields_of :: "gval option \<Rightarrow> (string \<times> gval) list" where
  "fields_of v = (case Option.bind v as_map of Some m \<Rightarrow> entries m | None \<Rightarrow> [])"

definition check_kind :: "wf_node \<Rightarrow> validation_error option" where
  "check_kind n =
     (case n_kind n of
        KindTool \<Rightarrow> None
      | KindLLM \<Rightarrow> None
      | KindKBSearch \<Rightarrow> None
      | KindSet \<Rightarrow> None
      | KindCondition \<Rightarrow> None
      | KindReply \<Rightarrow>
          (if n_prompt n = [] then Some (verr (n_name n) ''prompt'' NeedsTemplate) else None)
      | KindQuestionRewrite \<Rightarrow>
          (if n_prompt n = [] then Some (verr (n_name n) ''prompt'' NeedsPrompt) else None)
      | KindHTTP \<Rightarrow>
          (if mget (n_input n) ''url'' = None then Some (verr (n_name n) ''url'' NeedsURL) else None)
      | KindCode \<Rightarrow>
          (if n_code n = [] then Some (verr (n_name n) ''code'' NeedsCode)
           else if n_language n \<noteq> [] \<and> n_language n \<notin> set known_languages
           then Some (verr (n_name n) ''lang'' (BadLanguage (n_language n)))
           else None)
      | KindForm \<Rightarrow>
          (if fields_of (mget (n_input n) ''properties'') = []
           then Some (verr (n_name n) ''input'' NeedsProperties) else None)
      | KindOther k \<Rightarrow> Some (verr (n_name n) ''kind'' (UnknownKind (KindOther k))))"

definition validate_node_kinds :: "wf_def \<Rightarrow> validation_error option" where
  "validate_node_kinds def = first_error check_kind (d_nodes def)"

fun collect_strings :: "gval \<Rightarrow> string list" where
  "collect_strings (GStr s) = [s]"
| "collect_strings (GMap kv) = concat (map (\<lambda>e. collect_strings (snd e)) kv)"
| "collect_strings (GList xs) = concat (map collect_strings xs)"
| "collect_strings _ = []"

text \<open>The declared output schema of a node, \<open>None\<close> when it declares none (or an empty one).\<close>

definition output_schema :: "wf_def \<Rightarrow> string \<Rightarrow> (string \<times> gval) list option" where
  "output_schema def ns =
     map_of (rev (map (\<lambda>n. (n_name n, entries (n_output n)))
                    (filter (\<lambda>n. entries (n_output n) \<noteq> []) (d_nodes def)))) ns"

definition check_ref :: "string \<Rightarrow> wf_def \<Rightarrow> string \<Rightarrow> validation_error option" where
  "check_ref node def expr =
     (let parts = split_str expr ''.''; ns = hd parts; field = ref_open @ expr @ ''}'' in
      if ns = ''input''
      then (case Option.bind (mget (d_schema def) ''properties'') as_map of
              Some (Some props) \<Rightarrow>
                (if 2 \<le> length parts \<and> map_of props (parts ! 1) = None
                 then Some (verr node field (InputNotDeclared (parts ! 1))) else None)
            | _ \<Rightarrow> None)
      else if ns = ''var'' then None
      else if ns \<notin> set (node_names def) then Some (verr node field (UnknownNode ns))
      else case output_schema def ns of
             Some schema \<Rightarrow>
               (if 2 \<le> length parts \<and> map_of schema (parts ! 1) = None
                then Some (verr node field (NotInSchema (parts ! 1) ns)) else None)
           | None \<Rightarrow> None)"

definition check_refs :: "string \<Rightarrow> wf_def \<Rightarrow> string \<Rightarrow> validation_error option" where
  "check_refs node def s = first_error (check_ref node def) (ref_exprs s)"

definition validate_output_refs :: "wf_def \<Rightarrow> validation_error option" where
  "validate_output_refs def =
     first_error (check_refs ''(output)'' def) (collect_strings (any_map (d_output def)))"

definition node_strings :: "wf_node \<Rightarrow> string list" where
  "node_strings n =
     collect_strings (any_map (n_input n)) @ (if n_prompt n \<noteq> [] then [n_prompt n] else [])"

definition validate_refs :: "wf_def \<Rightarrow> validation_error option" where
  "validate_refs def =
     first_error (\<lambda>n. first_error (check_refs (n_name n) def) (node_strings n)) (d_nodes def)"

fun type_matches :: "string \<Rightarrow> gval \<Rightarrow> bool" where
  "type_matches want v =
     (if want = ''string'' then (case v of GStr _ \<Rightarrow> True | _ \<Rightarrow> False)
      else if want = ''integer''
      then (case v of GInt _ \<Rightarrow> True | GFloat x \<Rightarrow> f_integral x | _ \<Rightarrow> False)
      else if want = ''number'' then (case v of GInt _ \<Rightarrow> True | GFloat _ \<Rightarrow> True | _ \<Rightarrow> False)
      else if want = ''boolean'' then (case v of GBool _ \<Rightarrow> True | _ \<Rightarrow> False)
      else if want = ''object'' then as_map v \<noteq> None
      else if want = ''array'' then (case v of GList _ \<Rightarrow> True | _ \<Rightarrow> False)
      else True)"

definition required_names :: "gomap \<Rightarrow> string list" where
  "required_names schema =
     (case mget schema ''required'' of
        Some (GList xs) \<Rightarrow> filter (\<lambda>s. s \<noteq> []) (map (\<lambda>x. as_str (Some x)) xs)
      | _ \<Rightarrow> [])"

text \<open>The declared type of a field, the empty string when the schema declares none.\<close>

definition want_type :: "gomap \<Rightarrow> string \<Rightarrow> string" where
  "want_type schema name =
     as_str (map_of (fields_of (map_of (fields_of (mget schema ''properties'')) name)) ''type'')"

definition check_required :: "string \<Rightarrow> gomap \<Rightarrow> string \<Rightarrow> validation_error option" where
  "check_required prefix values name =
     (if mget values name = None
      then Some (verr [] (prefix @ ''.'' @ name) (MissingRequired prefix name)) else None)"

definition check_type :: "string \<Rightarrow> gomap \<Rightarrow> string \<times> gval \<Rightarrow> validation_error option" where
  "check_type prefix schema kv =
     (let want = want_type schema (fst kv) in
      if want \<noteq> [] \<and> \<not> type_matches want (snd kv)
      then Some (verr [] (prefix @ ''.'' @ fst kv) (WrongType prefix (fst kv) want (snd kv)))
      else None)"

definition validate_against_schema :: "gomap \<Rightarrow> gomap \<Rightarrow> string \<Rightarrow> validation_error option" where
  "validate_against_schema schema values prefix =
     (if entries schema = [] then None
      else case first_error (check_required prefix values) (required_names schema) of
             Some e \<Rightarrow> Some e
           | None \<Rightarrow> first_error (check_type prefix schema) (entries values))"

definition validate_input :: "wf_def \<Rightarrow> gomap \<Rightarrow> validation_error option" where
  "validate_input def input = validate_against_schema (d_schema def) input ''input''"

definition validate_def :: "wf_def \<Rightarrow> gomap \<Rightarrow> validation_error option" where
  "validate_def def input =
     (case topo_order def of
        Inl e \<Rightarrow> Some (verr [] [] (TopoFailed e))
      | Inr _ \<Rightarrow>
     (case exactly_one_entry def of Some e \<Rightarrow> Some e | None \<Rightarrow>
     (case validate_node_kinds def of Some e \<Rightarrow> Some e | None \<Rightarrow>
     (case validate_refs def of Some e \<Rightarrow> Some e | None \<Rightarrow>
     (case validate_output_refs def of Some e \<Rightarrow> Some e | None \<Rightarrow>
      if input \<noteq> None then validate_input def input else None)))))"

section \<open>What validation guarantees\<close>

lemma exactly_one_entry_None_iff: "exactly_one_entry def = None \<longleftrightarrow> (\<exists>n. entry_names def = [n])"
  by (auto simp: exactly_one_entry_def split: list.splits)

lemma validate_def_None_iff:
  "validate_def def input = None \<longleftrightarrow>
     (\<exists>order. topo_order def = Inr order) \<and> exactly_one_entry def = None
     \<and> validate_node_kinds def = None \<and> validate_refs def = None
     \<and> validate_output_refs def = None \<and> (input \<noteq> None \<longrightarrow> validate_input def input = None)"
  by (auto simp: validate_def_def split: sum.splits option.splits)

lemma check_ref_NoneD:
  "check_ref node def expr = None \<Longrightarrow>
     hd (split_str expr ''.'') \<in> {''input'', ''var''} \<union> set (node_names def)"
  by (auto simp: check_ref_def Let_def split: if_splits)

text \<open>An accepted definition has an entry node that is one of its nodes.\<close>

lemma entry_node_in:
  assumes "exactly_one_entry def = None"
  shows "entry_node def \<in> set (node_names def)" and "indegree def (entry_node def) = 0"
    and "\<And>n. n \<in> set (node_names def) \<Longrightarrow> indegree def n = 0 \<Longrightarrow> n = entry_node def"
proof -
  obtain n where n: "entry_names def = [n]"
    using assms by (auto simp: exactly_one_entry_None_iff)
  then have n_in: "n \<in> set (node_names def)" "indegree def n = 0"
    using set_filter [of "\<lambda>n. indegree def n = 0" "node_names def"]
    by (auto simp: entry_names_def)
  have uniq: "m = n" if "m \<in> set (node_names def)" "indegree def m = 0" for m
  proof -
    have "m \<in> set (entry_names def)" using that by (simp add: entry_names_def)
    with n show ?thesis by simp
  qed
  have e: "entry_node def = n"
  proof (cases "find (\<lambda>n. indegree def n = 0) (node_names def)")
    case None
    with n_in show ?thesis by (auto simp: find_None_iff)
  next
    case (Some m)
    then have "m \<in> set (node_names def)" "indegree def m = 0"
      by (auto simp: find_Some_iff)
    with Some uniq show ?thesis by (simp add: entry_node_def)
  qed
  show "entry_node def \<in> set (node_names def)" "indegree def (entry_node def) = 0"
    using e n_in by simp_all
  show "\<And>m. m \<in> set (node_names def) \<Longrightarrow> indegree def m = 0 \<Longrightarrow> m = entry_node def"
    using e uniq by simp
qed

text \<open>
  The schema check as a specification that does not mention an order of iteration: every
  required name is present and every present value with a declared type has it.
\<close>

definition conforms :: "gomap \<Rightarrow> gomap \<Rightarrow> bool" where
  "conforms schema values \<longleftrightarrow>
     (\<forall>name\<in>set (required_names schema). mget values name \<noteq> None)
     \<and> (\<forall>(name, v)\<in>set (entries values).
           want_type schema name = [] \<or> type_matches (want_type schema name) v)"

lemma check_type_None_iff:
  "check_type prefix schema (k, v) = None \<longleftrightarrow>
     want_type schema k = [] \<or> type_matches (want_type schema k) v"
  by (auto simp: check_type_def Let_def)

lemma no_schema_conforms: "entries schema = [] \<Longrightarrow> conforms schema values"
  by (auto simp: conforms_def required_names_def want_type_def mget_def fields_of_def as_str_def)

lemma validate_against_schema_None_iff:
  "validate_against_schema schema values prefix = None \<longleftrightarrow> conforms schema values"
proof (cases "entries schema = []")
  case True
  then show ?thesis by (simp add: validate_against_schema_def no_schema_conforms)
next
  case False
  have types: "first_error (check_type prefix schema) (entries values) = None \<longleftrightarrow>
      (\<forall>(k, v)\<in>set (entries values). want_type schema k = [] \<or> type_matches (want_type schema k) v)"
    by (auto simp: check_type_None_iff simp del: type_matches.simps)
  have req: "first_error (check_required prefix values) (required_names schema) = None \<longleftrightarrow>
      (\<forall>name\<in>set (required_names schema). mget values name \<noteq> None)"
    by (auto simp: check_required_def)
  show ?thesis
    unfolding conforms_def types [symmetric] req [symmetric]
    using False by (simp add: validate_against_schema_def del: first_error_None_iff split: option.split)
qed

end
