(* ===== verification/Workflow_Laws.thy ===== *)
theory Workflow_Laws
  imports Workflow_Validate
begin

text \<open>
  The laws of definitions, references and conditions: which graphs are accepted and what an
  accepted one looks like, what a schema check decides, what substitution does to a text, and
  how conditions with several parts are read.
\<close>

section \<open>Graphs\<close>

text \<open>
  \<^verbatim>\<open>topoSort\<close> accepts exactly the acyclic graphs: it returns an order if and only if
  no node name occurs twice, every edge joins two nodes of the definition, and the edge
  relation has no cycle.
\<close>

lemma topo_order_iff:
  "(\<exists>order. topo_order def = Inr order) \<longleftrightarrow> graph_ok def \<and> acyclic (edge_rel (d_edges def))"
  using topo_order_accepts topo_order_acyclic topo_order_Inr_iff by blast

text \<open>
  The order it returns lists every node exactly once, each edge pointing forward.
\<close>

lemma topo_order_sound:
  assumes "topo_order def = Inr order"
  shows "distinct order \<and> set order = set (node_names def)
    \<and> (\<forall>e\<in>set (d_edges def). rank order (e_from e) < rank order (e_to e))"
proof -
  have "rank order (e_from e) < rank order (e_to e)" if "e \<in> set (d_edges def)" for e
    using topo_closed_rank [OF topo_order_facts(3) [OF assms] that] topo_order_facts(2) [OF assms]
      assms that by (auto simp: topo_order_Inr_iff graph_ok_def)
  with topo_order_facts [OF assms] show ?thesis by blast
qed

definition diamond :: wf_def where
  "diamond =
     \<lparr>d_id = ''d'', d_version = 1, d_title = [], d_description = [], d_schema = None,
      d_nodes = map zero_node [''a'', ''b'', ''c'', ''d''],
      d_edges = map (\<lambda>(a, b). \<lparr>e_from = a, e_to = b, e_when = [], e_desc = []\<rparr>)
        [(''a'', ''c''), (''a'', ''b''), (''b'', ''d''), (''c'', ''d'')],
      d_output = None, d_concurrency = ConcurrencyAllow\<rparr>"

definition ex_pair :: "string \<Rightarrow> string \<Rightarrow> wf_def" where
  "ex_pair a b =
     diamond\<lparr>d_nodes := [(zero_node a)\<lparr>n_kind := KindReply, n_prompt := ''x''\<rparr>,
                        (zero_node b)\<lparr>n_kind := KindReply, n_prompt := ''y''\<rparr>],
             d_edges := [\<lparr>e_from = a, e_to = b, e_when = [], e_desc = []\<rparr>]\<rparr>"

lemma diamond_order: "topo_order diamond = Inr [''a'', ''b'', ''c'', ''d'']
    \<or> topo_order diamond = Inr [''a'', ''c'', ''b'', ''d'']"
  by code_simp

lemma topo_order_sound_witness:
  "\<exists>order. topo_order diamond = Inr order \<and> distinct order \<and> set order = set (node_names diamond)"
  using diamond_order topo_order_sound [of diamond] by blast

text \<open>Following in-edges backwards ends in a node without one.\<close>

lemma reachable_from_source:
  assumes ok: "graph_ok def" and acy: "acyclic (edge_rel (d_edges def))" and n: "n \<in> set (node_names def)"
  shows "\<exists>s\<in>set (node_names def). indegree def s = 0 \<and> (s, n) \<in> (edge_rel (d_edges def))\<^sup>*"
  using finite_acyclic_wf [OF finite_edge_rel acy] n
proof (induction n rule: wf_induct_rule)
  case (less n)
  show ?case
  proof (cases "indegree def n = 0")
    case False
    then have "in_count (d_edges def) {} n \<noteq> 0" by (simp add: indegree_eq)
    then obtain e where e: "e \<in> set (d_edges def)" "e_to e = n"
      by (auto simp: in_count_0_iff)
    then have "(e_from e, n) \<in> edge_rel (d_edges def)" "e_from e \<in> set (node_names def)"
      using ok by (auto simp: edge_rel_def graph_ok_def)
    with less.IH show ?thesis by (meson rtrancl.rtrancl_into_rtrancl)
  qed (use less.prems in auto)
qed

text \<open>
  An accepted definition has one entry and nothing out of reach: the graph is acyclic, the
  entry is the only node without an in-edge, and every node can be reached from it.
\<close>

lemma accepted_graph_reachable:
  assumes "validate_def def input = None"
  shows "acyclic (edge_rel (d_edges def))
    \<and> (\<forall>n\<in>set (node_names def). (entry_node def, n) \<in> (edge_rel (d_edges def))\<^sup>*
         \<and> (indegree def n = 0 \<longleftrightarrow> n = entry_node def))"
proof -
  obtain order where o: "topo_order def = Inr order" and e: "exactly_one_entry def = None"
    using assms by (auto simp: validate_def_None_iff)
  have ok: "graph_ok def" and acy: "acyclic (edge_rel (d_edges def))"
    using o topo_order_iff by (blast, blast)
  have "(entry_node def, n) \<in> (edge_rel (d_edges def))\<^sup>*" if "n \<in> set (node_names def)" for n
    using reachable_from_source [OF ok acy that] entry_node_in(3) [OF e] by blast
  with acy entry_node_in [OF e] show ?thesis by blast
qed

lemma accepted_graph_reachable_witness:
  "validate_def (ex_pair ''a'' ''b'') None = None
   \<and> (''a'', ''b'') \<in> (edge_rel (d_edges (ex_pair ''a'' ''b'')))\<^sup>*"
proof -
  have v: "validate_def (ex_pair ''a'' ''b'') None = None"
    and e: "entry_node (ex_pair ''a'' ''b'') = ''a''" "''b'' \<in> set (node_names (ex_pair ''a'' ''b''))"
    by code_simp+
  from accepted_graph_reachable [OF v] e v show ?thesis by auto
qed

section \<open>Schemas\<close>

text \<open>
  The schema check accepts exactly the values that have every required name and no field
  of another type than the declared one, for the input of a run and for the answers of a form.
\<close>

lemma schema_check_iff:
  "validate_against_schema schema values prefix = None \<longleftrightarrow> conforms schema values"
  by (rule validate_against_schema_None_iff)

section \<open>References\<close>

definition segment_text :: "segment \<Rightarrow> string" where
  "segment_text g = (case g of Lit c \<Rightarrow> [c] | Ref e \<Rightarrow> ref_open @ e @ ''}'')"

lemma ref_here_split:
  assumes "ref_here s"
  shows "s = ref_open @ ref_body s @ ''}'' @ tl (ref_rest s)"
proof -
  have "drop 2 s = ref_body s @ ref_rest s"
    by (simp add: ref_body_def ref_rest_def)
  moreover have "ref_rest s \<noteq> []" "hd (ref_rest s) = CHR ''}''"
    using assms hd_dropWhile [of not_close "drop 2 s"]
    by (auto simp: ref_here_def ref_rest_def not_close_def)
  moreover have "s = ref_open @ drop 2 s"
    using assms has_prefix_drop [of s ref_open] by (simp add: ref_here_def ref_open_def numeral_2_eq_2)
  ultimately show ?thesis
    by (metis append.assoc append_Cons append_Nil list.collapse)
qed

lemma segments_text: "concat (map segment_text (segments s)) = s"
proof (induction s rule: segments.induct)
  case (1 s)
  show ?case
  proof (cases "s \<noteq> [] \<and> ref_here s")
    case True
    then have "concat (map segment_text (segments s)) =
        ref_open @ ref_body s @ ''}'' @ concat (map segment_text (segments (tl (ref_rest s))))"
      by (subst segments.simps) (simp add: segment_text_def)
    with 1(1) True ref_here_split [of s] show ?thesis by metis
  next
    case False
    then consider "s = []" | "s \<noteq> []" "\<not> ref_here s" by blast
    then show ?thesis
    proof cases
      case 2
      then have "concat (map segment_text (segments s)) = hd s # concat (map segment_text (segments (tl s)))"
        by (subst segments.simps) (simp add: segment_text_def)
      with 1(2) 2 show ?thesis by simp
    qed (simp add: segments.simps)
  qed
qed

text \<open>
  Substitution only replaces references that resolve: a text whose references all fail to
  resolve (or that has none) comes back byte for byte, unresolved references included.
\<close>

lemma unresolved_text_unchanged:
  assumes "\<forall>e\<in>set (ref_exprs s). lookup sc e = None"
  shows "resolve_refs s sc = s"
proof -
  have "subst_segment sc g = segment_text g" if "g \<in> set (segments s)" for g
    using assms that
    by (cases g) (force simp: subst_segment_def segment_text_def ref_exprs_def)+
  then have "map (subst_segment sc) (segments s) = map segment_text (segments s)" by simp
  then show ?thesis by (simp add: resolve_refs_def segments_text del: map_eq_conv)
qed

definition empty_scope :: ref_scope where
  "empty_scope = \<lparr>sc_input = Some [], sc_outputs = (\<lambda>_. None), sc_vars = Some []\<rparr>"

lemma unresolved_text_unchanged_witness:
  "resolve_refs ''Hi ${input.name}, ${'' empty_scope = ''Hi ${input.name}, ${''"
  by (rule unresolved_text_unchanged) code_simp

text \<open>
  In an accepted definition every reference in a prompt or in an input of a node, and every
  reference in the output mapping, starts with \<^verbatim>\<open>input\<close>, \<^verbatim>\<open>var\<close> or the
  name of a node of the definition.
\<close>

lemma accepted_references_known:
  assumes "validate_def def input = None"
    and "node \<in> set (d_nodes def) \<and> s \<in> set (node_strings node)
         \<or> s \<in> set (collect_strings (any_map (d_output def)))"
    and "e \<in> set (ref_exprs s)"
  shows "hd (split_str e ''.'') \<in> {''input'', ''var''} \<union> set (node_names def)"
proof -
  have "validate_refs def = None" "validate_output_refs def = None"
    using assms(1) by (simp_all add: validate_def_None_iff)
  then have "\<exists>n. check_ref n def e = None"
    using assms(2,3)
    by (auto simp: validate_refs_def validate_output_refs_def check_refs_def intro: exI [of _ "''(output)''"])
  then show ?thesis using check_ref_NoneD by blast
qed

definition greeter :: wf_def where
  "greeter = diamond\<lparr>d_nodes := [(zero_node ''say'')\<lparr>n_kind := KindReply, n_prompt := ''Hi ${input.name}''\<rparr>],
                    d_edges := []\<rparr>"

lemma accepted_references_known_witness:
  "validate_def greeter None = None
   \<and> hd (split_str ''input.name'' ''.'') \<in> {''input'', ''var''} \<union> set (node_names greeter)"
proof -
  have v: "validate_def greeter None = None" by code_simp
  have "hd (d_nodes greeter) \<in> set (d_nodes greeter)
      \<and> ''Hi ${input.name}'' \<in> set (node_strings (hd (d_nodes greeter)))
    \<or> ''Hi ${input.name}'' \<in> set (collect_strings (any_map (d_output greeter)))"
    "''input.name'' \<in> set (ref_exprs ''Hi ${input.name}'')"
    by code_simp+
  from accepted_references_known [OF v this] v show ?thesis by blast
qed

section \<open>Conditions\<close>

text \<open>A condition without operators between conditions, and without spaces around it.\<close>

definition single_cond :: "string \<Rightarrow> bool" where
  "single_cond p \<longleftrightarrow> p \<noteq> [] \<and> visible (hd p) \<and> visible (last p) \<and> CHR ''&'' \<notin> set p \<and> CHR ''|'' \<notin> set p"

lemma split_none: "d \<notin> set x \<Longrightarrow> split_aux [d, d] 0 acc x = [rev acc @ x]"
  by (induction x arbitrary: acc) auto

lemma split_pair:
  "d \<notin> set x \<Longrightarrow> split_aux [d, d] 0 acc (x @ d # d # y) = (rev acc @ x) # split_aux [d, d] 0 [] y"
  by (induction x arbitrary: acc) auto

lemma split_str_none: "d \<notin> set x \<Longrightarrow> split_str x [d, d] = [x]"
  by (simp add: split_str_def split_none)

lemma split_str_pair: "d \<notin> set x \<Longrightarrow> split_str (x @ d # d # y) [d, d] = x # split_str y [d, d]"
  by (simp add: split_str_def split_pair)

lemma trim_space_pad:
  assumes "s \<noteq> []" "visible (hd s)" "visible (last s)"
  shows "trim_space (s @ '' '') = s" "trim_space (CHR '' '' # s) = s"
proof -
  obtain a r where s: "s = a # r" using assms(1) by (cases s) auto
  have sp: "is_space 32" by (simp add: is_space_def)
  have "trim_left (s @ '' '') = s @ '' ''" "trim_left (CHR '' '' # s) = s"
    using assms(2) s sp by (simp_all add: trim_left_Cons_ascii)
  moreover have "trim_right (s @ '' '') = trim_right s" "trim_right s = s"
  proof -
    show "trim_right (s @ '' '') = trim_right s"
      using sp by (simp add: trim_right_snoc_ascii)
    show "trim_right s = s"
      using assms by (cases s rule: rev_cases) (simp_all add: trim_right_snoc_ascii)
  qed
  ultimately show "trim_space (s @ '' '') = s" "trim_space (CHR '' '' # s) = s"
    by (simp_all add: trim_space_def)
qed

lemma eval_single:
  assumes "single_cond p"
  shows "eval_expr sc p = eval_atom p sc"
  using assms
  by (subst eval_expr.simps)
    (simp add: Let_def single_cond_def trim_space_visible split_top_def split_str_none)

lemma eval_or:
  assumes "single_cond p" "single_cond q"
  shows "eval_expr sc (p @ '' || '' @ q) = any_seq [eval_atom p sc, eval_atom q sc]"
proof -
  let ?e = "p @ '' || '' @ q"
  have t: "trim_space ?e = ?e"
    using assms by (intro trim_space_visible) (auto simp: single_cond_def)
  have "split_top ?e ''&&'' = [?e]"
    using assms split_str_none [of "CHR ''&''" ?e] t by (simp add: split_top_def single_cond_def)
  moreover have "split_top ?e ''||'' = [p, q]"
    using assms split_str_pair [of "CHR ''|''" "p @ '' ''" "CHR '' '' # q"]
    by (simp add: split_top_def single_cond_def split_str_none trim_space_pad)
  ultimately show ?thesis
    using assms t by (subst eval_expr.simps) (simp add: Let_def eval_single)
qed

text \<open>
  In a condition that mixes the operators, \<^verbatim>\<open>||\<close> binds tighter than
  \<^verbatim>\<open>&&\<close>: \<^verbatim>\<open>p || q && r\<close> is read as \<^verbatim>\<open>(p || q) && r\<close> for all
  conditions p, q and r. (The comment of \<^verbatim>\<open>evalExpr\<close> promises the opposite.)
\<close>

lemma or_binds_tighter:
  assumes "single_cond p" "single_cond q" "single_cond r"
  shows "eval_expr sc (p @ '' || '' @ q @ '' && '' @ r) =
    all_seq [any_seq [eval_atom p sc, eval_atom q sc], eval_atom r sc]"
proof -
  let ?pq = "p @ '' || '' @ q"
  let ?e = "?pq @ '' && '' @ r"
  have t: "trim_space ?e = ?e"
    using assms by (intro trim_space_visible) (auto simp: single_cond_def)
  have "trim_space (?pq @ '' '') = ?pq"
    using assms by (intro trim_space_pad) (auto simp: single_cond_def)
  then have "split_top ?e ''&&'' = [?pq, r]"
    using assms split_str_pair [of "CHR ''&''" "?pq @ '' ''" "CHR '' '' # r"]
    by (simp add: split_top_def single_cond_def split_str_none trim_space_pad)
  then have "eval_expr sc ?e = all_seq [eval_expr sc ?pq, eval_expr sc r]"
    using t by (subst eval_expr.simps) (simp add: Let_def)
  then show ?thesis
    by (simp only: append.assoc eval_or [OF assms(1,2)] eval_single [OF assms(3)])
qed

definition abc_scope :: ref_scope where
  "abc_scope = \<lparr>sc_input = Some [(''a'', GStr ''y''), (''b'', GStr ''y''), (''c'', GStr ''n'')],
                sc_outputs = (\<lambda>_. None), sc_vars = None\<rparr>"

lemma or_binds_tighter_witness:
  "eval_expr abc_scope ''${input.a} == y || ${input.b} == y && ${input.c} == y'' = Inr False
   \<and> eval_atom ''${input.a} == y'' abc_scope = Inr True"
proof -
  have a: "eval_atom ''${input.a} == y'' abc_scope = Inr True"
    and b: "eval_atom ''${input.b} == y'' abc_scope = Inr True"
    and c: "eval_atom ''${input.c} == y'' abc_scope = Inr False"
    by code_simp+
  have "single_cond ''${input.a} == y''" "single_cond ''${input.b} == y''" "single_cond ''${input.c} == y''"
    by (simp_all add: single_cond_def visible_def)
  from or_binds_tighter [OF this, of abc_scope] a b c show ?thesis by simp
qed

end
