(* ===== verification/Workflow_Store.thy ===== *)
theory Workflow_Store
  imports Workflow_Types
begin

text \<open>
  The persistence of workflow runs (\<^verbatim>\<open>internal/store/workflow.go\<close>): the tables
  \<^verbatim>\<open>workflow_runs\<close> and \<^verbatim>\<open>workflow_node_outputs\<close> as lists of rows in insertion order,
  and every statement of the file as a function on them.

  \<^item> Times are seconds: the columns hold RFC 3339 strings in UTC with second precision, which
    compare as strings the way the instants do.
  \<^item> The JSON columns hold the text that \<^verbatim>\<open>json.Marshal\<close> gives; reading parses it.
  \<^item> The database can fail. \<open>faults\<close> is the sequence of outcomes of the coming statements
    (\<open>True\<close>: the driver returns an error and the tables stay as they are; nothing left means
    success). \<open>now\<close> is the clock.
  \<^item> \<open>'e\<close> is the type of the error column; \<open>None\<close> is the empty string.
\<close>

section \<open>Tables\<close>

record 'e run_row =
  wr_id :: string
  wr_def :: string
  wr_version :: int
  wr_input :: string
  wr_status :: status
  wr_session :: string
  wr_owner :: string
  wr_error :: "'e option"
  wr_started :: int
  wr_finished :: "int option"
  wr_form_node :: string
  wr_form_schema :: string

record 'e out_row =
  no_run :: string
  no_node :: string
  no_attempt :: int
  no_status :: status
  no_output :: string
  no_error :: "'e option"
  no_created :: int

record 'e wf_db =
  runs :: "'e run_row list"
  outs :: "'e out_row list"
  now :: int
  faults :: "bool list"

datatype store_error = DBFail | DBConflict | MarshalFail | NotFound

text \<open>One statement: its outcome is taken from \<open>faults\<close>.\<close>

definition tick :: "'e wf_db \<Rightarrow> bool \<times> 'e wf_db" where
  "tick db = (case faults db of [] \<Rightarrow> (False, db) | f # fs \<Rightarrow> (f, db\<lparr>faults := fs\<rparr>))"

definition exec_stmt :: "('e wf_db \<Rightarrow> 'e wf_db) \<Rightarrow> 'e wf_db \<Rightarrow> store_error option \<times> 'e wf_db" where
  "exec_stmt f db = (let (bad, db1) = tick db in if bad then (Some DBFail, db1) else (None, f db1))"

definition query_stmt :: "('e wf_db \<Rightarrow> 'a) \<Rightarrow> 'e wf_db \<Rightarrow> (store_error, 'a) res \<times> 'e wf_db" where
  "query_stmt q db = (let (bad, db1) = tick db in if bad then (Inl DBFail, db1) else (Inr (q db1), db1))"

definition update_runs :: "('e run_row \<Rightarrow> bool) \<Rightarrow> ('e run_row \<Rightarrow> 'e run_row) \<Rightarrow> 'e wf_db \<Rightarrow> 'e wf_db" where
  "update_runs P f db = db\<lparr>runs := map (\<lambda>r. if P r then f r else r) (runs db)\<rparr>"

section \<open>The runner's statements\<close>

definition create_workflow_run ::
  "string \<Rightarrow> string \<Rightarrow> int \<Rightarrow> gomap \<Rightarrow> string \<Rightarrow> string \<Rightarrow> 'e wf_db \<Rightarrow> store_error option \<times> 'e wf_db"
where
  "create_workflow_run rid def_id version input session owner db =
     (case gomap_json input of
        None \<Rightarrow> (Some MarshalFail, db)
      | Some js \<Rightarrow>
         (let (bad, db1) = tick db in
          if bad then (Some DBFail, db1)
          else if rid \<in> wr_id ` set (runs db1) then (Some DBConflict, db1)
          else (None, db1\<lparr>runs := runs db1 @
                 [\<lparr>wr_id = rid, wr_def = def_id, wr_version = version, wr_input = js,
                   wr_status = StatusRunning, wr_session = session, wr_owner = owner,
                   wr_error = None, wr_started = now db1, wr_finished = None,
                   wr_form_node = [], wr_form_schema = []\<rparr>]\<rparr>)))"

definition finalize_workflow_run ::
  "string \<Rightarrow> status \<Rightarrow> 'e option \<Rightarrow> 'e wf_db \<Rightarrow> store_error option \<times> 'e wf_db" where
  "finalize_workflow_run rid st err =
     exec_stmt (\<lambda>db. update_runs (\<lambda>r. wr_id r = rid)
       (\<lambda>r. r\<lparr>wr_status := st, wr_error := err, wr_finished := Some (now db)\<rparr>) db)"

definition append_node_output ::
  "string \<Rightarrow> string \<Rightarrow> int \<Rightarrow> status \<Rightarrow> gomap \<Rightarrow> 'e option \<Rightarrow> 'e wf_db \<Rightarrow> store_error option \<times> 'e wf_db"
where
  "append_node_output rid node attempt st out err db =
     (case gomap_json out of
        None \<Rightarrow> (Some MarshalFail, db)
      | Some js \<Rightarrow>
          exec_stmt (\<lambda>db. db\<lparr>outs := outs db @
             [\<lparr>no_run = rid, no_node = node, no_attempt = attempt, no_status = st,
               no_output = js, no_error = err, no_created = now db\<rparr>]\<rparr>) db)"

text \<open>\<^verbatim>\<open>ORDER BY node_id ASC, attempt ASC\<close>; rows that agree on both stay in insertion order.\<close>

definition run_outputs :: "string \<Rightarrow> 'e wf_db \<Rightarrow> 'e out_row list" where
  "run_outputs rid db =
     sort_key no_node (sort_key no_attempt (filter (\<lambda>r. no_run r = rid) (outs db)))"

text \<open>\<^verbatim>\<open>WorkflowNodeOutputRow\<close>: a column that does not decode, or decodes to nil, reads \<open>{}\<close>.\<close>

definition read_output :: "string \<Rightarrow> gomap" where
  "read_output js =
     (case (if js \<noteq> [] then json_parse_map js else None) of
        Some (Some kv) \<Rightarrow> Some kv
      | _ \<Rightarrow> Some [])"

definition list_node_outputs :: "string \<Rightarrow> 'e wf_db \<Rightarrow> (store_error, 'e out_row list) res \<times> 'e wf_db" where
  "list_node_outputs rid = query_stmt (run_outputs rid)"

definition find_run :: "string \<Rightarrow> 'e wf_db \<Rightarrow> 'e run_row option" where
  "find_run rid db = find (\<lambda>r. wr_id r = rid) (runs db)"

definition get_run_input :: "string \<Rightarrow> 'e wf_db \<Rightarrow> (store_error, gomap) res \<times> 'e wf_db" where
  "get_run_input rid db =
     (let (bad, db1) = tick db in
      if bad then (Inl DBFail, db1)
      else case find_run rid db1 of
             None \<Rightarrow> (Inl NotFound, db1)
           | Some r \<Rightarrow> (Inr (read_output (wr_input r)), db1))"

definition mark_run_running :: "string \<Rightarrow> 'e wf_db \<Rightarrow> store_error option \<times> 'e wf_db" where
  "mark_run_running rid =
     exec_stmt (update_runs (\<lambda>r. wr_id r = rid)
       (\<lambda>r. r\<lparr>wr_status := StatusRunning, wr_finished := None,
             wr_form_node := [], wr_form_schema := []\<rparr>))"

definition set_run_waiting :: "string \<Rightarrow> string \<Rightarrow> gomap \<Rightarrow> 'e wf_db \<Rightarrow> store_error option \<times> 'e wf_db" where
  "set_run_waiting rid form_node schema db =
     (case gomap_json schema of
        None \<Rightarrow> (Some MarshalFail, db)
      | Some js \<Rightarrow>
          exec_stmt (update_runs (\<lambda>r. wr_id r = rid)
            (\<lambda>r. r\<lparr>wr_status := StatusWaiting, wr_form_node := form_node, wr_form_schema := js,
                  wr_error := None, wr_finished := None\<rparr>)) db)"

section \<open>Sweeps\<close>

text \<open>The count of the rows a statement changed comes with the tables.\<close>

definition sweep_stmt ::
  "('e run_row \<Rightarrow> bool) \<Rightarrow> ('e run_row \<Rightarrow> 'e run_row) \<Rightarrow> 'e wf_db \<Rightarrow> (store_error, nat) res \<times> 'e wf_db"
where
  "sweep_stmt P f db =
     (let (bad, db1) = tick db in
      if bad then (Inl DBFail, db1)
      else (Inr (length (filter P (runs db1))), update_runs P f db1))"

definition timeout_waiting_runs :: "int \<Rightarrow> 'e \<Rightarrow> 'e wf_db \<Rightarrow> (store_error, nat) res \<times> 'e wf_db" where
  "timeout_waiting_runs before msg db =
     sweep_stmt (\<lambda>r. wr_status r = StatusWaiting \<and> wr_started r < before)
       (\<lambda>r. r\<lparr>wr_status := StatusNeedsIntervention, wr_error := Some msg,
             wr_finished := Some (now db)\<rparr>) db"

text \<open>\<^verbatim>\<open>COALESCE((SELECT MAX(created_at) ...), started_at)\<close>\<close>

definition last_sign_of_life :: "'e out_row list \<Rightarrow> 'e run_row \<Rightarrow> int" where
  "last_sign_of_life os r =
     (let ts = map no_created (filter (\<lambda>x. no_run x = wr_id r) os)
      in if ts = [] then wr_started r else Max (set ts))"

definition fail_stale_running_runs :: "int \<Rightarrow> 'e \<Rightarrow> 'e wf_db \<Rightarrow> (store_error, nat) res \<times> 'e wf_db" where
  "fail_stale_running_runs before msg db =
     sweep_stmt (\<lambda>r. wr_status r = StatusRunning \<and> last_sign_of_life (outs db) r < before)
       (\<lambda>r. r\<lparr>wr_status := StatusFailed, wr_error := Some msg, wr_finished := Some (now db)\<rparr>) db"

section \<open>Deletion in batches\<close>

text \<open>\<open>None\<close> is a zero \<^verbatim>\<open>time.Time\<close>.\<close>

definition expired :: "int option \<Rightarrow> int option \<Rightarrow> 'e run_row \<Rightarrow> bool" where
  "expired success_before failed_before r =
     (case wr_finished r of
        None \<Rightarrow> False
      | Some t \<Rightarrow>
          (case success_before of Some c \<Rightarrow> wr_status r = StatusSucceeded \<and> t < c | None \<Rightarrow> False)
          \<or> (case failed_before of
               Some c \<Rightarrow> (wr_status r = StatusFailed \<or> wr_status r = StatusNeedsIntervention) \<and> t < c
             | None \<Rightarrow> False))"

text \<open>The manual filter; a clause whose argument is the zero value is left out.\<close>

definition filter_run :: "status option \<Rightarrow> int option \<Rightarrow> string \<Rightarrow> 'e run_row \<Rightarrow> bool" where
  "filter_run st older owner r \<longleftrightarrow>
     (case st of Some x \<Rightarrow> wr_status r = x | None \<Rightarrow> True)
     \<and> (case older of
          Some c \<Rightarrow> (case wr_finished r of Some t \<Rightarrow> t < c | None \<Rightarrow> False)
        | None \<Rightarrow> True)
     \<and> (owner \<noteq> [] \<longrightarrow> wr_owner r = owner)"

text \<open>\<^verbatim>\<open>SELECT id ... WHERE P ORDER BY id LIMIT n\<close>\<close>

definition select_ids :: "('e run_row \<Rightarrow> bool) \<Rightarrow> nat \<Rightarrow> 'e wf_db \<Rightarrow> string list" where
  "select_ids P n db = take n (sort (map wr_id (filter P (runs db))))"

definition delete_rows :: "string list \<Rightarrow> 'e wf_db \<Rightarrow> 'e wf_db" where
  "delete_rows ids db =
     db\<lparr>outs := filter (\<lambda>x. no_run x \<notin> set ids) (outs db),
        runs := filter (\<lambda>r. wr_id r \<notin> set ids) (runs db)\<rparr>"

text \<open>
  One transaction: begin, two deletes, commit. A failure of any of the four leaves the tables
  as they were (the deferred rollback).
\<close>

definition delete_runs_by_id :: "string list \<Rightarrow> 'e wf_db \<Rightarrow> store_error option \<times> 'e wf_db" where
  "delete_runs_by_id ids db =
     (let (b1, db1) = tick db in if b1 then (Some DBFail, db1) else
      let (b2, db2) = tick db1 in if b2 then (Some DBFail, db2) else
      let (b3, db3) = tick db2 in if b3 then (Some DBFail, db3) else
      let (b4, db4) = tick db3 in if b4 then (Some DBFail, db4) else
      (None, delete_rows ids db4))"

lemma runs_tick [simp]: "runs (snd (tick db)) = runs db" "outs (snd (tick db)) = outs db"
    "now (snd (tick db)) = now db"
  by (simp_all add: tick_def split: list.split)

lemma tick_frame: "tick db = (b, db1) \<Longrightarrow> runs db1 = runs db \<and> outs db1 = outs db \<and> now db1 = now db"
  using runs_tick [of db] by simp

lemma delete_runs_by_id_cases:
  "delete_runs_by_id ids db = (e, db') \<Longrightarrow>
     (e = None \<and> runs db' = runs (delete_rows ids db) \<and> outs db' = outs (delete_rows ids db))
     \<or> (e = Some DBFail \<and> runs db' = runs db \<and> outs db' = outs db)"
  by (auto simp: delete_runs_by_id_def delete_rows_def split: prod.splits if_splits
      dest!: tick_frame)

lemma length_select_delete:
  assumes "select_ids P n db \<noteq> []"
  shows "length (runs (delete_rows (select_ids P n db) db)) < length (runs db)"
proof -
  obtain i where i: "i \<in> set (select_ids P n db)"
    using assms by (cases "select_ids P n db") auto
  then obtain r where "r \<in> set (runs db)" "wr_id r = i"
    unfolding select_ids_def by (auto dest!: in_set_takeD)
  with i show ?thesis
    by (auto simp: delete_rows_def intro!: length_filter_less)
qed

lemma delete_loop_decreases:
  assumes "(b, db1) = tick db" and "select_ids P n db1 \<noteq> []"
    and "(None, db2) = delete_runs_by_id (select_ids P n db1) db1"
  shows "length (runs db2) < length (runs db)"
proof -
  have "runs db2 = runs (delete_rows (select_ids P n db1) db1)"
    using delete_runs_by_id_cases [OF assms(3) [symmetric]] by simp
  with length_select_delete [OF assms(2)] tick_frame [OF assms(1) [symmetric]]
  show ?thesis by simp
qed

text \<open>
  The batch loop shared by \<^verbatim>\<open>PruneWorkflowRuns\<close> and \<^verbatim>\<open>DeleteWorkflowRunsBy\<close>. It
  returns the number of runs deleted so far with the error that ended it; \<open>cancelled\<close> tells
  whether the context is done after that many deletions.
\<close>

datatype batch_end = BatchDone | BatchError store_error | BatchCancelled

function delete_loop ::
  "('e run_row \<Rightarrow> bool) \<Rightarrow> nat \<Rightarrow> (nat \<Rightarrow> bool) \<Rightarrow> nat \<Rightarrow> 'e wf_db \<Rightarrow> (nat \<times> batch_end) \<times> 'e wf_db"
where
  "delete_loop P batch cancelled count db =
     (let (bad, db1) = tick db in
      if bad then ((count, BatchError DBFail), db1)
      else
        (let ids = select_ids P batch db1 in
         if ids = [] then ((count, BatchDone), db1)
         else case delete_runs_by_id ids db1 of
           (Some e, db2) \<Rightarrow> ((count, BatchError e), db2)
         | (None, db2) \<Rightarrow>
             (let count' = count + length ids in
              if length ids < batch then ((count', BatchDone), db2)
              else if cancelled count' then ((count', BatchCancelled), db2)
              else delete_loop P batch cancelled count' db2)))"
  by pat_completeness auto
termination
  by (relation "measure (\<lambda>(P, batch, cancelled, count, db). length (runs db))")
    (auto intro: delete_loop_decreases)

declare delete_loop.simps [simp del]

definition batch_limit :: "int \<Rightarrow> nat" where
  "batch_limit n = (if n \<le> 0 then 1000 else nat n)"

text \<open>With no clause at all the select returns no ids without asking the database.\<close>

definition prune_workflow_runs ::
  "int option \<Rightarrow> int option \<Rightarrow> int \<Rightarrow> (nat \<Rightarrow> bool) \<Rightarrow> 'e wf_db \<Rightarrow> (nat \<times> batch_end) \<times> 'e wf_db"
where
  "prune_workflow_runs success_before failed_before batch cancelled db =
     (if success_before = None \<and> failed_before = None then ((0, BatchDone), db)
      else delete_loop (expired success_before failed_before) (batch_limit batch) cancelled 0 db)"

definition delete_workflow_run :: "string \<Rightarrow> 'e wf_db \<Rightarrow> store_error option \<times> 'e wf_db" where
  "delete_workflow_run rid = delete_runs_by_id [rid]"

definition delete_workflow_runs_by ::
  "status option \<Rightarrow> int option \<Rightarrow> string \<Rightarrow> int \<Rightarrow> (nat \<Rightarrow> bool) \<Rightarrow> 'e wf_db
     \<Rightarrow> (nat \<times> batch_end) \<times> 'e wf_db"
where
  "delete_workflow_runs_by st older owner batch cancelled db =
     (if st = None \<and> older = None \<and> owner = [] then ((0, BatchDone), db)
      else delete_loop (filter_run st older owner) (batch_limit batch) cancelled 0 db)"

section \<open>Reads\<close>

definition get_workflow_run :: "string \<Rightarrow> 'e wf_db \<Rightarrow> (store_error, status \<times> 'e option) res \<times> 'e wf_db" where
  "get_workflow_run rid db =
     (let (bad, db1) = tick db in
      if bad then (Inl DBFail, db1)
      else case find_run rid db1 of
             None \<Rightarrow> (Inl NotFound, db1)
           | Some r \<Rightarrow> (Inr (wr_status r, wr_error r), db1))"

definition get_workflow_run_row :: "string \<Rightarrow> 'e wf_db \<Rightarrow> (store_error, 'e run_row) res \<times> 'e wf_db" where
  "get_workflow_run_row rid db =
     (let (bad, db1) = tick db in
      if bad then (Inl DBFail, db1)
      else case find_run rid db1 of None \<Rightarrow> (Inl NotFound, db1) | Some r \<Rightarrow> (Inr r, db1))"

definition list_workflow_runs :: "string \<Rightarrow> int \<Rightarrow> 'e wf_db \<Rightarrow> (store_error, 'e run_row list) res \<times> 'e wf_db" where
  "list_workflow_runs def_id limit =
     query_stmt (\<lambda>db. take (if limit \<le> 0 then 50 else nat limit)
       (sort_key (\<lambda>r. - wr_started r) (filter (\<lambda>r. wr_def r = def_id) (runs db))))"

section \<open>The interface the runner relies on\<close>

text \<open>
  \<^verbatim>\<open>RunStore\<close> of \<^verbatim>\<open>runner.go\<close>, with the laws the runner needs: the node outputs are
  a log that an append extends by one row and nothing else touches; a run's status is what the
  last statement on that run set; no statement on one run changes another.
\<close>

definition log_extends :: "string \<Rightarrow> 'e out_row list \<Rightarrow> 'e out_row list \<Rightarrow> bool" where
  "log_extends rid old new_log \<longleftrightarrow> (\<exists>new. new_log = old @ new \<and> (\<forall>r\<in>set new. no_run r = rid))"

definition run_status :: "string \<Rightarrow> 'e wf_db \<Rightarrow> status list" where
  "run_status rid db = map wr_status (filter (\<lambda>r. wr_id r = rid) (runs db))"

definition other_runs :: "string \<Rightarrow> 'e wf_db \<Rightarrow> 'e run_row list" where
  "other_runs rid db = filter (\<lambda>r. wr_id r \<noteq> rid) (runs db)"

lemma log_extends_refl [simp, intro]: "log_extends rid l l"
  by (simp add: log_extends_def)

lemma log_extends_trans: "log_extends rid a b \<Longrightarrow> log_extends rid b c \<Longrightarrow> log_extends rid a c"
  by (auto simp: log_extends_def)

lemma log_extends_snoc: "no_run r = rid \<Longrightarrow> log_extends rid l (l @ [r])"
  by (auto simp: log_extends_def)

locale run_store =
  fixes create :: "string \<Rightarrow> string \<Rightarrow> int \<Rightarrow> gomap \<Rightarrow> string \<Rightarrow> string \<Rightarrow> 's \<Rightarrow> store_error option \<times> 's"
    and finalize :: "string \<Rightarrow> status \<Rightarrow> 'e option \<Rightarrow> 's \<Rightarrow> store_error option \<times> 's"
    and append :: "string \<Rightarrow> string \<Rightarrow> int \<Rightarrow> status \<Rightarrow> gomap \<Rightarrow> 'e option \<Rightarrow> 's \<Rightarrow> store_error option \<times> 's"
    and wait_on :: "string \<Rightarrow> string \<Rightarrow> gomap \<Rightarrow> 's \<Rightarrow> store_error option \<times> 's"
    and mark :: "string \<Rightarrow> 's \<Rightarrow> store_error option \<times> 's"
    and log :: "'s \<Rightarrow> 'e out_row list"
    and status_of :: "string \<Rightarrow> 's \<Rightarrow> status list"
    and others :: "string \<Rightarrow> 's \<Rightarrow> 'e run_row list"
  assumes create_log: "create rid d v i ss ow s = (e, s') \<Longrightarrow> log s' = log s"
    and create_status: "create rid d v i ss ow s = (e, s') \<Longrightarrow>
          status_of k s' = status_of k s @ (if e = None \<and> k = rid then [StatusRunning] else [])"
    and finalize_log: "finalize rid st er s = (e, s') \<Longrightarrow> log s' = log s"
    and finalize_status: "finalize rid st er s = (e, s') \<Longrightarrow>
          status_of k s' = (if e = None \<and> k = rid then map (\<lambda>_. st) (status_of k s) else status_of k s)"
    and append_log: "append rid n a st out er s = (e, s') \<Longrightarrow>
          (if e = None
           then \<exists>r. log s' = log s @ [r] \<and> no_run r = rid \<and> no_node r = n \<and> no_attempt r = a
                  \<and> no_status r = st \<and> no_error r = er
           else log s' = log s)"
    and append_status: "append rid n a st out er s = (e, s') \<Longrightarrow> status_of k s' = status_of k s"
    and wait_log: "wait_on rid n sch s = (e, s') \<Longrightarrow> log s' = log s"
    and wait_status: "wait_on rid n sch s = (e, s') \<Longrightarrow>
          status_of k s' =
            (if e = None \<and> k = rid then map (\<lambda>_. StatusWaiting) (status_of k s) else status_of k s)"
    and mark_log: "mark rid s = (e, s') \<Longrightarrow> log s' = log s"
    and mark_status: "mark rid s = (e, s') \<Longrightarrow>
          status_of k s' =
            (if e = None \<and> k = rid then map (\<lambda>_. StatusRunning) (status_of k s) else status_of k s)"
    and create_others: "create rid d v i ss ow s = (e, s') \<Longrightarrow> others rid s' = others rid s"
    and finalize_others: "finalize rid st er s = (e, s') \<Longrightarrow> others rid s' = others rid s"
    and append_others: "append rid n a st out er s = (e, s') \<Longrightarrow> others rid s' = others rid s"
    and wait_others: "wait_on rid n sch s = (e, s') \<Longrightarrow> others rid s' = others rid s"
    and mark_others: "mark rid s = (e, s') \<Longrightarrow> others rid s' = others rid s"
begin

text \<open>What a statement on run \<open>rid\<close> leaves alone.\<close>

definition frame :: "string \<Rightarrow> 's \<Rightarrow> 's \<Rightarrow> bool" where
  "frame rid s s' \<longleftrightarrow>
     log_extends rid (log s) (log s') \<and> others rid s' = others rid s
     \<and> length (status_of rid s') = length (status_of rid s)"

lemma frame_refl: "frame rid s s"
  by (simp add: frame_def)

lemma frame_trans: "frame rid a b \<Longrightarrow> frame rid b c \<Longrightarrow> frame rid a c"
  by (auto simp: frame_def intro: log_extends_trans)

lemma finalize_frame: "finalize rid st er s = (e, s') \<Longrightarrow> frame rid s s'"
  by (simp add: frame_def finalize_log finalize_others finalize_status)

lemma append_frame: "append rid n a st out er s = (e, s') \<Longrightarrow> frame rid s s'"
  using append_log [of rid n a st out er s e s']
  by (auto simp: frame_def append_others append_status log_extends_snoc split: if_splits)

lemma wait_frame: "wait_on rid n sch s = (e, s') \<Longrightarrow> frame rid s s'"
  by (simp add: frame_def wait_log wait_others wait_status)

lemma mark_frame: "mark rid s = (e, s') \<Longrightarrow> frame rid s s'"
  by (simp add: frame_def mark_log mark_others mark_status)

lemma other_status:
  "k \<noteq> rid \<Longrightarrow> create rid d v i ss ow s = (e, s') \<Longrightarrow> status_of k s' = status_of k s"
  "k \<noteq> rid \<Longrightarrow> finalize rid st er s = (e, s') \<Longrightarrow> status_of k s' = status_of k s"
  "k \<noteq> rid \<Longrightarrow> wait_on rid n sch s = (e, s') \<Longrightarrow> status_of k s' = status_of k s"
  "k \<noteq> rid \<Longrightarrow> mark rid s = (e, s') \<Longrightarrow> status_of k s' = status_of k s"
  using create_status finalize_status wait_status mark_status by auto

text \<open>After a successful finalize the run, if it is there, has that status and no other.\<close>

lemma finalized: "finalize rid st er s = (None, s') \<Longrightarrow> set (status_of rid s') \<subseteq> {st}"
  using finalize_status [of rid st er s None s' rid] by auto

lemma parked: "wait_on rid n sch s = (None, s') \<Longrightarrow> set (status_of rid s') \<subseteq> {StatusWaiting}"
  using wait_status [of rid n sch s None s' rid] by auto

end

lemma exec_stmt_cases:
  "exec_stmt f db = (e, db') \<Longrightarrow>
     (\<exists>db1. runs db1 = runs db \<and> outs db1 = outs db \<and> now db1 = now db \<and>
        (\<forall>k. run_status k db1 = run_status k db) \<and> (\<forall>k. other_runs k db1 = other_runs k db) \<and>
        (e = None \<and> db' = f db1 \<or> e = Some DBFail \<and> db' = db1))"
  by (auto simp: exec_stmt_def run_status_def other_runs_def split: prod.splits if_splits
      dest!: tick_frame)

lemma run_status_update:
  assumes "\<And>r. wr_id (f r) = wr_id r" and "\<And>r. wr_status (f r) = st"
  shows "run_status k (update_runs (\<lambda>r. wr_id r = rid) f db) =
           (if k = rid then map (\<lambda>_. st) (run_status k db) else run_status k db)"
proof -
  have "map wr_status (filter (\<lambda>r. wr_id r = k) (map (\<lambda>r. if wr_id r = rid then f r else r) rs)) =
      (if k = rid then map (\<lambda>_. st) (map wr_status (filter (\<lambda>r. wr_id r = k) rs))
       else map wr_status (filter (\<lambda>r. wr_id r = k) rs))" for rs
    using assms by (induction rs) auto
  then show ?thesis by (simp add: run_status_def update_runs_def)
qed

lemma other_runs_update:
  assumes "\<And>r. wr_id (f r) = wr_id r"
  shows "other_runs rid (update_runs (\<lambda>r. wr_id r = rid) f db) = other_runs rid db"
proof -
  have "filter (\<lambda>r. wr_id r \<noteq> rid) (map (\<lambda>r. if wr_id r = rid then f r else r) rs) =
      filter (\<lambda>r. wr_id r \<noteq> rid) rs" for rs
    using assms by (induction rs) auto
  then show ?thesis by (simp add: other_runs_def update_runs_def)
qed

lemma run_status_cong: "runs a = runs b \<Longrightarrow> run_status k a = run_status k b"
  by (simp add: run_status_def)

lemma outs_update_runs [simp]: "outs (update_runs P f db) = outs db"
  by (simp add: update_runs_def)

interpretation db: run_store create_workflow_run finalize_workflow_run append_node_output
    set_run_waiting mark_run_running outs run_status other_runs
proof (unfold_locales, goal_cases)
  case (1 rid d v i ss ow s e s')
  then show ?case
    by (auto simp: create_workflow_run_def split: option.splits prod.splits if_splits
        dest!: tick_frame)
next
  case (2 rid d v i ss ow s e s' k)
  then show ?case
    by (auto simp: create_workflow_run_def run_status_def split: option.splits prod.splits if_splits
        dest!: tick_frame)
next
  case (3 rid st er s e s')
  then show ?case by (auto simp: finalize_workflow_run_def dest!: exec_stmt_cases)
next
  case (4 rid st er s e s' k)
  then show ?case
    by (auto simp: finalize_workflow_run_def run_status_update dest!: exec_stmt_cases)
next
  case (5 rid n a st out er s e s')
  then show ?case
    by (auto simp: append_node_output_def split: option.splits dest!: exec_stmt_cases)
next
  case (6 rid n a st out er s e s' k)
  then show ?case
    by (auto simp: append_node_output_def run_status_def split: option.splits dest!: exec_stmt_cases)
next
  case (7 rid n sch s e s')
  then show ?case
    by (auto simp: set_run_waiting_def split: option.splits dest!: exec_stmt_cases)
next
  case (8 rid n sch s e s' k)
  then show ?case
    by (auto simp: set_run_waiting_def run_status_update split: option.splits dest!: exec_stmt_cases)
next
  case (9 rid s e s')
  then show ?case by (auto simp: mark_run_running_def dest!: exec_stmt_cases)
next
  case (10 rid s e s' k)
  then show ?case
    by (auto simp: mark_run_running_def run_status_update dest!: exec_stmt_cases)
next
  case (11 rid d v i ss ow s e s')
  then show ?case
    by (auto simp: create_workflow_run_def other_runs_def split: option.splits prod.splits if_splits
        dest!: tick_frame)
next
  case (12 rid st er s e s')
  then show ?case
    by (auto simp: finalize_workflow_run_def other_runs_update dest!: exec_stmt_cases)
next
  case (13 rid n a st out er s e s')
  then show ?case
    by (auto simp: append_node_output_def other_runs_def split: option.splits dest!: exec_stmt_cases)
next
  case (14 rid n sch s e s')
  then show ?case
    by (auto simp: set_run_waiting_def other_runs_update split: option.splits
        dest!: exec_stmt_cases)
next
  case (15 rid s e s')
  then show ?case
    by (auto simp: mark_run_running_def other_runs_update dest!: exec_stmt_cases)
qed

end
