(* ===== verification/Workflow_Retention.thy ===== *)
theory Workflow_Retention
  imports Workflow_Store
begin

text \<open>
  What the sweeps and the batched deletions of \<^verbatim>\<open>internal/store/workflow.go\<close> do to the
  tables, and one pass of the retention sweep (\<^verbatim>\<open>pruneWorkflowRunsOnce\<close> of
  \<^verbatim>\<open>internal/gateway/gateway_workflow_retention.go\<close>).
\<close>

section \<open>One pass of the sweep\<close>

text \<open>
  Hours are turned into cutoffs before the clock; an action whose hours are not positive is
  skipped. Each action is best effort: an error is logged and the pass goes on.
\<close>

definition cutoff :: "int \<Rightarrow> int \<Rightarrow> int option" where
  "cutoff t hours = (if 0 < hours then Some (t - hours * 3600) else None)"

definition prune_once ::
  "int \<Rightarrow> int \<Rightarrow> int \<Rightarrow> int \<Rightarrow> 'e \<Rightarrow> 'e \<Rightarrow> (nat \<Rightarrow> bool) \<Rightarrow> 'e wf_db \<Rightarrow> 'e wf_db" where
  "prune_once success_h failed_h form_h stale_h form_msg stale_msg cancelled db =
     (let t = now db;
          db1 = (case cutoff t form_h of
                   Some c \<Rightarrow> snd (timeout_waiting_runs c form_msg db) | None \<Rightarrow> db);
          db2 = (case cutoff t stale_h of
                   Some c \<Rightarrow> snd (fail_stale_running_runs c stale_msg db1) | None \<Rightarrow> db1)
      in if cutoff t success_h = None \<and> cutoff t failed_h = None then db2
         else snd (prune_workflow_runs (cutoff t success_h) (cutoff t failed_h) 1000 cancelled db2))"

section \<open>The batch loop deletes what the filter matches\<close>

definition ids_of :: "('e run_row \<Rightarrow> bool) \<Rightarrow> 'e wf_db \<Rightarrow> string list" where
  "ids_of P db = map wr_id (filter P (runs db))"

lemma delete_rows_set: "set is = set js \<Longrightarrow> delete_rows is db = delete_rows js db"
  by (simp add: delete_rows_def)

lemma delete_rows_Nil [simp]: "delete_rows [] db = db"
  by (simp add: delete_rows_def)

lemma delete_rows_append: "delete_rows is (delete_rows js db) = delete_rows (js @ is) db"
  by (simp add: delete_rows_def)

lemma faults_delete_rows [simp]: "faults (delete_rows is db) = faults db"
  by (simp add: delete_rows_def)

lemma ids_of_delete: "ids_of P (delete_rows is db) = filter (\<lambda>i. i \<notin> set is) (ids_of P db)"
  by (simp add: ids_of_def delete_rows_def filter_map filter_filter o_def conj_commute)

lemma runs_delete_ids:
  assumes "distinct (map wr_id (runs db))"
  shows "runs (delete_rows (ids_of P db) db) = filter (\<lambda>r. \<not> P r) (runs db)"
proof -
  have "wr_id r \<in> set (ids_of P db) \<longleftrightarrow> P r" if "r \<in> set (runs db)" for r
    using assms that by (auto simp: ids_of_def distinct_map dest: inj_onD)
  then show ?thesis
    by (auto simp: delete_rows_def intro: filter_cong)
qed

lemma tick_no_faults: "faults db = [] \<Longrightarrow> tick db = (False, db)"
  by (simp add: tick_def)

lemma delete_runs_no_faults:
  "faults db = [] \<Longrightarrow> delete_runs_by_id is db = (None, delete_rows is db)"
  by (simp add: delete_runs_by_id_def tick_no_faults)

lemma select_ids_eq: "select_ids P n db = take n (sort (ids_of P db))"
  by (simp add: select_ids_def ids_of_def)

lemma filter_not_in_length:
  assumes "distinct xs" and "set ys \<subseteq> set xs" and "distinct ys"
  shows "length xs = length ys + length (filter (\<lambda>i. i \<notin> set ys) xs)"
proof -
  have "length (filter (\<lambda>i. i \<in> set ys) xs) = card (set ys)"
    using assms by (simp add: distinct_length_filter Int_absorb1 Int_commute)
  then show ?thesis
    using assms sum_length_filter_compl [of "\<lambda>i. i \<in> set ys" xs] by (simp add: distinct_card)
qed

lemma delete_loop_all:
  assumes "faults db = []" and "distinct (map wr_id (runs db))"
    and "\<And>n. \<not> cancelled n" and "0 < batch"
  shows "delete_loop P batch cancelled c db =
           ((c + length (ids_of P db), BatchDone), delete_rows (ids_of P db) db)"
  using assms
proof (induction P batch cancelled c db rule: delete_loop.induct)
  case (1 P batch cancelled c db)
  let ?ids = "select_ids P batch db"
  have dist: "distinct (ids_of P db)"
    using "1.prems"(2) by (simp add: ids_of_def distinct_map_filter)
  have tick: "tick db = (False, db)" and del: "delete_runs_by_id ?ids db = (None, delete_rows ?ids db)"
    using "1.prems"(1) by (simp_all add: tick_no_faults delete_runs_no_faults)
  have sub: "set ?ids \<subseteq> set (ids_of P db)" and dids: "distinct ?ids"
    using dist by (auto simp: select_ids_eq dest: in_set_takeD)
  show ?case
  proof (cases "?ids = []")
    case True
    then have "sort (ids_of P db) = []"
      using "1.prems"(4) by (simp add: select_ids_eq)
    then have "ids_of P db = []"
      by (metis length_0_conv length_sort)
    with True tick show ?thesis by (simp add: delete_loop.simps [of P batch cancelled c db])
  next
    case False
    show ?thesis
    proof (cases "length ?ids < batch")
      case True
      then have "?ids = sort (ids_of P db)" by (simp add: select_ids_eq)
      then have "delete_rows ?ids db = delete_rows (ids_of P db) db" "length ?ids = length (ids_of P db)"
        by (simp_all add: delete_rows_set [of "sort (ids_of P db)" "ids_of P db"])
      with True False tick del show ?thesis
        by (simp add: delete_loop.simps [of P batch cancelled c db])
    next
      case full: False
      let ?db = "delete_rows ?ids db"
      have IH: "delete_loop P batch cancelled (c + length ?ids) ?db =
          ((c + length ?ids + length (ids_of P ?db), BatchDone), delete_rows (ids_of P ?db) ?db)"
      proof (rule "1.IH" [OF refl tick [symmetric] _ refl False del [symmetric] refl refl full])
        show "distinct (map wr_id (runs ?db))"
          using "1.prems"(2) by (simp add: delete_rows_def distinct_map_filter)
      qed (use "1.prems" in simp_all)
      have "set (?ids @ ids_of P ?db) = set (ids_of P db)"
        using sub by (auto simp: ids_of_delete)
      then have rows: "delete_rows (ids_of P ?db) ?db = delete_rows (ids_of P db) db"
        using delete_rows_set [of "?ids @ ids_of P ?db" "ids_of P db" db]
        by (simp only: delete_rows_append)
      have len: "length (ids_of P db) = length ?ids + length (ids_of P ?db)"
        using filter_not_in_length [OF dist sub dids] by (simp add: ids_of_delete)
      show ?thesis
        using False full tick del IH rows len "1.prems"(3) [of "c + length ?ids"]
        by (simp add: delete_loop.simps [of P batch cancelled c db] Let_def)
    qed
  qed
qed

section \<open>No orphans\<close>

text \<open>Every node output belongs to a run of the table.\<close>

definition no_orphans :: "'e wf_db \<Rightarrow> bool" where
  "no_orphans db \<longleftrightarrow> (\<forall>x\<in>set (outs db). no_run x \<in> wr_id ` set (runs db))"

lemma no_orphans_delete [inv_intros]: "no_orphans db \<Longrightarrow> no_orphans (delete_rows is db)"
  by (auto simp: no_orphans_def delete_rows_def)

lemma no_orphans_cong: "runs a = runs b \<Longrightarrow> outs a = outs b \<Longrightarrow> no_orphans a = no_orphans b"
  by (simp add: no_orphans_def)

lemma update_runs_ids: "(\<And>r. wr_id (f r) = wr_id r) \<Longrightarrow> map wr_id (runs (update_runs P f db)) = map wr_id (runs db)"
  by (simp add: update_runs_def)

lemma no_orphans_update [inv_intros]:
  "(\<And>r. wr_id (f r) = wr_id r) \<Longrightarrow> no_orphans db \<Longrightarrow> no_orphans (update_runs P f db)"
  using update_runs_ids [of f P db] by (simp add: no_orphans_def del: set_map flip: set_map)

lemma no_orphans_sweep [inv_intros]:
  assumes "\<And>r. wr_id (f r) = wr_id r" and "no_orphans db"
  shows "no_orphans (snd (sweep_stmt P f db))"
proof -
  obtain b db1 where t: "tick db = (b, db1)" by fastforce
  then have "no_orphans db1"
    using assms(2) tick_frame [OF t] no_orphans_cong by metis
  with t show ?thesis
    using no_orphans_update [OF assms(1), where P = P] by (simp add: sweep_stmt_def)
qed

lemma no_orphans_delete_runs [inv_intros]:
  assumes "no_orphans db"
  shows "no_orphans (snd (delete_runs_by_id is db))"
proof -
  obtain e db' where d: "delete_runs_by_id is db = (e, db')" by fastforce
  from delete_runs_by_id_cases [OF d] consider
    "runs db' = runs (delete_rows is db)" "outs db' = outs (delete_rows is db)"
    | "runs db' = runs db" "outs db' = outs db" by blast
  then have "no_orphans db'"
    by cases (use assms no_orphans_delete no_orphans_cong in metis)+
  with d show ?thesis by simp
qed

lemma no_orphans_delete_loop [inv_intros]:
  "no_orphans db \<Longrightarrow> no_orphans (snd (delete_loop P batch cancelled c db))"
proof (induction P batch cancelled c db rule: delete_loop.induct)
  case (1 P batch cancelled c db)
  obtain b db1 where t: "tick db = (b, db1)" by fastforce
  let ?ids = "select_ids P batch db1"
  obtain e db2 where d: "delete_runs_by_id ?ids db1 = (e, db2)" by fastforce
  have o1: "no_orphans db1"
    using "1.prems" tick_frame [OF t] no_orphans_cong by metis
  then have o2: "no_orphans db2"
    using no_orphans_delete_runs [of db1 ?ids] d by simp
  have rest: "no_orphans (snd (delete_loop P batch cancelled (c + length ?ids) db2))"
    if "\<not> b" "?ids \<noteq> []" "e = None" "\<not> length ?ids < batch" "\<not> cancelled (c + length ?ids)"
    using "1.IH" [OF refl t [symmetric] that(1) refl that(2) d [symmetric] that(3) refl that(4,5) o2] .
  show ?case
    using o1 o2 rest t d
    by (subst delete_loop.simps) (simp add: Let_def split: option.split)
qed

section \<open>Claims\<close>

lemma length_ids_of: "length (ids_of P db) = length (filter P (runs db))"
  by (simp add: ids_of_def)

lemma delete_expired:
  assumes "distinct (map wr_id (runs db))"
  shows "delete_rows (ids_of P db) db =
    db\<lparr>runs := filter (\<lambda>r. \<not> P r) (runs db),
       outs := filter (\<lambda>x. no_run x \<notin> wr_id ` {r \<in> set (runs db). P r}) (outs db)\<rparr>"
proof -
  have "set (ids_of P db) = wr_id ` {r \<in> set (runs db). P r}"
    by (auto simp: ids_of_def)
  with runs_delete_ids [OF assms, of P] show ?thesis
    by (simp add: delete_rows_def)
qed

text \<open>
  The retention pass deletes exactly what has expired. With a database that does not fail
  and a context that is not cancelled, \<^verbatim>\<open>PruneWorkflowRuns\<close> returns without an
  error, after as many batches as it takes, the number of the runs that the cutoffs match; what
  is left are the other runs, in order, and the node outputs of no deleted run.
\<close>

lemma prune_deletes_exactly:
  assumes "faults db = []" and "distinct (map wr_id (runs db))" and "\<forall>n. \<not> cancelled n"
  shows "prune_workflow_runs success_before failed_before batch cancelled db =
    ((length (filter (expired success_before failed_before) (runs db)), BatchDone),
     db\<lparr>runs := filter (\<lambda>r. \<not> expired success_before failed_before r) (runs db),
        outs := filter (\<lambda>x. no_run x \<notin> wr_id ` {r \<in> set (runs db). expired success_before failed_before r})
                  (outs db)\<rparr>)"
proof (cases "success_before = None \<and> failed_before = None")
  case True
  then have "\<not> expired success_before failed_before r" for r :: "'a run_row"
    by (simp add: expired_def split: option.split)
  with True show ?thesis by (simp add: prune_workflow_runs_def)
next
  case False
  have "0 < batch_limit batch" by (simp add: batch_limit_def)
  then have "delete_loop (expired success_before failed_before) (batch_limit batch) cancelled 0 db =
      ((length (ids_of (expired success_before failed_before) db), BatchDone),
       delete_rows (ids_of (expired success_before failed_before) db) db)"
    using delete_loop_all [OF assms(1,2), of cancelled "batch_limit batch"] assms(3) by simp
  with False show ?thesis
    by (auto simp: prune_workflow_runs_def delete_expired [OF assms(2)] length_ids_of)
qed

definition old_run :: "string \<Rightarrow> status \<Rightarrow> int \<Rightarrow> unit run_row" where
  "old_run rid st t =
     \<lparr>wr_id = rid, wr_def = ''wf'', wr_version = 1, wr_input = ''{}'', wr_status = st, wr_session = [],
      wr_owner = ''me'', wr_error = None, wr_started = 0, wr_finished = Some t, wr_form_node = [],
      wr_form_schema = []\<rparr>"

definition row_at :: "string \<Rightarrow> int \<Rightarrow> unit out_row" where
  "row_at rid t =
     \<lparr>no_run = rid, no_node = ''n'', no_attempt = 1, no_status = StatusSucceeded, no_output = ''{}'',
      no_error = None, no_created = t\<rparr>"

definition old_db :: "unit wf_db" where
  "old_db = \<lparr>runs = [old_run ''a'' StatusSucceeded 5, old_run ''b'' StatusFailed 5, old_run ''c'' StatusSucceeded 90],
             outs = [row_at ''a'' 4, row_at ''c'' 80], now = 100, faults = []\<rparr>"

lemma prune_deletes_exactly_witness:
  "prune_workflow_runs (Some 50) None 1 (\<lambda>_. False) old_db =
     ((1, BatchDone), old_db\<lparr>runs := [old_run ''b'' StatusFailed 5, old_run ''c'' StatusSucceeded 90],
                             outs := [row_at ''c'' 80]\<rparr>)"
proof -
  have "faults old_db = []" "distinct (map wr_id (runs old_db))"
    by (simp_all add: old_db_def old_run_def)
  then have eq: "prune_workflow_runs (Some 50) None 1 (\<lambda>_. False) old_db =
      ((length (filter (expired (Some 50) None) (runs old_db)), BatchDone),
     old_db\<lparr>runs := filter (\<lambda>r. \<not> expired (Some 50) None r) (runs old_db),
        outs := filter (\<lambda>x. no_run x \<notin> wr_id ` {r \<in> set (runs old_db). expired (Some 50) None r})
                  (outs old_db)\<rparr>)"
    by (intro prune_deletes_exactly) simp_all
  have "{r \<in> set (runs old_db). expired (Some 50) None r} = {old_run ''a'' StatusSucceeded 5}"
    by (auto simp: old_db_def old_run_def expired_def)
  then show ?thesis unfolding eq
    by (simp add: old_db_def old_run_def row_at_def expired_def)
qed

lemma no_orphans_sweeps [inv_intros]:
  "no_orphans db \<Longrightarrow> no_orphans (snd (timeout_waiting_runs before msg db))"
  "no_orphans db \<Longrightarrow> no_orphans (snd (fail_stale_running_runs before msg db))"
  by (auto simp: timeout_waiting_runs_def fail_stale_running_runs_def intro: no_orphans_sweep)

text \<open>
  No sweep and no deletion leaves a node output without its run, whatever statement of the
  database fails in between and wherever the batches are cut off.
\<close>

lemma retention_keeps_no_orphans:
  assumes "no_orphans db"
  shows "no_orphans (prune_once success_h failed_h form_h stale_h form_msg stale_msg cancelled db)"
  using assms
  by (auto simp: prune_once_def prune_workflow_runs_def Let_def intro!: inv_intros split: option.split)

lemma retention_keeps_no_orphans_witness:
  "no_orphans (prune_once 1 1 1 1 () () (\<lambda>_. False) (old_db\<lparr>now := 9999, faults := [False, False, True]\<rparr>))"
proof -
  have "no_orphans (old_db\<lparr>now := 9999, faults := [False, False, True]\<rparr>)"
    by (simp add: no_orphans_def old_db_def old_run_def row_at_def)
  then show ?thesis by (rule retention_keeps_no_orphans)
qed

text \<open>
  A run that somebody has just resumed can be swept as crashed. \<^verbatim>\<open>MarkRunRunning\<close>
  sets the status and leaves no fresh sign of life, so a sweep whose cutoff is past the last
  node output of the run marks it failed, although the run is executing. (The comment of
  \<^verbatim>\<open>FailStaleRunningRuns\<close> says that a resumed run is safe.)
\<close>

lemma resumed_run_is_swept:
  assumes "r \<in> set (runs db)" and "last_sign_of_life (outs db) r < before" and "faults db = []"
  shows "StatusFailed \<in> set (run_status (wr_id r)
           (snd (fail_stale_running_runs before msg (snd (mark_run_running (wr_id r) db)))))"
proof -
  let ?mark = "\<lambda>r. r\<lparr>wr_status := StatusRunning, wr_finished := None, wr_form_node := [], wr_form_schema := []\<rparr>"
  have "last_sign_of_life (outs db) (?mark r) = last_sign_of_life (outs db) r"
    by (simp add: last_sign_of_life_def)
  with assms show ?thesis
    by (force simp: mark_run_running_def exec_stmt_def fail_stale_running_runs_def sweep_stmt_def
        tick_no_faults run_status_def update_runs_def)
qed

lemma resumed_run_is_swept_witness:
  "StatusFailed \<in> set (run_status ''b''
     (snd (fail_stale_running_runs 50 () (snd (mark_run_running ''b'' old_db)))))"
proof -
  have "old_run ''b'' StatusFailed 5 \<in> set (runs old_db)"
    "last_sign_of_life (outs old_db) (old_run ''b'' StatusFailed 5) < 50" "faults old_db = []"
    by (simp_all add: old_db_def last_sign_of_life_def old_run_def row_at_def)
  from resumed_run_is_swept [OF this, of "()"] show ?thesis by (simp add: old_run_def)
qed

text \<open>
  A running run with a sign of life at or after the cutoff survives the sweep: its row is
  not changed. So does every run that is not running.
\<close>

lemma stale_sweep_spares:
  assumes "r \<in> set (runs db)" and "before \<le> last_sign_of_life (outs db) r \<or> wr_status r \<noteq> StatusRunning"
  shows "r \<in> set (runs (snd (fail_stale_running_runs before msg db)))"
proof -
  obtain b db1 where t: "tick db = (b, db1)" by fastforce
  from tick_frame [OF t] assms t show ?thesis
    by (force simp: fail_stale_running_runs_def sweep_stmt_def update_runs_def)
qed

lemma stale_sweep_spares_witness:
  "old_run ''c'' StatusRunning 90 \<in>
     set (runs (snd (fail_stale_running_runs 50 () (old_db\<lparr>runs := [old_run ''c'' StatusRunning 90]\<rparr>))))"
  by (rule stale_sweep_spares) (simp_all add: old_db_def last_sign_of_life_def old_run_def row_at_def)

end
