(* ===== verification/Workflow_Runner.thy ===== *)
theory Workflow_Runner
  imports Workflow_Validate Workflow_Store
begin

text \<open>
  The workflow runner (\<^verbatim>\<open>internal/workflow/runner.go\<close>): node execution, the choice of the
  next edge, the walk over the graph, resume from the persisted node outputs, and the entry
  points of the service (\<^verbatim>\<open>service.go\<close>).

  The leaves (the LLM, the tools, the sandbox, HTTP) and the context are the environment: they
  are the functions of the record \<open>leaves\<close>, which read and change a world of any type \<open>'w\<close>.
  Everything else is computed: the state of a run holds that world, the database, the scope and
  the events sent to the sink.
\<close>

section \<open>State\<close>

datatype step_error =
    LeafFailed node_kind string string   \<comment> \<open>kind, tool name, error text of the leaf\<close>
  | NoCaller node_kind
  | UnknownNodeKind node_kind
  | InterventionRequired
  | FormNotInteractive
  | FormInvalid validation_error
  | Canceled string
  | NoMatchingEdge string
  | EdgeFailed string string expr_error
  | AtNode string step_error             \<comment> \<open>the run's error column: \<^verbatim>\<open>node N: E\<close>\<close>
  | Swept string

record 'w leaves =
  lf_llm :: "'w \<Rightarrow> string \<Rightarrow> (string, string) res \<times> 'w"
  lf_tool :: "'w \<Rightarrow> string \<Rightarrow> gomap \<Rightarrow> (string, string) res \<times> 'w"
  lf_code :: "('w \<Rightarrow> string \<Rightarrow> string \<Rightarrow> (string, string) res \<times> 'w) option"
  lf_http :: "('w \<Rightarrow> string \<Rightarrow> string \<Rightarrow> (string \<times> string) list option \<Rightarrow> string
                 \<Rightarrow> (string, int \<times> string) res \<times> 'w) option"
  lf_ctx :: "'w \<Rightarrow> string option"
  lf_now :: "'w \<Rightarrow> int"

type_synonym snapshot = "(string \<times> step_error node_output) list"

record run_config =
  cf_run_id :: string
  cf_resume :: snapshot
  cf_owner :: string
  cf_session :: string
  cf_sink :: bool
  cf_form_node :: string
  cf_form_values :: gomap

record 'w rstate =
  rs_world :: 'w
  rs_db :: "step_error wf_db"
  rs_scope :: ref_scope
  rs_events :: "step_error run_event list"

text \<open>What a run returns in place of a result: the Go errors of \<^verbatim>\<open>Run\<close>, and a panic.\<close>

datatype run_fault =
    ValidateFault validation_error
  | StoreFault string store_error
  | RunPanic
  | UnknownWorkflow string

type_synonym run_outcome = "(run_fault, step_error execution_result) res"

definition store_do :: "'w leaves \<Rightarrow> (step_error wf_db \<Rightarrow> 'a \<times> step_error wf_db) \<Rightarrow> 'w rstate \<Rightarrow> 'a \<times> 'w rstate"
where
  "store_do lv f rs =
     (let (x, db) = f ((rs_db rs)\<lparr>now := lf_now lv (rs_world rs)\<rparr>) in (x, rs\<lparr>rs_db := db\<rparr>))"

definition emit :: "run_config \<Rightarrow> step_error run_event \<Rightarrow> 'w rstate \<Rightarrow> 'w rstate" where
  "emit cfg ev rs = (if cf_sink cfg then rs\<lparr>rs_events := rs_events rs @ [ev]\<rparr> else rs)"

section \<open>Leaves\<close>

datatype node_result = NodeOut gomap | NodeErr step_error | NodePanic

text \<open>A leaf call: its error ends the node, its raw text is decoded.\<close>

definition leaf_result ::
  "node_kind \<Rightarrow> string \<Rightarrow> (string \<Rightarrow> node_result) \<Rightarrow> (string, string) res \<Rightarrow> node_result" where
  "leaf_result k t dec r = (case r of Inl e \<Rightarrow> NodeErr (LeafFailed k t e) | Inr raw \<Rightarrow> dec raw)"

definition parsed_out :: "string \<Rightarrow> node_result" where
  "parsed_out raw = NodeOut (parse_output raw)"

definition query_out :: "string \<Rightarrow> node_result" where
  "query_out raw = (case rewritten_query raw of None \<Rightarrow> NodePanic | Some m \<Rightarrow> NodeOut m)"

definition http_out :: "(string, int \<times> string) res \<Rightarrow> node_result" where
  "http_out r =
     (case r of
        Inl e \<Rightarrow> NodeErr (LeafFailed KindHTTP [] e)
      | Inr (st, body) \<Rightarrow>
          NodeOut (Some [(''status'', GInt st), (''body'', any_map (parse_output body))]))"

text \<open>The writes of a set node: one assignment per entry, in iteration order.\<close>

definition write_vars :: "(string \<times> gval) list \<Rightarrow> gomap \<Rightarrow> gomap" where
  "write_vars kvs vars = Some (foldl (\<lambda>m e. AList.update (fst e) (snd e) m) (entries vars) kvs)"

definition exec_node :: "'w leaves \<Rightarrow> wf_node \<Rightarrow> 'w rstate \<Rightarrow> node_result \<times> 'w rstate" where
  "exec_node lv node rs =
     (let sc = rs_scope rs; w = rs_world rs in
      case n_kind node of
        KindTool \<Rightarrow>
          (let (r, w') = lf_tool lv w (n_tool node) (resolve_input (n_input node) sc)
           in (leaf_result KindTool (n_tool node) parsed_out r, rs\<lparr>rs_world := w'\<rparr>))
      | KindLLM \<Rightarrow>
          (let (r, w') = lf_llm lv w (resolve_refs (n_prompt node) sc)
           in (leaf_result KindLLM [] parsed_out r, rs\<lparr>rs_world := w'\<rparr>))
      | KindCode \<Rightarrow>
          (case lf_code lv of
             None \<Rightarrow> (NodeErr (NoCaller KindCode), rs)
           | Some code \<Rightarrow>
               (let (r, w') = code w (if n_language node = [] then ''python'' else n_language node)
                                (resolve_refs (n_code node) sc)
                in (leaf_result KindCode [] parsed_out r, rs\<lparr>rs_world := w'\<rparr>)))
      | KindReply \<Rightarrow> (NodeOut (Some [(''text'', GStr (resolve_refs (n_prompt node) sc))]), rs)
      | KindQuestionRewrite \<Rightarrow>
          (let (r, w') = lf_llm lv w (resolve_refs (n_prompt node) sc)
           in (leaf_result KindQuestionRewrite [] query_out r, rs\<lparr>rs_world := w'\<rparr>))
      | KindHTTP \<Rightarrow>
          (case lf_http lv of
             None \<Rightarrow> (NodeErr (NoCaller KindHTTP), rs)
           | Some http \<Rightarrow>
               (let args = resolve_input (n_input node) sc;
                    m = as_str (mget args ''method'');
                    (r, w') = http w (if m = [] then ''GET'' else m) (as_str (mget args ''url''))
                                (header_map (mget args ''headers'')) (as_str (mget args ''body''))
                in (http_out r, rs\<lparr>rs_world := w'\<rparr>)))
      | KindKBSearch \<Rightarrow>
          (let (r, w') = lf_tool lv w ''knowledgebase_search'' (resolve_input (n_input node) sc)
           in (leaf_result KindKBSearch [] parsed_out r, rs\<lparr>rs_world := w'\<rparr>))
      | KindSet \<Rightarrow>
          (let args = entries (resolve_input (n_input node) sc)
           in (NodeOut (Some [(''vars'', GStrs (map fst args))]),
               rs\<lparr>rs_scope := sc\<lparr>sc_vars := write_vars args (sc_vars sc)\<rparr>\<rparr>))
      | KindCondition \<Rightarrow> (NodeOut (Some []), rs)
      | k \<Rightarrow> (NodeErr (UnknownNodeKind k), rs))"

section \<open>Snapshot\<close>

text \<open>Of the attempts of a node the one with the highest number wins, the later row on a tie.\<close>

fun latest_rows :: "(string \<times> 'e out_row) list \<Rightarrow> 'e out_row list \<Rightarrow> (string \<times> 'e out_row) list" where
  "latest_rows acc [] = acc"
| "latest_rows acc (r # rs) =
     latest_rows
       (case map_of acc (no_node r) of
          Some cur \<Rightarrow> if no_attempt cur \<le> no_attempt r then AList.update (no_node r) r acc else acc
        | None \<Rightarrow> AList.update (no_node r) r acc) rs"

definition row_output :: "wf_def \<Rightarrow> string \<Rightarrow> 'e out_row \<Rightarrow> 'e node_output" where
  "row_output def name r =
     \<lparr>o_name = name, o_kind = n_kind (node_by_name def name), o_status = no_status r,
      o_output = read_output (no_output r), o_error = no_error r, o_attempt = no_attempt r\<rparr>"

definition snapshot_of :: "wf_def \<Rightarrow> 'e out_row list \<Rightarrow> (string \<times> 'e node_output) list" where
  "snapshot_of def rows = map (\<lambda>(name, r). (name, row_output def name r)) (latest_rows [] rows)"

definition load_snapshot :: "'w leaves \<Rightarrow> string \<Rightarrow> wf_def \<Rightarrow> 'w rstate \<Rightarrow> (run_fault, snapshot) res \<times> 'w rstate"
where
  "load_snapshot lv rid def rs =
     (let (r, rs1) = store_do lv (list_node_outputs rid) rs in
      case r of
        Inl e \<Rightarrow> (Inl (StoreFault ''load snapshot'' e), rs1)
      | Inr rows \<Rightarrow> (Inr (snapshot_of def rows), rs1))"

definition end_run ::
  "'w leaves \<Rightarrow> string \<Rightarrow> wf_def \<Rightarrow> string \<Rightarrow> status \<Rightarrow> step_error \<Rightarrow> 'w rstate \<Rightarrow> run_outcome \<times> 'w rstate"
where
  "end_run lv rid def node st err rs =
     (let (e, rs1) = store_do lv (finalize_workflow_run rid st (Some (AtNode node err))) rs in
      case e of
        Some x \<Rightarrow> (Inl (StoreFault ''finalize run'' x), rs1)
      | None \<Rightarrow>
         (let (s, rs2) = load_snapshot lv rid def rs1 in
          case s of
            Inl x \<Rightarrow> (Inl x, rs2)
          | Inr snap \<Rightarrow>
             (Inr \<lparr>r_run_id = rid, r_status = st, r_result = None, r_error = Some (node, err),
                   r_pending = None, r_snapshot = snap\<rparr>, rs2)))"

section \<open>One node\<close>

datatype step_result =
    StepDone gomap                \<comment> \<open>succeeded, with its output\<close>
  | StepEnd status step_error     \<comment> \<open>the step ends the run\<close>
  | StepWaiting
  | StepFault run_fault           \<comment> \<open>a Go error or a panic\<close>

text \<open>Persist an attempt row, then answer; a failing write is a Go error.\<close>

definition persist ::
  "'w leaves \<Rightarrow> string \<Rightarrow> string \<Rightarrow> int \<Rightarrow> status \<Rightarrow> gomap \<Rightarrow> step_error option \<Rightarrow> step_result
     \<Rightarrow> 'w rstate \<Rightarrow> step_result \<times> 'w rstate"
where
  "persist lv rid node attempt st out err ans rs =
     (let (e, rs1) = store_do lv (append_node_output rid node attempt st out err) rs in
      (case e of Some x \<Rightarrow> StepFault (StoreFault ''append'' x) | None \<Rightarrow> ans, rs1))"

definition form_answered :: "run_config \<Rightarrow> wf_node \<Rightarrow> bool" where
  "form_answered cfg node \<longleftrightarrow> cf_form_values cfg \<noteq> None \<and> cf_form_node cfg = n_name node"

definition exec_form_node ::
  "'w leaves \<Rightarrow> wf_node \<Rightarrow> int \<Rightarrow> run_config \<Rightarrow> string \<Rightarrow> 'w rstate \<Rightarrow> step_result \<times> 'w rstate" where
  "exec_form_node lv node attempt cfg rid rs =
     (if \<not> form_answered cfg node
      then (if cf_owner cfg = [] \<or> cf_owner cfg = ''system''
            then persist lv rid (n_name node) attempt StatusFailed None (Some FormNotInteractive)
                   (StepEnd StatusFailed FormNotInteractive) rs
            else
              (let (a, rs1) = persist lv rid (n_name node) attempt StatusWaiting None None StepWaiting rs in
               if a \<noteq> StepWaiting then (a, rs1)
               else (let (e, rs2) = store_do lv (set_run_waiting rid (n_name node) (n_input node)) rs1 in
                     (case e of Some x \<Rightarrow> StepFault (StoreFault ''set waiting'' x) | None \<Rightarrow> StepWaiting, rs2))))
      else case validate_against_schema (n_input node) (cf_form_values cfg) ''form'' of
             Some ve \<Rightarrow>
               persist lv rid (n_name node) attempt StatusFailed None (Some (FormInvalid ve))
                 (StepEnd StatusFailed (FormInvalid ve)) rs
           | None \<Rightarrow>
               persist lv rid (n_name node) attempt StatusSucceeded (cf_form_values cfg) None
                 (StepDone (cf_form_values cfg)) rs)"

definition next_attempt :: "run_config \<Rightarrow> string \<Rightarrow> int" where
  "next_attempt cfg name =
     (case map_of (cf_resume cfg) name of Some prior \<Rightarrow> o_attempt prior + 1 | None \<Rightarrow> 1)"

definition refused :: "run_config \<Rightarrow> wf_def \<Rightarrow> string \<Rightarrow> bool" where
  "refused cfg def name \<longleftrightarrow>
     (case map_of (cf_resume cfg) name of
        Some prior \<Rightarrow>
          o_status prior = StatusFailed \<and> n_side (node_by_name def name) = SideNonIdempotent
      | None \<Rightarrow> False)"

definition execute_step ::
  "'w leaves \<Rightarrow> string \<Rightarrow> run_config \<Rightarrow> string \<Rightarrow> wf_def \<Rightarrow> 'w rstate \<Rightarrow> step_result \<times> 'w rstate" where
  "execute_step lv name cfg rid def rs =
     (let node = node_by_name def name; attempt = next_attempt cfg name in
      if refused cfg def name then (StepEnd StatusNeedsIntervention InterventionRequired, rs)
      else if n_kind node = KindForm then exec_form_node lv node attempt cfg rid rs
      else
        (let (r, rs1) = exec_node lv node rs in
         case r of
           NodePanic \<Rightarrow> (StepFault RunPanic, rs1)
         | NodeErr e \<Rightarrow>
             persist lv rid name attempt StatusFailed None (Some e) (StepEnd StatusFailed e) rs1
         | NodeOut out \<Rightarrow>
             persist lv rid name attempt StatusSucceeded out None (StepDone out) rs1))"

section \<open>The next edge\<close>

definition option_line :: "wf_edge \<Rightarrow> string" where
  "option_line e =
     ''- '' @ e_to e @ '': '' @ (if e_desc e = [] then e_to e else e_desc e) @ [CHR 0x0A]"

definition route_prompt :: "wf_edge list \<Rightarrow> string" where
  "route_prompt es =
     ''Pick exactly one option. Reply with only its node name.'' @ [CHR 0x0A]
     @ concat (map option_line es)"

definition route_choice :: "string \<Rightarrow> string" where
  "route_choice content =
     (let choice = trim_space content in
      case json_parse_field ''choice'' choice of
        Some c \<Rightarrow> if c \<noteq> [] then c else choice
      | None \<Rightarrow> choice)"

definition llm_route :: "'w leaves \<Rightarrow> wf_edge list \<Rightarrow> 'w rstate \<Rightarrow> string option \<times> 'w rstate" where
  "llm_route lv es rs =
     (let (r, w') = lf_llm lv (rs_world rs) (route_prompt es); rs1 = rs\<lparr>rs_world := w'\<rparr> in
      case r of
        Inl e \<Rightarrow> (None, rs1)
      | Inr content \<Rightarrow>
          (map_option e_to (find (\<lambda>e. e_to e = route_choice content) es), rs1))"

definition plain_edges :: "wf_edge list \<Rightarrow> wf_edge list" where
  "plain_edges es = filter (\<lambda>e. e_when e = []) es"

definition route_edges :: "wf_edge list \<Rightarrow> wf_edge list" where
  "route_edges es = filter (\<lambda>e. e_when e = when_llm_route) es"

definition expr_edges :: "wf_edge list \<Rightarrow> wf_edge list" where
  "expr_edges es = filter (\<lambda>e. e_when e \<notin> {[], when_default, when_llm_route}) es"

text \<open>The last default edge is kept, as the assignment in the loop does.\<close>

definition default_edge :: "wf_edge list \<Rightarrow> wf_edge option" where
  "default_edge es = find (\<lambda>e. e_when e = when_default) (rev es)"

text \<open>The first true condition, or the error of an earlier one.\<close>

fun pick_expr :: "ref_scope \<Rightarrow> wf_edge list \<Rightarrow> (step_error, string option) res" where
  "pick_expr sc [] = Inr None"
| "pick_expr sc (e # es) =
     (case eval_expr sc (e_when e) of
        Inl x \<Rightarrow> Inl (EdgeFailed (e_from e) (e_to e) x)
      | Inr b \<Rightarrow> if b then Inr (Some (e_to e)) else pick_expr sc es)"

definition fallback_edge :: "wf_edge list \<Rightarrow> string \<Rightarrow> (step_error, string) res" where
  "fallback_edge es from_node =
     (case default_edge es of
        Some e \<Rightarrow> Inr (e_to e)
      | None \<Rightarrow> Inl (NoMatchingEdge from_node))"

definition select_edge ::
  "'w leaves \<Rightarrow> wf_edge list \<Rightarrow> 'w rstate \<Rightarrow> (step_error, string) res \<times> 'w rstate" where
  "select_edge lv es rs =
     (case plain_edges es of
        e # _ \<Rightarrow> (Inr (e_to e), rs)
      | [] \<Rightarrow>
         (case pick_expr (rs_scope rs) (expr_edges es) of
            Inl x \<Rightarrow> (Inl x, rs)
          | Inr (Some t) \<Rightarrow> (Inr t, rs)
          | Inr None \<Rightarrow>
             (if route_edges es \<noteq> []
              then (let (c, rs1) = llm_route lv (route_edges es) rs in
                    case c of
                      Some t \<Rightarrow> (Inr t, rs1)
                    | None \<Rightarrow> (fallback_edge es (e_from (hd es)), rs1))
              else (fallback_edge es (e_from (hd es)), rs))))"

section \<open>The walk\<close>

definition resolve_workflow_output :: "wf_def \<Rightarrow> ref_scope \<Rightarrow> gomap \<Rightarrow> gomap" where
  "resolve_workflow_output def sc last_output =
     (if entries (d_output def) = [] then last_output
      else Some (map (\<lambda>(k, v). (k, resolve_value sc v)) (entries (d_output def))))"

definition finish_run ::
  "'w leaves \<Rightarrow> string \<Rightarrow> wf_def \<Rightarrow> run_config \<Rightarrow> gomap \<Rightarrow> 'w rstate \<Rightarrow> run_outcome \<times> 'w rstate" where
  "finish_run lv rid def cfg last_output rs =
     (let (e, rs1) = store_do lv (finalize_workflow_run rid StatusSucceeded None) rs in
      case e of
        Some x \<Rightarrow> (Inl (StoreFault ''finalize run'' x), rs1)
      | None \<Rightarrow>
         (let (s, rs2) = load_snapshot lv rid def rs1 in
          case s of
            Inl x \<Rightarrow> (Inl x, rs2)
          | Inr snap \<Rightarrow>
             (let result = resolve_workflow_output def (rs_scope rs2) last_output;
                  rs3 = emit cfg (Done StatusSucceeded result) rs2
              in (Inr \<lparr>r_run_id = rid, r_status = StatusSucceeded, r_result = result,
                       r_error = None, r_pending = None, r_snapshot = snap\<rparr>, rs3))))"

definition wait_run ::
  "'w leaves \<Rightarrow> string \<Rightarrow> wf_def \<Rightarrow> run_config \<Rightarrow> string \<Rightarrow> 'w rstate \<Rightarrow> run_outcome \<times> 'w rstate" where
  "wait_run lv rid def cfg name rs =
     (let (s, rs1) = load_snapshot lv rid def (emit cfg (NodeComplete name StatusWaiting None None) rs) in
      case s of
        Inl x \<Rightarrow> (Inl x, rs1)
      | Inr snap \<Rightarrow>
         (Inr \<lparr>r_run_id = rid, r_status = StatusWaiting, r_result = None, r_error = None,
               r_pending = Some \<lparr>pf_node = name, pf_schema = n_input (node_by_name def name)\<rparr>,
               r_snapshot = snap\<rparr>, rs1))"

text \<open>
  One node of the loop: skip it when the snapshot says it succeeded, execute it otherwise.
  \<open>Inl\<close> is a return of \<^verbatim>\<open>Run\<close>, \<open>Inr\<close> the node's output.
\<close>

definition visit_node ::
  "'w leaves \<Rightarrow> string \<Rightarrow> wf_def \<Rightarrow> run_config \<Rightarrow> string \<Rightarrow> 'w rstate
     \<Rightarrow> (run_outcome, gomap) res \<times> 'w rstate"
where
  "visit_node lv rid def cfg name rs0 =
     (let rs = emit cfg (NodeStart name) rs0;
          skip = (case map_of (cf_resume cfg) name of
                    Some prior \<Rightarrow> if o_status prior = StatusSucceeded then Some (o_output prior) else None
                  | None \<Rightarrow> None)
      in case skip of
        Some out \<Rightarrow> (Inr out, emit cfg (NodeComplete name StatusSucceeded out None) rs)
      | None \<Rightarrow>
         (let (r, rs1) = execute_step lv name cfg rid def rs in
          case r of
            StepFault x \<Rightarrow> (Inl (Inl x), rs1)
          | StepWaiting \<Rightarrow> (let (x, rs2) = wait_run lv rid def cfg name rs1 in (Inl x, rs2))
          | StepEnd st err \<Rightarrow>
              (let (x, rs2) = end_run lv rid def name st err
                                (emit cfg (NodeComplete name st None (Some err)) rs1)
               in (Inl x, rs2))
          | StepDone out \<Rightarrow>
              (let rs2 = emit cfg (NodeComplete name StatusSucceeded out None) rs1;
                   sc = rs_scope rs2
               in (Inr out, rs2\<lparr>rs_scope := sc\<lparr>sc_outputs := (sc_outputs sc)(name := out)\<rparr>\<rparr>))))"

text \<open>The loop, with a bound on the number of nodes visited; \<open>None\<close> is the bound reached.\<close>

fun walk ::
  "'w leaves \<Rightarrow> string \<Rightarrow> wf_def \<Rightarrow> run_config \<Rightarrow> nat \<Rightarrow> string \<Rightarrow> gomap \<Rightarrow> 'w rstate
     \<Rightarrow> (run_outcome \<times> 'w rstate) option"
where
  "walk lv rid def cfg 0 current last_output rs = None"
| "walk lv rid def cfg (Suc fuel) current last_output rs =
     (if current = [] then Some (finish_run lv rid def cfg last_output rs)
      else case lf_ctx lv (rs_world rs) of
        Some msg \<Rightarrow> Some (end_run lv rid def current StatusFailed (Canceled msg) rs)
      | None \<Rightarrow>
         (case visit_node lv rid def cfg current rs of
            (Inl x, rs1) \<Rightarrow> Some (x, rs1)
          | (Inr out, rs1) \<Rightarrow>
             (let es = out_edges (d_edges def) current in
              if es = [] then Some (finish_run lv rid def cfg out rs1)
              else case select_edge lv es rs1 of
                (Inl err, rs2) \<Rightarrow> Some (end_run lv rid def current StatusFailed err rs2)
              | (Inr next_node, rs2) \<Rightarrow> walk lv rid def cfg fuel next_node out rs2)))"

definition initial_outputs :: "snapshot \<Rightarrow> string \<Rightarrow> gomap" where
  "initial_outputs snap name =
     (case map_of snap name of
        Some r \<Rightarrow> if o_status r = StatusSucceeded then o_output r else None
      | None \<Rightarrow> None)"

definition start_walk ::
  "'w leaves \<Rightarrow> string \<Rightarrow> wf_def \<Rightarrow> run_config \<Rightarrow> gomap \<Rightarrow> 'w rstate \<Rightarrow> (run_outcome \<times> 'w rstate) option"
where
  "start_walk lv rid def cfg input rs =
     walk lv rid def cfg (Suc (length (d_nodes def))) (entry_node def) None
       (rs\<lparr>rs_scope := \<lparr>sc_input = input, sc_outputs = initial_outputs (cf_resume cfg),
                        sc_vars = Some []\<rparr>\<rparr>)"

text \<open>
  \<^verbatim>\<open>Run\<close>. \<open>new_id\<close> is what \<^verbatim>\<open>newRunID\<close> draws. A fresh run creates its row; a resume marks
  the row running, loads the snapshot and replays the original input when there is one.
\<close>

definition run_workflow ::
  "'w leaves \<Rightarrow> string \<Rightarrow> wf_def \<Rightarrow> gomap \<Rightarrow> run_config \<Rightarrow> 'w rstate \<Rightarrow> (run_outcome \<times> 'w rstate) option"
where
  "run_workflow lv new_id def input0 cfg rs =
     (let input = (if input0 = None then Some [] else input0) in
      case validate_def def input of
        Some e \<Rightarrow> Some (Inl (ValidateFault e), rs)
      | None \<Rightarrow>
         (if cf_run_id cfg \<noteq> []
          then
            (let rid = cf_run_id cfg; (e, rs1) = store_do lv (mark_run_running rid) rs in
             case e of
               Some x \<Rightarrow> Some (Inl (StoreFault ''mark run running'' x), rs1)
             | None \<Rightarrow>
                (let (s, rs2) = load_snapshot lv rid def rs1 in
                 case s of
                   Inl x \<Rightarrow> Some (Inl x, rs2)
                 | Inr snap \<Rightarrow>
                    (let (i, rs3) = store_do lv (get_run_input rid) rs2;
                         input' = (case i of
                                     Inr orig \<Rightarrow> if entries orig \<noteq> [] then orig else input
                                   | Inl _ \<Rightarrow> input)
                     in start_walk lv rid def (cfg\<lparr>cf_resume := snap\<rparr>) input' rs3)))
          else
            (let (e, rs1) = store_do lv (create_workflow_run new_id (d_id def) (d_version def) input
                                           (cf_session cfg) (cf_owner cfg)) rs in
             case e of
               Some x \<Rightarrow> Some (Inl (StoreFault ''create workflow run'' x), rs1)
             | None \<Rightarrow> start_walk lv new_id def (cfg\<lparr>cf_resume := []\<rparr>) input rs1)))"

section \<open>The service\<close>

definition fresh_config :: "string \<Rightarrow> string \<Rightarrow> bool \<Rightarrow> run_config" where
  "fresh_config owner session sink =
     \<lparr>cf_run_id = [], cf_resume = [], cf_owner = owner, cf_session = session, cf_sink = sink,
      cf_form_node = [], cf_form_values = None\<rparr>"

definition resume_config :: "string \<Rightarrow> string \<Rightarrow> gomap \<Rightarrow> string \<Rightarrow> bool \<Rightarrow> run_config" where
  "resume_config rid form_node form_values owner sink =
     \<lparr>cf_run_id = rid, cf_resume = [], cf_owner = owner, cf_session = [], cf_sink = sink,
      cf_form_node = form_node, cf_form_values = form_values\<rparr>"

definition run_workflow_stream ::
  "(string \<times> wf_def) list \<Rightarrow> 'w leaves \<Rightarrow> string \<Rightarrow> string \<Rightarrow> gomap \<Rightarrow> string \<Rightarrow> string \<Rightarrow> bool \<Rightarrow> 'w rstate
     \<Rightarrow> (run_outcome \<times> 'w rstate) option"
where
  "run_workflow_stream defs lv new_id wid input owner session sink rs =
     (case map_of defs wid of
        None \<Rightarrow> Some (Inl (UnknownWorkflow wid), rs)
      | Some def \<Rightarrow> run_workflow lv new_id def input (fresh_config owner session sink) rs)"

definition resume_workflow_stream ::
  "(string \<times> wf_def) list \<Rightarrow> 'w leaves \<Rightarrow> string \<Rightarrow> string \<Rightarrow> string \<Rightarrow> string \<Rightarrow> gomap \<Rightarrow> string \<Rightarrow> bool
     \<Rightarrow> 'w rstate \<Rightarrow> (run_outcome \<times> 'w rstate) option"
where
  "resume_workflow_stream defs lv new_id wid rid form_node form_values owner sink rs =
     (case map_of defs wid of
        None \<Rightarrow> Some (Inl (UnknownWorkflow wid), rs)
      | Some def \<Rightarrow>
          run_workflow lv new_id def None (resume_config rid form_node form_values owner sink) rs)"

definition tool_schema :: "wf_def \<Rightarrow> (string \<times> gval) list" where
  "tool_schema def =
     (if entries (d_schema def) \<noteq> [] then entries (d_schema def)
      else [(''type'', GStr ''object'')])"

end
