(* ===== verification/Workflow_Walk.thy ===== *)
theory Workflow_Walk
  imports Workflow_Runner
begin

text \<open>
  What one run does: the statements it sends to the store (over the interface \<open>run_store\<close>),
  the rows it appends to the log, the status it leaves on its own row, and the walk along the
  topological order, by which it returns and starts no node twice.
\<close>

section \<open>Statements of a run\<close>

named_theorems step_defs \<open>definitions of the steps of a run\<close>

lemma store_do_frame:
  assumes "store_do lv f rs = (x, rs')"
    and "\<And>db x db'. f db = (x, db') \<Longrightarrow> db.frame rid db db'"
  shows "db.frame rid (rs_db rs) (rs_db rs')"
proof -
  let ?d = "(rs_db rs)\<lparr>now := lf_now lv (rs_world rs)\<rparr>"
  have "f ?d = (x, rs_db rs')"
    using assms(1) by (auto simp: store_do_def split: prod.splits)
  from assms(2) [OF this] show ?thesis
    by (simp add: db.frame_def run_status_def other_runs_def)
qed

lemma store_do_scope:
  assumes "store_do lv f rs = (x, rs')"
  shows "rs_scope rs' = rs_scope rs" "rs_world rs' = rs_world rs" "rs_events rs' = rs_events rs"
  using assms by (auto simp: store_do_def split: prod.splits)

lemma query_frame: "query_stmt q db = (x, db') \<Longrightarrow> db.frame rid db db'"
  by (auto simp: query_stmt_def db.frame_def run_status_def other_runs_def split: prod.splits if_splits
      dest!: tick_frame)

lemma input_frame: "get_run_input k db = (x, db') \<Longrightarrow> db.frame rid db db'"
  by (auto simp: get_run_input_def db.frame_def run_status_def other_runs_def
      split: prod.splits if_splits option.splits dest!: tick_frame)

lemma list_outputs_Inr:
  "list_node_outputs rid db = (Inr rows, db') \<Longrightarrow> rows = run_outputs rid db \<and> runs db' = runs db \<and> outs db' = outs db"
  by (auto simp: list_node_outputs_def query_stmt_def run_outputs_def split: prod.splits if_splits
      dest!: tick_frame)

lemma emit_db [simp]:
  "rs_db (emit cfg ev rs) = rs_db rs" "rs_scope (emit cfg ev rs) = rs_scope rs"
  "rs_world (emit cfg ev rs) = rs_world rs"
  by (simp_all add: emit_def)

lemma exec_node_db: "exec_node lv node rs = (r, rs') \<Longrightarrow> rs_db rs' = rs_db rs"
  by (auto simp: exec_node_def Let_def split: node_kind.splits prod.splits option.splits)

lemma select_edge_db: "select_edge lv es rs = (r, rs') \<Longrightarrow> rs_db rs' = rs_db rs"
  by (auto simp: select_edge_def llm_route_def Let_def
      split: list.splits sum.splits option.splits prod.splits if_splits)

section \<open>The snapshot of a run\<close>

lemma load_snapshot_frame:
  assumes "load_snapshot lv rid def rs = (x, rs')"
  shows "db.frame k (rs_db rs) (rs_db rs')" "rs_scope rs' = rs_scope rs"
    "rs_world rs' = rs_world rs" "rs_events rs' = rs_events rs"
proof -
  from assms obtain r rs1 where "store_do lv (list_node_outputs rid) rs = (r, rs1)" and [simp]: "rs' = rs1"
    by (auto simp: load_snapshot_def split: prod.splits sum.splits)
  then have d: "store_do lv (query_stmt (run_outputs rid)) rs = (r, rs')"
    by (simp add: list_node_outputs_def)
  show "db.frame k (rs_db rs) (rs_db rs')"
    by (rule store_do_frame [OF d]) (rule query_frame)
  show "rs_scope rs' = rs_scope rs" "rs_world rs' = rs_world rs" "rs_events rs' = rs_events rs"
    using store_do_scope [OF d] by simp_all
qed

lemma query_outs: "query_stmt q db = (x, db') \<Longrightarrow> outs db' = outs db"
  by (auto simp: query_stmt_def split: prod.splits if_splits dest!: tick_frame)

lemma load_snapshot_outs:
  assumes "load_snapshot lv rid def rs = (x, rs')"
  shows "outs (rs_db rs') = outs (rs_db rs)"
proof -
  from assms obtain r where
    "list_node_outputs rid ((rs_db rs)\<lparr>now := lf_now lv (rs_world rs)\<rparr>) = (r, rs_db rs')"
    by (auto simp: load_snapshot_def store_do_def split: prod.splits sum.splits)
  from query_outs [OF this [unfolded list_node_outputs_def]] show ?thesis by simp
qed

lemma run_outputs_cong: "outs a = outs b \<Longrightarrow> run_outputs rid a = run_outputs rid b"
  by (simp add: run_outputs_def)

lemma load_snapshot_Inr:
  assumes "load_snapshot lv rid def rs = (Inr snap, rs')"
  shows "snap = snapshot_of def (run_outputs rid (rs_db rs'))"
    "outs (rs_db rs') = outs (rs_db rs)" "runs (rs_db rs') = runs (rs_db rs)"
proof -
  let ?d = "(rs_db rs)\<lparr>now := lf_now lv (rs_world rs)\<rparr>"
  from assms obtain rows where rows: "list_node_outputs rid ?d = (Inr rows, rs_db rs')"
    and snap: "snap = snapshot_of def rows"
    by (auto simp: load_snapshot_def store_do_def split: prod.splits sum.splits)
  from list_outputs_Inr [OF rows]
  show "outs (rs_db rs') = outs (rs_db rs)" "runs (rs_db rs') = runs (rs_db rs)" by simp_all
  with list_outputs_Inr [OF rows] show "snap = snapshot_of def (run_outputs rid (rs_db rs'))"
    using snap run_outputs_cong [of ?d "rs_db rs'" rid] by simp
qed

section \<open>What the end of a run reports\<close>

text \<open>
  The result names the run, its snapshot is the log's, and its status is that of the run's row.
\<close>

definition reports :: "string \<Rightarrow> wf_def \<Rightarrow> run_outcome \<Rightarrow> step_error wf_db \<Rightarrow> bool" where
  "reports rid def x db \<longleftrightarrow>
     (\<forall>res. x = Inr res \<longrightarrow>
        r_run_id res = rid \<and> r_snapshot res = snapshot_of def (run_outputs rid db)
        \<and> set (run_status rid db) \<subseteq> {r_status res})"

lemma reports_Inl [simp]: "reports rid def (Inl e) db"
  by (simp add: reports_def)

lemma finalize_do:
  assumes "store_do lv (finalize_workflow_run rid st er) rs = (e, rs')"
  shows "db.frame rid (rs_db rs) (rs_db rs')" "outs (rs_db rs') = outs (rs_db rs)"
    "e = None \<Longrightarrow> set (run_status rid (rs_db rs')) \<subseteq> {st}"
proof -
  let ?d = "(rs_db rs)\<lparr>now := lf_now lv (rs_world rs)\<rparr>"
  show "db.frame rid (rs_db rs) (rs_db rs')"
    by (rule store_do_frame [OF assms]) (rule db.finalize_frame)
  have f: "finalize_workflow_run rid st er ?d = (e, rs_db rs')"
    using assms by (auto simp: store_do_def split: prod.splits)
  show "outs (rs_db rs') = outs (rs_db rs)" using db.finalize_log [OF f] by simp
  show "set (run_status rid (rs_db rs')) \<subseteq> {st}" if "e = None"
    using f that by (simp add: db.finalized)
qed

lemma end_run_facts:
  assumes "end_run lv rid def name st err rs = (x, rs')"
  shows "db.frame rid (rs_db rs) (rs_db rs')" "outs (rs_db rs') = outs (rs_db rs)"
    "reports rid def x (rs_db rs')"
proof -
  let ?fin = "finalize_workflow_run rid st (Some (AtNode name err))"
  obtain e rs1 where f: "store_do lv ?fin rs = (e, rs1)" by fastforce
  note fin = finalize_do [OF f]
  obtain s rs2 where l: "load_snapshot lv rid def rs1 = (s, rs2)" by fastforce
  note snap = load_snapshot_frame(1) [OF l, of rid]
  show "db.frame rid (rs_db rs) (rs_db rs')"
    using assms f l fin(1) db.frame_trans [OF fin(1) snap]
    by (auto simp: end_run_def split: option.splits sum.splits)
  show "outs (rs_db rs') = outs (rs_db rs)"
    using assms f l fin(2) load_snapshot_outs [OF l]
    by (auto simp: end_run_def split: option.splits sum.splits)
  show "reports rid def x (rs_db rs')"
  proof (cases "e = None \<and> (\<exists>sn. s = Inr sn)")
    case True
    then obtain sn where s: "s = Inr sn" "e = None" by blast
    note inr = load_snapshot_Inr [OF l [unfolded s(1)]]
    show ?thesis
      using assms f l s inr fin(3) run_status_cong [OF inr(3), of rid]
      by (auto simp: end_run_def reports_def)
  next
    case False
    then show ?thesis
      using assms f l by (auto simp: end_run_def split: option.splits sum.splits)
  qed
qed

lemma finish_run_facts:
  assumes "finish_run lv rid def cfg out rs = (x, rs')"
  shows "db.frame rid (rs_db rs) (rs_db rs')" "outs (rs_db rs') = outs (rs_db rs)"
    "reports rid def x (rs_db rs')"
proof -
  let ?fin = "finalize_workflow_run rid StatusSucceeded None"
  obtain e rs1 where f: "store_do lv ?fin rs = (e, rs1)" by fastforce
  note fin = finalize_do [OF f]
  obtain s rs2 where l: "load_snapshot lv rid def rs1 = (s, rs2)" by fastforce
  note snap = load_snapshot_frame(1) [OF l, of rid]
  show "db.frame rid (rs_db rs) (rs_db rs')"
    using assms f l fin(1) db.frame_trans [OF fin(1) snap]
    by (auto simp: finish_run_def Let_def split: option.splits sum.splits)
  show "outs (rs_db rs') = outs (rs_db rs)"
    using assms f l fin(2) load_snapshot_outs [OF l]
    by (auto simp: finish_run_def Let_def split: option.splits sum.splits)
  show "reports rid def x (rs_db rs')"
  proof (cases "e = None \<and> (\<exists>sn. s = Inr sn)")
    case True
    then obtain sn where s: "s = Inr sn" "e = None" by blast
    note inr = load_snapshot_Inr [OF l [unfolded s(1)]]
    show ?thesis
      using assms f l s inr fin(3) run_status_cong [OF inr(3), of rid]
      by (auto simp: finish_run_def reports_def Let_def)
  next
    case False
    then show ?thesis
      using assms f l by (auto simp: finish_run_def Let_def split: option.splits sum.splits)
  qed
qed

lemma wait_run_facts:
  assumes "wait_run lv rid def cfg name rs = (x, rs')"
    and "set (run_status rid (rs_db rs)) \<subseteq> {StatusWaiting}"
  shows "db.frame rid (rs_db rs) (rs_db rs')" "outs (rs_db rs') = outs (rs_db rs)"
    "reports rid def x (rs_db rs')"
proof -
  let ?rs = "emit cfg (NodeComplete name StatusWaiting None None) rs"
  obtain s where l: "load_snapshot lv rid def ?rs = (s, rs')"
    using assms(1) by (auto simp: wait_run_def split: prod.splits sum.splits)
  show "db.frame rid (rs_db rs) (rs_db rs')" "outs (rs_db rs') = outs (rs_db rs)"
    using load_snapshot_frame(1) [OF l, of rid] load_snapshot_outs [OF l] by simp_all
  show "reports rid def x (rs_db rs')"
  proof (cases s)
    case (Inr sn)
    note inr = load_snapshot_Inr [OF l [unfolded Inr]]
    show ?thesis
      using assms l Inr inr run_status_cong [OF inr(3), of rid]
      by (auto simp: wait_run_def reports_def)
  qed (use assms l in \<open>auto simp: wait_run_def\<close>)
qed

section \<open>The row of a step\<close>

text \<open>A step appends nothing, or the row of its node with the next attempt number.\<close>

definition appends :: "run_config \<Rightarrow> string \<Rightarrow> string \<Rightarrow> step_error wf_db \<Rightarrow> step_error wf_db \<Rightarrow> bool" where
  "appends cfg rid name db db' \<longleftrightarrow>
     outs db' = outs db
     \<or> (\<exists>r. outs db' = outs db @ [r] \<and> no_run r = rid \<and> no_node r = name
            \<and> no_attempt r = next_attempt cfg name)"

lemma node_by_name_name [simp]: "n_name (node_by_name def name) = name"
  by (auto simp: node_by_name_def zero_node_def find_Some_iff split: option.splits)

lemma persist_facts:
  assumes "persist lv rid name (next_attempt cfg name) st out err ans rs = (a, rs')"
  shows "db.frame rid (rs_db rs) (rs_db rs')" "appends cfg rid name (rs_db rs) (rs_db rs')"
    "a = ans \<or> (\<exists>x. a = StepFault x)"
proof -
  let ?app = "append_node_output rid name (next_attempt cfg name) st out err"
  obtain e where d: "store_do lv ?app rs = (e, rs')"
    using assms by (auto simp: persist_def split: prod.splits)
  show "db.frame rid (rs_db rs) (rs_db rs')"
    by (rule store_do_frame [OF d]) (rule db.append_frame)
  have "?app ((rs_db rs)\<lparr>now := lf_now lv (rs_world rs)\<rparr>) = (e, rs_db rs')"
    using d by (auto simp: store_do_def split: prod.splits)
  from db.append_log [OF this] show "appends cfg rid name (rs_db rs) (rs_db rs')"
    by (auto simp: appends_def split: if_splits)
  show "a = ans \<or> (\<exists>x. a = StepFault x)"
    using assms by (auto simp: persist_def split: prod.splits option.splits)
qed

lemma waiting_do:
  assumes "store_do lv (set_run_waiting rid name sch) rs = (e, rs')"
  shows "db.frame rid (rs_db rs) (rs_db rs')" "outs (rs_db rs') = outs (rs_db rs)"
    "e = None \<Longrightarrow> set (run_status rid (rs_db rs')) \<subseteq> {StatusWaiting}"
proof -
  show "db.frame rid (rs_db rs) (rs_db rs')"
    by (rule store_do_frame [OF assms]) (rule db.wait_frame)
  have f: "set_run_waiting rid name sch ((rs_db rs)\<lparr>now := lf_now lv (rs_world rs)\<rparr>) = (e, rs_db rs')"
    using assms by (auto simp: store_do_def split: prod.splits)
  show "outs (rs_db rs') = outs (rs_db rs)" using db.wait_log [OF f] by simp
  show "set (run_status rid (rs_db rs')) \<subseteq> {StatusWaiting}" if "e = None"
    using f that by (simp add: db.parked)
qed

text \<open>What every step guarantees, and that a waiting answer leaves the run's row waiting.\<close>

definition step_ok :: "run_config \<Rightarrow> string \<Rightarrow> string \<Rightarrow> 'w rstate \<Rightarrow> step_result \<Rightarrow> 'w rstate \<Rightarrow> bool" where
  "step_ok cfg rid name rs a rs' \<longleftrightarrow>
     db.frame rid (rs_db rs) (rs_db rs') \<and> appends cfg rid name (rs_db rs) (rs_db rs')
     \<and> (a = StepWaiting \<longrightarrow> set (run_status rid (rs_db rs')) \<subseteq> {StatusWaiting})"

lemma persist_step_ok:
  assumes "persist lv rid name (next_attempt cfg name) st out err ans rs = (a, rs')" "ans \<noteq> StepWaiting"
  shows "step_ok cfg rid name rs a rs'"
  using persist_facts [OF assms(1)] assms(2) by (auto simp: step_ok_def)

lemma exec_form_node_ok:
  assumes "exec_form_node lv node (next_attempt cfg (n_name node)) cfg rid rs = (a, rs')"
  shows "step_ok cfg rid (n_name node) rs a rs'"
proof (cases "\<not> form_answered cfg node \<and> cf_owner cfg \<noteq> [] \<and> cf_owner cfg \<noteq> ''system''")
  case True
  obtain b rs1 where p:
    "persist lv rid (n_name node) (next_attempt cfg (n_name node)) StatusWaiting None None StepWaiting rs = (b, rs1)"
    by fastforce
  note pf = persist_facts [OF p]
  show ?thesis
  proof (cases "b = StepWaiting")
    case True
    obtain e rs2 where w: "store_do lv (set_run_waiting rid (n_name node) (n_input node)) rs1 = (e, rs2)"
      by fastforce
    note wf = waiting_do [OF w]
    have "rs' = rs2" "a = (case e of Some x \<Rightarrow> StepFault (StoreFault ''set waiting'' x) | None \<Rightarrow> StepWaiting)"
      using assms \<open>\<not> form_answered cfg node \<and> _\<close> p w True by (auto simp: exec_form_node_def)
    then show ?thesis
      using db.frame_trans [OF pf(1) wf(1)] pf(2) wf(2,3)
      by (auto simp: step_ok_def appends_def split: option.splits)
  next
    case False
    then show ?thesis
      using assms \<open>\<not> form_answered cfg node \<and> _\<close> p pf by (auto simp: exec_form_node_def step_ok_def)
  qed
next
  case False
  then show ?thesis
    using assms persist_step_ok
    by (fastforce simp: exec_form_node_def split: if_splits option.splits)
qed

lemma step_ok_world:
  "step_ok cfg rid name rs1 a rs' \<Longrightarrow> rs_db rs1 = rs_db rs \<Longrightarrow> step_ok cfg rid name rs a rs'"
  by (simp add: step_ok_def)

lemma step_ok_skip: "rs_db rs' = rs_db rs \<Longrightarrow> a \<noteq> StepWaiting \<Longrightarrow> step_ok cfg rid name rs a rs'"
  by (simp add: step_ok_def appends_def db.frame_refl)

lemma execute_step_ok:
  assumes "execute_step lv name cfg rid def rs = (a, rs')"
  shows "step_ok cfg rid name rs a rs'"
proof -
  let ?node = "node_by_name def name"
  consider (no) "refused cfg def name" | (form) "\<not> refused cfg def name" "n_kind ?node = KindForm"
    | (run) "\<not> refused cfg def name" "n_kind ?node \<noteq> KindForm" by blast
  then show ?thesis
  proof cases
    case no
    with assms show ?thesis by (auto simp: execute_step_def intro: step_ok_skip)
  next
    case form
    with assms show ?thesis
      using exec_form_node_ok [of lv ?node cfg rid rs a rs'] by (simp add: execute_step_def Let_def)
  next
    case run
    obtain r rs1 where x: "exec_node lv ?node rs = (r, rs1)" by fastforce
    note same = exec_node_db [OF x]
    show ?thesis
    proof (cases r)
      case (NodeOut out)
      with assms run x have
        "persist lv rid name (next_attempt cfg name) StatusSucceeded out None (StepDone out) rs1 = (a, rs')"
        by (simp add: execute_step_def Let_def)
      from persist_step_ok [OF this] same show ?thesis by (simp add: step_ok_world)
    next
      case (NodeErr e)
      with assms run x have
        "persist lv rid name (next_attempt cfg name) StatusFailed None (Some e) (StepEnd StatusFailed e) rs1 = (a, rs')"
        by (simp add: execute_step_def Let_def)
      from persist_step_ok [OF this] same show ?thesis by (simp add: step_ok_world)
    next
      case NodePanic
      with assms run x same show ?thesis by (auto simp: execute_step_def Let_def intro: step_ok_skip)
    qed
  qed
qed

section \<open>One node of the walk\<close>

text \<open>The nodes a resume never executes: those that succeeded, and the refused ones.\<close>

definition succeeded_before :: "run_config \<Rightarrow> string \<Rightarrow> bool" where
  "succeeded_before cfg name \<longleftrightarrow>
     (\<exists>prior. map_of (cf_resume cfg) name = Some prior \<and> o_status prior = StatusSucceeded)"

definition closed_node :: "run_config \<Rightarrow> wf_def \<Rightarrow> string \<Rightarrow> bool" where
  "closed_node cfg def name \<longleftrightarrow> succeeded_before cfg name \<or> refused cfg def name"

lemma refused_no_row:
  "refused cfg def name \<Longrightarrow> execute_step lv name cfg rid def rs = (a, rs') \<Longrightarrow> rs' = rs"
  by (simp add: execute_step_def Let_def)

lemma visit_node_facts:
  assumes "visit_node lv rid def cfg name rs = (r, rs')"
  shows "db.frame rid (rs_db rs) (rs_db rs')" "appends cfg rid name (rs_db rs) (rs_db rs')"
    "\<And>x. r = Inl x \<Longrightarrow> reports rid def x (rs_db rs')"
    "closed_node cfg def name \<Longrightarrow> outs (rs_db rs') = outs (rs_db rs)"
proof -
  let ?rs = "emit cfg (NodeStart name) rs"
  have "db.frame rid (rs_db rs) (rs_db rs') \<and> appends cfg rid name (rs_db rs) (rs_db rs')
      \<and> (\<forall>x. r = Inl x \<longrightarrow> reports rid def x (rs_db rs'))
      \<and> (closed_node cfg def name \<longrightarrow> outs (rs_db rs') = outs (rs_db rs))"
  proof (cases "succeeded_before cfg name")
    case True
    with assms show ?thesis
      by (auto simp: visit_node_def Let_def succeeded_before_def appends_def db.frame_refl)
  next
    case False
    obtain a rs1 where x: "execute_step lv name cfg rid def ?rs = (a, rs1)" by fastforce
    have skip: "(case map_of (cf_resume cfg) name of
        Some prior \<Rightarrow> if o_status prior = StatusSucceeded then Some (o_output prior) else None
      | None \<Rightarrow> None) = None"
      using False by (auto simp: succeeded_before_def split: option.splits)
    have ok: "db.frame rid (rs_db rs) (rs_db rs1)" "appends cfg rid name (rs_db rs) (rs_db rs1)"
      "a = StepWaiting \<Longrightarrow> set (run_status rid (rs_db rs1)) \<subseteq> {StatusWaiting}"
      using execute_step_ok [OF x] by (simp_all add: step_ok_def)
    have closed: "closed_node cfg def name \<Longrightarrow> outs (rs_db rs1) = outs (rs_db rs)"
      using False refused_no_row [OF _ x] by (auto simp: closed_node_def)
    show ?thesis
    proof (cases a)
      case (StepDone out)
      with assms x skip ok closed show ?thesis by (auto simp: visit_node_def Let_def)
    next
      case (StepEnd st err)
      obtain y rs2 where
        e: "end_run lv rid def name st err (emit cfg (NodeComplete name st None (Some err)) rs1) = (y, rs2)"
        by fastforce
      with assms x skip StepEnd have "r = Inl y" "rs' = rs2" by (auto simp: visit_node_def Let_def)
      then show ?thesis
        using end_run_facts [OF e] ok closed db.frame_trans [OF ok(1)] by (auto simp: appends_def)
    next
      case StepWaiting
      obtain y rs2 where w: "wait_run lv rid def cfg name rs1 = (y, rs2)" by fastforce
      with assms x skip StepWaiting have "r = Inl y" "rs' = rs2" by (auto simp: visit_node_def Let_def)
      then show ?thesis
        using wait_run_facts [OF w ok(3) [OF StepWaiting]] ok closed db.frame_trans [OF ok(1)]
        by (auto simp: appends_def)
    next
      case (StepFault e)
      with assms x skip ok closed show ?thesis by (auto simp: visit_node_def Let_def)
    qed
  qed
  then show "db.frame rid (rs_db rs) (rs_db rs')" "appends cfg rid name (rs_db rs) (rs_db rs')"
    "\<And>x. r = Inl x \<Longrightarrow> reports rid def x (rs_db rs')"
    "closed_node cfg def name \<Longrightarrow> outs (rs_db rs') = outs (rs_db rs)" by blast+
qed

section \<open>The next edge\<close>

lemma pick_expr_target: "pick_expr sc es = Inr (Some t) \<Longrightarrow> \<exists>e\<in>set es. e_to e = t"
  by (induction es) (auto split: sum.splits if_splits)

lemma default_edge_in: "default_edge es = Some e \<Longrightarrow> e \<in> set es"
  by (auto simp: default_edge_def find_Some_iff) (metis nth_mem length_rev set_rev)

lemma fallback_target: "fallback_edge es n = Inr t \<Longrightarrow> \<exists>e\<in>set es. e_to e = t"
  by (auto simp: fallback_edge_def split: option.splits dest: default_edge_in)

lemma llm_route_target:
  assumes "llm_route lv es rs = (Some t, rs')"
  shows "\<exists>e\<in>set es. e_to e = t"
proof -
  from assms obtain e c where "find (\<lambda>e. e_to e = c) es = Some e" "e_to e = t"
    by (auto simp: llm_route_def Let_def split: prod.splits sum.splits)
  then show ?thesis by (auto simp: find_Some_iff)
qed

lemma select_edge_target:
  assumes "select_edge lv es rs = (Inr t, rs')"
  shows "\<exists>e\<in>set es. e_to e = t"
proof (cases "plain_edges es")
  case (Cons e _)
  then have "e \<in> set es"
    by (metis filter_is_subset list.set_intros(1) plain_edges_def subsetD)
  with assms Cons show ?thesis by (auto simp: select_edge_def)
next
  case Nil
  show ?thesis
  proof (cases "pick_expr (rs_scope rs) (expr_edges es)")
    case (Inr p)
    show ?thesis
    proof (cases p)
      case None
      with assms Nil Inr show ?thesis
        by (auto simp: select_edge_def route_edges_def split: if_splits prod.splits option.splits
            dest!: llm_route_target fallback_target)
    next
      case (Some u)
      with assms Nil Inr show ?thesis
        using pick_expr_target [of "rs_scope rs" "expr_edges es" u]
        by (auto simp: select_edge_def expr_edges_def)
    qed
  qed (use assms Nil in \<open>auto simp: select_edge_def\<close>)
qed

lemma out_edge_rank:
  assumes "topo_order def = Inr order" and "e \<in> set (out_edges (d_edges def) n)"
  shows "e_to e \<in> set order" "rank order n < rank order (e_to e)"
proof -
  have e: "e \<in> set (d_edges def)" "e_from e = n"
    using assms(2) by (auto simp: out_edges_def)
  show to: "e_to e \<in> set order"
    using e(1) assms(1) topo_order_facts(2) [OF assms(1)] by (auto simp: topo_order_Inr_iff graph_ok_def)
  show "rank order n < rank order (e_to e)"
    using topo_closed_rank [OF topo_order_facts(3) [OF assms(1)] e(1) to] e(2) by simp
qed

section \<open>The walk returns\<close>

lemma walk_returns:
  assumes topo: "topo_order def = Inr order"
  shows "cur \<in> set order \<Longrightarrow> length order < fuel + rank order cur \<Longrightarrow>
           \<exists>y. walk lv rid def cfg fuel cur out rs = Some y"
proof (induction fuel arbitrary: cur out rs)
  case 0
  then show ?case using rank_less_length [of cur order] by simp
next
  case (Suc fuel)
  obtain r rs1 where v: "visit_node lv rid def cfg cur rs = (r, rs1)" by fastforce
  obtain s rs2 where e: "select_edge lv (out_edges (d_edges def) cur) rs1 = (s, rs2)" by fastforce
  have "\<exists>y. walk lv rid def cfg fuel t o1 rs2 = Some y" if s: "s = Inr t" for t o1
  proof -
    obtain g where g: "g \<in> set (out_edges (d_edges def) cur)" "e_to g = t"
      using select_edge_target [OF e [unfolded s]] by blast
    from out_edge_rank [OF topo g(1)] g(2) Suc.prems(2) show ?thesis
      by (intro Suc.IH) auto
  qed
  with v e show ?case by (auto simp: Let_def split: option.split sum.split)
qed

section \<open>The rows of a walk\<close>

text \<open>
  The rows a walk appends: of this run, at most one per node, in topological order, with the
  node's next attempt number, and none of a node that is closed.
\<close>

definition row_of_run :: "run_config \<Rightarrow> wf_def \<Rightarrow> string \<Rightarrow> step_error out_row \<Rightarrow> bool" where
  "row_of_run cfg def rid r \<longleftrightarrow>
     no_run r = rid \<and> no_attempt r = next_attempt cfg (no_node r) \<and> \<not> closed_node cfg def (no_node r)"

definition walk_rows ::
  "run_config \<Rightarrow> wf_def \<Rightarrow> string \<Rightarrow> string list \<Rightarrow> nat \<Rightarrow> step_error out_row list \<Rightarrow> bool" where
  "walk_rows cfg def rid order k new \<longleftrightarrow>
     (\<forall>r\<in>set new. row_of_run cfg def rid r \<and> k \<le> rank order (no_node r))
     \<and> sorted_wrt (\<lambda>a b. rank order (no_node a) < rank order (no_node b)) new"

lemma walk_rows_Nil [simp]: "walk_rows cfg def rid order k []"
  by (simp add: walk_rows_def)

lemma visit_rows:
  assumes "visit_node lv rid def cfg name rs = (r, rs')"
  obtains new where "outs (rs_db rs') = outs (rs_db rs) @ new"
    and "new = [] \<or> (\<exists>x. new = [x] \<and> no_node x = name \<and> row_of_run cfg def rid x)"
proof (cases "outs (rs_db rs') = outs (rs_db rs)")
  case True
  then show ?thesis using that [of "[]"] by simp
next
  case False
  with visit_node_facts(2,4) [OF assms] obtain x where x:
    "outs (rs_db rs') = outs (rs_db rs) @ [x]" "no_run x = rid" "no_node x = name"
    "no_attempt x = next_attempt cfg name" "\<not> closed_node cfg def name"
    by (auto simp: appends_def)
  then show ?thesis using that [of "[x]"] by (simp add: row_of_run_def)
qed

lemma walk_appends:
  assumes topo: "topo_order def = Inr order"
  shows "walk lv rid def cfg fuel cur out rs = Some (x, rs') \<Longrightarrow> cur \<in> set order \<Longrightarrow>
           \<exists>new. outs (rs_db rs') = outs (rs_db rs) @ new \<and> walk_rows cfg def rid order (rank order cur) new"
proof (induction fuel arbitrary: cur out rs)
  case (Suc fuel)
  consider (empty) "cur = []" | (ctx) msg where "cur \<noteq> []" "lf_ctx lv (rs_world rs) = Some msg"
    | (visit) "cur \<noteq> []" "lf_ctx lv (rs_world rs) = None" by fastforce
  then show ?case
  proof cases
    case empty
    then show ?thesis using Suc.prems finish_run_facts(2) [of lv rid def cfg out rs x rs']
      by (intro exI [of _ "[]"]) simp
  next
    case (ctx msg)
    then show ?thesis
      using Suc.prems end_run_facts(2) [of lv rid def cur StatusFailed "Canceled msg" rs x rs']
      by (intro exI [of _ "[]"]) simp
  next
    case visit
    obtain r rs1 where v: "visit_node lv rid def cfg cur rs = (r, rs1)" by fastforce
    obtain one where one: "outs (rs_db rs1) = outs (rs_db rs) @ one"
      "one = [] \<or> (\<exists>y. one = [y] \<and> no_node y = cur \<and> row_of_run cfg def rid y)"
      using visit_rows [OF v] by blast
    then have rows1: "walk_rows cfg def rid order (rank order cur) one"
      by (auto simp: walk_rows_def)
    let ?es = "out_edges (d_edges def) cur"
    show ?thesis
    proof (cases "\<exists>o1. r = Inr o1 \<and> ?es \<noteq> []")
      case False
      then have "outs (rs_db rs') = outs (rs_db rs1)"
        using Suc.prems(1) visit v finish_run_facts(2) [of lv rid def cfg _ rs1 x rs']
        by (auto split: sum.splits)
      with one(1) rows1 show ?thesis by auto
    next
      case True
      then obtain o1 where o1: "r = Inr o1" "?es \<noteq> []" by blast
      obtain s rs2 where e: "select_edge lv ?es rs1 = (s, rs2)" by fastforce
      note same = select_edge_db [OF e]
      show ?thesis
      proof (cases s)
        case (Inl err)
        then have "outs (rs_db rs') = outs (rs_db rs1)"
          using Suc.prems(1) visit v o1 e same end_run_facts(2) [of lv rid def cur StatusFailed err rs2 x rs']
          by simp
        with one(1) rows1 show ?thesis by auto
      next
        case (Inr t)
        obtain g where g: "g \<in> set ?es" "e_to g = t"
          using select_edge_target [OF e [unfolded Inr]] by blast
        note rank = out_edge_rank [OF topo g(1), unfolded g(2)]
        have "walk lv rid def cfg fuel t o1 rs2 = Some (x, rs')"
          using Suc.prems(1) visit v o1 e Inr by simp
        from Suc.IH [OF this rank(1)] obtain new where
          new: "outs (rs_db rs') = outs (rs_db rs1) @ new" "walk_rows cfg def rid order (rank order t) new"
          using same by auto
        have "walk_rows cfg def rid order (rank order cur) (one @ new)"
          using one(2) new(2) rank(2) by (fastforce simp: walk_rows_def)
        then show ?thesis using one(1) new(1) by (intro exI [of _ "one @ new"]) simp
      qed
    qed
  qed
qed simp

lemma walk_frame:
  "walk lv rid def cfg fuel cur out rs = Some (x, rs') \<Longrightarrow>
     db.frame rid (rs_db rs) (rs_db rs') \<and> reports rid def x (rs_db rs')"
proof (induction fuel arbitrary: cur out rs)
  case (Suc fuel)
  obtain r rs1 where v: "visit_node lv rid def cfg cur rs = (r, rs1)" by fastforce
  obtain s rs2 where e: "select_edge lv (out_edges (d_edges def) cur) rs1 = (s, rs2)" by fastforce
  have f1: "db.frame rid (rs_db rs) (rs_db rs1)" and [simp]: "rs_db rs2 = rs_db rs1"
    using visit_node_facts(1) [OF v] select_edge_db [OF e] by simp_all
  consider (fin) o1 a where "finish_run lv rid def cfg o1 a = (x, rs')" "a = rs \<or> a = rs1"
    | (err) st er a where "end_run lv rid def cur st er a = (x, rs')" "a = rs \<or> a = rs2"
    | (stop) "r = Inl x" "rs' = rs1"
    | (go) t o1 where "walk lv rid def cfg fuel t o1 rs2 = Some (x, rs')"
    using Suc.prems v e by (auto simp: Let_def split: if_splits option.splits sum.splits)
  then show ?case
  proof cases
    case fin
    with finish_run_facts [OF fin(1)] f1 show ?thesis by (auto intro: db.frame_trans)
  next
    case err
    with end_run_facts [OF err(1)] f1 show ?thesis by (auto intro: db.frame_trans)
  next
    case stop
    with f1 visit_node_facts(3) [OF v] show ?thesis by simp
  next
    case go
    from Suc.IH [OF go] f1 show ?thesis by (auto intro: db.frame_trans)
  qed
qed simp

section \<open>The nodes a walk starts\<close>

fun starts :: "'e run_event list \<Rightarrow> string list" where
  "starts [] = []"
| "starts (NodeStart n # es) = n # starts es"
| "starts (_ # es) = starts es"

lemma starts_append [simp]: "starts (xs @ ys) = starts xs @ starts ys"
  by (induction xs rule: starts.induct) simp_all

lemma starts_emit:
  "starts (rs_events (emit cfg (NodeStart n) rs)) = starts (rs_events rs) @ (if cf_sink cfg then [n] else [])"
  "starts (rs_events (emit cfg (NodeComplete n st m e) rs)) = starts (rs_events rs)"
  "starts (rs_events (emit cfg (Done st m) rs)) = starts (rs_events rs)"
  by (simp_all add: emit_def)

lemma exec_node_events: "exec_node lv node rs = (r, rs') \<Longrightarrow> rs_events rs' = rs_events rs"
  by (auto simp: exec_node_def Let_def split: node_kind.splits prod.splits option.splits)

lemma select_edge_events: "select_edge lv es rs = (r, rs') \<Longrightarrow> rs_events rs' = rs_events rs"
  by (auto simp: select_edge_def llm_route_def Let_def
      split: list.splits sum.splits option.splits prod.splits if_splits)

lemma store_do_events: "rs_events (snd (store_do lv f rs)) = rs_events rs"
  by (auto simp: store_do_def split: prod.splits)

lemma persist_events: "persist lv rid n a st out err ans rs = (r, rs') \<Longrightarrow> rs_events rs' = rs_events rs"
  using store_do_events [of lv "append_node_output rid n a st out err" rs]
  by (auto simp: persist_def split: prod.splits)

lemma exec_form_node_events:
  assumes "exec_form_node lv node k cfg rid rs = (r, rs')"
  shows "rs_events rs' = rs_events rs"
proof -
  obtain a rs1 where p: "persist lv rid (n_name node) k StatusWaiting None None StepWaiting rs = (a, rs1)"
    by fastforce
  then show ?thesis
    using assms persist_events [OF p]
      store_do_events [of lv "set_run_waiting rid (n_name node) (n_input node)" rs1]
    by (auto simp: exec_form_node_def split: if_splits option.splits prod.splits dest!: persist_events)
qed

lemma execute_step_events:
  "execute_step lv name cfg rid def rs = (r, rs') \<Longrightarrow> rs_events rs' = rs_events rs"
  by (auto simp: execute_step_def Let_def split: if_splits prod.splits node_result.splits
      dest!: exec_form_node_events persist_events exec_node_events)

lemma load_snapshot_events: "rs_events (snd (load_snapshot lv rid def rs)) = rs_events rs"
  using load_snapshot_frame(4) by (metis prod.collapse)

lemma end_run_events: "end_run lv rid def n st err rs = (x, rs') \<Longrightarrow> rs_events rs' = rs_events rs"
  using store_do_events [of lv "finalize_workflow_run rid st (Some (AtNode n err))" rs]
  by (auto simp: end_run_def split: prod.splits option.splits sum.splits
      dest!: load_snapshot_frame(4))

lemma finish_run_starts:
  "finish_run lv rid def cfg out rs = (x, rs') \<Longrightarrow> starts (rs_events rs') = starts (rs_events rs)"
  using store_do_events [of lv "finalize_workflow_run rid StatusSucceeded None" rs]
  by (auto simp: finish_run_def Let_def starts_emit split: prod.splits option.splits sum.splits
      dest!: load_snapshot_frame(4))

lemma wait_run_starts:
  "wait_run lv rid def cfg n rs = (x, rs') \<Longrightarrow> starts (rs_events rs') = starts (rs_events rs)"
  by (auto simp: wait_run_def starts_emit split: prod.splits sum.splits dest!: load_snapshot_frame(4))

lemma visit_node_starts:
  assumes "cf_sink cfg" and "visit_node lv rid def cfg name rs = (r, rs')"
  shows "starts (rs_events rs') = starts (rs_events rs) @ [name]"
  using assms
  by (auto simp: visit_node_def Let_def starts_emit split: option.splits if_splits prod.splits step_result.splits
      dest!: execute_step_events wait_run_starts end_run_events)

lemma walk_starts:
  "cf_sink cfg \<Longrightarrow> walk lv rid def cfg fuel cur out rs = Some (x, rs') \<Longrightarrow>
     \<exists>p. starts (rs_events rs') = starts (rs_events rs) @ p
       \<and> (p = [] \<or> hd p = cur) \<and> successively (\<lambda>a b. (a, b) \<in> edge_rel (d_edges def)) p"
proof (induction fuel arbitrary: cur out rs)
  case (Suc fuel)
  obtain r rs1 where v: "visit_node lv rid def cfg cur rs = (r, rs1)" by fastforce
  obtain s rs2 where e: "select_edge lv (out_edges (d_edges def) cur) rs1 = (s, rs2)" by fastforce
  have st: "starts (rs_events rs1) = starts (rs_events rs) @ [cur]" "rs_events rs2 = rs_events rs1"
    using visit_node_starts [OF Suc.prems(1) v] select_edge_events [OF e] by simp_all
  consider (none) "starts (rs_events rs') = starts (rs_events rs)"
    | (one) "starts (rs_events rs') = starts (rs_events rs1)"
    | (go) t o1 where "s = Inr t" "walk lv rid def cfg fuel t o1 rs2 = Some (x, rs')"
    using Suc.prems v e st
    by (auto simp: Let_def split: if_splits option.splits sum.splits
        dest!: end_run_events finish_run_starts)
  then show ?case
  proof cases
    case none
    then show ?thesis by (intro exI [of _ "[]"]) simp
  next
    case one
    with st show ?thesis by (intro exI [of _ "[cur]"]) simp
  next
    case go
    obtain g where g: "g \<in> set (out_edges (d_edges def) cur)" "e_to g = t"
      using select_edge_target [OF e [unfolded go(1)]] by blast
    then have edge: "(cur, t) \<in> edge_rel (d_edges def)"
      by (auto simp: out_edges_def edge_rel_def)
    from Suc.IH [OF Suc.prems(1) go(2)] obtain p where p: "starts (rs_events rs') = starts (rs_events rs2) @ p"
      "p = [] \<or> hd p = t" "successively (\<lambda>a b. (a, b) \<in> edge_rel (d_edges def)) p" by blast
    with edge st show ?thesis
      by (intro exI [of _ "cur # p"]) (auto simp: successively_Cons)
  qed
qed simp

text \<open>A path of an acyclic graph repeats no node.\<close>

lemma path_trancl:
  "successively (\<lambda>a b. (a, b) \<in> R) (x # p) \<Longrightarrow> y \<in> set p \<Longrightarrow> (x, y) \<in> R\<^sup>+"
proof (induction p arbitrary: x)
  case (Cons z p)
  then have "(x, z) \<in> R" "successively (\<lambda>a b. (a, b) \<in> R) (z # p)" by auto
  with Cons.IH [of z] Cons.prems(2) show ?case
    by (auto intro: trancl_into_trancl2)
qed simp

lemma path_distinct:
  assumes "acyclic R" and "successively (\<lambda>a b. (a, b) \<in> R) p"
  shows "distinct p"
  using assms(2)
proof (induction p)
  case (Cons x p)
  have "x \<notin> set p"
    using path_trancl [OF Cons.prems] assms(1) by (auto simp: acyclic_def)
  moreover have "successively (\<lambda>a b. (a, b) \<in> R) p"
    using Cons.prems by (cases p) auto
  ultimately show ?case using Cons.IH by simp
qed simp

section \<open>The shape of a result\<close>

text \<open>
  A succeeded run has no error and no pending form; a failed one and one that needs intervention
  name the node and its error; a waiting one has the form node it waits at, and somebody to ask.
\<close>

definition well_shaped :: "run_config \<Rightarrow> wf_def \<Rightarrow> step_error execution_result \<Rightarrow> bool" where
  "well_shaped cfg def res \<longleftrightarrow>
     (case r_status res of
        StatusSucceeded \<Rightarrow> r_error res = None \<and> r_pending res = None
      | StatusFailed \<Rightarrow> r_error res \<noteq> None \<and> r_pending res = None \<and> r_result res = None
      | StatusNeedsIntervention \<Rightarrow> r_error res \<noteq> None \<and> r_pending res = None \<and> r_result res = None
      | StatusWaiting \<Rightarrow>
          r_error res = None \<and> r_result res = None \<and> cf_owner cfg \<notin> {[], ''system''}
          \<and> (\<exists>n. r_pending res = Some \<lparr>pf_node = n, pf_schema = n_input (node_by_name def n)\<rparr>
                 \<and> n_kind (node_by_name def n) = KindForm)
      | StatusRunning \<Rightarrow> False)"

lemma end_run_shape:
  "end_run lv rid def n st err rs = (Inr res, rs') \<Longrightarrow> st \<in> {StatusFailed, StatusNeedsIntervention} \<Longrightarrow>
     well_shaped cfg def res"
  by (auto simp: end_run_def well_shaped_def split: prod.splits option.splits sum.splits)

lemma finish_run_shape:
  "finish_run lv rid def cfg out rs = (Inr res, rs') \<Longrightarrow> well_shaped cfg def res"
  by (auto simp: finish_run_def well_shaped_def Let_def split: prod.splits option.splits sum.splits)

lemma persist_answer: "persist lv rid n a st out err ans rs = (r, rs') \<Longrightarrow> r = ans \<or> (\<exists>x. r = StepFault x)"
  by (auto simp: persist_def split: prod.splits option.splits)

text \<open>What a step can answer besides a fault.\<close>

definition step_shape :: "run_config \<Rightarrow> wf_node \<Rightarrow> step_result \<Rightarrow> bool" where
  "step_shape cfg node a \<longleftrightarrow>
     (case a of
        StepEnd st _ \<Rightarrow> st \<in> {StatusFailed, StatusNeedsIntervention}
      | StepWaiting \<Rightarrow> cf_owner cfg \<notin> {[], ''system''} \<and> n_kind node = KindForm
      | _ \<Rightarrow> True)"

lemma exec_form_node_shape:
  "exec_form_node lv node k cfg rid rs = (a, rs') \<Longrightarrow> n_kind node = KindForm \<Longrightarrow> step_shape cfg node a"
  by (auto simp: exec_form_node_def step_shape_def split: if_splits prod.splits option.splits
      dest!: persist_answer)

lemma execute_step_shape:
  assumes "execute_step lv name cfg rid def rs = (a, rs')"
  shows "step_shape cfg (node_by_name def name) a"
  using assms exec_form_node_shape [of lv "node_by_name def name" "next_attempt cfg name" cfg rid rs a rs']
  by (auto simp: execute_step_def Let_def step_shape_def split: if_splits prod.splits node_result.splits
      dest!: persist_answer)

lemma visit_node_shape:
  assumes "visit_node lv rid def cfg name rs = (Inl (Inr res), rs')"
  shows "well_shaped cfg def res"
proof -
  let ?rs = "emit cfg (NodeStart name) rs"
  obtain a rs1 where x: "execute_step lv name cfg rid def ?rs = (a, rs1)" by fastforce
  note shape = execute_step_shape [OF x]
  consider st err rs2 rs3 where "end_run lv rid def name st err rs2 = (Inr res, rs3)" "a = StepEnd st err"
    | rs2 where "wait_run lv rid def cfg name rs1 = (Inr res, rs2)" "a = StepWaiting"
    using assms x
    by (auto simp: visit_node_def Let_def split: option.splits if_splits prod.splits step_result.splits)
  then show ?thesis
  proof cases
    case 1
    then show ?thesis using shape by (intro end_run_shape) (auto simp: step_shape_def)
  next
    case 2
    then show ?thesis
      using shape by (auto simp: wait_run_def step_shape_def well_shaped_def split: prod.splits sum.splits)
  qed
qed

lemma walk_shape:
  "walk lv rid def cfg fuel cur out rs = Some (Inr res, rs') \<Longrightarrow> well_shaped cfg def res"
proof (induction fuel arbitrary: cur out rs)
  case (Suc fuel)
  then show ?case
    by (auto simp: Let_def split: if_splits option.splits sum.splits prod.splits
        intro: end_run_shape finish_run_shape visit_node_shape)
qed simp

end
