(* ===== verification/Workflow_Example.thy ===== *)
theory Workflow_Example
  imports Workflow_Runner
begin

text \<open>
  A small workflow on which the theorems are instantiated: a tool call that changes the outside
  world, a condition on its answer, and two replies. The world counts the calls of its leaves;
  the tool answers \<^verbatim>\<open>{"ok": true}\<close>, or fails when the world says so.
\<close>

definition ex_node :: "side_effect \<Rightarrow> string \<Rightarrow> node_kind \<Rightarrow> string \<Rightarrow> wf_node" where
  "ex_node side name kind prompt =
     \<lparr>n_name = name, n_kind = kind, n_tool = ''search'', n_input = None, n_prompt = prompt, n_code = [],
      n_language = [], n_output = None, n_side = side\<rparr>"

definition ex_edge :: "string \<Rightarrow> string \<Rightarrow> string \<Rightarrow> wf_edge" where
  "ex_edge a b w = \<lparr>e_from = a, e_to = b, e_when = w, e_desc = []\<rparr>"

definition ex_def :: "side_effect \<Rightarrow> wf_def" where
  "ex_def side =
     \<lparr>d_id = ''wf'', d_version = 1, d_title = [], d_description = [], d_schema = None,
      d_nodes = [ex_node side ''find'' KindTool [],
                 ex_node SidePure ''yes'' KindReply ''Found ${find.ok}'',
                 ex_node SidePure ''no'' KindReply ''Nothing''],
      d_edges = [ex_edge ''find'' ''yes'' ''${find.ok} == true'', ex_edge ''find'' ''no'' ''default''],
      d_output = None, d_concurrency = ConcurrencyAllow\<rparr>"

text \<open>The world: calls made so far, and whether the tool fails.\<close>

definition ex_leaves :: "(nat \<times> bool) leaves" where
  "ex_leaves =
     \<lparr>lf_llm = \<lambda>(n, b) _. (Inr ''ok'', (Suc n, b)),
      lf_tool = \<lambda>(n, b) _ _. (if b then Inl ''timeout'' else Inr ''{\"ok\": true}'', (Suc n, b)),
      lf_code = None, lf_http = None, lf_ctx = \<lambda>_. None, lf_now = \<lambda>(n, b). 100 + int n\<rparr>"

definition ex_db :: "step_error wf_db" where
  "ex_db = \<lparr>runs = [], outs = [], now = 0, faults = []\<rparr>"

definition ex_state :: "bool \<Rightarrow> (nat \<times> bool) rstate" where
  "ex_state fails =
     \<lparr>rs_world = (0, fails), rs_db = ex_db,
      rs_scope = \<lparr>sc_input = None, sc_outputs = (\<lambda>_. None), sc_vars = None\<rparr>, rs_events = []\<rparr>"

definition ex_run :: "side_effect \<Rightarrow> bool \<Rightarrow> (run_outcome \<times> (nat \<times> bool) rstate) option" where
  "ex_run side fails =
     run_workflow ex_leaves ''r1'' (ex_def side) None (fresh_config ''me'' [] True) (ex_state fails)"

text \<open>What a run shows: its outcome, the world, the tables and the events.\<close>

definition ex_view ::
  "(run_outcome \<times> 'w rstate) option
     \<Rightarrow> (run_outcome \<times> 'w \<times> step_error wf_db \<times> step_error run_event list) option" where
  "ex_view y = map_option (\<lambda>(x, s). (x, rs_world s, rs_db s, rs_events s)) y"

definition ex_resume ::
  "side_effect \<Rightarrow> bool \<Rightarrow> (nat \<times> bool) rstate \<Rightarrow> (run_outcome \<times> (nat \<times> bool) rstate) option" where
  "ex_resume side fails s =
     run_workflow ex_leaves ''r2'' (ex_def side) None (resume_config ''r1'' [] None ''me'' True)
       (s\<lparr>rs_world := (fst (rs_world s), fails)\<rparr>)"

end
