(* ===== verification/Workflow_Run.thy ===== *)
theory Workflow_Run
  imports Workflow_Walk Workflow_Retention Workflow_Example
begin

text \<open>
  The theorems on a whole run (\<^verbatim>\<open>Run\<close>, \<^verbatim>\<open>RunWorkflowStream\<close>,
  \<^verbatim>\<open>ResumeWorkflowStream\<close>): it returns, what it writes, what it reports, which nodes
  it starts, and what it does with what an earlier run of the same id left.
\<close>

section \<open>Latest rows\<close>

lemma latest_rows_append: "latest_rows acc (xs @ ys) = latest_rows (latest_rows acc xs) ys"
  by (induction acc xs rule: latest_rows.induct) simp_all

text \<open>The row that stands for node \<open>n\<close>: no other attempt of \<open>n\<close> has a higher number.\<close>

definition is_latest :: "'e out_row list \<Rightarrow> string \<Rightarrow> 'e out_row option \<Rightarrow> bool" where
  "is_latest rows n q \<longleftrightarrow>
     (case q of
        None \<Rightarrow> \<forall>r\<in>set rows. no_node r \<noteq> n
      | Some r \<Rightarrow> r \<in> set rows \<and> no_node r = n
                 \<and> (\<forall>r'\<in>set rows. no_node r' = n \<longrightarrow> no_attempt r' \<le> no_attempt r))"

lemma latest_rows_is_latest: "is_latest rows n (map_of (latest_rows [] rows) n)"
proof (induction rows rule: rev_induct)
  case (snoc r rows)
  then show ?case
    by (cases "no_node r = n"; cases "map_of (latest_rows [] rows) (no_node r)")
      (auto simp: latest_rows_append is_latest_def update_conv' split: option.splits if_splits)
qed (simp add: is_latest_def)

lemma set_run_outputs: "set (run_outputs rid db) = {r \<in> set (outs db). no_run r = rid}"
  by (auto simp: run_outputs_def)

lemma map_of_snapshot:
  "map_of (snapshot_of def rows) n = map_option (row_output def n) (map_of (latest_rows [] rows) n)"
proof -
  have "map_of (map (\<lambda>(name, r). (name, row_output def name r)) l) n =
      map_option (row_output def n) (map_of l n)" for l :: "(string \<times> 'a out_row) list"
    by (induction l) auto
  then show ?thesis by (simp add: snapshot_of_def)
qed

section \<open>The start of a run\<close>

definition run_id_of :: "string \<Rightarrow> run_config \<Rightarrow> string" where
  "run_id_of new_id cfg = (if cf_run_id cfg = [] then new_id else cf_run_id cfg)"

definition resume_snapshot :: "wf_def \<Rightarrow> run_config \<Rightarrow> step_error wf_db \<Rightarrow> snapshot" where
  "resume_snapshot def cfg db =
     (if cf_run_id cfg = [] then [] else snapshot_of def (run_outputs (cf_run_id cfg) db))"

text \<open>The state in which the walk begins, seen from the state in which the run was asked for.\<close>

definition run_prepared ::
  "string \<Rightarrow> run_config \<Rightarrow> step_error wf_db \<Rightarrow> step_error wf_db \<Rightarrow> bool" where
  "run_prepared rid cfg db db' \<longleftrightarrow>
     outs db' = outs db \<and> other_runs rid db' = other_runs rid db
     \<and> length (run_status rid db') = length (run_status rid db) + (if cf_run_id cfg = [] then 1 else 0)
     \<and> (cf_run_id cfg = [] \<longrightarrow> run_status rid db = [])"

definition run_refused ::
  "string \<Rightarrow> step_error wf_db \<Rightarrow> step_error wf_db \<Rightarrow> bool" where
  "run_refused rid db db' \<longleftrightarrow> outs db' = outs db \<and> other_runs rid db' = other_runs rid db"

lemma store_do_db:
  "store_do lv f rs = (x, rs') \<Longrightarrow> f ((rs_db rs)\<lparr>now := lf_now lv (rs_world rs)\<rparr>) = (x, rs_db rs')"
  by (auto simp: store_do_def split: prod.splits)

lemma now_upd [simp]: "other_runs k (db\<lparr>now := t\<rparr>) = other_runs k db"
    "run_status k (db\<lparr>now := t\<rparr>) = run_status k db"
  by (simp_all add: other_runs_def run_status_def)

lemma create_do:
  assumes "store_do lv (create_workflow_run rid d v i ss ow) rs = (e, rs')"
  shows "outs (rs_db rs') = outs (rs_db rs)" "other_runs rid (rs_db rs') = other_runs rid (rs_db rs)"
    "e = None \<Longrightarrow> run_status rid (rs_db rs) = [] \<and> run_status rid (rs_db rs') = [StatusRunning]"
proof -
  note c = store_do_db [OF assms]
  show "outs (rs_db rs') = outs (rs_db rs)" "other_runs rid (rs_db rs') = other_runs rid (rs_db rs)"
    using db.create_log [OF c] db.create_others [OF c] by simp_all
  have "run_status rid (rs_db rs) = []" if "e = None"
    using c that
    by (force simp: create_workflow_run_def run_status_def filter_empty_conv
        split: option.splits prod.splits if_splits dest!: tick_frame)
  then show "run_status rid (rs_db rs) = [] \<and> run_status rid (rs_db rs') = [StatusRunning]" if "e = None"
    using that db.create_status [OF c, of rid] by simp
qed

lemma mark_do:
  assumes "store_do lv (mark_run_running rid) rs = (e, rs')"
  shows "db.frame rid (rs_db rs) (rs_db rs')" "outs (rs_db rs') = outs (rs_db rs)"
proof -
  show "db.frame rid (rs_db rs) (rs_db rs')"
    by (rule store_do_frame [OF assms]) (rule db.mark_frame)
  show "outs (rs_db rs') = outs (rs_db rs)"
    using db.mark_log [OF store_do_db [OF assms]] by simp
qed

lemma input_do:
  assumes "store_do lv (get_run_input rid) rs = (e, rs')"
  shows "db.frame k (rs_db rs) (rs_db rs')" "outs (rs_db rs') = outs (rs_db rs)"
proof -
  show "db.frame k (rs_db rs) (rs_db rs')"
    by (rule store_do_frame [OF assms]) (rule input_frame)
  show "outs (rs_db rs') = outs (rs_db rs)"
    using store_do_db [OF assms]
    by (auto simp: get_run_input_def split: prod.splits if_splits option.splits dest!: tick_frame)
qed

lemma run_workflow_start:
  assumes "run_workflow lv new_id def input cfg rs = Some (x, rs')"
  defines "rid \<equiv> run_id_of new_id cfg"
  obtains (refused) f where "x = Inl f" "run_refused rid (rs_db rs) (rs_db rs')"
      "rs_events rs' = rs_events rs"
  | (walked) input' rs1 where "run_prepared rid cfg (rs_db rs) (rs_db rs1)"
      "\<exists>order. topo_order def = Inr order" "entry_node def \<in> set (node_names def)"
      "rs_events rs1 = rs_events rs"
      "start_walk lv rid def (cfg\<lparr>cf_resume := resume_snapshot def cfg (rs_db rs)\<rparr>) input' rs1 = Some (x, rs')"
proof (cases "validate_def def (if input = None then Some [] else input)")
  case (Some e)
  with assms show ?thesis by (intro refused) (auto simp: run_workflow_def run_refused_def)
next
  case None
  have ok: "\<exists>order. topo_order def = Inr order" "entry_node def \<in> set (node_names def)"
    using None entry_node_in by (auto simp: validate_def_None_iff)
  show ?thesis
  proof (cases "cf_run_id cfg = []")
    case True
    then have [simp]: "rid = new_id" by (simp add: rid_def run_id_of_def)
    obtain e rs1 where c: "store_do lv (create_workflow_run new_id (d_id def) (d_version def)
        (if input = None then Some [] else input) (cf_session cfg) (cf_owner cfg)) rs = (e, rs1)"
      by fastforce
    note facts = create_do [OF c] and ev = store_do_scope(3) [OF c]
    show ?thesis
    proof (cases e)
      case (Some y)
      with assms None True c facts ev show ?thesis
        by (intro refused) (auto simp: run_workflow_def run_refused_def)
    next
      case e: None
      from assms None True c e facts ev ok show ?thesis
        by (intro walked) (auto simp: run_workflow_def run_prepared_def resume_snapshot_def)
    qed
  next
    case False
    then have rid: "cf_run_id cfg = rid" by (simp add: rid_def run_id_of_def)
    obtain e rs1 where m: "store_do lv (mark_run_running rid) rs = (e, rs1)" by fastforce
    obtain s rs2 where l: "load_snapshot lv rid def rs1 = (s, rs2)" by fastforce
    obtain i rs3 where g: "store_do lv (get_run_input rid) rs2 = (i, rs3)" by fastforce
    have fr: "db.frame rid (rs_db rs) (rs_db rs1)" "db.frame rid (rs_db rs) (rs_db rs2)"
      "db.frame rid (rs_db rs) (rs_db rs3)"
      using mark_do(1) [OF m] load_snapshot_frame(1) [OF l, of rid] input_do(1) [OF g, of rid]
      by (auto intro: db.frame_trans)
    have out: "outs (rs_db rs1) = outs (rs_db rs)" "outs (rs_db rs2) = outs (rs_db rs)"
      "outs (rs_db rs3) = outs (rs_db rs)"
      using mark_do(2) [OF m] load_snapshot_outs [OF l] input_do(2) [OF g] by simp_all
    have ev: "rs_events rs1 = rs_events rs" "rs_events rs2 = rs_events rs" "rs_events rs3 = rs_events rs"
      using store_do_scope(3) [OF m] load_snapshot_frame(4) [OF l] store_do_scope(3) [OF g] by simp_all
    show ?thesis
    proof (cases "e = None \<and> (\<exists>sn. s = Inr sn)")
      case True
      then obtain sn where s: "e = None" "s = Inr sn" by blast
      have "sn = resume_snapshot def cfg (rs_db rs)"
        using load_snapshot_Inr(1) [OF l [unfolded s(2)]] out run_outputs_cong [OF out(2)] False rid
        by (simp add: resume_snapshot_def)
      with assms None False m l g s rid have
        w: "start_walk lv rid def (cfg\<lparr>cf_resume := resume_snapshot def cfg (rs_db rs)\<rparr>)
           (case i of Inr orig \<Rightarrow> if entries orig \<noteq> [] then orig else (if input = None then Some [] else input)
            | Inl _ \<Rightarrow> (if input = None then Some [] else input)) rs3 = Some (x, rs')"
        by (simp add: run_workflow_def Let_def)
      show ?thesis
        by (rule walked [OF _ ok ev(3) w]) (use fr(3) out(3) False in \<open>simp add: run_prepared_def db.frame_def\<close>)
    next
      case stop: False
      then consider y where "e = Some y" | y where "e = None" "s = Inl y" by (cases e; cases s) auto
      then show ?thesis
      proof cases
        case (1 y)
        with assms None False m fr out ev rid show ?thesis
          by (intro refused [of "StoreFault ''mark run running'' y"])
            (auto simp: run_workflow_def Let_def run_refused_def db.frame_def)
      next
        case (2 y)
        with assms None False m l fr out ev rid show ?thesis
          by (intro refused [of y]) (auto simp: run_workflow_def Let_def run_refused_def db.frame_def)
      qed
    qed
  qed
qed

section \<open>Properties of a run\<close>

lemma start_walk_eq:
  "start_walk lv rid def cfg input rs = Some (x, rs') \<Longrightarrow>
     \<exists>rs0. rs_db rs0 = rs_db rs \<and> rs_events rs0 = rs_events rs \<and>
       walk lv rid def cfg (Suc (length (d_nodes def))) (entry_node def) None rs0 = Some (x, rs')"
  unfolding start_walk_def
  by (rule exI [of _ "rs\<lparr>rs_scope := \<lparr>sc_input = input, sc_outputs = initial_outputs (cf_resume cfg),
        sc_vars = Some []\<rparr>\<rparr>"]) simp

lemma length_order: "topo_order def = Inr order \<Longrightarrow> length order = length (d_nodes def)"
  by (auto simp: topo_order_Inr_iff node_names_def)

lemma start_walk_returns:
  assumes "validate_def def inp = None"
  shows "\<exists>y. start_walk lv rid def cfg input rs = Some y"
proof -
  obtain order where o: "topo_order def = Inr order" and "exactly_one_entry def = None"
    using assms by (auto simp: validate_def_None_iff)
  then have "entry_node def \<in> set order"
    using entry_node_in(1) topo_order_facts(2) [OF o] by simp
  then show ?thesis
    unfolding start_walk_def by (intro walk_returns [OF o]) (simp_all add: length_order [OF o])
qed

lemma run_workflow_total: "\<exists>y. run_workflow lv new_id def input cfg rs = Some y"
  using start_walk_returns [of def "if input = None then Some [] else input"]
  by (auto simp: run_workflow_def Let_def split: option.split sum.split prod.split)

lemma run_workflow_rows:
  assumes "run_workflow lv new_id def input cfg rs = Some (x, rs')"
  defines "rid \<equiv> run_id_of new_id cfg"
    and "cfg' \<equiv> cfg\<lparr>cf_resume := resume_snapshot def cfg (rs_db rs)\<rparr>"
  shows "other_runs rid (rs_db rs') = other_runs rid (rs_db rs)"
    "reports rid def x (rs_db rs')"
    "\<exists>new. outs (rs_db rs') = outs (rs_db rs) @ new \<and> distinct (map no_node new)
       \<and> (\<forall>r\<in>set new. row_of_run cfg' def rid r)"
    "(\<exists>f. x = Inl f) \<or> length (run_status rid (rs_db rs')) =
       length (run_status rid (rs_db rs)) + (if cf_run_id cfg = [] then 1 else 0)
       \<and> (cf_run_id cfg = [] \<longrightarrow> run_status rid (rs_db rs) = [])"
proof -
  have "other_runs rid (rs_db rs') = other_runs rid (rs_db rs) \<and> reports rid def x (rs_db rs')
      \<and> (\<exists>new. outs (rs_db rs') = outs (rs_db rs) @ new \<and> distinct (map no_node new)
           \<and> (\<forall>r\<in>set new. row_of_run cfg' def rid r))
      \<and> ((\<exists>f. x = Inl f) \<or> length (run_status rid (rs_db rs')) =
         length (run_status rid (rs_db rs)) + (if cf_run_id cfg = [] then 1 else 0)
         \<and> (cf_run_id cfg = [] \<longrightarrow> run_status rid (rs_db rs) = []))"
    using assms(1)
  proof (cases rule: run_workflow_start)
    case (refused f)
    then show ?thesis by (auto simp: run_refused_def rid_def)
  next
    case (walked input' rs1)
    then obtain order where o: "topo_order def = Inr order" by blast
    obtain rs0 where w: "walk lv rid def cfg' (Suc (length (d_nodes def))) (entry_node def) None rs0 = Some (x, rs')"
      and db: "rs_db rs0 = rs_db rs1"
      using start_walk_eq [OF walked(5)] by (auto simp: rid_def cfg'_def)
    have "entry_node def \<in> set order"
      using walked(3) topo_order_facts(2) [OF o] by simp
    from walk_appends [OF o w this] obtain new where
      new: "outs (rs_db rs') = outs (rs_db rs) @ new" "\<forall>r\<in>set new. row_of_run cfg' def rid r"
        "sorted_wrt (\<lambda>a b. rank order (no_node a) < rank order (no_node b)) new"
      using db walked(1) by (auto simp: walk_rows_def run_prepared_def)
    have "distinct (map no_node new)"
      using new(3) by (induction new) auto
    with new walk_frame [OF w] db walked(1) show ?thesis
      by (auto simp: db.frame_def run_prepared_def rid_def)
  qed
  then show "other_runs rid (rs_db rs') = other_runs rid (rs_db rs)"
    "reports rid def x (rs_db rs')"
    "\<exists>new. outs (rs_db rs') = outs (rs_db rs) @ new \<and> distinct (map no_node new)
       \<and> (\<forall>r\<in>set new. row_of_run cfg' def rid r)"
    "(\<exists>f. x = Inl f) \<or> length (run_status rid (rs_db rs')) =
       length (run_status rid (rs_db rs)) + (if cf_run_id cfg = [] then 1 else 0)
       \<and> (cf_run_id cfg = [] \<longrightarrow> run_status rid (rs_db rs) = [])" by blast+
qed

lemma run_workflow_starts:
  assumes "run_workflow lv new_id def input cfg rs = Some (x, rs')" and "cf_sink cfg"
  shows "\<exists>p. starts (rs_events rs') = starts (rs_events rs) @ p \<and> (p = [] \<or> hd p = entry_node def)
    \<and> successively (\<lambda>a b. (a, b) \<in> edge_rel (d_edges def)) p \<and> distinct p"
  using assms(1)
proof (cases rule: run_workflow_start)
  case (refused f)
  then show ?thesis by (intro exI [of _ "[]"]) simp
next
  case (walked input' rs1)
  then obtain order where o: "topo_order def = Inr order" by blast
  let ?cfg = "cfg\<lparr>cf_resume := resume_snapshot def cfg (rs_db rs)\<rparr>"
  obtain rs0 where
    w: "walk lv (run_id_of new_id cfg) def ?cfg (Suc (length (d_nodes def))) (entry_node def) None rs0 = Some (x, rs')"
    and ev: "rs_events rs0 = rs_events rs"
    using start_walk_eq [OF walked(5)] walked(4) by auto
  obtain p where "starts (rs_events rs') = starts (rs_events rs) @ p" "p = [] \<or> hd p = entry_node def"
    "successively (\<lambda>a b. (a, b) \<in> edge_rel (d_edges def)) p"
    using walk_starts [OF _ w] assms(2) ev by auto
  then show ?thesis
    using path_distinct [OF topo_order_acyclic [OF o]] by blast
qed

text \<open>What the snapshot says of a node: its latest row.\<close>

definition latest_of :: "string \<Rightarrow> string \<Rightarrow> 'e wf_db \<Rightarrow> 'e out_row option" where
  "latest_of rid n db = map_of (latest_rows [] (run_outputs rid db)) n"

lemma latest_of_None: "latest_of rid n db = None \<longleftrightarrow> (\<forall>r\<in>set (outs db). no_run r = rid \<longrightarrow> no_node r \<noteq> n)"
  using latest_rows_is_latest [of "run_outputs rid db" n]
  by (auto simp: latest_of_def is_latest_def set_run_outputs split: option.splits)

lemma latest_of_Some:
  assumes "latest_of rid n db = Some q"
  shows "q \<in> set (outs db)" "no_run q = rid" "no_node q = n"
    "\<And>r. r \<in> set (outs db) \<Longrightarrow> no_run r = rid \<Longrightarrow> no_node r = n \<Longrightarrow> no_attempt r \<le> no_attempt q"
  using latest_rows_is_latest [of "run_outputs rid db" n] assms
  by (auto simp: latest_of_def is_latest_def set_run_outputs)

text \<open>\<open>may_run\<close>: the node neither succeeded before nor is it a failed one that must not be repeated.\<close>

definition may_run :: "wf_def \<Rightarrow> string \<Rightarrow> string \<Rightarrow> 'e wf_db \<Rightarrow> bool" where
  "may_run def rid n db \<longleftrightarrow>
     (case latest_of rid n db of
        None \<Rightarrow> True
      | Some q \<Rightarrow> no_status q \<noteq> StatusSucceeded
          \<and> \<not> (no_status q = StatusFailed \<and> n_side (node_by_name def n) = SideNonIdempotent))"

definition attempt_after :: "string \<Rightarrow> string \<Rightarrow> 'e wf_db \<Rightarrow> int" where
  "attempt_after rid n db = (case latest_of rid n db of None \<Rightarrow> 1 | Some q \<Rightarrow> no_attempt q + 1)"

lemma row_of_run_resumed:
  assumes "row_of_run (cfg\<lparr>cf_resume := resume_snapshot def cfg db\<rparr>) def rid r"
    and "rid = run_id_of new_id cfg"
    and "cf_run_id cfg = [] \<longrightarrow> (\<forall>q\<in>set (outs db). no_run q \<noteq> rid)"
  shows "no_run r = rid" "no_attempt r = attempt_after rid (no_node r) db" "may_run def rid (no_node r) db"
proof -
  have snap: "map_of (resume_snapshot def cfg db) n = map_option (row_output def n) (latest_of rid n db)" for n
  proof (cases "cf_run_id cfg = []")
    case True
    with assms(3) have "latest_of rid n db = None" by (simp add: latest_of_None)
    with True show ?thesis by (simp add: resume_snapshot_def)
  qed (use assms(2) in \<open>simp add: resume_snapshot_def map_of_snapshot latest_of_def run_id_of_def\<close>)
  show "no_run r = rid" "no_attempt r = attempt_after rid (no_node r) db"
    using assms(1) snap
    by (auto simp: row_of_run_def next_attempt_def attempt_after_def row_output_def split: option.splits)
  show "may_run def rid (no_node r) db"
    using assms(1) snap
    by (auto simp: row_of_run_def closed_node_def succeeded_before_def refused_def may_run_def
        row_output_def split: option.splits)
qed

lemma run_workflow_shape:
  assumes "run_workflow lv new_id def input cfg rs = Some (Inr res, rs')"
  shows "well_shaped cfg def res"
  using assms
proof (cases rule: run_workflow_start)
  case (walked input' rs1)
  then have "well_shaped (cfg\<lparr>cf_resume := resume_snapshot def cfg (rs_db rs)\<rparr>) def res"
    using start_walk_eq walk_shape by metis
  then show ?thesis by (simp add: well_shaped_def split: status.splits)
qed simp

section \<open>The example runs\<close>

lemma ex_run_view:
  "case ex_run SideIdempotent False of
     None \<Rightarrow> False
   | Some (x, f) \<Rightarrow>
      (case x of Inl _ \<Rightarrow> False | Inr res \<Rightarrow> r_status res = StatusSucceeded)
      \<and> starts (rs_events f) = [''find'', ''yes''] \<and> rs_world f = (1, False)"
  by code_simp

lemma ex_run_res:
  obtains res f where "ex_run SideIdempotent False = Some (Inr res, f)"
    "r_status res = StatusSucceeded" "starts (rs_events f) = [''find'', ''yes'']"
  using ex_run_view by (auto split: option.splits sum.splits)

lemma ex_resume_view:
  "case ex_run SideIdempotent True of
     None \<Rightarrow> False
   | Some (x, f) \<Rightarrow>
      (case ex_resume SideIdempotent False f of
         None \<Rightarrow> False
       | Some (x2, f2) \<Rightarrow>
           map (\<lambda>r. (no_node r, no_attempt r)) (outs (rs_db f)) = [(''find'', 1)]
           \<and> map (\<lambda>r. (no_node r, no_attempt r)) (outs (rs_db f2)) =
               [(''find'', 1), (''find'', 2), (''yes'', 1)])"
  by code_simp

section \<open>Claims\<close>


text \<open>
  C13. The log of node outputs is append-only, and one run writes each node at most once. A run
  adds rows to the end of the table and changes no other; they are rows of this run, of
  pairwise different nodes; the attempt number of each is one more than the highest attempt
  that the run had for the node (1 when it had none); and no row is written for a node whose
  latest attempt succeeded, or failed and is non-idempotent. The id of a fresh run is unused.
\<close>

theorem run_appends_next_attempts:
  assumes "run_workflow lv new_id def input cfg rs = Some (outcome, final)"
    and "cf_run_id cfg = [] \<longrightarrow> (\<forall>q\<in>set (outs (rs_db rs)). no_run q \<noteq> new_id)"
  shows "\<exists>new. outs (rs_db final) = outs (rs_db rs) @ new \<and> distinct (map no_node new)
    \<and> (\<forall>r\<in>set new. no_run r = run_id_of new_id cfg
         \<and> no_attempt r = attempt_after (run_id_of new_id cfg) (no_node r) (rs_db rs)
         \<and> may_run def (run_id_of new_id cfg) (no_node r) (rs_db rs))"
proof -
  have fresh: "cf_run_id cfg = [] \<longrightarrow> (\<forall>q\<in>set (outs (rs_db rs)). no_run q \<noteq> run_id_of new_id cfg)"
    using assms(2) by (simp add: run_id_of_def)
  show ?thesis
    using run_workflow_rows(3) [OF assms(1)] row_of_run_resumed [OF _ refl fresh] by blast
qed

lemma run_appends_next_attempts_witness:
  "\<exists>f x2 f2 new.
     ex_resume SideIdempotent False f = Some (x2, f2)
     \<and> outs (rs_db f2) = outs (rs_db f) @ new \<and> map no_node new = [''find'', ''yes'']
     \<and> (\<forall>r\<in>set new. no_attempt r = attempt_after ''r1'' (no_node r) (rs_db f))
     \<and> map no_attempt new = [2, 1]"
proof -
  obtain x f x2 f2 where r: "ex_run SideIdempotent True = Some (x, f)"
    "ex_resume SideIdempotent False f = Some (x2, f2)"
    "map (\<lambda>r. (no_node r, no_attempt r)) (outs (rs_db f)) = [(''find'', 1)]"
    "map (\<lambda>r. (no_node r, no_attempt r)) (outs (rs_db f2)) =
       [(''find'', 1), (''find'', 2), (''yes'', 1)]"
    using ex_resume_view by (auto split: option.splits)
  have "cf_run_id (resume_config ''r1'' [] None ''me'' True) \<noteq> []"
    by (simp add: resume_config_def)
  then obtain new where n: "outs (rs_db f2) = outs (rs_db f) @ new"
    "\<forall>q\<in>set new. no_attempt q = attempt_after ''r1'' (no_node q) (rs_db f)"
    using run_appends_next_attempts [OF r(2) [unfolded ex_resume_def]]
    by (auto simp: run_id_of_def resume_config_def)
  then have "map (\<lambda>r. (no_node r, no_attempt r)) new = [(''find'', 2), (''yes'', 1)]"
    using r(3,4) by simp
  then have "map fst (map (\<lambda>r. (no_node r, no_attempt r)) new) = [''find'', ''yes'']"
    "map snd (map (\<lambda>r. (no_node r, no_attempt r)) new) = [2, 1]" by simp_all
  then have "map no_node new = [''find'', ''yes'']" "map no_attempt new = [2, 1]"
    by (simp_all add: o_def)
  with n r(2) show ?thesis by (intro exI conjI)
qed

text \<open>
  A run touches no other run: the rows of \<^verbatim>\<open>workflow_runs\<close> with another id are, in
  their order, exactly what they were.
\<close>

lemma run_leaves_other_runs:
  assumes "run_workflow lv new_id def input cfg rs = Some (outcome, final)"
  shows "other_runs (run_id_of new_id cfg) (rs_db final) = other_runs (run_id_of new_id cfg) (rs_db rs)"
  by (rule run_workflow_rows(1) [OF assms])

lemma run_leaves_other_runs_witness:
  "\<exists>x f. ex_run SideIdempotent False = Some (x, f) \<and> other_runs ''r1'' (rs_db f) = []"
proof -
  obtain res f where r: "ex_run SideIdempotent False = Some (Inr res, f)" by (rule ex_run_res)
  from run_leaves_other_runs [OF r [unfolded ex_run_def]] r show ?thesis
    by (auto simp: run_id_of_def fresh_config_def ex_state_def ex_db_def other_runs_def)
qed

text \<open>
  C12. What a run returns is what it left in the database: the result carries the id of the run,
  its status is the status of the run's row (the one row a fresh run created, or the row it
  resumed), and its snapshot is what the persisted node outputs of the run give.
\<close>

theorem run_result_is_persisted:
  assumes "run_workflow lv new_id def input cfg rs = Some (Inr res, final)"
  shows "r_run_id res = run_id_of new_id cfg
    \<and> r_snapshot res = snapshot_of def (run_outputs (r_run_id res) (rs_db final))
    \<and> run_status (r_run_id res) (rs_db final) =
        (if cf_run_id cfg = [] then [r_status res]
         else map (\<lambda>_. r_status res) (run_status (r_run_id res) (rs_db rs)))"
proof -
  let ?rid = "run_id_of new_id cfg"
  have rep: "r_run_id res = ?rid" "r_snapshot res = snapshot_of def (run_outputs ?rid (rs_db final))"
    "set (run_status ?rid (rs_db final)) \<subseteq> {r_status res}"
    using run_workflow_rows(2) [OF assms] by (auto simp: reports_def)
  have len: "length (run_status ?rid (rs_db final)) =
      (if cf_run_id cfg = [] then 1 else length (run_status ?rid (rs_db rs)))"
    using run_workflow_rows(4) [OF assms] by auto
  have "run_status ?rid (rs_db final) =
      replicate (length (run_status ?rid (rs_db final))) (r_status res)"
    using rep(3) by (intro replicate_eqI) auto
  then show ?thesis
    using rep(1,2) len by (simp add: map_replicate_const split: if_splits)
qed

lemma run_result_is_persisted_witness:
  "\<exists>res f. ex_run SideIdempotent False = Some (Inr res, f) \<and> run_status ''r1'' (rs_db f) = [StatusSucceeded]"
proof -
  obtain res f where r: "ex_run SideIdempotent False = Some (Inr res, f)" "r_status res = StatusSucceeded"
    by (rule ex_run_res)
  with run_result_is_persisted [OF r(1) [unfolded ex_run_def]] show ?thesis
    by (auto simp: run_id_of_def fresh_config_def)
qed

text \<open>
  C40. Every result is well shaped: it is succeeded without an error or a pending form, failed
  or in need of intervention with the node and the error and without a result, or waiting at a
  form node with the schema of that node; a run without an interactive owner (no owner, or the
  system) never waits; and no result is left running.
\<close>

theorem run_result_well_shaped:
  assumes "run_workflow lv new_id def input cfg rs = Some (Inr res, final)"
  shows "well_shaped cfg def res"
  by (rule run_workflow_shape [OF assms])

lemma run_result_well_shaped_witness:
  "\<exists>res f. ex_run SideIdempotent False = Some (Inr res, f) \<and> r_error res = None \<and> r_pending res = None"
proof -
  obtain res f where r: "ex_run SideIdempotent False = Some (Inr res, f)" "r_status res = StatusSucceeded"
    by (rule ex_run_res)
  with run_result_well_shaped [OF r(1) [unfolded ex_run_def]] show ?thesis
    by (auto simp: well_shaped_def)
qed

text \<open>
  The nodes a run starts (in the order the sink is told) form a path of the graph that
  begins at the entry node, and no node is started twice.
\<close>

lemma run_starts_path:
  assumes "run_workflow lv new_id def input cfg rs = Some (outcome, final)" and "cf_sink cfg"
  shows "\<exists>p. starts (rs_events final) = starts (rs_events rs) @ p
    \<and> (p = [] \<or> hd p = entry_node def)
    \<and> successively (\<lambda>a b. (a, b) \<in> edge_rel (d_edges def)) p \<and> distinct p"
  by (rule run_workflow_starts [OF assms])

lemma run_starts_path_witness:
  "\<exists>x f. ex_run SideIdempotent False = Some (x, f) \<and> starts (rs_events f) = [''find'', ''yes'']
     \<and> successively (\<lambda>a b. (a, b) \<in> edge_rel (d_edges (ex_def SideIdempotent))) [''find'', ''yes'']"
proof -
  obtain res f where r: "ex_run SideIdempotent False = Some (Inr res, f)"
    "starts (rs_events f) = [''find'', ''yes'']"
    by (rule ex_run_res)
  then show ?thesis
    using run_starts_path [OF r(1) [unfolded ex_run_def]]
    by (auto simp: fresh_config_def ex_state_def)
qed

text \<open>
  A workflow whose schema has a required input cannot be resumed: the service resumes with a
  nil input, \<^verbatim>\<open>Run\<close> validates that input before it reads the persisted one, and so
  every resume of such a workflow returns a validation error and changes nothing.
\<close>

lemma resume_with_required_input_fails:
  assumes "map_of defs wid = Some def" and "required_names (d_schema def) \<noteq> []"
  shows "\<exists>e. resume_workflow_stream defs lv new_id wid rid form_node form_values owner sink rs =
           Some (Inl (ValidateFault e), rs)"
proof -
  have "entries (d_schema def) \<noteq> []"
    using assms(2) by (auto simp: required_names_def mget_def)
  then have "validate_input def (Some []) \<noteq> None"
    using assms(2)
    by (simp add: validate_input_def validate_against_schema_None_iff conforms_def mget_def entries_def)
  then have "validate_def def (Some []) \<noteq> None"
    by (simp add: validate_def_None_iff)
  with assms(1) show ?thesis
    by (auto simp: resume_workflow_stream_def run_workflow_def Let_def split: option.splits)
qed

lemma resume_with_required_input_fails_witness:
  "\<exists>e. resume_workflow_stream
         [(''wf'', (ex_def SidePure)\<lparr>d_schema := Some [(''required'', GList [GStr ''q''])]\<rparr>)]
         ex_leaves ''r2'' ''wf'' ''r1'' [] None ''me'' False (ex_state False) =
       Some (Inl (ValidateFault e), ex_state False)"
  by (rule resume_with_required_input_fails
      [of _ _ "(ex_def SidePure)\<lparr>d_schema := Some [(''required'', GList [GStr ''q''])]\<rparr>"])
    (simp_all add: required_names_def mget_def entries_def as_str_def)

end
