(* ===== verification/Patch_Parse.thy ===== *)
theory Patch_Parse
  imports Go_Strings
begin

text \<open>
  The patch language of the \<^verbatim>\<open>apply_patch\<close> tool
  (\<^verbatim>\<open>internal/agent/tools/apply_patch.go\<close>): its syntax tree, the parser
  (\<^verbatim>\<open>parsePatch\<close>), a printer, and the proof that the parser reads back what the printer
  writes.
\<close>

section \<open>Syntax\<close>

datatype patch_op_type = OpAdd | OpUpdate | OpDelete

datatype line_kind = LineContext | LineAdd | LineRemove

record hunk_line =
  hl_kind :: line_kind
  hl_text :: string

record hunk =
  h_lines :: "hunk_line list"
  h_eof :: bool

record patch_op =
  po_type :: patch_op_type
  po_path :: string
  po_move :: string
  po_body :: string
  po_hunks :: "hunk list"

definition begin_patch :: string where "begin_patch = ''*** Begin Patch''"
definition end_patch :: string where "end_patch = ''*** End Patch''"
definition add_prefix :: string where "add_prefix = ''*** Add File: ''"
definition update_prefix :: string where "update_prefix = ''*** Update File: ''"
definition delete_prefix :: string where "delete_prefix = ''*** Delete File: ''"
definition move_prefix :: string where "move_prefix = ''*** Move to: ''"
definition end_of_file :: string where "end_of_file = ''*** End of File''"
definition hunk_sep :: string where "hunk_sep = ''@@''"

abbreviation newline :: char where "newline \<equiv> CHR 0x0A"

datatype patch_error =
    MissingBegin
  | MissingEnd
  | EmptyPatch
  | MoveOutside string
  | MoveTwice string
  | MoveAfterHunk string string
  | EofOutside
  | HunkOutside
  | LineOutside string
  | BadAddLine string
  | BadDeleteLine string
  | BadHunkLine string

section \<open>The parser\<close>

text \<open>The variables of the loop: the finished operations, the open one and its open hunk.\<close>

record parse_state =
  ps_ops :: "patch_op list"
  ps_op :: "patch_op option"
  ps_hunk :: "hunk option"

definition new_op :: "patch_op_type \<Rightarrow> string \<Rightarrow> patch_op" where
  "new_op t path = \<lparr>po_type = t, po_path = path, po_move = [], po_body = [], po_hunks = []\<rparr>"

definition empty_hunk :: hunk where
  "empty_hunk = \<lparr>h_lines = [], h_eof = False\<rparr>"

definition add_hunk :: "hunk option \<Rightarrow> patch_op \<Rightarrow> patch_op" where
  "add_hunk h p = (case h of None \<Rightarrow> p | Some x \<Rightarrow> p\<lparr>po_hunks := po_hunks p @ [x]\<rparr>)"

definition flush_op :: "parse_state \<Rightarrow> parse_state" where
  "flush_op ps =
     (case ps_op ps of
        None \<Rightarrow> ps
      | Some p \<Rightarrow> \<lparr>ps_ops = ps_ops ps @ [add_hunk (ps_hunk ps) p], ps_op = None, ps_hunk = None\<rparr>)"

definition start_op :: "patch_op_type \<Rightarrow> string \<Rightarrow> string \<Rightarrow> parse_state \<Rightarrow> parse_state" where
  "start_op t pre line ps =
     (flush_op ps)\<lparr>ps_op := Some (new_op t (trim_space (drop (length pre) line)))\<rparr>"

definition is_update :: "patch_op option \<Rightarrow> bool" where
  "is_update p = (case p of Some x \<Rightarrow> po_type x = OpUpdate | None \<Rightarrow> False)"

definition push_line :: "line_kind \<Rightarrow> string \<Rightarrow> parse_state \<Rightarrow> parse_state" where
  "push_line k text ps =
     (let h = (case ps_hunk ps of None \<Rightarrow> empty_hunk | Some h \<Rightarrow> h)
      in ps\<lparr>ps_hunk := Some (h\<lparr>h_lines := h_lines h @ [\<lparr>hl_kind = k, hl_text = text\<rparr>]\<rparr>)\<rparr>)"

definition parse_move :: "string \<Rightarrow> parse_state \<Rightarrow> (patch_error, parse_state) res" where
  "parse_move line ps =
     (case ps_op ps of
        None \<Rightarrow> Inl (MoveOutside (trim_space line))
      | Some p \<Rightarrow>
         (if po_type p \<noteq> OpUpdate then Inl (MoveOutside (trim_space line))
          else if po_move p \<noteq> [] then Inl (MoveTwice (po_path p))
          else if po_hunks p \<noteq> [] \<or> ps_hunk ps \<noteq> None then Inl (MoveAfterHunk (trim_space line) (po_path p))
          else Inr (ps\<lparr>ps_op := Some (p\<lparr>po_move := trim_space (drop (length move_prefix) line)\<rparr>)\<rparr>)))"

definition parse_eof :: "parse_state \<Rightarrow> (patch_error, parse_state) res" where
  "parse_eof ps =
     (case (ps_op ps, ps_hunk ps) of
        (Some p, Some h) \<Rightarrow>
          (if po_type p = OpUpdate
           then Inr (ps\<lparr>ps_op := Some (add_hunk (Some (h\<lparr>h_eof := True\<rparr>)) p), ps_hunk := None\<rparr>)
           else Inl EofOutside)
      | _ \<Rightarrow> Inl EofOutside)"

definition parse_sep :: "parse_state \<Rightarrow> (patch_error, parse_state) res" where
  "parse_sep ps =
     (case ps_op ps of
        None \<Rightarrow> Inl HunkOutside
      | Some p \<Rightarrow>
         (if po_type p = OpUpdate
          then Inr (ps\<lparr>ps_op := Some (add_hunk (ps_hunk ps) p), ps_hunk := Some empty_hunk\<rparr>)
          else Inl HunkOutside))"

definition parse_hunk_line :: "string \<Rightarrow> parse_state \<Rightarrow> (patch_error, parse_state) res" where
  "parse_hunk_line line ps =
     (case line of
        [] \<Rightarrow> Inr (push_line LineContext [] ps)
      | c # text \<Rightarrow>
         (if c = CHR '' '' then Inr (push_line LineContext text ps)
          else if c = CHR ''+'' then Inr (push_line LineAdd text ps)
          else if c = CHR ''-'' then Inr (push_line LineRemove text ps)
          else Inl (BadHunkLine line)))"

definition parse_body :: "string \<Rightarrow> parse_state \<Rightarrow> (patch_error, parse_state) res" where
  "parse_body line ps =
     (case ps_op ps of
        None \<Rightarrow> if trim_space line = [] then Inr ps else Inl (LineOutside line)
      | Some p \<Rightarrow>
         (case po_type p of
            OpAdd \<Rightarrow>
              (if has_prefix line ''+''
               then Inr (ps\<lparr>ps_op := Some (p\<lparr>po_body := po_body p @ tl line @ [newline]\<rparr>)\<rparr>)
               else Inl (BadAddLine line))
          | OpDelete \<Rightarrow> if trim_space line = [] then Inr ps else Inl (BadDeleteLine line)
          | OpUpdate \<Rightarrow> parse_hunk_line line ps))"

text \<open>One line before the end marker.\<close>

definition parse_line :: "string \<Rightarrow> parse_state \<Rightarrow> (patch_error, parse_state) res" where
  "parse_line line ps =
     (if has_prefix line add_prefix then Inr (start_op OpAdd add_prefix line ps)
      else if has_prefix line update_prefix then Inr (start_op OpUpdate update_prefix line ps)
      else if has_prefix line delete_prefix then Inr (start_op OpDelete delete_prefix line ps)
      else if has_prefix line move_prefix then parse_move line ps
      else if trim_space line = end_of_file then parse_eof ps
      else if has_prefix line hunk_sep then parse_sep ps
      else parse_body line ps)"

fun parse_lines :: "parse_state \<Rightarrow> string list \<Rightarrow> (patch_error, patch_op list) res" where
  "parse_lines ps [] = Inl MissingEnd"
| "parse_lines ps (line # ls) =
     (if trim_space line = end_patch
      then (let ops = ps_ops (flush_op ps) in if ops = [] then Inl EmptyPatch else Inr ops)
      else case parse_line line ps of
        Inl e \<Rightarrow> Inl e
      | Inr ps' \<Rightarrow> parse_lines ps' ls)"

definition initial_parse :: parse_state where
  "initial_parse = \<lparr>ps_ops = [], ps_op = None, ps_hunk = None\<rparr>"

definition parse_patch :: "string \<Rightarrow> (patch_error, patch_op list) res" where
  "parse_patch input =
     (let trimmed = trim_space input in
      if \<not> has_prefix trimmed begin_patch then Inl MissingBegin
      else
        (let ls = split_str trimmed [newline]; ls' = (if last ls = [] then butlast ls else ls)
         in parse_lines initial_parse (tl ls')))"

section \<open>A printer\<close>

fun print_line :: "hunk_line \<Rightarrow> string" where
  "print_line l =
     (case hl_kind l of LineContext \<Rightarrow> CHR '' '' | LineAdd \<Rightarrow> CHR ''+'' | LineRemove \<Rightarrow> CHR ''-'')
       # hl_text l"

definition print_hunk :: "hunk \<Rightarrow> string list" where
  "print_hunk h = hunk_sep # map print_line (h_lines h) @ (if h_eof h then [end_of_file] else [])"

definition body_lines :: "string \<Rightarrow> string list" where
  "body_lines b = (if b = [] then [] else split_str (butlast b) [newline])"

definition print_op :: "patch_op \<Rightarrow> string list" where
  "print_op p =
     (case po_type p of
        OpAdd \<Rightarrow> (add_prefix @ po_path p) # map ((#) CHR ''+'') (body_lines (po_body p))
      | OpDelete \<Rightarrow> [delete_prefix @ po_path p]
      | OpUpdate \<Rightarrow>
          (update_prefix @ po_path p)
            # (if po_move p = [] then [] else [move_prefix @ po_move p])
            @ concat (map print_hunk (po_hunks p)))"

definition print_patch :: "patch_op list \<Rightarrow> string" where
  "print_patch ops = join_str (begin_patch # concat (map print_op ops) @ [end_patch]) [newline]"

section \<open>Patches that can be printed\<close>

text \<open>
  A path is one line without white space around it; a hunk line is one line, and a context line
  does not read as one of the two markers that are recognised after trimming.
\<close>

definition ok_path :: "string \<Rightarrow> bool" where
  "ok_path p \<longleftrightarrow> trim_space p = p \<and> newline \<notin> set p"

definition ok_line :: "hunk_line \<Rightarrow> bool" where
  "ok_line l \<longleftrightarrow> newline \<notin> set (hl_text l)
     \<and> (hl_kind l = LineContext \<longrightarrow> trim_space (hl_text l) \<notin> {end_patch, end_of_file})"

definition ok_op :: "patch_op \<Rightarrow> bool" where
  "ok_op p \<longleftrightarrow> ok_path (po_path p) \<and> ok_path (po_move p)
     \<and> (po_type p \<noteq> OpUpdate \<longrightarrow> po_move p = [] \<and> po_hunks p = [])
     \<and> (po_type p \<noteq> OpAdd \<longrightarrow> po_body p = [])
     \<and> (po_body p = [] \<or> last (po_body p) = newline)
     \<and> (\<forall>h\<in>set (po_hunks p). \<forall>l\<in>set (h_lines h). ok_line l)"

section \<open>Reading back\<close>

lemmas marker_defs = begin_patch_def end_patch_def add_prefix_def update_prefix_def delete_prefix_def
  move_prefix_def end_of_file_def hunk_sep_def

lemma trim_right_prefix: "has_prefix s (trim_right s)"
proof (induction s rule: trim_right.induct)
  case (1 s)
  let ?t = "take (length s - snd (decode_last_rune s)) s"
  show ?case
  proof (cases "s \<noteq> [] \<and> is_space (fst (decode_last_rune s))")
    case True
    then have "trim_right s = trim_right ?t" by (subst trim_right.simps) simp
    moreover obtain r where "?t = trim_right ?t @ r"
      using "1.IH" [OF True] by (auto simp: has_prefix_iff)
    ultimately have "s = trim_right s @ r @ drop (length s - snd (decode_last_rune s)) s"
      by (metis append.assoc append_take_drop_id)
    then show ?thesis by (metis has_prefix_append)
  next
    case False
    then show ?thesis by (subst trim_right.simps) (metis append_Nil2 has_prefix_append)
  qed
qed

lemma trim_visible_prefix: "visible c \<Longrightarrow> has_prefix (c # s) (trim_space (c # s))"
  by (simp add: trim_space_def trim_left_Cons_ascii trim_right_prefix)

lemma trim_space_Cons: "trim_space (CHR '' '' # s) = trim_space s"
  by (simp add: trim_space_def trim_left_Cons_ascii is_space_def)

lemma trim_other:
  assumes "visible c" and "\<not> has_prefix (c # s) m"
  shows "trim_space (c # s) \<noteq> m"
  using trim_visible_prefix [OF assms(1), of s] assms(2) by auto

lemma star_line_trim:
  "trim_space (add_prefix @ p) \<noteq> end_patch" "trim_space (update_prefix @ p) \<noteq> end_patch"
  "trim_space (delete_prefix @ p) \<noteq> end_patch" "trim_space (move_prefix @ p) \<noteq> end_patch"
  unfolding marker_defs append_Cons
  by (rule trim_other; simp add: visible_def)+

lemma plus_line_trim: "trim_space (CHR ''+'' # t) \<notin> {end_patch, end_of_file}"
  "trim_space (CHR ''-'' # t) \<notin> {end_patch, end_of_file}"
  unfolding marker_defs using trim_other [of "CHR ''+''" t] trim_other [of "CHR ''-''" t]
  by (auto simp: visible_def)

lemma parse_op_line:
  "parse_line (add_prefix @ p) ps = Inr ((flush_op ps)\<lparr>ps_op := Some (new_op OpAdd (trim_space p))\<rparr>)"
  "parse_line (update_prefix @ p) ps = Inr ((flush_op ps)\<lparr>ps_op := Some (new_op OpUpdate (trim_space p))\<rparr>)"
  "parse_line (delete_prefix @ p) ps = Inr ((flush_op ps)\<lparr>ps_op := Some (new_op OpDelete (trim_space p))\<rparr>)"
  "parse_line (move_prefix @ p) ps = parse_move (move_prefix @ p) ps"
  by (simp_all add: parse_line_def start_op_def marker_defs)

lemma parse_plain_line:
  assumes "c \<in> {CHR ''+'', CHR ''-'', CHR '' ''}" and "trim_space (c # t) \<noteq> end_of_file"
  shows "parse_line (c # t) ps = parse_body (c # t) ps"
  using assms by (auto simp: parse_line_def marker_defs)

lemma parse_lines_step:
  "trim_space l \<noteq> end_patch \<Longrightarrow> parse_line l ps = Inr ps' \<Longrightarrow> parse_lines ps (l # ls) = parse_lines ps' ls"
  by simp

lemma eof_line:
  "trim_space end_of_file = end_of_file" "trim_space end_of_file \<noteq> end_patch"
  "parse_line end_of_file ps = parse_eof ps"
proof -
  show t: "trim_space end_of_file = end_of_file"
    by (rule trim_space_visible) (simp_all add: marker_defs visible_def)
  show "trim_space end_of_file \<noteq> end_patch" unfolding t by (simp add: marker_defs)
  show "parse_line end_of_file ps = parse_eof ps"
    using t by (simp add: parse_line_def) (simp add: marker_defs)
qed

lemma sep_line: "trim_space hunk_sep \<noteq> end_patch" "parse_line hunk_sep ps = parse_sep ps"
proof -
  have "trim_space hunk_sep = hunk_sep"
    by (rule trim_space_visible) (simp_all add: marker_defs visible_def)
  then show "trim_space hunk_sep \<noteq> end_patch" "parse_line hunk_sep ps = parse_sep ps"
    by (simp_all add: parse_line_def marker_defs)
qed

text \<open>The lines of an open hunk.\<close>

lemma read_hunk_lines:
  assumes "po_type p = OpUpdate" and "\<forall>l\<in>set hls. ok_line l"
  shows "parse_lines \<lparr>ps_ops = ops, ps_op = Some p, ps_hunk = Some h\<rparr> (map print_line hls @ ls) =
    parse_lines \<lparr>ps_ops = ops, ps_op = Some p, ps_hunk = Some (h\<lparr>h_lines := h_lines h @ hls\<rparr>)\<rparr> ls"
  using assms(2)
proof (induction hls arbitrary: h)
  case (Cons l hls)
  let ?ps = "\<lparr>ps_ops = ops, ps_op = Some p, ps_hunk = Some h\<rparr>"
  let ?h = "h\<lparr>h_lines := h_lines h @ [l]\<rparr>"
  obtain k t where l: "l = \<lparr>hl_kind = k, hl_text = t\<rparr>" by (cases l)
  have trim: "trim_space (print_line l) \<noteq> end_patch" "trim_space (print_line l) \<noteq> end_of_file"
    using Cons.prems plus_line_trim l by (auto simp: ok_line_def trim_space_Cons split: line_kind.split)
  have "parse_line (print_line l) ?ps = Inr (?ps\<lparr>ps_hunk := Some ?h\<rparr>)"
    using trim(2) assms(1) l
    by (auto simp: parse_plain_line parse_body_def parse_hunk_line_def push_line_def split: line_kind.splits)
  from parse_lines_step [OF trim(1) this] Cons.IH [of ?h] Cons.prems show ?case by simp
qed simp

lemma read_eof:
  assumes "po_type q = OpUpdate"
  shows "parse_lines \<lparr>ps_ops = ops, ps_op = Some q, ps_hunk = Some h\<rparr> (end_of_file # ls) =
    parse_lines \<lparr>ps_ops = ops, ps_op = Some (add_hunk (Some (h\<lparr>h_eof := True\<rparr>)) q), ps_hunk = None\<rparr> ls"
  by (rule parse_lines_step [OF eof_line(2)]) (simp add: eof_line parse_eof_def assms)

lemma read_sep:
  assumes "po_type p = OpUpdate"
  shows "parse_lines \<lparr>ps_ops = ops, ps_op = Some p, ps_hunk = g\<rparr> (hunk_sep # ls) =
    parse_lines \<lparr>ps_ops = ops, ps_op = Some (add_hunk g p), ps_hunk = Some empty_hunk\<rparr> ls"
  by (rule parse_lines_step [OF sep_line(1)]) (simp add: sep_line parse_sep_def assms)

lemma read_hunk:
  assumes "po_type p = OpUpdate" and "\<forall>l\<in>set (h_lines h). ok_line l"
  shows "\<exists>p' ho. parse_lines \<lparr>ps_ops = ops, ps_op = Some p, ps_hunk = g\<rparr> (print_hunk h @ ls) =
      parse_lines \<lparr>ps_ops = ops, ps_op = Some p', ps_hunk = ho\<rparr> ls
    \<and> po_type p' = OpUpdate \<and> add_hunk ho p' = add_hunk (Some h) (add_hunk g p)"
proof -
  let ?q = "add_hunk g p"
  have q: "po_type ?q = OpUpdate"
    using assms(1) by (simp add: add_hunk_def split: option.split)
  have h: "empty_hunk\<lparr>h_lines := h_lines empty_hunk @ h_lines h\<rparr> = h\<lparr>h_eof := False\<rparr>"
    by (simp add: empty_hunk_def)
  have body: "parse_lines \<lparr>ps_ops = ops, ps_op = Some p, ps_hunk = g\<rparr> (print_hunk h @ ls) =
      parse_lines \<lparr>ps_ops = ops, ps_op = Some ?q, ps_hunk = Some (h\<lparr>h_eof := False\<rparr>)\<rparr>
        ((if h_eof h then [end_of_file] else []) @ ls)"
    using read_sep [OF assms(1)] read_hunk_lines [OF q assms(2), of ops empty_hunk] h
    by (simp add: print_hunk_def)
  show ?thesis
  proof (cases "h_eof h")
    case True
    then have e: "h\<lparr>h_eof := True\<rparr> = h" by (cases h) simp
    have "parse_lines \<lparr>ps_ops = ops, ps_op = Some p, ps_hunk = g\<rparr> (print_hunk h @ ls) =
        parse_lines \<lparr>ps_ops = ops, ps_op = Some (add_hunk (Some h) ?q), ps_hunk = None\<rparr> ls"
      unfolding body using True read_eof [OF q, of ops "h\<lparr>h_eof := False\<rparr>" ls]
      by (simp add: e del: parse_lines.simps)
    moreover have "po_type (add_hunk (Some h) ?q) = OpUpdate" "add_hunk None (add_hunk (Some h) ?q) = add_hunk (Some h) ?q"
      using q by (simp_all add: add_hunk_def)
    ultimately show ?thesis by blast
  next
    case False
    then have e: "h\<lparr>h_eof := False\<rparr> = h" by (cases h) simp
    show ?thesis unfolding body e using False q by (intro exI [of _ ?q] exI [of _ "Some h"]) simp
  qed
qed

lemma read_hunks:
  assumes "po_type p = OpUpdate" and "\<forall>h\<in>set hs. \<forall>l\<in>set (h_lines h). ok_line l"
  shows "\<exists>p' ho. parse_lines \<lparr>ps_ops = ops, ps_op = Some p, ps_hunk = g\<rparr> (concat (map print_hunk hs) @ ls) =
      parse_lines \<lparr>ps_ops = ops, ps_op = Some p', ps_hunk = ho\<rparr> ls
    \<and> add_hunk ho p' = (add_hunk g p)\<lparr>po_hunks := po_hunks (add_hunk g p) @ hs\<rparr>"
  using assms
proof (induction hs arbitrary: p g)
  case (Cons h hs)
  obtain p1 g1 where one:
    "parse_lines \<lparr>ps_ops = ops, ps_op = Some p, ps_hunk = g\<rparr> (print_hunk h @ concat (map print_hunk hs) @ ls) =
      parse_lines \<lparr>ps_ops = ops, ps_op = Some p1, ps_hunk = g1\<rparr> (concat (map print_hunk hs) @ ls)"
    "po_type p1 = OpUpdate" "add_hunk g1 p1 = add_hunk (Some h) (add_hunk g p)"
    using read_hunk [OF Cons.prems(1), of h ops g "concat (map print_hunk hs) @ ls"] Cons.prems(2) by auto
  obtain p' ho where rest:
    "parse_lines \<lparr>ps_ops = ops, ps_op = Some p1, ps_hunk = g1\<rparr> (concat (map print_hunk hs) @ ls) =
      parse_lines \<lparr>ps_ops = ops, ps_op = Some p', ps_hunk = ho\<rparr> ls"
    "add_hunk ho p' = (add_hunk g1 p1)\<lparr>po_hunks := po_hunks (add_hunk g1 p1) @ hs\<rparr>"
    using Cons.IH [OF one(2), of g1] Cons.prems(2) by fastforce
  have "add_hunk ho p' = (add_hunk g p)\<lparr>po_hunks := po_hunks (add_hunk g p) @ h # hs\<rparr>"
    unfolding rest(2) one(3) by (simp add: add_hunk_def [of "Some h"])
  with one(1) rest(1) show ?case by (intro exI conjI) simp_all
qed (auto intro!: exI)

lemma body_lines_join: "b \<noteq> [] \<Longrightarrow> last b = newline \<Longrightarrow> concat (map (\<lambda>l. l @ [newline]) (body_lines b)) = b"
proof -
  assume b: "b \<noteq> []" "last b = newline"
  have j: "concat (map (\<lambda>l. l @ [newline]) xs) = join_str xs [newline] @ [newline]" if "xs \<noteq> []" for xs
    using that by (induction xs "[newline]" rule: join_str.induct) auto
  show ?thesis
    using b j [of "split_str (butlast b) [newline]"] append_butlast_last_id [OF b(1)]
    by (simp add: body_lines_def)
qed

lemma read_add_lines:
  assumes "po_type p = OpAdd"
  shows "parse_lines \<lparr>ps_ops = ops, ps_op = Some p, ps_hunk = g\<rparr> (map ((#) CHR ''+'') bs @ ls) =
    parse_lines \<lparr>ps_ops = ops, ps_op = Some (p\<lparr>po_body := po_body p @ concat (map (\<lambda>l. l @ [newline]) bs)\<rparr>),
                 ps_hunk = g\<rparr> ls"
  using assms
proof (induction bs arbitrary: p)
  case (Cons b bs)
  have "parse_line (CHR ''+'' # b) \<lparr>ps_ops = ops, ps_op = Some p, ps_hunk = g\<rparr> =
      Inr \<lparr>ps_ops = ops, ps_op = Some (p\<lparr>po_body := po_body p @ b @ [newline]\<rparr>), ps_hunk = g\<rparr>"
    using Cons.prems plus_line_trim(1) [of b] by (simp add: parse_plain_line parse_body_def)
  with Cons plus_line_trim(1) [of b] show ?case by simp
qed simp

text \<open>One operation, from a state with no half-open hunk.\<close>

definition settled :: "parse_state \<Rightarrow> bool" where
  "settled ps \<longleftrightarrow> (ps_op ps = None \<longrightarrow> ps_hunk ps = None)"

definition opened :: "parse_state \<Rightarrow> patch_op \<Rightarrow> hunk option \<Rightarrow> parse_state" where
  "opened ps p g = \<lparr>ps_ops = ps_ops (flush_op ps), ps_op = Some p, ps_hunk = g\<rparr>"

lemma start_opened:
  assumes "settled ps" and "ok_path path"
  shows "parse_lines ps ((add_prefix @ path) # r) = parse_lines (opened ps (new_op OpAdd path) None) r"
    "parse_lines ps ((update_prefix @ path) # r) = parse_lines (opened ps (new_op OpUpdate path) None) r"
    "parse_lines ps ((delete_prefix @ path) # r) = parse_lines (opened ps (new_op OpDelete path) None) r"
proof -
  have "(flush_op ps)\<lparr>ps_op := Some q\<rparr> = opened ps q None" for q
    using assms(1) by (cases ps) (auto simp: opened_def flush_op_def settled_def split: option.split)
  then show "parse_lines ps ((add_prefix @ path) # r) = parse_lines (opened ps (new_op OpAdd path) None) r"
    "parse_lines ps ((update_prefix @ path) # r) = parse_lines (opened ps (new_op OpUpdate path) None) r"
    "parse_lines ps ((delete_prefix @ path) # r) = parse_lines (opened ps (new_op OpDelete path) None) r"
    using assms(2) parse_lines_step [OF star_line_trim(1) [of path] parse_op_line(1) [of path ps], of r]
      parse_lines_step [OF star_line_trim(2) [of path] parse_op_line(2) [of path ps], of r]
      parse_lines_step [OF star_line_trim(3) [of path] parse_op_line(3) [of path ps], of r]
    by (simp_all add: ok_path_def del: parse_lines.simps)
qed

lemma read_move:
  assumes "ok_path mv" and "mv \<noteq> []"
  shows "parse_lines (opened ps (new_op OpUpdate path) None) ((move_prefix @ mv) # r) =
    parse_lines (opened ps ((new_op OpUpdate path)\<lparr>po_move := mv\<rparr>) None) r"
  by (rule parse_lines_step [OF star_line_trim(4)])
    (use assms in \<open>simp add: parse_op_line parse_move_def opened_def new_op_def ok_path_def\<close>)

lemma read_op:
  assumes "settled ps" and "ok_op p"
  shows "\<exists>q g. parse_lines ps (print_op p @ ls) = parse_lines (opened ps q g) ls \<and> add_hunk g q = p"
proof -
  have path: "ok_path (po_path p)" "ok_path (po_move p)"
    using assms(2) by (simp_all add: ok_op_def)
  note start = start_opened [OF assms(1) path(1)]
  show ?thesis
  proof (cases "po_type p")
    case OpDelete
    then have "new_op OpDelete (po_path p) = p"
      using assms(2) by (cases p) (auto simp: ok_op_def new_op_def)
    with OpDelete start(3) show ?thesis
      by (intro exI [of _ p] exI [of _ None]) (simp add: print_op_def add_hunk_def del: parse_lines.simps)
  next
    case OpAdd
    let ?bs = "body_lines (po_body p)"
    have "concat (map (\<lambda>l. l @ [newline]) ?bs) = po_body p"
      using assms(2) body_lines_join [of "po_body p"] by (auto simp: ok_op_def body_lines_def)
    then have "(new_op OpAdd (po_path p))\<lparr>po_body := concat (map (\<lambda>l. l @ [newline]) ?bs)\<rparr> = p"
      using assms(2) OpAdd by (cases p) (auto simp: ok_op_def new_op_def)
    moreover have "parse_lines ps (print_op p @ ls) =
        parse_lines (opened ps ((new_op OpAdd (po_path p))\<lparr>po_body := concat (map (\<lambda>l. l @ [newline]) ?bs)\<rparr>) None) ls"
      using OpAdd start(1) [of "map ((#) CHR ''+'') ?bs @ ls"]
        read_add_lines [of "new_op OpAdd (po_path p)" "ps_ops (flush_op ps)" None ?bs ls]
      by (simp add: print_op_def opened_def new_op_def del: parse_lines.simps)
    ultimately show ?thesis
      by (intro exI [of _ p] exI [of _ None]) (simp add: add_hunk_def)
  next
    case OpUpdate
    let ?q = "(new_op OpUpdate (po_path p))\<lparr>po_move := po_move p\<rparr>"
    let ?hs = "po_hunks p"
    have "po_type ?q = OpUpdate" "\<forall>h\<in>set ?hs. \<forall>l\<in>set (h_lines h). ok_line l"
      using assms(2) by (simp_all add: new_op_def ok_op_def)
    then obtain q g where qg: "parse_lines (opened ps ?q None) (concat (map print_hunk ?hs) @ ls) =
        parse_lines (opened ps q g) ls" "add_hunk g q = ?q\<lparr>po_hunks := ?hs\<rparr>"
      using read_hunks [of ?q ?hs "ps_ops (flush_op ps)" None ls]
      by (auto simp: opened_def add_hunk_def new_op_def)
    have "add_hunk g q = p"
      using qg(2) assms(2) OpUpdate by (cases p) (auto simp: ok_op_def new_op_def)
    moreover have "parse_lines ps (print_op p @ ls) =
        parse_lines (opened ps ?q None) (concat (map print_hunk ?hs) @ ls)"
      using OpUpdate start(2) read_move [OF path(2)]
      by (cases "po_move p = []") (simp_all add: print_op_def new_op_def del: parse_lines.simps)
    ultimately show ?thesis using qg(1) by auto
  qed
qed

lemma flush_opened: "ps_ops (flush_op (opened ps q g)) = ps_ops (flush_op ps) @ [add_hunk g q]"
  by (simp add: opened_def flush_op_def)

lemma read_ops:
  assumes "settled ps" and "\<forall>p\<in>set ops. ok_op p"
  shows "\<exists>ps'. parse_lines ps (concat (map print_op ops) @ ls) = parse_lines ps' ls
    \<and> ps_ops (flush_op ps') = ps_ops (flush_op ps) @ ops"
  using assms
proof (induction ops arbitrary: ps)
  case (Cons p ops)
  obtain q g where one: "parse_lines ps (print_op p @ concat (map print_op ops) @ ls) =
      parse_lines (opened ps q g) (concat (map print_op ops) @ ls)" "add_hunk g q = p"
    using read_op [OF Cons.prems(1)] Cons.prems(2) by fastforce
  have "settled (opened ps q g)" by (simp add: settled_def opened_def)
  from Cons.IH [OF this] Cons.prems(2) one flush_opened [of ps q g] show ?case by auto
qed auto

section \<open>Round trip\<close>

lemma newline_free_line: "ok_line l \<Longrightarrow> newline \<notin> set (print_line l)"
  by (auto simp: ok_line_def split: line_kind.splits)

lemma newline_free_op:
  assumes "ok_op p" and "l \<in> set (print_op p)"
  shows "newline \<notin> set l"
  using assms split_str_char_parts [of _ "butlast (po_body p)" newline] newline_free_line
  by (cases "po_type p")
    (force simp: print_op_def ok_op_def ok_path_def marker_defs body_lines_def print_hunk_def
      split: if_splits)+

lemma print_patch_trim: "trim_space (print_patch ops) = print_patch ops"
proof -
  obtain r where r: "print_patch ops = begin_patch @ r"
    by (cases "concat (map print_op ops) @ [end_patch]") (auto simp: print_patch_def)
  have snoc: "join_str (xs @ [x]) d = (if xs = [] then x else join_str xs d @ d @ x)" for xs and x d :: string
    by (induction xs d rule: join_str.induct) auto
  obtain r' where r': "print_patch ops = r' @ end_patch"
    using snoc [of "begin_patch # concat (map print_op ops)" end_patch "[newline]"]
    by (auto simp: print_patch_def)
  have "hd (print_patch ops) = CHR ''*''" unfolding r by (simp add: begin_patch_def)
  moreover have "last (print_patch ops) = CHR ''h''" unfolding r' by (simp add: end_patch_def)
  ultimately show ?thesis
    using r by (intro trim_space_visible) (auto simp: begin_patch_def visible_def)
qed

lemma parse_print:
  assumes "\<forall>p\<in>set ops. ok_op p" and "ops \<noteq> []"
  shows "parse_patch (print_patch ops) = Inr ops"
proof -
  let ?ls = "begin_patch # concat (map print_op ops) @ [end_patch]"
  have free: "\<forall>l\<in>set ?ls. newline \<notin> set l"
    using assms(1) newline_free_op by (auto simp: begin_patch_def end_patch_def)
  then have split: "split_str (print_patch ops) [newline] = ?ls"
    unfolding print_patch_def by (intro split_join_char) simp_all
  have pre: "has_prefix (print_patch ops) begin_patch"
    by (cases "concat (map print_op ops) @ [end_patch]") (auto simp: print_patch_def)
  have "settled initial_parse" by (simp add: settled_def initial_parse_def)
  from read_ops [OF this assms(1), of "[end_patch]"] obtain ps' where
    "parse_lines initial_parse (concat (map print_op ops) @ [end_patch]) = parse_lines ps' [end_patch]"
    "ps_ops (flush_op ps') = ops"
    by (auto simp: initial_parse_def flush_op_def)
  moreover have "trim_space end_patch = end_patch"
    by (rule trim_space_visible) (simp_all add: end_patch_def visible_def)
  ultimately have "parse_lines initial_parse (concat (map print_op ops) @ [end_patch]) = Inr ops"
    using assms(2) by simp
  moreover have "end_patch \<noteq> []" by (simp add: end_patch_def)
  ultimately show ?thesis
    using pre split by (simp add: parse_patch_def print_patch_trim Let_def del: parse_lines.simps)
qed

end
