(* ===== verification/Patch_Apply.thy ===== *)
theory Patch_Apply
  imports Patch_Parse
begin

text \<open>
  Anchoring and applying the hunks of one file (\<^verbatim>\<open>applyHunks\<close> and its helpers in
  \<^verbatim>\<open>internal/agent/tools/apply_patch.go\<close>). Index and slice expressions that would
  panic when out of range are the outcome \<open>ApplyPanic\<close>, which is shown never to occur.
\<close>

section \<open>Hunks\<close>

definition texts_of :: "line_kind \<Rightarrow> hunk \<Rightarrow> string list" where
  "texts_of k h = map hl_text (filter (\<lambda>l. hl_kind l = k) (h_lines h))"

definition hunk_already_applied :: "hunk \<Rightarrow> string list \<Rightarrow> bool" where
  "hunk_already_applied h ls =
     (let adds = texts_of LineAdd h; removes = texts_of LineRemove h in
      if adds = [] \<and> removes = [] then False
      else list_all (\<lambda>s. s \<in> set ls) (texts_of LineContext h)
           \<and> list_all (\<lambda>s. s \<in> set ls) adds
           \<and> list_all (\<lambda>s. s \<notin> set ls) removes)"

definition pattern_lines :: "hunk \<Rightarrow> string list" where
  "pattern_lines h = map hl_text (filter (\<lambda>l. hl_kind l = LineContext \<or> hl_kind l = LineRemove) (h_lines h))"

text \<open>\<open>i\<close> is the index of the next line of the matched region; \<open>None\<close> is an index out of range.\<close>

fun build_replacement :: "hunk_line list \<Rightarrow> string list \<Rightarrow> nat \<Rightarrow> string list option" where
  "build_replacement [] file i = Some []"
| "build_replacement (l # hs) file i =
     (case hl_kind l of
        LineContext \<Rightarrow>
          (if i < length file then map_option ((#) (file ! i)) (build_replacement hs file (Suc i)) else None)
      | LineRemove \<Rightarrow> build_replacement hs file (Suc i)
      | LineAdd \<Rightarrow> map_option ((#) (hl_text l)) (build_replacement hs file i))"

section \<open>Anchors\<close>

definition lines_equal :: "string list \<Rightarrow> nat \<Rightarrow> string list \<Rightarrow> bool" where
  "lines_equal hay start pat \<longleftrightarrow> start + length pat \<le> length hay \<and> take (length pat) (drop start hay) = pat"

definition seek_sequence :: "string list \<Rightarrow> string list \<Rightarrow> nat \<Rightarrow> nat option" where
  "seek_sequence hay pat start =
     (if pat = [] then (if start \<le> length hay then Some start else None)
      else find (\<lambda>i. lines_equal hay i pat) [start ..< Suc (length hay) - length pat])"

definition is_ascii :: "string \<Rightarrow> bool" where
  "is_ascii s \<longleftrightarrow> list_all (\<lambda>c. byte c < 128) s"

definition fuzzy_rune :: "nat \<Rightarrow> string" where
  "fuzzy_rune r =
     (if r \<in> {8208, 8209, 8210, 8211, 8212, 8213, 8722, 65112, 65123, 65293} then ''-''
      else if r \<in> {8216, 8217, 8218, 8219} then [CHR 0x27]
      else if r \<in> {8220, 8221, 8222, 8223} then [CHR 0x22]
      else if r \<in> {160, 8199, 8200, 8201, 8202, 8239, 8287, 12288} then '' ''
      else encode_rune r)"

definition normalize_for_fuzzy :: "string \<Rightarrow> string" where
  "normalize_for_fuzzy s =
     (if is_ascii s then trim_space s else trim_space (concat (map fuzzy_rune (runes s))))"

text \<open>The transforms in the order they are tried; the first is the identity.\<close>

definition transforms :: "(string \<Rightarrow> string) list" where
  "transforms = [\<lambda>s. s, trim_right, trim_space, normalize_for_fuzzy]"

definition anchor_with ::
  "string list \<Rightarrow> string list \<Rightarrow> bool \<Rightarrow> nat \<Rightarrow> (string \<Rightarrow> string) \<Rightarrow> nat option" where
  "anchor_with ls pat anchor_eof low t =
     (let tl = map t ls; tp = map t pat in
      if anchor_eof \<and> length tp \<le> length tl \<and> lines_equal tl (length tl - length tp) tp
      then Some (length tl - length tp)
      else seek_sequence tl tp low)"

fun first_some :: "('a \<Rightarrow> 'b option) \<Rightarrow> 'a list \<Rightarrow> 'b option" where
  "first_some f [] = None"
| "first_some f (x # xs) = (case f x of Some y \<Rightarrow> Some y | None \<Rightarrow> first_some f xs)"

definition find_hunk_anchor :: "string list \<Rightarrow> string list \<Rightarrow> bool \<Rightarrow> nat \<Rightarrow> nat option" where
  "find_hunk_anchor ls pat anchor_eof low = first_some (anchor_with ls pat anchor_eof low) transforms"

section \<open>Applying\<close>

datatype apply_error =
    HunkMismatch nat string "string list"   \<comment> \<open>number of the hunk, path, expected lines\<close>
  | ApplyPanic

definition apply_hunk ::
  "string \<Rightarrow> nat \<Rightarrow> hunk \<Rightarrow> string list \<Rightarrow> nat \<Rightarrow> (apply_error, string list \<times> nat) res" where
  "apply_hunk path n h ls low =
     (if hunk_already_applied h ls then Inr (ls, low)
      else
        (let pat = pattern_lines h; anchor_eof = (h_eof h \<or> pat = []) in
         case find_hunk_anchor ls pat anchor_eof low of
           None \<Rightarrow> Inl (HunkMismatch n path pat)
         | Some idx \<Rightarrow>
            (case build_replacement (h_lines h) ls idx of
               None \<Rightarrow> Inl ApplyPanic
             | Some repl \<Rightarrow>
                (if length ls < idx + length pat then Inl ApplyPanic
                 else Inr (take idx ls @ repl @ drop (idx + length pat) ls,
                           if anchor_eof then low else idx + length repl)))))"

fun apply_hunk_list ::
  "string \<Rightarrow> nat \<Rightarrow> hunk list \<Rightarrow> string list \<Rightarrow> nat \<Rightarrow> (apply_error, string list) res" where
  "apply_hunk_list path n [] ls low = Inr ls"
| "apply_hunk_list path n (h # hs) ls low =
     (case apply_hunk path n h ls low of
        Inl e \<Rightarrow> Inl e
      | Inr (ls', low') \<Rightarrow> apply_hunk_list path (Suc n) hs ls' low')"

definition file_lines :: "string \<Rightarrow> string list" where
  "file_lines content =
     (if content = [] then [] else split_str (trim_suffix content [newline]) [newline])"

definition unlines :: "bool \<Rightarrow> string list \<Rightarrow> string" where
  "unlines had_nl ls =
     (let out = join_str ls [newline] in if had_nl \<and> out \<noteq> [] then out @ [newline] else out)"

definition apply_hunks :: "string \<Rightarrow> string \<Rightarrow> hunk list \<Rightarrow> (apply_error, string) res" where
  "apply_hunks path content hunks =
     (case apply_hunk_list path 1 hunks (file_lines content) 0 of
        Inl e \<Rightarrow> Inl e
      | Inr ls \<Rightarrow> Inr (unlines (has_suffix content [newline]) ls))"

section \<open>Anchors are in range\<close>

lemma lines_equal_iff:
  "lines_equal hay start pat \<longleftrightarrow> (\<exists>pre post. hay = pre @ pat @ post \<and> length pre = start)"
proof
  assume eq: "lines_equal hay start pat"
  then have "hay = take start hay @ pat @ drop (start + length pat) hay"
    by (metis lines_equal_def append_take_drop_id drop_drop add.commute)
  then show "\<exists>pre post. hay = pre @ pat @ post \<and> length pre = start"
    using eq by (intro exI [of _ "take start hay"] exI) (auto simp: lines_equal_def)
qed (auto simp: lines_equal_def)

lemma seek_sequence_Some:
  assumes "seek_sequence hay pat low = Some i"
  shows "lines_equal hay i pat" "low \<le> i"
proof -
  have "lines_equal hay i pat \<and> low \<le> i"
  proof (cases "pat = []")
    case True
    with assms show ?thesis by (auto simp: seek_sequence_def lines_equal_def split: if_splits)
  next
    case False
    with assms obtain k where "k < length [low ..< Suc (length hay) - length pat]"
      "[low ..< Suc (length hay) - length pat] ! k = i" "lines_equal hay i pat"
      by (auto simp: seek_sequence_def find_Some_iff simp del: length_upt)
    then show ?thesis by auto
  qed
  then show "lines_equal hay i pat" "low \<le> i" by blast+
qed

lemma anchor_with_Some:
  assumes "anchor_with ls pat e low t = Some i"
  shows "lines_equal (map t ls) i (map t pat)" "\<not> e \<Longrightarrow> low \<le> i"
proof -
  show "lines_equal (map t ls) i (map t pat)"
    using assms seek_sequence_Some(1) by (auto simp: anchor_with_def Let_def split: if_splits)
  show "low \<le> i" if "\<not> e"
    using assms that seek_sequence_Some(2) [of "map t ls" "map t pat" low i]
    by (simp add: anchor_with_def)
qed

lemma first_some_Some: "first_some f xs = Some y \<Longrightarrow> \<exists>x\<in>set xs. f x = Some y"
  by (induction xs) (auto split: option.splits)

lemma anchor_split:
  assumes "find_hunk_anchor ls pat e low = Some i"
  shows "\<exists>t\<in>set transforms. \<exists>pre mid post. ls = pre @ mid @ post \<and> length pre = i
    \<and> length mid = length pat \<and> map t mid = map t pat \<and> (\<not> e \<longrightarrow> low \<le> i)"
proof -
  obtain t where t: "t \<in> set transforms" "anchor_with ls pat e low t = Some i"
    using assms by (auto simp: find_hunk_anchor_def dest: first_some_Some)
  from anchor_with_Some [OF t(2)] obtain pre post where
    s: "map t ls = pre @ map t pat @ post" "length pre = i" by (auto simp: lines_equal_iff)
  let ?mid = "take (length pat) (drop i ls)"
  have "take (length pat) (drop i (map t ls)) = map t pat"
    using s by simp
  then have m: "map t ?mid = map t pat" by (simp add: drop_map take_map)
  then have len: "length ?mid = length pat" by (metis length_map)
  have "i \<le> length ls" using s by (metis length_append length_map le_add1)
  then have "ls = take i ls @ ?mid @ drop (i + length pat) ls" "length (take i ls) = i"
    by (simp_all add: min_def) (metis append_take_drop_id drop_drop add.commute)
  with t(1) m len anchor_with_Some(2) [OF t(2)] show ?thesis by blast
qed

section \<open>What a hunk does\<close>

text \<open>
  The lines that replace the matched lines \<open>mid\<close>: the file's own text where the hunk has
  context, nothing where it removes, the new text where it adds.
\<close>

fun merge_lines :: "hunk_line list \<Rightarrow> string list \<Rightarrow> string list" where
  "merge_lines [] mid = []"
| "merge_lines (l # hs) mid =
     (case hl_kind l of
        LineContext \<Rightarrow> hd mid # merge_lines hs (tl mid)
      | LineRemove \<Rightarrow> merge_lines hs (tl mid)
      | LineAdd \<Rightarrow> hl_text l # merge_lines hs mid)"

definition matches :: "hunk_line \<Rightarrow> bool" where
  "matches l \<longleftrightarrow> hl_kind l = LineContext \<or> hl_kind l = LineRemove"

lemma pattern_lines_eq: "pattern_lines h = map hl_text (filter matches (h_lines h))"
  unfolding pattern_lines_def matches_def by simp

lemma build_replacement_merge:
  "length mid = length (filter matches hs) \<Longrightarrow>
     build_replacement hs (pre @ mid @ post) (length pre) = Some (merge_lines hs mid)"
proof (induction hs arbitrary: pre mid)
  case (Cons l hs)
  show ?case
  proof (cases "matches l")
    case True
    then obtain m mid' where mid: "mid = m # mid'" using Cons.prems by (cases mid) auto
    then have "length mid' = length (filter matches hs)" using Cons.prems True by simp
    from Cons.IH [OF this, of "pre @ [m]"] mid True show ?thesis
      by (auto simp: matches_def nth_append split: line_kind.split)
  next
    case False
    then have "hl_kind l = LineAdd" by (cases "hl_kind l") (auto simp: matches_def)
    with Cons.IH [of mid pre] Cons.prems False show ?thesis by simp
  qed
qed simp

lemma merge_lines_set: "length mid = length (filter matches hs) \<Longrightarrow>
    set (merge_lines hs mid) \<subseteq> set mid \<union> hl_text ` {l \<in> set hs. hl_kind l = LineAdd}"
proof (induction hs arbitrary: mid)
  case (Cons l hs)
  show ?case
  proof (cases "matches l")
    case True
    then obtain m mid' where mid: "mid = m # mid'" using Cons.prems by (cases mid) auto
    with Cons.IH [of mid'] Cons.prems True show ?thesis
      by (cases "hl_kind l") (auto simp: matches_def)
  next
    case False
    then have "hl_kind l = LineAdd" by (cases "hl_kind l") (auto simp: matches_def)
    with Cons.IH [of mid] Cons.prems False show ?thesis by auto
  qed
qed simp

text \<open>With an exact match the result is the context and the added lines of the hunk.\<close>

lemma merge_exact:
  "merge_lines hs (map hl_text (filter matches hs)) =
     map hl_text (filter (\<lambda>l. hl_kind l \<noteq> LineRemove) hs)"
  by (induction hs) (auto simp: matches_def split: line_kind.split)

lemma apply_hunk_cases:
  "(\<exists>pre mid post. \<exists>t\<in>set transforms. ls = pre @ mid @ post
      \<and> length mid = length (pattern_lines h) \<and> map t mid = map t (pattern_lines h)
      \<and> (\<not> (h_eof h \<or> pattern_lines h = []) \<longrightarrow> low \<le> length pre)
      \<and> apply_hunk path n h ls low =
          Inr (pre @ merge_lines (h_lines h) mid @ post,
               if h_eof h \<or> pattern_lines h = [] then low
               else length pre + length (merge_lines (h_lines h) mid)))
   \<or> hunk_already_applied h ls \<and> apply_hunk path n h ls low = Inr (ls, low)
   \<or> apply_hunk path n h ls low = Inl (HunkMismatch n path (pattern_lines h))"
proof (cases "hunk_already_applied h ls")
  case not_yet: False
  let ?pat = "pattern_lines h" and ?e = "h_eof h \<or> pattern_lines h = []"
  show ?thesis
  proof (cases "find_hunk_anchor ls ?pat ?e low")
    case (Some i)
    then obtain t pre mid post where a: "t \<in> set transforms" "ls = pre @ mid @ post" "length pre = i"
      "length mid = length ?pat" "map t mid = map t ?pat" "\<not> ?e \<longrightarrow> low \<le> i"
      using anchor_split [OF Some] by blast
    then have "build_replacement (h_lines h) ls i = Some (merge_lines (h_lines h) mid)"
      using build_replacement_merge [of mid "h_lines h" pre post] by (simp add: pattern_lines_eq)
    with Some a not_yet have "apply_hunk path n h ls low =
        Inr (pre @ merge_lines (h_lines h) mid @ post,
             if ?e then low else length pre + length (merge_lines (h_lines h) mid))"
      by (auto simp: apply_hunk_def Let_def)
    with a show ?thesis by blast
  qed (use not_yet in \<open>simp add: apply_hunk_def\<close>)
qed (simp add: apply_hunk_def)

lemma apply_hunk_list_panic: "apply_hunk_list path n hs ls low \<noteq> Inl ApplyPanic"
proof (induction hs arbitrary: n ls low)
  case (Cons h hs)
  then show ?case
    using apply_hunk_cases [of ls h low path n] by auto
qed simp

lemma apply_hunk_list_set:
  "apply_hunk_list path n hs ls low = Inr ls' \<Longrightarrow>
     set ls' \<subseteq> set ls \<union> hl_text ` {l. \<exists>h\<in>set hs. l \<in> set (h_lines h) \<and> hl_kind l = LineAdd}"
proof (induction hs arbitrary: n ls low)
  case (Cons h hs)
  then obtain ls1 low1 where one: "apply_hunk path n h ls low = Inr (ls1, low1)"
    "apply_hunk_list path (Suc n) hs ls1 low1 = Inr ls'" by (auto split: sum.splits)
  have "set ls1 \<subseteq> set ls \<union> hl_text ` {l \<in> set (h_lines h). hl_kind l = LineAdd}"
    using apply_hunk_cases [of ls h low path n]
  proof (elim disjE exE bexE conjE)
    fix pre mid post t
    assume a: "ls = pre @ mid @ post" "length mid = length (pattern_lines h)"
      "apply_hunk path n h ls low =
         Inr (pre @ merge_lines (h_lines h) mid @ post,
              if h_eof h \<or> pattern_lines h = [] then low
              else length pre + length (merge_lines (h_lines h) mid))"
    then have "ls1 = pre @ merge_lines (h_lines h) mid @ post" using one(1) by simp
    with a merge_lines_set [of mid "h_lines h"] show ?thesis by (auto simp: pattern_lines_eq)
  qed (use one(1) in simp_all)
  with Cons.IH [OF one(2)] show ?case by auto
qed simp

lemma apply_hunk_list_idle:
  "\<forall>h\<in>set hs. hunk_already_applied h ls \<Longrightarrow> apply_hunk_list path n hs ls low = Inr ls"
  by (induction hs arbitrary: n) (auto simp: apply_hunk_def)

section \<open>Lines of a file\<close>

lemma unlines_file_lines:
  assumes "content \<noteq> [newline]"
  shows "unlines (has_suffix content [newline]) (file_lines content) = content"
proof (cases "has_suffix content [newline]")
  case True
  then obtain r where r: "content = r @ [newline]" by (auto simp: has_suffix_iff)
  with assms True show ?thesis by (auto simp: unlines_def file_lines_def)
next
  case False
  then have "trim_suffix content [newline] = content" by (simp add: trim_suffix_def)
  with False show ?thesis by (simp add: unlines_def file_lines_def)
qed

section \<open>Claims\<close>

text \<open>
  C15. Reading back a printed patch gives the patch: for any list of operations whose paths
  and lines are single lines (and no context line of which reads as an end marker),
  \<^verbatim>\<open>parsePatch\<close> of its printed form returns exactly these operations, with their
  hunks, markers and moves.
\<close>

theorem patch_round_trip:
  assumes "\<forall>p\<in>set ops. ok_op p" and "ops \<noteq> []"
  shows "parse_patch (print_patch ops) = Inr ops"
  by (rule parse_print [OF assms])

definition demo_hunk :: hunk where
  "demo_hunk = \<lparr>h_lines = [\<lparr>hl_kind = LineContext, hl_text = ''a''\<rparr>, \<lparr>hl_kind = LineRemove, hl_text = ''b''\<rparr>,
                          \<lparr>hl_kind = LineAdd, hl_text = ''B''\<rparr>], h_eof = False\<rparr>"

definition demo_op :: patch_op where
  "demo_op = (new_op OpUpdate ''x.txt'')\<lparr>po_hunks := [demo_hunk]\<rparr>"

lemma patch_round_trip_witness: "parse_patch (print_patch [demo_op]) = Inr [demo_op]"
proof (rule patch_round_trip)
  have "trim_space ''x.txt'' = ''x.txt''" "trim_space ''a'' = ''a''"
    by (simp_all add: trim_space_visible visible_def)
  then show "\<forall>p\<in>set [demo_op]. ok_op p"
    by (simp add: ok_op_def ok_path_def ok_line_def demo_op_def demo_hunk_def new_op_def marker_defs)
qed simp

text \<open>
  Applying hunks never runs out of range: whatever the file and the hunks are,
  \<^verbatim>\<open>applyHunks\<close> either returns the new content or the error that a hunk did not match;
  its index and slice expressions are always within the file.
\<close>

lemma apply_never_panics: "apply_hunks path content hunks \<noteq> Inl ApplyPanic"
  using apply_hunk_list_panic [of path 1 hunks "file_lines content" 0]
  by (auto simp: apply_hunks_def split: sum.split)

text \<open>
  A hunk changes one place only. When a hunk that is not already applied succeeds, the file
  splits into a part before, the matched lines and a part after; the matched lines agree with
  the hunk's context and removed lines up to one of the four transforms; both parts are kept,
  and the matched lines are replaced by the file's own text for context, nothing for removed
  and the new text for added lines. Unless it is anchored at the end, the match does not reach
  back into what an earlier hunk wrote.
\<close>

lemma hunk_changes_one_place:
  assumes "apply_hunk path n h ls low = Inr (ls', low')" and "\<not> hunk_already_applied h ls"
  shows "\<exists>pre mid post. \<exists>t\<in>set transforms. ls = pre @ mid @ post
    \<and> map t mid = map t (pattern_lines h) \<and> ls' = pre @ merge_lines (h_lines h) mid @ post
    \<and> (\<not> h_eof h \<and> pattern_lines h \<noteq> [] \<longrightarrow> low \<le> length pre)"
proof -
  from apply_hunk_cases [of ls h low path n] assms obtain pre mid post t where
    "t \<in> set transforms" "ls = pre @ mid @ post" "map t mid = map t (pattern_lines h)"
    "ls' = pre @ merge_lines (h_lines h) mid @ post"
    "\<not> (h_eof h \<or> pattern_lines h = []) \<longrightarrow> low \<le> length pre"
    by auto
  then show ?thesis by blast
qed

lemma hunk_changes_one_place_witness:
  "apply_hunk ''x'' 1 demo_hunk [''z'', ''a '', ''b'', ''c''] 0 = Inr ([''z'', ''a '', ''B'', ''c''], 3)
   \<and> (\<exists>pre mid post. \<exists>t\<in>set transforms. [''z'', ''a '', ''b'', ''c''] = pre @ mid @ post
        \<and> map t mid = map t (pattern_lines demo_hunk)
        \<and> [''z'', ''a '', ''B'', ''c''] = pre @ merge_lines (h_lines demo_hunk) mid @ post)"
proof -
  have r: "apply_hunk ''x'' 1 demo_hunk [''z'', ''a '', ''b'', ''c''] 0 = Inr ([''z'', ''a '', ''B'', ''c''], 3)"
    by code_simp
  have "\<not> hunk_already_applied demo_hunk [''z'', ''a '', ''b'', ''c'']" by code_simp
  from hunk_changes_one_place [OF r this] r show ?thesis by blast
qed

text \<open>
  A patch invents nothing: every line of the new content is a line of the old content or
  the text of an added line of one of the hunks.
\<close>

lemma patch_lines_come_from:
  assumes "apply_hunk_list path n hunks ls low = Inr ls'"
  shows "set ls' \<subseteq> set ls \<union> hl_text ` {l. \<exists>h\<in>set hunks. l \<in> set (h_lines h) \<and> hl_kind l = LineAdd}"
  by (rule apply_hunk_list_set [OF assms])

lemma patch_lines_come_from_witness:
  "apply_hunk_list ''x'' 1 [demo_hunk] [''a'', ''b''] 0 = Inr [''a'', ''B'']
   \<and> set [''a'', ''B''] \<subseteq>
       set [''a'', ''b''] \<union> hl_text ` {l. \<exists>h\<in>set [demo_hunk]. l \<in> set (h_lines h) \<and> hl_kind l = LineAdd}"
proof -
  have r: "apply_hunk_list ''x'' 1 [demo_hunk] [''a'', ''b''] 0 = Inr [''a'', ''B'']" by code_simp
  from patch_lines_come_from [OF r] r show ?thesis by blast
qed

text \<open>
  Re-applying is harmless, with one exception: when every hunk is found to be applied
  already, the content comes back byte for byte, trailing newline included, unless it is the
  file that holds a single newline, which comes back empty.
\<close>

lemma applied_patch_is_identity:
  assumes "\<forall>h\<in>set hunks. hunk_already_applied h (file_lines content)"
  shows "apply_hunks path content hunks = Inr (if content = [newline] then [] else content)"
proof (cases "content = [newline]")
  case True
  have "unlines True (file_lines [newline]) = []" by code_simp
  with True assms show ?thesis
    by (simp add: apply_hunks_def apply_hunk_list_idle has_suffix_def)
next
  case False
  with assms unlines_file_lines [OF False] show ?thesis
    by (simp add: apply_hunks_def apply_hunk_list_idle)
qed

lemma applied_patch_is_identity_witness:
  "apply_hunks ''x'' ''a
B
'' [demo_hunk] = Inr ''a
B
''"
proof -
  have "\<forall>h\<in>set [demo_hunk]. hunk_already_applied h (file_lines ''a
B
'')" by code_simp
  from applied_patch_is_identity [OF this, of "''x''"] show ?thesis by simp
qed

end
