(* ===== verification/Go_Path.thy ===== *)
theory Go_Path
  imports Go_Strings
begin

text \<open>
  The path functions of \<^verbatim>\<open>path/filepath\<close> on Unix: \<^verbatim>\<open>IsAbs\<close>,
  \<^verbatim>\<open>Clean\<close>, \<^verbatim>\<open>Join\<close>, \<^verbatim>\<open>Base\<close>,
  \<^verbatim>\<open>Abs\<close>, and what cleaning guarantees: an absolute clean path is a list of proper
  names, none of them empty, \<^verbatim>\<open>.\<close> or \<^verbatim>\<open>..\<close>.
\<close>

abbreviation slash :: char where "slash \<equiv> CHR ''/''"

definition is_abs :: "string \<Rightarrow> bool" where
  "is_abs p \<longleftrightarrow> has_prefix p ''/''"

text \<open>One element of the path, on the names kept so far.\<close>

definition clean_step :: "bool \<Rightarrow> string list \<Rightarrow> string \<Rightarrow> string list" where
  "clean_step rooted stk c =
     (if c = [] \<or> c = ''.'' then stk
      else if c = ''..''
      then (if stk \<noteq> [] \<and> last stk \<noteq> ''..'' then butlast stk
            else if rooted then stk else stk @ [''..''])
      else stk @ [c])"

definition clean_comps :: "bool \<Rightarrow> string \<Rightarrow> string list" where
  "clean_comps rooted p = foldl (clean_step rooted) [] (split_str p [slash])"

definition path_clean :: "string \<Rightarrow> string" where
  "path_clean p =
     (let rooted = is_abs p; cs = clean_comps rooted p in
      if rooted then slash # join_str cs [slash]
      else if cs = [] then ''.'' else join_str cs [slash])"

definition path_join :: "string \<Rightarrow> string \<Rightarrow> string" where
  "path_join a b =
     (if a \<noteq> [] then path_clean (a @ [slash] @ b)
      else if b \<noteq> [] then path_clean b else [])"

definition path_base :: "string \<Rightarrow> string" where
  "path_base p =
     (if p = [] then ''.''
      else (let t = rev (dropWhile (\<lambda>c. c = slash) (rev p)) in
            if t = [] then ''/'' else last (split_str t [slash])))"

definition path_abs :: "string \<Rightarrow> string \<Rightarrow> string" where
  "path_abs cwd p = (if is_abs p then path_clean p else path_join cwd p)"

definition cut :: "string \<Rightarrow> char \<Rightarrow> string \<times> string \<times> bool" where
  "cut s d = (takeWhile (\<lambda>c. c \<noteq> d) s, tl (dropWhile (\<lambda>c. c \<noteq> d) s), d \<in> set s)"

section \<open>Clean absolute paths\<close>

definition proper_name :: "string \<Rightarrow> bool" where
  "proper_name c \<longleftrightarrow> c \<noteq> [] \<and> c \<noteq> ''.'' \<and> c \<noteq> ''..'' \<and> slash \<notin> set c"

lemma is_abs_Cons [simp]: "is_abs (slash # p)"
  by (simp add: is_abs_def)

lemma is_abs_iff: "is_abs p \<longleftrightarrow> (\<exists>r. p = slash # r)"
  by (auto simp: is_abs_def has_prefix_iff)

lemma clean_step_proper:
  assumes "\<forall>c\<in>set stk. proper_name c" and "slash \<notin> set c"
  shows "\<forall>c\<in>set (clean_step True stk c). proper_name c"
  using assms by (auto simp: clean_step_def proper_name_def dest: in_set_butlastD)

lemma foldl_clean_proper:
  assumes "\<forall>c\<in>set stk. proper_name c" and "\<forall>c\<in>set cs. slash \<notin> set c"
  shows "\<forall>c\<in>set (foldl (clean_step True) stk cs). proper_name c"
  using assms
proof (induction cs arbitrary: stk)
  case (Cons c cs)
  then show ?case using clean_step_proper [of stk c] by simp
qed simp

lemma clean_comps_proper: "c \<in> set (clean_comps True p) \<Longrightarrow> proper_name c"
  using foldl_clean_proper [of "[]" "split_str p [slash]"] split_str_char_parts
  by (auto simp: clean_comps_def)

lemma foldl_clean_names:
  "\<forall>c\<in>set cs. proper_name c \<Longrightarrow> foldl (clean_step r) stk cs = stk @ cs"
  by (induction cs arbitrary: stk) (auto simp: clean_step_def proper_name_def)

lemma split_join_names:
  assumes "cs \<noteq> []" and "\<forall>c\<in>set cs. proper_name c"
  shows "split_str (join_str cs [slash]) [slash] = cs"
  using assms by (intro split_join_char) (auto simp: proper_name_def)

lemma split_aux_char_append:
  "split_aux [d] 0 acc (u @ d # v) = split_aux [d] 0 acc u @ split_aux [d] 0 [] v"
  by (induction u arbitrary: acc) auto

lemma split_str_append: "split_str (u @ [d] @ v) [d] = split_str u [d] @ split_str v [d]"
  by (simp add: split_str_def split_aux_char_append)

lemma split_str_Cons: "split_str (d # v) [d] = [] # split_str v [d]"
  using split_str_append [of "[]" d v] by (simp add: split_str_def)

lemma clean_comps_Cons: "clean_comps r (slash # p) = clean_comps r p"
  by (simp add: clean_comps_def split_str_Cons clean_step_def)

lemma clean_comps_join:
  assumes "\<forall>c\<in>set cs. proper_name c"
  shows "clean_comps r (join_str cs [slash]) = cs"
proof (cases "cs = []")
  case True
  then show ?thesis by (simp add: clean_comps_def split_str_def clean_step_def)
next
  case False
  with assms foldl_clean_names [OF assms, of r "[]"] show ?thesis
    by (simp add: clean_comps_def split_join_names)
qed

text \<open>The names of an absolute path, the root being the empty list.\<close>

lemma path_clean_abs: "is_abs p \<Longrightarrow> path_clean p = slash # join_str (clean_comps True p) [slash]"
  by (simp add: path_clean_def)

lemma clean_comps_path_clean: "is_abs p \<Longrightarrow> clean_comps True (path_clean p) = clean_comps True p"
  using clean_comps_proper by (simp add: path_clean_abs clean_comps_Cons clean_comps_join)

lemma path_clean_idem_abs: "is_abs p \<Longrightarrow> path_clean (path_clean p) = path_clean p"
  by (metis clean_comps_path_clean is_abs_Cons path_clean_abs)

text \<open>For clean absolute paths, a prefix that ends at a separator is a prefix of the names.\<close>

lemma clean_under:
  assumes "has_prefix (slash # join_str cs [slash]) (slash # join_str rs [slash] @ [slash])"
    and "\<forall>c\<in>set cs. proper_name c" and "\<forall>c\<in>set rs. proper_name c"
  shows "\<exists>x. cs = rs @ x \<and> rs \<noteq> []"
proof -
  obtain y where y: "join_str cs [slash] = join_str rs [slash] @ [slash] @ y"
    using assms(1) by (auto simp: has_prefix_iff)
  have rs: "rs \<noteq> []"
  proof
    assume "rs = []"
    with y have j: "join_str cs [slash] = slash # y" by simp
    then have "cs \<noteq> []" by auto
    with split_join_names [OF this assms(2)] j have "cs = [] # split_str y [slash]"
      by (simp add: split_str_Cons)
    with assms(2) show False by (simp add: proper_name_def)
  qed
  have "cs \<noteq> []" using y by auto
  with split_join_names [OF this assms(2)] split_join_names [OF rs assms(3)] y
  have "cs = rs @ split_str y [slash]" by (simp only: split_str_append)
  with rs show ?thesis by blast
qed

end
