(* ===== verification/Tool_Paths.thy ===== *)
theory Tool_Paths
  imports Go_Path
begin

text \<open>
  Where a path that a model hands to a file tool leads
  (\<^verbatim>\<open>internal/agent/tools\<close>: \<^verbatim>\<open>file.go\<close>, \<^verbatim>\<open>registry.go\<close>,
  \<^verbatim>\<open>route.go\<close>, \<^verbatim>\<open>filepolicy.go\<close>): which files are managed, which root and
  which store a path belongs to, the scope of a chat inside the workspace store, and the
  containment check on disk.
\<close>

section \<open>Managed files\<close>

datatype file_category = CategoryIdentity | CategoryScaffold | CategoryPerUser

datatype read_scope = ScopeOwner | ScopeChatter

datatype write_actor = ActorOwner | ActorChatter | ActorReview

record file_policy =
  fp_name :: string
  fp_category :: file_category
  fp_scope :: read_scope
  fp_writable :: "write_actor list"

definition policy :: "string \<Rightarrow> file_category \<Rightarrow> read_scope \<Rightarrow> write_actor list \<Rightarrow> file_policy" where
  "policy n c s w = \<lparr>fp_name = n, fp_category = c, fp_scope = s, fp_writable = w\<rparr>"

definition file_policies :: "file_policy list" where
  "file_policies =
     [policy ''SOUL.md'' CategoryIdentity ScopeOwner [ActorOwner],
      policy ''IDENTITY.md'' CategoryIdentity ScopeOwner [ActorOwner],
      policy ''agent.json'' CategoryIdentity ScopeOwner [ActorOwner],
      policy ''AGENTS.md'' CategoryScaffold ScopeOwner [ActorOwner],
      policy ''BOOTSTRAP.md'' CategoryScaffold ScopeOwner [ActorOwner],
      policy ''HEARTBEAT.md'' CategoryScaffold ScopeOwner [ActorOwner],
      policy ''TOOLS.md'' CategoryScaffold ScopeOwner [ActorOwner],
      policy ''USER.md'' CategoryPerUser ScopeChatter [ActorOwner, ActorChatter, ActorReview],
      policy ''MEMORY.md'' CategoryPerUser ScopeChatter [ActorOwner, ActorChatter, ActorReview]]"

definition policy_for :: "string \<Rightarrow> file_policy option" where
  "policy_for name = find (\<lambda>p. fp_name p = name) file_policies"

definition managed_file_base :: "string \<Rightarrow> string option" where
  "managed_file_base path =
     (if path = [] then None
      else
        (let clean = path_clean path; base = path_base clean in
         if policy_for base = None then None
         else if is_abs path then Some base
         else if slash \<in> set clean then None
         else Some base))"

definition write_allowed :: "string \<Rightarrow> write_actor \<Rightarrow> bool" where
  "write_allowed path actor =
     (case managed_file_base path of
        None \<Rightarrow> True
      | Some base \<Rightarrow>
         (case policy_for base of Some p \<Rightarrow> actor \<in> set (fp_writable p) | None \<Rightarrow> False))"

definition is_chatter_scoped :: "string \<Rightarrow> bool" where
  "is_chatter_scoped name =
     (case policy_for name of Some p \<Rightarrow> fp_scope p = ScopeChatter | None \<Rightarrow> False)"

definition identity_files :: "string list" where
  "identity_files =
     [''SOUL.md'', ''IDENTITY.md'', ''AGENTS.md'', ''BOOTSTRAP.md'', ''TOOLS.md'', ''HEARTBEAT.md'', ''agent.json'']"

definition system_files :: "string list" where
  "system_files =
     [''SOUL.md'', ''IDENTITY.md'', ''USER.md'', ''BOOTSTRAP.md'', ''MEMORY.md'', ''HEARTBEAT.md'', ''AGENTS.md'',
      ''TOOLS.md'', ''agent.json'']"

definition is_identity_file_path :: "string \<Rightarrow> bool" where
  "is_identity_file_path path =
     (path \<noteq> []
      \<and> path_base (path_clean path) \<in> set identity_files
      \<and> (is_abs path \<or> slash \<notin> set (path_clean path)))"

definition is_single_segment_system_file :: "string \<Rightarrow> bool" where
  "is_single_segment_system_file path =
     (\<not> is_abs path \<and> slash \<notin> set (path_clean path) \<and> path_clean path \<in> set system_files)"

definition basename_is_system_file :: "string \<Rightarrow> bool" where
  "basename_is_system_file path = (path_base (path_clean path) \<in> set system_files)"

section \<open>The registry of a turn\<close>

record registry =
  rg_agent :: string
  rg_owner :: string          \<comment> \<open>agentOwnerUserID\<close>
  rg_user :: string           \<comment> \<open>userID, the chatter of the turn\<close>
  rg_user_root :: string
  rg_system_root :: string
  rg_sandbox_root :: string
  rg_project :: string
  rg_session :: string
  rg_coding_root :: bool
  rg_coding_subdir :: string
  rg_admin :: bool            \<comment> \<open>callerIsAdmin\<close>
  rg_host_trusted :: bool     \<comment> \<open>callerHostTrusted\<close>
  rg_has_workspace :: bool    \<comment> \<open>a workspace store is configured\<close>
  rg_has_system :: bool       \<comment> \<open>a system file store is configured\<close>
  rg_has_executor :: bool
  rg_box_remote :: bool       \<comment> \<open>the executor shares no mount with the host\<close>

text \<open>What the functions ask of the host.\<close>

record host =
  ho_home :: "string option"
  ho_fluctio_home :: string
  ho_cwd :: string
  ho_hosted :: bool

definition identity_file_blocked :: "registry \<Rightarrow> string \<Rightarrow> bool" where
  "identity_file_blocked r path = (\<not> rg_admin r \<and> is_identity_file_path path)"

definition is_skill_path :: "string \<Rightarrow> bool" where
  "is_skill_path path =
     (\<not> is_abs path \<and> path_clean path \<noteq> ''skills'' \<and> has_prefix (path_clean path) ''skills/'')"

definition is_protected_skill_manifest :: "string \<Rightarrow> bool" where
  "is_protected_skill_manifest path =
     (let clean = path_clean path in
      path \<noteq> [] \<and> path_base clean = ''SKILL.md''
      \<and> (if is_abs clean then str_contains clean ''/skills/'' else is_skill_path path))"

definition skill_manifest_blocked :: "registry \<Rightarrow> string \<Rightarrow> bool" where
  "skill_manifest_blocked r path = (\<not> rg_admin r \<and> is_protected_skill_manifest path)"

definition system_file_user :: "registry \<Rightarrow> string \<Rightarrow> string" where
  "system_file_user r name =
     (if rg_owner r \<noteq> [] \<and> path_base (path_clean name) \<in> set identity_files then rg_owner r else rg_user r)"

definition is_per_user_system_file :: "string \<Rightarrow> bool" where
  "is_per_user_system_file name =
     (let base = path_base (path_clean name) in base = ''USER.md'' \<or> base = ''MEMORY.md'')"

section \<open>Roots\<close>

definition in_skills :: "string \<Rightarrow> bool" where
  "in_skills clean = (clean = ''skills'' \<or> has_prefix clean ''skills/'')"

definition is_workspace_path :: "string \<Rightarrow> bool" where
  "is_workspace_path path =
     (if is_abs path then False
      else
        (let clean = path_clean path in
         if in_skills clean then False
         else if slash \<notin> set clean \<and> clean \<in> set system_files then False
         else True))"

definition root_for_path :: "registry \<Rightarrow> string \<Rightarrow> string" where
  "root_for_path r path =
     (if is_abs path then []
      else
        (let clean = path_clean path in
         if in_skills clean then rg_system_root r
         else if slash \<notin> set clean \<and> clean \<in> set system_files then rg_system_root r
         else rg_user_root r))"

definition resolve_path :: "string \<Rightarrow> string \<Rightarrow> string" where
  "resolve_path root path = (if is_abs path then path_clean path else path_clean (path_join root path))"

definition global_skills_suffix :: string where
  "global_skills_suffix = ''/.fluctio/skills''"

definition is_global_skills_path :: "string \<Rightarrow> bool" where
  "is_global_skills_path p =
     (let clean = path_clean p in
      has_suffix clean global_skills_suffix \<or> str_contains clean (global_skills_suffix @ ''/''))"

definition resolve_path_sandboxed :: "string \<Rightarrow> string \<Rightarrow> string \<Rightarrow> string \<Rightarrow> string option" where
  "resolve_path_sandboxed cwd root sandbox path =
     (let full = resolve_path root path in
      if sandbox = [] then Some full
      else
        (let abs_root = path_abs cwd sandbox; abs_full = path_abs cwd full in
         if \<not> has_prefix abs_full (abs_root @ ''/'') \<and> abs_full \<noteq> abs_root then None
         else Some abs_full))"

definition effective_sandbox_root :: "registry \<Rightarrow> string \<Rightarrow> string" where
  "effective_sandbox_root r root =
     (if root = rg_system_root r \<and> rg_system_root r \<noteq> [] then rg_system_root r else rg_sandbox_root r)"

section \<open>The scope of a chat\<close>

definition scope_session :: "registry \<Rightarrow> string" where
  "scope_session r = (if rg_coding_root r then [] else rg_session r)"

definition ws_path :: "registry \<Rightarrow> string \<Rightarrow> string" where
  "ws_path r p =
     (let dir = rg_coding_subdir r; clean = dropWhile (\<lambda>c. c = slash) p in
      if dir = [] then p
      else if clean = dir \<or> has_prefix clean (dir @ ''/'') then clean
      else dir @ ''/'' @ clean)"

definition is_session_dir_name :: "string \<Rightarrow> bool" where
  "is_session_dir_name name =
     (if has_prefix name ''s-''
      then (case cut (drop 2 name) (CHR ''-'') of (digits, _, found) \<Rightarrow>
              found \<and> digits \<noteq> [] \<and> list_all (\<lambda>c. 48 \<le> byte c \<and> byte c \<le> 57) digits)
      else False)"

datatype scope_error = NoName | NoSharedLayer | AlreadyRoot | AboveProject | OtherSession

record ws_scope_path =
  sp_project :: string
  sp_session :: string
  sp_store :: string
  sp_box :: string

definition ws_scope :: "registry \<Rightarrow> string \<Rightarrow> (scope_error, ws_scope_path) res" where
  "ws_scope r p =
     (let clean = trim_prefix (path_clean p) ''./''; sid = scope_session r in
      if clean = [] \<or> clean = ''.'' then Inl NoName
      else if clean = ''..'' \<or> has_prefix clean ''../''
      then
        (let rest = trim_prefix clean ''../'' in
         if rg_project r = [] \<or> sid = [] then Inl NoSharedLayer
         else if rg_coding_root r \<or> rg_coding_subdir r \<noteq> [] then Inl AlreadyRoot
         else if rest = ''..'' \<or> has_prefix rest ''../'' then Inl AboveProject
         else
           (let seg = fst (cut rest slash) in
            if seg \<noteq> sid \<and> is_session_dir_name seg then Inl OtherSession
            else Inr \<lparr>sp_project = rg_project r, sp_session = [], sp_store = rest,
                      sp_box = ''/workspace/'' @ rest\<rparr>))
      else
        (let mapped = (if rg_coding_subdir r \<noteq> [] then ws_path r clean else clean);
             mount_rel = (if rg_project r \<noteq> [] \<and> sid \<noteq> [] then sid @ ''/'' @ mapped else mapped)
         in Inr \<lparr>sp_project = rg_project r, sp_session = sid, sp_store = mapped,
                 sp_box = ''/workspace/'' @ mount_rel\<rparr>))"

section \<open>Paths on the host\<close>

definition host_home_path :: "host \<Rightarrow> string \<Rightarrow> string option" where
  "host_home_path h path =
     (if path = [] then None
      else if path = ''~'' \<or> has_prefix path ''~/''
      then
        (if has_prefix path ''~/.fluctio'' \<or> has_prefix path ''~/.agents'' then None
         else case ho_home h of
                None \<Rightarrow> None
              | Some home \<Rightarrow> Some (if path = ''~'' then home else path_join home (drop 2 path)))
      else if \<not> is_abs path then None
      else if has_prefix path ''/Users/'' \<or> has_prefix path ''/home/''
      then
        (case ho_home h of
           Some home \<Rightarrow>
             (let dir = path_join home ''.fluctio'' in
              if path = dir \<or> has_prefix path (dir @ ''/'') then None else Some path)
         | None \<Rightarrow> Some path)
      else None)"

definition fluctio_internal_roots :: "host \<Rightarrow> string list" where
  "fluctio_internal_roots h =
     (if ho_fluctio_home h \<noteq> [] then [path_clean (ho_fluctio_home h)] else [])
     @ [path_clean ''/root/.fluctio'']
     @ (case ho_home h of Some home \<Rightarrow> [path_join home ''.fluctio''] | None \<Rightarrow> [])"

definition is_fluctio_internal :: "host \<Rightarrow> string \<Rightarrow> bool" where
  "is_fluctio_internal h path =
     (has_prefix path ''~/.fluctio''
      \<or> is_abs path
        \<and> (let p = path_clean path in
           list_ex (\<lambda>root. p = root \<or> has_prefix p (root @ ''/'')) (fluctio_internal_roots h)))"

definition is_sandbox_only :: "string \<Rightarrow> bool" where
  "is_sandbox_only path = (has_prefix path ''~/.agents'' \<or> has_prefix path ''/root/.agents'')"

definition host_home_content_dirs :: "string list" where
  "host_home_content_dirs = [''Documents'', ''Downloads'', ''Desktop'', ''projects'', ''code'', ''work'', ''src'']"

definition is_explicit_host_scope :: "host \<Rightarrow> string \<Rightarrow> bool" where
  "is_explicit_host_scope h path =
     (if is_fluctio_internal h path \<or> is_sandbox_only path then False
      else if has_prefix path ''~/''
      then list_ex (\<lambda>p. drop 2 path = p \<or> has_prefix (drop 2 path) (p @ ''/'')) host_home_content_dirs
      else if \<not> is_abs path then False
      else has_prefix path ''/Users/'' \<or> has_prefix path ''/home/'')"

datatype operation = OpRead | OpWrite | OpList | OpExec

definition dangerous_prefixes :: "string list" where
  "dangerous_prefixes = [''/etc'', ''/usr'', ''/var'', ''/bin'', ''/sbin'', ''/opt'', ''/root'']"

definition is_dangerous_on_host :: "operation \<Rightarrow> string \<Rightarrow> bool" where
  "is_dangerous_on_host op path =
     ((op = OpExec \<or> op = OpWrite) \<and> is_abs path
      \<and> list_ex (\<lambda>p. path = p \<or> has_prefix path (p @ ''/'')) dangerous_prefixes)"

datatype route_target =
    RouteSandbox
  | RouteWorkspaceStore
  | RouteSystemStore
  | RouteSkillStore
  | RouteHostFS
  | RouteRefuseSuggestSandbox

definition route_for :: "host \<Rightarrow> registry \<Rightarrow> string \<Rightarrow> operation \<Rightarrow> route_target" where
  "route_for h r path op =
     (if rg_has_workspace r \<and> rg_agent r \<noteq> [] \<and> is_workspace_path path then RouteWorkspaceStore
      else if rg_has_system r \<and> rg_agent r \<noteq> [] \<and> is_single_segment_system_file path then RouteSystemStore
      else if is_skill_path path \<and> rg_system_root r \<noteq> [] then RouteSkillStore
      else if ho_hosted h then (if rg_has_executor r then RouteSandbox else RouteRefuseSuggestSandbox)
      else if rg_has_executor r
      then (if is_fluctio_internal h path then RouteSandbox
            else if rg_host_trusted r \<and> is_explicit_host_scope h path then RouteHostFS
            else RouteSandbox)
      else if is_dangerous_on_host op path then RouteRefuseSuggestSandbox
      else RouteHostFS)"

section \<open>Targets of writes\<close>

datatype path_error = PathRequired | PathEndsInSeparator string | PathIsDirectory string

definition validate_file_target :: "string \<Rightarrow> path_error option" where
  "validate_file_target path =
     (if trim_space path = [] then Some PathRequired
      else if has_suffix path ''/'' then Some (PathEndsInSeparator path)
      else if path_clean path \<in> {''.'', ''..'', ''/''} then Some (PathIsDirectory path)
      else None)"

section \<open>Relative clean paths\<close>

text \<open>The names of a relative clean path: some \<^verbatim>\<open>..\<close>, then proper names.\<close>

lemma foldl_clean_rel:
  assumes "\<forall>c\<in>set cs. slash \<notin> set c" and "\<exists>k ns. stk = replicate k ''..'' @ ns \<and> (\<forall>c\<in>set ns. proper_name c)"
  shows "\<exists>k ns. foldl (clean_step False) stk cs = replicate k ''..'' @ ns \<and> (\<forall>c\<in>set ns. proper_name c)"
  using assms
proof (induction cs arbitrary: stk)
  case (Cons c cs)
  then obtain k ns where stk: "stk = replicate k ''..'' @ ns" "\<forall>c\<in>set ns. proper_name c" by blast
  have "\<exists>k ns. clean_step False stk c = replicate k ''..'' @ ns \<and> (\<forall>c\<in>set ns. proper_name c)"
  proof (cases "c = ''..''")
    case True
    show ?thesis
    proof (cases "ns = []")
      case ns: True
      then have "clean_step False stk c = replicate (Suc k) ''..''"
        using True stk by (cases k) (auto simp: clean_step_def replicate_append_same)
      then show ?thesis by (intro exI [of _ "Suc k"] exI [of _ "[]"]) simp
    next
      case False
      then have "last ns \<noteq> ''..''" using stk(2) by (auto simp: proper_name_def)
      with False True stk have "clean_step False stk c = replicate k ''..'' @ butlast ns"
        by (simp add: clean_step_def butlast_append)
      with stk(2) show ?thesis by (intro exI) (auto dest: in_set_butlastD)
    qed
  next
    case False
    then have "clean_step False stk c = stk \<or> clean_step False stk c = replicate k ''..'' @ (ns @ [c]) \<and> proper_name c"
      using stk(1) Cons.prems(1) by (auto simp: clean_step_def proper_name_def)
    then show ?thesis
    proof
      assume "clean_step False stk c = stk"
      then show ?thesis using stk by auto
    next
      assume a: "clean_step False stk c = replicate k ''..'' @ (ns @ [c]) \<and> proper_name c"
      show ?thesis
        by (rule exI [of _ k], rule exI [of _ "ns @ [c]"]) (use a stk(2) in auto)
    qed
  qed
  with Cons.IH [of "clean_step False stk c"] Cons.prems(1) show ?case by simp
qed simp

lemma rel_comps:
  obtains k ns where "clean_comps False p = replicate k ''..'' @ ns" "\<forall>c\<in>set ns. proper_name c"
proof -
  have "\<exists>k ns. clean_comps False p = replicate k ''..'' @ ns \<and> (\<forall>c\<in>set ns. proper_name c)"
    unfolding clean_comps_def
    by (rule foldl_clean_rel) (auto dest: split_str_char_parts intro: exI [of _ 0])
  with that show thesis by blast
qed

lemma join_replicate_Suc:
  "join_str (replicate (Suc k) ''..'' @ ns) [slash] =
     (if k = 0 \<and> ns = [] then ''..'' else ''../'' @ join_str (replicate k ''..'' @ ns) [slash])"
  by (cases "replicate k ''..'' @ ns") (auto simp: join_str_Cons)

lemma names_not_dotdot:
  assumes "\<forall>c\<in>set ns. proper_name c" and "ns \<noteq> []"
  shows "join_str ns [slash] \<noteq> ''..''" "\<not> has_prefix (join_str ns [slash]) ''../''"
    "\<not> has_prefix (join_str ns [slash]) ''./''" "join_str ns [slash] \<noteq> []" "join_str ns [slash] \<noteq> ''.''"
proof -
  let ?j = "join_str ns [slash]"
  have split: "split_str ?j [slash] = ns" by (rule split_join_names [OF assms(2,1)])
  have h: "hd ns \<noteq> ''..''" "hd ns \<noteq> ''.''" "hd ns \<noteq> []"
    using assms by (auto simp: proper_name_def)
  have "split_str ''..'' [slash] = [''..'']" "split_str ''.'' [slash] = [''.'']" "split_str [] [slash] = [[]]"
    by (simp_all add: split_str_def)
  then show "?j \<noteq> ''..''" "?j \<noteq> []" "?j \<noteq> ''.''"
    using split h by (metis list.sel(1))+
  have dd: "split_str (''..'' @ [slash] @ r) [slash] = ''..'' # split_str r [slash]"
    "split_str (''.'' @ [slash] @ r) [slash] = ''.'' # split_str r [slash]" for r
    by (simp_all add: split_str_def)
  show "\<not> has_prefix ?j ''../''" "\<not> has_prefix ?j ''./''"
    using split h dd by (auto simp: has_prefix_iff)
qed

section \<open>The containment check\<close>

lemma path_abs_is_abs: "is_abs cwd \<Longrightarrow> is_abs (path_abs cwd p)"
  by (auto simp: path_abs_def path_join_def path_clean_def is_abs_iff)

lemma path_abs_names: "is_abs cwd \<Longrightarrow> path_abs cwd p = slash # join_str (clean_comps True (path_abs cwd p)) [slash]"
proof -
  assume cwd: "is_abs cwd"
  then have "\<exists>q. is_abs q \<and> path_abs cwd p = path_clean q"
    by (auto simp: path_abs_def path_join_def is_abs_iff)
  then obtain q where q: "is_abs q" "path_abs cwd p = path_clean q" by blast
  then show ?thesis using clean_comps_path_clean [OF q(1)] by (simp add: path_clean_abs)
qed

text \<open>
  C17. The containment check holds: whatever root and path a tool call combines, a path that
  \<^verbatim>\<open>resolvePathSandboxed\<close> accepts is absolute, consists of proper names only (no
  \<^verbatim>\<open>..\<close>, no \<^verbatim>\<open>.\<close>, no empty name), and its names begin with those of the
  sandbox root: it lies under the root.
\<close>

theorem sandboxed_path_contained:
  assumes "resolve_path_sandboxed cwd root sandbox path = Some full" and "sandbox \<noteq> []" and "is_abs cwd"
  shows "\<exists>rest. full = slash # join_str (clean_comps True (path_abs cwd sandbox) @ rest) [slash]
    \<and> (\<forall>c\<in>set (clean_comps True (path_abs cwd sandbox) @ rest). proper_name c)"
proof -
  let ?R = "path_abs cwd sandbox" and ?F = "path_abs cwd (resolve_path root path)"
  let ?rs = "clean_comps True ?R" and ?cs = "clean_comps True ?F"
  have F: "full = ?F" and p: "has_prefix ?F (?R @ ''/'') \<or> ?F = ?R"
    using assms by (auto simp: resolve_path_sandboxed_def Let_def split: if_splits)
  note f = path_abs_names [OF assms(3), of "resolve_path root path"]
    and r = path_abs_names [OF assms(3), of sandbox]
  have names: "\<forall>c\<in>set ?cs. proper_name c" "\<forall>c\<in>set ?rs. proper_name c"
    using clean_comps_proper by blast+
  show ?thesis
    using p
  proof
    assume "has_prefix ?F (?R @ ''/'')"
    then have "has_prefix (slash # join_str ?cs [slash]) (slash # join_str ?rs [slash] @ [slash])"
      using f r by (metis append_Cons)
    from clean_under [OF this names] obtain x where "?cs = ?rs @ x" by blast
    with F f names(1) show ?thesis by (intro exI [of _ x]) simp
  next
    assume "?F = ?R"
    then have "?cs = ?rs" by simp
    with F f names(1) show ?thesis by (intro exI [of _ "[]"]) simp
  qed
qed

lemma sandboxed_path_contained_witness:
  "resolve_path_sandboxed ''/srv'' ''/srv/box'' ''/srv/box'' ''a/../b.txt'' = Some ''/srv/box/b.txt''
   \<and> resolve_path_sandboxed ''/srv'' ''/srv/box'' ''/srv/box'' ''../boxer/b.txt'' = None
   \<and> (\<exists>rest. ''/srv/box/b.txt'' = slash # join_str (clean_comps True (path_abs ''/srv'' ''/srv/box'') @ rest) [slash])"
proof -
  have r: "resolve_path_sandboxed ''/srv'' ''/srv/box'' ''/srv/box'' ''a/../b.txt'' = Some ''/srv/box/b.txt''"
    and n: "resolve_path_sandboxed ''/srv'' ''/srv/box'' ''/srv/box'' ''../boxer/b.txt'' = None"
    by code_simp+
  from sandboxed_path_contained [OF r] n r show ?thesis by (auto simp: is_abs_def has_prefix_def)
qed

section \<open>The scope check\<close>

lemma join_append: "xs \<noteq> [] \<Longrightarrow> ys \<noteq> [] \<Longrightarrow> join_str (xs @ ys) d = join_str xs d @ d @ join_str ys d"
  by (induction xs d rule: join_str.induct) (auto simp: join_str_Cons)

lemma cut_first:
  assumes "\<forall>c\<in>set ns. proper_name c" and "ns \<noteq> []"
  shows "fst (cut (join_str ns [slash]) slash) = hd ns"
proof -
  obtain n ms where ns: "ns = n # ms" using assms(2) by (cases ns) auto
  have "\<forall>c\<in>set n. c \<noteq> slash" using assms(1) ns by (auto simp: proper_name_def)
  then have "takeWhile (\<lambda>c. c \<noteq> slash) (n @ slash # r) = n" "takeWhile (\<lambda>c. c \<noteq> slash) n = n" for r
    by (simp_all add: takeWhile_append)
  then show ?thesis using ns by (cases ms) (simp_all add: cut_def)
qed

lemma clean_rel_cases:
  assumes "\<not> is_abs p"
  obtains (dot) "path_clean p = ''.''"
  | (names) ns where "path_clean p = join_str ns [slash]" "ns \<noteq> []" "\<forall>c\<in>set ns. proper_name c"
  | (up) "path_clean p = ''..''"
  | (up_names) ns where "path_clean p = ''../'' @ join_str ns [slash]" "ns \<noteq> []" "\<forall>c\<in>set ns. proper_name c"
  | (up_up) x where "path_clean p = ''../'' @ x" "x = ''..'' \<or> has_prefix x ''../''"
proof -
  obtain k ns where c: "clean_comps False p = replicate k ''..'' @ ns" "\<forall>c\<in>set ns. proper_name c"
    by (rule rel_comps)
  have clean: "path_clean p = (if replicate k ''..'' @ ns = [] then ''.'' else join_str (replicate k ''..'' @ ns) [slash])"
    using assms c(1) by (simp add: path_clean_def Let_def)
  consider "k = 0" "ns = []" | "k = 0" "ns \<noteq> []" | "k = 1" "ns = []" | "k = 1" "ns \<noteq> []"
    | j where "k = Suc (Suc j)" by (metis One_nat_def not0_implies_Suc)
  then show thesis
  proof cases
    case 1 with clean show thesis by (intro dot) simp
  next
    case 2 with clean c(2) show thesis by (intro names) simp_all
  next
    case 3 with clean show thesis by (intro up) simp
  next
    case 4
    with clean c(2) join_replicate_Suc [of 0 ns] show thesis by (intro up_names) simp_all
  next
    case (5 j)
    with clean have p: "path_clean p = ''../'' @ join_str (replicate (Suc j) ''..'' @ ns) [slash]"
      using join_replicate_Suc [of "Suc j" ns] by simp
    then show thesis
      using join_replicate_Suc [of j ns] by (intro up_up [OF p]) (auto split: if_splits)
  qed
qed

text \<open>
  A chat stays in its scope: when \<^verbatim>\<open>wsScope\<close> accepts a relative path, the store key
  is a list of proper names (it cannot climb), under the project of the chat, and either in the
  chat's own session directory or in the layer that the chats of the project share; in the
  shared layer it never enters the session directory of another chat.
\<close>

lemma chat_scope_confined:
  assumes "ws_scope r p = Inr sp" and "\<not> is_abs p"
    and "rg_coding_subdir r = [] \<or> (\<exists>ds. ds \<noteq> [] \<and> (\<forall>c\<in>set ds. proper_name c) \<and> rg_coding_subdir r = join_str ds [slash])"
  shows "\<exists>ns. ns \<noteq> [] \<and> (\<forall>c\<in>set ns. proper_name c) \<and> sp_store sp = join_str ns [slash]
    \<and> sp_project sp = rg_project r
    \<and> (sp_session sp = scope_session r
        \<or> sp_session sp = [] \<and> rg_project r \<noteq> [] \<and> scope_session r \<noteq> []
            \<and> (is_session_dir_name (hd ns) \<longrightarrow> hd ns = scope_session r))"
  using assms(2)
proof (cases rule: clean_rel_cases)
  case dot
  with assms(1) show ?thesis by (simp add: ws_scope_def trim_prefix_def has_prefix_def)
next
  case up
  with assms(1) show ?thesis
    by (simp add: ws_scope_def trim_prefix_def has_prefix_def Let_def split: if_splits)
next
  case (up_up x)
  then have "trim_prefix (path_clean p) ''./'' = ''../'' @ x" "trim_prefix (''../'' @ x) ''../'' = x"
    by (simp_all add: trim_prefix_def has_prefix_def)
  with assms(1) up_up(2) show ?thesis
    by (auto simp: ws_scope_def has_prefix_def Let_def split: if_splits)
next
  case (up_names ns)
  let ?j = "join_str ns [slash]"
  have "trim_prefix (path_clean p) ''./'' = ''../'' @ ?j" "trim_prefix (''../'' @ ?j) ''../'' = ?j"
    using up_names(1) by (simp_all add: trim_prefix_def has_prefix_def)
  with assms(1) names_not_dotdot [OF up_names(3,2)] cut_first [OF up_names(3,2)]
  have "sp = \<lparr>sp_project = rg_project r, sp_session = [], sp_store = ?j, sp_box = ''/workspace/'' @ ?j\<rparr>
      \<and> rg_project r \<noteq> [] \<and> scope_session r \<noteq> []
      \<and> (is_session_dir_name (hd ns) \<longrightarrow> hd ns = scope_session r)"
    by (auto simp: ws_scope_def Let_def has_prefix_def split: if_splits)
  with up_names(2,3) show ?thesis by (intro exI [of _ ns]) simp
next
  case (names ns)
  let ?j = "join_str ns [slash]"
  note nd = names_not_dotdot [OF names(3,2)]
  have "trim_prefix (path_clean p) ''./'' = ?j"
    using names(1) nd by (simp add: trim_prefix_def)
  with assms(1) nd have sp: "sp_project sp = rg_project r" "sp_session sp = scope_session r"
    "sp_store sp = (if rg_coding_subdir r \<noteq> [] then ws_path r ?j else ?j)"
    by (auto simp: ws_scope_def Let_def split: if_splits)
  have "hd ?j \<noteq> slash"
  proof -
    obtain n ms where ns: "ns = n # ms" using names(2) by (cases ns) auto
    then obtain c n' where "n = c # n'" using names(3) by (cases n) (auto simp: proper_name_def)
    with ns names(3) show ?thesis by (cases ms) (auto simp: proper_name_def)
  qed
  then have drop: "dropWhile (\<lambda>c. c = slash) ?j = ?j"
    using nd by (cases ?j) auto
  have "\<exists>ms. ms \<noteq> [] \<and> (\<forall>c\<in>set ms. proper_name c) \<and> sp_store sp = join_str ms [slash]"
  proof (cases "sp_store sp = ?j")
    case True
    with names show ?thesis by blast
  next
    case False
    then have "sp_store sp = rg_coding_subdir r @ ''/'' @ ?j" "rg_coding_subdir r \<noteq> []"
      using sp(3) drop by (auto simp: ws_path_def Let_def split: if_splits)
    with assms(3) obtain ds where "ds \<noteq> []" "\<forall>c\<in>set ds. proper_name c"
      "sp_store sp = join_str ds [slash] @ [slash] @ ?j" by auto
    with names(2,3) show ?thesis
      by (intro exI [of _ "ds @ ns"]) (auto simp: join_append)
  qed
  with sp show ?thesis by auto
qed

definition chat :: registry where
  "chat = \<lparr>rg_agent = ''a1'', rg_owner = ''boss'', rg_user = ''guest'', rg_user_root = ''/srv/ws'',
           rg_system_root = ''/srv/agent'', rg_sandbox_root = ''/srv/ws'', rg_project = ''p1'',
           rg_session = ''s-1-a'', rg_coding_root = False, rg_coding_subdir = [], rg_admin = False,
           rg_host_trusted = False, rg_has_workspace = True, rg_has_system = True, rg_has_executor = True,
           rg_box_remote = False\<rparr>"

lemma chat_scope_confined_witness:
  "\<exists>sp. ws_scope chat ''../shared/./x/../notes.md'' = Inr sp \<and> sp_store sp = ''shared/notes.md''
    \<and> sp_session sp = [] \<and> (\<exists>ns. ns \<noteq> [] \<and> (\<forall>c\<in>set ns. proper_name c) \<and> sp_store sp = join_str ns [slash])"
proof -
  let ?sp = "\<lparr>sp_project = ''p1'', sp_session = [], sp_store = ''shared/notes.md'', sp_box = ''/workspace/shared/notes.md''\<rparr>"
  have s: "ws_scope chat ''../shared/./x/../notes.md'' = Inr ?sp" by code_simp
  have "\<not> is_abs ''../shared/./x/../notes.md''" "rg_coding_subdir chat = []" by code_simp+
  then have "\<exists>ns. ns \<noteq> [] \<and> (\<forall>c\<in>set ns. proper_name c) \<and> sp_store ?sp = join_str ns [slash]"
    using chat_scope_confined [OF s] by blast
  with s show ?thesis by (intro exI [of _ ?sp]) simp
qed

text \<open>
  The write guard of the host route looks at the text of the path and not at where it leads:
  on a local install without a sandbox a write to an absolute path that goes through another
  directory first is routed to the host's disk, whatever the directory it ends in.
\<close>

lemma host_guard_ignores_dotdot:
  assumes "\<not> ho_hosted h" and "\<not> rg_has_executor r" and "has_prefix path ''/tmp/../''"
  shows "route_for h r path OpWrite = RouteHostFS"
proof -
  have abs: "is_abs path" "\<not> is_workspace_path path" "\<not> is_single_segment_system_file path" "\<not> is_skill_path path"
    using assms(3)
    by (auto simp: has_prefix_iff is_workspace_path_def is_single_segment_system_file_def is_skill_path_def)
  have "\<not> is_dangerous_on_host OpWrite path"
    using assms(3) by (auto simp: has_prefix_iff is_dangerous_on_host_def dangerous_prefixes_def)
  with abs assms show ?thesis by (simp add: route_for_def)
qed

definition laptop :: host where
  "laptop = \<lparr>ho_home = Some ''/home/me'', ho_fluctio_home = [], ho_cwd = ''/srv'', ho_hosted = False\<rparr>"

lemma host_guard_ignores_dotdot_witness:
  "route_for laptop (chat\<lparr>rg_has_executor := False\<rparr>) ''/tmp/../etc/passwd'' OpWrite = RouteHostFS
   \<and> path_clean ''/tmp/../etc/passwd'' = ''/etc/passwd''
   \<and> route_for laptop (chat\<lparr>rg_has_executor := False\<rparr>) ''/etc/passwd'' OpWrite = RouteRefuseSuggestSandbox"
proof -
  have "route_for laptop (chat\<lparr>rg_has_executor := False\<rparr>) ''/tmp/../etc/passwd'' OpWrite = RouteHostFS"
    by (rule host_guard_ignores_dotdot) (simp_all add: laptop_def chat_def has_prefix_def)
  moreover have "path_clean ''/tmp/../etc/passwd'' = ''/etc/passwd''"
    "route_for laptop (chat\<lparr>rg_has_executor := False\<rparr>) ''/etc/passwd'' OpWrite = RouteRefuseSuggestSandbox"
    by code_simp+
  ultimately show ?thesis by blast
qed

end
