(* ===== verification/Patch_Engine.thy ===== *)
theory Patch_Engine
  imports Patch_Apply Tool_Paths
begin

text \<open>
  The engine of \<^verbatim>\<open>apply_patch\<close> (\<^verbatim>\<open>runApplyPatch\<close> in
  \<^verbatim>\<open>internal/agent/tools/apply_patch.go\<close>) over any backend, and its two backends: host
  mode and sandbox mode, each with its read, write and delete.

  The files of every store are one map from keys to contents. Every access of a store takes one
  outcome from \<open>ts_faults\<close> (\<open>True\<close>: it fails and changes nothing).
\<close>

section \<open>Stores\<close>

datatype file_key =
    WsKey string string string string   \<comment> \<open>workspace store: agent, project, session, path\<close>
  | SysKey string string string         \<comment> \<open>system file store: agent, user, name\<close>
  | DiskKey string                      \<comment> \<open>host disk: absolute path\<close>
  | BoxKey string                       \<comment> \<open>the sandbox executor's file system\<close>

type_synonym files = "file_key \<Rightarrow> string option"

record tool_state =
  ts_files :: files
  ts_faults :: "bool list"

datatype io_error = IoFailed | IoNotFound

datatype tool_error =
    TeRefused
  | TeScope scope_error
  | TeOutside
  | TeGlobalSkills
  | TeIdentityDelete
  | TeIo io_error

definition io_tick :: "tool_state \<Rightarrow> bool \<times> tool_state" where
  "io_tick s = (case ts_faults s of [] \<Rightarrow> (False, s) | f # fs \<Rightarrow> (f, s\<lparr>ts_faults := fs\<rparr>))"

definition io_get :: "(files \<Rightarrow> string option) \<Rightarrow> tool_state \<Rightarrow> (io_error, string) res \<times> tool_state" where
  "io_get look s =
     (let (bad, s1) = io_tick s in
      if bad then (Inl IoFailed, s1)
      else case look (ts_files s1) of None \<Rightarrow> (Inl IoNotFound, s1) | Some c \<Rightarrow> (Inr c, s1))"

definition io_put :: "file_key \<Rightarrow> string \<Rightarrow> tool_state \<Rightarrow> io_error option \<times> tool_state" where
  "io_put k c s =
     (let (bad, s1) = io_tick s in
      if bad then (Some IoFailed, s1) else (None, s1\<lparr>ts_files := (ts_files s1)(k := Some c)\<rparr>))"

definition io_del :: "bool \<Rightarrow> file_key \<Rightarrow> tool_state \<Rightarrow> io_error option \<times> tool_state" where
  "io_del must_exist k s =
     (let (bad, s1) = io_tick s in
      if bad then (Some IoFailed, s1)
      else if must_exist \<and> ts_files s1 k = None then (Some IoNotFound, s1)
      else (None, s1\<lparr>ts_files := (ts_files s1)(k := None)\<rparr>))"

text \<open>
  The system file store: the per-user files are read exactly, the others through
  \<^verbatim>\<open>GetWorkspaceFile\<close>, whose owner-row fallback is the parameter \<open>overlay\<close>.
\<close>

type_synonym overlay = "string \<Rightarrow> string \<Rightarrow> string \<Rightarrow> files \<Rightarrow> string option"

definition read_system_file :: "overlay \<Rightarrow> registry \<Rightarrow> string \<Rightarrow> files \<Rightarrow> string option" where
  "read_system_file ov r name f =
     (let user = system_file_user r name in
      if is_per_user_system_file name then f (SysKey (rg_agent r) user name)
      else ov (rg_agent r) user name f)"

definition uses_workspace :: "registry \<Rightarrow> string \<Rightarrow> bool" where
  "uses_workspace r path \<longleftrightarrow> rg_has_workspace r \<and> rg_agent r \<noteq> [] \<and> is_workspace_path path"

definition uses_system :: "registry \<Rightarrow> bool" where
  "uses_system r \<longleftrightarrow> rg_has_system r \<and> rg_agent r \<noteq> []"

definition ws_key :: "registry \<Rightarrow> ws_scope_path \<Rightarrow> file_key" where
  "ws_key r sp = WsKey (rg_agent r) (sp_project sp) (sp_session sp) (sp_store sp)"

definition lift_io :: "(io_error, 'a) res \<times> 's \<Rightarrow> (tool_error, 'a) res \<times> 's" where
  "lift_io x = (case x of (Inl e, s) \<Rightarrow> (Inl (TeIo e), s) | (Inr c, s) \<Rightarrow> (Inr c, s))"

definition lift_err :: "io_error option \<times> 's \<Rightarrow> tool_error option \<times> 's" where
  "lift_err x = (case x of (e, s) \<Rightarrow> (map_option TeIo e, s))"

definition disk_path :: "host \<Rightarrow> registry \<Rightarrow> string \<Rightarrow> string option" where
  "disk_path h r path =
     (let root = root_for_path r path
      in resolve_path_sandboxed (ho_cwd h) root (effective_sandbox_root r root) path)"

text \<open>The file a path names on the disk, whatever way the path is written (links aside).\<close>

definition disk_key :: "host \<Rightarrow> string \<Rightarrow> file_key" where
  "disk_key h full = DiskKey (path_abs (ho_cwd h) full)"

section \<open>Host mode\<close>

definition read_for_patch ::
  "host \<Rightarrow> overlay \<Rightarrow> registry \<Rightarrow> string \<Rightarrow> tool_state \<Rightarrow> (tool_error, string) res \<times> tool_state" where
  "read_for_patch h ov r path s =
     (if identity_file_blocked r path then (Inl TeRefused, s)
      else if uses_workspace r path
      then (case ws_scope r path of
              Inl e \<Rightarrow> (Inl (TeScope e), s)
            | Inr sp \<Rightarrow> lift_io (io_get (\<lambda>f. f (ws_key r sp)) s))
      else if uses_system r \<and> basename_is_system_file path
      then
        (let name = path_base (path_clean path) in
         case io_get (read_system_file ov r name) s of
           (Inr c, s1) \<Rightarrow> (Inr c, s1)
         | (Inl _, s1) \<Rightarrow>
             (if rg_system_root r \<noteq> []
              then (case io_get (\<lambda>f. f (disk_key h (path_join (rg_system_root r) name))) s1 of
                      (Inr c, s2) \<Rightarrow> (Inr c, s2)
                    | (Inl _, s2) \<Rightarrow> (Inr [], s2))
              else (Inr [], s1)))
      else case disk_path h r path of
             None \<Rightarrow> (Inl TeOutside, s)
           | Some full \<Rightarrow>
               (case io_get (\<lambda>f. f (disk_key h full)) s of
                  (Inr c, s1) \<Rightarrow> (Inr c, s1)
                | (Inl e, s1) \<Rightarrow>
                    (if e = IoNotFound \<and> is_single_segment_system_file path then (Inr [], s1)
                     else (Inl (TeIo e), s1))))"

definition write_for_patch ::
  "host \<Rightarrow> registry \<Rightarrow> string \<Rightarrow> string \<Rightarrow> tool_state \<Rightarrow> tool_error option \<times> tool_state" where
  "write_for_patch h r path content s =
     (if identity_file_blocked r path then (Some TeRefused, s)
      else if uses_workspace r path
      then (case ws_scope r path of
              Inl e \<Rightarrow> (Some (TeScope e), s)
            | Inr sp \<Rightarrow> lift_err (io_put (ws_key r sp) content s))
      else if uses_system r \<and> is_single_segment_system_file path
      then
        (let name = path_clean path in
         case io_put (SysKey (rg_agent r) (system_file_user r name) name) content s of
           (Some e, s1) \<Rightarrow> (Some (TeIo e), s1)
         | (None, s1) \<Rightarrow>
             (if rg_system_root r \<noteq> []
              then (None, snd (io_put (disk_key h (path_join (rg_system_root r) name)) content s1))
              else (None, s1)))
      else case disk_path h r path of
             None \<Rightarrow> (Some TeOutside, s)
           | Some full \<Rightarrow>
               (if is_global_skills_path full then (Some TeGlobalSkills, s)
                else lift_err (io_put (disk_key h full) content s)))"

definition delete_for_patch ::
  "host \<Rightarrow> registry \<Rightarrow> string \<Rightarrow> tool_state \<Rightarrow> tool_error option \<times> tool_state" where
  "delete_for_patch h r path s =
     (if is_single_segment_system_file path then (Some TeIdentityDelete, s)
      else if uses_workspace r path
      then (case ws_scope r path of
              Inl e \<Rightarrow> (Some (TeScope e), s)
            | Inr sp \<Rightarrow> lift_err (io_del False (ws_key r sp) s))
      else case disk_path h r path of
             None \<Rightarrow> (Some TeOutside, s)
           | Some full \<Rightarrow> lift_err (io_del True (disk_key h full) s))"

section \<open>Sandbox mode\<close>

definition read_for_patch_sandbox ::
  "overlay \<Rightarrow> registry \<Rightarrow> string \<Rightarrow> tool_state \<Rightarrow> (tool_error, string) res \<times> tool_state" where
  "read_for_patch_sandbox ov r path s =
     (if uses_system r \<and> basename_is_system_file path
      then (case io_get (read_system_file ov r (path_base (path_clean path))) s of
              (Inr c, s1) \<Rightarrow> (Inr c, s1) | (Inl _, s1) \<Rightarrow> (Inr [], s1))
      else if uses_workspace r path
      then (case ws_scope r path of
              Inl e \<Rightarrow> (Inl (TeScope e), s)
            | Inr sp \<Rightarrow>
                (case io_get (\<lambda>f. f (ws_key r sp)) s of
                   (Inr c, s1) \<Rightarrow> (Inr c, s1)
                 | (Inl _, s1) \<Rightarrow> lift_io (io_get (\<lambda>f. f (BoxKey (sp_box sp))) s1)))
      else lift_io (io_get (\<lambda>f. f (BoxKey path)) s))"

definition write_for_patch_sandbox ::
  "registry \<Rightarrow> string \<Rightarrow> string \<Rightarrow> tool_state \<Rightarrow> tool_error option \<times> tool_state" where
  "write_for_patch_sandbox r path content s =
     (if uses_system r \<and> is_single_segment_system_file path
      then
        (let name = path_clean path
         in lift_err (io_put (SysKey (rg_agent r) (system_file_user r name) name) content s))
      else if uses_workspace r path
      then (case ws_scope r path of
              Inl e \<Rightarrow> (Some (TeScope e), s)
            | Inr sp \<Rightarrow>
                (case io_put (ws_key r sp) content s of
                   (Some e, s1) \<Rightarrow> (Some (TeIo e), s1)
                 | (None, s1) \<Rightarrow> lift_err (io_put (BoxKey (sp_box sp)) content s1)))
      else lift_err (io_put (BoxKey path) content s))"

definition delete_for_patch_sandbox ::
  "registry \<Rightarrow> string \<Rightarrow> tool_state \<Rightarrow> tool_error option \<times> tool_state" where
  "delete_for_patch_sandbox r path s =
     (if is_single_segment_system_file path then (Some TeIdentityDelete, s)
      else if uses_workspace r path
      then (case ws_scope r path of
              Inl e \<Rightarrow> (Some (TeScope e), s)
            | Inr sp \<Rightarrow>
                (case io_del False (ws_key r sp) s of
                   (Some e, s1) \<Rightarrow> (Some (TeIo e), s1)
                 | (None, s1) \<Rightarrow> (None, snd (io_del False (BoxKey (sp_box sp)) s1))))
      else lift_err (io_del False (BoxKey path) s))"

section \<open>The engine\<close>

datatype patch_fault =
    PfParse patch_error
  | PfNoPath patch_op_type
  | PfIdentityDelete string
  | PfIdentityMove string string
  | PfRead string tool_error
  | PfApply apply_error
  | PfWrite string tool_error
  | PfDelete string tool_error

type_synonym 's reader = "string \<Rightarrow> 's \<Rightarrow> (tool_error, string) res \<times> 's"
type_synonym 's writer = "string \<Rightarrow> string \<Rightarrow> 's \<Rightarrow> tool_error option \<times> 's"
type_synonym 's deleter = "string \<Rightarrow> 's \<Rightarrow> tool_error option \<times> 's"

type_synonym plan = "(string \<times> string) list \<times> string list"

text \<open>What one operation adds to the plan.\<close>

definition plan_op :: "'s reader \<Rightarrow> patch_op \<Rightarrow> 's \<Rightarrow> (patch_fault, plan) res \<times> 's" where
  "plan_op read p s =
     (if po_path p = [] then (Inl (PfNoPath (po_type p)), s)
      else case po_type p of
        OpAdd \<Rightarrow> (Inr ([(po_path p, po_body p)], []), s)
      | OpDelete \<Rightarrow>
          (if is_single_segment_system_file (po_path p) then (Inl (PfIdentityDelete (po_path p)), s)
           else (Inr ([], [po_path p]), s))
      | OpUpdate \<Rightarrow>
          (if po_move p \<noteq> [] \<and> (is_single_segment_system_file (po_path p) \<or> is_single_segment_system_file (po_move p))
           then (Inl (PfIdentityMove (po_path p) (po_move p)), s)
           else case read (po_path p) s of
             (Inl e, s1) \<Rightarrow> (Inl (PfRead (po_path p) e), s1)
           | (Inr old, s1) \<Rightarrow>
              (case apply_hunks (po_path p) old (po_hunks p) of
                 Inl e \<Rightarrow> (Inl (PfApply e), s1)
               | Inr updated \<Rightarrow>
                   (if po_move p \<noteq> [] \<and> po_move p \<noteq> po_path p
                    then (Inr ([(po_move p, updated)], [po_path p]), s1)
                    else (Inr ([(po_path p, updated)], []), s1)))))"

fun plan_ops :: "'s reader \<Rightarrow> patch_op list \<Rightarrow> 's \<Rightarrow> (patch_fault, plan) res \<times> 's" where
  "plan_ops read [] s = (Inr ([], []), s)"
| "plan_ops read (p # ps) s =
     (case plan_op read p s of
        (Inl e, s1) \<Rightarrow> (Inl e, s1)
      | (Inr (ws, ds), s1) \<Rightarrow>
         (case plan_ops read ps s1 of
            (Inl e, s2) \<Rightarrow> (Inl e, s2)
          | (Inr (ws', ds'), s2) \<Rightarrow> (Inr (ws @ ws', ds @ ds'), s2)))"

fun run_writes :: "'s writer \<Rightarrow> (string \<times> string) list \<Rightarrow> 's \<Rightarrow> patch_fault option \<times> 's" where
  "run_writes write [] s = (None, s)"
| "run_writes write ((p, c) # ws) s =
     (case write p c s of
        (Some e, s1) \<Rightarrow> (Some (PfWrite p e), s1)
      | (None, s1) \<Rightarrow> run_writes write ws s1)"

fun run_deletes :: "'s deleter \<Rightarrow> string list \<Rightarrow> 's \<Rightarrow> patch_fault option \<times> 's" where
  "run_deletes del [] s = (None, s)"
| "run_deletes del (p # ps) s =
     (case del p s of
        (Some e, s1) \<Rightarrow> (Some (PfDelete p e), s1)
      | (None, s1) \<Rightarrow> run_deletes del ps s1)"

definition op_summary :: "patch_op \<Rightarrow> string" where
  "op_summary p =
     (let n = '' ('' @ nat_str (length (po_hunks p)) @ '' hunk(s))'' @ [newline] in
      case po_type p of
        OpAdd \<Rightarrow> ''A '' @ po_path p @ [newline]
      | OpDelete \<Rightarrow> ''D '' @ po_path p @ [newline]
      | OpUpdate \<Rightarrow>
          (if po_move p \<noteq> [] \<and> po_move p \<noteq> po_path p
           then ''M '' @ po_path p @ '' -> '' @ po_move p @ n
           else ''U '' @ po_path p @ n))"

definition run_apply_patch ::
  "'s reader \<Rightarrow> 's writer \<Rightarrow> 's deleter \<Rightarrow> string \<Rightarrow> 's \<Rightarrow> (patch_fault, string) res \<times> 's" where
  "run_apply_patch read write del input s =
     (case parse_patch input of
        Inl e \<Rightarrow> (Inl (PfParse e), s)
      | Inr ops \<Rightarrow>
         (case plan_ops read ops s of
            (Inl e, s1) \<Rightarrow> (Inl e, s1)
          | (Inr (ws, ds), s1) \<Rightarrow>
             (case run_writes write ws s1 of
                (Some e, s2) \<Rightarrow> (Inl e, s2)
              | (None, s2) \<Rightarrow>
                 (case run_deletes del ds s2 of
                    (Some e, s3) \<Rightarrow> (Inl e, s3)
                  | (None, s3) \<Rightarrow> (Inr (concat (map op_summary ops)), s3)))))"

definition apply_patch_host ::
  "host \<Rightarrow> overlay \<Rightarrow> registry \<Rightarrow> string \<Rightarrow> tool_state \<Rightarrow> (patch_fault, string) res \<times> tool_state" where
  "apply_patch_host h ov r =
     run_apply_patch (read_for_patch h ov r) (write_for_patch h r) (delete_for_patch h r)"

text \<open>The badge of a result that the sandbox produced.\<close>

definition meta_sandbox_prefix :: string where
  "meta_sandbox_prefix = CHR 0x1F # ''FC_META:sandbox'' @ [CHR 0x1F, newline]"

definition apply_patch_sandbox ::
  "overlay \<Rightarrow> registry \<Rightarrow> string \<Rightarrow> tool_state \<Rightarrow> (patch_fault, string) res \<times> tool_state" where
  "apply_patch_sandbox ov r input s =
     (case run_apply_patch (read_for_patch_sandbox ov r) (write_for_patch_sandbox r) (delete_for_patch_sandbox r)
             input s of
        (Inl e, s1) \<Rightarrow> (Inl e, s1)
      | (Inr out, s1) \<Rightarrow> (Inr (meta_sandbox_prefix @ out), s1))"

end
