(* ===== verification/Patch_Backend.thy ===== *)
theory Patch_Backend
  imports Patch_Engine
begin

text \<open>
  What the patch engine may rely on and what it guarantees. The locale \<open>patch_backend\<close> is the
  contract of the three functions handed to \<^verbatim>\<open>runApplyPatch\<close>; the engine's theorems
  are proved in it once, and the host and the sandbox backend are shown to honour it.
\<close>

section \<open>Vocabulary\<close>

text \<open>The faults a patch can end with once it has begun to change files.\<close>

fun write_phase :: "patch_fault \<Rightarrow> bool" where
  "write_phase (PfWrite _ _) = True"
| "write_phase (PfDelete _ _) = True"
| "write_phase _ = False"

text \<open>The paths the operations of a patch name.\<close>

definition named_paths :: "patch_op list \<Rightarrow> string set" where
  "named_paths ops = (\<Union>p\<in>set ops. set (filter (\<lambda>q. q \<noteq> []) [po_path p, po_move p]))"

section \<open>The contract\<close>

locale patch_backend =
  fixes rd :: "'s reader" and wr :: "'s writer" and dl :: "'s deleter"
    and files :: "'s \<Rightarrow> 'k \<Rightarrow> string option"
    and slot :: "string \<Rightarrow> 'k"
    and touched :: "string \<Rightarrow> 'k set"
  assumes read_keeps: "rd p s = (r, s') \<Longrightarrow> files s' = files s"
    and write_lands: "wr p c s = (None, s') \<Longrightarrow> files s' (slot p) = Some c"
    and write_frame: "wr p c s = (e, s') \<Longrightarrow> k \<notin> touched p \<Longrightarrow> files s' k = files s k"
    and del_frame: "dl p s = (e, s') \<Longrightarrow> k \<notin> touched p \<Longrightarrow> files s' k = files s k"
begin

lemma plan_op_keeps: "plan_op rd p s = (r, s') \<Longrightarrow> files s' = files s"
  by (auto simp: plan_op_def split: if_splits patch_op_type.splits prod.splits sum.splits dest: read_keeps)

lemma plan_ops_keeps: "plan_ops rd ps s = (r, s') \<Longrightarrow> files s' = files s"
proof (induction ps arbitrary: s r s')
  case (Cons p ps)
  obtain r1 s1 where one: "plan_op rd p s = (r1, s1)" by fastforce
  obtain r2 s2 where two: "plan_ops rd ps s1 = (r2, s2)" by fastforce
  from plan_op_keeps [OF one] Cons.IH [OF two] Cons.prems one two show ?case
    by (auto split: sum.splits prod.splits)
qed simp

lemma run_writes_frame:
  "run_writes wr ws s = (e, s') \<Longrightarrow> k \<notin> (\<Union>(p, c)\<in>set ws. touched p) \<Longrightarrow> files s' k = files s k"
proof (induction ws arbitrary: s)
  case (Cons w ws)
  obtain p c where w: "w = (p, c)" by fastforce
  obtain e1 s1 where one: "wr p c s = (e1, s1)" by fastforce
  have "files s1 k = files s k" using write_frame [OF one] Cons.prems(2) w by auto
  with Cons one w show ?case by (auto split: option.splits)
qed simp

lemma run_deletes_frame:
  "run_deletes dl ds s = (e, s') \<Longrightarrow> k \<notin> (\<Union>p\<in>set ds. touched p) \<Longrightarrow> files s' k = files s k"
proof (induction ds arbitrary: s)
  case (Cons p ds)
  obtain e1 s1 where one: "dl p s = (e1, s1)" by fastforce
  have "files s1 k = files s k" using del_frame [OF one] Cons.prems(2) by auto
  with Cons one show ?case by (auto split: option.splits)
qed simp

lemma run_writes_append:
  "run_writes wr (ws1 @ ws2) s = (None, s') \<Longrightarrow>
     \<exists>s1. run_writes wr ws1 s = (None, s1) \<and> run_writes wr ws2 s1 = (None, s')"
  by (induction ws1 arbitrary: s) (auto split: prod.splits option.splits)

text \<open>The last write that reaches a slot decides what it holds.\<close>

lemma last_write:
  assumes "run_writes wr (ws1 @ (p, c) # ws2) s = (None, s')"
    and "slot p \<notin> (\<Union>(q, d)\<in>set ws2. touched q)"
  shows "files s' (slot p) = Some c"
proof -
  obtain s1 where "run_writes wr ((p, c) # ws2) s1 = (None, s')"
    using run_writes_append [OF assms(1)] by blast
  then obtain s2 where "wr p c s1 = (None, s2)" "run_writes wr ws2 s2 = (None, s')"
    by (cases "wr p c s1") (auto split: option.splits)
  with run_writes_frame [OF _ assms(2)] write_lands show ?thesis by metis
qed

text \<open>A patch that fails before its first write changes no file.\<close>

lemma run_writes_fault: "run_writes w ws s = (Some e, s') \<Longrightarrow> write_phase e"
  by (induction ws arbitrary: s) (auto split: prod.splits option.splits)

lemma run_deletes_fault: "run_deletes d ds s = (Some e, s') \<Longrightarrow> write_phase e"
  by (induction ds arbitrary: s) (auto split: prod.splits option.splits)

lemma plan_failure_keeps:
  assumes "run_apply_patch rd wr dl input s = (Inl e, s')" and "\<not> write_phase e"
  shows "files s' = files s"
  using assms plan_ops_keeps
  by (auto simp: run_apply_patch_def split: sum.splits prod.splits option.splits
      dest: run_writes_fault run_deletes_fault)

text \<open>A patch touches nothing but the files it names.\<close>

lemma plan_op_paths:
  "plan_op rd p s = (Inr (ws, ds), s') \<Longrightarrow> fst ` set ws \<union> set ds \<subseteq> named_paths [p]"
  by (auto simp: plan_op_def named_paths_def split: if_splits patch_op_type.splits prod.splits sum.splits)

lemma plan_ops_paths:
  "plan_ops rd ps s = (Inr (ws, ds), s') \<Longrightarrow> fst ` set ws \<union> set ds \<subseteq> named_paths ps"
proof (induction ps arbitrary: s ws ds)
  case (Cons p ps)
  obtain ws1 ds1 s1 ws2 ds2 where one: "plan_op rd p s = (Inr (ws1, ds1), s1)"
    and two: "plan_ops rd ps s1 = (Inr (ws2, ds2), s')" "ws = ws1 @ ws2" "ds = ds1 @ ds2"
    using Cons.prems by (auto split: prod.splits sum.splits)
  from plan_op_paths [OF one] Cons.IH [OF two(1)] two(2,3) show ?case
    by (auto simp: named_paths_def)
qed (simp add: named_paths_def)

lemma patch_frame:
  assumes "run_apply_patch rd wr dl input s = (r, s')" and "parse_patch input = Inr ops"
    and "k \<notin> (\<Union>p\<in>named_paths ops. touched p)"
  shows "files s' k = files s k"
proof -
  obtain pl s1 where plan: "plan_ops rd ops s = (pl, s1)" by fastforce
  note same = plan_ops_keeps [OF plan]
  show ?thesis
  proof (cases pl)
    case (Inl e)
    with assms plan same show ?thesis by (simp add: run_apply_patch_def)
  next
    case (Inr wd)
    obtain ws ds where wd: "wd = (ws, ds)" by fastforce
    have sub: "fst ` set ws \<union> set ds \<subseteq> named_paths ops"
      using plan_ops_paths plan Inr wd by simp
    obtain e2 s2 where w: "run_writes wr ws s1 = (e2, s2)" by fastforce
    obtain e3 s3 where d: "run_deletes dl ds s2 = (e3, s3)" by fastforce
    have "files s2 k = files s1 k"
      by (rule run_writes_frame [OF w]) (use assms(3) sub in force)
    moreover have "files s3 k = files s2 k"
      by (rule run_deletes_frame [OF d]) (use assms(3) sub in force)
    ultimately show ?thesis
      using assms(1,2) plan Inr wd w d same
      by (auto simp: run_apply_patch_def split: option.splits)
  qed
qed

end

section \<open>Accesses\<close>

lemma io_tick_files [simp]: "io_tick s = (b, s1) \<Longrightarrow> ts_files s1 = ts_files s"
  by (auto simp: io_tick_def split: list.splits)

lemma io_get_files: "io_get look s = (r, s') \<Longrightarrow> ts_files s' = ts_files s"
  by (auto simp: io_get_def split: prod.splits if_splits option.splits)

lemma io_get_files_snd [simp]: "ts_files (snd (io_get look s)) = ts_files s"
  using io_get_files by (metis prod.collapse)

lemma io_put_None: "io_put k c s = (None, s') \<Longrightarrow> ts_files s' = (ts_files s)(k := Some c)"
  by (auto simp: io_put_def split: prod.splits if_splits)

lemma io_put_frame: "io_put k c s = (e, s') \<Longrightarrow> j \<noteq> k \<Longrightarrow> ts_files s' j = ts_files s j"
  by (auto simp: io_put_def split: prod.splits if_splits)

lemma io_del_frame: "io_del m k s = (e, s') \<Longrightarrow> j \<noteq> k \<Longrightarrow> ts_files s' j = ts_files s j"
  by (auto simp: io_del_def split: prod.splits if_splits)

lemma lift_io_files: "lift_io x = (r, s') \<Longrightarrow> snd x = s'"
  by (auto simp: lift_io_def split: prod.splits sum.splits)

lemma lift_err_iff: "lift_err x = (e, s') \<longleftrightarrow> (\<exists>e0. x = (e0, s') \<and> e = map_option TeIo e0)"
  by (auto simp: lift_err_def split: prod.splits)

section \<open>The host backend\<close>

definition host_slot :: "host \<Rightarrow> registry \<Rightarrow> string \<Rightarrow> file_key" where
  "host_slot h r path =
     (if uses_workspace r path
      then (case ws_scope r path of Inr sp \<Rightarrow> ws_key r sp | Inl _ \<Rightarrow> DiskKey [])
      else if uses_system r \<and> is_single_segment_system_file path
      then SysKey (rg_agent r) (system_file_user r (path_clean path)) (path_clean path)
      else (case disk_path h r path of Some full \<Rightarrow> disk_key h full | None \<Rightarrow> DiskKey []))"

definition host_touched :: "host \<Rightarrow> registry \<Rightarrow> string \<Rightarrow> file_key set" where
  "host_touched h r path =
     {host_slot h r path} \<union>
     (if \<not> uses_workspace r path \<and> uses_system r \<and> is_single_segment_system_file path
      then {disk_key h (path_join (rg_system_root r) (path_clean path))} else {})"

interpretation hostbe: patch_backend "read_for_patch h ov r" "write_for_patch h r" "delete_for_patch h r"
    ts_files "host_slot h r" "host_touched h r"
proof (unfold_locales, goal_cases)
  case (1 p s x s')
  then show ?case
    by (auto simp: read_for_patch_def Let_def split: if_splits sum.splits option.splits prod.splits
        dest!: io_get_files lift_io_files)
next
  case (2 p c s s')
  then show ?case
    by (auto simp: write_for_patch_def host_slot_def Let_def lift_err_iff disk_key_def
        split: if_splits sum.splits option.splits prod.splits dest!: io_put_None)
      (metis fun_upd_same file_key.distinct(7) io_put_frame prod.collapse)+
next
  case (3 p c s e s' k)
  then show ?case
    by (auto simp: write_for_patch_def host_slot_def host_touched_def Let_def lift_err_iff
        split: if_splits sum.splits option.splits prod.splits)
      (metis io_put_frame prod.collapse)+
next
  case (4 p s e s' k)
  then show ?case
    by (auto simp: delete_for_patch_def host_slot_def host_touched_def Let_def lift_err_iff
        split: if_splits sum.splits option.splits prod.splits dest: io_del_frame)
qed

section \<open>The sandbox backend\<close>

definition sandbox_slot :: "registry \<Rightarrow> string \<Rightarrow> file_key" where
  "sandbox_slot r path =
     (if uses_system r \<and> is_single_segment_system_file path
      then SysKey (rg_agent r) (system_file_user r (path_clean path)) (path_clean path)
      else if uses_workspace r path
      then (case ws_scope r path of Inr sp \<Rightarrow> ws_key r sp | Inl _ \<Rightarrow> BoxKey path)
      else BoxKey path)"

definition sandbox_touched :: "registry \<Rightarrow> string \<Rightarrow> file_key set" where
  "sandbox_touched r path =
     {sandbox_slot r path} \<union>
     (if uses_workspace r path
      then (case ws_scope r path of Inr sp \<Rightarrow> {ws_key r sp, BoxKey (sp_box sp)} | Inl _ \<Rightarrow> {})
      else {BoxKey path})"

interpretation boxbe: patch_backend "read_for_patch_sandbox ov r" "write_for_patch_sandbox r"
    "delete_for_patch_sandbox r" ts_files "sandbox_slot r" "sandbox_touched r"
proof (unfold_locales, goal_cases)
  case (1 p s x s')
  then show ?case
    by (auto simp: read_for_patch_sandbox_def split: if_splits sum.splits option.splits prod.splits
        dest!: io_get_files lift_io_files)
next
  case (2 p c s s')
  then show ?case
    by (auto simp: write_for_patch_sandbox_def sandbox_slot_def Let_def lift_err_iff ws_key_def
        split: if_splits sum.splits option.splits prod.splits dest!: io_put_None)
next
  case (3 p c s e s' k)
  then show ?case
    by (auto simp: write_for_patch_sandbox_def sandbox_slot_def sandbox_touched_def Let_def lift_err_iff
        split: if_splits sum.splits option.splits prod.splits dest: io_put_frame)
      (metis io_put_frame)+
next
  case (4 p s e s' k)
  then show ?case
    by (auto simp: delete_for_patch_sandbox_def sandbox_slot_def sandbox_touched_def Let_def lift_err_iff
        split: if_splits sum.splits option.splits prod.splits dest: io_del_frame)
      (metis io_del_frame prod.collapse)+
qed

section \<open>What a patch does to the files\<close>

text \<open>
  C14. A patch that fails before its write phase changes no file, on the host and in the sandbox:
  when the input does not parse, a file cannot be read, an identity file would be moved or
  deleted, or a hunk of any of the operations has no anchor.
\<close>

theorem failed_patch_changes_nothing:
  assumes "apply = apply_patch_host h ov r \<or> apply = apply_patch_sandbox ov r"
    and "apply input s = (Inl e, s')" and "\<not> write_phase e"
  shows "ts_files s' = ts_files s"
  using assms
  by (auto simp: apply_patch_host_def apply_patch_sandbox_def split: prod.splits sum.splits
      intro: hostbe.plan_failure_keeps boxbe.plan_failure_keeps)

definition shop :: tool_state where
  "shop = \<lparr>ts_files = [WsKey ''a1'' ''p1'' ''s-1-a'' ''n.txt'' \<mapsto> ''a'', SysKey ''a1'' ''boss'' ''SOUL.md'' \<mapsto> ''secret''],
           ts_faults = []\<rparr>"

definition no_overlay :: overlay where
  "no_overlay agent user name f = f (SysKey agent user name)"

definition stray_patch :: string where
  "stray_patch = ''*** Begin Patch
*** Add File: o.txt
+x
*** Update File: n.txt
@@
-zz
+b
*** End Patch''"

lemma failed_patch_changes_nothing_witness:
  "\<exists>e s'. apply_patch_host laptop no_overlay chat stray_patch shop = (Inl e, s') \<and> ts_files s' = ts_files shop"
proof -
  let ?e = "PfApply (HunkMismatch 1 ''n.txt'' [''zz''])"
  have "fst (apply_patch_host laptop no_overlay chat stray_patch shop) = Inl ?e"
    by code_simp
  then obtain s' where r: "apply_patch_host laptop no_overlay chat stray_patch shop = (Inl ?e, s')"
    by (metis prod.collapse)
  have "\<not> write_phase ?e" by simp
  from failed_patch_changes_nothing [OF disjI1 [OF refl] r this] r show ?thesis by blast
qed

text \<open>
  A patch touches only the files it names: whatever its outcome, a file that no operation
  names (as the file itself or as the target of a move) is what it was, for both backends. The
  slots of a name are its row in the store and its copy on disk or in the sandbox.
\<close>

lemma patch_touches_named_files:
  assumes "parse_patch input = Inr ops"
    and "apply = apply_patch_host h ov r \<and> touched = host_touched h r
         \<or> apply = apply_patch_sandbox ov r \<and> touched = sandbox_touched r"
    and "k \<notin> (\<Union>p\<in>named_paths ops. touched p)"
  shows "ts_files (snd (apply input s)) k = ts_files s k"
proof -
  have "ts_files (snd (apply_patch_host h ov r input s)) k = ts_files s k"
    if "k \<notin> (\<Union>p\<in>named_paths ops. host_touched h r p)"
    using hostbe.patch_frame [OF _ assms(1) that] unfolding apply_patch_host_def
    by (metis prod.collapse)
  moreover have "ts_files (snd (apply_patch_sandbox ov r input s)) k = ts_files s k"
    if out: "k \<notin> (\<Union>p\<in>named_paths ops. sandbox_touched r p)"
  proof -
    obtain x s' where run: "run_apply_patch (read_for_patch_sandbox ov r) (write_for_patch_sandbox r)
        (delete_for_patch_sandbox r) input s = (x, s')"
      by fastforce
    from boxbe.patch_frame [OF run assms(1) out] run show ?thesis
      by (cases x) (simp_all add: apply_patch_sandbox_def)
  qed
  ultimately show ?thesis using assms(2,3) by auto
qed

lemma patch_touches_named_files_witness:
  "ts_files (snd (apply_patch_sandbox no_overlay chat (print_patch [demo_op]) shop)) (WsKey ''a1'' ''p1'' ''s-1-a'' ''n.txt'')
    = Some ''a''"
proof -
  have "parse_patch (print_patch [demo_op]) = Inr [demo_op]" by code_simp
  moreover have "WsKey ''a1'' ''p1'' ''s-1-a'' ''n.txt'' \<notin> (\<Union>p\<in>named_paths [demo_op]. sandbox_touched chat p)"
    by code_simp
  ultimately have "ts_files (snd (apply_patch_sandbox no_overlay chat (print_patch [demo_op]) shop))
      (WsKey ''a1'' ''p1'' ''s-1-a'' ''n.txt'') = ts_files shop (WsKey ''a1'' ''p1'' ''s-1-a'' ''n.txt'')"
    by (intro patch_touches_named_files [where h = laptop and ov = no_overlay and r = chat
          and touched = "sandbox_touched chat"]) auto
  then show ?thesis by (simp add: shop_def)
qed

section \<open>Two operations on one file\<close>

lemma io_calm:
  assumes "ts_faults s = []"
  shows "io_get look s = (case look (ts_files s) of None \<Rightarrow> (Inl IoNotFound, s) | Some c \<Rightarrow> (Inr c, s))"
    and "io_put k c s = (None, s\<lparr>ts_files := (ts_files s)(k \<mapsto> c)\<rparr>)"
  using assms by (simp_all add: io_get_def io_put_def io_tick_def)

definition add_file :: "string \<Rightarrow> string \<Rightarrow> patch_op" where
  "add_file path body = (new_op OpAdd path)\<lparr>po_body := body\<rparr>"

definition update_file :: "string \<Rightarrow> hunk list \<Rightarrow> patch_op" where
  "update_file path hs = (new_op OpUpdate path)\<lparr>po_hunks := hs\<rparr>"

text \<open>
  Of two updates of one file in a patch only the second has an effect: both are computed from
  the file as it was, and the second write replaces the first, although the tool reports both.
\<close>

lemma later_update_discards_earlier:
  assumes "parse_patch input = Inr [update_file p hs1, update_file p hs2]" and "p \<noteq> []"
    and "uses_workspace r p" and "ws_scope r p = Inr sp" and "\<not> identity_file_blocked r p"
    and "ts_faults s = []" and "ts_files s (ws_key r sp) = Some old"
    and "apply_hunks p old hs1 = Inr new1" and "apply_hunks p old hs2 = Inr new2"
  shows "apply_patch_host h ov r input s =
    (Inr (op_summary (update_file p hs1) @ op_summary (update_file p hs2)),
     s\<lparr>ts_files := (ts_files s)(ws_key r sp \<mapsto> new2)\<rparr>)"
  using assms
  by (simp add: apply_patch_host_def run_apply_patch_def plan_op_def update_file_def new_op_def
      read_for_patch_def write_for_patch_def io_calm lift_io_def lift_err_def)

definition swap_line :: "string \<Rightarrow> string \<Rightarrow> hunk" where
  "swap_line a b = \<lparr>h_lines = [\<lparr>hl_kind = LineRemove, hl_text = a\<rparr>, \<lparr>hl_kind = LineAdd, hl_text = b\<rparr>], h_eof = False\<rparr>"

definition twice_patch :: string where
  "twice_patch = ''*** Begin Patch
*** Update File: n.txt
@@
-a
+b
*** Update File: n.txt
@@
-c
+d
*** End Patch''"

lemma later_update_discards_earlier_witness:
  "ts_files (snd (apply_patch_host laptop no_overlay chat twice_patch
      (shop\<lparr>ts_files := [WsKey ''a1'' ''p1'' ''s-1-a'' ''n.txt'' \<mapsto> ''a'' @ newline # ''c'']\<rparr>)))
     (WsKey ''a1'' ''p1'' ''s-1-a'' ''n.txt'') = Some (''a'' @ newline # ''d'')"
proof -
  let ?k = "WsKey ''a1'' ''p1'' ''s-1-a'' ''n.txt''"
  let ?s = "shop\<lparr>ts_files := [?k \<mapsto> ''a'' @ newline # ''c'']\<rparr>"
  let ?sp = "\<lparr>sp_project = ''p1'', sp_session = ''s-1-a'', sp_store = ''n.txt'', sp_box = ''/workspace/s-1-a/n.txt''\<rparr>"
  have k: "ws_key chat ?sp = ?k" by (simp add: ws_key_def chat_def)
  have parse: "parse_patch twice_patch =
      Inr [update_file ''n.txt'' [swap_line ''a'' ''b''], update_file ''n.txt'' [swap_line ''c'' ''d'']]"
    by code_simp
  have path: "''n.txt'' \<noteq> []" "uses_workspace chat ''n.txt''" "ws_scope chat ''n.txt'' = Inr ?sp"
    "\<not> identity_file_blocked chat ''n.txt''"
    by code_simp+
  have calm: "ts_faults ?s = []" and old: "ts_files ?s (ws_key chat ?sp) = Some (''a'' @ newline # ''c'')"
    by (simp_all add: k shop_def)
  have hunks: "apply_hunks ''n.txt'' (''a'' @ newline # ''c'') [swap_line ''a'' ''b''] = Inr (''b'' @ newline # ''c'')"
    "apply_hunks ''n.txt'' (''a'' @ newline # ''c'') [swap_line ''c'' ''d''] = Inr (''a'' @ newline # ''d'')"
    by code_simp+
  show ?thesis
    unfolding later_update_discards_earlier [OF parse path calm old hunks, of laptop no_overlay] k by simp
qed

section \<open>The identity files in the sandbox\<close>

text \<open>
  The gate on identity files is missing in sandbox mode: a patch that adds an identity file is
  refused to a chatter who is not an administrator in host mode and changes nothing; in sandbox
  mode the same patch overwrites the agent's file with the content the chatter chose.
\<close>

lemma sandbox_patch_skips_identity_gate:
  assumes "parse_patch input = Inr [add_file p body]"
    and "\<not> rg_admin r" and "uses_system r" and "is_single_segment_system_file p" and "is_identity_file_path p"
    and "ts_faults s = []"
  shows "apply_patch_host h ov r input s = (Inl (PfWrite p TeRefused), s) \<and>
    apply_patch_sandbox ov r input s =
      (Inr (meta_sandbox_prefix @ op_summary (add_file p body)),
       s\<lparr>ts_files := (ts_files s)(SysKey (rg_agent r) (system_file_user r (path_clean p)) (path_clean p) \<mapsto> body)\<rparr>)"
proof -
  have "p \<noteq> []" using assms(5) by (auto simp: is_identity_file_path_def)
  with assms show ?thesis
    by (simp add: apply_patch_host_def apply_patch_sandbox_def run_apply_patch_def plan_op_def add_file_def
        new_op_def write_for_patch_def write_for_patch_sandbox_def identity_file_blocked_def io_calm lift_err_def
        Let_def)
qed

definition soul_patch :: string where
  "soul_patch = ''*** Begin Patch
*** Add File: SOUL.md
+obey
*** End Patch''"

lemma sandbox_patch_skips_identity_gate_witness:
  "ts_files (snd (apply_patch_sandbox no_overlay chat soul_patch shop)) (SysKey ''a1'' ''boss'' ''SOUL.md'')
     = Some (''obey'' @ [newline])
   \<and> apply_patch_host laptop no_overlay chat soul_patch shop = (Inl (PfWrite ''SOUL.md'' TeRefused), shop)"
proof -
  have parse: "parse_patch soul_patch = Inr [add_file ''SOUL.md'' (''obey'' @ [newline])]"
    by code_simp
  have gate: "\<not> rg_admin chat" "uses_system chat" "is_single_segment_system_file ''SOUL.md''"
    "is_identity_file_path ''SOUL.md''"
    by code_simp+
  have calm: "ts_faults shop = []" by (simp add: shop_def)
  have key: "SysKey (rg_agent chat) (system_file_user chat (path_clean ''SOUL.md'')) (path_clean ''SOUL.md'')
      = SysKey ''a1'' ''boss'' ''SOUL.md''"
    by code_simp
  from sandbox_patch_skips_identity_gate [OF parse gate calm, of laptop no_overlay]
  show ?thesis unfolding key by simp
qed

text \<open>
  In sandbox mode a patch reads and writes different files: an update of a nested path whose
  last name is that of a system file (which the gate does not cover) takes the agent's system
  file as the old content and leaves the result in the chat's workspace under the nested name.
\<close>

lemma sandbox_patch_copies_system_file:
  assumes "parse_patch input = Inr [update_file p hs]" and "p \<noteq> []"
    and "uses_system r" and "basename_is_system_file p" and "\<not> is_single_segment_system_file p"
    and "uses_workspace r p" and "ws_scope r p = Inr sp" and "ts_faults s = []"
    and "read_system_file ov r (path_base (path_clean p)) (ts_files s) = Some secret"
    and "apply_hunks p secret hs = Inr new"
  shows "ts_files (snd (apply_patch_sandbox ov r input s)) (ws_key r sp) = Some new"
  using assms
  by (simp add: apply_patch_sandbox_def run_apply_patch_def plan_op_def update_file_def new_op_def
      read_for_patch_sandbox_def write_for_patch_sandbox_def io_calm lift_err_def ws_key_def)

definition leak_patch :: string where
  "leak_patch = ''*** Begin Patch
*** Update File: notes/SOUL.md
@@
+mine
*** End Patch''"

lemma sandbox_patch_copies_system_file_witness:
  "ts_files (snd (apply_patch_sandbox no_overlay chat leak_patch shop)) (WsKey ''a1'' ''p1'' ''s-1-a'' ''notes/SOUL.md'')
     = Some (''secret'' @ newline # ''mine'')"
proof -
  let ?sp = "\<lparr>sp_project = ''p1'', sp_session = ''s-1-a'', sp_store = ''notes/SOUL.md'',
    sp_box = ''/workspace/s-1-a/notes/SOUL.md''\<rparr>"
  let ?h = "\<lparr>h_lines = [\<lparr>hl_kind = LineAdd, hl_text = ''mine''\<rparr>], h_eof = False\<rparr>"
  have parse: "parse_patch leak_patch = Inr [update_file ''notes/SOUL.md'' [?h]]"
    by code_simp
  have path: "''notes/SOUL.md'' \<noteq> []" "uses_system chat" "basename_is_system_file ''notes/SOUL.md''"
    "\<not> is_single_segment_system_file ''notes/SOUL.md''" "uses_workspace chat ''notes/SOUL.md''"
    "ws_scope chat ''notes/SOUL.md'' = Inr ?sp"
    by code_simp+
  have calm: "ts_faults shop = []" by (simp add: shop_def)
  have secret: "read_system_file no_overlay chat (path_base (path_clean ''notes/SOUL.md'')) (ts_files shop) = Some ''secret''"
    by code_simp
  have new: "apply_hunks ''notes/SOUL.md'' ''secret'' [?h] = Inr (''secret'' @ newline # ''mine'')"
    by code_simp
  have k: "ws_key chat ?sp = WsKey ''a1'' ''p1'' ''s-1-a'' ''notes/SOUL.md''"
    by (simp add: ws_key_def chat_def)
  from sandbox_patch_copies_system_file [OF parse path calm secret new] show ?thesis
    unfolding k .
qed

end
