(* ===== verification/File_Tools.thy ===== *)
theory File_Tools
  imports Patch_Backend
begin

text \<open>
  The file tools \<^verbatim>\<open>read_file\<close>, \<^verbatim>\<open>write_file\<close> and
  \<^verbatim>\<open>edit_file\<close> of \<^verbatim>\<open>internal/agent/tools/file.go\<close>, in host mode
  (\<^verbatim>\<open>makeReadFile\<close>, \<^verbatim>\<open>makeWriteFile\<close>,
  \<^verbatim>\<open>makeEditFile\<close>) and in sandbox mode (\<^verbatim>\<open>registerSandboxedFile\<close>), over the
  stores of \<open>Patch_Engine\<close>, and the exact-substring edit they share
  (\<^verbatim>\<open>applyEdit\<close>).

  A reply keeps the data of the text the tool returns; the wording is not modelled.
\<close>

section \<open>Replies and errors\<close>

datatype tool_reply =
    IdentityRefused
  | SkillRefused
  | BinaryRefused string nat            \<comment> \<open>path, size\<close>
  | Whole string
  | Truncated string string nat         \<comment> \<open>path, the part shown, size\<close>
  | Written nat string
  | Edited string nat                   \<comment> \<open>path, replacements\<close>
  | Boxed tool_reply                    \<comment> \<open>with the badge of the sandbox\<close>

datatype edit_error =
    OldEmpty
  | NewSame
  | OldNotFound string
  | OldAmbiguous nat string

datatype file_error =
    FeTarget path_error
  | FeTool tool_error
  | FeEdit edit_error
  | FeSandboxRequired

type_synonym file_result = "(file_error, tool_reply) res \<times> tool_state"

definition max_read_file_bytes :: nat where
  "max_read_file_bytes = 32 * 1024"

definition looks_binary :: "string \<Rightarrow> bool" where
  "looks_binary data = (CHR 0x00 \<in> set (take 8192 data))"

definition truncate_read_file_result :: "string \<Rightarrow> string \<Rightarrow> tool_reply" where
  "truncate_read_file_result path data =
     (if length data \<le> max_read_file_bytes then Whole data
      else Truncated path (take max_read_file_bytes data) (length data))"

definition show_file :: "string \<Rightarrow> string \<Rightarrow> tool_reply" where
  "show_file path data =
     (if looks_binary data then BinaryRefused path (length data) else truncate_read_file_result path data)"

section \<open>The exact-substring edit\<close>

definition str_count :: "string \<Rightarrow> string \<Rightarrow> nat" where
  "str_count s sep = length (split_str s sep) - 1"

definition replace_all :: "string \<Rightarrow> string \<Rightarrow> string \<Rightarrow> string" where
  "replace_all s old new = join_str (split_str s old) new"

definition replace_one :: "string \<Rightarrow> string \<Rightarrow> string \<Rightarrow> string" where
  "replace_one s old new =
     (case split_str s old of
        a # b # rest \<Rightarrow> a @ new @ join_str (b # rest) old
      | _ \<Rightarrow> s)"

definition apply_edit :: "string \<Rightarrow> string \<Rightarrow> string \<Rightarrow> string \<Rightarrow> bool \<Rightarrow> (edit_error, string \<times> nat) res" where
  "apply_edit path content old new every =
     (if old = [] then Inl OldEmpty
      else if old = new then Inl NewSame
      else
        (let n = str_count content old in
         if n = 0
         then (if \<not> every \<and> str_contains content new then Inr (content, 0) else Inl (OldNotFound path))
         else if n > 1 \<and> \<not> every then Inl (OldAmbiguous n path)
         else if every then Inr (replace_all content old new, n)
         else Inr (replace_one content old new, 1)))"

section \<open>What the tools ask of their surroundings\<close>

text \<open>
  \<open>te_scope_dir\<close> is \<^verbatim>\<open>localFSScopeDirFor\<close> (project and session to a directory, empty
  for a store without a disk); \<open>te_sync\<close> is \<^verbatim>\<open>skills.SyncSkillUp\<close>, the copy of a skill
  directory into the workspace store (owner, skill, directory); the last three are the listings of
  the workspace store (path and size of every object of a scope), of a directory on the disk (name,
  whether it is a directory, size) and of the executor. They belong to packages of their own;
  \<open>None\<close> is an error.
\<close>

record tool_env =
  te_host :: host
  te_overlay :: overlay
  te_scope_dir :: "string \<Rightarrow> string \<Rightarrow> string"
  te_sync :: "string \<Rightarrow> string \<Rightarrow> string \<Rightarrow> tool_state \<Rightarrow> tool_state"
  te_list :: "string \<Rightarrow> string \<Rightarrow> string \<Rightarrow> (string \<times> nat) list option"
  te_read_dir :: "string \<Rightarrow> (string \<times> bool \<times> nat option) list option"
  te_box_list :: "string \<Rightarrow> string option"

definition fail :: "tool_error \<Rightarrow> tool_state \<Rightarrow> file_result" where
  "fail e s = (Inl (FeTool e), s)"

text \<open>The path a reply names: where the file is on the disk when the store keeps it there.\<close>

definition landed_at :: "tool_env \<Rightarrow> string \<Rightarrow> ws_scope_path \<Rightarrow> string" where
  "landed_at env path sp =
     (let dir = te_scope_dir env (sp_project sp) (sp_session sp)
      in if dir = [] then path else path_join dir (sp_store sp))"

definition mirror_skill :: "tool_env \<Rightarrow> registry \<Rightarrow> string \<Rightarrow> string \<Rightarrow> tool_state \<Rightarrow> tool_state" where
  "mirror_skill env r skill dir s =
     (if \<not> rg_has_workspace r \<or> rg_agent r = [] then s else te_sync env (rg_agent r) skill dir s)"

definition write_skill_to_host ::
  "tool_env \<Rightarrow> registry \<Rightarrow> string \<Rightarrow> string \<Rightarrow> tool_state \<Rightarrow> file_result" where
  "write_skill_to_host env r path content s =
     (let full = path_join (rg_system_root r) (path_clean path) in
      if rg_system_root r = [] then fail TeRefused s
      else if is_global_skills_path full then fail TeGlobalSkills s
      else case io_put (disk_key (te_host env) full) content s of
             (Some e, s1) \<Rightarrow> fail (TeIo e) s1
           | (None, s1) \<Rightarrow>
               (let skill = fst (cut (trim_prefix (path_clean path) ''skills/'') slash) in
                (Inr (Written (length content) full),
                 if skill \<noteq> [] then mirror_skill env r skill (path_join (rg_system_root r) ''skills'') s1 else s1)))"

definition mirror_coding_write :: "registry \<Rightarrow> string \<Rightarrow> string \<Rightarrow> tool_state \<Rightarrow> tool_state" where
  "mirror_coding_write r path content s =
     (if rg_coding_subdir r = [] \<or> \<not> rg_has_executor r \<or> \<not> rg_box_remote r then s
      else snd (io_put (BoxKey (''/workspace/'' @ trim_prefix (path_clean path) ''/'')) content s))"

section \<open>Host mode\<close>

definition read_file :: "tool_env \<Rightarrow> registry \<Rightarrow> string \<Rightarrow> tool_state \<Rightarrow> file_result" where
  "read_file env r path s =
     (let h = te_host env in
      if identity_file_blocked r path then (Inr IdentityRefused, s)
      else if skill_manifest_blocked r path then (Inr SkillRefused, s)
      else if uses_workspace r path
      then (case ws_scope r path of
              Inl e \<Rightarrow> fail (TeScope e) s
            | Inr sp \<Rightarrow>
                (case io_get (\<lambda>f. f (ws_key r sp)) s of
                   (Inl e, s1) \<Rightarrow> fail (TeIo e) s1
                 | (Inr c, s1) \<Rightarrow> (Inr (show_file path c), s1)))
      else if uses_system r \<and> basename_is_system_file path
      then
        (let name = path_base (path_clean path) in
         case io_get (read_system_file (te_overlay env) r name) s of
           (Inr c, s1) \<Rightarrow> (Inr (truncate_read_file_result path c), s1)
         | (Inl _, s1) \<Rightarrow>
             (if rg_system_root r \<noteq> []
              then (case io_get (\<lambda>f. f (disk_key h (path_join (rg_system_root r) name))) s1 of
                      (Inr c, s2) \<Rightarrow> (Inr (truncate_read_file_result path c), s2)
                    | (Inl _, s2) \<Rightarrow> (Inr (Whole []), s2))
              else (Inr (Whole []), s1)))
      else case disk_path h r path of
             None \<Rightarrow> fail TeOutside s
           | Some full \<Rightarrow>
               (case io_get (\<lambda>f. f (disk_key h full)) s of
                  (Inr c, s1) \<Rightarrow> (Inr (show_file path c), s1)
                | (Inl e, s1) \<Rightarrow>
                    (if e = IoNotFound \<and> is_single_segment_system_file path then (Inr (Whole []), s1)
                     else fail (TeIo e) s1)))"

text \<open>A system file is saved in its store and then, as far as that works, beside it on the disk.\<close>

definition save_system_file ::
  "host \<Rightarrow> registry \<Rightarrow> string \<Rightarrow> string \<Rightarrow> tool_state \<Rightarrow> tool_error option \<times> tool_state" where
  "save_system_file h r name content s =
     (case io_put (SysKey (rg_agent r) (system_file_user r name) name) content s of
        (Some e, s1) \<Rightarrow> (Some (TeIo e), s1)
      | (None, s1) \<Rightarrow>
          (None, if rg_system_root r \<noteq> []
                 then snd (io_put (disk_key h (path_join (rg_system_root r) name)) content s1) else s1))"

definition reply :: "tool_reply \<Rightarrow> tool_error option \<times> tool_state \<Rightarrow> file_result" where
  "reply rep x = (case x of (Some e, s) \<Rightarrow> fail e s | (None, s) \<Rightarrow> (Inr rep, s))"

definition write_file :: "tool_env \<Rightarrow> registry \<Rightarrow> string \<Rightarrow> string \<Rightarrow> tool_state \<Rightarrow> file_result" where
  "write_file env r path content s =
     (let h = te_host env; n = length content in
      case validate_file_target path of
        Some e \<Rightarrow> (Inl (FeTarget e), s)
      | None \<Rightarrow>
          (if identity_file_blocked r path then (Inr IdentityRefused, s)
           else if uses_workspace r path
           then (case ws_scope r path of
                   Inl e \<Rightarrow> fail (TeScope e) s
                 | Inr sp \<Rightarrow> reply (Written n (landed_at env path sp)) (lift_err (io_put (ws_key r sp) content s)))
           else if uses_system r \<and> is_single_segment_system_file path
           then reply (Written n (path_clean path)) (save_system_file h r (path_clean path) content s)
           else if is_skill_path path \<and> rg_system_root r \<noteq> []
           then write_skill_to_host env r path content s
           else case disk_path h r path of
                  None \<Rightarrow> fail TeOutside s
                | Some full \<Rightarrow>
                    (if is_global_skills_path full then fail TeGlobalSkills s
                     else reply (Written n full) (lift_err (io_put (disk_key h full) content s)))))"

record edit_args =
  ea_path :: string
  ea_old :: string
  ea_new :: string
  ea_all :: bool

text \<open>The edit of a content that was read, and the write that puts it back.\<close>

definition edit_text ::
  "edit_args \<Rightarrow> string \<Rightarrow> string \<Rightarrow> (string \<Rightarrow> tool_state \<Rightarrow> tool_error option \<times> tool_state) \<Rightarrow> tool_state \<Rightarrow> file_result"
where
  "edit_text a shown content put s =
     (case apply_edit (ea_path a) content (ea_old a) (ea_new a) (ea_all a) of
        Inl e \<Rightarrow> (Inl (FeEdit e), s)
      | Inr (updated, n) \<Rightarrow> reply (Edited shown n) (put updated s))"

definition edit_content ::
  "edit_args \<Rightarrow> string \<Rightarrow> string \<Rightarrow> (string \<Rightarrow> tool_state \<Rightarrow> tool_error option \<times> tool_state) \<Rightarrow> tool_state \<Rightarrow> file_result"
where
  "edit_content a shown content put s =
     (if looks_binary content then (Inr (BinaryRefused (ea_path a) (length content)), s)
      else edit_text a shown content put s)"

definition put_at :: "file_key \<Rightarrow> string \<Rightarrow> tool_state \<Rightarrow> tool_error option \<times> tool_state" where
  "put_at k content s = lift_err (io_put k content s)"

definition edit_file :: "tool_env \<Rightarrow> registry \<Rightarrow> edit_args \<Rightarrow> tool_state \<Rightarrow> file_result" where
  "edit_file env r a s =
     (let h = te_host env; path = ea_path a in
      case validate_file_target path of
        Some e \<Rightarrow> (Inl (FeTarget e), s)
      | None \<Rightarrow>
          (if identity_file_blocked r path then (Inr IdentityRefused, s)
           else if skill_manifest_blocked r path then (Inr SkillRefused, s)
           else if uses_workspace r path
           then (case ws_scope r path of
                   Inl e \<Rightarrow> fail (TeScope e) s
                 | Inr sp \<Rightarrow>
                     (case io_get (\<lambda>f. f (ws_key r sp)) s of
                        (Inl e, s1) \<Rightarrow> fail (TeIo e) s1
                      | (Inr c, s1) \<Rightarrow> edit_content a (landed_at env path sp) c (put_at (ws_key r sp)) s1))
           else if uses_system r \<and> is_single_segment_system_file path
           then
             (let name = path_clean path in
              case io_get (read_system_file (te_overlay env) r name) s of
                (Inl e, s1) \<Rightarrow> fail (TeIo e) s1
              | (Inr c, s1) \<Rightarrow> edit_text a name c (save_system_file h r name) s1)
           else case disk_path h r path of
                  None \<Rightarrow> fail TeOutside s
                | Some full \<Rightarrow>
                    (if is_global_skills_path full then fail TeGlobalSkills s
                     else case io_get (\<lambda>f. f (disk_key h full)) s of
                            (Inl e, s1) \<Rightarrow> fail (TeIo e) s1
                          | (Inr c, s1) \<Rightarrow> edit_content a full c (put_at (disk_key h full)) s1)))"

section \<open>Sandbox mode\<close>

definition host_target :: "host \<Rightarrow> string \<Rightarrow> string" where
  "host_target h path = (case host_home_path h path of Some full \<Rightarrow> full | None \<Rightarrow> path)"

text \<open>A read through the executor; its result carries the badge unless it is binary.\<close>

definition box_read :: "string \<Rightarrow> string \<Rightarrow> tool_state \<Rightarrow> file_result" where
  "box_read path target s =
     (case io_get (\<lambda>f. f (BoxKey target)) s of
        (Inl e, s1) \<Rightarrow> fail (TeIo e) s1
      | (Inr c, s1) \<Rightarrow>
          (Inr (if looks_binary c then BinaryRefused path (length c) else Boxed (Whole c)), s1))"

definition read_file_sandbox :: "tool_env \<Rightarrow> registry \<Rightarrow> string \<Rightarrow> tool_state \<Rightarrow> file_result" where
  "read_file_sandbox env r path s =
     (let h = te_host env in
      if identity_file_blocked r path then (Inr IdentityRefused, s)
      else if skill_manifest_blocked r path then (Inr SkillRefused, s)
      else if uses_system r \<and> basename_is_system_file path
      then (case io_get (read_system_file (te_overlay env) r (path_base (path_clean path))) s of
              (Inr c, s1) \<Rightarrow> (Inr (truncate_read_file_result path c), s1)
            | (Inl _, s1) \<Rightarrow> (Inr (Whole []), s1))
      else case route_for h r path OpRead of
             RouteWorkspaceStore \<Rightarrow>
               (case ws_scope r path of
                  Inl e \<Rightarrow> fail (TeScope e) s
                | Inr sp \<Rightarrow>
                    (case io_get (\<lambda>f. f (ws_key r sp)) s of
                       (Inr c, s1) \<Rightarrow> (Inr (show_file path c), s1)
                     | (Inl _, s1) \<Rightarrow> box_read path (sp_box sp) s1))
           | RouteSkillStore \<Rightarrow>
               (case io_get (\<lambda>f. f (disk_key h (path_join (rg_system_root r) (path_clean path)))) s of
                  (Inr c, s1) \<Rightarrow> (Inr (show_file path c), s1)
                | (Inl _, s1) \<Rightarrow> box_read path path s1)
           | RouteHostFS \<Rightarrow>
               (case io_get (\<lambda>f. f (disk_key h (host_target h path))) s of
                  (Inl e, s1) \<Rightarrow> fail (TeIo e) s1
                | (Inr c, s1) \<Rightarrow> (Inr (show_file path c), s1))
           | RouteRefuseSuggestSandbox \<Rightarrow> (Inl FeSandboxRequired, s)
           | _ \<Rightarrow> box_read path path s)"

definition write_file_sandbox :: "tool_env \<Rightarrow> registry \<Rightarrow> string \<Rightarrow> string \<Rightarrow> tool_state \<Rightarrow> file_result" where
  "write_file_sandbox env r path content s =
     (let h = te_host env; n = length content in
      case validate_file_target path of
        Some e \<Rightarrow> (Inl (FeTarget e), s)
      | None \<Rightarrow>
          (if identity_file_blocked r path then (Inr IdentityRefused, s)
           else case route_for h r path OpWrite of
             RouteSystemStore \<Rightarrow>
               (let name = path_clean path in
                reply (Written n name) (put_at (SysKey (rg_agent r) (system_file_user r name) name) content s))
           | RouteWorkspaceStore \<Rightarrow>
               (case ws_scope r path of
                  Inl e \<Rightarrow> fail (TeScope e) s
                | Inr sp \<Rightarrow>
                    (case put_at (ws_key r sp) content s of
                       (Some e, s1) \<Rightarrow> fail e s1
                     | (None, s1) \<Rightarrow> (Inr (Written n path), mirror_coding_write r path content s1)))
           | RouteSkillStore \<Rightarrow> write_skill_to_host env r path content s
           | RouteHostFS \<Rightarrow>
               (let full = host_target h path
                in reply (Written n full) (put_at (disk_key h full) content s))
           | RouteRefuseSuggestSandbox \<Rightarrow> (Inl FeSandboxRequired, s)
           | RouteSandbox \<Rightarrow> reply (Boxed (Written n path)) (put_at (BoxKey path) content s)))"

text \<open>The read, modify and write cycle through the executor; a result of an edit gets the badge.\<close>

definition badge :: "file_result \<Rightarrow> file_result" where
  "badge x = (case x of (Inr (Edited p n), s) \<Rightarrow> (Inr (Boxed (Edited p n)), s) | _ \<Rightarrow> x)"

definition edit_in_box :: "edit_args \<Rightarrow> string \<Rightarrow> tool_state \<Rightarrow> file_result" where
  "edit_in_box a target s =
     (case io_get (\<lambda>f. f (BoxKey target)) s of
        (Inl e, s1) \<Rightarrow> fail (TeIo e) s1
      | (Inr c, s1) \<Rightarrow> badge (edit_content a (ea_path a) c (put_at (BoxKey target)) s1))"

definition edit_file_sandbox :: "tool_env \<Rightarrow> registry \<Rightarrow> edit_args \<Rightarrow> tool_state \<Rightarrow> file_result" where
  "edit_file_sandbox env r a s =
     (let h = te_host env; path = ea_path a in
      case validate_file_target path of
        Some e \<Rightarrow> (Inl (FeTarget e), s)
      | None \<Rightarrow>
          (if identity_file_blocked r path then (Inr IdentityRefused, s)
           else if skill_manifest_blocked r path then (Inr SkillRefused, s)
           else case route_for h r path OpWrite of
             RouteSystemStore \<Rightarrow>
               (let name = path_clean path in
                case io_get (read_system_file (te_overlay env) r name) s of
                  (Inl e, s1) \<Rightarrow> fail (TeIo e) s1
                | (Inr c, s1) \<Rightarrow>
                    edit_text a name c (put_at (SysKey (rg_agent r) (system_file_user r name) name)) s1)
           | RouteWorkspaceStore \<Rightarrow>
               (case ws_scope r path of
                  Inl e \<Rightarrow> fail (TeScope e) s
                | Inr sp \<Rightarrow>
                    (case io_get (\<lambda>f. f (ws_key r sp)) s of
                       (Inl _, s1) \<Rightarrow> edit_in_box a (sp_box sp) s1
                     | (Inr c, s1) \<Rightarrow>
                         edit_content a path c
                           (\<lambda>u s2. case put_at (ws_key r sp) u s2 of
                                     (Some e, s3) \<Rightarrow> (Some e, s3)
                                   | (None, s3) \<Rightarrow> (None, mirror_coding_write r path u s3)) s1))
           | RouteHostFS \<Rightarrow>
               (let full = host_target h path in
                case io_get (\<lambda>f. f (disk_key h full)) s of
                  (Inl e, s1) \<Rightarrow> fail (TeIo e) s1
                | (Inr c, s1) \<Rightarrow> edit_content a full c (put_at (disk_key h full)) s1)
           | RouteRefuseSuggestSandbox \<Rightarrow> (Inl FeSandboxRequired, s)
           | _ \<Rightarrow> edit_in_box a path s))"

section \<open>Listing a directory\<close>

definition dir_line :: "string \<Rightarrow> string" where
  "dir_line name = ''d '' @ name @ ''/'' @ [newline]"

definition file_line :: "string \<Rightarrow> nat \<Rightarrow> string" where
  "file_line name n = ''f '' @ name @ '' ('' @ nat_str n @ '' bytes)'' @ [newline]"

text \<open>The objects under a prefix as one level of a directory; each subdirectory is named once.\<close>

definition below :: "string \<Rightarrow> string \<Rightarrow> string option" where
  "below prefix p =
     (if prefix \<noteq> [] \<and> \<not> has_prefix p (prefix @ ''/'') \<and> p \<noteq> prefix then None
      else (let rel = trim_prefix (trim_prefix p prefix) ''/'' in if rel = [] then None else Some rel))"

fun list_objects :: "string \<Rightarrow> string list \<Rightarrow> (string \<times> nat) list \<Rightarrow> string" where
  "list_objects prefix seen [] = []"
| "list_objects prefix seen ((p, n) # objs) =
     (case below prefix p of
        None \<Rightarrow> list_objects prefix seen objs
      | Some rel \<Rightarrow>
          (case cut rel slash of
             (dir, _, True) \<Rightarrow>
               (if dir \<in> set seen then list_objects prefix seen objs
                else dir_line dir @ list_objects prefix (dir # seen) objs)
           | _ \<Rightarrow> file_line rel n @ list_objects prefix seen objs))"

fun list_disk :: "(string \<times> bool \<times> nat option) list \<Rightarrow> string" where
  "list_disk [] = []"
| "list_disk ((name, is_dir, len) # es) =
     (if is_dir then dir_line name
      else case len of Some n \<Rightarrow> file_line name n | None \<Rightarrow> ''f '' @ name @ [newline]) @ list_disk es"

text \<open>The scope and the prefix a path lists, and the directory of the sandbox it stands for.\<close>

definition list_scope :: "registry \<Rightarrow> string \<Rightarrow> (scope_error, string \<times> string \<times> string \<times> string) res" where
  "list_scope r path =
     (let sid = scope_session r; prefix = trim_prefix (path_clean path) ''./'' in
      if prefix = [] \<or> prefix = ''.''
      then Inr (rg_project r, sid, [],
                if sid \<noteq> [] \<and> rg_project r \<noteq> [] then ''/workspace/'' @ sid else ''/workspace'')
      else if prefix = ''..'' \<and> rg_project r \<noteq> [] \<and> sid \<noteq> [] \<and> \<not> rg_coding_root r
      then Inr (rg_project r, [], [], ''/workspace'')
      else case ws_scope r path of
             Inl e \<Rightarrow> Inl e
           | Inr sp \<Rightarrow> Inr (sp_project sp, sp_session sp, sp_store sp, sp_box sp))"

definition list_dir :: "tool_env \<Rightarrow> registry \<Rightarrow> string \<Rightarrow> (file_error, string) res" where
  "list_dir env r path =
     (if uses_workspace r path
      then (case list_scope r path of
              Inl e \<Rightarrow> Inl (FeTool (TeScope e))
            | Inr (project, session, prefix, _) \<Rightarrow>
                (case te_list env (rg_agent r) project session of
                   None \<Rightarrow> Inl (FeTool (TeIo IoFailed))
                 | Some objs \<Rightarrow> Inr (list_objects prefix [] objs)))
      else case disk_path (te_host env) r path of
             None \<Rightarrow> Inl (FeTool TeOutside)
           | Some full \<Rightarrow>
               (case te_read_dir env full of
                  None \<Rightarrow> Inl (FeTool (TeIo IoFailed))
                | Some es \<Rightarrow> Inr (list_disk es)))"

definition box_list :: "tool_env \<Rightarrow> string \<Rightarrow> (file_error, string) res" where
  "box_list env dir =
     (case te_box_list env dir of
        None \<Rightarrow> Inl (FeTool (TeIo IoFailed))
      | Some out \<Rightarrow> Inr (meta_sandbox_prefix @ out))"

definition list_dir_sandbox :: "tool_env \<Rightarrow> registry \<Rightarrow> string \<Rightarrow> (file_error, string) res" where
  "list_dir_sandbox env r path =
     (case route_for (te_host env) r path OpList of
        RouteWorkspaceStore \<Rightarrow>
          (case list_scope r path of
             Inl e \<Rightarrow> Inl (FeTool (TeScope e))
           | Inr (project, session, prefix, dir) \<Rightarrow>
               (case te_list env (rg_agent r) project session of
                  None \<Rightarrow> box_list env dir
                | Some objs \<Rightarrow> Inr (list_objects prefix [] objs)))
      | RouteHostFS \<Rightarrow>
          (case te_read_dir env (host_target (te_host env) path) of
             None \<Rightarrow> Inl (FeTool (TeIo IoFailed))
           | Some es \<Rightarrow> Inr (list_disk es))
      | RouteRefuseSuggestSandbox \<Rightarrow> Inl FeSandboxRequired
      | _ \<Rightarrow> box_list env path)"

section \<open>Laws of the edit\<close>

lemma split_aux_single:
  "sep \<noteq> [] \<Longrightarrow> split_aux sep 0 acc s = [x] \<Longrightarrow> \<not> str_contains s sep"
proof (induction s arbitrary: acc)
  case Nil
  then show ?case by (simp add: has_prefix_def)
next
  case (Cons c s)
  then show ?case by (auto split: if_splits)
qed

lemma str_count_0: "old \<noteq> [] \<Longrightarrow> str_count s old = 0 \<Longrightarrow> \<not> str_contains s old"
proof -
  assume "old \<noteq> []" and n: "str_count s old = 0"
  from n have "length (split_str s old) = 1"
    using split_str_not_Nil [of s old] by (cases "split_str s old") (auto simp: str_count_def)
  then obtain x where "split_str s old = [x]" by (auto simp: length_Suc_conv)
  with \<open>old \<noteq> []\<close> show ?thesis using split_aux_single by (simp add: split_str_def)
qed

lemma str_count_none: "old \<noteq> [] \<Longrightarrow> \<not> str_contains s old \<Longrightarrow> str_count s old = 0"
proof -
  assume "old \<noteq> []" and none: "\<not> str_contains s old"
  have "split_aux old 0 acc s = [rev acc @ s]" for acc
    using none by (induction s arbitrary: acc) auto
  then show ?thesis by (simp add: str_count_def split_str_def)
qed

lemma str_count_parts:
  assumes "str_count s old = Suc n"
  shows "\<exists>a b rest. split_str s old = a # b # rest"
proof (cases "split_str s old")
  case (Cons a xs)
  with assms show ?thesis by (cases xs) (simp_all add: str_count_def)
qed simp

text \<open>
  An edit without \<^verbatim>\<open>replace_all\<close> changes exactly one place: it replaces one occurrence of the
  old text and keeps what is before and after it, or it reports no replacement, and then the
  content is unchanged, the old text is nowhere in it and the new text is somewhere in it.
\<close>

lemma edit_replaces_one_occurrence:
  assumes "apply_edit path content old new False = Inr (out, n)"
  shows "(n = 1 \<and> (\<exists>u v. content = u @ old @ v \<and> out = u @ new @ v))
       \<or> (n = 0 \<and> out = content \<and> \<not> str_contains content old \<and> str_contains content new)"
proof (cases "str_count content old = 0")
  case True
  with assms str_count_0 show ?thesis
    by (auto simp: apply_edit_def split: if_splits)
next
  case False
  with assms have n: "n = 1" "out = replace_one content old new"
    by (auto simp: apply_edit_def Let_def split: if_splits)
  obtain k where "str_count content old = Suc k" using False by (cases "str_count content old") auto
  then obtain a b rest where parts: "split_str content old = a # b # rest"
    using str_count_parts by blast
  have "content = join_str (split_str content old) old" by simp
  then have "content = a @ old @ join_str (b # rest) old" using parts by simp
  moreover have "out = a @ new @ join_str (b # rest) old" using n parts by (simp add: replace_one_def)
  ultimately show ?thesis using n(1) by blast
qed

lemma edit_replaces_one_occurrence_witness:
  "apply_edit ''x'' ''let a = 1'' ''1'' ''2'' False = Inr (''let a = 2'', 1)
   \<and> (\<exists>u v. ''let a = 1'' = u @ ''1'' @ v \<and> ''let a = 2'' = u @ ''2'' @ v)"
proof -
  have r: "apply_edit ''x'' ''let a = 1'' ''1'' ''2'' False = Inr (''let a = 2'', 1)" by code_simp
  from edit_replaces_one_occurrence [OF r] r show ?thesis by simp
qed

text \<open>
  An edit that deletes text never reports that the text was not found: when the old text does
  not occur and the new text is empty, the edit counts as applied already.
\<close>

lemma deleting_edit_never_misses:
  assumes "old \<noteq> []" and "\<not> str_contains content old"
  shows "apply_edit path content old [] False = Inr (content, 0)"
proof -
  have "str_contains content []" by (cases content) (auto simp: has_prefix_def)
  with assms show ?thesis by (simp add: apply_edit_def str_count_none)
qed

lemma deleting_edit_never_misses_witness:
  "apply_edit ''x'' ''abc'' ''zz'' [] False = Inr (''abc'', 0)
   \<and> apply_edit ''x'' ''abc'' ''zz'' ''q'' False = Inl (OldNotFound ''x'')"
proof -
  have "\<not> str_contains ''abc'' ''zz''" by code_simp
  with deleting_edit_never_misses [of "''zz''" "''abc''" "''x''"]
  have "apply_edit ''x'' ''abc'' ''zz'' [] False = Inr (''abc'', 0)" by simp
  moreover have "apply_edit ''x'' ''abc'' ''zz'' ''q'' False = Inl (OldNotFound ''x'')" by code_simp
  ultimately show ?thesis by blast
qed

section \<open>What the tools do with the files\<close>

lemma uses_workspace_route:
  "uses_workspace r path \<Longrightarrow> route_for h r path op = RouteWorkspaceStore"
  by (simp add: uses_workspace_def route_for_def)

lemma put_at_calm: "ts_faults s = [] \<Longrightarrow> put_at k c s = (None, s\<lparr>ts_files := (ts_files s)(k \<mapsto> c)\<rparr>)"
  by (simp add: put_at_def io_calm lift_err_def)

lemma mirror_coding_write_frame [simp]:
  "ts_files (mirror_coding_write r path c s) (WsKey a b d e) = ts_files s (WsKey a b d e)"
  by (auto simp: mirror_coding_write_def io_put_def split: prod.splits dest: io_tick_files)

lemma mirror_coding_write_calm [simp]: "ts_faults s = [] \<Longrightarrow> ts_faults (mirror_coding_write r path c s) = []"
  by (simp add: mirror_coding_write_def io_calm)

text \<open>
  What is written is read back: after a \<^verbatim>\<open>write_file\<close> to a path of the workspace the
  \<^verbatim>\<open>read_file\<close> of the same path, in either mode, returns the content, refused only when it
  looks binary and cut only when it is too long. In sandbox mode the path must not end in the name
  of a system file.
\<close>

lemma written_file_is_read_back:
  assumes "uses_workspace r p" and "ws_scope r p = Inr sp" and "validate_file_target p = None"
    and "\<not> identity_file_blocked r p" and "\<not> skill_manifest_blocked r p"
    and "\<not> (uses_system r \<and> basename_is_system_file p)" and "ts_faults s = []"
  shows "fst (read_file env r p (snd (write_file env r p c s))) = Inr (show_file p c) \<and>
    fst (read_file_sandbox env r p (snd (write_file_sandbox env r p c s))) = Inr (show_file p c)"
proof -
  have "ts_files (snd (write_file env r p c s)) (ws_key r sp) = Some c"
    "ts_faults (snd (write_file env r p c s)) = []"
    "ts_files (snd (write_file_sandbox env r p c s)) (ws_key r sp) = Some c"
    "ts_faults (snd (write_file_sandbox env r p c s)) = []"
    using assms
    by (simp_all add: write_file_def write_file_sandbox_def Let_def reply_def lift_err_def io_calm put_at_calm
        uses_workspace_route ws_key_def)
  with assms show ?thesis
    by (auto simp: read_file_def read_file_sandbox_def Let_def io_calm uses_workspace_route)
qed

definition desk :: tool_env where
  "desk = \<lparr>te_host = laptop, te_overlay = no_overlay, te_scope_dir = (\<lambda>_ _. []), te_sync = (\<lambda>_ _ _ s. s),
           te_list = (\<lambda>_ _ _. None), te_read_dir = (\<lambda>_. None), te_box_list = (\<lambda>_. None)\<rparr>"

lemma show_short: "length c \<le> 8192 \<Longrightarrow> CHR 0x00 \<notin> set c \<Longrightarrow> show_file p c = Whole c"
  by (simp add: show_file_def looks_binary_def truncate_read_file_result_def max_read_file_bytes_def)

lemma written_file_is_read_back_witness:
  "fst (read_file desk chat ''n.txt'' (snd (write_file desk chat ''n.txt'' ''hi'' shop))) = Inr (Whole ''hi'')"
proof -
  let ?sp = "\<lparr>sp_project = ''p1'', sp_session = ''s-1-a'', sp_store = ''n.txt'', sp_box = ''/workspace/s-1-a/n.txt''\<rparr>"
  have path: "uses_workspace chat ''n.txt''" "ws_scope chat ''n.txt'' = Inr ?sp" "validate_file_target ''n.txt'' = None"
    "\<not> identity_file_blocked chat ''n.txt''" "\<not> skill_manifest_blocked chat ''n.txt''"
    "\<not> (uses_system chat \<and> basename_is_system_file ''n.txt'')"
    by code_simp+
  have "ts_faults shop = []" by (simp add: shop_def)
  from written_file_is_read_back [OF path this, of desk "''hi''"] show ?thesis
    by (simp add: show_short)
qed

lemma ws_scope_session:
  "ws_scope r p = Inr sp \<Longrightarrow> sp_project sp = rg_project r \<and> sp_session sp \<in> {scope_session r, []}"
  by (auto simp: ws_scope_def Let_def split: if_splits)

lemma put_at_frame: "j \<noteq> k \<Longrightarrow> ts_files (snd (put_at k c s)) j = ts_files s j"
  by (auto simp: put_at_def lift_err_def split: prod.splits dest: io_put_frame)

lemma reply_state [simp]: "snd (reply rep x) = snd x"
  by (auto simp: reply_def fail_def split: prod.splits option.splits)

lemma badge_state [simp]: "snd (badge x) = snd x"
  by (auto simp: badge_def split: prod.splits sum.splits tool_reply.splits)

lemma edit_content_frame:
  assumes "\<And>u x. ts_files (snd (put u x)) k = ts_files x k"
  shows "ts_files (snd (edit_content a shown c put s)) k = ts_files s k"
  using assms by (simp add: edit_content_def edit_text_def split: sum.split prod.split)

lemma edit_in_box_frame: "ts_files (snd (edit_in_box a target s)) (WsKey w x y z) = ts_files s (WsKey w x y z)"
proof -
  obtain r s1 where get: "io_get (\<lambda>f. f (BoxKey target)) s = (r, s1)" by fastforce
  have "ts_files (snd (edit_content a (ea_path a) c (put_at (BoxKey target)) s1)) (WsKey w x y z)
      = ts_files s1 (WsKey w x y z)" for c
    by (rule edit_content_frame) (simp add: put_at_frame)
  then show ?thesis using io_get_files [OF get] get
    by (simp add: edit_in_box_def fail_def split: sum.split)
qed

text \<open>
  Writes to the workspace stay in the chat: whatever path a chat hands to
  \<^verbatim>\<open>write_file\<close> or \<^verbatim>\<open>edit_file\<close>, in either mode and whatever fails, the only objects
  of the workspace store that change belong to its agent, its project and its own session or the
  project's shared layer.
\<close>

lemma workspace_write_stays_in_chat:
  assumes "uses_workspace r p" and "ea_path e = p"
    and "op \<in> {write_file env r p c, write_file_sandbox env r p c, edit_file env r e, edit_file_sandbox env r e}"
    and "\<not> (a = rg_agent r \<and> proj = rg_project r \<and> sess \<in> {scope_session r, []})"
  shows "ts_files (snd (op s)) (WsKey a proj sess path) = ts_files s (WsKey a proj sess path)"
proof -
  have other: "WsKey a proj sess path \<noteq> ws_key r sp" if "ws_scope r p = Inr sp" for sp
    using ws_scope_session [OF that] assms(4) by (auto simp: ws_key_def)
  have edit: "ts_files (snd (edit_content x shown c (put_at (ws_key r sp)) y)) (WsKey a proj sess path)
      = ts_files y (WsKey a proj sess path)" if "ws_scope r p = Inr sp" for x shown c sp y
    using other [OF that] by (intro edit_content_frame) (simp add: put_at_frame)
  have box: "ts_files (snd (edit_content x shown c
        (\<lambda>u s2. case put_at (ws_key r sp) u s2 of (Some e, s3) \<Rightarrow> (Some e, s3)
                | (None, s3) \<Rightarrow> (None, mirror_coding_write r p u s3)) y)) (WsKey a proj sess path)
      = ts_files y (WsKey a proj sess path)" if "ws_scope r p = Inr sp" for x shown c sp y
  proof (intro edit_content_frame)
    fix u z
    show "ts_files (snd (case put_at (ws_key r sp) u z of (Some e, s3) \<Rightarrow> (Some e, s3)
                | (None, s3) \<Rightarrow> (None, mirror_coding_write r p u s3))) (WsKey a proj sess path)
      = ts_files z (WsKey a proj sess path)"
      using put_at_frame [OF other [OF that], of u z] by (auto split: prod.split option.split)
  qed
  have "ts_files (snd (write_file env r p c s)) (WsKey a proj sess path) = ts_files s (WsKey a proj sess path)"
    using assms(1) put_at_frame [OF other]
    by (auto simp: write_file_def Let_def fail_def put_at_def split: option.split sum.split)
  moreover have "ts_files (snd (write_file_sandbox env r p c s)) (WsKey a proj sess path) = ts_files s (WsKey a proj sess path)"
    using assms(1) put_at_frame [OF other, of _ c s]
    by (auto simp: write_file_sandbox_def Let_def fail_def uses_workspace_route split: option.split sum.split prod.split)
  moreover have "ts_files (snd (edit_file env r e s)) (WsKey a proj sess path) = ts_files s (WsKey a proj sess path)"
    using assms(1,2)
    by (auto simp: edit_file_def Let_def fail_def edit split: option.split sum.split prod.split dest!: io_get_files)
  moreover have "ts_files (snd (edit_file_sandbox env r e s)) (WsKey a proj sess path) = ts_files s (WsKey a proj sess path)"
    using assms(1,2)
    by (auto simp: edit_file_sandbox_def Let_def fail_def uses_workspace_route edit_in_box_frame box
        split: option.split sum.split prod.split dest!: io_get_files)
  ultimately show ?thesis using assms(3) by auto
qed

lemma workspace_write_stays_in_chat_witness:
  "ts_files (snd (edit_file_sandbox desk chat \<lparr>ea_path = ''../x.txt'', ea_old = ''a'', ea_new = ''b'', ea_all = True\<rparr> shop))
     (WsKey ''a1'' ''p1'' ''s-2-b'' ''x.txt'')
   = ts_files shop (WsKey ''a1'' ''p1'' ''s-2-b'' ''x.txt'')"
proof -
  let ?e = "\<lparr>ea_path = ''../x.txt'', ea_old = ''a'', ea_new = ''b'', ea_all = True\<rparr>"
  have "uses_workspace chat ''../x.txt''" by code_simp
  moreover have "\<not> (''a1'' = rg_agent chat \<and> ''p1'' = rg_project chat \<and> ''s-2-b'' \<in> {scope_session chat, []})"
    by (simp add: chat_def scope_session_def)
  ultimately show ?thesis
    by (intro workspace_write_stays_in_chat [of chat "''../x.txt''" ?e _ desk "[]"]) simp_all
qed

text \<open>
  In sandbox mode the gate on identity files is avoided with a nested path: to a chatter who is
  not an administrator \<^verbatim>\<open>read_file\<close> of a relative path with a directory and the name of a
  system file returns the agent's own system file. Host mode with a workspace store returns the
  chat's file of that path instead.
\<close>

lemma nested_path_reads_system_file:
  assumes "uses_system r" and "uses_workspace r p" and "slash \<in> set (path_clean p)"
    and "basename_is_system_file p" and "path_base (path_clean p) \<noteq> ''SKILL.md''"
    and "ts_faults s = []" and "ws_scope r p = Inr sp"
    and "read_system_file (te_overlay env) r (path_base (path_clean p)) (ts_files s) = Some secret"
  shows "read_file_sandbox env r p s = (Inr (truncate_read_file_result p secret), s) \<and>
    fst (read_file env r p s) =
      (case ts_files s (ws_key r sp) of
         None \<Rightarrow> Inl (FeTool (TeIo IoNotFound)) | Some c \<Rightarrow> Inr (show_file p c))"
proof -
  have "\<not> is_abs p" using assms(2) by (auto simp: uses_workspace_def is_workspace_path_def)
  with assms(3) have "\<not> identity_file_blocked r p" by (simp add: identity_file_blocked_def is_identity_file_path_def)
  moreover have "\<not> skill_manifest_blocked r p"
    using assms(5) by (simp add: skill_manifest_blocked_def is_protected_skill_manifest_def Let_def)
  ultimately show ?thesis
    using assms
    by (simp add: read_file_sandbox_def read_file_def Let_def io_calm fail_def split: option.split)
qed

lemma nested_path_reads_system_file_witness:
  "fst (read_file_sandbox desk chat ''notes/SOUL.md'' shop) = Inr (Whole ''secret'') \<and>
   fst (read_file_sandbox desk chat ''SOUL.md'' shop) = Inr IdentityRefused"
proof -
  let ?p = "''notes/SOUL.md''"
  let ?sp = "\<lparr>sp_project = ''p1'', sp_session = ''s-1-a'', sp_store = ?p, sp_box = ''/workspace/s-1-a/notes/SOUL.md''\<rparr>"
  have path: "uses_system chat" "uses_workspace chat ?p" "slash \<in> set (path_clean ?p)" "basename_is_system_file ?p"
    "path_base (path_clean ?p) \<noteq> ''SKILL.md''"
    by code_simp+
  have calm: "ts_faults shop = []" by (simp add: shop_def)
  have scope: "ws_scope chat ?p = Inr ?sp" by code_simp
  have secret: "read_system_file (te_overlay desk) chat (path_base (path_clean ?p)) (ts_files shop) = Some ''secret''"
    unfolding desk_def by code_simp
  have "truncate_read_file_result ?p ''secret'' = Whole ''secret''"
    by (simp add: truncate_read_file_result_def max_read_file_bytes_def)
  moreover have "identity_file_blocked chat ''SOUL.md''" by code_simp
  ultimately show ?thesis
    using nested_path_reads_system_file [OF path calm scope secret]
    by (simp add: read_file_sandbox_def Let_def)
qed

text \<open>
  The skill manifest that a chatter may neither read nor edit can be overwritten: in both modes
  \<^verbatim>\<open>edit_file\<close> refuses the \<^verbatim>\<open>SKILL.md\<close> of a skill of the agent, and
  \<^verbatim>\<open>write_file\<close> replaces it on the disk of the agent.
\<close>

lemma skill_manifest_is_writable:
  assumes "skill_manifest_blocked r p" and "is_skill_path p" and "validate_file_target p = None"
    and "\<not> uses_workspace r p" and "\<not> is_single_segment_system_file p" and "rg_system_root r \<noteq> []"
    and "\<not> identity_file_blocked r p" and "\<not> is_global_skills_path (path_join (rg_system_root r) (path_clean p))"
    and "ts_faults s = []" and "ea_path e = p"
    and sync: "\<And>owner skill dir x k. ts_files (te_sync env owner skill dir x) (DiskKey k) = ts_files x (DiskKey k)"
    and full: "full = path_join (rg_system_root r) (path_clean p)"
  shows "edit_file env r e s = (Inr SkillRefused, s) \<and> edit_file_sandbox env r e s = (Inr SkillRefused, s) \<and>
    fst (write_file env r p c s) = Inr (Written (length c) full) \<and>
    ts_files (snd (write_file env r p c s)) (disk_key (te_host env) full) = Some c \<and>
    write_file_sandbox env r p c s = write_file env r p c s"
proof -
  have "route_for (te_host env) r p OpWrite = RouteSkillStore"
    using assms by (auto simp: route_for_def uses_workspace_def)
  with assms show ?thesis
    by (simp add: edit_file_def edit_file_sandbox_def write_file_def write_file_sandbox_def write_skill_to_host_def
        mirror_skill_def Let_def io_calm disk_key_def)
qed

lemma skill_manifest_is_writable_witness:
  "ts_files (snd (write_file_sandbox desk chat ''skills/pay/SKILL.md'' ''mine'' shop))
     (DiskKey ''/srv/agent/skills/pay/SKILL.md'') = Some ''mine''"
proof -
  let ?p = "''skills/pay/SKILL.md''"
  let ?e = "\<lparr>ea_path = ?p, ea_old = ''a'', ea_new = ''b'', ea_all = False\<rparr>"
  have path: "skill_manifest_blocked chat ?p" "is_skill_path ?p" "validate_file_target ?p = None"
    "\<not> uses_workspace chat ?p" "\<not> is_single_segment_system_file ?p" "rg_system_root chat \<noteq> []"
    "\<not> identity_file_blocked chat ?p" "\<not> is_global_skills_path (path_join (rg_system_root chat) (path_clean ?p))"
    by code_simp+
  have calm: "ts_faults shop = []" by (simp add: shop_def)
  have sync: "ts_files (te_sync desk owner skill dir x) (DiskKey k) = ts_files x (DiskKey k)" for owner skill dir x k
    by (simp add: desk_def)
  have full: "''/srv/agent/skills/pay/SKILL.md'' = path_join (rg_system_root chat) (path_clean ?p)" by code_simp
  have e: "ea_path ?e = ?p" by simp
  have key: "disk_key (te_host desk) ''/srv/agent/skills/pay/SKILL.md'' = DiskKey ''/srv/agent/skills/pay/SKILL.md''"
    unfolding desk_def by code_simp
  from skill_manifest_is_writable [OF path calm e sync full, of "''mine''"] show ?thesis
    unfolding key by simp
qed

end
