(* ===== verification/Go_Regexp.thy ===== *)
theory Go_Regexp
  imports Go_Strings
begin

text \<open>
  The part of Go's \<^verbatim>\<open>regexp\<close> package that the modelled code uses: the syntax of the patterns, read
  from their source text, and matching. Texts are byte strings. Every negated class and dot of
  the modelled patterns stands under a repetition, where matching bytes and matching code points
  agree; case folding is that of ASCII.

  A backslash cannot be written in a HOL string, so patterns are written with a percent sign in
  its place (\<open>re\<close> puts the backslash back).
\<close>

section \<open>Syntax\<close>

datatype rx =
    RSet bool "(int \<times> int) list"   \<comment> \<open>negated, ranges of bytes\<close>
  | REps
  | RBegin
  | REnd
  | RWord                             \<comment> \<open>word boundary\<close>
  | RSeq rx rx
  | RAlt rx rx
  | RStar rx

abbreviation backslash :: char where "backslash \<equiv> CHR 0x5C"

definition re :: "string \<Rightarrow> string" where
  "re s = map (\<lambda>c. if c = CHR ''%'' then backslash else c) s"

definition code :: "char \<Rightarrow> int" where
  "code c = of_char c"

definition in_ranges :: "char \<Rightarrow> (int \<times> int) list \<Rightarrow> bool" where
  "in_ranges c rs = list_ex (\<lambda>(a, b). a \<le> code c \<and> code c \<le> b) rs"

definition space_ranges :: "(int \<times> int) list" where
  "space_ranges = [(9, 10), (12, 13), (32, 32)]"

definition word_ranges :: "(int \<times> int) list" where
  "word_ranges = [(48, 57), (65, 90), (95, 95), (97, 122)]"

definition lit :: "char \<Rightarrow> rx" where
  "lit c = RSet False [(code c, code c)]"

definition opt :: "rx \<Rightarrow> rx" where
  "opt r = RAlt r REps"

definition plus :: "rx \<Rightarrow> rx" where
  "plus r = RSeq r (RStar r)"

text \<open>The ranges an escape stands for inside a class.\<close>

definition class_escape :: "char \<Rightarrow> (int \<times> int) list" where
  "class_escape c =
     (if c = CHR ''s'' then space_ranges
      else if c = CHR ''w'' then word_ranges
      else if c = CHR ''d'' then [(48, 57)]
      else if c = CHR ''n'' then [(10, 10)]
      else [(code c, code c)])"

text \<open>The inside of a class up to its closing bracket.\<close>

fun class_items :: "string \<Rightarrow> ((int \<times> int) list \<times> string) option" where
  "class_items [] = None"
| "class_items (c # s) =
     (if c = CHR '']'' then Some ([], s)
      else if c = backslash
      then (case s of
              [] \<Rightarrow> None
            | e # s' \<Rightarrow> map_option (\<lambda>(rs, r). (class_escape e @ rs, r)) (class_items s'))
      else case s of
             d # e # s' \<Rightarrow>
               (if d = CHR ''-'' \<and> e \<noteq> CHR '']''
                then map_option (\<lambda>(rs, r). ((code c, code e) # rs, r)) (class_items s')
                else map_option (\<lambda>(rs, r). ((code c, code c) # rs, r)) (class_items s))
           | _ \<Rightarrow> map_option (\<lambda>(rs, r). ((code c, code c) # rs, r)) (class_items s))"

definition escape :: "char \<Rightarrow> rx" where
  "escape c =
     (if c = CHR ''b'' then RWord
      else if c = CHR ''S'' then RSet True space_ranges
      else RSet False (class_escape c))"

definition any_char :: rx where
  "any_char = RSet True [(10, 10)]"

text \<open>A postfix operator after an atom, if there is one.\<close>

definition postfix :: "rx \<Rightarrow> string \<Rightarrow> rx \<times> string" where
  "postfix r s =
     (case s of
        c # s' \<Rightarrow>
          (if c = CHR ''*'' then (RStar r, s') else if c = CHR ''+'' then (plus r, s')
           else if c = CHR ''?'' then (opt r, s') else (r, s))
      | [] \<Rightarrow> (r, s))"

text \<open>
  Recursive descent: alternatives, sequences and atoms. Every call consumes a byte or goes down
  one of the three levels, so three times the length of the text is enough fuel.
\<close>

fun p_alt :: "nat \<Rightarrow> string \<Rightarrow> (rx \<times> string) option"
  and p_seq :: "nat \<Rightarrow> string \<Rightarrow> (rx \<times> string) option"
  and p_atom :: "nat \<Rightarrow> string \<Rightarrow> (rx \<times> string) option" where
  "p_alt 0 s = None"
| "p_alt (Suc n) s =
     (case p_seq n s of
        None \<Rightarrow> None
      | Some (a, r) \<Rightarrow>
         (if r \<noteq> [] \<and> hd r = CHR ''|''
          then map_option (\<lambda>(b, r'). (RAlt a b, r')) (p_alt n (tl r))
          else Some (a, r)))"
| "p_seq 0 s = None"
| "p_seq (Suc n) s =
     (if s = [] \<or> hd s = CHR ''|'' \<or> hd s = CHR '')'' then Some (REps, s)
      else case p_atom n s of
             None \<Rightarrow> None
           | Some (a, r) \<Rightarrow>
              (case postfix a r of
                 (a', r') \<Rightarrow> map_option (\<lambda>(b, r''). (RSeq a' b, r'')) (p_seq n r')))"
| "p_atom 0 s = None"
| "p_atom (Suc n) s =
     (case s of
        [] \<Rightarrow> None
      | c # s' \<Rightarrow>
          (if c = CHR ''('' then
             (case p_alt n (if has_prefix s' ''?:'' then drop 2 s' else s') of
                Some (a, d # r) \<Rightarrow> if d = CHR '')'' then Some (a, r) else None
              | _ \<Rightarrow> None)
           else if c = CHR ''['' then
             (case s' of
                d # s'' \<Rightarrow>
                  (if d = CHR ''^'' then map_option (\<lambda>(rs, r). (RSet True rs, r)) (class_items s'')
                   else map_option (\<lambda>(rs, r). (RSet False rs, r)) (class_items s'))
              | [] \<Rightarrow> None)
           else if c = backslash then (case s' of [] \<Rightarrow> None | e # r \<Rightarrow> Some (escape e, r))
           else if c = CHR ''.'' then Some (any_char, s')
           else if c = CHR ''^'' then Some (RBegin, s')
           else if c = CHR ''$'' then Some (REnd, s')
           else Some (lit c, s')))"

definition rx_parse :: "string \<Rightarrow> rx option" where
  "rx_parse s = (case p_alt (3 * length s + 3) s of Some (r, []) \<Rightarrow> Some r | _ \<Rightarrow> None)"

text \<open>The flag \<^verbatim>\<open>(?i)\<close>: every letter of a set stands for both of its cases.\<close>

definition fold_range :: "int \<times> int \<Rightarrow> (int \<times> int) list" where
  "fold_range r =
     (case r of (a, b) \<Rightarrow>
        [(a, b), (max a 65 + 32, min b 90 + 32), (max a 97 - 32, min b 122 - 32)])"

primrec fold_case :: "rx \<Rightarrow> rx" where
  "fold_case (RSet neg rs) = RSet neg (concat (map fold_range rs))"
| "fold_case REps = REps"
| "fold_case RBegin = RBegin"
| "fold_case REnd = REnd"
| "fold_case RWord = RWord"
| "fold_case (RSeq a b) = RSeq (fold_case a) (fold_case b)"
| "fold_case (RAlt a b) = RAlt (fold_case a) (fold_case b)"
| "fold_case (RStar a) = RStar (fold_case a)"

section \<open>Matching\<close>

text \<open>A position: the byte before it, if any, and the rest of the text.\<close>

type_synonym pos = "char option \<times> string"

definition is_word :: "char option \<Rightarrow> bool" where
  "is_word c = (case c of None \<Rightarrow> False | Some x \<Rightarrow> in_ranges x word_ranges)"

definition next_char :: "string \<Rightarrow> char option" where
  "next_char s = (case s of [] \<Rightarrow> None | c # _ \<Rightarrow> Some c)"

text \<open>The ends of the matches of a repetition, the longest runs first; every round consumes.\<close>

fun star_ends :: "nat \<Rightarrow> (pos \<Rightarrow> pos list) \<Rightarrow> pos \<Rightarrow> pos list" where
  "star_ends 0 f p = [p]"
| "star_ends (Suc n) f p =
     concat (map (star_ends n f) (filter (\<lambda>q. length (snd q) < length (snd p)) (f p))) @ [p]"

text \<open>The ends of the matches that begin at a position, in the order of preference.\<close>

primrec ends :: "rx \<Rightarrow> pos \<Rightarrow> pos list" where
  "ends (RSet neg rs) p =
     (case snd p of [] \<Rightarrow> [] | c # s \<Rightarrow> if in_ranges c rs \<noteq> neg then [(Some c, s)] else [])"
| "ends REps p = [p]"
| "ends RBegin p = (if fst p = None then [p] else [])"
| "ends REnd p = (if snd p = [] then [p] else [])"
| "ends RWord p = (if is_word (fst p) \<noteq> is_word (next_char (snd p)) then [p] else [])"
| "ends (RSeq a b) p = concat (map (ends b) (ends a p))"
| "ends (RAlt a b) p = ends a p @ ends b p"
| "ends (RStar a) p = star_ends (length (snd p)) (ends a) p"

fun search_rx :: "rx \<Rightarrow> char option \<Rightarrow> string \<Rightarrow> bool" where
  "search_rx r b [] = (ends r (b, []) \<noteq> [])"
| "search_rx r b (c # s) = (ends r (b, c # s) \<noteq> [] \<or> search_rx r (Some c) s)"

definition rx_match :: "string \<Rightarrow> string \<Rightarrow> bool" where
  "rx_match pat s = (case rx_parse (re pat) of None \<Rightarrow> False | Some r \<Rightarrow> search_rx r None s)"

end
