(* ===== verification/Auth_Gate.thy ===== *)
theory Auth_Gate
  imports Go_Regexp Go_Values Go_Path
begin

text \<open>
  The authorization gate of the agent loop (\<^verbatim>\<open>internal/agent/authgate.go\<close>): the three tiers of
  shell commands, the workspace boundary of file writes and the decision for one tool call.
\<close>

section \<open>Command patterns\<close>

type_synonym pattern = "string \<times> string"   \<comment> \<open>source of the expression, description\<close>

definition hardline_patterns :: "pattern list" where
  "hardline_patterns =
     [(''%brm%s+(-[^%s]*%s+)*(/|/%*|/home|/etc|/usr|/var|/bin|/boot|~|%$home)(/?|/%*)?(%s|$)'',
       ''recursive delete of root/system/home directory''),
      (''%bmkfs(%.[a-z0-9]+)?%b'', ''format filesystem (mkfs)''),
      (''%bdd%b[^%n]*%bof=/dev/(sd|nvme|hd|mmcblk|vd|xvd|disk|rdisk)'', ''dd to raw block device''),
      (''>%s*/dev/(sd|nvme|hd|mmcblk|vd|xvd|disk|rdisk)'', ''redirect to raw block device''),
      ('':%(%)%s*%{%s*:%s*%|%s*:%s*&%s*%}%s*;%s*:'', ''fork bomb''),
      (''%bkill%s+(-[^%s]+%s+)*-1%b'', ''kill all processes''),
      (''(?:^|[;&|%n])%s*(?:sudo%s+)?(?:/sbin/|/usr/sbin/)?(?:shutdown|reboot|halt|poweroff)'' @
       ''(?:%s+(?:-(?:h|r|p|f|k|c|t)|now|fast)%b|%s*[;&|%n]|$)'', ''system shutdown/reboot''),
      (''%bsystemctl%b.*%b(rescue|emergency)%b'', ''systemctl rescue/emergency (single-user mode)''),
      (''%bdiskutil%b[^%n]*%b(erasedisk|secureerase|erasevolume)%b'',
       ''diskutil eraseDisk / secureErase / eraseVolume (macOS format)''),
      (''%bcsrutil%b.*%bdisable%b'', ''csrutil disable (macOS System Integrity Protection off)''),
      (''%bnvram%b[^%n]*%bboot-args%b'', ''nvram boot-args write (macOS NVRAM boot variables)''),
      (''%bdd%b[^%n]*%bof=/dev/r?disk%d+'', ''dd to macOS raw disk''),
      (''%bformat%s+[a-z]:'', ''format disk (Windows format)''),
      (''%bshutdown%s+/(s|p|r|t)%b'', ''Windows shutdown/restart''),
      (''%b(rmdir|rd)%s+/s%b[^%n]*[a-z]:%%'', ''rmdir /s or rd /s on a Windows drive path''),
      (''%bdel%s+(/[a-z]+%s+)*[a-z]:%%(windows|program files|users|system32|config|%*)'',
       ''del /s on Windows system path''),
      (''%bformat-volume%b'', ''Format-Volume (PowerShell partition format)''),
      (''%bclear-disk%b'', ''Clear-Disk (PowerShell disk wipe)''),
      (''%binitialize-disk%b'', ''Initialize-Disk (PowerShell disk repartition)''),
      (''%b(remove-item|ri|rm)%b[^%n]*-(?:recurse|force)%b[^%n]*-(?:force|recurse)%b[^%n]*'' @
       ''[a-z]:%%(windows|program files|users|system32|%*)'', ''Remove-Item -Recurse -Force on Windows system path''),
      (''%bstop-computer%b'', ''Stop-Computer (PowerShell shutdown)''),
      (''%brestart-computer%b'', ''Restart-Computer (PowerShell reboot)''),
      (''%bbcdedit%b.*/set%b'', ''bcdedit /set (Windows boot configuration rewrite)''),
      (''%bcipher%b[^|;&%n]*%s/w[:%%]'', ''cipher /w (Windows raw free-space wipe)''),
      (''%bdel%s+(/[a-z]+%s+)*[a-z]:%%[^;%n]*%%config%%(system|software|sam|security|default|components)'',
       ''del on Windows registry hive file'')]"

definition dangerous_patterns :: "pattern list" where
  "dangerous_patterns =
     [(''%brm%s+-[^%s]*r'', ''recursive delete''),
      (''%brm%s+-[^%s]*%s+--recursive%b'', ''recursive delete (long flag)''),
      (''%bchmod%s+(-[^%s]*%s+)*(777|666)%b'', ''world-writable permissions''),
      (''%bchown%s+-%S*r%S*%s+root%b'', ''recursive chown to root''),
      (''%bdrop%s+(table|database)%b'', ''SQL DROP''),
      (''%bdelete%s+from%b'', ''SQL DELETE (verify it has a WHERE)''),
      (''%btruncate%s+(table)?%s*%w'', ''SQL TRUNCATE''),
      (''%b(curl|wget)%b.*%|%s*(?:[/%w]*/)?(?:ba)?sh'', ''pipe remote content to shell''),
      (''%bgit%s+reset%s+--hard%b'', ''git reset --hard (destroys uncommitted changes)''),
      (''%bgit%s+push%b.*--force%b'', ''git force push (rewrites remote history)''),
      (''%bgit%s+push%b.*%s-f%b'', ''git force push short flag''),
      (''%bgit%s+clean%s+-[^%s]*f'', ''git clean with force''),
      (''%bgit%s+branch%s+-d%b'', ''git branch force delete''),
      (''%bsystemctl%s+(stop|restart|disable)%b'', ''stop/restart system service''),
      (''%bpkill%s+-9%b'', ''force kill processes''),
      (''%bxargs%s+.*%brm%b'', ''xargs with rm''),
      (''%bfind%b.*-exec(?:dir)?%s+(?:/%S*/)?rm%b'', ''find -exec/-execdir rm''),
      (''%bfind%b.*-delete%b'', ''find -delete''),
      (''%b(rmdir|rd)%s+/s%b'', ''rmdir /s or rd /s (recursive, Windows)''),
      (''%bdel%s+/[a-z]*s%b'', ''del /s (recursive, Windows)''),
      (''%bdiskpart%b'', ''diskpart (partition management)''),
      (''%b(remove-item|ri|rm)%b[^%n]*-recurse[^%n]*-force%b'', ''PowerShell Remove-Item -Recurse -Force''),
      (''%b(remove-item|ri|rm)%b[^%n]*-force[^%n]*-recurse%b'', ''PowerShell Remove-Item -Force -Recurse''),
      (''%breg(%.exe)?%s+(delete|import|restore)%b'', ''reg delete/import/restore (Windows registry rewrite)''),
      (''%btakeown%b.*/f%b'', ''takeown (Windows ownership takeover)''),
      (''%bicacls%b.*/grant%b'', ''icacls /grant (Windows ACL modification)''),
      (''%bnet(%.exe)?%s+(user|localgroup)%b'', ''net user/localgroup (Windows account change)''),
      (''%bschtasks%b.*/create%b'', ''schtasks /create (Windows scheduled task creation)''),
      (''%bset-executionpolicy%b'', ''Set-ExecutionPolicy (PowerShell policy bypass)''),
      (''%bdefaults%b.*%bwrite%b'', ''defaults write (macOS preferences modify)''),
      (''%blaunchctl%b.*%b(load|unload|bootout)%b'', ''launchctl load/unload/bootout (macOS service control)'')]"

definition shell_operator_re :: string where
  "shell_operator_re = ''(`|%$%(|%|%||&&|%||;|>|<|&)''"

definition safe_patterns :: "string list" where
  "safe_patterns =
     [''^(dir|ls|pwd|whoami|hostname|uname)(%s.*)?$'',
      ''^(df|du|free|systeminfo)(%s.*)?$'',
      ''^(where|which)(%s.*)?$'',
      ''^(echo|print|type|cat)(%s.*)?$'',
      ''^(node|npm|pnpm|yarn|python|python3|py|go|java|ruby|php|rustc|cargo|pip|pip3|git|gh|docker|kubectl|helm)'' @
      ''%s+(-h|--help|-v|--version|-version|-V)$'',
      ''^git%s+status%b'',
      ''^git%s+diff%b'',
      ''^git%s+log%b'',
      ''^git%s+show%b'',
      ''^git%s+branch(%s+(-[arlvV]+|--list|--all|--remotes|--verbose))*%s*$'',
      ''^git%s+remote%s*$'',
      ''^git%s+remote%s+(-v|--verbose)%s*$'',
      ''^git%s+remote%s+show%s+%S+$'',
      ''^git%s+tag(%s+(-l|--list)(%s+%S+)?)?%s*$'',
      ''^git%s+(blame|shortlog|describe|ls-files|rev-parse)%b'',
      ''^git%s+config%s+(-l|--list)%s*$'',
      ''^git%s+config%s+--get%b'',
      ''^(npm|pnpm|yarn)%s+(list|ls)(%s.*)?$'',
      ''^pip3?%s+(list|show)(%s.*)?$'']"

text \<open>The prefix of a shell wrapper; what follows it up to the end of the text is the inner command.\<close>

definition shell_wrapper_re :: string where
  "shell_wrapper_re =
     ''^(?:cmd(?:%.exe)?%s+/c%s+'' @
     ''|(?:[a-z]:[%%/])(?:[^%s%%/]+[%%/])*cmd%.exe%s+/c%s+'' @
     ''|(?:sh|bash)%s+-c%s+)''"

section \<open>Classifying a command\<close>

datatype command_tier = TierNormal | TierDangerous | TierHardline

fun first_hit :: "pattern list \<Rightarrow> string \<Rightarrow> string option" where
  "first_hit [] c = None"
| "first_hit ((p, d) # ps) c = (if rx_match p c then Some d else first_hit ps c)"

definition classify_command :: "string \<Rightarrow> command_tier \<times> string" where
  "classify_command command =
     (let c = to_lower command in
      case first_hit hardline_patterns c of
        Some d \<Rightarrow> (TierHardline, d)
      | None \<Rightarrow>
          (case first_hit dangerous_patterns c of
             Some d \<Rightarrow> (TierDangerous, d)
           | None \<Rightarrow> (TierNormal, [])))"

text \<open>The group \<^verbatim>\<open>(.*)$\<close> of the wrapper expression matches a rest without a line break.\<close>

definition wrapped_inner :: "string \<Rightarrow> string option" where
  "wrapped_inner command =
     (case rx_parse (re shell_wrapper_re) of
        None \<Rightarrow> None
      | Some r \<Rightarrow>
          map_option snd (find (\<lambda>p. CHR 0x0A \<notin> set (snd p)) (ends (fold_case r) (None, command))))"

definition strip_quotes :: "string \<Rightarrow> string" where
  "strip_quotes s =
     (if length s \<ge> 2 \<and> hd s = last s \<and> (hd s = CHR 0x22 \<or> hd s = CHR 0x27) then butlast (tl s) else s)"

definition unwrap_shell_wrapper :: "string \<Rightarrow> string \<times> bool" where
  "unwrap_shell_wrapper command =
     (case wrapped_inner command of
        None \<Rightarrow> (command, False)
      | Some m \<Rightarrow>
          (let inner = strip_quotes m
           in if trim_space inner = [] then (command, False) else (inner, True)))"

definition command_safe_tier :: "string \<Rightarrow> bool" where
  "command_safe_tier command =
     (if command = [] then False
      else
        (let inner = fst (unwrap_shell_wrapper command) in
         if rx_match shell_operator_re inner then False
         else list_ex (\<lambda>p. rx_match p (to_lower inner)) safe_patterns))"

section \<open>The gate\<close>

record auth_gate =
  ag_root :: string
  ag_workspace :: string
  ag_sandboxed :: bool
  ag_allow :: "string list"

datatype auth_mode = Ask | Auto | Yolo

datatype auth_action = AuthAllow | AuthBlock | AuthPrompt

type_synonym auth_decision = "auth_action \<times> string"

definition file_write_tools :: "string list" where
  "file_write_tools =
     [''write_file'', ''create_file'', ''str_replace'', ''insert'', ''apply_patch'', ''delete_file'', ''file_edit'', ''move_file'']"

definition exec_tools :: "string list" where
  "exec_tools = [''exec'', ''host_exec'', ''bash'']"

text \<open>
  The mode as the session holds it is a string; every string but \<^verbatim>\<open>auto\<close> and
  \<^verbatim>\<open>yolo\<close> asks.
\<close>

definition mode_of :: "string \<Rightarrow> auth_mode" where
  "mode_of m = (if m = ''yolo'' then Yolo else if m = ''auto'' then Auto else Ask)"

definition mode_gate :: "string \<Rightarrow> string \<Rightarrow> auth_decision" where
  "mode_gate mode reason =
     (case mode_of mode of
        Yolo \<Rightarrow> (AuthAllow, [])
      | Auto \<Rightarrow> (AuthBlock, ''auto mode denied: '' @ reason)
      | Ask \<Rightarrow> (AuthPrompt, reason))"

definition extract_string_arg :: "string \<Rightarrow> string \<Rightarrow> string" where
  "extract_string_arg args key =
     (case json_parse_raw args of
        Some (GMap kv) \<Rightarrow> (case map_of (rev kv) key of Some (GStr s) \<Rightarrow> s | _ \<Rightarrow> [])
      | _ \<Rightarrow> [])"

definition is_under :: "string \<Rightarrow> string \<Rightarrow> bool" where
  "is_under path root =
     (let p = path_clean path; r = path_clean root in p = r \<or> has_prefix p (r @ ''/''))"

definition resolve_against :: "string option \<Rightarrow> string \<Rightarrow> string \<Rightarrow> string" where
  "resolve_against home base path =
     (if path = [] then base
      else
        (let p = (case home of
                    Some h \<Rightarrow> if hd path = CHR ''~'' then path_join h (tl path) else path
                  | None \<Rightarrow> path)
         in if is_abs p then path_clean p else path_clean (path_join base p)))"

text \<open>The list of \<^verbatim>\<open>policy.json\<close>; \<open>None\<close> is an error of the decoder.\<close>

fun string_elems :: "gval list \<Rightarrow> string list option" where
  "string_elems [] = Some []"
| "string_elems (GStr s # vs) = map_option ((#) s) (string_elems vs)"
| "string_elems (GNull # vs) = map_option ((#) []) (string_elems vs)"
| "string_elems (_ # vs) = None"

fun assign_allow :: "string list \<Rightarrow> (string \<times> gval) list \<Rightarrow> string list option" where
  "assign_allow cur [] = Some cur"
| "assign_allow cur ((k, v) # kv) =
     (if equal_fold k ''allowWrite''
      then (case v of
              GList vs \<Rightarrow> (case string_elems vs of None \<Rightarrow> None | Some xs \<Rightarrow> assign_allow xs kv)
            | GNull \<Rightarrow> assign_allow [] kv
            | _ \<Rightarrow> None)
      else assign_allow cur kv)"

definition policy_allow :: "string option \<Rightarrow> string list" where
  "policy_allow data =
     (case data of
        None \<Rightarrow> []
      | Some d \<Rightarrow>
          (case json_parse_raw d of
             Some (GMap kv) \<Rightarrow> (case assign_allow [] kv of Some xs \<Rightarrow> xs | None \<Rightarrow> [])
           | _ \<Rightarrow> []))"

definition reload :: "string option \<Rightarrow> auth_gate \<Rightarrow> auth_gate" where
  "reload data g =
     g\<lparr>ag_allow :=
        filter (\<lambda>p. is_under p (ag_root g))
          (map (\<lambda>rel. path_join (ag_root g) (path_clean (''/'' @ rel))) (policy_allow data))\<rparr>"

definition new_auth_gate :: "string option \<Rightarrow> string \<Rightarrow> string \<Rightarrow> auth_gate" where
  "new_auth_gate data root workspace =
     reload data \<lparr>ag_root = root, ag_workspace = workspace, ag_sandboxed = False, ag_allow = []\<rparr>"

definition set_sandboxed :: "bool \<Rightarrow> auth_gate \<Rightarrow> auth_gate" where
  "set_sandboxed v g = g\<lparr>ag_sandboxed := v\<rparr>"

definition boundary_reason :: string where
  "boundary_reason = ''command execution (may touch outside workspace)''"

definition evaluate_exec :: "bool \<Rightarrow> string \<Rightarrow> string \<Rightarrow> auth_decision" where
  "evaluate_exec sandboxed command mode =
     (let rest = (if sandboxed then (AuthAllow, []) else mode_gate mode boundary_reason) in
      if command = [] then rest
      else
        (case classify_command command of
           (tier, desc) \<Rightarrow>
             (if tier = TierHardline then (AuthBlock, ''hardline: '' @ desc)
              else
                (case unwrap_shell_wrapper command of
                   (inner, ok) \<Rightarrow>
                     (case (if ok \<and> inner \<noteq> command then classify_command inner else (TierNormal, [])) of
                        (inner_tier, inner_desc) \<Rightarrow>
                          (if inner_tier = TierHardline then (AuthBlock, ''hardline (wrapped): '' @ inner_desc)
                           else if command_safe_tier command then (AuthAllow, [])
                           else if tier = TierDangerous \<and> \<not> sandboxed
                           then mode_gate mode (''dangerous command: '' @ desc)
                           else rest))))))"

definition evaluate_write :: "string option \<Rightarrow> auth_gate \<Rightarrow> string \<Rightarrow> string \<Rightarrow> auth_decision" where
  "evaluate_write home g path mode =
     (let target = resolve_against home (ag_workspace g) path in
      if path = [] then (AuthAllow, [])
      else if is_under target (ag_workspace g) then (AuthAllow, [])
      else if list_ex (is_under target) (ag_allow g) then (AuthAllow, [])
      else if ag_sandboxed g then (AuthAllow, [])
      else mode_gate mode (''write outside workspace: '' @ path))"

definition evaluate_call :: "string option \<Rightarrow> auth_gate \<Rightarrow> string \<Rightarrow> string \<Rightarrow> string \<Rightarrow> auth_decision" where
  "evaluate_call home g tool args mode =
     (if tool \<in> set exec_tools
      then evaluate_exec (ag_sandboxed g) (extract_string_arg args ''command'') mode
      else if tool \<in> set file_write_tools
      then evaluate_write home g (extract_string_arg args ''path'') mode
      else (AuthAllow, []))"

definition write_target_outside_workspace ::
  "string option \<Rightarrow> auth_gate \<Rightarrow> string \<Rightarrow> string \<Rightarrow> string option" where
  "write_target_outside_workspace home g tool args =
     (let path = extract_string_arg args ''path''; target = resolve_against home (ag_workspace g) path in
      if ag_sandboxed g \<or> tool \<notin> set file_write_tools \<or> path = [] \<or> is_under target (ag_workspace g)
      then None else Some target)"

end
