(* ===== verification/Auth_Session.thy ===== *)
theory Auth_Session
  imports Auth_Gate "HOL-Library.AList"
begin

text \<open>
  The gate at work: the calls a session parks and approves
  (\<^verbatim>\<open>internal/session/manager.go\<close>), the split of a round's calls and the run of
  approved ones (\<^verbatim>\<open>internal/agent/loop_auth.go\<close>), the answers of the user
  (\<^verbatim>\<open>internal/agent/slash.go\<close>) and the pairing of results with calls in the agent loop
  (\<^verbatim>\<open>internal/agent/loop.go\<close>).
\<close>

section \<open>Calls and sessions\<close>

record tool_call =
  tc_id :: string
  tc_name :: string
  tc_args :: string

record auth_session =
  as_pending :: "tool_call list"
  as_approved :: "tool_call list"
  as_desc :: string

definition new_session :: auth_session where
  "new_session = \<lparr>as_pending = [], as_approved = [], as_desc = []\<rparr>"

definition push_pending_calls :: "tool_call list \<Rightarrow> string \<Rightarrow> auth_session \<Rightarrow> auth_session" where
  "push_pending_calls calls desc s =
     s\<lparr>as_pending := as_pending s @ calls, as_desc := (if desc \<noteq> [] then desc else as_desc s)\<rparr>"

definition pop_pending_calls :: "auth_session \<Rightarrow> tool_call list \<times> auth_session" where
  "pop_pending_calls s = (as_pending s, s\<lparr>as_pending := [], as_desc := []\<rparr>)"

definition set_approved_pending :: "tool_call list \<Rightarrow> auth_session \<Rightarrow> auth_session" where
  "set_approved_pending calls s = s\<lparr>as_approved := calls\<rparr>"

definition drain_approved_pending :: "auth_session \<Rightarrow> tool_call list \<times> auth_session" where
  "drain_approved_pending s = (as_approved s, s\<lparr>as_approved := []\<rparr>)"

definition clear_pending_calls :: "auth_session \<Rightarrow> auth_session" where
  "clear_pending_calls s = s\<lparr>as_pending := [], as_desc := []\<rparr>"

section \<open>A round of calls\<close>

text \<open>The synthetic results of calls that do not run; the wording is not modelled.\<close>

datatype tool_result =
    Ran string
  | Denied string
  | Holding string
  | Deferred
  | NoResponse

record auth_agent =
  aa_gate :: "auth_gate option"
  aa_mode :: string
  aa_home :: "string option"

definition effective_mode :: "auth_agent \<Rightarrow> string" where
  "effective_mode a = (if aa_mode a = [] then ''ask'' else aa_mode a)"

definition judge :: "auth_agent \<Rightarrow> auth_gate \<Rightarrow> string \<Rightarrow> tool_call \<Rightarrow> auth_decision" where
  "judge a g mode c = evaluate_call (aa_home a) g (tc_name c) (tc_args c) mode"

text \<open>
  The loop over the calls: those to run, the results of the others by the id of their call (a Go
  map; the list stands for its iteration order), those that wait, and the first reason to prompt.
\<close>

type_synonym split_acc =
  "tool_call list \<times> (string \<times> string \<times> tool_result) list \<times> tool_call list \<times> string"

fun split_calls :: "(tool_call \<Rightarrow> auth_decision) \<Rightarrow> tool_call list \<Rightarrow> split_acc \<Rightarrow> split_acc" where
  "split_calls j [] acc = acc"
| "split_calls j (c # cs) (run, blocked, waiting, desc) =
     (case j c of
        (AuthAllow, _) \<Rightarrow> split_calls j cs (run @ [c], blocked, waiting, desc)
      | (AuthBlock, why) \<Rightarrow>
          split_calls j cs (run, AList.update (tc_id c) (tc_name c, Denied why) blocked, waiting, desc)
      | (AuthPrompt, why) \<Rightarrow>
          split_calls j cs
            (run, AList.update (tc_id c) (tc_name c, Holding why) blocked, waiting @ [c],
             if desc = [] then why else desc))"

definition filter_authorized_calls ::
  "auth_agent \<Rightarrow> tool_call list \<Rightarrow> auth_session
   \<Rightarrow> tool_call list \<times> (string \<times> string \<times> tool_result) list \<times> string \<times> auth_session" where
  "filter_authorized_calls a calls s =
     (case aa_gate a of
        None \<Rightarrow> (calls, [], [], s)
      | Some g \<Rightarrow>
          (case split_calls (judge a g (effective_mode a)) calls ([], [], [], []) of
             (run, blocked, waiting, desc) \<Rightarrow>
               (run, blocked, desc, if waiting \<noteq> [] then push_pending_calls waiting desc s else s)))"

text \<open>
  The results of a round as the loop collects them: first those of the calls that ran (the engine
  returns one for each, in the order of its argument), then the ones of the gate, then the ones
  of the calls beyond the cap on parallel calls.
\<close>

type_synonym result_row = "string \<times> string \<times> tool_result"   \<comment> \<open>call id, tool, result\<close>

definition execute_tools :: "(tool_call \<Rightarrow> string) \<Rightarrow> tool_call list \<Rightarrow> result_row list" where
  "execute_tools engine calls = map (\<lambda>c. (tc_id c, tc_name c, Ran (engine c))) calls"

definition capped :: "nat \<Rightarrow> tool_call list \<Rightarrow> tool_call list \<times> tool_call list" where
  "capped cap calls = (if cap > 0 \<and> length calls > cap then (take cap calls, drop cap calls) else (calls, []))"

definition pad_results :: "tool_call list \<Rightarrow> result_row list \<Rightarrow> result_row list" where
  "pad_results calls rs =
     (if length rs < length calls
      then map (\<lambda>c. case map_of (rev rs) (tc_id c) of
                      Some r \<Rightarrow> (tc_id c, r) | None \<Rightarrow> (tc_id c, tc_name c, NoResponse)) calls
      else rs)"

definition round_results ::
  "(tool_call \<Rightarrow> string) \<Rightarrow> nat \<Rightarrow> tool_call list \<Rightarrow> tool_call list \<Rightarrow> result_row list \<Rightarrow> result_row list" where
  "round_results engine cap calls run blocked =
     (case capped cap run of
        (now, later) \<Rightarrow>
          pad_results calls
            (execute_tools engine now @ blocked @ map (\<lambda>c. (tc_id c, tc_name c, Deferred)) later))"

text \<open>The tool messages of the round: the loop pairs results and calls by position.\<close>

definition tool_messages :: "tool_call list \<Rightarrow> result_row list \<Rightarrow> result_row list" where
  "tool_messages calls rs = map (\<lambda>(c, (_, name, r)). (tc_id c, name, r)) (zip calls rs)"

definition run_round ::
  "(tool_call \<Rightarrow> string) \<Rightarrow> nat \<Rightarrow> auth_agent \<Rightarrow> tool_call list \<Rightarrow> auth_session
   \<Rightarrow> tool_call list \<times> result_row list \<times> auth_session" where
  "run_round engine cap a calls s =
     (case filter_authorized_calls a calls s of
        (run, blocked, _, s1) \<Rightarrow>
          (fst (capped cap run), tool_messages calls (round_results engine cap calls run blocked), s1))"

section \<open>Answers of the user\<close>

definition slash_auth_reply :: "bool \<Rightarrow> auth_session \<Rightarrow> bool \<times> auth_session" where
  "slash_auth_reply approved s =
     (case pop_pending_calls s of
        (pending, s1) \<Rightarrow>
          (if pending = [] then (False, s1)
           else if approved then (True, set_approved_pending pending s1)
           else (False, s1)))"

definition apply_auth_reply_steer :: "bool \<Rightarrow> auth_session \<Rightarrow> tool_call list \<times> auth_session" where
  "apply_auth_reply_steer approved s =
     (case pop_pending_calls s of
        (pending, s1) \<Rightarrow>
          (if pending = [] \<or> \<not> approved then ([], s1)
           else drain_approved_pending (set_approved_pending pending s1)))"

definition slash_set_auth_mode ::
  "string \<Rightarrow> auth_agent \<Rightarrow> auth_session \<Rightarrow> bool \<times> auth_agent \<times> auth_session" where
  "slash_set_auth_mode mode a s =
     (let a1 = a\<lparr>aa_mode := mode\<rparr> in
      case aa_gate a of
        None \<Rightarrow> (False, a1, s)
      | Some g \<Rightarrow>
          (case pop_pending_calls s of
             (pending, s1) \<Rightarrow>
               (let approved = filter (\<lambda>c. fst (judge a1 g mode c) = AuthAllow) pending
                in (approved \<noteq> [], a1, if approved \<noteq> [] then set_approved_pending approved s1 else s1))))"

section \<open>Runs\<close>

text \<open>
  What may happen to an agent with its sessions, in any order: a round of calls of a chat with its
  cap, the drain at the top of a turn, the answers of the user as commands and in the middle of a
  turn, a change of the mode, and the changes of the gate.
\<close>

datatype auth_event =
    Round string nat "tool_call list"
  | Drain string
  | Reply string bool
  | Steer string bool
  | Mode string string
  | Sandbox bool
  | Reload "string option"

record auth_world =
  aw_agent :: auth_agent
  aw_sessions :: "string \<Rightarrow> auth_session"
  aw_ran :: "tool_call list"

definition put_session :: "string \<Rightarrow> auth_session \<Rightarrow> tool_call list \<Rightarrow> auth_world \<Rightarrow> auth_world" where
  "put_session k s calls w =
     w\<lparr>aw_sessions := (aw_sessions w)(k := s), aw_ran := aw_ran w @ calls\<rparr>"

definition change_gate :: "(auth_gate \<Rightarrow> auth_gate) \<Rightarrow> auth_world \<Rightarrow> auth_world" where
  "change_gate f w = w\<lparr>aw_agent := (aw_agent w)\<lparr>aa_gate := map_option f (aa_gate (aw_agent w))\<rparr>\<rparr>"

fun auth_step :: "(tool_call \<Rightarrow> string) \<Rightarrow> auth_event \<Rightarrow> auth_world \<Rightarrow> auth_world" where
  "auth_step engine (Round k cap calls) w =
     (case run_round engine cap (aw_agent w) calls (aw_sessions w k) of
        (now, _, s) \<Rightarrow> put_session k s now w)"
| "auth_step engine (Drain k) w =
     (case drain_approved_pending (aw_sessions w k) of (calls, s) \<Rightarrow> put_session k s calls w)"
| "auth_step engine (Reply k yes) w = put_session k (snd (slash_auth_reply yes (aw_sessions w k))) [] w"
| "auth_step engine (Steer k yes) w =
     (case apply_auth_reply_steer yes (aw_sessions w k) of (calls, s) \<Rightarrow> put_session k s calls w)"
| "auth_step engine (Mode k m) w =
     (case slash_set_auth_mode m (aw_agent w) (aw_sessions w k) of
        (_, a, s) \<Rightarrow> put_session k s [] (w\<lparr>aw_agent := a\<rparr>))"
| "auth_step engine (Sandbox v) w = change_gate (set_sandboxed v) w"
| "auth_step engine (Reload data) w = change_gate (reload data) w"

definition auth_run :: "(tool_call \<Rightarrow> string) \<Rightarrow> auth_event list \<Rightarrow> auth_world \<Rightarrow> auth_world" where
  "auth_run engine es w = fold (auth_step engine) es w"

definition start_world :: "auth_agent \<Rightarrow> auth_world" where
  "start_world a = \<lparr>aw_agent = a, aw_sessions = (\<lambda>_. new_session), aw_ran = []\<rparr>"

section \<open>What the gate lets run\<close>

definition hardline_command :: "string \<Rightarrow> bool" where
  "hardline_command command =
     (command \<noteq> []
      \<and> (fst (classify_command command) = TierHardline
         \<or> snd (unwrap_shell_wrapper command)
           \<and> fst (classify_command (fst (unwrap_shell_wrapper command))) = TierHardline))"

definition hardline_call :: "tool_call \<Rightarrow> bool" where
  "hardline_call c =
     (tc_name c \<in> set exec_tools \<and> hardline_command (extract_string_arg (tc_args c) ''command''))"

lemma hardline_blocked: "hardline_call c \<Longrightarrow> fst (judge a g mode c) = AuthBlock"
  by (auto simp: hardline_call_def hardline_command_def judge_def evaluate_call_def evaluate_exec_def Let_def
      split: prod.split)

lemma split_calls_spec:
  "split_calls j cs (run, blocked, waiting, desc) = (run', blocked', waiting', desc') \<Longrightarrow>
     run' = run @ filter (\<lambda>c. fst (j c) = AuthAllow) cs
     \<and> waiting' = waiting @ filter (\<lambda>c. fst (j c) = AuthPrompt) cs"
proof (induction cs arbitrary: run blocked waiting desc)
  case (Cons c cs)
  obtain act why where j: "j c = (act, why)" by fastforce
  show ?case
  proof (cases act)
    case AuthAllow
    with Cons.IH Cons.prems j show ?thesis by fastforce
  next
    case AuthBlock
    with Cons.IH Cons.prems j show ?thesis by fastforce
  next
    case AuthPrompt
    with Cons.IH Cons.prems j show ?thesis by fastforce
  qed
qed simp

lemma filter_authorized_spec:
  assumes "aa_gate a = Some g" and "filter_authorized_calls a calls s = (run, blocked, desc, s')"
  shows "run = filter (\<lambda>c. fst (judge a g (effective_mode a) c) = AuthAllow) calls"
    and "as_pending s' = as_pending s @ filter (\<lambda>c. fst (judge a g (effective_mode a) c) = AuthPrompt) calls"
    and "as_approved s' = as_approved s"
  using assms
  by (auto simp: filter_authorized_calls_def push_pending_calls_def split: prod.splits if_splits
      dest!: split_calls_spec)

lemma capped_subset: "set (fst (capped cap calls)) \<subseteq> set calls"
  by (auto simp: capped_def dest: in_set_takeD)

lemma run_round_spec:
  assumes "aa_gate a = Some g" and "run_round engine cap a calls s = (now, msgs, s')"
  shows "set now \<subseteq> {c. fst (judge a g (effective_mode a) c) = AuthAllow}"
    and "set (as_pending s') \<subseteq> set (as_pending s) \<union> {c. fst (judge a g (effective_mode a) c) = AuthPrompt}"
    and "as_approved s' = as_approved s"
proof -
  obtain run blocked desc s1 where f: "filter_authorized_calls a calls s = (run, blocked, desc, s1)"
    using prod_cases4 by blast
  with assms(2) have "now = fst (capped cap run)" "s' = s1" by (auto simp: run_round_def)
  with filter_authorized_spec [OF assms(1) f] capped_subset [of cap run]
  show "set now \<subseteq> {c. fst (judge a g (effective_mode a) c) = AuthAllow}"
    "set (as_pending s') \<subseteq> set (as_pending s) \<union> {c. fst (judge a g (effective_mode a) c) = AuthPrompt}"
    "as_approved s' = as_approved s"
    by auto
qed

text \<open>A set of calls that every session keeps to: what waits, what is approved and what ran.\<close>

definition within :: "tool_call set \<Rightarrow> auth_world \<Rightarrow> bool" where
  "within C w \<longleftrightarrow> set (aw_ran w) \<subseteq> C
     \<and> (\<forall>k. set (as_pending (aw_sessions w k)) \<subseteq> C \<and> set (as_approved (aw_sessions w k)) \<subseteq> C)"

lemmas session_defs = drain_approved_pending_def slash_auth_reply_def apply_auth_reply_steer_def
  slash_set_auth_mode_def pop_pending_calls_def set_approved_pending_def put_session_def change_gate_def

lemma auth_step_within:
  assumes "within C w" and "aa_gate (aw_agent w) = Some g"
    and judged: "\<And>a g mode c. fst (judge a g mode c) \<noteq> AuthBlock \<Longrightarrow> c \<in> C"
  shows "within C (auth_step engine e w)"
proof (cases e)
  case (Round k cap calls)
  obtain now msgs s' where r: "run_round engine cap (aw_agent w) calls (aw_sessions w k) = (now, msgs, s')"
    using prod_cases3 by blast
  have "{c. fst (judge (aw_agent w) g (effective_mode (aw_agent w)) c) = act} \<subseteq> C" if "act \<noteq> AuthBlock" for act
    using judged that by auto
  from this [of AuthAllow] this [of AuthPrompt] run_round_spec [OF assms(2) r] assms(1) show ?thesis
    unfolding Round by (simp add: r within_def put_session_def) blast
next
  case (Mode k m)
  with assms(1) show ?thesis
    by (auto simp: within_def session_defs Let_def split: option.splits)
qed (use assms(1) in \<open>auto simp: within_def session_defs split: if_splits\<close>)

lemma auth_step_gate: "aa_gate (aw_agent w) \<noteq> None \<Longrightarrow> aa_gate (aw_agent (auth_step engine e w)) \<noteq> None"
  by (cases e) (auto simp: session_defs Let_def split: prod.splits option.splits)


definition demo_agent :: auth_agent where
  "demo_agent = \<lparr>aa_gate = Some (new_auth_gate None ''/srv/agents/a1'' ''/srv/ws''), aa_mode = [], aa_home = None\<rparr>"

definition json_arg :: "string \<Rightarrow> string \<Rightarrow> string" where
  "json_arg key v = ''{'' @ [CHR 0x22] @ key @ [CHR 0x22] @ '':'' @ [CHR 0x22] @ v @ [CHR 0x22] @ ''}''"

definition demo_call :: "string \<Rightarrow> string \<Rightarrow> string \<Rightarrow> string \<Rightarrow> tool_call" where
  "demo_call i tool key v = \<lparr>tc_id = i, tc_name = tool, tc_args = json_arg key v\<rparr>"

definition demo_events :: "auth_event list" where
  "demo_events =
     [Mode ''k'' ''yolo'',
      Round ''k'' 0 [demo_call ''1'' ''exec'' ''command'' ''rm -rf /'', demo_call ''2'' ''read_file'' ''path'' ''a.txt'']]"


fun unapproved :: "auth_event \<Rightarrow> bool" where
  "unapproved (Round _ _ _) = True"
| "unapproved (Drain _) = True"
| "unapproved (Reply _ yes) = (\<not> yes)"
| "unapproved (Steer _ yes) = (\<not> yes)"
| "unapproved _ = False"



section \<open>Results and calls\<close>

text \<open>
  The loop hands results to the wrong calls: in a round of two calls of which the gate refuses
  or parks the first and allows the second, the output of the second call is recorded as the
  result of the first, and the notice of the gate as the result of the call that ran.
\<close>

lemma results_are_swapped:
  assumes "aa_gate a = Some g" and "tc_id c \<noteq> tc_id d"
    and "judge a g (effective_mode a) c = (act, why)" and "act \<noteq> AuthAllow"
    and "fst (judge a g (effective_mode a) d) = AuthAllow"
  shows "fst (snd (run_round engine cap a [c, d] s)) =
    [(tc_id c, tc_name d, Ran (engine d)),
     (tc_id d, tc_name c, if act = AuthBlock then Denied why else Holding why)]"
proof -
  obtain why' where d: "judge a g (effective_mode a) d = (AuthAllow, why')"
    using assms(5) by (cases "judge a g (effective_mode a) d") auto
  have "capped cap [d] = ([d], [])" by (auto simp: capped_def)
  with assms d show ?thesis
    by (cases act)
      (simp_all add: run_round_def filter_authorized_calls_def round_results_def execute_tools_def
        pad_results_def tool_messages_def)
qed

lemma results_are_swapped_witness:
  "fst (snd (run_round (\<lambda>c. ''output of '' @ tc_id c) 0 demo_agent
      [demo_call ''1'' ''exec'' ''command'' ''rm -rf /'', demo_call ''2'' ''read_file'' ''path'' ''a.txt''] new_session)) =
    [(''1'', ''read_file'', Ran ''output of 2''),
     (''2'', ''exec'', Denied ''hardline: recursive delete of root/system/home directory'')]"
proof -
  let ?g = "new_auth_gate None ''/srv/agents/a1'' ''/srv/ws''"
  let ?c = "demo_call ''1'' ''exec'' ''command'' ''rm -rf /''" and ?d = "demo_call ''2'' ''read_file'' ''path'' ''a.txt''"
  have g: "aa_gate demo_agent = Some ?g" by (simp add: demo_agent_def)
  have ids: "tc_id ?c \<noteq> tc_id ?d" by (simp add: demo_call_def)
  have c: "judge demo_agent ?g (effective_mode demo_agent) ?c
      = (AuthBlock, ''hardline: recursive delete of root/system/home directory'')"
    and d: "fst (judge demo_agent ?g (effective_mode demo_agent) ?d) = AuthAllow"
    by code_simp+
  have "AuthBlock \<noteq> AuthAllow" by simp
  from results_are_swapped [OF g ids c this d, of "\<lambda>c. ''output of '' @ tc_id c" 0 new_session] show ?thesis
    by (simp add: demo_call_def)
qed

section \<open>What the gate does not see\<close>

text \<open>
  Two of the tools that change files are never asked about: in every mode and for every path,
  \<^verbatim>\<open>edit_file\<close>, which the gate's list of tools does not hold, and \<^verbatim>\<open>apply_patch\<close> with its
  only argument \<^verbatim>\<open>input\<close>, are allowed, while \<^verbatim>\<open>write_file\<close> of the same path outside
  the workspace is not.
\<close>

lemma edit_and_patch_are_not_gated:
  assumes "extract_string_arg args ''path'' = []"
    and "path \<noteq> []" and "extract_string_arg wargs ''path'' = path" and "\<not> ag_sandboxed g" and "ag_allow g = []"
    and "\<not> is_under (resolve_against home (ag_workspace g) path) (ag_workspace g)" and "mode_of mode \<noteq> Yolo"
  shows "evaluate_call home g ''edit_file'' any mode = (AuthAllow, []) \<and>
    evaluate_call home g ''apply_patch'' args mode = (AuthAllow, []) \<and>
    fst (evaluate_call home g ''write_file'' wargs mode) \<noteq> AuthAllow"
  using assms
  by (auto simp: evaluate_call_def exec_tools_def file_write_tools_def evaluate_write_def Let_def mode_gate_def
      split: auth_mode.split)

lemma edit_and_patch_are_not_gated_witness:
  "evaluate_call None (new_auth_gate None ''/srv/agents/a1'' ''/srv/ws'') ''edit_file''
      (json_arg ''path'' ''/etc/passwd'') ''ask'' = (AuthAllow, [])"
proof -
  let ?g = "new_auth_gate None ''/srv/agents/a1'' ''/srv/ws''"
  have "extract_string_arg (json_arg ''input'' ''x'') ''path'' = []" "''/etc/passwd'' \<noteq> []"
    "extract_string_arg (json_arg ''path'' ''/etc/passwd'') ''path'' = ''/etc/passwd''" "\<not> ag_sandboxed ?g"
    "ag_allow ?g = []" "\<not> is_under (resolve_against None (ag_workspace ?g) ''/etc/passwd'') (ag_workspace ?g)"
    "mode_of ''ask'' \<noteq> Yolo"
    by code_simp+
  from edit_and_patch_are_not_gated [OF this] show ?thesis by blast
qed

text \<open>
  The hardline floor and the list of safe commands have holes: a semicolon after the target hides
  a deletion of the root from the hardline patterns, so \<^verbatim>\<open>/yolo\<close> lets it run, and a
  \<^verbatim>\<open>git diff\<close> that writes a file of choice counts as read-only in every mode.
\<close>

lemma semicolon_hides_hardline:
  "evaluate_call None (new_auth_gate None ''/srv/agents/a1'' ''/srv/ws'') ''exec''
      (json_arg ''command'' ''rm -rf /;'') ''yolo'' = (AuthAllow, [])"
  by code_simp

lemma safe_command_writes:
  "evaluate_call None (new_auth_gate None ''/srv/agents/a1'' ''/srv/ws'') ''exec''
      (json_arg ''command'' ''git diff --output=/etc/x'') ''auto'' = (AuthAllow, [])"
  by code_simp

end
