(* ===== verification/Go_Time.thy ===== *)
theory Go_Time
  imports Go_Float
begin

text \<open>
  What the modelled code uses of Go's \<^verbatim>\<open>time\<close> and \<^verbatim>\<open>strconv\<close> packages: instants,
  durations, locations, the Gregorian calendar, \<^verbatim>\<open>ParseDuration\<close>, \<^verbatim>\<open>Atoi\<close>
  and \<^verbatim>\<open>strings.Fields\<close>.

  An instant and a duration are integers of nanoseconds, the former since the Unix epoch; the
  wrap-around of a duration after 292 years is not modelled. A location is its offset from UTC in
  seconds as a function of the Unix time, which is what the time zone data base holds.
\<close>

section \<open>Durations\<close>

definition second :: int where "second = 1000000000"
definition minute :: int where "minute = 60 * second"
definition hour :: int where "hour = 3600 * second"

definition max_int64 :: int where "max_int64 = 9223372036854775807"

text \<open>\<^verbatim>\<open>strconv.Atoi\<close> on a 64-bit machine.\<close>

definition is_digit :: "char \<Rightarrow> bool" where
  "is_digit c = (dec_digit c \<noteq> None)"

definition digits_val :: "string \<Rightarrow> int" where
  "digits_val s = foldl (\<lambda>n c. 10 * n + the (dec_digit c)) 0 s"

definition atoi :: "string \<Rightarrow> int option" where
  "atoi s =
     (let neg = (s \<noteq> [] \<and> hd s = CHR ''-'');
          ds = (if s \<noteq> [] \<and> (hd s = CHR ''-'' \<or> hd s = CHR ''+'') then tl s else s);
          n = (if neg then - digits_val ds else digits_val ds)
      in if ds = [] \<or> \<not> list_all is_digit ds then None
         else if - max_int64 - 1 \<le> n \<and> n \<le> max_int64 then Some n else None)"

text \<open>\<^verbatim>\<open>time.ParseDuration\<close>. The units in nanoseconds; both spellings of the micro sign.\<close>

definition unit_map :: "(string \<times> int) list" where
  "unit_map =
     [(''ns'', 1), (''us'', 1000), ([CHR 0xC2, CHR 0xB5, CHR ''s''], 1000), ([CHR 0xCE, CHR 0xBC, CHR ''s''], 1000),
      (''ms'', 1000000), (''s'', second), (''m'', minute), (''h'', hour)]"

definition max_mag :: int where "max_mag = 9223372036854775808"

fun leading_int :: "int \<Rightarrow> string \<Rightarrow> (int \<times> string) option" where
  "leading_int x [] = Some (x, [])"
| "leading_int x (c # s) =
     (case dec_digit c of
        None \<Rightarrow> Some (x, c # s)
      | Some d \<Rightarrow>
          (if x > max_mag div 10 \<or> 10 * x + d > max_mag then None else leading_int (10 * x + d) s))"

fun leading_fraction :: "bool \<Rightarrow> int \<Rightarrow> int \<Rightarrow> string \<Rightarrow> int \<times> int \<times> string" where
  "leading_fraction over x scale [] = (x, scale, [])"
| "leading_fraction over x scale (c # s) =
     (case dec_digit c of
        None \<Rightarrow> (x, scale, c # s)
      | Some d \<Rightarrow>
          (if over \<or> x > max_int64 div 10 \<or> 10 * x + d > max_mag then leading_fraction True x scale s
           else leading_fraction False (10 * x + d) (10 * scale) s))"

fun float_times :: "float64 \<Rightarrow> float64 \<Rightarrow> int" where
  "float_times (FFin _ m e) (FFin _ m' e') =
     (case (if 0 \<le> e + e' then mk_float False (m * m' * pow2 (e + e')) 1
            else mk_float False (m * m') (pow2 (- (e + e')))) of
        FFin _ n k \<Rightarrow> (if 0 \<le> k then n * pow2 k else n div pow2 (- k))
      | _ \<Rightarrow> 0)"
| "float_times _ _ = 0"

definition fraction_ns :: "int \<Rightarrow> int \<Rightarrow> int \<Rightarrow> int" where
  "fraction_ns f u scale = float_times (mk_float False f 1) (mk_float False u scale)"

fun duration_parts :: "nat \<Rightarrow> string \<Rightarrow> int \<Rightarrow> int option" where
  "duration_parts 0 s d = None"
| "duration_parts (Suc n) s d =
     (if s = [] then Some d
      else case leading_int 0 s of
        None \<Rightarrow> None
      | Some (v, s1) \<Rightarrow>
          (let pre = (length s1 < length s);
               dot = (s1 \<noteq> [] \<and> hd s1 = CHR ''.'');
               s2 = (if dot then tl s1 else s1) in
           case (if dot then leading_fraction False 0 1 s2 else (0, 1, s2)) of
             (f, scale, s3) \<Rightarrow>
               (let post = (dot \<and> length s3 < length s2);
                    stop = (\<lambda>c. c = CHR ''.'' \<or> is_digit c);
                    u = takeWhile (\<lambda>c. \<not> stop c) s3; s4 = dropWhile (\<lambda>c. \<not> stop c) s3 in
                if \<not> pre \<and> \<not> post \<or> u = [] then None
                else case map_of unit_map u of
                       None \<Rightarrow> None
                     | Some unit \<Rightarrow>
                         (let w = v * unit + (if f > 0 then fraction_ns f unit scale else 0) in
                          if v > max_mag div unit \<or> w > max_mag \<or> d + w > max_mag then None
                          else duration_parts n s4 (d + w)))))"

definition parse_duration :: "string \<Rightarrow> int option" where
  "parse_duration s =
     (let neg = (s \<noteq> [] \<and> hd s = CHR ''-'');
          s1 = (if s \<noteq> [] \<and> (hd s = CHR ''-'' \<or> hd s = CHR ''+'') then tl s else s)
      in if s1 = ''0'' then Some 0
         else if s1 = [] then None
         else case duration_parts (Suc (length s1)) s1 0 of
                None \<Rightarrow> None
              | Some d \<Rightarrow> if neg then Some (- d) else if d > max_int64 then None else Some d)"

section \<open>The calendar\<close>

text \<open>Days since the epoch of a date of the Gregorian calendar, and back (eras of 400 years).\<close>

definition days_from_civil :: "int \<Rightarrow> int \<Rightarrow> int \<Rightarrow> int" where
  "days_from_civil y m d =
     (let y' = (if m \<le> 2 then y - 1 else y); era = y' div 400; yoe = y' mod 400;
          doy = (153 * (if m > 2 then m - 3 else m + 9) + 2) div 5 + d - 1;
          doe = yoe * 365 + yoe div 4 - yoe div 100 + doy
      in era * 146097 + doe - 719468)"

definition civil_from_days :: "int \<Rightarrow> int \<times> int \<times> int" where
  "civil_from_days days =
     (let z = days + 719468; era = z div 146097; doe = z mod 146097;
          yoe = (doe - doe div 1460 + doe div 36524 - doe div 146096) div 365;
          doy = doe - (365 * yoe + yoe div 4 - yoe div 100); mp = (5 * doy + 2) div 153;
          d = doy - (153 * mp + 2) div 5 + 1; m = (if mp < 10 then mp + 3 else mp - 9)
      in (yoe + era * 400 + (if m \<le> 2 then 1 else 0), m, d))"

text \<open>\<^verbatim>\<open>time.Date\<close> normalizes the month and lets the day run over.\<close>

definition date_days :: "int \<Rightarrow> int \<Rightarrow> int \<Rightarrow> int" where
  "date_days y m d = days_from_civil (y + (m - 1) div 12) ((m - 1) mod 12 + 1) 1 + (d - 1)"

type_synonym location = "int \<Rightarrow> int"

definition utc :: location where "utc t = 0"

record wall_clock =
  wc_year :: int
  wc_month :: int
  wc_day :: int
  wc_hour :: int
  wc_minute :: int
  wc_second :: int
  wc_weekday :: int   \<comment> \<open>Sunday is 0\<close>

definition wall :: "location \<Rightarrow> int \<Rightarrow> wall_clock" where
  "wall loc t =
     (let unix = t div second; local = unix + loc unix; days = local div 86400; sec = local mod 86400 in
      case civil_from_days days of
        (y, m, d) \<Rightarrow>
          \<lparr>wc_year = y, wc_month = m, wc_day = d, wc_hour = sec div 3600, wc_minute = (sec mod 3600) div 60,
           wc_second = sec mod 60, wc_weekday = (days + 4) mod 7\<rparr>)"

text \<open>\<^verbatim>\<open>time.Date\<close> in a location: the offset is looked up at the first guess, then at its result.\<close>

definition unix_in :: "location \<Rightarrow> int \<Rightarrow> int" where
  "unix_in loc local = (let off = loc local in if off = 0 then local else local - loc (local - off))"

definition add_years :: "location \<Rightarrow> int \<Rightarrow> int \<Rightarrow> int" where
  "add_years loc t n =
     (let w = wall loc t in
      unix_in loc
        (date_days (wc_year w + n) (wc_month w) (wc_day w) * 86400
         + wc_hour w * 3600 + wc_minute w * 60 + wc_second w) * second + t mod second)"

text \<open>\<^verbatim>\<open>t.Truncate(time.Minute)\<close>: the zero time is a whole number of minutes before the epoch.\<close>

definition truncate_minute :: "int \<Rightarrow> int" where
  "truncate_minute t = t - t mod minute"

section \<open>strings.Fields\<close>

function fields_from :: "string \<Rightarrow> string \<Rightarrow> string list" where
  "fields_from acc s =
     (if s = [] then (if acc = [] then [] else [acc])
      else
        (let k = snd (decode_rune s) in
         if is_space (fst (decode_rune s))
         then (if acc = [] then [] else [acc]) @ fields_from [] (drop k s)
         else fields_from (acc @ take k s) (drop k s)))"
  by pat_completeness auto
termination
  by (relation "measure (\<lambda>(_, s). length s)") (auto dest: decode_rune_width)

declare fields_from.simps [simp del]

definition str_fields :: "string \<Rightarrow> string list" where
  "str_fields s = fields_from [] s"

end
