(* ===== verification/Cron_Expr.thy ===== *)
theory Cron_Expr
  imports Go_Time Go_Path
begin

text \<open>
  Cron expressions (\<^verbatim>\<open>internal/cron/scheduler.go\<close>): the parser
  (\<^verbatim>\<open>parseCron\<close>), matching of a wall clock (\<^verbatim>\<open>match\<close>) and the search for
  the next occurrence in a location (\<^verbatim>\<open>NextOccurrenceIn\<close>).
\<close>

section \<open>Expressions\<close>

record cron_part =
  cp_lo :: int
  cp_hi :: int
  cp_step :: int

type_synonym cron_field = "cron_part list"

definition part_match :: "int \<Rightarrow> cron_part \<Rightarrow> bool" where
  "part_match v p = (v \<ge> cp_lo p \<and> v \<le> cp_hi p \<and> (v - cp_lo p) mod cp_step p = 0)"

definition field_match :: "cron_field \<Rightarrow> int \<Rightarrow> bool" where
  "field_match f v = list_ex (part_match v) f"

record cron_spec =
  cs_minute :: cron_field
  cs_hour :: cron_field
  cs_day :: cron_field
  cs_month :: cron_field
  cs_weekday :: cron_field
  cs_day_restricted :: bool
  cs_dow_restricted :: bool

definition cron_month_names :: "(string \<times> int) list" where
  "cron_month_names =
     [(''jan'', 1), (''feb'', 2), (''mar'', 3), (''apr'', 4), (''may'', 5), (''jun'', 6), (''jul'', 7), (''aug'', 8),
      (''sep'', 9), (''oct'', 10), (''nov'', 11), (''dec'', 12)]"

definition cron_weekday_names :: "(string \<times> int) list" where
  "cron_weekday_names =
     [(''sun'', 0), (''mon'', 1), (''tue'', 2), (''wed'', 3), (''thu'', 4), (''fri'', 5), (''sat'', 6)]"

text \<open>The range and the names of each field, in the order of the expression.\<close>

definition cron_field_specs :: "(int \<times> int \<times> (string \<times> int) list) list" where
  "cron_field_specs =
     [(0, 59, []), (0, 23, []), (1, 31, []), (1, 12, cron_month_names), (0, 7, cron_weekday_names)]"

section \<open>The parser\<close>

datatype cron_error =
    FieldCount nat
  | InvalidStep string
  | InvalidRange string
  | InvalidValue string
  | OutOfRange nat string

definition cron_value :: "string \<Rightarrow> (string \<times> int) list \<Rightarrow> (cron_error, int) res" where
  "cron_value s names =
     (case atoi s of
        Some n \<Rightarrow> Inr n
      | None \<Rightarrow> (case map_of names (to_lower s) of Some n \<Rightarrow> Inr n | None \<Rightarrow> Inl (InvalidValue s)))"

text \<open>What a part is without its step.\<close>

definition cron_bounds :: "string \<Rightarrow> (string \<times> int) list \<Rightarrow> int \<Rightarrow> (cron_error, cron_part) res" where
  "cron_bounds part names step =
     (if part = ''*'' then Inr \<lparr>cp_lo = 0, cp_hi = max_int64, cp_step = step\<rparr>
      else if CHR ''-'' \<in> set part then
        (case cut part (CHR ''-'') of
           (a, b, _) \<Rightarrow>
             (case (cron_value a names, cron_value b names) of
                (Inr lo, Inr hi) \<Rightarrow>
                  (if lo > hi then Inl (InvalidRange part)
                   else Inr \<lparr>cp_lo = lo, cp_hi = hi, cp_step = step\<rparr>)
              | _ \<Rightarrow> Inl (InvalidRange part)))
      else case cron_value part names of
             Inl e \<Rightarrow> Inl e
           | Inr n \<Rightarrow> Inr \<lparr>cp_lo = n, cp_hi = n, cp_step = step\<rparr>)"

definition parse_cron_part :: "string \<Rightarrow> (string \<times> int) list \<Rightarrow> (cron_error, cron_part) res" where
  "parse_cron_part part names =
     (case cut part slash of
        (base, step, False) \<Rightarrow> cron_bounds base names 1
      | (base, step, True) \<Rightarrow>
          (case atoi step of
             None \<Rightarrow> Inl (InvalidStep part)
           | Some n \<Rightarrow> if n \<le> 0 then Inl (InvalidStep part) else cron_bounds base names n))"

fun parse_parts ::
  "nat \<Rightarrow> string \<Rightarrow> int \<times> int \<times> (string \<times> int) list \<Rightarrow> string list \<Rightarrow> (cron_error, cron_field) res" where
  "parse_parts i field spec [] = Inr []"
| "parse_parts i field (lo, hi, names) (raw # raws) =
     (case parse_cron_part (trim_space raw) names of
        Inl e \<Rightarrow> Inl e
      | Inr p \<Rightarrow>
          (if cp_hi p \<noteq> max_int64 \<and> (cp_lo p < lo \<or> cp_hi p > hi) then Inl (OutOfRange i field)
           else case parse_parts i field (lo, hi, names) raws of
                  Inl e \<Rightarrow> Inl e | Inr ps \<Rightarrow> Inr (p # ps)))"

fun parse_fields ::
  "nat \<Rightarrow> string list \<Rightarrow> (int \<times> int \<times> (string \<times> int) list) list \<Rightarrow> (cron_error, cron_field list) res" where
  "parse_fields i (f # fs) (s # ss) =
     (case parse_parts i f s (split_str f '','') of
        Inl e \<Rightarrow> Inl e
      | Inr x \<Rightarrow> (case parse_fields (Suc i) fs ss of Inl e \<Rightarrow> Inl e | Inr xs \<Rightarrow> Inr (x # xs)))"
| "parse_fields i _ _ = Inr []"

definition parse_cron :: "string \<Rightarrow> (cron_error, cron_spec) res" where
  "parse_cron schedule =
     (let fields = str_fields schedule in
      if length fields \<noteq> 5 then Inl (FieldCount (length fields))
      else case parse_fields 1 fields cron_field_specs of
             Inl e \<Rightarrow> Inl e
           | Inr fs \<Rightarrow>
               Inr \<lparr>cs_minute = fs ! 0, cs_hour = fs ! 1, cs_day = fs ! 2, cs_month = fs ! 3, cs_weekday = fs ! 4,
                    cs_day_restricted = (fields ! 2 \<noteq> ''*''), cs_dow_restricted = (fields ! 4 \<noteq> ''*'')\<rparr>)"

definition validate_cron :: "string \<Rightarrow> cron_error option" where
  "validate_cron schedule = (case parse_cron schedule of Inl e \<Rightarrow> Some e | Inr _ \<Rightarrow> None)"

section \<open>Matching and the next occurrence\<close>

definition spec_match :: "cron_spec \<Rightarrow> wall_clock \<Rightarrow> bool" where
  "spec_match s w =
     (let dow = wc_weekday w; day_ok = field_match (cs_day s) (wc_day w);
          dow_ok = (field_match (cs_weekday s) dow \<or> dow = 0 \<and> field_match (cs_weekday s) 7)
      in if \<not> field_match (cs_minute s) (wc_minute w) \<or> \<not> field_match (cs_hour s) (wc_hour w)
            \<or> \<not> field_match (cs_month s) (wc_month w) then False
         else if \<not> cs_day_restricted s then dow_ok
         else if \<not> cs_dow_restricted s then day_ok
         else day_ok \<or> dow_ok)"

function scan_minutes :: "cron_spec \<Rightarrow> location \<Rightarrow> int \<Rightarrow> int \<Rightarrow> int option" where
  "scan_minutes spec loc limit t =
     (if \<not> t < limit then None
      else if spec_match spec (wall loc t) then Some t
      else scan_minutes spec loc limit (t + minute))"
  by pat_completeness auto
termination
  by (relation "measure (\<lambda>(_, _, limit, t). nat (limit - t))") (auto simp: minute_def second_def)

declare scan_minutes.simps [simp del]

definition first_minute :: "int \<Rightarrow> int" where
  "first_minute t = truncate_minute t + minute"

definition next_occurrence_in :: "string \<Rightarrow> int \<Rightarrow> location \<Rightarrow> int" where
  "next_occurrence_in schedule t loc =
     (case parse_cron schedule of
        Inl _ \<Rightarrow> t + hour
      | Inr spec \<Rightarrow>
          (let t0 = first_minute t in
           case scan_minutes spec loc (add_years loc t0 4) t0 of
             Some r \<Rightarrow> r | None \<Rightarrow> t + hour))"

section \<open>The next occurrence is the first one\<close>

lemma minute_shift: "(x - (t + minute)) mod minute = (x - t) mod minute" for x t :: int
  using mod_diff_right_eq [of "x - t" minute minute] by (simp add: algebra_simps minus_mod_self2)

lemma minute_near:
  fixes x t :: int
  assumes "t \<le> x" and "x < t + minute" and "(x - t) mod minute = 0"
  shows "x = t"
  using assms mod_pos_pos_trivial [of "x - t" minute] by simp

lemma scan_minutes_Some:
  assumes "scan_minutes spec loc limit t = Some r"
  shows "t \<le> r \<and> r < limit \<and> (r - t) mod minute = 0 \<and> spec_match spec (wall loc r)
    \<and> (\<forall>x. t \<le> x \<and> x < r \<and> (x - t) mod minute = 0 \<longrightarrow> \<not> spec_match spec (wall loc x))"
  using assms
proof (induction spec loc limit t rule: scan_minutes.induct)
  case (1 spec loc limit t)
  show ?case
  proof (cases "spec_match spec (wall loc t)")
    case True
    with 1(2) show ?thesis by (auto simp: scan_minutes.simps [of spec loc limit t] split: if_splits)
  next
    case False
    with 1(2) have lt: "t < limit" and rest: "scan_minutes spec loc limit (t + minute) = Some r"
      by (auto simp: scan_minutes.simps [of spec loc limit t] split: if_splits)
    note ih = 1(1) [OF _ False rest]
    have m: "minute > 0" by (simp add: minute_def second_def)
    have shift: "(x - (t + minute)) mod minute = (x - t) mod minute" for x
      by (rule minute_shift)
    have "\<not> spec_match spec (wall loc x)" if x: "t \<le> x" "x < r" "(x - t) mod minute = 0" for x
    proof (cases "t + minute \<le> x")
      case True
      with ih lt x shift [of x] show ?thesis by auto
    next
      case near: False
      with x minute_near [of t x] have "x = t" by simp
      with False show ?thesis by simp
    qed
    with ih lt m shift [of r] show ?thesis by auto
  qed
qed

lemma scan_minutes_None:
  assumes "scan_minutes spec loc limit t = None" and "t \<le> x" and "x < limit" and "(x - t) mod minute = 0"
  shows "\<not> spec_match spec (wall loc x)"
  using assms
proof (induction spec loc limit t rule: scan_minutes.induct)
  case (1 spec loc limit t)
  from 1(3,4) have lt: "t < limit" by simp
  with 1(2) have no: "\<not> spec_match spec (wall loc t)" and rest: "scan_minutes spec loc limit (t + minute) = None"
    by (auto simp: scan_minutes.simps [of spec loc limit t] split: if_splits)
  show ?case
  proof (cases "t + minute \<le> x")
    case True
    with 1(1) [OF _ no rest] lt 1(4,5) show ?thesis by (simp add: minute_shift)
  next
    case False
    with minute_near [of t x] 1(3,5) no show ?thesis by simp
  qed
qed

text \<open>
  C34. For a valid expression the next occurrence is the first whole minute after the given time
  whose wall clock in the location matches, if there is one within four years; otherwise it is the
  given time plus one hour.
\<close>
theorem next_occurrence_is_first:
  assumes "parse_cron schedule = Inr spec"
  shows "let r = next_occurrence_in schedule t loc; limit = add_years loc (first_minute t) 4;
             candidate = (\<lambda>x. first_minute t \<le> x \<and> x < limit \<and> (x - first_minute t) mod minute = 0
                            \<and> spec_match spec (wall loc x))
         in if \<exists>x. candidate x then t < r \<and> candidate r \<and> (\<forall>x. candidate x \<longrightarrow> r \<le> x)
            else r = t + hour"
proof (cases "scan_minutes spec loc (add_years loc (first_minute t) 4) (first_minute t)")
  case None
  have "\<not> spec_match spec (wall loc x)"
    if "first_minute t \<le> x" "x < add_years loc (first_minute t) 4" "(x - first_minute t) mod minute = 0" for x
    by (rule scan_minutes_None [OF None that])
  with None assms show ?thesis by (auto simp: next_occurrence_in_def Let_def)
next
  case (Some r)
  note first = scan_minutes_Some [OF Some]
  have "r = next_occurrence_in schedule t loc" using Some assms by (simp add: next_occurrence_in_def Let_def)
  moreover have "t < first_minute t"
    using pos_mod_bound [of minute t] by (simp add: first_minute_def truncate_minute_def minute_def second_def)
  ultimately show ?thesis using first by (auto simp: Let_def intro: exI [of _ r])
qed

definition daily_spec :: cron_spec where
  "daily_spec =
     (let every = [\<lparr>cp_lo = 0, cp_hi = max_int64, cp_step = 1\<rparr>] in
      \<lparr>cs_minute = [\<lparr>cp_lo = 1, cp_hi = 1, cp_step = 1\<rparr>], cs_hour = [\<lparr>cp_lo = 0, cp_hi = 0, cp_step = 1\<rparr>],
       cs_day = every, cs_month = every, cs_weekday = every, cs_day_restricted = False, cs_dow_restricted = False\<rparr>)"

lemma daily_parses: "parse_cron ''1 0 * * *'' = Inr daily_spec"
  by code_simp

theorem next_occurrence_is_first_witness:
  "0 < next_occurrence_in ''1 0 * * *'' 0 utc
   \<and> spec_match daily_spec (wall utc (next_occurrence_in ''1 0 * * *'' 0 utc))
   \<and> next_occurrence_in ''1 0 * * *'' 0 utc = minute"
proof -
  have "first_minute 0 \<le> minute \<and> minute < add_years utc (first_minute 0) 4
      \<and> (minute - first_minute 0) mod minute = 0 \<and> spec_match daily_spec (wall utc minute)"
    by code_simp
  then have "0 < next_occurrence_in ''1 0 * * *'' 0 utc
      \<and> spec_match daily_spec (wall utc (next_occurrence_in ''1 0 * * *'' 0 utc))"
    using next_occurrence_is_first [OF daily_parses, of 0 utc] by (auto simp: Let_def split: if_splits)
  moreover have "next_occurrence_in ''1 0 * * *'' 0 utc = minute" by code_simp
  ultimately show ?thesis by simp
qed

text \<open>
  A step on ``every'' counts from zero also where the field starts at one: the months of
  \<^verbatim>\<open>*/5\<close> are May and October, standard cron has January, June and November. A step on
  a single value is accepted and has no effect: \<^verbatim>\<open>1/5\<close> is January.
\<close>

lemma month_step_counts_from_zero:
  "map_sum id (\<lambda>p. List.filter (\<lambda>m. part_match m p) [1..12]) (parse_cron_part ''*/5'' cron_month_names) = Inr [5, 10]"
  by code_simp

lemma step_on_value_is_ignored:
  "map_sum id (\<lambda>p. List.filter (\<lambda>m. part_match m p) [1..12]) (parse_cron_part ''1/5'' cron_month_names) = Inr [1]"
  by code_simp

text \<open>
  The upper end \<^verbatim>\<open>MaxInt\<close> marks ``every'' and is not checked against the field, so this
  expression is valid; it never matches and runs every hour.
\<close>

definition no_minute :: string where "no_minute = ''60-9223372036854775807 * * * *''"

lemma wc_minute_less: "wc_minute (wall loc t) < 60"
proof -
  have "(x mod 3600) div 60 < 60" for x :: int using pos_mod_bound [of 3600 x] by linarith
  then show ?thesis by (simp add: wall_def Let_def split: prod.split)
qed

lemma never_matching_is_accepted:
  "validate_cron no_minute = None" "next_occurrence_in no_minute t loc = t + hour"
proof -
  have m: "map_sum id cs_minute (parse_cron no_minute) = Inr [\<lparr>cp_lo = 60, cp_hi = max_int64, cp_step = 1\<rparr>]"
    by code_simp
  then obtain spec where p: "parse_cron no_minute = Inr spec" and
    f: "cs_minute spec = [\<lparr>cp_lo = 60, cp_hi = max_int64, cp_step = 1\<rparr>]"
    by (cases "parse_cron no_minute") auto
  then show "validate_cron no_minute = None" by (simp add: validate_cron_def)
  have "\<not> spec_match spec (wall loc x)" for x
    using wc_minute_less [of loc x] by (simp add: spec_match_def Let_def f field_match_def part_match_def)
  then have "scan_minutes spec loc limit s = None" for limit s
    using scan_minutes_Some by (metis option.exhaust)
  then show "next_occurrence_in no_minute t loc = t + hour" by (simp add: next_occurrence_in_def p Let_def)
qed

end
