(* ===== verification/Cron_Store.thy ===== *)
theory Cron_Store
  imports Go_Time
begin

text \<open>
  The table \<^verbatim>\<open>cron_jobs\<close> and its operations (\<^verbatim>\<open>internal/store/database.go\<close>,
  \<^verbatim>\<open>store.go\<close>, \<^verbatim>\<open>cron_schema.go\<close>). The table is the list of its rows in the order of
  insertion; an SQL NULL is \<^verbatim>\<open>None\<close>, and a comparison with it is false.
\<close>

record cron_row =
  cj_id :: string
  cj_agent :: string
  cj_name :: string
  cj_type :: string
  cj_schedule :: string
  cj_message :: string
  cj_channel :: string
  cj_chat :: string
  cj_account :: string
  cj_timezone :: string
  cj_enabled :: bool
  cj_last_run :: "int option"
  cj_next_run :: "int option"
  cj_failures :: int
  cj_background :: bool
  cj_deliver :: bool
  cj_created :: int
  cj_locked_by :: "string option"
  cj_locked_at :: "int option"

type_synonym cron_table = "cron_row list"

definition row_ids :: "cron_table \<Rightarrow> string list" where
  "row_ids rows = map cj_id rows"

definition update_row :: "string \<Rightarrow> (cron_row \<Rightarrow> cron_row) \<Rightarrow> cron_table \<Rightarrow> cron_table" where
  "update_row i f rows = map (\<lambda>r. if cj_id r = i then f r else r) rows"

text \<open>An upsert keeps the failure counter and the lock of an existing row; a new row starts without.\<close>

definition save_cron_job :: "cron_row \<Rightarrow> cron_table \<Rightarrow> cron_table" where
  "save_cron_job j rows =
     (if cj_id j \<in> set (row_ids rows)
      then update_row (cj_id j)
             (\<lambda>r. j\<lparr>cj_failures := cj_failures r, cj_locked_by := cj_locked_by r, cj_locked_at := cj_locked_at r\<rparr>) rows
      else rows @ [j\<lparr>cj_failures := 0, cj_locked_by := None, cj_locked_at := None\<rparr>])"

definition get_cron_job :: "string \<Rightarrow> cron_table \<Rightarrow> cron_row option" where
  "get_cron_job i rows = find (\<lambda>r. cj_id r = i) rows"

definition list_cron_jobs :: "string \<Rightarrow> cron_table \<Rightarrow> cron_table" where
  "list_cron_jobs agent rows = sort_key cj_created (List.filter (\<lambda>r. cj_agent r = agent) rows)"

definition delete_cron_job :: "string \<Rightarrow> cron_table \<Rightarrow> cron_table" where
  "delete_cron_job i rows = List.filter (\<lambda>r. cj_id r \<noteq> i) rows"

definition is_due :: "int \<Rightarrow> cron_row \<Rightarrow> bool" where
  "is_due now r = (cj_enabled r \<and> (case cj_next_run r of None \<Rightarrow> False | Some t \<Rightarrow> t \<le> now))"

definition get_due_cron_jobs :: "int \<Rightarrow> cron_table \<Rightarrow> cron_table" where
  "get_due_cron_jobs now rows = sort_key (\<lambda>r. the (cj_next_run r)) (List.filter (is_due now) rows)"

text \<open>A lock older than five minutes is taken over.\<close>

definition lock_free :: "int \<Rightarrow> cron_row \<Rightarrow> bool" where
  "lock_free now r =
     (cj_locked_by r = None \<or> (case cj_locked_at r of None \<Rightarrow> False | Some t \<Rightarrow> t < now - 5 * minute))"

definition lock_cron_job :: "string \<Rightarrow> string \<Rightarrow> int \<Rightarrow> cron_table \<Rightarrow> cron_table \<times> bool" where
  "lock_cron_job i inst now rows =
     (map (\<lambda>r. if cj_id r = i \<and> lock_free now r then r\<lparr>cj_locked_by := Some inst, cj_locked_at := Some now\<rparr> else r) rows,
      list_ex (\<lambda>r. cj_id r = i \<and> lock_free now r) rows)"

definition unlock :: "cron_row \<Rightarrow> cron_row" where
  "unlock r = r\<lparr>cj_locked_by := None, cj_locked_at := None\<rparr>"

definition ran_at :: "int \<Rightarrow> int \<Rightarrow> cron_row \<Rightarrow> cron_row" where
  "ran_at now next_run r = unlock (r\<lparr>cj_last_run := Some now, cj_next_run := Some next_run, cj_failures := 0\<rparr>)"

definition update_cron_job_run :: "string \<Rightarrow> int \<Rightarrow> int \<Rightarrow> cron_table \<Rightarrow> cron_table" where
  "update_cron_job_run i now next_run rows = update_row i (ran_at now next_run) rows"

definition failed_once :: "cron_row \<Rightarrow> cron_row" where
  "failed_once r = unlock (r\<lparr>cj_failures := cj_failures r + 1\<rparr>)"

definition increment_cron_job_failure :: "string \<Rightarrow> cron_table \<Rightarrow> cron_table \<times> int option" where
  "increment_cron_job_failure i rows =
     (let rows' = update_row i failed_once rows in (rows', map_option cj_failures (get_cron_job i rows')))"

definition get_next_due_time :: "cron_table \<Rightarrow> int option" where
  "get_next_due_time rows =
     (case List.map_filter (\<lambda>r. if cj_enabled r then cj_next_run r else None) rows of
        [] \<Rightarrow> None | t # ts \<Rightarrow> Some (fold min ts t))"

section \<open>Lemmas\<close>

named_theorems cron_table_simps

lemma update_row_ids [cron_table_simps]:
  "(\<And>r. cj_id (f r) = cj_id r) \<Longrightarrow> row_ids (update_row i f rows) = row_ids rows"
  by (simp add: row_ids_def update_row_def cong: map_cong)

lemma row_updates_keep_id [simp]:
  "cj_id (unlock r) = cj_id r" "cj_id (ran_at now n r) = cj_id r" "cj_id (failed_once r) = cj_id r"
  by (simp_all add: unlock_def ran_at_def failed_once_def)

lemma lock_keeps_ids [cron_table_simps]: "row_ids (fst (lock_cron_job i inst now rows)) = row_ids rows"
  by (simp add: row_ids_def lock_cron_job_def)

lemma get_cron_job_distinct:
  "distinct (row_ids rows) \<Longrightarrow> r \<in> set rows \<Longrightarrow> get_cron_job (cj_id r) rows = Some r"
  by (induction rows) (auto simp: row_ids_def get_cron_job_def)

lemma save_then_get:
  "distinct (row_ids rows) \<Longrightarrow>
     \<exists>r. get_cron_job (cj_id j) (save_cron_job j rows) = Some r
       \<and> r = j\<lparr>cj_failures := cj_failures r, cj_locked_by := cj_locked_by r, cj_locked_at := cj_locked_at r\<rparr>"
proof (induction rows)
  case Nil
  then show ?case by (simp add: save_cron_job_def row_ids_def get_cron_job_def)
next
  case (Cons r rows)
  then show ?case by (auto simp: save_cron_job_def row_ids_def get_cron_job_def update_row_def)
qed

lemma distinct_save: "distinct (row_ids rows) \<Longrightarrow> distinct (row_ids (save_cron_job j rows))"
proof -
  assume d: "distinct (row_ids rows)"
  have "map cj_id (update_row i f rows) = map cj_id rows" if "\<And>r. cj_id r = i \<Longrightarrow> cj_id (f r) = i" for i f
    using that by (simp add: update_row_def)
  with d show ?thesis by (simp add: save_cron_job_def row_ids_def)
qed

lemma fold_min_le: "fold min ts (t::int) \<le> t" "x \<in> set ts \<Longrightarrow> fold min ts (t::int) \<le> x"
proof -
  show le: "fold min ts (t::int) \<le> t" for ts t
  proof (induction ts arbitrary: t)
    case (Cons a ts)
    from Cons.IH [of "min a t"] show ?case by simp
  qed simp
  show "x \<in> set ts \<Longrightarrow> fold min ts (t::int) \<le> x"
  proof (induction ts arbitrary: t)
    case (Cons a ts)
    then show ?case using le [of ts "min a t"] by auto
  qed simp
qed

lemma next_due_le:
  assumes "r \<in> set rows" and "is_due now r"
  shows "\<exists>t. get_next_due_time rows = Some t \<and> t \<le> now"
proof -
  obtain n where n: "cj_enabled r" "cj_next_run r = Some n" "n \<le> now"
    using assms(2) by (auto simp: is_due_def split: option.splits)
  let ?ts = "List.map_filter (\<lambda>r. if cj_enabled r then cj_next_run r else None) rows"
  have "n \<in> set ?ts" using assms(1) n by (force simp: map_filter_def)
  then show ?thesis using n(3) fold_min_le
    by (cases ?ts) (auto simp: get_next_due_time_def intro: order_trans [OF fold_min_le(1)] order_trans [OF fold_min_le(2)])
qed

end
