(* ===== verification/Cron_Scheduler.thy ===== *)
theory Cron_Scheduler
  imports Cron_Expr Cron_Store
begin

text \<open>
  The scheduler over the table of jobs: the adapter that resolves the owner of a due job
  (\<^verbatim>\<open>internal/gateway/cron_adapter.go\<close>), one pass over the due jobs and the polling loop
  (\<^verbatim>\<open>processDueJobs\<close> and \<^verbatim>\<open>pollStore\<close> of \<^verbatim>\<open>internal/cron/scheduler.go\<close>).
  The readings of the clock and the failures of the data base are inputs of a pass.
\<close>

section \<open>Due jobs and their owners\<close>

record store_job =
  sj_id :: string
  sj_agent :: string
  sj_owner :: string
  sj_name :: string
  sj_type :: string
  sj_schedule :: string
  sj_message :: string
  sj_channel :: string
  sj_chat :: string
  sj_account :: string
  sj_timezone :: string
  sj_background :: bool
  sj_deliver :: bool

text \<open>
  What a pass reads besides the table: the scheduler's instance, its channel checker if one is set,
  the time zone data base and the server's zone, the owners of channels and agents, the users as
  identifier, role and status.
\<close>

record cron_env =
  ce_instance :: string
  ce_has :: "(string \<Rightarrow> string \<Rightarrow> bool) option"
  ce_zone :: "string \<Rightarrow> location option"
  ce_local :: location
  ce_channel_user :: "string \<Rightarrow> string \<Rightarrow> string option"
  ce_agent_user :: "string \<Rightarrow> string option"
  ce_users :: "(string \<times> string \<times> string) list"

definition resolve_owner :: "cron_env \<Rightarrow> cron_row \<Rightarrow> string" where
  "resolve_owner env r =
     (let by_channel = (if cj_channel r \<noteq> [] \<and> cj_account r \<noteq> []
                        then case ce_channel_user env (cj_channel r) (cj_account r) of Some u \<Rightarrow> u | None \<Rightarrow> []
                        else []);
          by_agent = (if by_channel = []
                      then case ce_agent_user env (cj_agent r) of Some u \<Rightarrow> u | None \<Rightarrow> []
                      else by_channel)
      in if by_agent \<noteq> [] then by_agent
         else case find (\<lambda>(_, role, status). role = ''super_admin'' \<and> status = ''active'') (ce_users env) of
                Some (u, _) \<Rightarrow> u | None \<Rightarrow> [])"

definition store_job_of :: "string \<Rightarrow> cron_row \<Rightarrow> store_job" where
  "store_job_of owner r =
     \<lparr>sj_id = cj_id r, sj_agent = cj_agent r, sj_owner = owner, sj_name = cj_name r, sj_type = cj_type r,
      sj_schedule = cj_schedule r, sj_message = cj_message r, sj_channel = cj_channel r, sj_chat = cj_chat r,
      sj_account = cj_account r, sj_timezone = cj_timezone r, sj_background = cj_background r,
      sj_deliver = cj_deliver r\<rparr>"

fun adapt_jobs :: "cron_env \<Rightarrow> (string \<times> string) list \<Rightarrow> cron_table \<Rightarrow> store_job list" where
  "adapt_jobs env owners [] = []"
| "adapt_jobs env owners (r # rs) =
     (case map_of owners (cj_agent r) of
        Some u \<Rightarrow> store_job_of u r # adapt_jobs env owners rs
      | None \<Rightarrow>
          (let u = resolve_owner env r in store_job_of u r # adapt_jobs env ((cj_agent r, u) # owners) rs))"

definition due_jobs :: "cron_env \<Rightarrow> int \<Rightarrow> cron_table \<Rightarrow> store_job list" where
  "due_jobs env now rows = adapt_jobs env [] (get_due_cron_jobs now rows)"

section \<open>Firing\<close>

record inbound =
  in_channel :: string
  in_account :: string
  in_chat :: string
  in_user :: string
  in_owner :: string
  in_agent :: string
  in_text :: string
  in_peer :: string
  in_source :: string
  in_reply :: "(string \<times> string \<times> string) option"   \<comment> \<open>channel, account, chat\<close>

definition location_of :: "cron_env \<Rightarrow> string \<Rightarrow> location" where
  "location_of env tz =
     (if tz = [] then ce_local env
      else if tz = ''UTC'' then utc
      else if tz = ''Local'' then ce_local env
      else case ce_zone env tz of Some l \<Rightarrow> l | None \<Rightarrow> ce_local env)"

definition reply_delivered :: "store_job \<Rightarrow> bool" where
  "reply_delivered j = (\<not> sj_background j \<or> sj_deliver j)"

definition dead_destination :: "cron_env \<Rightarrow> store_job \<Rightarrow> bool" where
  "dead_destination env j =
     (reply_delivered j \<and> sj_channel j \<notin> {[], ''web'', ''api''}
      \<and> (case ce_has env of None \<Rightarrow> False | Some has \<Rightarrow> \<not> has (sj_channel j) (sj_account j)))"

definition fire_message :: "store_job \<Rightarrow> inbound" where
  "fire_message j =
     (let text = (if sj_message j = [] then ''[Cron Job: '' @ sj_name j @ ''] This is a scheduled task trigger.''
                  else sj_message j);
          base = \<lparr>in_channel = sj_channel j, in_account = sj_account j, in_chat = sj_chat j, in_user = ''cron'',
                  in_owner = sj_owner j, in_agent = sj_agent j, in_text = text, in_peer = ''dm'',
                  in_source = ''cron'', in_reply = None\<rparr>
      in if sj_background j
         then base\<lparr>in_channel := ''heartbeat'', in_account := [], in_chat := ''cron_'' @ sj_id j,
                   in_reply := (if sj_deliver j \<and> sj_channel j \<noteq> [] \<and> sj_channel j \<noteq> ''heartbeat''
                                then Some (sj_channel j, sj_account j, sj_chat j) else None)\<rparr>
         else base)"

definition max_consecutive_failures :: int where "max_consecutive_failures = 3"

definition far_future :: "int \<Rightarrow> int" where "far_future now = now + 100 * 365 * 24 * hour"

text \<open>When a job that has fired runs next; a job of type \<^verbatim>\<open>once\<close> does not.\<close>

definition next_run_of :: "cron_env \<Rightarrow> int \<Rightarrow> store_job \<Rightarrow> int option" where
  "next_run_of env now j =
     (if sj_type j = ''once'' then None
      else if sj_type j = ''interval'' then
        (case parse_duration (trim_prefix (sj_schedule j) ''every '') of
           None \<Rightarrow> Some (far_future now) | Some d \<Rightarrow> Some (now + d))
      else if sj_type j = ''cron'' then Some (next_occurrence_in (sj_schedule j) now (location_of env (sj_timezone j)))
      else Some (now + hour))"

section \<open>A pass\<close>

datatype cron_op = OpDue | OpLock | OpIncrement | OpDelete | OpUpdate | OpNextDue

text \<open>
  A pass: the clock at its start, at the lock of each job and after it, and which statements the
  data base rejects (by operation and job).
\<close>

record cron_pass =
  ps_now :: int
  ps_lock_time :: "string \<Rightarrow> int"
  ps_end :: int
  ps_fails :: "cron_op \<Rightarrow> string \<Rightarrow> bool"

record cron_world =
  cw_rows :: cron_table
  cw_inbound :: "inbound list"

definition reschedule :: "cron_env \<Rightarrow> cron_pass \<Rightarrow> store_job \<Rightarrow> cron_world \<Rightarrow> cron_world" where
  "reschedule env p j w =
     (let i = sj_id j;
          run_at = (\<lambda>t. if ps_fails p OpUpdate i then w
                         else w\<lparr>cw_rows := update_cron_job_run i (ps_now p) t (cw_rows w)\<rparr>)
      in case next_run_of env (ps_now p) j of
           Some t \<Rightarrow> run_at t
         | None \<Rightarrow> (if ps_fails p OpDelete i then run_at (far_future (ps_now p))
                   else w\<lparr>cw_rows := delete_cron_job i (cw_rows w)\<rparr>))"

definition miss :: "cron_pass \<Rightarrow> store_job \<Rightarrow> cron_world \<Rightarrow> cron_world" where
  "miss p j w =
     (let i = sj_id j in
      if ps_fails p OpIncrement i then w
      else case increment_cron_job_failure i (cw_rows w) of
             (rows, None) \<Rightarrow> w\<lparr>cw_rows := rows\<rparr>
           | (rows, Some count) \<Rightarrow>
               (if count \<ge> max_consecutive_failures \<and> \<not> ps_fails p OpDelete i
                then w\<lparr>cw_rows := delete_cron_job i rows\<rparr>
                else w\<lparr>cw_rows := rows\<rparr>))"

definition process_job :: "cron_env \<Rightarrow> cron_pass \<Rightarrow> store_job \<Rightarrow> cron_world \<Rightarrow> cron_world" where
  "process_job env p j w =
     (if ps_fails p OpLock (sj_id j) then w
      else case lock_cron_job (sj_id j) (ce_instance env) (ps_lock_time p (sj_id j)) (cw_rows w) of
             (rows, False) \<Rightarrow> w
           | (rows, True) \<Rightarrow>
               (let w1 = w\<lparr>cw_rows := rows\<rparr> in
                if dead_destination env j then miss p j w1
                else reschedule env p j (w1\<lparr>cw_inbound := cw_inbound w1 @ [fire_message j]\<rparr>)))"

definition process_due_jobs :: "cron_env \<Rightarrow> cron_pass \<Rightarrow> cron_world \<Rightarrow> cron_world" where
  "process_due_jobs env p w =
     (if ps_fails p OpDue [] then w
      else fold (process_job env p) (due_jobs env (ps_now p) (cw_rows w)) w)"

section \<open>The polling loop\<close>

datatype poll_next = PollAgain | PollSleep int

definition poll_step :: "cron_env \<Rightarrow> cron_pass \<Rightarrow> cron_world \<Rightarrow> cron_world \<times> poll_next" where
  "poll_step env p w =
     (let w' = process_due_jobs env p w in
      (w', if ps_fails p OpNextDue [] then PollSleep (5 * minute)
           else case get_next_due_time (cw_rows w') of
                  None \<Rightarrow> PollSleep (5 * minute)
                | Some t \<Rightarrow> if t - ps_end p \<le> 0 then PollAgain else PollSleep (t - ps_end p)))"

text \<open>The loop over given passes: the state after each of them and what it waits for.\<close>

fun poll_run :: "cron_env \<Rightarrow> cron_pass list \<Rightarrow> cron_world \<Rightarrow> cron_world \<times> poll_next list" where
  "poll_run env [] w = (w, [])"
| "poll_run env (p # ps) w =
     (case poll_step env p w of
        (w1, s) \<Rightarrow> (case poll_run env ps w1 of (w2, ss) \<Rightarrow> (w2, s # ss)))"

end
