(* ===== verification/Cron_Pass.thy ===== *)
theory Cron_Pass
  imports Cron_Scheduler
begin

text \<open>
  A pass of the scheduler against its specification: every row of the table is treated on its own,
  by the outcome \<^verbatim>\<open>tick_row\<close>, whatever the order of the due jobs. From it the poll loop's
  behaviour on a job whose destination is gone and on an interval that is not positive.
\<close>

section \<open>The outcome of a pass for one row\<close>

definition no_faults :: "cron_pass \<Rightarrow> bool" where
  "no_faults p = (\<forall>op i. \<not> ps_fails p op i)"

definition row_dead :: "cron_env \<Rightarrow> cron_row \<Rightarrow> bool" where
  "row_dead env r = dead_destination env (store_job_of [] r)"

definition row_next :: "cron_env \<Rightarrow> int \<Rightarrow> cron_row \<Rightarrow> int option" where
  "row_next env now r = next_run_of env now (store_job_of [] r)"

definition attempt_row :: "cron_env \<Rightarrow> cron_pass \<Rightarrow> cron_row \<Rightarrow> cron_row list" where
  "attempt_row env p r =
     (if \<not> lock_free (ps_lock_time p (cj_id r)) r then [r]
      else if row_dead env r
        then (if cj_failures r + 1 \<ge> max_consecutive_failures then [] else [failed_once r])
      else case row_next env (ps_now p) r of None \<Rightarrow> [] | Some t \<Rightarrow> [ran_at (ps_now p) t r])"

definition tick_row :: "cron_env \<Rightarrow> cron_pass \<Rightarrow> cron_row \<Rightarrow> cron_row list" where
  "tick_row env p r = (if is_due (ps_now p) r then attempt_row env p r else [r])"

definition fires_row :: "cron_env \<Rightarrow> cron_pass \<Rightarrow> cron_row \<Rightarrow> bool" where
  "fires_row env p r =
     (lock_free (ps_lock_time p (cj_id r)) r \<and> \<not> row_dead env r)"

section \<open>One job\<close>

lemma owner_does_not_matter:
  "dead_destination env (store_job_of u r) = row_dead env r"
  "next_run_of env now (store_job_of u r) = row_next env now r"
  "sj_id (store_job_of u r) = cj_id r"
  by (simp_all add: row_dead_def row_next_def store_job_of_def dead_destination_def reply_delivered_def next_run_of_def split: option.splits)

lemma row_split:
  assumes "distinct (row_ids rows)" and "r \<in> set rows"
  shows "\<exists>xs ys. rows = xs @ r # ys \<and> cj_id r \<notin> cj_id ` set xs \<and> cj_id r \<notin> cj_id ` set ys"
proof -
  from assms(2) obtain xs ys where "rows = xs @ r # ys" by (auto simp: in_set_conv_decomp)
  with assms(1) show ?thesis by (intro exI [of _ xs] exI [of _ ys]) (auto simp: row_ids_def)
qed

lemma other_rows:
  assumes "i \<notin> cj_id ` set zs"
  shows "map (\<lambda>x. if cj_id x = i then f x else x) zs = zs"
    and "map (\<lambda>x. if cj_id x = i \<and> P x then f x else x) zs = zs"
    and "List.filter (\<lambda>x. cj_id x \<noteq> i) zs = zs"
    and "concat (map (\<lambda>x. if cj_id x = i then g x else [x]) zs) = zs"
    and "\<not> list_ex (\<lambda>x. cj_id x = i \<and> P x) zs"
    and "find (\<lambda>x. cj_id x = i) (zs @ ws) = find (\<lambda>x. cj_id x = i) ws"
  using assms by (induction zs) auto

lemma at_split:
  assumes "cj_id r \<notin> cj_id ` set xs" and "cj_id r \<notin> cj_id ` set ys"
  shows "update_row (cj_id r) f (xs @ r # ys) = xs @ f r # ys"
    and "cj_id r' = cj_id r \<Longrightarrow> update_row (cj_id r) f (xs @ r' # ys) = xs @ f r' # ys"
    and "cj_id r' = cj_id r \<Longrightarrow> delete_cron_job (cj_id r) (xs @ r' # ys) = xs @ ys"
    and "cj_id r' = cj_id r \<Longrightarrow> get_cron_job (cj_id r) (xs @ r' # ys) = Some r'"
    and "lock_cron_job (cj_id r) inst now (xs @ r # ys) =
           (xs @ (if lock_free now r then r\<lparr>cj_locked_by := Some inst, cj_locked_at := Some now\<rparr> else r) # ys,
            lock_free now r)"
  by (simp_all add: update_row_def delete_cron_job_def get_cron_job_def lock_cron_job_def
      other_rows [OF assms(1)] other_rows [OF assms(2)])

lemma locked_row_forgets:
  "unlock (r\<lparr>cj_locked_by := a, cj_locked_at := b\<rparr>) = unlock r"
  "failed_once (r\<lparr>cj_locked_by := a, cj_locked_at := b\<rparr>) = failed_once r"
  "ran_at now t (r\<lparr>cj_locked_by := a, cj_locked_at := b\<rparr>) = ran_at now t r"
  by (simp_all add: unlock_def failed_once_def ran_at_def)

lemma failed_once_failures [simp]: "cj_failures (failed_once r) = cj_failures r + 1"
  by (simp add: failed_once_def unlock_def)

lemma process_job_outcome:
  assumes d: "distinct (row_ids (cw_rows w))" and r: "r \<in> set (cw_rows w)" and ok: "no_faults p"
  shows "cw_rows (process_job env p (store_job_of u r) w) =
           concat (map (\<lambda>x. if cj_id x = cj_id r then attempt_row env p x else [x]) (cw_rows w))
         \<and> cw_inbound (process_job env p (store_job_of u r) w) =
             cw_inbound w @ (if fires_row env p r then [fire_message (store_job_of u r)] else [])"
proof -
  obtain xs ys where s: "cw_rows w = xs @ r # ys"
    and other: "cj_id r \<notin> cj_id ` set xs" "cj_id r \<notin> cj_id ` set ys"
    using row_split [OF d r] by blast
  note split = at_split [OF other] other_rows [OF other(1)] other_rows [OF other(2)]
  let ?t = "ps_lock_time p (cj_id r)"
  let ?r1 = "r\<lparr>cj_locked_by := Some (ce_instance env), cj_locked_at := Some ?t\<rparr>"
  have f: "\<And>op i. \<not> ps_fails p op i" using ok by (simp add: no_faults_def)
  show ?thesis
  proof (cases "lock_free ?t r")
    case False
    then show ?thesis
      by (simp add: process_job_def f owner_does_not_matter s split attempt_row_def fires_row_def)
  next
    case free: True
    show ?thesis
    proof (cases "row_dead env r")
      case True
      with free show ?thesis
        by (auto simp: process_job_def miss_def increment_cron_job_failure_def f owner_does_not_matter s split
            attempt_row_def fires_row_def locked_row_forgets)
    next
      case False
      with free show ?thesis
        by (auto simp: process_job_def reschedule_def update_cron_job_run_def f owner_does_not_matter s split
            attempt_row_def fires_row_def locked_row_forgets split: option.splits)
    qed
  qed
qed

section \<open>All due jobs\<close>

lemma attempt_row_cases: "attempt_row env p r = [] \<or> (\<exists>r'. attempt_row env p r = [r'] \<and> cj_id r' = cj_id r)"
  by (auto simp: attempt_row_def split: option.splits)

lemma ids_of_concat:
  assumes "\<And>r. r \<in> set rows \<Longrightarrow> f r = [] \<or> (\<exists>r'. f r = [r'] \<and> cj_id r' = cj_id r)"
  shows "set (row_ids (concat (map f rows))) \<subseteq> set (row_ids rows)
       \<and> (distinct (row_ids rows) \<longrightarrow> distinct (row_ids (concat (map f rows))))"
  using assms
proof (induction rows)
  case (Cons r rows)
  from Cons.prems have rest: "\<And>r. r \<in> set rows \<Longrightarrow> f r = [] \<or> (\<exists>r'. f r = [r'] \<and> cj_id r' = cj_id r)" by simp
  from Cons.prems [of r] consider "f r = []" | r' where "f r = [r']" "cj_id r' = cj_id r" by auto
  then show ?case using Cons.IH [OF rest] by cases (auto simp: row_ids_def)
qed (simp add: row_ids_def)

lemma attempts_outcome:
  assumes "distinct (row_ids (cw_rows w))" and "set rs \<subseteq> set (cw_rows w)" and "distinct (row_ids rs)"
    and "no_faults p" and "list_all2 (\<lambda>j r. \<exists>u. j = store_job_of u r) js rs"
  shows "cw_rows (fold (process_job env p) js w) =
           concat (map (\<lambda>x. if cj_id x \<in> set (row_ids rs) then attempt_row env p x else [x]) (cw_rows w))
         \<and> cw_inbound (fold (process_job env p) js w) =
             cw_inbound w @ concat (map2 (\<lambda>j r. if fires_row env p r then [fire_message j] else []) js rs)"
  using assms
proof (induction rs arbitrary: js w)
  case Nil
  then have "js = []" by simp
  then show ?case by (simp add: row_ids_def)
next
  case (Cons r rs)
  from Cons.prems(5) obtain u js' where js: "js = store_job_of u r # js'"
    and rest: "list_all2 (\<lambda>j r. \<exists>u. j = store_job_of u r) js' rs" by (auto simp: list_all2_Cons2)
  let ?g = "\<lambda>x. if cj_id x = cj_id r then attempt_row env p x else [x]"
  let ?w1 = "process_job env p (store_job_of u r) w"
  from Cons.prems(2) have r: "r \<in> set (cw_rows w)" by simp
  have one: "cw_rows ?w1 = concat (map ?g (cw_rows w))"
    "cw_inbound ?w1 = cw_inbound w @ (if fires_row env p r then [fire_message (store_job_of u r)] else [])"
    using process_job_outcome [OF Cons.prems(1) r Cons.prems(4), of env u] by simp_all
  have d1: "distinct (row_ids (cw_rows ?w1))"
  proof -
    have "?g x = [] \<or> (\<exists>x'. ?g x = [x'] \<and> cj_id x' = cj_id x)" for x
      using attempt_row_cases [of env p x] by (cases "cj_id x = cj_id r") auto
    with ids_of_concat [of "cw_rows w" ?g] Cons.prems(1) show ?thesis unfolding one(1) by blast
  qed
  have fresh: "cj_id r \<notin> set (row_ids rs)" using Cons.prems(3) by (simp add: row_ids_def)
  have sub: "set rs \<subseteq> set (cw_rows ?w1)"
  proof
    fix x assume x: "x \<in> set rs"
    with fresh have "cj_id x \<noteq> cj_id r" by (metis imageI list.set_map row_ids_def)
    moreover from x Cons.prems(2) have "x \<in> set (cw_rows w)" by auto
    ultimately show "x \<in> set (cw_rows ?w1)" by (auto simp: one(1) intro!: bexI [of _ x])
  qed
  have drs: "distinct (row_ids rs)" using Cons.prems(3) by (simp add: row_ids_def)
  note ih = Cons.IH [OF d1 sub drs Cons.prems(4) rest]
  let ?h = "\<lambda>x. if cj_id x \<in> set (row_ids rs) then attempt_row env p x else [x]"
  have "concat (map ?h (concat (map ?g rows))) =
          concat (map (\<lambda>x. if cj_id x \<in> set (row_ids (r # rs)) then attempt_row env p x else [x]) rows)" for rows
  proof (induction rows)
    case (Cons x rows)
    have "concat (map ?h (?g x)) = (if cj_id x \<in> set (row_ids (r # rs)) then attempt_row env p x else [x])"
      using attempt_row_cases [of env p x] fresh by (auto simp: row_ids_def)
    with Cons.IH show ?case by simp
  qed simp
  with ih one show ?case by (simp add: js)
qed

lemma adapt_jobs_rows: "list_all2 (\<lambda>j r. \<exists>u. j = store_job_of u r) (adapt_jobs env owners rs) rs"
  by (induction env owners rs rule: adapt_jobs.induct) (auto simp: Let_def split: option.splits)

lemma due_row_facts:
  "set (get_due_cron_jobs now rows) = {r \<in> set rows. is_due now r}"
  "distinct (row_ids rows) \<Longrightarrow> distinct (row_ids (get_due_cron_jobs now rows))"
proof -
  show "set (get_due_cron_jobs now rows) = {r \<in> set rows. is_due now r}" by (auto simp: get_due_cron_jobs_def)
  assume "distinct (row_ids rows)"
  then show "distinct (row_ids (get_due_cron_jobs now rows))"
    by (simp add: row_ids_def get_due_cron_jobs_def distinct_map inj_on_def)
qed

lemma pass_outcome:
  assumes d: "distinct (row_ids (cw_rows w))" and ok: "no_faults p"
  shows "cw_rows (process_due_jobs env p w) = concat (map (tick_row env p) (cw_rows w))"
    and "cw_inbound (process_due_jobs env p w) =
           cw_inbound w @
           concat (map2 (\<lambda>j r. if fires_row env p r then [fire_message j] else [])
             (due_jobs env (ps_now p) (cw_rows w)) (get_due_cron_jobs (ps_now p) (cw_rows w)))"
proof -
  let ?due = "get_due_cron_jobs (ps_now p) (cw_rows w)"
  have "set ?due \<subseteq> set (cw_rows w)" by (auto simp: due_row_facts)
  note all = attempts_outcome [OF d this due_row_facts(2) [OF d] ok adapt_jobs_rows, of env env "[]"]
  have here: "process_due_jobs env p w = fold (process_job env p) (adapt_jobs env [] ?due) w"
    using ok by (simp add: process_due_jobs_def due_jobs_def no_faults_def)
  have "(cj_id x \<in> set (row_ids ?due)) = is_due (ps_now p) x" if "x \<in> set (cw_rows w)" for x
    using d that by (auto simp: row_ids_def due_row_facts distinct_map inj_on_def)
  then have "map (\<lambda>x. if cj_id x \<in> set (row_ids ?due) then attempt_row env p x else [x]) (cw_rows w) =
             map (tick_row env p) (cw_rows w)"
    by (auto simp: tick_row_def)
  with all show "cw_rows (process_due_jobs env p w) = concat (map (tick_row env p) (cw_rows w))"
    by (simp add: here)
  from all show "cw_inbound (process_due_jobs env p w) =
           cw_inbound w @
           concat (map2 (\<lambda>j r. if fires_row env p r then [fire_message j] else [])
             (due_jobs env (ps_now p) (cw_rows w)) (get_due_cron_jobs (ps_now p) (cw_rows w)))"
    by (simp add: here due_jobs_def)
qed

text \<open>
  A pass without data base failures changes the table row by row: a row that is not due, or
  locked by another pass, stays as it is; a due job whose destination adapter is missing gets one
  more failure, and is deleted at the third; every other due job is rescheduled with its counter and
  lock cleared, or deleted when it is of type ``once''.
\<close>
lemma pass_treats_rows_independently:
  assumes "distinct (row_ids (cw_rows w))" and "no_faults p"
  shows "cw_rows (process_due_jobs env p w) = concat (map (tick_row env p) (cw_rows w))"
  using assms by (rule pass_outcome(1))

section \<open>The polling loop\<close>

lemma poll_again:
  assumes "no_faults p" and "r \<in> set (cw_rows (process_due_jobs env p w))" and "is_due (ps_end p) r"
  shows "poll_step env p w = (process_due_jobs env p w, PollAgain)"
  using assms(1) next_due_le [OF assms(2,3)] by (auto simp: poll_step_def no_faults_def Let_def)

lemma failed_once_facts:
  "lock_free t (failed_once r)" "is_due t (failed_once r) = is_due t r" "row_dead env (failed_once r) = row_dead env r"
  by (simp_all add: failed_once_def unlock_def lock_free_def is_due_def row_dead_def store_job_of_def)

lemma due_later: "is_due s r \<Longrightarrow> s \<le> t \<Longrightarrow> is_due t r"
  by (auto simp: is_due_def split: option.splits)

lemma dead_row_pass:
  assumes d: "distinct (row_ids (cw_rows w))" and ok: "no_faults p" and r: "r \<in> set (cw_rows w)"
    and due: "is_due (ps_now p) r" and free: "lock_free (ps_lock_time p (cj_id r)) r" and dead: "row_dead env r"
    and le: "ps_now p \<le> ps_end p"
  shows "distinct (row_ids (cw_rows (process_due_jobs env p w)))"
    and "cj_failures r < 2 \<Longrightarrow> failed_once r \<in> set (cw_rows (process_due_jobs env p w))
           \<and> poll_step env p w = (process_due_jobs env p w, PollAgain)"
    and "cj_failures r \<ge> 2 \<Longrightarrow> cj_id r \<notin> set (row_ids (cw_rows (process_due_jobs env p w)))"
proof -
  have tick: "tick_row env p x = [] \<or> (\<exists>x'. tick_row env p x = [x'] \<and> cj_id x' = cj_id x)" for x
    using attempt_row_cases [of env p x] by (simp add: tick_row_def)
  note out = pass_outcome(1) [OF d ok, of env]
  show dist: "distinct (row_ids (cw_rows (process_due_jobs env p w)))"
    using ids_of_concat [of "cw_rows w" "tick_row env p"] tick d unfolding out by blast
  have mine: "tick_row env p r = (if cj_failures r \<ge> 2 then [] else [failed_once r])"
    using due free dead by (auto simp: tick_row_def attempt_row_def max_consecutive_failures_def)
  show "failed_once r \<in> set (cw_rows (process_due_jobs env p w))
           \<and> poll_step env p w = (process_due_jobs env p w, PollAgain)" if "cj_failures r < 2"
  proof -
    from that mine r have m: "failed_once r \<in> set (cw_rows (process_due_jobs env p w))"
      by (auto simp: out intro!: bexI [of _ r])
    moreover have "is_due (ps_end p) (failed_once r)" using due_later [OF due le] by (simp add: failed_once_facts)
    ultimately show ?thesis using poll_again [OF ok m] by simp
  qed
  show "cj_id r \<notin> set (row_ids (cw_rows (process_due_jobs env p w)))" if "cj_failures r \<ge> 2"
  proof
    assume "cj_id r \<in> set (row_ids (cw_rows (process_due_jobs env p w)))"
    then obtain x y where x: "x \<in> set (cw_rows w)" "y \<in> set (tick_row env p x)" "cj_id y = cj_id r"
      by (auto simp: out row_ids_def)
    with tick [of x] have "cj_id x = cj_id r" by auto
    with d x(1) r have "x = r" by (auto simp: row_ids_def distinct_map inj_on_def)
    with x(2) mine that show False by simp
  qed
qed

lemma poll_step_world: "fst (poll_step env p w) = process_due_jobs env p w"
  by (simp add: poll_step_def Let_def)

text \<open>
  A job whose destination adapter is missing is deleted after three passes of the polling loop
  with no sleep between them: a miss leaves the next run in the past, so the loop polls again at
  once. The three misses meant to last some minutes take no longer than three passes.
\<close>
lemma dead_destination_is_deleted_without_waiting:
  assumes "distinct (row_ids (cw_rows w))" and "no_faults p1" and "no_faults p2" and "no_faults p3"
    and "r \<in> set (cw_rows w)" and "is_due (ps_now p1) r" and "lock_free (ps_lock_time p1 (cj_id r)) r"
    and "row_dead env r" and "cj_failures r = 0"
    and "ps_now p1 \<le> ps_end p1" and "ps_end p1 \<le> ps_now p2" and "ps_now p2 \<le> ps_end p2"
    and "ps_end p2 \<le> ps_now p3" and "ps_now p3 \<le> ps_end p3"
  shows "take 2 (snd (poll_run env [p1, p2, p3] w)) = [PollAgain, PollAgain]
    \<and> cj_id r \<notin> set (row_ids (cw_rows (fst (poll_run env [p1, p2, p3] w))))"
proof -
  let ?w1 = "process_due_jobs env p1 w" let ?w2 = "process_due_jobs env p2 ?w1"
  let ?r1 = "failed_once r" let ?r2 = "failed_once ?r1"
  note one = dead_row_pass [OF assms(1,2,5,6,7,8,10)]
  have r1: "?r1 \<in> set (cw_rows ?w1)" "poll_step env p1 w = (?w1, PollAgain)" using one(2) assms(9) by auto
  have due2: "is_due (ps_now p2) ?r1" using assms(6,10,11) due_later by (auto simp: failed_once_facts)
  note two = dead_row_pass [OF one(1) assms(3) r1(1) due2 failed_once_facts(1) _ assms(12)]
  have dead2: "row_dead env ?r1" using assms(8) by (simp add: failed_once_facts)
  have r2: "?r2 \<in> set (cw_rows ?w2)" "poll_step env p2 ?w1 = (?w2, PollAgain)"
    using two(2) [OF dead2] assms(9) by auto
  have due3: "is_due (ps_now p3) ?r2" using due_later [OF due2] assms(12,13) by (simp add: failed_once_facts)
  have dead3: "row_dead env ?r2" using assms(8) by (simp add: failed_once_facts)
  have gone: "cj_id ?r2 \<notin> set (row_ids (cw_rows (process_due_jobs env p3 ?w2)))"
    using dead_row_pass(3) [OF two(1) [OF dead2] assms(4) r2(1) due3 failed_once_facts(1) dead3 assms(14)] assms(9)
    by simp
  show ?thesis using gone poll_step_world [of env p3 ?w2] by (auto simp: r1(2) r2(2) split: prod.splits)
qed

text \<open>
  An interval that is not positive is never ahead of the clock: the job fires in every pass and
  the loop does not sleep.
\<close>

lemma interval_row_pass:
  assumes "distinct (row_ids (cw_rows w))" and "no_faults p" and "r \<in> set (cw_rows w)"
    and "is_due (ps_now p) r" and "lock_free (ps_lock_time p (cj_id r)) r" and "\<not> row_dead env r"
    and "cj_type r = ''interval''" and "parse_duration (trim_prefix (cj_schedule r) ''every '') = Some d"
    and "d \<le> 0" and "ps_now p \<le> ps_end p"
  shows "snd (poll_step env p w) = PollAgain
    \<and> ran_at (ps_now p) (ps_now p + d) r \<in> set (cw_rows (fst (poll_step env p w)))"
proof -
  have "row_next env (ps_now p) r = Some (ps_now p + d)"
    using assms(7,8) by (simp add: row_next_def next_run_of_def store_job_of_def)
  with assms(4-6) have "tick_row env p r = [ran_at (ps_now p) (ps_now p + d) r]"
    by (simp add: tick_row_def attempt_row_def)
  with assms(3) have m: "ran_at (ps_now p) (ps_now p + d) r \<in> set (cw_rows (process_due_jobs env p w))"
    by (auto simp: pass_outcome(1) [OF assms(1,2)] intro!: bexI [of _ r])
  have "is_due (ps_end p) (ran_at (ps_now p) (ps_now p + d) r)"
    using assms(4,9,10) by (auto simp: is_due_def ran_at_def unlock_def split: option.splits)
  from poll_again [OF assms(2) m this] m show ?thesis by simp
qed

section \<open>An example\<close>

definition ex_cron_row :: cron_row where
  "ex_cron_row =
     \<lparr>cj_id = ''j1'', cj_agent = ''a1'', cj_name = ''water'', cj_type = ''interval'', cj_schedule = ''every 30m'',
      cj_message = ''drink'', cj_channel = ''telegram'', cj_chat = ''42'', cj_account = ''bot'', cj_timezone = [],
      cj_enabled = True, cj_last_run = None, cj_next_run = Some 0, cj_failures = 0, cj_background = False,
      cj_deliver = True, cj_created = 0, cj_locked_by = None, cj_locked_at = None\<rparr>"

definition ex_cron_env :: "bool \<Rightarrow> cron_env" where
  "ex_cron_env alive =
     \<lparr>ce_instance = ''default'', ce_has = Some (\<lambda>_ _. alive), ce_zone = (\<lambda>_. None), ce_local = utc,
      ce_channel_user = (\<lambda>_ _. Some ''u1''), ce_agent_user = (\<lambda>_. None), ce_users = []\<rparr>"

definition ex_cron_pass :: "int \<Rightarrow> cron_pass" where
  "ex_cron_pass t = \<lparr>ps_now = t, ps_lock_time = (\<lambda>_. t), ps_end = t, ps_fails = (\<lambda>_ _. False)\<rparr>"

definition ex_cron_world :: cron_world where
  "ex_cron_world = \<lparr>cw_rows = [ex_cron_row], cw_inbound = []\<rparr>"

lemma ex_cron_facts:
  "distinct (row_ids (cw_rows ex_cron_world))" "no_faults (ex_cron_pass t)" "ex_cron_row \<in> set (cw_rows ex_cron_world)"
  "is_due (ps_now (ex_cron_pass 1)) ex_cron_row"
  "lock_free (ps_lock_time (ex_cron_pass 1) (cj_id ex_cron_row)) ex_cron_row"
  "row_dead (ex_cron_env False) ex_cron_row" "cj_failures ex_cron_row = 0" "cj_id ex_cron_row = ''j1''"
  "ps_now (ex_cron_pass t) = t" "ps_end (ex_cron_pass t) = t"
  by (simp_all add: ex_cron_world_def ex_cron_row_def ex_cron_pass_def ex_cron_env_def row_ids_def no_faults_def
      is_due_def lock_free_def row_dead_def dead_destination_def reply_delivered_def store_job_of_def)

theorem pass_treats_rows_independently_witness:
  "cw_rows (process_due_jobs (ex_cron_env True) (ex_cron_pass 1) ex_cron_world) =
     concat (map (tick_row (ex_cron_env True) (ex_cron_pass 1)) [ex_cron_row])
   \<and> tick_row (ex_cron_env True) (ex_cron_pass 1) ex_cron_row = [ran_at 1 (1 + 30 * minute) ex_cron_row]"
proof
  show "cw_rows (process_due_jobs (ex_cron_env True) (ex_cron_pass 1) ex_cron_world) =
          concat (map (tick_row (ex_cron_env True) (ex_cron_pass 1)) [ex_cron_row])"
    using pass_treats_rows_independently [OF ex_cron_facts(1,2), of "ex_cron_env True" 1]
    by (simp add: ex_cron_world_def)
qed code_simp

theorem dead_destination_is_deleted_without_waiting_witness:
  "take 2 (snd (poll_run (ex_cron_env False) [ex_cron_pass 1, ex_cron_pass 2, ex_cron_pass 3] ex_cron_world))
     = [PollAgain, PollAgain]
   \<and> ''j1'' \<notin> set (row_ids (cw_rows
       (fst (poll_run (ex_cron_env False) [ex_cron_pass 1, ex_cron_pass 2, ex_cron_pass 3] ex_cron_world))))"
  using dead_destination_is_deleted_without_waiting
    [OF ex_cron_facts(1) ex_cron_facts(2) ex_cron_facts(2) ex_cron_facts(2) ex_cron_facts(3-7), of 2 3]
  unfolding ex_cron_facts(8-10) by simp

end
