(* ===== verification/Cron_Tools.thy ===== *)
theory Cron_Tools
  imports Cron_Pass "HOL-Library.Monad_Syntax"
begin

text \<open>
  The tools and handlers that change the table of jobs: \<^verbatim>\<open>create_cron_job\<close> and
  \<^verbatim>\<open>delete_cron_job\<close> of the agent (\<^verbatim>\<open>internal/agent/tools/cron.go\<close>) and the
  dashboard's delete and toggle (\<^verbatim>\<open>internal/setup/handlers_cron.go\<close>), with the resolution of
  the time zone (\<^verbatim>\<open>internal/scope/timezone.go\<close>) and of the delivery target.
\<close>

section \<open>Time.Parse for the two layouts of a one-shot schedule\<close>

text \<open>A number of one or two digits; with \<^verbatim>\<open>fixed\<close> of exactly two.\<close>

definition get_num :: "bool \<Rightarrow> string \<Rightarrow> (int \<times> string) option" where
  "get_num fixed s =
     (case s of
        [] \<Rightarrow> None
      | c # s1 \<Rightarrow>
          (case dec_digit c of
             None \<Rightarrow> None
           | Some a \<Rightarrow>
               (case s1 of
                  d # s2 \<Rightarrow> (case dec_digit d of
                              Some b \<Rightarrow> Some (10 * a + b, s2)
                            | None \<Rightarrow> if fixed then None else Some (a, s1))
                | [] \<Rightarrow> if fixed then None else Some (a, []))))"

definition take_char :: "char \<Rightarrow> string \<Rightarrow> string option" where
  "take_char c s = (case s of d # s' \<Rightarrow> if d = c then Some s' else None | [] \<Rightarrow> None)"

definition get_year :: "string \<Rightarrow> (int \<times> string) option" where
  "get_year s =
     (if length s < 4 \<or> \<not> list_all is_digit (take 4 s) then None else Some (digits_val (take 4 s), drop 4 s))"

text \<open>A fraction after the seconds is read though the layouts have none; digits beyond the ninth are dropped.\<close>

definition get_fraction :: "string \<Rightarrow> int \<times> string" where
  "get_fraction s =
     (case s of
        c # d # r \<Rightarrow>
          (if (c = CHR ''.'' \<or> c = CHR '','') \<and> is_digit d
           then (let ds = takeWhile is_digit (d # r); used = take 9 ds
                 in (digits_val used * 10 ^ (9 - length used), dropWhile is_digit (d # r)))
           else (0, s))
      | _ \<Rightarrow> (0, s))"

definition leap_year :: "int \<Rightarrow> bool" where
  "leap_year y = (y mod 4 = 0 \<and> (y mod 100 \<noteq> 0 \<or> y mod 400 = 0))"

definition days_in :: "int \<Rightarrow> int \<Rightarrow> int" where
  "days_in y m =
     (if m = 2 then (if leap_year y then 29 else 28) else if m \<in> {4, 6, 9, 11} then 30 else 31)"

text \<open>The offset in seconds: \<^verbatim>\<open>Z\<close> or a signed hh:mm.\<close>

definition get_zone :: "string \<Rightarrow> (int \<times> string) option" where
  "get_zone s =
     (case s of
        [] \<Rightarrow> None
      | c # r \<Rightarrow>
          (if c = CHR ''Z'' then Some (0, r)
           else if c \<noteq> CHR ''+'' \<and> c \<noteq> CHR ''-'' then None
           else
             do { (h, s1) \<leftarrow> get_num True r; s2 \<leftarrow> take_char (CHR '':'') s1; (m, s3) \<leftarrow> get_num True s2;
                  if h > 24 \<or> m > 60 then None
                  else Some ((if c = CHR ''-'' then -1 else 1) * (h * 3600 + m * 60), s3) }))"

text \<open>Wall seconds since the epoch, nanoseconds, and the rest of the text.\<close>

definition get_datetime :: "string \<Rightarrow> (int \<times> int \<times> string) option" where
  "get_datetime s =
     do { (y, s1) \<leftarrow> get_year s; s2 \<leftarrow> take_char (CHR ''-'') s1; (mo, s3) \<leftarrow> get_num True s2;
          s4 \<leftarrow> take_char (CHR ''-'') s3; (d, s5) \<leftarrow> get_num True s4; s6 \<leftarrow> take_char (CHR ''T'') s5;
          (h, s7) \<leftarrow> get_num False s6; s8 \<leftarrow> take_char (CHR '':'') s7; (mi, s9) \<leftarrow> get_num True s8;
          s10 \<leftarrow> take_char (CHR '':'') s9; (sec, s11) \<leftarrow> get_num True s10;
          if mo < 1 \<or> mo > 12 \<or> d < 1 \<or> d > days_in y mo \<or> h \<ge> 24 \<or> mi \<ge> 60 \<or> sec \<ge> 60 then None
          else (case get_fraction s11 of
                  (ns, rest) \<Rightarrow> Some (days_from_civil y mo d * 86400 + h * 3600 + mi * 60 + sec, ns, rest)) }"

definition parse_rfc3339 :: "string \<Rightarrow> int option" where
  "parse_rfc3339 s =
     (case get_datetime s of
        None \<Rightarrow> None
      | Some (wallsec, ns, r) \<Rightarrow>
          (case get_zone r of Some (off, []) \<Rightarrow> Some ((wallsec - off) * second + ns) | _ \<Rightarrow> None))"

definition parse_local_datetime :: "location \<Rightarrow> string \<Rightarrow> int option" where
  "parse_local_datetime loc s =
     (case get_datetime s of Some (wallsec, ns, []) \<Rightarrow> Some (unix_in loc wallsec * second + ns) | _ \<Rightarrow> None)"

section \<open>The delivery target and the zone\<close>

record bound_channel =
  bc_agent :: string
  bc_enabled :: bool
  bc_type :: string
  bc_account :: string

record chat_session =
  ss_channel :: string
  ss_account :: string
  ss_chat :: string
  ss_updated :: int

record cron_ctx =
  cc_env :: cron_env
  cc_channels :: "bound_channel list"
  cc_sessions :: "string \<Rightarrow> chat_session list"
  cc_prefs_timezone :: "string \<Rightarrow> string option"   \<comment> \<open>by agent; the empty name is the system\<close>

definition bound_accounts :: "cron_ctx \<Rightarrow> string \<Rightarrow> string \<Rightarrow> string list" where
  "bound_accounts cx agent ch =
     map bc_account (List.filter (\<lambda>b. bc_agent b = agent \<and> bc_enabled b \<and> bc_type b = ch) (cc_channels cx))"

fun pick_session ::
  "(chat_session \<Rightarrow> bool) \<Rightarrow> chat_session option \<Rightarrow> chat_session list \<Rightarrow> chat_session option" where
  "pick_session fits best [] = best"
| "pick_session fits best (s # ss) =
     (if \<not> fits s then pick_session fits best ss
      else case best of
             None \<Rightarrow> pick_session fits (Some s) ss
           | Some b \<Rightarrow> pick_session fits (if ss_updated s > ss_updated b then Some s else best) ss)"

definition resolve_channel_target :: "cron_ctx \<Rightarrow> string \<Rightarrow> string \<Rightarrow> string \<Rightarrow> string \<Rightarrow> string option" where
  "resolve_channel_target cx agent ch account chat =
     (let bound = bound_accounts cx agent ch;
          fits = (\<lambda>s. ss_channel s = ch \<and> ss_chat s = chat \<and> (account = [] \<or> ss_account s = account)
                       \<and> ss_account s \<in> set bound)
      in map_option ss_account (pick_session fits None (cc_sessions cx agent)))"

definition scope_timezone :: "cron_ctx \<Rightarrow> string \<Rightarrow> string" where
  "scope_timezone cx agent =
     (case find (\<lambda>a. cc_prefs_timezone cx a \<notin> {None, Some []}) [agent, []] of
        Some a \<Rightarrow> the (cc_prefs_timezone cx a) | None \<Rightarrow> [])"

section \<open>create_cron_job\<close>

record cron_args =
  ca_name :: string
  ca_schedule :: string
  ca_message :: string
  ca_type :: string
  ca_channel :: string
  ca_account :: string
  ca_chat :: string
  ca_background :: "bool option"
  ca_deliver :: "bool option"

datatype cron_tool_error =
    MissingField
  | IncompleteTarget
  | TargetWithoutDelivery
  | TargetUnknown
  | NoTarget
  | BadOnce string
  | InPast string
  | BadInterval string
  | BadCron cron_error

text \<open>Channel, account and chat of the job.\<close>

definition delivery_target ::
  "cron_ctx \<Rightarrow> string \<Rightarrow> bool \<Rightarrow> cron_args \<Rightarrow> (cron_tool_error, string \<times> string \<times> string) res" where
  "delivery_target cx agent deliver a =
     (if ca_channel a \<noteq> [] \<or> ca_account a \<noteq> [] \<or> ca_chat a \<noteq> [] then
        (if ca_channel a = [] \<or> ca_chat a = [] then Inl IncompleteTarget
         else if \<not> deliver then Inl TargetWithoutDelivery
         else case resolve_channel_target cx agent (ca_channel a) (ca_account a) (ca_chat a) of
                None \<Rightarrow> Inl TargetUnknown
              | Some account \<Rightarrow> Inr (ca_channel a, account, ca_chat a))
      else if deliver then Inl NoTarget
      else Inr ([], [], []))"

definition first_run :: "location \<Rightarrow> int \<Rightarrow> string \<Rightarrow> string \<Rightarrow> (cron_tool_error, int) res" where
  "first_run loc now ty sched =
     (if ty = ''once'' then
        (case (case parse_rfc3339 sched of Some t \<Rightarrow> Some t | None \<Rightarrow> parse_local_datetime loc sched) of
           None \<Rightarrow> Inl (BadOnce sched)
         | Some t \<Rightarrow> if t < now then Inl (InPast sched) else Inr t)
      else if ty = ''interval'' then
        (case parse_duration (trim_prefix sched ''every '') of
           None \<Rightarrow> Inl (BadInterval sched) | Some d \<Rightarrow> Inr (now + d))
      else case validate_cron sched of
             Some e \<Rightarrow> Inl (BadCron e) | None \<Rightarrow> Inr (next_occurrence_in sched now loc))"

definition create_cron_job ::
  "cron_ctx \<Rightarrow> string \<Rightarrow> string \<Rightarrow> int \<Rightarrow> cron_args \<Rightarrow> cron_table \<Rightarrow> (cron_tool_error, cron_row \<times> cron_table) res"
where
  "create_cron_job cx agent i now a rows =
     (if ca_name a = [] \<or> ca_schedule a = [] \<or> ca_message a = [] then Inl MissingField
      else
        (let ty = (if ca_type a = [] then ''cron'' else ca_type a);
             deliver = (ca_deliver a \<noteq> Some False)
         in case delivery_target cx agent deliver a of
              Inl e \<Rightarrow> Inl e
            | Inr (ch, account, chat) \<Rightarrow>
                (let background = (ca_background a = Some True \<or> ch = []);
                     tz = scope_timezone cx agent
                 in case first_run (location_of (cc_env cx) tz) now ty (ca_schedule a) of
                      Inl e \<Rightarrow> Inl e
                    | Inr t \<Rightarrow>
                        (let j = \<lparr>cj_id = i, cj_agent = agent, cj_name = ca_name a, cj_type = ty,
                                  cj_schedule = ca_schedule a, cj_message = ca_message a, cj_channel = ch,
                                  cj_chat = chat, cj_account = account, cj_timezone = tz, cj_enabled = True,
                                  cj_last_run = None, cj_next_run = Some t, cj_failures = 0,
                                  cj_background = background, cj_deliver = deliver, cj_created = now,
                                  cj_locked_by = None, cj_locked_at = None\<rparr>
                         in Inr (j, save_cron_job j rows)))))"

text \<open>The tool's deletion; an empty identifier is refused.\<close>

definition delete_cron_job_tool :: "string \<Rightarrow> cron_table \<Rightarrow> (cron_tool_error, cron_table) res" where
  "delete_cron_job_tool i rows = (if i = [] then Inl MissingField else Inr (delete_cron_job i rows))"

section \<open>The dashboard's handlers\<close>

text \<open>\<^verbatim>\<open>None\<close> is the answer 404. The agent's ownership has been checked before.\<close>

definition dashboard_delete :: "string \<Rightarrow> string \<Rightarrow> cron_table \<Rightarrow> cron_table option" where
  "dashboard_delete agent i rows =
     (case get_cron_job i rows of
        None \<Rightarrow> None
      | Some j \<Rightarrow> if cj_agent j \<noteq> agent then None else Some (delete_cron_job i rows))"

definition dashboard_toggle ::
  "string \<Rightarrow> string \<Rightarrow> bool option \<Rightarrow> bool option \<Rightarrow> bool option \<Rightarrow> cron_table \<Rightarrow> (cron_row \<times> cron_table) option"
where
  "dashboard_toggle agent i enabled background deliver rows =
     (case get_cron_job i rows of
        None \<Rightarrow> None
      | Some j \<Rightarrow>
          (if cj_agent j \<noteq> agent then None
           else
             (let j1 = (case enabled of None \<Rightarrow> j | Some b \<Rightarrow> j\<lparr>cj_enabled := b\<rparr>);
                  j2 = (case background of None \<Rightarrow> j1 | Some b \<Rightarrow> j1\<lparr>cj_background := b\<rparr>);
                  j3 = (case deliver of None \<Rightarrow> j2 | Some b \<Rightarrow> j2\<lparr>cj_deliver := b\<rparr>);
                  j4 = (if \<not> cj_background j3 then j3\<lparr>cj_deliver := True\<rparr> else j3)
              in Some (j4, save_cron_job j4 rows))))"

section \<open>A created job can deliver what it promises\<close>

lemma pick_session_fits:
  "pick_session fits best ss = Some s \<Longrightarrow> (best = Some s \<or> s \<in> set ss \<and> fits s)"
  by (induction fits best ss rule: pick_session.induct) (auto split: if_splits option.splits)

definition can_deliver :: "cron_ctx \<Rightarrow> cron_row \<Rightarrow> bool" where
  "can_deliver cx j =
     (\<exists>s\<in>set (cc_sessions cx (cj_agent j)).
        ss_channel s = cj_channel j \<and> ss_account s = cj_account j \<and> ss_chat s = cj_chat j
        \<and> cj_account j \<in> set (bound_accounts cx (cj_agent j) (cj_channel j)))"

lemma delivery_target_cases:
  assumes "delivery_target cx agent deliver a = Inr (ch, account, chat)"
  shows "if ch = [] then \<not> deliver
         else deliver \<and> (\<exists>s\<in>set (cc_sessions cx agent). ss_channel s = ch \<and> ss_account s = account
                \<and> ss_chat s = chat \<and> account \<in> set (bound_accounts cx agent ch))"
  using assms by (auto simp: delivery_target_def resolve_channel_target_def Let_def split: if_splits option.splits
      dest!: pick_session_fits)

text \<open>
  A job saved by the tool keeps its promise: when its reply is to be delivered, its channel,
  account and chat are those of a session of the agent on a channel bound to it and enabled; when it
  is not, the job has no target and fires without a reply route.
\<close>
lemma created_job_can_deliver:
  assumes "create_cron_job cx agent i now a rows = Inr (j, rows')"
  shows "if reply_delivered (store_job_of u j) then can_deliver cx j
         else cj_channel j = [] \<and> in_reply (fire_message (store_job_of u j)) = None"
proof -
  obtain ch account chat where t: "delivery_target cx agent (ca_deliver a \<noteq> Some False) a = Inr (ch, account, chat)"
    and j: "cj_agent j = agent" "cj_channel j = ch" "cj_account j = account" "cj_chat j = chat"
      "cj_background j = (ca_background a = Some True \<or> ch = [])" "cj_deliver j = (ca_deliver a \<noteq> Some False)"
    using assms by (auto simp: create_cron_job_def Let_def split: if_splits sum.splits prod.splits)
  from delivery_target_cases [OF t] show ?thesis
    by (auto simp: reply_delivered_def store_job_of_def can_deliver_def fire_message_def Let_def j split: if_splits)
qed

definition ex_cron_ctx :: cron_ctx where
  "ex_cron_ctx =
     \<lparr>cc_env = ex_cron_env True,
      cc_channels = [\<lparr>bc_agent = ''a1'', bc_enabled = True, bc_type = ''telegram'', bc_account = ''bot''\<rparr>],
      cc_sessions = (\<lambda>_. [\<lparr>ss_channel = ''telegram'', ss_account = ''bot'', ss_chat = ''42'', ss_updated = 0\<rparr>]),
      cc_prefs_timezone = (\<lambda>_. None)\<rparr>"

definition ex_cron_args :: cron_args where
  "ex_cron_args =
     \<lparr>ca_name = ''water'', ca_schedule = ''every 30m'', ca_message = ''drink'', ca_type = ''interval'',
      ca_channel = ''telegram'', ca_account = [], ca_chat = ''42'', ca_background = None, ca_deliver = None\<rparr>"

definition ex_created :: "cron_row \<times> cron_table" where
  "ex_created =
     (case create_cron_job ex_cron_ctx ''a1'' ''j1'' 0 ex_cron_args [] of Inr x \<Rightarrow> x | Inl e \<Rightarrow> (ex_cron_row, []))"

lemma ex_created: "create_cron_job ex_cron_ctx ''a1'' ''j1'' 0 ex_cron_args [] = Inr (fst ex_created, snd ex_created)"
  by code_simp

theorem created_job_can_deliver_witness:
  "(if reply_delivered (store_job_of ''u1'' (fst ex_created)) then can_deliver ex_cron_ctx (fst ex_created)
    else cj_channel (fst ex_created) = [] \<and> in_reply (fire_message (store_job_of ''u1'' (fst ex_created))) = None)
   \<and> cj_account (fst ex_created) = ''bot'' \<and> cj_next_run (fst ex_created) = Some (30 * minute)"
  by (rule conjI, rule created_job_can_deliver [OF ex_created], code_simp)

section \<open>Where the checks of the creation are missing\<close>

text \<open>
  The dashboard's toggle makes a job without a target a foreground job; it then has to deliver and
  has no channel to deliver to.
\<close>

lemma toggle_makes_undeliverable_job:
  assumes "get_cron_job i rows = Some j" and "cj_agent j = agent" and "cj_channel j = []"
  shows "\<exists>j' rows'. dashboard_toggle agent i None (Some False) None rows = Some (j', rows')
    \<and> reply_delivered (store_job_of u j') \<and> cj_channel j' = []"
  using assms by (simp add: dashboard_toggle_def reply_delivered_def store_job_of_def Let_def)

text \<open>The tool deletes the jobs of every agent, which the dashboard refuses.\<close>

lemma tool_deletes_jobs_of_other_agents:
  assumes "get_cron_job i rows = Some j" and "cj_agent j \<noteq> agent" and "i \<noteq> []"
  shows "dashboard_delete agent i rows = None
    \<and> delete_cron_job_tool i rows = Inr (List.filter (\<lambda>r. cj_id r \<noteq> i) rows)"
  using assms by (simp add: dashboard_delete_def delete_cron_job_tool_def delete_cron_job_def)

text \<open>
  A type the scheduler does not know is checked as a cron expression when the job is created, and
  runs every hour once it has fired.
\<close>

lemma unknown_type_runs_hourly:
  assumes "ty \<notin> {''once'', ''interval'', ''cron''}" and "sj_type j = ty"
  shows "first_run loc now ty sched = first_run loc now ''cron'' sched \<and> next_run_of env now j = Some (now + hour)"
  using assms by (simp add: first_run_def next_run_of_def)

text \<open>Intervals that are not positive are accepted.\<close>

lemma zero_interval_accepted:
  "first_run loc now ''interval'' ''0s'' = Inr now" "first_run loc now ''interval'' ''every -5m'' = Inr (now - 5 * minute)"
proof -
  have p: "parse_duration (trim_prefix ''0s'' ''every '') = Some 0"
    "parse_duration (trim_prefix ''every -5m'' ''every '') = Some (- 5 * minute)"
    by code_simp+
  show "first_run loc now ''interval'' ''0s'' = Inr now"
    "first_run loc now ''interval'' ''every -5m'' = Inr (now - 5 * minute)"
    by (simp_all only: first_run_def p) simp_all
qed

end
