(* ===== verification/Access_Limits.thy ===== *)
theory Access_Limits
  imports Go_Time
begin

text \<open>
  The two sliding-window limiters: requests per user of the public interface
  (\<^verbatim>\<open>internal/api/ratelimit.go\<close>) and failed logins per client and login
  (\<^verbatim>\<open>internal/setup/login_limit.go\<close>). Both keep the times of the admitted events; what they
  have in common is the locale \<^verbatim>\<open>attempt_window\<close>, interpreted on each of them.
\<close>

section \<open>Windows\<close>

text \<open>The loop that skips the entries before the cutoff; entries at the cutoff stay.\<close>

definition prune :: "int \<Rightarrow> int list \<Rightarrow> int list" where
  "prune cutoff ts = dropWhile (\<lambda>t. t < cutoff) ts"

text \<open>The specification: no window of the given length holds more than so many events.\<close>

definition in_window :: "int \<Rightarrow> int \<Rightarrow> int list \<Rightarrow> int list" where
  "in_window w t ts = List.filter (\<lambda>x. t - w \<le> x \<and> x \<le> t) ts"

definition window_bounded :: "int \<Rightarrow> int \<Rightarrow> int list \<Rightarrow> bool" where
  "window_bounded w n ts = (\<forall>t. int (length (in_window w t ts)) \<le> n)"

text \<open>A log that remembers of the past events those of the last window, and maybe older ones.\<close>

definition remembers :: "int \<Rightarrow> int \<Rightarrow> int list \<Rightarrow> int list \<Rightarrow> bool" where
  "remembers w now past log =
     (sorted past \<and> (\<forall>x\<in>set past. x \<le> now) \<and> (\<exists>c. c \<le> now - w \<and> log = List.filter (\<lambda>x. c \<le> x) past))"

lemma prune_sorted: "sorted ts \<Longrightarrow> prune c ts = List.filter (\<lambda>x. c \<le> x) ts"
proof (induction ts)
  case (Cons t ts)
  then show ?case
    by (cases "t < c") (auto simp: prune_def not_less intro!: filter_True [symmetric])
qed (simp add: prune_def)

lemma prune_remembers:
  assumes "remembers w now past log" and "now \<le> t"
  shows "prune (t - w) log = List.filter (\<lambda>x. t - w \<le> x) past"
proof -
  from assms(1) obtain c where c0: "c \<le> now - w" and l: "log = List.filter (\<lambda>x. c \<le> x) past" and so: "sorted past"
    unfolding remembers_def by blast
  from c0 assms(2) have "c \<le> t - w" by simp
  note c = this l so
  then have "sorted log" by (simp add: sorted_filter [of "\<lambda>x. x", simplified])
  then have "prune (t - w) log = List.filter (\<lambda>x. t - w \<le> x) log" by (rule prune_sorted)
  also have "\<dots> = List.filter (\<lambda>x. t - w \<le> x) past" using c(1) by (auto simp: c(2) intro!: filter_cong)
  finally show ?thesis .
qed

lemma remembers_start: "0 \<le> w \<Longrightarrow> remembers w now [] []"
  by (auto simp: remembers_def)

lemma remembers_prune:
  assumes "remembers w now past log" and "now \<le> t"
  shows "remembers w t past (prune (t - w) log)"
  using prune_remembers [OF assms] assms by (auto simp: remembers_def)

lemma remembers_later:
  assumes "remembers w now past log" and "now \<le> t"
  shows "remembers w t past log"
proof -
  from assms(1) obtain c where "c \<le> now - w" and l: "log = List.filter (\<lambda>x. c \<le> x) past"
    unfolding remembers_def by blast
  with assms(2) have "\<exists>c. c \<le> t - w \<and> log = List.filter (\<lambda>x. c \<le> x) past" by (intro exI [of _ c]) simp
  with assms show ?thesis unfolding remembers_def by (auto intro: order_trans)
qed

lemma remembers_add:
  assumes "remembers w t past log" and "0 \<le> w"
  shows "remembers w t (past @ [t]) (log @ [t])"
  using assms by (auto simp: remembers_def sorted_append)

lemma window_add:
  assumes "window_bounded w n past" and "remembers w now past log" and "now \<le> t" and "t \<le> t'"
    and "int (length (prune (t - w) log)) < n"
  shows "window_bounded w n (past @ [t'])"
proof -
  have few: "int (length (List.filter (\<lambda>x. t - w \<le> x) past)) < n"
    using assms(5) prune_remembers [OF assms(2,3)] by simp
  have "int (length (in_window w s (past @ [t']))) \<le> n" for s
  proof (cases "t' \<le> s")
    case True
    with assms(4) have "length (in_window w s past) \<le> length (List.filter (\<lambda>x. t - w \<le> x) past)"
      unfolding in_window_def by (induction past) auto
    with few show ?thesis by (simp add: in_window_def)
  next
    case False
    with assms(1) show ?thesis by (simp add: window_bounded_def in_window_def)
  qed
  then show ?thesis by (simp add: window_bounded_def)
qed

section \<open>The interface\<close>

text \<open>
  An attempt reads the clock when it is judged and, if it counts, again when it is logged. The type
  \<^verbatim>\<open>'c\<close> holds the readings of one attempt.
\<close>

locale attempt_window =
  fixes logged :: "'s \<Rightarrow> string \<Rightarrow> int list"
    and attempt :: "'c \<Rightarrow> string \<Rightarrow> 's \<Rightarrow> 's \<times> bool"
    and judged :: "'c \<Rightarrow> int"
    and stamped :: "'c \<Rightarrow> int"
    and window :: int
    and cap :: int
  assumes window_pos: "0 \<le> window"
    and judged_first: "judged c \<le> stamped c"
    and attempt_ok: "snd (attempt c k s) = (int (length (prune (judged c - window) (logged s k))) < cap)"
    and attempt_log: "logged (fst (attempt c k s)) k =
      (if snd (attempt c k s) then prune (judged c - window) (logged s k) @ [stamped c]
       else prune (judged c - window) (logged s k))"
    and attempt_other: "k' \<noteq> k \<Longrightarrow> logged (fst (attempt c k s)) k' = logged s k'"
begin

definition safe :: "int \<Rightarrow> int list \<Rightarrow> int list \<Rightarrow> bool" where
  "safe now past log = (remembers window now past log \<and> window_bounded window cap past)"

lemma safe_start: "0 \<le> cap \<Longrightarrow> safe now [] []"
  by (simp add: safe_def remembers_start window_pos window_bounded_def in_window_def)

lemma safe_later: "safe now past log \<Longrightarrow> now \<le> t \<Longrightarrow> safe t past log"
  using remembers_later by (auto simp: safe_def)

lemma safe_attempt:
  assumes "safe now past (logged s k)" and "now \<le> judged c"
  shows "safe (stamped c) (if snd (attempt c k s) then past @ [stamped c] else past) (logged (fst (attempt c k s)) k)"
proof -
  from assms(1) have r: "remembers window now past (logged s k)" and b: "window_bounded window cap past"
    by (simp_all add: safe_def)
  note pruned = remembers_later [OF remembers_prune [OF r assms(2)] judged_first]
  show ?thesis
  proof (cases "snd (attempt c k s)")
    case True
    then have "int (length (prune (judged c - window) (logged s k))) < cap" by (simp add: attempt_ok)
    from window_add [OF b r assms(2) judged_first this] remembers_add [OF pruned window_pos] True show ?thesis
      by (simp add: safe_def attempt_log)
  next
    case False
    with pruned b show ?thesis by (simp add: safe_def attempt_log)
  qed
qed

lemma safe_other:
  assumes "safe now past (logged s k)" and "now \<le> judged c" and "k \<noteq> k'"
  shows "safe (stamped c) past (logged (fst (attempt c k' s)) k)"
  using safe_later [OF assms(1)] assms(2,3) judged_first [of c] by (auto simp: attempt_other)

end

text \<open>A window whose owner also drops old entries from time to time.\<close>

locale swept_window = attempt_window +
  fixes sweep :: "int \<Rightarrow> 's \<Rightarrow> 's"
  assumes sweep_log: "logged (sweep t s) k = prune (t - window) (logged s k)"
begin

lemma safe_sweep: "safe now past (logged s k) \<Longrightarrow> now \<le> t \<Longrightarrow> safe t past (logged (sweep t s) k)"
  using remembers_prune by (auto simp: safe_def sweep_log)

end

section \<open>Requests per user\<close>

record rate_limiter =
  rl_windows :: "string \<Rightarrow> int list option"
  rl_rpm :: int
  rl_window :: int

definition new_rate_limiter :: "int \<Rightarrow> rate_limiter" where
  "new_rate_limiter rpm =
     (if rpm \<le> 0 then \<lparr>rl_windows = (\<lambda>_. None), rl_rpm = 0, rl_window = 0\<rparr>
      else \<lparr>rl_windows = (\<lambda>_. None), rl_rpm = rpm, rl_window = minute\<rparr>)"

definition entries_of :: "('k \<Rightarrow> int list option) \<Rightarrow> 'k \<Rightarrow> int list" where
  "entries_of m k = (case m k of Some ts \<Rightarrow> ts | None \<Rightarrow> [])"

definition allow :: "int \<Rightarrow> string \<Rightarrow> rate_limiter \<Rightarrow> rate_limiter \<times> bool" where
  "allow now user rl =
     (if rl_rpm rl \<le> 0 then (rl, True)
      else
        (let ts = prune (now - rl_window rl) (entries_of (rl_windows rl) user) in
         if int (length ts) \<ge> rl_rpm rl then (rl\<lparr>rl_windows := (rl_windows rl)(user \<mapsto> ts)\<rparr>, False)
         else (rl\<lparr>rl_windows := (rl_windows rl)(user \<mapsto> ts @ [now])\<rparr>, True)))"

text \<open>One round of the cleanup.\<close>

definition cleanup :: "int \<Rightarrow> rate_limiter \<Rightarrow> rate_limiter" where
  "cleanup now rl =
     (if rl_rpm rl \<le> 0 then rl
      else rl\<lparr>rl_windows := (\<lambda>user. case rl_windows rl user of
                None \<Rightarrow> None
              | Some ts \<Rightarrow> (let ts' = prune (now - rl_window rl) ts in if ts' = [] then None else Some ts'))\<rparr>)"

text \<open>What the middleware answers: 429, or the handler's answer.\<close>

definition rate_limit_middleware :: "int \<Rightarrow> string \<Rightarrow> int \<Rightarrow> rate_limiter option \<Rightarrow> rate_limiter option \<times> int" where
  "rate_limit_middleware now user next_status rl =
     (case rl of
        None \<Rightarrow> (rl, next_status)
      | Some l \<Rightarrow>
          (if rl_rpm l \<le> 0 then (rl, next_status)
           else case allow now user l of (l', ok) \<Rightarrow> (Some l', if ok then next_status else 429)))"

datatype rate_event = Request string | Sweep

fun rate_run :: "(int \<times> rate_event) list \<Rightarrow> rate_limiter \<Rightarrow> rate_limiter \<times> (string \<times> int) list" where
  "rate_run [] rl = (rl, [])"
| "rate_run ((t, Sweep) # es) rl = rate_run es (cleanup t rl)"
| "rate_run ((t, Request u) # es) rl =
     (case allow t u rl of
        (rl1, ok) \<Rightarrow> (case rate_run es rl1 of (rl2, adm) \<Rightarrow> (rl2, (if ok then [(u, t)] else []) @ adm)))"

text \<open>The times at which the user was let through.\<close>

definition admitted :: "string \<Rightarrow> (string \<times> int) list \<Rightarrow> int list" where
  "admitted user adm = map snd (List.filter (\<lambda>(u, _). u = user) adm)"

text \<open>Limiters of a positive rate, as the state of the interface.\<close>

definition limiter :: "nat \<Rightarrow> (string \<Rightarrow> int list option) \<Rightarrow> rate_limiter" where
  "limiter n m = \<lparr>rl_windows = m, rl_rpm = 1 + int n, rl_window = minute\<rparr>"

definition limiter_attempt ::
  "nat \<Rightarrow> int \<Rightarrow> string \<Rightarrow> (string \<Rightarrow> int list option) \<Rightarrow> (string \<Rightarrow> int list option) \<times> bool" where
  "limiter_attempt n now user m = (rl_windows (fst (allow now user (limiter n m))), snd (allow now user (limiter n m)))"

definition limiter_sweep :: "nat \<Rightarrow> int \<Rightarrow> (string \<Rightarrow> int list option) \<Rightarrow> string \<Rightarrow> int list option" where
  "limiter_sweep n now m = rl_windows (cleanup now (limiter n m))"

lemma allow_limiter:
  "allow t u (limiter n m) = (limiter n (fst (limiter_attempt n t u m)), snd (limiter_attempt n t u m))"
  by (simp add: limiter_attempt_def limiter_def allow_def Let_def)

lemma cleanup_limiter: "cleanup t (limiter n m) = limiter n (limiter_sweep n t m)"
  by (simp add: limiter_sweep_def limiter_def cleanup_def)

interpretation requests: swept_window entries_of "limiter_attempt n" "\<lambda>t. t" "\<lambda>t. t" minute "1 + int n" "limiter_sweep n" for n
proof unfold_locales
  show "0 \<le> minute" by (simp add: minute_def second_def)
  show "entries_of (limiter_sweep n t m) k = prune (t - minute) (entries_of m k)" for t m and k :: string
    by (auto simp: limiter_sweep_def limiter_def cleanup_def entries_of_def Let_def prune_def [of _ "[]"] split: option.split)
qed (auto simp: limiter_attempt_def limiter_def allow_def entries_of_def Let_def)

lemma rate_run_safe:
  assumes "requests.safe n now past (entries_of m user)"
    and "sorted (map fst es)" and "\<forall>e\<in>set es. now \<le> fst e"
  shows "window_bounded minute (1 + int n) (past @ admitted user (snd (rate_run es (limiter n m))))"
  using assms
proof (induction es arbitrary: now past m)
  case Nil
  then show ?case by (simp add: requests.safe_def admitted_def)
next
  case (Cons e es)
  obtain t ev where e: "e = (t, ev)" by (cases e)
  from Cons.prems(2,3) have so: "sorted (map fst es)" and le: "now \<le> t" and later: "\<forall>e\<in>set es. t \<le> fst e"
    by (auto simp: e)
  show ?case
  proof (cases ev)
    case Sweep
    from Cons.IH [OF requests.safe_sweep [OF Cons.prems(1) le] so later] Sweep show ?thesis
      by (simp add: e cleanup_limiter)
  next
    case (Request u)
    let ?m1 = "fst (limiter_attempt n t u m)" and ?ok = "snd (limiter_attempt n t u m)"
    let ?past = "if u = user \<and> ?ok then past @ [t] else past"
    have "requests.safe n t ?past (entries_of ?m1 user)"
    proof (cases "u = user")
      case True
      with requests.safe_attempt [OF Cons.prems(1) le] show ?thesis by (auto simp: if_distrib)
    next
      case False
      with requests.safe_other [OF Cons.prems(1) le, of u] show ?thesis by auto
    qed
    from Cons.IH [OF this so later] show ?thesis
      by (auto simp: e Request allow_limiter admitted_def split: prod.splits if_splits)
  qed
qed

text \<open>
  C39. The limiter lets no user through more often than its rate within any minute, whatever the
  requests of the other users and the rounds of the cleanup in between, as long as the clock does
  not run backwards.
\<close>
theorem admitted_requests_bounded:
  assumes "0 < rpm" and "sorted (map fst es)"
  shows "window_bounded minute rpm (admitted user (snd (rate_run es (new_rate_limiter rpm))))"
proof (cases es)
  case Nil
  with assms(1) show ?thesis by (simp add: admitted_def window_bounded_def in_window_def)
next
  case (Cons e es')
  obtain n where n: "rpm = 1 + int n"
    using assms(1) zero_less_imp_eq_int [of rpm] by (metis Suc_pred of_nat_Suc)
  have "requests.safe n (fst e) [] (entries_of (\<lambda>_. None) user)"
    using requests.safe_start [of n "fst e"] by (simp add: entries_of_def)
  from rate_run_safe [OF this assms(2)] assms(2) show ?thesis
    by (simp add: Cons n new_rate_limiter_def limiter_def)
qed

theorem admitted_requests_bounded_witness:
  "window_bounded minute 1
     (admitted ''u'' (snd (rate_run [(0, Request ''u''), (1, Request ''u''), (2, Sweep), (minute + 1, Request ''u'')]
        (new_rate_limiter 1))))
   \<and> admitted ''u'' (snd (rate_run [(0, Request ''u''), (1, Request ''u''), (2, Sweep), (minute + 1, Request ''u'')]
        (new_rate_limiter 1))) = [0, minute + 1]"
proof
  show "window_bounded minute 1
     (admitted ''u'' (snd (rate_run [(0, Request ''u''), (1, Request ''u''), (2, Sweep), (minute + 1, Request ''u'')]
        (new_rate_limiter 1))))"
    by (rule admitted_requests_bounded) (simp_all add: minute_def second_def)
qed code_simp

end
