(* ===== verification/Access_Identity.thy ===== *)
theory Access_Identity
  imports Access_Limits Go_Path
begin

text \<open>
  Accounts, api keys, web sessions and the identity of a request
  (\<^verbatim>\<open>internal/users\<close>, \<^verbatim>\<open>internal/auth/auth.go\<close>, the tables of
  \<^verbatim>\<open>internal/store/database.go\<close>, the gates and handlers of \<^verbatim>\<open>internal/setup\<close>).

  The hash functions are parameters: bcrypt, which is not part of the repository, as a salted hash
  and a comparison, and the digest of a token. Random identifiers, tokens and salts are arguments.
\<close>

section \<open>The tables\<close>

record user_row =
  ur_id :: string
  ur_username :: string
  ur_email :: string
  ur_hash :: string
  ur_display :: string
  ur_role :: string
  ur_status :: string
  ur_apikey :: string
  ur_external :: string
  ur_owner :: string
  ur_avatar :: string

record web_session =
  wb_sid :: string
  wb_user :: string
  wb_expires :: int

record apikey_row =
  ak_id :: string
  ak_user :: string
  ak_name :: string
  ak_hash :: string
  ak_prefix :: string
  ak_type :: string
  ak_scope :: string

record id_db =
  db_users :: "user_row list"
  db_sessions :: "web_session list"
  db_apikeys :: "apikey_row list"
  db_agents :: "string list"

datatype id_error =
    NotFound
  | Conflict
  | NoColumn string
  | Missing string
  | InvalidRole
  | InvalidStatus
  | InvalidCredentials
  | Unauthorized
  | HashFailed

definition get_user :: "string \<Rightarrow> id_db \<Rightarrow> user_row option" where
  "get_user i db = find (\<lambda>u. ur_id u = i) (db_users db)"

definition get_user_by_login :: "string \<Rightarrow> id_db \<Rightarrow> user_row option" where
  "get_user_by_login l db = find (\<lambda>u. ur_username u = l \<or> ur_email u = l) (db_users db)"

definition get_user_by_external :: "string \<Rightarrow> string \<Rightarrow> id_db \<Rightarrow> user_row option" where
  "get_user_by_external owner ext db =
     (if owner = [] \<or> ext = [] then None
      else find (\<lambda>u. ur_owner u = owner \<and> ur_external u = ext) (db_users db))"

text \<open>The columns \<^verbatim>\<open>id\<close>, \<^verbatim>\<open>username\<close> and \<^verbatim>\<open>email\<close> are unique.\<close>

definition create_user :: "user_row \<Rightarrow> id_db \<Rightarrow> (id_error, id_db) res" where
  "create_user u db =
     (if list_ex (\<lambda>v. ur_id v = ur_id u \<or> ur_username v = ur_username u \<or> ur_email v = ur_email u) (db_users db)
      then Inl Conflict else Inr (db\<lparr>db_users := db_users db @ [u]\<rparr>))"

text \<open>All columns of the form are written, the hash among them.\<close>

definition overwrite_user :: "user_row \<Rightarrow> user_row \<Rightarrow> user_row" where
  "overwrite_user u v =
     v\<lparr>ur_username := ur_username u, ur_email := ur_email u, ur_hash := ur_hash u, ur_display := ur_display u,
       ur_role := ur_role u, ur_status := ur_status u, ur_avatar := ur_avatar u\<rparr>"

definition update_user :: "user_row \<Rightarrow> id_db \<Rightarrow> (id_error, id_db) res" where
  "update_user u db =
     (if list_ex (\<lambda>v. ur_id v = ur_id u) (db_users db)
         \<and> list_ex (\<lambda>v. ur_id v \<noteq> ur_id u \<and> (ur_username v = ur_username u \<or> ur_email v = ur_email u)) (db_users db)
      then Inl Conflict
      else Inr (db\<lparr>db_users := map (\<lambda>v. if ur_id v = ur_id u then overwrite_user u v else v) (db_users db)\<rparr>))"

text \<open>
  The owner-scoped tables in the order of the update, and those that still have the column
  \<^verbatim>\<open>user_id\<close> once every migration has run: the first four statements already meet the table of
  agents, whose column has been dropped.
\<close>

definition reassign_tables :: "string list" where
  "reassign_tables =
     [''web_sessions'', ''push_devices'', ''apikeys'', ''agents'', ''sessions'', ''session_messages'', ''session_events'',
      ''agent_files'', ''cron_jobs'', ''projects'', ''project_runtimes'', ''token_usage_daily'', ''quotas'',
      ''token_usage_log'', ''channels'', ''conversation_summaries'']"

definition user_id_tables :: "string list" where
  "user_id_tables =
     [''web_sessions'', ''push_devices'', ''apikeys'', ''token_usage_daily'', ''quotas'', ''token_usage_log'', ''channels'']"

definition reassign_table :: "string \<Rightarrow> string \<Rightarrow> string \<Rightarrow> id_db \<Rightarrow> (id_error, id_db) res" where
  "reassign_table a b t db =
     (if t \<notin> set user_id_tables then Inl (NoColumn t)
      else if t = ''web_sessions''
        then Inr (db\<lparr>db_sessions := map (\<lambda>s. if wb_user s = a then s\<lparr>wb_user := b\<rparr> else s) (db_sessions db)\<rparr>)
      else if t = ''apikeys''
        then Inr (db\<lparr>db_apikeys := map (\<lambda>k. if ak_user k = a then k\<lparr>ak_user := b\<rparr> else k) (db_apikeys db)\<rparr>)
      else Inr db)"

fun reassign_all :: "string \<Rightarrow> string \<Rightarrow> string list \<Rightarrow> id_db \<Rightarrow> (id_error, id_db) res" where
  "reassign_all a b [] db =
     Inr (db\<lparr>db_users := map (\<lambda>u. if ur_owner u = a then u\<lparr>ur_owner := b\<rparr> else u) (db_users db)\<rparr>)"
| "reassign_all a b (t # ts) db =
     (case reassign_table a b t db of Inl e \<Rightarrow> Inl e | Inr db' \<Rightarrow> reassign_all a b ts db')"

text \<open>One transaction: on an error nothing has changed.\<close>

definition reassign_user_data :: "string \<Rightarrow> string \<Rightarrow> id_db \<Rightarrow> (id_error, id_db) res" where
  "reassign_user_data a b db = reassign_all a b reassign_tables db"

definition delete_user :: "string \<Rightarrow> id_db \<Rightarrow> (id_error, id_db) res" where
  "delete_user i db =
     (if ''agents'' \<notin> set user_id_tables then Inl (NoColumn ''agents'')
      else Inr (db\<lparr>db_users := List.filter (\<lambda>u. ur_id u \<noteq> i) (db_users db),
                   db_sessions := List.filter (\<lambda>s. wb_user s \<noteq> i) (db_sessions db),
                   db_apikeys := List.filter (\<lambda>k. ak_user k \<noteq> i) (db_apikeys db)\<rparr>))"

section \<open>Accounts\<close>

record crypto =
  cr_hash :: "string \<Rightarrow> string \<Rightarrow> string option"    \<comment> \<open>bcrypt, from a salt and a password, may refuse\<close>
  cr_match :: "string \<Rightarrow> string \<Rightarrow> bool"     \<comment> \<open>comparison of a stored hash with a password\<close>
  cr_digest :: "string \<Rightarrow> string"             \<comment> \<open>of an api key's token\<close>

record account_input =
  ai_username :: string
  ai_email :: string
  ai_password :: string
  ai_display :: string
  ai_role :: string
  ai_avatar :: string
  ai_apikey :: string
  ai_external :: string

text \<open>A conflict on insert is answered with the row another request has made for the same pair.\<close>

definition create_account ::
  "crypto \<Rightarrow> string \<Rightarrow> string \<Rightarrow> account_input \<Rightarrow> id_db \<Rightarrow> (id_error, user_row \<times> id_db) res" where
  "create_account cr salt i inp db =
     (let ak = trim_space (ai_apikey inp); ext = trim_space (ai_external inp);
          known = (if ak \<noteq> [] \<and> ext \<noteq> [] then get_user_by_external ak ext db else None)
      in case known of
           Some u \<Rightarrow> Inr (u, db)
         | None \<Rightarrow>
             (let username = trim_space (ai_username inp); email = to_lower (trim_space (ai_email inp));
                  role = (if ai_role inp = [] then ''super_admin'' else ai_role inp)
              in if username = [] \<or> email = [] \<or> ai_password inp = [] then Inl (Missing ''username, email, password'')
                 else if role \<noteq> ''super_admin'' then Inl InvalidRole
                 else case cr_hash cr salt (ai_password inp) of
                     None \<Rightarrow> Inl HashFailed
                   | Some h \<Rightarrow>
                       (let u = \<lparr>ur_id = i, ur_username = username, ur_email = email, ur_hash = h,
                                 ur_display = ai_display inp, ur_role = role, ur_status = ''active'', ur_apikey = ak,
                                 ur_external = ext, ur_owner = [], ur_avatar = ai_avatar inp\<rparr>
                        in case create_user u db of
                             Inr db' \<Rightarrow> Inr (u, db')
                           | Inl e \<Rightarrow>
                               (case (if ak \<noteq> [] \<and> ext \<noteq> [] then get_user_by_external ak ext db else None) of
                                  Some v \<Rightarrow> Inr (v, db) | None \<Rightarrow> Inl e))))"

definition authenticate :: "crypto \<Rightarrow> string \<Rightarrow> string \<Rightarrow> id_db \<Rightarrow> (id_error, user_row) res" where
  "authenticate cr login pw db =
     (let l = trim_space login in
      if l = [] \<or> pw = [] then Inl InvalidCredentials
      else
        (case get_user_by_login (if CHR ''@'' \<in> set l then to_lower l else l) db of
           None \<Rightarrow> Inl InvalidCredentials
         | Some u \<Rightarrow>
             (if ur_status u \<noteq> ''active'' then Inl InvalidCredentials
              else if ur_hash u = [] \<or> ur_role u = ''channel_user'' then Inl InvalidCredentials
              else if \<not> cr_match cr (ur_hash u) pw then Inl InvalidCredentials
              else Inr u)))"

definition update_account :: "string \<Rightarrow> string \<Rightarrow> string \<Rightarrow> string \<Rightarrow> id_db \<Rightarrow> (id_error, id_db) res" where
  "update_account i display role status db =
     (case get_user i db of
        None \<Rightarrow> Inl NotFound
      | Some u \<Rightarrow>
          (let u1 = (if display \<noteq> [] then u\<lparr>ur_display := display\<rparr> else u) in
           if role \<noteq> [] \<and> role \<noteq> ''super_admin'' then Inl InvalidRole
           else
             (let u2 = (if role \<noteq> [] then u1\<lparr>ur_role := role\<rparr> else u1) in
              if status \<noteq> [] \<and> status \<noteq> ''active'' \<and> status \<noteq> ''disabled'' then Inl InvalidStatus
              else update_user (if status \<noteq> [] then u2\<lparr>ur_status := status\<rparr> else u2) db)))"

definition update_profile :: "string \<Rightarrow> string \<Rightarrow> string \<Rightarrow> id_db \<Rightarrow> (id_error, id_db) res" where
  "update_profile i display avatar db =
     (case get_user i db of
        None \<Rightarrow> Inl NotFound
      | Some u \<Rightarrow> update_user (u\<lparr>ur_display := display, ur_avatar := avatar\<rparr>) db)"

definition verify_password :: "crypto \<Rightarrow> string \<Rightarrow> string \<Rightarrow> id_db \<Rightarrow> bool" where
  "verify_password cr i pw db =
     (case get_user i db of None \<Rightarrow> False | Some u \<Rightarrow> ur_hash u \<noteq> [] \<and> cr_match cr (ur_hash u) pw)"

definition set_password :: "crypto \<Rightarrow> string \<Rightarrow> string \<Rightarrow> string \<Rightarrow> id_db \<Rightarrow> (id_error, id_db) res" where
  "set_password cr salt i pw db =
     (if pw = [] then Inl (Missing ''password'')
      else case get_user i db of
             None \<Rightarrow> Inl NotFound
           | Some u \<Rightarrow> (case cr_hash cr salt pw of
                             None \<Rightarrow> Inl HashFailed | Some h \<Rightarrow> update_user (u\<lparr>ur_hash := h\<rparr>) db))"

section \<open>The single owner\<close>

record owner_spec =
  ow_username :: string
  ow_email :: string
  ow_password :: string
  ow_display :: string

text \<open>
  The update of an existing owner: the row read at the start is written back after the password
  has been set.
\<close>

definition refresh_owner ::
  "crypto \<Rightarrow> string \<Rightarrow> owner_spec \<Rightarrow> user_row \<Rightarrow> id_db \<Rightarrow> (id_error, id_db) res" where
  "refresh_owner cr salt ow u db =
     (case (if ow_password ow \<noteq> [] then set_password cr salt (ur_id u) (ow_password ow) db else Inr db) of
        Inl e \<Rightarrow> Inl e
      | Inr db1 \<Rightarrow>
          (if ow_email ow \<noteq> [] \<and> ow_email ow \<noteq> ur_email u
           then update_user (u\<lparr>ur_email := to_lower (trim_space (ow_email ow))\<rparr>) db1
           else Inr db1))"

fun merge_accounts :: "string \<Rightarrow> user_row list \<Rightarrow> id_db \<Rightarrow> (id_error, id_db) res" where
  "merge_accounts owner [] db = Inr db"
| "merge_accounts owner (a # as) db =
     (if ur_id a = owner \<or> ur_role a = ''channel_user'' then merge_accounts owner as db
      else case reassign_user_data (ur_id a) owner db of
             Inl e \<Rightarrow> Inl e
           | Inr db1 \<Rightarrow> (case delete_user (ur_id a) db1 of
                            Inl e \<Rightarrow> Inl e | Inr db2 \<Rightarrow> merge_accounts owner as db2))"

definition ensure_single_owner ::
  "crypto \<Rightarrow> string \<Rightarrow> string \<Rightarrow> owner_spec \<Rightarrow> id_db \<Rightarrow> (id_error, id_db) res" where
  "ensure_single_owner cr salt i ow db =
     (if trim_space (ow_username ow) = [] then Inr db
      else
        (case (case get_user_by_login (ow_username ow) db of
                 Some u \<Rightarrow> map_sum id (\<lambda>d. (ur_id u, d)) (refresh_owner cr salt ow u db)
               | None \<Rightarrow>
                   map_sum id (\<lambda>(u, d). (ur_id u, d))
                     (create_account cr salt i
                        \<lparr>ai_username = ow_username ow,
                         ai_email = (if ow_email ow = [] then ow_username ow @ ''@local.fluctio'' else ow_email ow),
                         ai_password = ow_password ow, ai_display = ow_display ow, ai_role = ''super_admin'',
                         ai_avatar = [], ai_apikey = [], ai_external = []\<rparr> db)) of
           Inl e \<Rightarrow> Inl e
         | Inr (owner, db1) \<Rightarrow> merge_accounts owner (db_users db1) db1))"

section \<open>Lemmas on the tables\<close>

definition unique_ids :: "id_db \<Rightarrow> bool" where
  "unique_ids db = distinct (map ur_id (db_users db))"

lemma find_Some: "find P xs = Some x \<Longrightarrow> x \<in> set xs \<and> P x"
  by (auto simp: find_Some_iff)

lemma find_by_key:
  "distinct (map f xs) \<Longrightarrow> x \<in> set xs \<Longrightarrow> find (\<lambda>y. f y = f x) xs = Some x"
  by (induction xs) auto

lemma get_user_in: "unique_ids db \<Longrightarrow> u \<in> set (db_users db) \<Longrightarrow> get_user (ur_id u) db = Some u"
  using find_by_key [of ur_id "db_users db" u] by (simp add: unique_ids_def get_user_def)

lemma overwrite_user_id [simp]: "ur_id (overwrite_user u v) = ur_id v"
  by (simp add: overwrite_user_def)

lemma update_user_Inr:
  assumes "update_user u db = Inr db'"
  shows "db_users db' = map (\<lambda>v. if ur_id v = ur_id u then overwrite_user u v else v) (db_users db)"
    and "db_sessions db' = db_sessions db" and "db_apikeys db' = db_apikeys db" and "db_agents db' = db_agents db"
  using assms by (auto simp: update_user_def split: if_splits)

lemma update_user_get:
  assumes "update_user u db = Inr db'" and "get_user (ur_id u) db = Some v"
  shows "get_user (ur_id u) db' = Some (overwrite_user u v)"
proof -
  have "find (\<lambda>v. ur_id v = ur_id u) (map (\<lambda>v. if ur_id v = ur_id u then overwrite_user u v else v) us) = 
      map_option (overwrite_user u) (find (\<lambda>v. ur_id v = ur_id u) us)" for us
    by (induction us) auto
  with assms show ?thesis by (simp add: get_user_def update_user_Inr(1) [OF assms(1)])
qed

lemma update_user_unique: "update_user u db = Inr db' \<Longrightarrow> unique_ids db \<Longrightarrow> unique_ids db'"
  by (simp add: unique_ids_def update_user_Inr comp_def if_distrib cong: if_cong)

section \<open>The owner's new password is lost\<close>

text \<open>The row of the owner that a run of the enforcement has left.\<close>

lemma set_password_get:
  assumes "set_password cr salt i pw db = Inr db'"
  shows "\<exists>u h. get_user i db = Some u \<and> cr_hash cr salt pw = Some h
    \<and> get_user i db' = Some (overwrite_user (u\<lparr>ur_hash := h\<rparr>) u)"
proof -
  obtain u h where u: "get_user i db = Some u" "cr_hash cr salt pw = Some h"
    and up: "update_user (u\<lparr>ur_hash := h\<rparr>) db = Inr db'"
    using assms by (auto simp: set_password_def split: if_splits option.splits)
  have "ur_id u = i" using u(1) by (auto simp: get_user_def dest: find_Some)
  with update_user_get [OF up, of u] u show ?thesis by auto
qed

lemma merge_keeps_or_fails:
  "merge_accounts owner as db = Inr db' \<Longrightarrow> db' = db"
  by (induction owner as db rule: merge_accounts.induct)
    (auto simp: reassign_user_data_def reassign_tables_def reassign_table_def user_id_tables_def
      split: if_splits sum.splits)

text \<open>
  When the configured email differs from the stored one, also only in its letter case, a start
  of the gateway stores the configured password and then writes the old hash back: afterwards the
  owner's row still has the hash from before, whatever password is configured.
\<close>
lemma owner_password_change_is_lost:
  assumes "unique_ids db" and "get_user_by_login (ow_username ow) db = Some u"
    and "ow_email ow \<noteq> []" and "ow_email ow \<noteq> ur_email u"
    and "ensure_single_owner cr salt i ow db = Inr db'" and "trim_space (ow_username ow) \<noteq> []"
  shows "map_option ur_hash (get_user (ur_id u) db') = Some (ur_hash u)"
proof -
  have mem: "u \<in> set (db_users db)" using assms(2) by (auto simp: get_user_by_login_def dest: find_Some)
  note here = get_user_in [OF assms(1) mem]
  obtain db1 where r: "refresh_owner cr salt ow u db = Inr db1"
    and m: "merge_accounts (ur_id u) (db_users db1) db1 = Inr db'"
    using assms(2,5,6) by (cases "refresh_owner cr salt ow u db") (auto simp: ensure_single_owner_def)
  obtain db0 where p: "(if ow_password ow \<noteq> [] then set_password cr salt (ur_id u) (ow_password ow) db else Inr db) = Inr db0"
    and up: "update_user (u\<lparr>ur_email := to_lower (trim_space (ow_email ow))\<rparr>) db0 = Inr db1"
    using r assms(3,4) by (auto simp: refresh_owner_def split: sum.splits)
  obtain v where v: "get_user (ur_id u) db0 = Some v"
    using p here set_password_get by (fastforce split: if_splits)
  have "get_user (ur_id u) db1 = Some (overwrite_user (u\<lparr>ur_email := to_lower (trim_space (ow_email ow))\<rparr>) v)"
    using update_user_get [OF up, of v] v by simp
  then show ?thesis using merge_keeps_or_fails [OF m] by (simp add: overwrite_user_def)
qed

definition toy_crypto :: crypto where
  "toy_crypto =
     \<lparr>cr_hash = (\<lambda>salt pw. Some (salt @ ''$'' @ pw)),
      cr_match = (\<lambda>h pw. case cut h (CHR ''$'') of (_, p, _) \<Rightarrow> p = pw), cr_digest = (\<lambda>t. ''#'' @ t)\<rparr>"

definition toy_owner :: user_row where
  "toy_owner =
     \<lparr>ur_id = ''u1'', ur_username = ''admin'', ur_email = ''me@x.org'', ur_hash = ''s0$old'', ur_display = [],
      ur_role = ''super_admin'', ur_status = ''active'', ur_apikey = [], ur_external = [], ur_owner = [], ur_avatar = []\<rparr>"

definition toy_db :: id_db where
  "toy_db = \<lparr>db_users = [toy_owner], db_sessions = [], db_apikeys = [], db_agents = [''a1'', ''a2'']\<rparr>"

definition toy_spec :: owner_spec where
  "toy_spec = \<lparr>ow_username = ''admin'', ow_email = ''Me@x.org'', ow_password = ''new'', ow_display = []\<rparr>"

theorem owner_password_change_is_lost_witness:
  "\<exists>db'. ensure_single_owner toy_crypto ''s1'' ''u2'' toy_spec toy_db = Inr db'
     \<and> map_option ur_hash (get_user ''u1'' db') = Some ''s0$old''"
proof -
  have run: "ensure_single_owner toy_crypto ''s1'' ''u2'' toy_spec toy_db = Inr toy_db" by code_simp
  have "map_option ur_hash (get_user (ur_id toy_owner) toy_db) = Some (ur_hash toy_owner)"
    by (rule owner_password_change_is_lost [OF _ _ _ _ run]; code_simp)
  then have "map_option ur_hash (get_user ''u1'' toy_db) = Some ''s0$old''" by (simp add: toy_owner_def)
  with run show ?thesis by blast
qed

text \<open>
  Merging a second account fails at the table of agents, so the gateway does not start while another
  account exists that is not a chatter.
\<close>

lemma surplus_account_is_not_merged:
  assumes "a \<in> set as" and "ur_id a \<noteq> owner" and "ur_role a \<noteq> ''channel_user''"
  shows "merge_accounts owner as db = Inl (NoColumn ''agents'')"
  using assms
proof (induction as)
  case (Cons b as)
  have "reassign_user_data x owner db = Inl (NoColumn ''agents'')" for x
    by (simp add: reassign_user_data_def reassign_tables_def reassign_table_def user_id_tables_def)
  with Cons show ?case by auto
qed simp

text \<open>
  Provisioning is looked up by the owner column but written to the api key column: a repeated call
  finds nothing and collides with its own row.
\<close>

lemma provisioning_is_not_idempotent:
  assumes "create_account cr salt i inp db = Inr (u, db')" and "trim_space (ai_apikey inp) \<noteq> []"
    and "get_user_by_external (trim_space (ai_apikey inp)) (trim_space (ai_external inp)) db = None"
    and "cr_hash cr salt' (ai_password inp) \<noteq> None"
  shows "create_account cr salt' i' inp db' = Inl Conflict"
proof -
  let ?ak = "trim_space (ai_apikey inp)" and ?ext = "trim_space (ai_external inp)"
  from assms obtain h where h: "cr_hash cr salt (ai_password inp) = Some h"
    and cu: "create_user u db = Inr db'" and row: "ur_owner u = []" "ur_username u = trim_space (ai_username inp)"
    and ok: "trim_space (ai_username inp) \<noteq> []" "to_lower (trim_space (ai_email inp)) \<noteq> []" "ai_password inp \<noteq> []"
      "ai_role inp = [] \<or> ai_role inp = ''super_admin''"
    by (auto simp: create_account_def Let_def split: if_splits option.splits sum.splits)
  have "get_user_by_external ?ak ?ext db' = None"
  proof (cases "?ext = []")
    case False
    with assms(2,3) cu row show ?thesis
      by (auto simp: create_user_def get_user_by_external_def find_None_iff split: if_splits)
  qed (simp add: get_user_by_external_def)
  moreover have "list_ex (\<lambda>v. ur_username v = trim_space (ai_username inp)) (db_users db')"
    using cu row by (auto simp: create_user_def split: if_splits)
  then have "create_user x db' = Inl Conflict" if "ur_username x = trim_space (ai_username inp)" for x
    using that by (auto simp: create_user_def list_ex_iff)
  ultimately show ?thesis using assms(4) ok by (auto simp: create_account_def Let_def)
qed

end
