(* ===== verification/Access_Login.thy ===== *)
theory Access_Login
  imports Access_Identity
begin

text \<open>
  Credentials: web sessions and api keys, the identity they resolve to and the gates over it
  (\<^verbatim>\<open>internal/auth/auth.go\<close>, \<^verbatim>\<open>internal/users/apikey.go\<close>), the handlers of login,
  logout, password and keys (\<^verbatim>\<open>internal/setup/handlers_admin.go\<close>) and the limit on failed
  logins (\<^verbatim>\<open>internal/setup/login_limit.go\<close>).
\<close>

section \<open>Sessions and keys\<close>

definition session_ttl :: int where "session_ttl = 30 * 24 * hour"

definition create_web_session :: "web_session \<Rightarrow> id_db \<Rightarrow> (id_error, id_db) res" where
  "create_web_session s db =
     (if list_ex (\<lambda>t. wb_sid t = wb_sid s) (db_sessions db) then Inl Conflict
      else Inr (db\<lparr>db_sessions := db_sessions db @ [s]\<rparr>))"

definition get_web_session :: "string \<Rightarrow> id_db \<Rightarrow> web_session option" where
  "get_web_session sid db = find (\<lambda>s. wb_sid s = sid) (db_sessions db)"

definition delete_web_session :: "string \<Rightarrow> id_db \<Rightarrow> id_db" where
  "delete_web_session sid db = db\<lparr>db_sessions := List.filter (\<lambda>s. wb_sid s \<noteq> sid) (db_sessions db)\<rparr>"

definition delete_web_sessions_by_user_except :: "string \<Rightarrow> string \<Rightarrow> id_db \<Rightarrow> id_db" where
  "delete_web_sessions_by_user_except u keep db =
     (if keep \<noteq> []
      then db\<lparr>db_sessions := List.filter (\<lambda>s. \<not> (wb_user s = u \<and> wb_sid s \<noteq> keep)) (db_sessions db)\<rparr>
      else db\<lparr>db_sessions := List.filter (\<lambda>s. wb_user s \<noteq> u) (db_sessions db)\<rparr>)"

definition issue_session :: "int \<Rightarrow> string \<Rightarrow> string \<Rightarrow> id_db \<Rightarrow> (id_error, id_db) res" where
  "issue_session now sid u db =
     create_web_session \<lparr>wb_sid = sid, wb_user = u, wb_expires = now + session_ttl\<rparr> db"

text \<open>The column of an api key's agents is their list separated by commas; empty means every agent.\<close>

definition parse_agent_scope :: "string \<Rightarrow> string list" where
  "parse_agent_scope v = (if v = [] then [] else List.filter (\<lambda>p. p \<noteq> []) (split_str v '',''))"

definition format_agent_scope :: "string list \<Rightarrow> string" where
  "format_agent_scope ids = join_str ids '',''"

definition key_prefix :: "string \<Rightarrow> string" where
  "key_prefix token = (if length token \<le> 10 then token else take 10 token)"

definition get_apikey :: "string \<Rightarrow> id_db \<Rightarrow> apikey_row option" where
  "get_apikey i db = find (\<lambda>k. ak_id k = i) (db_apikeys db)"

definition lookup_apikey_by_hash :: "string \<Rightarrow> id_db \<Rightarrow> apikey_row option" where
  "lookup_apikey_by_hash h db = find (\<lambda>k. ak_hash k = h) (db_apikeys db)"

definition list_apikeys :: "string \<Rightarrow> id_db \<Rightarrow> apikey_row list" where
  "list_apikeys u db = List.filter (\<lambda>k. ak_user k = u) (db_apikeys db)"

definition create_apikey ::
  "crypto \<Rightarrow> string \<Rightarrow> string \<Rightarrow> string \<Rightarrow> string \<Rightarrow> string \<Rightarrow> string list \<Rightarrow> id_db \<Rightarrow> (id_error, id_db) res" where
  "create_apikey cr i token u name ty agents db =
     (if u = [] then Inl (Missing ''userID'')
      else
        (let k = \<lparr>ak_id = i, ak_user = u, ak_name = name, ak_hash = cr_digest cr token, ak_prefix = key_prefix token,
                  ak_type = (if ty = [] then ''agent'' else ty), ak_scope = format_agent_scope agents\<rparr>
         in if list_ex (\<lambda>x. ak_id x = i) (db_apikeys db) then Inl Conflict
            else Inr (db\<lparr>db_apikeys := db_apikeys db @ [k]\<rparr>)))"

definition rotate_apikey :: "crypto \<Rightarrow> string \<Rightarrow> string \<Rightarrow> id_db \<Rightarrow> id_db" where
  "rotate_apikey cr i token db =
     db\<lparr>db_apikeys := map (\<lambda>k. if ak_id k = i then k\<lparr>ak_hash := cr_digest cr token, ak_prefix := key_prefix token\<rparr> else k)
                       (db_apikeys db)\<rparr>"

definition delete_apikey :: "string \<Rightarrow> id_db \<Rightarrow> id_db" where
  "delete_apikey i db = db\<lparr>db_apikeys := List.filter (\<lambda>k. ak_id k \<noteq> i) (db_apikeys db)\<rparr>"

text \<open>The key, its owner's row and its agents.\<close>

definition lookup_by_token :: "crypto \<Rightarrow> string \<Rightarrow> id_db \<Rightarrow> (id_error, apikey_row \<times> user_row \<times> string list) res" where
  "lookup_by_token cr token db =
     (if token = [] then Inl InvalidCredentials
      else case lookup_apikey_by_hash (cr_digest cr token) db of
             None \<Rightarrow> Inl InvalidCredentials
           | Some k \<Rightarrow>
               (case get_user (ak_user k) db of
                  None \<Rightarrow> Inl InvalidCredentials
                | Some u \<Rightarrow> if ur_status u \<noteq> ''active'' then Inl InvalidCredentials
                            else Inr (k, u, parse_agent_scope (ak_scope k))))"

section \<open>The identity of a request\<close>

record identity =
  idn_user :: string
  idn_role :: string
  idn_method :: string
  idn_key :: string
  idn_agents :: "string list"

definition can_access_agent :: "identity \<Rightarrow> string \<Rightarrow> bool" where
  "can_access_agent i agent = (idn_agents i = [] \<or> agent \<in> set (idn_agents i))"

definition can_admin_platform :: "identity \<Rightarrow> bool" where
  "can_admin_platform i = (idn_role i = ''super_admin'' \<or> idn_method i = ''apikey'')"

record request =
  rq_method :: string
  rq_path :: string
  rq_cookie :: "string option"
  rq_auth :: string
  rq_token :: string

definition agent_scoped_path_segment :: "string \<Rightarrow> string \<Rightarrow> bool" where
  "agent_scoped_path_segment path seg =
     (if \<not> has_prefix path ''/api/agents/'' then False
      else case cut (trim_prefix path ''/api/agents/'') slash of
             (_, rest, ok) \<Rightarrow>
               (if \<not> ok then False
                else (let next = fst (cut rest slash) in next = seg \<or> next = seg @ ''.zip'')))"

definition query_token_allowed :: "request \<Rightarrow> bool" where
  "query_token_allowed rq =
     (if rq_method rq \<noteq> ''GET'' then False
      else agent_scoped_path_segment (rq_path rq) ''files'' \<or> agent_scoped_path_segment (rq_path rq) ''system-files''
           \<or> rq_path rq = ''/api/chat/subscribe'')"

text \<open>Bearer token and session cookie, empty when there is none.\<close>

definition extract_credentials :: "request \<Rightarrow> string \<times> string" where
  "extract_credentials rq =
     (let sid = (case rq_cookie rq of Some c \<Rightarrow> c | None \<Rightarrow> []) in
      if rq_auth rq \<noteq> []
      then (let t = trim_prefix (rq_auth rq) ''Bearer '' in (if t \<noteq> rq_auth rq then t else [], sid))
      else if rq_token rq \<noteq> [] \<and> query_token_allowed rq then (rq_token rq, sid)
      else ([], sid))"

definition resolve_session :: "int \<Rightarrow> string \<Rightarrow> id_db \<Rightarrow> (id_error, identity) res \<times> id_db" where
  "resolve_session now sid db =
     (if sid = [] then (Inl Unauthorized, db)
      else case get_web_session sid db of
             None \<Rightarrow> (Inl Unauthorized, db)
           | Some s \<Rightarrow>
               (if now > wb_expires s then (Inl Unauthorized, delete_web_session sid db)
                else case get_user (wb_user s) db of
                       None \<Rightarrow> (Inl Unauthorized, db)
                     | Some u \<Rightarrow>
                         (if ur_status u \<noteq> ''active'' then (Inl Unauthorized, db)
                          else (Inr \<lparr>idn_user = ur_id u, idn_role = ur_role u, idn_method = ''session'', idn_key = [],
                                     idn_agents = []\<rparr>, db))))"

definition resolve_bearer :: "crypto \<Rightarrow> string \<Rightarrow> id_db \<Rightarrow> (id_error, identity) res" where
  "resolve_bearer cr token db =
     (case lookup_by_token cr token db of
        Inl _ \<Rightarrow> Inl Unauthorized
      | Inr (k, u, agents) \<Rightarrow>
          Inr \<lparr>idn_user = ur_id u, idn_role = ur_role u, idn_method = ''apikey'', idn_key = ak_id k,
               idn_agents = agents\<rparr>)"

definition resolve_request :: "crypto \<Rightarrow> int \<Rightarrow> request \<Rightarrow> id_db \<Rightarrow> (id_error, identity) res \<times> id_db" where
  "resolve_request cr now rq db =
     (case extract_credentials rq of
        (bearer, sid) \<Rightarrow>
          (case (if sid \<noteq> [] then resolve_session now sid db else (Inl Unauthorized, db)) of
             (Inr i, db1) \<Rightarrow> (Inr i, db1)
           | (Inl _, db1) \<Rightarrow>
               (if bearer \<noteq> []
                then (case resolve_bearer cr bearer db1 of Inr i \<Rightarrow> (Inr i, db1) | Inl _ \<Rightarrow> (Inl Unauthorized, db1))
                else (Inl Unauthorized, db1))))"

text \<open>The gates answer 401, 403 or the handler's status; the owner gate 404 for an unknown agent.\<close>

definition require_super_admin :: "identity option \<Rightarrow> bool" where
  "require_super_admin i = (case i of None \<Rightarrow> False | Some x \<Rightarrow> idn_role x = ''super_admin'')"

definition require_platform_admin :: "identity option \<Rightarrow> bool" where
  "require_platform_admin i = (case i of None \<Rightarrow> False | Some x \<Rightarrow> can_admin_platform x)"

definition require_user_or_admin :: "identity option \<Rightarrow> string \<Rightarrow> bool" where
  "require_user_or_admin i u =
     (case i of None \<Rightarrow> False | Some x \<Rightarrow> u \<noteq> [] \<and> (u = idn_user x \<or> can_admin_platform x))"

definition require_agent_owner :: "identity option \<Rightarrow> string \<Rightarrow> id_db \<Rightarrow> bool" where
  "require_agent_owner i agent db = (agent \<in> set (db_agents db))"

section \<open>Handlers of keys and passwords\<close>

definition validate_agent_scope :: "string list \<Rightarrow> id_db \<Rightarrow> bool" where
  "validate_agent_scope agents db = list_all (\<lambda>a. a \<in> set (db_agents db)) agents"

definition handle_create_apikey ::
  "crypto \<Rightarrow> string \<Rightarrow> string \<Rightarrow> identity option \<Rightarrow> string \<Rightarrow> string list \<Rightarrow> id_db \<Rightarrow> int \<times> id_db" where
  "handle_create_apikey cr i token caller name agents db =
     (case caller of
        None \<Rightarrow> (403, db)
      | Some x \<Rightarrow>
          (if \<not> validate_agent_scope agents db then (400, db)
           else case create_apikey cr i token (idn_user x) name ''admin'' agents db of
                  Inl _ \<Rightarrow> (400, db) | Inr db' \<Rightarrow> (201, db')))"

definition handle_create_user_apikey ::
  "crypto \<Rightarrow> string \<Rightarrow> string \<Rightarrow> identity option \<Rightarrow> string \<Rightarrow> string \<Rightarrow> string list \<Rightarrow> id_db \<Rightarrow> int \<times> id_db" where
  "handle_create_user_apikey cr i token caller u name agents db =
     (if \<not> require_user_or_admin caller u then ((if caller = None then 401 else if u = [] then 400 else 403), db)
      else if get_user u db = None then (404, db)
      else if \<not> validate_agent_scope agents db then (400, db)
      else case create_apikey cr i token u name ''admin'' agents db of
             Inl _ \<Rightarrow> (400, db) | Inr db' \<Rightarrow> (201, db'))"

text \<open>What deletion and rotation check: the caller owns the key or has the role of an administrator.\<close>

definition may_manage_key :: "identity option \<Rightarrow> string \<Rightarrow> id_db \<Rightarrow> int" where
  "may_manage_key caller i db =
     (case caller of
        None \<Rightarrow> 403
      | Some x \<Rightarrow>
          (case get_apikey i db of
             None \<Rightarrow> 404
           | Some k \<Rightarrow> if ak_user k \<noteq> idn_user x \<and> idn_role x \<noteq> ''super_admin'' then 403 else 200))"

definition handle_delete_apikey :: "identity option \<Rightarrow> string \<Rightarrow> id_db \<Rightarrow> int \<times> id_db" where
  "handle_delete_apikey caller i db =
     (let st = may_manage_key caller i db in if st = 200 then (200, delete_apikey i db) else (st, db))"

definition handle_rotate_apikey :: "crypto \<Rightarrow> string \<Rightarrow> identity option \<Rightarrow> string \<Rightarrow> id_db \<Rightarrow> int \<times> id_db" where
  "handle_rotate_apikey cr token caller i db =
     (let st = may_manage_key caller i db in if st = 200 then (200, rotate_apikey cr i token db) else (st, db))"

definition handle_change_password ::
  "crypto \<Rightarrow> string \<Rightarrow> identity option \<Rightarrow> string option \<Rightarrow> string \<Rightarrow> string \<Rightarrow> id_db \<Rightarrow> int \<times> id_db" where
  "handle_change_password cr salt caller cookie old new db =
     (case caller of
        None \<Rightarrow> (403, db)
      | Some x \<Rightarrow>
          (if new = [] then (400, db)
           else if \<not> verify_password cr (idn_user x) old db then (401, db)
           else case set_password cr salt (idn_user x) new db of
                  Inl _ \<Rightarrow> (400, db)
                | Inr db1 \<Rightarrow>
                    (200, delete_web_sessions_by_user_except (idn_user x)
                            (case cookie of Some c \<Rightarrow> c | None \<Rightarrow> []) db1)))"

definition handle_logout :: "request \<Rightarrow> id_db \<Rightarrow> int \<times> id_db" where
  "handle_logout rq db =
     (case rq_cookie rq of None \<Rightarrow> (200, db) | Some sid \<Rightarrow> (200, delete_web_session sid db))"

section \<open>Login and its limit\<close>

definition login_max_attempts :: int where "login_max_attempts = 10"
definition login_window :: int where "login_window = 5 * minute"

type_synonym login_fails = "string \<Rightarrow> int list option"

definition login_key :: "string \<Rightarrow> string \<Rightarrow> string" where
  "login_key ip login = ip @ ''|'' @ login"

definition login_allowed :: "int \<Rightarrow> string \<Rightarrow> login_fails \<Rightarrow> login_fails \<times> bool" where
  "login_allowed now k m =
     (let ts = prune (now - login_window) (entries_of m k) in (m(k \<mapsto> ts), int (length ts) < login_max_attempts))"

definition login_failed :: "int \<Rightarrow> string \<Rightarrow> login_fails \<Rightarrow> login_fails" where
  "login_failed now k m = m(k \<mapsto> entries_of m k @ [now])"

definition login_succeeded :: "string \<Rightarrow> login_fails \<Rightarrow> login_fails" where
  "login_succeeded k m = m(k := None)"

record login_state =
  lg_db :: id_db
  lg_fails :: login_fails

text \<open>A login: the clock is read before the password is checked and, on a failure, after it.\<close>

record login_request =
  lr_ip :: string
  lr_login :: string
  lr_password :: string
  lr_time :: int
  lr_delay :: nat
  lr_sid :: string

definition handle_login :: "crypto \<Rightarrow> login_request \<Rightarrow> login_state \<Rightarrow> int \<times> login_state" where
  "handle_login cr r s =
     (let k = login_key (lr_ip r) (lr_login r) in
      case login_allowed (lr_time r) k (lg_fails s) of
        (m, False) \<Rightarrow> (429, s\<lparr>lg_fails := m\<rparr>)
      | (m, True) \<Rightarrow>
          (case authenticate cr (lr_login r) (lr_password r) (lg_db s) of
             Inl _ \<Rightarrow> (401, s\<lparr>lg_fails := login_failed (lr_time r + int (lr_delay r)) k m\<rparr>)
           | Inr u \<Rightarrow>
               (let s1 = s\<lparr>lg_fails := login_succeeded k m\<rparr> in
                case issue_session (lr_time r + int (lr_delay r)) (lr_sid r) (ur_id u) (lg_db s) of
                  Inl _ \<Rightarrow> (500, s1)
                | Inr db \<Rightarrow> (200, s1\<lparr>lg_db := db\<rparr>))))"

fun login_run :: "crypto \<Rightarrow> login_request list \<Rightarrow> login_state \<Rightarrow> login_state \<times> (login_request \<times> int) list" where
  "login_run cr [] s = (s, [])"
| "login_run cr (r # rs) s =
     (case handle_login cr r s of
        (st, s1) \<Rightarrow> (case login_run cr rs s1 of (s2, out) \<Rightarrow> (s2, (r, st) # out)))"

section \<open>The limit holds for every key\<close>

definition login_attempt :: "int \<times> nat \<Rightarrow> string \<Rightarrow> login_fails \<Rightarrow> login_fails \<times> bool" where
  "login_attempt c k m =
     (case login_allowed (fst c) k m of
        (m', ok) \<Rightarrow> (if ok then login_failed (fst c + int (snd c)) k m' else m', ok))"

interpretation logins: attempt_window entries_of login_attempt fst "\<lambda>c. fst c + int (snd c)" login_window login_max_attempts
  by unfold_locales
    (auto simp: login_attempt_def login_allowed_def login_failed_def entries_of_def Let_def login_window_def
      minute_def second_def)

fun sequential :: "int \<Rightarrow> login_request list \<Rightarrow> bool" where
  "sequential now [] = True"
| "sequential now (r # rs) = (now \<le> lr_time r \<and> sequential (lr_time r + int (lr_delay r)) rs)"

definition key_of :: "login_request \<Rightarrow> string" where
  "key_of r = login_key (lr_ip r) (lr_login r)"

definition failure_times :: "string \<Rightarrow> (login_request \<times> int) list \<Rightarrow> int list" where
  "failure_times k out =
     map (\<lambda>(r, _). lr_time r + int (lr_delay r)) (List.filter (\<lambda>(r, st). key_of r = k \<and> st = 401) out)"

definition no_success :: "string \<Rightarrow> (login_request \<times> int) list \<Rightarrow> bool" where
  "no_success k out = list_all (\<lambda>(r, st). key_of r = k \<longrightarrow> st = 401 \<or> st = 429) out"

lemma handle_login_fails:
  assumes "fst (handle_login cr r s) = 401 \<or> fst (handle_login cr r s) = 429"
  shows "lg_fails (snd (handle_login cr r s)) = fst (login_attempt (lr_time r, lr_delay r) (key_of r) (lg_fails s))
    \<and> (fst (handle_login cr r s) = 401) = snd (login_attempt (lr_time r, lr_delay r) (key_of r) (lg_fails s))"
  using assms
  by (auto simp: handle_login_def login_attempt_def key_of_def Let_def split: prod.splits bool.splits sum.splits)

lemma handle_login_other:
  assumes "key_of r \<noteq> k"
  shows "entries_of (lg_fails (snd (handle_login cr r s))) k = entries_of (lg_fails s) k"
  using assms
  by (auto simp: handle_login_def login_allowed_def login_failed_def login_succeeded_def key_of_def entries_of_def Let_def
      split: bool.splits sum.splits)

lemma login_run_safe:
  assumes "logins.safe now past (entries_of (lg_fails s) k)" and "sequential now rs"
    and "no_success k (snd (login_run cr rs s))"
  shows "window_bounded login_window login_max_attempts (past @ failure_times k (snd (login_run cr rs s)))"
  using assms
proof (induction rs arbitrary: now past s)
  case Nil
  then show ?case by (simp add: logins.safe_def failure_times_def)
next
  case (Cons r rs)
  obtain st s1 where h: "handle_login cr r s = (st, s1)" by (cases "handle_login cr r s")
  let ?t = "lr_time r + int (lr_delay r)" and ?c = "(lr_time r, lr_delay r)"
  from Cons.prems(2) have le: "now \<le> lr_time r" and rest: "sequential ?t rs" by simp_all
  from Cons.prems(3) have ns: "no_success k (snd (login_run cr rs s1))" and
    mine: "key_of r = k \<Longrightarrow> st = 401 \<or> st = 429"
    by (auto simp: no_success_def h split: prod.splits)
  let ?past = "if key_of r = k \<and> st = 401 then past @ [?t] else past"
  have "logins.safe ?t ?past (entries_of (lg_fails s1) k)"
  proof (cases "key_of r = k")
    case True
    with handle_login_fails [of cr r s] mine h have "lg_fails s1 = fst (login_attempt ?c k (lg_fails s))"
      "(st = 401) = snd (login_attempt ?c k (lg_fails s))" by auto
    with logins.safe_attempt [OF Cons.prems(1), of ?c] le True show ?thesis by (auto split: if_splits)
  next
    case False
    with handle_login_other [OF False, of cr s] h logins.safe_later [OF Cons.prems(1), of ?t] le show ?thesis by simp
  qed
  from Cons.IH [OF this rest ns] show ?case
    by (auto simp: h failure_times_def split: prod.splits if_splits)
qed

text \<open>
  Logins handled one after the other: as long as none succeeds, at most ten fail within any five
  minutes for each pair of client address and login as typed.
\<close>
lemma failed_logins_bounded:
  assumes "sequential now rs" and "lg_fails s = (\<lambda>_. None)" and "no_success k (snd (login_run cr rs s))"
  shows "window_bounded login_window login_max_attempts (failure_times k (snd (login_run cr rs s)))"
proof -
  have "logins.safe now [] (entries_of (lg_fails s) k)"
    using logins.safe_start [of now] assms(2) by (simp add: entries_of_def login_max_attempts_def)
  from login_run_safe [OF this assms(1,3)] show ?thesis by simp
qed

definition toy_login :: "string \<Rightarrow> int \<Rightarrow> login_request" where
  "toy_login l t = \<lparr>lr_ip = ''1.2.3.4'', lr_login = l, lr_password = ''guess'', lr_time = t, lr_delay = 0, lr_sid = ''s''\<rparr>"

definition toy_state :: login_state where
  "toy_state = \<lparr>lg_db = toy_db, lg_fails = (\<lambda>_. None)\<rparr>"

theorem failed_logins_bounded_witness:
  "window_bounded login_window login_max_attempts
     (failure_times ''1.2.3.4|admin'' (snd (login_run toy_crypto (map (toy_login ''admin'') [0, 1]) toy_state)))
   \<and> map snd (snd (login_run toy_crypto (map (toy_login ''admin'') [0, 1]) toy_state)) = [401, 401]"
proof
  show "window_bounded login_window login_max_attempts
     (failure_times ''1.2.3.4|admin'' (snd (login_run toy_crypto (map (toy_login ''admin'') [0, 1]) toy_state)))"
  proof (rule failed_logins_bounded)
    show "sequential 0 (map (toy_login ''admin'') [0, 1])" by code_simp
    show "lg_fails toy_state = (\<lambda>_. None)" by (simp add: toy_state_def)
    show "no_success ''1.2.3.4|admin'' (snd (login_run toy_crypto (map (toy_login ''admin'') [0, 1]) toy_state))"
      by code_simp
  qed
qed code_simp

text \<open>
  The key holds the login as typed while the account is looked up by the trimmed login: with more
  and more spaces in front every guess is the first one for its key, and all are against the same
  account.
\<close>

lemma trim_space_spaces: "trim_space (replicate n (CHR '' '') @ l) = trim_space l"
proof (induction n)
  case (Suc n)
  have "byte (CHR '' '') < 128" "is_space (byte (CHR '' ''))" by code_simp+
  with Suc show ?case by (simp add: trim_space_def trim_left_Cons_ascii)
qed simp

lemma spaces_same_account: "authenticate cr (replicate n (CHR '' '') @ l) pw db = authenticate cr l pw db"
  by (simp add: authenticate_def trim_space_spaces Let_def)

definition spaced :: "login_request \<Rightarrow> nat \<Rightarrow> login_request" where
  "spaced r n = r\<lparr>lr_login := replicate n (CHR '' '') @ lr_login r\<rparr>"

lemma spaced_keys: "m \<noteq> n \<Longrightarrow> key_of (spaced r m) \<noteq> key_of (spaced r n)"
  by (auto simp: key_of_def login_key_def spaced_def dest: arg_cong [of _ _ length])

lemma handle_login_fresh:
  assumes "entries_of (lg_fails s) (key_of r) = []" and "authenticate cr (lr_login r) (lr_password r) (lg_db s) = Inl e"
  shows "fst (handle_login cr r s) = 401 \<and> lg_db (snd (handle_login cr r s)) = lg_db s"
  using assms
  by (simp add: handle_login_def login_allowed_def login_max_attempts_def prune_def key_of_def Let_def)

text \<open>
  No limit on the guesses of one client at one account: with one more space in front of the login for
  each of them, none is refused.
\<close>

lemma spaced_guesses_are_not_limited:
  assumes "authenticate cr (lr_login r) (lr_password r) (lg_db s) = Inl e"
    and "\<And>j. i \<le> j \<Longrightarrow> entries_of (lg_fails s) (key_of (spaced r j)) = []"
  shows "map snd (snd (login_run cr (map (spaced r) [i..<n]) s)) = replicate (n - i) 401"
  using assms
proof (induction "n - i" arbitrary: i s)
  case (Suc m)
  then have lt: "i < n" and m: "m = n - Suc i" by simp_all
  obtain st s1 where h: "handle_login cr (spaced r i) s = (st, s1)" by (cases "handle_login cr (spaced r i) s")
  have "authenticate cr (lr_login (spaced r i)) (lr_password (spaced r i)) (lg_db s) = Inl e"
    using Suc.prems(1) by (simp add: spaced_def spaces_same_account)
  from handle_login_fresh [OF _ this] Suc.prems(2) h have st: "st = 401" "lg_db s1 = lg_db s" by auto
  have "entries_of (lg_fails s1) (key_of (spaced r j)) = []" if "Suc i \<le> j" for j
  proof -
    from that have "key_of (spaced r i) \<noteq> key_of (spaced r j)" by (intro spaced_keys) simp
    from handle_login_other [OF this, of cr s] h Suc.prems(2) that show ?thesis by simp
  qed
  from Suc.hyps(1) [OF m, of s1] this Suc.prems(1) st(2)
  have "map snd (snd (login_run cr (map (spaced r) [Suc i..<n]) s1)) = replicate (n - Suc i) 401" by simp
  with lt h st(1) show ?case
    by (cases "login_run cr (map (spaced r) [Suc i..<n]) s1")
      (simp add: upt_conv_Cons Suc_diff_Suc [symmetric] del: upt_Suc)
qed simp

section \<open>What a resolved identity means\<close>

lemma find_append_None: "find P xs = None \<Longrightarrow> find P (xs @ ys) = find P ys"
  by (induction xs) (auto split: if_splits)

lemma get_user_Some: "get_user i db = Some u \<Longrightarrow> u \<in> set (db_users db) \<and> ur_id u = i"
  by (auto simp: get_user_def dest: find_Some)

definition backed_by :: "crypto \<Rightarrow> int \<Rightarrow> request \<Rightarrow> id_db \<Rightarrow> identity \<Rightarrow> bool" where
  "backed_by cr now rq db i =
     (\<exists>u\<in>set (db_users db). ur_id u = idn_user i \<and> ur_role u = idn_role i \<and> ur_status u = ''active''
        \<and> (idn_method i = ''session'' \<and> idn_agents i = []
              \<and> (\<exists>s\<in>set (db_sessions db). rq_cookie rq = Some (wb_sid s) \<and> wb_user s = ur_id u \<and> now \<le> wb_expires s)
           \<or> idn_method i = ''apikey''
              \<and> (\<exists>k\<in>set (db_apikeys db). ak_id k = idn_key i \<and> ak_user k = ur_id u
                    \<and> ak_hash k = cr_digest cr (fst (extract_credentials rq))
                    \<and> idn_agents i = parse_agent_scope (ak_scope k))))"

lemma resolve_session_Inr:
  assumes "resolve_session now sid db = (Inr i, db')"
  shows "\<exists>u s. u \<in> set (db_users db) \<and> ur_id u = idn_user i \<and> ur_role u = idn_role i \<and> ur_status u = ''active''
    \<and> idn_method i = ''session'' \<and> idn_agents i = [] \<and> s \<in> set (db_sessions db) \<and> wb_sid s = sid
    \<and> wb_user s = ur_id u \<and> now \<le> wb_expires s"
proof -
  obtain s u where s: "get_web_session sid db = Some s" "now \<le> wb_expires s"
    and u: "get_user (wb_user s) db = Some u" "ur_status u = ''active''"
    and i: "i = \<lparr>idn_user = ur_id u, idn_role = ur_role u, idn_method = ''session'', idn_key = [], idn_agents = []\<rparr>"
    using assms by (auto simp: resolve_session_def split: if_splits option.splits)
  have "s \<in> set (db_sessions db) \<and> wb_sid s = sid" using s(1) by (auto simp: get_web_session_def dest: find_Some)
  with s(2) get_user_Some [OF u(1)] u(2) i show ?thesis by (intro exI [of _ u] exI [of _ s]) simp
qed

lemma resolve_bearer_Inr:
  assumes "resolve_bearer cr token db = Inr i"
  shows "\<exists>u k. u \<in> set (db_users db) \<and> ur_id u = idn_user i \<and> ur_role u = idn_role i \<and> ur_status u = ''active''
    \<and> idn_method i = ''apikey'' \<and> k \<in> set (db_apikeys db) \<and> ak_id k = idn_key i \<and> ak_user k = ur_id u
    \<and> ak_hash k = cr_digest cr token \<and> idn_agents i = parse_agent_scope (ak_scope k)"
proof -
  obtain k u where k: "lookup_apikey_by_hash (cr_digest cr token) db = Some k"
    and u: "get_user (ak_user k) db = Some u" "ur_status u = ''active''"
    and i: "i = \<lparr>idn_user = ur_id u, idn_role = ur_role u, idn_method = ''apikey'', idn_key = ak_id k,
                 idn_agents = parse_agent_scope (ak_scope k)\<rparr>"
    using assms by (auto simp: resolve_bearer_def lookup_by_token_def split: if_splits option.splits sum.splits prod.splits)
  have "k \<in> set (db_apikeys db) \<and> ak_hash k = cr_digest cr token"
    using k by (auto simp: lookup_apikey_by_hash_def dest: find_Some)
  with get_user_Some [OF u(1)] u(2) i show ?thesis by (intro exI [of _ u] exI [of _ k]) simp
qed

lemma extract_cookie: "snd (extract_credentials rq) = (case rq_cookie rq of Some c \<Rightarrow> c | None \<Rightarrow> [])"
  by (simp add: extract_credentials_def Let_def)

lemma resolve_session_db:
  "resolve_session now sid db = (x, db') \<Longrightarrow> db' = db \<or> db' = delete_web_session sid db"
  by (auto simp: resolve_session_def split: if_splits option.splits)

text \<open>
  C38. A request gets an identity only from a stored credential: a session that has not expired or a
  key with the digest of the token, of an account that exists and is active; the identity has the
  role of that account and the agents of that key.
\<close>
theorem resolved_identity_is_backed:
  assumes "resolve_request cr now rq db = (Inr i, db')"
  shows "backed_by cr now rq db i"
proof -
  obtain bearer sid where x: "extract_credentials rq = (bearer, sid)" by (cases "extract_credentials rq")
  consider (session) "sid \<noteq> []" "\<exists>db1. resolve_session now sid db = (Inr i, db1)"
    | (bearer) db1 where "resolve_bearer cr bearer db1 = Inr i" "db1 = db \<or> db1 = delete_web_session sid db"
    using assms resolve_session_db
    by (auto simp: resolve_request_def x split: prod.splits sum.splits if_splits)
  then show ?thesis
  proof cases
    case session
    have "rq_cookie rq = Some sid" using extract_cookie [of rq] x session(1) by (auto split: option.splits)
    moreover obtain u w where "u \<in> set (db_users db)" "ur_id u = idn_user i" "ur_role u = idn_role i"
      "ur_status u = ''active''" "idn_method i = ''session''" "idn_agents i = []" "w \<in> set (db_sessions db)"
      "wb_sid w = sid" "wb_user w = ur_id u" "now \<le> wb_expires w"
      using session(2) resolve_session_Inr by blast
    ultimately show ?thesis unfolding backed_by_def by (intro bexI [of _ u] conjI disjI1 bexI [of _ w]) simp_all
  next
    case bearer
    have same: "db_users db1 = db_users db" "db_apikeys db1 = db_apikeys db"
      using bearer(2) by (auto simp: delete_web_session_def)
    obtain u k where "u \<in> set (db_users db)" "ur_id u = idn_user i" "ur_role u = idn_role i" "ur_status u = ''active''"
      "idn_method i = ''apikey''" "k \<in> set (db_apikeys db)" "ak_id k = idn_key i" "ak_user k = ur_id u"
      "ak_hash k = cr_digest cr bearer" "idn_agents i = parse_agent_scope (ak_scope k)"
      using resolve_bearer_Inr [OF bearer(1)] unfolding same by blast
    then show ?thesis
      unfolding backed_by_def by (intro bexI [of _ u] conjI disjI2 bexI [of _ k]) (simp_all add: x)
  qed
qed

text \<open>
  A key made for one agent is an administrator's key to the gates, and lets its holder issue a key
  for every agent.
\<close>

lemma key_identity_is_admin: "idn_method i = ''apikey'' \<Longrightarrow> require_platform_admin (Some i)"
  by (simp add: require_platform_admin_def can_admin_platform_def)

text \<open>
  The agents of a key do not confine it: an identity resolved from a key, whatever its agents,
  passes the owner's gate of every agent, and with it the handler of keys issues a key that may use
  every agent.
\<close>
lemma scoped_key_issues_full_key:
  assumes "idn_method x = ''apikey''" and "idn_user x \<noteq> []"
    and "\<not> list_ex (\<lambda>k. ak_id k = i) (db_apikeys db)"
  shows "\<exists>db' k. handle_create_apikey cr i token (Some x) name [] db = (201, db')
    \<and> get_apikey i db' = Some k \<and> ak_user k = idn_user x \<and> ak_hash k = cr_digest cr token
    \<and> parse_agent_scope (ak_scope k) = []"
proof -
  have "find (\<lambda>k. ak_id k = i) (db_apikeys db) = None"
    using assms(3) by (simp add: find_None_iff list_ex_iff)
  then have "find (\<lambda>k. ak_id k = i) (db_apikeys db @ [k]) = Some k" if "ak_id k = i" for k
    using that by (simp add: find_append_None)
  with assms show ?thesis
    by (simp add: handle_create_apikey_def validate_agent_scope_def create_apikey_def Let_def get_apikey_def
        format_agent_scope_def parse_agent_scope_def)
qed

lemma owner_gate_ignores_caller: "require_agent_owner i agent db = require_agent_owner j agent db"
  by (simp add: require_agent_owner_def)

text \<open>The super administrator's gate accepts every key of a super administrator's account.\<close>

lemma key_of_admin_is_super_admin:
  "idn_method i = ''apikey'' \<Longrightarrow> idn_role i = ''super_admin'' \<Longrightarrow> require_super_admin (Some i)"
  by (simp add: require_super_admin_def)

section \<open>Changes of credentials take effect\<close>

text \<open>After a change of the password no session of the account is left but the one that made it.\<close>

lemma password_change_evicts:
  assumes "handle_change_password cr salt (Some x) cookie old new db = (200, db')" and "sid \<noteq> []"
    and "cookie \<noteq> Some sid"
  shows "\<not> (\<exists>s\<in>set (db_sessions db'). wb_sid s = sid \<and> wb_user s = idn_user x)"
  using assms by (auto simp: handle_change_password_def delete_web_sessions_by_user_except_def
      split: if_splits sum.splits option.splits)

text \<open>After a rotation the old token of the key resolves no more, unless the digests collide.\<close>

lemma rotated_token_is_dead:
  assumes "distinct (map ak_hash (db_apikeys db))" and "k \<in> set (db_apikeys db)" and "ak_hash k = cr_digest cr old"
    and "cr_digest cr new \<noteq> cr_digest cr old" and "distinct (map ak_id (db_apikeys db))"
  shows "lookup_by_token cr old (rotate_apikey cr (ak_id k) new db) = Inl InvalidCredentials"
proof -
  have "ak_hash l \<noteq> cr_digest cr old" if "l \<in> set (db_apikeys (rotate_apikey cr (ak_id k) new db))" for l
  proof
    assume h: "ak_hash l = cr_digest cr old"
    from that obtain l0 where l0: "l0 \<in> set (db_apikeys db)"
      "l = (if ak_id l0 = ak_id k then l0\<lparr>ak_hash := cr_digest cr new, ak_prefix := key_prefix new\<rparr> else l0)"
      by (auto simp: rotate_apikey_def)
    with h assms(4) have "ak_id l0 \<noteq> ak_id k" "ak_hash l0 = ak_hash k" by (auto simp: assms(3) split: if_splits)
    with assms(1,2) l0(1) show False by (auto simp: distinct_map inj_on_def)
  qed
  then have "lookup_apikey_by_hash (cr_digest cr old) (rotate_apikey cr (ak_id k) new db) = None"
    by (auto simp: lookup_apikey_by_hash_def find_None_iff)
  then show ?thesis by (simp add: lookup_by_token_def)
qed

text \<open>The column of a key's agents reads back as their list.\<close>

lemma agent_scope_round_trip:
  assumes "\<And>a. a \<in> set ids \<Longrightarrow> a \<noteq> [] \<and> CHR '','' \<notin> set a"
  shows "parse_agent_scope (format_agent_scope ids) = ids"
proof (cases ids)
  case Nil
  then show ?thesis by (simp add: parse_agent_scope_def format_agent_scope_def)
next
  case (Cons a as)
  then have ne: "ids \<noteq> []" by simp
  then have sp: "split_str (join_str ids '','') '','' = ids"
    using assms split_join_char [of ids "CHR '',''"] by auto
  have "join_str ids '','' \<noteq> []" using assms Cons by (cases as) (auto simp: join_str_Cons)
  moreover have "List.filter (\<lambda>p. p \<noteq> []) ids = ids" using assms by (simp add: filter_id_conv)
  ultimately show ?thesis using sp by (simp add: parse_agent_scope_def format_agent_scope_def)
qed

section \<open>Examples\<close>

definition toy_key_db :: id_db where
  "toy_key_db =
     toy_db\<lparr>db_sessions := [\<lparr>wb_sid = ''c'', wb_user = ''u1'', wb_expires = 10\<rparr>],
            db_apikeys := [\<lparr>ak_id = ''k1'', ak_user = ''u1'', ak_name = [], ak_hash = ''#fc_1'', ak_prefix = ''fc_1'',
                            ak_type = ''admin'', ak_scope = ''a1''\<rparr>]\<rparr>"

definition toy_request :: request where
  "toy_request =
     \<lparr>rq_method = ''GET'', rq_path = ''/api/agents'', rq_cookie = None, rq_auth = ''Bearer fc_1'', rq_token = []\<rparr>"

definition toy_identity :: identity where
  "toy_identity =
     \<lparr>idn_user = ''u1'', idn_role = ''super_admin'', idn_method = ''apikey'', idn_key = ''k1'', idn_agents = [''a1'']\<rparr>"

lemma toy_resolves: "resolve_request toy_crypto 5 toy_request toy_key_db = (Inr toy_identity, toy_key_db)"
  by code_simp

theorem resolved_identity_is_backed_witness:
  "backed_by toy_crypto 5 toy_request toy_key_db toy_identity"
  by (rule resolved_identity_is_backed [OF toy_resolves])

theorem scoped_key_issues_full_key_witness:
  "\<exists>db' k. handle_create_apikey toy_crypto ''k2'' ''fc_2'' (Some toy_identity) ''n'' [] toy_key_db = (201, db')
    \<and> get_apikey ''k2'' db' = Some k \<and> ak_user k = idn_user toy_identity \<and> ak_hash k = cr_digest toy_crypto ''fc_2''
    \<and> parse_agent_scope (ak_scope k) = []"
proof (rule scoped_key_issues_full_key)
  show "idn_method toy_identity = ''apikey''" "idn_user toy_identity \<noteq> []"
    "\<not> list_ex (\<lambda>k. ak_id k = ''k2'') (db_apikeys toy_key_db)"
    by code_simp+
qed

end
