(* ===== verification/Session_Messages.thy ===== *)
theory Session_Messages
  imports Go_Values
begin

text \<open>
  Messages of a conversation (\<^verbatim>\<open>internal/provider/provider.go\<close>), the pairing of tool calls
  with their results that providers require, and the compaction of a history
  (\<^verbatim>\<open>internal/agent/compaction.go\<close>). The byte \<^verbatim>\<open>len\<close> of a Go string is the length
  of the byte list.
\<close>

section \<open>Messages\<close>

record message_call =
  tcl_id :: string
  tcl_name :: string
  tcl_args :: string

record content_part =
  cpt_type :: string
  cpt_text :: string
  cpt_url :: string

record message =
  mg_role :: string
  mg_content :: string
  mg_parts :: "content_part list"
  mg_calls :: "message_call list"
  mg_call_id :: string
  mg_name :: string
  mg_thinking :: string
  mg_timestamp :: int   \<comment> \<open>Unix milliseconds, 0 for none\<close>
  mg_meta :: gomap
  mg_raw :: string
  mg_origin :: string
  mg_provider :: string
  mg_model :: string
  mg_seq :: int

definition blank_message :: "string \<Rightarrow> string \<Rightarrow> message" where
  "blank_message role content =
     \<lparr>mg_role = role, mg_content = content, mg_parts = [], mg_calls = [], mg_call_id = [], mg_name = [],
      mg_thinking = [], mg_timestamp = 0, mg_meta = None, mg_raw = [], mg_origin = [], mg_provider = [], mg_model = [], mg_seq = 0\<rparr>"

definition is_turn_marker :: "string \<Rightarrow> bool" where
  "is_turn_marker origin = (origin = ''turn_abort'' \<or> origin = ''turn_error'')"

definition is_tool :: "message \<Rightarrow> bool" where
  "is_tool m = (mg_role m = ''tool'')"

definition genuine_user :: "message \<Rightarrow> bool" where
  "genuine_user m = (mg_role m = ''user'' \<and> mg_origin m = [])"

section \<open>Pairing\<close>

text \<open>
  The calls an assistant message opens, and what is still open after a history. Providers reject a
  history in which a tool message answers no open call, or another message comes before every
  open call has its answer; for such a history the result is \<^verbatim>\<open>None\<close>.
\<close>

definition opened :: "message \<Rightarrow> string list" where
  "opened m = (if mg_role m = ''assistant'' then map tcl_id (mg_calls m) else [])"

fun pending_after :: "string list \<Rightarrow> message list \<Rightarrow> string list option" where
  "pending_after ids [] = Some ids"
| "pending_after ids (m # ms) =
     (if is_tool m
      then (if mg_call_id m \<in> set ids then pending_after (List.filter (\<lambda>i. i \<noteq> mg_call_id m) ids) ms else None)
      else if ids = [] then pending_after (opened m) ms else None)"

definition well_paired :: "message list \<Rightarrow> bool" where
  "well_paired ms = (pending_after [] ms = Some [])"

lemma pending_after_append:
  "pending_after ids (xs @ ys) = (case pending_after ids xs of None \<Rightarrow> None | Some ids' \<Rightarrow> pending_after ids' ys)"
  by (induction ids xs rule: pending_after.induct) auto

text \<open>A well-paired history can be cut in front of every message that is not a tool message.\<close>

lemma cut_well_paired:
  assumes "pending_after [] (xs @ ys) = Some ids" and "ys = [] \<Longrightarrow> ids = []" and "ys \<noteq> [] \<Longrightarrow> \<not> is_tool (hd ys)"
  shows "pending_after [] xs = Some [] \<and> pending_after [] ys = Some ids"
proof -
  obtain o1 where o1: "pending_after [] xs = Some o1" "pending_after o1 ys = Some ids"
    using assms(1) by (auto simp: pending_after_append split: option.splits)
  with assms(2,3) have "o1 = []" by (cases ys) (auto split: if_splits)
  with o1 show ?thesis by simp
qed

text \<open>Pairing looks at roles, calls and call ids only.\<close>

definition same_shape :: "message \<Rightarrow> message \<Rightarrow> bool" where
  "same_shape m n = (is_tool m = is_tool n \<and> opened m = opened n \<and> mg_call_id m = mg_call_id n)"

lemma pending_after_same_shape:
  "list_all2 same_shape ms ns \<Longrightarrow> pending_after ids ns = pending_after ids ms"
  by (induction ms ns arbitrary: ids rule: list_all2_induct) (auto simp: same_shape_def)

section \<open>Compaction\<close>

definition default_token_threshold :: int where "default_token_threshold = 80000"
definition prune_turn_age :: nat where "prune_turn_age = 20"
definition min_user_messages_in_tail :: nat where "min_user_messages_in_tail = 6"
definition max_tail_messages :: nat where "max_tail_messages = 2 * prune_turn_age"
definition max_retained_tool_result_bytes :: nat where "max_retained_tool_result_bytes = 16384"

definition truncated_placeholder :: string where
  "truncated_placeholder = ''[Result truncated - see memory logs]''"

definition mode_margin_pct :: "string \<Rightarrow> int" where
  "mode_margin_pct mode = (if mode = ''conservative'' then 30 else if mode = ''aggressive'' then 10 else 15)"

text \<open>Go's division truncates; the arguments are not negative where it is used.\<close>

definition compute_threshold :: "int \<Rightarrow> int \<Rightarrow> int \<Rightarrow> int \<Rightarrow> string \<Rightarrow> int" where
  "compute_threshold manual window sys_tokens max_tokens mode =
     (if manual > 0 then
        (let upper = window - max_tokens in if upper > 0 \<and> manual > upper then upper else manual)
      else if window > 0 then
        (let margin = window * mode_margin_pct mode div 100 in max 1000 (window - sys_tokens - max_tokens - margin))
      else default_token_threshold)"

definition estimate_message :: "message \<Rightarrow> int" where
  "estimate_message m =
     int (length (mg_content m) div 4)
     + sum_list (map (\<lambda>c. int (length (tcl_args c) div 4) + int (length (tcl_name c) div 4)) (mg_calls m))"

definition estimate_tokens :: "message list \<Rightarrow> int" where
  "estimate_tokens ms = sum_list (map estimate_message ms)"

definition safe_compaction_cutoff :: "message list \<Rightarrow> nat \<Rightarrow> nat" where
  "safe_compaction_cutoff ms cutoff = cutoff + length (takeWhile is_tool (drop cutoff ms))"

text \<open>The loop that moves the cutoff towards the start.\<close>

function extend_tail :: "message list \<Rightarrow> nat \<Rightarrow> nat \<Rightarrow> nat \<Rightarrow> nat" where
  "extend_tail ms floor cutoff users =
     (if cutoff > floor \<and> users < min_user_messages_in_tail
      then extend_tail ms floor (cutoff - 1) (if genuine_user (ms ! (cutoff - 1)) then Suc users else users)
      else cutoff)"
  by pat_completeness auto
termination by (relation "measure (\<lambda>(_, _, cutoff, _). cutoff)") auto

declare extend_tail.simps [simp del]

definition user_aware_cutoff :: "message list \<Rightarrow> nat \<Rightarrow> nat" where
  "user_aware_cutoff ms base =
     (let users = length (List.filter genuine_user (drop base ms)) in
      if users \<ge> min_user_messages_in_tail then base
      else extend_tail ms (length ms - max_tail_messages) base users)"

definition prune_old :: "message \<Rightarrow> message" where
  "prune_old m =
     (if is_tool m \<and> length (mg_content m) > 200
      then (blank_message ''tool'' truncated_placeholder)\<lparr>mg_call_id := mg_call_id m, mg_name := mg_name m\<rparr> else m)"

definition cap_recent :: "message \<Rightarrow> message" where
  "cap_recent m =
     (if is_tool m \<and> length (mg_content m) > max_retained_tool_result_bytes
      then m\<lparr>mg_content := take max_retained_tool_result_bytes (mg_content m)
                @ [CHR 0x0A] @ ''[... result truncated to keep context under model limit ...]''\<rparr> else m)"

definition prune_old_tool_results :: "message list \<Rightarrow> message list" where
  "prune_old_tool_results ms =
     (let cutoff = user_aware_cutoff ms (length ms - prune_turn_age) in
      map prune_old (take cutoff ms) @ map cap_recent (drop cutoff ms))"

text \<open>
  The summary is the answer of the model: from the prompt text to the content of its reply, or
  \<^verbatim>\<open>None\<close> when the call fails.
\<close>

definition summary_text :: "message list \<Rightarrow> string" where
  "summary_text older =
     concat (map (\<lambda>m. ''['' @ mg_role m @ ''] '' @ mg_content m @ [CHR 0x0A]) (List.filter (\<lambda>m. mg_origin m = []) older))"

definition compress_older_messages :: "(string \<Rightarrow> string option) \<Rightarrow> message list \<Rightarrow> message list option" where
  "compress_older_messages chat ms =
     (if length ms \<le> prune_turn_age then Some ms
      else
        (let cutoff = safe_compaction_cutoff ms (user_aware_cutoff ms (length ms - prune_turn_age)) in
         case chat (summary_text (take cutoff ms)) of
           None \<Rightarrow> None
         | Some reply \<Rightarrow>
             Some (blank_message ''user'' (''[Conversation Summary]'' @ [CHR 0x0A] @ reply) # drop cutoff ms)))"

record compact_result =
  cr_messages :: "message list"
  cr_pruned :: bool
  cr_before :: int
  cr_after :: int

definition compact_messages :: "(string \<Rightarrow> string option) \<Rightarrow> int \<Rightarrow> message list \<Rightarrow> compact_result" where
  "compact_messages chat threshold ms =
     (let tokens = estimate_tokens ms; limit = (if threshold \<le> 0 then default_token_threshold else threshold) in
      if tokens < limit then \<lparr>cr_messages = ms, cr_pruned = False, cr_before = tokens, cr_after = tokens\<rparr>
      else
        (let pruned = prune_old_tool_results ms; ptokens = estimate_tokens pruned;
             keep = \<lparr>cr_messages = pruned, cr_pruned = True, cr_before = tokens, cr_after = ptokens\<rparr> in
         if ptokens < limit then keep
         else case compress_older_messages chat pruned of
                None \<Rightarrow> keep
              | Some c \<Rightarrow> \<lparr>cr_messages = c, cr_pruned = True, cr_before = tokens, cr_after = estimate_tokens c\<rparr>))"

section \<open>Properties of compaction\<close>

lemma extend_tail_bounds: "extend_tail ms floor cutoff users \<le> cutoff \<and> (floor \<le> cutoff \<longrightarrow> floor \<le> extend_tail ms floor cutoff users)"
proof (induction ms floor cutoff users rule: extend_tail.induct)
  case (1 ms floor cutoff users)
  then show ?case by (subst (1 2) extend_tail.simps) fastforce
qed

lemma user_aware_cutoff_bounds:
  assumes "base \<le> length ms" and "length ms - base \<le> max_tail_messages"
  shows "user_aware_cutoff ms base \<le> base \<and> length ms - user_aware_cutoff ms base \<le> max_tail_messages"
  using assms extend_tail_bounds [of ms "length ms - max_tail_messages" base "length (List.filter genuine_user (drop base ms))"]
  by (auto simp: user_aware_cutoff_def Let_def)

lemma safe_cutoff_head:
  "safe_compaction_cutoff ms c \<ge> length ms \<or> \<not> is_tool (hd (drop (safe_compaction_cutoff ms c) ms))"
proof -
  have "drop (safe_compaction_cutoff ms c) ms = dropWhile is_tool (drop c ms)"
    by (simp add: safe_compaction_cutoff_def dropWhile_eq_drop drop_drop add.commute)
  then show ?thesis by (metis drop_eq_Nil2 hd_dropWhile)
qed

lemma prune_same_shape: "list_all2 same_shape ms (prune_old_tool_results ms)"
proof -
  have "same_shape m (prune_old m)" "same_shape m (cap_recent m)" for m
    by (auto simp: same_shape_def prune_old_def cap_recent_def blank_message_def is_tool_def opened_def)
  then have "list_all2 same_shape xs (map prune_old xs)" "list_all2 same_shape xs (map cap_recent xs)" for xs
    by (simp_all add: list_all2_conv_all_nth)
  then have "list_all2 same_shape (take c ms @ drop c ms) (map prune_old (take c ms) @ map cap_recent (drop c ms))" for c
    by (intro list_all2_appendI)
  then show ?thesis by (simp add: prune_old_tool_results_def Let_def)
qed

lemma compress_paired:
  assumes "compress_older_messages chat ms = Some c" and "well_paired ms"
  shows "well_paired c"
proof (cases "length ms \<le> prune_turn_age")
  case True
  with assms show ?thesis by (simp add: compress_older_messages_def)
next
  case False
  let ?c = "safe_compaction_cutoff ms (user_aware_cutoff ms (length ms - prune_turn_age))"
  obtain reply where c: "c = blank_message ''user'' reply # drop ?c ms"
    using assms(1) False by (auto simp: compress_older_messages_def Let_def split: option.splits)
  have "pending_after [] (take ?c ms @ drop ?c ms) = Some []" using assms(2) by (simp add: well_paired_def)
  from cut_well_paired [OF this] safe_cutoff_head [of ms "user_aware_cutoff ms (length ms - prune_turn_age)"]
  have "pending_after [] (drop ?c ms) = Some []" by fastforce
  then show ?thesis by (simp add: c well_paired_def blank_message_def is_tool_def opened_def)
qed

lemma compress_length:
  assumes "compress_older_messages chat ms = Some c" and "prune_turn_age < length ms"
  shows "length c \<le> Suc max_tail_messages"
proof -
  let ?u = "user_aware_cutoff ms (length ms - prune_turn_age)"
  have "length ms - ?u \<le> max_tail_messages"
    using user_aware_cutoff_bounds [of "length ms - prune_turn_age" ms] by (simp add: max_tail_messages_def)
  moreover have "?u \<le> safe_compaction_cutoff ms ?u" by (simp add: safe_compaction_cutoff_def)
  ultimately have "length ms - safe_compaction_cutoff ms ?u \<le> max_tail_messages" by linarith
  with assms show ?thesis by (auto simp: compress_older_messages_def Let_def split: option.splits)
qed

lemma prune_length [simp]: "length (prune_old_tool_results ms) = length ms"
  using prune_same_shape by (metis list_all2_lengthD)

lemma prune_paired: "well_paired ms \<Longrightarrow> well_paired (prune_old_tool_results ms)"
  using pending_after_same_shape [OF prune_same_shape] by (simp add: well_paired_def)

lemma compact_messages_paired: "well_paired ms \<Longrightarrow> well_paired (cr_messages (compact_messages chat threshold ms))"
  using prune_paired compress_paired by (auto simp: compact_messages_def Let_def split: option.split)

text \<open>
  C6. Compaction keeps the pairing of calls and results, whatever the summary; and unless the model
  fails to give one or pruning alone is enough, at most the summary and forty messages are left.
\<close>
theorem compaction_keeps_pairing:
  assumes "well_paired ms"
  shows "well_paired (cr_messages (compact_messages chat threshold ms))
    \<and> (let limit = (if threshold \<le> 0 then default_token_threshold else threshold);
           r = compact_messages chat threshold ms
       in length (cr_messages r) \<le> Suc max_tail_messages \<or> cr_after r < limit \<or> (\<exists>prompt. chat prompt = None))"
proof -
  let ?p = "prune_old_tool_results ms"
  note p = prune_paired [OF assms]
  have small: "length ms \<le> prune_turn_age \<Longrightarrow> length ms \<le> Suc max_tail_messages" by (simp add: max_tail_messages_def)
  have fails: "compress_older_messages chat ?p = None \<Longrightarrow> \<exists>prompt. chat prompt = None"
    by (auto simp: compress_older_messages_def Let_def split: if_splits option.splits)
  show ?thesis
  proof (cases "compress_older_messages chat ?p")
    case None
    with compact_messages_paired [OF assms] p fails show ?thesis by (auto simp: compact_messages_def Let_def)
  next
    case (Some c)
    have "length c \<le> Suc max_tail_messages"
    proof (cases "length ms \<le> prune_turn_age")
      case True
      with Some have "c = ?p" by (simp add: compress_older_messages_def)
      with True small show ?thesis by simp
    next
      case False
      with compress_length [OF Some] show ?thesis by simp
    qed
    with Some assms p compress_paired [OF Some p] show ?thesis by (auto simp: compact_messages_def Let_def)
  qed
qed

text \<open>A history of twenty-five messages whose first call is answered right behind it.\<close>

definition sample_history :: "message list" where
  "sample_history =
     [(blank_message ''assistant'' [])\<lparr>mg_calls := [\<lparr>tcl_id = ''c'', tcl_name = ''exec'', tcl_args = []\<rparr>]\<rparr>,
      (blank_message ''tool'' ''ok'')\<lparr>mg_call_id := ''c''\<rparr>] @ replicate 23 (blank_message ''user'' ''x'')"

theorem compaction_keeps_pairing_witness:
  "well_paired sample_history
   \<and> well_paired (cr_messages (compact_messages (\<lambda>_. Some ''brief'') 1 sample_history))"
proof -
  have "well_paired sample_history"
    by (simp add: sample_history_def well_paired_def blank_message_def is_tool_def opened_def numeral_eq_Suc)
  with compaction_keeps_pairing [OF this] show ?thesis by blast
qed

end
