(* ===== verification/Session_Store.thy ===== *)
theory Session_Store
  imports Session_Messages
begin

text \<open>
  The rows of a session (\<^verbatim>\<open>internal/store/database.go\<close>): the working set in \<^verbatim>\<open>sessions\<close>, the
  archive in \<^verbatim>\<open>session_messages\<close> and the stream of deltas in \<^verbatim>\<open>session_events\<close>, with the
  conversion of messages from \<^verbatim>\<open>internal/session/store_adapter.go\<close>. Every statement filters by
  the agent, so a state holds the rows of one agent. A statement does not fail; \<^verbatim>\<open>now\<close> is the
  clock in milliseconds. Where SQL leaves the order of equal keys open, the older row comes first.
\<close>

section \<open>Rows\<close>

record stored_message =
  sm_seq :: int
  sm_body :: message    \<comment> \<open>role, content, calls and so on; its own time and seq are not stored\<close>
  sm_time :: int
  sm_visible :: bool

record session_row =
  sr_key :: string
  sr_channel :: string
  sr_account :: string
  sr_chat :: string
  sr_project :: string
  sr_title :: string
  sr_messages :: "stored_message list"
  sr_count :: nat
  sr_updated :: int
  sr_parent :: string
  sr_fork_seq :: int
  sr_chat_only :: bool

record event_row =
  ev_key :: string
  ev_seq :: int
  ev_type :: string
  ev_data :: string
  ev_created :: int

record session_tables =
  tb_sessions :: "session_row list"
  tb_archive :: "(string \<times> stored_message) list"
  tb_events :: "event_row list"

datatype store_error = Not_found | Has_children | Bad_event_key

definition session_message_from_provider :: "int \<Rightarrow> message \<Rightarrow> stored_message" where
  "session_message_from_provider now m = \<lparr>sm_seq = 0, sm_body = m, sm_time = now, sm_visible = True\<rparr>"

definition provider_message_from_stored :: "stored_message \<Rightarrow> message" where
  "provider_message_from_stored s = (sm_body s)\<lparr>mg_seq := sm_seq s, mg_timestamp := sm_time s\<rparr>"

section \<open>Sessions\<close>

definition session_row_of :: "session_tables \<Rightarrow> string \<Rightarrow> session_row option" where
  "session_row_of t key = List.find (\<lambda>r. sr_key r = key) (tb_sessions t)"

definition adapter_get_session :: "session_tables \<Rightarrow> string \<Rightarrow> message list option" where
  "adapter_get_session t key = map_option (\<lambda>r. map provider_message_from_stored (sr_messages r)) (session_row_of t key)"

definition blank_session_row :: "string \<Rightarrow> string \<Rightarrow> string \<Rightarrow> string \<Rightarrow> string \<Rightarrow> session_row" where
  "blank_session_row key channel account chat project =
     \<lparr>sr_key = key, sr_channel = channel, sr_account = account, sr_chat = chat, sr_project = project, sr_title = [],
      sr_messages = [], sr_count = 0, sr_updated = 0, sr_parent = [], sr_fork_seq = 0, sr_chat_only = False\<rparr>"

text \<open>An update changes the messages, their count and the time; the other columns are written by the insert only.\<close>

definition save_session :: "int \<Rightarrow> session_row \<Rightarrow> session_tables \<Rightarrow> session_tables" where
  "save_session now rec t =
     (case session_row_of t (sr_key rec) of
        None \<Rightarrow> t\<lparr>tb_sessions := tb_sessions t @ [rec\<lparr>sr_count := length (sr_messages rec), sr_updated := now,
                                                  sr_title := [], sr_chat_only := False\<rparr>]\<rparr>
      | Some _ \<Rightarrow>
          t\<lparr>tb_sessions := map (\<lambda>r. if sr_key r = sr_key rec
               then r\<lparr>sr_messages := sr_messages rec, sr_count := length (sr_messages rec), sr_updated := now\<rparr> else r)
             (tb_sessions t)\<rparr>)"

definition adapter_save_session ::
    "int \<Rightarrow> string \<Rightarrow> string \<Rightarrow> string \<Rightarrow> string \<Rightarrow> string \<Rightarrow> message list \<Rightarrow> session_tables \<Rightarrow> session_tables" where
  "adapter_save_session now key channel account chat project ms =
     save_session now ((blank_session_row key channel account chat project)
       \<lparr>sr_messages := map (session_message_from_provider now) ms\<rparr>)"

definition adapter_create_fork ::
    "int \<Rightarrow> string \<Rightarrow> string \<Rightarrow> string \<Rightarrow> string \<Rightarrow> string \<Rightarrow> string \<Rightarrow> int \<Rightarrow> session_tables \<Rightarrow> session_tables" where
  "adapter_create_fork now key channel account chat project parent seq =
     save_session now ((blank_session_row key channel account chat project)\<lparr>sr_parent := parent, sr_fork_seq := seq\<rparr>)"

definition adapter_session_parent :: "session_tables \<Rightarrow> string \<Rightarrow> string \<times> int" where
  "adapter_session_parent t key =
     (case session_row_of t key of None \<Rightarrow> ([], 0) | Some r \<Rightarrow> (sr_parent r, sr_fork_seq r))"

definition lookup_session_triple :: "session_tables \<Rightarrow> string \<Rightarrow> string \<times> string \<times> string" where
  "lookup_session_triple t key =
     (case session_row_of t key of None \<Rightarrow> ([], [], []) | Some r \<Rightarrow> (sr_channel r, sr_account r, sr_chat r))"

definition lookup_session_project :: "session_tables \<Rightarrow> string \<Rightarrow> string" where
  "lookup_session_project t key = (case session_row_of t key of None \<Rightarrow> [] | Some r \<Rightarrow> sr_project r)"

definition session_chat_only :: "session_tables \<Rightarrow> string \<Rightarrow> bool" where
  "session_chat_only t key = (case session_row_of t key of None \<Rightarrow> False | Some r \<Rightarrow> sr_chat_only r)"

definition newest_session :: "(session_row \<Rightarrow> bool) \<Rightarrow> session_tables \<Rightarrow> session_row option" where
  "newest_session ok t =
     (case sort_key (\<lambda>r. - sr_updated r) (List.filter ok (tb_sessions t)) of [] \<Rightarrow> None | r # _ \<Rightarrow> Some r)"

definition resolve_active_session_key :: "session_tables \<Rightarrow> string \<Rightarrow> string \<Rightarrow> string \<Rightarrow> store_error + string" where
  "resolve_active_session_key t channel account chat =
     (case newest_session (\<lambda>r. sr_channel r = channel \<and> sr_account r = account \<and> sr_chat r = chat) t of
        Some r \<Rightarrow> Inr (sr_key r)
      | None \<Rightarrow>
          if channel \<noteq> [] \<and> channel \<noteq> ''web'' \<and> channel \<noteq> ''api'' \<and> channel \<noteq> ''shared'' then
            (case newest_session (\<lambda>r. sr_channel r = channel \<and> sr_chat r = chat) t of
               Some r \<Rightarrow> Inr (sr_key r) | None \<Rightarrow> Inl Not_found)
          else Inl Not_found)"

definition delete_session :: "string \<Rightarrow> session_tables \<Rightarrow> store_error option \<times> session_tables" where
  "delete_session key t =
     (if (\<exists>r \<in> set (tb_sessions t). sr_parent r = key) then (Some Has_children, t)
      else (None, t\<lparr>tb_archive := List.filter (\<lambda>a. fst a \<noteq> key) (tb_archive t),
                    tb_events := List.filter (\<lambda>e. ev_key e \<noteq> key) (tb_events t),
                    tb_sessions := List.filter (\<lambda>r. sr_key r \<noteq> key) (tb_sessions t)\<rparr>))"

definition update_session_row :: "string \<Rightarrow> (session_row \<Rightarrow> session_row) \<Rightarrow> session_tables \<Rightarrow> session_tables" where
  "update_session_row key f t = t\<lparr>tb_sessions := map (\<lambda>r. if sr_key r = key then f r else r) (tb_sessions t)\<rparr>"

definition rename_session :: "string \<Rightarrow> string \<Rightarrow> session_tables \<Rightarrow> session_tables" where
  "rename_session key title = update_session_row key (\<lambda>r. r\<lparr>sr_title := title\<rparr>)"

definition move_session :: "string \<Rightarrow> string \<Rightarrow> session_tables \<Rightarrow> session_tables" where
  "move_session key project = update_session_row key (\<lambda>r. r\<lparr>sr_project := project\<rparr>)"

definition set_session_chat_only :: "string \<Rightarrow> bool \<Rightarrow> session_tables \<Rightarrow> session_tables" where
  "set_session_chat_only key on = update_session_row key (\<lambda>r. r\<lparr>sr_chat_only := on\<rparr>)"

section \<open>The archive\<close>

definition archive_of :: "session_tables \<Rightarrow> string \<Rightarrow> stored_message list" where
  "archive_of t key = map snd (List.filter (\<lambda>a. fst a = key) (tb_archive t))"

text \<open>\<^verbatim>\<open>COALESCE(MAX(seq), -1) + 1\<close>.\<close>

definition next_seq :: "int list \<Rightarrow> int" where
  "next_seq seqs = foldr max seqs (-1) + 1"

definition append_session_message :: "string \<Rightarrow> stored_message \<Rightarrow> session_tables \<Rightarrow> session_tables" where
  "append_session_message key m t =
     t\<lparr>tb_archive := tb_archive t @ [(key, m\<lparr>sm_seq := next_seq (map sm_seq (archive_of t key))\<rparr>)]\<rparr>"

definition list_session_messages :: "session_tables \<Rightarrow> string \<Rightarrow> stored_message list" where
  "list_session_messages t key = sort_key sm_seq (archive_of t key)"

definition delete_archive_row :: "string \<Rightarrow> int \<Rightarrow> session_tables \<Rightarrow> session_tables" where
  "delete_archive_row key seq t = t\<lparr>tb_archive := List.filter (\<lambda>a. \<not> (fst a = key \<and> sm_seq (snd a) = seq)) (tb_archive t)\<rparr>"

text \<open>One round of the loop selects the last row of the session and deletes it when the user wrote it.\<close>

fun delete_last_user_messages :: "string \<Rightarrow> nat \<Rightarrow> session_tables \<Rightarrow> nat \<times> session_tables" where
  "delete_last_user_messages key 0 t = (0, t)"
| "delete_last_user_messages key (Suc limit) t =
     (case rev (list_session_messages t key) of
        [] \<Rightarrow> (0, t)
      | m # _ \<Rightarrow>
          if mg_role (sm_body m) \<noteq> ''user'' then (0, t)
          else (case delete_last_user_messages key limit (delete_archive_row key (sm_seq m) t) of
                  (n, t') \<Rightarrow> (Suc n, t')))"

definition adapter_append_message :: "int \<Rightarrow> string \<Rightarrow> message \<Rightarrow> session_tables \<Rightarrow> session_tables" where
  "adapter_append_message now key m = append_session_message key (session_message_from_provider now m)"

definition adapter_append_hidden :: "int \<Rightarrow> string \<Rightarrow> message \<Rightarrow> session_tables \<Rightarrow> session_tables" where
  "adapter_append_hidden now key m = append_session_message key ((session_message_from_provider now m)\<lparr>sm_visible := False\<rparr>)"

definition adapter_list_messages :: "session_tables \<Rightarrow> string \<Rightarrow> message list" where
  "adapter_list_messages t key = map provider_message_from_stored (list_session_messages t key)"

section \<open>Events\<close>

definition event_seqs :: "session_tables \<Rightarrow> string \<Rightarrow> int list" where
  "event_seqs t key = map ev_seq (List.filter (\<lambda>e. ev_key e = key) (tb_events t))"

text \<open>The agent of the state is not empty.\<close>

definition append_session_event :: "int \<Rightarrow> string \<Rightarrow> string \<Rightarrow> string \<Rightarrow> session_tables \<Rightarrow> store_error + int \<times> session_tables" where
  "append_session_event now key typ payload t =
     (if key = [] then Inl Bad_event_key
      else let seq = next_seq (event_seqs t key) in
        Inr (seq, t\<lparr>tb_events := tb_events t @
          [\<lparr>ev_key = key, ev_seq = seq, ev_type = typ, ev_data = payload, ev_created = now\<rparr>]\<rparr>))"

definition list_session_events_since :: "session_tables \<Rightarrow> string \<Rightarrow> int \<Rightarrow> event_row list" where
  "list_session_events_since t key since =
     sort_key ev_seq (List.filter (\<lambda>e. ev_key e = key \<and> ev_seq e > since) (tb_events t))"

definition latest_session_event_seq :: "session_tables \<Rightarrow> string \<Rightarrow> int" where
  "latest_session_event_seq t key = foldr max (event_seqs t key) (-1)"

text \<open>Delete the first \<^verbatim>\<open>n\<close> rows, in the order they were written, that are older.\<close>

fun drop_older :: "int \<Rightarrow> nat \<Rightarrow> event_row list \<Rightarrow> event_row list" where
  "drop_older before n [] = []"
| "drop_older before n (e # es) =
     (if ev_created e < before then (case n of 0 \<Rightarrow> e # es | Suc k \<Rightarrow> drop_older before k es)
      else e # drop_older before n es)"

definition older_count :: "int \<Rightarrow> event_row list \<Rightarrow> nat" where
  "older_count before es = length (List.filter (\<lambda>e. ev_created e < before) es)"

text \<open>The batches of the loop, while the context is not done; a batch that is not full is the last.\<close>

lemma drop_older_count: "older_count before (drop_older before n es) = older_count before es - n"
  by (induction before n es rule: drop_older.induct) (auto simp: older_count_def split: nat.split)

function prune_batches :: "int \<Rightarrow> nat \<Rightarrow> event_row list \<Rightarrow> nat \<times> event_row list" where
  "prune_batches before batch es =
     (let k = min batch (older_count before es); es' = drop_older before batch es in
      if batch = 0 \<or> k < batch then (k, es')
      else (case prune_batches before batch es' of (n, r) \<Rightarrow> (k + n, r)))"
  by pat_completeness auto
termination
  by (relation "measure (\<lambda>(before, _, es). older_count before es)") (auto simp: drop_older_count)

declare prune_batches.simps [simp del]

definition prune_session_events :: "int \<Rightarrow> int \<Rightarrow> session_tables \<Rightarrow> nat \<times> session_tables" where
  "prune_session_events before batch t =
     (let limit = (if batch \<le> 0 then 1000 else nat batch) in
      case prune_batches before limit (tb_events t) of (n, es) \<Rightarrow> (n, t\<lparr>tb_events := es\<rparr>))"

section \<open>Laws of the rows\<close>

lemma drop_older_all: "older_count before es \<le> n \<Longrightarrow> drop_older before n es = List.filter (\<lambda>e. \<not> ev_created e < before) es"
  by (induction before n es rule: drop_older.induct) (auto simp: older_count_def split: nat.split)

lemma drop_older_keeps: "List.filter (\<lambda>e. \<not> ev_created e < before) (drop_older before n es) = List.filter (\<lambda>e. \<not> ev_created e < before) es"
  by (induction before n es rule: drop_older.induct) (auto split: nat.split)

text \<open>Pruning in batches deletes the older rows and no others, whatever the size of a batch.\<close>

lemma prune_batches_eq:
  "0 < batch \<Longrightarrow> prune_batches before batch es = (older_count before es, List.filter (\<lambda>e. \<not> ev_created e < before) es)"
proof (induction before batch es rule: prune_batches.induct)
  case (1 before batch es)
  show ?case
  proof (cases "older_count before es < batch")
    case True
    then show ?thesis by (subst prune_batches.simps) (simp add: Let_def drop_older_all)
  next
    case False
    with 1 show ?thesis
      by (subst prune_batches.simps) (simp add: Let_def drop_older_count drop_older_keeps)
  qed
qed

lemma prune_session_events_exact:
  "prune_session_events before batch t
   = (older_count before (tb_events t), t\<lparr>tb_events := List.filter (\<lambda>e. \<not> ev_created e < before) (tb_events t)\<rparr>)"
  by (auto simp: prune_session_events_def Let_def prune_batches_eq)

text \<open>
  When every delta of a session is pruned its sequence starts again at zero, below the position
  from which a client that was connected before will ask.
\<close>

lemma pruned_sequence_restarts:
  assumes "key \<noteq> []" and "\<forall>e \<in> set (tb_events t). ev_created e < before" and "0 \<le> since"
  shows "\<exists>t'. append_session_event now key typ payload (snd (prune_session_events before batch t)) = Inr (0, t')
    \<and> list_session_events_since t' key since = []"
  using assms
  by (simp add: prune_session_events_exact append_session_event_def event_seqs_def next_seq_def list_session_events_since_def)

lemma fold_max_upt: "foldr max (map int [0..<n]) (-1) = int n - 1"
proof -
  have "foldr max (map int [0..<n]) b = (if n = 0 then b else max b (int n - 1))" for b
    by (induction n arbitrary: b) auto
  then show ?thesis by simp
qed

lemma next_seq_upt [simp]: "next_seq (map int [0..<n]) = int n"
  by (simp add: next_seq_def fold_max_upt)

text \<open>The positions of every archive count from zero without a gap.\<close>

definition seqs_ok :: "session_tables \<Rightarrow> bool" where
  "seqs_ok t = (\<forall>key. map sm_seq (archive_of t key) = map int [0..<length (archive_of t key)])"

lemma seqs_okD: "seqs_ok t \<Longrightarrow> map sm_seq (archive_of t key) = map int [0..<length (archive_of t key)]"
  by (simp add: seqs_ok_def)

lemma list_is_archive: "seqs_ok t \<Longrightarrow> list_session_messages t key = archive_of t key"
  unfolding list_session_messages_def
  by (rule sort_key_id_if_sorted) (simp add: seqs_okD sorted_iff_nth_mono)

lemma archive_of_other_fields [simp]:
  "archive_of (t\<lparr>tb_sessions := r\<rparr>) key = archive_of t key"
  "archive_of (t\<lparr>tb_events := e\<rparr>) key = archive_of t key"
  by (simp_all add: archive_of_def)

lemma append_archive:
  "archive_of (append_session_message key m t) k
   = (if k = key then archive_of t key @ [m\<lparr>sm_seq := next_seq (map sm_seq (archive_of t key))\<rparr>] else archive_of t k)"
  by (simp add: append_session_message_def archive_of_def)

lemma append_seqs_ok: "seqs_ok t \<Longrightarrow> seqs_ok (append_session_message key m t)"
  using seqs_okD [of t key] unfolding seqs_ok_def by (auto simp: append_archive)

lemma archive_of_delete_seq:
  "archive_of (delete_archive_row key n t) k
   = (if k = key then List.filter (\<lambda>m. sm_seq m \<noteq> n) (archive_of t key) else archive_of t k)"
proof -
  have "map snd (List.filter (\<lambda>a. fst a = k) (List.filter (\<lambda>a. \<not> (fst a = key \<and> sm_seq (snd a) = n)) xs))
      = (if k = key then List.filter (\<lambda>m. sm_seq m \<noteq> n) (map snd (List.filter (\<lambda>a. fst a = key) xs))
         else map snd (List.filter (\<lambda>a. fst a = k) xs))" for xs :: "(string \<times> stored_message) list"
    by (induction xs) auto
  then show ?thesis by (simp add: archive_of_def delete_archive_row_def)
qed

lemma filter_last_seq:
  assumes "map sm_seq xs = map int [0..<length xs]" and "xs \<noteq> []"
  shows "List.filter (\<lambda>m. sm_seq m \<noteq> sm_seq (last xs)) xs = butlast xs"
proof -
  obtain ys y where xs: "xs = ys @ [y]" using assms(2) by (metis rev_exhaust)
  have "map sm_seq ys = map int [0..<length ys]" "sm_seq y = int (length ys)" using assms(1) by (auto simp: xs)
  then have "\<forall>m \<in> set ys. sm_seq m < sm_seq y"
    by (metis (no_types, lifting) atLeastLessThan_iff image_iff image_set list.set_map of_nat_less_iff set_upt)
  then have "List.filter (\<lambda>m. sm_seq m \<noteq> sm_seq y) ys = ys" by (auto simp: filter_id_conv)
  then show ?thesis by (simp add: xs)
qed

text \<open>The deletion takes the rows from the end, only rows of the user, and leaves the other sessions alone.\<close>

lemma delete_last_spec:
  assumes "seqs_ok t" and "delete_last_user_messages key limit t = (n, t')"
  shows "seqs_ok t' \<and> n \<le> limit \<and> n \<le> length (archive_of t key)
    \<and> archive_of t' key = take (length (archive_of t key) - n) (archive_of t key)
    \<and> (\<forall>m \<in> set (drop (length (archive_of t key) - n) (archive_of t key)). mg_role (sm_body m) = ''user'')
    \<and> (\<forall>k. k \<noteq> key \<longrightarrow> archive_of t' k = archive_of t k) \<and> tb_sessions t' = tb_sessions t"
  using assms
proof (induction key limit t arbitrary: n t' rule: delete_last_user_messages.induct)
  case (1 key t)
  then show ?case by auto
next
  case (2 key limit t)
  let ?a = "archive_of t key"
  have list: "list_session_messages t key = ?a" using 2(2) by (rule list_is_archive)
  show ?case
  proof (cases "?a = [] \<or> mg_role (sm_body (last ?a)) \<noteq> ''user''")
    case True
    then have "n = 0 \<and> t' = t"
      using 2(3) list by (cases ?a rule: rev_cases) auto
    with 2(2) show ?thesis by auto
  next
    case False
    then obtain ys y where a: "?a = ys @ [y]" and user: "mg_role (sm_body y) = ''user''"
      by (cases ?a rule: rev_cases) auto
    define t1 where "t1 = delete_archive_row key (sm_seq y) t"
    have arch: "archive_of t1 k = (if k = key then ys else archive_of t k)" for k
      using filter_last_seq [OF seqs_okD [OF 2(2), of key]] a
      by (simp add: t1_def archive_of_delete_seq)
    have "map sm_seq ys = map int [0..<length ys]" using seqs_okD [OF 2(2), of key] a by simp
    then have ok: "seqs_ok t1" using 2(2) by (auto simp: seqs_ok_def arch)
    obtain n1 where run: "delete_last_user_messages key limit t1 = (n1, t')" and n: "n = Suc n1"
      using 2(3) list a user by (auto simp: t1_def split: prod.splits)
    have "rev (list_session_messages t key) = y # rev ys" using list a by simp
    from 2(1) [OF this _ ok [unfolded t1_def] run [unfolded t1_def]] user
    have IH: "seqs_ok t'" "n1 \<le> limit" "n1 \<le> length ys" "archive_of t' key = take (length ys - n1) ys"
      "\<forall>m \<in> set (drop (length ys - n1) ys). mg_role (sm_body m) = ''user''"
      "\<forall>k. k \<noteq> key \<longrightarrow> archive_of t' k = archive_of t k" "tb_sessions t' = tb_sessions t"
      by (simp_all add: arch flip: t1_def) (simp add: t1_def delete_archive_row_def)
    then show ?thesis using n user by (auto simp: a)
  qed
qed

lemma archive_of_delete_key:
  "archive_of (t\<lparr>tb_archive := List.filter (\<lambda>a. fst a \<noteq> key) (tb_archive t)\<rparr>) k = (if k = key then [] else archive_of t k)"
proof -
  have "List.filter (\<lambda>a. fst a = k) (List.filter (\<lambda>a. fst a \<noteq> key) xs)
      = (if k = key then [] else List.filter (\<lambda>a. fst a = k) xs)" for xs :: "(string \<times> stored_message) list"
    by (induction xs) auto
  then show ?thesis by (simp add: archive_of_def)
qed

lemma delete_session_archive:
  "archive_of (snd (delete_session key t)) k
   = (if k = key \<and> fst (delete_session key t) = None then [] else archive_of t k)"
  by (simp add: delete_session_def archive_of_delete_key)

lemma delete_session_seqs_ok: "seqs_ok t \<Longrightarrow> seqs_ok (snd (delete_session key t))"
  by (simp add: seqs_ok_def delete_session_archive)

lemma delete_refused_iff: "fst (delete_session key t) = None \<longleftrightarrow> (\<forall>r \<in> set (tb_sessions t). sr_parent r \<noteq> key)"
  by (auto simp: delete_session_def)

lemma save_archive [simp]: "archive_of (save_session now rec t) k = archive_of t k"
  by (simp add: save_session_def split: option.split)

lemma find_map_key:
  assumes "\<And>r. sr_key (f r) = sr_key r"
  shows "List.find (\<lambda>r. sr_key r = key) (map (\<lambda>r. if sr_key r = k then f r else r) rows)
       = map_option (\<lambda>r. if sr_key r = k then f r else r) (List.find (\<lambda>r. sr_key r = key) rows)"
  using assms by (induction rows) auto

lemma find_append_key:
  "List.find P (xs @ ys) = (case List.find P xs of None \<Rightarrow> List.find P ys | Some x \<Rightarrow> Some x)"
  by (induction xs) auto

lemma row_key: "session_row_of t key = Some r \<Longrightarrow> sr_key r = key"
  by (auto simp: session_row_of_def find_Some_iff)

text \<open>What was saved is read back, with the time of the save on every message.\<close>

lemma get_after_save:
  "adapter_get_session (adapter_save_session now key channel account chat project ms t) key
   = Some (map (\<lambda>m. m\<lparr>mg_seq := 0, mg_timestamp := now\<rparr>) ms)"
proof (cases "session_row_of t key")
  case None
  then show ?thesis
    by (simp add: adapter_get_session_def adapter_save_session_def save_session_def blank_session_row_def session_row_of_def
        find_append_key session_message_from_provider_def provider_message_from_stored_def comp_def)
next
  case (Some r)
  with row_key [OF Some] show ?thesis
    by (simp add: adapter_get_session_def adapter_save_session_def save_session_def blank_session_row_def session_row_of_def
        find_map_key session_message_from_provider_def provider_message_from_stored_def comp_def)
qed

text \<open>A save never moves a row to another chat or another parent.\<close>

lemma save_keeps_row:
  assumes "session_row_of t key = Some r"
  shows "\<exists>r'. session_row_of (save_session now rec t) key = Some r' \<and> sr_channel r' = sr_channel r \<and> sr_account r' = sr_account r
    \<and> sr_chat r' = sr_chat r \<and> sr_project r' = sr_project r \<and> sr_parent r' = sr_parent r \<and> sr_fork_seq r' = sr_fork_seq r"
  using assms by (auto simp: save_session_def session_row_of_def find_append_key find_map_key split: option.splits)

end
