(* ===== verification/Session_Log.thy ===== *)
theory Session_Log
  imports Session_Store
begin

text \<open>
  A session of one conversation (\<^verbatim>\<open>internal/session/manager.go\<close>): its working set in memory and in
  the store, turns and steering, the claim of a marker, and the repair of a turn that ended without
  the results of its calls. Every method runs under the lock of the session, so it is one step;
  \<^verbatim>\<open>sw_now\<close> is the clock during it. Without a store the messages are in a file of JSON lines.
  The calls that a session parks for the answer of the user are in \<^verbatim>\<open>Auth_Session\<close>.
\<close>

section \<open>State\<close>

record session_world =
  sw_db :: bool             \<comment> \<open>the manager has a store\<close>
  sw_tables :: session_tables
  sw_files :: "(string \<times> message list) list"
  sw_now :: int

record session =
  ss_messages :: "message list"
  ss_consolidated :: int
  ss_snapshot :: "message list option"
  ss_key :: string
  ss_channel :: string
  ss_account :: string
  ss_chat :: string
  ss_project :: string
  ss_provider :: string
  ss_model :: string
  ss_parent :: string
  ss_fork_seq :: int
  ss_chat_only :: bool
  ss_depth :: nat
  ss_steer :: "message list"

type_synonym session_state = "session_world \<times> session"

definition fresh_session :: "string \<Rightarrow> string \<Rightarrow> string \<Rightarrow> string \<Rightarrow> string \<Rightarrow> session" where
  "fresh_session key channel account chat project =
     \<lparr>ss_messages = [], ss_consolidated = 0, ss_snapshot = None, ss_key = key, ss_channel = channel, ss_account = account,
      ss_chat = chat, ss_project = project, ss_provider = [], ss_model = [], ss_parent = [], ss_fork_seq = 0,
      ss_chat_only = False, ss_depth = 0, ss_steer = []\<rparr>"

definition empty_tables :: session_tables where
  "empty_tables = \<lparr>tb_sessions = [], tb_archive = [], tb_events = []\<rparr>"

definition empty_world :: "int \<Rightarrow> session_world" where
  "empty_world now = \<lparr>sw_db = True, sw_tables = empty_tables, sw_files = [], sw_now = now\<rparr>"

section \<open>Persistence\<close>

text \<open>The position of a message is not written to a file.\<close>

definition file_of :: "session_world \<Rightarrow> string \<Rightarrow> message list" where
  "file_of w key = (case map_of (sw_files w) key of None \<Rightarrow> [] | Some ms \<Rightarrow> ms)"

definition load_file :: "session_world \<Rightarrow> string \<Rightarrow> message list" where
  "load_file w key = map (\<lambda>m. m\<lparr>mg_seq := 0\<rparr>) (file_of w key)"

definition rewrite_file :: "session_world \<Rightarrow> session \<Rightarrow> session_world" where
  "rewrite_file w s = w\<lparr>sw_files := AList.update (ss_key s) (ss_messages s) (sw_files w)\<rparr>"

definition append_to_file :: "session_world \<Rightarrow> session \<Rightarrow> message \<Rightarrow> session_world" where
  "append_to_file w s m = w\<lparr>sw_files := AList.update (ss_key s) (file_of w (ss_key s) @ [m]) (sw_files w)\<rparr>"

definition save_working_set :: "session_world \<Rightarrow> session \<Rightarrow> session_world" where
  "save_working_set w s =
     w\<lparr>sw_tables := adapter_save_session (sw_now w) (ss_key s) (ss_channel s) (ss_account s) (ss_chat s) (ss_project s)
        (ss_messages s) (sw_tables w)\<rparr>"

definition persist_session :: "session_world \<Rightarrow> session \<Rightarrow> session_world" where
  "persist_session w s = (if sw_db w then save_working_set w s else rewrite_file w s)"

section \<open>Messages\<close>

definition stamp_message :: "session_world \<Rightarrow> session \<Rightarrow> message \<Rightarrow> message" where
  "stamp_message w s m =
     (let m1 = (if mg_timestamp m = 0 then m\<lparr>mg_timestamp := sw_now w\<rparr> else m) in
      if mg_role m1 = ''assistant'' \<and> mg_provider m1 = [] \<and> ss_provider s \<noteq> []
      then m1\<lparr>mg_provider := ss_provider s, mg_model := ss_model s\<rparr> else m1)"

definition append_message :: "message \<Rightarrow> session_state \<Rightarrow> session_state" where
  "append_message m = (\<lambda>(w, s).
     let m' = stamp_message w s m; s' = s\<lparr>ss_messages := ss_messages s @ [m']\<rparr> in
     if sw_db w
     then (let w1 = save_working_set w s' in (w1\<lparr>sw_tables := adapter_append_message (sw_now w) (ss_key s) m' (sw_tables w1)\<rparr>, s'))
     else (append_to_file w s m', s'))"

definition append_claim_once :: "message \<Rightarrow> string \<Rightarrow> gval \<Rightarrow> session_state \<Rightarrow> bool \<times> session_state" where
  "append_claim_once m key marker = (\<lambda>(w, s).
     if (\<exists>x \<in> set (ss_messages s). mget (mg_meta x) key = Some marker) then (False, (w, s))
     else (True, append_message (m\<lparr>mg_meta := Some (AList.update key marker (entries (mg_meta m)))\<rparr>) (w, s)))"

definition rollback_last_user :: "session_state \<Rightarrow> nat \<times> session_state" where
  "rollback_last_user = (\<lambda>(w, s).
     let ms = ss_messages s; k = length (takeWhile (\<lambda>m. is_turn_marker (mg_origin m)) (rev ms)) in
     if length ms \<le> k \<or> mg_role (ms ! (length ms - 1 - k)) \<noteq> ''user'' then (0, (w, s))
     else (let s' = s\<lparr>ss_messages := take (length ms - (k + 1)) ms\<rparr> in (k + 1, (persist_session w s', s'))))"

definition append_archived_hidden :: "message list \<Rightarrow> session_state \<Rightarrow> session_state" where
  "append_archived_hidden ms = (\<lambda>(w, s).
     if \<not> sw_db w then (w, s)
     else (w\<lparr>sw_tables := fold (\<lambda>m. adapter_append_hidden (sw_now w) (ss_key s)
                                  (if mg_timestamp m = 0 then m\<lparr>mg_timestamp := sw_now w\<rparr> else m)) ms (sw_tables w)\<rparr>, s))"

definition archived_messages :: "session_state \<Rightarrow> message list" where
  "archived_messages = (\<lambda>(w, s).
     if \<not> sw_db w then ss_messages s
     else (case adapter_list_messages (sw_tables w) (ss_key s) of [] \<Rightarrow> ss_messages s | ms \<Rightarrow> ms))"

definition clamp_prefix :: "int \<Rightarrow> message list \<Rightarrow> message list" where
  "clamp_prefix seq archive =
     (let q = (if seq < 0 then 0 else seq); q' = (if q \<ge> int (length archive) then int (length archive) - 1 else q) in
      take (nat (q' + 1)) archive)"

definition parent_prefix_messages :: "session_state \<Rightarrow> message list" where
  "parent_prefix_messages = (\<lambda>(w, s).
     if ss_parent s = [] \<or> \<not> sw_db w then []
     else clamp_prefix (ss_fork_seq s) (adapter_list_messages (sw_tables w) (ss_parent s)))"

definition replace_messages :: "message list \<Rightarrow> session_state \<Rightarrow> session_state" where
  "replace_messages ms = (\<lambda>(w, s). let s' = s\<lparr>ss_messages := ms, ss_consolidated := 0\<rparr> in (persist_session w s', s'))"

definition clear_session :: "session_state \<Rightarrow> session_state" where
  "clear_session = (\<lambda>(w, s).
     let s' = s\<lparr>ss_messages := [], ss_consolidated := 0\<rparr> in
     if sw_db w then (w\<lparr>sw_tables := snd (delete_session (ss_key s) (sw_tables w))\<rparr>, s')
     else (w\<lparr>sw_files := AList.delete (ss_key s) (sw_files w)\<rparr>, s'))"

definition unconsolidated_count :: "session \<Rightarrow> int" where
  "unconsolidated_count s = int (length (ss_messages s)) - ss_consolidated s"

definition mark_consolidated :: "int \<Rightarrow> session \<Rightarrow> session" where
  "mark_consolidated i s = s\<lparr>ss_consolidated := i\<rparr>"

definition set_provider_model :: "string \<Rightarrow> string \<Rightarrow> session \<Rightarrow> session" where
  "set_provider_model p m s = s\<lparr>ss_provider := p, ss_model := m\<rparr>"

definition take_snapshot :: "session \<Rightarrow> session" where
  "take_snapshot s = s\<lparr>ss_snapshot := Some (ss_messages s)\<rparr>"

definition undo_session :: "session_state \<Rightarrow> bool \<times> session_state" where
  "undo_session = (\<lambda>(w, s).
     case ss_snapshot s of
       None \<Rightarrow> (False, (w, s))
     | Some ms \<Rightarrow> (let s' = s\<lparr>ss_messages := ms, ss_snapshot := None, ss_consolidated := 0\<rparr> in (True, (rewrite_file w s', s'))))"

section \<open>Turns and steering\<close>

definition begin_turn :: "session \<Rightarrow> session" where
  "begin_turn s = s\<lparr>ss_depth := Suc (ss_depth s)\<rparr>"

definition try_begin_turn :: "session \<Rightarrow> bool \<times> session" where
  "try_begin_turn s = (if ss_depth s > 0 then (False, s) else (True, s\<lparr>ss_depth := Suc (ss_depth s)\<rparr>))"

definition end_turn :: "session \<Rightarrow> message list \<times> session" where
  "end_turn s =
     (let s1 = s\<lparr>ss_depth := ss_depth s - 1\<rparr> in
      if ss_depth s1 > 0 \<or> ss_steer s1 = [] then ([], s1) else (ss_steer s1, s1\<lparr>ss_steer := []\<rparr>))"

definition push_steer_if_active :: "message \<Rightarrow> session \<Rightarrow> bool \<times> session" where
  "push_steer_if_active m s = (if ss_depth s = 0 then (False, s) else (True, s\<lparr>ss_steer := ss_steer s @ [m]\<rparr>))"

definition drain_steer :: "session \<Rightarrow> message list \<times> session" where
  "drain_steer s = (if ss_steer s = [] then ([], s) else (ss_steer s, s\<lparr>ss_steer := []\<rparr>))"

section \<open>Repair of a turn without its results\<close>

definition utf8 :: "nat list \<Rightarrow> string" where
  "utf8 cs = concat (map encode_rune cs)"

definition tool_result_stopped_note :: string where
  "tool_result_stopped_note =
     ''(stopped '' @ utf8 [8212] @ '' execution was interrupted before the tool returned)''"

definition tool_result_crash_note :: string where
  "tool_result_crash_note =
     ''(interrupted '' @ utf8 [8212] @ '' the service restarted before this tool returned; it may have partially executed)''"

definition turn_aborted_crash_note :: string where
  "turn_aborted_crash_note =
     ''[system] '' @ utf8 [19978, 19968, 36718, 25191, 34892, 34987, 20013, 26029] @ ''('' @ utf8 [26381, 21153,
     37325, 21551] @ ''):'' @ utf8 [34987, 20013, 27490, 30340, 24037, 20855, 21487, 33021, 24050, 37096, 20998,
     25191, 34892] @ '','' @ utf8 [21518, 21488, 36827, 31243, 21487, 33021, 20173, 22312, 36816, 34892, 12290, 35831,
     22522, 20110, 24403, 21069, 23454, 38469, 29366, 24577, 26680, 23454, 21518, 20877, 32487, 32493] @ '','' @ utf8
     [19981, 35201, 20551, 35774, 20013, 26029, 21069, 30340, 25805, 20316, 24050, 23436, 25104, 12290]"

definition turn_aborted_stop_note :: string where
  "turn_aborted_stop_note =
     ''[system] '' @ utf8 [19978, 19968, 36718, 25191, 34892, 26410, 27491, 24120, 32467, 26463] @ ''('' @ utf8
     [34987, 20572, 27490, 25110, 20986, 38169, 36864, 20986] @ ''):'' @ utf8 [34987, 20013, 27490, 30340, 24037,
     20855, 21487, 33021, 24050, 37096, 20998, 25191, 34892] @ '','' @ utf8 [21518, 21488, 36827, 31243, 21487, 33021,
     20173, 22312, 36816, 34892, 12290, 32487, 32493, 26102, 35831, 22522, 20110, 24403, 21069, 23454, 38469, 29366,
     24577, 26680, 23454] @ '','' @ utf8 [19981, 35201, 20551, 35774, 27492, 21069, 30340, 25805, 20316, 24050, 23436,
     25104, 12290]"

definition turn_aborted_lost_note :: string where
  "turn_aborted_lost_note =
     ''[system] '' @ utf8 [20320, 19978, 19968, 36718, 30340, 28040, 24687, 22312, 26381, 21153, 37325, 21551, 21069,
     27809, 26377, 25910, 21040, 22238, 22797] @ ''('' @ utf8 [22238, 22797, 29983, 25104, 36807, 31243, 20013, 26381,
     21153, 20572, 27490] @ ''),'' @ utf8 [35813, 36718, 27809, 26377, 20219, 20309, 24037, 20855, 34987, 25191,
     34892] @ '','' @ utf8 [19981, 20250, 20135, 29983, 37096, 20998, 21103, 20316, 29992, 12290, 35831, 37325, 26032,
     21457, 36865, 35813, 35831, 27714] @ '','' @ utf8 [25110, 30452, 25509, 35828, 26126, 26032, 30340, 38656, 27714,
     12290]"

text \<open>The calls of the latest assistant message that has some, and what follows it.\<close>

definition has_calls :: "message \<Rightarrow> bool" where
  "has_calls m = (mg_role m = ''assistant'' \<and> mg_calls m \<noteq> [])"

definition latest_calls :: "message list \<Rightarrow> (message_call list \<times> message list) option" where
  "latest_calls ms =
     (case dropWhile (\<lambda>m. \<not> has_calls m) (rev ms) of
        [] \<Rightarrow> None | m # _ \<Rightarrow> Some (mg_calls m, rev (takeWhile (\<lambda>m. \<not> has_calls m) (rev ms))))"

definition resolved_ids :: "message list \<Rightarrow> string list" where
  "resolved_ids ms = map mg_call_id (List.filter (\<lambda>m. is_tool m \<and> mg_call_id m \<noteq> []) ms)"

definition pad_message :: "string \<Rightarrow> message_call \<Rightarrow> message" where
  "pad_message txt c = (blank_message ''tool'' txt)\<lparr>mg_call_id := tcl_id c, mg_name := tcl_name c\<rparr>"

definition pad_orphan_tool_results :: "string \<Rightarrow> session_state \<Rightarrow> bool \<times> session_state" where
  "pad_orphan_tool_results txt = (\<lambda>(w, s).
     case latest_calls (ss_messages s) of
       None \<Rightarrow> (False, (w, s))
     | Some (calls, later) \<Rightarrow>
         (let missing = List.filter (\<lambda>c. tcl_id c \<notin> set (resolved_ids later)) calls in
          (missing \<noteq> [], fold (\<lambda>c. append_message (pad_message txt c)) missing (w, s))))"

definition abort_marker :: "string \<Rightarrow> message" where
  "abort_marker note = (blank_message ''user'' note)\<lparr>mg_origin := ''turn_abort''\<rparr>"

definition claim_abort :: "string \<Rightarrow> session_state \<Rightarrow> session_state" where
  "claim_abort note x = snd (append_claim_once (abort_marker note) ''turnAborted'' (GBool True) x)"

definition unanswered_tail :: "message list \<Rightarrow> bool" where
  "unanswered_tail ms = (ms \<noteq> [] \<and> mg_role (last ms) = ''user'' \<and> \<not> is_turn_marker (mg_origin (last ms)))"

definition heal_interrupted_turn :: "session_state \<Rightarrow> session_state" where
  "heal_interrupted_turn x =
     (case pad_orphan_tool_results tool_result_crash_note x of
        (True, x') \<Rightarrow> claim_abort turn_aborted_crash_note x'
      | (False, x') \<Rightarrow> if unanswered_tail (ss_messages (snd x')) then claim_abort turn_aborted_lost_note x' else x')"

definition pad_and_mark_aborted :: "string \<Rightarrow> session_state \<Rightarrow> session_state" where
  "pad_and_mark_aborted txt x =
     (case pad_orphan_tool_results txt x of
        (True, x') \<Rightarrow> claim_abort turn_aborted_stop_note x' | (False, x') \<Rightarrow> x')"

end
