(* ===== verification/Session_Manager.thy ===== *)
theory Session_Manager
  imports Session_Log
begin

text \<open>
  The sessions of one agent (\<^verbatim>\<open>Manager\<close> in \<^verbatim>\<open>internal/session/manager.go\<close>): a cache over the
  store, the choice of the active session of a chat, forks, and the operations of
  \<^verbatim>\<open>internal/agent\<close> that rest on them: rollback, steering, \<^verbatim>\<open>/retry\<close>, \<^verbatim>\<open>/undo\<close> and
  the context of a turn. A cached session is shared: whoever changes it writes it back to the cache.
  The key that \<^verbatim>\<open>generateSessionKey\<close> mints is an argument.
\<close>

type_synonym manager_state = "session_world \<times> (string \<times> session) list"

definition cache_session :: "session_state \<Rightarrow> (string \<times> session) list \<Rightarrow> manager_state" where
  "cache_session x c = (case x of (w, s) \<Rightarrow> (w, AList.update (ss_key s) s c))"

section \<open>Lookup\<close>

definition resolve_or_mint_key :: "string \<Rightarrow> string \<Rightarrow> string \<Rightarrow> string \<Rightarrow> session_world \<Rightarrow> string" where
  "resolve_or_mint_key minted channel account chat w =
     (let mint = (if channel = ''web'' \<and> chat \<noteq> [] then chat else minted) in
      if sw_db w then
        (case resolve_active_session_key (sw_tables w) channel account chat of
           Inr k \<Rightarrow> if k \<noteq> [] then k else mint | Inl _ \<Rightarrow> mint)
      else mint)"

definition manager_lookup_project :: "session_world \<Rightarrow> string \<Rightarrow> string" where
  "manager_lookup_project w key = (if \<not> sw_db w \<or> key = [] then [] else lookup_session_project (sw_tables w) key)"

definition manager_lookup_triple :: "session_world \<Rightarrow> string \<Rightarrow> string \<times> string \<times> string" where
  "manager_lookup_triple w key = (if \<not> sw_db w then ([], [], []) else lookup_session_triple (sw_tables w) key)"

definition session_exists :: "session_world \<Rightarrow> string \<Rightarrow> bool" where
  "session_exists w key = (\<not> sw_db w \<or> adapter_get_session (sw_tables w) key \<noteq> None)"

definition resolve_session_key :: "session_world \<Rightarrow> string \<Rightarrow> string" where
  "resolve_session_key w token =
     (if token = [] then []
      else if session_exists w token then token
      else if sw_db w then
        (case resolve_active_session_key (sw_tables w) ''web'' [] token of
           Inr k \<Rightarrow> if k \<noteq> [] then k else token | Inl _ \<Rightarrow> token)
      else token)"

text \<open>A cached session takes the messages and the parent of its row; empty routing fields are filled in.\<close>

definition reload_cached :: "string \<Rightarrow> string \<Rightarrow> string \<Rightarrow> string \<Rightarrow> session_world \<Rightarrow> session \<Rightarrow> session" where
  "reload_cached channel account chat project w s =
     (let s1 = (if sw_db w then
                  (let s0 = (case adapter_get_session (sw_tables w) (ss_key s) of None \<Rightarrow> s | Some ms \<Rightarrow> s\<lparr>ss_messages := ms\<rparr>);
                       p = adapter_session_parent (sw_tables w) (ss_key s)
                   in s0\<lparr>ss_parent := fst p, ss_fork_seq := snd p\<rparr>)
                else s);
          s2 = (if ss_channel s1 = [] \<and> channel \<noteq> [] then s1\<lparr>ss_channel := channel, ss_account := account, ss_chat := chat\<rparr> else s1)
      in if ss_project s2 = [] \<and> project \<noteq> [] then s2\<lparr>ss_project := project\<rparr> else s2)"

definition cold_load :: "string \<Rightarrow> string \<Rightarrow> string \<Rightarrow> string \<Rightarrow> string \<Rightarrow> session_world \<Rightarrow> session_state" where
  "cold_load key channel account chat project w =
     (let s0 = fresh_session key channel account chat project;
          s1 = (if sw_db w then
                  s0\<lparr>ss_messages := (case adapter_get_session (sw_tables w) key of None \<Rightarrow> [] | Some ms \<Rightarrow> ms),
                     ss_parent := fst (adapter_session_parent (sw_tables w) key),
                     ss_fork_seq := snd (adapter_session_parent (sw_tables w) key),
                     ss_chat_only := session_chat_only (sw_tables w) key\<rparr>
                else s0\<lparr>ss_messages := load_file w key\<rparr>);
          s2 = (if ss_channel s1 = [] \<and> sw_db w then
                  (case lookup_session_triple (sw_tables w) key of
                     (ch, acc, ct) \<Rightarrow> if ch \<noteq> [] then s1\<lparr>ss_channel := ch, ss_account := acc, ss_chat := ct\<rparr> else s1)
                else s1);
          s3 = (if ss_project s2 = [] then s2\<lparr>ss_project := manager_lookup_project w key\<rparr> else s2)
      in heal_interrupted_turn (w, s3))"

definition get_by_key :: "string \<Rightarrow> string \<Rightarrow> string \<Rightarrow> string \<Rightarrow> string \<Rightarrow> manager_state \<Rightarrow> session \<times> manager_state" where
  "get_by_key key channel account chat project = (\<lambda>(w, c).
     case map_of c key of
       Some s \<Rightarrow> (let s' = reload_cached channel account chat project w s in (s', (w, AList.update key s' c)))
     | None \<Rightarrow> (case cold_load key channel account chat project w of (w', s) \<Rightarrow> (s, (w', AList.update key s c))))"

definition manager_get :: "string \<Rightarrow> string \<Rightarrow> string \<Rightarrow> string \<Rightarrow> string \<Rightarrow> manager_state \<Rightarrow> session \<times> manager_state" where
  "manager_get minted channel account chat project x =
     get_by_key (resolve_or_mint_key minted channel account chat (fst x)) channel account chat project x"

section \<open>Creation and administration\<close>

definition open_new_session :: "string \<Rightarrow> string \<Rightarrow> string \<Rightarrow> string \<Rightarrow> manager_state \<Rightarrow> manager_state" where
  "open_new_session key channel account chat = (\<lambda>(w, c).
     let w' = (if sw_db w
               then w\<lparr>sw_tables := adapter_save_session (sw_now w) key channel account chat [] [] (sw_tables w)\<rparr> else w)
     in (w', AList.update key (fresh_session key channel account chat []) c))"

definition open_fork_session ::
    "string \<Rightarrow> string \<Rightarrow> string \<Rightarrow> string \<Rightarrow> string \<Rightarrow> string \<Rightarrow> int \<Rightarrow> manager_state \<Rightarrow> manager_state" where
  "open_fork_session key channel account chat project parent seq = (\<lambda>(w, c).
     let chat' = (if channel = ''web'' then key else chat);
         w' = (if sw_db w
               then w\<lparr>sw_tables := adapter_create_fork (sw_now w) key channel account chat' project parent seq (sw_tables w)\<rparr>
               else w)
     in (w', AList.update key ((fresh_session key channel account chat' project)\<lparr>ss_parent := parent, ss_fork_seq := seq\<rparr>) c))"

text \<open>With a store; the file of a session without one is removed elsewhere.\<close>

definition delete_session_by_id :: "string \<Rightarrow> manager_state \<Rightarrow> store_error option \<times> manager_state" where
  "delete_session_by_id token = (\<lambda>(w, c).
     let key = resolve_session_key w token in
     case delete_session key (sw_tables w) of
       (Some e, t) \<Rightarrow> (Some e, (w\<lparr>sw_tables := t\<rparr>, c))
     | (None, t) \<Rightarrow> (None, (w\<lparr>sw_tables := t\<rparr>, AList.delete key c)))"

definition rename_session_by_id :: "string \<Rightarrow> string \<Rightarrow> manager_state \<Rightarrow> manager_state" where
  "rename_session_by_id token title = (\<lambda>(w, c).
     (w\<lparr>sw_tables := rename_session (resolve_session_key w token) title (sw_tables w)\<rparr>, c))"

definition move_session_by_id :: "string \<Rightarrow> string \<Rightarrow> manager_state \<Rightarrow> manager_state" where
  "move_session_by_id token project = (\<lambda>(w, c).
     let key = resolve_session_key w token; c' = AList.map_entry key (\<lambda>s. s\<lparr>ss_project := project\<rparr>) c in
     (if sw_db w then w\<lparr>sw_tables := move_session key project (sw_tables w)\<rparr> else w, c'))"

definition set_chat_only_by_id :: "string \<Rightarrow> bool \<Rightarrow> manager_state \<Rightarrow> manager_state" where
  "set_chat_only_by_id token on = (\<lambda>(w, c).
     let key = resolve_session_key w token; c' = AList.map_entry key (\<lambda>s. s\<lparr>ss_chat_only := on\<rparr>) c in
     (if sw_db w then w\<lparr>sw_tables := set_session_chat_only key on (sw_tables w)\<rparr> else w, c'))"

section \<open>The agent's operations\<close>

definition recover_web_triple :: "session_world \<Rightarrow> string \<Rightarrow> string \<times> string \<times> string \<times> string" where
  "recover_web_triple w token =
     (if \<not> session_exists w token then (''web'', [], token, [])
      else
        (case manager_lookup_triple w token of
           (ch, acc, ct) \<Rightarrow>
             if ch \<noteq> [] \<or> ct \<noteq> []
             then (if ch = [] then ''web'' else ch, acc, if ct \<noteq> [] then ct else token, manager_lookup_project w token)
             else (''web'', [], token, manager_lookup_project w token)))"

definition web_chat_session :: "string \<Rightarrow> string \<Rightarrow> string \<Rightarrow> manager_state \<Rightarrow> session \<times> manager_state" where
  "web_chat_session minted token hint x =
     (case recover_web_triple (fst x) (if token = [] then ''web-ui'' else token) of
        (ch, acc, ct, pr) \<Rightarrow> manager_get minted ch acc ct (if pr = [] then hint else pr) x)"

definition rollback_pending_user_web :: "string \<Rightarrow> string \<Rightarrow> string \<Rightarrow> manager_state \<Rightarrow> bool \<times> manager_state" where
  "rollback_pending_user_web minted token hint x =
     (case web_chat_session minted token hint x of
        (s, (w, c)) \<Rightarrow>
          (case rollback_last_user (w, s) of
             (n, (w1, s1)) \<Rightarrow>
               if n = 0 then (False, (w, c))
               else (True, cache_session
                 (if sw_db w1 then w1\<lparr>sw_tables := snd (delete_last_user_messages (ss_key s1) n (sw_tables w1))\<rparr> else w1, s1) c)))"

definition steer_message :: "int \<Rightarrow> string \<Rightarrow> message" where
  "steer_message now text = (blank_message ''user'' text)\<lparr>mg_timestamp := now\<rparr>"

definition steer_web :: "string \<Rightarrow> string \<Rightarrow> string \<Rightarrow> string \<Rightarrow> manager_state \<Rightarrow> bool \<times> manager_state" where
  "steer_web minted token hint text x =
     (case web_chat_session minted token hint x of
        (s, (w, c)) \<Rightarrow> (case push_steer_if_active (steer_message (sw_now w) text) s of (ok, s') \<Rightarrow> (ok, cache_session (w, s') c)))"

definition agent_fork_session :: "string \<Rightarrow> string \<Rightarrow> int \<Rightarrow> manager_state \<Rightarrow> string option \<times> manager_state" where
  "agent_fork_session minted source seq x =
     (let key = resolve_session_key (fst x) source in
      if key = [] then (None, x)
      else (Some minted, open_fork_session minted ''web'' [] [] (manager_lookup_project (fst x) key) key seq x))"

text \<open>\<^verbatim>\<open>flushLeftoverSteer\<close>, and the loop's fold of drained messages into the history (\<^verbatim>\<open>appendSteer\<close>).\<close>

definition flush_leftover_steer :: "session_state \<Rightarrow> session_state" where
  "flush_leftover_steer = (\<lambda>(w, s). case end_turn s of (left, s') \<Rightarrow> fold append_message left (w, s'))"

definition absorb_steer :: "session_state \<Rightarrow> session_state" where
  "absorb_steer = (\<lambda>(w, s). case drain_steer s of (msgs, s') \<Rightarrow> fold append_message msgs (w, s'))"

text \<open>A regex hook that answers in place of the model.\<close>

definition regex_hook_turn :: "message list \<Rightarrow> bool \<Rightarrow> session_state \<Rightarrow> session_state" where
  "regex_hook_turn msgs feed = (\<lambda>(w, s).
     if feed then
       (case fold append_message msgs (w, begin_turn s) of (w', s') \<Rightarrow> (w', snd (end_turn s')))
     else append_archived_hidden msgs (w, s))"

datatype slash_reply = Retry_empty | Retry_doing string | Undo_nothing | Undo_turn | Undo_action | Compact_empty | Compact_done nat nat | Compact_skip

fun last_user_index :: "message list \<Rightarrow> nat option" where
  "last_user_index [] = None"
| "last_user_index (m # ms) =
     (case last_user_index ms of Some i \<Rightarrow> Some (Suc i) | None \<Rightarrow> if mg_role m = ''user'' then Some 0 else None)"

definition slash_retry :: "session_state \<Rightarrow> slash_reply \<times> session_state" where
  "slash_retry = (\<lambda>(w, s).
     case last_user_index (ss_messages s) of
       None \<Rightarrow> (Retry_empty, (w, s))
     | Some i \<Rightarrow> (Retry_doing (mg_content (ss_messages s ! i)), replace_messages (take i (ss_messages s)) (w, take_snapshot s)))"

definition undo_cut :: "message list \<Rightarrow> message list" where
  "undo_cut ms =
     (let rest = dropWhile (\<lambda>m. mg_role m = ''assistant'') (rev ms) in
      rev (case rest of m # r \<Rightarrow> if mg_role m = ''user'' then r else rest | [] \<Rightarrow> []))"

definition slash_undo :: "session_state \<Rightarrow> slash_reply \<times> session_state" where
  "slash_undo = (\<lambda>(w, s).
     if ss_snapshot s = None then
       (if length (ss_messages s) < 2 then (Undo_nothing, (w, s))
        else (Undo_turn, replace_messages (undo_cut (ss_messages s)) (w, s)))
     else (case undo_session (w, s) of (ok, x) \<Rightarrow> (if ok then Undo_action else Undo_nothing, x)))"

definition slash_compact :: "(string \<Rightarrow> string option) \<Rightarrow> int \<Rightarrow> session_state \<Rightarrow> slash_reply \<times> session_state" where
  "slash_compact chat threshold = (\<lambda>(w, s).
     if ss_messages s = [] then (Compact_empty, (w, s))
     else (let r = compact_messages chat threshold (ss_messages s) in
       if cr_pruned r then (Compact_done (length (ss_messages s)) (length (cr_messages r)), replace_messages (cr_messages r) (w, s))
       else (Compact_skip, (w, s))))"

definition session_start_time :: "session_world \<Rightarrow> session \<Rightarrow> int" where
  "session_start_time w s =
     (if ss_messages s \<noteq> [] \<and> mg_timestamp (hd (ss_messages s)) \<noteq> 0 then mg_timestamp (hd (ss_messages s)) else sw_now w)"

text \<open>The session part of the messages that a turn and a plan-mode turn send.\<close>

definition turn_context :: "session_state \<Rightarrow> message list" where
  "turn_context x = parent_prefix_messages x @ ss_messages (snd x)"

definition plan_context :: "session_state \<Rightarrow> message list" where
  "plan_context x =
     (let m1 = parent_prefix_messages x @ ss_messages (snd x) in parent_prefix_messages x @ m1)"

definition turn_compaction_threshold :: "int \<Rightarrow> session_state \<Rightarrow> int" where
  "turn_compaction_threshold threshold x =
     (let pt = estimate_tokens (parent_prefix_messages x) in
      if parent_prefix_messages x \<noteq> [] \<and> pt > 0 \<and> threshold > pt then threshold - pt else threshold)"

text \<open>The window of the archive that the history panel shows; the inherited part is numbered below zero.\<close>

definition history_window :: "int \<Rightarrow> int \<Rightarrow> session_state \<Rightarrow> message list \<times> int \<times> bool" where
  "history_window before_seq limit x =
     (let lim = nat (if limit \<le> 0 \<or> limit > 200 then 50 else limit);
          all_msgs = archived_messages x;
          window = (if before_seq > 0 then takeWhile (\<lambda>m. mg_seq m < before_seq) all_msgs else all_msgs);
          page = drop (length window - lim) window;
          parent = parent_prefix_messages x;
          offset = - (ss_fork_seq (snd x) + 1);
          shifted = map (\<lambda>(i, m). m\<lparr>mg_seq := offset + int i\<rparr>) (List.enumerate 0 parent)
      in (shifted @ page, (case page of [] \<Rightarrow> 0 | m # _ \<Rightarrow> mg_seq m), length window > lim))"

end
