(* ===== verification/Session_Repair.thy ===== *)
theory Session_Repair
  imports Session_Log "HOL-Library.Sublist"
begin

text \<open>
  What the repair of a session guarantees: a history whose last turn was cut off is closed, whether
  the turn ended (\<^verbatim>\<open>PadOrphanToolResultsAndMarkAborted\<close>) or the process died
  (\<^verbatim>\<open>healInterruptedTurn\<close>), and repairing it again changes nothing.
\<close>

lemma stamp_shape [simp]:
  "mg_role (stamp_message w s m) = mg_role m" "mg_calls (stamp_message w s m) = mg_calls m"
  "mg_call_id (stamp_message w s m) = mg_call_id m" "mg_origin (stamp_message w s m) = mg_origin m"
  "mg_meta (stamp_message w s m) = mg_meta m" "is_tool (stamp_message w s m) = is_tool m"
  "opened (stamp_message w s m) = opened m" "has_calls (stamp_message w s m) = has_calls m"
  by (simp_all add: stamp_message_def Let_def is_tool_def opened_def has_calls_def)

lemma append_message_messages:
  "ss_messages (snd (append_message m x)) = ss_messages (snd x) @ [stamp_message (fst x) (snd x) m]"
  by (cases x) (simp add: append_message_def Let_def)

lemma append_message_rest:
  "snd (append_message m x) = (snd x)\<lparr>ss_messages := ss_messages (snd x) @ [stamp_message (fst x) (snd x) m]\<rparr>"
  by (cases x) (simp add: append_message_def Let_def)

text \<open>The open calls of a history are those of its latest calls that have no result behind them.\<close>

definition answered_ids :: "message list \<Rightarrow> string list" where
  "answered_ids ms = map mg_call_id (List.filter is_tool ms)"

lemma answered_ids_Nil [simp]: "answered_ids [] = []"
  by (simp add: answered_ids_def)

lemma answered_ids_snoc: "answered_ids (ms @ [m]) = answered_ids ms @ (if is_tool m then [mg_call_id m] else [])"
  by (simp add: answered_ids_def)

definition open_calls :: "message list \<Rightarrow> string list" where
  "open_calls ms =
     (case latest_calls ms of None \<Rightarrow> []
      | Some (calls, later) \<Rightarrow> List.filter (\<lambda>i. i \<notin> set (answered_ids later)) (map tcl_id calls))"

lemma latest_calls_snoc:
  "latest_calls (ms @ [m]) =
     (if has_calls m then Some (mg_calls m, []) else map_option (\<lambda>(calls, later). (calls, later @ [m])) (latest_calls ms))"
  by (simp add: latest_calls_def del: dropWhile_eq_Nil_conv split: list.split)

lemma has_calls_opened: "opened m = (if has_calls m then map tcl_id (mg_calls m) else [])"
  by (auto simp: opened_def has_calls_def)

lemma open_calls_tool:
  assumes "is_tool m"
  shows "open_calls (ms @ [m]) = List.filter (\<lambda>i. i \<noteq> mg_call_id m) (open_calls ms)"
proof -
  have "\<not> has_calls m" using assms by (simp add: is_tool_def has_calls_def)
  with assms show ?thesis
    by (auto simp: open_calls_def latest_calls_snoc answered_ids_snoc split: option.split intro!: filter_cong)
qed

lemma open_calls_other:
  assumes "\<not> is_tool m"
  shows "open_calls (ms @ [m]) = (if has_calls m then map tcl_id (mg_calls m) else open_calls ms)"
proof (cases "latest_calls ms")
  case None
  with assms show ?thesis by (simp add: open_calls_def latest_calls_snoc)
next
  case (Some p)
  with assms show ?thesis by (cases p) (simp add: open_calls_def latest_calls_snoc answered_ids_snoc)
qed

lemma pending_is_open: "pending_after [] ms = Some ids \<Longrightarrow> ids = open_calls ms"
proof (induction ms arbitrary: ids rule: rev_induct)
  case Nil
  then show ?case by (simp add: open_calls_def latest_calls_def)
next
  case (snoc m ms)
  then obtain ids0 where ids0: "pending_after [] ms = Some ids0" and step: "pending_after ids0 [m] = Some ids"
    by (auto simp: pending_after_append split: option.splits)
  have open0: "ids0 = open_calls ms" using snoc.IH ids0 by simp
  show ?case
  proof (cases "is_tool m")
    case True
    with step open0 show ?thesis by (simp add: open_calls_tool split: if_splits)
  next
    case False
    with step open0 show ?thesis by (simp add: open_calls_other has_calls_opened split: if_splits)
  qed
qed

definition calls_named :: "message list \<Rightarrow> bool" where
  "calls_named ms = list_all (\<lambda>m. list_all (\<lambda>c. tcl_id c \<noteq> []) (mg_calls m)) ms"

lemma latest_calls_named: "calls_named ms \<Longrightarrow> latest_calls ms = Some (calls, later) \<Longrightarrow> list_all (\<lambda>c. tcl_id c \<noteq> []) calls"
proof (induction ms arbitrary: calls later rule: rev_induct)
  case (snoc m ms)
  then show ?case by (auto simp: calls_named_def latest_calls_snoc split: if_splits)
qed (simp add: latest_calls_def)

lemma missing_are_open:
  assumes "calls_named ms" and "latest_calls ms = Some (calls, later)"
  shows "map tcl_id (List.filter (\<lambda>c. tcl_id c \<notin> set (resolved_ids later)) calls) = open_calls ms"
proof -
  have "c \<in> set calls \<Longrightarrow> tcl_id c \<in> set (resolved_ids later) \<longleftrightarrow> tcl_id c \<in> set (answered_ids later)" for c
    using latest_calls_named [OF assms] by (auto simp: resolved_ids_def answered_ids_def list_all_iff)
  then have "List.filter (\<lambda>c. tcl_id c \<notin> set (resolved_ids later)) calls
      = List.filter (\<lambda>c. tcl_id c \<notin> set (answered_ids later)) calls"
    by (intro filter_cong) auto
  then show ?thesis using assms(2) by (simp add: open_calls_def filter_map comp_def)
qed

text \<open>The pads, in the order of the calls.\<close>

lemma fold_append_shape:
  "\<exists>new. ss_messages (snd (fold (\<lambda>c. append_message (pad_message pad c)) cs x)) = ss_messages (snd x) @ new
     \<and> list_all2 (\<lambda>c m. is_tool m \<and> mg_call_id m = tcl_id c \<and> mg_meta m = None \<and> mg_calls m = []) cs new"
proof (induction cs arbitrary: x)
  case (Cons c cs)
  from Cons [of "append_message (pad_message pad c) x"] show ?case
    by (fastforce simp: append_message_messages pad_message_def blank_message_def is_tool_def)
qed simp

lemma pending_pads:
  "list_all2 (\<lambda>c m. is_tool m \<and> mg_call_id m = tcl_id c \<and> P m) cs new \<Longrightarrow> distinct (map tcl_id cs)
   \<Longrightarrow> pending_after (map tcl_id cs) new = Some []"
proof (induction cs new rule: list_all2_induct)
  case (Cons c cs m new)
  then have "List.filter (\<lambda>i. i \<noteq> tcl_id c) (map tcl_id cs) = map tcl_id cs" by (intro filter_True) (auto simp: image_iff)
  with Cons show ?case by simp
qed simp

lemma pads_close:
  assumes "pending_after [] (ss_messages (snd x)) = Some ids" and "distinct ids" and "calls_named (ss_messages (snd x))"
    and run: "pad_orphan_tool_results pad x = (b, x')"
  shows "\<exists>new. ss_messages (snd x') = ss_messages (snd x) @ new \<and> well_paired (ss_messages (snd x'))
    \<and> calls_named (ss_messages (snd x')) \<and> (b \<longleftrightarrow> ids \<noteq> []) \<and> (b \<longleftrightarrow> new \<noteq> []) \<and> list_all is_tool new \<and> (\<not> b \<longrightarrow> x' = x)"
proof -
  obtain w s where x: "x = (w, s)" by (cases x)
  have ids: "ids = open_calls (ss_messages s)" using pending_is_open assms(1) x by auto
  show ?thesis
  proof (cases "latest_calls (ss_messages s)")
    case None
    with run x ids assms show ?thesis
      by (auto simp: pad_orphan_tool_results_def open_calls_def well_paired_def)
  next
    case (Some p)
    then obtain calls later where p: "latest_calls (ss_messages s) = Some (calls, later)" by (cases p) auto
    define cs where "cs = List.filter (\<lambda>c. tcl_id c \<notin> set (resolved_ids later)) calls"
    have cs: "map tcl_id cs = ids" using missing_are_open [OF _ p] assms(3) x ids by (simp add: cs_def)
    have run': "b = (cs \<noteq> [])" "x' = fold (\<lambda>c. append_message (pad_message pad c)) cs x"
      using run p by (simp_all add: pad_orphan_tool_results_def x cs_def Let_def)
    obtain new where new: "ss_messages (snd x') = ss_messages (snd x) @ new"
      and shape: "list_all2 (\<lambda>c m. is_tool m \<and> mg_call_id m = tcl_id c \<and> mg_meta m = None \<and> mg_calls m = []) cs new"
      using fold_append_shape [of pad cs x] unfolding run'(2) [symmetric] by blast
    have "pending_after (map tcl_id cs) new = Some []"
      by (rule pending_pads [OF list_all2_mono [OF shape]]) (use cs assms(2) in auto)
    then have "pending_after [] (ss_messages (snd x')) = Some []"
      using assms(1) by (simp only: new cs pending_after_append option.case)
    moreover have "calls_named new" "list_all is_tool new" "(cs \<noteq> []) = (new \<noteq> [])"
      using shape by (auto simp: calls_named_def list_all2_conv_all_nth list_all_length)
    moreover have "(cs \<noteq> []) = (ids \<noteq> [])" using cs by auto
    moreover have "\<not> b \<Longrightarrow> x' = x" using run' by simp
    ultimately show ?thesis
      using new run'(1) assms(3) by (intro exI [of _ new]) (simp add: well_paired_def calls_named_def)
  qed
qed

lemma claim_abort_shape:
  "\<exists>new. ss_messages (snd (claim_abort cause x)) = ss_messages (snd x) @ new
     \<and> (new = [] \<and> claim_abort cause x = x \<and> (\<exists>m \<in> set (ss_messages (snd x)). mget (mg_meta m) ''turnAborted'' = Some (GBool True))
        \<or> (\<exists>m. new = [m] \<and> \<not> is_tool m \<and> opened m = [] \<and> mg_calls m = [] \<and> mg_origin m = ''turn_abort''
             \<and> mg_role m = ''user'' \<and> mget (mg_meta m) ''turnAborted'' = Some (GBool True)))"
  by (cases x) (auto simp: claim_abort_def append_claim_once_def append_message_messages abort_marker_def blank_message_def
      is_tool_def opened_def mget_def)

lemma claim_abort_closed:
  assumes "well_paired (ss_messages (snd x))" and "calls_named (ss_messages (snd x))"
  shows "well_paired (ss_messages (snd (claim_abort cause x))) \<and> calls_named (ss_messages (snd (claim_abort cause x)))"
  using claim_abort_shape [of cause x] assms
  by (auto simp: well_paired_def pending_after_append calls_named_def)

text \<open>A closed history without an unanswered tail, or with the marker already claimed, is not repaired again.\<close>

lemma pad_closed: "well_paired (ss_messages (snd x)) \<Longrightarrow> calls_named (ss_messages (snd x)) \<Longrightarrow> pad_orphan_tool_results pad x = (False, x)"
  using pads_close [of x "[]" pad] by (cases "pad_orphan_tool_results pad x") (auto simp: well_paired_def)

lemma claim_abort_again:
  "\<exists>m \<in> set (ss_messages (snd x)). mget (mg_meta m) ''turnAborted'' = Some (GBool True) \<Longrightarrow> claim_abort cause x = x"
  by (cases x) (auto simp: claim_abort_def append_claim_once_def)

lemma claim_abort_claims:
  "\<exists>m \<in> set (ss_messages (snd (claim_abort cause x))). mget (mg_meta m) ''turnAborted'' = Some (GBool True)"
  using claim_abort_shape [of cause x] by auto

lemma heal_after_claim:
  assumes "well_paired (ss_messages (snd x))" and "calls_named (ss_messages (snd x))"
    and "\<exists>m \<in> set (ss_messages (snd x)). mget (mg_meta m) ''turnAborted'' = Some (GBool True)"
  shows "heal_interrupted_turn x = x"
  using pad_closed [OF assms(1,2)] claim_abort_again [OF assms(3)] by (simp add: heal_interrupted_turn_def)

text \<open>
  C5. Whatever point a turn was cut off at, healing and ending the turn only add messages behind the
  history, the result is one that providers accept, and healing it again adds nothing.
\<close>
theorem repair_closes_history:
  assumes "pending_after [] (ss_messages (snd x)) = Some ids" and "distinct ids" and "calls_named (ss_messages (snd x))"
  shows "well_paired (ss_messages (snd (heal_interrupted_turn x)))
    \<and> well_paired (ss_messages (snd (pad_and_mark_aborted pad x)))
    \<and> prefix (ss_messages (snd x)) (ss_messages (snd (heal_interrupted_turn x)))
    \<and> prefix (ss_messages (snd x)) (ss_messages (snd (pad_and_mark_aborted pad x)))
    \<and> heal_interrupted_turn (heal_interrupted_turn x) = heal_interrupted_turn x"
proof -
  have closed: "well_paired (ss_messages (snd (claim_abort cause x'))) \<and> calls_named (ss_messages (snd (claim_abort cause x')))
      \<and> prefix (ss_messages (snd x)) (ss_messages (snd (claim_abort cause x')))
      \<and> heal_interrupted_turn (claim_abort cause x') = claim_abort cause x'"
    if "pad_orphan_tool_results t x = (b, x')" for t b x' cause
  proof -
    from pads_close [OF assms that] obtain new where new: "ss_messages (snd x') = ss_messages (snd x) @ new"
      "well_paired (ss_messages (snd x'))" "calls_named (ss_messages (snd x'))" by blast
    with claim_abort_closed [OF new(2,3)] claim_abort_shape [of cause x'] heal_after_claim [OF _ _ claim_abort_claims]
    show ?thesis by (metis append.assoc prefixI)
  qed
  have heal: "well_paired (ss_messages (snd (heal_interrupted_turn x)))
    \<and> prefix (ss_messages (snd x)) (ss_messages (snd (heal_interrupted_turn x)))
    \<and> heal_interrupted_turn (heal_interrupted_turn x) = heal_interrupted_turn x"
  proof -
    obtain b x' where Pair: "pad_orphan_tool_results tool_result_crash_note x = (b, x')" by (metis surj_pair)
    with pads_close [OF assms Pair] closed [OF Pair] show ?thesis
      by (cases b) (auto simp: heal_interrupted_turn_def split: if_splits)
  qed
  have "well_paired (ss_messages (snd (pad_and_mark_aborted pad x)))
    \<and> prefix (ss_messages (snd x)) (ss_messages (snd (pad_and_mark_aborted pad x)))"
  proof -
    obtain b x' where Pair: "pad_orphan_tool_results pad x = (b, x')" by (metis surj_pair)
    with pads_close [OF assms Pair] closed [OF Pair] show ?thesis
      by (cases b) (auto simp: pad_and_mark_aborted_def)
  qed
  with heal show ?thesis by blast
qed

text \<open>A turn that died after the first of its two results.\<close>

definition cut_off_history :: "message list" where
  "cut_off_history =
     [blank_message ''user'' ''go'',
      (blank_message ''assistant'' [])\<lparr>mg_calls := [\<lparr>tcl_id = ''a'', tcl_name = ''exec'', tcl_args = []\<rparr>,
                                                  \<lparr>tcl_id = ''b'', tcl_name = ''exec'', tcl_args = []\<rparr>]\<rparr>,
      (blank_message ''tool'' ''ok'')\<lparr>mg_call_id := ''a''\<rparr>]"

theorem repair_closes_history_witness:
  "pending_after [] cut_off_history = Some [''b'']
   \<and> well_paired (ss_messages (snd (heal_interrupted_turn
        (empty_world 9, (fresh_session ''s'' ''web'' [] ''s'' [])\<lparr>ss_messages := cut_off_history\<rparr>))))"
proof -
  have pending: "pending_after [] cut_off_history = Some [''b'']"
    by (simp add: cut_off_history_def blank_message_def is_tool_def opened_def)
  have named: "calls_named cut_off_history" by (simp add: cut_off_history_def calls_named_def blank_message_def)
  show ?thesis
    using repair_closes_history
      [of "(empty_world 9, (fresh_session ''s'' ''web'' [] ''s'' [])\<lparr>ss_messages := cut_off_history\<rparr>)" "[''b'']"]
      pending named by simp
qed

end
