(* ===== verification/Session_Laws.thy ===== *)
theory Session_Laws
  imports Session_Manager Session_Repair
begin

text \<open>
  Properties of sessions, the cache and forks: what a reload gives, where \<^verbatim>\<open>/undo\<close> ends,
  that the inherited part of a fork does not move, and that an accepted steering message is not lost.
\<close>

section \<open>Reload\<close>

definition restamp :: "int \<Rightarrow> message \<Rightarrow> message" where
  "restamp now m = m\<lparr>mg_seq := 0, mg_timestamp := now\<rparr>"

lemma restamp_time [simp]: "mg_timestamp (restamp now m) = now"
  by (simp add: restamp_def)

lemma get_after_append_archive:
  "adapter_get_session (adapter_append_message now k m t) key = adapter_get_session t key"
  by (simp add: adapter_append_message_def append_session_message_def adapter_get_session_def session_row_of_def)

lemma get_after_append:
  assumes "sw_db w" and "append_message m (w, s) = (w1, s1)"
  shows "adapter_get_session (sw_tables w1) (ss_key s) = Some (map (restamp (sw_now w)) (ss_messages s1)) \<and> sw_db w1 \<and> ss_key s1 = ss_key s"
  using assms
  by (auto simp: append_message_def Let_def get_after_append_archive save_working_set_def get_after_save restamp_def comp_def)

lemma reload_cached_messages:
  "ss_messages (reload_cached channel account chat project w s)
   = (if sw_db w then (case adapter_get_session (sw_tables w) (ss_key s) of None \<Rightarrow> ss_messages s | Some ms \<Rightarrow> ms) else ss_messages s)"
  by (simp add: reload_cached_def Let_def split: option.split)

lemma append_extends: "prefix (ss_messages (snd x)) (ss_messages (snd (append_message m x)))"
  by (simp add: append_message_messages)

lemma fold_append_extends: "prefix (ss_messages (snd x)) (ss_messages (snd (fold (\<lambda>c. append_message (f c)) cs x)))"
proof (induction cs arbitrary: x)
  case (Cons c cs)
  show ?case using append_extends [of x "f c"] Cons [of "append_message (f c) x"] prefix_order.trans by fastforce
qed simp

lemma pad_extends: "prefix (ss_messages (snd x)) (ss_messages (snd (snd (pad_orphan_tool_results pad x))))"
  using fold_append_extends [where f = "pad_message pad"]
  by (cases x) (auto simp: pad_orphan_tool_results_def Let_def split: option.split prod.split)

lemma claim_extends: "prefix (ss_messages (snd x)) (ss_messages (snd (claim_abort cause x)))"
  using claim_abort_shape [of cause x] by auto

lemma heal_extends: "prefix (ss_messages (snd x)) (ss_messages (snd (heal_interrupted_turn x)))"
  using pad_extends [of x tool_result_crash_note] claim_extends prefix_order.trans
  by (cases "pad_orphan_tool_results tool_result_crash_note x") (fastforce simp: heal_interrupted_turn_def split: bool.split)

lemma cold_load_extends:
  assumes "sw_db w" and "adapter_get_session (sw_tables w) key = Some ms"
  shows "prefix ms (ss_messages (snd (cold_load key channel account chat project w)))"
proof -
  have ss: "ss_messages (if P then s\<lparr>ss_channel := a, ss_account := b, ss_chat := d\<rparr> else s) = ss_messages s"
    "ss_messages (if P then s\<lparr>ss_project := a\<rparr> else s) = ss_messages s" for P s a b d by simp_all
  show ?thesis
    unfolding cold_load_def Let_def
    by (rule prefix_order.trans [OF _ heal_extends]) (use assms in \<open>auto split: prod.split\<close>)
qed

text \<open>
  Reading a session back from the store loses when its messages were written: whoever gets it
  after an append, from the cache or from a cold start, sees the time of that append on every
  message, and the start of the session moves with it.
\<close>
lemma reload_restamps_history:
  assumes "sw_db w" and "append_message m (w, s) = (w1, s1)" and "\<forall>s'. map_of c (ss_key s) = Some s' \<longrightarrow> ss_key s' = ss_key s"
    and "sw_now w \<noteq> 0"
  shows "prefix (map (restamp (sw_now w)) (ss_messages s1))
      (ss_messages (fst (get_by_key (ss_key s) channel account chat project (w1\<lparr>sw_now := later\<rparr>, c))))
    \<and> session_start_time w1 (fst (get_by_key (ss_key s) channel account chat project (w1\<lparr>sw_now := later\<rparr>, c))) = sw_now w"
proof -
  let ?got = "fst (get_by_key (ss_key s) channel account chat project (w1\<lparr>sw_now := later\<rparr>, c))"
  have stored: "adapter_get_session (sw_tables w1) (ss_key s) = Some (map (restamp (sw_now w)) (ss_messages s1))" and db: "sw_db w1"
    using get_after_append [OF assms(1,2)] by auto
  have pre: "prefix (map (restamp (sw_now w)) (ss_messages s1)) (ss_messages ?got)"
  proof (cases "map_of c (ss_key s)")
    case None
    with cold_load_extends [of "w1\<lparr>sw_now := later\<rparr>" "ss_key s"] stored db show ?thesis
      by (simp add: get_by_key_def split: prod.split) (metis snd_conv)
  next
    case (Some s')
    with assms(3) stored db show ?thesis by (simp add: get_by_key_def Let_def reload_cached_messages)
  qed
  have ne: "ss_messages s1 \<noteq> []" using append_message_messages [of m "(w, s)"] assms(2) by simp
  then obtain x xs where xs: "ss_messages s1 = x # xs" by (cases "ss_messages s1") auto
  with pre obtain ys where "ss_messages ?got = restamp (sw_now w) x # ys" by (auto simp: prefix_def)
  then have "session_start_time w1 ?got = sw_now w" using assms(4) by (simp add: session_start_time_def)
  with pre show ?thesis by blast
qed

theorem reload_restamps_history_witness:
  "\<exists>w1 s1. append_message ((blank_message ''user'' ''hi'')\<lparr>mg_timestamp := 5\<rparr>) (empty_world 9, fresh_session ''s'' ''web'' [] ''s'' [])
        = (w1, s1) \<and> session_start_time w1 s1 = 5
     \<and> session_start_time w1 (fst (get_by_key ''s'' [] [] [] [] (w1\<lparr>sw_now := 20\<rparr>, []))) = 9"
proof -
  let ?s = "fresh_session ''s'' ''web'' [] ''s'' []"
  obtain w1 s1 where run: "append_message ((blank_message ''user'' ''hi'')\<lparr>mg_timestamp := 5\<rparr>) (empty_world 9, ?s) = (w1, s1)"
    by (metis surj_pair)
  have "session_start_time w1 s1 = 5"
    using run by (auto simp: append_message_def Let_def stamp_message_def blank_message_def fresh_session_def session_start_time_def
        empty_world_def)
  with reload_restamps_history [OF _ run, of "[]" "[]" "[]" "[]" "[]" 20] run show ?thesis
    by (auto simp: fresh_session_def empty_world_def)
qed

section \<open>Undo\<close>

lemma reload_cache_session:
  assumes "sw_db w" and "adapter_get_session (sw_tables w) (ss_key s) = Some ms"
  shows "ss_messages (fst (get_by_key (ss_key s) channel account chat project (cache_session (w, s) c))) = ms"
  using assms by (simp add: cache_session_def get_by_key_def update_conv' reload_cached_messages Let_def)

text \<open>
  With a store, undo reports success and shows the snapshot, but the next message of the chat
  reads the session back as it was before the undo.
\<close>
lemma undo_is_lost_on_reload:
  assumes "sw_db w" and "ss_snapshot s = Some ms" and "adapter_get_session (sw_tables w) (ss_key s) = Some stored"
    and "slash_undo (w, s) = (reply, (w1, s1))"
  shows "reply = Undo_action \<and> ss_messages s1 = ms
    \<and> ss_messages (fst (get_by_key (ss_key s) channel account chat project (cache_session (w1, s1) c))) = stored"
proof -
  have run: "s1 = s\<lparr>ss_messages := ms, ss_snapshot := None, ss_consolidated := 0\<rparr>" "w1 = rewrite_file w s1" "reply = Undo_action"
    using assms(2,4) by (auto simp: slash_undo_def undo_session_def Let_def)
  have "sw_db w1" "adapter_get_session (sw_tables w1) (ss_key s1) = Some stored" "ss_key s1 = ss_key s"
    using assms(1,3) by (simp_all add: run(1,2) rewrite_file_def)
  with reload_cache_session [of w1 s1 stored] run show ?thesis by simp
qed

theorem undo_is_lost_on_reload_witness:
  "\<exists>w1 s1. slash_undo ((empty_world 9)\<lparr>sw_tables := adapter_save_session 8 ''s'' ''web'' [] ''s'' [] [] empty_tables\<rparr>,
        (fresh_session ''s'' ''web'' [] ''s'' [])\<lparr>ss_snapshot := Some [blank_message ''user'' ''hi'']\<rparr>) = (Undo_action, (w1, s1))
     \<and> length (ss_messages s1) = 1 \<and> ss_messages (fst (get_by_key ''s'' [] [] [] [] (cache_session (w1, s1) []))) = []"
proof -
  let ?w = "(empty_world 9)\<lparr>sw_tables := adapter_save_session 8 ''s'' ''web'' [] ''s'' [] [] empty_tables\<rparr>"
  let ?s = "(fresh_session ''s'' ''web'' [] ''s'' [])\<lparr>ss_snapshot := Some [blank_message ''user'' ''hi'']\<rparr>"
  obtain reply w1 s1 where run: "slash_undo (?w, ?s) = (reply, (w1, s1))" by (metis prod_cases3)
  have "adapter_get_session (sw_tables ?w) (ss_key ?s) = Some []" by (simp add: get_after_save fresh_session_def)
  from undo_is_lost_on_reload [OF _ _ this run, of "[blank_message ''user'' ''hi'']" "[]" "[]" "[]" "[]" "[]"] run
  show ?thesis by (simp add: empty_world_def fresh_session_def)
qed

text \<open>After a retry the stored session is the trimmed one, so undo does not bring the turn back.\<close>

lemma retry_then_stored:
  assumes "sw_db w" and "slash_retry (w, s) = (Retry_doing text, (w1, s1))" and "last_user_index (ss_messages s) = Some i"
  shows "adapter_get_session (sw_tables w1) (ss_key s1) = Some (map (restamp (sw_now w)) (take i (ss_messages s)))
    \<and> ss_snapshot s1 = Some (ss_messages s) \<and> sw_db w1"
  using assms
  by (auto simp: slash_retry_def replace_messages_def Let_def persist_session_def save_working_set_def get_after_save restamp_def
      take_snapshot_def comp_def)

text \<open>A session that others were forked from is not cleared: its row stays, and the next lookup reads it.\<close>

lemma clear_of_parent_is_reverted:
  assumes "sw_db w" and "\<exists>r \<in> set (tb_sessions (sw_tables w)). sr_parent r = ss_key s"
    and "adapter_get_session (sw_tables w) (ss_key s) = Some stored" and "clear_session (w, s) = (w1, s1)"
  shows "ss_messages s1 = []
    \<and> ss_messages (fst (get_by_key (ss_key s) channel account chat project (cache_session (w1, s1) c))) = stored"
proof -
  have run: "s1 = s\<lparr>ss_messages := [], ss_consolidated := 0\<rparr>" "w1 = w\<lparr>sw_tables := sw_tables w\<rparr>"
    using assms(1,2,4) by (auto simp: clear_session_def Let_def delete_session_def)
  have "sw_db w1" "adapter_get_session (sw_tables w1) (ss_key s1) = Some stored" "ss_key s1 = ss_key s"
    using assms(1,3) by (simp_all add: run)
  with reload_cache_session [of w1 s1 stored] run show ?thesis by simp
qed

section \<open>Pairing under the slash commands\<close>

lemma last_user_index_at: "last_user_index ms = Some i \<Longrightarrow> i < length ms \<and> mg_role (ms ! i) = ''user''"
  by (induction ms arbitrary: i) (auto split: option.splits if_splits)

lemma retry_keeps_pairing:
  assumes "well_paired (ss_messages s)"
  shows "well_paired (ss_messages (snd (snd (slash_retry (w, s)))))"
proof (cases "last_user_index (ss_messages s)")
  case None
  with assms show ?thesis by (simp add: slash_retry_def)
next
  case (Some i)
  from last_user_index_at [OF this] have "i < length (ss_messages s)" "\<not> is_tool (ss_messages s ! i)" by (auto simp: is_tool_def)
  with cut_well_paired [of "take i (ss_messages s)" "drop i (ss_messages s)" "[]"] assms
  have "well_paired (take i (ss_messages s))" by (simp add: well_paired_def hd_drop_conv_nth)
  with Some show ?thesis by (simp add: slash_retry_def replace_messages_def Let_def take_snapshot_def)
qed

section \<open>Forks\<close>

text \<open>The steps of the tables while a fork exists: everything but the deletion of the fork itself.\<close>

inductive table_step :: "string \<Rightarrow> session_tables \<Rightarrow> session_tables \<Rightarrow> bool" for child where
  step_append: "table_step child t (append_session_message k m t)"
| step_rollback: "table_step child t (snd (delete_last_user_messages k n t))"
| step_save: "table_step child t (save_session now rec t)"
| step_delete: "k \<noteq> child \<Longrightarrow> table_step child t (snd (delete_session k t))"
| step_rename: "table_step child t (rename_session k title t)"
| step_move: "table_step child t (move_session k project t)"
| step_chat_only: "table_step child t (set_session_chat_only k on t)"
| step_event: "append_session_event now k typ payload t = Inr (q, t') \<Longrightarrow> table_step child t t'"
| step_prune: "table_step child t (snd (prune_session_events before batch t))"

definition fork_inv :: "string \<Rightarrow> string \<Rightarrow> nat \<Rightarrow> stored_message list \<Rightarrow> session_tables \<Rightarrow> bool" where
  "fork_inv child parent q frozen t =
     (seqs_ok t \<and> (\<exists>r \<in> set (tb_sessions t). sr_key r = child \<and> sr_parent r = parent)
      \<and> q < length (archive_of t parent) \<and> take (Suc q) (archive_of t parent) = frozen
      \<and> mg_role (sm_body (archive_of t parent ! q)) \<noteq> ''user'')"

lemma seqs_ok_archives: "(\<And>k. archive_of t' k = archive_of t k) \<Longrightarrow> seqs_ok t' = seqs_ok t"
  by (simp add: seqs_ok_def)

lemma fork_inv_sessions:
  assumes "fork_inv child parent q frozen t" and "\<And>k. archive_of t' k = archive_of t k"
    and "\<And>r. r \<in> set (tb_sessions t) \<Longrightarrow> sr_key r = child \<Longrightarrow> sr_parent r = parent
      \<Longrightarrow> \<exists>r' \<in> set (tb_sessions t'). sr_key r' = child \<and> sr_parent r' = parent"
  shows "fork_inv child parent q frozen t'"
  using assms seqs_ok_archives [of t' t] by (auto simp: fork_inv_def)

lemma fork_inv_update_row:
  assumes "fork_inv child parent q frozen t" and "\<And>r. sr_key (f r) = sr_key r \<and> sr_parent (f r) = sr_parent r"
  shows "fork_inv child parent q frozen (update_session_row k f t)"
proof (rule fork_inv_sessions [OF assms(1)])
  show "archive_of (update_session_row k f t) k' = archive_of t k'" for k' by (simp add: update_session_row_def)
  fix r assume r: "r \<in> set (tb_sessions t)" "sr_key r = child" "sr_parent r = parent"
  show "\<exists>r' \<in> set (tb_sessions (update_session_row k f t)). sr_key r' = child \<and> sr_parent r' = parent"
    using r assms(2) by (intro bexI [of _ "if sr_key r = k then f r else r"]) (auto simp: update_session_row_def)
qed

lemma fork_inv_save: "fork_inv child parent q frozen t \<Longrightarrow> fork_inv child parent q frozen (save_session now rec t)"
proof (cases "session_row_of t (sr_key rec)")
  case None
  moreover assume "fork_inv child parent q frozen t"
  ultimately show ?thesis by (elim fork_inv_sessions) (auto simp: save_session_def)
next
  case (Some r0)
  have "save_session now rec t = update_session_row (sr_key rec)
      (\<lambda>r. r\<lparr>sr_messages := sr_messages rec, sr_count := length (sr_messages rec), sr_updated := now\<rparr>) t"
    using Some by (simp add: save_session_def update_session_row_def)
  moreover assume "fork_inv child parent q frozen t"
  ultimately show ?thesis using fork_inv_update_row by simp
qed

lemma fork_inv_append: "fork_inv child parent q frozen t \<Longrightarrow> fork_inv child parent q frozen (append_session_message k m t)"
  using append_seqs_ok [of t k m]
  by (auto simp: fork_inv_def append_archive nth_append) (auto simp: append_session_message_def)

lemma fork_inv_rollback:
  assumes "fork_inv child parent q frozen t"
  shows "fork_inv child parent q frozen (snd (delete_last_user_messages k n t))"
proof -
  obtain d t' where run: "delete_last_user_messages k n t = (d, t')" by (metis surj_pair)
  have ok: "seqs_ok t" using assms by (simp add: fork_inv_def)
  note spec = delete_last_spec [OF ok run]
  show ?thesis
  proof (cases "k = parent")
    case False
    with spec assms run show ?thesis by (auto simp: fork_inv_def)
  next
    case True
    let ?a = "archive_of t parent"
    have "q < length ?a - d"
    proof (rule ccontr)
      assume "\<not> q < length ?a - d"
      moreover have "q < length ?a" using assms by (simp add: fork_inv_def)
      ultimately have "?a ! q \<in> set (drop (length ?a - d) ?a)"
        using nth_mem [of "q - (length ?a - d)" "drop (length ?a - d) ?a"] by simp
      with spec True assms show False by (auto simp: fork_inv_def)
    qed
    with spec assms run True show ?thesis by (auto simp: fork_inv_def min_def)
  qed
qed

lemma fork_inv_delete:
  assumes "fork_inv child parent q frozen t" and "k \<noteq> child"
  shows "fork_inv child parent q frozen (snd (delete_session k t))"
proof (cases "fst (delete_session k t) = None")
  case False
  then have "snd (delete_session k t) = t" by (auto simp: delete_session_def split: if_splits)
  with assms show ?thesis by simp
next
  case True
  then have other: "k \<noteq> parent" using assms by (auto simp: delete_refused_iff fork_inv_def)
  have "tb_sessions (snd (delete_session k t)) = List.filter (\<lambda>r. sr_key r \<noteq> k) (tb_sessions t)"
    using True by (auto simp: delete_session_def split: if_splits)
  with assms other delete_session_seqs_ok [of t k] show ?thesis
    by (auto simp: fork_inv_def delete_session_archive)
qed

lemma fork_inv_step: "table_step child t t' \<Longrightarrow> fork_inv child parent q frozen t \<Longrightarrow> fork_inv child parent q frozen t'"
proof (induction rule: table_step.induct)
  case (step_event now k ty payload t q' t')
  then show ?case
    by (elim fork_inv_sessions) (auto simp: append_session_event_def Let_def split: if_splits)
next
  case (step_prune t before batch)
  then show ?case by (elim fork_inv_sessions) (auto simp: prune_session_events_exact)
qed (auto intro: fork_inv_append fork_inv_rollback fork_inv_save fork_inv_delete
      simp: rename_session_def move_session_def set_session_chat_only_def intro!: fork_inv_update_row)

lemma fork_inv_steps: "(table_step child)\<^sup>*\<^sup>* t t' \<Longrightarrow> fork_inv child parent q frozen t \<Longrightarrow> fork_inv child parent q frozen t'"
  by (induction rule: rtranclp_induct) (auto intro: fork_inv_step)

lemma fork_inv_prefix:
  assumes "fork_inv child (ss_parent s) q frozen (sw_tables w)" and "sw_db w" and "ss_parent s \<noteq> []" and "ss_fork_seq s = int q"
  shows "parent_prefix_messages (w, s) = map provider_message_from_stored frozen"
proof -
  have q: "q < length (archive_of (sw_tables w) (ss_parent s))" using assms(1) by (simp add: fork_inv_def)
  have "nat (int q + 1) = Suc q" by simp
  with q assms show ?thesis
    by (auto simp: parent_prefix_messages_def clamp_prefix_def Let_def adapter_list_messages_def fork_inv_def list_is_archive
        take_map)
qed

text \<open>
  The inherited part of a fork is frozen: as long as the fork exists, no append, rollback, save,
  deletion, rename, move or event of any session changes the messages that it takes from its parent,
  when it was made at a message that the user did not write.
\<close>
lemma fork_prefix_is_frozen:
  assumes "(table_step child)\<^sup>*\<^sup>* t t'" and "seqs_ok t" and "r \<in> set (tb_sessions t)" and "sr_key r = child"
    and "sr_parent r = ss_parent s" and "ss_parent s \<noteq> []" and "ss_fork_seq s = int q"
    and "q < length (archive_of t (ss_parent s))" and "mg_role (sm_body (archive_of t (ss_parent s) ! q)) \<noteq> ''user''"
    and "sw_db w"
  shows "parent_prefix_messages (w\<lparr>sw_tables := t'\<rparr>, s) = parent_prefix_messages (w\<lparr>sw_tables := t\<rparr>, s)"
proof -
  let ?f = "take (Suc q) (archive_of t (ss_parent s))"
  have inv: "fork_inv child (ss_parent s) q ?f t" using assms by (auto simp: fork_inv_def)
  from fork_inv_prefix [of child s q ?f "w\<lparr>sw_tables := t\<rparr>"] fork_inv_prefix [of child s q ?f "w\<lparr>sw_tables := t'\<rparr>"]
    inv fork_inv_steps [OF assms(1) inv] assms(6,7,10)
  show ?thesis by simp
qed

theorem fork_prefix_is_frozen_witness:
  "let m = session_message_from_provider 3 (blank_message ''assistant'' ''hello'');
       t = adapter_create_fork 4 ''b'' ''web'' [] ''b'' [] ''a'' 0 (append_session_message ''a'' m empty_tables);
       s = (fresh_session ''b'' ''web'' [] ''b'' [])\<lparr>ss_parent := ''a''\<rparr>;
       w = empty_world 5
   in parent_prefix_messages (w\<lparr>sw_tables := append_session_message ''a'' m t\<rparr>, s) = parent_prefix_messages (w\<lparr>sw_tables := t\<rparr>, s)
      \<and> length (parent_prefix_messages (w\<lparr>sw_tables := t\<rparr>, s)) = 1"
proof -
  define m where "m = session_message_from_provider 3 (blank_message ''assistant'' ''hello'')"
  define t where "t = adapter_create_fork 4 ''b'' ''web'' [] ''b'' [] ''a'' 0 (append_session_message ''a'' m empty_tables)"
  define s where "s = (fresh_session ''b'' ''web'' [] ''b'' [])\<lparr>ss_parent := ''a''\<rparr>"
  have arch: "archive_of t ''a'' = [m\<lparr>sm_seq := 0\<rparr>]"
    by (simp add: t_def adapter_create_fork_def append_archive) (simp add: archive_of_def empty_tables_def next_seq_def)
  have "seqs_ok empty_tables" by (simp add: seqs_ok_def archive_of_def empty_tables_def)
  then have ok: "seqs_ok t"
    unfolding t_def adapter_create_fork_def by (simp add: seqs_ok_archives [OF save_archive] append_seqs_ok)
  obtain r where r: "r \<in> set (tb_sessions t)" "sr_key r = ''b''" "sr_parent r = ''a''"
    by (auto simp: t_def adapter_create_fork_def save_session_def session_row_of_def append_session_message_def empty_tables_def
        blank_session_row_def)
  have "(table_step ''b'')\<^sup>*\<^sup>* t (append_session_message ''a'' m t)" by (blast intro: step_append)
  from fork_prefix_is_frozen [OF this ok r(1,2), of s 0 "empty_world 5"] r(3) arch
  have "parent_prefix_messages ((empty_world 5)\<lparr>sw_tables := append_session_message ''a'' m t\<rparr>, s)
      = parent_prefix_messages ((empty_world 5)\<lparr>sw_tables := t\<rparr>, s)"
    by (simp add: s_def fresh_session_def empty_world_def m_def session_message_from_provider_def blank_message_def)
  moreover have "length (parent_prefix_messages ((empty_world 5)\<lparr>sw_tables := t\<rparr>, s)) = 1"
    by (simp add: parent_prefix_messages_def clamp_prefix_def Let_def adapter_list_messages_def list_is_archive [OF ok] arch
        s_def fresh_session_def empty_world_def)
  ultimately show ?thesis by (simp add: Let_def m_def t_def s_def)
qed

text \<open>
  A fork of a fork takes the archive of the fork only, so what that one inherited itself is missing;
  and a plan-mode turn of a fork sends the inherited part twice.
\<close>

lemma fork_of_new_fork_inherits_nothing:
  "archive_of (sw_tables w) (ss_parent s) = [] \<Longrightarrow> parent_prefix_messages (w, s) = []"
  by (simp add: parent_prefix_messages_def clamp_prefix_def Let_def adapter_list_messages_def list_session_messages_def)

lemma plan_context_repeats_prefix: "plan_context x = parent_prefix_messages x @ turn_context x"
  by (simp add: plan_context_def turn_context_def)

section \<open>Steering\<close>

datatype turn_op = Op_begin | Op_try | Op_steer message | Op_say message | Op_absorb | Op_finish

fun turn_step :: "turn_op \<Rightarrow> session_state \<Rightarrow> session_state" where
  "turn_step Op_begin (w, s) = (w, begin_turn s)"
| "turn_step Op_try (w, s) = (w, snd (try_begin_turn s))"
| "turn_step (Op_steer m) (w, s) = (w, snd (push_steer_if_active m s))"
| "turn_step (Op_say m) x = append_message m x"
| "turn_step Op_absorb x = absorb_steer x"
| "turn_step Op_finish x = flush_leftover_steer x"

fun accepted :: "turn_op \<Rightarrow> session_state \<Rightarrow> message list" where
  "accepted (Op_steer m) (w, s) = (if fst (push_steer_if_active m s) then [m] else [])"
| "accepted _ _ = []"

fun turn_run :: "turn_op list \<Rightarrow> session_state \<Rightarrow> message list \<times> session_state" where
  "turn_run [] x = ([], x)"
| "turn_run (p # ps) x = (case turn_run ps (turn_step p x) of (acc, y) \<Rightarrow> (accepted p x @ acc, y))"

definition said :: "message \<Rightarrow> string \<times> string" where
  "said m = (mg_role m, mg_content m)"

definition steer_inv :: "session \<Rightarrow> bool" where
  "steer_inv s = (ss_depth s = 0 \<longrightarrow> ss_steer s = [])"

lemma said_stamp [simp]: "said (stamp_message w s m) = said m"
  by (simp add: said_def stamp_message_def Let_def)

lemma fold_append_said:
  "map said (ss_messages (snd (fold append_message ms x))) = map said (ss_messages (snd x)) @ map said ms
   \<and> ss_steer (snd (fold append_message ms x)) = ss_steer (snd x) \<and> ss_depth (snd (fold append_message ms x)) = ss_depth (snd x)"
  by (induction ms arbitrary: x) (auto simp: append_message_rest)

lemma turn_step_keeps:
  assumes "steer_inv (snd x)"
  shows "steer_inv (snd (turn_step p x))
    \<and> (\<exists>new. map said (ss_messages (snd (turn_step p x))) = map said (ss_messages (snd x)) @ new
        \<and> subseq (map said (ss_steer (snd x) @ accepted p x)) (new @ map said (ss_steer (snd (turn_step p x)))))"
proof (cases x)
  case (Pair w s)
  show ?thesis
  proof (cases p)
    case Op_absorb
    then show ?thesis
      using Pair fold_append_said [of "ss_steer s" "(w, s\<lparr>ss_steer := []\<rparr>)"]
      by (auto simp: absorb_steer_def drain_steer_def steer_inv_def)
  next
    case Op_finish
    then show ?thesis
      using Pair assms fold_append_said [of "ss_steer s" "(w, s\<lparr>ss_depth := ss_depth s - 1, ss_steer := []\<rparr>)"]
      by (auto simp: flush_leftover_steer_def end_turn_def Let_def steer_inv_def)
  qed (use Pair assms in \<open>auto simp: begin_turn_def try_begin_turn_def push_steer_if_active_def steer_inv_def append_message_rest\<close>)
qed

lemma turn_run_keeps:
  assumes "steer_inv (snd x)" and "turn_run ps x = (acc, y)"
  shows "steer_inv (snd y)
    \<and> (\<exists>new. map said (ss_messages (snd y)) = map said (ss_messages (snd x)) @ new
        \<and> subseq (map said (ss_steer (snd x) @ acc)) (new @ map said (ss_steer (snd y))))"
  using assms
proof (induction ps arbitrary: x acc)
  case (Cons p ps)
  obtain acc1 where run: "turn_run ps (turn_step p x) = (acc1, y)" and acc: "acc = accepted p x @ acc1"
    using Cons.prems(2) by (auto split: prod.splits)
  obtain n1 where inv1: "steer_inv (snd (turn_step p x))"
    and n1: "map said (ss_messages (snd (turn_step p x))) = map said (ss_messages (snd x)) @ n1"
      "subseq (map said (ss_steer (snd x) @ accepted p x)) (n1 @ map said (ss_steer (snd (turn_step p x))))"
    using turn_step_keeps [OF Cons.prems(1)] by blast
  obtain n2 where inv2: "steer_inv (snd y)"
    and n2: "map said (ss_messages (snd y)) = map said (ss_messages (snd (turn_step p x))) @ n2"
      "subseq (map said (ss_steer (snd (turn_step p x)) @ acc1)) (n2 @ map said (ss_steer (snd y)))"
    using Cons.IH [OF inv1 run] by blast
  have "subseq (map said (ss_steer (snd x) @ accepted p x) @ map said acc1) ((n1 @ map said (ss_steer (snd (turn_step p x)))) @ map said acc1)"
    using n1(2) by (intro list_emb_append_mono) auto
  moreover have "subseq (n1 @ map said (ss_steer (snd (turn_step p x)) @ acc1)) (n1 @ n2 @ map said (ss_steer (snd y)))"
    using n2(2) by (intro list_emb_append_mono) auto
  ultimately have "subseq (map said (ss_steer (snd x) @ acc)) ((n1 @ n2) @ map said (ss_steer (snd y)))"
    unfolding acc by (simp add: subseq_order.trans)
  with inv2 n1(1) n2(1) show ?case by (intro conjI exI [of _ "n1 @ n2"]) auto
qed auto



text \<open>A regex hook that feeds the model ends its turn without the leftovers, and they are gone.\<close>

lemma regex_hook_drops_steer:
  assumes "ss_depth s = 0" and "(\<exists>m. ss_steer s = [m])"
  shows "end_turn (begin_turn s) = (ss_steer s, s\<lparr>ss_steer := []\<rparr>)
    \<and> ss_steer (snd (regex_hook_turn [] True (w, s))) = []
    \<and> ss_messages (snd (regex_hook_turn [] True (w, s))) = ss_messages s"
  using assms by (auto simp: regex_hook_turn_def begin_turn_def end_turn_def)

end
