(* ===== verification/Turn_Retry.thy ===== *)
theory Turn_Retry
  imports Session_Messages
begin

text \<open>
  One call of the model within a turn (\<^verbatim>\<open>internal/agent/loop.go\<close>): the classification of its
  errors, the retries, the breaker for an exhausted quota (\<^verbatim>\<open>quota_breaker.go\<close>) and the
  recovery from a prompt that is too long. Durations are nanoseconds, as in Go; the attempts, the
  cancellation and the jitter are arguments indexed by the attempt.
\<close>

section \<open>Errors\<close>

text \<open>What \<^verbatim>\<open>errors.Is\<close> and \<^verbatim>\<open>errors.As\<close> find in the chain of an error.\<close>

record llm_error =
  le_text :: string
  le_stall :: bool
  le_canceled :: bool
  le_deadline :: bool
  le_http :: "(int \<times> string) option"     \<comment> \<open>status and body of an \<^verbatim>\<open>HTTPError\<close>\<close>
  le_retry_after :: "int option"            \<comment> \<open>its Retry-After in seconds\<close>
  le_network :: bool                        \<comment> \<open>a \<^verbatim>\<open>net.Error\<close>, EOF or unexpected EOF\<close>
  le_too_long :: bool                       \<comment> \<open>\<^verbatim>\<open>ErrContextTooLong\<close>\<close>
  le_quota_open :: bool

datatype category = Terminal | Context_length | Quota_exhausted | Connection | Retryable

definition utf8_text :: "nat list \<Rightarrow> string" where
  "utf8_text cs = concat (map encode_rune cs)"

definition quota_exhausted_body :: "string \<Rightarrow> bool" where
  "quota_exhausted_body body =
     (let b = to_lower body in
      str_contains b ''monthly quota'' \<or> str_contains b ''quota exceeded'' \<or> str_contains b ''quota has been exceeded''
      \<or> str_contains b ''insufficient balance'' \<or> (str_contains b ''account balance'' \<and> str_contains b ''not enough'')
      \<or> str_contains b (utf8_text [39069, 24230]) \<or> str_contains b (utf8_text [27424, 36153])
      \<or> str_contains b (utf8_text [20313, 39069, 19981, 36275]))"

definition prompt_too_long_body :: "string \<Rightarrow> bool" where
  "prompt_too_long_body body =
     (let b = to_lower body in
      str_contains b ''context length'' \<or> str_contains b ''too long'' \<or> str_contains b ''too many tokens''
      \<or> str_contains b ''maximum context'' \<or> str_contains b ''reduce the length'')"

definition classify_llm_error :: "llm_error \<Rightarrow> category" where
  "classify_llm_error e =
     (if le_stall e then Retryable
      else if le_canceled e \<or> le_deadline e then Terminal
      else case le_http e of
        None \<Rightarrow> if le_network e then Connection else Retryable
      | Some (code, body) \<Rightarrow>
          if code = 402 then Terminal
          else if code = 401 \<or> code = 403 then Terminal
          else if code = 413 then Context_length
          else if code = 400 then (if prompt_too_long_body body then Context_length else Retryable)
          else if code = 429 then (if quota_exhausted_body body then Quota_exhausted else Retryable)
          else Retryable)"

section \<open>Retries\<close>

definition second_ns :: int where "second_ns = 1000000000"

definition llm_retry_attempts :: nat where "llm_retry_attempts = 3"

text \<open>The loop of \<^verbatim>\<open>connRetryBackoff\<close>: rounds that are left, and the delay.\<close>

fun conn_backoff_loop :: "nat \<Rightarrow> int \<Rightarrow> int" where
  "conn_backoff_loop 0 d = d"
| "conn_backoff_loop (Suc k) d = (if d * 2 \<ge> 60 * second_ns then 60 * second_ns else conn_backoff_loop k (d * 2))"

definition conn_retry_backoff :: "nat \<Rightarrow> int" where
  "conn_retry_backoff attempt = conn_backoff_loop (attempt - 1) (5 * second_ns)"

text \<open>The jitter is what is added to the delay the server asked for, at most half of it.\<close>

definition retry_after_delay :: "int \<Rightarrow> llm_error \<Rightarrow> int option" where
  "retry_after_delay jitter e =
     (case le_http e of
        None \<Rightarrow> None
      | Some _ \<Rightarrow> (case le_retry_after e of
          None \<Rightarrow> None
        | Some secs \<Rightarrow> if secs \<le> 0 then None else Some (min (30 * second_ns) (secs * second_ns + jitter))))"

definition too_long_error :: "llm_error \<Rightarrow> llm_error" where
  "too_long_error e =
     \<lparr>le_text = ''context length exceeded: '' @ le_text e, le_stall = False, le_canceled = False, le_deadline = False,
      le_http = None, le_retry_after = None, le_network = False, le_too_long = True, le_quota_open = False\<rparr>"

definition canceled_while_waiting :: "llm_error \<Rightarrow> llm_error" where
  "canceled_while_waiting e = e\<lparr>le_canceled := True\<rparr>"

definition retry_backoff :: "nat \<Rightarrow> int \<Rightarrow> llm_error \<Rightarrow> int" where
  "retry_backoff attempt jitter e =
     (case retry_after_delay jitter e of
        Some d \<Rightarrow> d
      | None \<Rightarrow> if classify_llm_error e = Connection then conn_retry_backoff attempt
                else int (attempt * attempt) * second_ns)"

text \<open>
  What one failed attempt does: give up with an error, or wait and go on. The waits of the loop are
  collected newest first; a stop ends the wait after the attempt. Connection errors may keep the loop
  running for ever, then the result is \<^verbatim>\<open>None\<close>.
\<close>

datatype retry_step = Give_up llm_error | Wait int

definition after_failure :: "nat \<Rightarrow> int \<Rightarrow> llm_error \<Rightarrow> retry_step" where
  "after_failure attempt jitter e =
     (case classify_llm_error e of
        Terminal \<Rightarrow> Give_up e
      | Context_length \<Rightarrow> Give_up (too_long_error e)
      | Quota_exhausted \<Rightarrow> Give_up e
      | c \<Rightarrow> if c \<noteq> Connection \<and> attempt \<ge> llm_retry_attempts then Give_up e else Wait (retry_backoff attempt jitter e))"

partial_function (option) llm_retry ::
    "(nat \<Rightarrow> llm_error + 'r) \<Rightarrow> (nat \<Rightarrow> bool) \<Rightarrow> (nat \<Rightarrow> int) \<Rightarrow> nat \<Rightarrow> int list \<Rightarrow> ((llm_error + 'r) \<times> int list) option" where
  "llm_retry call stopped jitter attempt waits =
     (case call attempt of
        Inr r \<Rightarrow> Some (Inr r, waits)
      | Inl e \<Rightarrow> (case after_failure attempt (jitter attempt) e of
          Give_up e' \<Rightarrow> Some (Inl e', waits)
        | Wait d \<Rightarrow>
            if stopped attempt then Some (Inl (canceled_while_waiting e), d # waits)
            else llm_retry call stopped jitter (Suc attempt) (d # waits)))"

declare llm_retry.simps [code]

section \<open>The quota breaker\<close>

record quota_breaker =
  qb_tripped :: bool
  qb_reason :: string
  qb_tripped_at :: int
  qb_next_probe :: int
  qb_streak :: nat

definition new_breaker :: quota_breaker where
  "new_breaker = \<lparr>qb_tripped = False, qb_reason = [], qb_tripped_at = 0, qb_next_probe = 0, qb_streak = 0\<rparr>"

definition breaker_trip :: "string \<Rightarrow> int \<Rightarrow> int \<Rightarrow> quota_breaker \<Rightarrow> quota_breaker" where
  "breaker_trip reason now probe q =
     q\<lparr>qb_tripped_at := (if qb_tripped q then qb_tripped_at q else now), qb_tripped := True, qb_reason := reason,
       qb_next_probe := now + probe * 2 ^ min (qb_streak q) 6, qb_streak := Suc (qb_streak q)\<rparr>"

definition breaker_gate :: "int \<Rightarrow> quota_breaker \<Rightarrow> bool" where
  "breaker_gate now q = (qb_tripped q \<and> now < qb_next_probe q)"

definition breaker_clear :: "quota_breaker \<Rightarrow> quota_breaker" where
  "breaker_clear q = q\<lparr>qb_tripped := False, qb_reason := [], qb_next_probe := 0, qb_streak := 0\<rparr>"

definition quota_open_error :: "(int \<Rightarrow> string) \<Rightarrow> quota_breaker \<Rightarrow> llm_error" where
  "quota_open_error fmt q =
     \<lparr>le_text = ''provider quota exhausted (breaker open until '' @ fmt (qb_next_probe q) @ ''): '' @ qb_reason q, le_stall = False, le_canceled = False, le_deadline = False,
      le_http = None, le_retry_after = None, le_network = False, le_too_long = False, le_quota_open = True\<rparr>"

section \<open>Recovery from a prompt that is too long\<close>

definition is_system :: "message \<Rightarrow> bool" where
  "is_system m = (mg_role m = ''system'')"

text \<open>The split point: the loop goes back from the end over system messages.\<close>

definition recovery_split :: "message list \<Rightarrow> nat" where
  "recovery_split ms = length ms - length (takeWhile is_system (rev ms))"

definition recovery_messages :: "(string \<Rightarrow> string option) \<Rightarrow> int \<Rightarrow> message list \<Rightarrow> message list option" where
  "recovery_messages chat threshold ms =
     (let split = recovery_split ms in
      if split = 0 then None
      else let r = compact_messages chat (max (threshold div 2) 1000) (drop split ms) in
        if cr_pruned r then Some (take split ms @ cr_messages r) else None)"

record retry_env =
  re_stopped :: "nat \<Rightarrow> bool"
  re_jitter :: "nat \<Rightarrow> int"
  re_chat :: "string \<Rightarrow> string option"      \<comment> \<open>the model that summarises\<close>
  re_threshold :: int
  re_probe :: int                            \<comment> \<open>the first probe interval\<close>
  re_format :: "int \<Rightarrow> string"                 \<comment> \<open>a time as text\<close>

text \<open>
  The call itself, from the messages and the attempt, in the first and in the second_ns run; the
  clock when the gate is asked and when the breaker trips.
\<close>

definition call_llm_with_recovery ::
    "retry_env \<Rightarrow> (nat \<Rightarrow> message list \<Rightarrow> nat \<Rightarrow> llm_error + 'r) \<Rightarrow> int \<Rightarrow> int \<Rightarrow> message list \<Rightarrow> quota_breaker
     \<Rightarrow> (((llm_error + 'r) \<times> message list) \<times> quota_breaker) option" where
  "call_llm_with_recovery env call now later ms q =
     (if breaker_gate now q then Some ((Inl (quota_open_error (re_format env) q), ms), q)
      else case llm_retry (call 0 ms) (re_stopped env) (re_jitter env) 1 [] of
        None \<Rightarrow> None
      | Some (Inr r, _) \<Rightarrow> Some ((Inr r, ms), breaker_clear q)
      | Some (Inl e, _) \<Rightarrow>
          (let q' = (if classify_llm_error e = Quota_exhausted then breaker_trip (le_text e) later (re_probe env) q else q) in
           if \<not> le_too_long e then Some ((Inl e, ms), q')
           else (case recovery_messages (re_chat env) (re_threshold env) ms of
               None \<Rightarrow> Some ((Inl e, ms), q')
             | Some ms' \<Rightarrow>
                 (case llm_retry (call 1 ms') (re_stopped env) (re_jitter env) 1 [] of
                    None \<Rightarrow> None
                  | Some (r, _) \<Rightarrow> Some ((r, ms'), q')))))"

section \<open>Laws of the retries\<close>

lemma conn_backoff_loop_eq: "0 < d \<Longrightarrow> d < 60 * second_ns \<Longrightarrow> conn_backoff_loop k d = min (60 * second_ns) (d * 2 ^ k)"
proof (induction k arbitrary: d)
  case (Suc k)
  have grow: "d * 2 \<le> d * 2 ^ Suc k" using Suc.prems(1) by simp
  show ?case
  proof (cases "60 * second_ns \<le> d * 2")
    case True
    with grow have "60 * second_ns \<le> d * 2 ^ Suc k" by linarith
    with True show ?thesis by (simp add: min_def)
  next
    case False
    with Suc show ?thesis by (simp add: ac_simps)
  qed
qed (auto simp: min_def)

text \<open>Five seconds, doubling, one minute at most.\<close>

lemma conn_retry_backoff_eq: "conn_retry_backoff attempt = min (60 * second_ns) (5 * second_ns * 2 ^ (attempt - 1))"
  unfolding conn_retry_backoff_def by (rule conn_backoff_loop_eq) (simp_all add: second_ns_def)

lemma retry_backoff_bounds:
  assumes "1 \<le> attempt" and "attempt < 3 \<or> classify_llm_error e = Connection" and "0 \<le> jitter"
  shows "0 < retry_backoff attempt jitter e \<and> retry_backoff attempt jitter e \<le> 60 * second_ns"
proof -
  have conn: "0 < conn_retry_backoff attempt \<and> conn_retry_backoff attempt \<le> 60 * second_ns"
    by (auto simp: conn_retry_backoff_eq second_ns_def)
  have square: "0 < int (attempt * attempt) * second_ns \<and> int (attempt * attempt) * second_ns \<le> 60 * second_ns" if "attempt < 3"
  proof -
    have "attempt = 1 \<or> attempt = 2" using assms(1) that by linarith
    then show ?thesis by (auto simp: second_ns_def)
  qed
  have "0 < d \<and> d \<le> 60 * second_ns" if "retry_after_delay jitter e = Some d" for d
    using that assms(3) by (auto simp: retry_after_delay_def second_ns_def split: option.splits if_splits)
  with conn square assms(2) show ?thesis by (auto simp: retry_backoff_def split: option.splits)
qed

lemma llm_retry_step:
  "llm_retry call stopped jitter attempt waits =
     (case call attempt of
        Inr r \<Rightarrow> Some (Inr r, waits)
      | Inl e \<Rightarrow> (case after_failure attempt (jitter attempt) e of
          Give_up e' \<Rightarrow> Some (Inl e', waits)
        | Wait d \<Rightarrow>
            if stopped attempt then Some (Inl (canceled_while_waiting e), d # waits)
            else llm_retry call stopped jitter (Suc attempt) (d # waits)))"
  by (rule llm_retry.simps)

lemma after_failure_wait:
  "after_failure attempt j e = Wait d \<Longrightarrow> d = retry_backoff attempt j e \<and> (classify_llm_error e = Connection \<or> attempt < llm_retry_attempts)"
  by (auto simp: after_failure_def split: category.splits if_splits)

text \<open>An attempt that settles the loop: a result, an error that is not retried, or a stop.\<close>

definition settles :: "(nat \<Rightarrow> llm_error + 'r) \<Rightarrow> (nat \<Rightarrow> bool) \<Rightarrow> nat \<Rightarrow> bool" where
  "settles call stopped n =
     (stopped n \<or> (case call n of Inr _ \<Rightarrow> True
       | Inl e \<Rightarrow> classify_llm_error e \<noteq> Connection \<and> (classify_llm_error e \<noteq> Retryable \<or> llm_retry_attempts \<le> n)))"

lemma settles_step:
  assumes "settles call stopped n"
  shows "\<exists>r ws. llm_retry call stopped jitter n waits = Some (r, ws @ waits) \<and> length ws \<le> 1"
proof (cases "call n")
  case (Inr r)
  then show ?thesis by (subst llm_retry_step) simp
next
  case (Inl e)
  show ?thesis
  proof (cases "after_failure n (jitter n) e")
    case (Give_up e')
    with Inl show ?thesis by (subst llm_retry_step) simp
  next
    case (Wait d)
    with after_failure_wait [OF Wait] Inl assms have "stopped n"
      by (auto simp: settles_def after_failure_def split: category.splits if_splits)
    with Inl Wait show ?thesis by (subst llm_retry_step) (auto intro: exI [of _ "[d]"])
  qed
qed

lemma open_step:
  assumes "\<not> settles call stopped n"
  shows "\<exists>d. llm_retry call stopped jitter n waits = llm_retry call stopped jitter (Suc n) (d # waits)
    \<and> (\<exists>e. call n = Inl e \<and> d = retry_backoff n (jitter n) e \<and> (classify_llm_error e = Connection \<or> n < llm_retry_attempts))"
proof -
  obtain e where e: "call n = Inl e" using assms by (auto simp: settles_def split: sum.splits)
  with assms obtain d where d: "after_failure n (jitter n) e = Wait d"
    by (auto simp: settles_def after_failure_def split: category.splits if_splits)
  with after_failure_wait [OF d] e assms show ?thesis
    by (subst llm_retry_step) (auto simp: settles_def)
qed

lemma llm_retry_returns:
  "settles call stopped k \<Longrightarrow> n \<le> k \<Longrightarrow> \<exists>r ws. llm_retry call stopped jitter n waits = Some (r, ws @ waits) \<and> length ws \<le> Suc k - n"
proof (induction "k - n" arbitrary: n waits)
  case 0
  then show ?case using settles_step [of call stopped n jitter waits] by (metis Suc_diff_le diff_self_eq_0 le_antisym diff_is_0_eq One_nat_def)
next
  case (Suc m)
  show ?case
  proof (cases "settles call stopped n")
    case True
    from settles_step [OF True, of jitter waits] Suc show ?thesis by force
  next
    case False
    from open_step [OF this, of jitter waits] obtain d
      where d: "llm_retry call stopped jitter n waits = llm_retry call stopped jitter (Suc n) (d # waits)" by blast
    have "m = k - Suc n" "Suc n \<le> k" using Suc.hyps(2) by auto
    from Suc.hyps(1) [OF this(1) Suc.prems(1) this(2), of "d # waits"] obtain r ws where
      "llm_retry call stopped jitter (Suc n) (d # waits) = Some (r, ws @ d # waits)" "length ws \<le> Suc k - Suc n" by blast
    with d Suc.hyps(2) show ?thesis by (intro exI [of _ r] exI [of _ "ws @ [d]"]) auto
  qed
qed

text \<open>Without connection errors three attempts are the most.\<close>

lemma third_settles:
  "(\<forall>n e. call n = Inl e \<longrightarrow> classify_llm_error e \<noteq> Connection) \<Longrightarrow> settles call stopped llm_retry_attempts"
  by (auto simp: settles_def split: sum.split)



section \<open>Laws of the recovery\<close>

lemma recovery_split_le: "recovery_split ms \<le> length ms"
  by (simp add: recovery_split_def)

lemma drop_recovery_split: "drop (recovery_split ms) ms = rev (takeWhile is_system (rev ms))"
proof -
  define b where "b = rev (takeWhile is_system (rev ms))"
  have "ms = rev (dropWhile is_system (rev ms)) @ b"
    unfolding b_def by (metis rev_append rev_rev_ident takeWhile_dropWhile_id)
  then obtain a where ms: "ms = a @ b" by blast
  have "length ms = length a + length b" "length (takeWhile is_system (rev ms)) = length b" by (simp add: ms, simp add: b_def)
  then have "recovery_split ms = length a" by (simp add: recovery_split_def)
  then have "drop (recovery_split ms) ms = b" by (metis ms append_eq_conv_conj)
  then show ?thesis by (simp only: b_def)
qed

lemma recovery_only_system: "m \<in> set (drop (recovery_split ms) ms) \<Longrightarrow> is_system m"
  unfolding drop_recovery_split by (auto dest: set_takeWhileD)

text \<open>
  When the provider rejects a prompt as too long, the retry sends the whole conversation again:
  every message up to the last one that is not a system message is repeated unchanged, and a prompt
  that ends with one of the conversation is not retried at all.
\<close>
lemma oversized_prompt_is_never_shortened:
  assumes "call_llm_with_recovery env call now later ms q = Some ((r, sent), q')"
  shows "take (recovery_split ms) sent = take (recovery_split ms) ms
    \<and> List.filter (\<lambda>m. \<not> is_system m) (take (recovery_split ms) ms) = List.filter (\<lambda>m. \<not> is_system m) ms
    \<and> (ms \<noteq> [] \<and> \<not> is_system (last ms) \<longrightarrow> sent = ms)"
proof -
  have whole: "List.filter (\<lambda>m. \<not> is_system m) (take (recovery_split ms) ms) = List.filter (\<lambda>m. \<not> is_system m) ms"
  proof -
    have "List.filter (\<lambda>m. \<not> is_system m) (drop (recovery_split ms) ms) = []"
      using recovery_only_system by (auto simp: filter_empty_conv)
    then show ?thesis by (metis append.right_neutral append_take_drop_id filter_append)
  qed
  have sent: "sent = ms \<or> (\<exists>r. recovery_messages (re_chat env) (re_threshold env) ms = Some sent)"
    using assms by (auto simp: call_llm_with_recovery_def Let_def split: if_splits option.splits sum.splits prod.splits)
  have "take (recovery_split ms) sent = take (recovery_split ms) ms"
    using sent recovery_split_le [of ms] by (auto simp: recovery_messages_def Let_def split: if_splits)
  moreover have "sent = ms" if "ms \<noteq> []" "\<not> is_system (last ms)"
  proof -
    have "drop (recovery_split ms) ms = []" using that unfolding drop_recovery_split by (cases ms rule: rev_cases) auto
    then have "recovery_messages (re_chat env) (re_threshold env) ms = None"
      by (simp add: recovery_messages_def Let_def compact_messages_def estimate_tokens_def less_max_iff_disj)
    with sent show ?thesis by simp
  qed
  ultimately show ?thesis using whole by blast
qed

definition refused_prompt :: llm_error where
  "refused_prompt =
     \<lparr>le_text = ''prompt is too long'', le_stall = False, le_canceled = False, le_deadline = False, le_http = Some (413, []),
      le_retry_after = None, le_network = False, le_too_long = False, le_quota_open = False\<rparr>"

theorem oversized_prompt_is_never_shortened_witness:
  "\<exists>r. call_llm_with_recovery \<lparr>re_stopped = \<lambda>_. False, re_jitter = \<lambda>_. 0, re_chat = \<lambda>_. Some ''brief'', re_threshold = 5000, re_probe = 1, re_format = \<lambda>_. []\<rparr>
       (\<lambda>_ _ _. Inl refused_prompt :: llm_error + int) 0 0 [blank_message ''system'' ''be kind'', blank_message ''user'' ''a long story''] new_breaker
     = Some ((r, [blank_message ''system'' ''be kind'', blank_message ''user'' ''a long story'']), new_breaker)"
proof -
  let ?env = "\<lparr>re_stopped = \<lambda>_. False, re_jitter = \<lambda>_. 0, re_chat = \<lambda>_. Some ''brief'', re_threshold = 5000, re_probe = 1, re_format = \<lambda>_. []\<rparr>"
  let ?ms = "[blank_message ''system'' ''be kind'', blank_message ''user'' ''a long story'']"
  let ?call = "\<lambda>(_::nat) (_::message list) (_::nat). Inl refused_prompt :: llm_error + int"
  have failed: "after_failure 1 0 refused_prompt = Give_up (too_long_error refused_prompt)"
    by (simp add: after_failure_def classify_llm_error_def refused_prompt_def)
  have once: "llm_retry (?call i x) (\<lambda>_. False) (\<lambda>_. 0) 1 [] = Some (Inl (too_long_error refused_prompt), [])" for i x
    by (subst llm_retry_step) (simp add: failed [unfolded One_nat_def])
  note once = once once [unfolded One_nat_def]
  have shut: "\<not> breaker_gate 0 new_breaker" by (simp add: breaker_gate_def new_breaker_def)
  have kind: "classify_llm_error (too_long_error refused_prompt) = Retryable" by (simp add: too_long_error_def classify_llm_error_def)
  obtain r sent q' where run: "call_llm_with_recovery ?env ?call 0 0 ?ms new_breaker = Some ((r, sent), q')"
    by (cases "recovery_messages (re_chat ?env) (re_threshold ?env) ?ms")
      (simp_all add: call_llm_with_recovery_def shut once kind Let_def, auto simp: too_long_error_def once)
  from oversized_prompt_is_never_shortened [OF run] have "sent = ?ms" by (simp add: is_system_def blank_message_def)
  moreover have "q' = new_breaker"
    using run by (auto simp: call_llm_with_recovery_def shut once kind Let_def split: option.splits if_splits)
  ultimately show ?thesis using run by blast
qed

section \<open>Laws of the breaker\<close>

text \<open>
  While the breaker is open no call is made; consecutive trips double the wait up to 64 times the first;
  a success closes it. Nothing marks a probe as under way: at its time every caller is let through.
\<close>

lemma open_breaker_makes_no_call:
  "breaker_gate now q \<Longrightarrow> call_llm_with_recovery env call now later ms q = Some ((Inl (quota_open_error (re_format env) q), ms), q)"
  by (simp add: call_llm_with_recovery_def)

lemma trip_blocks: "0 < probe \<Longrightarrow> now \<le> t \<Longrightarrow> t < now + probe \<Longrightarrow> breaker_gate t (breaker_trip reason now probe q)"
proof -
  assume "0 < probe" "now \<le> t" "t < now + probe"
  moreover have "probe * 1 \<le> probe * 2 ^ min (qb_streak q) 6" using \<open>0 < probe\<close> by (intro mult_left_mono) auto
  ultimately have "t < now + probe * 2 ^ min (qb_streak q) 6" by linarith
  then show ?thesis by (simp add: breaker_gate_def breaker_trip_def)
qed

lemma probe_lets_every_caller_through:
  "qb_next_probe q \<le> now \<Longrightarrow> \<not> breaker_gate now q"
  by (simp add: breaker_gate_def)

lemma failed_calls_in_flight_double_twice:
  "qb_next_probe (breaker_trip r now p (breaker_trip r now p new_breaker)) = now + p * 2
   \<and> qb_streak (breaker_trip r now p (breaker_trip r now p new_breaker)) = 2"
  by (simp add: breaker_trip_def new_breaker_def)

end
