(* ===== verification/Turn_Loop.thy ===== *)
theory Turn_Loop
  imports Session_Manager Session_Repair
begin

text \<open>
  One turn of the agent (\<^verbatim>\<open>HandleMessage\<close> in \<^verbatim>\<open>internal/agent/loop.go\<close>) from the session to the
  reply: compaction, the messages for the model, the rounds of calls and results with their guards,
  the forced final answer, and what is deferred to the end of the turn. The model, the tool
  executor, the gate, the hooks and the text of notices are functions of the environment; the
  number of the round is an argument where they may answer differently each time. The clock stands
  still during a turn. The reply of the model is the one after the recovery of calls from its text.
  Events, metering, logging, the search index and the failures that the registry of tools remembers
  are left out.
\<close>

section \<open>Environment\<close>

record llm_reply =
  rp_text :: string
  rp_calls :: "message_call list"
  rp_thinking :: string
  rp_raw :: string
  rp_output_tokens :: int

record sdk_result =
  sk_is_error :: bool
  sk_error :: string
  sk_texts :: "string list"

record sdk_response =
  sd_id :: string
  sd_result :: "sdk_result option"
  sd_error :: "string option"

record round_result =
  tr_id :: string
  tr_name :: string
  tr_text :: string
  tr_err :: "string option"

record hook_out =
  ho_synthetic :: "(string \<times> string \<times> string \<times> string) list"   \<comment> \<open>id, name, arguments, result\<close>
  ho_skip :: "string option"
  ho_messages :: "message list"

record 'e turn_env =
  tv_max_iterations :: nat
  tv_max_parallel :: nat            \<comment> \<open>0 for no limit\<close>
  tv_max_tokens :: int
  tv_tools :: "string list"
  tv_has_provider :: bool
  tv_model :: string
  tv_hook :: "nat \<Rightarrow> message list \<Rightarrow> hook_out"
  tv_ask :: "nat \<Rightarrow> message list \<Rightarrow> string list \<Rightarrow> ('e + llm_reply) \<times> message list"
  tv_final :: "message list \<Rightarrow> string"      \<comment> \<open>the answer of the final call, empty when it fails\<close>
  tv_gate :: "nat \<Rightarrow> message_call list \<Rightarrow> message_call list \<times> round_result list \<times> string"
  tv_exec :: "nat \<Rightarrow> message_call list \<Rightarrow> sdk_response list"
  tv_steer :: "nat \<Rightarrow> message list"          \<comment> \<open>what arrives during a round\<close>
  tv_polish :: "string \<Rightarrow> string \<Rightarrow> string"  \<comment> \<open>notes on files that the user cannot reach\<close>
  tv_image :: "string \<Rightarrow> string"             \<comment> \<open>generated images made files\<close>
  tv_notice :: "'e \<Rightarrow> string \<times> string"       \<comment> \<open>notice and category of a failed turn\<close>
  tv_canceled :: "'e \<Rightarrow> bool"
  tv_meta :: "nat \<Rightarrow> gomap"                 \<comment> \<open>the sources cited so far\<close>

section \<open>Tools\<close>

definition analyze_error_line :: string where
  "analyze_error_line = ''[Analyze the error above and try a different approach.]''"

text \<open>The responses of the executor by the id of their call; a later one replaces an earlier one.\<close>

definition bridge_result :: "sdk_response list \<Rightarrow> message_call \<Rightarrow> round_result" where
  "bridge_result responses c =
     (case List.find (\<lambda>r. sd_id r = tcl_id c) (rev responses) of
        None \<Rightarrow> \<lparr>tr_id = tcl_id c, tr_name = tcl_name c,
                  tr_text = ''tool execution did not return a result (sandbox or executor failure '' @ utf8 [8212] @ '' check gateway logs)'',
                  tr_err = Some (''no response from executor for tool_use '' @ tcl_id c)\<rparr>
      | Some r \<Rightarrow>
          (case sd_result r of
             Some x \<Rightarrow>
               if sk_is_error x then
                 (let txt = (if sk_error x = [] then (case sk_texts x of [] \<Rightarrow> [] | t # _ \<Rightarrow> t) else sk_error x) in
                  \<lparr>tr_id = sd_id r, tr_name = tcl_name c, tr_text = txt @ [CHR 0x0A] @ analyze_error_line, tr_err = Some txt\<rparr>)
               else \<lparr>tr_id = sd_id r, tr_name = tcl_name c,
                     tr_text = join_str (List.filter (\<lambda>t. t \<noteq> []) (sk_texts x)) [CHR 0x0A], tr_err = sd_error r\<rparr>
           | None \<Rightarrow> \<lparr>tr_id = sd_id r, tr_name = tcl_name c, tr_text = [], tr_err = sd_error r\<rparr>))"

definition execute_tools_concurrently :: "(message_call list \<Rightarrow> sdk_response list) \<Rightarrow> message_call list \<Rightarrow> round_result list" where
  "execute_tools_concurrently run calls = map (bridge_result (run calls)) calls"

definition sandbox_meta_mark :: string where
  "sandbox_meta_mark = [CHR 0x1F] @ ''FC_META:sandbox'' @ [CHR 0x1F, CHR 0x0A]"

definition extract_tool_meta :: "string \<Rightarrow> string \<times> gomap" where
  "extract_tool_meta s =
     (if has_prefix s sandbox_meta_mark then (drop (length sandbox_meta_mark) s, Some [(''sandbox'', GBool True)]) else (s, None))"

definition is_failed_tool_result :: "string option \<Rightarrow> string \<Rightarrow> bool" where
  "is_failed_tool_result err content =
     (err \<noteq> None \<or>
      (let c = trim_space content in
       has_prefix c ''HTTP 4'' \<or> has_prefix c ''HTTP 5'' \<or> str_contains c analyze_error_line))"

definition mentions :: "string \<Rightarrow> string list \<Rightarrow> bool" where
  "mentions c words = list_ex (str_contains c) words"

definition hint_env_missing :: string where
  "hint_env_missing =
     (utf8 [20381, 36182, 30340, 21629, 20196] @ ''/'' @ utf8 [25991, 20214, 22312, 24403, 21069, 29615, 22659,
      32570, 22833, 65307, 21487, 25442, 26367, 20195, 21629, 20196, 65288, 22914] @ '' Windows '' @ utf8 [29992]
      @ '' powershell '' @ utf8 [26367, 20195] @ '' bash'' @ utf8 [65289, 12289, 36339, 36807, 35813, 27493, 24182,
      21578, 30693, 29992, 25143, 65292, 25110, 35843] @ '' deliver_file '' @ utf8 [25237, 36882, 24050, 26377,
      20135, 29289])"

definition hint_permission :: string where
  "hint_permission =
     (utf8 [26435, 38480, 19981, 36275, 65307, 30830, 35748, 36335, 24452] @ ''/'' @ utf8 [26435, 38480, 65292,
      25110, 25442, 21487, 35265, 22495, 20869, 36335, 24452])"

definition hint_external :: string where
  "hint_external =
     (utf8 [22806, 37096, 26381, 21153, 38169, 35823, 65307, 21487, 36864, 36991, 37325, 35797, 12289, 25442, 22791,
      29992, 26381, 21153, 65292, 25110, 21578, 30693, 29992, 25143, 31245, 21518, 20877, 35797])"

definition hint_logic :: string where
  "hint_logic =
     (utf8 [21442, 25968] @ ''/'' @ utf8 [36923, 36753, 38169, 35823, 65307, 26816, 26597, 21442, 25968, 26684,
      24335, 12289, 36335, 24452, 21512, 27861, 24615, 65292, 25110, 25442, 23454, 29616, 26041, 24335])"

definition classify_tool_error :: "string \<Rightarrow> string \<times> string" where
  "classify_tool_error content =
     (let c = to_lower content in
      if mentions c [''command not found'', ''no such file or directory'', ''executable file not found'', ''not recognized as an internal or external command'', ''no such file'']
      then (''env_missing'', hint_env_missing)
      else if mentions c [''permission denied'', ''access is denied'', ''access denied'']
      then (''permission'', hint_permission)
      else if mentions c [''service unavailable'', ''503'', ''500 internal'', ''upstream_error'', ''timeout'', ''context deadline exceeded'', ''http 5'', ''http 4'']
      then (''external'', hint_external)
      else if mentions c [''invalid argument'', ''missing required'', ''parse args'', ''bad request'']
      then (''logic'', hint_logic)
      else ([], []))"

definition failure_suffix :: "string \<Rightarrow> string" where
  "failure_suffix content =
     (case classify_tool_error content of
        (cat, hint) \<Rightarrow> if cat = [] then []
          else [CHR 0x0A] @ ''['' @ utf8 [22833, 36133, 31867, 21035] @ '': '' @ cat @ ''] ['' @ utf8 [21487, 24674, 22797] @ '': '' @ hint @ '']'')"

definition hide_tripped_tools ::
    "string list \<Rightarrow> (string \<times> nat) list \<Rightarrow> nat \<Rightarrow> string list \<Rightarrow> string list \<times> string list" where
  "hide_tripped_tools tools streak limit already =
     (let new = map fst (List.filter (\<lambda>(n, k). k \<ge> limit \<and> n \<notin> set already) streak) in
      if streak = [] then (tools, already)
      else if new = [] \<and> already = [] then (tools, already)
      else (List.filter (\<lambda>t. t \<notin> set already \<union> set new) tools, already @ new))"

section \<open>The state of a turn\<close>

record turn_state =
  ts_state :: session_state
  ts_messages :: "message list"
  ts_sig :: "(string \<times> string) option"      \<comment> \<open>name and arguments of the last call\<close>
  ts_same :: nat
  ts_total :: nat
  ts_failed_rounds :: nat
  ts_streak :: "(string \<times> nat) list"
  ts_tripped :: "string list"
  ts_trunc :: bool
  ts_empty :: bool
  ts_parts :: "string list"

datatype turn_end = Ended string | Panicked

datatype round_end = Next turn_state | Break turn_state | Stop turn_end turn_state

definition tell :: "message \<Rightarrow> turn_state \<Rightarrow> turn_state" where
  "tell m t = t\<lparr>ts_messages := ts_messages t @ [m]\<rparr>"

definition record_only :: "message \<Rightarrow> turn_state \<Rightarrow> turn_state" where
  "record_only m t = t\<lparr>ts_state := append_message m (ts_state t)\<rparr>"

definition tell_and_record :: "message \<Rightarrow> turn_state \<Rightarrow> turn_state" where
  "tell_and_record m t = tell m (record_only m t)"

definition add_part :: "string \<Rightarrow> turn_state \<Rightarrow> turn_state" where
  "add_part s t = t\<lparr>ts_parts := ts_parts t @ [s]\<rparr>"

definition turn_now :: "turn_state \<Rightarrow> int" where
  "turn_now t = sw_now (fst (ts_state t))"

definition system_message :: "string \<Rightarrow> message" where
  "system_message s = blank_message ''system'' s"

definition assistant_message :: "int \<Rightarrow> gomap \<Rightarrow> llm_reply \<Rightarrow> message_call list \<Rightarrow> message" where
  "assistant_message now meta r calls =
     (blank_message ''assistant'' (rp_text r))\<lparr>mg_calls := calls, mg_thinking := rp_thinking r, mg_meta := meta,
        mg_timestamp := now, mg_raw := rp_raw r\<rparr>"

definition looks_truncated :: "llm_reply \<Rightarrow> int \<Rightarrow> bool" where
  "looks_truncated r max_tokens =
     (max_tokens > 0 \<and> rp_calls r = [] \<and> rp_output_tokens r > 0 \<and> rp_output_tokens r \<ge> max_tokens * 9 div 10)"

definition join_reply_parts :: "string list \<Rightarrow> string" where
  "join_reply_parts parts = join_str (List.filter (\<lambda>p. trim_space p \<noteq> []) parts) ''<|split|>''"

definition loop_warning :: string where
  "loop_warning = ''Loop detected: you called the same tool with the same arguments 3 times. Please try a different approach.''"

definition empty_response_nudge :: message where
  "empty_response_nudge = system_message (''Your previous response came back completely empty (no text and no tool calls), so the user received nothing and is still waiting. Answer the user's latest message now in plain text using the information you already have from this turn. Do not call any more tools unless the answer is impossible without one, and do not return an empty response again.'')"

definition continuation_nudge :: message where
  "continuation_nudge = system_message (''Your previous response appears to have been cut off by the maximum output length. Continue exactly where you left off '' @ utf8 [8212] @ '' do not repeat what you already wrote, just complete the remaining content and finish the answer.'')"

definition steer_nudge :: message where
  "steer_nudge = system_message ''The user sent new message(s) while you were working (the user message(s) right above). They are mid-task additions, not a new task: continue the current work, fold them in, and address them as part of this turn. Do not discard or restart the work already done.''"

definition failed_rounds_limit :: nat where "failed_rounds_limit = 3"
definition tool_fail_streak_limit :: nat where "tool_fail_streak_limit = 5"

definition failed_rounds_message :: "nat \<Rightarrow> message" where
  "failed_rounds_message n = system_message
     (''The last '' @ nat_str n @ '' rounds of tool calls all failed (HTTP errors or empty results). Stop calling tools and answer the user directly with what you know '' @ utf8 [8212] @ '' explain that authoritative sources weren't reachable and provide your best-effort response based on training knowledge, clearly marked as unverified.'')"

definition tripped_message :: "string list \<Rightarrow> message" where
  "tripped_message names = system_message
     (''These tools have failed repeatedly and are temporarily unavailable this turn: '' @ join_str names '', '' @
      ''. Do not attempt them; use a different tool or answer directly with what you already know.'')"

section \<open>A round\<close>

text \<open>Messages that the user sends meanwhile are pushed to the session and drained by the loop.\<close>

definition arrive :: "message list \<Rightarrow> turn_state \<Rightarrow> turn_state" where
  "arrive ms t = t\<lparr>ts_state := (fst (ts_state t), fold (\<lambda>m s. snd (push_steer_if_active m s)) ms (snd (ts_state t)))\<rparr>"

definition fold_in_steer :: "turn_state \<Rightarrow> turn_state" where
  "fold_in_steer t =
     (let steer = fst (drain_steer (snd (ts_state t))) in
      if steer = [] then t
      else t\<lparr>ts_state := absorb_steer (ts_state t), ts_messages := ts_messages t @ steer @ [steer_nudge]\<rparr>)"

definition synthetic_pair :: "int \<Rightarrow> string \<times> string \<times> string \<times> string \<Rightarrow> message list" where
  "synthetic_pair now = (\<lambda>(i, name, args, result).
     [(blank_message ''assistant'' [])\<lparr>mg_calls := [\<lparr>tcl_id = i, tcl_name = name, tcl_args = args\<rparr>], mg_timestamp := now\<rparr>,
      (blank_message ''tool'' result)\<lparr>mg_call_id := i\<rparr>])"

text \<open>The tools of a call and the notes in front of it.\<close>

definition choose_tools :: "string list \<Rightarrow> turn_state \<Rightarrow> string list \<times> turn_state" where
  "choose_tools tools t =
     (let (ct, t1) = (if ts_failed_rounds t \<ge> failed_rounds_limit
                      then ([], tell (failed_rounds_message (ts_failed_rounds t)) t) else (tools, t))
      in if ct = [] then (ct, t1)
         else (let (ct', tripped) = hide_tripped_tools ct (ts_streak t1) tool_fail_streak_limit (ts_tripped t1);
                   t2 = t1\<lparr>ts_tripped := tripped\<rparr>
               in (ct', if tripped = [] then t2 else tell (tripped_message tripped) t2)))"

text \<open>The check for a call that is repeated; it stops at the third in a row.\<close>

fun detect_loop :: "message_call list \<Rightarrow> turn_state \<Rightarrow> bool \<times> turn_state" where
  "detect_loop [] t = (False, t)"
| "detect_loop (c # cs) t =
     (let t1 = (if ts_sig t = Some (tcl_name c, tcl_args c) then t\<lparr>ts_same := Suc (ts_same t)\<rparr>
                else t\<lparr>ts_same := 1, ts_sig := Some (tcl_name c, tcl_args c)\<rparr>)
      in if ts_same t1 \<ge> 3 then (True, tell_and_record (system_message loop_warning) t1) else detect_loop cs t1)"

definition deferred_result :: "nat \<Rightarrow> nat \<Rightarrow> message_call \<Rightarrow> round_result" where
  "deferred_result cap emitted c =
     \<lparr>tr_id = tcl_id c, tr_name = tcl_name c,
      tr_text = ''Deferred '' @ utf8 [8212] @ '' this turn's parallel-tool cap is '' @ nat_str cap @ '', and you emitted '' @ nat_str emitted @
        ''. Re-issue this exact call next round if you still need it; you'll have the other tools' results to inform the decision then.'',
      tr_err = None\<rparr>"

definition missing_result :: "message_call \<Rightarrow> round_result" where
  "missing_result c =
     \<lparr>tr_id = tcl_id c, tr_name = tcl_name c, tr_text = ''tool execution did not return a result'',
      tr_err = Some (''missing executor response for '' @ tcl_id c)\<rparr>"

definition pad_missing :: "message_call list \<Rightarrow> round_result list \<Rightarrow> round_result list" where
  "pad_missing calls rs =
     (if length rs < length calls
      then map (\<lambda>c. case List.find (\<lambda>r. tr_id r = tcl_id c) (rev rs) of Some r \<Rightarrow> r | None \<Rightarrow> missing_result c) calls
      else rs)"

definition round_outcome :: "'e turn_env \<Rightarrow> nat \<Rightarrow> message_call list \<Rightarrow> round_result list \<times> bool" where
  "round_outcome env i calls =
     (case tv_gate env i calls of
        (allowed, blocked, desc) \<Rightarrow>
          (let cap = tv_max_parallel env;
               deferred = (if cap > 0 then drop cap allowed else []);
               run = (if cap > 0 then take cap allowed else allowed);
               rs = execute_tools_concurrently (tv_exec env i) run @ blocked @ map (deferred_result cap (length calls)) deferred
           in (pad_missing calls rs, desc \<noteq> [])))"

text \<open>
  The results of a round against the calls by position. A result past the last call is out of range;
  a result that counts as failed without an error is asked for the text of its error. Both panic.
\<close>

fun process_results ::
    "'e turn_env \<Rightarrow> round_result list \<Rightarrow> message_call list \<Rightarrow> bool \<Rightarrow> turn_state \<Rightarrow> (bool \<times> turn_state) + turn_state" where
  "process_results env [] cs all_failed t = Inl (all_failed, t)"
| "process_results env (r # rs) [] all_failed t = Inr t"
| "process_results env (r # rs) (c # cs) all_failed t =
     (let t1 = t\<lparr>ts_total := Suc (ts_total t)\<rparr>;
          (content0, meta) = extract_tool_meta (tr_text r);
          content1 = tv_polish env (tr_name r) content0
      in if is_failed_tool_result (tr_err r) content1 \<and> tr_err r = None then Inr t1
         else
           (let failed = (tr_err r \<noteq> None);
                content2 = (if failed then content1 @ failure_suffix content1 else content1);
                streak = (case map_of (ts_streak t1) (tr_name r) of None \<Rightarrow> 0 | Some k \<Rightarrow> k);
                t2 = t1\<lparr>ts_streak := AList.update (tr_name r) (if failed then Suc streak else 0) (ts_streak t1)\<rparr>;
                content3 = (if tr_name r = ''image_gen'' then tv_image env content2 else content2);
                m = (blank_message ''tool'' content3)\<lparr>mg_call_id := tcl_id c, mg_name := tr_name r, mg_meta := meta\<rparr>
            in process_results env rs cs (all_failed \<and> failed) (tell_and_record m t2)))"

definition call_round :: "'e turn_env \<Rightarrow> nat \<Rightarrow> llm_reply \<Rightarrow> turn_state \<Rightarrow> round_end" where
  "call_round env i r t =
     (let t1 = (if rp_text r \<noteq> [] then add_part (rp_text r) t else t);
          t2 = tell_and_record (assistant_message (turn_now t) (tv_meta env i) r (rp_calls r)) t1
      in case detect_loop (rp_calls r) t2 of
           (True, t3) \<Rightarrow> Break t3
         | (False, t3) \<Rightarrow>
             (case round_outcome env i (rp_calls r) of
                (results, prompted) \<Rightarrow>
                  (case process_results env results (rp_calls r) (results \<noteq> []) t3 of
                     Inr t4 \<Rightarrow> Stop Panicked t4
                   | Inl (all_failed, t4) \<Rightarrow>
                       (let t5 = t4\<lparr>ts_failed_rounds := (if all_failed then Suc (ts_failed_rounds t4) else 0)\<rparr> in
                        if prompted then Stop (Ended (join_reply_parts (ts_parts t5))) t5
                        else Next (fold_in_steer (arrive (tv_steer env i) t5))))))"

definition text_round :: "'e turn_env \<Rightarrow> nat \<Rightarrow> llm_reply \<Rightarrow> turn_state \<Rightarrow> round_end" where
  "text_round env i r t =
     (if trim_space (rp_text r) = [] then
        (if \<not> ts_empty t then Next (tell empty_response_nudge (t\<lparr>ts_empty := True\<rparr>))
         else Stop (Ended ''model returned an empty response'') t)
      else
        (let asst = assistant_message (turn_now t) (tv_meta env i) r [] in
         if \<not> ts_trunc t \<and> looks_truncated r (tv_max_tokens env) then
           Next (tell continuation_nudge (tell asst (add_part (rp_text r) (record_only asst (t\<lparr>ts_trunc := True\<rparr>)))))
         else
           (let t1 = add_part (rp_text r) (record_only asst t);
                t2 = arrive (tv_steer env i) t1
            in if fst (drain_steer (snd (ts_state t2))) \<noteq> []
               then Next (fold_in_steer (tell asst t2))
               else Stop (Ended (join_reply_parts (ts_parts t2))) t2)))"

definition turn_error_message :: "string \<Rightarrow> string \<Rightarrow> nat \<Rightarrow> message" where
  "turn_error_message notice cat executed =
     (blank_message ''user'' notice)\<lparr>mg_origin := ''turn_error'',
        mg_meta := Some [(''turnError'', GStr cat), (''toolsExecuted'', GInt (int executed))]\<rparr>"

definition fail_turn :: "'e turn_env \<Rightarrow> 'e \<Rightarrow> turn_state \<Rightarrow> round_end" where
  "fail_turn env e t =
     (if tv_canceled env e then Stop (Ended []) t
      else (case tv_notice env e of
        (notice, cat) \<Rightarrow> Stop (Ended notice) (record_only (turn_error_message notice cat (ts_total t)) t)))"

definition turn_round :: "'e turn_env \<Rightarrow> nat \<Rightarrow> turn_state \<Rightarrow> round_end" where
  "turn_round env i t =
     (let h = tv_hook env i (ts_messages t);
          t1 = fold record_only (concat (map (synthetic_pair (turn_now t)) (ho_synthetic h))) t
      in case ho_skip h of
           Some txt \<Rightarrow> Stop (Ended txt) t1
         | None \<Rightarrow>
             (let t2 = t1\<lparr>ts_messages := ho_messages h\<rparr> in
              if \<not> tv_has_provider env then Stop (Ended (''Agent is not configured with a usable LLM provider. Check that cfg.Providers contains the prefix referenced by model `'' @ tv_model env @ ''`.'')) t2
              else
                (case choose_tools (tv_tools env) t2 of
                   (ct, t3) \<Rightarrow>
                     (case tv_ask env i (ts_messages t3) ct of
                        (Inl e, ms) \<Rightarrow> fail_turn env e (t3\<lparr>ts_messages := ms\<rparr>)
                      | (Inr r, ms) \<Rightarrow>
                          (let t4 = t3\<lparr>ts_messages := ms\<rparr> in
                           if rp_calls r = [] then text_round env i r t4 else call_round env i r t4)))))"

section \<open>The turn\<close>

definition cap_reached_nudge :: "nat \<Rightarrow> message" where
  "cap_reached_nudge n = system_message
     (''You've used all '' @ nat_str n @ '' tool-call iterations available for this turn. Tools are now disabled for this final response '' @ utf8 [8212] @ '' do not attempt to call any. Synthesize what you've already gathered into the most complete deliverable you can: if the user asked for a structured artifact (table, list, ICP summary, email drafts, etc.), produce it now from the existing tool results. For any fields you couldn't resolve, mark them as 'unknown' / 'not found' / 'partial' rather than dropping rows or skipping the structure '' @ utf8 [8212] @ '' give the user something usable plus an honest note about what's missing. Do not apologize without delivering content.'')"

definition iteration_cap_metadata :: "nat \<Rightarrow> gomap" where
  "iteration_cap_metadata n = Some [(''iterationCapReached'', GBool True), (''iterationCapValue'', GInt (int n))]"

definition cap_fallback :: "nat \<Rightarrow> string" where
  "cap_fallback n = ''I've reached the maximum number of tool iterations ('' @ nat_str n @ '') and couldn't synthesize a final response. The work above represents what I gathered before hitting the limit.''"

definition final_delivery :: "'e turn_env \<Rightarrow> turn_state \<Rightarrow> turn_end \<times> turn_state" where
  "final_delivery env t =
     (let n = tv_max_iterations env;
          answer = tv_final env (ts_messages t @ [cap_reached_nudge n]);
          content = (if answer = [] then cap_fallback n else answer);
          m = (blank_message ''assistant'' content)\<lparr>mg_meta := iteration_cap_metadata n, mg_timestamp := turn_now t\<rparr>;
          t1 = add_part content (record_only m t)
      in (Ended (join_reply_parts (ts_parts t1)), t1))"

fun react_loop :: "'e turn_env \<Rightarrow> nat \<Rightarrow> nat \<Rightarrow> turn_state \<Rightarrow> turn_end \<times> turn_state" where
  "react_loop env 0 i t = final_delivery env t"
| "react_loop env (Suc k) i t =
     (case turn_round env i t of
        Next t' \<Rightarrow> react_loop env k (Suc i) t'
      | Break t' \<Rightarrow> final_delivery env t'
      | Stop r t' \<Rightarrow> (r, t'))"

text \<open>Calls that the user approved run first, under fresh ids.\<close>

definition run_approved ::
    "'e turn_env \<Rightarrow> string \<Rightarrow> (message_call list \<Rightarrow> string) \<Rightarrow> message_call list \<Rightarrow> turn_state \<Rightarrow> turn_state" where
  "run_approved env synth raw calls t =
     (if calls = [] then t
      else
        (let results = execute_tools_concurrently (tv_exec env 0) calls;
             ids = map (\<lambda>k. synth @ ''-'' @ nat_str k) [0..<length calls];
             tcs = map (\<lambda>(i, c). c\<lparr>tcl_id := i\<rparr>) (zip ids calls);
             asst = (blank_message ''assistant'' [])\<lparr>mg_calls := tcs, mg_raw := raw tcs\<rparr>;
             tool = (\<lambda>(i, c, r). (blank_message ''tool'' (fst (extract_tool_meta (tr_text r))))\<lparr>mg_call_id := i, mg_name := tcl_name c\<rparr>)
         in (fold tell_and_record (asst # map tool (zip ids (zip calls results))) t)\<lparr>ts_total := ts_total t + length results\<rparr>))"

text \<open>The note about a long pause, with times in milliseconds; notices of a compaction are not shown to the model.\<close>

definition day_ms :: int where "day_ms = 86400000"

definition format_conversation_gap :: "int \<Rightarrow> string" where
  "format_conversation_gap gap =
     (let days = gap div day_ms in if days \<ge> 2 then ''about '' @ int_str days @ '' days'' else ''more than a day'')"

definition gap_note :: "int \<Rightarrow> message" where
  "gap_note gap = system_message
     (''Conversation timing context: the latest user message arrived after '' @ format_conversation_gap gap @ '' of inactivity. Treat it as a resumed conversation in the current moment. Use earlier messages as background, but do not assume their time-sensitive situation is still current and do not repeat an earlier answer unless the user asks for it. Keep this timing context silent; do not mention the gap or report timestamps.'')"

definition with_conversation_gap_context :: "message list \<Rightarrow> message list" where
  "with_conversation_gap_context msgs =
     (let ms = List.filter (\<lambda>m. mget (mg_meta m) ''compactionNotice'' = None) msgs in
      if length ms < 2 \<or> mg_role (last ms) \<noteq> ''user'' \<or> mg_timestamp (last ms) \<le> 0 then ms
      else (case List.find (\<lambda>m. mg_timestamp m > 0 \<and> (mg_role m = ''user'' \<or> mg_role m = ''assistant'')) (rev (butlast ms)) of
          None \<Rightarrow> ms
        | Some p \<Rightarrow>
            (let gap = mg_timestamp (last ms) - mg_timestamp p in if gap < day_ms then ms else gap_note gap # ms)))"

text \<open>
  What is in front of the loop: cards and the user message, compaction with its notice, and the
  messages for the model. The system messages come from the environment of the agent.
\<close>

record turn_input =
  ti_retry :: bool                     \<comment> \<open>a replay of the failure sweep\<close>
  ti_cards :: "message list"
  ti_user :: message
  ti_threshold :: int
  ti_summary :: "string \<Rightarrow> string option"
  ti_notice :: "compact_result \<Rightarrow> string \<times> gomap"
  ti_system :: "message list"
  ti_tail :: "message list"            \<comment> \<open>system messages behind the history\<close>
  ti_approved :: "message_call list"
  ti_synth :: string
  ti_raw :: "message_call list \<Rightarrow> string"   \<comment> \<open>the raw message of approved calls\<close>
  ti_provider :: string
  ti_model :: string

definition compaction_notice_message :: "int \<Rightarrow> string \<times> gomap \<Rightarrow> message" where
  "compaction_notice_message now = (\<lambda>(txt, meta).
     (blank_message ''assistant'' txt)\<lparr>mg_meta := Some [(''compactionNotice'', any_map meta)], mg_timestamp := now\<rparr>)"

definition compact_before_turn :: "turn_input \<Rightarrow> session_state \<Rightarrow> message list \<times> session_state" where
  "compact_before_turn inp x =
     (let r = compact_messages (ti_summary inp) (turn_compaction_threshold (ti_threshold inp) x) (ss_messages (snd x)) in
      if cr_pruned r then
        (let x1 = replace_messages (cr_messages r) x;
             x2 = (if cr_before r > 0 then append_message (compaction_notice_message (sw_now (fst x)) (ti_notice inp r)) x1 else x1)
         in (cr_messages r, x2))
      else (ss_messages (snd x), x))"

definition start_turn :: "turn_input \<Rightarrow> session_state \<Rightarrow> turn_state" where
  "start_turn inp x =
     (let x1 = fold append_message (ti_cards inp @ [ti_user inp]) x;
          (history, x2) = compact_before_turn inp x1;
          context = parent_prefix_messages x2 @ history
      in \<lparr>ts_state = x2, ts_messages = ti_system inp @ with_conversation_gap_context context @ ti_tail inp, ts_sig = None, ts_same = 0,
          ts_total = 0, ts_failed_rounds = 0, ts_streak = [], ts_tripped = [], ts_trunc = False, ts_empty = False, ts_parts = []\<rparr>)"

definition end_of_turn :: "session_state \<Rightarrow> session_state" where
  "end_of_turn x = flush_leftover_steer (pad_and_mark_aborted tool_result_stopped_note x)"

text \<open>A replay that finds a turn in flight does nothing; what is deferred runs after a panic too.\<close>

definition handle_turn :: "'e turn_env \<Rightarrow> turn_input \<Rightarrow> session_state \<Rightarrow> turn_end \<times> session_state" where
  "handle_turn env inp = (\<lambda>(w, s).
     let s1 = set_provider_model (ti_provider inp) (ti_model inp) s in
     if ti_retry inp \<and> ss_depth s1 > 0 then (Ended [], (w, s1))
     else
       (let t = start_turn inp (w, begin_turn s1);
            (r, t') = react_loop env (tv_max_iterations env) 0 (run_approved env (ti_synth inp) (ti_raw inp) (ti_approved inp) t)
        in (r, end_of_turn (ts_state t'))))"

end
