(* ===== verification/Provider_Wire.thy ===== *)
theory Provider_Wire
  imports Session_Messages
begin

text \<open>
  The messages of a request as the two families of providers get them
  (\<^verbatim>\<open>toAPIMessages\<close> in \<^verbatim>\<open>internal/provider/openai.go\<close>, \<^verbatim>\<open>toAnthropicMessages\<close> in
  \<^verbatim>\<open>anthropic.go\<close>): calls without all their results are stripped. Contents are kept as data
  rather than as their JSON text; cache markers are left out. Keys of a raw message are compared
  exactly.
\<close>

section \<open>Calls without results\<close>

definition raw_string_field :: "string \<Rightarrow> (string \<times> gval) list \<Rightarrow> string option" where
  "raw_string_field k kv = (case map_of kv k of None \<Rightarrow> Some [] | Some GNull \<Rightarrow> Some [] | Some (GStr s) \<Rightarrow> Some s | _ \<Rightarrow> None)"

definition raw_call_id :: "gval \<Rightarrow> string option" where
  "raw_call_id v = (case v of GMap kv \<Rightarrow> raw_string_field ''id'' kv | GNull \<Rightarrow> Some [] | _ \<Rightarrow> None)"

text \<open>The ids of the calls in a raw message; an error of the decoder means none.\<close>

definition raw_call_ids :: "string \<Rightarrow> string list" where
  "raw_call_ids raw =
     (case json_parse raw of
        Some (GMap kv) \<Rightarrow>
          (case map_of kv ''tool_calls'' of
             Some (GList xs) \<Rightarrow> (case opt_all (map raw_call_id xs) of Some ids \<Rightarrow> ids | None \<Rightarrow> [])
           | _ \<Rightarrow> [])
      | _ \<Rightarrow> [])"

definition assistant_tool_call_ids :: "message \<Rightarrow> string list" where
  "assistant_tool_call_ids m =
     (if mg_calls m \<noteq> [] then map tcl_id (mg_calls m) else if mg_raw m = [] then [] else raw_call_ids (mg_raw m))"

definition raw_assistant_has_role :: "string \<Rightarrow> bool" where
  "raw_assistant_has_role raw =
     (case json_parse raw of
        Some (GMap kv) \<Rightarrow> (case raw_string_field ''role'' kv of Some r \<Rightarrow> r \<noteq> [] | None \<Rightarrow> False)
      | _ \<Rightarrow> False)"

definition answered_by_run :: "message list \<Rightarrow> string list" where
  "answered_by_run ms = List.filter (\<lambda>i. i \<noteq> []) (map mg_call_id (takeWhile is_tool ms))"

definition lacks_results :: "message \<Rightarrow> message list \<Rightarrow> bool" where
  "lacks_results m ms =
     (mg_role m = ''assistant'' \<and> assistant_tool_call_ids m \<noteq> []
      \<and> \<not> list_all (\<lambda>i. i \<in> set (answered_by_run ms)) (assistant_tool_call_ids m))"

text \<open>
  The walk over the messages: each with the mark that it is an assistant message without all its
  results, and the mark that it is a result of such a message directly in front of its run.
\<close>

record marked =
  mk_message :: message
  mk_stripped :: bool
  mk_dropped :: bool

fun find_orphans :: "string list \<Rightarrow> message list \<Rightarrow> marked list" where
  "find_orphans want [] = []"
| "find_orphans want (m # ms) =
     (if is_tool m then \<lparr>mk_message = m, mk_stripped = False, mk_dropped = mg_call_id m \<in> set want\<rparr> # find_orphans want ms
      else if lacks_results m ms
           then \<lparr>mk_message = m, mk_stripped = True, mk_dropped = False\<rparr> # find_orphans (assistant_tool_call_ids m) ms
           else \<lparr>mk_message = m, mk_stripped = False, mk_dropped = False\<rparr> # find_orphans [] ms)"

section \<open>OpenAI\<close>

record api_message =
  am_raw :: string           \<comment> \<open>a cached message that is sent as it is\<close>
  am_role :: string
  am_text :: string
  am_parts :: "content_part list"
  am_calls :: "string list"  \<comment> \<open>the ids of its calls\<close>
  am_call_id :: string

definition api_message_of :: "marked \<Rightarrow> api_message" where
  "api_message_of k =
     (let m = mk_message k in
      if mg_role m = ''assistant'' \<and> mg_raw m \<noteq> [] \<and> \<not> mk_stripped k \<and> raw_assistant_has_role (mg_raw m)
      then \<lparr>am_raw = mg_raw m, am_role = ''assistant'', am_text = mg_content m, am_parts = mg_parts m,
            am_calls = assistant_tool_call_ids m, am_call_id = mg_call_id m\<rparr>
      else \<lparr>am_raw = [], am_role = mg_role m,
            am_text = (if mg_role m = ''assistant'' \<and> mg_content m = [] \<and> mg_parts m = [] \<and> mg_calls m = []
                       then ''[internal reasoning]'' else mg_content m),
            am_parts = mg_parts m, am_calls = (if mk_stripped k then [] else map tcl_id (mg_calls m)), am_call_id = mg_call_id m\<rparr>)"

definition to_api_messages :: "message list \<Rightarrow> api_message list" where
  "to_api_messages ms = map api_message_of (List.filter (\<lambda>k. \<not> mk_dropped k) (find_orphans [] ms))"

section \<open>Anthropic\<close>

text \<open>The results of every stripped call are dropped wherever they are.\<close>

definition sweep_orphans :: "marked list \<Rightarrow> marked list" where
  "sweep_orphans ks =
     (let ids = concat (map (\<lambda>k. assistant_tool_call_ids (mk_message k)) (List.filter mk_stripped ks)) in
      map (\<lambda>k. if is_tool (mk_message k) \<and> mg_call_id (mk_message k) \<in> set ids then k\<lparr>mk_dropped := True\<rparr> else k) ks)"

datatype anthropic_block =
    Block_thinking string
  | Block_raw_thinking string      \<comment> \<open>the cached block as it is\<close>
  | Block_text string
  | Block_image string
  | Block_use string string string   \<comment> \<open>id, name, arguments\<close>
  | Block_result string string       \<comment> \<open>call id, content\<close>

datatype anthropic_content = Plain string | Blocks "anthropic_block list"

record anthropic_message =
  an_role :: string
  an_content :: anthropic_content

definition parse_tool_input :: "string \<Rightarrow> gval" where
  "parse_tool_input raw = (case json_parse raw of Some (GMap kv) \<Rightarrow> GMap kv | _ \<Rightarrow> GMap [])"

definition thinking_block_for :: "message \<Rightarrow> anthropic_block list" where
  "thinking_block_for m =
     (if mg_role m \<noteq> ''assistant'' then []
      else case json_parse (mg_raw m) of
        Some (GMap kv) \<Rightarrow>
          if mg_raw m \<noteq> [] \<and> as_str (map_of kv ''type'') = ''thinking'' then [Block_raw_thinking (mg_raw m)]
          else if mg_thinking m \<noteq> [] then [Block_thinking (mg_thinking m)] else []
      | _ \<Rightarrow> if mg_thinking m \<noteq> [] then [Block_thinking (mg_thinking m)] else [])"

definition part_blocks :: "content_part \<Rightarrow> anthropic_block list" where
  "part_blocks p =
     (if cpt_type p = ''text'' then [Block_text (cpt_text p)]
      else if cpt_type p = ''image_url'' \<and> cpt_url p \<noteq> [] then [Block_image (cpt_url p)] else [])"

definition text_block :: "string \<Rightarrow> anthropic_block list" where
  "text_block s = (if s \<noteq> [] then [Block_text s] else [])"

definition is_result :: "anthropic_block \<Rightarrow> bool" where
  "is_result b = (case b of Block_result _ _ \<Rightarrow> True | _ \<Rightarrow> False)"

text \<open>A result joins the user message in front of it when that holds results only.\<close>

definition add_result :: "message \<Rightarrow> anthropic_message list \<Rightarrow> anthropic_message list" where
  "add_result m out =
     (let b = Block_result (mg_call_id m) (mg_content m) in
      case rev out of
        [] \<Rightarrow> [\<lparr>an_role = ''user'', an_content = Blocks [b]\<rparr>]
      | l # front \<Rightarrow>
          (case an_content l of
             Blocks bs \<Rightarrow>
               if an_role l = ''user'' \<and> bs \<noteq> [] \<and> list_all is_result bs
               then rev front @ [l\<lparr>an_content := Blocks (bs @ [b])\<rparr>]
               else out @ [\<lparr>an_role = ''user'', an_content = Blocks [b]\<rparr>]
           | Plain _ \<Rightarrow> out @ [\<lparr>an_role = ''user'', an_content = Blocks [b]\<rparr>]))"

definition regular_content :: "message \<Rightarrow> anthropic_content" where
  "regular_content m =
     (if mg_parts m \<noteq> [] then Blocks (thinking_block_for m @ concat (map part_blocks (mg_parts m)))
      else if mg_role m = ''assistant'' then
        (let bs = thinking_block_for m @ text_block (mg_content m) in if bs \<noteq> [] then Blocks bs else Plain (mg_content m))
      else Plain (mg_content m))"

fun anthropic_walk :: "marked list \<Rightarrow> string list \<Rightarrow> anthropic_message list \<Rightarrow> string list \<times> anthropic_message list" where
  "anthropic_walk [] sys out = (sys, out)"
| "anthropic_walk (k # ks) sys out =
     (let m = mk_message k in
      if mg_role m = ''system'' then anthropic_walk ks (if trim_space (mg_content m) \<noteq> [] then sys @ [mg_content m] else sys) out
      else if mk_dropped k then anthropic_walk ks sys out
      else if mk_stripped k \<and> mg_content m = [] \<and> mg_parts m = [] \<and> mg_thinking m = [] then anthropic_walk ks sys out
      else if is_tool m then anthropic_walk ks sys (add_result m out)
      else if mg_role m = ''assistant'' \<and> mg_calls m \<noteq> [] \<and> \<not> mk_stripped k
      then anthropic_walk ks sys (out @ [\<lparr>an_role = mg_role m,
             an_content = Blocks (thinking_block_for m @ text_block (mg_content m)
                                  @ map (\<lambda>c. Block_use (tcl_id c) (tcl_name c) (tcl_args c)) (mg_calls m))\<rparr>])
      else anthropic_walk ks sys (out @ [\<lparr>an_role = mg_role m, an_content = regular_content m\<rparr>]))"

definition to_anthropic_messages :: "message list \<Rightarrow> string \<times> anthropic_message list" where
  "to_anthropic_messages ms =
     (case anthropic_walk (sweep_orphans (find_orphans [] ms)) [] [] of
        (sys, out) \<Rightarrow> (join_str sys [CHR 0x0A, CHR 0x0A], out))"

section \<open>What the request guarantees\<close>

text \<open>Every call in a request is answered by the run of results directly behind it.\<close>

fun calls_answered :: "api_message list \<Rightarrow> bool" where
  "calls_answered [] = True"
| "calls_answered (a # as) =
     ((am_role a = ''assistant'' \<longrightarrow>
        list_all (\<lambda>i. i \<in> set (map am_call_id (takeWhile (\<lambda>b. am_role b = ''tool'') as))) (am_calls a))
      \<and> calls_answered as)"

definition kept :: "marked list \<Rightarrow> api_message list" where
  "kept ks = map api_message_of (List.filter (\<lambda>k. \<not> mk_dropped k) ks)"

lemma api_role [simp]: "am_role (api_message_of k) = mg_role (mk_message k)"
  by (auto simp: api_message_of_def Let_def)

lemma api_call_id [simp]: "am_call_id (api_message_of k) = mg_call_id (mk_message k)"
  by (auto simp: api_message_of_def Let_def)

lemma api_calls: "set (am_calls (api_message_of k)) \<subseteq> (if mk_stripped k then {} else set (assistant_tool_call_ids (mk_message k)))"
  by (auto simp: api_message_of_def Let_def assistant_tool_call_ids_def)

lemma run_kept:
  "map am_call_id (takeWhile (\<lambda>b. am_role b = ''tool'') (kept (find_orphans [] ms))) = map mg_call_id (takeWhile is_tool ms)"
  by (induction ms) (auto simp: kept_def is_tool_def)

lemma find_orphans_answered: "calls_answered (kept (find_orphans want ms))"
proof (induction ms arbitrary: want)
  case Nil
  then show ?case by (simp add: kept_def)
next
  case (Cons m ms)
  have rest: "calls_answered (kept (find_orphans w ms))" for w by (rule Cons.IH)
  show ?case
  proof (cases "is_tool m")
    case True
    with rest [of want] show ?thesis by (auto simp: kept_def is_tool_def)
  next
    case False
    show ?thesis
    proof (cases "lacks_results m ms")
      case True
      with False rest [of "assistant_tool_call_ids m"] api_calls show ?thesis
        by (fastforce simp: kept_def list_all_iff)
    next
      case keep: False
      let ?k = "\<lparr>mk_message = m, mk_stripped = False, mk_dropped = False\<rparr>"
      have "i \<in> set (map mg_call_id (takeWhile is_tool ms))" if "mg_role m = ''assistant''" "i \<in> set (am_calls (api_message_of ?k))" for i
      proof -
        have i: "i \<in> set (assistant_tool_call_ids m)" using that(2) api_calls [of ?k] by auto
        then have "assistant_tool_call_ids m \<noteq> []" by auto
        with that(1) keep i have "i \<in> set (answered_by_run ms)" by (auto simp: lacks_results_def list_all_iff)
        then show ?thesis by (auto simp: answered_by_run_def)
      qed
      moreover have "kept (find_orphans want (m # ms)) = api_message_of ?k # kept (find_orphans [] ms)"
        using False keep by (simp add: kept_def)
      ultimately show ?thesis
        using rest [of "[]"] run_kept [of ms] by (simp add: list_all_iff)
    qed
  qed
qed

text \<open>
  Whatever the stored history looks like, the request to an OpenAI-compatible provider holds no
  call that is not answered by the results directly behind it.
\<close>
lemma request_calls_are_answered:
  "calls_answered (to_api_messages ms)"
  using find_orphans_answered [of "[]" ms] by (simp add: to_api_messages_def kept_def)

text \<open>
  A result that comes later than the run of its call stays in that request although the call is
  stripped; the other family drops it.
\<close>

lemma sweep_drops_late_results:
  "k \<in> set (sweep_orphans ks) \<Longrightarrow> is_tool (mk_message k) \<Longrightarrow> j \<in> set ks \<Longrightarrow> mk_stripped j
   \<Longrightarrow> mg_call_id (mk_message k) \<in> set (assistant_tool_call_ids (mk_message j)) \<Longrightarrow> mk_dropped k"
  by (fastforce simp: sweep_orphans_def Let_def split: if_splits)

end
