(* ===== verification/Turn_Pairing.thy ===== *)
theory Turn_Pairing
  imports Turn_Loop Session_Laws Provider_Wire
begin

text \<open>
  The history that a turn leaves behind: calls and results stay paired through compaction, rounds,
  refusals, deferred and missing results, failures, a panic and steering, whatever the model and the
  tools answer; the exception is the detection of a loop.
\<close>

section \<open>Appending\<close>

lemma pos_str_value: "0 \<le> n \<Longrightarrow> foldl (\<lambda>a c. 10 * a + (of_char c - 48)) 0 (pos_str n) = n"
proof (induction n rule: pos_str.induct)
  case (1 n)
  have digit: "0 \<le> k \<Longrightarrow> k < 10 \<Longrightarrow> (of_char (char_of (48 + k)) :: int) = 48 + k" for k :: int
    by simp
  show ?case
  proof (cases "n < 10")
    case True
    with 1 digit [of n] show ?thesis by (subst pos_str.simps) simp
  next
    case False
    with 1 digit [of "n mod 10"] show ?thesis by (subst pos_str.simps) simp
  qed
qed

lemma nat_str_inj: "nat_str a = nat_str b \<Longrightarrow> a = b"
  unfolding nat_str_def by (metis of_nat_0_le_iff of_nat_eq_iff pos_str_value)

definition plain :: "message \<Rightarrow> bool" where
  "plain m = (\<not> is_tool m \<and> mg_calls m = [])"

definition state_ok :: "string list \<Rightarrow> session_state \<Rightarrow> bool" where
  "state_ok ids x =
     (pending_after [] (ss_messages (snd x)) = Some ids \<and> distinct ids \<and> calls_named (ss_messages (snd x))
      \<and> list_all plain (ss_steer (snd x)))"

lemma plain_opened: "plain m \<Longrightarrow> opened m = []"
  by (simp add: plain_def opened_def)

lemma calls_named_append [simp]: "calls_named (xs @ ys) = (calls_named xs \<and> calls_named ys)"
  by (simp add: calls_named_def)

lemma append_steer [simp]: "ss_steer (snd (append_message m x)) = ss_steer (snd x)"
  by (simp add: append_message_rest)

lemma ok_plain: "state_ok [] x \<Longrightarrow> plain m \<Longrightarrow> state_ok [] (append_message m x)"
  by (auto simp: state_ok_def append_message_messages pending_after_append plain_opened calls_named_def plain_def)

lemma ok_call:
  assumes "state_ok [] x" and "mg_role m = ''assistant''" and "distinct (map tcl_id (mg_calls m))"
    and "list_all (\<lambda>c. tcl_id c \<noteq> []) (mg_calls m)"
  shows "state_ok (map tcl_id (mg_calls m)) (append_message m x)"
  using assms by (auto simp: state_ok_def append_message_messages pending_after_append is_tool_def opened_def calls_named_def)

lemma ok_result:
  assumes "state_ok (i # ids) x" and "is_tool m" and "mg_call_id m = i" and "mg_calls m = []"
  shows "state_ok ids (append_message m x)"
proof -
  have "List.filter (\<lambda>j. j \<noteq> i) ids = ids" using assms(1) by (intro filter_True) (auto simp: state_ok_def)
  with assms show ?thesis
    by (simp add: state_ok_def append_message_messages pending_after_append calls_named_def)
qed

lemma ok_fold_plain: "state_ok [] x \<Longrightarrow> list_all plain ms \<Longrightarrow> state_ok [] (fold append_message ms x)"
proof (induction ms arbitrary: x)
  case (Cons m ms)
  then show ?case using ok_plain [of x m] by simp
qed simp

lemma plain_made [simp]:
  "plain (blank_message ''user'' s)" "plain (blank_message ''system'' s)" "plain (system_message s)" "plain (blank_message ''assistant'' s)"
  by (simp_all add: plain_def blank_message_def is_tool_def system_message_def)

lemma plain_update [simp]:
  "plain (m\<lparr>mg_meta := a\<rparr>) = plain m" "plain (m\<lparr>mg_timestamp := b\<rparr>) = plain m" "plain (m\<lparr>mg_origin := c\<rparr>) = plain m"
  "plain (m\<lparr>mg_thinking := c\<rparr>) = plain m" "plain (m\<lparr>mg_raw := c\<rparr>) = plain m"
  by (simp_all add: plain_def is_tool_def)

lemma state_ok_tell [simp]: "ts_state (tell m t) = ts_state t"
  by (simp add: tell_def)

lemma record_state [simp]:
  "ts_state (record_only m t) = append_message m (ts_state t)"
  "ts_state (tell_and_record m t) = append_message m (ts_state t)"
  "ts_state (add_part s t) = ts_state t"
  by (simp_all add: record_only_def tell_and_record_def tell_def add_part_def)

section \<open>Steering\<close>

lemma push_all_steer:
  "fold (\<lambda>m s. snd (push_steer_if_active m s)) ms s = (if ss_depth s = 0 then s else s\<lparr>ss_steer := ss_steer s @ ms\<rparr>)"
  by (induction ms arbitrary: s) (auto simp: push_steer_if_active_def)

lemma arrive_ok: "state_ok ids (ts_state t) \<Longrightarrow> list_all plain ms \<Longrightarrow> state_ok ids (ts_state (arrive ms t))"
  by (auto simp: arrive_def push_all_steer state_ok_def)

lemma absorb_ok: "state_ok [] x \<Longrightarrow> state_ok [] (absorb_steer x)"
proof -
  assume ok: "state_ok [] x"
  obtain w s where x: "x = (w, s)" by (cases x)
  show ?thesis
  proof (cases "ss_steer s = []")
    case True
    with ok x show ?thesis by (simp add: absorb_steer_def drain_steer_def)
  next
    case False
    with ok_fold_plain [of "(w, s\<lparr>ss_steer := []\<rparr>)" "ss_steer s"] ok x show ?thesis
      by (simp add: absorb_steer_def drain_steer_def state_ok_def)
  qed
qed

lemma fold_in_ok: "state_ok [] (ts_state t) \<Longrightarrow> state_ok [] (ts_state (fold_in_steer t))"
  by (simp add: fold_in_steer_def Let_def absorb_ok)

section \<open>Rounds\<close>

definition env_ok :: "'e turn_env \<Rightarrow> bool" where
  "env_ok env =
     ((\<forall>i ms tools r ms'. tv_ask env i ms tools = (Inr r, ms') \<longrightarrow>
         distinct (map tcl_id (rp_calls r)) \<and> list_all (\<lambda>c. tcl_id c \<noteq> []) (rp_calls r))
      \<and> (\<forall>i ms. list_all (\<lambda>(j, _). j \<noteq> []) (ho_synthetic (tv_hook env i ms)))
      \<and> (\<forall>i. list_all plain (tv_steer env i)))"

text \<open>The warning of a detected loop while calls are open.\<close>

definition warned :: "session_state \<Rightarrow> bool" where
  "warned x =
     (\<exists>before m after ids. ss_messages (snd x) = before @ m # after \<and> pending_after [] before = Some ids \<and> ids \<noteq> []
        \<and> mg_role m = ''system'' \<and> mg_content m = loop_warning)"

lemma warned_extend: "warned x \<Longrightarrow> prefix (ss_messages (snd x)) (ss_messages (snd y)) \<Longrightarrow> warned y"
  unfolding warned_def prefix_def by (metis append.assoc append_Cons)

lemma warned_append: "warned x \<Longrightarrow> warned (append_message m x)"
  using warned_extend append_extends by blast

lemma synthetic_ok:
  "state_ok [] (ts_state t) \<Longrightarrow> list_all (\<lambda>(j, _). j \<noteq> []) ss
   \<Longrightarrow> state_ok [] (ts_state (fold record_only (concat (map (synthetic_pair now) ss)) t))"
proof (induction ss arbitrary: t)
  case (Cons p ss)
  obtain i name args result where p: "p = (i, name, args, result)" by (metis prod_cases4)
  let ?a = "(blank_message ''assistant'' [])\<lparr>mg_calls := [\<lparr>tcl_id = i, tcl_name = name, tcl_args = args\<rparr>], mg_timestamp := now\<rparr>"
  let ?r = "(blank_message ''tool'' result)\<lparr>mg_call_id := i\<rparr>"
  have "state_ok [i] (append_message ?a (ts_state t))"
    using ok_call [OF Cons.prems(1), of ?a] Cons.prems(2) by (simp add: blank_message_def p)
  then have "state_ok [] (append_message ?r (append_message ?a (ts_state t)))"
    by (rule ok_result) (simp_all add: blank_message_def is_tool_def)
  with Cons p show ?case by (simp add: synthetic_pair_def)
qed simp

lemma choose_tools_state: "choose_tools tools t = (ct, t') \<Longrightarrow> ts_state t' = ts_state t"
  by (auto simp: choose_tools_def Let_def split: if_splits prod.splits)

lemma detect_loop_state:
  "detect_loop cs t = (b, t') \<Longrightarrow>
     (if b then cs \<noteq> [] \<and> ts_state t' = append_message (system_message loop_warning) (ts_state t) else ts_state t' = ts_state t)"
proof (induction cs t arbitrary: b t' rule: detect_loop.induct)
  case (2 c cs t)
  define t1 where "t1 = (if ts_sig t = Some (tcl_name c, tcl_args c) then t\<lparr>ts_same := Suc (ts_same t)\<rparr>
                else t\<lparr>ts_same := 1, ts_sig := Some (tcl_name c, tcl_args c)\<rparr>)"
  have s: "ts_state t1 = ts_state t" by (simp add: t1_def)
  show ?case
  proof (cases "ts_same t1 \<ge> 3")
    case True
    then have "b" "t' = tell_and_record (system_message loop_warning) t1" using 2(2) by (auto simp: Let_def simp flip: t1_def)
    then show ?thesis by (simp add: s)
  next
    case False
    then have "detect_loop cs t1 = (b, t')" using 2(2) by (auto simp: Let_def simp flip: t1_def)
    with 2(1) [of t1 b t'] False s show ?thesis by (auto simp: t1_def)
  qed
qed simp

lemma warning_warns:
  assumes "state_ok ids x" and "ids \<noteq> []"
  shows "warned (append_message (system_message loop_warning) x)"
proof -
  have "mg_role (stamp_message w s (system_message loop_warning)) = ''system''"
    "mg_content (stamp_message w s (system_message loop_warning)) = loop_warning" for w s
    by (simp_all add: stamp_message_def Let_def system_message_def blank_message_def)
  with assms show ?thesis
    unfolding warned_def append_message_messages state_ok_def by blast
qed

lemma pad_missing_length: "length calls \<le> length (pad_missing calls rs)"
  by (simp add: pad_missing_def)

text \<open>One result: a panic, or a message that answers its call.\<close>

lemma process_results_step:
  "(\<exists>t1. process_results env (r # rs) (c # cs) b t = Inr t1 \<and> ts_state t1 = ts_state t)
   \<or> (\<exists>b' t2 m. process_results env (r # rs) (c # cs) b t = process_results env rs cs b' (tell_and_record m t2)
        \<and> ts_state t2 = ts_state t \<and> is_tool m \<and> mg_call_id m = tcl_id c \<and> mg_calls m = [] \<and> mg_origin m = [])"
proof -
  obtain content0 meta where meta: "extract_tool_meta (tr_text r) = (content0, meta)" by (metis surj_pair)
  let ?m = "\<lambda>content. (blank_message ''tool'' content)\<lparr>mg_call_id := tcl_id c, mg_name := tr_name r, mg_meta := meta\<rparr>"
  have m: "is_tool (?m content) \<and> mg_call_id (?m content) = tcl_id c \<and> mg_calls (?m content) = [] \<and> mg_origin (?m content) = []" for content
    by (simp add: blank_message_def is_tool_def)
  show ?thesis
  proof (cases "is_failed_tool_result (tr_err r) (tv_polish env (tr_name r) content0) \<and> tr_err r = None")
    case True
    show ?thesis unfolding process_results.simps meta Let_def prod.case if_P [OF True] by simp
  next
    case False
    have "ts_state (t\<lparr>ts_total := x, ts_streak := z\<rparr>) = ts_state t" for x z by simp
    with False m show ?thesis unfolding process_results.simps meta Let_def prod.case if_not_P [OF False] by blast
  qed
qed

text \<open>The results close the calls one after the other; a panic leaves the rest open.\<close>

lemma process_results_ok:
  "state_ok (map tcl_id cs) (ts_state t) \<Longrightarrow> length cs \<le> length rs
   \<Longrightarrow> (case process_results env rs cs b t of
          Inl (_, t') \<Rightarrow> state_ok [] (ts_state t') | Inr t' \<Rightarrow> \<exists>ids. state_ok ids (ts_state t'))"
proof (induction rs arbitrary: cs b t)
  case (Cons r rs)
  show ?case
  proof (cases cs)
    case Nil
    with Cons.prems show ?thesis by auto
  next
    case c: (Cons c ds)
    from process_results_step [of env r rs c ds b t] show ?thesis
    proof (elim disjE exE conjE)
      fix t1 assume "process_results env (r # rs) (c # ds) b t = Inr t1" "ts_state t1 = ts_state t"
      with Cons.prems c show ?thesis by auto
    next
      fix b' t2 m
      assume *: "process_results env (r # rs) (c # ds) b t = process_results env rs ds b' (tell_and_record m t2)"
        "ts_state t2 = ts_state t" "is_tool m" "mg_call_id m = tcl_id c" "mg_calls m = []"
      have "state_ok (map tcl_id ds) (append_message m (ts_state t))"
        using ok_result [of "tcl_id c" "map tcl_id ds" "ts_state t" m] Cons.prems(1) c * by simp
      with Cons.IH [of ds "tell_and_record m t2" b'] Cons.prems(2) c * show ?thesis by simp
    qed
  qed
qed simp

lemma call_round_ok:
  assumes "state_ok [] (ts_state t)" and "env_ok env" and "distinct (map tcl_id (rp_calls r))"
    and "list_all (\<lambda>c. tcl_id c \<noteq> []) (rp_calls r)"
  shows "case call_round env i r t of
      Next t' \<Rightarrow> state_ok [] (ts_state t') | Break t' \<Rightarrow> warned (ts_state t') | Stop e t' \<Rightarrow> \<exists>ids. state_ok ids (ts_state t')"
proof -
  define t1 where "t1 = (if rp_text r \<noteq> [] then add_part (rp_text r) t else t)"
  define t2 where "t2 = tell_and_record (assistant_message (turn_now t) (tv_meta env i) r (rp_calls r)) t1"
  have s1: "ts_state t1 = ts_state t" by (simp add: t1_def)
  have ok2: "state_ok (map tcl_id (rp_calls r)) (ts_state t2)"
    using ok_call [OF assms(1), of "assistant_message (turn_now t) (tv_meta env i) r (rp_calls r)"] assms(3,4)
    by (simp add: t2_def s1 assistant_message_def blank_message_def)
  obtain b t3 where loop: "detect_loop (rp_calls r) t2 = (b, t3)" by (metis surj_pair)
  obtain results prompted where out: "round_outcome env i (rp_calls r) = (results, prompted)" by (metis surj_pair)
  have len: "length (rp_calls r) \<le> length results"
    using out pad_missing_length by (auto simp: round_outcome_def Let_def split: prod.splits)
  show ?thesis
  proof (cases b)
    case True
    with detect_loop_state [OF loop] have "rp_calls r \<noteq> []" "ts_state t3 = append_message (system_message loop_warning) (ts_state t2)"
      by simp_all
    with warning_warns [OF ok2] loop True show ?thesis by (simp add: call_round_def Let_def flip: t1_def t2_def)
  next
    case False
    with detect_loop_state [OF loop] ok2 have "state_ok (map tcl_id (rp_calls r)) (ts_state t3)" by simp
    from process_results_ok [OF this len, of env "results \<noteq> []"] assms(2) loop False out
    show ?thesis
      by (auto simp: call_round_def Let_def env_ok_def simp flip: t1_def t2_def split: sum.splits intro!: fold_in_ok arrive_ok)
  qed
qed

lemma text_round_ok:
  assumes "state_ok [] (ts_state t)" and "env_ok env"
  shows "case text_round env i r t of
      Next t' \<Rightarrow> state_ok [] (ts_state t') | Break t' \<Rightarrow> False | Stop e t' \<Rightarrow> \<exists>ids. state_ok ids (ts_state t')"
proof -
  have plain: "plain (assistant_message n meta r [])" for n meta by (simp add: assistant_message_def plain_def blank_message_def is_tool_def)
  have steer: "list_all plain (tv_steer env i)" using assms(2) by (simp add: env_ok_def)
  show ?thesis
    using assms(1) steer
    by (auto simp: text_round_def Let_def intro!: fold_in_ok arrive_ok ok_plain plain exI [of _ "[]"])
qed

lemma turn_round_ok:
  assumes "state_ok [] (ts_state t)" and "env_ok env"
  shows "case turn_round env i t of
      Next t' \<Rightarrow> state_ok [] (ts_state t') | Break t' \<Rightarrow> warned (ts_state t') | Stop e t' \<Rightarrow> \<exists>ids. state_ok ids (ts_state t')"
proof -
  define h where "h = tv_hook env i (ts_messages t)"
  define t1 where "t1 = fold record_only (concat (map (synthetic_pair (turn_now t)) (ho_synthetic h))) t"
  have ok1: "state_ok [] (ts_state t1)"
    unfolding t1_def using synthetic_ok [OF assms(1)] assms(2) by (simp add: env_ok_def h_def)
  obtain ct t3 where ct: "choose_tools (tv_tools env) (t1\<lparr>ts_messages := ho_messages h\<rparr>) = (ct, t3)" by (metis surj_pair)
  have ok3: "state_ok [] (ts_state t3)" using choose_tools_state [OF ct] ok1 by simp
  obtain answer ms where ask: "tv_ask env i (ts_messages t3) ct = (answer, ms)" by (metis surj_pair)
  let ?t4 = "t3\<lparr>ts_messages := ms\<rparr>"
  have ok4: "state_ok [] (ts_state ?t4)" using ok3 by simp
  have failed: "case fail_turn env e ?t4 of Next t' \<Rightarrow> False | Break t' \<Rightarrow> False | Stop e t' \<Rightarrow> \<exists>ids. state_ok ids (ts_state t')" for e
    using ok4 by (auto simp: fail_turn_def turn_error_message_def split: prod.split intro!: exI [of _ "[]"] ok_plain)
  show ?thesis
  proof (cases "ho_skip h")
    case (Some reply)
    with ok1 show ?thesis by (auto simp: turn_round_def Let_def simp flip: h_def t1_def)
  next
    case skip: None
    show ?thesis
    proof (cases "tv_has_provider env")
      case False
      with skip ok1 show ?thesis by (auto simp: turn_round_def Let_def simp flip: h_def t1_def)
    next
      case True
      show ?thesis
      proof (cases answer)
        case (Inl e)
        with skip True ct ask failed [of e] show ?thesis
          by (auto simp: turn_round_def Let_def simp flip: h_def t1_def split: round_end.splits)
      next
        case (Inr r)
        have shape: "distinct (map tcl_id (rp_calls r)) \<and> list_all (\<lambda>c. tcl_id c \<noteq> []) (rp_calls r)"
          using assms(2) ask Inr unfolding env_ok_def by blast
        from skip True ct ask Inr text_round_ok [OF ok4 assms(2), of i r] call_round_ok [OF ok4 assms(2), of r i] shape
        show ?thesis
          by (cases "rp_calls r = []") (auto simp: turn_round_def Let_def simp flip: h_def t1_def split: round_end.splits)
      qed
    qed
  qed
qed

section \<open>The whole turn\<close>

lemma final_delivery_state:
  "\<exists>m. plain m \<and> mg_raw m = [] \<and> ts_state (snd (final_delivery env t)) = append_message m (ts_state t)"
proof -
  define answer where "answer = tv_final env (ts_messages t @ [cap_reached_nudge (tv_max_iterations env)])"
  let ?m = "(blank_message ''assistant'' (if answer = [] then cap_fallback (tv_max_iterations env) else answer))
    \<lparr>mg_meta := iteration_cap_metadata (tv_max_iterations env), mg_timestamp := turn_now t\<rparr>"
  have "ts_state (snd (final_delivery env t)) = append_message ?m (ts_state t)"
    by (simp add: final_delivery_def Let_def flip: answer_def)
  moreover have "plain ?m" "mg_raw ?m = []" by (simp_all add: blank_message_def plain_def is_tool_def)
  ultimately show ?thesis by blast
qed

lemma react_loop_ok:
  assumes "env_ok env" and "state_ok [] (ts_state t)"
  shows "warned (ts_state (snd (react_loop env k i t))) \<or> (\<exists>ids. state_ok ids (ts_state (snd (react_loop env k i t))))"
  using assms(2)
proof (induction k arbitrary: i t)
  case 0
  with final_delivery_state [of env t] show ?case by (metis ok_plain react_loop.simps(1))
next
  case (Suc k)
  show ?case
  proof (cases "turn_round env i t")
    case (Next t')
    with turn_round_ok [OF Suc.prems assms(1), of i] Suc.IH show ?thesis by simp
  next
    case (Break t')
    with turn_round_ok [OF Suc.prems assms(1), of i] final_delivery_state [of env t'] show ?thesis
      by (auto intro: warned_append)
  next
    case (Stop e t')
    with turn_round_ok [OF Suc.prems assms(1), of i] show ?thesis by simp
  qed
qed

lemma ok_fold_results:
  "state_ok (map fst ps) (ts_state t)
   \<Longrightarrow> (\<forall>p \<in> set ps. is_tool (f p) \<and> mg_call_id (f p) = fst p \<and> mg_calls (f p) = [])
   \<Longrightarrow> state_ok [] (ts_state (fold tell_and_record (map f ps) t))"
proof (induction ps arbitrary: t)
  case (Cons p ps)
  then have "state_ok (map fst ps) (ts_state (tell_and_record (f p) t))"
    using ok_result [of "fst p" "map fst ps" "ts_state t" "f p"] by simp
  with Cons show ?case by simp
qed simp

lemma nat_ids_distinct: "distinct (map (\<lambda>k. s @ ''-'' @ nat_str k) [0..<n])"
  by (auto simp: distinct_map inj_on_def dest: nat_str_inj)

lemma run_approved_ok:
  assumes "state_ok [] (ts_state t)"
  shows "state_ok [] (ts_state (run_approved env synth raw calls t))"
proof (cases "calls = []")
  case True
  with assms show ?thesis by (simp add: run_approved_def)
next
  case False
  let ?ids = "map (\<lambda>k. synth @ ''-'' @ nat_str k) [0..<length calls]"
  let ?tcs = "map (\<lambda>(i, c). c\<lparr>tcl_id := i\<rparr>) (zip ?ids calls)"
  let ?a = "(blank_message ''assistant'' [])\<lparr>mg_calls := ?tcs, mg_raw := raw ?tcs\<rparr>"
  let ?rs = "execute_tools_concurrently (tv_exec env 0) calls"
  let ?f = "\<lambda>(i, c, r). (blank_message ''tool'' (fst (extract_tool_meta (tr_text r))))\<lparr>mg_call_id := i, mg_name := tcl_name c\<rparr>"
  have relabel: "map tcl_id (map (\<lambda>(i, c). c\<lparr>tcl_id := i\<rparr>) (zip is cs)) = is" if "length is = length cs" for "is" and cs :: "message_call list"
    using that by (induction "is" cs rule: list_induct2) simp_all
  have ids: "map tcl_id ?tcs = ?ids" by (rule relabel) simp
  have named: "list_all (\<lambda>c. tcl_id c \<noteq> []) ?tcs" by (auto simp: list_all_iff in_set_zip)
  have calls: "mg_calls ?a = ?tcs" "mg_role ?a = ''assistant''" by (simp_all add: blank_message_def)
  have "state_ok ?ids (append_message ?a (ts_state t))"
    using ok_call [OF assms calls(2)] nat_ids_distinct [of synth "length calls"] named by (simp only: calls ids)
  moreover have "map fst (zip ?ids (zip calls ?rs)) = ?ids" by (simp add: execute_tools_concurrently_def)
  ultimately have "state_ok [] (ts_state (fold tell_and_record (map ?f (zip ?ids (zip calls ?rs))) (tell_and_record ?a t)))"
    by (intro ok_fold_results) (auto simp: blank_message_def is_tool_def)
  with False show ?thesis by (simp add: run_approved_def Let_def)
qed

lemma compact_named: "calls_named ms \<Longrightarrow> calls_named (cr_messages (compact_messages chat threshold ms))"
proof -
  assume named: "calls_named ms"
  have fewer: "set (mg_calls (prune_old m)) \<subseteq> set (mg_calls m)" "set (mg_calls (cap_recent m)) \<subseteq> set (mg_calls m)" for m
    by (simp_all add: prune_old_def cap_recent_def blank_message_def)
  have "calls_named (map prune_old xs)" "calls_named (map cap_recent xs)" if "calls_named xs" for xs
    using that fewer by (fastforce simp: calls_named_def list_all_iff)+
  moreover have "calls_named (take k ms)" "calls_named (drop k ms)" for k
    using named by (auto simp: calls_named_def list_all_iff dest: in_set_takeD in_set_dropD)
  ultimately have pruned: "calls_named (prune_old_tool_results ms)"
    by (simp add: prune_old_tool_results_def Let_def)
  have later: "calls_named (drop k xs)" if "calls_named xs" for k xs
    using that by (auto simp: calls_named_def list_all_iff dest: in_set_dropD)
  have "calls_named c" if "compress_older_messages chat xs = Some c" "calls_named xs" for xs c
    using that later [OF that(2)]
    by (auto simp: compress_older_messages_def Let_def split: if_splits option.splits) (simp add: calls_named_def blank_message_def)
  with named pruned show ?thesis by (auto simp: compact_messages_def Let_def split: option.split)
qed

lemma compact_before_turn_ok:
  assumes "state_ok [] x"
  shows "state_ok [] (snd (compact_before_turn inp x))"
proof -
  let ?r = "compact_messages (ti_summary inp) (turn_compaction_threshold (ti_threshold inp) x) (ss_messages (snd x))"
  have paired: "well_paired (ss_messages (snd x))" using assms by (simp add: state_ok_def well_paired_def)
  have "state_ok [] (replace_messages (cr_messages ?r) x)"
    using assms compact_messages_paired [OF paired] compact_named
    by (cases x) (simp add: replace_messages_def Let_def state_ok_def well_paired_def)
  then show ?thesis
    using assms by (auto simp: compact_before_turn_def Let_def compaction_notice_message_def split: prod.split intro!: ok_plain)
qed

lemma start_turn_ok:
  assumes "state_ok [] x" and "list_all plain (ti_cards inp)" and "plain (ti_user inp)"
  shows "state_ok [] (ts_state (start_turn inp x))"
proof -
  have "state_ok [] (fold append_message (ti_cards inp @ [ti_user inp]) x)" by (rule ok_fold_plain [OF assms(1)]) (simp add: assms(2,3))
  from compact_before_turn_ok [OF this, of inp] show ?thesis
    by (cases "compact_before_turn inp (fold append_message (ti_cards inp @ [ti_user inp]) x)")
      (simp add: start_turn_def Let_def del: fold_append)
qed

lemma pad_and_mark_ok:
  assumes "state_ok ids x"
  shows "state_ok [] (pad_and_mark_aborted pad x)"
proof -
  obtain b x' where run: "pad_orphan_tool_results pad x = (b, x')" by (metis surj_pair)
  have p: "pending_after [] (ss_messages (snd x)) = Some ids" "distinct ids" "calls_named (ss_messages (snd x))"
    using assms by (auto simp: state_ok_def)
  from pads_close [OF p run] have closed: "well_paired (ss_messages (snd x'))" "calls_named (ss_messages (snd x'))" by auto
  have fold_steer: "ss_steer (snd (fold (\<lambda>c. append_message (f c)) cs y)) = ss_steer (snd y)" for f cs y
    by (induction cs arbitrary: y) auto
  have steer: "ss_steer (snd x') = ss_steer (snd x)"
    using run fold_steer by (cases x) (auto simp: pad_orphan_tool_results_def Let_def split: option.splits prod.splits)
  have claim: "ss_steer (snd (claim_abort cause y)) = ss_steer (snd y)" for cause y
    by (cases y) (auto simp: claim_abort_def append_claim_once_def)
  from run closed claim_abort_closed [OF closed] steer claim assms show ?thesis
    by (auto simp: pad_and_mark_aborted_def state_ok_def well_paired_def split: bool.splits)
qed

lemma flush_ok: "state_ok [] x \<Longrightarrow> state_ok [] (flush_leftover_steer x)"
proof -
  assume ok: "state_ok [] x"
  obtain w s where x: "x = (w, s)" by (cases x)
  have "state_ok [] (w, snd (end_turn s)) \<and> list_all plain (fst (end_turn s))"
    using ok by (auto simp: end_turn_def Let_def state_ok_def x)
  with ok_fold_plain show ?thesis by (cases "end_turn s") (auto simp: flush_leftover_steer_def x)
qed

lemma pad_and_mark_extends:
  "prefix (ss_messages (snd (snd (pad_orphan_tool_results pad x)))) (ss_messages (snd (pad_and_mark_aborted pad x)))"
proof -
  obtain b x' where "pad_orphan_tool_results pad x = (b, x')" by (metis surj_pair)
  with claim_extends [of x' turn_aborted_stop_note] show ?thesis by (cases b) (simp_all add: pad_and_mark_aborted_def)
qed

lemma flush_extends: "prefix (ss_messages (snd x)) (ss_messages (snd (flush_leftover_steer x)))"
proof -
  obtain w s where x: "x = (w, s)" by (cases x)
  obtain ms s1 where e: "end_turn s = (ms, s1)" by (metis surj_pair)
  then have "ss_messages s1 = ss_messages s" by (auto simp: end_turn_def Let_def split: if_splits)
  with x e fold_append_extends [of "(w, s1)" "\<lambda>m. m" ms] show ?thesis by (simp add: flush_leftover_steer_def)
qed

lemma end_of_turn_extends:
  "prefix (ss_messages (snd (snd (pad_orphan_tool_results tool_result_stopped_note x)))) (ss_messages (snd (end_of_turn x)))"
  unfolding end_of_turn_def using pad_and_mark_extends flush_extends prefix_order.trans by blast

lemma warned_pads: "warned x \<Longrightarrow> warned (end_of_turn x)"
  using warned_extend pad_extends end_of_turn_extends prefix_order.trans by blast

lemma end_of_turn_ok: "state_ok ids x \<Longrightarrow> state_ok [] (end_of_turn x)"
  unfolding end_of_turn_def by (intro flush_ok pad_and_mark_ok)



text \<open>The first round calls a tool, which does not answer; the second round ends the turn.\<close>

definition one_call :: message_call where
  "one_call = \<lparr>tcl_id = ''a'', tcl_name = ''exec'', tcl_args = ''ls''\<rparr>"

definition example_reply :: "nat \<Rightarrow> llm_reply" where
  "example_reply i =
     \<lparr>rp_text = ''done'', rp_calls = (if i = 0 then [one_call] else []), rp_thinking = [], rp_raw = [], rp_output_tokens = 1\<rparr>"

definition example_env :: "(message_call list \<Rightarrow> sdk_response list) \<Rightarrow> unit turn_env" where
  "example_env run =
     \<lparr>tv_max_iterations = 2, tv_max_parallel = 0, tv_max_tokens = 100, tv_tools = [''exec''], tv_has_provider = True, tv_model = ''m'',
      tv_hook = (\<lambda>i ms. \<lparr>ho_synthetic = [], ho_skip = None, ho_messages = ms\<rparr>),
      tv_ask = (\<lambda>i ms tools. (Inr (example_reply i), ms)), tv_final = (\<lambda>ms. ''summary''), tv_gate = (\<lambda>i cs. (cs, [], [])),
      tv_exec = (\<lambda>i. run), tv_steer = (\<lambda>i. []), tv_polish = (\<lambda>name content. content), tv_image = (\<lambda>content. content),
      tv_notice = (\<lambda>e. ([], [])), tv_canceled = (\<lambda>e. False), tv_meta = (\<lambda>i. None)\<rparr>"

definition example_input :: turn_input where
  "example_input =
     \<lparr>ti_retry = False, ti_cards = [], ti_user = blank_message ''user'' ''go'', ti_threshold = 80000, ti_summary = (\<lambda>s. None),
      ti_notice = (\<lambda>r. ([], None)), ti_system = [], ti_tail = [], ti_approved = [], ti_synth = ''authrun-1'', ti_raw = (\<lambda>cs. []),
      ti_provider = ''p'', ti_model = ''m''\<rparr>"


section \<open>Panics\<close>

text \<open>A result that counts as failed although no error came with it.\<close>

definition unexplained :: "'e turn_env \<Rightarrow> round_result \<Rightarrow> bool" where
  "unexplained env r =
     (tr_err r = None \<and> is_failed_tool_result None (tv_polish env (tr_name r) (fst (extract_tool_meta (tr_text r)))))"

text \<open>
  The results of a round panic exactly when there are more of them than calls, or when one of them
  looks like a failure but carries no error.
\<close>
lemma unexplained_failure_panics:
  "(\<exists>t'. process_results env rs cs b t = Inr t') = (length cs < length rs \<or> list_ex (unexplained env) rs)"
proof (induction rs arbitrary: cs b t)
  case (Cons r rs)
  show ?case
  proof (cases cs)
    case (Cons c ds)
    obtain content0 meta where meta: "extract_tool_meta (tr_text r) = (content0, meta)" by (metis surj_pair)
    let ?bad = "is_failed_tool_result (tr_err r) (tv_polish env (tr_name r) content0) \<and> tr_err r = None"
    have bad: "?bad = unexplained env r" by (auto simp: unexplained_def meta)
    show ?thesis
    proof (cases ?bad)
      case True
      then have "unexplained env r" using bad by simp
      then show ?thesis unfolding Cons process_results.simps meta Let_def prod.case if_P [OF True] by simp
    next
      case False
      then have "\<not> unexplained env r" using bad by simp
      with Cons.IH show ?thesis unfolding Cons process_results.simps meta Let_def prod.case if_not_P [OF False] by simp
    qed
  qed simp
qed simp

text \<open>A page that a tool read successfully is such a result when its text begins with a status of this kind.\<close>

lemma status_text_is_unexplained:
  assumes "tv_polish env = (\<lambda>name content. content)"
    and "c' = \<lparr>sd_id = tcl_id c, sd_result = Some \<lparr>sk_is_error = False, sk_error = [], sk_texts = [''HTTP 404 not found'']\<rparr>, sd_error = None\<rparr>"
  shows "unexplained env (bridge_result [c'] c)"
proof -
  have trim: "trim_space ''HTTP 404 not found'' = ''HTTP 404 not found''" by (rule trim_space_visible) (simp_all add: visible_def)
  have meta: "extract_tool_meta ''HTTP 404 not found'' = (''HTTP 404 not found'', None)"
    by (simp add: extract_tool_meta_def sandbox_meta_mark_def has_prefix_def)
  have "bridge_result [c'] c = \<lparr>tr_id = tcl_id c, tr_name = tcl_name c, tr_text = ''HTTP 404 not found'', tr_err = None\<rparr>"
    by (simp add: bridge_result_def assms(2))
  then show ?thesis
    by (simp add: unexplained_def assms(1) meta is_failed_tool_result_def trim Let_def has_prefix_def)
qed

section \<open>Detected loops\<close>

text \<open>Every result in a request belongs to a call of the message in front of its run.\<close>

fun results_called :: "string list \<Rightarrow> api_message list \<Rightarrow> bool" where
  "results_called ids [] = True"
| "results_called ids (a # as) =
     (if am_role a = ''tool'' then am_call_id a \<in> set ids \<and> results_called ids as else results_called (am_calls a) as)"

lemma results_called_later: "results_called ids (as @ bs) \<Longrightarrow> \<exists>ids'. results_called ids' bs"
  by (induction as arbitrary: ids) (auto split: if_splits)

lemma find_orphans_later: "\<exists>ks want'. find_orphans want (xs @ ys) = ks @ find_orphans want' ys"
proof (induction xs arbitrary: want)
  case Nil
  then show ?case by (metis append_Nil)
next
  case (Cons m xs)
  have "\<exists>k w. find_orphans want ((m # xs) @ ys) = k # find_orphans w (xs @ ys)" by auto
  with Cons show ?case by (metis append_Cons)
qed

lemma late_result_dangles:
  assumes "is_tool r" and "\<not> is_tool m" and "assistant_tool_call_ids m = []"
  shows "\<not> results_called ids (to_api_messages (xs @ m # r # ys))"
proof
  assume ok: "results_called ids (to_api_messages (xs @ m # r # ys))"
  obtain ks want where split: "find_orphans [] (xs @ m # r # ys) = ks @ find_orphans want (m # r # ys)"
    using find_orphans_later by blast
  let ?m = "\<lparr>mk_message = m, mk_stripped = False, mk_dropped = False\<rparr>" and ?r = "\<lparr>mk_message = r, mk_stripped = False, mk_dropped = False\<rparr>"
  have "find_orphans want (m # r # ys) = ?m # ?r # find_orphans [] ys"
    using assms by (simp add: lacks_results_def)
  then have "to_api_messages (xs @ m # r # ys) = kept ks @ kept (?m # ?r # find_orphans [] ys)"
    by (simp add: to_api_messages_def split kept_def)
  with ok results_called_later obtain ids' where "results_called ids' (kept (?m # ?r # find_orphans [] ys))" by metis
  then have "mg_call_id r \<in> set (am_calls (api_message_of ?m))"
    using assms by (simp add: kept_def is_tool_def)
  with api_calls [of ?m] assms(3) show False by auto
qed

text \<open>
  After a detected loop the results that the end of the turn adds for the open calls come behind the
  final answer: the next request to an OpenAI-compatible provider holds a result without its call.
\<close>
lemma detected_loop_leaves_dangling_results:
  assumes "call_round env i r t = Break t'"
  shows "\<not> results_called [] (to_api_messages (ss_messages (snd (end_of_turn (ts_state (snd (final_delivery env t')))))))"
proof -
  define t2 where "t2 = tell_and_record (assistant_message (turn_now t) (tv_meta env i) r (rp_calls r))
    (if rp_text r \<noteq> [] then add_part (rp_text r) t else t)"
  have loop: "detect_loop (rp_calls r) t2 = (True, t')"
    using assms by (auto simp: call_round_def Let_def simp flip: t2_def split: prod.splits bool.splits sum.splits if_splits)
  have calls: "rp_calls r \<noteq> []" and state: "ts_state t' = append_message (system_message loop_warning) (ts_state t2)"
    using detect_loop_state [OF loop] by simp_all
  obtain f where f: "plain f" "mg_raw f = []" "ts_state (snd (final_delivery env t')) = append_message f (ts_state t')"
    using final_delivery_state [of env t'] by blast
  let ?x = "ts_state (snd (final_delivery env t'))"
  let ?a = "stamp_message (fst (ts_state t)) (snd (ts_state t)) (assistant_message (turn_now t) (tv_meta env i) r (rp_calls r))"
  define warning where "warning = stamp_message (fst (ts_state t2)) (snd (ts_state t2)) (system_message loop_warning)"
  define final where "final = stamp_message (fst (ts_state t')) (snd (ts_state t')) f"
  have raw: "mg_raw (stamp_message w s m) = mg_raw m" for w s m by (simp add: stamp_message_def Let_def)
  have final: "\<not> is_tool final" "\<not> has_calls final" "assistant_tool_call_ids final = []"
    using f raw by (simp_all add: final_def plain_def has_calls_def assistant_tool_call_ids_def)
  have warning: "\<not> is_tool warning" "\<not> has_calls warning"
    by (simp_all add: warning_def has_calls_def system_message_def blank_message_def is_tool_def)
  have a: "has_calls ?a" "mg_calls ?a = rp_calls r" using calls by (simp_all add: has_calls_def assistant_message_def blank_message_def)
  have ms: "ss_messages (snd ?x) = (ss_messages (snd (ts_state t)) @ [?a, warning]) @ [final]"
    by (simp add: f(3) state append_message_messages warning_def final_def) (simp add: t2_def append_message_messages)
  then have "latest_calls (ss_messages (snd ?x)) = Some (rp_calls r, [warning, final])"
    using latest_calls_snoc [of "ss_messages (snd (ts_state t)) @ [?a, warning]" final]
      latest_calls_snoc [of "ss_messages (snd (ts_state t)) @ [?a]" warning] latest_calls_snoc [of "ss_messages (snd (ts_state t))" ?a]
      final warning a by simp
  moreover have "resolved_ids [warning, final] = []" using final(1) warning(1) by (simp add: resolved_ids_def del: set_filter)
  ultimately have "snd (pad_orphan_tool_results tool_result_stopped_note ?x)
      = fold (\<lambda>c. append_message (pad_message tool_result_stopped_note c)) (rp_calls r) ?x"
    by (cases ?x) (simp add: pad_orphan_tool_results_def Let_def)
  with fold_append_shape [of tool_result_stopped_note "rp_calls r" ?x] obtain new where
    new: "ss_messages (snd (snd (pad_orphan_tool_results tool_result_stopped_note ?x))) = ss_messages (snd ?x) @ new"
    "list_all2 (\<lambda>c m. is_tool m \<and> mg_call_id m = tcl_id c \<and> mg_meta m = None \<and> mg_calls m = []) (rp_calls r) new" by auto
  then obtain p rest where p: "new = p # rest" "is_tool p" using calls by (cases new) (auto simp: list_all2_Cons2)
  obtain zs where "ss_messages (snd (end_of_turn ?x)) = ss_messages (snd ?x) @ new @ zs"
    using end_of_turn_extends [of ?x] new(1) by (auto simp: prefix_def)
  also have "\<dots> = (ss_messages (snd (ts_state t)) @ [?a, warning]) @ final # p # (rest @ zs)"
    by (simp only: ms p(1) append_assoc append_Cons append_Nil)
  finally show ?thesis by (simp only: late_result_dangles [OF p(2) final(1,3)] not_False_eq_True)
qed

text \<open>The same call for the third time.\<close>

theorem detected_loop_leaves_dangling_results_witness:
  "(let x = (empty_world 9, fresh_session ''s'' ''web'' [] ''s'' []);
        t = (start_turn example_input x)\<lparr>ts_sig := Some (''exec'', ''ls''), ts_same := 2\<rparr>;
        env = example_env (\<lambda>cs. [])
    in \<exists>t'. call_round env 0 (example_reply 0) t = Break t'
         \<and> \<not> results_called [] (to_api_messages (ss_messages (snd (end_of_turn (ts_state (snd (final_delivery env t'))))))))"
proof -
  have "\<exists>t'. call_round env 0 (example_reply 0) (t\<lparr>ts_sig := Some (''exec'', ''ls''), ts_same := 2\<rparr>) = Break t'" for env t
    by (simp add: call_round_def example_reply_def one_call_def Let_def tell_and_record_def tell_def record_only_def add_part_def)
  then show ?thesis unfolding Let_def using detected_loop_leaves_dangling_results by blast
qed

end
