(* ===== verification/Channel_Lease.thy ===== *)
theory Channel_Lease
  imports Go_Strings
begin

text \<open>
  The lease that lets one process at a time run the adapter of a channel account: the rows
  (\<^verbatim>\<open>channel_leases\<close> in \<^verbatim>\<open>internal/store/database.go\<close>), and the goroutines that
  acquire, renew and release them around an adapter (\<^verbatim>\<open>internal/channels/lease.go\<close>). The
  clocks of the processes agree; times are nanoseconds.
\<close>

section \<open>The rows\<close>

record lease_row =
  lr_channel :: string
  lr_account :: string
  lr_holder :: string
  lr_expires :: int

definition lease_at :: "string \<Rightarrow> string \<Rightarrow> lease_row \<Rightarrow> bool" where
  "lease_at channel account r = (lr_channel r = channel \<and> lr_account r = account)"

text \<open>The insert that updates the row it meets when that is expired or the caller's own.\<close>

definition acquire_lease ::
    "int \<Rightarrow> int \<Rightarrow> string \<Rightarrow> string \<Rightarrow> string \<Rightarrow> lease_row list \<Rightarrow> bool \<times> lease_row list" where
  "acquire_lease now ttl channel account holder rows =
     (case List.find (lease_at channel account) rows of
        None \<Rightarrow> (True, rows @ [\<lparr>lr_channel = channel, lr_account = account, lr_holder = holder, lr_expires = now + ttl\<rparr>])
      | Some r \<Rightarrow>
          if lr_expires r < now \<or> lr_holder r = holder
          then (True, map (\<lambda>r. if lease_at channel account r then r\<lparr>lr_holder := holder, lr_expires := now + ttl\<rparr> else r) rows)
          else (False, rows))"

definition renew_lease ::
    "int \<Rightarrow> int \<Rightarrow> string \<Rightarrow> string \<Rightarrow> string \<Rightarrow> lease_row list \<Rightarrow> bool \<times> lease_row list" where
  "renew_lease now ttl channel account holder rows =
     (let mine = (\<lambda>r. lease_at channel account r \<and> lr_holder r = holder)
      in (list_ex mine rows, map (\<lambda>r. if mine r then r\<lparr>lr_expires := now + ttl\<rparr> else r) rows))"

definition release_lease :: "string \<Rightarrow> string \<Rightarrow> string \<Rightarrow> lease_row list \<Rightarrow> lease_row list" where
  "release_lease channel account holder rows =
     List.filter (\<lambda>r. \<not> (lease_at channel account r \<and> lr_holder r = holder)) rows"

section \<open>The goroutines\<close>

definition lease_ttl :: int where "lease_ttl = 30000000000"
definition lease_renew_interval :: int where "lease_renew_interval = 10000000000"
definition lease_retry_interval :: int where "lease_retry_interval = 10000000000"

text \<open>
  A goroutine sleeps until its next attempt, runs the adapter with the time of the next renewal, waits
  for the canceled adapter to return, or has returned.
\<close>

datatype lease_phase = Seeking int | Serving int | Stopping | Gone

record lease_worker =
  lw_holder :: string
  lw_phase :: lease_phase
  lw_renewed :: int        \<comment> \<open>when it last wrote the row\<close>

record lease_world =
  lx_channel :: string
  lx_account :: string
  lx_rows :: "lease_row list"
  lx_workers :: "lease_worker list"
  lx_now :: int

datatype lease_step =
    Try nat bool          \<comment> \<open>an attempt; whether the database fails\<close>
  | Renew nat bool
  | Adapter_exits nat
  | Adapter_stopped nat
  | Shutdown nat          \<comment> \<open>the context ends\<close>
  | Crash nat
  | Join string           \<comment> \<open>a process registers the channel\<close>
  | Wait_for nat

definition set_worker :: "nat \<Rightarrow> lease_worker \<Rightarrow> lease_world \<Rightarrow> lease_world" where
  "set_worker i w x = x\<lparr>lx_workers := (lx_workers x)[i := w]\<rparr>"

definition runs_adapter :: "lease_worker \<Rightarrow> bool" where
  "runs_adapter w = (case lw_phase w of Serving _ \<Rightarrow> True | Stopping \<Rightarrow> True | _ \<Rightarrow> False)"

definition try_lease :: "nat \<Rightarrow> bool \<Rightarrow> lease_world \<Rightarrow> lease_world option" where
  "try_lease i failed x =
     (let w = lx_workers x ! i; again = set_worker i (w\<lparr>lw_phase := Seeking (lx_now x + lease_retry_interval)\<rparr>) x in
      case lw_phase w of
        Seeking at \<Rightarrow>
          if lx_now x < at then None
          else if failed then Some again
          else (case acquire_lease (lx_now x) lease_ttl (lx_channel x) (lx_account x) (lw_holder w) (lx_rows x) of
              (False, _) \<Rightarrow> Some again
            | (True, rows) \<Rightarrow>
                Some (set_worker i (w\<lparr>lw_phase := Serving (lx_now x + lease_renew_interval), lw_renewed := lx_now x\<rparr>) (x\<lparr>lx_rows := rows\<rparr>)))
      | _ \<Rightarrow> None)"

definition renew_step :: "nat \<Rightarrow> bool \<Rightarrow> lease_world \<Rightarrow> lease_world option" where
  "renew_step i failed x =
     (let w = lx_workers x ! i in
      case lw_phase w of
        Serving at \<Rightarrow>
          if lx_now x < at then None
          else if failed then Some (set_worker i (w\<lparr>lw_phase := Serving (at + lease_renew_interval)\<rparr>) x)
          else (case renew_lease (lx_now x) lease_ttl (lx_channel x) (lx_account x) (lw_holder w) (lx_rows x) of
              (True, rows) \<Rightarrow>
                Some (set_worker i (w\<lparr>lw_phase := Serving (at + lease_renew_interval), lw_renewed := lx_now x\<rparr>) (x\<lparr>lx_rows := rows\<rparr>))
            | (False, _) \<Rightarrow> Some (set_worker i (w\<lparr>lw_phase := Stopping\<rparr>) x))
      | _ \<Rightarrow> None)"

definition release_row :: "nat \<Rightarrow> lease_world \<Rightarrow> lease_world" where
  "release_row i x = x\<lparr>lx_rows := release_lease (lx_channel x) (lx_account x) (lw_holder (lx_workers x ! i)) (lx_rows x)\<rparr>"

text \<open>An adapter that ends on its own gives the lease back; one that lost it does not.\<close>

definition adapter_exits :: "nat \<Rightarrow> lease_world \<Rightarrow> lease_world option" where
  "adapter_exits i x =
     (let w = lx_workers x ! i in
      case lw_phase w of
        Serving _ \<Rightarrow> Some (set_worker i (w\<lparr>lw_phase := Seeking (lx_now x + lease_retry_interval)\<rparr>) (release_row i x))
      | _ \<Rightarrow> None)"

definition adapter_stopped :: "nat \<Rightarrow> lease_world \<Rightarrow> lease_world option" where
  "adapter_stopped i x =
     (let w = lx_workers x ! i in
      if lw_phase w = Stopping then Some (set_worker i (w\<lparr>lw_phase := Seeking (lx_now x + lease_retry_interval)\<rparr>) x) else None)"

definition shutdown :: "nat \<Rightarrow> lease_world \<Rightarrow> lease_world option" where
  "shutdown i x =
     (let w = lx_workers x ! i in
      case lw_phase w of
        Serving _ \<Rightarrow> Some (set_worker i (w\<lparr>lw_phase := Gone\<rparr>) (release_row i x))
      | Seeking _ \<Rightarrow> Some (set_worker i (w\<lparr>lw_phase := Gone\<rparr>) x)
      | _ \<Rightarrow> None)"

definition lease_step :: "lease_step \<Rightarrow> lease_world \<Rightarrow> lease_world option" where
  "lease_step s x =
     (let ok = (\<lambda>i r. if i < length (lx_workers x) then r else None) in
      case s of
        Try i failed \<Rightarrow> ok i (try_lease i failed x)
      | Renew i failed \<Rightarrow> ok i (renew_step i failed x)
      | Adapter_exits i \<Rightarrow> ok i (adapter_exits i x)
      | Adapter_stopped i \<Rightarrow> ok i (adapter_stopped i x)
      | Shutdown i \<Rightarrow> ok i (shutdown i x)
      | Crash i \<Rightarrow> ok i (Some (set_worker i ((lx_workers x ! i)\<lparr>lw_phase := Gone\<rparr>) x))
      | Join h \<Rightarrow> Some (x\<lparr>lx_workers := lx_workers x @ [\<lparr>lw_holder = h, lw_phase = Seeking (lx_now x), lw_renewed = lx_now x\<rparr>]\<rparr>)
      | Wait_for d \<Rightarrow> Some (x\<lparr>lx_now := lx_now x + int d\<rparr>))"

fun lease_run :: "lease_step list \<Rightarrow> lease_world \<Rightarrow> lease_world option" where
  "lease_run [] x = Some x"
| "lease_run (s # ss) x = (case lease_step s x of None \<Rightarrow> None | Some x' \<Rightarrow> lease_run ss x')"

definition lease_start :: "string \<Rightarrow> string \<Rightarrow> int \<Rightarrow> lease_world" where
  "lease_start channel account now = \<lparr>lx_channel = channel, lx_account = account, lx_rows = [], lx_workers = [], lx_now = now\<rparr>"

section \<open>Exclusion\<close>

inductive lease_reaches :: "(lease_world \<Rightarrow> lease_step \<Rightarrow> bool) \<Rightarrow> lease_world \<Rightarrow> lease_world \<Rightarrow> bool"
  for allowed :: "lease_world \<Rightarrow> lease_step \<Rightarrow> bool" and x0 :: lease_world
where
  start: "lease_reaches allowed x0 x0"
| step: "lease_reaches allowed x0 x \<Longrightarrow> allowed x s \<Longrightarrow> lease_step s x = Some x' \<Longrightarrow> lease_reaches allowed x0 x'"

text \<open>
  Nobody with a lease waits past its end, and no two goroutines use one holder. The second holds when
  every process registers a channel once; a crash is allowed at any time.
\<close>

definition timely :: "lease_world \<Rightarrow> lease_step \<Rightarrow> bool" where
  "timely x s =
     (case s of
        Wait_for d \<Rightarrow> list_all (\<lambda>w. runs_adapter w \<longrightarrow> lx_now x + int d \<le> lw_renewed w + lease_ttl) (lx_workers x)
      | Join h \<Rightarrow> h \<notin> lw_holder ` set (lx_workers x)
      | _ \<Rightarrow> True)"

definition lease_inv :: "lease_world \<Rightarrow> bool" where
  "lease_inv x =
     (distinct (map lw_holder (lx_workers x))
      \<and> (\<forall>w \<in> set (lx_workers x). runs_adapter w \<longrightarrow>
           lw_phase w \<noteq> Stopping \<and> lx_now x \<le> lw_renewed w + lease_ttl
           \<and> List.find (lease_at (lx_channel x) (lx_account x)) (lx_rows x)
             = Some \<lparr>lr_channel = lx_channel x, lr_account = lx_account x, lr_holder = lw_holder w, lr_expires = lw_renewed w + lease_ttl\<rparr>))"


lemma find_map_same: "(\<And>r. P (f r) = P r) \<Longrightarrow> List.find P (map f rs) = map_option f (List.find P rs)"
  by (induction rs) auto

lemma lease_invD:
  assumes "lease_inv x" and "i < length (lx_workers x)" and "runs_adapter (lx_workers x ! i)"
  shows "lw_phase (lx_workers x ! i) \<noteq> Stopping" "lx_now x \<le> lw_renewed (lx_workers x ! i) + lease_ttl"
    "List.find (lease_at (lx_channel x) (lx_account x)) (lx_rows x)
       = Some \<lparr>lr_channel = lx_channel x, lr_account = lx_account x, lr_holder = lw_holder (lx_workers x ! i),
               lr_expires = lw_renewed (lx_workers x ! i) + lease_ttl\<rparr>"
  using assms by (auto simp: lease_inv_def)

lemma one_runs:
  assumes "lease_inv x" and "i < length (lx_workers x)" and "j < length (lx_workers x)"
    and "runs_adapter (lx_workers x ! i)" and "runs_adapter (lx_workers x ! j)"
  shows "i = j"
proof -
  have "lw_holder (lx_workers x ! i) = lw_holder (lx_workers x ! j)"
    using lease_invD(3) [OF assms(1,2,4)] lease_invD(3) [OF assms(1,3,5)] by simp
  moreover have "distinct (map lw_holder (lx_workers x))" using assms(1) by (simp add: lease_inv_def)
  ultimately show ?thesis using assms(2,3) by (metis length_map nth_eq_iff_index_eq nth_map)
qed

text \<open>
  What a step has to show: the worker that moves keeps its holder, and if it runs afterwards it has the
  row; the others that run are none, or neither the row nor the clock moves.
\<close>

lemma lease_inv_set:
  assumes inv: "lease_inv x" and i: "i < length (lx_workers x)" and holder: "lw_holder w = lw_holder (lx_workers x ! i)"
    and mine: "runs_adapter w \<Longrightarrow> lw_phase w \<noteq> Stopping \<and> lx_now x \<le> lw_renewed w + lease_ttl
      \<and> List.find (lease_at (lx_channel x) (lx_account x)) rows
        = Some \<lparr>lr_channel = lx_channel x, lr_account = lx_account x, lr_holder = lw_holder w, lr_expires = lw_renewed w + lease_ttl\<rparr>"
    and others: "rows = lx_rows x \<or> (\<forall>j. j < length (lx_workers x) \<and> j \<noteq> i \<longrightarrow> \<not> runs_adapter (lx_workers x ! j))"
  shows "lease_inv (set_worker i w (x\<lparr>lx_rows := rows\<rparr>))"
proof -
  have "map lw_holder ((lx_workers x)[i := w]) = map lw_holder (lx_workers x)"
    using i holder by (metis list_update_id map_update)
  moreover have "lw_phase v \<noteq> Stopping \<and> lx_now x \<le> lw_renewed v + lease_ttl
      \<and> List.find (lease_at (lx_channel x) (lx_account x)) rows
        = Some \<lparr>lr_channel = lx_channel x, lr_account = lx_account x, lr_holder = lw_holder v, lr_expires = lw_renewed v + lease_ttl\<rparr>"
    if v: "v \<in> set ((lx_workers x)[i := w])" "runs_adapter v" for v
  proof -
    obtain j where j: "j < length (lx_workers x)" "v = (lx_workers x)[i := w] ! j" using v(1) by (auto simp: in_set_conv_nth)
    show ?thesis
    proof (cases "j = i")
      case True
      with mine i j v(2) show ?thesis by simp
    next
      case False
      with j have vj: "v = lx_workers x ! j" by simp
      with others False j v(2) have "rows = lx_rows x" by auto
      with lease_invD [OF inv j(1)] v(2) vj show ?thesis by simp
    qed
  qed
  ultimately show ?thesis using inv by (simp add: lease_inv_def set_worker_def)
qed

lemma set_worker_same_rows: "set_worker i w x = set_worker i w (x\<lparr>lx_rows := lx_rows x\<rparr>)"
  by simp

lemma lease_inv_keep:
  assumes "lease_inv x" and "i < length (lx_workers x)" and "lw_holder w = lw_holder (lx_workers x ! i)"
    and "\<not> runs_adapter w \<or> (lw_phase w \<noteq> Stopping \<and> runs_adapter (lx_workers x ! i) \<and> lw_renewed w = lw_renewed (lx_workers x ! i))"
  shows "lease_inv (set_worker i w x)"
  unfolding set_worker_same_rows [of i w x]
  using assms lease_invD [OF assms(1,2)] by (intro lease_inv_set) auto

lemma acquired_row:
  assumes "acquire_lease now ttl channel account holder rows = (True, rows')"
  shows "List.find (lease_at channel account) rows'
    = Some \<lparr>lr_channel = channel, lr_account = account, lr_holder = holder, lr_expires = now + ttl\<rparr>"
proof (cases "List.find (lease_at channel account) rows")
  case None
  then have "\<not> list_ex (lease_at channel account) rows" by (simp add: find_None_iff list_ex_iff)
  then have "List.find (lease_at channel account) (rows @ [r]) = (if lease_at channel account r then Some r else None)" for r
    by (induction rows) auto
  with None assms show ?thesis by (auto simp: acquire_lease_def lease_at_def)
next
  case (Some r)
  have at: "lease_at channel account r" using Some by (auto simp: find_Some_iff)
  let ?f = "\<lambda>r. if lease_at channel account r then r\<lparr>lr_holder := holder, lr_expires := now + ttl\<rparr> else r"
  have "List.find (lease_at channel account) (map ?f rows) = Some (?f r)"
    using Some by (subst find_map_same) (auto simp: lease_at_def)
  moreover have "rows' = map ?f rows" using assms Some by (auto simp: acquire_lease_def split: if_splits)
  ultimately show ?thesis using at by (auto simp: lease_at_def)
qed

lemma acquire_needs_expiry:
  "acquire_lease now ttl channel account holder rows = (True, rows') \<Longrightarrow> List.find (lease_at channel account) rows = Some r
   \<Longrightarrow> lr_expires r < now \<or> lr_holder r = holder"
  by (auto simp: acquire_lease_def split: if_splits)

lemma renewed_row:
  assumes "List.find (lease_at channel account) rows = Some r" and "lr_holder r = holder"
  shows "\<exists>rows'. renew_lease now ttl channel account holder rows = (True, rows')
    \<and> List.find (lease_at channel account) rows' = Some (r\<lparr>lr_expires := now + ttl\<rparr>)"
proof -
  have r: "lease_at channel account r" "r \<in> set rows" using assms(1) by (auto simp: find_Some_iff)
  let ?f = "\<lambda>r. if lease_at channel account r \<and> lr_holder r = holder then r\<lparr>lr_expires := now + ttl\<rparr> else r"
  have "List.find (lease_at channel account) (map ?f rows) = Some (?f r)"
    using assms by (subst find_map_same) (auto simp: lease_at_def)
  with r assms(2) show ?thesis by (auto simp: renew_lease_def list_ex_iff Let_def)
qed

lemma try_lease_inv:
  assumes inv: "lease_inv x" and i: "i < length (lx_workers x)" and step: "try_lease i failed x = Some x'"
  shows "lease_inv x'"
proof -
  let ?w = "lx_workers x ! i"
  obtain at where at: "lw_phase ?w = Seeking at" using step by (auto simp: try_lease_def Let_def split: lease_phase.splits)
  have again: "lease_inv (set_worker i (?w\<lparr>lw_phase := Seeking (lx_now x + lease_retry_interval)\<rparr>) x)"
    by (rule lease_inv_keep [OF inv i]) (simp_all add: runs_adapter_def)
  obtain ok rows where acq: "acquire_lease (lx_now x) lease_ttl (lx_channel x) (lx_account x) (lw_holder ?w) (lx_rows x) = (ok, rows)"
    by (metis surj_pair)
  show ?thesis
  proof (cases "failed \<or> \<not> ok")
    case True
    with step at acq again show ?thesis by (auto simp: try_lease_def Let_def split: if_splits bool.splits)
  next
    case False
    let ?v = "?w\<lparr>lw_phase := Serving (lx_now x + lease_renew_interval), lw_renewed := lx_now x\<rparr>"
    have x': "x' = set_worker i ?v (x\<lparr>lx_rows := rows\<rparr>)"
      using False step at acq by (auto simp: try_lease_def Let_def split: if_splits)
    have acq': "acquire_lease (lx_now x) lease_ttl (lx_channel x) (lx_account x) (lw_holder ?w) (lx_rows x) = (True, rows)"
      using acq False by simp
    have "\<not> runs_adapter (lx_workers x ! j)" if "j < length (lx_workers x)" "j \<noteq> i" for j
    proof
      assume run: "runs_adapter (lx_workers x ! j)"
      have "lw_holder (lx_workers x ! j) \<noteq> lw_holder ?w"
        using inv i that by (metis lease_inv_def length_map nth_eq_iff_index_eq nth_map)
      with acquire_needs_expiry [OF acq' lease_invD(3) [OF inv that(1) run]] lease_invD(2) [OF inv that(1) run] show False by simp
    qed
    with acquired_row [OF acq'] show ?thesis unfolding x'
      by (intro lease_inv_set [OF inv i]) (auto simp: lease_ttl_def)
  qed
qed

lemma renew_step_inv:
  assumes inv: "lease_inv x" and i: "i < length (lx_workers x)" and step: "renew_step i failed x = Some x'"
  shows "lease_inv x'"
proof -
  let ?w = "lx_workers x ! i"
  obtain at where at: "lw_phase ?w = Serving at" using step by (auto simp: renew_step_def Let_def split: lease_phase.splits)
  then have run: "runs_adapter ?w" by (simp add: runs_adapter_def)
  note row = lease_invD [OF inv i run]
  show ?thesis
  proof (cases failed)
    case True
    then have x': "x' = set_worker i (?w\<lparr>lw_phase := Serving (at + lease_renew_interval)\<rparr>) x"
      using step at by (auto simp: renew_step_def Let_def split: if_splits)
    show ?thesis unfolding x' by (rule lease_inv_keep [OF inv i]) (use run in simp_all)
  next
    case False
    from renewed_row [OF row(3)] obtain rows where ren:
      "renew_lease (lx_now x) lease_ttl (lx_channel x) (lx_account x) (lw_holder ?w) (lx_rows x) = (True, rows)"
      "List.find (lease_at (lx_channel x) (lx_account x)) rows
       = Some \<lparr>lr_channel = lx_channel x, lr_account = lx_account x, lr_holder = lw_holder ?w, lr_expires = lx_now x + lease_ttl\<rparr>"
      by fastforce
    let ?v = "?w\<lparr>lw_phase := Serving (at + lease_renew_interval), lw_renewed := lx_now x\<rparr>"
    have x': "x' = set_worker i ?v (x\<lparr>lx_rows := rows\<rparr>)"
      using False step at ren(1) by (auto simp: renew_step_def Let_def split: if_splits)
    show ?thesis unfolding x'
      using ren(2) one_runs [OF inv i _ run] by (intro lease_inv_set [OF inv i]) (auto simp: lease_ttl_def)
  qed
qed

lemma release_inv:
  assumes inv: "lease_inv x" and i: "i < length (lx_workers x)" and run: "runs_adapter (lx_workers x ! i)"
    and w: "lw_holder w = lw_holder (lx_workers x ! i)" "\<not> runs_adapter w"
  shows "lease_inv (set_worker i w (release_row i x))"
  unfolding release_row_def using one_runs [OF inv i _ run] w by (intro lease_inv_set [OF inv i]) auto

lemma timely_step_inv:
  assumes inv: "lease_inv x" and timely: "timely x s" and step: "lease_step s x = Some x'"
  shows "lease_inv x'"
proof (cases s)
  case (Try i failed)
  with step try_lease_inv [OF inv] show ?thesis by (auto simp: lease_step_def split: if_splits)
next
  case (Renew i failed)
  with step renew_step_inv [OF inv] show ?thesis by (auto simp: lease_step_def split: if_splits)
next
  case (Adapter_exits i)
  with step have i: "i < length (lx_workers x)" and "adapter_exits i x = Some x'"
    by (auto simp: lease_step_def split: if_splits)
  then show ?thesis
    by (auto simp: adapter_exits_def Let_def runs_adapter_def split: lease_phase.splits intro!: release_inv [OF inv])
next
  case (Adapter_stopped i)
  with step have i: "i < length (lx_workers x)" and "adapter_stopped i x = Some x'"
    by (auto simp: lease_step_def split: if_splits)
  then show ?thesis
    by (auto simp: adapter_stopped_def Let_def runs_adapter_def split: if_splits intro!: lease_inv_keep [OF inv])
next
  case (Shutdown i)
  with step have i: "i < length (lx_workers x)" and "shutdown i x = Some x'"
    by (auto simp: lease_step_def split: if_splits)
  then show ?thesis
    by (auto simp: shutdown_def Let_def runs_adapter_def split: lease_phase.splits intro!: release_inv [OF inv] lease_inv_keep [OF inv])
next
  case (Crash i)
  with step have i: "i < length (lx_workers x)" and "x' = set_worker i ((lx_workers x ! i)\<lparr>lw_phase := Gone\<rparr>) x"
    by (auto simp: lease_step_def split: if_splits)
  then show ?thesis by (auto simp: runs_adapter_def intro!: lease_inv_keep [OF inv])
next
  case (Join h)
  with step timely inv show ?thesis by (auto simp: lease_step_def timely_def lease_inv_def runs_adapter_def)
next
  case (Wait_for d)
  with step timely inv show ?thesis by (auto simp: lease_step_def timely_def lease_inv_def list_all_iff)
qed

text \<open>
  C7. As long as no process that runs an adapter goes without a successful renewal for longer than the
  time to live of the lease, at most one adapter of the account runs, over every sequence of attempts,
  failures of the database, exits, crashes and restarts.
\<close>
theorem adapters_exclude:
  assumes "lease_reaches timely (lease_start channel account now) x"
  shows "length (List.filter runs_adapter (lx_workers x)) \<le> 1"
proof -
  have start: "lease_inv (lease_start channel account now)" by (simp add: lease_inv_def lease_start_def)
  have inv: "lease_inv x" using assms by induction (blast intro: start timely_step_inv)+
  show ?thesis
  proof (rule ccontr)
    let ?ws = "lx_workers x"
    assume "\<not> ?thesis"
    then have "card {i. i < length ?ws \<and> runs_adapter (?ws ! i)} > 1" by (simp add: length_filter_conv_card)
    then have "\<not> card {i. i < length ?ws \<and> runs_adapter (?ws ! i)} \<le> Suc 0" by simp
    then obtain i j where "i \<noteq> j" "i < length ?ws" "j < length ?ws" "runs_adapter (?ws ! i)" "runs_adapter (?ws ! j)"
      by (auto simp: card_le_Suc0_iff_eq)
    with one_runs [OF inv] show False by blast
  qed
qed

text \<open>A run every step of which is timely reaches its end.\<close>

fun timely_run :: "lease_step list \<Rightarrow> lease_world \<Rightarrow> bool" where
  "timely_run [] x = True"
| "timely_run (s # ss) x = (timely x s \<and> (case lease_step s x of None \<Rightarrow> False | Some x' \<Rightarrow> timely_run ss x'))"

lemma run_reaches:
  "lease_reaches timely x0 x \<Longrightarrow> timely_run ss x \<Longrightarrow> lease_run ss x = Some y \<Longrightarrow> lease_reaches timely x0 y"
proof (induction ss arbitrary: x)
  case (Cons s ss)
  then obtain x' where "lease_step s x = Some x'" by (auto split: option.splits)
  with Cons show ?case by (auto intro: lease_reaches.step)
qed simp

lemmas lease_defs = lease_step_def set_worker_def try_lease_def renew_step_def release_row_def adapter_exits_def shutdown_def
  acquire_lease_def renew_lease_def release_lease_def lease_at_def lease_start_def runs_adapter_def Let_def
  lease_ttl_def lease_renew_interval_def lease_retry_interval_def

text \<open>Two processes: the second finds the lease taken; the first crashes, and the second takes over.\<close>

definition takeover_run :: "lease_step list" where
  "takeover_run = [Join ''a'', Join ''b'', Try 0 False, Try 1 False, Crash 0, Wait_for 30000000001, Try 1 False]"

theorem adapters_exclude_witness:
  "\<exists>x. lease_run takeover_run (lease_start ''telegram'' ''bot'' 0) = Some x \<and> length (List.filter runs_adapter (lx_workers x)) \<le> 1
     \<and> map runs_adapter (lx_workers x) = [False, True]"
proof -
  let ?x0 = "lease_start ''telegram'' ''bot'' 0"
  have timely: "timely_run takeover_run ?x0"
    by (simp add: takeover_run_def lease_defs timely_def)
  obtain x where x: "lease_run takeover_run ?x0 = Some x" "map runs_adapter (lx_workers x) = [False, True]"
    by (simp add: takeover_run_def lease_defs)
  have "lease_reaches timely ?x0 x"
    by (rule run_reaches [OF lease_reaches.start timely x(1)])
  from adapters_exclude [OF this] show ?thesis using x by (intro exI [of _ x]) simp
qed

text \<open>
  Without that condition two adapters run at once: while the renewals of the first fail, the second takes
  the row when it expires. A process that registers the channel again, as after a change of its settings,
  runs two adapters from the start: an acquisition wins over a row of the same holder.
\<close>

lemma failed_renewals_overlap:
  "\<exists>x. lease_run [Join ''a'', Join ''b'', Try 0 False, Wait_for 10000000000, Renew 0 True, Wait_for 10000000000, Renew 0 True,
                   Wait_for 10000000000, Renew 0 True, Wait_for 1, Try 1 False] (lease_start ''telegram'' ''bot'' 0) = Some x
     \<and> map runs_adapter (lx_workers x) = [True, True]"
  by (simp add: lease_defs)

lemma registering_again_overlaps:
  "\<exists>x. lease_run [Join ''a'', Try 0 False, Wait_for 5000000000, Join ''a'', Try 1 False] (lease_start ''telegram'' ''bot'' 0) = Some x
     \<and> map runs_adapter (lx_workers x) = [True, True]"
  by (simp add: lease_defs)

text \<open>A dead holder is replaced at the first attempt after the end of its lease.\<close>

lemma expired_lease_is_taken:
  assumes "i < length (lx_workers x)" and "lw_phase (lx_workers x ! i) = Seeking at" and "at \<le> lx_now x"
    and "list_all (\<lambda>r. lease_at (lx_channel x) (lx_account x) r \<longrightarrow> lr_expires r < lx_now x) (lx_rows x)"
  shows "\<exists>x'. lease_step (Try i False) x = Some x' \<and> runs_adapter (lx_workers x' ! i)"
proof -
  have "\<exists>rows. acquire_lease (lx_now x) lease_ttl (lx_channel x) (lx_account x) (lw_holder (lx_workers x ! i)) (lx_rows x) = (True, rows)"
    using assms(4) by (auto simp: acquire_lease_def find_Some_iff list_all_length split: option.split)
  with assms show ?thesis by (auto simp: lease_step_def try_lease_def Let_def set_worker_def runs_adapter_def)
qed

end
