(* ===== verification/Task_Queue.thy ===== *)
theory Task_Queue
  imports Go_Strings "HOL-Library.Multiset"
begin

text \<open>
  The queue of inbound messages (\<^verbatim>\<open>internal/taskqueue/queue.go\<close>): a channel and a goroutine for
  each chat, a semaphore over all chats, and the removal of idle channels. A step is what happens
  between two points where another goroutine can run; \<^verbatim>\<open>Submit\<close> sends after it has released the
  lock. Times are nanoseconds, times of creation and the like are those of the step.
\<close>

section \<open>State\<close>

datatype task_status = Task_pending | Task_running | Task_done | Task_failed

record queue_task =
  tk_id :: nat
  tk_chat :: string
  tk_status :: task_status
  tk_created :: int

text \<open>A channel with its goroutine, which waits for a task, for the semaphore, or runs a task.\<close>

datatype worker = Receiving | Acquiring nat | Running nat | Exited

record chat_queue =
  cq_chat :: string
  cq_buffer :: "nat list"
  cq_last_used :: int
  cq_closed :: bool
  cq_worker :: worker

record task_queue =
  tq_max :: nat
  tq_seq :: nat
  tq_tasks :: "queue_task list"
  tq_queues :: "chat_queue list"        \<comment> \<open>every channel that was made\<close>
  tq_chats :: "(string \<times> nat) list"     \<comment> \<open>the channel of a chat, \<^verbatim>\<open>chatQueues\<close>\<close>
  tq_sending :: "(nat \<times> nat) list"      \<comment> \<open>submitters between the lock and the send: channel and task\<close>
  tq_now :: int
  tq_stopped :: bool
  tq_panicked :: bool

definition idle_timeout :: int where "idle_timeout = 300000000000"
definition buffer_size :: nat where "buffer_size = 100"

definition new_queue :: "int \<Rightarrow> int \<Rightarrow> task_queue" where
  "new_queue max_concurrent now =
     \<lparr>tq_max = (if max_concurrent \<le> 0 then 10 else nat max_concurrent), tq_seq = 0, tq_tasks = [], tq_queues = [],
      tq_chats = [], tq_sending = [], tq_now = now, tq_stopped = False, tq_panicked = False\<rparr>"

definition is_running :: "chat_queue \<Rightarrow> bool" where
  "is_running c = (case cq_worker c of Running _ \<Rightarrow> True | _ \<Rightarrow> False)"

text \<open>The tokens in the semaphore.\<close>

definition running_count :: "task_queue \<Rightarrow> nat" where
  "running_count q = length (List.filter is_running (tq_queues q))"

section \<open>Steps\<close>

datatype queue_step =
    Submit string
  | Send nat           \<comment> \<open>a submitter, by its place\<close>
  | Receive nat        \<comment> \<open>a goroutine takes the next task, or sees that its channel is closed\<close>
  | Leave nat          \<comment> \<open>it sees the stop while it waits for a task\<close>
  | Acquire nat
  | Abandon nat        \<comment> \<open>it sees the stop while it waits for the semaphore\<close>
  | Finish nat bool    \<comment> \<open>the handler returns, with an error or without\<close>
  | Cleanup
  | Pass nat           \<comment> \<open>time\<close>
  | Halt

definition set_queue :: "nat \<Rightarrow> chat_queue \<Rightarrow> task_queue \<Rightarrow> task_queue" where
  "set_queue i c q = q\<lparr>tq_queues := (tq_queues q)[i := c]\<rparr>"

definition set_status :: "nat \<Rightarrow> task_status \<Rightarrow> task_queue \<Rightarrow> task_queue" where
  "set_status n st q = q\<lparr>tq_tasks := map (\<lambda>t. if tk_id t = n then t\<lparr>tk_status := st\<rparr> else t) (tq_tasks q)\<rparr>"

definition submit_task :: "string \<Rightarrow> task_queue \<Rightarrow> task_queue" where
  "submit_task chat q =
     (let n = Suc (tq_seq q);
          q1 = q\<lparr>tq_seq := n,
                 tq_tasks := tq_tasks q @ [\<lparr>tk_id = n, tk_chat = chat, tk_status = Task_pending, tk_created = tq_now q\<rparr>]\<rparr>;
          (i, q2) = (case map_of (tq_chats q1) chat of
              Some i \<Rightarrow> (i, q1)
            | None \<Rightarrow>
                (length (tq_queues q1),
                 q1\<lparr>tq_queues := tq_queues q1 @ [\<lparr>cq_chat = chat, cq_buffer = [], cq_last_used = tq_now q,
                                                  cq_closed = False, cq_worker = Receiving\<rparr>],
                    tq_chats := (chat, length (tq_queues q1)) # tq_chats q1\<rparr>))
      in (set_queue i ((tq_queues q2 ! i)\<lparr>cq_last_used := tq_now q\<rparr>) q2)\<lparr>tq_sending := tq_sending q2 @ [(i, n)]\<rparr>)"

definition remove_at :: "nat \<Rightarrow> 'a list \<Rightarrow> 'a list" where
  "remove_at k xs = take k xs @ drop (Suc k) xs"

text \<open>A send to a closed channel panics, one to a full channel blocks.\<close>

definition send_task :: "nat \<Rightarrow> task_queue \<Rightarrow> task_queue option" where
  "send_task k q =
     (if k < length (tq_sending q) then
        (case tq_sending q ! k of
           (i, n) \<Rightarrow>
             (let c = tq_queues q ! i in
              if cq_closed c then Some (q\<lparr>tq_panicked := True\<rparr>)
              else if length (cq_buffer c) < buffer_size
                   then Some ((set_queue i (c\<lparr>cq_buffer := cq_buffer c @ [n]\<rparr>) q)\<lparr>tq_sending := remove_at k (tq_sending q)\<rparr>)
                   else None))
      else None)"

text \<open>A goroutine that sees the stop and a task, or a free slot, takes either.\<close>

definition receive_task :: "nat \<Rightarrow> task_queue \<Rightarrow> task_queue option" where
  "receive_task i q =
     (if i < length (tq_queues q) \<and> cq_worker (tq_queues q ! i) = Receiving then
        (let c = tq_queues q ! i in
         case cq_buffer c of
           n # ns \<Rightarrow> Some (set_queue i (c\<lparr>cq_buffer := ns, cq_worker := Acquiring n\<rparr>) q)
         | [] \<Rightarrow> if cq_closed c then Some (set_queue i (c\<lparr>cq_worker := Exited\<rparr>) q) else None)
      else None)"

definition leave_queue :: "nat \<Rightarrow> task_queue \<Rightarrow> task_queue option" where
  "leave_queue i q =
     (if i < length (tq_queues q) \<and> cq_worker (tq_queues q ! i) = Receiving \<and> tq_stopped q
      then Some (set_queue i ((tq_queues q ! i)\<lparr>cq_worker := Exited\<rparr>) q) else None)"

definition acquire_slot :: "nat \<Rightarrow> task_queue \<Rightarrow> task_queue option" where
  "acquire_slot i q =
     (if i < length (tq_queues q) then
        (let c = tq_queues q ! i in
         case cq_worker c of
           Acquiring n \<Rightarrow>
             if running_count q < tq_max q
             then Some (set_status n Task_running (set_queue i (c\<lparr>cq_worker := Running n\<rparr>) q)) else None
         | _ \<Rightarrow> None)
      else None)"

text \<open>The task keeps its status for ever.\<close>

definition abandon_task :: "nat \<Rightarrow> task_queue \<Rightarrow> task_queue option" where
  "abandon_task i q =
     (if i < length (tq_queues q) \<and> tq_stopped q then
        (let c = tq_queues q ! i in
         case cq_worker c of
           Acquiring n \<Rightarrow> Some (set_queue i (c\<lparr>cq_worker := Receiving, cq_last_used := tq_now q\<rparr>) q)
         | _ \<Rightarrow> None)
      else None)"

definition finish_task :: "nat \<Rightarrow> bool \<Rightarrow> task_queue \<Rightarrow> task_queue option" where
  "finish_task i failed q =
     (if i < length (tq_queues q) then
        (let c = tq_queues q ! i in
         case cq_worker c of
           Running n \<Rightarrow>
             Some (set_status n (if failed then Task_failed else Task_done)
                     (set_queue i (c\<lparr>cq_worker := Receiving, cq_last_used := tq_now q\<rparr>) q))
         | _ \<Rightarrow> None)
      else None)"

definition idle_queue :: "task_queue \<Rightarrow> string \<times> nat \<Rightarrow> bool" where
  "idle_queue q = (\<lambda>(_, i). tq_now q - cq_last_used (tq_queues q ! i) > idle_timeout \<and> cq_buffer (tq_queues q ! i) = [])"

definition close_queue :: "nat \<Rightarrow> task_queue \<Rightarrow> task_queue" where
  "close_queue i q = set_queue i ((tq_queues q ! i)\<lparr>cq_closed := True\<rparr>) q"

definition cleanup_idle_queues :: "task_queue \<Rightarrow> task_queue" where
  "cleanup_idle_queues q =
     (let idle = List.filter (idle_queue q) (tq_chats q)
      in (fold close_queue (map snd idle) q)\<lparr>tq_chats := List.filter (\<lambda>p. \<not> idle_queue q p) (tq_chats q)\<rparr>)"

definition queue_step :: "queue_step \<Rightarrow> task_queue \<Rightarrow> task_queue option" where
  "queue_step s q =
     (if tq_panicked q then None
      else case s of
        Submit chat \<Rightarrow> Some (submit_task chat q)
      | Send k \<Rightarrow> send_task k q
      | Receive i \<Rightarrow> receive_task i q
      | Leave i \<Rightarrow> leave_queue i q
      | Acquire i \<Rightarrow> acquire_slot i q
      | Abandon i \<Rightarrow> abandon_task i q
      | Finish i failed \<Rightarrow> finish_task i failed q
      | Cleanup \<Rightarrow> Some (cleanup_idle_queues q)
      | Pass d \<Rightarrow> Some (q\<lparr>tq_now := tq_now q + int d\<rparr>)
      | Halt \<Rightarrow> Some (q\<lparr>tq_stopped := True\<rparr>))"

fun queue_run :: "queue_step list \<Rightarrow> task_queue \<Rightarrow> task_queue option" where
  "queue_run [] q = Some q"
| "queue_run (s # ss) q = (case queue_step s q of None \<Rightarrow> None | Some q' \<Rightarrow> queue_run ss q')"

section \<open>Recent tasks\<close>

text \<open>The exchange sort of the code: the inner loop brings the best of the rest to the front.\<close>

fun exchange_best :: "('a \<Rightarrow> 'a \<Rightarrow> bool) \<Rightarrow> 'a \<Rightarrow> 'a list \<Rightarrow> 'a \<times> 'a list" where
  "exchange_best better x [] = (x, [])"
| "exchange_best better x (y # ys) =
     (if better y x then (case exchange_best better y ys of (z, zs) \<Rightarrow> (z, x # zs))
      else (case exchange_best better x ys of (z, zs) \<Rightarrow> (z, y # zs)))"

lemma exchange_best_mset: "exchange_best better x ys = (z, zs) \<Longrightarrow> add_mset z (mset zs) = add_mset x (mset ys)"
  by (induction better x ys arbitrary: z zs rule: exchange_best.induct) (auto split: if_splits prod.splits)

lemma exchange_best_length: "exchange_best better x ys = (z, zs) \<Longrightarrow> length zs = length ys"
  by (induction better x ys arbitrary: z zs rule: exchange_best.induct) (auto split: if_splits prod.splits)

function exchange_sort :: "('a \<Rightarrow> 'a \<Rightarrow> bool) \<Rightarrow> 'a list \<Rightarrow> 'a list" where
  "exchange_sort better [] = []"
| "exchange_sort better (x # xs) = (case exchange_best better x xs of (z, zs) \<Rightarrow> z # exchange_sort better zs)"
  by pat_completeness auto
termination
  by (relation "measure (length o snd)") (auto dest!: exchange_best_length [OF sym])

definition newer :: "queue_task \<Rightarrow> queue_task \<Rightarrow> bool" where
  "newer a b = (tk_created a > tk_created b)"

definition older :: "queue_task \<Rightarrow> queue_task \<Rightarrow> bool" where
  "older a b = (tk_created a < tk_created b)"

text \<open>The order in which the map of tasks is walked is an argument.\<close>

definition recent_tasks :: "int \<Rightarrow> queue_task list \<Rightarrow> queue_task list" where
  "recent_tasks limit walked =
     (let all = exchange_sort newer walked in if limit > 0 then take (nat limit) all else all)"

definition is_completed :: "queue_task \<Rightarrow> bool" where
  "is_completed t = (tk_status t = Task_done \<or> tk_status t = Task_failed)"

definition prune_old_tasks :: "queue_task list \<Rightarrow> task_queue \<Rightarrow> task_queue" where
  "prune_old_tasks walked q =
     (if length (tq_tasks q) \<le> 200 then q
      else (let gone = map tk_id (take (length (tq_tasks q) - 200) (exchange_sort older (List.filter is_completed walked)))
            in q\<lparr>tq_tasks := List.filter (\<lambda>t. tk_id t \<notin> set gone) (tq_tasks q)\<rparr>))"

section \<open>Slots\<close>

lemma filter_length_update:
  "i < length xs \<Longrightarrow> length (List.filter P (xs[i := c])) + (if P (xs ! i) then 1 else 0) = length (List.filter P xs) + (if P c then 1 else 0)"
proof -
  assume i: "i < length xs"
  have "length (List.filter P xs) = length (List.filter P (take i xs @ xs ! i # drop (Suc i) xs))"
    using id_take_nth_drop [OF i] by simp
  then show ?thesis using i by (simp add: upd_conv_take_nth_drop)
qed

lemma set_queue_simps [simp]:
  "tq_queues (set_queue i c q) = (tq_queues q)[i := c]" "tq_chats (set_queue i c q) = tq_chats q"
  "tq_sending (set_queue i c q) = tq_sending q" "tq_max (set_queue i c q) = tq_max q"
  "tq_now (set_queue i c q) = tq_now q" "tq_panicked (set_queue i c q) = tq_panicked q" "tq_stopped (set_queue i c q) = tq_stopped q"
  by (simp_all add: set_queue_def)

lemma set_status_simps [simp]:
  "tq_queues (set_status n st q) = tq_queues q" "tq_chats (set_status n st q) = tq_chats q"
  "tq_sending (set_status n st q) = tq_sending q" "tq_max (set_status n st q) = tq_max q"
  "tq_now (set_status n st q) = tq_now q" "tq_panicked (set_status n st q) = tq_panicked q"
  by (simp_all add: set_status_def)

lemma nth_update_any: "j < length xs \<Longrightarrow> xs[i := x] ! j = (if i = j then x else xs ! j)"
  by simp

lemma fold_close_queues:
  "tq_queues (fold close_queue is q) = map (\<lambda>j. if j \<in> set is then (tq_queues q ! j)\<lparr>cq_closed := True\<rparr> else tq_queues q ! j) [0..<length (tq_queues q)]"
proof (induction "is" arbitrary: q)
  case Nil
  then show ?case by (simp add: map_nth)
next
  case (Cons i js)
  have eq: "fold close_queue (i # js) q = fold close_queue js (close_queue i q)" by simp
  show ?case unfolding eq Cons.IH
    by (intro nth_equalityI) (auto simp: close_queue_def nth_update_any)
qed

lemma fold_close_rest [simp]:
  "tq_chats (fold close_queue is q) = tq_chats q" "tq_sending (fold close_queue is q) = tq_sending q"
  "tq_max (fold close_queue is q) = tq_max q" "tq_panicked (fold close_queue is q) = tq_panicked q"
  by (induction "is" arbitrary: q) (simp_all add: close_queue_def)

definition closing :: "task_queue \<Rightarrow> nat set" where
  "closing q = snd ` {p \<in> set (tq_chats q). idle_queue q p}"

lemma cleanup_queues:
  "length (tq_queues (cleanup_idle_queues q)) = length (tq_queues q)"
  "j < length (tq_queues q) \<Longrightarrow> tq_queues (cleanup_idle_queues q) ! j
     = (if j \<in> closing q then (tq_queues q ! j)\<lparr>cq_closed := True\<rparr> else tq_queues q ! j)"
  by (simp_all add: cleanup_idle_queues_def Let_def fold_close_queues closing_def)

lemma cleanup_rest [simp]:
  "tq_chats (cleanup_idle_queues q) = List.filter (\<lambda>p. \<not> idle_queue q p) (tq_chats q)"
  "tq_sending (cleanup_idle_queues q) = tq_sending q" "tq_max (cleanup_idle_queues q) = tq_max q"
  "tq_panicked (cleanup_idle_queues q) = tq_panicked q"
  by (simp_all add: cleanup_idle_queues_def Let_def)

section \<open>Invariant\<close>

definition at_rest :: "chat_queue \<Rightarrow> bool" where
  "at_rest c = (cq_worker c = Receiving \<or> cq_worker c = Exited)"

definition queues_ok :: "task_queue \<Rightarrow> bool" where
  "queues_ok q =
     (distinct (map fst (tq_chats q))
      \<and> (\<forall>p \<in> set (tq_chats q). snd p < length (tq_queues q) \<and> cq_chat (tq_queues q ! snd p) = fst p \<and> \<not> cq_closed (tq_queues q ! snd p))
      \<and> (\<forall>i < length (tq_queues q). \<not> cq_closed (tq_queues q ! i) \<longrightarrow> (cq_chat (tq_queues q ! i), i) \<in> set (tq_chats q))
      \<and> (\<forall>i < length (tq_queues q). cq_closed (tq_queues q ! i) \<longrightarrow> cq_buffer (tq_queues q ! i) = [] \<and> at_rest (tq_queues q ! i))
      \<and> (\<forall>p \<in> set (tq_sending q). fst p < length (tq_queues q) \<and> \<not> cq_closed (tq_queues q ! fst p)))"

text \<open>A cleanup that removes no channel whose goroutine is busy or which somebody is about to send to.\<close>

definition quiet :: "task_queue \<Rightarrow> queue_step \<Rightarrow> bool" where
  "quiet q s = (s = Cleanup \<longrightarrow> (\<forall>i \<in> closing q. at_rest (tq_queues q ! i) \<and> i \<notin> fst ` set (tq_sending q)))"

inductive queue_reaches :: "(task_queue \<Rightarrow> queue_step \<Rightarrow> bool) \<Rightarrow> task_queue \<Rightarrow> task_queue \<Rightarrow> bool"
  for allowed :: "task_queue \<Rightarrow> queue_step \<Rightarrow> bool" and q0 :: task_queue
where
  start: "queue_reaches allowed q0 q0"
| step: "queue_reaches allowed q0 q \<Longrightarrow> allowed q s \<Longrightarrow> queue_step s q = Some q' \<Longrightarrow> queue_reaches allowed q0 q'"

text \<open>Most steps replace one channel by one that is as closed as before, and leave the registry alone.\<close>

lemma queues_ok_update:
  assumes "queues_ok q" and "i < length (tq_queues q)"
    and "cq_chat c = cq_chat (tq_queues q ! i)" and "cq_closed c = cq_closed (tq_queues q ! i)"
    and "cq_closed c \<Longrightarrow> cq_buffer c = [] \<and> at_rest c"
    and "tq_queues q' = (tq_queues q)[i := c]" and "tq_chats q' = tq_chats q" and "set (tq_sending q') \<subseteq> set (tq_sending q)"
  shows "queues_ok q'"
  using assms unfolding queues_ok_def by (simp add: nth_list_update) blast

lemma set_remove_at: "set (remove_at k xs) \<subseteq> set xs"
  by (auto simp: remove_at_def dest: in_set_takeD in_set_dropD)

lemma submit_ok:
  assumes "queues_ok q"
  shows "queues_ok (submit_task chat q)"
proof (cases "map_of (tq_chats q) chat")
  case (Some i)
  then have "(chat, i) \<in> set (tq_chats q)" by (rule map_of_SomeD)
  with assms have i: "i < length (tq_queues q)" "\<not> cq_closed (tq_queues q ! i)" by (force simp: queues_ok_def)+
  let ?c = "(tq_queues q ! i)\<lparr>cq_last_used := tq_now q\<rparr>"
  have "queues_ok (set_queue i ?c q)" by (rule queues_ok_update [OF assms i(1)]) (use i(2) in simp_all)
  with Some i show ?thesis by (simp add: submit_task_def Let_def queues_ok_def set_queue_def)
next
  case None
  then have fresh: "chat \<notin> fst ` set (tq_chats q)" by (simp add: map_of_eq_None_iff)
  let ?c = "\<lparr>cq_chat = chat, cq_buffer = [], cq_last_used = tq_now q, cq_closed = False, cq_worker = Receiving\<rparr>"
  have eq: "tq_queues (submit_task chat q) = tq_queues q @ [?c]"
    "tq_chats (submit_task chat q) = (chat, length (tq_queues q)) # tq_chats q"
    "tq_sending (submit_task chat q) = tq_sending q @ [(length (tq_queues q), Suc (tq_seq q))]"
    using None by (simp_all add: submit_task_def Let_def set_queue_def)
  show ?thesis
    using assms fresh unfolding queues_ok_def eq by (auto simp: nth_append less_Suc_eq)
qed

lemma cleanup_ok:
  assumes ok: "queues_ok q" and quiet: "quiet q Cleanup"
  shows "queues_ok (cleanup_idle_queues q)"
proof -
  have open_idle: "p \<in> set (tq_chats q) \<Longrightarrow> snd p \<in> closing q \<longleftrightarrow> idle_queue q p" for p
  proof
    assume p: "p \<in> set (tq_chats q)" and "snd p \<in> closing q"
    then obtain p' where p': "p' \<in> set (tq_chats q)" "idle_queue q p'" "snd p' = snd p" by (auto simp: closing_def)
    with ok p have "fst p' = fst p" by (metis queues_ok_def)
    with p' show "idle_queue q p" by (metis prod_eqI)
  qed (auto simp: closing_def)
  have empty: "i \<in> closing q \<Longrightarrow> cq_buffer (tq_queues q ! i) = []" for i by (auto simp: closing_def idle_queue_def)
  show ?thesis
    using ok quiet empty open_idle unfolding queues_ok_def quiet_def
    by (auto simp: cleanup_queues distinct_map inj_on_def at_rest_def) 
qed

definition slots_ok :: "task_queue \<Rightarrow> bool" where
  "slots_ok q = (running_count q \<le> tq_max q)"

lemma slots_update:
  assumes "slots_ok q" and "i < length (tq_queues q)" and "is_running c \<Longrightarrow> is_running (tq_queues q ! i)"
    and "tq_queues q' = (tq_queues q)[i := c]" and "tq_max q' = tq_max q"
  shows "slots_ok q'"
  using assms filter_length_update [of i "tq_queues q" is_running c]
  by (auto simp: slots_ok_def running_count_def split: if_splits)

lemma running_append: "running_count (q\<lparr>tq_queues := cs @ [c]\<rparr>) = length (List.filter is_running cs) + (if is_running c then 1 else 0)"
  by (simp add: running_count_def)

definition queue_inv :: "task_queue \<Rightarrow> bool" where
  "queue_inv q = (queues_ok q \<and> slots_ok q \<and> \<not> tq_panicked q)"

text \<open>The steps of one goroutine, as updates of its channel.\<close>

lemma inv_update:
  assumes inv: "queue_inv q" and i: "i < length (tq_queues q)"
    and c: "cq_chat c = cq_chat (tq_queues q ! i)" "cq_closed c = cq_closed (tq_queues q ! i)"
      "cq_closed c \<Longrightarrow> cq_buffer c = [] \<and> at_rest c" "is_running c \<Longrightarrow> is_running (tq_queues q ! i)"
    and q': "tq_queues q' = (tq_queues q)[i := c]" "tq_chats q' = tq_chats q" "set (tq_sending q') \<subseteq> set (tq_sending q)"
      "tq_max q' = tq_max q" "\<not> tq_panicked q'"
  shows "queue_inv q'"
  using queues_ok_update [OF _ i c(1) c(2) c(3) q'(1) q'(2) q'(3)] slots_update [OF _ i c(4) q'(1) q'(4)] inv q'(5)
  by (simp add: queue_inv_def)

lemma busy_is_open:
  "queue_inv q \<Longrightarrow> i < length (tq_queues q) \<Longrightarrow> \<not> at_rest (tq_queues q ! i) \<Longrightarrow> \<not> cq_closed (tq_queues q ! i)"
  by (auto simp: queue_inv_def queues_ok_def)

lemma inv_send:
  assumes inv: "queue_inv q" and st: "send_task k q = Some q'"
  shows "queue_inv q'"
proof -
  obtain i n where at: "k < length (tq_sending q)" "tq_sending q ! k = (i, n)"
    using st by (cases "tq_sending q ! k") (auto simp: send_task_def split: if_splits)
  then have "(i, n) \<in> set (tq_sending q)" by (metis nth_mem)
  with inv have i: "i < length (tq_queues q)" "\<not> cq_closed (tq_queues q ! i)"
    by (force simp: queue_inv_def queues_ok_def)+
  have q': "q' = (set_queue i ((tq_queues q ! i)\<lparr>cq_buffer := cq_buffer (tq_queues q ! i) @ [n]\<rparr>) q)\<lparr>tq_sending := remove_at k (tq_sending q)\<rparr>"
    using st at i by (simp add: send_task_def Let_def split: if_splits)
  show ?thesis unfolding q'
    by (rule inv_update [OF inv i(1)]) (use inv i set_remove_at in \<open>simp_all add: is_running_def queue_inv_def\<close>)
qed

lemma inv_receive:
  assumes inv: "queue_inv q" and st: "receive_task i q = Some q'"
  shows "queue_inv q'"
proof -
  have i: "i < length (tq_queues q)" "cq_worker (tq_queues q ! i) = Receiving"
    using st by (auto simp: receive_task_def split: if_splits)
  show ?thesis
  proof (cases "cq_buffer (tq_queues q ! i)")
    case Nil
    with st i have q': "q' = set_queue i ((tq_queues q ! i)\<lparr>cq_worker := Exited\<rparr>) q"
      by (simp add: receive_task_def Let_def split: if_splits)
    show ?thesis unfolding q'
      by (rule inv_update [OF inv i(1)]) (use inv Nil in \<open>simp_all add: is_running_def at_rest_def queue_inv_def\<close>)
  next
    case (Cons n ns)
    with st i have q': "q' = set_queue i ((tq_queues q ! i)\<lparr>cq_buffer := ns, cq_worker := Acquiring n\<rparr>) q"
      by (simp add: receive_task_def Let_def split: if_splits)
    have "\<not> cq_closed (tq_queues q ! i)" using inv i Cons by (force simp: queue_inv_def queues_ok_def)
    then show ?thesis unfolding q'
      by (intro inv_update [OF inv i(1)]) (use inv in \<open>simp_all add: is_running_def queue_inv_def\<close>)
  qed
qed

lemma inv_leave: "queue_inv q \<Longrightarrow> leave_queue i q = Some q' \<Longrightarrow> queue_inv q'"
proof -
  assume inv: "queue_inv q" and st: "leave_queue i q = Some q'"
  then have i: "i < length (tq_queues q)" and q': "q' = set_queue i ((tq_queues q ! i)\<lparr>cq_worker := Exited\<rparr>) q"
    by (auto simp: leave_queue_def split: if_splits)
  have "cq_closed (tq_queues q ! i) \<Longrightarrow> cq_buffer (tq_queues q ! i) = []" using inv i by (auto simp: queue_inv_def queues_ok_def)
  then show "queue_inv q'" unfolding q'
    by (intro inv_update [OF inv i]) (use inv in \<open>simp_all add: is_running_def at_rest_def queue_inv_def\<close>)
qed

lemma inv_acquire:
  assumes inv: "queue_inv q" and st: "acquire_slot i q = Some q'"
  shows "queue_inv q'"
proof -
  from st obtain n where i: "i < length (tq_queues q)" and n: "cq_worker (tq_queues q ! i) = Acquiring n" and room: "running_count q < tq_max q"
    and q': "q' = set_status n Task_running (set_queue i ((tq_queues q ! i)\<lparr>cq_worker := Running n\<rparr>) q)"
    by (auto simp: acquire_slot_def Let_def split: if_splits worker.splits)
  have op: "\<not> cq_closed (tq_queues q ! i)" using busy_is_open [OF inv i] n by (simp add: at_rest_def)
  have "slots_ok q'" unfolding q' slots_ok_def running_count_def
    using room filter_length_update [OF i, of is_running "(tq_queues q ! i)\<lparr>cq_worker := Running n\<rparr>"]
    by (simp add: running_count_def split: if_splits)
  moreover have "queues_ok q'" unfolding q'
    by (rule queues_ok_update [OF _ i, where c = "(tq_queues q ! i)\<lparr>cq_worker := Running n\<rparr>"]) (use inv op in \<open>simp_all add: queue_inv_def\<close>)
  ultimately show ?thesis using inv by (simp add: queue_inv_def q')
qed

lemma inv_abandon: "queue_inv q \<Longrightarrow> abandon_task i q = Some q' \<Longrightarrow> queue_inv q'"
proof -
  assume inv: "queue_inv q" and st: "abandon_task i q = Some q'"
  then obtain n where i: "i < length (tq_queues q)" and n: "cq_worker (tq_queues q ! i) = Acquiring n"
    and q': "q' = set_queue i ((tq_queues q ! i)\<lparr>cq_worker := Receiving, cq_last_used := tq_now q\<rparr>) q"
    by (auto simp: abandon_task_def Let_def split: if_splits worker.splits)
  have "\<not> cq_closed (tq_queues q ! i)" using busy_is_open [OF inv i] n by (simp add: at_rest_def)
  then show "queue_inv q'" unfolding q'
    by (intro inv_update [OF inv i]) (use inv in \<open>simp_all add: is_running_def queue_inv_def\<close>)
qed

lemma inv_finish: "queue_inv q \<Longrightarrow> finish_task i b q = Some q' \<Longrightarrow> queue_inv q'"
proof -
  assume inv: "queue_inv q" and st: "finish_task i b q = Some q'"
  then obtain n where i: "i < length (tq_queues q)" and n: "cq_worker (tq_queues q ! i) = Running n"
    and q': "q' = set_status n (if b then Task_failed else Task_done) (set_queue i ((tq_queues q ! i)\<lparr>cq_worker := Receiving, cq_last_used := tq_now q\<rparr>) q)"
    by (auto simp: finish_task_def Let_def split: if_splits worker.splits)
  have "\<not> cq_closed (tq_queues q ! i)" using busy_is_open [OF inv i] n by (simp add: at_rest_def)
  then show "queue_inv q'" unfolding q'
    by (intro inv_update [OF inv i, of "(tq_queues q ! i)\<lparr>cq_worker := Receiving, cq_last_used := tq_now q\<rparr>"])
      (use inv in \<open>simp_all add: is_running_def queue_inv_def\<close>)
qed

lemma inv_submit:
  assumes inv: "queue_inv q"
  shows "queue_inv (submit_task chat q)"
proof -
  have "slots_ok (submit_task chat q)"
  proof (cases "map_of (tq_chats q) chat")
    case (Some i)
    then have "(chat, i) \<in> set (tq_chats q)" by (rule map_of_SomeD)
    with inv have i: "i < length (tq_queues q)" by (force simp: queue_inv_def queues_ok_def)
    show ?thesis
      by (rule slots_update [OF _ i, where c = "(tq_queues q ! i)\<lparr>cq_last_used := tq_now q\<rparr>"])
        (use inv Some in \<open>simp_all add: submit_task_def Let_def is_running_def queue_inv_def\<close>)
  next
    case None
    with inv show ?thesis
      by (simp add: submit_task_def Let_def set_queue_def slots_ok_def running_count_def queue_inv_def is_running_def)
  qed
  moreover have "tq_panicked (submit_task chat q) = tq_panicked q"
    by (simp add: submit_task_def Let_def split: option.splits)
  ultimately show ?thesis using inv submit_ok [of q chat] by (simp add: queue_inv_def)
qed

lemma inv_cleanup:
  assumes inv: "queue_inv q" and quiet: "quiet q Cleanup"
  shows "queue_inv (cleanup_idle_queues q)"
proof -
  have "map is_running (tq_queues (cleanup_idle_queues q)) = map is_running (tq_queues q)"
    by (rule nth_equalityI) (simp_all add: cleanup_queues is_running_def)
  moreover have "length (List.filter is_running cs) = length (List.filter id (map is_running cs))" for cs
    by (simp add: filter_map o_def)
  ultimately have "running_count (cleanup_idle_queues q) = running_count q"
    unfolding running_count_def by metis
  with inv cleanup_ok [OF _ quiet] show ?thesis by (simp add: queue_inv_def slots_ok_def)
qed

lemma inv_clock [simp]: "queue_inv (q\<lparr>tq_now := t\<rparr>) = queue_inv q" "queue_inv (q\<lparr>tq_stopped := b\<rparr>) = queue_inv q"
  by (simp_all add: queue_inv_def queues_ok_def slots_ok_def running_count_def)

lemma inv_step:
  assumes inv: "queue_inv q" and quiet: "quiet q s" and st: "queue_step s q = Some q'"
  shows "queue_inv q'"
proof (cases s)
  case (Submit chat)
  with st inv_submit [OF inv, of chat] inv show ?thesis by (simp add: queue_step_def queue_inv_def)
next
  case Cleanup
  with st inv_cleanup [OF inv] quiet show ?thesis by (simp add: queue_step_def split: if_splits)
next
  case (Pass d)
  with st inv show ?thesis by (auto simp: queue_step_def split: if_splits)
next
  case Halt
  with st inv show ?thesis by (auto simp: queue_step_def split: if_splits)
qed (use st inv_send [OF inv] inv_receive [OF inv] inv_leave [OF inv] inv_acquire [OF inv] inv_abandon [OF inv] inv_finish [OF inv]
  in \<open>simp_all add: queue_step_def split: if_splits\<close>)

lemma inv_new: "queue_inv (new_queue n now)"
  by (simp add: queue_inv_def queues_ok_def slots_ok_def running_count_def new_queue_def)

lemma reach_inv: "queue_reaches quiet (new_queue n now) q \<Longrightarrow> queue_inv q"
  by (induction rule: queue_reaches.induct) (blast intro: inv_new inv_step)+

lemma run_queue_reaches:
  "queue_run ss q = Some q' \<Longrightarrow> queue_reaches allowed q0 q
   \<Longrightarrow> (\<And>k qk. k < length ss \<Longrightarrow> queue_run (take k ss) q = Some qk \<Longrightarrow> allowed qk (ss ! k)) \<Longrightarrow> queue_reaches allowed q0 q'"
proof (induction ss arbitrary: q)
  case (Cons s ss)
  then obtain q1 where q1: "queue_step s q = Some q1" "queue_run ss q1 = Some q'" by (auto split: option.splits)
  have "allowed q s" using Cons.prems(3) [of 0 q] by simp
  with Cons.prems(2) q1(1) have "queue_reaches allowed q0 q1" by (blast intro: queue_reaches.step)
  then show ?case
    by (rule Cons.IH [OF q1(2)]) (use Cons.prems(3) [of "Suc _"] q1(1) in \<open>simp\<close>)
qed simp

fun quiet_run :: "queue_step list \<Rightarrow> task_queue \<Rightarrow> bool" where
  "quiet_run [] q = True"
| "quiet_run (s # ss) q = (quiet q s \<and> (case queue_step s q of None \<Rightarrow> False | Some q' \<Rightarrow> quiet_run ss q'))"

lemma quiet_run_reaches:
  "quiet_run ss q \<Longrightarrow> queue_run ss q = Some q' \<Longrightarrow> queue_reaches quiet q0 q \<Longrightarrow> queue_reaches quiet q0 q'"
  by (induction ss arbitrary: q) (auto split: option.splits intro: queue_reaches.step)



text \<open>
  The cleanup looks at the time of the last submission or of the last completion, not at whether the
  goroutine is busy. A task that runs longer than the idle timeout loses its channel to the cleanup, and
  the next message of the chat runs beside it.
\<close>

lemma long_task_breaks_serialization:
  "\<exists>q. queue_run [Submit ''a'', Send 0, Receive 0, Acquire 0, Pass 300000000001, Cleanup, Submit ''a'', Send 0, Receive 1, Acquire 1] (new_queue 2 0) = Some q
     \<and> is_running (tq_queues q ! 0) \<and> is_running (tq_queues q ! 1) \<and> cq_chat (tq_queues q ! 0) = cq_chat (tq_queues q ! 1)"
  by (simp add: queue_step_def submit_task_def send_task_def receive_task_def acquire_slot_def new_queue_def set_queue_def
      buffer_size_def remove_at_def running_count_def is_running_def set_status_def cleanup_idle_queues_def idle_queue_def
      idle_timeout_def close_queue_def)

text \<open>The depth the warning asks for is more than a channel holds.\<close>

definition depth_warning :: "chat_queue \<Rightarrow> bool" where
  "depth_warning c = (length (cq_buffer c) > 100)"

definition buffers_ok :: "task_queue \<Rightarrow> bool" where
  "buffers_ok q = (\<forall>c \<in> set (tq_queues q). length (cq_buffer c) \<le> buffer_size)"

lemma buffers_set: "buffers_ok q \<Longrightarrow> length (cq_buffer c) \<le> buffer_size \<Longrightarrow> buffers_ok (set_queue i c q)"
  by (auto simp: buffers_ok_def dest: set_update_subset_insert [THEN subsetD])

lemma buffers_nth: "buffers_ok q \<Longrightarrow> i < length (tq_queues q) \<Longrightarrow> length (cq_buffer (tq_queues q ! i)) \<le> buffer_size"
  by (simp add: buffers_ok_def)

lemma buffers_cong: "tq_queues q' = tq_queues q \<Longrightarrow> buffers_ok q' = buffers_ok q"
  by (simp add: buffers_ok_def)

lemma buffers_submit: "queue_inv q \<Longrightarrow> buffers_ok q \<Longrightarrow> buffers_ok (submit_task chat q)"
proof (cases "map_of (tq_chats q) chat")
  case (Some i)
  assume "queue_inv q" "buffers_ok q"
  moreover from Some have "(chat, i) \<in> set (tq_chats q)" by (rule map_of_SomeD)
  ultimately have "buffers_ok (set_queue i ((tq_queues q ! i)\<lparr>cq_last_used := tq_now q\<rparr>) q)"
    by (intro buffers_set) (force simp: queue_inv_def queues_ok_def intro: buffers_nth)+
  with Some show ?thesis by (simp add: submit_task_def Let_def buffers_ok_def set_queue_def)
next
  case None
  assume "buffers_ok q"
  with None show ?thesis by (auto simp: submit_task_def Let_def buffers_ok_def set_queue_def)
qed

lemma buffers_step:
  assumes inv: "queue_inv q" and ok: "buffers_ok q" and st: "queue_step s q = Some q'"
  shows "buffers_ok q'"
proof (cases s)
  case (Submit chat)
  with st buffers_submit [OF inv ok] show ?thesis by (auto simp: queue_step_def split: if_splits)
next
  case (Send k)
  obtain i n where at: "tq_sending q ! k = (i, n)" by (metis surj_pair)
  with st Send have "q' = q\<lparr>tq_panicked := True\<rparr> \<or> (\<exists>ps. length (cq_buffer (tq_queues q ! i)) < buffer_size
      \<and> q' = (set_queue i ((tq_queues q ! i)\<lparr>cq_buffer := cq_buffer (tq_queues q ! i) @ [n]\<rparr>) q)\<lparr>tq_sending := ps\<rparr>)"
    by (auto simp: queue_step_def send_task_def Let_def split: if_splits)
  then show ?thesis
  proof (elim disjE exE conjE)
    fix ps
    assume room: "length (cq_buffer (tq_queues q ! i)) < buffer_size"
      and q': "q' = (set_queue i ((tq_queues q ! i)\<lparr>cq_buffer := cq_buffer (tq_queues q ! i) @ [n]\<rparr>) q)\<lparr>tq_sending := ps\<rparr>"
    have "buffers_ok (set_queue i ((tq_queues q ! i)\<lparr>cq_buffer := cq_buffer (tq_queues q ! i) @ [n]\<rparr>) q)"
      by (rule buffers_set [OF ok]) (use room in simp)
    then show ?thesis using buffers_cong [of q'] by (simp add: q' buffers_ok_def)
  qed (use ok in \<open>simp add: buffers_ok_def\<close>)
next
  case (Receive i)
  with st have "\<exists>c. i < length (tq_queues q) \<and> length (cq_buffer c) \<le> length (cq_buffer (tq_queues q ! i)) \<and> q' = set_queue i c q"
    by (auto simp: queue_step_def receive_task_def Let_def split: if_splits list.splits) (metis Suc_leD Suc_n_not_le_n nat_le_linear chat_queue.select_convs(2) chat_queue.surjective chat_queue.update_convs(2,5) list.size(3) le0)+
  with ok buffers_nth [OF ok] show ?thesis by (auto intro!: buffers_set intro: order_trans)
next
  case Cleanup
  with st ok show ?thesis by (auto simp: queue_step_def cleanup_idle_queues_def Let_def fold_close_queues buffers_ok_def split: if_splits)
qed (use st ok buffers_nth [OF ok] in \<open>auto simp: queue_step_def leave_queue_def acquire_slot_def abandon_task_def finish_task_def Let_def buffers_cong [OF set_status_simps(1)]
    split: if_splits worker.splits intro!: buffers_set\<close>, auto simp: buffers_ok_def)

lemma depth_never_warned:
  "queue_reaches quiet (new_queue n now) q \<Longrightarrow> c \<in> set (tq_queues q) \<Longrightarrow> \<not> depth_warning c"
proof -
  assume r: "queue_reaches quiet (new_queue n now) q" and c: "c \<in> set (tq_queues q)"
  from r have "buffers_ok q"
  proof induction
    case start
    show ?case by (simp add: buffers_ok_def new_queue_def)
  next
    case (step q s q')
    then show ?case by (blast intro: buffers_step reach_inv)
  qed
  with c show ?thesis by (auto simp: buffers_ok_def depth_warning_def buffer_size_def)
qed

section \<open>Listing and pruning\<close>

lemma exchange_sort_mset [simp]: "mset (exchange_sort better xs) = mset xs"
  by (induction better xs rule: exchange_sort.induct) (auto split: prod.splits dest: exchange_best_mset)

lemma exchange_best_least:
  assumes trans: "\<And>a b c. \<not> better b a \<Longrightarrow> \<not> better c b \<Longrightarrow> \<not> better c a" and asym: "\<And>a b. better a b \<Longrightarrow> \<not> better b a"
  shows "exchange_best better x ys = (z, zs) \<Longrightarrow> \<not> better x z \<and> (\<forall>y \<in> set zs. \<not> better y z)"
proof (induction ys arbitrary: x z zs)
  case Nil
  then show ?case using asym by auto
next
  case (Cons y ys)
  show ?case
  proof (cases "better y x")
    case True
    then obtain zs' where e: "exchange_best better y ys = (z, zs')" "zs = x # zs'"
      using Cons.prems by (auto split: prod.splits)
    with Cons.IH [OF e(1)] have "\<not> better y z" "\<forall>y \<in> set zs'. \<not> better y z" by auto
    with True e(2) trans asym show ?thesis by (metis set_ConsD)
  next
    case False
    then obtain zs' where e: "exchange_best better x ys = (z, zs')" "zs = y # zs'"
      using Cons.prems by (auto split: prod.splits)
    with Cons.IH [OF e(1)] False trans show ?thesis by (metis set_ConsD)
  qed
qed

lemma exchange_sort_sorted:
  assumes trans: "\<And>a b c. \<not> better b a \<Longrightarrow> \<not> better c b \<Longrightarrow> \<not> better c a" and asym: "\<And>a b. better a b \<Longrightarrow> \<not> better b a"
  shows "sorted_wrt (\<lambda>a b. \<not> better b a) (exchange_sort better xs)"
proof (induction "length xs" arbitrary: xs)
  case (Suc n)
  then obtain x ys where xs: "xs = x # ys" by (cases xs) auto
  obtain z zs where b: "exchange_best better x ys = (z, zs)" by (metis surj_pair)
  have "set (exchange_sort better zs) = set zs" by (metis exchange_sort_mset set_mset_mset)
  moreover have "n = length zs" using Suc(2) xs exchange_best_length [OF b] by simp
  ultimately show ?case using Suc(1) [of zs] exchange_best_least [of better, OF trans asym b] xs b by simp
qed simp

lemma recent_tasks_newest_first: "sorted_wrt (\<lambda>a b. tk_created a \<ge> tk_created b) (recent_tasks limit ts)"
proof -
  have "sorted_wrt (\<lambda>a b. \<not> newer b a) (exchange_sort newer ts)"
    by (rule exchange_sort_sorted) (auto simp: newer_def)
  then have "sorted_wrt (\<lambda>a b. tk_created a \<ge> tk_created b) (exchange_sort newer ts)"
    by (simp add: newer_def not_less)
  then show ?thesis by (simp add: recent_tasks_def Let_def sorted_wrt_take)
qed

text \<open>Pruning keeps every task that is not completed, whatever the order of the walk.\<close>

lemma prune_keeps_active:
  assumes "t \<in> set (tq_tasks q)" and "\<not> is_completed t" and "distinct (map tk_id (tq_tasks q))" and "mset walked = mset (tq_tasks q)"
  shows "t \<in> set (tq_tasks (prune_old_tasks walked q))"
proof -
  let ?done = "exchange_sort older (List.filter is_completed walked)"
  have "set ?done = set (List.filter is_completed walked)" by (metis exchange_sort_mset set_mset_mset)
  then have gone: "set (take k ?done) \<subseteq> {u \<in> set (tq_tasks q). is_completed u}" for k
    using assms(4) by (auto dest!: in_set_takeD dest: mset_eq_setD)
  have "tk_id t \<notin> tk_id ` set (take k ?done)" for k
    using gone [of k] assms by (auto simp: distinct_map dest!: inj_onD)
  then show ?thesis using assms(1) by (auto simp: prune_old_tasks_def Let_def)
qed

end
