(* ===== verification/Agent_Goal.thy ===== *)
theory Agent_Goal
  imports Go_Strings
begin

text \<open>
  Goals of a session: the rows (\<^verbatim>\<open>agent_goals\<close> in \<^verbatim>\<open>internal/store/database.go\<close>), the
  commands of the user (\<^verbatim>\<open>internal/agent/slash_goal.go\<close>), the tool of the model
  (\<^verbatim>\<open>internal/agent/tools/goal.go\<close>), the accounting after each call of the model
  (\<^verbatim>\<open>internal/agent/goal_hook.go\<close>, \<^verbatim>\<open>internal/agent/goal\<close>) and the prompts that keep
  the agent going. Commands, tool and accounting read a row, change it and write it back; what
  happens between the read and the write is in the model.
\<close>

section \<open>Rows\<close>

datatype goal_status = Goal_active | Goal_paused | Goal_budget_limited | Goal_complete

record goal =
  gl_id :: nat                       \<comment> \<open>the random id\<close>
  gl_agent :: string
  gl_session :: string
  gl_owner :: string
  gl_channel :: string
  gl_account :: string
  gl_chat :: string
  gl_project :: string
  gl_objective :: string
  gl_status :: goal_status
  gl_budget :: "int option"
  gl_used :: int

datatype goal_error = Goal_invalid | Goal_exists | Goal_not_found

definition goal_at :: "string \<Rightarrow> string \<Rightarrow> goal \<Rightarrow> bool" where
  "goal_at agent session g = (gl_agent g = agent \<and> gl_session g = session)"

text \<open>The table has one row for an agent and a session.\<close>

definition create_goal :: "goal \<Rightarrow> goal list \<Rightarrow> goal_error option \<times> goal list" where
  "create_goal g rows =
     (if gl_agent g = [] \<or> gl_session g = [] \<or> gl_owner g = [] then (Some Goal_invalid, rows)
      else if list_ex (\<lambda>r. goal_at (gl_agent g) (gl_session g) r \<or> gl_id r = gl_id g) rows then (Some Goal_exists, rows)
      else (None, rows @ [g]))"

definition get_goal :: "string \<Rightarrow> string \<Rightarrow> goal list \<Rightarrow> goal option" where
  "get_goal agent session rows = List.find (goal_at agent session) rows"

text \<open>The write takes status, budget and usage from the record that was read earlier.\<close>

definition update_goal :: "goal \<Rightarrow> goal list \<Rightarrow> goal_error option \<times> goal list" where
  "update_goal g rows =
     (if list_ex (\<lambda>r. gl_id r = gl_id g) rows
      then (None, map (\<lambda>r. if gl_id r = gl_id g then r\<lparr>gl_status := gl_status g, gl_budget := gl_budget g, gl_used := gl_used g\<rparr> else r) rows)
      else (Some Goal_not_found, rows))"

definition delete_goal :: "nat \<Rightarrow> goal list \<Rightarrow> goal list" where
  "delete_goal i rows = List.filter (\<lambda>r. gl_id r \<noteq> i) rows"

section \<open>Accounting and prompts\<close>

definition remaining_tokens :: "goal \<Rightarrow> int option" where
  "remaining_tokens g = map_option (\<lambda>b. max 0 (b - gl_used g)) (gl_budget g)"

text \<open>What was added, whether the budget is gone, and the goal.\<close>

definition fold_usage :: "int \<Rightarrow> int \<Rightarrow> goal \<Rightarrow> int \<times> bool \<times> goal" where
  "fold_usage input output g =
     (if gl_status g \<noteq> Goal_active then (0, False, g)
      else
        (let delta = max 0 input + max 0 output in
         if delta = 0 then (0, False, g)
         else
           (let g1 = g\<lparr>gl_used := gl_used g + delta\<rparr> in
            case gl_budget g1 of
              Some b \<Rightarrow> if gl_used g1 \<ge> b then (delta, True, g1\<lparr>gl_status := Goal_budget_limited\<rparr>) else (delta, False, g1)
            | None \<Rightarrow> (delta, False, g1))))"

fun escape_xml_text :: "string \<Rightarrow> string" where
  "escape_xml_text [] = []"
| "escape_xml_text (c # s) =
     (if c = CHR ''&'' then ''&amp;'' else if c = CHR ''<'' then ''&lt;'' else if c = CHR ''>'' then ''&gt;'' else [c])
     @ escape_xml_text s"

datatype goal_prompt =
    Continuation string int "int option" "int option"   \<comment> \<open>escaped objective, used, budget, what is left\<close>
  | Budget_limit string int "int option"

definition continuation_prompt :: "goal \<Rightarrow> goal_prompt" where
  "continuation_prompt g = Continuation (escape_xml_text (gl_objective g)) (gl_used g) (gl_budget g) (remaining_tokens g)"

definition budget_limit_prompt :: "goal \<Rightarrow> goal_prompt" where
  "budget_limit_prompt g = Budget_limit (escape_xml_text (gl_objective g)) (gl_used g) (gl_budget g)"

text \<open>The inbound side of the bus takes a message as long as it has room.\<close>

record goal_inbound =
  gi_channel :: string
  gi_account :: string
  gi_chat :: string
  gi_project :: string
  gi_owner :: string
  gi_agent :: string
  gi_prompt :: goal_prompt

record goal_world =
  gw_rows :: "goal list"
  gw_inbound :: "goal_inbound list"
  gw_next :: nat                                  \<comment> \<open>a fresh id\<close>
  gw_pending :: "(goal \<times> bool) list"               \<comment> \<open>read and changed, not yet written; whether to announce it\<close>

definition inbound_room :: nat where "inbound_room = 100"

definition publish_goal :: "goal \<Rightarrow> goal_prompt \<Rightarrow> goal_world \<Rightarrow> goal_world" where
  "publish_goal g p x =
     (if length (gw_inbound x) < inbound_room
      then x\<lparr>gw_inbound := gw_inbound x @
             [\<lparr>gi_channel = gl_channel g, gi_account = gl_account g, gi_chat = gl_chat g, gi_project = gl_project g,
               gi_owner = gl_owner g, gi_agent = gl_agent g, gi_prompt = p\<rparr>]\<rparr>
      else x)"

definition try_fire_continuation :: "string \<Rightarrow> string \<Rightarrow> goal_world \<Rightarrow> goal_world" where
  "try_fire_continuation agent session x =
     (case get_goal agent session (gw_rows x) of
        None \<Rightarrow> x
      | Some g \<Rightarrow>
          if gl_status g \<noteq> Goal_active \<or> (gl_channel g = [] \<and> gl_chat g = []) then x
          else publish_goal g (continuation_prompt g) x)"

section \<open>Steps\<close>

definition goal_create :: "string \<Rightarrow> string \<Rightarrow> string \<Rightarrow> string \<times> string \<times> string \<times> string \<Rightarrow> string \<Rightarrow> goal_world \<Rightarrow> goal_world" where
  "goal_create agent session owner route objective x =
     (case route of
        (channel, account, chat, project) \<Rightarrow>
          (let txt' = trim_space objective;
               g = \<lparr>gl_id = gw_next x, gl_agent = agent, gl_session = session, gl_owner = owner, gl_channel = channel,
                    gl_account = account, gl_chat = chat, gl_project = project, gl_objective = txt', gl_status = Goal_active,
                    gl_budget = None, gl_used = 0\<rparr>
           in if txt' = [] \<or> session = [] then x
              else case create_goal g (gw_rows x) of
                  (Some _, _) \<Rightarrow> x\<lparr>gw_next := Suc (gw_next x)\<rparr>
                | (None, rows) \<Rightarrow> try_fire_continuation agent session (x\<lparr>gw_rows := rows, gw_next := Suc (gw_next x)\<rparr>)))"

text \<open>The reads of \<^verbatim>\<open>transitionGoal\<close>, of the tool and of the accounting hook.\<close>

definition begin_transition :: "string \<Rightarrow> string \<Rightarrow> goal_status \<Rightarrow> goal_status \<Rightarrow> goal_world \<Rightarrow> goal_world option" where
  "begin_transition agent session old new x =
     (case get_goal agent session (gw_rows x) of
        None \<Rightarrow> None
      | Some g \<Rightarrow> if gl_status g \<noteq> old then None else Some (x\<lparr>gw_pending := gw_pending x @ [(g\<lparr>gl_status := new\<rparr>, False)]\<rparr>))"

definition begin_accounting :: "string \<Rightarrow> string \<Rightarrow> int \<Rightarrow> int \<Rightarrow> goal_world \<Rightarrow> goal_world option" where
  "begin_accounting agent session input output x =
     (case get_goal agent session (gw_rows x) of
        None \<Rightarrow> None
      | Some g \<Rightarrow>
          if gl_status g \<noteq> Goal_active then None
          else (case fold_usage input output g of
              (delta, exhausted, g') \<Rightarrow>
                if delta = 0 \<and> \<not> exhausted then None else Some (x\<lparr>gw_pending := gw_pending x @ [(g', exhausted)]\<rparr>)))"

text \<open>The write; the database may fail. A resumed goal is continued after its write.\<close>

definition finish_write :: "nat \<Rightarrow> bool \<Rightarrow> bool \<Rightarrow> goal_world \<Rightarrow> goal_world option" where
  "finish_write k failed resume x =
     (if k < length (gw_pending x) then
        (case gw_pending x ! k of
           (g, announce) \<Rightarrow>
             (let x1 = x\<lparr>gw_pending := take k (gw_pending x) @ drop (Suc k) (gw_pending x)\<rparr> in
              if failed then Some x1
              else case update_goal g (gw_rows x1) of
                  (Some _, _) \<Rightarrow> Some x1
                | (None, rows) \<Rightarrow>
                    (let x2 = x1\<lparr>gw_rows := rows\<rparr> in
                     if announce then Some (publish_goal g (budget_limit_prompt g) x2)
                     else if resume then Some (try_fire_continuation (gl_agent g) (gl_session g) x2)
                     else Some x2)))
      else None)"

definition goal_clear :: "string \<Rightarrow> string \<Rightarrow> goal_world \<Rightarrow> goal_world option" where
  "goal_clear agent session x =
     (case get_goal agent session (gw_rows x) of None \<Rightarrow> None | Some g \<Rightarrow> Some (x\<lparr>gw_rows := delete_goal (gl_id g) (gw_rows x)\<rparr>))"

text \<open>Turns of the user (the empty source) and of the goal itself go on; those of cron, heartbeat and others do not.\<close>

definition goal_trigger_hook :: "string \<Rightarrow> bool \<Rightarrow> string \<Rightarrow> string \<Rightarrow> goal_world \<Rightarrow> goal_world" where
  "goal_trigger_hook source plan agent session x =
     (if source \<notin> {[], ''goal_context''} then x
      else if plan \<or> session = [] then x
      else try_fire_continuation agent session x)"

datatype goal_step =
    Create string string string "string \<times> string \<times> string \<times> string" string
  | Begin_pause string string
  | Begin_resume string string
  | Begin_complete string string          \<comment> \<open>the tool of the model\<close>
  | Begin_accounting string string int int
  | Write nat bool bool                   \<comment> \<open>which, whether the database fails, whether it is a resume\<close>
  | Clear string string
  | Post_turn string bool string string   \<comment> \<open>a turn ends: its source, plan mode, agent and session\<close>
  | Take_inbound

definition goal_step :: "goal_step \<Rightarrow> goal_world \<Rightarrow> goal_world option" where
  "goal_step s x =
     (case s of
        Create agent session owner route objective \<Rightarrow> Some (goal_create agent session owner route objective x)
      | Begin_pause agent session \<Rightarrow> begin_transition agent session Goal_active Goal_paused x
      | Begin_resume agent session \<Rightarrow> begin_transition agent session Goal_paused Goal_active x
      | Begin_complete agent session \<Rightarrow> if session = [] then None else begin_transition agent session Goal_active Goal_complete x
      | Begin_accounting agent session input output \<Rightarrow> if session = [] then None else begin_accounting agent session input output x
      | Write k failed resume \<Rightarrow> finish_write k failed resume x
      | Clear agent session \<Rightarrow> goal_clear agent session x
      | Post_turn source plan agent session \<Rightarrow> Some (goal_trigger_hook source plan agent session x)
      | Take_inbound \<Rightarrow> (case gw_inbound x of [] \<Rightarrow> None | _ # ms \<Rightarrow> Some (x\<lparr>gw_inbound := ms\<rparr>)))"

fun goal_run :: "goal_step list \<Rightarrow> goal_world \<Rightarrow> goal_world option" where
  "goal_run [] x = Some x"
| "goal_run (s # ss) x = (case goal_step s x of None \<Rightarrow> None | Some x' \<Rightarrow> goal_run ss x')"

definition goal_start :: goal_world where
  "goal_start = \<lparr>gw_rows = [], gw_inbound = [], gw_next = 0, gw_pending = []\<rparr>"

section \<open>Budgets\<close>

text \<open>No handler ever sets a budget.\<close>

definition unbounded :: "goal \<Rightarrow> bool" where
  "unbounded g = (gl_budget g = None \<and> gl_status g \<noteq> Goal_budget_limited)"

definition all_unbounded :: "goal_world \<Rightarrow> bool" where
  "all_unbounded x = (list_all unbounded (gw_rows x) \<and> list_all (\<lambda>(g, announce). unbounded g \<and> \<not> announce) (gw_pending x))"

lemma publish_rows [simp]: "gw_rows (publish_goal g p x) = gw_rows x" "gw_pending (publish_goal g p x) = gw_pending x"
  by (simp_all add: publish_goal_def)

lemma fire_rows [simp]:
  "gw_rows (try_fire_continuation a s x) = gw_rows x" "gw_pending (try_fire_continuation a s x) = gw_pending x"
  by (simp_all add: try_fire_continuation_def split: option.split)

lemma got_unbounded: "list_all unbounded rows \<Longrightarrow> get_goal a s rows = Some g \<Longrightarrow> unbounded g"
  by (auto simp: get_goal_def find_Some_iff list_all_length)

lemma fold_unbounded: "unbounded g \<Longrightarrow> fold_usage i p g = (d, e, g') \<Longrightarrow> unbounded g' \<and> \<not> e"
  by (auto simp: unbounded_def fold_usage_def Let_def split: if_splits)

lemma update_unbounded: "list_all unbounded rows \<Longrightarrow> unbounded g \<Longrightarrow> update_goal g rows = (e, rows') \<Longrightarrow> list_all unbounded rows'"
  by (auto simp: update_goal_def list_all_iff unbounded_def split: if_splits)

lemma transition_unbounded:
  assumes "all_unbounded x" and "begin_transition a s old new x = Some x'" and "new \<noteq> Goal_budget_limited"
  shows "all_unbounded x'"
proof -
  obtain g where g: "get_goal a s (gw_rows x) = Some g" "x' = x\<lparr>gw_pending := gw_pending x @ [(g\<lparr>gl_status := new\<rparr>, False)]\<rparr>"
    using assms(2) by (auto simp: begin_transition_def split: option.splits if_splits)
  then have "unbounded g" using assms(1) by (auto simp: all_unbounded_def intro: got_unbounded)
  with g(2) assms(1,3) show ?thesis by (simp add: all_unbounded_def unbounded_def)
qed

lemma goal_step_unbounded:
  assumes "all_unbounded x" and "goal_step s x = Some x'"
  shows "all_unbounded x'"
proof (cases s)
  case (Create agent session owner route objective)
  with assms show ?thesis
    by (cases route) (auto simp: goal_step_def goal_create_def create_goal_def all_unbounded_def unbounded_def Let_def split: if_splits)
next
  case (Begin_accounting agent session inp out)
  with assms obtain g d e g' where g: "get_goal agent session (gw_rows x) = Some g" "fold_usage inp out g = (d, e, g')"
    "x' = x\<lparr>gw_pending := gw_pending x @ [(g', e)]\<rparr>"
    by (auto simp: goal_step_def begin_accounting_def split: option.splits if_splits prod.splits)
  with assms(1) fold_unbounded [OF got_unbounded [OF _ g(1)] g(2)] show ?thesis by (simp add: all_unbounded_def)
next
  case (Write k failed resume)
  with assms have k: "k < length (gw_pending x)" by (auto simp: goal_step_def finish_write_def split: if_splits)
  obtain g announce where g: "gw_pending x ! k = (g, announce)" by (metis surj_pair)
  let ?rest = "take k (gw_pending x) @ drop (Suc k) (gw_pending x)"
  have all: "\<forall>(g, announce) \<in> set (gw_pending x). unbounded g \<and> \<not> announce"
    using assms(1) by (auto simp: all_unbounded_def list_all_iff)
  have "(g, announce) \<in> set (gw_pending x)" using g k by (metis nth_mem)
  with all have p: "unbounded g" "\<not> announce" by auto
  have "set ?rest \<subseteq> set (gw_pending x)" by (auto dest: in_set_takeD in_set_dropD)
  with all have p3: "list_all (\<lambda>(g, announce). unbounded g \<and> \<not> announce) ?rest" by (auto simp: list_all_iff)
  with assms Write k g p update_unbounded [of "gw_rows x" g] show ?thesis
    by (auto simp: goal_step_def finish_write_def all_unbounded_def Let_def split: if_splits option.splits prod.splits)
next
  case (Begin_pause agent session)
  with assms transition_unbounded [of x agent session Goal_active Goal_paused x'] show ?thesis by (simp add: goal_step_def)
next
  case (Begin_resume agent session)
  with assms transition_unbounded [of x agent session Goal_paused Goal_active x'] show ?thesis by (simp add: goal_step_def)
next
  case (Begin_complete agent session)
  with assms transition_unbounded [of x agent session Goal_active Goal_complete x'] show ?thesis by (simp add: goal_step_def split: if_splits)
next
  case (Clear agent session)
  with assms show ?thesis
    by (auto simp: goal_step_def goal_clear_def delete_goal_def all_unbounded_def list_all_iff split: option.splits)
next
  case (Post_turn source plan agent session)
  with assms show ?thesis by (auto simp: goal_step_def goal_trigger_hook_def all_unbounded_def split: if_splits)
next
  case Take_inbound
  with assms show ?thesis by (auto simp: goal_step_def all_unbounded_def split: list.splits)
qed

text \<open>
  No goal is ever limited: over every sequence of commands, calls of the model and tools, whatever
  it uses, no row has a budget and none is stopped for its usage.
\<close>
lemma goals_are_never_limited:
  assumes "goal_run ss goal_start = Some x"
  shows "list_all (\<lambda>g. gl_budget g = None \<and> gl_status g \<noteq> Goal_budget_limited) (gw_rows x)"
proof -
  have "all_unbounded y \<Longrightarrow> goal_run ss y = Some x \<Longrightarrow> all_unbounded x" for y
  proof (induction ss arbitrary: y)
    case (Cons s ss)
    then show ?case using goal_step_unbounded by (auto split: option.splits)
  qed simp
  moreover have "all_unbounded goal_start" by (simp add: all_unbounded_def goal_start_def)
  ultimately have "all_unbounded x" using assms by blast
  then show ?thesis by (simp add: all_unbounded_def unbounded_def [abs_def])
qed

text \<open>One call of ten tokens on a fresh goal.\<close>

definition spending_run :: "goal_step list" where
  "spending_run = [Create ''bot'' ''s1'' ''u1'' (''web'', [], ''c1'', []) ''write a book'', Begin_accounting ''bot'' ''s1'' 7 3, Write 0 False False]"

theorem goals_are_never_limited_witness:
  "\<exists>x. goal_run spending_run goal_start = Some x \<and> map gl_used (gw_rows x) = [10]
     \<and> list_all (\<lambda>g. gl_budget g = None \<and> gl_status g \<noteq> Goal_budget_limited) (gw_rows x)"
proof -
  have trim: "trim_space ''write a book'' = ''write a book''" by (rule trim_space_visible) (simp_all add: visible_def)
  obtain x where x: "goal_run spending_run goal_start = Some x" "map gl_used (gw_rows x) = [10]"
    by (simp add: spending_run_def goal_start_def goal_step_def goal_create_def trim create_goal_def try_fire_continuation_def
        publish_goal_def inbound_room_def get_goal_def goal_at_def begin_accounting_def fold_usage_def finish_write_def update_goal_def Let_def)
  from goals_are_never_limited [OF x(1)] x show ?thesis by (intro exI [of _ x]) simp
qed

section \<open>Lost updates\<close>

lemma find_map_same_goal: "(\<And>r. P (f r) = P r) \<Longrightarrow> List.find P (map f rs) = map_option f (List.find P rs)"
  by (induction rs) auto

lemma get_after_update:
  assumes "get_goal a s rows = Some r" and "gl_id r = gl_id g"
  shows "\<exists>rows'. update_goal g rows = (None, rows')
    \<and> get_goal a s rows' = Some (r\<lparr>gl_status := gl_status g, gl_budget := gl_budget g, gl_used := gl_used g\<rparr>)"
proof -
  have "r \<in> set rows" using assms(1) by (auto simp: get_goal_def find_Some_iff)
  moreover have "get_goal a s (map (\<lambda>r. if gl_id r = gl_id g
      then r\<lparr>gl_status := gl_status g, gl_budget := gl_budget g, gl_used := gl_used g\<rparr> else r) rows)
    = Some (r\<lparr>gl_status := gl_status g, gl_budget := gl_budget g, gl_used := gl_used g\<rparr>)"
    using assms unfolding get_goal_def by (subst find_map_same_goal) (auto simp: goal_at_def)
  ultimately show ?thesis using assms(2) by (auto simp: update_goal_def list_ex_iff)
qed

text \<open>
  A pause that is written while the accounting of a call is between its read and its write is undone:
  the goal is active again, although the pause succeeded.
\<close>
lemma pause_during_accounting_is_lost:
  assumes "get_goal a s (gw_rows x) = Some g" and "gl_status g = Goal_active" and "gl_budget g = None"
    and "max 0 input + max 0 output \<noteq> 0" and "s \<noteq> []" and "gw_pending x = []"
  shows "\<exists>y z. goal_run [Begin_accounting a s input output, Begin_pause a s, Write 1 False False] x = Some y
    \<and> map_option gl_status (get_goal a s (gw_rows y)) = Some Goal_paused
    \<and> goal_run [Write 0 False False] y = Some z
    \<and> get_goal a s (gw_rows z) = Some (g\<lparr>gl_used := gl_used g + (max 0 input + max 0 output)\<rparr>)"
proof -
  let ?d = "max 0 input + max 0 output"
  let ?acc = "g\<lparr>gl_used := gl_used g + ?d\<rparr>"
  let ?pause = "g\<lparr>gl_status := Goal_paused\<rparr>"
  have fold: "fold_usage input output g = (?d, False, ?acc)" using assms(2-4) by (simp add: fold_usage_def Let_def)
  obtain rows1 where r1: "update_goal ?pause (gw_rows x) = (None, rows1)" "get_goal a s rows1 = Some ?pause"
    using get_after_update [OF assms(1), of ?pause] by auto
  obtain rows2 where r2: "update_goal ?acc rows1 = (None, rows2)" "get_goal a s rows2 = Some ?acc"
    using get_after_update [OF r1(2), of ?acc] assms(2,3) by auto
  let ?y = "x\<lparr>gw_rows := rows1, gw_pending := [(?acc, False)]\<rparr>"
  let ?z = "x\<lparr>gw_rows := rows2, gw_pending := []\<rparr>"
  have "goal_run [Begin_accounting a s input output, Begin_pause a s, Write 1 False False] x = Some ?y"
    using assms fold r1(1) by (simp add: goal_step_def begin_accounting_def begin_transition_def finish_write_def Let_def)
  moreover have "goal_run [Write 0 False False] ?y = Some ?z"
    using r2(1) by (simp add: goal_step_def finish_write_def Let_def)
  ultimately show ?thesis using r1(2) r2(2) by (intro exI [of _ ?y] exI [of _ ?z]) simp
qed

definition paused_goal_example :: goal_world where
  "paused_goal_example =
     goal_start\<lparr>gw_rows := [\<lparr>gl_id = 0, gl_agent = ''bot'', gl_session = ''s1'', gl_owner = ''u1'', gl_channel = ''web'', gl_account = [],
       gl_chat = ''c1'', gl_project = [], gl_objective = ''write a book'', gl_status = Goal_active, gl_budget = None, gl_used = 5\<rparr>]\<rparr>"

theorem pause_during_accounting_is_lost_witness:
  "\<exists>y z g. goal_run [Begin_accounting ''bot'' ''s1'' 7 3, Begin_pause ''bot'' ''s1'', Write 1 False False] paused_goal_example = Some y
     \<and> map_option gl_status (get_goal ''bot'' ''s1'' (gw_rows y)) = Some Goal_paused
     \<and> goal_run [Write 0 False False] y = Some z
     \<and> get_goal ''bot'' ''s1'' (gw_rows z) = Some g \<and> gl_status g = Goal_active \<and> gl_used g = 15"
proof -
  obtain g where g: "get_goal ''bot'' ''s1'' (gw_rows paused_goal_example) = Some g" "gl_status g = Goal_active" "gl_budget g = None"
    "gl_used g = 5"
    by (simp add: paused_goal_example_def get_goal_def goal_at_def)
  have "gw_pending paused_goal_example = []" by (simp add: paused_goal_example_def goal_start_def)
  with pause_during_accounting_is_lost [OF g(1-3), of 7 3] g show ?thesis by fastforce
qed

section \<open>Escaping\<close>

text \<open>The escaped objective cannot close its element, and nothing of it is lost.\<close>

lemma escaped_has_no_tags: "CHR ''<'' \<notin> set (escape_xml_text s) \<and> CHR ''>'' \<notin> set (escape_xml_text s)"
  by (induction s) auto

fun unescape_xml_text :: "string \<Rightarrow> string" where
  "unescape_xml_text [] = []"
| "unescape_xml_text (c # s) =
     (if c = CHR ''&'' then
        (case s of
           CHR ''a'' # _ \<Rightarrow> CHR ''&'' # unescape_xml_text (drop 4 s)
         | CHR ''l'' # _ \<Rightarrow> CHR ''<'' # unescape_xml_text (drop 3 s)
         | _ \<Rightarrow> CHR ''>'' # unescape_xml_text (drop 3 s))
      else c # unescape_xml_text s)"

lemma escape_round_trip: "unescape_xml_text (escape_xml_text s) = s"
  by (induction s) auto

end
