(* ===== verification/Failure_Sweep.thy ===== *)
theory Failure_Sweep
  imports Turn_Pairing Go_Time "HOL-Library.Word"
begin

text \<open>
  The sweep that replays failed turns (\<^verbatim>\<open>internal/gateway/gateway_failure_sweep.go\<close>): it reads
  the failed calls of the recent past, and for each session the chain of failures at the end of the
  history, and then replays the request, waits, or tells the user. A replay is a turn of
  \<^verbatim>\<open>Turn_Loop\<close>. Times are nanoseconds; the timestamps of messages are milliseconds.
\<close>

section \<open>The chain at the end of a history\<close>

text \<open>\<^verbatim>\<open>Message.TextContent\<close>, without the tags of attachments.\<close>

function strip_attached_prefix :: "string \<Rightarrow> string" where
  "strip_attached_prefix s =
     (if has_prefix s ''[Attached:'' \<and> CHR '']'' \<in> set s
      then strip_attached_prefix
             (dropWhile (\<lambda>c. c \<in> {CHR '' '', CHR 0x09, CHR 0x0D, CHR 0x0A}) (tl (dropWhile (\<lambda>c. c \<noteq> CHR '']'') s)))
      else s)"
  by pat_completeness auto
termination
proof (relation "measure length")
  fix s :: string
  assume "has_prefix s ''[Attached:'' \<and> CHR '']'' \<in> set s"
  then have ne: "s \<noteq> []" by auto
  have "length (dropWhile P (tl (dropWhile Q s))) \<le> length s - 1" for P Q
    using length_dropWhile_le [of P "tl (dropWhile Q s)"] length_dropWhile_le [of Q s] by simp
  with ne have "length (dropWhile P (tl (dropWhile Q s))) < length s" for P Q
    by (meson diff_less le_less_trans length_greater_0_conv zero_less_one)
  then show "(dropWhile (\<lambda>c. c \<in> {CHR '' '', CHR 0x09, CHR 0x0D, CHR 0x0A}) (tl (dropWhile (\<lambda>c. c \<noteq> CHR '']'') s)), s)
      \<in> measure length"
    by (simp only: in_measure)
qed simp

declare strip_attached_prefix.simps [simp del]

definition text_content :: "message \<Rightarrow> string" where
  "text_content m =
     strip_attached_prefix
       (if mg_content m \<noteq> [] then mg_content m
        else join_str (map cpt_text (List.filter (\<lambda>p. cpt_type p = ''text'' \<and> cpt_text p \<noteq> []) (mg_parts m))) [CHR 0x0A])"

definition is_failure_notice :: "string \<Rightarrow> bool" where
  "is_failure_notice origin = (origin = ''turn_error'')"

definition failure_retry_tag :: string where
  "failure_retry_tag = utf8 [128257] @ '' ['' @ utf8 [31995, 32479, 33258, 21160, 37325, 35797] @ ''] ''"

definition failure_retry_turn :: "message \<Rightarrow> string \<Rightarrow> bool" where
  "failure_retry_turn m txt = (mget (mg_meta m) ''failureRetry'' = Some (GBool True) \<or> has_prefix txt failure_retry_tag)"

text \<open>The count comes back from the database as a float; \<^verbatim>\<open>int(f)\<close> of a number in range.\<close>

definition float_to_int :: "float64 \<Rightarrow> int" where
  "float_to_int f = (case f of FFin s m e \<Rightarrow> (let n = (if 0 \<le> e then m * pow2 e else m div pow2 (- e)) in if s then - n else n) | _ \<Rightarrow> 0)"

definition tools_executed_of :: "message \<Rightarrow> int" where
  "tools_executed_of m = (case mget (mg_meta m) ''toolsExecuted'' of Some (GInt i) \<Rightarrow> i | Some (GFloat f) \<Rightarrow> float_to_int f | _ \<Rightarrow> 0)"

record failure_chain =
  fc_text :: string
  fc_retries :: nat
  fc_replayable :: bool
  fc_last_at :: int
  fc_category :: string

text \<open>The walk over pairs of a notice and the user message in front of it, latest first.\<close>

fun walk_chain :: "message list \<Rightarrow> nat \<Rightarrow> bool \<Rightarrow> (string \<times> nat \<times> bool) option" where
  "walk_chain (notice # user # rest) retries replayable =
     (if \<not> is_failure_notice (mg_origin notice) then None
      else
        (let replayable' = (replayable \<and> \<not> tools_executed_of notice > 0) in
         if mg_role user \<noteq> ''user'' \<or> is_failure_notice (mg_origin user) then None
         else
           (let txt = text_content user in
            if failure_retry_turn user txt then walk_chain rest (Suc retries) replayable'
            else if txt = [] then None else Some (txt, retries, replayable'))))"
| "walk_chain _ retries replayable = None"

definition analyze_failure_chain :: "message list \<Rightarrow> failure_chain option" where
  "analyze_failure_chain ms =
     (if length ms < 2 \<or> \<not> is_failure_notice (mg_origin (last ms)) then None
      else
        (case walk_chain (rev ms) 0 True of
           None \<Rightarrow> None
         | Some (txt, retries, replayable) \<Rightarrow>
             Some \<lparr>fc_text = txt, fc_retries = retries, fc_replayable = replayable, fc_last_at = mg_timestamp (last ms) * 1000000,
                   fc_category = as_str (mget (mg_meta (last ms)) ''turnError'')\<rparr>))"

section \<open>Knobs and windows\<close>

definition int64_of :: "int \<Rightarrow> int" where
  "int64_of i = sint (word_of_int i :: 64 word)"

definition minute_ns :: int where "minute_ns = 60000000000"
definition hour_ns :: int where "hour_ns = 3600000000000"

definition failure_retry_max :: "string \<Rightarrow> int" where
  "failure_retry_max v = (if v \<noteq> [] then (case atoi v of Some n \<Rightarrow> if n \<ge> 1 then n else 3 | None \<Rightarrow> 3) else 3)"

definition failure_retry_base :: "string \<Rightarrow> int" where
  "failure_retry_base v =
     (if v \<noteq> [] then (case atoi v of Some n \<Rightarrow> if n \<ge> 60 then int64_of (n * second) else 15 * minute_ns | None \<Rightarrow> 15 * minute_ns)
      else 15 * minute_ns)"

text \<open>The setting, then the environment, then the default; the setting is \<open>None\<close> when it cannot be read.\<close>

definition failure_retry_runtime :: "(int \<times> int) option \<Rightarrow> string \<Rightarrow> string \<Rightarrow> int \<times> int" where
  "failure_retry_runtime setting base_env max_env =
     (let (base, cap) = (case setting of
            Some (m, a) \<Rightarrow> (if m \<ge> 1 then int64_of (m * minute_ns) else 0, if a \<ge> 1 then a else 0)
          | None \<Rightarrow> (0, 0))
      in (if base = 0 then failure_retry_base base_env else base, if cap = 0 then failure_retry_max max_env else cap))"

definition shift_left :: "int \<Rightarrow> nat \<Rightarrow> int" where
  "shift_left d n = int64_of (d * 2 ^ n)"

definition failure_scan_window :: int where "failure_scan_window = 6 * hour_ns"
definition failure_scan_max_window :: int where "failure_scan_max_window = 7 * 24 * hour_ns"

definition failure_scan_window_for :: "int \<Rightarrow> int \<Rightarrow> int" where
  "failure_scan_window_for base cap =
     (if cap \<ge> 1 then
        (let shift = (if cap - 1 > 20 then 20 else nat (cap - 1));
             need = int64_of (shift_left base shift + 10 * minute_ns);
             need' = (if need > failure_scan_max_window then failure_scan_max_window else need)
         in if need' > failure_scan_window then need' else failure_scan_window)
      else failure_scan_window)"

section \<open>The failed calls\<close>

record diag_row =
  dr_id :: int
  dr_agent :: string
  dr_session :: string
  dr_status :: string
  dr_created :: int

definition recoverable :: "int \<Rightarrow> diag_row \<Rightarrow> bool" where
  "recoverable since r =
     (dr_status r \<noteq> ''ok'' \<and> dr_status r \<noteq> ''canceled'' \<and> dr_session r \<noteq> [] \<and> dr_created r div second \<ge> since div second)"

text \<open>One page, by ascending id.\<close>

definition list_recoverable_call_failures :: "int \<Rightarrow> int \<Rightarrow> nat \<Rightarrow> diag_row list \<Rightarrow> diag_row list" where
  "list_recoverable_call_failures since after_id limit rows =
     take limit (sort_key dr_id (List.filter (\<lambda>r. recoverable since r \<and> dr_id r > after_id) rows))"

definition failure_scan_page_size :: nat where "failure_scan_page_size = 1000"

definition newest_row :: "diag_row \<Rightarrow> (string \<times> string \<Rightarrow> diag_row option) \<Rightarrow> (string \<times> string \<Rightarrow> diag_row option)" where
  "newest_row r seen = seen((dr_agent r, dr_session r) \<mapsto> r)"

function failure_pages ::
    "nat \<Rightarrow> int \<Rightarrow> diag_row list \<Rightarrow> int \<Rightarrow> (string \<times> string \<Rightarrow> diag_row option) \<Rightarrow> (string \<times> string \<Rightarrow> diag_row option)" where
  "failure_pages pg since rows after_id seen =
     (let page = list_recoverable_call_failures since after_id pg rows; seen' = fold newest_row page seen
      in if length page < pg \<or> pg = 0 then seen' else failure_pages pg since rows (dr_id (last page)) seen')"
  by pat_completeness auto

lemma page_beyond: "r \<in> set (list_recoverable_call_failures since a k rows) \<Longrightarrow> r \<in> set rows \<and> recoverable since r \<and> dr_id r > a"
  by (auto simp: list_recoverable_call_failures_def dest!: in_set_takeD)

termination failure_pages
proof (relation "measure (\<lambda>(pg, since, rows, a, seen). length (List.filter (\<lambda>r. dr_id r > a) rows))")
  fix pg since rows a page and seen seen' :: "string \<times> string \<Rightarrow> diag_row option"
  assume page: "page = list_recoverable_call_failures since a pg rows" and full: "\<not> (length page < pg \<or> pg = 0)"
  then have "last page \<in> set page" by (intro last_in_set) auto
  with page page_beyond have l: "last page \<in> set rows" "dr_id (last page) > a" by blast+
  have "length (List.filter (\<lambda>r. dr_id r > dr_id (last page)) rows) < length (List.filter (\<lambda>r. dr_id r > a) rows)"
  proof -
    let ?xs = "List.filter (\<lambda>r. dr_id r > a) rows"
    have "List.filter (\<lambda>r. dr_id r > dr_id (last page)) rows = List.filter (\<lambda>r. dr_id r > dr_id (last page)) ?xs"
      using l(2) by (simp add: conj_commute) (rule filter_cong, auto)
    then show ?thesis using length_filter_less [of "last page" ?xs "\<lambda>r. dr_id r > dr_id (last page)"] l by simp
  qed
  then show "((pg, since, rows, dr_id (last page), seen'), (pg, since, rows, a, seen))
      \<in> measure (\<lambda>(pg, since, rows, a, seen). length (List.filter (\<lambda>r. dr_id r > a) rows))"
    by simp
qed simp

declare failure_pages.simps [simp del]

section \<open>A session\<close>

record scan_state =
  sn_handled :: int
  sn_next :: "int option"
  sn_seen :: int

definition unseen_state :: scan_state where
  "unseen_state = \<lparr>sn_handled = 0, sn_next = None, sn_seen = 0\<rparr>"

definition should_scan :: "scan_state \<Rightarrow> int \<Rightarrow> int \<Rightarrow> bool" where
  "should_scan st newest now =
     (if (\<exists>t. sn_next st = Some t \<and> now < t) then False else sn_handled st < newest \<or> sn_next st \<noteq> None)"

datatype sweep_event = Not_replayable | Gave_up | Recovered

text \<open>
  Histories, caches and what the users were told. A session that cannot be loaded, or whose agent
  or owner is missing, has no history.
\<close>

record sweep_world =
  fw_now :: int
  fw_history :: "string \<Rightarrow> string \<Rightarrow> message list option"
  fw_busy :: "string \<Rightarrow> string \<Rightarrow> bool"
  fw_scan :: "string \<Rightarrow> scan_state option"
  fw_notified :: "string \<Rightarrow> int option"
  fw_saved :: "string \<Rightarrow> int option"                         \<comment> \<open>the copy in the database, whole seconds\<close>
  fw_told :: "(string \<times> string \<times> sweep_event) list"

definition event_name :: "sweep_event \<Rightarrow> string" where
  "event_name e = (case e of Not_replayable \<Rightarrow> ''not_replayable'' | Gave_up \<Rightarrow> ''gave_up'' | Recovered \<Rightarrow> ''recovered'')"

definition scan_key :: "string \<Rightarrow> string \<Rightarrow> string" where
  "scan_key agent session = agent @ ''|'' @ session"

definition failure_state :: "string \<Rightarrow> string \<Rightarrow> sweep_world \<Rightarrow> scan_state" where
  "failure_state agent session w = (case fw_scan w (scan_key agent session) of Some st \<Rightarrow> st | None \<Rightarrow> unseen_state)"

definition set_failure_state :: "string \<Rightarrow> string \<Rightarrow> scan_state \<Rightarrow> sweep_world \<Rightarrow> sweep_world" where
  "set_failure_state agent session st w =
     w\<lparr>fw_scan := (fw_scan w)(scan_key agent session \<mapsto> st\<lparr>sn_seen := fw_now w\<rparr>)\<rparr>"

definition prune_failure_states :: "sweep_world \<Rightarrow> sweep_world" where
  "prune_failure_states w =
     w\<lparr>fw_scan := (\<lambda>k. case fw_scan w k of
          None \<Rightarrow> None
        | Some st \<Rightarrow> if sn_next st \<noteq> None \<or> sn_seen st > fw_now w - failure_scan_window then Some st else None)\<rparr>"

text \<open>Entries that are older than the window leave the map and its copy whenever a claim is made.\<close>

definition claim_failure_notice :: "string \<Rightarrow> sweep_world \<Rightarrow> bool \<times> sweep_world" where
  "claim_failure_notice key w =
     (let cutoff = fw_now w - failure_scan_window in
      if (\<exists>t. fw_notified w key = Some t \<and> t > cutoff) then (False, w)
      else
        (let fresh = (\<lambda>k. case ((fw_notified w)(key \<mapsto> fw_now w)) k of None \<Rightarrow> None | Some t \<Rightarrow> if t > cutoff then Some t else None)
         in (True, w\<lparr>fw_notified := fresh, fw_saved := (\<lambda>k. map_option (\<lambda>t. t div second * second) (fresh k))\<rparr>)))"

definition load_failure_notified :: "sweep_world \<Rightarrow> sweep_world" where
  "load_failure_notified w =
     w\<lparr>fw_notified := (\<lambda>k. case fw_saved w k of
          Some t \<Rightarrow> if t > fw_now w - failure_scan_window then Some t else fw_notified w k
        | None \<Rightarrow> fw_notified w k)\<rparr>"

definition notify_failure_once :: "string \<Rightarrow> string \<Rightarrow> sweep_event \<Rightarrow> sweep_world \<Rightarrow> sweep_world" where
  "notify_failure_once agent session e w =
     (case claim_failure_notice (scan_key agent session @ ''|'' @ event_name e) w of
        (False, _) \<Rightarrow> w
      | (True, w') \<Rightarrow> w'\<lparr>fw_told := fw_told w' @ [(agent, session, e)]\<rparr>)"

definition replay_text :: "nat \<Rightarrow> string \<Rightarrow> string" where
  "replay_text attempt txt = failure_retry_tag @ utf8 [31532] @ nat_str attempt @ utf8 [27425, 183] @ txt"

text \<open>A turn takes the session and the text of the message to the new history.\<close>

type_synonym replayer = "string \<Rightarrow> string \<Rightarrow> string \<Rightarrow> message list \<Rightarrow> message list"

definition replay_failed_turn :: "replayer \<Rightarrow> string \<Rightarrow> string \<Rightarrow> message list \<Rightarrow> failure_chain \<Rightarrow> sweep_world \<Rightarrow> bool \<times> sweep_world" where
  "replay_failed_turn turn agent session ms chain w =
     (let after = turn agent session (replay_text (Suc (fc_retries chain)) (fc_text chain)) ms;
          w1 = w\<lparr>fw_history := (fw_history w)(agent := (fw_history w agent)(session := Some after))\<rparr>
      in if analyze_failure_chain after \<noteq> None then (False, w1) else (True, notify_failure_once agent session Recovered w1))"

definition handle_failure_session :: "replayer \<Rightarrow> int \<Rightarrow> int \<Rightarrow> string \<Rightarrow> string \<Rightarrow> int \<Rightarrow> sweep_world \<Rightarrow> sweep_world" where
  "handle_failure_session turn base cap agent session up_to w =
     (case fw_history w agent session of
        None \<Rightarrow> w
      | Some ms \<Rightarrow>
          (let settled = \<lparr>sn_handled = up_to, sn_next = None, sn_seen = 0\<rparr> in
           case analyze_failure_chain ms of
             None \<Rightarrow> set_failure_state agent session settled w
           | Some chain \<Rightarrow>
               if \<not> fc_replayable chain
               then notify_failure_once agent session Not_replayable (set_failure_state agent session settled w)
               else if int (fc_retries chain) \<ge> cap
               then notify_failure_once agent session Gave_up (set_failure_state agent session settled w)
               else
                 (let due = fc_last_at chain + shift_left base (fc_retries chain) in
                  if fw_now w < due then set_failure_state agent session (settled\<lparr>sn_next := Some due\<rparr>) w
                  else if fw_busy w agent session
                  then set_failure_state agent session (settled\<lparr>sn_next := Some (fw_now w + minute_ns)\<rparr>) w
                  else
                    (case replay_failed_turn turn agent session ms chain w of
                       (ok, w1) \<Rightarrow> set_failure_state agent session (if ok then settled else settled\<lparr>sn_next := Some (fw_now w1)\<rparr>) w1))))"

text \<open>A pass; the order in which the map of sessions is walked is an argument.\<close>

definition sweep_failures :: "replayer \<Rightarrow> int \<times> int \<Rightarrow> diag_row list \<Rightarrow> (string \<times> string) list \<Rightarrow> sweep_world \<Rightarrow> sweep_world" where
  "sweep_failures turn knobs rows walked w =
     (case knobs of (base, cap) \<Rightarrow>
        (let newest = failure_pages failure_scan_page_size (fw_now w - failure_scan_window_for base cap) rows 0 Map.empty;
             visit = (\<lambda>(agent, session) x.
               case newest (agent, session) of
                 None \<Rightarrow> x
               | Some r \<Rightarrow> if should_scan (failure_state agent session x) (dr_id r) (fw_now w)
                           then handle_failure_session turn base cap agent session (dr_id r) x else x)
         in prune_failure_states (fold visit walked w)))"

section \<open>Every failed session is looked at\<close>

lemma later_part:
  assumes "sorted_wrt (\<lambda>a b. dr_id a < dr_id b) xs" and "0 < n" "n \<le> length xs"
  shows "List.filter (\<lambda>r. dr_id r > dr_id (xs ! (n - 1))) xs = drop n xs"
proof -
  have nth: "i < j \<Longrightarrow> j < length xs \<Longrightarrow> dr_id (xs ! i) < dr_id (xs ! j)" for i j
    using assms(1) by (simp add: sorted_wrt_iff_nth_less)
  have "List.filter (\<lambda>r. dr_id r > dr_id (xs ! (n - 1))) (take n xs) = []"
  proof -
    have "\<not> dr_id (xs ! i) > dr_id (xs ! (n - 1))" if "i < n" for i
    proof -
      have "i < n - 1 \<or> i = n - 1" using that by arith
      then show ?thesis using nth [of i "n - 1"] assms(2,3) by fastforce
    qed
    then show ?thesis using assms(3) by (auto simp: filter_empty_conv in_set_conv_nth)
  qed
  moreover have "List.filter (\<lambda>r. dr_id r > dr_id (xs ! (n - 1))) (drop n xs) = drop n xs"
    using nth [of "n - 1"] assms(2) by (auto simp: filter_id_conv in_set_conv_nth)
  ultimately show ?thesis by (metis append_take_drop_id append_Nil filter_append)
qed

lemma strictly_sorted:
  assumes "distinct (map dr_id rows)"
  shows "sorted_wrt (\<lambda>a b. dr_id a < dr_id b) (sort_key dr_id (List.filter P rows))"
proof -
  let ?xs = "sort_key dr_id (List.filter P rows)"
  have "distinct (map dr_id (List.filter P rows))" using assms by (rule distinct_map_filter)
  then have "distinct (map dr_id ?xs)" by (simp add: distinct_map)
  moreover have "sorted (map dr_id ?xs)" by simp
  ultimately have "sorted_wrt (<) (map dr_id ?xs)" by (metis strict_sorted_iff)
  then show ?thesis by (simp add: sorted_wrt_map)
qed

lemma last_of_page: "0 < n \<Longrightarrow> n \<le> length xs \<Longrightarrow> last (take n xs) = xs ! (n - 1)"
  by (subst last_conv_nth) (auto simp: min_absorb2)

lemma pages_complete:
  "distinct (map dr_id rows) \<Longrightarrow> 0 < pg \<Longrightarrow> failure_pages pg since rows a seen
    = fold newest_row (sort_key dr_id (List.filter (\<lambda>r. recoverable since r \<and> dr_id r > a) rows)) seen"
proof (induction pg since rows a seen rule: failure_pages.induct)
  case (1 pg since rows a seen)
  let ?all = "\<lambda>a. sort_key dr_id (List.filter (\<lambda>r. recoverable since r \<and> dr_id r > a) rows)"
  let ?page = "list_recoverable_call_failures since a pg rows"
  have page: "?page = take pg (?all a)" by (simp add: list_recoverable_call_failures_def)
  show ?case
  proof (cases "length ?page < pg")
    case True
    then have "?page = ?all a" unfolding page by simp
    with True show ?thesis by (simp add: failure_pages.simps [of pg since rows a] Let_def)
  next
    case False
    then have len: "pg \<le> length (?all a)" by (simp add: page)
    have lst: "last ?page = ?all a ! (pg - 1)" 
      unfolding page by (rule last_of_page [OF 1(3) len])
    have "dr_id (last ?page) > a" using last_in_set [of ?page] False 1(3) page_beyond by (metis length_0_conv not_less)
    then have "?all (dr_id (last ?page)) = List.filter (\<lambda>r. dr_id r > dr_id (last ?page)) (?all a)"
      by (simp add: filter_sort) (rule arg_cong [of _ _ "sort_key dr_id"], rule filter_cong, auto)
    also have "\<dots> = drop pg (?all a)"
      unfolding lst by (rule later_part [OF strictly_sorted [OF 1(2)] 1(3) len])
    finally have rest: "?all (dr_id (last ?page)) = drop pg (?all a)" .
    have "failure_pages pg since rows a seen = failure_pages pg since rows (dr_id (last ?page)) (fold newest_row ?page seen)"
      using False 1(3) by (simp add: failure_pages.simps [of pg since rows a] Let_def)
    also have "\<dots> = fold newest_row (drop pg (?all a)) (fold newest_row (take pg (?all a)) seen)"
      using 1(1) [OF refl refl _ 1(2) 1(3)] False 1(3) unfolding rest by (simp add: page)
    finally show ?thesis by (metis append_take_drop_id comp_apply fold_append)
  qed
qed

lemma fold_newest_none: "fold newest_row xs m k = None \<longleftrightarrow> m k = None \<and> (\<forall>r \<in> set xs. (dr_agent r, dr_session r) \<noteq> k)"
  by (induction xs arbitrary: m) (auto simp: newest_row_def)

lemma fold_newest_some:
  "sorted_wrt (\<lambda>a b. dr_id a < dr_id b) xs \<Longrightarrow> fold newest_row xs Map.empty k = Some r \<longleftrightarrow>
     r \<in> set xs \<and> (dr_agent r, dr_session r) = k \<and> (\<forall>r' \<in> set xs. (dr_agent r', dr_session r') = k \<longrightarrow> dr_id r' \<le> dr_id r)"
proof (induction xs rule: rev_induct)
  case (snoc x xs)
  have s: "sorted_wrt (\<lambda>a b. dr_id a < dr_id b) xs" "\<forall>r \<in> set xs. dr_id r < dr_id x"
    using snoc.prems by (auto simp: sorted_wrt_append)
  have "fold newest_row (xs @ [x]) Map.empty k = (if (dr_agent x, dr_session x) = k then Some x else fold newest_row xs Map.empty k)"
    by (simp add: newest_row_def)
  with snoc.IH [OF s(1)] s(2) show ?case by auto
qed simp

text \<open>
  C35. However many failed calls the window holds, a pass finds for every session exactly its latest
  failed call: the loop over the pages ends and misses nothing.
\<close>
theorem every_failed_session_is_found:
  assumes "distinct (map dr_id rows)"
  shows "failure_pages failure_scan_page_size since rows 0 Map.empty (agent, session) = Some r \<longleftrightarrow>
    r \<in> set rows \<and> recoverable since r \<and> dr_id r > 0 \<and> dr_agent r = agent \<and> dr_session r = session
    \<and> list_all (\<lambda>r'. recoverable since r' \<and> dr_agent r' = agent \<and> dr_session r' = session \<longrightarrow> dr_id r' \<le> dr_id r) rows"
proof -
  have "0 < failure_scan_page_size" by (simp add: failure_scan_page_size_def)
  note eq = pages_complete [OF assms this, of since 0 Map.empty]
  show ?thesis
    unfolding eq fold_newest_some [OF strictly_sorted [OF assms]] by (fastforce simp: list_all_iff)
qed

theorem every_failed_session_is_found_witness:
  "(let r = (\<lambda>i. \<lparr>dr_id = i, dr_agent = ''bot'', dr_session = ''s1'', dr_status = ''error'', dr_created = 0\<rparr>)
    in failure_pages failure_scan_page_size 0 [r 2, r 1] 0 Map.empty (''bot'', ''s1'') = Some (r 2))"
  unfolding Let_def by (subst every_failed_session_is_found) (simp_all add: recoverable_def)

end
