(* ===== verification/Failure_Laws.thy ===== *)
theory Failure_Laws
  imports Failure_Sweep
begin

text \<open>
  What the failure sweep relies on and promises: which histories the turns leave, how often a request
  is replayed, and what counts as a success. Turns and sweep are put together here.
\<close>

section \<open>Links of a chain\<close>

text \<open>A notice that says that tools ran does not stand directly behind a message of the user.\<close>

definition safe_pair :: "message \<Rightarrow> message \<Rightarrow> bool" where
  "safe_pair u n = (mg_role u = ''user'' \<and> is_failure_notice (mg_origin n) \<longrightarrow> tools_executed_of n \<le> 0)"

definition links_safe :: "message list \<Rightarrow> bool" where
  "links_safe ms = successively safe_pair ms"

lemma walk_replayable:
  "walk_chain rs k b = Some (txt, n, b') \<Longrightarrow> successively (\<lambda>n u. safe_pair u n) rs \<Longrightarrow> b' = b"
proof (induction rs k b rule: walk_chain.induct)
  case (1 notice user rest retries replayable)
  let ?r = "replayable \<and> \<not> tools_executed_of notice > 0"
  have c: "is_failure_notice (mg_origin notice)" "mg_role user = ''user''" "\<not> is_failure_notice (mg_origin user)"
    using 1(2) by (auto simp: Let_def split: if_splits)
  have r: "?r = replayable" using 1(3) c by (auto simp: safe_pair_def)
  have rest: "successively (\<lambda>n u. safe_pair u n) rest" using 1(3) by (cases rest) auto
  show ?case
  proof (cases "failure_retry_turn user (text_content user)")
    case True
    with 1(2) c r have "walk_chain rest (Suc retries) ?r = Some (txt, n, b')" by (simp add: Let_def split: if_splits)
    with 1(1) [OF _ refl _ refl True _ rest] c r show ?thesis by (auto simp: Let_def)
  next
    case False
    with 1(2) c r show ?thesis by (auto simp: Let_def split: if_splits)
  qed
qed simp_all

lemma safe_chain_replayable:
  assumes "links_safe ms" and "analyze_failure_chain ms = Some c"
  shows "fc_replayable c"
proof -
  have "successively (\<lambda>n u. safe_pair u n) (rev ms)" using assms(1) by (simp add: links_safe_def)
  with assms(2) walk_replayable [of "rev ms" 0 True] show ?thesis
    by (auto simp: analyze_failure_chain_def split: if_splits option.splits prod.splits)
qed

lemma stamp_keeps [simp]:
  "mg_role (stamp_message w s m) = mg_role m" "mg_origin (stamp_message w s m) = mg_origin m"
  "mg_meta (stamp_message w s m) = mg_meta m"
  by (simp_all add: stamp_message_def Let_def)

lemma links_append:
  assumes "links_safe (ss_messages (snd x))"
    and "is_failure_notice (mg_origin m) \<and> tools_executed_of m > 0 \<Longrightarrow> ss_messages (snd x) \<noteq> []
         \<Longrightarrow> mg_role (last (ss_messages (snd x))) \<noteq> ''user''"
  shows "links_safe (ss_messages (snd (append_message m x)))"
proof -
  have "tools_executed_of (stamp_message w s m) = tools_executed_of m" for w s by (simp add: tools_executed_of_def)
  with assms show ?thesis
    by (force simp: append_message_messages links_safe_def successively_append_iff safe_pair_def)
qed

section \<open>A turn\<close>

definition links_ok :: "session_state \<Rightarrow> bool" where
  "links_ok x = (links_safe (ss_messages (snd x)) \<and> ss_steer (snd x) = [])"

text \<open>The last message is not the user's.\<close>

definition tail_ok :: "session_state \<Rightarrow> bool" where
  "tail_ok x = (links_ok x \<and> ss_messages (snd x) \<noteq> [] \<and> mg_role (last (ss_messages (snd x))) \<noteq> ''user'')"

definition turn_ok :: "turn_state \<Rightarrow> bool" where
  "turn_ok t = (links_ok (ts_state t) \<and> (ts_total t = 0 \<or> tail_ok (ts_state t)))"

lemma tail_links: "tail_ok x \<Longrightarrow> links_ok x"
  by (simp add: tail_ok_def)

lemma tail_turn: "tail_ok (ts_state t) \<Longrightarrow> turn_ok t"
  by (simp add: turn_ok_def tail_ok_def)

lemma ordinary_ok: "links_ok x \<Longrightarrow> \<not> is_failure_notice (mg_origin m) \<Longrightarrow> links_ok (append_message m x)"
  using links_append [of x m] by (simp add: links_ok_def)

lemma reply_ok: "links_ok x \<Longrightarrow> \<not> is_failure_notice (mg_origin m) \<Longrightarrow> mg_role m \<noteq> ''user'' \<Longrightarrow> tail_ok (append_message m x)"
  using ordinary_ok [of x m] by (simp add: tail_ok_def append_message_messages)

lemma made_by_agent [simp]:
  "mg_role (assistant_message now meta r calls) = ''assistant''" "\<not> is_failure_notice (mg_origin (assistant_message now meta r calls))"
  "mg_role (system_message s) = ''system''" "\<not> is_failure_notice (mg_origin (system_message s))"
  "\<not> is_failure_notice []"
  by (simp_all add: assistant_message_def system_message_def blank_message_def is_failure_notice_def)

lemma fold_replies_ok:
  "links_ok x \<Longrightarrow> list_all (\<lambda>m. mg_role m \<noteq> ''user'' \<and> \<not> is_failure_notice (mg_origin m)) ms \<Longrightarrow> ms \<noteq> []
   \<Longrightarrow> tail_ok (fold append_message ms x)"
proof (induction ms arbitrary: x)
  case (Cons m ms)
  then have "tail_ok (append_message m x)" by (intro reply_ok) simp_all
  with Cons.IH [OF tail_links [OF this]] Cons.prems(2) show ?case by (cases "ms = []") simp_all
qed simp

lemma state_fold_record:
  "ts_state (fold record_only ms t) = fold append_message ms (ts_state t)" "ts_total (fold record_only ms t) = ts_total t"
  "ts_state (fold tell_and_record ms t) = fold append_message ms (ts_state t)"
  by (induction ms arbitrary: t) (simp_all add: record_only_def tell_and_record_def tell_def)

lemma no_arrivals: "arrive [] t = t"
  by (cases "ts_state t") (simp add: arrive_def)

lemma nothing_to_fold: "links_ok (ts_state t) \<Longrightarrow> fold_in_steer t = t"
  by (simp add: fold_in_steer_def links_ok_def drain_steer_def)

lemma process_results_tail:
  "tail_ok (ts_state t) \<Longrightarrow>
   (case process_results env rs cs b t of Inl (_, t') \<Rightarrow> tail_ok (ts_state t') | Inr t' \<Rightarrow> tail_ok (ts_state t'))"
proof (induction rs arbitrary: cs b t)
  case (Cons r rs)
  show ?case
  proof (cases cs)
    case Nil
    with Cons.prems show ?thesis by simp
  next
    case c: (Cons c ds)
    from process_results_step [of env r rs c ds b t] show ?thesis
    proof (elim disjE exE conjE)
      fix t1 assume "process_results env (r # rs) (c # ds) b t = Inr t1" "ts_state t1 = ts_state t"
      with Cons.prems c show ?thesis by simp
    next
      fix b' t2 m
      assume *: "process_results env (r # rs) (c # ds) b t = process_results env rs ds b' (tell_and_record m t2)"
        "ts_state t2 = ts_state t" "is_tool m" "mg_origin m = []"
      have "tail_ok (ts_state (tell_and_record m t2))"
        using reply_ok [OF tail_links [OF Cons.prems], of m] * by (simp add: is_tool_def)
      with Cons.IH * c show ?thesis by simp
    qed
  qed
qed simp

definition no_steer :: "'e turn_env \<Rightarrow> bool" where
  "no_steer env = (\<forall>i. tv_steer env i = [])"

lemma call_round_tail:
  assumes ok: "links_ok (ts_state t)" and quiet: "no_steer env"
  shows "case call_round env i r t of Next t' \<Rightarrow> turn_ok t' | Break t' \<Rightarrow> links_ok (ts_state t') | Stop e t' \<Rightarrow> links_ok (ts_state t')"
proof -
  define t2 where "t2 = tell_and_record (assistant_message (turn_now t) (tv_meta env i) r (rp_calls r))
    (if rp_text r \<noteq> [] then add_part (rp_text r) t else t)"
  have tail2: "tail_ok (ts_state t2)" using ok by (simp add: t2_def reply_ok)
  obtain b t3 where loop: "detect_loop (rp_calls r) t2 = (b, t3)" by (metis surj_pair)
  show ?thesis
  proof (cases b)
    case True
    with detect_loop_state [OF loop] tail2 have "links_ok (ts_state t3)" by (auto intro: ordinary_ok tail_links)
    with loop True show ?thesis by (simp add: call_round_def Let_def flip: t2_def)
  next
    case False
    with detect_loop_state [OF loop] tail2 have tail3: "tail_ok (ts_state t3)" by simp
    obtain results prompted where out: "round_outcome env i (rp_calls r) = (results, prompted)" by (metis surj_pair)
    show ?thesis
    proof (cases "process_results env results (rp_calls r) (results \<noteq> []) t3")
      case (Inl p)
      obtain all_failed t4 where p: "p = (all_failed, t4)" by (cases p)
      define t5 where "t5 = t4\<lparr>ts_failed_rounds := (if all_failed then Suc (ts_failed_rounds t4) else 0)\<rparr>"
      have tail5: "tail_ok (ts_state t5)" using process_results_tail [OF tail3, of env results "rp_calls r" "results \<noteq> []"] Inl p
        by (simp add: t5_def)
      have "call_round env i r t = (if prompted then Stop (Ended (join_reply_parts (ts_parts t5))) t5 else Next t5)"
        using loop False out Inl p quiet nothing_to_fold [OF tail_links [OF tail5]]
        by (simp add: call_round_def Let_def no_steer_def no_arrivals flip: t2_def t5_def)
      with tail5 show ?thesis by (auto intro: tail_links tail_turn)
    next
      case (Inr t4)
      with process_results_tail [OF tail3, of env results "rp_calls r" "results \<noteq> []"] loop False out show ?thesis
        by (simp add: call_round_def Let_def tail_links flip: t2_def)
    qed
  qed
qed

lemma turn_ok_cong: "ts_state t' = ts_state t \<Longrightarrow> ts_total t' = ts_total t \<Longrightarrow> turn_ok t' = turn_ok t"
  by (simp add: turn_ok_def)

lemma text_round_tail:
  assumes ok: "turn_ok t" and quiet: "no_steer env"
  shows "case text_round env i r t of Next t' \<Rightarrow> turn_ok t' | Break t' \<Rightarrow> False | Stop e t' \<Rightarrow> links_ok (ts_state t')"
proof -
  let ?asst = "assistant_message (turn_now t) (tv_meta env i) r []"
  have links: "links_ok (ts_state t)" using ok by (simp add: turn_ok_def)
  have tail: "tail_ok (append_message ?asst (ts_state t))" using links by (simp add: reply_ok)
  show ?thesis
  proof (cases "trim_space (rp_text r) = []")
    case True
    have "turn_ok (tell empty_response_nudge (t\<lparr>ts_empty := True\<rparr>))" using ok turn_ok_cong [of _ t] by (simp add: tell_def turn_ok_def)
    with True links show ?thesis by (simp add: text_round_def)
  next
    case spoken: False
    show ?thesis
    proof (cases "\<not> ts_trunc t \<and> looks_truncated r (tv_max_tokens env)")
      case True
      with spoken tail show ?thesis by (simp add: text_round_def Let_def tail_turn record_only_def add_part_def tell_def)
    next
      case False
      let ?t1 = "add_part (rp_text r) (record_only ?asst t)"
      have "links_ok (ts_state ?t1)" using tail by (simp add: tail_links)
      then have "fst (drain_steer (snd (ts_state ?t1))) = []" by (simp add: links_ok_def drain_steer_def)
      moreover have "tv_steer env i = []" using quiet by (simp add: no_steer_def)
      ultimately have "text_round env i r t = Stop (Ended (join_reply_parts (ts_parts ?t1))) ?t1"
        unfolding text_round_def if_not_P [OF spoken] Let_def if_not_P [OF False] by (simp add: no_arrivals)
      with tail show ?thesis by (simp add: tail_links)
    qed
  qed
qed

lemma notice_count [simp]: "tools_executed_of (turn_error_message notice cat k) = int k"
  by (simp add: turn_error_message_def tools_executed_of_def blank_message_def)

lemma fail_turn_links:
  assumes "turn_ok t"
  shows "case fail_turn env e t of Next t' \<Rightarrow> False | Break t' \<Rightarrow> False | Stop r t' \<Rightarrow> links_ok (ts_state t')"
proof -
  have "links_ok (append_message (turn_error_message notice cat (ts_total t)) (ts_state t))" for notice cat
    using assms links_append [of "ts_state t" "turn_error_message notice cat (ts_total t)"]
    by (auto simp: turn_ok_def links_ok_def tail_ok_def)
  with assms show ?thesis by (simp add: fail_turn_def turn_ok_def split: prod.split)
qed

lemma turn_round_links:
  assumes ok: "turn_ok t" and quiet: "no_steer env"
  shows "case turn_round env i t of Next t' \<Rightarrow> turn_ok t' | Break t' \<Rightarrow> links_ok (ts_state t') | Stop e t' \<Rightarrow> links_ok (ts_state t')"
proof -
  define h where "h = tv_hook env i (ts_messages t)"
  define ms1 where "ms1 = concat (map (synthetic_pair (turn_now t)) (ho_synthetic h))"
  define t1 where "t1 = fold record_only ms1 t"
  have plain: "list_all (\<lambda>m. mg_role m \<noteq> ''user'' \<and> \<not> is_failure_notice (mg_origin m)) ms1"
    by (auto simp: ms1_def list_all_iff synthetic_pair_def blank_message_def)
  have ok1: "turn_ok t1"
  proof (cases "ms1 = []")
    case False
    with fold_replies_ok [OF _ plain] ok show ?thesis by (intro tail_turn) (simp add: t1_def state_fold_record turn_ok_def)
  qed (use ok in \<open>simp add: t1_def\<close>)
  obtain ct t3 where ct: "choose_tools (tv_tools env) (t1\<lparr>ts_messages := ho_messages h\<rparr>) = (ct, t3)" by (metis surj_pair)
  have total3: "ts_total t3 = ts_total t1" using ct by (auto simp: choose_tools_def Let_def tell_def split: if_splits prod.splits)
  have ok3: "turn_ok t3" using choose_tools_state [OF ct] total3 ok1 by (simp add: turn_ok_def)
  obtain answer ms where ask: "tv_ask env i (ts_messages t3) ct = (answer, ms)" by (metis surj_pair)
  let ?t4 = "t3\<lparr>ts_messages := ms\<rparr>"
  have ok4: "turn_ok ?t4" using ok3 by (simp add: turn_ok_def)
  have links: "links_ok (ts_state t1)" "links_ok (ts_state ?t4)" using ok1 ok4 by (simp_all add: turn_ok_def)
  note unfold = turn_round_def Let_def h_def [symmetric] ms1_def [symmetric] t1_def [symmetric]
  consider (skip) reply where "ho_skip h = Some reply" | (none) "ho_skip h = None" "\<not> tv_has_provider env"
    | (failed) e where "ho_skip h = None" "tv_has_provider env" "answer = Inl e"
    | (answered) r where "ho_skip h = None" "tv_has_provider env" "answer = Inr r"
    by (cases "ho_skip h"; cases answer) auto
  then show ?thesis
  proof cases
    case skip
    with links show ?thesis by (simp add: unfold)
  next
    case none
    with links show ?thesis by (simp add: unfold)
  next
    case failed
    with fail_turn_links [OF ok4, of env e] ct ask show ?thesis by (simp add: unfold split: round_end.splits)
  next
    case answered
    with text_round_tail [OF ok4 quiet, of i r] call_round_tail [OF links(2) quiet, of i r] ct ask show ?thesis
      by (cases "rp_calls r = []") (auto simp: unfold split: round_end.splits)
  qed
qed

lemma final_links: "links_ok (ts_state t) \<Longrightarrow> links_ok (ts_state (snd (final_delivery env t)))"
  by (simp add: final_delivery_def Let_def) (intro conjI impI ordinary_ok, simp_all add: blank_message_def)

lemma react_loop_links: "turn_ok t \<Longrightarrow> no_steer env \<Longrightarrow> links_ok (ts_state (snd (react_loop env k i t)))"
proof (induction k arbitrary: i t)
  case 0
  then show ?case by (simp add: final_links turn_ok_def)
next
  case (Suc k)
  with turn_round_links [OF Suc.prems, of i] show ?case by (auto simp: final_links split: round_end.splits)
qed

lemma run_approved_links: "turn_ok t \<Longrightarrow> turn_ok (run_approved env synth raw calls t)"
proof (cases "calls = []")
  case False
  assume "turn_ok t"
  then have links: "links_ok (ts_state t)" by (simp add: turn_ok_def)
  show ?thesis
    unfolding run_approved_def if_not_P [OF False] Let_def
    by (rule tail_turn) (auto simp: state_fold_record list_all_iff blank_message_def intro!: fold_replies_ok [OF links] simp del: fold.simps)
qed (simp add: run_approved_def)

section \<open>The end of a turn\<close>

lemma claim_links: "links_ok x \<Longrightarrow> links_ok (claim_abort note x)"
proof -
  assume ok: "links_ok x"
  have "links_ok (append_message (abort_marker note\<lparr>mg_meta := m\<rparr>) x)" for m
    by (rule ordinary_ok [OF ok]) (simp add: abort_marker_def blank_message_def is_failure_notice_def)
  with ok show ?thesis by (cases x) (simp add: claim_abort_def append_claim_once_def)
qed

lemma fold_pads_links: "links_ok x \<Longrightarrow> links_ok (fold (\<lambda>c. append_message (pad_message txt c)) cs x)"
proof (induction cs arbitrary: x)
  case (Cons c cs)
  have "links_ok (append_message (pad_message txt c) x)"
    by (rule ordinary_ok [OF Cons.prems]) (simp add: pad_message_def blank_message_def)
  from Cons.IH [OF this] show ?case by simp
qed simp

lemma end_of_turn_links:
  assumes ok: "links_ok x"
  shows "links_ok (end_of_turn x)"
proof -
  obtain w s where x: "x = (w, s)" by (cases x)
  obtain b y where pad: "pad_orphan_tool_results tool_result_stopped_note x = (b, y)" by (metis surj_pair)
  then have "links_ok y"
    using ok fold_pads_links [of "(w, s)" tool_result_stopped_note]
    by (auto simp: pad_orphan_tool_results_def Let_def x split: option.splits prod.splits)
  then have z: "links_ok (pad_and_mark_aborted tool_result_stopped_note x)"
    using pad by (cases b) (simp_all add: pad_and_mark_aborted_def claim_links)
  moreover have "flush_leftover_steer v = (fst v, snd v\<lparr>ss_depth := ss_depth (snd v) - 1\<rparr>)" if "links_ok v" for v
    using that by (cases v) (simp add: flush_leftover_steer_def end_turn_def links_ok_def)
  ultimately show ?thesis by (simp add: end_of_turn_def links_ok_def)
qed

definition uncompacted :: "turn_input \<Rightarrow> session_state \<Rightarrow> bool" where
  "uncompacted inp x =
     (let y = fold append_message (ti_cards inp @ [ti_user inp]) x
      in \<not> cr_pruned (compact_messages (ti_summary inp) (turn_compaction_threshold (ti_threshold inp) y) (ss_messages (snd y))))"

text \<open>
  Without steering messages the sweep never sees a chain that it must not replay: when a turn fails
  after its tools ran, the notice does not stand behind a message of the user, and the analysis finds
  no chain at all. The notification about such failures is never sent.
\<close>
lemma chains_are_replayable_without_steering:
  assumes "links_safe (ss_messages s)" and "ss_steer s = []" and "no_steer env"
    and "list_all (\<lambda>m. \<not> is_failure_notice (mg_origin m)) (ti_cards inp @ [ti_user inp])"
    and "uncompacted inp (w, begin_turn (set_provider_model (ti_provider inp) (ti_model inp) s))"
    and "handle_turn env inp (w, s) = (r, (w', s'))"
  shows "links_safe (ss_messages s') \<and> ss_steer s' = []
    \<and> (\<forall>c. analyze_failure_chain (ss_messages s') = Some c \<longrightarrow> fc_replayable c)"
proof -
  let ?s1 = "set_provider_model (ti_provider inp) (ti_model inp) s"
  have ok: "links_ok (w, s)" using assms(1,2) by (simp add: links_ok_def)
  have "links_ok (w', s')"
  proof (cases "ti_retry inp \<and> ss_depth ?s1 > 0")
    case True
    with assms(6) ok show ?thesis by (auto simp: handle_turn_def Let_def links_ok_def set_provider_model_def)
  next
    case False
    let ?x = "(w, begin_turn ?s1)"
    have ok1: "links_ok ?x" using ok by (simp add: links_ok_def set_provider_model_def begin_turn_def)
    have fold_ok: "list_all (\<lambda>m. \<not> is_failure_notice (mg_origin m)) ms \<Longrightarrow> links_ok x \<Longrightarrow> links_ok (fold append_message ms x)" for ms x
      by (induction ms arbitrary: x) (simp_all add: ordinary_ok)
    have "turn_ok (start_turn inp ?x)"
      using fold_ok [OF assms(4) ok1] assms(5)
      by (simp add: start_turn_def uncompacted_def compact_before_turn_def Let_def turn_ok_def del: fold_append)
    note start = run_approved_links [OF this]
    obtain e t' where loop: "react_loop env (tv_max_iterations env) 0
        (run_approved env (ti_synth inp) (ti_raw inp) (ti_approved inp) (start_turn inp ?x)) = (e, t')"
      by (metis surj_pair)
    with react_loop_links [OF start assms(3)] have "links_ok (ts_state t')" by (metis snd_conv)
    moreover have "(w', s') = end_of_turn (ts_state t')"
      using assms(6) loop unfolding handle_turn_def prod.case Let_def if_not_P [OF False] by simp
    ultimately show ?thesis by (simp add: end_of_turn_links)
  qed
  then show ?thesis using safe_chain_replayable by (auto simp: links_ok_def)
qed

text \<open>A provider that fails at the second call of a turn whose first call asked for a tool.\<close>

definition failing_env :: "unit turn_env" where
  "failing_env = (example_env (\<lambda>cs. []))\<lparr>tv_ask := (\<lambda>i ms tools. (if i = 0 then Inr (example_reply 0) else Inl (), ms)),
     tv_notice := (\<lambda>e. (''failed'', ''provider''))\<rparr>"

theorem chains_are_replayable_without_steering_witness:
  "links_safe (ss_messages (snd (snd (handle_turn failing_env example_input (empty_world 9, fresh_session ''s'' ''web'' [] ''s'' [])))))"
proof -
  let ?s = "fresh_session ''s'' ''web'' [] ''s'' []"
  obtain r w' s' where run: "handle_turn failing_env example_input (empty_world 9, ?s) = (r, (w', s'))" by (metis surj_pair)
  have "uncompacted example_input (empty_world 9, begin_turn (set_provider_model (ti_provider example_input) (ti_model example_input) ?s))"
    by (simp add: uncompacted_def example_input_def empty_world_def fresh_session_def begin_turn_def set_provider_model_def
        append_message_def stamp_message_def blank_message_def compact_messages_def estimate_tokens_def Let_def
        turn_compaction_threshold_def parent_prefix_messages_def estimate_message_def)
  from chains_are_replayable_without_steering [OF _ _ _ _ this run]
  have "links_safe (ss_messages s')"
    by (simp add: fresh_session_def links_safe_def no_steer_def failing_env_def example_env_def example_input_def is_failure_notice_def blank_message_def)
  with run show ?thesis by simp
qed

section \<open>Success\<close>

text \<open>A failure after tools ran: the notice stands behind a message of the turn.\<close>

lemma failure_after_tools:
  assumes "turn_ok t" and "ts_total t > 0" and "\<not> tv_canceled env e"
  shows "\<exists>r t' before m n. fail_turn env e t = Stop r t' \<and> ss_messages (snd (ts_state t')) = before @ [m, n]
    \<and> mg_role m \<noteq> ''user'' \<and> is_failure_notice (mg_origin n)"
proof -
  have "ss_messages (snd (ts_state t)) \<noteq> []" "mg_role (last (ss_messages (snd (ts_state t)))) \<noteq> ''user''"
    using assms(1,2) by (auto simp: turn_ok_def tail_ok_def)
  then obtain before m where "ss_messages (snd (ts_state t)) = before @ [m]" "mg_role m \<noteq> ''user''"
    by (metis append_butlast_last_id)
  moreover have "is_failure_notice (mg_origin (turn_error_message notice cat k))" for notice cat k
    by (simp add: turn_error_message_def is_failure_notice_def)
  ultimately show ?thesis using assms(3) by (auto simp: fail_turn_def append_message_messages split: prod.split)
qed

lemma no_chain_behind_work: "mg_role m \<noteq> ''user'' \<Longrightarrow> analyze_failure_chain (before @ [m, n]) = None"
  by (simp add: analyze_failure_chain_def Let_def)

text \<open>
  A replay that itself fails after tools ran is announced as a success: the analysis finds no chain
  at the end of such a history, and the sweep takes that for a recovered conversation. The session is
  settled, and nobody hears of the failure.
\<close>
lemma failed_replay_is_announced_as_recovered:
  assumes "fw_history w agent session = Some ms" and "analyze_failure_chain ms = Some c" and "fc_replayable c"
    and "int (fc_retries c) < cap" and "fc_last_at c + shift_left base (fc_retries c) \<le> fw_now w" and "\<not> fw_busy w agent session"
    and "fw_notified w (scan_key agent session @ ''|recovered'') = None"
    and "turn agent session (replay_text (Suc (fc_retries c)) (fc_text c)) ms = before @ [m, n]"
    and "mg_role m \<noteq> ''user''" and "is_failure_notice (mg_origin n)"
  shows "fw_told (handle_failure_session turn base cap agent session up_to w) = fw_told w @ [(agent, session, Recovered)]
    \<and> failure_state agent session (handle_failure_session turn base cap agent session up_to w)
      = \<lparr>sn_handled = up_to, sn_next = None, sn_seen = fw_now w\<rparr>"
proof -
  have after: "analyze_failure_chain (turn agent session (replay_text (Suc (fc_retries c)) (fc_text c)) ms) = None"
    using assms(8,9) no_chain_behind_work by metis
  have "\<not> fw_now w < fc_last_at c + shift_left base (fc_retries c)" "\<not> int (fc_retries c) \<ge> cap" using assms(4,5) by simp_all
  with assms(1-3,6,7) after show ?thesis
    by (simp add: handle_failure_session_def Let_def replay_failed_turn_def notify_failure_once_def event_name_def claim_failure_notice_def
        set_failure_state_def failure_state_def)
qed

definition failed_exchange :: "message list" where
  "failed_exchange = [blank_message ''user'' ''go'', (turn_error_message ''failed'' ''provider'' 0)\<lparr>mg_timestamp := 1\<rparr>]"

definition calm_world :: "message list \<Rightarrow> int \<Rightarrow> sweep_world" where
  "calm_world ms now = \<lparr>fw_now = now, fw_history = (\<lambda>agent session. Some ms), fw_busy = (\<lambda>agent session. False), fw_scan = Map.empty,
     fw_notified = Map.empty, fw_saved = Map.empty, fw_told = []\<rparr>"

definition breaking_replay :: replayer where
  "breaking_replay agent session txt ms =
     (ms @ [blank_message ''user'' txt, (blank_message ''assistant'' [])\<lparr>mg_calls := [one_call]\<rparr>])
     @ [(blank_message ''tool'' ''ok'')\<lparr>mg_call_id := ''a''\<rparr>, turn_error_message ''failed'' ''provider'' 1]"

lemma strip_plain: "\<not> has_prefix s ''[Attached:'' \<Longrightarrow> strip_attached_prefix s = s"
  by (subst strip_attached_prefix.simps) simp

lemma failed_exchange_chain:
  "analyze_failure_chain failed_exchange
   = Some \<lparr>fc_text = ''go'', fc_retries = 0, fc_replayable = True, fc_last_at = 1000000, fc_category = ''provider''\<rparr>"
proof -
  have tag: "\<not> has_prefix ''go'' failure_retry_tag"
    by (simp add: failure_retry_tag_def utf8_def encode_rune_def has_prefix_def)
  have spoken: "text_content (blank_message ''user'' ''go'') = ''go''"
    by (simp add: text_content_def blank_message_def strip_plain has_prefix_def)
  have retry: "\<not> failure_retry_turn (blank_message ''user'' ''go'') ''go''"
    using tag by (simp add: failure_retry_turn_def blank_message_def)
  have parts: "is_failure_notice (mg_origin (turn_error_message ''failed'' ''provider'' 0))"
    "mg_meta (turn_error_message ''failed'' ''provider'' 0) = Some [(''turnError'', GStr ''provider''), (''toolsExecuted'', GInt 0)]"
    "mg_role (blank_message ''user'' ''go'') = ''user''" "\<not> is_failure_notice (mg_origin (blank_message ''user'' ''go''))"
    by (simp_all add: turn_error_message_def is_failure_notice_def blank_message_def)
  have zero: "tools_executed_of ((turn_error_message ''failed'' ''provider'' 0)\<lparr>mg_timestamp := 1\<rparr>) = 0"
    by (simp add: tools_executed_of_def parts)
  show ?thesis
    by (simp add: analyze_failure_chain_def failed_exchange_def Let_def parts zero spoken retry as_str_def)
qed

theorem failed_replay_is_announced_as_recovered_witness:
  "fw_told (handle_failure_session breaking_replay (15 * minute_ns) 3 ''bot'' ''s1'' 7 (calm_world failed_exchange hour_ns)) = [(''bot'', ''s1'', Recovered)]"
proof -
  let ?w = "calm_world failed_exchange hour_ns"
  have w: "fw_history ?w ''bot'' ''s1'' = Some failed_exchange" "fw_now ?w = hour_ns" "\<not> fw_busy ?w ''bot'' ''s1''"
    "fw_notified ?w k = None" "fw_told ?w = []" for k
    by (simp_all add: calm_world_def)
  have due: "1000000 + shift_left (15 * minute_ns) 0 \<le> hour_ns" by (simp add: shift_left_def int64_of_def minute_ns_def hour_ns_def)
  have notice: "is_failure_notice (mg_origin (turn_error_message ''failed'' ''provider'' 1))"
    by (simp add: turn_error_message_def is_failure_notice_def)
  from failed_replay_is_announced_as_recovered [OF w(1) failed_exchange_chain, of 3 "15 * minute_ns" breaking_replay,
      OF _ _ _ w(3) w(4) breaking_replay_def _ notice] due
  show ?thesis by (simp add: w blank_message_def)
qed

section \<open>The cap\<close>

lemma walk_shift:
  "walk_chain rs (k + j) (b \<and> b0) = map_option (\<lambda>(txt, n, b'). (txt, n + j, b' \<and> b0)) (walk_chain rs k b)"
proof (induction rs k b rule: walk_chain.induct)
  case (1 notice user rest k b)
  let ?b = "b \<and> \<not> tools_executed_of notice > 0"
  have swap: "((b \<and> b0) \<and> \<not> tools_executed_of notice > 0) = (?b \<and> b0)" by auto
  show ?case
  proof (cases "is_failure_notice (mg_origin notice) \<and> mg_role user = ''user'' \<and> \<not> is_failure_notice (mg_origin user)
      \<and> failure_retry_turn user (text_content user)")
    case True
    have "walk_chain rest (Suc k + j) (?b \<and> b0) = map_option (\<lambda>(txt, n, b'). (txt, n + j, b' \<and> b0)) (walk_chain rest (Suc k) ?b)"
      by (rule 1 [OF _ refl _ refl]) (use True in auto)
    with True swap show ?thesis by (simp add: Let_def)
  next
    case False
    then show ?thesis by (auto simp: Let_def)
  qed
qed simp_all

lemma walk_some: "walk_chain rs k b = Some p \<Longrightarrow> \<exists>n u rest. rs = n # u # rest \<and> is_failure_notice (mg_origin n)"
  by (cases rs; cases "tl rs") (auto split: if_splits)

lemma walk_one_more:
  assumes "walk_chain rs (Suc 0) b = Some (txt, n, b')"
  shows "\<exists>n0 b0. walk_chain rs 0 True = Some (txt, n0, b0) \<and> n = Suc n0"
  using assms walk_shift [of rs 0 "Suc 0" True b] by (cases "walk_chain rs 0 True") (auto split: prod.splits)

text \<open>A turn appends the request and what else the turn says, none of it a system replay.\<close>

definition appends_replay :: "replayer \<Rightarrow> bool" where
  "appends_replay turn \<longleftrightarrow>
     (\<forall>agent session txt ms. turn agent session txt ms = ms
        \<or> (\<exists>u later. turn agent session txt ms = ms @ u # later \<and> \<not> is_failure_notice (mg_origin u)
             \<and> (\<forall>m \<in> set later. \<not> failure_retry_turn m (text_content m))))"

lemma chain_grows_by_one:
  assumes "analyze_failure_chain (ms @ u # later) = Some c'" and "\<not> is_failure_notice (mg_origin u)"
    and "\<forall>m \<in> set later. \<not> failure_retry_turn m (text_content m)"
  shows "fc_retries c' = 0 \<or> (\<exists>c. analyze_failure_chain ms = Some c \<and> fc_retries c' = Suc (fc_retries c))"
proof -
  obtain said b where walk: "walk_chain (rev later @ u # rev ms) 0 True = Some (said, fc_retries c', b)"
    using assms(1) by (auto simp: analyze_failure_chain_def split: if_splits option.splits prod.splits)
  show ?thesis
  proof (cases "rev later")
    case Nil
    with walk assms(2) show ?thesis by (cases "rev ms") auto
  next
    case (Cons n xs)
    show ?thesis
    proof (cases xs)
      case Nil
      with walk Cons have w: "walk_chain (n # u # rev ms) 0 True = Some (said, fc_retries c', b)" by simp
      show ?thesis
      proof (cases "failure_retry_turn u (text_content u)")
        case True
        with w obtain b0 where "walk_chain (rev ms) (Suc 0) b0 = Some (said, fc_retries c', b)"
          by (auto simp: Let_def split: if_splits)
        from walk_one_more [OF this] obtain n0 b1 where "walk_chain (rev ms) 0 True = Some (said, n0, b1)" "fc_retries c' = Suc n0"
          by blast
        moreover from this have "length ms \<ge> 2" "is_failure_notice (mg_origin (last ms))"
          using walk_some [of "rev ms" 0 True] by (auto simp: rev_eq_Cons_iff)
        ultimately show ?thesis by (auto simp: analyze_failure_chain_def)
      next
        case False
        with w show ?thesis by (auto simp: Let_def split: if_splits)
      qed
    next
      case (Cons v ys)
      with \<open>rev later = n # xs\<close> have "v \<in> set later" by (metis list.set_intros set_rev)
      with assms(3) walk Cons \<open>rev later = n # xs\<close> show ?thesis by (auto simp: Let_def split: if_splits)
    qed
  qed
qed

definition chains_capped :: "int \<Rightarrow> sweep_world \<Rightarrow> bool" where
  "chains_capped cap w \<longleftrightarrow>
     (\<forall>agent session ms c. fw_history w agent session = Some ms \<longrightarrow> analyze_failure_chain ms = Some c \<longrightarrow> int (fc_retries c) \<le> cap)"

lemma history_kept [simp]:
  "fw_history (set_failure_state a s st w) = fw_history w" "fw_history (notify_failure_once a s e w) = fw_history w"
  "fw_history (prune_failure_states w) = fw_history w"
  by (simp_all add: set_failure_state_def notify_failure_once_def claim_failure_notice_def prune_failure_states_def Let_def)

lemma handle_capped:
  assumes ok: "chains_capped cap w" and turn: "appends_replay turn" and cap: "0 \<le> cap"
  shows "chains_capped cap (handle_failure_session turn base cap agent session up_to w)"
proof (cases "fw_history w agent session")
  case None
  with ok show ?thesis by (simp add: handle_failure_session_def)
next
  case (Some ms)
  show ?thesis
  proof (cases "analyze_failure_chain ms")
    case None
    with Some ok show ?thesis by (simp add: handle_failure_session_def chains_capped_def)
  next
    case chain: (Some c)
    let ?after = "turn agent session (replay_text (Suc (fc_retries c)) (fc_text c)) ms"
    let ?w1 = "w\<lparr>fw_history := (fw_history w)(agent := (fw_history w agent)(session := Some ?after))\<rparr>"
    have grow: "int (fc_retries c') \<le> cap" if few: "int (fc_retries c) < cap" and c': "analyze_failure_chain ?after = Some c'" for c'
    proof -
      consider "?after = ms" | u later where "?after = ms @ u # later" "\<not> is_failure_notice (mg_origin u)"
          "\<forall>m \<in> set later. \<not> failure_retry_turn m (text_content m)"
        using turn unfolding appends_replay_def by blast
      then show ?thesis
      proof cases
        case 1
        with few c' chain show ?thesis by simp
      next
        case 2
        from chain_grows_by_one [OF c' [unfolded 2(1)] 2(2,3)] few chain cap show ?thesis by auto
      qed
    qed
    have "chains_capped cap ?w1" if "int (fc_retries c) < cap"
      using ok grow [OF that] by (auto simp: chains_capped_def)
    then have "int (fc_retries c) < cap \<Longrightarrow> chains_capped cap (snd (replay_failed_turn turn agent session ms c w))"
      by (simp add: replay_failed_turn_def Let_def chains_capped_def)
    with Some chain ok show ?thesis
      by (cases "replay_failed_turn turn agent session ms c w")
        (auto simp: handle_failure_session_def Let_def chains_capped_def not_le)
  qed
qed

lemma sweep_capped:
  assumes ok: "chains_capped cap w" and turn: "appends_replay turn" and cap: "0 \<le> cap"
  shows "chains_capped cap (sweep_failures turn (base, cap) rows walked w)"
proof -
  have "chains_capped cap x \<Longrightarrow> chains_capped cap (fold (\<lambda>(a, s) x. case newest (a, s) of None \<Rightarrow> x
      | Some r \<Rightarrow> if should_scan (failure_state a s x) (dr_id r) now
                then handle_failure_session turn base cap a s (dr_id r) x else x) walked x)" for newest x now
  proof (induction walked arbitrary: x)
    case (Cons p walked)
    obtain a s where p: "p = (a, s)" by (cases p)
    have "chains_capped cap (case newest (a, s) of None \<Rightarrow> x
      | Some r \<Rightarrow> if should_scan (failure_state a s x) (dr_id r) now
                then handle_failure_session turn base cap a s (dr_id r) x else x)"
      using Cons.prems handle_capped [OF _ turn cap] by (auto split: option.split)
    from Cons.IH [OF this] p show ?case by simp
  qed simp
  from this [OF ok] show ?thesis by (simp add: sweep_failures_def Let_def chains_capped_def)
qed

text \<open>
  A request is replayed at most as often as the cap says: over every sequence of passes, with any
  rows, times and outcomes of the turns, no chain ever holds more replays than the cap.
\<close>
lemma replays_are_capped:
  assumes "chains_capped cap w" and "appends_replay turn" and "0 \<le> cap"
  shows "chains_capped cap (fold (\<lambda>(now, base, rows, walked) x. sweep_failures turn (base, cap) rows walked (x\<lparr>fw_now := now\<rparr>)) passes w)"
proof -
  have "chains_capped cap (x\<lparr>fw_now := now\<rparr>) = chains_capped cap x" for x now by (simp add: chains_capped_def)
  with assms show ?thesis
    by (induction passes arbitrary: w) (auto intro!: sweep_capped)
qed

text \<open>A replay that fails at once, and one pass that makes it.\<close>

definition dying_replay :: replayer where
  "dying_replay agent session txt ms =
     ms @ [(blank_message ''user'' txt)\<lparr>mg_meta := Some [(''failureRetry'', GBool True)]\<rparr>, turn_error_message ''failed'' ''provider'' 0]"

theorem replays_are_capped_witness:
  "chains_capped 3 (fold (\<lambda>(now, base, rows, walked) x. sweep_failures dying_replay (base, 3) rows walked (x\<lparr>fw_now := now\<rparr>))
     [(hour_ns, 15 * minute_ns, [\<lparr>dr_id = 1, dr_agent = ''bot'', dr_session = ''s1'', dr_status = ''error'', dr_created = 0\<rparr>], [(''bot'', ''s1'')])]
     (calm_world failed_exchange 0))"
proof (rule replays_are_capped)
  show "chains_capped 3 (calm_world failed_exchange 0)"
    by (simp add: chains_capped_def calm_world_def failed_exchange_chain)
  have "\<not> has_prefix ''failed'' failure_retry_tag"
    by (simp add: failure_retry_tag_def utf8_def encode_rune_def has_prefix_def)
  then show "appends_replay dying_replay"
    by (auto simp: appends_replay_def dying_replay_def blank_message_def is_failure_notice_def failure_retry_turn_def
        turn_error_message_def text_content_def strip_plain has_prefix_def)
qed simp

section \<open>Windows\<close>

lemma int64_small: "- (2 ^ 63) \<le> i \<Longrightarrow> i < 2 ^ 63 \<Longrightarrow> int64_of i = i"
  unfolding int64_of_def sint_sbintrunc' by (rule signed_take_bit_int_eq_self) simp_all

text \<open>
  Without an overflow the window covers the longest single backoff. The bound on the shift does not rule
  an overflow out: with a base of a day and many attempts the window falls back to six hours.
\<close>

lemma window_without_overflow:
  assumes "0 \<le> base" and "1 \<le> cap" and "base * 2 ^ (if cap - 1 > 20 then 20 else nat (cap - 1)) + 10 * minute_ns < 2 ^ 63"
  shows "failure_scan_window_for base cap
    = max failure_scan_window (min failure_scan_max_window (base * 2 ^ (if cap - 1 > 20 then 20 else nat (cap - 1)) + 10 * minute_ns))"
proof -
  define k :: nat where "k = (if cap - 1 > 20 then 20 else nat (cap - 1))"
  have "0 \<le> base * 2 ^ k" using assms(1) by simp
  moreover have "base * 2 ^ k + 10 * minute_ns < 2 ^ 63" using assms(3) by (simp add: k_def)
  ultimately have "shift_left base k = base * 2 ^ k" "int64_of (base * 2 ^ k + 10 * minute_ns) = base * 2 ^ k + 10 * minute_ns"
    unfolding shift_left_def by (intro int64_small; simp add: minute_ns_def)+
  then show ?thesis using assms(2) unfolding failure_scan_window_for_def Let_def k_def [symmetric] by (auto simp: max_def min_def)
qed

lemma window_overflow: "failure_scan_window_for (24 * hour_ns) 21 = failure_scan_window"
  by (simp add: failure_scan_window_for_def shift_left_def int64_of_def hour_ns_def minute_ns_def failure_scan_window_def
      failure_scan_max_window_def)

text \<open>
  The window covers one backoff, not the whole ladder. A replay that dies at the quota breaker leaves no
  row, so that with a base of three hours the only row is gone before the third replay is due.
\<close>

lemma ladder_outlives_window:
  "failure_scan_window_for (3 * hour_ns) 3 < shift_left (3 * hour_ns) 0 + shift_left (3 * hour_ns) 1 + shift_left (3 * hour_ns) 2"
  by (simp add: failure_scan_window_for_def shift_left_def int64_of_def hour_ns_def minute_ns_def failure_scan_window_def
      failure_scan_max_window_def)

text \<open>
  Cache and announcements are forgotten after six hours although a longer window still holds the row: the
  next pass tells the user again that it gave up.
\<close>

lemma gave_up_is_repeated:
  assumes "fw_scan w (scan_key agent session) = Some st" and "sn_next st = None" and "sn_seen st \<le> fw_now w - failure_scan_window"
    and "fw_history w agent session = Some ms" and "analyze_failure_chain ms = Some c" and "fc_replayable c" and "cap \<le> int (fc_retries c)"
    and "fw_notified w (scan_key agent session @ ''|gave_up'') = Some t" and "t \<le> fw_now w - failure_scan_window"
    and "0 < up_to"
  shows "should_scan (failure_state agent session (prune_failure_states w)) up_to (fw_now w)
    \<and> fw_told (handle_failure_session turn base cap agent session up_to (prune_failure_states w)) = fw_told w @ [(agent, session, Gave_up)]"
  using assms
  by (simp add: prune_failure_states_def failure_state_def should_scan_def unseen_state_def handle_failure_session_def Let_def
      notify_failure_once_def event_name_def claim_failure_notice_def set_failure_state_def)

end
