(* ===== verification/Usage_Meter.thy ===== *)
theory Usage_Meter
  imports Go_Time "HOL-Library.List_Lexorder" "HOL-Library.Char_ord"
begin

text \<open>
  Metering and quotas (\<^verbatim>\<open>internal/usage\<close>, \<^verbatim>\<open>internal/api/billing.go\<close>): the two
  meters, in memory and in the table \<^verbatim>\<open>token_usage_daily\<close>, and the check against a monthly
  ceiling. Both meters implement one interface, the locale \<^verbatim>\<open>usage_meter\<close>; the quota check
  is a client of it. A day is a number of days since the epoch; the zero time of Go is day
  \<^verbatim>\<open>zero_day\<close>. Counters do not overflow in the model.
\<close>

section \<open>Rows\<close>

record tokens =
  tk_input :: int
  tk_output :: int
  tk_cache_read :: int
  tk_cache_creation :: int

record usage_key =
  uk_day :: int
  uk_user :: string
  uk_agent :: string
  uk_session :: string
  uk_provider :: string
  uk_model :: string

record totals =
  tt_input :: int
  tt_output :: int
  tt_cache_read :: int
  tt_cache_creation :: int
  tt_requests :: int

definition no_usage :: totals where
  "no_usage = \<lparr>tt_input = 0, tt_output = 0, tt_cache_read = 0, tt_cache_creation = 0, tt_requests = 0\<rparr>"

definition add_totals :: "totals \<Rightarrow> totals \<Rightarrow> totals" where
  "add_totals a b =
     \<lparr>tt_input = tt_input a + tt_input b, tt_output = tt_output a + tt_output b, tt_cache_read = tt_cache_read a + tt_cache_read b,
      tt_cache_creation = tt_cache_creation a + tt_cache_creation b, tt_requests = tt_requests a + tt_requests b\<rparr>"

definition one_call_totals :: "tokens \<Rightarrow> totals" where
  "one_call_totals t =
     \<lparr>tt_input = tk_input t, tt_output = tk_output t, tt_cache_read = tk_cache_read t, tt_cache_creation = tk_cache_creation t, tt_requests = 1\<rparr>"

definition all_tokens :: "totals \<Rightarrow> int" where
  "all_tokens t = tt_input t + tt_output t + tt_cache_read t + tt_cache_creation t"

text \<open>A range of days, both ends included.\<close>

record usage_range =
  ur_since :: int
  ur_until :: int

definition zero_day :: int where "zero_day = -719162"

definition last_n :: "int \<Rightarrow> int \<Rightarrow> usage_range" where
  "last_n today n = \<lparr>ur_since = today - (n - 1), ur_until = today\<rparr>"

section \<open>The meter in memory\<close>

text \<open>The map of cells, in the order in which it happens to be walked.\<close>

type_synonym mem_meter = "(usage_key \<times> totals) list"

fun upsert_usage :: "usage_key \<Rightarrow> totals \<Rightarrow> (usage_key \<times> totals) list \<Rightarrow> (usage_key \<times> totals) list" where
  "upsert_usage k t [] = [(k, t)]"
| "upsert_usage k t ((k', c) # rows) = (if k' = k then (k', add_totals c t) # rows else (k', c) # upsert_usage k t rows)"

definition mem_record :: "usage_key \<Rightarrow> tokens \<Rightarrow> mem_meter \<Rightarrow> mem_meter" where
  "mem_record k t m = upsert_usage k (one_call_totals t) m"

definition in_range :: "int \<Rightarrow> usage_range \<Rightarrow> bool" where
  "in_range day r =
     (if ur_since r \<noteq> zero_day \<and> day < ur_since r then False
      else if ur_until r \<noteq> zero_day \<and> day > ur_until r then False else True)"

definition sum_rows :: "(usage_key \<Rightarrow> bool) \<Rightarrow> (usage_key \<times> totals) list \<Rightarrow> totals" where
  "sum_rows P rows = fold (\<lambda>(k, c) out. if P k then add_totals out c else out) rows no_usage"

definition mem_totals :: "usage_range \<Rightarrow> mem_meter \<Rightarrow> totals" where
  "mem_totals r m = sum_rows (\<lambda>k. in_range (uk_day k) r) m"

definition mem_totals_for_user :: "string \<Rightarrow> usage_range \<Rightarrow> mem_meter \<Rightarrow> totals" where
  "mem_totals_for_user user r m = sum_rows (\<lambda>k. uk_user k = user \<and> in_range (uk_day k) r) m"

record usage_rank =
  rk_key :: string
  rk_tokens :: int
  rk_input :: int
  rk_output :: int
  rk_requests :: int

text \<open>The groups in the order of their first row; rows of equal weight may come out in any order.\<close>

definition rank_rows :: "(usage_key \<Rightarrow> bool) \<Rightarrow> (usage_key \<Rightarrow> string) \<Rightarrow> (usage_key \<times> totals) list \<Rightarrow> usage_rank list" where
  "rank_rows P key rows =
     sort_key (\<lambda>r. - rk_tokens r)
       (map (\<lambda>i. let t = sum_rows (\<lambda>k. P k \<and> key k = i) rows
                 in \<lparr>rk_key = i, rk_tokens = all_tokens t, rk_input = tt_input t, rk_output = tt_output t, rk_requests = tt_requests t\<rparr>)
         (remdups (map (key \<circ> fst) (List.filter (P \<circ> fst) rows))))"

definition mem_limit :: "int \<Rightarrow> 'a list \<Rightarrow> 'a list" where
  "mem_limit limit xs = (if limit > 0 then take (nat limit) xs else xs)"

definition mem_top_agents :: "usage_range \<Rightarrow> int \<Rightarrow> mem_meter \<Rightarrow> usage_rank list" where
  "mem_top_agents r limit m = mem_limit limit (rank_rows (\<lambda>k. in_range (uk_day k) r) uk_agent m)"

definition mem_top_users :: "usage_range \<Rightarrow> int \<Rightarrow> mem_meter \<Rightarrow> usage_rank list" where
  "mem_top_users r limit m = mem_limit limit (rank_rows (\<lambda>k. in_range (uk_day k) r) uk_user m)"

definition mem_sessions_for_agent :: "string \<Rightarrow> string \<Rightarrow> usage_range \<Rightarrow> int \<Rightarrow> mem_meter \<Rightarrow> usage_rank list" where
  "mem_sessions_for_agent agent user r limit m =
     mem_limit limit (rank_rows (\<lambda>k. uk_agent k = agent \<and> (user \<noteq> [] \<longrightarrow> uk_user k = user) \<and> in_range (uk_day k) r) uk_session m)"

record daily_usage =
  du_day :: int
  du_agent :: string
  du_model :: string
  du_totals :: totals

definition day_group :: "usage_key \<Rightarrow> int \<times> string \<times> string" where
  "day_group k = (uk_day k, uk_agent k, uk_model k)"

definition daily_rows :: "(usage_key \<Rightarrow> bool) \<Rightarrow> (usage_key \<times> totals) list \<Rightarrow> daily_usage list" where
  "daily_rows P rows =
     map (\<lambda>g. \<lparr>du_day = fst g, du_agent = fst (snd g), du_model = snd (snd g), du_totals = sum_rows (\<lambda>k. P k \<and> day_group k = g) rows\<rparr>)
       (remdups (map (day_group \<circ> fst) (List.filter (P \<circ> fst) rows)))"

definition mem_daily_for_user :: "string \<Rightarrow> usage_range \<Rightarrow> mem_meter \<Rightarrow> daily_usage list" where
  "mem_daily_for_user user r m = daily_rows (\<lambda>k. uk_user k = user \<and> in_range (uk_day k) r) m"

section \<open>The meter in the database\<close>

text \<open>The channel of the latest call is kept beside the sums and belongs to no key.\<close>

type_synonym sql_meter = "(usage_key \<times> totals) list \<times> (usage_key \<Rightarrow> string)"

definition sql_record :: "string \<Rightarrow> usage_key \<Rightarrow> tokens \<Rightarrow> sql_meter \<Rightarrow> sql_meter" where
  "sql_record channel k t = (\<lambda>(rows, chans). (upsert_usage k (one_call_totals t) rows, chans(k := channel)))"

definition between :: "usage_range \<Rightarrow> int \<Rightarrow> bool" where
  "between r day = (ur_since r \<le> day \<and> day \<le> ur_until r)"

definition sql_totals :: "usage_range \<Rightarrow> sql_meter \<Rightarrow> totals" where
  "sql_totals r m = sum_rows (\<lambda>k. between r (uk_day k)) (fst m)"

definition sql_totals_for_user :: "string \<Rightarrow> usage_range \<Rightarrow> sql_meter \<Rightarrow> totals" where
  "sql_totals_for_user user r m = sum_rows (\<lambda>k. uk_user k = user \<and> between r (uk_day k)) (fst m)"

definition sql_top_by :: "(usage_key \<Rightarrow> string) \<Rightarrow> usage_range \<Rightarrow> int \<Rightarrow> sql_meter \<Rightarrow> usage_rank list" where
  "sql_top_by col r limit m =
     take (nat (if limit \<le> 0 then 20 else limit)) (rank_rows (\<lambda>k. between r (uk_day k)) col (fst m))"

definition sql_sessions_for_agent :: "string \<Rightarrow> string \<Rightarrow> usage_range \<Rightarrow> int \<Rightarrow> sql_meter \<Rightarrow> usage_rank list" where
  "sql_sessions_for_agent agent user r limit m =
     take (nat (if limit \<le> 0 then 50 else limit))
       (rank_rows (\<lambda>k. uk_agent k = agent \<and> (user = [] \<or> uk_user k = user) \<and> between r (uk_day k)) uk_session (fst m))"

text \<open>The latest day first, and within a day by agent.\<close>

definition sql_daily_for_user :: "string \<Rightarrow> usage_range \<Rightarrow> sql_meter \<Rightarrow> daily_usage list" where
  "sql_daily_for_user user r m =
     sort_key (\<lambda>d. - du_day d) (sort_key du_agent (daily_rows (\<lambda>k. uk_user k = user \<and> between r (uk_day k)) (fst m)))"

text \<open>The log has a row for every call.\<close>

record token_log =
  tl_user :: string
  tl_agent :: string
  tl_session :: string
  tl_provider :: string
  tl_model :: string
  tl_tokens :: tokens
  tl_duration_ms :: int
  tl_channel :: string
  tl_created :: int

definition sql_record_token_log :: "token_log \<Rightarrow> token_log list \<Rightarrow> token_log list" where
  "sql_record_token_log row rows = rows @ [row]"

section \<open>The interface\<close>

lemma add_totals_simps [simp]: "add_totals no_usage t = t" "add_totals t no_usage = t"
  by (simp_all add: add_totals_def no_usage_def)

lemma add_totals_ac: "add_totals a b = add_totals b a" "add_totals (add_totals a b) c = add_totals a (add_totals b c)"
  by (simp_all add: add_totals_def ac_simps)

lemma sum_rows_from: "fold (\<lambda>(k, c) out. if P k then add_totals out c else out) rows t = add_totals t (sum_rows P rows)"
proof (induction rows arbitrary: t)
  case (Cons r rows)
  obtain k c where r: "r = (k, c)" by (cases r)
  show ?case
    unfolding sum_rows_def r using Cons [of "add_totals t c"] Cons [of t] Cons [of c] Cons [of no_usage]
    by (simp add: add_totals_ac(2))
qed (simp add: sum_rows_def)

lemma sum_rows_simps [simp]:
  "sum_rows P [] = no_usage"
  "sum_rows P ((k, c) # rows) = (if P k then add_totals c (sum_rows P rows) else sum_rows P rows)"
  by (simp_all add: sum_rows_def [of P "_ # _"] sum_rows_from) (simp add: sum_rows_def)

lemma sum_upsert: "sum_rows P (upsert_usage k t rows) = (if P k then add_totals (sum_rows P rows) t else sum_rows P rows)"
  by (induction k t rows rule: upsert_usage.induct) (auto simp: add_totals_ac add_totals_def)

text \<open>A breakdown into days adds up to the totals.\<close>

definition sum_all :: "totals list \<Rightarrow> totals" where
  "sum_all ts = foldr add_totals ts no_usage"

lemma sum_all_simps [simp]: "sum_all [] = no_usage" "sum_all (t # ts) = add_totals t (sum_all ts)"
  by (simp_all add: sum_all_def)

lemma add_totals_left: "add_totals a (add_totals b c) = add_totals b (add_totals a c)"
  by (simp add: add_totals_def)

lemma sum_all_point:
  "distinct gs \<Longrightarrow> g \<in> set gs \<Longrightarrow> sum_all (map (\<lambda>i. if g = i then add_totals c (f i) else f i) gs) = add_totals c (sum_all (map f gs))"
proof (induction gs)
  case (Cons i gs)
  show ?case
  proof (cases "g = i")
    case True
    then have "map (\<lambda>i. if g = i then add_totals c (f i) else f i) gs = map f gs" using Cons.prems(1) by auto
    then have "sum_all (map (\<lambda>i. if g = i then add_totals c (f i) else f i) gs) = sum_all (map f gs)" by (rule arg_cong)
    with True show ?thesis by (simp add: add_totals_ac(2))
  next
    case False
    with Cons show ?thesis by (simp add: add_totals_left [of _ c])
  qed
qed simp

lemma sum_by_group:
  "distinct gs \<Longrightarrow> (\<And>k c. (k, c) \<in> set rows \<Longrightarrow> P k \<Longrightarrow> key k \<in> set gs)
   \<Longrightarrow> sum_all (map (\<lambda>g. sum_rows (\<lambda>k. P k \<and> key k = g) rows) gs) = sum_rows P rows"
proof (induction rows)
  case Nil
  show ?case by (induction gs) simp_all
next
  case (Cons r rows)
  obtain k c where r: "r = (k, c)" by (metis surj_pair)
  have IH: "sum_all (map (\<lambda>g. sum_rows (\<lambda>k. P k \<and> key k = g) rows) gs) = sum_rows P rows"
    by (rule Cons.IH) (use Cons.prems in auto)
  show ?case
  proof (cases "P k")
    case True
    then have "key k \<in> set gs" by (rule Cons.prems(2) [of k c, rotated]) (simp add: r)
    from sum_all_point [OF Cons.prems(1) this, of c "\<lambda>g. sum_rows (\<lambda>k. P k \<and> key k = g) rows"] True IH
    show ?thesis by (simp add: r)
  qed (use IH in \<open>simp add: r\<close>)
qed

lemma daily_adds_up: "sum_all (map du_totals (daily_rows P rows)) = sum_rows P rows"
proof -
  have "key \<in> set (remdups (map (day_group \<circ> fst) (List.filter (P \<circ> fst) rows)))"
    if "(k, c) \<in> set rows" "P k" "key = day_group k" for k c key
    using that by force
  then have "sum_all (map (\<lambda>g. sum_rows (\<lambda>k. P k \<and> day_group k = g) rows) (remdups (map (day_group \<circ> fst) (List.filter (P \<circ> fst) rows))))
    = sum_rows P rows"
    by (intro sum_by_group) auto
  then show ?thesis by (simp add: daily_rows_def comp_def)
qed

lemma mem_daily_adds_up: "sum_all (map du_totals (mem_daily_for_user user r m)) = mem_totals_for_user user r m"
  by (simp add: mem_daily_for_user_def mem_totals_for_user_def daily_adds_up)

text \<open>A recorded call: the row it belongs to and its tokens.\<close>

type_synonym usage_call = "usage_key \<times> tokens"

definition spent :: "(usage_key \<Rightarrow> bool) \<Rightarrow> usage_call list \<Rightarrow> totals" where
  "spent P calls = foldr (\<lambda>(k, t) out. if P k then add_totals out (one_call_totals t) else out) calls no_usage"

definition proper_range :: "usage_range \<Rightarrow> bool" where
  "proper_range r = (ur_since r \<noteq> zero_day \<and> ur_until r \<noteq> zero_day)"

locale usage_meter =
  fixes init :: 's and rec :: "usage_key \<Rightarrow> tokens \<Rightarrow> 's \<Rightarrow> 's"
    and for_user :: "string \<Rightarrow> usage_range \<Rightarrow> 's \<Rightarrow> totals"
  assumes starts_empty: "for_user user r init = no_usage"
    and counts_call: "proper_range r \<Longrightarrow> for_user user r (rec k t m)
      = (if uk_user k = user \<and> ur_since r \<le> uk_day k \<and> uk_day k \<le> ur_until r
         then add_totals (for_user user r m) (one_call_totals t) else for_user user r m)"
begin

lemma counts_all:
  "proper_range r \<Longrightarrow> for_user user r (foldr (\<lambda>(k, t). rec k t) calls init)
    = spent (\<lambda>k. uk_user k = user \<and> ur_since r \<le> uk_day k \<and> uk_day k \<le> ur_until r) calls"
  by (induction calls) (auto simp: spent_def starts_empty counts_call)

end

interpretation mem: usage_meter "[]" mem_record mem_totals_for_user
  by unfold_locales
    (auto simp: mem_totals_for_user_def mem_record_def sum_upsert in_range_def proper_range_def)

interpretation sql: usage_meter "([], \<lambda>k. [])" "sql_record channel" sql_totals_for_user for channel
  by unfold_locales
    (auto simp: sql_totals_for_user_def sql_record_def sum_upsert between_def split: prod.split)

end
