(* ===== verification/Usage_Quota.thy ===== *)
theory Usage_Quota
  imports Usage_Meter "HOL-Library.AList"
begin

text \<open>
  Monthly quotas (\<^verbatim>\<open>internal/usage/quota.go\<close>), the gate in front of a turn
  (\<^verbatim>\<open>checkQuota\<close> in \<^verbatim>\<open>internal/agent/loop.go\<close>) and the endpoints
  (\<^verbatim>\<open>internal/api/billing.go\<close>). Today is a date of the calendar in UTC.
\<close>

section \<open>Quotas\<close>

record quota =
  qt_user :: string
  qt_tokens :: int       \<comment> \<open>0 for no limit\<close>
  qt_requests :: int
  qt_reset :: int

record quota_status =
  qs_allowed :: bool
  qs_token_limit :: int
  qs_request_limit :: int
  qs_tokens :: int
  qs_requests :: int
  qs_resets :: "int option"

definition open_status :: quota_status where
  "open_status = \<lparr>qs_allowed = True, qs_token_limit = 0, qs_request_limit = 0, qs_tokens = 0, qs_requests = 0, qs_resets = None\<rparr>"

definition current_billing_window :: "int \<times> int \<times> int \<Rightarrow> int \<Rightarrow> int \<times> int" where
  "current_billing_window now reset_day =
     (let reset = (if reset_day < 1 \<or> reset_day > 28 then 1 else reset_day) in
      case now of (y, m, d) \<Rightarrow>
        if d \<ge> reset then (date_days y m reset, date_days y (m + 1) (reset - 1))
        else (date_days y (m - 1) reset, date_days y m (reset - 1)))"

text \<open>\<open>None\<close> is a quota that cannot be read, or a meter that fails.\<close>

definition check_quota :: "int \<times> int \<times> int \<Rightarrow> (usage_range \<Rightarrow> totals option) \<Rightarrow> quota option \<Rightarrow> quota_status" where
  "check_quota now meter q =
     (case q of
        None \<Rightarrow> open_status
      | Some q \<Rightarrow>
          if qt_tokens q \<le> 0 \<and> qt_requests q \<le> 0 then open_status
          else
            (case current_billing_window now (qt_reset q) of
               (since, until) \<Rightarrow>
                 (case meter \<lparr>ur_since = since, ur_until = until\<rparr> of
                    None \<Rightarrow> open_status
                  | Some t \<Rightarrow>
                      (let used = all_tokens t;
                           allowed = (\<not> (qt_tokens q > 0 \<and> used \<ge> qt_tokens q) \<and> \<not> (qt_requests q > 0 \<and> tt_requests t \<ge> qt_requests q))
                       in \<lparr>qs_allowed = allowed, qs_token_limit = qt_tokens q, qs_request_limit = qt_requests q, qs_tokens = used,
                           qs_requests = tt_requests t, qs_resets = Some (until + 1)\<rparr>))))"

text \<open>The table of quotas; a write replaces the row of the user.\<close>

type_synonym quota_table = "(string \<times> quota) list"

definition get_quota :: "string \<Rightarrow> quota_table \<Rightarrow> quota option" where
  "get_quota user rows = map_of rows user"

definition set_quota :: "quota \<Rightarrow> quota_table \<Rightarrow> quota_table" where
  "set_quota q rows = AList.update (qt_user q) q rows"

definition delete_quota :: "string \<Rightarrow> quota_table \<Rightarrow> quota_table" where
  "delete_quota user rows = List.filter (\<lambda>(u, _). u \<noteq> user) rows"

text \<open>A turn starts unless this says no; both stores may be absent.\<close>

definition quota_gate :: "bool \<Rightarrow> int \<times> int \<times> int \<Rightarrow> (string \<Rightarrow> usage_range \<Rightarrow> totals option) \<Rightarrow> string \<Rightarrow> quota_table \<Rightarrow> bool" where
  "quota_gate wired now meter owner rows = (if \<not> wired then True else qs_allowed (check_quota now (meter owner) (get_quota owner rows)))"

section \<open>The endpoints\<close>

datatype billing_reply =
    Unavailable | Unauthorized | Bad_request string | Forbidden | No_quota | Done
  | Quota_set quota | Quota_is quota "quota_status option" | Usage_of string int "(daily_usage list \<times> totals) option"

text \<open>The owner of a user, when there is a lookup and it finds the user.\<close>

definition authorize_target_user :: "(string \<Rightarrow> string option) option \<Rightarrow> string \<Rightarrow> string \<Rightarrow> bool" where
  "authorize_target_user lookup caller target =
     (case lookup of None \<Rightarrow> False | Some f \<Rightarrow> (case f target of None \<Rightarrow> False | Some owner \<Rightarrow> owner = caller))"

definition may_target :: "(string \<Rightarrow> string option) option \<Rightarrow> string \<Rightarrow> string \<Rightarrow> bool" where
  "may_target lookup caller target = (\<not> (caller \<noteq> [] \<and> target \<noteq> caller \<and> \<not> authorize_target_user lookup caller target))"

definition handle_set_quota ::
    "(string \<Rightarrow> string option) option \<Rightarrow> bool \<Rightarrow> string option \<Rightarrow> quota option \<Rightarrow> quota_table \<Rightarrow> billing_reply \<times> quota_table" where
  "handle_set_quota lookup wired ident body rows =
     (if \<not> wired then (Unavailable, rows)
      else case ident of
        None \<Rightarrow> (Unauthorized, rows)
      | Some caller \<Rightarrow>
          (case body of
             None \<Rightarrow> (Bad_request ''invalid request body'', rows)
           | Some q \<Rightarrow>
               if qt_user q = [] then (Bad_request ''user_id is required'', rows)
               else if \<not> may_target lookup caller (qt_user q) then (Forbidden, rows)
               else (let q' = (if qt_reset q < 1 \<or> qt_reset q > 28 then q\<lparr>qt_reset := 1\<rparr> else q)
                     in (Quota_set q', set_quota q' rows))))"

definition handle_get_quota ::
    "(string \<Rightarrow> string option) option \<Rightarrow> bool \<Rightarrow> string option \<Rightarrow> string \<Rightarrow> int \<times> int \<times> int
     \<Rightarrow> (string \<Rightarrow> usage_range \<Rightarrow> totals option) option \<Rightarrow> quota_table \<Rightarrow> billing_reply" where
  "handle_get_quota lookup wired ident user now meter rows =
     (if \<not> wired then Unavailable
      else case ident of
        None \<Rightarrow> Unauthorized
      | Some caller \<Rightarrow>
          if user = [] then Bad_request ''user_id query param is required''
          else if \<not> may_target lookup caller user then Forbidden
          else (case get_quota user rows of
                  None \<Rightarrow> No_quota
                | Some q \<Rightarrow> Quota_is q (map_option (\<lambda>m. check_quota now (m user) (get_quota user rows)) meter)))"

definition handle_delete_quota ::
    "(string \<Rightarrow> string option) option \<Rightarrow> bool \<Rightarrow> string option \<Rightarrow> string \<Rightarrow> quota_table \<Rightarrow> billing_reply \<times> quota_table" where
  "handle_delete_quota lookup wired ident user rows =
     (if \<not> wired then (Unavailable, rows)
      else case ident of
        None \<Rightarrow> (Unauthorized, rows)
      | Some caller \<Rightarrow>
          if user = [] then (Bad_request ''user_id query param is required'', rows)
          else if \<not> may_target lookup caller user then (Forbidden, rows)
          else (Done, delete_quota user rows))"

definition usage_days :: "string \<Rightarrow> int" where
  "usage_days d = (if d \<noteq> [] then (case atoi d of Some n \<Rightarrow> if n > 0 \<and> n \<le> 90 then n else 30 | None \<Rightarrow> 30) else 30)"

text \<open>A failing meter is the reply \<open>None\<close>.\<close>

definition handle_get_usage ::
    "(string \<Rightarrow> string option) option \<Rightarrow> string option \<Rightarrow> string \<Rightarrow> string \<Rightarrow> int
     \<Rightarrow> ((string \<Rightarrow> usage_range \<Rightarrow> daily_usage list option) \<times> (string \<Rightarrow> usage_range \<Rightarrow> totals option)) option \<Rightarrow> billing_reply" where
  "handle_get_usage lookup ident user days today meter =
     (case meter of
        None \<Rightarrow> Unavailable
      | Some (daily, sums) \<Rightarrow>
          (case ident of
             None \<Rightarrow> Unauthorized
           | Some caller \<Rightarrow>
               if user \<noteq> [] \<and> user \<noteq> caller \<and> \<not> authorize_target_user lookup caller user then Forbidden
               else (let target = (if user \<noteq> [] then user else caller); n = usage_days days
                     in Usage_of target n
                       (case daily target (last_n today n) of
                          None \<Rightarrow> None
                        | Some ds \<Rightarrow> map_option (Pair ds) (sums target (last_n today n))))))"

section \<open>The calendar\<close>

text \<open>The days before a year of the shifted calendar, which starts in March.\<close>

definition year_days :: "int \<Rightarrow> int" where
  "year_days y = 365 * y + y div 4 - y div 100 + y div 400"

lemma era_days:
  "y div 400 * 146097 + ((y mod 400) * 365 + (y mod 400) div 4 - (y mod 400) div 100 + k) - 719468 = year_days y + k - 719468"
proof -
  define e r where "e = y div 400" and "r = y mod 400"
  have y: "y = 400 * e + r" by (simp add: e_def r_def)
  have "y div 4 = 100 * e + r div 4" "y div 100 = 4 * e + r div 100" using y by linarith+
  then show ?thesis unfolding year_days_def e_def [symmetric] r_def [symmetric] using y by simp
qed

lemma div_step:
  fixes k y :: int
  assumes "0 < k"
  shows "y div k - (y - 1) div k = (if y mod k = 0 then 1 else 0)"
proof -
  define q r where "q = y div k" and "r = y mod k"
  have y: "y = k * q + r" "0 \<le> r" "r < k" using assms by (simp_all add: q_def r_def)
  show ?thesis
  proof (cases "r = 0")
    case True
    have "y - 1 = k * (q - 1) + (k - 1)" using y True by (simp add: algebra_simps)
    then have "(y - 1) div k = q - 1" by (rule int_div_pos_eq) (use assms in auto)
    with True show ?thesis by (simp add: q_def r_def)
  next
    case False
    have "y - 1 = k * q + (r - 1)" using y by simp
    then have "(y - 1) div k = q" by (rule int_div_pos_eq) (use y False in auto)
    with False show ?thesis by (simp add: q_def r_def)
  qed
qed

lemma leap_step:
  fixes a a' b b' c c' y :: int
  assumes "a - a' = (if p then 1 else 0)" "b - b' = (if q then 1 else 0)" "c - c' = (if r then 1 else 0)"
    and "r \<Longrightarrow> q" "q \<Longrightarrow> p"
  shows "365 \<le> (365 * y + a - b + c) - (365 * (y - 1) + a' - b' + c') \<and> (365 * y + a - b + c) - (365 * (y - 1) + a' - b' + c') \<le> 366"
proof -
  have "(365 * y + a - b + c) - (365 * (y - 1) + a' - b' + c') = 365 + (a - a') - (b - b') + (c - c')" by (simp add: algebra_simps)
  with assms show ?thesis by (cases p; cases q; cases r) simp_all
qed

lemma leap_rules: "(y :: int) mod 400 = 0 \<Longrightarrow> y mod 100 = 0" "(y :: int) mod 100 = 0 \<Longrightarrow> y mod 4 = 0"
  by presburger+

lemma year_step: "365 \<le> year_days y - year_days (y - 1) \<and> year_days y - year_days (y - 1) \<le> 366"
  unfolding year_days_def
  by (rule leap_step [OF div_step div_step div_step leap_rules]) simp_all

text \<open>The first day of a month, by the number of months since year 0.\<close>

definition month_start :: "int \<Rightarrow> int" where
  "month_start k = date_days (k div 12) (k mod 12 + 1) 1"

lemma date_from_start: "date_days y m d = month_start (12 * y + m - 1) + d - 1"
proof -
  have e: "12 * y + m - 1 = (m - 1) + 12 * y" by simp
  have "(12 * y + m - 1) div 12 = y + (m - 1) div 12" "(12 * y + m - 1) mod 12 = (m - 1) mod 12"
    unfolding e by (simp_all only: div_mult_self2 mod_mult_self2 zero_neq_numeral not_False_eq_True)
  then show ?thesis unfolding month_start_def by (simp only: date_days_def) simp
qed

lemma days_from_start:
  "days_from_civil y m 1 = (if m \<le> 2 then year_days (y - 1) else year_days y) + (153 * (if m > 2 then m - 3 else m + 9) + 2) div 5 - 719468"
proof -
  let ?k = "(153 * (if m > 2 then m - 3 else m + 9) + 2) div 5"
  have "days_from_civil y m 1 = year_days (if m \<le> 2 then y - 1 else y) + (?k + 1 - 1) - 719468"
    unfolding days_from_civil_def Let_def by (rule era_days)
  then have "days_from_civil y m 1 = year_days (if m \<le> 2 then y - 1 else y) + ?k - 719468" unfolding add_diff_cancel_right' .
  then show ?thesis unfolding if_distrib [of year_days] .
qed

lemma month_length: "28 \<le> month_start (k + 1) - month_start k \<and> month_start (k + 1) - month_start k \<le> 31"
proof -
  define y j where "y = k div 12" and "j = k mod 12"
  have k: "k = 12 * y + j" "0 \<le> j" "j < 12" by (simp_all add: y_def j_def)
  have start: "month_start (12 * y + j) = days_from_civil y (j + 1) 1" using k(2,3) by (simp add: month_start_def date_days_def)
  have next1: "month_start (12 * y + j + 1) = (if j < 11 then days_from_civil y (j + 2) 1 else days_from_civil (y + 1) 1 1)"
  proof (cases "j < 11")
    case True
    then have "(12 * y + j + 1) div 12 = y" "(12 * y + j + 1) mod 12 = j + 1" using k(2) by presburger+
    with True show ?thesis by (simp add: month_start_def date_days_def k(2) add.commute)
  next
    case False
    then have "j = 11" using k(3) by simp
    then show ?thesis by (simp add: month_start_def date_days_def add.commute)
  qed
  have "j = 0 \<or> j = 1 \<or> j = 2 \<or> j = 3 \<or> j = 4 \<or> j = 5 \<or> j = 6 \<or> j = 7 \<or> j = 8 \<or> j = 9 \<or> j = 10 \<or> j = 11"
    using k(2,3) by presburger
  then show ?thesis
    unfolding k(1) start next1 using year_step [of y] by (elim disjE) (simp_all add: days_from_start)
qed

lemma month_start_mono: "a \<le> b \<Longrightarrow> month_start a \<le> month_start b"
proof (induction b rule: int_ge_induct)
  case (step b)
  with month_length [of b] show ?case by linarith
qed simp

definition valid_date :: "int \<times> int \<times> int \<Rightarrow> bool" where
  "valid_date = (\<lambda>(y, m, d). 1 \<le> m \<and> m \<le> 12 \<and> 1 \<le> d \<and> date_days y m d < date_days y (m + 1) 1)"

definition date_day :: "int \<times> int \<times> int \<Rightarrow> int" where
  "date_day = (\<lambda>(y, m, d). date_days y m d)"

text \<open>The month whose reset day opens the window.\<close>

definition window_month :: "int \<times> int \<times> int \<Rightarrow> int \<Rightarrow> int" where
  "window_month = (\<lambda>(y, m, d) reset. if d \<ge> reset then 12 * y + m - 1 else 12 * y + m - 2)"

lemma window_by_month:
  assumes "1 \<le> r" and "r \<le> 28"
  shows "current_billing_window now r
    = (month_start (window_month now r) + r - 1, month_start (window_month now r + 1) + r - 2)"
proof -
  obtain y m d where now: "now = (y, m, d)" by (metis surj_pair)
  have "date_days y m r = month_start (12 * y + m - 1) + r - 1"
    "date_days y (m + 1) (r - 1) = month_start (12 * y + m - 1 + 1) + r - 2"
    "date_days y (m - 1) r = month_start (12 * y + m - 2) + r - 1"
    "date_days y m (r - 1) = month_start (12 * y + m - 2 + 1) + r - 2"
    by (simp_all add: date_from_start algebra_simps)
  with assms show ?thesis by (simp add: now current_billing_window_def window_month_def)
qed

lemma day_in_window:
  assumes "valid_date now" and "1 \<le> r" and "r \<le> 28"
  shows "month_start (window_month now r) + r - 1 \<le> date_day now \<and> date_day now \<le> month_start (window_month now r + 1) + r - 2"
proof -
  obtain y m d where now: "now = (y, m, d)" by (metis surj_pair)
  have day: "date_day now = month_start (12 * y + m - 1) + d - 1" "date_day now < month_start (12 * y + m - 1 + 1)" "1 \<le> d"
    using assms(1) by (auto simp: now date_day_def valid_date_def date_from_start algebra_simps)
  show ?thesis
  proof (cases "d \<ge> r")
    case True
    with day show ?thesis using assms(2) by (simp add: now window_month_def)
  next
    case False
    have "month_start (12 * y + m - 2 + 1) = month_start (12 * y + m - 1)" by (simp add: algebra_simps)
    with False day month_length [of "12 * y + m - 2"] assms(3) show ?thesis by (simp add: now window_month_def)
  qed
qed

lemma window_unique:
  assumes "month_start a + r - 1 \<le> x" "x \<le> month_start (a + 1) + r - 2" "month_start b + r - 1 \<le> x" "x \<le> month_start (b + 1) + r - 2"
  shows "a = b"
proof (rule ccontr)
  assume "a \<noteq> b"
  then consider "a + 1 \<le> b" | "b + 1 \<le> a" by linarith
  then show False
    using assms month_start_mono [of "a + 1" b] month_start_mono [of "b + 1" a] by cases auto
qed

lemma reset_default: "current_billing_window now reset = current_billing_window now (if reset < 1 \<or> reset > 28 then 1 else reset)"
  by (simp add: current_billing_window_def)

text \<open>
  Billing windows tile the calendar: today is in its window, and any other day is in the same window
  exactly when it has the same window, for every day of the reset.
\<close>
lemma billing_windows_tile:
  assumes "valid_date now" and "valid_date other" and "current_billing_window now reset = (since, until)"
  shows "since \<le> date_day now \<and> date_day now \<le> until
    \<and> (since \<le> date_day other \<and> date_day other \<le> until \<longleftrightarrow> current_billing_window other reset = (since, until))"
proof -
  define r where "r = (if reset < 1 \<or> reset > 28 then 1 else reset)"
  have r: "1 \<le> r" "r \<le> 28" by (auto simp: r_def)
  have w: "current_billing_window d reset = (month_start (window_month d r) + r - 1, month_start (window_month d r + 1) + r - 2)" for d
    using reset_default [of d reset] window_by_month [OF r] by (simp add: r_def)
  have bounds: "since = month_start (window_month now r) + r - 1" "until = month_start (window_month now r + 1) + r - 2"
    using w [of now] assms(3) by simp_all
  note here = day_in_window [OF assms(1) r] and there = day_in_window [OF assms(2) r]
  have same: "window_month now r = window_month other r" if "since \<le> date_day other" "date_day other \<le> until"
    by (rule window_unique [of _ r "date_day other"]) (use that there bounds in simp_all)
  show ?thesis
  proof (intro conjI iffI)
    show "since \<le> date_day now" "date_day now \<le> until" using here bounds by simp_all
    assume "since \<le> date_day other \<and> date_day other \<le> until"
    with same w [of other] bounds show "current_billing_window other reset = (since, until)" by simp
  next
    assume "current_billing_window other reset = (since, until)"
    with w [of other] there show "since \<le> date_day other" "date_day other \<le> until" by simp_all
  qed
qed

theorem billing_windows_tile_witness:
  "current_billing_window (2024, 3, 10) 15 = (date_days 2024 2 15, date_days 2024 3 14)
   \<and> date_days 2024 2 15 \<le> date_day (2024, 3, 10) \<and> date_day (2024, 3, 10) \<le> date_days 2024 3 14"
proof -
  have v: "valid_date (2024, 3, 10)" by (simp add: valid_date_def date_days_def days_from_civil_def)
  have w: "current_billing_window (2024, 3, 10) 15 = (date_days 2024 2 15, date_days 2024 3 14)" by (simp add: current_billing_window_def)
  from billing_windows_tile [OF v v w] w show ?thesis by simp
qed

section \<open>What the check counts\<close>

definition in_window :: "string \<Rightarrow> int \<times> int \<Rightarrow> usage_key \<Rightarrow> bool" where
  "in_window user w k = (uk_user k = user \<and> fst w \<le> uk_day k \<and> uk_day k \<le> snd w)"

text \<open>
  C23. The check counts exactly the calls of the user in the current window, with both meters: whatever
  calls were recorded, in memory or in the database, the answer is the same, and it is no exactly when a
  positive limit is reached.
\<close>
theorem quota_counts_every_call:
  assumes "w = current_billing_window now (qt_reset q)" and "fst w \<noteq> zero_day" and "snd w \<noteq> zero_day"
    and "0 < qt_tokens q \<or> 0 < qt_requests q"
  shows "check_quota now (\<lambda>r. Some (mem_totals_for_user user r (foldr (\<lambda>(k, t). mem_record k t) calls []))) (Some q)
      = check_quota now (\<lambda>r. Some (sql_totals_for_user user r (foldr (\<lambda>(k, t). sql_record channel k t) calls ([], \<lambda>k. [])))) (Some q)
    \<and> check_quota now (\<lambda>r. Some (mem_totals_for_user user r (foldr (\<lambda>(k, t). mem_record k t) calls []))) (Some q)
      = (let t = spent (in_window user w) calls
         in \<lparr>qs_allowed = (\<not> (0 < qt_tokens q \<and> qt_tokens q \<le> all_tokens t) \<and> \<not> (0 < qt_requests q \<and> qt_requests q \<le> tt_requests t)),
             qs_token_limit = qt_tokens q, qs_request_limit = qt_requests q, qs_tokens = all_tokens t,
             qs_requests = tt_requests t, qs_resets = Some (snd w + 1)\<rparr>)"
proof -
  let ?r = "\<lparr>ur_since = fst w, ur_until = snd w\<rparr>"
  have proper: "proper_range ?r" using assms(2,3) by (simp add: proper_range_def)
  have win: "current_billing_window now (qt_reset q) = (fst w, snd w)" by (simp add: assms(1))
  have p: "(\<lambda>k. uk_user k = user \<and> ur_since ?r \<le> uk_day k \<and> uk_day k \<le> ur_until ?r) = in_window user w"
    by (simp add: in_window_def fun_eq_iff)
  note mem = mem.counts_all [OF proper, of user calls, unfolded p] and sql = sql.counts_all [OF proper, of user channel calls, unfolded p]
  have limit: "\<not> (qt_tokens q \<le> 0 \<and> qt_requests q \<le> 0)" using assms(4) by auto
  show ?thesis
    unfolding check_quota_def option.case if_not_P [OF limit] win prod.case mem sql Let_def by simp
qed

theorem quota_counts_every_call_witness:
  "(let q = \<lparr>qt_user = ''u'', qt_tokens = 10, qt_requests = 0, qt_reset = 15\<rparr>;
        k = \<lparr>uk_day = date_days 2024 3 1, uk_user = ''u'', uk_agent = ''bot'', uk_session = ''s'', uk_provider = ''p'', uk_model = ''m''\<rparr>;
        calls = [(k, \<lparr>tk_input = 4, tk_output = 6, tk_cache_read = 0, tk_cache_creation = 0\<rparr>)]
    in \<not> qs_allowed (check_quota (2024, 3, 10) (\<lambda>r. Some (sql_totals_for_user ''u'' r (foldr (\<lambda>(k, t). sql_record ''web'' k t) calls ([], \<lambda>k. []))) ) (Some q)))"
proof -
  let ?q = "\<lparr>qt_user = ''u'', qt_tokens = 10, qt_requests = 0, qt_reset = 15\<rparr>"
  let ?k = "\<lparr>uk_day = date_days 2024 3 1, uk_user = ''u'', uk_agent = ''bot'', uk_session = ''s'', uk_provider = ''p'', uk_model = ''m''\<rparr>"
  have win: "current_billing_window (2024, 3, 10) (qt_reset ?q) = (19768, 19796)"
    by (simp add: current_billing_window_def date_days_def days_from_civil_def)
  have day: "date_days 2024 3 1 = 19783" by (simp add: date_days_def days_from_civil_def)
  let ?calls = "[(?k, \<lparr>tk_input = 4, tk_output = 6, tk_cache_read = 0, tk_cache_creation = 0\<rparr>)]"
  let ?mem = "check_quota (2024, 3, 10) (\<lambda>r. Some (mem_totals_for_user ''u'' r (foldr (\<lambda>(k, t). mem_record k t) ?calls []))) (Some ?q)"
  let ?sql = "check_quota (2024, 3, 10) (\<lambda>r. Some (sql_totals_for_user ''u'' r (foldr (\<lambda>(k, t). sql_record ''web'' k t) ?calls ([], \<lambda>k. [])))) (Some ?q)"
  note counted = quota_counts_every_call [OF win [symmetric], of "''u''" ?calls "''web''"]
  have "?mem = ?sql" by (rule counted [THEN conjunct1]) (simp_all add: zero_day_def)
  moreover have "\<not> qs_allowed ?mem"
    using counted [THEN conjunct2]
    by (simp add: zero_day_def Let_def spent_def in_window_def day all_tokens_def one_call_totals_def add_totals_def no_usage_def)
  ultimately show ?thesis unfolding Let_def by metis
qed

text \<open>The meters differ for open ranges and for a missing limit.\<close>

lemma open_range_differs:
  "mem_totals \<lparr>ur_since = zero_day, ur_until = zero_day\<rparr> m = sum_rows (\<lambda>k. True) m"
  "list_all (\<lambda>(k, c). uk_day k > zero_day) m \<Longrightarrow> sql_totals \<lparr>ur_since = zero_day, ur_until = zero_day\<rparr> (m, ch) = no_usage"
proof -
  show "mem_totals \<lparr>ur_since = zero_day, ur_until = zero_day\<rparr> m = sum_rows (\<lambda>k. True) m" by (simp add: mem_totals_def in_range_def)
  show "list_all (\<lambda>(k, c). uk_day k > zero_day) m \<Longrightarrow> sql_totals \<lparr>ur_since = zero_day, ur_until = zero_day\<rparr> (m, ch) = no_usage"
    by (induction m) (auto simp: sql_totals_def between_def)
qed

section \<open>Who may do what\<close>

text \<open>Usage is shown to its user and to the owner of that user only.\<close>

lemma usage_is_isolated:
  assumes "handle_get_usage lookup ident user days today meter = Usage_of target n t"
  shows "\<exists>caller. ident = Some caller \<and> (target = caller \<or> authorize_target_user lookup caller target)"
  using assms by (auto simp: handle_get_usage_def Let_def split: option.splits if_splits)

lemma foreign_quota_is_refused:
  assumes "caller \<noteq> []" and "qt_user q \<noteq> caller" and "\<not> authorize_target_user lookup caller (qt_user q)"
  shows "snd (handle_set_quota lookup wired (Some caller) (Some q) rows) = rows"
  using assms by (simp add: handle_set_quota_def may_target_def)

text \<open>
  The ceiling is meant for the application that sells the plan, but the user whom it limits may lift it.
  A caller without a user id may change the quota of anybody.
\<close>

lemma own_quota_can_be_lifted:
  assumes "user \<noteq> []"
  shows "\<exists>rows'. handle_delete_quota lookup True (Some user) user rows = (Done, rows') \<and> quota_gate wired now meter user rows'"
proof -
  have "map_of (List.filter (\<lambda>(u, _). u \<noteq> user) rows) user = None" by (auto simp: map_of_eq_None_iff)
  then show ?thesis using assms
    by (simp add: handle_delete_quota_def may_target_def delete_quota_def quota_gate_def get_quota_def check_quota_def open_status_def)
qed

lemma nameless_caller_sets_any_quota:
  "qt_user q \<noteq> [] \<Longrightarrow> fst (handle_set_quota lookup True (Some []) (Some q) rows) \<noteq> Forbidden"
  by (simp add: handle_set_quota_def may_target_def Let_def)

section \<open>The dashboard\<close>

definition range_days_from_query :: "string \<Rightarrow> int" where
  "range_days_from_query v = (if v = ''24h'' then 1 else if v = ''30d'' then 30 else 7)"

definition limit_from_query :: "string \<Rightarrow> int" where
  "limit_from_query v = (case atoi v of None \<Rightarrow> 10 | Some n \<Rightarrow> if n \<le> 0 then 10 else if n > 100 then 100 else n)"

definition session_limit :: "string \<Rightarrow> int" where
  "session_limit v = (if limit_from_query v < 50 then 50 else limit_from_query v)"

lemma limits_bounded: "1 \<le> limit_from_query v \<and> limit_from_query v \<le> 100" "50 \<le> session_limit v \<and> session_limit v \<le> 100"
  by (simp_all add: session_limit_def limit_from_query_def split: option.split)

end
