(* ===== verification/Table_Upsert.thy ===== *)
theory Table_Upsert
  imports Main
begin

text \<open>
  Tables with a unique key that are written with \<^verbatim>\<open>INSERT ... ON CONFLICT (key) DO UPDATE\<close>
  (\<^verbatim>\<open>internal/store/database.go\<close>): the write keeps the place and the identity of a row that
  is there, and appends a row that is not. The locale \<^verbatim>\<open>upsert_table\<close> is the contract of
  such a table; the configuration rows and the channel rows are instances.
\<close>

definition upsert_row :: "('r \<Rightarrow> 'k) \<Rightarrow> ('r \<Rightarrow> 'r \<Rightarrow> 'r) \<Rightarrow> 'r \<Rightarrow> 'r list \<Rightarrow> 'r list" where
  "upsert_row key merge r rows =
     (if key r \<in> set (map key rows) then map (\<lambda>x. if key x = key r then merge x r else x) rows else rows @ [r])"

definition find_row :: "('r \<Rightarrow> 'k) \<Rightarrow> 'k \<Rightarrow> 'r list \<Rightarrow> 'r option" where
  "find_row key k rows = List.find (\<lambda>r. key r = k) rows"

lemma find_row_simps [simp]:
  "find_row key k [] = None"
  "find_row key k (r # rows) = (if key r = k then Some r else find_row key k rows)"
  by (simp_all add: find_row_def)

lemma find_row_append: "find_row key k (xs @ ys) = (case find_row key k xs of None \<Rightarrow> find_row key k ys | Some r \<Rightarrow> Some r)"
  by (induction xs) auto

lemma find_row_none: "find_row key k rows = None \<longleftrightarrow> k \<notin> set (map key rows)"
  by (induction rows) auto

lemma find_row_some: "find_row key k rows = Some r \<Longrightarrow> r \<in> set rows \<and> key r = k"
  by (induction rows) (auto split: if_splits)

lemma find_row_in: "distinct (map key rows) \<Longrightarrow> r \<in> set rows \<Longrightarrow> find_row key (key r) rows = Some r"
  by (induction rows) (auto simp: image_iff)

lemma find_row_map:
  assumes "\<And>x. key (f x) = key x"
  shows "find_row key k (map f rows) = map_option f (find_row key k rows)"
  by (induction rows) (simp_all add: assms)

lemma find_row_filter_other: "find_row key k (filter (\<lambda>r. P r \<or> key r = k) rows) = find_row key k rows"
  by (induction rows) auto

locale upsert_table =
  fixes key :: "'r \<Rightarrow> 'k" and merge :: "'r \<Rightarrow> 'r \<Rightarrow> 'r"
  assumes merge_keeps_key: "key x = key r \<Longrightarrow> key (merge x r) = key x"
begin

lemma upsert_keys: "map key (upsert_row key merge r rows) = (if key r \<in> set (map key rows) then map key rows else map key rows @ [key r])"
proof -
  have "map key (map (\<lambda>x. if key x = key r then merge x r else x) rows) = map key rows"
    by (induction rows) (simp_all add: merge_keeps_key)
  then show ?thesis by (simp add: upsert_row_def)
qed

lemma upsert_distinct: "distinct (map key rows) \<Longrightarrow> distinct (map key (upsert_row key merge r rows))"
  unfolding upsert_keys by simp

lemma find_upsert:
  "find_row key (key r) (upsert_row key merge r rows)
     = Some (case find_row key (key r) rows of Some x \<Rightarrow> merge x r | None \<Rightarrow> r)"
proof (cases "find_row key (key r) rows")
  case None
  then have "upsert_row key merge r rows = rows @ [r]" unfolding find_row_none by (simp add: upsert_row_def)
  with None show ?thesis by (simp add: find_row_append)
next
  case (Some x)
  then have "key r \<in> set (map key rows)" using find_row_none [of key "key r" rows] by (metis option.distinct(1))
  then have u: "upsert_row key merge r rows = map (\<lambda>x. if key x = key r then merge x r else x) rows" by (simp add: upsert_row_def)
  have k: "key (if key x = key r then merge x r else x) = key x" for x by (simp add: merge_keeps_key)
  from find_row_some [OF Some] Some show ?thesis unfolding u find_row_map [of key, OF k] by simp
qed

lemma find_upsert_other:
  assumes "k \<noteq> key r"
  shows "find_row key k (upsert_row key merge r rows) = find_row key k rows"
proof -
  have k: "key (if key x = key r then merge x r else x) = key x" for x by (simp add: merge_keeps_key)
  have "map_option (\<lambda>x. if key x = key r then merge x r else x) (find_row key k rows) = find_row key k rows"
    using assms by (cases "find_row key k rows") (auto dest: find_row_some)
  then show ?thesis using assms by (simp add: upsert_row_def find_row_append find_row_map [of key, OF k] split: option.split)
qed

text \<open>A selection that does not look at the written key does not see the write.\<close>

lemma filter_upsert:
  assumes "\<And>x. key x = key r \<Longrightarrow> \<not> P x"
  shows "filter P (upsert_row key merge r rows) = filter P rows"
proof -
  have "filter P (map (\<lambda>x. if key x = key r then merge x r else x) rows) = filter P rows"
    by (induction rows) (auto simp: assms merge_keeps_key)
  then show ?thesis by (simp add: upsert_row_def assms)
qed

end

end
