(* ===== verification/Config_Rows.thy ===== *)
theory Config_Rows
  imports Go_Values Table_Upsert
begin

text \<open>
  The table \<^verbatim>\<open>configs\<close> (\<^verbatim>\<open>internal/store/store.go\<close>,
  \<^verbatim>\<open>internal/store/database.go\<close>): rows of a kind and a name that belong to the system, to a user,
  to an agent or to both. The owner is kept in the one column \<^verbatim>\<open>scope_id\<close>; the fields for
  user and agent are filled on reading and are not stored. A time of 0 is the zero time.
\<close>

record config_row =
  cf_id :: string
  cf_kind :: string
  cf_scope :: string
  cf_scope_id :: string
  cf_user :: string
  cf_agent :: string
  cf_name :: string
  cf_enabled :: bool
  cf_credential :: string
  cf_data :: "(string \<times> gval) list"
  cf_created :: int
  cf_updated :: int

definition compute_scope :: "string \<Rightarrow> string \<Rightarrow> string" where
  "compute_scope user agent =
     (if user \<noteq> [] \<and> agent \<noteq> [] then ''user-agent'' else if user \<noteq> [] then ''user'' else if agent \<noteq> [] then ''agent'' else ''system'')"

definition compute_scope_id :: "string \<Rightarrow> string \<Rightarrow> string" where
  "compute_scope_id user agent =
     (if user \<noteq> [] \<and> agent \<noteq> [] then user @ ''/'' @ agent else if user \<noteq> [] then user else if agent \<noteq> [] then agent else [])"

definition legacy_scope :: "config_row \<Rightarrow> string" where
  "legacy_scope r = (if cf_scope r \<noteq> [] then cf_scope r else compute_scope (cf_user r) (cf_agent r))"

definition legacy_scope_id :: "config_row \<Rightarrow> string" where
  "legacy_scope_id r = compute_scope_id (cf_user r) (cf_agent r)"

definition stored :: "config_row \<Rightarrow> config_row" where
  "stored r = r\<lparr>cf_user := [], cf_agent := [], cf_credential := []\<rparr>"

definition scan_config :: "config_row \<Rightarrow> config_row" where
  "scan_config r =
     (let c = stored r in
      if cf_scope r = ''user'' then c\<lparr>cf_user := cf_scope_id r\<rparr>
      else if cf_scope r = ''agent'' then c\<lparr>cf_agent := cf_scope_id r\<rparr>
      else if cf_scope r = ''user-agent'' then
        (if CHR ''/'' \<in> set (cf_scope_id r)
         then c\<lparr>cf_user := takeWhile (\<lambda>x. x \<noteq> CHR ''/'') (cf_scope_id r), cf_agent := tl (dropWhile (\<lambda>x. x \<noteq> CHR ''/'') (cf_scope_id r))\<rparr>
         else c)
      else c)"

type_synonym config_table = "config_row list"

section \<open>Reading\<close>

definition list_configs :: "string \<Rightarrow> string \<Rightarrow> config_table \<Rightarrow> config_row list" where
  "list_configs kind agent rows =
     map scan_config (sort_key cf_name (List.filter (\<lambda>r. cf_kind r = kind \<and> cf_scope_id r = compute_scope_id [] agent) rows))"

text \<open>\<^verbatim>\<open>LIKE\<close>, with the folding of letters of the database.\<close>

fun like_match :: "(char \<Rightarrow> char) \<Rightarrow> string \<Rightarrow> string \<Rightarrow> bool" where
  "like_match f [] s = (s = [])"
| "like_match f (c # p) s =
     (if c = CHR ''%'' then list_ex (\<lambda>n. like_match f p (drop n s)) [0..<Suc (length s)]
      else case s of [] \<Rightarrow> False | x # xs \<Rightarrow> (c = CHR ''_'' \<or> f c = f x) \<and> like_match f p xs)"

definition list_configs_by_user :: "(char \<Rightarrow> char) \<Rightarrow> string \<Rightarrow> string \<Rightarrow> config_table \<Rightarrow> config_row list" where
  "list_configs_by_user f kind user rows =
     (if user = [] then map scan_config (sort_key cf_name (List.filter (\<lambda>r. cf_kind r = kind \<and> cf_scope_id r = []) rows))
      else map scan_config (sort_key cf_name
             (List.filter (\<lambda>r. cf_kind r = kind \<and> (cf_scope_id r = user \<or> like_match f (user @ ''/%'') (cf_scope_id r))) rows)))"

definition query_all_configs :: "string \<Rightarrow> config_table \<Rightarrow> config_row list" where
  "query_all_configs kind rows =
     map scan_config (sort_key cf_scope_id (sort_key cf_name (List.filter (\<lambda>r. cf_kind r = kind) rows)))"

definition get_config :: "string \<Rightarrow> config_table \<Rightarrow> config_row option" where
  "get_config rid rows = map_option scan_config (find_row cf_id rid rows)"

definition config_key :: "config_row \<Rightarrow> string \<times> string \<times> string" where
  "config_key r = (cf_kind r, cf_scope_id r, cf_name r)"

definition get_config_by_name :: "string \<Rightarrow> string \<Rightarrow> string \<Rightarrow> config_table \<Rightarrow> config_row option" where
  "get_config_by_name kind agent name rows = map_option scan_config (find_row config_key (kind, compute_scope_id [] agent, name) rows)"

section \<open>Writing\<close>

definition merge_config :: "config_row \<Rightarrow> config_row \<Rightarrow> config_row" where
  "merge_config old r = old\<lparr>cf_scope := cf_scope r, cf_enabled := cf_enabled r, cf_data := cf_data r, cf_updated := cf_updated r\<rparr>"

text \<open>
  \<open>fresh\<close> is the random id. A new row whose id is taken is refused; the id of a row that is there
  stays.
\<close>

definition save_config :: "string \<Rightarrow> int \<Rightarrow> config_row \<Rightarrow> config_table \<Rightarrow> string + config_table" where
  "save_config fresh now c rows =
     (if cf_kind c = [] \<or> cf_name c = [] then Inl ''store: SaveConfig requires kind and name''
      else
        (let r = stored (c\<lparr>cf_scope := compute_scope (cf_user c) (cf_agent c),
                           cf_scope_id := (if cf_scope_id c = [] then compute_scope_id (cf_user c) (cf_agent c) else cf_scope_id c),
                           cf_created := (if cf_created c = 0 then now else cf_created c), cf_updated := now,
                           cf_id := (if cf_id c = [] then fresh else cf_id c)\<rparr>)
         in if config_key r \<notin> set (map config_key rows) \<and> cf_id r \<in> set (map cf_id rows) then Inl ''UNIQUE constraint failed: configs.id''
            else Inr (upsert_row config_key merge_config r rows)))"

definition delete_config :: "string \<Rightarrow> config_table \<Rightarrow> config_table" where
  "delete_config rid rows = List.filter (\<lambda>r. cf_id r \<noteq> rid) rows"

section \<open>The table\<close>

interpretation cfg: upsert_table config_key merge_config
  by unfold_locales (simp add: config_key_def merge_config_def)

definition config_ok :: "config_table \<Rightarrow> bool" where
  "config_ok rows = (distinct (map config_key rows) \<and> distinct (map cf_id rows))"

lemma merge_keeps_id: "map cf_id (map (\<lambda>x. if config_key x = k then merge_config x r else x) rows) = map cf_id rows"
  by (induction rows) (simp_all add: merge_config_def)

lemma scan_credential [simp]: "cf_credential (scan_config r) = []" "cf_name (scan_config r) = cf_name r" "cf_data (scan_config r) = cf_data r"
    "cf_kind (scan_config r) = cf_kind r" "cf_id (scan_config r) = cf_id r" "cf_enabled (scan_config r) = cf_enabled r"
    "cf_scope (scan_config r) = cf_scope r" "cf_scope_id (scan_config r) = cf_scope_id r"
  by (simp_all add: scan_config_def Let_def stored_def)

lemma save_keeps_ok: "config_ok rows \<Longrightarrow> save_config fresh now c rows = Inr rows' \<Longrightarrow> config_ok rows'"
  unfolding config_ok_def save_config_def Let_def
  by (auto simp: cfg.upsert_distinct split: if_splits)
    (auto simp: upsert_row_def merge_keeps_id simp del: map_map)

lemma delete_keeps_ok: "config_ok rows \<Longrightarrow> config_ok (delete_config rid rows)"
  by (simp add: config_ok_def delete_config_def distinct_map_filter)

text \<open>What a write of a row does, as a caller without a scope id sees it.\<close>

definition new_config :: "string \<Rightarrow> int \<Rightarrow> config_row \<Rightarrow> config_row" where
  "new_config fresh now c = stored (c\<lparr>cf_scope := compute_scope (cf_user c) (cf_agent c),
     cf_scope_id := (if cf_scope_id c = [] then compute_scope_id (cf_user c) (cf_agent c) else cf_scope_id c),
     cf_created := (if cf_created c = 0 then now else cf_created c), cf_updated := now,
     cf_id := (if cf_id c = [] then fresh else cf_id c)\<rparr>)"

lemma save_config_row:
  "save_config fresh now c rows = Inr rows' \<Longrightarrow> rows' = upsert_row config_key merge_config (new_config fresh now c) rows"
  by (simp add: save_config_def new_config_def Let_def split: if_splits)

lemma new_config_key: "config_key (new_config fresh now c)
    = (cf_kind c, if cf_scope_id c = [] then compute_scope_id (cf_user c) (cf_agent c) else cf_scope_id c, cf_name c)"
  by (simp add: new_config_def config_key_def stored_def)

lemma config_write_elsewhere:
  assumes "save_config fresh now c rows = Inr rows'"
    and "k \<noteq> (cf_kind c, if cf_scope_id c = [] then compute_scope_id (cf_user c) (cf_agent c) else cf_scope_id c, cf_name c)"
  shows "find_row config_key k rows' = find_row config_key k rows"
  using assms(2) unfolding save_config_row [OF assms(1)] new_config_key [symmetric, of _ fresh now] by (rule cfg.find_upsert_other)

lemma config_write_here:
  assumes "save_config fresh now c rows = Inr rows'"
    and "k = (cf_kind c, if cf_scope_id c = [] then compute_scope_id (cf_user c) (cf_agent c) else cf_scope_id c, cf_name c)"
  shows "\<exists>r. find_row config_key k rows' = Some r \<and> cf_data r = cf_data c \<and> cf_enabled r = cf_enabled c
    \<and> cf_scope r = compute_scope (cf_user c) (cf_agent c)"
proof -
  have k: "k = config_key (new_config fresh now c)" using assms(2) by (simp add: new_config_key)
  show ?thesis
    unfolding k save_config_row [OF assms(1)] cfg.find_upsert
    by (simp add: merge_config_def new_config_def stored_def split: option.split)
qed

text \<open>An owner is found again when the id of the user has no slash.\<close>

lemma owner_round_trip:
  assumes "CHR ''/'' \<notin> set user" and "cf_scope r = compute_scope user agent" and "cf_scope_id r = compute_scope_id user agent"
  shows "cf_user (scan_config r) = user \<and> cf_agent (scan_config r) = agent"
proof -
  have s: "takeWhile (\<lambda>x. x \<noteq> CHR ''/'') (user @ ''/'' @ agent) = user" "dropWhile (\<lambda>x. x \<noteq> CHR ''/'') (user @ ''/'' @ agent) = ''/'' @ agent"
    using assms(1) by (auto simp: takeWhile_append dropWhile_append)
  show ?thesis
    using s assms(2,3) by (auto simp: scan_config_def Let_def stored_def compute_scope_def compute_scope_id_def)
qed

text \<open>The underscore of an id is a wildcard: the rows of another user may be listed.\<close>

lemma like_wildcard:
  "like_match id ''u_1/%'' ''ux1/bot''"
  by (simp add: upt_rec)

end
