(* ===== verification/Config_Scope.thy ===== *)
theory Config_Scope
  imports Config_Rows
begin

text \<open>
  Resolution of the configuration (\<^verbatim>\<open>internal/scope\<close>): the layers of providers, channels
  and settings, the preferences of a user (\<^verbatim>\<open>timezone.go\<close>,
  \<^verbatim>\<open>internal/agent/tools/preference.go\<close>) and the overrides of an agent
  (\<^verbatim>\<open>internal/setup/handlers_agents.go\<close>). A map is an association list; the store is wired
  and its reads succeed.
\<close>

section \<open>Layers\<close>

definition ownership_from_scope :: "string \<Rightarrow> string \<Rightarrow> string \<times> string" where
  "ownership_from_scope sc scope_id = (if sc = ''user'' then (scope_id, []) else if sc = ''agent'' then ([], scope_id) else ([], []))"

definition scope_from_ownership :: "string \<Rightarrow> string \<Rightarrow> string \<times> string" where
  "scope_from_ownership user agent =
     (if user \<noteq> [] \<and> agent \<noteq> [] then (''user-agent'', user @ ''/'' @ agent)
      else if user \<noteq> [] then (''user'', user) else if agent \<noteq> [] then (''agent'', agent) else (''system'', []))"

text \<open>\<open>conv\<close> decodes the data of a row.\<close>

definition apply_providers :: "(config_row \<Rightarrow> 'p) \<Rightarrow> config_row list \<Rightarrow> (string \<times> 'p) list \<Rightarrow> (string \<times> 'p) list" where
  "apply_providers conv rs out = fold (\<lambda>r. AList.update (cf_name r) (conv r)) rs out"

definition providers :: "(config_row \<Rightarrow> 'p) \<Rightarrow> string \<Rightarrow> string \<Rightarrow> config_table \<Rightarrow> (string \<times> 'p) list" where
  "providers conv user agent rows =
     (let out = apply_providers conv (list_configs ''provider'' [] rows) []
      in if agent \<noteq> [] then apply_providers conv (list_configs ''provider'' agent rows) out else out)"

definition agent_scope_providers :: "(config_row \<Rightarrow> 'p) \<Rightarrow> string \<Rightarrow> config_table \<Rightarrow> (string \<times> 'p) list" where
  "agent_scope_providers conv agent rows =
     (if agent = [] then [] else apply_providers conv (list_configs ''provider'' agent rows) [])"

definition apply_channels :: "(config_row \<Rightarrow> 'c) \<Rightarrow> config_row list \<Rightarrow> (string \<times> 'c) list \<Rightarrow> (string \<times> 'c) list" where
  "apply_channels conv rs out =
     fold (\<lambda>r m. if \<not> cf_enabled r then AList.delete (cf_name r) m else AList.update (cf_name r) (conv r) m) rs out"

definition channels_of :: "(config_row \<Rightarrow> 'c) \<Rightarrow> string \<Rightarrow> string \<Rightarrow> config_table \<Rightarrow> (string \<times> 'c) list" where
  "channels_of conv user agent rows =
     (let system = list_configs ''channel'' [] rows; ag = list_configs ''channel'' agent rows;
          out = apply_channels conv system [];
          out = (if user \<noteq> [] then apply_channels conv system out else out);
          out = (if agent \<noteq> [] then apply_channels conv ag out else out)
      in if user \<noteq> [] \<and> agent \<noteq> [] then apply_channels conv ag out else out)"

definition merge_layer :: "(string \<times> gval) list \<Rightarrow> (string \<times> gval) list \<Rightarrow> (string \<times> gval) list" where
  "merge_layer layer out = fold (\<lambda>(k, v). AList.update k v) layer out"

definition try_get :: "string \<Rightarrow> string \<Rightarrow> config_table \<Rightarrow> (string \<times> gval) list \<Rightarrow> (string \<times> gval) list" where
  "try_get ns agent rows out = (case get_config_by_name ''setting'' agent ns rows of None \<Rightarrow> out | Some r \<Rightarrow> merge_layer (cf_data r) out)"

definition setting :: "string \<Rightarrow> string \<Rightarrow> string \<Rightarrow> config_table \<Rightarrow> (string \<times> gval) list" where
  "setting ns user agent rows =
     (let out = try_get ns [] rows [] in if agent \<noteq> [] then try_get ns agent rows out else out)"

section \<open>Writing\<close>

definition setting_row :: "string \<Rightarrow> string \<Rightarrow> string \<Rightarrow> string \<Rightarrow> bool \<Rightarrow> (string \<times> gval) list \<Rightarrow> config_row" where
  "setting_row kind user agent name enabled data =
     \<lparr>cf_id = [], cf_kind = kind, cf_scope = [], cf_scope_id = [], cf_user = user, cf_agent = agent, cf_name = name,
      cf_enabled = enabled, cf_credential = [], cf_data = data, cf_created = 0, cf_updated = 0\<rparr>"

definition save_setting ::
    "string \<Rightarrow> int \<Rightarrow> string \<Rightarrow> string \<Rightarrow> string \<Rightarrow> (string \<times> gval) list \<Rightarrow> config_table \<Rightarrow> string + config_table" where
  "save_setting fresh now user agent ns data rows =
     (if data = [] then
        (case get_config_by_name ''setting'' agent ns rows of
           Some r \<Rightarrow> Inr (delete_config (cf_id r) rows)
         | None \<Rightarrow> Inr rows)
      else save_config fresh now (setting_row ''setting'' user agent ns True data) rows)"

definition save_provider ::
    "string \<Rightarrow> int \<Rightarrow> string \<Rightarrow> string \<Rightarrow> string \<Rightarrow> (string \<times> gval) list \<Rightarrow> config_table \<Rightarrow> string + config_table" where
  "save_provider fresh now user agent name data rows = save_config fresh now (setting_row ''provider'' user agent name True data) rows"

definition save_setting_by_scope ::
    "string \<Rightarrow> int \<Rightarrow> string \<Rightarrow> string \<Rightarrow> string \<Rightarrow> (string \<times> gval) list \<Rightarrow> config_table \<Rightarrow> string + config_table" where
  "save_setting_by_scope fresh now sc scope_id ns data rows =
     (case ownership_from_scope sc scope_id of (u, a) \<Rightarrow> save_setting fresh now u a ns data rows)"

definition save_provider_by_scope ::
    "string \<Rightarrow> int \<Rightarrow> string \<Rightarrow> string \<Rightarrow> string \<Rightarrow> (string \<times> gval) list \<Rightarrow> config_table \<Rightarrow> string + config_table" where
  "save_provider_by_scope fresh now sc scope_id name data rows =
     (case ownership_from_scope sc scope_id of (u, a) \<Rightarrow> save_provider fresh now u a name data rows)"

section \<open>Preferences\<close>

definition tz_of :: "config_row option \<Rightarrow> string" where
  "tz_of r = (case r of None \<Rightarrow> [] | Some r \<Rightarrow> as_str (map_of (cf_data r) ''timezone''))"

definition timezone :: "string \<Rightarrow> string \<Rightarrow> config_table \<Rightarrow> string" where
  "timezone user agent rows =
     (let tz = tz_of (get_config_by_name ''setting'' agent ''prefs'' rows)
      in if tz \<noteq> [] then tz else tz_of (get_config_by_name ''setting'' [] ''prefs'' rows))"

definition prefs_base :: "string \<Rightarrow> config_table \<Rightarrow> (string \<times> gval) list" where
  "prefs_base agent rows = (case get_config_by_name ''setting'' agent ''prefs'' rows of None \<Rightarrow> [] | Some r \<Rightarrow> merge_layer (cf_data r) [])"

definition save_user_timezone :: "string \<Rightarrow> int \<Rightarrow> string \<Rightarrow> string \<Rightarrow> config_table \<Rightarrow> string + config_table" where
  "save_user_timezone fresh now user tz rows =
     (if user = [] then Inl ''scope.SaveUserTimezone: userID is required''
      else save_setting fresh now [] [] ''prefs'' (AList.update ''timezone'' (GStr tz) (prefs_base [] rows)) rows)"

text \<open>The tool \<^verbatim>\<open>set_preference\<close>, after its arguments were decoded.\<close>

definition set_preference ::
    "string \<Rightarrow> int \<Rightarrow> string \<Rightarrow> string \<Rightarrow> string \<Rightarrow> string \<Rightarrow> config_table \<Rightarrow> string + config_table" where
  "set_preference fresh now user agent key val rows =
     (if key = [] then Inl ''key is required''
      else if val = [] then Inl ''value is required''
      else if user = [] then Inl ''no chatter identity on this turn''
      else if agent = [] then Inl ''no agent identity''
      else save_setting fresh now user agent ''prefs'' (AList.update key (GStr val) (prefs_base agent rows)) rows)"

section \<open>Overrides of an agent\<close>

definition agent_scope_defaults_read :: "string \<Rightarrow> config_table \<Rightarrow> (string \<times> gval) list" where
  "agent_scope_defaults_read agent rows =
     (case get_config_by_name ''setting'' agent ''agents.defaults'' rows of None \<Rightarrow> [] | Some r \<Rightarrow> merge_layer (cf_data r) [])"

text \<open>A patch maps a key to a value or, for \<open>None\<close>, takes it away.\<close>

definition patch_defaults :: "(string \<times> gval option) list \<Rightarrow> (string \<times> gval) list \<Rightarrow> (string \<times> gval) list" where
  "patch_defaults patch data =
     fold (\<lambda>(k, v) d. case v of None \<Rightarrow> AList.delete k d | Some x \<Rightarrow> AList.update k x d) patch data"

definition apply_agent_scope_defaults_patch ::
    "string \<Rightarrow> int \<Rightarrow> string \<Rightarrow> (string \<times> gval option) list \<Rightarrow> config_table \<Rightarrow> string + config_table" where
  "apply_agent_scope_defaults_patch fresh now agent patch rows =
     (if patch = [] then Inr rows
      else save_setting_by_scope fresh now ''agent'' agent ''agents.defaults'' (patch_defaults patch (agent_scope_defaults_read agent rows)) rows)"

definition save_agent_scope_model :: "string \<Rightarrow> int \<Rightarrow> string \<Rightarrow> string \<Rightarrow> config_table \<Rightarrow> string + config_table" where
  "save_agent_scope_model fresh now agent model rows =
     (let model = trim_space model in
      if model = [] then save_setting_by_scope fresh now ''agent'' agent ''agents.defaults'' [] rows
      else save_setting_by_scope fresh now ''agent'' agent ''agents.defaults'' [(''model'', GStr model)] rows)"

definition apply_agent_scope_plugins_patch ::
    "string \<Rightarrow> int \<Rightarrow> string \<Rightarrow> (string \<times> bool) list \<Rightarrow> bool \<Rightarrow> config_table \<Rightarrow> string + config_table" where
  "apply_agent_scope_plugins_patch fresh now agent patch reset rows =
     (if reset then save_setting_by_scope fresh now ''agent'' agent ''plugins.enabled'' [] rows
      else if patch = [] then Inr rows
      else save_setting_by_scope fresh now ''agent'' agent ''plugins.enabled''
             (merge_layer (map (\<lambda>(k, b). (k, GBool b)) patch)
                (case get_config_by_name ''setting'' agent ''plugins.enabled'' rows of None \<Rightarrow> [] | Some r \<Rightarrow> merge_layer (cf_data r) [])) rows)"

end
