(* ===== verification/Channel_Rows.thy ===== *)
theory Channel_Rows
  imports Config_Rows
begin

text \<open>
  The table \<^verbatim>\<open>channels\<close> (\<^verbatim>\<open>internal/store/database.go\<close>): a row binds a bot,
  named by its channel and its account, to a user and an agent. The rows were copied once from the
  configuration rows of kind channel.
\<close>

record channel_row =
  ch_id :: string
  ch_user :: string
  ch_agent :: string
  ch_type :: string
  ch_account :: string
  ch_enabled :: bool
  ch_token :: string
  ch_url :: string
  ch_platform_user :: string
  ch_shared :: bool
  ch_data :: "(string \<times> gval) list"
  ch_created :: int
  ch_updated :: int

type_synonym channel_table = "channel_row list"

definition channel_key :: "channel_row \<Rightarrow> string \<times> string" where
  "channel_key r = (ch_type r, ch_account r)"

definition merge_channel :: "channel_row \<Rightarrow> channel_row \<Rightarrow> channel_row" where
  "merge_channel old r = r\<lparr>ch_id := ch_id old, ch_type := ch_type old, ch_account := ch_account old, ch_created := ch_created old\<rparr>"

definition list_channels :: "string \<Rightarrow> string \<Rightarrow> channel_table \<Rightarrow> channel_row list" where
  "list_channels user agent rows = sort_key ch_type (sort_key ch_account (List.filter (\<lambda>r. ch_user r = user \<and> ch_agent r = agent) rows))"

definition list_all_channels :: "channel_table \<Rightarrow> channel_row list" where
  "list_all_channels rows = sort_key ch_user (sort_key ch_agent (sort_key ch_type rows))"

definition get_channel :: "string \<Rightarrow> channel_table \<Rightarrow> channel_row option" where
  "get_channel rid rows = find_row ch_id rid rows"

definition lookup_channel :: "string \<Rightarrow> string \<Rightarrow> channel_table \<Rightarrow> channel_row option" where
  "lookup_channel ty account rows = find_row channel_key (ty, account) rows"

text \<open>The result carries the record of the caller, whose id was filled in.\<close>

definition save_channel :: "string \<Rightarrow> int \<Rightarrow> channel_row \<Rightarrow> channel_table \<Rightarrow> string + channel_row \<times> channel_table" where
  "save_channel fresh now ch rows =
     (if ch_type ch = [] \<or> ch_account ch = [] then Inl ''store: SaveChannel requires type and accountId''
      else
        (let r = ch\<lparr>ch_created := (if ch_created ch = 0 then now else ch_created ch), ch_updated := now,
                    ch_id := (if ch_id ch = [] then fresh else ch_id ch)\<rparr>
         in if channel_key r \<notin> set (map channel_key rows) \<and> ch_id r \<in> set (map ch_id rows) then Inl ''UNIQUE constraint failed: channels.id''
            else Inr (r, upsert_row channel_key merge_channel r rows)))"

definition delete_channel :: "string \<Rightarrow> channel_table \<Rightarrow> channel_table" where
  "delete_channel rid rows = List.filter (\<lambda>r. ch_id r \<noteq> rid) rows"

text \<open>The column with the credential is gone, and nothing is found by it.\<close>

definition lookup_channel_by_credential :: "string \<Rightarrow> string \<Rightarrow> config_table \<Rightarrow> config_row option" where
  "lookup_channel_by_credential ty cred rows = None"

interpretation chan: upsert_table channel_key merge_channel
  by unfold_locales (simp add: channel_key_def merge_channel_def)

section \<open>Configuration of a channel\<close>

record channel_config =
  cc_enabled :: bool
  cc_bot :: string
  cc_app :: string
  cc_accounts :: "(string \<times> gval) list"

definition str_entry :: "string \<Rightarrow> string \<Rightarrow> (string \<times> gval) list" where
  "str_entry k v = (if v = [] then [] else [(k, GStr v)])"

text \<open>The accounts are carried along as they are.\<close>

definition channel_data :: "channel_config \<Rightarrow> (string \<times> gval) list" where
  "channel_data c = str_entry ''botToken'' (cc_bot c) @ str_entry ''appToken'' (cc_app c)
     @ (if cc_accounts c = [] then [] else [(''accounts'', GMap (cc_accounts c))])"

definition accounts_of :: "(string \<times> gval) list \<Rightarrow> (string \<times> gval) list" where
  "accounts_of data = (case map_of data ''accounts'' of Some (GMap kv) \<Rightarrow> kv | _ \<Rightarrow> [])"

definition channel_config_of :: "bool \<Rightarrow> (string \<times> gval) list \<Rightarrow> channel_config" where
  "channel_config_of enabled data =
     \<lparr>cc_enabled = enabled, cc_bot = as_str (map_of data ''botToken''), cc_app = as_str (map_of data ''appToken''),
      cc_accounts = accounts_of data\<rparr>"

lemma channel_config_round_trip: "channel_config_of (cc_enabled c) (channel_data c) = c"
  by (cases c) (auto simp: channel_config_of_def channel_data_def str_entry_def accounts_of_def as_str_def)

section \<open>Copying from the configuration rows\<close>

definition acct_field :: "string \<Rightarrow> gval \<Rightarrow> string" where
  "acct_field k v = (case v of GMap kv \<Rightarrow> as_str (map_of kv k) | _ \<Rightarrow> [])"

definition migrated_row :: "config_row \<Rightarrow> string \<Rightarrow> string \<Rightarrow> string \<Rightarrow> string \<Rightarrow> string \<Rightarrow> channel_row" where
  "migrated_row cfg rid account token url platform_user =
     \<lparr>ch_id = rid, ch_user = cf_user cfg, ch_agent = cf_agent cfg, ch_type = cf_name cfg, ch_account = account, ch_enabled = cf_enabled cfg,
      ch_token = token, ch_url = url, ch_platform_user = platform_user, ch_shared = False, ch_data = cf_data cfg,
      ch_created = cf_created cfg, ch_updated = cf_updated cfg\<rparr>"

definition channels_of_config :: "(string \<Rightarrow> string) \<Rightarrow> config_row \<Rightarrow> channel_row list" where
  "channels_of_config new_id cfg =
     (let token = as_str (map_of (cf_data cfg) ''botToken''); url = as_str (map_of (cf_data cfg) ''baseUrl''); accounts = accounts_of (cf_data cfg)
      in if accounts = []
         then [migrated_row cfg (new_id []) (if cf_credential cfg = [] then cf_name cfg else cf_credential cfg) token url []]
         else map (\<lambda>(account, v).
                migrated_row cfg (new_id account) account
                  (if acct_field ''botToken'' v = [] then token else acct_field ''botToken'' v)
                  (if acct_field ''baseUrl'' v = [] then url else acct_field ''baseUrl'' v)
                  (acct_field ''userId'' v)) accounts)"

text \<open>A row that cannot be saved is logged and left out. \<open>ids\<close> gives the random ids of a configuration row.\<close>

definition migrate_channels_from_configs ::
    "(config_row \<Rightarrow> string \<Rightarrow> string) \<Rightarrow> int \<Rightarrow> config_table \<Rightarrow> channel_table \<Rightarrow> config_table \<times> channel_table" where
  "migrate_channels_from_configs ids now configs chans =
     (if chans \<noteq> [] then (configs, chans)
      else
        (let cfgs = map scan_config (List.filter (\<lambda>r. cf_kind r = ''channel'') configs);
             chans' = fold (\<lambda>r out. case save_channel (ch_id r) now r out of Inl _ \<Rightarrow> out | Inr (_, out') \<Rightarrow> out')
                        (concat (map (\<lambda>c. channels_of_config (ids c) c) cfgs)) chans
         in (if cfgs = [] then configs else List.filter (\<lambda>r. cf_kind r \<noteq> ''channel'') configs, chans')))"

section \<open>Facts\<close>

definition channels_ok :: "channel_table \<Rightarrow> bool" where
  "channels_ok rows = (distinct (map channel_key rows) \<and> distinct (map ch_id rows))"

lemma merge_keeps_channel_id: "map ch_id (map (\<lambda>x. if channel_key x = k then merge_channel x r else x) rows) = map ch_id rows"
  by (induction rows) (simp_all add: merge_channel_def)

lemma save_channel_ok: "channels_ok rows \<Longrightarrow> save_channel fresh now c rows = Inr (r, rows') \<Longrightarrow> channels_ok rows'"
  unfolding channels_ok_def save_channel_def Let_def
  by (auto simp: chan.upsert_distinct split: if_splits)
    (auto simp: upsert_row_def merge_keeps_channel_id simp del: map_map)

text \<open>The id of a write that met a row is not the id of that row.\<close>

lemma saved_id_is_stale:
  assumes "save_channel fresh now ch rows = Inr (r, rows')" and "ch_id ch = []"
    and "lookup_channel (ch_type ch) (ch_account ch) rows = Some old" and "fresh \<notin> set (map ch_id rows)"
  shows "ch_id r = fresh \<and> get_channel (ch_id r) rows' = None"
proof -
  have r: "r = ch\<lparr>ch_created := (if ch_created ch = 0 then now else ch_created ch), ch_updated := now, ch_id := fresh\<rparr>"
    and u: "rows' = upsert_row channel_key merge_channel r rows"
    using assms(1,2) by (auto simp: save_channel_def Let_def split: if_splits)
  have "channel_key r = (ch_type ch, ch_account ch)" by (simp add: r channel_key_def)
  then have "channel_key r \<in> set (map channel_key rows)"
    using assms(3) find_row_none [of channel_key "channel_key r" rows] by (metis lookup_channel_def option.distinct(1))
  then have "map ch_id rows' = map ch_id rows" by (simp only: u upsert_row_def if_True merge_keeps_channel_id)
  then show ?thesis using assms(4) by (simp add: r get_channel_def find_row_none)
qed

text \<open>Single bots of one channel all get the name of the channel as account, and only one of them is kept.\<close>

lemma single_bot_rows:
  assumes "\<And>c. c \<in> set cfgs \<Longrightarrow> cf_name c = ty \<and> cf_credential c = [] \<and> accounts_of (cf_data c) = []"
  shows "r \<in> set (concat (map (\<lambda>c. channels_of_config (ids c) c) cfgs)) \<Longrightarrow> channel_key r = (ty, ty)"
  using assms by (auto simp: channels_of_config_def Let_def migrated_row_def channel_key_def)

lemma migration_keeps_one_single_bot:
  assumes "\<And>c. c \<in> set configs \<Longrightarrow> cf_kind c = ''channel'' \<and> cf_name c = ty \<and> accounts_of (cf_data c) = []"
    and "migrate_channels_from_configs ids now configs [] = (configs', chans)"
  shows "length chans \<le> 1 \<and> (configs \<noteq> [] \<longrightarrow> configs' = [])"
proof -
  let ?save = "\<lambda>r out. case save_channel (ch_id r) now r out of Inl _ \<Rightarrow> out | Inr (_, out') \<Rightarrow> out'"
  define rs where "rs = concat (map (\<lambda>c. channels_of_config (ids c) c) (map scan_config configs))"
  have keys: "channel_key r = (ty, ty)" if "r \<in> set rs" for r
    using that assms(1) unfolding rs_def by (intro single_bot_rows [of "map scan_config configs"]) auto
  have step: "length (?save r out) \<le> 1 \<and> (\<forall>x \<in> set (?save r out). channel_key x = (ty, ty))"
    if "channel_key r = (ty, ty)" "length out \<le> 1" "\<forall>x \<in> set out. channel_key x = (ty, ty)" for r out
    using that
    by (cases out) (auto simp: save_channel_def Let_def upsert_row_def channel_key_def merge_channel_def split: sum.splits if_splits)
  have "length (fold ?save rs out) \<le> 1" if "length out \<le> 1" "\<forall>x \<in> set out. channel_key x = (ty, ty)" for out
    using that keys
  proof (induction rs arbitrary: out)
    case (Cons r rs)
    show ?case
      unfolding fold_simps
      by (rule Cons.IH) (use step [of r out] Cons.prems in auto)
  qed simp
  from this [of "[]"] have "length (fold ?save rs []) \<le> 1" by simp
  moreover have "List.filter (\<lambda>r. cf_kind r = ''channel'') configs = configs" "List.filter (\<lambda>r. cf_kind r \<noteq> ''channel'') configs = []"
    using assms(1) by (simp_all add: filter_id_conv filter_empty_conv)
  ultimately show ?thesis using assms(2) by (auto simp: migrate_channels_from_configs_def Let_def rs_def)
qed

end
