(* ===== verification/Config_Handlers.thy ===== *)
theory Config_Handlers
  imports Config_Scope Channel_Rows
begin

text \<open>
  The endpoints that edit providers and channels of a scope
  (\<^verbatim>\<open>internal/setup/handlers_scoped.go\<close>). An agent is known by its flag for sharing its
  models; the starting and stopping of adapters and the dropping of cached spaces are left out.
\<close>

record caller =
  ca_user :: string
  ca_super :: bool

datatype scoped_reply =
    Sc_ok | Sc_unauthorized | Sc_forbidden string | Sc_bad string | Sc_conflict string | Sc_not_found | Sc_error string
  | Sc_rows "config_row list"

section \<open>Who may do what\<close>

text \<open>\<open>None\<close> lets the request pass.\<close>

definition authorize_scope :: "(string \<Rightarrow> bool option) \<Rightarrow> caller option \<Rightarrow> string \<Rightarrow> string \<Rightarrow> bool \<Rightarrow> scoped_reply option" where
  "authorize_scope agents who sc scope_id writing =
     (case who of
        None \<Rightarrow> Some Sc_unauthorized
      | Some c \<Rightarrow>
          if ca_super c then None
          else if sc = ''system'' then
            (if \<not> writing then None else Some (Sc_forbidden ''super_admin required to mutate system scope''))
          else if sc = ''user'' then
            (if scope_id \<noteq> ca_user c then Some (Sc_forbidden ''cannot manage other users' configs'') else None)
          else if sc = ''agent'' then
            (case agents scope_id of
               None \<Rightarrow> Some (Sc_forbidden ''agent not yours'')
             | Some share \<Rightarrow> if \<not> writing \<and> share then None else Some (Sc_forbidden ''agent not yours''))
          else Some (Sc_bad ''invalid scope''))"

definition list_configs_by_scope :: "(char \<Rightarrow> char) \<Rightarrow> string \<Rightarrow> string \<Rightarrow> string \<Rightarrow> config_table \<Rightarrow> config_row list" where
  "list_configs_by_scope f kind sc scope_id rows =
     (case ownership_from_scope sc scope_id of
        (u, a) \<Rightarrow> if u \<noteq> [] then list_configs_by_user f kind u rows else list_configs kind a rows)"

definition scope_from_query :: "caller option \<Rightarrow> string \<Rightarrow> string \<Rightarrow> string \<times> string" where
  "scope_from_query who sc scope_id =
     (if sc = [] then
        (case who of
           Some c \<Rightarrow> if ca_super c then (''system'', scope_id) else (''user'', ca_user c)
         | None \<Rightarrow> (''user'', []))
      else (sc, scope_id))"

section \<open>Masks\<close>

definition mask_api_key :: "string \<Rightarrow> string" where
  "mask_api_key key = (if length key \<le> 8 then ''****'' else take 4 key @ ''****'' @ drop (length key - 4) key)"

definition is_masked_secret :: "string \<Rightarrow> bool" where
  "is_masked_secret s = (if s = [] then False else s = ''****'' \<or> str_contains s ''****'')"

section \<open>Providers\<close>

record provider_config =
  pc_key :: string
  pc_base :: string
  pc_type :: string
  pc_auth :: string
  pc_models :: "gval list"

definition provider_data :: "provider_config \<Rightarrow> (string \<times> gval) list" where
  "provider_data p = [(''apiKey'', GStr (pc_key p)), (''apiBase'', GStr (pc_base p))] @ str_entry ''apiType'' (pc_type p)
     @ str_entry ''authType'' (pc_auth p) @ (if pc_models p = [] then [] else [(''models'', GList (pc_models p))])"

definition provider_of :: "(string \<times> gval) list \<Rightarrow> provider_config" where
  "provider_of d =
     \<lparr>pc_key = as_str (map_of d ''apiKey''), pc_base = as_str (map_of d ''apiBase''),
      pc_type = (let t = as_str (map_of d ''apiType'') in if t = [] then as_str (map_of d ''api'') else t),
      pc_auth = as_str (map_of d ''authType''),
      pc_models = (case map_of d ''models'' of Some (GList l) \<Rightarrow> l | _ \<Rightarrow> [])\<rparr>"

text \<open>A request; \<open>None\<close> for models that are not sent.\<close>

record provider_request =
  rq_scope :: string
  rq_scope_id :: string
  rq_name :: string
  rq_base :: string
  rq_key :: string
  rq_type :: string
  rq_auth :: string
  rq_models :: "gval list option"

definition list_providers ::
    "(string \<Rightarrow> bool option) \<Rightarrow> (char \<Rightarrow> char) \<Rightarrow> caller option \<Rightarrow> string \<Rightarrow> string \<Rightarrow> config_table \<Rightarrow> scoped_reply" where
  "list_providers agents f who q_scope q_id rows =
     (case scope_from_query who q_scope q_id of
        (sc, sid) \<Rightarrow>
          (case authorize_scope agents who sc sid False of
             Some e \<Rightarrow> e
           | None \<Rightarrow> Sc_rows (map (\<lambda>r. let p = provider_of (cf_data r) in r\<lparr>cf_data := provider_data (p\<lparr>pc_key := mask_api_key (pc_key p)\<rparr>)\<rparr>)
                        (list_configs_by_scope f ''provider'' sc sid rows))))"

definition create_provider ::
    "string \<Rightarrow> int \<Rightarrow> (string \<Rightarrow> bool option) \<Rightarrow> caller option \<Rightarrow> string \<Rightarrow> string \<Rightarrow> provider_request option
     \<Rightarrow> config_table \<Rightarrow> scoped_reply \<times> config_table" where
  "create_provider fresh now agents who q_scope q_id req rows =
     (if who = None then (Sc_unauthorized, rows)
      else case req of
        None \<Rightarrow> (Sc_bad ''invalid JSON'', rows)
      | Some q \<Rightarrow>
          if rq_name q = [] then (Sc_bad ''name required'', rows)
          else (case (if rq_scope q = [] then scope_from_query who q_scope q_id else (rq_scope q, rq_scope_id q)) of
                  (sc, sid) \<Rightarrow>
                    (case authorize_scope agents who sc sid True of
                       Some e \<Rightarrow> (e, rows)
                     | None \<Rightarrow>
                         (let p = \<lparr>pc_key = rq_key q, pc_base = rq_base q, pc_type = rq_type q, pc_auth = rq_auth q,
                                   pc_models = (case rq_models q of None \<Rightarrow> [] | Some l \<Rightarrow> l)\<rparr>
                          in case save_provider_by_scope fresh now sc sid (rq_name q) (provider_data p) rows of
                               Inl e \<Rightarrow> (Sc_error e, rows)
                             | Inr rows' \<Rightarrow> (Sc_ok, rows')))))"

definition patch_provider :: "provider_request \<Rightarrow> provider_config \<Rightarrow> provider_config" where
  "patch_provider q p =
     \<lparr>pc_key = (if rq_key q \<noteq> [] \<and> \<not> is_masked_secret (rq_key q) then rq_key q else pc_key p),
      pc_base = (if rq_base q \<noteq> [] then rq_base q else pc_base p),
      pc_type = (if rq_type q \<noteq> [] then rq_type q else pc_type p),
      pc_auth = (if rq_auth q \<noteq> [] then rq_auth q else pc_auth p),
      pc_models = (case rq_models q of None \<Rightarrow> pc_models p | Some l \<Rightarrow> l)\<rparr>"

definition owned_config :: "(string \<Rightarrow> bool option) \<Rightarrow> caller option \<Rightarrow> string \<Rightarrow> string \<Rightarrow> config_table \<Rightarrow> scoped_reply + config_row" where
  "owned_config agents who kind rid rows =
     (if who = None then Inl Sc_unauthorized
      else case get_config rid rows of
        None \<Rightarrow> Inl Sc_not_found
      | Some r \<Rightarrow>
          if cf_kind r \<noteq> kind then Inl Sc_not_found
          else (case authorize_scope agents who (legacy_scope r) (legacy_scope_id r) True of
                  Some e \<Rightarrow> Inl e
                | None \<Rightarrow> Inr r))"

definition update_provider ::
    "string \<Rightarrow> int \<Rightarrow> (string \<Rightarrow> bool option) \<Rightarrow> caller option \<Rightarrow> string \<Rightarrow> provider_request option
     \<Rightarrow> config_table \<Rightarrow> scoped_reply \<times> config_table" where
  "update_provider fresh now agents who rid req rows =
     (case owned_config agents who ''provider'' rid rows of
        Inl e \<Rightarrow> (e, rows)
      | Inr r \<Rightarrow>
          (case req of
             None \<Rightarrow> (Sc_bad ''invalid JSON'', rows)
           | Some q \<Rightarrow>
               (case save_provider_by_scope fresh now (legacy_scope r) (legacy_scope_id r) (cf_name r)
                       (provider_data (patch_provider q (provider_of (cf_data r)))) rows of
                  Inl e \<Rightarrow> (Sc_error e, rows)
                | Inr rows' \<Rightarrow> (Sc_ok, rows'))))"

definition delete_provider :: "(string \<Rightarrow> bool option) \<Rightarrow> caller option \<Rightarrow> string \<Rightarrow> config_table \<Rightarrow> scoped_reply \<times> config_table" where
  "delete_provider agents who rid rows =
     (case owned_config agents who ''provider'' rid rows of
        Inl e \<Rightarrow> (e, rows)
      | Inr r \<Rightarrow> (Sc_ok, delete_config rid rows))"

section \<open>Channels\<close>

definition credential_key_for :: "string \<Rightarrow> string \<Rightarrow> string" where
  "credential_key_for token key =
     (if key \<noteq> [] then key else if token = [] then [] else if length token \<le> 12 then token else drop (length token - 12) token)"

text \<open>The error, if any, and the configuration rows, from which a replaced binding is taken away.\<close>

definition assert_channel_credential_unique ::
    "string \<Rightarrow> string \<Rightarrow> string \<Rightarrow> string \<Rightarrow> string \<Rightarrow> bool \<Rightarrow> config_table \<Rightarrow> string option \<times> config_table" where
  "assert_channel_credential_unique ty cred exclude user agent replace rows =
     (if cred = [] then (None, rows)
      else case lookup_channel_by_credential ty cred rows of
        None \<Rightarrow> (None, rows)
      | Some r \<Rightarrow>
          if cf_id r = exclude then (None, rows)
          else if cf_user r = user \<and> cf_agent r = agent \<and> cf_name r = ty then (None, rows)
          else if replace then (None, delete_config (cf_id r) rows)
          else (Some (''this bot is already connected at '' @
                        (if cf_agent r \<noteq> [] then ''agent '' @ cf_agent r else if cf_user r \<noteq> [] then ''user '' @ cf_user r else legacy_scope r)
                        @ '' '' @ [CHR 0xE2, CHR 0x80, CHR 0x94] @ '' disconnect it there first''), rows))"

record channel_request =
  cq_scope :: string
  cq_scope_id :: string
  cq_type :: string
  cq_enabled :: bool
  cq_bot :: string
  cq_app :: string
  cq_cred :: string

definition scoped_channel :: "string \<Rightarrow> string \<Rightarrow> string \<Rightarrow> string \<Rightarrow> bool \<Rightarrow> channel_config \<Rightarrow> channel_row" where
  "scoped_channel user agent ty cred enabled cc =
     \<lparr>ch_id = [], ch_user = user, ch_agent = agent, ch_type = ty, ch_account = cred, ch_enabled = enabled, ch_token = cc_bot cc,
      ch_url = [], ch_platform_user = [], ch_shared = False, ch_data = channel_data cc, ch_created = 0, ch_updated = 0\<rparr>"

definition list_scoped_channels ::
    "(string \<Rightarrow> bool option) \<Rightarrow> (char \<Rightarrow> char) \<Rightarrow> caller option \<Rightarrow> string \<Rightarrow> string \<Rightarrow> config_table \<Rightarrow> scoped_reply" where
  "list_scoped_channels agents f who q_scope q_id rows =
     (case scope_from_query who q_scope q_id of
        (sc, sid) \<Rightarrow>
          (case authorize_scope agents who sc sid False of
             Some e \<Rightarrow> e
           | None \<Rightarrow> Sc_rows (list_configs_by_scope f ''channel'' sc sid rows)))"

definition create_scoped_channel ::
    "string \<Rightarrow> int \<Rightarrow> (string \<Rightarrow> bool option) \<Rightarrow> caller option \<Rightarrow> string \<Rightarrow> string \<Rightarrow> channel_request option
     \<Rightarrow> config_table \<times> channel_table \<Rightarrow> scoped_reply \<times> config_table \<times> channel_table" where
  "create_scoped_channel fresh now agents who q_scope q_id req = (\<lambda>(rows, chans).
     (if who = None then (Sc_unauthorized, rows, chans)
      else case req of
        None \<Rightarrow> (Sc_bad ''invalid JSON'', rows, chans)
      | Some q \<Rightarrow>
          if cq_type q = [] then (Sc_bad ''type required'', rows, chans)
          else (case (if cq_scope q = [] then scope_from_query who q_scope q_id else (cq_scope q, cq_scope_id q)) of
                  (sc, sid) \<Rightarrow>
                    (case authorize_scope agents who sc sid True of
                       Some e \<Rightarrow> (e, rows, chans)
                     | None \<Rightarrow>
                         (case ownership_from_scope sc sid of
                            (u, a) \<Rightarrow>
                              (let cred = credential_key_for (cq_bot q) (cq_cred q);
                                   cc = \<lparr>cc_enabled = cq_enabled q, cc_bot = cq_bot q, cc_app = cq_app q, cc_accounts = []\<rparr>
                               in case assert_channel_credential_unique (cq_type q) cred [] [] a False rows of
                                    (Some e, rows') \<Rightarrow> (Sc_conflict e, rows', chans)
                                  | (None, rows') \<Rightarrow>
                                      (case save_channel fresh now (scoped_channel u a (cq_type q) cred (cq_enabled q) cc) chans of
                                         Inl e \<Rightarrow> (Sc_error e, rows', chans)
                                       | Inr (_, chans') \<Rightarrow> (Sc_ok, rows', chans'))))))))"

definition update_scoped_channel ::
    "string \<Rightarrow> int \<Rightarrow> (string \<Rightarrow> bool option) \<Rightarrow> caller option \<Rightarrow> string \<Rightarrow> channel_request option
     \<Rightarrow> config_table \<times> channel_table \<Rightarrow> scoped_reply \<times> config_table \<times> channel_table" where
  "update_scoped_channel fresh now agents who rid req = (\<lambda>(rows, chans).
     (case owned_config agents who ''channel'' rid rows of
        Inl e \<Rightarrow> (e, rows, chans)
      | Inr r \<Rightarrow>
          (case req of
             None \<Rightarrow> (Sc_bad ''invalid JSON'', rows, chans)
           | Some q \<Rightarrow>
               (let old = channel_config_of False (cf_data r);
                    cc = old\<lparr>cc_bot := (if cq_bot q \<noteq> [] \<and> \<not> is_masked_secret (cq_bot q) then cq_bot q else cc_bot old),
                             cc_app := (if cq_app q \<noteq> [] \<and> \<not> is_masked_secret (cq_app q) then cq_app q else cc_app old)\<rparr>;
                    cred = credential_key_for (cc_bot cc) (cq_cred q)
                in case (if cred \<noteq> cf_credential r
                         then assert_channel_credential_unique (cf_name r) cred (cf_id r) (cf_user r) (cf_agent r) False rows
                         else (None, rows)) of
                     (Some e, rows') \<Rightarrow> (Sc_conflict e, rows', chans)
                   | (None, rows') \<Rightarrow>
                       (case save_channel fresh now (scoped_channel (cf_user r) (cf_agent r) (cf_name r) cred (cq_enabled q) cc) chans of
                          Inl e \<Rightarrow> (Sc_error e, rows', chans)
                        | Inr (_, chans') \<Rightarrow> (Sc_ok, rows', chans'))))))"

definition drop_channel :: "string \<Rightarrow> string \<Rightarrow> channel_table \<Rightarrow> channel_table" where
  "drop_channel ty account chans = (case lookup_channel ty account chans of None \<Rightarrow> chans | Some ch \<Rightarrow> delete_channel (ch_id ch) chans)"

definition delete_scoped_channel ::
    "(string \<Rightarrow> bool option) \<Rightarrow> caller option \<Rightarrow> string \<Rightarrow> config_table \<times> channel_table \<Rightarrow> scoped_reply \<times> config_table \<times> channel_table" where
  "delete_scoped_channel agents who rid = (\<lambda>(rows, chans).
     (case owned_config agents who ''channel'' rid rows of
        Inl e \<Rightarrow> (e, rows, chans)
      | Inr r \<Rightarrow>
          (let accounts = accounts_of (cf_data r)
           in (Sc_ok, delete_config rid rows,
               if accounts = [] then drop_channel (cf_name r) (cf_credential r) chans
               else fold (\<lambda>(account, _). drop_channel (cf_name r) account) accounts chans))))"

end
