(* ===== verification/Config_Laws.thy ===== *)
theory Config_Laws
  imports Config_Scope
begin

text \<open>
  What the resolution of \<^verbatim>\<open>internal/scope\<close> sees of a write: settings of the system and
  of an agent are read back, those of a user never are.
\<close>

section \<open>Reading a layer\<close>

definition layer_data :: "string \<Rightarrow> string \<Rightarrow> config_table \<Rightarrow> (string \<times> gval) list" where
  "layer_data sid ns rows = (case find_row config_key (''setting'', sid, ns) rows of None \<Rightarrow> [] | Some r \<Rightarrow> cf_data r)"

lemma scope_id_simps [simp]:
  "compute_scope_id [] a = a" "compute_scope_id u [] = u" "compute_scope_id u a = [] \<longleftrightarrow> u = [] \<and> a = []"
  "u \<noteq> [] \<Longrightarrow> a \<noteq> [] \<Longrightarrow> compute_scope_id u a = u @ ''/'' @ a"
  by (auto simp: compute_scope_id_def)

lemma merge_layer_map: "map_of (merge_layer layer out) = map_of out ++ map_of (rev layer)"
  unfolding merge_layer_def
  by (induction layer arbitrary: out) (auto simp: update_conv' map_add_def fun_eq_iff split: option.splits)

lemma merge_layer_distinct: "distinct (map fst layer) \<Longrightarrow> map_of (merge_layer layer out) = map_of out ++ map_of layer"
  using map_of_inject_set [of "rev layer" layer] by (simp add: merge_layer_map rev_map [symmetric])

lemma try_get_layer: "try_get ns agent rows out = merge_layer (layer_data agent ns rows) out"
  by (simp add: try_get_def layer_data_def get_config_by_name_def merge_layer_def split: option.split)

lemma setting_layers:
  "setting ns user agent rows
    = (if agent = [] then merge_layer (layer_data [] ns rows) []
       else merge_layer (layer_data agent ns rows) (merge_layer (layer_data [] ns rows) []))"
  by (simp add: setting_def try_get_layer)

lemma tz_layer: "tz_of (get_config_by_name ''setting'' agent ''prefs'' rows) = as_str (map_of (layer_data agent ''prefs'' rows) ''timezone'')"
  by (simp add: tz_of_def get_config_by_name_def layer_data_def as_str_def split: option.split)

lemma timezone_layers:
  "timezone user agent rows
    = (let tz = as_str (map_of (layer_data agent ''prefs'' rows) ''timezone'')
       in if tz \<noteq> [] then tz else as_str (map_of (layer_data [] ''prefs'' rows) ''timezone''))"
  by (simp add: timezone_def tz_layer Let_def)

lemma prefs_layer: "prefs_base agent rows = merge_layer (layer_data agent ''prefs'' rows) []"
  by (simp add: prefs_base_def get_config_by_name_def layer_data_def merge_layer_def split: option.split)

section \<open>A write and the layers\<close>

definition write_key :: "config_row \<Rightarrow> string \<times> string \<times> string" where
  "write_key c = (cf_kind c, if cf_scope_id c = [] then compute_scope_id (cf_user c) (cf_agent c) else cf_scope_id c, cf_name c)"

lemma layer_elsewhere:
  assumes "save_config fresh now c rows = Inr rows'" and "(''setting'', sid, ns) \<noteq> write_key c"
  shows "layer_data sid ns rows' = layer_data sid ns rows"
  unfolding layer_data_def config_write_elsewhere [OF assms(1) assms(2) [unfolded write_key_def]] ..

lemma layer_here:
  assumes "save_config fresh now c rows = Inr rows'" and "(''setting'', sid, ns) = write_key c"
  shows "layer_data sid ns rows' = cf_data c"
  using config_write_here [OF assms(1) assms(2) [unfolded write_key_def]] by (auto simp: layer_data_def)

lemma list_elsewhere:
  assumes "save_config fresh now c rows = Inr rows'" and "cf_scope_id c = []" and "agent \<noteq> compute_scope_id (cf_user c) (cf_agent c)"
  shows "list_configs kind agent rows' = list_configs kind agent rows"
proof -
  have "filter (\<lambda>r. cf_kind r = kind \<and> cf_scope_id r = agent) rows' = filter (\<lambda>r. cf_kind r = kind \<and> cf_scope_id r = agent) rows"
    unfolding save_config_row [OF assms(1)]
    by (rule cfg.filter_upsert) (use assms(2,3) in \<open>auto simp: config_key_def new_config_def stored_def\<close>)
  then show ?thesis by (simp add: list_configs_def)
qed

lemma setting_row_key: "write_key (setting_row kind user agent name en data) = (kind, compute_scope_id user agent, name)"
    "cf_data (setting_row kind user agent name en data) = data" "cf_scope_id (setting_row kind user agent name en data) = []"
    "cf_user (setting_row kind user agent name en data) = user" "cf_agent (setting_row kind user agent name en data) = agent"
  by (simp_all add: setting_row_def write_key_def)

text \<open>
  C22. A setting that is saved for an agent or for the system is read back over the system's, and no other
  setting is changed by it.
\<close>
theorem saved_setting_is_read_back:
  assumes "save_setting fresh now [] agent ns data rows = Inr rows'" and "data \<noteq> []" and "distinct (map fst data)"
  shows "map_of (setting ns user agent rows') = (if agent = [] then map_of data else map_of (setting ns user [] rows) ++ map_of data)
    \<and> (ns' \<noteq> ns \<or> agent \<noteq> [] \<and> other \<noteq> agent \<longrightarrow> setting ns' user other rows' = setting ns' user other rows)"
proof -
  let ?c = "setting_row ''setting'' [] agent ns True data"
  have saved: "save_config fresh now ?c rows = Inr rows'" using assms(1,2) by (simp add: save_setting_def)
  have here: "layer_data agent ns rows' = data"
    using layer_here [OF saved, of agent ns] by (simp add: setting_row_key)
  have rest: "layer_data sid nn rows' = layer_data sid nn rows" if "sid \<noteq> agent \<or> nn \<noteq> ns" for sid nn
    by (rule layer_elsewhere [OF saved]) (use that in \<open>simp add: setting_row_key\<close>)
  have "map_of (setting ns user agent rows') = (if agent = [] then map_of data else map_of (setting ns user [] rows) ++ map_of data)"
    using here rest [of "[]" ns] assms(3) by (cases "agent = []") (simp_all add: setting_layers merge_layer_distinct)
  moreover have "setting ns' user other rows' = setting ns' user other rows" if "ns' \<noteq> ns \<or> agent \<noteq> [] \<and> other \<noteq> agent"
    using that rest [of "[]" ns'] rest [of other ns'] by (auto simp: setting_layers)
  ultimately show ?thesis by blast
qed

lemma saved_example:
  "save_setting fresh now user agent ns [(k, v)] []
    = Inr [stored ((setting_row ''setting'' user agent ns True [(k, v)])\<lparr>cf_scope := compute_scope user agent,
             cf_scope_id := compute_scope_id user agent, cf_created := now, cf_updated := now, cf_id := fresh\<rparr>)]"
  if "ns \<noteq> []"
  using that by (simp add: save_setting_def save_config_def setting_row_def Let_def upsert_row_def)

theorem saved_setting_is_read_back_witness:
  "\<exists>rows'. save_setting ''id'' 1 [] ''bot'' ''memory'' [(''on'', GBool True)] [] = Inr rows'
    \<and> map_of (setting ''memory'' ''u'' ''bot'' rows') ''on'' = Some (GBool True)"
proof -
  obtain rows' where s: "save_setting ''id'' 1 [] ''bot'' ''memory'' [(''on'', GBool True)] [] = Inr rows'"
    using saved_example [of "''memory''" "''id''" 1 "[]" "''bot''" "''on''" "GBool True"] by auto
  from saved_setting_is_read_back [OF s, of "''u''"] show ?thesis by (intro exI [of _ rows'] conjI s) simp
qed

text \<open>
  C21. What is written for a user is never read: neither the settings nor the providers nor the time zone
  that any turn resolves change when a row of a user, or of a user and an agent, is saved.
\<close>
theorem rows_of_users_are_never_read:
  assumes "save_config fresh now c rows = Inr rows'" and "cf_scope_id c = []" and "cf_user c \<noteq> []"
    and "agent \<noteq> compute_scope_id (cf_user c) (cf_agent c)"
  shows "setting ns user agent rows' = setting ns user agent rows
    \<and> providers conv user agent rows' = providers conv user agent rows
    \<and> timezone user agent rows' = timezone user agent rows"
proof -
  have "(''setting'', [], nn) \<noteq> write_key c" "(''setting'', agent, nn) \<noteq> write_key c" for nn
    using assms(2-4) scope_id_simps(3) [of "cf_user c" "cf_agent c"] by (auto simp: write_key_def simp del: scope_id_simps)
  note same = layer_elsewhere [OF assms(1) this(1)] layer_elsewhere [OF assms(1) this(2)]
  have "list_configs ''provider'' [] rows' = list_configs ''provider'' [] rows"
    by (rule list_elsewhere [OF assms(1,2)]) (use assms(3) scope_id_simps(3) [of "cf_user c" "cf_agent c"] in metis)
  with list_elsewhere [OF assms(1,2,4)] same show ?thesis
    by (simp add: setting_layers timezone_layers providers_def Let_def)
qed

theorem rows_of_users_are_never_read_witness:
  "\<exists>rows'. save_setting ''id'' 1 ''u'' [] ''prefs'' [(''timezone'', GStr ''Asia/Shanghai'')] [] = Inr rows'
    \<and> timezone ''u'' ''bot'' rows' = []"
proof -
  let ?c = "setting_row ''setting'' ''u'' [] ''prefs'' True [(''timezone'', GStr ''Asia/Shanghai'')]"
  obtain rows' where s: "save_setting ''id'' 1 ''u'' [] ''prefs'' [(''timezone'', GStr ''Asia/Shanghai'')] [] = Inr rows'"
    using saved_example [of "''prefs''" "''id''" 1 "''u''" "[]" "''timezone''" "GStr ''Asia/Shanghai''"] by auto
  then have c: "save_config ''id'' 1 ?c [] = Inr rows'" by (simp add: save_setting_def)
  have "timezone ''u'' ''bot'' rows' = timezone ''u'' ''bot'' []"
    by (rule rows_of_users_are_never_read [OF c, of "''bot''" "[]" "''u''" cf_name, THEN conjunct2, THEN conjunct2])
      (simp_all add: setting_row_key)
  then show ?thesis using s by (simp add: timezone_layers layer_data_def as_str_def)
qed

text \<open>
  A second preference erases the first: the tool reads the row of the agent and writes the row of the
  user and the agent, so that after two calls with different keys only the second value is stored.
\<close>
lemma second_preference_erases_first:
  assumes "set_preference f1 t1 user agent k1 v1 rows = Inr rows1" and "set_preference f2 t2 user agent k2 v2 rows1 = Inr rows2"
    and "k1 \<noteq> k2"
  shows "map_of (layer_data (user @ ''/'' @ agent) ''prefs'' rows2) k1 = map_of (prefs_base agent rows) k1
    \<and> map_of (layer_data (user @ ''/'' @ agent) ''prefs'' rows2) k2 = Some (GStr v2)
    \<and> setting ''prefs'' user agent rows2 = setting ''prefs'' user agent rows"
proof -
  have ok: "user \<noteq> []" "agent \<noteq> []" using assms(1) by (auto simp: set_preference_def split: if_splits)
  have save: "save_config f t (setting_row ''setting'' user agent ''prefs'' True (AList.update k (GStr v) (prefs_base agent rs))) rs = Inr rs'"
    if "set_preference f t user agent k v rs = Inr rs'" for f t k v rs rs'
    using that by (auto simp: set_preference_def save_setting_def update_nonempty split: if_splits)
  have other: "layer_data sid ''prefs'' rs' = layer_data sid ''prefs'' rs"
    if "set_preference f t user agent k v rs = Inr rs'" "sid \<noteq> user @ ''/'' @ agent" for f t k v rs rs' sid
    by (rule layer_elsewhere [OF save [OF that(1)]]) (use that(2) ok in \<open>simp add: setting_row_key\<close>)
  have base: "prefs_base agent rows1 = prefs_base agent rows"
    using other [OF assms(1), of agent] by (simp add: prefs_layer)
  have "layer_data (user @ ''/'' @ agent) ''prefs'' rows2 = AList.update k2 (GStr v2) (prefs_base agent rows)"
    using layer_here [OF save [OF assms(2)], of "user @ ''/'' @ agent" "''prefs''"] ok base by (simp add: setting_row_key)
  moreover have "setting ''prefs'' user agent rows2 = setting ''prefs'' user agent rows"
    using ok other [OF assms(1), of agent] other [OF assms(2), of agent] other [OF assms(1), of "[]"] other [OF assms(2), of "[]"]
    by (simp add: setting_layers)
  ultimately show ?thesis using assms(3) by (simp add: update_conv')
qed

theorem second_preference_erases_first_witness:
  "\<exists>rows1 rows2. set_preference ''a'' 1 ''u'' ''bot'' ''language'' ''en'' [] = Inr rows1
    \<and> set_preference ''b'' 2 ''u'' ''bot'' ''timezone'' ''UTC'' rows1 = Inr rows2
    \<and> map_of (layer_data ''u/bot'' ''prefs'' rows2) ''language'' = None"
proof -
  let ?row = "\<lambda>v t. stored ((setting_row ''setting'' ''u'' ''bot'' ''prefs'' True v)\<lparr>cf_scope := ''user-agent'', cf_scope_id := ''u/bot'',
      cf_created := 1, cf_updated := t, cf_id := ''a''\<rparr>)"
  have s1: "set_preference ''a'' 1 ''u'' ''bot'' ''language'' ''en'' [] = Inr [?row [(''language'', GStr ''en'')] 1]"
    by (simp add: set_preference_def save_setting_def save_config_def setting_row_def Let_def upsert_row_def prefs_base_def
        get_config_by_name_def compute_scope_def)
  have s2: "set_preference ''b'' 2 ''u'' ''bot'' ''timezone'' ''UTC'' [?row [(''language'', GStr ''en'')] 1]
      = Inr [?row [(''timezone'', GStr ''UTC'')] 2]"
    by (simp add: set_preference_def save_setting_def save_config_def setting_row_def Let_def upsert_row_def prefs_base_def
        get_config_by_name_def compute_scope_def config_key_def stored_def merge_config_def)
  from second_preference_erases_first [OF s1 s2] s1 s2 show ?thesis
    by (intro exI conjI) (assumption, assumption, simp add: prefs_base_def get_config_by_name_def config_key_def stored_def)
qed

section \<open>Further cases\<close>

text \<open>Clearing a setting of a user drops the row of the system and keeps the row of the user.\<close>

lemma clearing_user_setting_drops_system:
  assumes "config_ok rows" and "find_row config_key (''setting'', [], ns) rows = Some r" and "user \<noteq> []"
  shows "\<exists>rows'. save_setting fresh now user [] ns [] rows = Inr rows' \<and> find_row config_key (''setting'', [], ns) rows' = None
    \<and> find_row config_key (''setting'', user, ns) rows' = find_row config_key (''setting'', user, ns) rows"
proof -
  have get: "save_setting fresh now user [] ns [] rows = Inr (delete_config (cf_id r) rows)"
    using assms(2) by (simp add: save_setting_def get_config_by_name_def)
  from find_row_some [OF assms(2)] have r: "r \<in> set rows" "config_key r = (''setting'', [], ns)" by simp_all
  have inj: "x = y" if "x \<in> set rows" "y \<in> set rows" "cf_id x = cf_id y \<or> config_key x = config_key y" for x y
    using that assms(1) by (auto simp: config_ok_def distinct_map inj_on_def)
  have none: "find_row config_key (''setting'', [], ns) (delete_config (cf_id r) rows) = None"
  proof (unfold find_row_none, rule notI)
    assume "(''setting'', [], ns) \<in> set (map config_key (delete_config (cf_id r) rows))"
    then obtain x where x: "x \<in> set rows" "cf_id x \<noteq> cf_id r" "config_key x = config_key r" using r(2) by (auto simp: delete_config_def)
    from inj [OF x(1) r(1)] x(2,3) show False by blast
  qed
  have "find_row config_key k (filter (\<lambda>x. cf_id x \<noteq> cf_id r) rs) = find_row config_key k rs"
    if "set rs \<subseteq> set rows" "k = (''setting'', user, ns)" for rs k
    using that
  proof (induction rs)
    case (Cons x rs)
    then show ?case using inj [of x r] r assms(3) by (auto simp: config_key_def)
  qed simp
  with get none show ?thesis by (auto simp: delete_config_def)
qed

text \<open>Choosing a model drops every other override of the agent, while a patch keeps them.\<close>

lemma model_change_drops_overrides:
  assumes "save_agent_scope_model fresh now agent model rows = Inr rows'" and "trim_space model \<noteq> []"
  shows "layer_data agent ''agents.defaults'' rows' = [(''model'', GStr (trim_space model))]"
proof -
  have "save_config fresh now (setting_row ''setting'' [] agent ''agents.defaults'' True [(''model'', GStr (trim_space model))]) rows = Inr rows'"
    using assms by (simp add: save_agent_scope_model_def save_setting_by_scope_def ownership_from_scope_def save_setting_def Let_def)
  from layer_here [OF this, of agent "''agents.defaults''"] show ?thesis by (simp add: setting_row_key)
qed

lemma patch_defaults_map:
  "map_of (patch_defaults patch data) k
    = (case map_of (rev patch) k of None \<Rightarrow> map_of data k | Some v \<Rightarrow> v)"
  unfolding patch_defaults_def
  by (induction patch arbitrary: data) (auto simp: update_conv' delete_conv' split: option.splits)

lemma user_timezone_is_read:
  assumes "save_user_timezone fresh now user tz rows = Inr rows'" and "tz \<noteq> []"
    and "as_str (map_of (layer_data agent ''prefs'' rows') ''timezone'') = []"
  shows "timezone user agent rows' = tz"
proof -
  have "save_config fresh now (setting_row ''setting'' [] [] ''prefs'' True (AList.update ''timezone'' (GStr tz) (prefs_base [] rows))) rows = Inr rows'"
    using assms(1) by (auto simp: save_user_timezone_def save_setting_def update_nonempty split: if_splits)
  from layer_here [OF this, of "[]" "''prefs''"]
  have "map_of (layer_data [] ''prefs'' rows') ''timezone'' = Some (GStr tz)" by (simp add: setting_row_key update_conv')
  with assms(2,3) show ?thesis by (simp add: timezone_layers as_str_def)
qed

end
