(* ===== verification/Config_Edit_Laws.thy ===== *)
theory Config_Edit_Laws
  imports Config_Handlers Config_Laws
begin

text \<open>
  What the endpoints of \<^verbatim>\<open>internal/setup/handlers_scoped.go\<close> protect: the rows of
  others, the masked keys, and, not at all, the bots of others.
\<close>

section \<open>Sequences of edits\<close>

datatype provider_edit =
    Create_provider string string "provider_request option"
  | Update_provider string "provider_request option"
  | Delete_provider string

definition provider_step ::
    "(string \<Rightarrow> bool option) \<Rightarrow> caller option \<Rightarrow> string \<times> int \<times> provider_edit \<Rightarrow> config_table \<Rightarrow> config_table" where
  "provider_step agents who = (\<lambda>(fresh, now, e) rows.
     (case e of
        Create_provider qs qi req \<Rightarrow> snd (create_provider fresh now agents who qs qi req rows)
      | Update_provider rid req \<Rightarrow> snd (update_provider fresh now agents who rid req rows)
      | Delete_provider rid \<Rightarrow> snd (delete_provider agents who rid rows)))"

definition provider_run ::
    "(string \<Rightarrow> bool option) \<Rightarrow> caller option \<Rightarrow> (string \<times> int \<times> provider_edit) list \<Rightarrow> config_table \<Rightarrow> config_table" where
  "provider_run agents who es rows = fold (provider_step agents who) es rows"

definition rows_of_others :: "string \<Rightarrow> config_table \<Rightarrow> config_table" where
  "rows_of_others user rows = List.filter (\<lambda>r. cf_scope_id r \<noteq> user) rows"

lemma write_allowed:
  assumes "authorize_scope agents (Some c) sc sid True = None" and "\<not> ca_super c"
  shows "sc = ''user'' \<and> sid = ca_user c"
  using assms by (auto simp: authorize_scope_def split: if_splits option.splits)

lemma save_own_provider:
  assumes "save_provider_by_scope fresh now ''user'' user name data rows = Inr rows'"
  shows "rows_of_others user rows' = rows_of_others user rows \<and> (config_ok rows \<longrightarrow> config_ok rows')"
proof -
  have s: "save_config fresh now (setting_row ''provider'' user [] name True data) rows = Inr rows'"
    using assms by (simp add: save_provider_by_scope_def ownership_from_scope_def save_provider_def)
  have "rows_of_others user rows' = rows_of_others user rows"
    unfolding rows_of_others_def save_config_row [OF s]
    by (rule cfg.filter_upsert) (auto simp: config_key_def new_config_def setting_row_def stored_def)
  with save_keeps_ok [OF _ s] show ?thesis by blast
qed

lemma owned_config_own:
  assumes "owned_config agents (Some c) kind rid rows = Inr r" and "\<not> ca_super c"
  shows "\<exists>x. find_row cf_id rid rows = Some x \<and> r = scan_config x \<and> cf_kind x = kind \<and> cf_scope_id x = ca_user c
    \<and> legacy_scope r = ''user'' \<and> legacy_scope_id r = ca_user c"
proof -
  obtain x where x: "find_row cf_id rid rows = Some x" "r = scan_config x" "cf_kind x = kind"
    and a: "authorize_scope agents (Some c) (legacy_scope r) (legacy_scope_id r) True = None"
    using assms(1) by (auto simp: owned_config_def get_config_def split: option.splits if_splits)
  from write_allowed [OF a assms(2)] have own: "legacy_scope r = ''user''" "legacy_scope_id r = ca_user c" by simp_all
  have "cf_scope x = ''user''"
    using own(1) x(2) by (auto simp: legacy_scope_def compute_scope_def scan_config_def Let_def stored_def split: if_splits)
  then have "cf_scope_id x = ca_user c"
    using own(2) x(2) by (simp add: legacy_scope_id_def scan_config_def Let_def stored_def)
  with x own show ?thesis by blast
qed

lemma delete_own_row:
  assumes "config_ok rows" and "find_row cf_id rid rows = Some x" and "cf_scope_id x = user"
  shows "rows_of_others user (delete_config rid rows) = rows_of_others user rows"
proof -
  have "cf_scope_id y = user" if "y \<in> set rows" "cf_id y = rid" for y
    using find_row_some [OF assms(2)] that assms(1,3) by (auto simp: config_ok_def distinct_map inj_on_def)
  then have "filter (\<lambda>r. cf_scope_id r \<noteq> user) (filter (\<lambda>r. cf_id r \<noteq> rid) rows) = filter (\<lambda>r. cf_scope_id r \<noteq> user) rows"
    unfolding filter_filter by (intro filter_cong) auto
  then show ?thesis by (simp add: rows_of_others_def delete_config_def)
qed

lemma provider_step_own:
  assumes "config_ok rows" and "\<not> ca_super c"
  shows "rows_of_others (ca_user c) (provider_step agents (Some c) e rows) = rows_of_others (ca_user c) rows
    \<and> config_ok (provider_step agents (Some c) e rows)"
proof -
  obtain fresh now k where e: "e = (fresh, now, k)" by (metis surj_pair)
  show ?thesis
  proof (cases k)
    case (Create_provider qs qi req)
    show ?thesis
    proof (cases "snd (create_provider fresh now agents (Some c) qs qi req rows) = rows")
      case False
      then obtain sc sid name data where
          "authorize_scope agents (Some c) sc sid True = None"
          "save_provider_by_scope fresh now sc sid name data rows = Inr (snd (create_provider fresh now agents (Some c) qs qi req rows))"
        by (auto simp: create_provider_def Let_def split: option.splits if_splits prod.splits sum.splits)
      with write_allowed [OF this(1) assms(2)] save_own_provider assms(1) show ?thesis
        by (auto simp: e Create_provider provider_step_def)
    qed (use assms in \<open>simp add: e Create_provider provider_step_def\<close>)
  next
    case (Update_provider rid req)
    show ?thesis
    proof (cases "snd (update_provider fresh now agents (Some c) rid req rows) = rows")
      case False
      then obtain r data where r: "owned_config agents (Some c) ''provider'' rid rows = Inr r"
          "save_provider_by_scope fresh now (legacy_scope r) (legacy_scope_id r) (cf_name r) data rows
            = Inr (snd (update_provider fresh now agents (Some c) rid req rows))"
        by (auto simp: update_provider_def split: option.splits sum.splits)
      from owned_config_own [OF r(1) assms(2)] r(2)
      have "save_provider_by_scope fresh now ''user'' (ca_user c) (cf_name r) data rows
          = Inr (snd (update_provider fresh now agents (Some c) rid req rows))" by auto
      from save_own_provider [OF this] assms(1) show ?thesis by (simp add: e Update_provider provider_step_def)
    qed (use assms in \<open>simp add: e Update_provider provider_step_def\<close>)
  next
    case (Delete_provider rid)
    show ?thesis
    proof (cases "owned_config agents (Some c) ''provider'' rid rows")
      case (Inr r)
      from owned_config_own [OF Inr assms(2)] obtain x where "find_row cf_id rid rows = Some x" "cf_scope_id x = ca_user c" by auto
      from delete_own_row [OF assms(1) this] delete_keeps_ok [OF assms(1)] Inr show ?thesis
        by (simp add: e Delete_provider provider_step_def delete_provider_def)
    qed (use assms in \<open>simp add: e Delete_provider provider_step_def delete_provider_def\<close>)
  qed
qed

text \<open>
  C20. Whoever is not an administrator changes only his own rows: no sequence of requests to create, edit
  or delete providers touches a row of another owner, and the keys of the table stay unique.
\<close>
theorem rows_of_others_are_untouched:
  assumes "config_ok rows" and "\<not> ca_super c"
  shows "rows_of_others (ca_user c) (provider_run agents (Some c) es rows) = rows_of_others (ca_user c) rows
    \<and> config_ok (provider_run agents (Some c) es rows)"
  using assms(1)
proof (induction es arbitrary: rows)
  case (Cons e es)
  from provider_step_own [OF Cons.prems assms(2), of agents e]
    Cons.IH [of "provider_step agents (Some c) e rows"] show ?case by (simp add: provider_run_def)
qed (simp add: provider_run_def)

definition sample_request :: provider_request where
  "sample_request = \<lparr>rq_scope = ''user'', rq_scope_id = ''u'', rq_name = ''openai'', rq_base = ''https://api'', rq_key = ''sk'',
     rq_type = [], rq_auth = [], rq_models = None\<rparr>"

theorem rows_of_others_are_untouched_witness:
  "(let system = stored ((setting_row ''provider'' [] [] ''openai'' True [])\<lparr>cf_id := ''s'', cf_scope := ''system''\<rparr>);
        who = \<lparr>ca_user = ''u'', ca_super = False\<rparr>;
        rows' = provider_run (\<lambda>a. None) (Some who)
          [(''x'', 1, Create_provider [] [] (Some sample_request)), (''y'', 2, Delete_provider ''s''), (''z'', 3, Update_provider ''x'' None)] [system]
    in rows_of_others ''u'' rows' = [system] \<and> length rows' = 2)"
proof -
  let ?system = "stored ((setting_row ''provider'' [] [] ''openai'' True [])\<lparr>cf_id := ''s'', cf_scope := ''system''\<rparr>)"
  let ?who = "\<lparr>ca_user = ''u'', ca_super = False\<rparr>"
  let ?es = "[(''x'', 1, Create_provider [] [] (Some sample_request)), (''y'', 2, Delete_provider ''s''), (''z'', 3, Update_provider ''x'' None)]"
  have ok: "config_ok [?system]" by (simp add: config_ok_def)
  have "rows_of_others ''u'' (provider_run (\<lambda>a. None) (Some ?who) ?es [?system]) = rows_of_others ''u'' [?system]"
    using rows_of_others_are_untouched [OF ok, of ?who "\<lambda>a. None" ?es] by simp
  moreover have "rows_of_others ''u'' [?system] = [?system]" by (simp add: rows_of_others_def setting_row_def stored_def)
  moreover have "length (provider_run (\<lambda>a. None) (Some ?who) ?es [?system]) = 2"
    by (simp add: provider_run_def provider_step_def create_provider_def sample_request_def authorize_scope_def save_provider_by_scope_def
        ownership_from_scope_def save_provider_def save_config_def setting_row_def Let_def upsert_row_def config_key_def stored_def
        compute_scope_id_def compute_scope_def delete_provider_def update_provider_def owned_config_def get_config_def legacy_scope_def
        legacy_scope_id_def scan_config_def)
  ultimately show ?thesis by (simp add: Let_def)
qed

section \<open>Masked keys\<close>

lemma provider_round_trip: "provider_of (provider_data p) = p"
  by (cases p) (auto simp: provider_of_def provider_data_def str_entry_def as_str_def Let_def)

lemma sublist_contains: "s = p @ m @ t \<Longrightarrow> str_contains s m"
  unfolding str_contains_iff by blast

lemma mask_is_masked: "is_masked_secret (mask_api_key key)"
  by (auto simp: is_masked_secret_def mask_api_key_def intro: sublist_contains)

text \<open>Sending back what was listed changes nothing.\<close>

lemma listed_provider_can_be_resent:
  "patch_provider \<lparr>rq_scope = s, rq_scope_id = i, rq_name = n, rq_base = pc_base p, rq_key = mask_api_key (pc_key p), rq_type = pc_type p,
      rq_auth = pc_auth p, rq_models = Some (pc_models p)\<rparr> p = p"
  by (cases p) (simp add: patch_provider_def mask_is_masked)

text \<open>The edit of a row of a user and an agent goes to the row of the system.\<close>

lemma user_agent_edit_hits_system:
  assumes "find_row cf_id rid rows = Some x" and "cf_kind x = ''provider''" and "cf_scope x = ''user-agent''" and "ca_super c"
    and "update_provider fresh now agents (Some c) rid (Some q) rows = (Sc_ok, rows')"
  shows "save_provider fresh now [] [] (cf_name x) (provider_data (patch_provider q (provider_of (cf_data x)))) rows = Inr rows'"
proof -
  have "owned_config agents (Some c) ''provider'' rid rows = Inr (scan_config x)"
    using assms(1,2,4) by (simp add: owned_config_def get_config_def authorize_scope_def)
  then show ?thesis using assms(3,5)
    by (simp add: update_provider_def legacy_scope_def save_provider_by_scope_def ownership_from_scope_def split: sum.splits)
qed

section \<open>Channels\<close>

lemma unique_check_passes: "assert_channel_credential_unique ty cred exclude user agent replace rows = (None, rows)"
  by (simp add: assert_channel_credential_unique_def lookup_channel_by_credential_def)

text \<open>
  A bot can be taken over: creating a channel with the credential key of a bot that another user has
  bound succeeds, and the row then belongs to the caller.
\<close>
lemma bot_is_taken_over:
  assumes "lookup_channel (cq_type q) cred chans = Some old" and "cred = credential_key_for (cq_bot q) (cq_cred q)"
    and "cq_type q \<noteq> []" and "cred \<noteq> []" and "cq_scope q = ''user''" and "cq_scope_id q = ca_user c"
  shows "\<exists>chans' new. create_scoped_channel fresh now agents (Some c) qs qi (Some q) (rows, chans) = (Sc_ok, rows, chans')
    \<and> lookup_channel (cq_type q) cred chans' = Some new \<and> ch_id new = ch_id old \<and> ch_user new = ca_user c \<and> ch_agent new = []"
proof -
  let ?cc = "\<lparr>cc_enabled = cq_enabled q, cc_bot = cq_bot q, cc_app = cq_app q, cc_accounts = []\<rparr>"
  let ?ch = "scoped_channel (ca_user c) [] (cq_type q) cred (cq_enabled q) ?cc"
  let ?r = "?ch\<lparr>ch_created := now, ch_updated := now, ch_id := fresh\<rparr>"
  have key: "channel_key ?r = (cq_type q, cred)" by (simp add: channel_key_def scoped_channel_def)
  have old: "find_row channel_key (channel_key ?r) chans = Some old" using assms(1) by (simp add: key lookup_channel_def)
  then have "channel_key ?r \<in> set (map channel_key chans)"
    using find_row_none [of channel_key "channel_key ?r" chans] by (metis option.distinct(1))
  then have saved: "save_channel fresh now ?ch chans = Inr (?r, upsert_row channel_key merge_channel ?r chans)"
    using assms(3,4) by (simp add: save_channel_def scoped_channel_def Let_def)
  have "authorize_scope agents (Some c) ''user'' (ca_user c) True = None" by (simp add: authorize_scope_def)
  then have "create_scoped_channel fresh now agents (Some c) qs qi (Some q) (rows, chans)
      = (Sc_ok, rows, upsert_row channel_key merge_channel ?r chans)"
    using assms(2,3,5,6) saved by (simp add: create_scoped_channel_def ownership_from_scope_def unique_check_passes Let_def)
  moreover have "lookup_channel (cq_type q) cred (upsert_row channel_key merge_channel ?r chans) = Some (merge_channel old ?r)"
    using chan.find_upsert [of ?r chans] old by (simp add: lookup_channel_def key [symmetric])
  ultimately show ?thesis by (simp add: merge_channel_def scoped_channel_def)
qed

theorem bot_is_taken_over_witness:
  "(let old = scoped_channel ''alice'' ''bot'' ''telegram'' ''abc'' True \<lparr>cc_enabled = True, cc_bot = ''abc'', cc_app = [], cc_accounts = []\<rparr>;
        q = \<lparr>cq_scope = ''user'', cq_scope_id = ''eve'', cq_type = ''telegram'', cq_enabled = True, cq_bot = [], cq_app = [], cq_cred = ''abc''\<rparr>
    in \<exists>chans' new. create_scoped_channel ''x'' 1 (\<lambda>a. None) (Some \<lparr>ca_user = ''eve'', ca_super = False\<rparr>) [] [] (Some q) ([], [old]) = (Sc_ok, [], chans')
         \<and> lookup_channel ''telegram'' ''abc'' chans' = Some new \<and> ch_user new = ''eve'')"
proof -
  let ?old = "scoped_channel ''alice'' ''bot'' ''telegram'' ''abc'' True \<lparr>cc_enabled = True, cc_bot = ''abc'', cc_app = [], cc_accounts = []\<rparr>"
  let ?q = "\<lparr>cq_scope = ''user'', cq_scope_id = ''eve'', cq_type = ''telegram'', cq_enabled = True, cq_bot = [], cq_app = [], cq_cred = ''abc''\<rparr>"
  have old: "lookup_channel (cq_type ?q) ''abc'' [?old] = Some ?old" by (simp add: lookup_channel_def channel_key_def scoped_channel_def)
  from bot_is_taken_over [OF old, of "\<lparr>ca_user = ''eve'', ca_super = False\<rparr>" "''x''" 1 "\<lambda>a. None" "[]" "[]" "[]"]
  show ?thesis unfolding Let_def by (auto simp: credential_key_for_def)
qed

text \<open>
  A channel is created in the one table, and listed and deleted in the other: it is not seen by the
  listing, and its id is not found.
\<close>

lemma created_channel_cannot_be_deleted:
  assumes "create_scoped_channel fresh now agents who qs qi req (rows, chans) = (Sc_ok, rows', chans')"
    and "get_config rid rows = None" and "who \<noteq> None"
  shows "list_scoped_channels agents f who ls li rows' = list_scoped_channels agents f who ls li rows
    \<and> delete_scoped_channel agents who rid (rows', chans') = (Sc_not_found, rows', chans')"
proof -
  have "rows' = rows"
    using assms(1)
    by (auto simp: create_scoped_channel_def unique_check_passes Let_def split: option.splits if_splits prod.splits sum.splits)
  with assms(2,3) show ?thesis by (simp add: delete_scoped_channel_def owned_config_def)
qed

end
