(* ===== verification/Routing.thy ===== *)
theory Routing
  imports Channel_Rows "HOL-Library.Word"
begin

text \<open>
  Routing of inbound messages (\<^verbatim>\<open>internal/gateway/routing.go\<close>,
  \<^verbatim>\<open>internal/gateway/dedup.go\<close>): from the bus to an agent of the owner. An agent is its id;
  the spaces of users, the turns in flight and the names of the bots are given by the surroundings. What
  happens to a message is a list of actions.
\<close>

section \<open>Messages\<close>

record chat_msg =
  cm_channel :: string
  cm_account :: string
  cm_chat :: string
  cm_project :: string
  cm_user :: string
  cm_owner :: string
  cm_agent :: string
  cm_message :: string
  cm_text :: string
  cm_kind :: string
  cm_sender :: string
  cm_mentions :: "string list"
  cm_bot :: bool
  cm_shared :: bool

definition session_triple :: "chat_msg \<Rightarrow> string \<times> string \<times> string" where
  "session_triple m = (if cm_shared m then (''shared'', [], cm_user m) else (cm_channel m, cm_account m, cm_chat m))"

text \<open>A session is found by the triple and the project.\<close>

type_synonym session_ref = "(string \<times> string \<times> string) \<times> string"

definition session_of :: "chat_msg \<Rightarrow> session_ref" where
  "session_of m = (session_triple m, cm_project m)"

section \<open>Duplicates\<close>

definition hash_string :: "string \<Rightarrow> 32 word" where
  "hash_string s = fold (\<lambda>c h. h * 31 + of_nat c) (runes s) 0"

fun hex_digits :: "nat \<Rightarrow> string" where
  "hex_digits n = (if n < 16 then [hex_char n] else hex_digits (n div 16) @ [hex_char (n mod 16)])"

declare hex_digits.simps [simp del]

text \<open>The key of a message, if it has one.\<close>

definition dedup_key :: "chat_msg \<Rightarrow> string option" where
  "dedup_key m =
     (if cm_kind m = ''group''
      then Some (''group:'' @ cm_channel m @ '':'' @ cm_chat m @ '':'' @ cm_user m @ '':'' @ hex_digits (unat (hash_string (cm_text m))))
      else if cm_message m = [] then None
      else Some (''dm:'' @ cm_channel m @ '':'' @ cm_account m @ '':'' @ cm_message m))"

type_synonym dedup = "(string \<times> int) list"

definition dedup_ttl :: int where "dedup_ttl = 60000000000"

definition is_duplicate :: "int \<Rightarrow> chat_msg \<Rightarrow> dedup \<Rightarrow> bool \<times> dedup" where
  "is_duplicate now m d =
     (case dedup_key m of
        None \<Rightarrow> (False, d)
      | Some k \<Rightarrow> (case map_of d k of Some _ \<Rightarrow> (True, d) | None \<Rightarrow> (False, (k, now) # d)))"

definition cleanup_dedup :: "int \<Rightarrow> dedup \<Rightarrow> dedup" where
  "cleanup_dedup now d = List.filter (\<lambda>(_, seen). \<not> (now - seen > dedup_ttl)) d"

section \<open>Spaces and bindings\<close>

record binding =
  bd_agent :: string
  bd_channel :: string
  bd_account :: string
  bd_peer :: "(string \<times> string) option"     \<comment> \<open>kind and id\<close>

record team =
  te_agents :: "string list"
  te_default :: string
  te_behavior :: string

text \<open>The teams in the order in which their map is walked.\<close>

record space =
  sp_agents :: "string list"
  sp_default :: "string option"
  sp_bindings :: "binding list"
  sp_teams :: "team list"

definition agent_by_id :: "space \<Rightarrow> string \<Rightarrow> string option" where
  "agent_by_id sp a = (if a \<in> set (sp_agents sp) then Some a else None)"

definition new_manager :: "string list \<Rightarrow> string option" where
  "new_manager agents = (if length (remdups agents) = 1 then Some (hd agents) else None)"

definition match_binding :: "binding \<Rightarrow> chat_msg \<Rightarrow> bool" where
  "match_binding b m =
     (if bd_channel b \<noteq> [] \<and> bd_channel b \<noteq> cm_channel m then False
      else if bd_account b \<noteq> [] \<and> bd_account b \<noteq> cm_account m then False
      else case bd_peer b of
        None \<Rightarrow> True
      | Some (kind, pid) \<Rightarrow>
          if kind \<noteq> [] \<and> kind \<noteq> cm_kind m then False else if pid \<noteq> [] \<and> pid \<noteq> cm_chat m then False else True)"

text \<open>
  An agent of somebody else is attached to a space on demand; \<open>attachable\<close> are the agents the
  store knows and the configuration resolves.
\<close>

definition ensure_foreign_agent :: "(string \<Rightarrow> bool) \<Rightarrow> string \<Rightarrow> space \<Rightarrow> bool \<times> space" where
  "ensure_foreign_agent attachable a sp =
     (if a = [] then (True, sp)
      else if a \<in> set (sp_agents sp) then (True, sp)
      else if attachable a then (True, sp\<lparr>sp_agents := sp_agents sp @ [a]\<rparr>)
      else (False, sp))"

definition attach_agent :: "(string \<Rightarrow> bool) \<Rightarrow> string \<Rightarrow> space \<Rightarrow> string option \<times> space" where
  "attach_agent attachable a sp =
     (case agent_by_id sp a of
        Some x \<Rightarrow> (Some x, sp)
      | None \<Rightarrow> (case ensure_foreign_agent attachable a sp of (ok, sp') \<Rightarrow> if ok then (agent_by_id sp' a, sp') else (None, sp')))"

fun match_bindings :: "(string \<Rightarrow> bool) \<Rightarrow> chat_msg \<Rightarrow> binding list \<Rightarrow> space \<Rightarrow> string option \<times> space" where
  "match_bindings attachable m [] sp = (sp_default sp, sp)"
| "match_bindings attachable m (b # bs) sp =
     (if \<not> match_binding b m then match_bindings attachable m bs sp
      else case attach_agent attachable (bd_agent b) sp of
        (Some a, sp') \<Rightarrow> (Some a, sp')
      | (None, sp') \<Rightarrow> match_bindings attachable m bs sp')"

definition match_agent :: "(string \<Rightarrow> bool) \<Rightarrow> chat_msg \<Rightarrow> space \<Rightarrow> string option \<times> space" where
  "match_agent attachable m sp =
     (case (if cm_agent m \<noteq> [] then agent_by_id sp (cm_agent m) else None) of
        Some a \<Rightarrow> (Some a, sp)
      | None \<Rightarrow> if sp_bindings sp = [] then (sp_default sp, sp) else match_bindings attachable m (sp_bindings sp) sp)"

fun bound_agents :: "(string \<Rightarrow> bool) \<Rightarrow> chat_msg \<Rightarrow> binding list \<Rightarrow> string list \<Rightarrow> space \<Rightarrow> string list \<times> space" where
  "bound_agents attachable m [] out sp = (out, sp)"
| "bound_agents attachable m (b # bs) out sp =
     (if \<not> match_binding b m \<or> bd_agent b \<in> set out then bound_agents attachable m bs out sp
      else case attach_agent attachable (bd_agent b) sp of
        (Some a, sp') \<Rightarrow> bound_agents attachable m bs (out @ [a]) sp'
      | (None, sp') \<Rightarrow> bound_agents attachable m bs out sp')"

definition agents_bound_to_message :: "(string \<Rightarrow> bool) \<Rightarrow> chat_msg \<Rightarrow> space \<Rightarrow> string list \<times> space" where
  "agents_bound_to_message attachable m sp =
     (if sp_bindings sp = [] then (case sp_default sp of Some a \<Rightarrow> [a] | None \<Rightarrow> [], sp)
      else bound_agents attachable m (sp_bindings sp) [] sp)"

text \<open>\<open>bot_name\<close> is the name of the bot behind an adapter, empty when there is none.\<close>

definition agent_by_mention :: "(string \<Rightarrow> string \<Rightarrow> string) \<Rightarrow> space \<Rightarrow> chat_msg \<Rightarrow> string list \<Rightarrow> string option" where
  "agent_by_mention bot_name sp m candidates =
     (let name = bot_name (cm_channel m) (cm_account m) in
      if name = [] then None
      else if name \<notin> set (cm_mentions m) then None
      else map_option bd_agent
             (List.find (\<lambda>b. bd_channel b = cm_channel m \<and> bd_account b = cm_account m \<and> bd_agent b \<in> set candidates) (sp_bindings sp)))"

definition group_behavior_for :: "space \<Rightarrow> string list \<Rightarrow> string \<times> string" where
  "group_behavior_for sp agents =
     (case List.find (\<lambda>t. agents \<noteq> [] \<and> set agents \<subseteq> set (te_agents t)) (sp_teams sp) of
        None \<Rightarrow> (''mention-only'', [])
      | Some t \<Rightarrow> (if te_behavior t = [] then ''mention-only'' else te_behavior t, te_default t))"

definition account_id_for_agent :: "space \<Rightarrow> string \<Rightarrow> string \<Rightarrow> string" where
  "account_id_for_agent sp a channel =
     (case List.find (\<lambda>b. bd_agent b = a \<and> bd_channel b = channel \<and> bd_account b \<noteq> []) (sp_bindings sp) of
        Some b \<Rightarrow> bd_account b | None \<Rightarrow> [])"

section \<open>Actions\<close>

datatype route_action =
    Inject_into string session_ref string         \<comment> \<open>agent, session, text\<close>
  | Steer_into string session_ref string
  | Queue_turn string string string chat_msg                          \<comment> \<open>agent, key of the chat, account, message\<close>

definition chat_key :: "string \<Rightarrow> string \<Rightarrow> string \<Rightarrow> string" where
  "chat_key channel account chat = channel @ '':'' @ account @ '':'' @ chat"

definition backslash :: char where "backslash = CHR 0x5C"

definition labelled :: "string \<Rightarrow> string \<Rightarrow> string" where
  "labelled name body = [backslash] @ ''['' @ name @ [backslash] @ '']: '' @ body"

definition inject_group_message :: "string \<Rightarrow> chat_msg \<Rightarrow> route_action" where
  "inject_group_message a m = Inject_into a (session_of m) (labelled (if cm_sender m = [] then ''Bot'' else cm_sender m) (cm_text m))"

definition group_steer_text :: "chat_msg \<Rightarrow> string" where
  "group_steer_text m = (if cm_sender m = [] then cm_text m else labelled (cm_sender m) (cm_text m))"

text \<open>\<open>busy\<close> tells whether a turn of the agent is in flight in a session.\<close>

type_synonym busy = "string \<Rightarrow> session_ref \<Rightarrow> bool"

definition deliver :: "busy \<Rightarrow> string \<Rightarrow> chat_msg \<Rightarrow> string \<Rightarrow> string \<Rightarrow> route_action" where
  "deliver busy a m steer_text account =
     (if busy a (session_of m) then Steer_into a (session_of m) steer_text
      else Queue_turn a (chat_key (cm_channel m) (cm_account m) (cm_chat m)) account m)"

definition route_dm :: "(string \<Rightarrow> bool) \<Rightarrow> busy \<Rightarrow> chat_msg \<Rightarrow> space \<Rightarrow> route_action list \<times> space" where
  "route_dm attachable busy m sp =
     (case match_agent attachable m sp of
        (None, sp') \<Rightarrow> ([], sp')
      | (Some a, sp') \<Rightarrow> ([deliver busy a m (cm_text m) (cm_account m)], sp'))"

definition route_group ::
    "(string \<Rightarrow> bool) \<Rightarrow> busy \<Rightarrow> (string \<Rightarrow> string \<Rightarrow> string) \<Rightarrow> chat_msg \<Rightarrow> space \<Rightarrow> route_action list \<times> space" where
  "route_group attachable busy bot_name m sp =
     (case agents_bound_to_message attachable m sp of
        (bound, sp') \<Rightarrow>
          if bound = [] then ([], sp')
          else if cm_bot m then
            (map (\<lambda>a. inject_group_message a m) bound
               @ (if cm_mentions m = [] then []
                  else case agent_by_mention bot_name sp' m bound of
                    None \<Rightarrow> []
                  | Some a \<Rightarrow>
                      (let t = m\<lparr>cm_text := labelled (cm_sender m) (cm_text m), cm_bot := False\<rparr>
                       in [deliver busy a t (cm_text t) (account_id_for_agent sp' a (cm_channel t))])), sp')
          else case (if cm_mentions m = [] then None else agent_by_mention bot_name sp' m bound) of
            Some a \<Rightarrow>
              (map (\<lambda>x. inject_group_message x m) (List.filter (\<lambda>x. x \<noteq> a) bound)
                 @ [deliver busy a m (group_steer_text m) (account_id_for_agent sp' a (cm_channel m))], sp')
          | None \<Rightarrow>
              (case group_behavior_for sp' bound of
                 (behavior, def) \<Rightarrow>
                   if behavior = ''default-agent'' then
                     (let a = (case agent_by_id sp' def of Some a \<Rightarrow> a | None \<Rightarrow> hd bound)
                      in (map (\<lambda>x. inject_group_message x m) (List.filter (\<lambda>x. x \<noteq> a) bound)
                            @ [deliver busy a m (group_steer_text m) (account_id_for_agent sp' a (cm_channel m))], sp'))
                   else (map (\<lambda>x. inject_group_message x m) bound, sp')))"

section \<open>The owner of a channel\<close>

text \<open>The owner of an agent, as the list of all agents has it; \<open>None\<close> is a failing store.\<close>

definition resolve_channel_owner ::
    "channel_table \<Rightarrow> config_table \<Rightarrow> (string \<times> string) list option \<Rightarrow> chat_msg \<Rightarrow> string \<times> bool" where
  "resolve_channel_owner chans configs agents m =
     (case lookup_channel (cm_channel m) (cm_account m) chans of
        Some ch \<Rightarrow>
          (if ch_user ch \<noteq> [] then (ch_user ch, ch_shared ch)
           else if ch_agent ch \<noteq> [] then
             (case agents of
                None \<Rightarrow> ([], False)
              | Some as \<Rightarrow> (case map_of as (ch_agent ch) of Some owner \<Rightarrow> (owner, ch_shared ch) | None \<Rightarrow> ([], False)))
           else ([], False))
      | None \<Rightarrow>
          (case lookup_channel_by_credential (cm_channel m) (cm_account m) configs of
             None \<Rightarrow> ([], False)
           | Some rec \<Rightarrow>
               (if cf_user rec \<noteq> [] then (cf_user rec, False)
                else if cf_agent rec \<noteq> [] then
                  (case agents of
                     None \<Rightarrow> ([], False)
                   | Some as \<Rightarrow> (case map_of as (cf_agent rec) of Some owner \<Rightarrow> (owner, False) | None \<Rightarrow> ([], False)))
                else ([], False))))"

section \<open>One inbound message\<close>

record route_env =
  re_channels :: channel_table
  re_configs :: config_table
  re_agents :: "(string \<times> string) list option"
  re_attachable :: "string \<Rightarrow> bool"
  re_busy :: busy
  re_bot_name :: "string \<Rightarrow> string \<Rightarrow> string"
  re_load :: "string \<Rightarrow> space option"

record router =
  rt_dedup :: dedup
  rt_spaces :: "(string \<times> space) list"

definition get_or_load :: "route_env \<Rightarrow> string \<Rightarrow> router \<Rightarrow> space option" where
  "get_or_load env user st = (case map_of (rt_spaces st) user of Some sp \<Rightarrow> Some sp | None \<Rightarrow> re_load env user)"

definition keep_space :: "string \<Rightarrow> space \<Rightarrow> router \<Rightarrow> router" where
  "keep_space user sp st = st\<lparr>rt_spaces := AList.update user sp (rt_spaces st)\<rparr>"

datatype verdict = No_owner | Duplicate | No_space | Routed "route_action list"

definition process_inbound :: "route_env \<Rightarrow> int \<Rightarrow> chat_msg \<Rightarrow> router \<Rightarrow> verdict \<times> router" where
  "process_inbound env now m st =
     (case (if cm_owner m = [] then resolve_channel_owner (re_channels env) (re_configs env) (re_agents env) m else (cm_owner m, False)) of
        (owner, shared) \<Rightarrow>
          if owner = [] then (No_owner, st)
          else
            (case is_duplicate now (m\<lparr>cm_owner := owner\<rparr>) (rt_dedup st) of
               (dup, d) \<Rightarrow>
                 (let st = st\<lparr>rt_dedup := d\<rparr> in
                  if dup then (Duplicate, st)
                  else
                    (let m = m\<lparr>cm_owner := owner, cm_user := owner, cm_shared := (shared \<or> cm_shared m)\<rparr> in
                     case get_or_load env owner st of
                       None \<Rightarrow> (No_space, st)
                     | Some sp \<Rightarrow>
                         (case (if cm_kind m \<noteq> ''group'' then route_dm (re_attachable env) (re_busy env) m sp
                                else route_group (re_attachable env) (re_busy env) (re_bot_name env) m sp) of
                            (acts, sp') \<Rightarrow> (Routed acts, keep_space owner sp' st))))))"

section \<open>Bindings\<close>

text \<open>A row of a channel stands for the bot of its account, or for every account inside its data.\<close>

definition binding_of :: "string \<Rightarrow> string \<Rightarrow> string \<Rightarrow> binding" where
  "binding_of agent channel account = \<lparr>bd_agent = agent, bd_channel = channel, bd_account = account, bd_peer = None\<rparr>"

definition expand_channel_record_bindings :: "channel_row list \<Rightarrow> string \<Rightarrow> binding list" where
  "expand_channel_record_bindings rows agent =
     concat (map (\<lambda>r. if \<not> ch_enabled r then []
                      else if accounts_of (ch_data r) = [] then [binding_of agent (ch_type r) (ch_account r)]
                      else map (\<lambda>(account, _). binding_of agent (ch_type r) account) (accounts_of (ch_data r))) rows)"

definition expand_channel_bindings :: "config_row list \<Rightarrow> string \<Rightarrow> binding list" where
  "expand_channel_bindings rows agent =
     concat (map (\<lambda>r. if \<not> cf_enabled r then []
                      else if accounts_of (cf_data r) = [] then [binding_of agent (cf_name r) []]
                      else map (\<lambda>(account, _). binding_of agent (cf_name r) account) (accounts_of (cf_data r))) rows)"

definition bindings_from_channel_rows :: "(char \<Rightarrow> char) \<Rightarrow> string \<Rightarrow> string list \<Rightarrow> channel_table \<Rightarrow> config_table \<Rightarrow> binding list" where
  "bindings_from_channel_rows f user agents chans configs =
     (let official = (\<lambda>a. list_channels [] a chans); own = (\<lambda>a. if user \<noteq> [] then list_channels user a chans else []);
          foreign = (if user \<noteq> []
                     then List.filter (\<lambda>r. \<not> (ch_user r \<noteq> user \<or> ch_agent r = [] \<or> ch_agent r \<in> set agents)) (list_all_channels chans) else []);
          out = concat (map (\<lambda>a. expand_channel_record_bindings (official a) a @ expand_channel_record_bindings (own a) a) agents)
                @ concat (map (\<lambda>r. expand_channel_record_bindings [r] (ch_agent r)) foreign)
      in if (\<exists>a \<in> set agents. official a \<noteq> [] \<or> own a \<noteq> []) \<or> foreign \<noteq> [] then out
         else concat (map (\<lambda>a. expand_channel_bindings (list_configs ''channel'' a configs) a
                             @ (if user \<noteq> [] then expand_channel_bindings (list_configs ''channel'' a configs) a else [])) agents)
              @ (if user \<noteq> []
                 then concat (map (\<lambda>r. expand_channel_bindings [r] (cf_agent r))
                        (List.filter (\<lambda>r. \<not> (cf_agent r = [] \<or> cf_agent r \<in> set agents)) (list_configs_by_user f ''channel'' user configs)))
                 else []))"

end
