(* ===== verification/Chat_Claims.thy ===== *)
theory Chat_Claims
  imports Routing Go_Time
begin

text \<open>
  Who is an administrator in a chat (\<^verbatim>\<open>internal/agent/slash.go\<close>,
  \<^verbatim>\<open>internal/agent/slash_claim.go\<close>) and the one-time codes by which an account of a
  messenger is bound (\<^verbatim>\<open>internal/store/claims.go\<close>,
  \<^verbatim>\<open>internal/setup/handlers_im_claim.go\<close>).
\<close>

section \<open>Codes\<close>

record im_claim =
  ic_id :: string
  ic_agent :: string
  ic_channel :: string
  ic_code :: string
  ic_intent :: string
  ic_expires :: int
  ic_used :: bool
  ic_attempts :: nat
  ic_created :: int

type_synonym claim_table = "im_claim list"

definition max_attempts :: nat where "max_attempts = 5"
definition claim_ttl :: int where "claim_ttl = 600000000000"

definition random_claim_code :: "nat list \<Rightarrow> string" where
  "random_claim_code bytes = map (\<lambda>b. ''0123456789'' ! (b mod 10)) bytes"

definition create_im_claim :: "string \<Rightarrow> nat list \<Rightarrow> int \<Rightarrow> string \<Rightarrow> string \<Rightarrow> string \<Rightarrow> claim_table \<Rightarrow> (string + string) \<times> claim_table" where
  "create_im_claim rid bytes now agent channel intent rows =
     (if agent = [] \<or> channel = [] then (Inl ''store: create im claim requires agentID, channel'', rows)
      else
        (let voided = map (\<lambda>r. if ic_agent r = agent \<and> ic_channel r = channel \<and> \<not> ic_used r then r\<lparr>ic_used := True\<rparr> else r) rows;
             code = random_claim_code bytes
         in (Inr code,
             voided @ [\<lparr>ic_id = rid, ic_agent = agent, ic_channel = channel, ic_code = code,
                        ic_intent = (if intent = [] then ''add'' else intent), ic_expires = now + claim_ttl, ic_used = False,
                        ic_attempts = 0, ic_created = now\<rparr>])))"

definition redeemable :: "int \<Rightarrow> string \<Rightarrow> string \<Rightarrow> string \<Rightarrow> im_claim \<Rightarrow> bool" where
  "redeemable now agent channel code r =
     (ic_agent r = agent \<and> ic_channel r = channel \<and> ic_code r = code \<and> \<not> ic_used r \<and> ic_attempts r < max_attempts \<and> ic_expires r > now)"

definition redeem_im_claim :: "int \<Rightarrow> string \<Rightarrow> string \<Rightarrow> string \<Rightarrow> claim_table \<Rightarrow> bool \<times> claim_table" where
  "redeem_im_claim now agent channel code rows =
     (if agent = [] \<or> channel = [] \<or> code = [] then (False, rows)
      else
        (let n = length (List.filter (redeemable now agent channel code) rows);
             rows' = map (\<lambda>r. if redeemable now agent channel code r then r\<lparr>ic_used := True\<rparr> else r) rows
         in if n = 1 then (True, rows')
            else (False, map (\<lambda>r. if ic_agent r = agent \<and> ic_channel r = channel \<and> ic_code r = code \<and> \<not> ic_used r
                                  then r\<lparr>ic_attempts := Suc (ic_attempts r)\<rparr> else r) rows')))"

definition live_claim :: "int \<Rightarrow> string \<Rightarrow> string \<Rightarrow> im_claim \<Rightarrow> bool" where
  "live_claim now agent channel r = (ic_agent r = agent \<and> ic_channel r = channel \<and> \<not> ic_used r \<and> ic_expires r > now)"

definition get_active_im_claim :: "int \<Rightarrow> string \<Rightarrow> string \<Rightarrow> claim_table \<Rightarrow> im_claim option" where
  "get_active_im_claim now agent channel rows =
     (case sort_key (\<lambda>r. - ic_created r) (List.filter (live_claim now agent channel) rows) of [] \<Rightarrow> None | r # _ \<Rightarrow> Some r)"

definition cleanup_expired_im_claims :: "int \<Rightarrow> claim_table \<Rightarrow> claim_table" where
  "cleanup_expired_im_claims now rows = List.filter (\<lambda>r. \<not> (ic_used r \<or> ic_expires r < now)) rows"

section \<open>Administrators\<close>

type_synonym admins = "(string \<times> string list) list"

definition admin_list :: "admins \<Rightarrow> string \<Rightarrow> string list" where
  "admin_list admins channel = (case map_of admins channel of None \<Rightarrow> [] | Some l \<Rightarrow> l)"

definition is_admin_chatter :: "string \<Rightarrow> admins \<Rightarrow> chat_msg \<Rightarrow> bool" where
  "is_admin_chatter owner admins m =
     (if cm_channel m = ''web'' \<or> cm_channel m = ''api'' then cm_user m \<noteq> [] \<and> cm_user m = owner
      else (let l = admin_list admins (cm_channel m)
            in if l = [] then cm_user m \<noteq> [] \<and> cm_user m = owner else cm_user m \<in> set l))"

definition write_slash_commands :: "string list" where
  "write_slash_commands = [''/new'', ''/reset'', ''/undo'', ''/retry'', ''/compact'', ''/yolo'', ''/auto'', ''/ask'', ''/yes'', ''/no'', ''/model'', ''/personality'']"

definition slash_requires_admin :: "string \<Rightarrow> chat_msg \<Rightarrow> bool" where
  "slash_requires_admin cmd m =
     (if cmd \<notin> set write_slash_commands then False
      else if (cmd = ''/new'' \<or> cmd = ''/reset'') \<and> cm_kind m \<noteq> ''group'' then False else True)"

definition slash_denied :: "string \<Rightarrow> admins \<Rightarrow> string \<Rightarrow> chat_msg \<Rightarrow> bool" where
  "slash_denied owner admins cmd m = (slash_requires_admin cmd m \<and> \<not> is_admin_chatter owner admins m)"

text \<open>
  The codes, the configuration of the agent in the database, which is missing when the agent is gone, and
  the administrators the running agent holds.
\<close>

record claim_state =
  cl_rows :: claim_table
  cl_stored :: "admins option"
  cl_cached :: admins

datatype claim_reply = Only_in_messenger | Claim_usage | Code_invalid | Bind_failed | Bound_as_admin

definition add_admin :: "string \<Rightarrow> string \<Rightarrow> admins \<Rightarrow> admins" where
  "add_admin channel platform admins =
     (if platform \<in> set (admin_list admins channel) then admins else AList.update channel (admin_list admins channel @ [platform]) admins)"

definition persist_admin_im_id :: "string \<Rightarrow> string \<Rightarrow> claim_state \<Rightarrow> bool \<times> claim_state" where
  "persist_admin_im_id channel platform st =
     (case cl_stored st of
        None \<Rightarrow> (False, st)
      | Some a \<Rightarrow> (True, st\<lparr>cl_stored := Some (add_admin channel platform a), cl_cached := add_admin channel platform (cl_cached st)\<rparr>))"

definition slash_claim :: "int \<Rightarrow> string \<Rightarrow> chat_msg \<Rightarrow> claim_state \<Rightarrow> claim_reply \<times> claim_state" where
  "slash_claim now agent m st =
     (if cm_channel m = ''web'' \<or> cm_channel m = ''api'' then (Only_in_messenger, st)
      else
        (let parts = str_fields (cm_text m) in
         if length parts < 2 \<or> parts ! 1 = [] then (Claim_usage, st)
         else
           (case redeem_im_claim now agent (cm_channel m) (parts ! 1) (cl_rows st) of
              (ok, rows) \<Rightarrow>
                (let st = st\<lparr>cl_rows := rows\<rparr> in
                 if \<not> ok then (Code_invalid, st)
                 else (case persist_admin_im_id (cm_channel m) (cm_user m) st of
                         (saved, st') \<Rightarrow> if saved then (Bound_as_admin, st') else (Bind_failed, st'))))))"

section \<open>Endpoints\<close>

definition is_im_channel :: "string \<Rightarrow> bool" where
  "is_im_channel channel = (channel \<noteq> [] \<and> channel \<noteq> ''web'' \<and> channel \<noteq> ''api'')"

datatype claim_response = Cr_bad string | Cr_error | Cr_code string | Cr_none | Cr_active im_claim | Cr_unbound nat

text \<open>The caller was accepted as the owner of the agent before; a missing configuration reads as an empty one.\<close>

definition handle_create_im_claim :: "string \<Rightarrow> nat list \<Rightarrow> int \<Rightarrow> string \<Rightarrow> string option \<Rightarrow> claim_state \<Rightarrow> claim_response \<times> claim_state" where
  "handle_create_im_claim rid bytes now agent channel st =
     (case channel of
        None \<Rightarrow> (Cr_bad ''invalid JSON'', st)
      | Some ch \<Rightarrow>
          if \<not> is_im_channel ch then (Cr_bad ''IM channel required'', st)
          else (case create_im_claim rid bytes now agent ch ''add'' (cl_rows st) of
                  (Inl e, rows) \<Rightarrow> (Cr_error, st\<lparr>cl_rows := rows\<rparr>)
                | (Inr code, rows) \<Rightarrow> (Cr_code code, st\<lparr>cl_rows := rows\<rparr>)))"

definition handle_get_im_claim :: "int \<Rightarrow> string \<Rightarrow> string \<Rightarrow> claim_state \<Rightarrow> claim_response" where
  "handle_get_im_claim now agent channel st =
     (case get_active_im_claim now agent channel (cl_rows st) of None \<Rightarrow> Cr_none | Some r \<Rightarrow> Cr_active r)"

definition stored_admins :: "claim_state \<Rightarrow> admins" where
  "stored_admins st = (case cl_stored st of None \<Rightarrow> [] | Some a \<Rightarrow> a)"

definition handle_unbind_im :: "(string \<times> string) option \<Rightarrow> claim_state \<Rightarrow> claim_response \<times> claim_state" where
  "handle_unbind_im req st =
     (case req of
        None \<Rightarrow> (Cr_bad ''invalid JSON'', st)
      | Some (ch, platform) \<Rightarrow>
          if ch = [] \<or> platform = [] then (Cr_bad ''channel + platformId required'', st)
          else
            (let a = stored_admins st; kept = List.filter (\<lambda>x. x \<noteq> platform) (admin_list a ch)
             in (Cr_unbound (length kept),
                 st\<lparr>cl_stored := Some (if kept = [] then AList.delete ch a else AList.update ch kept a)\<rparr>)))"

definition handle_rebind_im :: "string \<Rightarrow> nat list \<Rightarrow> int \<Rightarrow> string \<Rightarrow> string option \<Rightarrow> claim_state \<Rightarrow> claim_response \<times> claim_state" where
  "handle_rebind_im rid bytes now agent channel st =
     (case channel of
        None \<Rightarrow> (Cr_bad ''invalid JSON'', st)
      | Some ch \<Rightarrow>
          if \<not> is_im_channel ch then (Cr_bad ''IM channel required'', st)
          else
            (let st = st\<lparr>cl_stored := Some (AList.delete ch (stored_admins st))\<rparr> in
             case create_im_claim rid bytes now agent ch ''replace'' (cl_rows st) of
               (Inl e, rows) \<Rightarrow> (Cr_error, st\<lparr>cl_rows := rows\<rparr>)
             | (Inr code, rows) \<Rightarrow> (Cr_code code, st\<lparr>cl_rows := rows\<rparr>)))"

end
