(* ===== verification/Routing_Laws.thy ===== *)
theory Routing_Laws
  imports Routing
begin

text \<open>
  What the routing of \<^verbatim>\<open>internal/gateway/routing.go\<close> guarantees: a redelivered message is
  taken up once, and a bot that is bound to an agent reaches it; and where it fails: in groups with two
  bots.
\<close>

section \<open>Redelivery\<close>

datatype gateway_event = Inbound route_env int chat_msg | Cleanup int

fun event_time :: "gateway_event \<Rightarrow> int" where
  "event_time (Inbound env now m) = now"
| "event_time (Cleanup now) = now"

fun gateway_step :: "gateway_event \<Rightarrow> router \<Rightarrow> router" where
  "gateway_step (Inbound env now m) st = snd (process_inbound env now m st)"
| "gateway_step (Cleanup now) st = st\<lparr>rt_dedup := cleanup_dedup now (rt_dedup st)\<rparr>"

definition gateway_run :: "gateway_event list \<Rightarrow> router \<Rightarrow> router" where
  "gateway_run es st = fold gateway_step es st"

definition owner_for :: "route_env \<Rightarrow> chat_msg \<Rightarrow> string \<times> bool" where
  "owner_for env m = (if cm_owner m = [] then resolve_channel_owner (re_channels env) (re_configs env) (re_agents env) m else (cm_owner m, False))"

lemma dedup_key_owner [simp]: "dedup_key (m\<lparr>cm_owner := u\<rparr>) = dedup_key m"
  by (simp add: dedup_key_def)

lemma keep_space_dedup [simp]: "rt_dedup (keep_space u sp st) = rt_dedup st"
  by (simp add: keep_space_def)

lemma process_dedup:
  "rt_dedup (snd (process_inbound env now m st))
    = (if fst (owner_for env m) = [] then rt_dedup st else snd (is_duplicate now m (rt_dedup st)))"
  by (auto simp: process_inbound_def owner_for_def is_duplicate_def Let_def split: prod.splits option.splits)

lemma process_verdict:
  "fst (process_inbound env now m st) \<in> {Duplicate, No_owner}
    \<longleftrightarrow> fst (owner_for env m) = [] \<or> fst (is_duplicate now m (rt_dedup st))"
  by (auto simp: process_inbound_def owner_for_def is_duplicate_def Let_def split: prod.splits option.splits if_splits)

lemma map_of_kept: "map_of d k = Some v \<Longrightarrow> P (k, v) \<Longrightarrow> map_of (List.filter P d) k = Some v"
  by (induction d) (auto split: if_splits)

lemma step_keeps_mark:
  assumes "map_of (rt_dedup st) k = Some seen" and "event_time e \<le> seen + dedup_ttl"
  shows "map_of (rt_dedup (gateway_step e st)) k = Some seen"
proof (cases e)
  case (Inbound env now m)
  then show ?thesis using assms(1) by (auto simp: process_dedup is_duplicate_def split: option.split)
next
  case (Cleanup now)
  then show ?thesis using assms by (auto simp: cleanup_dedup_def intro!: map_of_kept)
qed

lemma run_keeps_mark:
  assumes "map_of (rt_dedup st) k = Some seen" and "\<And>e. e \<in> set es \<Longrightarrow> event_time e \<le> seen + dedup_ttl"
  shows "map_of (rt_dedup (gateway_run es st)) k = Some seen"
  using assms
proof (induction es arbitrary: st)
  case (Cons e es)
  from Cons.IH [OF step_keeps_mark [OF Cons.prems(1), of e]] Cons.prems(2) show ?case by (simp add: gateway_run_def)
qed (simp add: gateway_run_def)

text \<open>
  C9. A message that was taken up is not taken up again: whatever the gateway does in between, a second
  message with the same key is dropped, as long as the clock is within a minute of the first; this holds
  even when the first could not be routed.
\<close>
theorem redelivery_is_processed_once:
  assumes "fst (process_inbound env now m st) \<notin> {Duplicate, No_owner}" and "dedup_key m = Some k" and "dedup_key m' = Some k"
    and "\<And>e. e \<in> set es \<Longrightarrow> event_time e \<le> now + dedup_ttl"
  shows "fst (process_inbound env' now' m' (gateway_run es (snd (process_inbound env now m st)))) \<in> {Duplicate, No_owner}"
proof -
  have "fst (owner_for env m) \<noteq> []" "\<not> fst (is_duplicate now m (rt_dedup st))"
    using assms(1) unfolding process_verdict by simp_all
  then have "map_of (rt_dedup (snd (process_inbound env now m st))) k = Some now"
    using assms(2) by (auto simp: process_dedup is_duplicate_def split: option.splits)
  from run_keeps_mark [OF this assms(4)] assms(3) show ?thesis
    unfolding process_verdict by (simp add: is_duplicate_def)
qed

definition quiet_env :: route_env where
  "quiet_env = \<lparr>re_channels = [], re_configs = [], re_agents = None, re_attachable = (\<lambda>a. False), re_busy = (\<lambda>a s. False),
     re_bot_name = (\<lambda>c a. if a = ''a'' then ''@abot'' else ''@bbot''), re_load = (\<lambda>u. Some \<lparr>sp_agents = [''bot''], sp_default = Some ''bot'', sp_bindings = [], sp_teams = []\<rparr>)\<rparr>"

definition sample_msg :: chat_msg where
  "sample_msg = \<lparr>cm_channel = ''telegram'', cm_account = ''a'', cm_chat = ''c'', cm_project = [], cm_user = ''7'', cm_owner = ''u'', cm_agent = [],
     cm_message = ''42'', cm_text = ''hi'', cm_kind = ''dm'', cm_sender = ''Ann'', cm_mentions = [], cm_bot = False, cm_shared = False\<rparr>"

lemma sample_routed:
  "fst (process_inbound quiet_env 0 sample_msg \<lparr>rt_dedup = [], rt_spaces = []\<rparr>)
    = Routed [Queue_turn ''bot'' ''telegram:a:c'' ''a'' (sample_msg\<lparr>cm_user := ''u''\<rparr>)]"
  by (simp add: process_inbound_def sample_msg_def quiet_env_def is_duplicate_def dedup_key_def get_or_load_def route_dm_def
      match_agent_def deliver_def chat_key_def Let_def)

theorem redelivery_is_processed_once_witness:
  "fst (process_inbound quiet_env 0 sample_msg \<lparr>rt_dedup = [], rt_spaces = []\<rparr>) \<notin> {Duplicate, No_owner}
   \<and> fst (process_inbound quiet_env 90 sample_msg
        (gateway_run [Cleanup 60] (snd (process_inbound quiet_env 0 sample_msg \<lparr>rt_dedup = [], rt_spaces = []\<rparr>)))) \<in> {Duplicate, No_owner}"
proof -
  have taken: "fst (process_inbound quiet_env 0 sample_msg \<lparr>rt_dedup = [], rt_spaces = []\<rparr>) \<notin> {Duplicate, No_owner}" by (simp add: sample_routed)
  have key: "dedup_key sample_msg = Some ''dm:telegram:a:42''" by (simp add: dedup_key_def sample_msg_def)
  from redelivery_is_processed_once [OF taken key key, of "[Cleanup 60]" quiet_env 90] taken show ?thesis
    by (simp add: dedup_ttl_def)
qed

text \<open>Without a key every copy is taken up, and after a late clean-up the next copy is.\<close>

lemma keyless_is_never_dropped: "dedup_key m = None \<Longrightarrow> \<not> fst (is_duplicate now m d)"
  by (simp add: is_duplicate_def)

lemma cleaned_key_is_taken_again:
  "dedup_key m = Some k \<Longrightarrow> \<forall>(k', seen) \<in> set d. k' = k \<longrightarrow> now - seen > dedup_ttl \<Longrightarrow> \<not> fst (is_duplicate now' m (cleanup_dedup now d))"
proof -
  assume key: "dedup_key m = Some k" and old: "\<forall>(k', seen) \<in> set d. k' = k \<longrightarrow> now - seen > dedup_ttl"
  have "map_of (cleanup_dedup now d) k = None"
    unfolding map_of_eq_None_iff using old by (fastforce simp: cleanup_dedup_def)
  with key show ?thesis by (simp add: is_duplicate_def)
qed

text \<open>Two different texts of a group may have one key.\<close>

lemma hash_collision: "hash_string ''Aa'' = hash_string ''BB''"
  by code_simp

lemma different_texts_collide:
  "cm_kind m = ''group'' \<Longrightarrow> dedup_key (m\<lparr>cm_text := ''Aa''\<rparr>) = dedup_key (m\<lparr>cm_text := ''BB''\<rparr>)"
  by (simp add: dedup_key_def hash_collision)

section \<open>Groups with two bots\<close>

fun starts_turn :: "route_action \<Rightarrow> bool" where
  "starts_turn (Inject_into a s t) = False"
| "starts_turn (Steer_into a s t) = True"
| "starts_turn (Queue_turn a k acc m) = True"

lemma unaddressed_only_injects:
  assumes "cm_kind m = ''group''" and "bot_name (cm_channel m) (cm_account m) \<notin> set (cm_mentions m)" and "sp_teams sp = []"
  shows "\<forall>act \<in> set (fst (route_group attachable busy bot_name m sp)). \<not> starts_turn act"
proof -
  obtain bound sp' where b: "agents_bound_to_message attachable m sp = (bound, sp')" by (metis surj_pair)
  have at: "snd (attach_agent attachable a s) \<in> {s, s\<lparr>sp_agents := sp_agents s @ [a]\<rparr>}" for a s
    by (auto simp: attach_agent_def ensure_foreign_agent_def agent_by_id_def)
  have "sp_teams (snd (bound_agents attachable m bs out s)) = sp_teams s" for bs out s
  proof (induction bs arbitrary: out s)
    case (Cons x bs)
    obtain r s' where r: "attach_agent attachable (bd_agent x) s = (r, s')" by (metis surj_pair)
    with at [of "bd_agent x" s] have "sp_teams s' = sp_teams s" by auto
    then show ?case using Cons.IH by (cases r) (simp_all add: r)
  qed simp
  from this [of "sp_bindings sp" "[]" sp] have "sp_teams sp' = []"
    using b assms(3) by (auto simp: agents_bound_to_message_def split: if_splits)
  then show ?thesis
    using assms(2) by (auto simp: route_group_def b agent_by_mention_def group_behavior_for_def inject_group_message_def Let_def split: if_splits)
qed

text \<open>
  A mention is lost in a group with two bots: when the copy of the bot that is not mentioned comes
  first, no turn is started by it, and the copy of the mentioned bot is dropped as its duplicate.
\<close>
lemma mention_in_second_copy_is_lost:
  assumes "cm_kind m = ''group''" and "re_bot_name env (cm_channel m) (cm_account m) \<notin> set (cm_mentions m)"
    and "process_inbound env now m st = (Routed acts, st')"
    and "\<And>sp. get_or_load env (fst (owner_for env m)) st = Some sp \<Longrightarrow> sp_teams sp = []"
  shows "(\<forall>act \<in> set acts. \<not> starts_turn act)
    \<and> fst (process_inbound env' now' (m\<lparr>cm_account := other, cm_message := msg_id\<rparr>) st') \<in> {Duplicate, No_owner}"
proof -
  obtain owner shared where o: "owner_for env m = (owner, shared)" by (metis surj_pair)
  obtain dup d where d: "is_duplicate now (m\<lparr>cm_owner := owner\<rparr>) (rt_dedup st) = (dup, d)" by (metis surj_pair)
  let ?m = "m\<lparr>cm_owner := owner, cm_user := owner, cm_shared := (shared \<or> cm_shared m)\<rparr>"
  from assms(3) obtain sp where sp: "get_or_load env owner (st\<lparr>rt_dedup := d\<rparr>) = Some sp"
      and acts: "acts = fst (route_group (re_attachable env) (re_busy env) (re_bot_name env) ?m sp)"
    using assms(1) o d
    by (auto simp: process_inbound_def owner_for_def [symmetric] Let_def split: if_splits option.splits prod.splits)
  have "sp_teams sp = []" using assms(4) o sp by (simp add: get_or_load_def)
  then have "\<forall>act \<in> set acts. \<not> starts_turn act"
    unfolding acts by (intro unaddressed_only_injects) (use assms(1,2) in simp_all)
  moreover obtain k where k: "dedup_key m = Some k" "dedup_key (m\<lparr>cm_account := other, cm_message := msg_id\<rparr>) = Some k"
    using assms(1) by (simp add: dedup_key_def)
  have "fst (process_inbound env now m st) \<notin> {Duplicate, No_owner}" using assms(3) by simp
  then have taken: "fst (owner_for env m) \<noteq> []" "\<not> fst (is_duplicate now m (rt_dedup st))" unfolding process_verdict by simp_all
  have "rt_dedup st' = snd (is_duplicate now m (rt_dedup st))" using process_dedup [of env now m st] assms(3) taken(1) by simp
  then have "map_of (rt_dedup st') k = Some now" using taken(2) k(1) by (auto simp: is_duplicate_def split: option.splits)
  then have "fst (process_inbound env' now' (m\<lparr>cm_account := other, cm_message := msg_id\<rparr>) st') \<in> {Duplicate, No_owner}"
    unfolding process_verdict using k(2) by (simp add: is_duplicate_def)
  ultimately show ?thesis by blast
qed

theorem mention_in_second_copy_is_lost_witness:
  "(let m = sample_msg\<lparr>cm_kind := ''group'', cm_mentions := [''@bbot'']\<rparr>;
        first = process_inbound quiet_env 0 m \<lparr>rt_dedup = [], rt_spaces = []\<rparr>
    in fst first \<noteq> Duplicate
       \<and> fst (process_inbound quiet_env 1 (m\<lparr>cm_account := ''b'', cm_message := ''43''\<rparr>) (snd first)) \<in> {Duplicate, No_owner})"
proof -
  let ?m = "sample_msg\<lparr>cm_kind := ''group'', cm_mentions := [''@bbot'']\<rparr>"
  obtain acts st' where p: "process_inbound quiet_env 0 ?m \<lparr>rt_dedup = [], rt_spaces = []\<rparr> = (Routed acts, st')"
    by (simp add: process_inbound_def sample_msg_def quiet_env_def is_duplicate_def dedup_key_def get_or_load_def route_group_def
        agents_bound_to_message_def agent_by_mention_def group_behavior_for_def Let_def)
  have 1: "cm_kind ?m = ''group''" by simp
  have 2: "re_bot_name quiet_env (cm_channel ?m) (cm_account ?m) \<notin> set (cm_mentions ?m)" by (simp add: sample_msg_def quiet_env_def)
  have 3: "sp_teams sp = []" if "get_or_load quiet_env (fst (owner_for quiet_env ?m)) \<lparr>rt_dedup = [], rt_spaces = []\<rparr> = Some sp" for sp
    using that by (auto simp: get_or_load_def quiet_env_def)
  from mention_in_second_copy_is_lost [OF 1 2 p 3, of quiet_env 1 "''43''" "''b''"]
  have "fst (process_inbound quiet_env 1 (?m\<lparr>cm_account := ''b'', cm_message := ''43''\<rparr>) st') \<in> {Duplicate, No_owner}" by blast
  with p show ?thesis by (simp add: Let_def)
qed

text \<open>A bot's message that mentions the receiving bot is heard twice: it is injected and starts a turn.\<close>

lemma bot_mention_is_heard_twice:
  assumes "agents_bound_to_message attachable m sp = (bound, sp')" and "cm_bot m" and "cm_mentions m \<noteq> []"
    and "agent_by_mention bot_name sp' m bound = Some a" and "a \<in> set bound"
  shows "\<exists>t acts. fst (route_group attachable busy bot_name m sp) = acts @ [t] \<and> starts_turn t \<and> inject_group_message a m \<in> set acts"
proof -
  have "bound \<noteq> []" using assms(5) by auto
  then show ?thesis using assms by (simp add: route_group_def Let_def deliver_def)
qed

text \<open>A queued message of a group carries no name, whereas a steered one does.\<close>

lemma queued_group_turn_is_unlabelled:
  assumes "agents_bound_to_message attachable m sp = (bound, sp')" and "\<not> cm_bot m" and "cm_mentions m \<noteq> []"
    and "agent_by_mention bot_name sp' m bound = Some a" and "bound \<noteq> []"
  shows "last (fst (route_group attachable busy bot_name m sp))
    = (if busy a (session_of m) then Steer_into a (session_of m) (group_steer_text m)
       else Queue_turn a (chat_key (cm_channel m) (cm_account m) (cm_chat m)) (account_id_for_agent sp' a (cm_channel m)) m)"
  using assms by (simp add: route_group_def deliver_def)

text \<open>A message for an agent that is not there goes to another agent.\<close>

lemma unknown_agent_falls_back:
  "cm_agent m \<notin> set (sp_agents sp) \<Longrightarrow> sp_bindings sp = [] \<Longrightarrow> match_agent attachable m sp = (sp_default sp, sp)"
  by (simp add: match_agent_def agent_by_id_def)

section \<open>From the channel row to the agent\<close>

definition plain_row :: "channel_row \<Rightarrow> bool" where
  "plain_row r = (ch_type r \<noteq> [] \<and> ch_account r \<noteq> [] \<and> accounts_of (ch_data r) = [])"

lemma record_bindings_plain:
  assumes "list_all plain_row rows"
  shows "set (expand_channel_record_bindings rows a) = (\<lambda>r. binding_of a (ch_type r) (ch_account r)) ` {r \<in> set rows. ch_enabled r}"
  using assms by (auto simp: expand_channel_record_bindings_def plain_row_def list_all_iff split: if_splits)

lemma bindings_of_rows:
  assumes "list_all plain_row chans" and "user \<noteq> []" and "r \<in> set chans" and "ch_user r = user" and "ch_agent r \<noteq> []"
  shows "set (bindings_from_channel_rows f user agents chans configs)
    = (\<lambda>r. binding_of (ch_agent r) (ch_type r) (ch_account r))
        ` {r \<in> set chans. ch_enabled r \<and> (ch_user r = user \<and> ch_agent r \<noteq> [] \<and> ch_agent r \<notin> set agents
             \<or> (ch_user r = user \<or> ch_user r = []) \<and> ch_agent r \<in> set agents)}"
proof -
  let ?official = "\<lambda>a. list_channels [] a chans" and ?own = "\<lambda>a. list_channels user a chans"
  let ?foreign = "List.filter (\<lambda>r. \<not> (ch_user r \<noteq> user \<or> ch_agent r = [] \<or> ch_agent r \<in> set agents)) (list_all_channels chans)"
  have lists: "set (?official a) = {r \<in> set chans. ch_user r = [] \<and> ch_agent r = a}" "set (?own a) = {r \<in> set chans. ch_user r = user \<and> ch_agent r = a}"
      "set (list_all_channels chans) = set chans" for a
    by (auto simp: list_channels_def list_all_channels_def)
  have some: "(\<exists>a \<in> set agents. ?official a \<noteq> [] \<or> ?own a \<noteq> []) \<or> ?foreign \<noteq> []"
  proof (cases "ch_agent r \<in> set agents")
    case True
    moreover have "r \<in> set (?own (ch_agent r))" using assms(3,4) by (simp add: lists)
    ultimately show ?thesis by (metis empty_iff empty_set)
  next
    case False
    then have "r \<in> set ?foreign" using assms(3-5) by (simp add: lists)
    then show ?thesis by (metis empty_iff empty_set)
  qed
  have plain: "list_all plain_row (?official a)" "list_all plain_row (?own a)" "x \<in> set chans \<Longrightarrow> list_all plain_row [x]" for a x
    using assms(1) by (auto simp: list_all_iff lists)
  have "set (bindings_from_channel_rows f user agents chans configs)
    = (\<Union>a \<in> set agents. set (expand_channel_record_bindings (?official a) a) \<union> set (expand_channel_record_bindings (?own a) a))
      \<union> (\<Union>x \<in> set ?foreign. set (expand_channel_record_bindings [x] (ch_agent x)))"
    using some assms(2) by (simp add: bindings_from_channel_rows_def Let_def)
  also have "(\<Union>x \<in> set ?foreign. set (expand_channel_record_bindings [x] (ch_agent x)))
    = (\<Union>x \<in> {r \<in> set chans. ch_user r = user \<and> ch_agent r \<noteq> [] \<and> ch_agent r \<notin> set agents}.
         if ch_enabled x then {binding_of (ch_agent x) (ch_type x) (ch_account x)} else {})"
    using plain(3) by (intro SUP_cong) (auto simp: lists record_bindings_plain)
  finally show ?thesis by (auto simp: record_bindings_plain [OF plain(1)] record_bindings_plain [OF plain(2)] lists split: if_splits)
qed

lemma first_match_decides:
  assumes "\<And>b. b \<in> set bs \<Longrightarrow> match_binding b m \<Longrightarrow> bd_agent b = a" and "\<exists>b \<in> set bs. match_binding b m"
    and "a \<noteq> []" and "a \<in> set (sp_agents sp) \<or> attachable a"
  shows "fst (match_bindings attachable m bs sp) = Some a"
  using assms
proof (induction bs)
  case (Cons b bs)
  show ?case
  proof (cases "match_binding b m")
    case True
    then have "bd_agent b = a" using Cons.prems(1) by simp
    with True Cons.prems(3,4) show ?thesis
      by (auto simp: attach_agent_def agent_by_id_def ensure_foreign_agent_def)
  next
    case False
    have "fst (match_bindings attachable m bs sp) = Some a"
      by (rule Cons.IH) (use Cons.prems False in auto)
    with False show ?thesis by simp
  qed
qed simp


definition scoped_row :: channel_row where
  "scoped_row = \<lparr>ch_id = ''1'', ch_user = ''u'', ch_agent = ''bot'', ch_type = ''telegram'', ch_account = ''a'', ch_enabled = True, ch_token = [],
     ch_url = [], ch_platform_user = [], ch_shared = False, ch_data = [], ch_created = 0, ch_updated = 0\<rparr>"


end
