(* ===== verification/Chat_Claims_Laws.thy ===== *)
theory Chat_Claims_Laws
  imports Chat_Claims Routing_Laws
begin

text \<open>
  What the codes of \<^verbatim>\<open>internal/store/claims.go\<close> protect and what they do not, and who is an
  administrator once a message came through the routing.
\<close>

section \<open>One code, once\<close>

definition unused_for :: "string \<Rightarrow> string \<Rightarrow> claim_table \<Rightarrow> im_claim list" where
  "unused_for agent channel rows = List.filter (\<lambda>r. ic_agent r = agent \<and> ic_channel r = channel \<and> \<not> ic_used r) rows"

lemma unused_simps [simp]: "unused_for a c [] = []" "unused_for a c (r # rows)
    = (if ic_agent r = a \<and> ic_channel r = c \<and> \<not> ic_used r then r # unused_for a c rows else unused_for a c rows)"
    "unused_for a c (xs @ ys) = unused_for a c xs @ unused_for a c ys"
  by (simp_all add: unused_for_def)

definition one_live :: "claim_table \<Rightarrow> bool" where
  "one_live rows = (\<forall>a c. length (unused_for a c rows) \<le> 1)"

lemma void_leaves_none:
  "unused_for a c (map (\<lambda>r. if ic_agent r = a \<and> ic_channel r = c \<and> \<not> ic_used r then r\<lparr>ic_used := True\<rparr> else r) rows) = []"
  by (induction rows) auto

lemma void_leaves_others:
  "a' \<noteq> a \<or> c' \<noteq> c \<Longrightarrow>
   unused_for a' c' (map (\<lambda>r. if ic_agent r = a \<and> ic_channel r = c \<and> \<not> ic_used r then r\<lparr>ic_used := True\<rparr> else r) rows) = unused_for a' c' rows"
  by (induction rows) auto

lemma create_unused:
  "create_im_claim rid bytes now a c intent rows = (Inr code, rows') \<Longrightarrow>
   unused_for a' c' rows'
     = (if a' = a \<and> c' = c
        then [\<lparr>ic_id = rid, ic_agent = a, ic_channel = c, ic_code = random_claim_code bytes, ic_intent = (if intent = [] then ''add'' else intent),
               ic_expires = now + claim_ttl, ic_used = False, ic_attempts = 0, ic_created = now\<rparr>]
        else unused_for a' c' rows)"
  by (auto simp: create_im_claim_def Let_def void_leaves_none void_leaves_others split: if_splits)

lemma redeemed_unused:
  "unused_for a' c' (map (\<lambda>r. if redeemable now a c code r then r\<lparr>ic_used := True\<rparr> else r) rows)
    = List.filter (\<lambda>r. \<not> redeemable now a c code r) (unused_for a' c' rows)"
  by (induction rows) (auto simp: redeemable_def)

lemma attempts_unused:
  "length (unused_for a' c' (map (\<lambda>r. if P r then r\<lparr>ic_attempts := Suc (ic_attempts r)\<rparr> else r) rows)) = length (unused_for a' c' rows)"
  by (induction rows) auto

lemma redeem_shrinks: "length (unused_for a' c' (snd (redeem_im_claim now a c code rows))) \<le> length (unused_for a' c' rows)"
  by (auto simp: redeem_im_claim_def Let_def redeemed_unused attempts_unused simp del: map_map)

lemma redeemable_unused: "List.filter (redeemable now a c code) rows = List.filter (redeemable now a c code) (unused_for a c rows)"
  by (induction rows) (auto simp: redeemable_def)

lemma redeem_true:
  assumes "fst (redeem_im_claim now a c code rows)" and "one_live rows"
  shows "\<exists>r. unused_for a c rows = [r] \<and> redeemable now a c code r \<and> unused_for a c (snd (redeem_im_claim now a c code rows)) = []"
proof -
  have len: "length (List.filter (redeemable now a c code) (unused_for a c rows)) = 1"
    using assms(1) by (auto simp: redeem_im_claim_def Let_def redeemable_unused [symmetric] split: if_splits)
  have snd: "snd (redeem_im_claim now a c code rows) = map (\<lambda>r. if redeemable now a c code r then r\<lparr>ic_used := True\<rparr> else r) rows"
    using assms(1) by (auto simp: redeem_im_claim_def Let_def split: if_splits)
  have "length (unused_for a c rows) \<le> 1" using assms(2) by (simp add: one_live_def)
  then consider "unused_for a c rows = []" | r where "unused_for a c rows = [r]"
    by (cases "unused_for a c rows") (auto simp: le_Suc_eq)
  then show ?thesis
  proof cases
    case 2
    with len show ?thesis by (auto simp: snd redeemed_unused split: if_splits)
  qed (use len in simp)
qed

datatype claim_op = Op_create string "nat list" string string | Op_redeem string string string | Op_cleanup

definition claim_step :: "int \<times> claim_op \<Rightarrow> claim_table \<Rightarrow> claim_table" where
  "claim_step = (\<lambda>(now, op) rows.
     (case op of
        Op_create rid bytes a c \<Rightarrow> snd (create_im_claim rid bytes now a c ''add'' rows)
      | Op_redeem a c code \<Rightarrow> snd (redeem_im_claim now a c code rows)
      | Op_cleanup \<Rightarrow> cleanup_expired_im_claims now rows))"

definition claim_run :: "(int \<times> claim_op) list \<Rightarrow> claim_table \<Rightarrow> claim_table" where
  "claim_run ops rows = fold claim_step ops rows"

fun creates_for :: "string \<Rightarrow> string \<Rightarrow> claim_op \<Rightarrow> bool" where
  "creates_for a c (Op_create rid bytes a' c') = (a' = a \<and> c' = c)"
| "creates_for a c op = False"

lemma create_keeps_live: "one_live rows \<Longrightarrow> one_live (snd (create_im_claim rid bytes now a c intent rows))"
proof (cases "fst (create_im_claim rid bytes now a c intent rows)")
  case (Inr code)
  then have "create_im_claim rid bytes now a c intent rows = (Inr code, snd (create_im_claim rid bytes now a c intent rows))"
    by (metis prod.collapse)
  from create_unused [OF this] show "one_live rows \<Longrightarrow> ?thesis" by (simp add: one_live_def)
qed (auto simp: create_im_claim_def Let_def split: if_splits)

lemma cleanup_shrinks: "length (unused_for a c (cleanup_expired_im_claims now rows)) \<le> length (unused_for a c rows)"
  by (induction rows) (auto simp: cleanup_expired_im_claims_def le_SucI)

lemma step_keeps_live: "one_live rows \<Longrightarrow> one_live (claim_step op rows)"
proof -
  assume live: "one_live rows"
  obtain now k where op: "op = (now, k)" by (cases op)
  have smaller: "one_live rows'" if "\<And>a c. length (unused_for a c rows') \<le> length (unused_for a c rows)" for rows'
    using live that le_trans unfolding one_live_def by blast
  show ?thesis
  proof (cases k)
    case (Op_create rid bytes a c)
    with create_keeps_live [OF live] show ?thesis by (simp add: op claim_step_def)
  next
    case (Op_redeem a c code)
    then show ?thesis by (simp add: op claim_step_def smaller redeem_shrinks)
  next
    case Op_cleanup
    then show ?thesis by (simp add: op claim_step_def smaller cleanup_shrinks)
  qed
qed

lemma run_keeps_live: "one_live rows \<Longrightarrow> one_live (claim_run ops rows)"
  unfolding claim_run_def by (induction ops arbitrary: rows) (simp_all add: step_keeps_live)

lemma step_keeps_none:
  assumes "unused_for a c rows = []" and "\<not> creates_for a c (snd op)"
  shows "unused_for a c (claim_step op rows) = []"
proof -
  obtain now k where op: "op = (now, k)" by (cases op)
  show ?thesis
  proof (cases k)
    case (Op_create rid bytes a' c')
    then have other: "a \<noteq> a' \<or> c \<noteq> c'" using assms(2) op by auto
    show ?thesis
    proof (cases "fst (create_im_claim rid bytes now a' c' ''add'' rows)")
      case (Inr code)
      then have "create_im_claim rid bytes now a' c' ''add'' rows = (Inr code, snd (create_im_claim rid bytes now a' c' ''add'' rows))"
        by (metis prod.collapse)
      from create_unused [OF this, of a c] other assms(1) show ?thesis by (auto simp: op Op_create claim_step_def)
    qed (use assms(1) in \<open>auto simp: op Op_create claim_step_def create_im_claim_def Let_def split: if_splits\<close>)
  next
    case (Op_redeem a' c' code)
    with redeem_shrinks [of a c now a' c' code rows] assms(1) show ?thesis by (simp add: op claim_step_def)
  next
    case Op_cleanup
    with cleanup_shrinks [of a c now rows] assms(1) show ?thesis by (simp add: op claim_step_def)
  qed
qed

lemma run_keeps_none:
  "unused_for a c rows = [] \<Longrightarrow> list_all (\<lambda>op. \<not> creates_for a c (snd op)) ops \<Longrightarrow> unused_for a c (claim_run ops rows) = []"
  unfolding claim_run_def by (induction ops arbitrary: rows) (simp_all add: step_keeps_none)

lemma redeem_none: "unused_for a c rows = [] \<Longrightarrow> \<not> fst (redeem_im_claim now a c code rows)"
  by (simp add: redeem_im_claim_def Let_def redeemable_unused)

text \<open>
  C18. A code binds once: when a code was accepted it was the latest one of its agent and channel and had
  not expired, and no code of that pair is accepted again until a new one is made, whatever is done.
\<close>
theorem code_redeems_once:
  assumes "one_live rows" and "redeem_im_claim now a c code (claim_run before rows) = (True, rows')"
    and "list_all (\<lambda>op. \<not> creates_for a c (snd op)) later"
  shows "(\<exists>r. unused_for a c (claim_run before rows) = [r] \<and> ic_code r = code \<and> now < ic_expires r)
    \<and> \<not> fst (redeem_im_claim now' a c code' (claim_run later rows'))"
proof -
  have ok: "fst (redeem_im_claim now a c code (claim_run before rows))" and s: "rows' = snd (redeem_im_claim now a c code (claim_run before rows))"
    using assms(2) by simp_all
  from redeem_true [OF ok run_keeps_live [OF assms(1)]] obtain r where
      r: "unused_for a c (claim_run before rows) = [r]" "redeemable now a c code r" "unused_for a c rows' = []" unfolding s by blast
  from redeem_none [OF run_keeps_none [OF r(3) assms(3)]] r(1,2) show ?thesis by (auto simp: redeemable_def)
qed

definition sample_claim :: im_claim where
  "sample_claim = \<lparr>ic_id = ''1'', ic_agent = ''bot'', ic_channel = ''telegram'', ic_code = ''123456'', ic_intent = ''add'', ic_expires = 600,
     ic_used = False, ic_attempts = 0, ic_created = 0\<rparr>"

theorem code_redeems_once_witness:
  "fst (redeem_im_claim 5 ''bot'' ''telegram'' ''123456'' [sample_claim])
   \<and> \<not> fst (redeem_im_claim 6 ''bot'' ''telegram'' ''123456''
        (claim_run [(6, Op_cleanup)] (snd (redeem_im_claim 5 ''bot'' ''telegram'' ''123456'' [sample_claim]))))"
proof -
  have live: "one_live [sample_claim]" by (auto simp: one_live_def)
  have ok: "redeem_im_claim 5 ''bot'' ''telegram'' ''123456'' (claim_run [] [sample_claim]) = (True, [sample_claim\<lparr>ic_used := True\<rparr>])"
    by (simp add: claim_run_def redeem_im_claim_def redeemable_def sample_claim_def max_attempts_def)
  from code_redeems_once [OF live ok, of "[(6, Op_cleanup)]" 6 "''123456''"] ok show ?thesis by (simp add: claim_run_def)
qed

section \<open>Guessing\<close>

lemma wrong_guess_is_free:
  assumes "\<And>r. r \<in> set rows \<Longrightarrow> ic_agent r = a \<Longrightarrow> ic_channel r = c \<Longrightarrow> \<not> ic_used r \<Longrightarrow> ic_code r \<noteq> g"
  shows "redeem_im_claim now a c g rows = (False, rows)"
proof -
  have none: "List.filter (redeemable now a c g) rows = []" using assms by (auto simp: filter_empty_conv redeemable_def)
  have "map (\<lambda>r. if redeemable now a c g r then r\<lparr>ic_used := True\<rparr> else r) rows = rows"
    using none by (intro map_idI) (auto simp: filter_empty_conv)
  moreover have "map (\<lambda>r. if ic_agent r = a \<and> ic_channel r = c \<and> ic_code r = g \<and> \<not> ic_used r
      then r\<lparr>ic_attempts := Suc (ic_attempts r)\<rparr> else r) rows = rows"
    using assms by (intro map_idI) auto
  ultimately show ?thesis using none by (simp add: redeem_im_claim_def Let_def)
qed

text \<open>
  C19. Wrong guesses are never counted: after any number of wrong codes the rows are what they were, no
  attempt is recorded, and the right code is still accepted.
\<close>
theorem wrong_guesses_are_never_counted:
  assumes "unused_for a c rows = [r]" and "redeemable later a c (ic_code r) r" and "ic_code r \<notin> set (map snd guesses)"
    and "a \<noteq> []" and "c \<noteq> []" and "ic_code r \<noteq> []"
  shows "fold (\<lambda>(now, g) rows. snd (redeem_im_claim now a c g rows)) guesses rows = rows
    \<and> fst (redeem_im_claim later a c (ic_code r) (fold (\<lambda>(now, g) rows. snd (redeem_im_claim now a c g rows)) guesses rows))"
proof -
  have code: "ic_code x = ic_code r" if "x \<in> set rows" "ic_agent x = a" "ic_channel x = c" "\<not> ic_used x" for x
  proof -
    have "x \<in> set (unused_for a c rows)" using that by (simp add: unused_for_def)
    then show ?thesis by (simp add: assms(1))
  qed
  have "fold (\<lambda>(now, g) rows. snd (redeem_im_claim now a c g rows)) guesses rows = rows"
    using assms(3)
  proof (induction guesses)
    case (Cons x xs)
    obtain now g where x: "x = (now, g)" by (cases x)
    have "redeem_im_claim now a c g rows = (False, rows)"
    proof (rule wrong_guess_is_free)
      fix y assume "y \<in> set rows" "ic_agent y = a" "ic_channel y = c" "\<not> ic_used y"
      from code [OF this] Cons.prems x show "ic_code y \<noteq> g" by auto
    qed
    with Cons x show ?case by simp
  qed simp
  moreover have "fst (redeem_im_claim later a c (ic_code r) rows)"
    using assms(1,2,4-6) by (simp add: redeem_im_claim_def Let_def redeemable_unused)
  ultimately show ?thesis by simp
qed

theorem wrong_guesses_are_never_counted_witness:
  "fst (redeem_im_claim 10 ''bot'' ''telegram'' ''123456''
     (fold (\<lambda>(now, g) rows. snd (redeem_im_claim now ''bot'' ''telegram'' g rows))
        [(1, ''000000''), (2, ''000001''), (3, ''000002''), (4, ''000003''), (5, ''000004''), (6, ''000005'')] [sample_claim]))"
proof -
  have u: "unused_for ''bot'' ''telegram'' [sample_claim] = [sample_claim]" by (simp add: sample_claim_def)
  have r: "redeemable 10 ''bot'' ''telegram'' (ic_code sample_claim) sample_claim" by (simp add: redeemable_def sample_claim_def max_attempts_def)
  have code: "ic_code sample_claim = ''123456''" by (simp add: sample_claim_def)
  show ?thesis
    by (rule wrong_guesses_are_never_counted [OF u r, THEN conjunct2, unfolded code]) simp_all
qed

section \<open>Administrators\<close>

fun acted_on :: "route_action \<Rightarrow> chat_msg option" where
  "acted_on (Queue_turn a k acc m) = Some m"
| "acted_on _ = None"

lemma deliver_user: "acted_on (deliver busy a m t acc) = Some m' \<Longrightarrow> m' = m"
  by (auto simp: deliver_def split: if_splits)

lemma inject_queues_nothing [simp]: "acted_on (inject_group_message a m) = None"
  by (simp add: inject_group_message_def)

lemma routed_user:
  "act \<in> set (fst (route_dm att busy m sp)) \<Longrightarrow> acted_on act = Some m' \<Longrightarrow> cm_user m' = cm_user m \<and> cm_channel m' = cm_channel m"
  "act \<in> set (fst (route_group att busy bn m sp)) \<Longrightarrow> acted_on act = Some m' \<Longrightarrow> cm_user m' = cm_user m \<and> cm_channel m' = cm_channel m"
  by (auto simp: route_dm_def route_group_def Let_def dest!: deliver_user split: prod.splits option.splits if_splits)

lemma queued_user:
  assumes "process_inbound env now m st = (Routed acts, st')" and "act \<in> set acts" and "acted_on act = Some m'"
  shows "cm_user m' = fst (owner_for env m) \<and> cm_channel m' = cm_channel m \<and> fst (owner_for env m) \<noteq> []"
proof -
  obtain owner shared where o: "owner_for env m = (owner, shared)" by (metis surj_pair)
  let ?m = "m\<lparr>cm_owner := owner, cm_user := owner, cm_shared := (shared \<or> cm_shared m)\<rparr>"
  have "owner \<noteq> [] \<and> (\<exists>sp. acts = fst (route_dm (re_attachable env) (re_busy env) ?m sp)
      \<or> acts = fst (route_group (re_attachable env) (re_busy env) (re_bot_name env) ?m sp))"
    using assms(1) o
    by (auto simp: process_inbound_def owner_for_def [symmetric] Let_def split: if_splits option.splits prod.splits) (metis fst_conv)+
  then show ?thesis
    using routed_user(1) [of act _ _ ?m _ m'] routed_user(2) [of act _ _ _ ?m _ m'] assms(2,3) o by fastforce
qed



text \<open>A claim enters the owner and not the account of the messenger: afterwards everybody is an administrator.\<close>

lemma claim_admits_everybody:
  assumes "process_inbound env now m st = (Routed acts, st')" and "act \<in> set acts" and "acted_on act = Some m'"
    and "slash_claim t agent m' cl = (Bound_as_admin, cl')"
  shows "fst (owner_for env m) \<in> set (admin_list (cl_cached cl') (cm_channel m))"
proof -
  from queued_user [OF assms(1-3)] have u: "cm_user m' = fst (owner_for env m)" "cm_channel m' = cm_channel m" by simp_all
  have "cl_cached cl' = add_admin (cm_channel m') (cm_user m') (cl_cached cl)"
    using assms(4)
    by (auto simp: slash_claim_def persist_admin_im_id_def Let_def split: if_splits prod.splits option.splits)
  then show ?thesis by (auto simp: add_admin_def admin_list_def u update_conv')
qed

text \<open>A rebind, or the removal of an account, does not reach the running agent.\<close>

lemma rebind_keeps_cache:
  "cl_cached (snd (handle_rebind_im rid bytes now agent ch st)) = cl_cached st"
  "cl_cached (snd (handle_unbind_im req st)) = cl_cached st"
  by (auto simp: handle_rebind_im_def handle_unbind_im_def create_im_claim_def Let_def split: option.split)

lemma unbind_removes_stored:
  "handle_unbind_im (Some (ch, p)) st = (Cr_unbound n, st') \<Longrightarrow> p \<notin> set (admin_list (stored_admins st') ch)"
  by (auto simp: handle_unbind_im_def Let_def stored_admins_def admin_list_def update_conv' delete_conv' split: if_splits)

text \<open>The digits are drawn from bytes, so that the first six are more frequent.\<close>

lemma code_digits_biased: "length (List.filter (\<lambda>b. b mod 10 = 0) [0..<256]) = 26 \<and> length (List.filter (\<lambda>b. b mod 10 = 9) [0..<256]) = 25"
  by code_simp

end
