(* ===== verification/Skill_Pending.thy ===== *)
theory Skill_Pending
  imports Go_Strings "HOL-Library.AList" "HOL-Library.Char_ord" "HOL-Library.List_Lexorder"
begin

text \<open>
  The approval gate for edits of skills by the agent (\<^verbatim>\<open>internal/skills/pending.go\<close>): an edit
  is staged below \<^verbatim>\<open>skills-pending\<close> and goes to \<^verbatim>\<open>skills\<close> on approval only. A
  directory is the list of its files by their segments; empty directories are left out. The file
  \<^verbatim>\<open>.pending.json\<close> holds the description of the edit; \<open>parse\<close> reads it out of a file that
  was not written by this code.
\<close>

section \<open>Names and paths\<close>

datatype skill_error =
    Name_required | Name_reserved | Name_invalid | Path_required | Path_absolute | Path_drive | Path_chars
  | Path_empty_segment | Path_dotdot | Path_dot | Home_required | No_pending | File_missing | Unknown_action string | Io_error

definition name_char :: "char \<Rightarrow> bool" where
  "name_char c = (CHR ''A'' \<le> c \<and> c \<le> CHR ''Z'' \<or> CHR ''a'' \<le> c \<and> c \<le> CHR ''z'' \<or> CHR ''0'' \<le> c \<and> c \<le> CHR ''9''
     \<or> c = CHR ''.'' \<or> c = CHR ''_'' \<or> c = CHR ''-'')"

definition is_valid_skill_name :: "string \<Rightarrow> skill_error option" where
  "is_valid_skill_name name =
     (if name = [] then Some Name_required
      else if name = ''.'' \<or> name = ''..'' then Some Name_reserved
      else if \<not> list_all name_char name then Some Name_invalid
      else None)"

fun check_segments :: "string list \<Rightarrow> skill_error option" where
  "check_segments [] = None"
| "check_segments (s # ss) =
     (if s = [] then Some Path_empty_segment else if s = ''..'' then Some Path_dotdot else if s = ''.'' then Some Path_dot else check_segments ss)"

fun skill_segments_from :: "string \<Rightarrow> string \<Rightarrow> string list" where
  "skill_segments_from acc [] = [acc]"
| "skill_segments_from acc (c # s) = (if c = CHR ''/'' then acc # skill_segments_from [] s else skill_segments_from (acc @ [c]) s)"

definition skill_segments :: "string \<Rightarrow> string list" where
  "skill_segments p = skill_segments_from [] p"

definition is_safe_relative_path :: "string \<Rightarrow> skill_error option" where
  "is_safe_relative_path p =
     (if p = [] then Some Path_required
      else if hd p = CHR ''/'' then Some Path_absolute
      else if length p \<ge> 2 \<and> p ! 1 = CHR '':'' then Some Path_drive
      else if \<not> list_all (\<lambda>c. name_char c \<or> c = CHR ''/'') p then Some Path_chars
      else check_segments (skill_segments p))"

section \<open>Directories\<close>

record pending_meta =
  pm_source :: string
  pm_created :: int
  pm_description :: string
  pm_action :: string
  pm_file :: string

datatype skill_file = Raw string | Meta pending_meta

type_synonym skill_tree = "(string list \<times> skill_file) list"

definition meta_path :: "string list" where "meta_path = [''.pending.json'']"
definition body_path :: "string list" where "body_path = [''SKILL.md'']"

definition proper_prefix :: "string list \<Rightarrow> string list \<Rightarrow> bool" where
  "proper_prefix p q = (length p < length q \<and> take (length p) q = p)"

text \<open>Writing fails below a file and in place of a directory.\<close>

definition write_at :: "string list \<Rightarrow> skill_file \<Rightarrow> skill_tree \<Rightarrow> skill_tree option" where
  "write_at p f t = (if list_ex (\<lambda>(q, _). proper_prefix q p \<or> proper_prefix p q) t then None else Some (AList.update p f t))"

record skill_home =
  sk_pending :: "(string \<times> skill_tree) list"
  sk_live :: "(string \<times> skill_tree) list"

definition pending_of :: "string \<Rightarrow> skill_home \<Rightarrow> skill_tree" where
  "pending_of name st = (case map_of (sk_pending st) name of None \<Rightarrow> [] | Some t \<Rightarrow> t)"

definition live_of :: "string \<Rightarrow> skill_home \<Rightarrow> skill_tree" where
  "live_of name st = (case map_of (sk_live st) name of None \<Rightarrow> [] | Some t \<Rightarrow> t)"

definition put_pending :: "string \<Rightarrow> skill_tree \<Rightarrow> skill_home \<Rightarrow> skill_home" where
  "put_pending name t st = st\<lparr>sk_pending := AList.update name t (sk_pending st)\<rparr>"

definition put_live :: "string \<Rightarrow> skill_tree \<Rightarrow> skill_home \<Rightarrow> skill_home" where
  "put_live name t st = st\<lparr>sk_live := AList.update name t (sk_live st)\<rparr>"

definition drop_pending :: "string \<Rightarrow> skill_home \<Rightarrow> skill_home" where
  "drop_pending name st = st\<lparr>sk_pending := AList.delete name (sk_pending st)\<rparr>"

definition drop_live :: "string \<Rightarrow> skill_home \<Rightarrow> skill_home" where
  "drop_live name st = st\<lparr>sk_live := AList.delete name (sk_live st)\<rparr>"

section \<open>Staging\<close>

definition write_pending_meta :: "int \<Rightarrow> pending_meta \<Rightarrow> skill_tree \<Rightarrow> skill_tree option" where
  "write_pending_meta now m t = write_at meta_path (Meta (if pm_created m = 0 then m\<lparr>pm_created := now\<rparr> else m)) t"

definition with_home :: "string \<Rightarrow> skill_error option \<Rightarrow> skill_error option" where
  "with_home home e = (case e of Some x \<Rightarrow> Some x | None \<Rightarrow> if home = [] then Some Home_required else None)"

definition write_pending :: "int \<Rightarrow> string \<Rightarrow> string \<Rightarrow> string \<Rightarrow> pending_meta \<Rightarrow> skill_home \<Rightarrow> skill_error option \<times> skill_home" where
  "write_pending now home name content m st =
     (case with_home home (is_valid_skill_name name) of
        Some e \<Rightarrow> (Some e, st)
      | None \<Rightarrow>
          (let m = (if pm_action m = [] then m\<lparr>pm_action := ''create''\<rparr> else m) in
           case write_at body_path (Raw content) (pending_of name st) of
             None \<Rightarrow> (Some Io_error, st)
           | Some t \<Rightarrow>
               (case write_pending_meta now m t of
                  None \<Rightarrow> (Some Io_error, put_pending name t st)
                | Some t' \<Rightarrow> (None, put_pending name t' st))))"

definition stage_meta :: "int \<Rightarrow> string \<Rightarrow> pending_meta \<Rightarrow> skill_home \<Rightarrow> skill_error option \<times> skill_home" where
  "stage_meta now name m st =
     (let t = pending_of name st in
      case write_pending_meta now m t of
        None \<Rightarrow> (Some Io_error, put_pending name t st)
      | Some t' \<Rightarrow> (None, put_pending name t' st))"

definition stage_delete_pending :: "int \<Rightarrow> string \<Rightarrow> string \<Rightarrow> pending_meta \<Rightarrow> skill_home \<Rightarrow> skill_error option \<times> skill_home" where
  "stage_delete_pending now home name m st =
     (case with_home home (is_valid_skill_name name) of
        Some e \<Rightarrow> (Some e, st)
      | None \<Rightarrow> stage_meta now name (m\<lparr>pm_action := ''delete'', pm_file := []\<rparr>) st)"

definition checked_file :: "string \<Rightarrow> string \<Rightarrow> string \<Rightarrow> skill_error option" where
  "checked_file home name file =
     (case is_valid_skill_name name of Some e \<Rightarrow> Some e | None \<Rightarrow> with_home home (is_safe_relative_path file))"

definition stage_file_pending ::
    "int \<Rightarrow> string \<Rightarrow> string \<Rightarrow> string \<Rightarrow> string \<Rightarrow> pending_meta \<Rightarrow> skill_home \<Rightarrow> skill_error option \<times> skill_home" where
  "stage_file_pending now home name file content m st =
     (case checked_file home name file of
        Some e \<Rightarrow> (Some e, st)
      | None \<Rightarrow>
          (case write_at (skill_segments file) (Raw content) (pending_of name st) of
             None \<Rightarrow> (Some Io_error, put_pending name (pending_of name st) st)
           | Some t \<Rightarrow> stage_meta now name (m\<lparr>pm_action := ''write_file'', pm_file := file\<rparr>) (put_pending name t st)))"

definition stage_remove_file_pending :: "int \<Rightarrow> string \<Rightarrow> string \<Rightarrow> string \<Rightarrow> pending_meta \<Rightarrow> skill_home \<Rightarrow> skill_error option \<times> skill_home" where
  "stage_remove_file_pending now home name file m st =
     (case checked_file home name file of
        Some e \<Rightarrow> (Some e, st)
      | None \<Rightarrow> stage_meta now name (m\<lparr>pm_action := ''remove_file'', pm_file := file\<rparr>) st)"

section \<open>Deciding\<close>

definition staged_action :: "(string \<Rightarrow> pending_meta option) \<Rightarrow> skill_tree \<Rightarrow> string \<times> string" where
  "staged_action parse t =
     (case (case map_of t meta_path of None \<Rightarrow> None | Some (Meta m) \<Rightarrow> Some m | Some (Raw s) \<Rightarrow> parse s) of
        None \<Rightarrow> (''create'', [])
      | Some m \<Rightarrow> (if pm_action m \<noteq> [] then pm_action m else ''create'', pm_file m))"

definition approve_pending :: "(string \<Rightarrow> pending_meta option) \<Rightarrow> string \<Rightarrow> string \<Rightarrow> skill_home \<Rightarrow> skill_error option \<times> skill_home" where
  "approve_pending parse home name st =
     (case with_home home (is_valid_skill_name name) of
        Some e \<Rightarrow> (Some e, st)
      | None \<Rightarrow>
          (case map_of (sk_pending st) name of
             None \<Rightarrow> (Some No_pending, st)
           | Some t \<Rightarrow>
               (case staged_action parse t of
                  (action, file) \<Rightarrow>
                    if action \<in> {''create'', ''patch'', ''edit''} then
                      (None, put_live name (AList.delete meta_path t) (drop_pending name st))
                    else if action = ''delete'' then (None, drop_pending name (drop_live name st))
                    else if action = ''write_file'' then
                      (if file = [] then (Some File_missing, st)
                       else case is_safe_relative_path file of
                         Some e \<Rightarrow> (Some e, st)
                       | None \<Rightarrow>
                           (case map_of t (skill_segments file) of
                              None \<Rightarrow> (Some Io_error, st)
                            | Some data \<Rightarrow>
                                (case write_at (skill_segments file) data (live_of name st) of
                                   None \<Rightarrow> (Some Io_error, put_live name (live_of name st) st)
                                 | Some l \<Rightarrow> (None, drop_pending name (put_live name l st)))))
                    else if action = ''remove_file'' then
                      (if file = [] then (Some File_missing, st)
                       else case is_safe_relative_path file of
                         Some e \<Rightarrow> (Some e, st)
                       | None \<Rightarrow>
                           (if list_ex (\<lambda>(q, _). proper_prefix (skill_segments file) q \<or> proper_prefix q (skill_segments file)) (live_of name st)
                            then (Some Io_error, st)
                            else (None, drop_pending name
                                          (case map_of (sk_live st) name of
                                             None \<Rightarrow> st
                                           | Some l \<Rightarrow> put_live name (AList.delete (skill_segments file) l) st))))
                    else (Some (Unknown_action action), st))))"

definition reject_pending :: "string \<Rightarrow> string \<Rightarrow> skill_home \<Rightarrow> skill_error option \<times> skill_home" where
  "reject_pending home name st =
     (case with_home home (is_valid_skill_name name) of
        Some e \<Rightarrow> (Some e, st)
      | None \<Rightarrow> (None, drop_pending name st))"

text \<open>The listing is sorted by the names.\<close>

definition list_pending :: "(string \<Rightarrow> pending_meta option) \<Rightarrow> string \<Rightarrow> skill_home \<Rightarrow> (string \<times> pending_meta option) list option" where
  "list_pending parse home st =
     (if home = [] then None
      else Some (sort_key fst (map (\<lambda>(n, t). (n, case map_of t meta_path of None \<Rightarrow> None | Some (Meta m) \<Rightarrow> Some m | Some (Raw s) \<Rightarrow> parse s))
                   (List.filter (\<lambda>(n, _). is_valid_skill_name n = None) (sk_pending st)))))"

section \<open>The gate\<close>

datatype skill_op =
    Stage_body int string string pending_meta
  | Stage_delete int string pending_meta
  | Stage_file int string string string pending_meta
  | Stage_remove int string string pending_meta
  | Approve string
  | Reject string

definition skill_step :: "(string \<Rightarrow> pending_meta option) \<Rightarrow> string \<Rightarrow> skill_op \<Rightarrow> skill_home \<Rightarrow> skill_home" where
  "skill_step parse home op st =
     (case op of
        Stage_body now n content m \<Rightarrow> snd (write_pending now home n content m st)
      | Stage_delete now n m \<Rightarrow> snd (stage_delete_pending now home n m st)
      | Stage_file now n file content m \<Rightarrow> snd (stage_file_pending now home n file content m st)
      | Stage_remove now n file m \<Rightarrow> snd (stage_remove_file_pending now home n file m st)
      | Approve n \<Rightarrow> snd (approve_pending parse home n st)
      | Reject n \<Rightarrow> snd (reject_pending home n st))"

definition skill_run :: "(string \<Rightarrow> pending_meta option) \<Rightarrow> string \<Rightarrow> skill_op list \<Rightarrow> skill_home \<Rightarrow> skill_home" where
  "skill_run parse home ops st = fold (skill_step parse home) ops st"

lemma pending_ops_live [simp]:
  "sk_live (put_pending n t st) = sk_live st" "sk_live (drop_pending n st) = sk_live st"
  by (simp_all add: put_pending_def drop_pending_def)

lemma live_ops_other [simp]:
  "k \<noteq> n \<Longrightarrow> map_of (sk_live (put_live n t st)) k = map_of (sk_live st) k"
  "k \<noteq> n \<Longrightarrow> map_of (sk_live (drop_live n st)) k = map_of (sk_live st) k"
  by (simp_all add: put_live_def drop_live_def update_conv' delete_conv')

lemma staging_keeps_live:
  "sk_live (snd (write_pending now home n content m st)) = sk_live st"
  "sk_live (snd (stage_delete_pending now home n m st)) = sk_live st"
  "sk_live (snd (stage_file_pending now home n file content m st)) = sk_live st"
  "sk_live (snd (stage_remove_file_pending now home n file m st)) = sk_live st"
  "sk_live (snd (reject_pending home n st)) = sk_live st"
  by (simp_all add: write_pending_def stage_delete_pending_def stage_file_pending_def stage_remove_file_pending_def stage_meta_def
      reject_pending_def Let_def split: option.splits)

lemma approve_keeps_others:
  "k \<noteq> n \<Longrightarrow> map_of (sk_live (snd (approve_pending parse home n st))) k = map_of (sk_live st) k"
  by (auto simp: approve_pending_def split: option.splits prod.splits)


definition a_meta :: "string \<Rightarrow> pending_meta" where
  "a_meta action = \<lparr>pm_source = ''test'', pm_created = 1, pm_description = [], pm_action = action, pm_file = []\<rparr>"


section \<open>What an approval leaves\<close>

lemma write_at_fresh: "write_at p f [] = Some [(p, f)]"
  by (simp add: write_at_def)

lemma staged_body:
  assumes "is_valid_skill_name n = None" and "home \<noteq> []" and "map_of (sk_pending st) n = None"
  shows "\<exists>m'. write_pending now home n content m st = (None, put_pending n [(body_path, Raw content), (meta_path, Meta m')] st)
    \<and> pm_action m' = (if pm_action m = [] then ''create'' else pm_action m)"
proof -
  have "write_at body_path (Raw content) [] = Some [(body_path, Raw content)]"
    "write_at meta_path (Meta x) [(body_path, Raw content)] = Some [(body_path, Raw content), (meta_path, Meta x)]" for x
    by (simp_all add: write_at_def body_path_def meta_path_def proper_prefix_def)
  then show ?thesis
    using assms by (auto simp: write_pending_def with_home_def pending_of_def write_pending_meta_def Let_def)
qed

text \<open>
  An approved patch drops the other files of the skill: a patch is staged with the body alone, and its
  approval puts the staged directory in the place of the live one.
\<close>
lemma approved_patch_drops_subfiles:
  assumes "is_valid_skill_name n = None" and "home \<noteq> []" and "map_of (sk_pending st) n = None" and "pm_action m \<in> {''patch'', ''edit''}"
    and "write_pending now home n content m st = (None, st1)" and "approve_pending parse home n st1 = (e, st2)"
  shows "e = None \<and> map_of (sk_live st2) n = Some [(body_path, Raw content)]"
proof -
  obtain m' where m': "st1 = put_pending n [(body_path, Raw content), (meta_path, Meta m')] st" "pm_action m' = pm_action m"
    using staged_body [OF assms(1-3), of now content m] assms(4,5) by (auto split: if_splits)
  have pend: "map_of (sk_pending st1) n = Some [(body_path, Raw content), (meta_path, Meta m')]"
    by (simp add: m' put_pending_def update_conv')
  have "staged_action parse [(body_path, Raw content), (meta_path, Meta m')] = (pm_action m, pm_file m')"
    using m'(2) assms(4) by (auto simp: staged_action_def meta_path_def body_path_def)
  then show ?thesis
    using assms(1,2,4,6) pend
    by (auto simp: approve_pending_def with_home_def put_live_def update_conv' meta_path_def body_path_def)
qed

theorem approved_patch_drops_subfiles_witness:
  "(let st = \<lparr>sk_pending = [], sk_live = [(''a'', [(body_path, Raw ''x''), ([''templates'', ''t.md''], Raw ''t'')])]\<rparr>;
        st2 = snd (approve_pending (\<lambda>s. None) ''home'' ''a'' (snd (write_pending 1 ''home'' ''a'' ''y'' (a_meta ''patch'') st)))
    in map_of (live_of ''a'' st2) [''templates'', ''t.md''] = None)"
proof -
  let ?st = "\<lparr>sk_pending = [], sk_live = [(''a'', [(body_path, Raw ''x''), ([''templates'', ''t.md''], Raw ''t'')])]\<rparr>"
  let ?st1 = "snd (write_pending 1 ''home'' ''a'' ''y'' (a_meta ''patch'') ?st)"
  have v: "is_valid_skill_name ''a'' = None" by (simp add: is_valid_skill_name_def name_char_def)
  have s: "write_pending 1 ''home'' ''a'' ''y'' (a_meta ''patch'') ?st = (None, ?st1)"
    using staged_body [OF v, of "''home''" ?st 1 "''y''" "a_meta ''patch''"] by auto
  obtain e st2 where a: "approve_pending (\<lambda>s. None) ''home'' ''a'' ?st1 = (e, st2)" by (metis surj_pair)
  have "map_of (sk_live st2) ''a'' = Some [(body_path, Raw ''y'')]"
    using approved_patch_drops_subfiles [OF v _ _ _ s a] by (simp add: a_meta_def)
  then show ?thesis using a by (simp add: Let_def live_of_def body_path_def)
qed

text \<open>A file that is staged after a new skill takes the place of the edit: the approval loses the body.\<close>

lemma second_stage_loses_body:
  assumes "is_valid_skill_name n = None" and "home \<noteq> []" and "map_of (sk_pending st) n = None" and "map_of (sk_live st) n = None"
    and "is_safe_relative_path file = None" and "skill_segments file = [d, f]" and "d \<notin> {''SKILL.md'', ''.pending.json''}"
    and "write_pending now home n content (a_meta ''create'') st = (None, st1)"
    and "stage_file_pending now home n file tmpl (a_meta []) st1 = (None, st2)" and "file \<noteq> []"
  shows "live_of n (snd (approve_pending parse home n st2)) = [([d, f], Raw tmpl)]"
proof -
  obtain m' where st1: "st1 = put_pending n [(body_path, Raw content), (meta_path, Meta m')] st"
    using staged_body [OF assms(1-3), of now content "a_meta ''create''"] assms(8) by auto
  have w: "write_at [d, f] (Raw tmpl) [(body_path, Raw content), (meta_path, Meta m')]
      = Some [(body_path, Raw content), (meta_path, Meta m'), ([d, f], Raw tmpl)]"
    "write_at meta_path (Meta x) [(body_path, Raw content), (meta_path, Meta m'), ([d, f], Raw tmpl)]
      = Some [(body_path, Raw content), (meta_path, Meta x), ([d, f], Raw tmpl)]" for x
    using assms(7) by (simp_all add: write_at_def body_path_def meta_path_def proper_prefix_def)
  obtain m2 where st2: "map_of (sk_pending st2) n = Some [(body_path, Raw content), (meta_path, Meta m2), ([d, f], Raw tmpl)]"
      and act: "pm_action m2 = ''write_file''" "pm_file m2 = file" and live: "sk_live st2 = sk_live st"
    using assms(1,2,5,6,9) w
    by (auto simp: stage_file_pending_def checked_file_def with_home_def stage_meta_def write_pending_meta_def pending_of_def st1
        put_pending_def update_conv' Let_def a_meta_def)
  have "staged_action parse [(body_path, Raw content), (meta_path, Meta m2), ([d, f], Raw tmpl)] = (''write_file'', file)"
    by (simp add: staged_action_def act meta_path_def body_path_def)
  then show ?thesis
    using assms(1,2,4-7,10) st2 live
    by (simp add: approve_pending_def with_home_def live_of_def write_at_fresh put_live_def drop_pending_def update_conv' body_path_def meta_path_def)
qed

text \<open>A safe path has no segment that leaves the directory.\<close>

lemma safe_segments: "check_segments ss = None \<Longrightarrow> s \<in> set ss \<Longrightarrow> s \<noteq> [] \<and> s \<noteq> ''..'' \<and> s \<noteq> ''.''"
  by (induction ss) (auto split: if_splits)

lemma safe_path_stays_inside:
  "is_safe_relative_path p = None \<Longrightarrow> s \<in> set (skill_segments p) \<Longrightarrow> s \<noteq> [] \<and> s \<noteq> ''..'' \<and> s \<noteq> ''.''"
  by (auto simp: is_safe_relative_path_def split: if_splits dest: safe_segments)

end
