(* ===== verification/Kb_Cards.thy ===== *)
theory Kb_Cards
  imports Config_Rows
begin

text \<open>
  The flash cards of the knowledge base (\<^verbatim>\<open>internal/kb/store_cards.go\<close>): their table, the
  spacing of the reviews, the queue of due cards and the figures of the dashboard. Times are seconds; a due
  date that is the empty text in the database is \<open>None\<close>. A vector of the embedding service is an
  abstract value, the comparison of two of them the argument \<open>near\<close>.
\<close>

section \<open>The table\<close>

record kb_card =
  kc_id :: string
  kc_agent :: string
  kc_question :: string
  kc_answer :: string
  kc_source :: string
  kc_ref :: string
  kc_excerpt :: string
  kc_status :: string
  kc_index :: nat
  kc_due :: "int option"
  kc_reviewed :: "int option"
  kc_reviews :: nat
  kc_lapses :: nat
  kc_created :: int
  kc_updated :: int

record kb_review =
  kv_id :: nat
  kv_card :: string
  kv_agent :: string
  kv_grade :: string
  kv_prev :: nat
  kv_new :: nat
  kv_due :: "int option"
  kv_at :: int

record 'v kb_tables =
  kb_cards :: "kb_card list"
  kb_reviews :: "kb_review list"
  kb_vecs :: "(string \<times> string \<times> 'v) list"

definition card_intervals :: "nat list" where
  "card_intervals = [1, 2, 4, 7, 15, 30]"

definition day_secs :: int where "day_secs = 86400"
definition cst :: int where "cst = 28800"

definition cst_day :: "int \<Rightarrow> int" where
  "cst_day t = (t + cst) div day_secs"

definition card_day_bound :: "int \<Rightarrow> int" where
  "card_day_bound t = cst_day t * day_secs + (day_secs - 1) - cst"

definition add_days :: "int \<Rightarrow> nat \<Rightarrow> int" where
  "add_days t n = t + int n * day_secs"

definition the_card :: "string \<Rightarrow> string \<Rightarrow> kb_card \<Rightarrow> bool" where
  "the_card agent rid c = (kc_id c = rid \<and> kc_agent c = agent)"

definition get_card :: "string \<Rightarrow> string \<Rightarrow> 'v kb_tables \<Rightarrow> kb_card option" where
  "get_card agent rid st = List.find (the_card agent rid) (kb_cards st)"

definition new_card :: "string \<Rightarrow> int \<Rightarrow> string \<Rightarrow> string \<Rightarrow> string \<Rightarrow> string \<Rightarrow> string \<Rightarrow> string \<Rightarrow> kb_card" where
  "new_card rid now agent question answer source ref excerpt =
     \<lparr>kc_id = rid, kc_agent = agent, kc_question = question, kc_answer = answer, kc_source = source, kc_ref = ref,
      kc_excerpt = excerpt, kc_status = ''active'', kc_index = 0, kc_due = Some (now + day_secs), kc_reviewed = None, kc_reviews = 0,
      kc_lapses = 0, kc_created = now, kc_updated = now\<rparr>"

definition save_card ::
    "string \<Rightarrow> int \<Rightarrow> string \<Rightarrow> string \<Rightarrow> string \<Rightarrow> string \<Rightarrow> string \<Rightarrow> string \<Rightarrow> 'v kb_tables \<Rightarrow> string option \<times> 'v kb_tables" where
  "save_card rid now agent question answer source ref excerpt st =
     (let q = trim_space question in
      if q = [] then (None, st)
      else (Some rid, st\<lparr>kb_cards := kb_cards st @ [new_card rid now agent q answer source ref excerpt]\<rparr>))"

definition save_card_embedding :: "string \<Rightarrow> string \<Rightarrow> 'v \<Rightarrow> 'v kb_tables \<Rightarrow> 'v kb_tables" where
  "save_card_embedding agent rid v st = st\<lparr>kb_vecs := AList.update rid (agent, v) (kb_vecs st)\<rparr>"

definition embed_card :: "(string \<Rightarrow> 'v option) option \<Rightarrow> string \<Rightarrow> string \<Rightarrow> 'v kb_tables \<Rightarrow> 'v kb_tables" where
  "embed_card emb agent rid st =
     (case emb of None \<Rightarrow> st
      | Some e \<Rightarrow>
          (case get_card agent rid st of None \<Rightarrow> st
           | Some c \<Rightarrow>
               (let text = trim_space (kc_question c @ [CHR 0x0A] @ kc_answer c) in
                if text = [] then st
                else (case e text of None \<Rightarrow> st | Some v \<Rightarrow> save_card_embedding agent rid v st))))"

section \<open>Listings\<close>

definition card_is_due :: "int \<Rightarrow> kb_card \<Rightarrow> bool" where
  "card_is_due now c = (kc_status c = ''active'' \<and> (case kc_due c of None \<Rightarrow> False | Some d \<Rightarrow> d \<le> card_day_bound now))"

definition card_filter :: "int \<Rightarrow> string \<Rightarrow> (kb_card \<Rightarrow> bool) option" where
  "card_filter now flt =
     (if flt = ''due'' then Some (card_is_due now)
      else if flt \<in> {''active'', ''mastered'', ''archived''} then Some (\<lambda>c. kc_status c = flt)
      else if flt = ''new'' then Some (\<lambda>c. kc_status c = ''active'' \<and> kc_reviews c = 0)
      else if flt = ''all'' \<or> flt = [] then Some (\<lambda>c. True)
      else None)"

definition card_text_match :: "string \<Rightarrow> kb_card \<Rightarrow> bool" where
  "card_text_match q c =
     (let kw = trim_space q; p = ''%'' @ to_lower kw @ ''%'' in
      kw = [] \<or> like_match (\<lambda>x. x) p (to_lower (kc_question c)) \<or> like_match (\<lambda>x. x) p (to_lower (kc_answer c)))"

definition list_cards :: "int \<Rightarrow> string \<Rightarrow> string \<Rightarrow> string \<Rightarrow> string \<Rightarrow> int \<Rightarrow> int \<Rightarrow> 'v kb_tables \<Rightarrow> kb_card list option" where
  "list_cards now agent flt source q limit offset st =
     (case card_filter now flt of None \<Rightarrow> None
      | Some p \<Rightarrow>
          Some (take (if limit \<le> 0 then 50 else nat limit)
            (drop (nat offset)
              (sort_key (\<lambda>c. - kc_created c)
                (List.filter (\<lambda>c. kc_agent c = agent \<and> p c \<and> (source = [] \<or> kc_source c = source) \<and> card_text_match q c) (kb_cards st))))))"

definition list_due_queue :: "int \<Rightarrow> string \<Rightarrow> int \<Rightarrow> 'v kb_tables \<Rightarrow> kb_card list" where
  "list_due_queue now agent limit st =
     take (if limit \<le> 0 then 20 else nat limit)
       (sort_key (\<lambda>c. the (kc_due c)) (List.filter (\<lambda>c. kc_agent c = agent \<and> card_is_due now c) (kb_cards st)))"

record card_stats_row =
  cs_due :: nat
  cs_active :: nat
  cs_mastered :: nat
  cs_archived :: nat
  cs_streak :: nat

definition count_cards :: "string \<Rightarrow> (kb_card \<Rightarrow> bool) \<Rightarrow> 'v kb_tables \<Rightarrow> nat" where
  "count_cards agent p st = length (List.filter (\<lambda>c. kc_agent c = agent \<and> p c) (kb_cards st))"

text \<open>The days of the 400 newest reviews, newest first, and the walk back over consecutive ones.\<close>

definition review_days :: "string \<Rightarrow> 'v kb_tables \<Rightarrow> int list" where
  "review_days agent st =
     rev (sort (remdups (map (\<lambda>r. cst_day (kv_at r))
       (take 400 (sort_key (\<lambda>r. - kv_at r) (List.filter (\<lambda>r. kv_agent r = agent) (kb_reviews st)))))))"

fun streak_from :: "int \<Rightarrow> int list \<Rightarrow> nat" where
  "streak_from cursor [] = 0"
| "streak_from cursor (d # ds) = (if d \<noteq> cursor then 0 else Suc (streak_from (cursor - 1) ds))"

definition streak :: "int \<Rightarrow> int list \<Rightarrow> nat" where
  "streak today ds = (case ds of [] \<Rightarrow> 0 | d # _ \<Rightarrow> if d = today \<or> d = today - 1 then streak_from d ds else 0)"

definition card_stats :: "int \<Rightarrow> string \<Rightarrow> 'v kb_tables \<Rightarrow> card_stats_row" where
  "card_stats now agent st =
     \<lparr>cs_due = count_cards agent (card_is_due now) st,
      cs_active = count_cards agent (\<lambda>c. kc_status c = ''active'') st,
      cs_mastered = count_cards agent (\<lambda>c. kc_status c = ''mastered'') st,
      cs_archived = count_cards agent (\<lambda>c. kc_status c = ''archived'') st,
      cs_streak = streak (cst_day now) (review_days agent st)\<rparr>"

section \<open>Changes\<close>

definition change_card :: "string \<Rightarrow> string \<Rightarrow> (kb_card \<Rightarrow> kb_card) \<Rightarrow> 'v kb_tables \<Rightarrow> 'v kb_tables" where
  "change_card agent rid f st = st\<lparr>kb_cards := map (\<lambda>c. if the_card agent rid c then f c else c) (kb_cards st)\<rparr>"

definition has_card :: "string \<Rightarrow> string \<Rightarrow> 'v kb_tables \<Rightarrow> bool" where
  "has_card agent rid st = list_ex (the_card agent rid) (kb_cards st)"

definition update_card :: "int \<Rightarrow> string \<Rightarrow> string \<Rightarrow> string \<Rightarrow> string \<Rightarrow> 'v kb_tables \<Rightarrow> bool \<times> 'v kb_tables" where
  "update_card now agent rid question answer st =
     (if question = [] \<and> answer = [] then (True, st)
      else if \<not> has_card agent rid st then (False, st)
      else (True, change_card agent rid
                    (\<lambda>c. c\<lparr>kc_question := (if question \<noteq> [] then question else kc_question c),
                           kc_answer := (if answer \<noteq> [] then answer else kc_answer c), kc_updated := now\<rparr>) st))"

definition drop_cards :: "(kb_card \<Rightarrow> bool) \<Rightarrow> 'v kb_tables \<Rightarrow> nat \<times> 'v kb_tables" where
  "drop_cards p st =
     (let ids = map kc_id (List.filter p (kb_cards st)) in
      (length ids,
       st\<lparr>kb_vecs := List.filter (\<lambda>(i, _). i \<notin> set ids) (kb_vecs st),
          kb_reviews := List.filter (\<lambda>r. kv_card r \<notin> set ids) (kb_reviews st),
          kb_cards := List.filter (\<lambda>c. \<not> p c) (kb_cards st)\<rparr>))"

definition delete_card :: "string \<Rightarrow> string \<Rightarrow> 'v kb_tables \<Rightarrow> bool \<times> 'v kb_tables" where
  "delete_card agent rid st =
     (has_card agent rid st,
      st\<lparr>kb_vecs := List.filter (\<lambda>(i, a, _). \<not> (i = rid \<and> a = agent)) (kb_vecs st),
         kb_reviews := List.filter (\<lambda>r. \<not> (kv_card r = rid \<and> kv_agent r = agent)) (kb_reviews st),
         kb_cards := List.filter (\<lambda>c. \<not> the_card agent rid c) (kb_cards st)\<rparr>)"

definition delete_cards_by_source :: "string \<Rightarrow> string \<Rightarrow> string list \<Rightarrow> 'v kb_tables \<Rightarrow> nat \<times> 'v kb_tables" where
  "delete_cards_by_source agent source refs st =
     (if refs = [] then (0, st)
      else drop_cards (\<lambda>c. kc_source c = source \<and> (agent = [] \<or> kc_agent c = agent) \<and> kc_ref c \<in> set refs) st)"

definition set_card_status :: "int \<Rightarrow> string \<Rightarrow> string \<Rightarrow> string \<Rightarrow> 'v kb_tables \<Rightarrow> bool \<times> 'v kb_tables" where
  "set_card_status now agent rid status st =
     (if has_card agent rid st then (True, change_card agent rid (\<lambda>c. c\<lparr>kc_status := status, kc_updated := now\<rparr>) st) else (False, st))"

definition archive_card :: "int \<Rightarrow> string \<Rightarrow> string \<Rightarrow> 'v kb_tables \<Rightarrow> bool \<times> 'v kb_tables" where
  "archive_card now agent rid st = set_card_status now agent rid ''archived'' st"

definition restore_card :: "int \<Rightarrow> string \<Rightarrow> string \<Rightarrow> 'v kb_tables \<Rightarrow> bool \<times> 'v kb_tables" where
  "restore_card now agent rid st = set_card_status now agent rid ''active'' st"

section \<open>Reviews\<close>

datatype review_error = Card_not_found | Invalid_grade | Card_archived

definition graded :: "int \<Rightarrow> string \<Rightarrow> kb_card \<Rightarrow> kb_card" where
  "graded now grade c =
     (let i = kc_index c;
          (i', s', due) =
            (if grade = ''remembered'' then
               (if length card_intervals \<le> i + 1 then (i + 1, ''mastered'', None)
                else (i + 1, kc_status c, Some (add_days now (card_intervals ! (i + 1)))))
             else if grade = ''fuzzy'' then
               (i, kc_status c, Some (add_days now (card_intervals ! (if length card_intervals \<le> i then length card_intervals - 1 else i))))
             else (0, ''active'', Some (add_days now (card_intervals ! 0))))
      in c\<lparr>kc_index := i', kc_status := s', kc_due := due, kc_reviewed := Some now, kc_reviews := kc_reviews c + 1,
           kc_lapses := kc_lapses c + (if grade = ''forgot'' then 1 else 0), kc_updated := now\<rparr>)"

definition review_card :: "nat \<Rightarrow> int \<Rightarrow> string \<Rightarrow> string \<Rightarrow> string \<Rightarrow> 'v kb_tables \<Rightarrow> (review_error + kb_card) \<times> 'v kb_tables" where
  "review_card vid now agent rid grade st =
     (case get_card agent rid st of
        None \<Rightarrow> (Inl Card_not_found, st)
      | Some c \<Rightarrow>
          (if grade \<notin> {''remembered'', ''fuzzy'', ''forgot''} then (Inl Invalid_grade, st)
           else if kc_status c = ''archived'' then (Inl Card_archived, st)
           else
             (let c' = graded now grade c;
                  st1 = change_card agent rid (\<lambda>_. c') st;
                  st2 = st1\<lparr>kb_reviews := kb_reviews st1 @
                             [\<lparr>kv_id = vid, kv_card = rid, kv_agent = agent, kv_grade = grade, kv_prev = kc_index c,
                               kv_new = kc_index c', kv_due = kc_due c', kv_at = now\<rparr>]\<rparr>
              in (case get_card agent rid st2 of None \<Rightarrow> (Inl Card_not_found, st2) | Some u \<Rightarrow> (Inr u, st2)))))"

definition list_card_reviews :: "string \<Rightarrow> string \<Rightarrow> 'v kb_tables \<Rightarrow> kb_review list" where
  "list_card_reviews agent rid st =
     sort_key (\<lambda>r. - kv_at r) (sort_key (\<lambda>r. - int (kv_id r)) (List.filter (\<lambda>r. kv_card r = rid \<and> kv_agent r = agent) (kb_reviews st)))"

section \<open>Duplicates\<close>

definition question_key :: "string \<Rightarrow> string" where
  "question_key q = to_lower (trim_space q)"

text \<open>Vectors of the cards of an agent that are not archived.\<close>

definition live_vecs :: "string \<Rightarrow> 'v kb_tables \<Rightarrow> 'v list" where
  "live_vecs agent st =
     map (\<lambda>(_, _, v). v)
       (List.filter (\<lambda>(i, a, _). a = agent \<and> list_ex (\<lambda>c. kc_id c = i \<and> kc_status c \<noteq> ''archived'') (kb_cards st)) (kb_vecs st))"

definition sql_trim :: "string \<Rightarrow> string" where
  "sql_trim s = rev (dropWhile (\<lambda>c. c = CHR '' '') (rev (dropWhile (\<lambda>c. c = CHR '' '') s)))"

datatype dup_card = No_dup | Dup_of kb_card | Dup_similar string

definition check_card_duplicate :: "('v \<Rightarrow> 'v \<Rightarrow> bool) \<Rightarrow> (string \<Rightarrow> 'v option) option \<Rightarrow> string \<Rightarrow> string \<Rightarrow> 'v kb_tables \<Rightarrow> dup_card" where
  "check_card_duplicate near emb agent question st =
     (let q = trim_space question in
      if q = [] then No_dup
      else
        (case List.find (\<lambda>c. kc_agent c = agent \<and> kc_status c \<noteq> ''archived'' \<and> to_lower (sql_trim (kc_question c)) = to_lower q) (kb_cards st) of
           Some c \<Rightarrow> Dup_of c
         | None \<Rightarrow>
             (case emb of None \<Rightarrow> No_dup
              | Some e \<Rightarrow>
                  (case e q of None \<Rightarrow> No_dup
                   | Some v \<Rightarrow> if list_ex (near v) (live_vecs agent st) then Dup_similar q else No_dup))))"

definition check_card_duplicates_batch ::
    "('v \<Rightarrow> 'v \<Rightarrow> bool) \<Rightarrow> (string list \<Rightarrow> 'v list option) option \<Rightarrow> string \<Rightarrow> string list \<Rightarrow> 'v kb_tables \<Rightarrow> bool list" where
  "check_card_duplicates_batch near emb agent questions st =
     (let keyed = map (\<lambda>c. question_key (kc_question c)) (List.filter (\<lambda>c. kc_agent c = agent \<and> kc_status c \<noteq> ''archived'') (kb_cards st));
          vec = (case emb of None \<Rightarrow> map (\<lambda>_. False) questions
                 | Some e \<Rightarrow>
                     (if questions = [] then []
                      else case e questions of None \<Rightarrow> map (\<lambda>_. False) questions
                      | Some vs \<Rightarrow> if length vs = length questions then map (\<lambda>v. list_ex (near v) (live_vecs agent st)) vs
                                   else map (\<lambda>_. False) questions))
      in map2 (\<lambda>q d. d \<or> (trim_space q \<noteq> [] \<and> question_key q \<in> set keyed)) questions vec)"

end
