(* ===== verification/Kb_Card_Laws.thy ===== *)
theory Kb_Card_Laws
  imports Kb_Cards
begin

text \<open>
  What the spacing of the cards guarantees: a card in the rotation comes up, mastering it takes 59 days at
  least, the streak counts consecutive days; and where it fails, which is the restoring of a mastered card
  and the streak of a diligent day.
\<close>

section \<open>Histories of the table\<close>

datatype card_op =
    Card_save string int string string string string string string
  | Card_update int string string string string
  | Card_delete string string
  | Card_delete_source string string "string list"
  | Card_archive int string string
  | Card_restore int string string
  | Card_review nat int string string string

definition card_step :: "card_op \<Rightarrow> 'v kb_tables \<Rightarrow> 'v kb_tables" where
  "card_step op st =
     (case op of
        Card_save rid now agent q a source ref ex \<Rightarrow> snd (save_card rid now agent q a source ref ex st)
      | Card_update now agent rid q a \<Rightarrow> snd (update_card now agent rid q a st)
      | Card_delete agent rid \<Rightarrow> snd (delete_card agent rid st)
      | Card_delete_source agent source refs \<Rightarrow> snd (delete_cards_by_source agent source refs st)
      | Card_archive now agent rid \<Rightarrow> snd (archive_card now agent rid st)
      | Card_restore now agent rid \<Rightarrow> snd (restore_card now agent rid st)
      | Card_review vid now agent rid grade \<Rightarrow> snd (review_card vid now agent rid grade st))"

fun is_restore :: "card_op \<Rightarrow> bool" where
  "is_restore (Card_restore _ _ _) = True"
| "is_restore _ = False"

definition scheduled :: "kb_card \<Rightarrow> bool" where
  "scheduled c = ((kc_status c = ''active'' \<and> kc_index c < length card_intervals \<and> kc_due c \<noteq> None)
     \<or> (kc_status c = ''mastered'' \<and> length card_intervals \<le> kc_index c) \<or> kc_status c = ''archived'')"

lemma intervals_length [simp]: "length card_intervals = 6"
  by (simp add: card_intervals_def)

lemma graded_scheduled:
  assumes "scheduled c" and "kc_status c \<noteq> ''archived''" and "g \<in> {''remembered'', ''fuzzy'', ''forgot''}"
  shows "scheduled (graded now g c)"
  using assms by (auto simp: scheduled_def graded_def Let_def)

lemma scheduled_change:
  assumes "\<forall>c\<in>set (kb_cards st). scheduled c" and "\<And>c. scheduled c \<Longrightarrow> scheduled (f c)"
  shows "\<forall>c\<in>set (kb_cards (change_card agent rid f st)). scheduled c"
  using assms by (auto simp: change_card_def)

lemma scheduled_edit: "scheduled (c\<lparr>kc_question := q, kc_answer := a, kc_updated := n\<rparr>) = scheduled c"
  by (simp add: scheduled_def)

lemma find_in: "List.find p xs = Some x \<Longrightarrow> x \<in> set xs \<and> p x"
  by (metis find_Some_iff nth_mem)

lemma review_scheduled:
  assumes "\<forall>c\<in>set (kb_cards st). scheduled c"
  shows "\<forall>c\<in>set (kb_cards (snd (review_card vid now agent rid g st))). scheduled c"
proof (cases "get_card agent rid st")
  case (Some c)
  have c: "scheduled c" using find_in [OF Some [unfolded get_card_def]] assms by blast
  have "scheduled (graded now g c)" if "g \<in> {''remembered'', ''fuzzy'', ''forgot''}" "kc_status c \<noteq> ''archived''"
    using graded_scheduled [OF c that(2,1)] .
  then show ?thesis using Some assms
    by (auto simp: review_card_def Let_def change_card_def split: option.splits)
qed (use assms in \<open>simp add: review_card_def\<close>)

lemma step_scheduled:
  assumes "\<forall>c\<in>set (kb_cards st). scheduled c" and "\<not> is_restore op"
  shows "\<forall>c\<in>set (kb_cards (card_step op st)). scheduled c"
proof (cases op)
  case (Card_save rid now agent q a source ref ex)
  then show ?thesis using assms by (auto simp: card_step_def save_card_def Let_def new_card_def scheduled_def)
next
  case (Card_update now agent rid q a)
  have "\<forall>c\<in>set (kb_cards (change_card agent rid (\<lambda>c. c\<lparr>kc_question := f c, kc_answer := h c, kc_updated := now\<rparr>) st)). scheduled c" for f h
    using assms(1) scheduled_edit by (intro scheduled_change) auto
  then show ?thesis using Card_update assms by (simp add: card_step_def update_card_def)
next
  case (Card_archive now agent rid)
  have "\<forall>c\<in>set (kb_cards (change_card agent rid (\<lambda>c. c\<lparr>kc_status := ''archived'', kc_updated := now\<rparr>) st)). scheduled c"
    using assms(1) by (intro scheduled_change) (auto simp: scheduled_def)
  then show ?thesis using Card_archive assms by (simp add: card_step_def archive_card_def set_card_status_def)
next
  case (Card_review vid now agent rid g)
  then show ?thesis using review_scheduled [OF assms(1)] by (simp add: card_step_def)
next
  case (Card_delete agent rid)
  then show ?thesis using assms by (simp add: card_step_def delete_card_def)
next
  case (Card_delete_source agent source refs)
  then show ?thesis using assms by (simp add: card_step_def delete_cards_by_source_def drop_cards_def Let_def)
next
  case (Card_restore now agent rid)
  then show ?thesis using assms by simp
qed

lemma run_scheduled:
  assumes "\<forall>c\<in>set (kb_cards st). scheduled c" and "\<forall>op\<in>set ops. \<not> is_restore op"
  shows "\<forall>c\<in>set (kb_cards (fold card_step ops st)). scheduled c"
  using assms
proof (induction ops arbitrary: st)
  case (Cons op ops)
  have "\<forall>c\<in>set (kb_cards (card_step op st)). scheduled c" 
    by (rule step_scheduled) (use Cons.prems in auto)
  from Cons.IH [OF this] Cons.prems(2) show ?case by simp
qed simp

lemma day_secs_pos: "0 < day_secs" by (simp add: day_secs_def)

lemma bound_after: "t \<le> card_day_bound t"
proof -
  have "(t + cst) mod day_secs < day_secs" by (simp add: day_secs_def)
  moreover have "cst_day t * day_secs + (t + cst) mod day_secs = t + cst" by (simp add: cst_day_def)
  ultimately show ?thesis by (simp add: card_day_bound_def)
qed


definition no_cards :: "unit kb_tables" where
  "no_cards = \<lparr>kb_cards = [], kb_reviews = [], kb_vecs = []\<rparr>"

lemma first_card: "fold card_step [Card_save ''c'' 0 ''a'' ''q'' ''x'' ''manual'' [] []] no_cards
    = \<lparr>kb_cards = [new_card ''c'' 0 ''a'' ''q'' ''x'' ''manual'' [] []], kb_reviews = [], kb_vecs = []\<rparr>"
proof -
  have "trim_space ''q'' = ''q''" by (rule trim_space_visible) (auto simp: visible_def)
  then show ?thesis by (simp add: card_step_def save_card_def no_cards_def)
qed


section \<open>A restored card\<close>

lemma get_change:
  assumes "get_card agent rid st = Some c" and "\<And>c. the_card agent rid c \<Longrightarrow> the_card agent rid (f c)"
  shows "get_card agent rid (change_card agent rid f st) = Some (f c)"
proof -
  have "List.find (the_card agent rid) (map (\<lambda>c. if the_card agent rid c then f c else c) cs) = map_option f (List.find (the_card agent rid) cs)" for cs
    using assms(2) by (induction cs) auto
  with assms(1) show ?thesis by (simp add: get_card_def change_card_def)
qed

lemma has_card_get: "get_card agent rid st = Some c \<Longrightarrow> has_card agent rid st"
  unfolding get_card_def has_card_def list_ex_iff by (metis find_in)

text \<open>
  A mastered card that is archived and restored is lost: it counts as active again, but it has no due
  date and no step of the ladder, so that the queue and the count of due cards never hold it.
\<close>
lemma restored_card_never_comes_up:
  assumes "get_card agent rid st = Some c" and "kc_due c = None"
    and "archive_card t1 agent rid st = (ok1, st1)" and "restore_card t2 agent rid st1 = (ok2, st2)"
  shows "ok1 \<and> ok2 \<and> (\<exists>c2. get_card agent rid st2 = Some c2 \<and> kc_status c2 = ''active'' \<and> kc_index c2 = kc_index c
    \<and> (\<forall>now limit. \<not> card_is_due now c2 \<and> c2 \<notin> set (list_due_queue now agent limit st2)))"
proof -
  let ?a = "\<lambda>s t c. c\<lparr>kc_status := s, kc_updated := t\<rparr>"
  have st1: "st1 = change_card agent rid (?a ''archived'' t1) st" "ok1"
    using assms(3) has_card_get [OF assms(1)] by (auto simp: archive_card_def set_card_status_def)
  have g1: "get_card agent rid st1 = Some (?a ''archived'' t1 c)"
    unfolding st1(1) by (rule get_change [OF assms(1)]) (simp add: the_card_def)
  have st2: "st2 = change_card agent rid (?a ''active'' t2) st1" "ok2"
    using assms(4) has_card_get [OF g1] by (auto simp: restore_card_def set_card_status_def)
  have g2: "get_card agent rid st2 = Some (?a ''active'' t2 (?a ''archived'' t1 c))"
    unfolding st2(1) by (rule get_change [OF g1]) (simp add: the_card_def)
  have "\<not> card_is_due now (?a ''active'' t2 (?a ''archived'' t1 c))" for now
    using assms(2) by (simp add: card_is_due_def)
  moreover have "x \<in> set (list_due_queue now agent limit st2) \<Longrightarrow> card_is_due now x" for now limit x
    by (auto simp: list_due_queue_def dest!: in_set_takeD)
  ultimately show ?thesis using g2 st1(2) st2(2) by fastforce
qed

definition mastered_card :: kb_card where
  "mastered_card = (new_card ''c'' 0 ''a'' ''q'' ''x'' ''manual'' [] [])\<lparr>kc_status := ''mastered'', kc_index := 6, kc_due := None\<rparr>"

theorem restored_card_never_comes_up_witness:
  "(let st = \<lparr>kb_cards = [mastered_card], kb_reviews = [], kb_vecs = [] :: (string \<times> string \<times> unit) list\<rparr>;
        st2 = snd (restore_card 2 ''a'' ''c'' (snd (archive_card 1 ''a'' ''c'' st)))
    in \<exists>c2. get_card ''a'' ''c'' st2 = Some c2 \<and> kc_status c2 = ''active'' \<and> \<not> card_is_due 1000000000 c2)"
proof -
  let ?st = "\<lparr>kb_cards = [mastered_card], kb_reviews = [], kb_vecs = [] :: (string \<times> string \<times> unit) list\<rparr>"
  obtain ok1 st1 where a: "archive_card 1 ''a'' ''c'' ?st = (ok1, st1)" by (metis surj_pair)
  obtain ok2 st2 where r: "restore_card 2 ''a'' ''c'' st1 = (ok2, st2)" by (metis surj_pair)
  have "get_card ''a'' ''c'' ?st = Some mastered_card" by (simp add: get_card_def the_card_def mastered_card_def new_card_def)
  from restored_card_never_comes_up [OF this _ a r]
  have "\<exists>c2. get_card ''a'' ''c'' st2 = Some c2 \<and> kc_status c2 = ''active'' \<and> \<not> card_is_due 1000000000 c2"
    by (auto simp: mastered_card_def)
  then show ?thesis using a r by (simp add: Let_def)
qed

section \<open>The ladder\<close>

text \<open>A card that is only reviewed while the queue holds it.\<close>

fun due_reviews :: "kb_card \<Rightarrow> (int \<times> string) list \<Rightarrow> bool" where
  "due_reviews c [] = True"
| "due_reviews c ((t, g) # rs) =
     (card_is_due t c \<and> g \<in> {''remembered'', ''fuzzy'', ''forgot''} \<and> due_reviews (graded t g c) rs)"

definition grade_all :: "kb_card \<Rightarrow> (int \<times> string) list \<Rightarrow> kb_card" where
  "grade_all c rs = foldl (\<lambda>c (t, g). graded t g c) c rs"

definition climbed :: "nat \<Rightarrow> int" where
  "climbed k = int (sum_list (take k card_intervals))"

lemma climbed_Suc: "k < 6 \<Longrightarrow> climbed (Suc k) = climbed k + int (card_intervals ! k)"
  by (simp add: climbed_def take_Suc_conv_app_nth)

lemma climbed_pos: "0 < k \<Longrightarrow> 1 \<le> climbed k"
  by (cases k) (simp_all add: climbed_def card_intervals_def)

lemma cst_day_add: "cst_day (add_days t n) = cst_day t + int n"
proof -
  have "t + int n * day_secs + cst = (t + cst) + int n * day_secs" by simp
  then show ?thesis by (simp add: cst_day_def add_days_def day_secs_def)
qed

lemma due_day: "card_is_due t c \<Longrightarrow> kc_due c = Some d \<Longrightarrow> cst_day d \<le> cst_day t"
proof -
  assume "card_is_due t c" "kc_due c = Some d"
  then have "d \<le> card_day_bound t" by (simp add: card_is_due_def)
  then have "d + cst \<le> cst_day t * day_secs + (day_secs - 1)" by (simp add: card_day_bound_def)
  then have "(d + cst) div day_secs \<le> (cst_day t * day_secs + (day_secs - 1)) div day_secs"
    by (rule zdiv_mono1) (simp add: day_secs_def)
  then show "cst_day d \<le> cst_day t" by (simp add: cst_day_def day_secs_def)
qed

text \<open>A card that climbed \<open>k\<close> steps is due no earlier than the sum of their waits.\<close>

definition paced :: "int \<Rightarrow> kb_card \<Rightarrow> bool" where
  "paced day c = (kc_status c = ''active'' \<and> kc_index c < 6
     \<and> (\<exists>d. kc_due c = Some d \<and> day + climbed (Suc (kc_index c)) \<le> cst_day d))"

lemma graded_paced:
  assumes "paced day c" and "card_is_due t c" and "g \<in> {''remembered'', ''fuzzy'', ''forgot''}"
  shows "paced day (graded t g c) \<or> (kc_status (graded t g c) = ''mastered'' \<and> day + climbed 6 \<le> cst_day t)"
proof -
  obtain d where d: "kc_due c = Some d" "day + climbed (Suc (kc_index c)) \<le> cst_day d" and i: "kc_index c < 6" "kc_status c = ''active''"
    using assms(1) by (auto simp: paced_def)
  have t: "day + climbed (Suc (kc_index c)) \<le> cst_day t" using due_day [OF assms(2) d(1)] d(2) by simp
  consider "g = ''remembered''" | "g = ''fuzzy''" | "g = ''forgot''" using assms(3) by blast
  then show ?thesis
  proof cases
    case 1
    show ?thesis
    proof (cases "kc_index c = 5")
      case True
      then show ?thesis using 1 t by (simp add: graded_def Let_def)
    next
      case False
      then have "Suc (kc_index c) < 6" using i by simp
      then show ?thesis using 1 t i by (simp add: paced_def graded_def Let_def cst_day_add climbed_Suc)
    qed
  next
    case 2
    then show ?thesis using t i by (simp add: paced_def graded_def Let_def cst_day_add)
  next
    case 3
    have "climbed (Suc 0) = 1" "1 \<le> climbed (Suc (kc_index c))"
      using climbed_pos [of "Suc (kc_index c)"] by (simp_all add: climbed_def card_intervals_def)
    then show ?thesis using 3 t by (simp add: paced_def graded_def Let_def cst_day_add card_intervals_def)
  qed
qed

lemma not_due_mastered: "kc_status c = ''mastered'' \<Longrightarrow> due_reviews c rs \<Longrightarrow> rs = []"
  by (cases rs) (auto simp: card_is_due_def)

lemma paced_run:
  assumes "paced day c" and "due_reviews c rs" and "kc_status (grade_all c rs) = ''mastered''"
  shows "\<exists>t. t = fst (last rs) \<and> rs \<noteq> [] \<and> day + climbed 6 \<le> cst_day t"
  using assms
proof (induction rs arbitrary: c)
  case Nil
  then show ?case by (simp add: grade_all_def paced_def)
next
  case (Cons r rs)
  obtain t g where r: "r = (t, g)" by (metis surj_pair)
  have due: "card_is_due t c" "g \<in> {''remembered'', ''fuzzy'', ''forgot''}" "due_reviews (graded t g c) rs"
    using Cons.prems(2) r by auto
  have fin: "kc_status (grade_all (graded t g c) rs) = ''mastered''" using Cons.prems(3) r by (simp add: grade_all_def)
  from graded_paced [OF Cons.prems(1) due(1,2)] show ?case
  proof
    assume "paced day (graded t g c)"
    from Cons.IH [OF this due(3) fin] show ?case by auto
  next
    assume m: "kc_status (graded t g c) = ''mastered'' \<and> day + climbed 6 \<le> cst_day t"
    then have "rs = []" using not_due_mastered due(3) by blast
    with m r show ?case by simp
  qed
qed

text \<open>
  Mastering a card takes 59 days: a new card that is only reviewed while it is due is mastered by a
  review on the 59th day after its creation or later, whatever the grades are.
\<close>
lemma mastery_takes_59_days:
  assumes "due_reviews (new_card rid now agent q a source ref ex) rs"
    and "kc_status (grade_all (new_card rid now agent q a source ref ex) rs) = ''mastered''"
  shows "cst_day now + 59 \<le> cst_day (fst (last rs))"
proof -
  have "cst_day (now + day_secs) = cst_day now + 1"
    using cst_day_add [of now 1] by (simp add: add_days_def)
  then have "paced (cst_day now) (new_card rid now agent q a source ref ex)"
    by (simp add: paced_def new_card_def climbed_def card_intervals_def)
  from paced_run [OF this assms] show ?thesis by (simp add: climbed_def card_intervals_def)
qed

definition diligent :: "(int \<times> string) list" where
  "diligent = map (\<lambda>d. (d * day_secs, ''remembered'')) [1, 3, 7, 14, 29, 59]"

theorem mastery_takes_59_days_witness:
  "cst_day 0 + 59 \<le> cst_day (fst (last diligent))"
proof (rule mastery_takes_59_days)
  show "due_reviews (new_card ''c'' 0 ''a'' ''q'' ''x'' ''manual'' [] []) diligent"
    by (simp add: diligent_def new_card_def graded_def card_is_due_def card_day_bound_def cst_day_def day_secs_def cst_def
        card_intervals_def add_days_def)
  show "kc_status (grade_all (new_card ''c'' 0 ''a'' ''q'' ''x'' ''manual'' [] []) diligent) = ''mastered''"
    by (simp add: diligent_def grade_all_def new_card_def graded_def card_intervals_def)
qed

text \<open>The step is the number of times it was remembered since it was last forgotten.\<close>

definition since_forgot :: "string list \<Rightarrow> nat" where
  "since_forgot gs = length (List.filter (\<lambda>g. g = ''remembered'') (takeWhile (\<lambda>g. g \<noteq> ''forgot'') (rev gs)))"

lemma ladder_counts:
  assumes "set (map snd rs) \<subseteq> {''remembered'', ''fuzzy'', ''forgot''}" and "kc_index c = 0" and "kc_status c = ''active''"
  shows "kc_index (grade_all c rs) = since_forgot (map snd rs)
    \<and> kc_status (grade_all c rs) = (if 6 \<le> since_forgot (map snd rs) then ''mastered'' else ''active'')"
  using assms(1)
proof (induction rs rule: rev_induct)
  case Nil
  then show ?case using assms(2,3) by (simp add: grade_all_def since_forgot_def)
next
  case (snoc r rs)
  obtain t g where r: "r = (t, g)" by (metis surj_pair)
  have IH: "kc_index (grade_all c rs) = since_forgot (map snd rs)"
    "kc_status (grade_all c rs) = (if 6 \<le> since_forgot (map snd rs) then ''mastered'' else ''active'')"
    using snoc by auto
  have step: "grade_all c (rs @ [r]) = graded t g (grade_all c rs)" by (simp add: grade_all_def r)
  consider "g = ''remembered''" | "g = ''fuzzy''" | "g = ''forgot''" using snoc.prems r by auto
  then show ?case
  proof cases
    case 1
    then have "since_forgot (map snd (rs @ [r])) = Suc (since_forgot (map snd rs))" by (simp add: since_forgot_def r)
    then show ?thesis using IH 1 by (simp add: step graded_def Let_def)
  next
    case 2
    then have "since_forgot (map snd (rs @ [r])) = since_forgot (map snd rs)" by (simp add: since_forgot_def r)
    then show ?thesis using IH 2 by (simp add: step graded_def Let_def)
  next
    case 3
    then have "since_forgot (map snd (rs @ [r])) = 0" by (simp add: since_forgot_def r)
    then show ?thesis using 3 by (simp add: step graded_def Let_def)
  qed
qed

section \<open>The streak\<close>

lemma streak_from_counts:
  assumes "sorted_wrt (>) ds"
  shows "(\<forall>i<int (streak_from d ds). d - i \<in> set ds \<or> i < 0) \<and> (ds \<noteq> [] \<and> hd ds = d \<longrightarrow> d - int (streak_from d ds) \<notin> set ds)"
  using assms
proof (induction d ds rule: streak_from.induct)
  case (2 c d ds)
  show ?case
  proof (cases "d = c")
    case True
    have s: "sorted_wrt (>) ds" and lt: "\<forall>x\<in>set ds. x < c" using "2.prems" True by auto
    have ih: "\<forall>i<int (streak_from (c - 1) ds). c - 1 - i \<in> set ds \<or> i < 0"
      "ds \<noteq> [] \<and> hd ds = c - 1 \<longrightarrow> c - 1 - int (streak_from (c - 1) ds) \<notin> set ds"
      using "2.IH" s True by auto
    have "d - i \<in> set (d # ds) \<or> i < 0" if "i < int (streak_from c (d # ds))" for i
    proof (cases "i \<le> 0")
      case False
      then have "i - 1 < int (streak_from (c - 1) ds)" "\<not> i - 1 < 0" using that True by auto
      with ih(1) have "c - 1 - (i - 1) \<in> set ds" by blast
      then show ?thesis using True by simp
    qed auto
    moreover have "c - int (streak_from c (d # ds)) \<notin> set (d # ds)"
    proof (cases "ds \<noteq> [] \<and> hd ds = c - 1")
      case True2: True
      have "c - int (streak_from c (d # ds)) = c - 1 - int (streak_from (c - 1) ds)" using True by simp
      moreover have "c - 1 - int (streak_from (c - 1) ds) \<notin> set ds" using ih(2) True2 by blast
      ultimately have "c - int (streak_from c (d # ds)) \<notin> set ds" by (simp only: not_False_eq_True)
      moreover have "c - int (streak_from c (d # ds)) \<noteq> d" using True by simp
      ultimately show ?thesis by (simp only: set_simps insert_iff) simp
    next
      case False
      have "streak_from (c - 1) ds = 0" using False by (cases ds) auto
      moreover have "c - 1 \<notin> set ds"
      proof
        assume "c - 1 \<in> set ds"
        moreover obtain e es where "ds = e # es" using \<open>c - 1 \<in> set ds\<close> by (cases ds) auto
        ultimately have "c - 1 \<le> e" "e < c" using s lt by auto
        then show False using False \<open>ds = e # es\<close> by simp
      qed
      ultimately show ?thesis using True by simp
    qed
    ultimately show ?thesis using True by auto
  qed auto
qed simp

lemma days_sorted: "sorted_wrt (>) (review_days agent st)"
proof -
  have "sorted_wrt (<) (sort (remdups xs))" for xs :: "int list"
    by (metis distinct_remdups distinct_sort sorted_sort strict_sorted_iff)
  then show ?thesis by (simp add: review_days_def sorted_wrt_rev)
qed

text \<open>A day with 400 reviews hides every earlier one.\<close>

lemma busy_day_hides_streak:
  assumes "400 \<le> length (List.filter (\<lambda>r. kv_agent r = agent \<and> cst_day (kv_at r) = today) (kb_reviews st))"
    and "\<forall>r\<in>set (kb_reviews st). cst_day (kv_at r) \<le> today"
  shows "streak today (review_days agent st) = 1"
proof -
  let ?F = "List.filter (\<lambda>r. kv_agent r = agent) (kb_reviews st)"
  let ?S = "sort_key (\<lambda>r. - kv_at r) ?F"
  let ?d = "\<lambda>r. cst_day (kv_at r)"
  have desc: "kv_at (?S ! j) \<le> kv_at (?S ! i)" if "i \<le> j" "j < length ?S" for i j
    using sorted_nth_mono [OF sorted_sort_key [of "\<lambda>r. - kv_at r" ?F], of i j] that by simp
  have "length (List.filter (\<lambda>r. ?d r = today) ?S) = length (List.filter (\<lambda>r. kv_agent r = agent \<and> ?d r = today) (kb_reviews st))"
    by (simp add: filter_sort conj_commute)
  with assms(1) have n: "400 \<le> length (List.filter (\<lambda>r. ?d r = today) ?S)" by simp
  have "?d (?S ! i) = today" if i: "i < 400" for i
  proof (rule ccontr)
    have len: "i < length ?S" using n i length_filter_le [of "\<lambda>r. ?d r = today" ?S] by linarith
    have "?S ! i \<in> set ?S" using len nth_mem by blast
    then have le: "?d (?S ! i) \<le> today" using assms(2) by simp
    assume "?d (?S ! i) \<noteq> today"
    with le have lt: "?d (?S ! i) < today" by simp
    have "?d (?S ! j) < today" if "i \<le> j" "j < length ?S" for j
    proof -
      have "?d (?S ! j) \<le> ?d (?S ! i)" using desc [OF that] by (simp add: cst_day_def day_secs_def zdiv_mono1)
      with lt show ?thesis by simp
    qed
    then have "{j. j < length ?S \<and> ?d (?S ! j) = today} \<subseteq> {..<i}" using not_less by blast
    then have "card {j. j < length ?S \<and> ?d (?S ! j) = today} \<le> i" using card_mono [of "{..<i}"] by fastforce
    with n i show False by (simp add: length_filter_conv_card)
  qed
  moreover have "400 \<le> length ?S" using n length_filter_le [of "\<lambda>r. ?d r = today" ?S] by linarith
  ultimately have "map ?d (take 400 ?S) = replicate 400 today"
    by (intro nth_equalityI) auto
  moreover have "remdups (replicate (Suc n) x) = [x]" for n and x :: int by (induction n) auto
  from this [of 399 today] have "remdups (replicate 400 today) = [today]" by simp
  ultimately have "review_days agent st = [today]" by (simp only: review_days_def) simp
  then show ?thesis by (simp add: streak_def)
qed

end
