(* ===== verification/Wiki_Store.thy ===== *)
theory Wiki_Store
  imports Kb_Cards Go_Values
begin

text \<open>
  The pages of the wiki and the links between them (\<^verbatim>\<open>internal/wiki/store.go\<close>). The
  identifier of a page is the primary key of the table for all agents. The sources of a page are a JSON
  array in one column, which the deletion by source searches with \<^verbatim>\<open>LIKE\<close>; \<open>fold\<close>
  is the letter case of the database there. Weights are tenths; a creation time of 0 is the zero time.
\<close>

section \<open>Tables\<close>

record wiki_page =
  wp_id :: string
  wp_agent :: string
  wp_type :: string
  wp_slug :: string
  wp_title :: string
  wp_body :: string
  wp_summary :: string
  wp_sources :: "string list"
  wp_tags :: "string list"
  wp_created :: int
  wp_updated :: int
  wp_revision :: nat
  wp_carded :: "int option"

record wiki_link =
  wl_src :: string
  wl_dst :: string
  wl_relation :: string
  wl_weight :: nat

record 'v wiki_tables =
  wk_pages :: "wiki_page list"
  wk_links :: "wiki_link list"
  wk_vecs :: "(string \<times> string \<times> 'v) list"
  wk_kb :: "'v kb_tables"

definition page_ids :: "'v wiki_tables \<Rightarrow> string set" where
  "page_ids st = wp_id ` set (wk_pages st)"

definition merge_page :: "int \<Rightarrow> wiki_page \<Rightarrow> wiki_page \<Rightarrow> wiki_page" where
  "merge_page now p old =
     old\<lparr>wp_title := wp_title p, wp_body := wp_body p, wp_summary := wp_summary p, wp_sources := wp_sources p, wp_tags := wp_tags p,
         wp_updated := now, wp_revision := wp_revision old + 1\<rparr>"

definition upsert_page :: "int \<Rightarrow> wiki_page \<Rightarrow> 'v wiki_tables \<Rightarrow> 'v wiki_tables" where
  "upsert_page now p st =
     (if list_ex (\<lambda>o1. wp_id o1 = wp_id p) (wk_pages st)
      then st\<lparr>wk_pages := map (\<lambda>o1. if wp_id o1 = wp_id p then merge_page now p o1 else o1) (wk_pages st)\<rparr>
      else st\<lparr>wk_pages := wk_pages st @
             [p\<lparr>wp_created := (if wp_created p = 0 then now else wp_created p), wp_updated := now, wp_revision := 1, wp_carded := None\<rparr>]\<rparr>)"

definition same_link :: "wiki_link \<Rightarrow> wiki_link \<Rightarrow> bool" where
  "same_link l m = (wl_src l = wl_src m \<and> wl_dst l = wl_dst m)"

definition upsert_link :: "wiki_link \<Rightarrow> 'v wiki_tables \<Rightarrow> 'v wiki_tables" where
  "upsert_link l st =
     (if list_ex (same_link l) (wk_links st)
      then st\<lparr>wk_links := map (\<lambda>m. if same_link l m then m\<lparr>wl_relation := wl_relation l, wl_weight := wl_weight l\<rparr> else m) (wk_links st)\<rparr>
      else st\<lparr>wk_links := wk_links st @ [l]\<rparr>)"

section \<open>Reading\<close>

definition get_page :: "string \<Rightarrow> 'v wiki_tables \<Rightarrow> wiki_page option" where
  "get_page pid st = List.find (\<lambda>p. wp_id p = pid) (wk_pages st)"

definition get_page_by_slug :: "string \<Rightarrow> string \<Rightarrow> string \<Rightarrow> 'v wiki_tables \<Rightarrow> wiki_page option" where
  "get_page_by_slug agent ty slug st = List.find (\<lambda>p. wp_agent p = agent \<and> wp_type p = ty \<and> wp_slug p = slug) (wk_pages st)"

definition find_page_by_title :: "string \<Rightarrow> string \<Rightarrow> 'v wiki_tables \<Rightarrow> wiki_page option" where
  "find_page_by_title agent title st = List.find (\<lambda>p. wp_agent p = agent \<and> wp_title p = title) (wk_pages st)"

definition list_pages :: "string \<Rightarrow> string \<Rightarrow> nat \<Rightarrow> nat \<Rightarrow> 'v wiki_tables \<Rightarrow> wiki_page list \<times> nat" where
  "list_pages agent ty limit offset st =
     (let ps = List.filter (\<lambda>p. wp_agent p = agent \<and> (ty = [] \<or> wp_type p = ty)) (wk_pages st)
      in (map (\<lambda>p. p\<lparr>wp_body := []\<rparr>) (take limit (drop offset (sort_key (\<lambda>p. - wp_updated p) ps))), length ps))"

definition list_uncarded_pages :: "string \<Rightarrow> nat \<Rightarrow> 'v wiki_tables \<Rightarrow> wiki_page list" where
  "list_uncarded_pages agent limit st =
     take limit (sort_key (\<lambda>p. - wp_updated p) (List.filter (\<lambda>p. wp_agent p = agent \<and> wp_carded p = None) (wk_pages st)))"

definition mark_pages_carded :: "int \<Rightarrow> string \<Rightarrow> string list \<Rightarrow> 'v wiki_tables \<Rightarrow> 'v wiki_tables" where
  "mark_pages_carded now agent ids st =
     (if ids = [] then st
      else st\<lparr>wk_pages := map (\<lambda>p. if wp_agent p = agent \<and> wp_id p \<in> set ids then p\<lparr>wp_carded := Some now\<rparr> else p) (wk_pages st)\<rparr>)"

definition page_agent :: "'v wiki_tables \<Rightarrow> string \<Rightarrow> string option" where
  "page_agent st pid = map_option wp_agent (get_page pid st)"

definition get_graph :: "string \<Rightarrow> 'v wiki_tables \<Rightarrow> wiki_page list \<times> wiki_link list" where
  "get_graph agent st =
     (fst (list_pages agent [] 500 0 st), take 2000 (List.filter (\<lambda>l. page_agent st (wl_src l) = Some agent) (wk_links st)))"

definition get_stats :: "string \<Rightarrow> 'v wiki_tables \<Rightarrow> (string \<times> nat) list \<times> nat \<times> nat" where
  "get_stats agent st =
     (let ps = List.filter (\<lambda>p. wp_agent p = agent) (wk_pages st)
      in (map (\<lambda>t. (t, length (List.filter (\<lambda>p. wp_type p = t) ps))) (remdups (map wp_type ps)), length ps,
          length (List.filter (\<lambda>l. page_agent st (wl_src l) = Some agent) (wk_links st))))"

section \<open>Deletion\<close>

definition sources_json :: "string list \<Rightarrow> string" where
  "sources_json ids = ''['' @ join_str (map json_str ids) '','' @ '']''"

definition quoted_pattern :: "string \<Rightarrow> string" where
  "quoted_pattern sid = [CHR ''%'', CHR 0x22] @ sid @ [CHR 0x22, CHR ''%'']"

definition cites :: "(char \<Rightarrow> char) \<Rightarrow> string \<Rightarrow> wiki_page \<Rightarrow> bool" where
  "cites f sid p = like_match f (quoted_pattern sid) (sources_json (wp_sources p))"

definition drop_pages :: "string set \<Rightarrow> 'v wiki_tables \<Rightarrow> 'v wiki_tables" where
  "drop_pages ids st =
     st\<lparr>wk_links := List.filter (\<lambda>l. wl_src l \<notin> ids \<and> wl_dst l \<notin> ids) (wk_links st),
        wk_pages := List.filter (\<lambda>p. wp_id p \<notin> ids) (wk_pages st)\<rparr>"

definition delete_pages_by_source :: "(char \<Rightarrow> char) \<Rightarrow> string \<Rightarrow> string \<Rightarrow> 'v wiki_tables \<Rightarrow> nat \<times> 'v wiki_tables" where
  "delete_pages_by_source f agent sid st =
     (let ids = map wp_id (List.filter (\<lambda>p. wp_agent p = agent \<and> cites f sid p) (wk_pages st));
          st1 = drop_pages (set ids) st
      in (length ids, st1\<lparr>wk_kb := snd (delete_cards_by_source [] ''wiki'' ids (wk_kb st1))\<rparr>))"

definition delete_page :: "string \<Rightarrow> 'v wiki_tables \<Rightarrow> 'v wiki_tables" where
  "delete_page pid st =
     (let st1 = drop_pages {pid} st
      in st1\<lparr>wk_vecs := List.filter (\<lambda>(i, _). i \<noteq> pid) (wk_vecs st1),
            wk_kb := snd (delete_cards_by_source [] ''wiki'' [pid] (wk_kb st1))\<rparr>)"

section \<open>Vectors\<close>

definition save_page_embedding :: "string \<Rightarrow> string \<Rightarrow> 'v \<Rightarrow> 'v wiki_tables \<Rightarrow> 'v wiki_tables" where
  "save_page_embedding agent pid v st = st\<lparr>wk_vecs := AList.update pid (agent, v) (wk_vecs st)\<rparr>"

definition clear_page_embeddings :: "string \<Rightarrow> 'v wiki_tables \<Rightarrow> 'v wiki_tables" where
  "clear_page_embeddings agent st = st\<lparr>wk_vecs := List.filter (\<lambda>(_, a, _). a \<noteq> agent) (wk_vecs st)\<rparr>"

definition list_page_embeddings :: "string \<Rightarrow> 'v wiki_tables \<Rightarrow> (string \<times> 'v) list" where
  "list_page_embeddings agent st = map (\<lambda>(i, _, v). (i, v)) (List.filter (\<lambda>(_, a, _). a = agent) (wk_vecs st))"

section \<open>Laws of the tables\<close>

definition linked :: "'v wiki_tables \<Rightarrow> bool" where
  "linked st = (\<forall>l\<in>set (wk_links st). wl_src l \<in> page_ids st \<and> wl_dst l \<in> page_ids st)"

lemma get_page_iff: "get_page pid st \<noteq> None \<longleftrightarrow> pid \<in> page_ids st"
  by (force simp: get_page_def page_ids_def find_None_iff)

lemma upsert_page_ids [simp]: "page_ids (upsert_page now p st) = insert (wp_id p) (page_ids st)"
proof -
  have "wp_id ` set (map (\<lambda>o1. if wp_id o1 = wp_id p then merge_page now p o1 else o1) (wk_pages st)) = wp_id ` set (wk_pages st)"
    unfolding set_map image_image by (rule image_cong [OF refl]) (simp add: merge_page_def)
  moreover have "wp_id p \<in> wp_id ` set (wk_pages st)" if "\<exists>x\<in>set (wk_pages st). wp_id x = wp_id p"
    using that by (metis image_eqI)
  ultimately show ?thesis by (simp add: page_ids_def upsert_page_def list_ex_iff insert_absorb)
qed

lemma upsert_page_links [simp]: "wk_links (upsert_page now p st) = wk_links st" "wk_kb (upsert_page now p st) = wk_kb st"
  by (simp_all add: upsert_page_def)

lemma upsert_link_pages [simp]: "page_ids (upsert_link l st) = page_ids st" "wk_pages (upsert_link l st) = wk_pages st"
  by (simp_all add: page_ids_def upsert_link_def)

lemma upsert_page_linked: "linked st \<Longrightarrow> linked (upsert_page now p st)"
  by (simp add: linked_def)

lemma upsert_link_ends:
  "x \<in> set (wk_links (upsert_link l st)) \<Longrightarrow> \<exists>y\<in>insert l (set (wk_links st)). wl_src x = wl_src y \<and> wl_dst x = wl_dst y"
  by (auto simp: upsert_link_def split: if_splits)

lemma upsert_link_linked:
  "linked st \<Longrightarrow> wl_src l \<in> page_ids st \<Longrightarrow> wl_dst l \<in> page_ids st \<Longrightarrow> linked (upsert_link l st)"
  unfolding linked_def by (metis upsert_link_ends upsert_link_pages(1) insertE)

lemma drop_pages_linked: "linked st \<Longrightarrow> linked (drop_pages ids st)"
  by (auto simp: linked_def drop_pages_def page_ids_def)

lemma linked_wk_kb [simp]: "linked (st\<lparr>wk_kb := k\<rparr>) = linked st" "linked (st\<lparr>wk_vecs := v\<rparr>) = linked st"
  by (simp_all add: linked_def page_ids_def)

lemma linked_wk_both [simp]: "linked (st\<lparr>wk_vecs := v, wk_kb := k\<rparr>) = linked st"
  by (simp add: linked_def page_ids_def)

lemma delete_linked:
  "linked st \<Longrightarrow> linked (snd (delete_pages_by_source f agent sid st))" "linked st \<Longrightarrow> linked (delete_page pid st)"
  by (simp_all add: delete_pages_by_source_def delete_page_def Let_def drop_pages_linked)

lemma save_embedding_linked [simp]: "linked (save_page_embedding agent pid v st) = linked st"
  "page_ids (save_page_embedding agent pid v st) = page_ids st" "wk_pages (save_page_embedding agent pid v st) = wk_pages st"
  by (simp_all add: save_page_embedding_def page_ids_def)

lemma mark_page_ids [simp]: "page_ids (mark_pages_carded now agent ids st) = page_ids st"
proof -
  have "wp_id ` set (map (\<lambda>p. if wp_agent p = agent \<and> wp_id p \<in> set ids then p\<lparr>wp_carded := Some now\<rparr> else p) (wk_pages st))
      = wp_id ` set (wk_pages st)"
    unfolding set_map image_image by (rule image_cong [OF refl]) simp
  then show ?thesis by (simp add: page_ids_def mark_pages_carded_def)
qed

lemma mark_linked: "linked st \<Longrightarrow> linked (mark_pages_carded now agent ids st)"
  by (simp add: linked_def) (simp add: mark_pages_carded_def)

end
