(* ===== verification/Wiki_Generate.thy ===== *)
theory Wiki_Generate
  imports Wiki_Store
begin

text \<open>
  The generation of wiki pages from a source of the knowledge base (\<^verbatim>\<open>internal/wiki/generator.go\<close>):
  the checks on the plan of the model, the links in a generated text and the run that writes the pages. The
  answers of the model are fields of the environment: the plan that is read out of the analysis and out of
  its repetition, and the text of a page.
\<close>

section \<open>Plans\<close>

record plan_page =
  pp_type :: string
  pp_slug :: string
  pp_title :: string
  pp_tags :: "string list"

record plan_link =
  pk_src :: string
  pk_dst :: string
  pk_relation :: string

record wiki_plan =
  pl_summary :: string
  pl_pages :: "plan_page list"
  pl_links :: "plan_link list"

definition plan_page_id :: "plan_page \<Rightarrow> string" where
  "plan_page_id p = pp_type p @ '':'' @ pp_slug p"

definition allowed_page_types :: "string list" where
  "allowed_page_types = [''entity'', ''concept'', ''source'', ''query'']"

definition allowed_relations :: "string list" where
  "allowed_relations = [''defines'', ''cites'', ''supplements'', ''parent_of'', ''child_of'', ''excepts'']"

definition slug_char :: "char \<Rightarrow> bool" where
  "slug_char c = (97 \<le> byte c \<and> byte c \<le> 122 \<or> 48 \<le> byte c \<and> byte c \<le> 57)"

definition is_slug :: "string \<Rightarrow> bool" where
  "is_slug s = list_all (\<lambda>x. x \<noteq> [] \<and> list_all slug_char x) (split_str s ''-'')"

definition slug_rune :: "nat \<Rightarrow> bool" where
  "slug_rune r = (97 \<le> r \<and> r \<le> 122 \<or> 48 \<le> r \<and> r \<le> 57 \<or> 19968 \<le> r \<and> r \<le> 40959)"

fun slug_runes :: "bool \<Rightarrow> nat list \<Rightarrow> string" where
  "slug_runes gap [] = (if gap then ''-'' else [])"
| "slug_runes gap (r # rs) =
     (if slug_rune r then (if gap then ''-'' else []) @ encode_rune r @ slug_runes False rs else slug_runes True rs)"

definition trim_dashes :: "string \<Rightarrow> string" where
  "trim_dashes s = rev (dropWhile (\<lambda>c. c = CHR ''-'') (rev (dropWhile (\<lambda>c. c = CHR ''-'') s)))"

definition slugify :: "nat \<Rightarrow> string \<Rightarrow> string" where
  "slugify ms s = (let t = trim_dashes (slug_runes False (runes (to_lower s))) in if t = [] then ''page-'' @ nat_str (ms mod 10000) else t)"

definition fix_slug :: "nat \<Rightarrow> string \<Rightarrow> plan_page \<Rightarrow> plan_page" where
  "fix_slug ms sid p =
     (if pp_type p = ''source'' then p\<lparr>pp_slug := sid\<rparr>
      else if is_slug (pp_slug p) then p
      else (let s = slugify ms (pp_slug p) in p\<lparr>pp_slug := (if is_slug s then s else slugify ms (pp_title p))\<rparr>))"

fun valid_pages :: "nat \<Rightarrow> string \<Rightarrow> string list \<Rightarrow> plan_page list \<Rightarrow> plan_page list" where
  "valid_pages ms sid seen [] = []"
| "valid_pages ms sid seen (p # ps) =
     (if pp_type p \<notin> set allowed_page_types \<or> trim_space (pp_title p) = [] then valid_pages ms sid seen ps
      else (let q = fix_slug ms sid p in
            if plan_page_id q \<in> set seen then valid_pages ms sid seen ps
            else q # valid_pages ms sid (plan_page_id q # seen) ps))"

definition max_new_pages :: nat where "max_new_pages = 8"

fun cap_pages :: "nat \<Rightarrow> plan_page list \<Rightarrow> plan_page list" where
  "cap_pages n [] = []"
| "cap_pages n (p # ps) =
     (if pp_type p = ''source'' then p # cap_pages n ps
      else if max_new_pages \<le> n then cap_pages n ps
      else p # cap_pages (Suc n) ps)"

definition valid_link :: "string set \<Rightarrow> plan_link \<Rightarrow> bool" where
  "valid_link valid l =
     (pk_src l \<noteq> [] \<and> pk_dst l \<noteq> [] \<and> (pk_src l \<in> valid \<or> CHR '':'' \<in> set (pk_src l)) \<and> (pk_dst l \<in> valid \<or> CHR '':'' \<in> set (pk_dst l)))"

definition validate_plan :: "nat \<Rightarrow> string \<Rightarrow> wiki_plan \<Rightarrow> wiki_plan" where
  "validate_plan ms sid plan =
     (let pages = valid_pages ms sid [] (pl_pages plan);
          valid = plan_page_id ` set pages
      in plan\<lparr>pl_pages := cap_pages 0 pages,
              pl_links := map (\<lambda>l. if pk_relation l \<in> set allowed_relations then l else l\<lparr>pk_relation := ''supplements''\<rparr>)
                            (List.filter (valid_link valid) (pl_links plan))\<rparr>)"

definition ellipsis :: string where "ellipsis = map char_of [226 :: nat, 128, 166]"

definition clip_title :: "string \<Rightarrow> nat \<Rightarrow> string" where
  "clip_title s n = (if length (runes s) \<le> n then s else concat (map encode_rune (take n (runes s))) @ ellipsis)"

section \<open>The first object of a text\<close>

text \<open>The length of the object a text begins with; braces inside strings do not count.\<close>

fun scan_object :: "nat \<Rightarrow> bool \<Rightarrow> bool \<Rightarrow> nat \<Rightarrow> string \<Rightarrow> nat option" where
  "scan_object d str esc n [] = None"
| "scan_object d str esc n (c # s) =
     (if esc then scan_object d str False (Suc n) s
      else if c = CHR 0x5C \<and> str then scan_object d str True (Suc n) s
      else if c = CHR 0x22 then scan_object d (\<not> str) False (Suc n) s
      else if str then scan_object d str False (Suc n) s
      else if c = CHR 0x7B then scan_object (Suc d) str False (Suc n) s
      else if c = CHR 0x7D then (if d = 1 then Some (Suc n) else scan_object (d - 1) str False (Suc n) s)
      else scan_object d str False (Suc n) s)"

fun extract_json_object :: "string \<Rightarrow> string" where
  "extract_json_object [] = []"
| "extract_json_object (c # s) =
     (if c = CHR 0x7B then (case scan_object 0 False False 0 (c # s) of Some n \<Rightarrow> take n (c # s) | None \<Rightarrow> extract_json_object s)
      else extract_json_object s)"

section \<open>Links in a text\<close>

definition not_link_end :: "char \<Rightarrow> bool" where
  "not_link_end c = (c \<noteq> CHR '']'' \<and> c \<noteq> CHR ''|'')"

text \<open>The link a text begins with: its target, its alias and the rest of the text.\<close>

definition match_link :: "string \<Rightarrow> (string \<times> string \<times> string) option" where
  "match_link s =
     (if \<not> has_prefix s ''[['' then None
      else
        (let r = drop 2 s; target = takeWhile not_link_end r; r1 = dropWhile not_link_end r in
         if target = [] then None
         else if has_prefix r1 '']]'' then Some (target, [], drop 2 r1)
         else if has_prefix r1 ''|'' then
           (let r2 = drop 1 r1; alias = takeWhile (\<lambda>c. c \<noteq> CHR '']'') r2; r3 = dropWhile (\<lambda>c. c \<noteq> CHR '']'') r2 in
            if alias \<noteq> [] \<and> has_prefix r3 '']]'' then Some (target, alias, drop 2 r3) else None)
         else None))"

definition resolve_link :: "(string \<times> string) list \<Rightarrow> string list \<Rightarrow> string \<Rightarrow> string \<Rightarrow> string" where
  "resolve_link refs valid target alias =
     (let t = trim_space target; t = (case map_of refs t of Some i \<Rightarrow> i | None \<Rightarrow> t) in
      if t \<notin> set valid then (if trim_space alias = [] then t else alias)
      else if alias \<noteq> [] then ''[['' @ t @ ''|'' @ alias @ '']]'' else ''[['' @ t @ '']]'')"

lemma match_link_shorter: "match_link s = Some (t, a, r) \<Longrightarrow> length r < length s"
proof -
  assume m: "match_link s = Some (t, a, r)"
  have "length (dropWhile p xs) \<le> length xs" for p and xs :: string by (rule length_dropWhile_le)
  moreover from m have "2 \<le> length s" by (auto simp: match_link_def has_prefix_iff split: if_splits)
  ultimately show ?thesis using m
    by (auto simp: match_link_def Let_def split: if_splits)
       (metis (no_types, lifting) diff_le_self diff_less le_trans less_le_trans length_drop less_numeral_extra(1) less_2_cases_iff not_less zero_less_numeral)+
qed

function post_process_links :: "(string \<times> string) list \<Rightarrow> string list \<Rightarrow> string \<Rightarrow> string" where
  "post_process_links refs valid s =
     (case match_link s of
        Some (t, a, r) \<Rightarrow> resolve_link refs valid t a @ post_process_links refs valid r
      | None \<Rightarrow> (case s of [] \<Rightarrow> [] | c # r \<Rightarrow> c # post_process_links refs valid r))"
  by pat_completeness auto
termination
  by (relation "measure (\<lambda>(_, _, s). length s)") (auto dest: match_link_shorter)

declare post_process_links.simps [simp del]

section \<open>Summaries\<close>

fun paragraph_lines :: "nat \<Rightarrow> string list \<Rightarrow> string list \<Rightarrow> string list" where
  "paragraph_lines n acc [] = acc"
| "paragraph_lines n acc (l # ls) =
     (let s = trim_space l in
      if s = [] then (if acc \<noteq> [] then acc else paragraph_lines n acc ls)
      else if has_prefix s ''#'' then paragraph_lines n acc ls
      else if n \<le> length (join_str (acc @ [s]) '' '') then acc @ [s]
      else paragraph_lines n (acc @ [s]) ls)"

primrec rune_start :: "string \<Rightarrow> nat \<Rightarrow> nat" where
  "rune_start t 0 = 0"
| "rune_start t (Suc e) = (if cont_byte (t ! Suc e) then rune_start t e else Suc e)"

definition first_paragraph :: "string \<Rightarrow> nat \<Rightarrow> string" where
  "first_paragraph body n =
     (let text = join_str (paragraph_lines n [] (split_str body [CHR 0x0A])) '' '' in
      if n < length text then take (rune_start text (n - 1)) text @ ellipsis else text)"

section \<open>A run\<close>

record 'v gen_env =
  ge_now :: int
  ge_ms :: nat
  ge_entries :: "string list"
  ge_analysis :: "wiki_plan option option"
  ge_retry :: "wiki_plan option"
  ge_page :: "plan_page \<Rightarrow> string option"
  ge_embed :: "(string \<Rightarrow> 'v option) option"

record gen_result =
  gr_created :: nat
  gr_updated :: nat
  gr_failed :: nat
  gr_edges :: nat
  gr_ids :: "string list"
  gr_error :: "string option"

definition no_result :: gen_result where
  "no_result = \<lparr>gr_created = 0, gr_updated = 0, gr_failed = 0, gr_edges = 0, gr_ids = [], gr_error = None\<rparr>"

definition read_source_text :: "string list \<Rightarrow> string" where
  "read_source_text chunks = join_str (take 10000 chunks) [CHR 0x0A, CHR 0x0A]"

definition with_source_page :: "string \<Rightarrow> wiki_plan \<Rightarrow> plan_page list" where
  "with_source_page sid plan =
     (if list_ex (\<lambda>p. pp_type p = ''source'') (pl_pages plan) then pl_pages plan
      else pl_pages plan @ [\<lparr>pp_type = ''source'', pp_slug = sid, pp_title = clip_title (pl_summary plan) 30, pp_tags = []\<rparr>])"

definition ref_map :: "wiki_page list \<Rightarrow> plan_page list \<Rightarrow> (string \<times> string) list" where
  "ref_map existing pages =
     map2 (\<lambda>i p. (''N'' @ nat_str (Suc i), plan_page_id p)) [0..<length pages] pages
     @ map2 (\<lambda>i p. (''E'' @ nat_str (Suc i), wp_id p)) [0..<length existing] existing"

definition embed_page :: "(string \<Rightarrow> 'v option) option \<Rightarrow> wiki_page \<Rightarrow> 'v wiki_tables \<Rightarrow> 'v wiki_tables" where
  "embed_page emb p st =
     (case emb of None \<Rightarrow> st
      | Some e \<Rightarrow>
          (let text = (if trim_space (wp_summary p) = [] then wp_title p else wp_summary p) in
           if trim_space text = [] then st
           else (case e text of None \<Rightarrow> st | Some v \<Rightarrow> save_page_embedding (wp_agent p) (wp_id p) v st)))"

definition new_page :: "string \<Rightarrow> string \<Rightarrow> plan_page \<Rightarrow> string \<Rightarrow> wiki_page" where
  "new_page agent sid pp body =
     \<lparr>wp_id = plan_page_id pp, wp_agent = agent, wp_type = pp_type pp, wp_slug = pp_slug pp, wp_title = pp_title pp, wp_body = body,
      wp_summary = first_paragraph body 240, wp_sources = [sid], wp_tags = pp_tags pp, wp_created = 0, wp_updated = 0, wp_revision = 0,
      wp_carded = None\<rparr>"

definition page_body :: "'v gen_env \<Rightarrow> string \<Rightarrow> (string \<times> string) list \<Rightarrow> string list \<Rightarrow> plan_page \<Rightarrow> string option" where
  "page_body env text refs valid pp =
     (if pp_type pp = ''source'' then Some text else map_option (post_process_links refs valid) (ge_page env pp))"

definition generate_page ::
    "'v gen_env \<Rightarrow> string \<Rightarrow> string \<Rightarrow> string \<Rightarrow> (string \<times> string) list \<Rightarrow> string list \<Rightarrow> plan_page
      \<Rightarrow> 'v wiki_tables \<times> gen_result \<Rightarrow> 'v wiki_tables \<times> gen_result" where
  "generate_page env agent sid text refs valid pp sr =
     (case sr of (st, res) \<Rightarrow>
        (let pid = plan_page_id pp;
             titled = find_page_by_title agent (pp_title pp) st
         in case (if (case titled of Some e \<Rightarrow> wp_id e \<noteq> pid | None \<Rightarrow> False) then titled else None) of
              Some e \<Rightarrow>
                (let e' = (if sid \<in> set (wp_sources e) then e else e\<lparr>wp_sources := wp_sources e @ [sid]\<rparr>)
                 in (upsert_page (ge_now env) e' st, res\<lparr>gr_ids := gr_ids res @ [wp_id e]\<rparr>))
            | None \<Rightarrow>
                (case page_body env text refs valid pp of
                   None \<Rightarrow> (st, res\<lparr>gr_failed := Suc (gr_failed res)\<rparr>)
                 | Some body \<Rightarrow>
                     (let p = new_page agent sid pp body;
                          res' = (if get_page pid st = None then res\<lparr>gr_created := Suc (gr_created res)\<rparr> else res\<lparr>gr_updated := Suc (gr_updated res)\<rparr>)
                      in (embed_page (ge_embed env) p (upsert_page (ge_now env) p st), res'\<lparr>gr_ids := gr_ids res @ [pid]\<rparr>)))))"

definition generate_link :: "plan_link \<Rightarrow> 'v wiki_tables \<times> gen_result \<Rightarrow> 'v wiki_tables \<times> gen_result" where
  "generate_link l sr =
     (case sr of (st, res) \<Rightarrow>
        if pk_src l = [] \<or> pk_dst l = [] then (st, res)
        else if pk_src l \<notin> set (gr_ids res) \<and> get_page (pk_src l) st = None then (st, res)
        else if pk_dst l \<notin> set (gr_ids res) \<and> get_page (pk_dst l) st = None then (st, res)
        else (upsert_link \<lparr>wl_src = pk_src l, wl_dst = pk_dst l, wl_relation = pk_relation l, wl_weight = 8\<rparr> st,
              res\<lparr>gr_edges := Suc (gr_edges res)\<rparr>))"

definition fallback_links :: "gen_result \<Rightarrow> wiki_link list" where
  "fallback_links res =
     concat (map (\<lambda>s. map (\<lambda>d. \<lparr>wl_src = s, wl_dst = d, wl_relation = ''parent_of'', wl_weight = 6\<rparr>)
                        (List.filter (\<lambda>i. \<not> has_prefix i ''source:'') (gr_ids res)))
       (List.filter (\<lambda>i. has_prefix i ''source:'') (gr_ids res)))"

definition generate_pages ::
    "'v gen_env \<Rightarrow> string \<Rightarrow> string \<Rightarrow> string \<Rightarrow> wiki_plan \<Rightarrow> 'v wiki_tables \<Rightarrow> 'v wiki_tables \<times> gen_result" where
  "generate_pages env agent sid text plan st =
     (let pages = with_source_page sid plan;
          existing = fst (list_pages agent [] 200 0 st);
          refs = ref_map existing pages;
          valid = map wp_id existing @ map plan_page_id pages
      in case fold (generate_page env agent sid text refs valid) pages (st, no_result) of
           (st1, res1) \<Rightarrow>
             (if pl_links plan = []
              then (fold upsert_link (fallback_links res1) st1, res1\<lparr>gr_edges := gr_edges res1 + length (fallback_links res1)\<rparr>)
              else fold generate_link (pl_links plan) (st1, res1)))"

definition generate :: "(char \<Rightarrow> char) \<Rightarrow> 'v gen_env \<Rightarrow> string \<Rightarrow> string \<Rightarrow> 'v wiki_tables \<Rightarrow> 'v wiki_tables \<times> gen_result" where
  "generate f env agent sid st =
     (let st1 = snd (delete_pages_by_source f agent sid st);
          text = read_source_text (ge_entries env)
      in if text = [] then (st1, no_result\<lparr>gr_error := Some ''empty source text''\<rparr>)
         else
           (case ge_analysis env of
              None \<Rightarrow> (st1, no_result\<lparr>gr_error := Some ''analysis''\<rparr>)
            | Some first \<Rightarrow>
                (case (case first of Some p \<Rightarrow> Some p | None \<Rightarrow> ge_retry env) of
                   None \<Rightarrow> (st1, no_result\<lparr>gr_error := Some ''could not extract plan from analysis''\<rparr>)
                 | Some plan \<Rightarrow>
                     (let plan = validate_plan (ge_ms env) sid plan in
                      if pl_pages plan = [] then (st1, no_result\<lparr>gr_error := Some ''no pages in plan''\<rparr>)
                      else generate_pages env agent sid text plan st1))))"

end
