(* ===== verification/Wiki_Laws.thy ===== *)
theory Wiki_Laws
  imports Wiki_Generate
begin

text \<open>
  What the generation of the wiki guarantees: links connect pages that exist, a checked plan is small and
  has one page for its source; and where it fails, which is the identifier of a page, shared by all agents.
\<close>

section \<open>Links connect pages\<close>

datatype 'v wiki_op =
    Wiki_generate "char \<Rightarrow> char" "'v gen_env" string string
  | Wiki_delete_source "char \<Rightarrow> char" string string
  | Wiki_delete string
  | Wiki_carded int string "string list"
  | Wiki_embed string string 'v
  | Wiki_clear_vecs string

definition wiki_step :: "'v wiki_op \<Rightarrow> 'v wiki_tables \<Rightarrow> 'v wiki_tables" where
  "wiki_step op st =
     (case op of
        Wiki_generate f env agent sid \<Rightarrow> fst (generate f env agent sid st)
      | Wiki_delete_source f agent sid \<Rightarrow> snd (delete_pages_by_source f agent sid st)
      | Wiki_delete pid \<Rightarrow> delete_page pid st
      | Wiki_carded now agent ids \<Rightarrow> mark_pages_carded now agent ids st
      | Wiki_embed agent pid v \<Rightarrow> save_page_embedding agent pid v st
      | Wiki_clear_vecs agent \<Rightarrow> clear_page_embeddings agent st)"

text \<open>The pages a run has reported exist, and nothing it does takes a page away.\<close>

definition run_ok :: "'v wiki_tables \<times> gen_result \<Rightarrow> bool" where
  "run_ok sr = (linked (fst sr) \<and> set (gr_ids (snd sr)) \<subseteq> page_ids (fst sr))"

lemma embed_page_keeps [simp]:
  "linked (embed_page emb p st) = linked st" "page_ids (embed_page emb p st) = page_ids st" "wk_pages (embed_page emb p st) = wk_pages st"
  by (simp_all add: embed_page_def Let_def split: option.splits)

lemma generate_page_ok:
  assumes "run_ok sr"
  shows "run_ok (generate_page env agent sid text refs valid pp sr)"
proof -
  obtain st res where sr: "sr = (st, res)" by (metis surj_pair)
  have l: "linked st" and i: "set (gr_ids res) \<subseteq> page_ids st" using assms sr by (auto simp: run_ok_def)
  have "linked (upsert_page now p st)" for now p using l by (rule upsert_page_linked)
  moreover have "wp_id (new_page agent sid pp body) = plan_page_id pp" for body by (simp add: new_page_def)
  ultimately show ?thesis using i l
    by (auto simp: sr generate_page_def run_ok_def Let_def split: option.splits)
qed

lemma upsert_links_linked:
  "linked st \<Longrightarrow> \<forall>l\<in>set ls. wl_src l \<in> page_ids st \<and> wl_dst l \<in> page_ids st \<Longrightarrow>
     linked (fold upsert_link ls st)"
proof (induction ls arbitrary: st)
  case (Cons l ls)
  have "linked (upsert_link l st)" using Cons.prems by (intro upsert_link_linked) auto
  moreover have "\<forall>m\<in>set ls. wl_src m \<in> page_ids (upsert_link l st) \<and> wl_dst m \<in> page_ids (upsert_link l st)"
    using Cons.prems(2) by simp
  ultimately show ?case using Cons.IH by simp
qed simp

lemma generate_link_ok:
  assumes "run_ok sr"
  shows "run_ok (generate_link l sr)"
proof -
  obtain st res where sr: "sr = (st, res)" by (metis surj_pair)
  have l: "linked st" and i: "set (gr_ids res) \<subseteq> page_ids st" using assms sr by (auto simp: run_ok_def)
  have e: "x \<in> set (gr_ids res) \<or> get_page x st \<noteq> None \<Longrightarrow> x \<in> page_ids st" for x
    using i get_page_iff by blast
  show ?thesis
  proof (cases "pk_src l = [] \<or> pk_dst l = [] \<or> (pk_src l \<notin> set (gr_ids res) \<and> get_page (pk_src l) st = None)
      \<or> (pk_dst l \<notin> set (gr_ids res) \<and> get_page (pk_dst l) st = None)")
    case True
    then have "generate_link l sr = sr" by (auto simp: generate_link_def sr)
    then show ?thesis using assms by simp
  next
    case False
    have "linked (upsert_link \<lparr>wl_src = pk_src l, wl_dst = pk_dst l, wl_relation = pk_relation l, wl_weight = 8\<rparr> st)"
      using False e by (intro upsert_link_linked l) auto
    then show ?thesis using False i by (auto simp: generate_link_def sr run_ok_def)
  qed
qed

lemma fold_ok: "(\<And>x s. run_ok s \<Longrightarrow> run_ok (f x s)) \<Longrightarrow> run_ok s \<Longrightarrow> run_ok (fold f xs s)"
  by (induction xs arbitrary: s) auto

lemma generate_pages_linked:
  assumes "linked st"
  shows "linked (fst (generate_pages env agent sid text plan st))"
proof -
  define pages where "pages = with_source_page sid plan"
  define existing where "existing = fst (list_pages agent [] 200 0 st)"
  define refs where "refs = ref_map existing pages"
  define valid where "valid = map wp_id existing @ map plan_page_id pages"
  obtain st1 res1 where f: "fold (generate_page env agent sid text refs valid) pages (st, no_result) = (st1, res1)" by (metis surj_pair)
  have "run_ok (st, no_result)" using assms by (simp add: run_ok_def no_result_def)
  then have ok: "run_ok (st1, res1)" using fold_ok [of "generate_page env agent sid text refs valid"] generate_page_ok f by metis
  have links: "run_ok (fold generate_link (pl_links plan) (st1, res1))" using fold_ok [OF generate_link_ok ok] .
  have "\<forall>l\<in>set (fallback_links res1). wl_src l \<in> page_ids st1 \<and> wl_dst l \<in> page_ids st1"
    using ok by (auto simp: fallback_links_def run_ok_def)
  then have "linked (fold upsert_link (fallback_links res1) st1)" using ok upsert_links_linked by (auto simp: run_ok_def)
  with links f show ?thesis
    by (simp add: generate_pages_def Let_def run_ok_def flip: pages_def existing_def refs_def valid_def)
qed

lemma step_linked: "linked st \<Longrightarrow> linked (wiki_step op st)"
proof (cases op)
  case (Wiki_generate f env agent sid)
  assume "linked st"
  then have d: "linked (snd (delete_pages_by_source f agent sid st))" by (rule delete_linked)
  then show ?thesis
    by (simp add: wiki_step_def Wiki_generate generate_def Let_def generate_pages_linked split: option.splits)
qed (simp_all add: wiki_step_def delete_linked mark_linked clear_page_embeddings_def)

definition no_pages :: "'v wiki_tables" where
  "no_pages = \<lparr>wk_pages = [], wk_links = [], wk_vecs = [], wk_kb = \<lparr>kb_cards = [], kb_reviews = [], kb_vecs = []\<rparr>\<rparr>"

text \<open>
  C31. Every link of the wiki connects two pages that exist: this holds after any sequence of generations
  and deletions, whatever the model answers.
\<close>
theorem links_connect_pages:
  "\<not> (\<exists>l. l \<in> set (wk_links (fold wiki_step ops no_pages))
        \<and> (get_page (wl_src l) (fold wiki_step ops no_pages) = None \<or> get_page (wl_dst l) (fold wiki_step ops no_pages) = None))"
proof -
  have "linked (fold wiki_step ops st)" if "linked st" for st
    using that by (induction ops arbitrary: st) (simp_all add: step_linked)
  from this [of no_pages] have "linked (fold wiki_step ops no_pages)" by (simp add: linked_def no_pages_def)
  then show ?thesis unfolding linked_def using get_page_iff by blast
qed

section \<open>Plans\<close>

lemma valid_pages_props:
  "distinct (map plan_page_id (valid_pages ms sid seen ps)) \<and> set (map plan_page_id (valid_pages ms sid seen ps)) \<inter> set seen = {}"
proof (induction ms sid seen ps rule: valid_pages.induct)
  case (2 ms sid seen p ps)
  show ?case
  proof (cases "pp_type p \<notin> set allowed_page_types \<or> trim_space (pp_title p) = []")
    case True
    then show ?thesis using "2.IH"(1) by simp
  next
    case False
    show ?thesis
    proof (cases "plan_page_id (fix_slug ms sid p) \<in> set seen")
      case True
      then show ?thesis using False "2.IH"(2) [OF False refl True] by (simp add: Let_def)
    next
      case new: False
      then show ?thesis using False "2.IH"(3) [OF False refl new] by (auto simp: Let_def)
    qed
  qed
qed simp

lemma fix_slug_source: "pp_type (fix_slug ms sid p) = pp_type p" "pp_type p = ''source'' \<Longrightarrow> pp_slug (fix_slug ms sid p) = sid"
  by (simp_all add: fix_slug_def Let_def)

lemma valid_pages_source:
  "q \<in> set (valid_pages ms sid seen ps) \<Longrightarrow> pp_type q = ''source'' \<Longrightarrow> pp_slug q = sid"
proof (induction ms sid seen ps rule: valid_pages.induct)
  case (2 ms sid seen p ps)
  then show ?case using fix_slug_source by (auto simp: Let_def split: if_splits)
qed simp

lemma valid_pages_types: "q \<in> set (valid_pages ms sid seen ps) \<Longrightarrow> pp_type q \<in> set allowed_page_types"
proof (induction ms sid seen ps rule: valid_pages.induct)
  case (2 ms sid seen p ps)
  then show ?case using fix_slug_source by (auto simp: Let_def split: if_splits)
qed simp

lemma cap_sub: "set (cap_pages n ps) \<subseteq> set ps"
  by (induction n ps rule: cap_pages.induct) auto

lemma cap_distinct: "distinct (map f ps) \<Longrightarrow> distinct (map f (cap_pages n ps))"
proof (induction n ps rule: cap_pages.induct)
  case (2 n p ps)
  then show ?case using cap_sub [of n ps] cap_sub [of "Suc n" ps] by (auto simp: image_iff)
qed simp

lemma cap_count: "length (List.filter (\<lambda>p. pp_type p \<noteq> ''source'') (cap_pages n ps)) \<le> max_new_pages - n"
proof (induction n ps rule: cap_pages.induct)
  case (2 n p ps)
  then show ?case by (auto simp: max_new_pages_def)
qed simp

lemma one_source:
  assumes "distinct (map plan_page_id ps)" and "\<forall>p\<in>set ps. pp_type p = ''source'' \<longrightarrow> pp_slug p = sid"
  shows "length (List.filter (\<lambda>p. pp_type p = ''source'') ps) \<le> 1"
proof -
  have "set (map plan_page_id (List.filter (\<lambda>p. pp_type p = ''source'') ps)) \<subseteq> {''source:'' @ sid}"
    using assms(2) by (auto simp: plan_page_id_def)
  moreover have "distinct (map plan_page_id (List.filter (\<lambda>p. pp_type p = ''source'') ps))"
    using assms(1) by (rule distinct_map_filter)
  ultimately have "card (set (map plan_page_id (List.filter (\<lambda>p. pp_type p = ''source'') ps))) \<le> 1"
    using card_mono [of "{''source:'' @ sid}"] by fastforce
  then show ?thesis using distinct_card \<open>distinct (map plan_page_id (List.filter (\<lambda>p. pp_type p = ''source'') ps))\<close> by fastforce
qed

text \<open>
  A generation writes at most nine pages, whatever the model plans: the checked plan with the page of
  its source has distinct pages, exactly one page for the source, and at most eight others.
\<close>
lemma plan_is_bounded:
  "length (with_source_page sid (validate_plan ms sid plan)) \<le> 9
    \<and> distinct (map plan_page_id (with_source_page sid (validate_plan ms sid plan)))
    \<and> map plan_page_id (List.filter (\<lambda>p. pp_type p = ''source'') (with_source_page sid (validate_plan ms sid plan))) = [''source:'' @ sid]"
proof -
  define vs where "vs = valid_pages ms sid [] (pl_pages plan)"
  define ps where "ps = cap_pages 0 vs"
  let ?src = "\<lambda>p. pp_type p = ''source''"
  have pl: "pl_pages (validate_plan ms sid plan) = ps" by (simp add: validate_plan_def Let_def ps_def vs_def)
  have d: "distinct (map plan_page_id ps)" unfolding ps_def vs_def using valid_pages_props cap_distinct by blast
  have s: "\<forall>p\<in>set ps. ?src p \<longrightarrow> pp_slug p = sid" using valid_pages_source cap_sub unfolding ps_def vs_def by blast
  have one: "length (List.filter ?src ps) \<le> 1" using one_source [OF d s] .
  have eight: "length (List.filter (\<lambda>p. \<not> ?src p) ps) \<le> 8" using cap_count [of 0 vs] by (simp add: ps_def max_new_pages_def)
  have sum: "length ps = length (List.filter ?src ps) + length (List.filter (\<lambda>p. \<not> ?src p) ps)"
    using sum_length_filter_compl [of ?src ps] by simp
  show ?thesis
  proof (cases "list_ex ?src ps")
    case True
    then have w: "with_source_page sid (validate_plan ms sid plan) = ps" by (simp add: with_source_page_def pl)
    have "List.filter ?src ps \<noteq> []" using True by (auto simp: list_ex_iff filter_empty_conv)
    with one obtain p where p: "List.filter ?src ps = [p]" by (cases "List.filter ?src ps") auto
    then have "p \<in> set (List.filter ?src ps)" by simp
    then have "p \<in> set ps" "?src p" by simp_all
    then have "plan_page_id p = ''source:'' @ sid" using s by (simp add: plan_page_id_def)
    then show ?thesis using w p d sum one eight by simp
  next
    case False
    define q where "q = \<lparr>pp_type = ''source'', pp_slug = sid, pp_title = clip_title (pl_summary plan) 30, pp_tags = []\<rparr>"
    have w: "with_source_page sid (validate_plan ms sid plan) = ps @ [q]"
      using False by (simp add: with_source_page_def pl q_def) (simp add: validate_plan_def Let_def)
    have none: "List.filter ?src ps = []" using False by (simp add: list_ex_iff filter_empty_conv)
    have len: "length ps \<le> 8" using sum none eight by simp
    have "plan_page_id q \<notin> set (map plan_page_id ps)"
    proof
      assume "plan_page_id q \<in> set (map plan_page_id ps)"
      then obtain p where p: "p \<in> set ps" "plan_page_id p = ''source:'' @ sid" by (auto simp: q_def plan_page_id_def)
      have "pp_type p \<in> set allowed_page_types" using p(1) cap_sub valid_pages_types unfolding ps_def vs_def by blast
      then have "?src p" using p(2) by (auto simp: allowed_page_types_def plan_page_id_def)
      then show False using p(1) False by (auto simp: list_ex_iff)
    qed
    then show ?thesis using w none len d by (simp add: q_def plan_page_id_def)
  qed
qed

section \<open>Pages of other agents\<close>

lemma merge_page_id [simp]: "wp_id (merge_page now p o1) = wp_id o1" "wp_agent (merge_page now p o1) = wp_agent o1"
  by (simp_all add: merge_page_def)

definition fresh_page :: "int \<Rightarrow> wiki_page \<Rightarrow> wiki_page" where
  "fresh_page now p =
     p\<lparr>wp_created := (if wp_created p = 0 then now else wp_created p), wp_updated := now, wp_revision := 1, wp_carded := None\<rparr>"

lemma upsert_page_eq:
  "wk_pages (upsert_page now p st) =
     (if list_ex (\<lambda>o1. wp_id o1 = wp_id p) (wk_pages st)
      then map (\<lambda>o1. if wp_id o1 = wp_id p then merge_page now p o1 else o1) (wk_pages st)
      else wk_pages st @ [fresh_page now p])"
  unfolding upsert_page_def fresh_page_def by simp

lemma find_append: "List.find q (xs @ ys) = (case List.find q xs of Some x \<Rightarrow> Some x | None \<Rightarrow> List.find q ys)"
  by (induction xs) auto

lemma find_merge:
  "List.find (\<lambda>o1. wp_id o1 = wp_id p) (map (\<lambda>o1. if wp_id o1 = wp_id p then merge_page now p o1 else o1) xs)
      = map_option (merge_page now p) (List.find (\<lambda>o1. wp_id o1 = wp_id p) xs)"
  by (induction xs) simp_all

lemma fresh_page_id [simp]: "wp_id (fresh_page now p) = wp_id p"
  by (simp add: fresh_page_def)

lemma get_page_upsert:
  "get_page (wp_id p) (upsert_page now p st) =
     (case get_page (wp_id p) st of Some o1 \<Rightarrow> Some (merge_page now p o1) | None \<Rightarrow> Some (fresh_page now p))"
proof (cases "list_ex (\<lambda>o1. wp_id o1 = wp_id p) (wk_pages st)")
  case True
  then obtain o1 where "List.find (\<lambda>o1. wp_id o1 = wp_id p) (wk_pages st) = Some o1"
    by (metis find_None_iff2 list_ex_iff not_Some_eq)
  then show ?thesis using True by (simp add: get_page_def upsert_page_eq find_merge)
next
  case False
  then have "List.find (\<lambda>o1. wp_id o1 = wp_id p) (wk_pages st) = None"
    by (simp add: find_None_iff list_ex_iff)
  then show ?thesis using False by (simp add: get_page_def upsert_page_eq find_append)
qed

lemma get_page_embed [simp]: "get_page pid (embed_page emb p st) = get_page pid st"
  by (simp add: get_page_def)

text \<open>
  C30. A page of another agent is overwritten: the identifier of a page is its type and its slug and is
  shared by all agents, so that a generation of one agent replaces the text and the sources of the page
  another agent has under that identifier; the page stays with the other agent.
\<close>
theorem page_of_other_agent_is_overwritten:
  assumes "get_page (plan_page_id pp) st = Some old" and "wp_agent old \<noteq> agent" and "find_page_by_title agent (pp_title pp) st = None"
    and "page_body env text refs valid pp = Some body"
    and "generate_page env agent sid text refs valid pp (st, res) = (st', res')"
  shows "\<exists>new. get_page (plan_page_id pp) st' = Some new \<and> wp_agent new = wp_agent old \<and> wp_body new = body \<and> wp_sources new = [sid]
    \<and> gr_updated res' = Suc (gr_updated res) \<and> gr_ids res' = gr_ids res @ [plan_page_id pp]"
proof -
  let ?p = "new_page agent sid pp body"
  have id: "wp_id ?p = plan_page_id pp" by (simp add: new_page_def)
  have st': "st' = embed_page (ge_embed env) ?p (upsert_page (ge_now env) ?p st)"
    and res': "gr_updated res' = Suc (gr_updated res)" "gr_ids res' = gr_ids res @ [plan_page_id pp]"
    using assms(1,3,4,5) by (auto simp: generate_page_def Let_def)
  have "get_page (plan_page_id pp) st' = Some (merge_page (ge_now env) ?p old)"
    using get_page_upsert [of ?p "ge_now env" st] assms(1) unfolding id by (simp add: st')
  then show ?thesis using res' by (simp add: merge_page_def new_page_def)
qed

definition tcp_page :: "string \<Rightarrow> wiki_page" where
  "tcp_page agent =
     \<lparr>wp_id = ''concept:tcp'', wp_agent = agent, wp_type = ''concept'', wp_slug = ''tcp'', wp_title = ''Mine'', wp_body = ''mine'',
      wp_summary = ''mine'', wp_sources = [''s1''], wp_tags = [], wp_created = 1, wp_updated = 1, wp_revision = 1, wp_carded = None\<rparr>"

definition tcp_plan :: plan_page where
  "tcp_plan = \<lparr>pp_type = ''concept'', pp_slug = ''tcp'', pp_title = ''Yours'', pp_tags = []\<rparr>"

definition tcp_env :: "unit gen_env" where
  "tcp_env = \<lparr>ge_now = 2, ge_ms = 0, ge_entries = [''text''], ge_analysis = None, ge_retry = None, ge_page = (\<lambda>_. Some []), ge_embed = None\<rparr>"

theorem page_of_other_agent_is_overwritten_witness:
  "\<exists>new. get_page ''concept:tcp'' (fst (generate_page tcp_env ''b'' ''s2'' ''text'' [] [] tcp_plan (no_pages\<lparr>wk_pages := [tcp_page ''a'']\<rparr>, no_result))) = Some new
     \<and> wp_agent new = ''a'' \<and> wp_body new = [] \<and> wp_sources new = [''s2'']"
proof -
  let ?st = "no_pages\<lparr>wk_pages := [tcp_page ''a'']\<rparr> :: unit wiki_tables"
  obtain st' res' where g: "generate_page tcp_env ''b'' ''s2'' ''text'' [] [] tcp_plan (?st, no_result) = (st', res')" by (metis surj_pair)
  have id: "plan_page_id tcp_plan = ''concept:tcp''" by (simp add: plan_page_id_def tcp_plan_def)
  have old: "get_page (plan_page_id tcp_plan) ?st = Some (tcp_page ''a'')" unfolding id by (simp add: get_page_def tcp_page_def)
  have title: "find_page_by_title ''b'' (pp_title tcp_plan) ?st = None" by (simp add: find_page_by_title_def tcp_page_def)
  have body: "page_body tcp_env ''text'' [] [] tcp_plan = Some []"
    by (simp add: page_body_def tcp_plan_def tcp_env_def post_process_links.simps [of _ _ "[]"] match_link_def)
  have "wp_agent (tcp_page ''a'') \<noteq> ''b''" by (simp add: tcp_page_def)
  from page_of_other_agent_is_overwritten [OF old this title body g]
  obtain new where "get_page ''concept:tcp'' st' = Some new" "wp_agent new = ''a''" "wp_body new = []" "wp_sources new = [''s2'']"
    unfolding id by (auto simp: tcp_page_def)
  then show ?thesis unfolding g fst_conv by blast
qed

section \<open>Links of a text\<close>

datatype text_part = Plain string | Link string string

definition render_part :: "text_part \<Rightarrow> string" where
  "render_part x = (case x of Plain s \<Rightarrow> s | Link t a \<Rightarrow> ''[['' @ t @ (if a = [] then [] else ''|'' @ a) @ '']]'')"

definition render_parts :: "text_part list \<Rightarrow> string" where
  "render_parts xs = concat (map render_part xs)"

definition clean_part :: "text_part \<Rightarrow> bool" where
  "clean_part x = (case x of Plain s \<Rightarrow> CHR ''['' \<notin> set s
     | Link t a \<Rightarrow> t \<noteq> [] \<and> CHR '']'' \<notin> set t \<and> CHR ''|'' \<notin> set t \<and> CHR '']'' \<notin> set a)"

definition resolve_part :: "(string \<times> string) list \<Rightarrow> string list \<Rightarrow> text_part \<Rightarrow> text_part" where
  "resolve_part refs valid x =
     (case x of Plain s \<Rightarrow> Plain s
      | Link t a \<Rightarrow>
          (let t = (case map_of refs (trim_space t) of Some i \<Rightarrow> i | None \<Rightarrow> trim_space t) in
           if t \<in> set valid then Link t a else Plain (if trim_space a = [] then t else a)))"

lemma match_link_plain: "CHR ''['' \<noteq> c \<Longrightarrow> match_link (c # s) = None"
  by (simp add: match_link_def has_prefix_def)

lemma post_process_plain:
  "CHR ''['' \<notin> set s \<Longrightarrow> post_process_links refs valid (s @ r) = s @ post_process_links refs valid r"
proof (induction s)
  case (Cons c s)
  then show ?case by (subst post_process_links.simps) (simp add: match_link_plain)
qed simp

lemma take_drop_until:
  "\<forall>c\<in>set t. p c \<Longrightarrow> \<not> p d \<Longrightarrow> takeWhile p (t @ d # r) = t \<and> dropWhile p (t @ d # r) = d # r"
  by (induction t) auto

lemma match_link_render:
  assumes "clean_part (Link t a)"
  shows "match_link (render_part (Link t a) @ r) = Some (t, a, r)"
proof -
  have t: "t \<noteq> []" "\<forall>c\<in>set t. not_link_end c" using assms by (auto simp: clean_part_def not_link_end_def)
  have a: "\<forall>c\<in>set a. c \<noteq> CHR '']''" using assms by (auto simp: clean_part_def)
  have e: "\<not> not_link_end CHR '']''" "\<not> not_link_end CHR ''|''" by (simp_all add: not_link_end_def)
  show ?thesis
  proof (cases "a = []")
    case True
    have "takeWhile not_link_end (t @ '']]'' @ r) = t" "dropWhile not_link_end (t @ '']]'' @ r) = '']]'' @ r"
      using take_drop_until [of t not_link_end "CHR '']''" "'']'' @ r"] t e by simp_all
    then show ?thesis using True t by (simp add: render_part_def match_link_def Let_def)
  next
    case False
    have "takeWhile not_link_end (t @ ''|'' @ a @ '']]'' @ r) = t"
      "dropWhile not_link_end (t @ ''|'' @ a @ '']]'' @ r) = ''|'' @ a @ '']]'' @ r"
      using take_drop_until [of t not_link_end "CHR ''|''" "a @ '']]'' @ r"] t e by simp_all
    moreover have "takeWhile (\<lambda>c. c \<noteq> CHR '']'') (a @ '']]'' @ r) = a" "dropWhile (\<lambda>c. c \<noteq> CHR '']'') (a @ '']]'' @ r) = '']]'' @ r"
      using take_drop_until [of a "\<lambda>c. c \<noteq> CHR '']''" "CHR '']''" "'']'' @ r"] a by simp_all
    ultimately show ?thesis using False t by (simp add: render_part_def match_link_def Let_def)
  qed
qed

lemma resolve_render: "resolve_link refs valid t a = render_part (resolve_part refs valid (Link t a))"
  by (simp add: resolve_link_def resolve_part_def render_part_def Let_def split: option.splits)

text \<open>
  The links of a generated text are resolved and the rest of it is untouched: in a text of plain parts
  and links, a link to a reference or to a known page becomes the link to that page, with its alias, and any
  other becomes plain text; no link of the result is dead.
\<close>
lemma links_are_resolved:
  assumes "list_all clean_part parts"
  shows "post_process_links refs valid (render_parts parts) = render_parts (map (resolve_part refs valid) parts)
    \<and> (\<forall>t a. Link t a \<in> set (map (resolve_part refs valid) parts) \<longrightarrow> t \<in> set valid)"
proof -
  have "post_process_links refs valid (render_parts parts) = render_parts (map (resolve_part refs valid) parts)"
    using assms
  proof (induction parts)
    case Nil
    then show ?case by (simp add: render_parts_def post_process_links.simps [of _ _ "[]"] match_link_def)
  next
    case (Cons x xs)
    then have IH: "post_process_links refs valid (concat (map render_part xs)) = concat (map render_part (map (resolve_part refs valid) xs))"
      and c: "clean_part x" by (simp_all add: render_parts_def)
    show ?case
    proof (cases x)
      case (Plain s)
      then have "CHR ''['' \<notin> set s" using c by (simp add: clean_part_def)
      have "render_part x = s" "render_part (resolve_part refs valid x) = s" by (simp_all add: Plain render_part_def resolve_part_def)
      then show ?thesis using IH post_process_plain [OF \<open>CHR ''['' \<notin> set s\<close>] by (simp add: render_parts_def)
    next
      case (Link t a)
      then show ?thesis using IH c match_link_render [of t a "concat (map render_part xs)"]
        by (simp add: render_parts_def post_process_links.simps [of _ _ "render_part (Link t a) @ concat (map render_part xs)"] resolve_render)
    qed
  qed
  moreover have "Link t a \<in> set (map (resolve_part refs valid) parts) \<Longrightarrow> t \<in> set valid" for t a
    by (auto simp: resolve_part_def Let_def split: text_part.splits if_splits option.splits)
  ultimately show ?thesis by blast
qed

theorem links_are_resolved_witness:
  "post_process_links [(''N1'', ''concept:tcp'')] [''concept:tcp''] ''see [[N1|TCP]] and [[N7]]'' = ''see [[concept:tcp|TCP]] and N7''"
proof -
  let ?parts = "[Plain ''see '', Link ''N1'' ''TCP'', Plain '' and '', Link ''N7'' []]"
  have t: "trim_space ''N1'' = ''N1''" "trim_space ''N7'' = ''N7''" "trim_space ''TCP'' = ''TCP''" "trim_space [] = []"
    by (simp_all add: trim_space_visible visible_def)
  have "list_all clean_part ?parts" by (simp add: clean_part_def)
  from links_are_resolved [OF this, of "[(''N1'', ''concept:tcp'')]" "[''concept:tcp'']"]
  show ?thesis by (simp add: render_parts_def render_part_def resolve_part_def t)
qed

text \<open>Nested brackets leave a dead link behind.\<close>

lemma nested_brackets_leave_dead_link:
  "post_process_links [] [] ''[[[[foo]]]]'' = ''[[foo]]''"
proof -
  have m: "match_link ''[[[[foo]]]]'' = Some (''[[foo'', [], '']]'')"
    by (simp add: match_link_def has_prefix_def not_link_end_def)
  have t: "trim_space ''[[foo'' = ''[[foo''" by (rule trim_space_visible) (auto simp: visible_def)
  have "post_process_links [] [] '']]'' = '']]''" using post_process_plain [of "'']]''" "[]" "[]" "[]"]
    by (simp add: post_process_links.simps [of _ _ "[]"] match_link_def)
  then show ?thesis by (subst post_process_links.simps) (simp add: m resolve_link_def t)
qed

section \<open>Deletion by source\<close>

lemma like_self: "CHR ''%'' \<notin> set p \<Longrightarrow> like_match f p p"
  by (induction p) (auto simp del: upt_Suc)

lemma like_prefix: "CHR ''%'' \<notin> set p \<Longrightarrow> like_match f (p @ ''%'') (p @ v)"
proof (induction p)
  case Nil
  have "list_ex (\<lambda>n. like_match f [] (drop n v)) [0..<Suc (length v)]"
    by (auto simp: list_ex_iff intro!: bexI [of _ "length v"])
  then show ?case by simp
qed (auto simp del: upt_Suc)

lemma like_infix:
  assumes "CHR ''%'' \<notin> set p"
  shows "like_match f ([CHR ''%''] @ p @ ''%'') (u @ p @ v)"
proof -
  have "like_match f (p @ ''%'') (drop (length u) (u @ p @ v))" using like_prefix [OF assms] by simp
  then have "list_ex (\<lambda>n. like_match f (p @ ''%'') (drop n (u @ p @ v))) [0..<Suc (length (u @ p @ v))]"
    unfolding list_ex_iff by (intro bexI [of _ "length u"]) auto
  then show ?thesis by simp
qed

lemma join_infix: "x \<in> set xs \<Longrightarrow> \<exists>u v. join_str xs sep = u @ x @ v"
proof (induction xs sep rule: join_str.induct)
  case (3 a b xs sep)
  show ?case
  proof (cases "x = a")
    case True
    then show ?thesis by (metis append_Nil join_str.simps(3))
  next
    case False
    then obtain u v where "join_str (b # xs) sep = u @ x @ v" using "3" by auto
    then show ?thesis by (metis append.assoc join_str.simps(3))
  qed
next
  case (2 a sep)
  then have "join_str [a] sep = [] @ x @ []" by simp
  then show ?case by blast
qed simp

lemma cites_member:
  assumes "sid \<in> set (wp_sources p)" and "json_str sid = [CHR 0x22] @ sid @ [CHR 0x22]" and "CHR ''%'' \<notin> set sid"
  shows "cites f sid p"
proof -
  obtain u v where "join_str (map json_str (wp_sources p)) '','' = u @ json_str sid @ v"
    using join_infix [of "json_str sid" "map json_str (wp_sources p)" "'',''"] assms(1) by auto
  then have j: "sources_json (wp_sources p) = (''['' @ u) @ ([CHR 0x22] @ sid @ [CHR 0x22]) @ (v @ '']'')"
    using assms(2) by (simp add: sources_json_def)
  show ?thesis unfolding cites_def j quoted_pattern_def
    using like_infix [of "[CHR 0x22] @ sid @ [CHR 0x22]" f "''['' @ u" "v @ '']''"] assms(3) by simp
qed

text \<open>A page that cites two sources is deleted when one of them is generated again.\<close>

lemma shared_page_is_deleted:
  assumes "p \<in> set (wk_pages st)" and "wp_agent p = agent" and "set (wp_sources p) = {sid, other}"
    and "json_str sid = [CHR 0x22] @ sid @ [CHR 0x22]" and "CHR ''%'' \<notin> set sid"
  shows "wp_id p \<notin> page_ids (snd (delete_pages_by_source f agent sid st))"
proof -
  have "cites f sid p" using cites_member [of sid p f] assms(3-5) by simp
  then have "wp_id p \<in> set (map wp_id (List.filter (\<lambda>p. wp_agent p = agent \<and> cites f sid p) (wk_pages st)))"
    using assms(1,2) by simp
  then show ?thesis by (auto simp: delete_pages_by_source_def Let_def drop_pages_def page_ids_def)
qed

text \<open>Deleting the pages of a source leaves their vectors; deleting one page does not.\<close>

lemma deleted_pages_keep_vectors:
  "wk_vecs (snd (delete_pages_by_source f agent sid st)) = wk_vecs st"
  by (simp add: delete_pages_by_source_def drop_pages_def Let_def)

text \<open>No card of a deleted page stays.\<close>

lemma no_orphan_cards:
  "c \<in> set (kb_cards (wk_kb (delete_page pid st))) \<Longrightarrow> kc_source c = ''wiki'' \<Longrightarrow> kc_ref c \<noteq> pid"
  by (auto simp: delete_page_def delete_cards_by_source_def drop_cards_def Let_def)

end
