(* ===== verification/Go_Trim.thy ===== *)
theory Go_Trim
  imports Go_Strings
begin

text \<open>Trimming twice is trimming once, for any bytes (\<^verbatim>\<open>strings.TrimSpace\<close>).\<close>

lemma not_space_error [simp]: "\<not> is_space rune_error"
  by (simp add: is_space_def rune_error_def)

text \<open>A rune that is complete in a prefix is the rune of the whole text.\<close>

lemma decode_rune_prefix: "fst (decode_rune u) \<noteq> rune_error \<Longrightarrow> decode_rune (u @ v) = decode_rune u"
  by (cases u) (auto simp: decode_rune_def split: list.splits if_splits)

lemma trim_right_split: "\<exists>v. s = trim_right s @ v"
proof (induction s rule: trim_right.induct)
  case (1 s)
  show ?case
  proof (cases "s \<noteq> [] \<and> is_space (fst (decode_last_rune s))")
    case True
    let ?n = "length s - snd (decode_last_rune s)"
    obtain v where "take ?n s = trim_right (take ?n s) @ v" using "1.IH" [OF True] by blast
    then have "s = trim_right (take ?n s) @ v @ drop ?n s" by (metis append.assoc append_take_drop_id)
    moreover have "trim_right s = trim_right (take ?n s)" using True by (subst trim_right.simps) simp
    ultimately show ?thesis by metis
  next
    case False
    then have "trim_right s = s" by (subst trim_right.simps) auto
    then show ?thesis by simp
  qed
qed

lemma trim_right_stops: "trim_right s = [] \<or> \<not> is_space (fst (decode_last_rune (trim_right s)))"
proof (induction s rule: trim_right.induct)
  case (1 s)
  show ?case
  proof (cases "s \<noteq> [] \<and> is_space (fst (decode_last_rune s))")
    case True
    then have "trim_right s = trim_right (take (length s - snd (decode_last_rune s)) s)" by (subst trim_right.simps) simp
    then show ?thesis using "1.IH" [OF True] by simp
  next
    case False
    then have "trim_right s = s" by (subst trim_right.simps) auto
    then show ?thesis using False by auto
  qed
qed

lemma trim_left_stops: "trim_left s = [] \<or> \<not> is_space (fst (decode_rune (trim_left s)))"
proof (induction s rule: trim_left.induct)
  case (1 s)
  show ?case
  proof (cases "s \<noteq> [] \<and> is_space (fst (decode_rune s))")
    case True
    then have "trim_left s = trim_left (drop (snd (decode_rune s)) s)" by (subst trim_left.simps) simp
    then show ?thesis using "1.IH" [OF True] by simp
  next
    case False
    then have "trim_left s = s" by (subst trim_left.simps) auto
    then show ?thesis using False by auto
  qed
qed

lemma trim_right_fixed: "s = [] \<or> \<not> is_space (fst (decode_last_rune s)) \<Longrightarrow> trim_right s = s"
  by (subst trim_right.simps) auto

lemma trim_left_fixed: "s = [] \<or> \<not> is_space (fst (decode_rune s)) \<Longrightarrow> trim_left s = s"
  by (subst trim_left.simps) auto

lemma trim_space_idem [simp]: "trim_space (trim_space s) = trim_space s"
proof -
  let ?t = "trim_left s" and ?u = "trim_right (trim_left s)"
  obtain v where v: "?t = ?u @ v" using trim_right_split by blast
  have "\<not> is_space (fst (decode_rune ?u))" if "?u \<noteq> []"
  proof
    assume sp: "is_space (fst (decode_rune ?u))"
    then have "fst (decode_rune ?u) \<noteq> rune_error" by auto
    then have "decode_rune ?t = decode_rune ?u" using decode_rune_prefix v by metis
    moreover have "?t \<noteq> []" using that v by auto
    ultimately show False using sp trim_left_stops [of s] by simp
  qed
  then have "trim_left ?u = ?u" by (intro trim_left_fixed) blast
  then show ?thesis using trim_right_fixed [OF trim_right_stops] by (simp add: trim_space_def)
qed

end
