(* ===== verification/Card_Generate.thy ===== *)
theory Card_Generate
  imports Wiki_Store Kb_Card_Laws Go_Trim
begin

text \<open>
  The nightly generation of flash cards (\<^verbatim>\<open>internal/cardsgen/gen.go\<close>) from the diary of a day and
  the wiki pages that were not used yet, with the table of its runs (\<^verbatim>\<open>internal/store/cards_runs.go\<close>).
  The text of the diary, the cards the model proposes and the identifiers of new cards are arguments.
\<close>

section \<open>Runs\<close>

record daily_run =
  dr_table :: string
  dr_agent_id :: string
  dr_date :: string
  dr_count :: nat
  dr_note :: string

definition daily_run_tables :: "string list" where
  "daily_run_tables = [''kb_card_gen_runs'', ''kb_card_push_runs'', ''diary_shelved_push_runs'', ''diary_blindspot_push_runs'']"

definition run_of :: "string \<Rightarrow> string \<Rightarrow> string \<Rightarrow> daily_run \<Rightarrow> bool" where
  "run_of table agent date r = (dr_table r = table \<and> dr_agent_id r = agent \<and> dr_date r = date)"

definition has_daily_run :: "string \<Rightarrow> string \<Rightarrow> string \<Rightarrow> daily_run list \<Rightarrow> bool" where
  "has_daily_run table agent date runs = (table \<in> set daily_run_tables \<and> list_ex (run_of table agent date) runs)"

definition stamp_daily_run :: "string \<Rightarrow> string \<Rightarrow> string \<Rightarrow> nat \<Rightarrow> string \<Rightarrow> daily_run list \<Rightarrow> bool \<times> daily_run list" where
  "stamp_daily_run table agent date n note runs =
     (if table \<notin> set daily_run_tables then (False, runs)
      else if list_ex (run_of table agent date) runs
      then (True, map (\<lambda>r. if run_of table agent date r then r\<lparr>dr_count := n, dr_note := note\<rparr> else r) runs)
      else (True, runs @ [\<lparr>dr_table = table, dr_agent_id = agent, dr_date = date, dr_count = n, dr_note = note\<rparr>]))"

definition stamp_card_gen_run :: "string \<Rightarrow> string \<Rightarrow> nat \<Rightarrow> string \<Rightarrow> daily_run list \<Rightarrow> daily_run list" where
  "stamp_card_gen_run agent date n model runs = snd (stamp_daily_run ''kb_card_gen_runs'' agent date n model runs)"

section \<open>Material and candidates\<close>

record card_source =
  sr_kind :: string
  sr_ref :: string
  sr_text :: string

record llm_card =
  lc_question :: string
  lc_answer :: string
  lc_source :: int
  lc_excerpt :: string

definition default_daily_limit :: nat where "default_daily_limit = 10"
definition max_wiki_pages :: nat where "max_wiki_pages = 20"
definition max_material :: nat where "max_material = 1200"

definition clip :: "string \<Rightarrow> nat \<Rightarrow> string" where
  "clip s n = (let r = runes (trim_space s) in
     if length r \<le> n then concat (map encode_rune r) else concat (map encode_rune (take n r)) @ map char_of [226 :: nat, 128, 166])"

definition collect_material :: "string \<Rightarrow> string \<Rightarrow> string \<Rightarrow> 'v wiki_tables \<Rightarrow> card_source list" where
  "collect_material agent date diary st =
     (if trim_space diary = [] then [] else [\<lparr>sr_kind = ''diary'', sr_ref = date, sr_text = clip (trim_space diary) max_material\<rparr>])
     @ concat (map (\<lambda>p. let text = trim_space (wp_title p @ [CHR 0x0A] @ wp_summary p) in
                        if text = [] then [] else [\<lparr>sr_kind = ''wiki'', sr_ref = wp_id p, sr_text = clip text max_material\<rparr>])
                (list_uncarded_pages agent max_wiki_pages st))"

definition clamp_source :: "int \<Rightarrow> card_source list \<Rightarrow> card_source" where
  "clamp_source i sources =
     (if sources = [] then \<lparr>sr_kind = ''manual'', sr_ref = [], sr_text = []\<rparr>
      else sources ! (if i < 0 \<or> int (length sources) \<le> i then 0 else nat i))"

definition usable_card :: "llm_card \<Rightarrow> bool" where
  "usable_card c = (trim_space (lc_question c) \<noteq> [] \<and> trim_space (lc_answer c) \<noteq> [])"

text \<open>
  The loop over the candidates: \<open>dups\<close> says of each usable one whether an existing card asks it, \<open>seen\<close>
  are the questions of the cards made so far. \<open>fresh\<close> are the identifiers of new cards.
\<close>

fun save_candidates ::
    "int \<Rightarrow> string \<Rightarrow> nat \<Rightarrow> card_source list \<Rightarrow> (nat \<Rightarrow> string) \<Rightarrow> string list \<Rightarrow> nat \<Rightarrow> (llm_card \<times> bool) list \<Rightarrow> 'v kb_tables \<Rightarrow> nat \<times> 'v kb_tables" where
  "save_candidates now agent limit sources fresh seen n [] st = (n, st)"
| "save_candidates now agent limit sources fresh seen n ((c, dup) # cs) st =
     (if \<not> usable_card c then save_candidates now agent limit sources fresh seen n cs st
      else if limit \<le> n then (n, st)
      else if to_lower (trim_space (lc_question c)) \<in> set seen \<or> dup then save_candidates now agent limit sources fresh seen n cs st
      else
        (let src = clamp_source (lc_source c) sources in
         case save_card (fresh n) now agent (trim_space (lc_question c)) (trim_space (lc_answer c)) (sr_kind src) (sr_ref src) (clip (lc_excerpt c) 200) st of
           (None, st') \<Rightarrow> save_candidates now agent limit sources fresh seen n cs st'
         | (Some _, st') \<Rightarrow>
             save_candidates now agent limit sources fresh (to_lower (trim_space (lc_question c)) # seen) (Suc n) cs st'))"

fun mark_dups :: "llm_card list \<Rightarrow> bool list \<Rightarrow> (llm_card \<times> bool) list" where
  "mark_dups [] ds = []"
| "mark_dups (c # cs) ds =
     (if usable_card c then (case ds of [] \<Rightarrow> (c, False) # mark_dups cs [] | d # ds' \<Rightarrow> (c, d) # mark_dups cs ds')
      else (c, False) # mark_dups cs ds)"

record 'v card_env =
  ce_now :: int
  ce_fresh :: "nat \<Rightarrow> string"
  ce_diary :: string
  ce_cards :: "card_source list \<Rightarrow> nat \<Rightarrow> llm_card list option"
  ce_near :: "'v \<Rightarrow> 'v \<Rightarrow> bool"
  ce_embed :: "(string list \<Rightarrow> 'v list option) option"
  ce_model :: string

record 'v card_world =
  cw_wiki :: "'v wiki_tables"
  cw_runs :: "daily_run list"

text \<open>The date is one that \<^verbatim>\<open>time.Parse\<close> accepts.\<close>

definition run_cards :: "'v card_env \<Rightarrow> string \<Rightarrow> string \<Rightarrow> int \<Rightarrow> 'v card_world \<Rightarrow> nat option \<times> 'v card_world" where
  "run_cards env agent date limit w =
     (let limit = (if limit \<le> 0 then default_daily_limit else nat limit);
          st = cw_wiki w;
          sources = collect_material agent date (ce_diary env) st
      in if sources = [] then (Some 0, w\<lparr>cw_runs := stamp_card_gen_run agent date 0 (ce_model env) (cw_runs w)\<rparr>)
         else
           (case ce_cards env sources limit of
              None \<Rightarrow> (None, w)
            | Some cards \<Rightarrow>
                (let st1 = mark_pages_carded (ce_now env) agent (map sr_ref (List.filter (\<lambda>s. sr_kind s = ''wiki'') sources)) st;
                     qs = map (\<lambda>c. trim_space (lc_question c)) (List.filter usable_card cards);
                     ds = check_card_duplicates_batch (ce_near env) (ce_embed env) agent qs (wk_kb st1)
                 in case save_candidates (ce_now env) agent limit sources (ce_fresh env) [] 0 (mark_dups cards ds) (wk_kb st1) of
                      (n, kb) \<Rightarrow>
                        (Some n, w\<lparr>cw_wiki := st1\<lparr>wk_kb := kb\<rparr>, cw_runs := stamp_card_gen_run agent date n (ce_model env) (cw_runs w)\<rparr>))))"

section \<open>Laws\<close>

definition asked :: "string \<Rightarrow> 'v kb_tables \<Rightarrow> string set" where
  "asked agent st = {question_key (kc_question c) |c. c \<in> set (kb_cards st) \<and> kc_agent c = agent \<and> kc_status c \<noteq> ''archived''}"

text \<open>
  What the loop adds: at most the limit, each with a question of its own that was not asked before, and each
  from a source.
\<close>

definition added_cards :: "string \<Rightarrow> nat \<Rightarrow> card_source list \<Rightarrow> string set \<Rightarrow> kb_card list \<Rightarrow> bool" where
  "added_cards agent limit sources old cs =
     (length cs \<le> limit \<and> distinct (map (\<lambda>c. question_key (kc_question c)) cs)
      \<and> list_all (\<lambda>c. kc_agent c = agent \<and> kc_status c = ''active'' \<and> question_key (kc_question c) \<notin> old
                     \<and> list_ex (\<lambda>s. kc_source c = sr_kind s \<and> kc_ref c = sr_ref s) sources) cs)"

lemma clamp_in: "sources \<noteq> [] \<Longrightarrow> clamp_source i sources \<in> set sources"
  by (auto simp: clamp_source_def intro!: nth_mem)

lemma save_candidates_added:
  assumes "sources \<noteq> []" and "n \<le> limit"
    and "\<forall>(c, d)\<in>set cs. usable_card c \<and> \<not> d \<longrightarrow> to_lower (trim_space (lc_question c)) \<notin> old"
    and "save_candidates now agent limit sources fresh seen n cs st = (n', st')"
  shows "\<exists>new. kb_cards st' = kb_cards st @ new \<and> n' = n + length new \<and> added_cards agent (limit - n) sources (old \<union> set seen) new"
  using assms
proof (induction cs arbitrary: seen n st)
  case Nil
  then show ?case by (intro exI [of _ "[]"]) (simp add: added_cards_def)
next
  case (Cons x cs)
  obtain c d where x: "x = (c, d)" by (metis surj_pair)
  let ?q = "to_lower (trim_space (lc_question c))"
  consider "\<not> usable_card c" | "usable_card c" "limit \<le> n" | "usable_card c" "n < limit" "?q \<in> set seen \<or> d"
    | "usable_card c" "n < limit" "?q \<notin> set seen" "\<not> d" by fastforce
  then show ?case
  proof cases
    case 1
    then show ?thesis using Cons.IH [of n seen st] Cons.prems x by simp
  next
    case 2
    then show ?thesis using Cons.prems x by (intro exI [of _ "[]"]) (simp add: added_cards_def)
  next
    case 3
    then show ?thesis using Cons.IH [of n seen st] Cons.prems x by simp
  next
    case 4
    define src where "src = clamp_source (lc_source c) sources"
    define card where "card = new_card (fresh n) now agent (trim_space (lc_question c)) (trim_space (lc_answer c)) (sr_kind src) (sr_ref src) (clip (lc_excerpt c) 200)"
    define st1 where "st1 = st\<lparr>kb_cards := kb_cards st @ [card]\<rparr>"
    have key: "question_key (kc_question card) = ?q" by (simp add: card_def new_card_def question_key_def)
    have "save_card (fresh n) now agent (trim_space (lc_question c)) (trim_space (lc_answer c)) (sr_kind src) (sr_ref src) (clip (lc_excerpt c) 200) st
        = (Some (fresh n), st1)"
      using 4(1) by (simp add: save_card_def usable_card_def st1_def card_def Let_def)
    then have run: "save_candidates now agent limit sources fresh (?q # seen) (Suc n) cs st1 = (n', st')"
      using Cons.prems(4) 4 by (simp add: x Let_def flip: src_def)
    have "Suc n \<le> limit" using 4(2) by simp
    from Cons.IH [OF Cons.prems(1) this _ run] Cons.prems(3)
    obtain new where new: "kb_cards st' = kb_cards st1 @ new" "n' = Suc n + length new"
        "added_cards agent (limit - Suc n) sources (old \<union> set (?q # seen)) new" by auto
    have src: "src \<in> set sources" using clamp_in [OF Cons.prems(1)] by (simp add: src_def)
    have old: "?q \<notin> old" using Cons.prems(3) 4 x by auto
    have keys: "?q \<notin> set (map (\<lambda>c. question_key (kc_question c)) new)"
      using new(3) by (auto simp: added_cards_def list_all_iff)
    have "list_ex (\<lambda>s. kc_source card = sr_kind s \<and> kc_ref card = sr_ref s) sources"
      using src by (auto simp: list_ex_iff card_def new_card_def)
    moreover have "kc_agent card = agent" "kc_status card = ''active''" by (simp_all add: card_def new_card_def)
    moreover have "list_all (\<lambda>c. kc_agent c = agent \<and> kc_status c = ''active'' \<and> question_key (kc_question c) \<notin> old \<union> set seen
         \<and> list_ex (\<lambda>s. kc_source c = sr_kind s \<and> kc_ref c = sr_ref s) sources) new"
      using new(3) unfolding added_cards_def by (auto simp: list_all_iff)
    moreover have "length (card # new) \<le> limit - n"
    proof -
      have "length new \<le> limit - Suc n" using new(3) by (simp add: added_cards_def)
      then show ?thesis using 4(2) by simp
    qed
    moreover have "distinct (map (\<lambda>c. question_key (kc_question c)) (card # new))"
      using new(3) keys key by (simp add: added_cards_def)
    ultimately have "added_cards agent (limit - n) sources (old \<union> set seen) (card # new)"
      using old key 4(3) unfolding added_cards_def by simp
    then show ?thesis using new by (intro exI [of _ "card # new"]) (simp add: st1_def)
  qed
qed

lemma mark_dups_flags:
  "length ds = length (List.filter usable_card cs) \<Longrightarrow> (c, d) \<in> set (mark_dups cs ds) \<Longrightarrow> usable_card c \<Longrightarrow>
     (c, d) \<in> set (zip (List.filter usable_card cs) ds)"
proof (induction cs ds rule: mark_dups.induct)
  case (2 c' cs ds)
  then show ?case by (cases ds) (auto split: if_splits)
qed simp

lemma batch_length [simp]:
  "length (check_card_duplicates_batch near emb agent qs st) = length qs"
  by (simp add: check_card_duplicates_batch_def Let_def split: option.splits)

lemma batch_asked:
  assumes "i < length qs" and "trim_space (qs ! i) \<noteq> []" and "question_key (qs ! i) \<in> asked agent st"
  shows "check_card_duplicates_batch near emb agent qs st ! i"
proof -
  have "question_key (qs ! i) \<in> set (map (\<lambda>c. question_key (kc_question c)) (List.filter (\<lambda>c. kc_agent c = agent \<and> kc_status c \<noteq> ''archived'') (kb_cards st)))"
    using assms(3) by (auto simp: asked_def)
  then show ?thesis using assms(1,2)
    by (auto simp: check_card_duplicates_batch_def Let_def split: option.splits)
qed

text \<open>
  C32. The nightly generation adds new cards only: at most the daily limit of them, with distinct questions
  none of which is asked by a card of the agent that is not archived, each pinned to a piece of the material;
  nothing else changes in the table of cards.
\<close>
theorem generated_cards_are_new:
  assumes "run_cards env agent date limit w = (Some n, w')"
  shows "\<exists>new. kb_cards (wk_kb (cw_wiki w')) = kb_cards (wk_kb (cw_wiki w)) @ new \<and> n = length new
    \<and> added_cards agent (if limit \<le> 0 then default_daily_limit else nat limit)
        (collect_material agent date (ce_diary env) (cw_wiki w)) (asked agent (wk_kb (cw_wiki w))) new"
proof -
  define l where "l = (if limit \<le> 0 then default_daily_limit else nat limit)"
  define sources where "sources = collect_material agent date (ce_diary env) (cw_wiki w)"
  show ?thesis
  proof (cases "sources = []")
    case True
    then have "n = 0" "cw_wiki w' = cw_wiki w" using assms by (auto simp: run_cards_def Let_def simp flip: sources_def)
    then show ?thesis by (intro exI [of _ "[]"]) (simp add: added_cards_def)
  next
    case False
    then obtain cards where cards: "ce_cards env sources l = Some cards"
      using assms by (auto simp: run_cards_def Let_def simp flip: sources_def l_def split: option.splits)
    define st1 where "st1 = mark_pages_carded (ce_now env) agent (map sr_ref (List.filter (\<lambda>s. sr_kind s = ''wiki'') sources)) (cw_wiki w)"
    define ds where "ds = check_card_duplicates_batch (ce_near env) (ce_embed env) agent
       (map (\<lambda>c. trim_space (lc_question c)) (List.filter usable_card cards)) (wk_kb st1)"
    obtain n1 kb where run: "save_candidates (ce_now env) agent l sources (ce_fresh env) [] 0 (mark_dups cards ds) (wk_kb st1) = (n1, kb)"
      by (metis surj_pair)
    have w': "n1 = n" "cw_wiki w' = st1\<lparr>wk_kb := kb\<rparr>"
      using assms False cards run by (auto simp: run_cards_def Let_def simp flip: sources_def l_def st1_def ds_def)
    have kb: "wk_kb st1 = wk_kb (cw_wiki w)" by (simp add: st1_def mark_pages_carded_def)
    have len: "length ds = length (List.filter usable_card cards)" by (simp add: ds_def)
    have "to_lower (trim_space (lc_question c)) \<notin> asked agent (wk_kb st1)"
      if cd: "(c, d) \<in> set (mark_dups cards ds)" "usable_card c" "\<not> d" for c d
    proof
      assume a: "to_lower (trim_space (lc_question c)) \<in> asked agent (wk_kb st1)"
      obtain i where i: "i < length ds" "List.filter usable_card cards ! i = c" "ds ! i = d"
        using mark_dups_flags [OF len cd(1,2)] len by (auto simp: set_zip)
      have "ds ! i" unfolding ds_def
        by (rule batch_asked) (use i len a cd(2) in \<open>auto simp: question_key_def usable_card_def\<close>)
      then show False using i cd(3) by simp
    qed
    then have "\<forall>(c, d)\<in>set (mark_dups cards ds). usable_card c \<and> \<not> d \<longrightarrow> to_lower (trim_space (lc_question c)) \<notin> asked agent (wk_kb st1)"
      by blast
    from save_candidates_added [OF False le0 this run]
    obtain new where "kb_cards kb = kb_cards (wk_kb st1) @ new" "n1 = 0 + length new" "added_cards agent (l - 0) sources (asked agent (wk_kb st1) \<union> set []) new"
      by blast
    then show ?thesis using w' kb by (auto simp flip: sources_def l_def)
  qed
qed

definition one_card :: llm_card where
  "one_card = \<lparr>lc_question = ''q'', lc_answer = ''x'', lc_source = 7, lc_excerpt = []\<rparr>"

definition card_env_ex :: "unit card_env" where
  "card_env_ex = \<lparr>ce_now = 0, ce_fresh = (\<lambda>n. ''c'' @ nat_str n), ce_diary = ''day'', ce_cards = (\<lambda>_ _. Some [one_card, one_card]),
     ce_near = (\<lambda>_ _. False), ce_embed = None, ce_model = ''m''\<rparr>"

definition card_world_ex :: "unit card_world" where
  "card_world_ex = \<lparr>cw_wiki = \<lparr>wk_pages = [], wk_links = [], wk_vecs = [], wk_kb = no_cards\<rparr>, cw_runs = []\<rparr>"

lemma run_cards_some:
  "ce_cards env (collect_material agent date (ce_diary env) (cw_wiki w)) (if limit \<le> 0 then default_daily_limit else nat limit) = Some cards
     \<Longrightarrow> \<exists>n w'. run_cards env agent date limit w = (Some n, w')"
  by (simp add: run_cards_def Let_def split: prod.splits)

theorem generated_cards_are_new_witness:
  "\<exists>n w'. run_cards card_env_ex ''a'' ''2026-01-01'' 3 card_world_ex = (Some n, w')
     \<and> n = length (kb_cards (wk_kb (cw_wiki w'))) \<and> n \<le> 3
     \<and> distinct (map (\<lambda>c. question_key (kc_question c)) (kb_cards (wk_kb (cw_wiki w'))))"
proof -
  obtain n w' where r: "run_cards card_env_ex ''a'' ''2026-01-01'' 3 card_world_ex = (Some n, w')"
    using run_cards_some [of card_env_ex "''a''" "''2026-01-01''" card_world_ex 3 "[one_card, one_card]"] by (auto simp: card_env_ex_def)
  obtain new where "kb_cards (wk_kb (cw_wiki w')) = new" "n = length new" "added_cards ''a'' 3
      (collect_material ''a'' ''2026-01-01'' (ce_diary card_env_ex) (cw_wiki card_world_ex)) (asked ''a'' (wk_kb (cw_wiki card_world_ex))) new"
    using generated_cards_are_new [OF r] by (auto simp: card_world_ex_def no_cards_def)
  then show ?thesis using r by (simp add: added_cards_def)
qed

text \<open>A run leaves its mark, so that the sweep does not start it again; a failed one changes nothing.\<close>

lemma stamped: "has_daily_run ''kb_card_gen_runs'' agent date (stamp_card_gen_run agent date n m runs)"
proof (cases "list_ex (run_of ''kb_card_gen_runs'' agent date) runs")
  case True
  then obtain r where r: "r \<in> set runs" "run_of ''kb_card_gen_runs'' agent date r" by (auto simp: list_ex_iff)
  let ?g = "\<lambda>r. if run_of ''kb_card_gen_runs'' agent date r then r\<lparr>dr_count := n, dr_note := m\<rparr> else r"
  have "run_of ''kb_card_gen_runs'' agent date (?g r)" using r(2) by (simp add: run_of_def)
  then have "list_ex (run_of ''kb_card_gen_runs'' agent date) (map ?g runs)" using r(1) unfolding list_ex_iff set_map by blast
  with True show ?thesis
    by (simp add: has_daily_run_def stamp_card_gen_run_def stamp_daily_run_def daily_run_tables_def)
next
  case False
  then show ?thesis
    by (simp add: has_daily_run_def stamp_card_gen_run_def stamp_daily_run_def daily_run_tables_def run_of_def)
qed

lemma run_is_marked: "run_cards env agent date limit w = (Some n, w') \<Longrightarrow> has_daily_run ''kb_card_gen_runs'' agent date (cw_runs w')"
  by (auto simp: run_cards_def Let_def stamped split: if_splits option.splits prod.splits)

lemma failed_run_changes_nothing: "run_cards env agent date limit w = (None, w') \<Longrightarrow> w' = w"
  by (auto simp: run_cards_def Let_def split: if_splits option.splits prod.splits)

text \<open>The pages that were fed are not fed again, whatever came of them.\<close>

lemma run_cards_pages:
  assumes "run_cards env agent date limit w = (Some n, w')"
  shows "wk_pages (cw_wiki w') = wk_pages (mark_pages_carded (ce_now env) agent
     (map sr_ref (List.filter (\<lambda>s. sr_kind s = ''wiki'') (collect_material agent date (ce_diary env) (cw_wiki w)))) (cw_wiki w))"
proof -
  define l where "l = (if limit \<le> 0 then default_daily_limit else nat limit)"
  define sources where "sources = collect_material agent date (ce_diary env) (cw_wiki w)"
  show ?thesis
  proof (cases "sources = []")
    case True
    then have "cw_wiki w' = cw_wiki w" using assms by (auto simp: run_cards_def Let_def simp flip: sources_def)
    then show ?thesis using True by (simp add: mark_pages_carded_def flip: sources_def)
  next
    case False
    then obtain cards where cards: "ce_cards env sources l = Some cards"
      using assms by (auto simp: run_cards_def Let_def simp flip: sources_def l_def split: option.splits)
    then show ?thesis
      using assms False by (auto simp: run_cards_def Let_def simp flip: sources_def l_def split: prod.splits)
  qed
qed

lemma fed_pages_are_used:
  assumes "run_cards env agent date limit w = (Some n, w')" and "p \<in> set (list_uncarded_pages agent k (cw_wiki w'))"
    and "s \<in> set (collect_material agent date (ce_diary env) (cw_wiki w))" and "sr_kind s = ''wiki''"
  shows "wp_id p \<noteq> sr_ref s"
proof -
  define ids where "ids = map sr_ref (List.filter (\<lambda>s. sr_kind s = ''wiki'') (collect_material agent date (ce_diary env) (cw_wiki w)))"
  have s: "sr_ref s \<in> set ids" using assms(3,4) by (simp add: ids_def)
  have p: "p \<in> set (wk_pages (cw_wiki w'))" "wp_agent p = agent" "wp_carded p = None"
    using assms(2) by (auto simp: list_uncarded_pages_def dest!: in_set_takeD)
  have "wk_pages (cw_wiki w') = wk_pages (mark_pages_carded (ce_now env) agent ids (cw_wiki w))"
    using run_cards_pages [OF assms(1)] by (simp add: ids_def)
  moreover have "ids \<noteq> []" using s by auto
  ultimately have "wk_pages (cw_wiki w') =
      map (\<lambda>q. if wp_agent q = agent \<and> wp_id q \<in> set ids then q\<lparr>wp_carded := Some (ce_now env)\<rparr> else q) (wk_pages (cw_wiki w))"
    by (simp add: mark_pages_carded_def)
  from p(1) [unfolded this set_map]
  obtain q where q: "p = (if wp_agent q = agent \<and> wp_id q \<in> set ids then q\<lparr>wp_carded := Some (ce_now env)\<rparr> else q)"
    by (rule imageE)
  have "\<not> (wp_agent q = agent \<and> wp_id q \<in> set ids)"
  proof
    assume "wp_agent q = agent \<and> wp_id q \<in> set ids"
    then have "wp_carded p = Some (ce_now env)" unfolding q by simp
    then show False using p(3) by simp
  qed
  then have "p = q" using q by (simp only: if_False)
  then show ?thesis using \<open>\<not> (wp_agent q = agent \<and> wp_id q \<in> set ids)\<close> p(2) s by auto
qed

end
