(* ===== verification/Go_Runes.thy ===== *)
theory Go_Runes
  imports Go_Trim
begin

text \<open>
  Decoding and encoding of UTF-8 are inverse on code points, and a text can be decoded in pieces as long as
  no piece begins with a continuation byte; white space can be removed before or after cutting a text.
\<close>

definition scalar :: "nat \<Rightarrow> bool" where
  "scalar r = (r < 55296 \<or> 57344 \<le> r \<and> r < 1114112)"

lemma byte_char_of [simp]: "n < 256 \<Longrightarrow> byte (char_of n) = n"
  by simp

lemma byte_less: "byte c < 256"
proof -
  have "byte c = of_char (char_of (byte c) :: char)" by simp
  also have "\<dots> = byte c mod 256" by (simp only: of_char_of)
  finally show ?thesis by (metis mod_less_divisor zero_less_numeral)
qed

lemma encode_scalar:
  assumes "scalar r"
  shows "encode_rune r =
    (if r < 128 then [char_of r]
     else if r < 2048 then [char_of (192 + r div 64), char_of (128 + r mod 64)]
     else if r < 65536 then [char_of (224 + r div 4096), char_of (128 + r div 64 mod 64), char_of (128 + r mod 64)]
     else [char_of (240 + r div 262144), char_of (128 + r div 4096 mod 64), char_of (128 + r div 64 mod 64), char_of (128 + r mod 64)])"
proof -
  have "(if 55296 \<le> r \<and> r < 57344 \<or> 1114111 < r then rune_error else r) = r" using assms by (auto simp: scalar_def)
  then show ?thesis by (simp only: encode_rune_def Let_def)
qed

lemma encode_cases:
  assumes "scalar r"
  obtains "r < 128" "encode_rune r = [char_of r]"
  | a b where "r = 64 * a + b" "b < 64" "2 \<le> a" "a < 32" "encode_rune r = [char_of (192 + a), char_of (128 + b)]"
  | a b c where "r = 4096 * a + 64 * b + c" "a < 16" "b < 64" "c < 64" "a = 0 \<longrightarrow> 32 \<le> b" "a = 13 \<longrightarrow> b < 32"
      "encode_rune r = [char_of (224 + a), char_of (128 + b), char_of (128 + c)]"
  | a b c d where "r = 262144 * a + 4096 * b + 64 * c + d" "a < 5" "b < 64" "c < 64" "d < 64" "a = 0 \<longrightarrow> 16 \<le> b" "a = 4 \<longrightarrow> b < 16"
      "encode_rune r = [char_of (240 + a), char_of (128 + b), char_of (128 + c), char_of (128 + d)]"
proof -
  note r = encode_scalar [OF assms]
  consider "r < 128" | "128 \<le> r" "r < 2048" | "2048 \<le> r" "r < 65536" | "65536 \<le> r" by linarith
  then show thesis
  proof cases
    case 1
    then show ?thesis using that(1) by (simp add: r)
  next
    case 2
    have "r = 64 * (r div 64) + r mod 64" "r mod 64 < 64" by simp_all
    moreover have "2 \<le> r div 64" "r div 64 < 32" using 2 by auto
    moreover have "encode_rune r = [char_of (192 + r div 64), char_of (128 + r mod 64)]" using 2 by (simp add: r)
    ultimately show ?thesis by (rule that(2))
  next
    case 3
    let ?q = "r div 64"
    have q: "r = 64 * ?q + r mod 64" "r mod 64 < 64" by simp_all
    have s: "?q = 64 * (?q div 64) + ?q mod 64" "?q mod 64 < 64" by simp_all
    have d: "?q div 64 = r div 4096" by (simp add: div_mult2_eq [symmetric])
    have e: "r = 4096 * (?q div 64) + 64 * (?q mod 64) + r mod 64" using q s by linarith
    have "?q div 64 < 16" using 3 by auto
    moreover have "?q div 64 = 0 \<longrightarrow> 32 \<le> ?q mod 64" using 3 e q(2) by linarith
    moreover have "?q div 64 = 13 \<longrightarrow> ?q mod 64 < 32" using assms e q(2) unfolding scalar_def by linarith
    moreover have "encode_rune r = [char_of (224 + ?q div 64), char_of (128 + ?q mod 64), char_of (128 + r mod 64)]"
      using 3 by (simp add: r d)
    ultimately show ?thesis by (rule that(3) [OF e _ s(2) q(2)])
  next
    case 4
    let ?q = "r div 64" and ?t = "r div 64 div 64"
    have q: "r = 64 * ?q + r mod 64" "r mod 64 < 64" by simp_all
    have s: "?q = 64 * ?t + ?q mod 64" "?q mod 64 < 64" by simp_all
    have u: "?t = 64 * (?t div 64) + ?t mod 64" "?t mod 64 < 64" by simp_all
    have d: "?t = r div 4096" "?t div 64 = r div 262144" by (simp_all add: div_mult2_eq [symmetric])
    have e: "r = 262144 * (?t div 64) + 4096 * (?t mod 64) + 64 * (?q mod 64) + r mod 64" using q s u by linarith
    have lt: "r < 1114112" using assms 4 by (auto simp: scalar_def)
    have "?t div 64 < 5" using lt e by linarith
    moreover have "?t div 64 = 0 \<longrightarrow> 16 \<le> ?t mod 64" using 4 e q(2) s(2) by linarith
    moreover have "?t div 64 = 4 \<longrightarrow> ?t mod 64 < 16" using lt e by linarith
    moreover have "encode_rune r = [char_of (240 + ?t div 64), char_of (128 + ?t mod 64), char_of (128 + ?q mod 64), char_of (128 + r mod 64)]"
      using 4 lt by (simp add: r flip: d)
    ultimately show ?thesis by (rule that(4) [OF e _ u(2) s(2) q(2)])
  qed
qed

lemma decode_encode [simp]:
  assumes "scalar r"
  shows "decode_rune (encode_rune r @ t) = (r, length (encode_rune r))"
  using assms
proof (cases rule: encode_cases)
  case 1
  then show ?thesis by simp
next
  case (2 a b)
  then show ?thesis by (simp add: decode_rune_def second_ok_def)
next
  case (3 a b c)
  then show ?thesis by (auto simp: decode_rune_def second_ok_def cont_byte_def)
next
  case (4 a b c d)
  then show ?thesis by (auto simp: decode_rune_def second_ok_def cont_byte_def)
qed

lemma encode_not_Nil [simp]: "encode_rune r \<noteq> []"
  by (simp add: encode_rune_def Let_def)

lemma hd_encode: "scalar r \<Longrightarrow> \<not> cont_byte (hd (encode_rune r))"
  by (erule encode_cases) (simp_all add: cont_byte_def)

lemma scalar_error [simp]: "scalar rune_error"
  by (simp add: scalar_def rune_error_def)

lemma second_ok_cont: "second_ok a b \<Longrightarrow> 128 \<le> b \<and> b < 192"
  by (auto simp: second_ok_def split: if_splits)

lemma decode_scalar [simp]: "scalar (fst (decode_rune s))"
proof (cases s)
  case Nil
  then show ?thesis by (simp add: decode_rune_def)
next
  case (Cons a s1)
  show ?thesis
    using Cons byte_less [of a]
    by (auto simp: decode_rune_def cont_byte_def second_ok_def scalar_def rune_error_def split: list.splits if_splits)
qed

text \<open>A piece that does not begin with a continuation byte does not change what is decoded before it.\<close>

definition boundary :: "string \<Rightarrow> bool" where
  "boundary e = (e = [] \<or> \<not> cont_byte (hd e))"

lemma boundary_simps [simp]: "boundary []" "boundary (c # s) = (\<not> cont_byte c)"
  by (simp_all add: boundary_def)

lemma boundary_ascii: "byte c < 128 \<Longrightarrow> \<not> cont_byte c"
  by (simp add: cont_byte_def)

lemma boundary_encode [simp]: "scalar r \<Longrightarrow> boundary (encode_rune r @ t)"
  using hd_encode by (simp add: boundary_def)

lemma second_not_cont: "\<not> cont_byte b \<Longrightarrow> \<not> second_ok a (byte b)"
  using second_ok_cont by (auto simp: cont_byte_def)

lemma decode_rune_append:
  assumes "u \<noteq> []" and "boundary e"
  shows "decode_rune (u @ e) = decode_rune u"
proof (cases e)
  case (Cons c e')
  then have c: "\<not> cont_byte c" using assms(2) by simp
  obtain a u1 where u: "u = a # u1" using assms(1) by (cases u) auto
  show ?thesis
    using c second_not_cont [OF c]
    by (cases u1; cases "tl u1"; cases "tl (tl u1)") (auto simp: u Cons decode_rune_def)
qed simp

lemma runes_Nil [simp]: "runes [] = []"
  by (simp add: runes.simps)

lemma runes_step: "s \<noteq> [] \<Longrightarrow> runes s = fst (decode_rune s) # runes (drop (snd (decode_rune s)) s)"
  by (subst runes.simps) simp

lemma runes_append: "boundary e \<Longrightarrow> runes (u @ e) = runes u @ runes e"
proof (induction u rule: runes.induct)
  case (1 u)
  show ?case
  proof (cases "u = []")
    case False
    have w: "snd (decode_rune u) \<le> length u" using decode_rune_width [OF False] by simp
    have "runes (u @ e) = fst (decode_rune u) # runes (drop (snd (decode_rune u)) u @ e)"
      using False runes_step [of "u @ e"] decode_rune_append [OF False "1.prems"] w by simp
    then show ?thesis using "1.IH" [OF False "1.prems"] runes_step [OF False] by simp
  qed simp
qed

lemma runes_encode [simp]: "scalar r \<Longrightarrow> runes (encode_rune r @ t) = r # runes t"
  by (subst runes_step) simp_all

lemma runes_encode_one [simp]: "scalar r \<Longrightarrow> runes (encode_rune r) = [r]"
  using runes_encode [of r "[]"] by simp

lemma runes_ascii [simp]: "byte c < 128 \<Longrightarrow> runes (c # s) = byte c # runes s"
  by (subst runes_step) simp_all

section \<open>Text without white space\<close>

definition ink :: "string \<Rightarrow> nat list" where
  "ink s = List.filter (\<lambda>r. \<not> is_space r) (runes s)"

lemma ink_Nil [simp]: "ink [] = []"
  by (simp add: ink_def)

lemma ink_append: "boundary e \<Longrightarrow> ink (u @ e) = ink u @ ink e"
  by (simp add: ink_def runes_append)

lemma ink_space [simp]: "c \<in> {CHR '' '', CHR 0x0A} \<Longrightarrow> ink (c # s) = ink s"
  by (auto simp: ink_def is_space_def)

lemma ink_trim_left: "ink (trim_left s) = ink s"
proof (induction s rule: trim_left.induct)
  case (1 s)
  show ?case
  proof (cases "s \<noteq> [] \<and> is_space (fst (decode_rune s))")
    case True
    then have "trim_left s = trim_left (drop (snd (decode_rune s)) s)" by (subst trim_left.simps) simp
    moreover have "ink s = ink (drop (snd (decode_rune s)) s)" using True by (simp add: ink_def runes_step)
    ultimately show ?thesis using "1.IH" [OF True] by simp
  next
    case False
    then have "trim_left s = s" by (subst trim_left.simps) auto
    then show ?thesis by simp
  qed
qed

lemma decode_last_space:
  assumes "s \<noteq> []" and "is_space (fst (decode_last_rune s))"
  shows "ink s = ink (take (length s - snd (decode_last_rune s)) s)"
proof -
  let ?w = "snd (decode_last_rune s)" and ?r = "fst (decode_last_rune s)"
  define e where "e = drop (length s - ?w) s"
  have w: "1 \<le> ?w" "?w \<le> length s" using decode_last_rune_width [OF assms(1)] .
  have "boundary e \<and> runes e = [?r]"
  proof (cases "byte (last s) < 128")
    case True
    then have "?w = 1" "?r = byte (last s)" using assms(1) by (simp_all add: decode_last_rune_def)
    moreover have "drop (length s - 1) s = [last s]" using assms(1) by (cases s rule: rev_cases) simp_all
    ultimately show ?thesis using True by (simp add: e_def boundary_ascii)
  next
    case False
    define n where "n = length s"
    obtain k where k: "List.find (\<lambda>k. k \<le> n \<and> \<not> cont_byte (s ! (n - k))) [2, 3, 4] = Some k"
        and dk: "snd (decode_rune (drop (n - k) s)) = k" "decode_last_rune s = decode_rune (drop (n - k) s)"
      using assms False
      by (auto simp: decode_last_rune_def Let_def n_def split: option.splits if_splits)
    have kn: "k \<le> n" "\<not> cont_byte (s ! (n - k))" "0 < k" using k by (auto split: if_splits)
    have e: "e = drop (n - k) s" using dk by (simp add: e_def n_def)
    have ne: "e \<noteq> []" using kn assms(1) by (simp add: e n_def)
    have "hd e = s ! (n - k)" using kn ne by (simp add: e n_def hd_drop_conv_nth)
    then have "boundary e" using kn(2) ne by (simp add: boundary_def)
    moreover have "runes e = [?r]" using runes_step [OF ne] dk kn by (simp add: e n_def)
    ultimately show ?thesis by simp
  qed
  moreover have "s = take (length s - ?w) s @ e" by (simp add: e_def)
  ultimately have "ink s = ink (take (length s - ?w) s) @ ink e" using ink_append by metis
  moreover have "ink e = []" using \<open>boundary e \<and> runes e = [?r]\<close> assms(2) by (simp add: ink_def)
  ultimately show ?thesis by simp
qed

lemma ink_trim_right: "ink (trim_right s) = ink s"
proof (induction s rule: trim_right.induct)
  case (1 s)
  show ?case
  proof (cases "s \<noteq> [] \<and> is_space (fst (decode_last_rune s))")
    case True
    then have "trim_right s = trim_right (take (length s - snd (decode_last_rune s)) s)" by (subst trim_right.simps) simp
    then show ?thesis using "1.IH" [OF True] decode_last_space True by simp
  next
    case False
    then have "trim_right s = s" by (subst trim_right.simps) auto
    then show ?thesis by simp
  qed
qed

lemma ink_trim [simp]: "ink (trim_space s) = ink s"
  by (simp add: trim_space_def ink_trim_right ink_trim_left)

lemma trim_left_drop: "\<exists>n. trim_left s = drop n s"
proof (induction s rule: trim_left.induct)
  case (1 s)
  show ?case
  proof (cases "s \<noteq> [] \<and> is_space (fst (decode_rune s))")
    case True
    then have "trim_left s = trim_left (drop (snd (decode_rune s)) s)" by (subst trim_left.simps) simp
    moreover obtain n where "trim_left (drop (snd (decode_rune s)) s) = drop n (drop (snd (decode_rune s)) s)" using "1.IH" [OF True] by blast
    ultimately show ?thesis by (metis drop_drop)
  next
    case False
    then have "trim_left s = s" by (subst trim_left.simps) auto
    then show ?thesis by (intro exI [of _ 0]) simp
  qed
qed

lemma trim_space_not_Nil: "trim_space s \<noteq> [] \<Longrightarrow> ink s \<noteq> []"
proof -
  assume ne: "trim_space s \<noteq> []"
  let ?t = "trim_space s"
  have "trim_left ?t = ?t"
  proof -
    have "trim_space ?t = ?t" by simp
    then have "trim_right (trim_left ?t) = ?t" by (simp add: trim_space_def)
    moreover have "length (trim_right (trim_left ?t)) \<le> length (trim_left ?t)" using trim_right_split by (metis le_add1 length_append)
    moreover obtain n where "trim_left ?t = drop n ?t" using trim_left_drop by blast
    ultimately show ?thesis using ne by (cases n) (auto simp: not_less)
  qed
  then have "\<not> is_space (fst (decode_rune ?t))" using trim_left_stops [of ?t] ne by auto
  then have "ink ?t \<noteq> []" using runes_step [OF ne] by (simp add: ink_def)
  then show ?thesis by simp
qed

end
