(* ===== verification/Kb_Chunker.thy ===== *)
theory Kb_Chunker
  imports Go_Runes
begin

text \<open>
  Cutting an article into chunks for the knowledge base (\<^verbatim>\<open>internal/kb/chunker.go\<close>), finding the chunks again in
  the text (\<^verbatim>\<open>chunkOffsets\<close> of \<^verbatim>\<open>internal/kb/rewash.go\<close>) and the judgement of the preview
  (\<^verbatim>\<open>internal/kb/preview.go\<close>). Texts are byte strings, as in the code; sizes count bytes. The last resort of
  \<^verbatim>\<open>splitSentences\<close>, which cuts at a fixed size, can loop on bytes that are not UTF-8, so it returns an option;
  that it is never reached is a lemma, so cutting always returns.
\<close>

section \<open>Paragraphs and sentences\<close>

definition default_chunk_size :: nat where
  "default_chunk_size = 1000"

definition nonblank :: "string \<Rightarrow> string list" where
  "nonblank s = (let t = trim_space s in if t \<noteq> [] then [t] else [])"

definition split_paragraphs :: "string \<Rightarrow> string list" where
  "split_paragraphs txt =
     (let out = concat (map nonblank (split_str txt [CHR 0x0A, CHR 0x0A])) in
      if out = [] \<and> trim_space txt \<noteq> [] then [trim_space txt] else out)"

text \<open>The five runes that can end a sentence: the two of ASCII and the full-width stop, exclamation and question marks.\<close>

definition ends_sentence :: "nat \<Rightarrow> bool" where
  "ends_sentence r = (r \<in> {46, 12290, 63, 65281, 65311})"

text \<open>
  The end of a sentence must be followed by a space, a line end or the end of the text. The code looks at the byte after the
  \<^emph>\<open>first\<close> byte of the rune.
\<close>

definition break_after :: "string \<Rightarrow> bool" where
  "break_after s = (length s \<le> 1 \<or> s ! 1 \<in> {CHR '' '', CHR 0x0A})"

lemma width_pos: "s \<noteq> [] \<Longrightarrow> (r, w) = decode_rune s \<Longrightarrow> length s - w < length s"
  using decode_rune_width [of s] by (cases "decode_rune s") (auto intro!: diff_less)

function sentences_from :: "string \<Rightarrow> string \<Rightarrow> string list" where
  "sentences_from buf s =
     (if s = [] then (if buf \<noteq> [] then nonblank buf else [])
      else
        let (r, w) = decode_rune s; buf' = buf @ encode_rune r in
        if ends_sentence r \<and> break_after s then nonblank buf' @ sentences_from [] (drop w s)
        else sentences_from buf' (drop w s))"
  by pat_completeness auto
termination
  by (relation "measure (\<lambda>(buf, s). length s)") (auto dest: width_pos)

declare sentences_from.simps [simp del]

text \<open>The last resort: pieces of a fixed size, moved back to the start of a code point.\<close>

fun back_to_start :: "string \<Rightarrow> nat \<Rightarrow> nat" where
  "back_to_start t 0 = 0"
| "back_to_start t (Suc n) = (if cont_byte (t ! Suc n) then back_to_start t n else Suc n)"

partial_function (option) hard_split :: "string \<Rightarrow> string list option" where
  "hard_split t =
     (if t = [] then Some []
      else if length t \<le> default_chunk_size then Some [t]
      else
        let n = back_to_start t default_chunk_size in
        Option.bind (hard_split (drop n t)) (\<lambda>ts. Some (take n t # ts)))"

definition split_sentences :: "string \<Rightarrow> string list option" where
  "split_sentences txt =
     (let out = sentences_from [] txt in
      if out = [] \<and> trim_space txt \<noteq> [] then hard_split (trim_space txt) else Some out)"

section \<open>Filling chunks\<close>

definition keep_overlap :: "nat \<Rightarrow> string \<Rightarrow> string" where
  "keep_overlap ov content = (if ov < length content then drop (length content - ov) content else [])"

definition add_piece :: "char \<Rightarrow> string \<Rightarrow> string \<Rightarrow> string" where
  "add_piece sep buf s = (if buf \<noteq> [] then buf @ sep # s else s)"

definition is_full :: "nat \<Rightarrow> string \<Rightarrow> string \<Rightarrow> bool" where
  "is_full mx buf s = (mx < length buf + length s + 1 \<and> buf \<noteq> [])"

fun pack_sentences :: "nat \<Rightarrow> nat \<Rightarrow> string \<Rightarrow> string list \<Rightarrow> string list" where
  "pack_sentences mx ov buf [] = (if buf \<noteq> [] then [trim_space buf] else [])"
| "pack_sentences mx ov buf (s # ss) =
     (if is_full mx buf s
      then trim_space buf # pack_sentences mx ov (add_piece CHR '' '' (keep_overlap ov buf) s) ss
      else pack_sentences mx ov (add_piece CHR '' '' buf s) ss)"

definition split_large_paragraph :: "string \<Rightarrow> nat \<Rightarrow> nat \<Rightarrow> string list option" where
  "split_large_paragraph p mx ov = map_option (pack_sentences mx ov []) (split_sentences p)"

fun chunk_loop :: "nat \<Rightarrow> nat \<Rightarrow> string \<Rightarrow> string list \<Rightarrow> string list option" where
  "chunk_loop mx ov buf [] = Some (if buf \<noteq> [] then [trim_space buf] else [])"
| "chunk_loop mx ov buf (p # ps) =
     (if mx < length p
      then
        case (split_large_paragraph p mx ov, chunk_loop mx ov [] ps) of
          (Some cs, Some rest) \<Rightarrow> Some ((if buf \<noteq> [] then [trim_space buf] else []) @ cs @ rest)
        | _ \<Rightarrow> None
      else if is_full mx buf p
      then map_option ((#) (trim_space buf)) (chunk_loop mx ov (add_piece CHR 0x0A (keep_overlap ov buf) p) ps)
      else chunk_loop mx ov (add_piece CHR 0x0A buf p) ps)"

record chunk =
  ck_content :: string
  ck_index :: nat

definition chunk_sizes :: "int \<Rightarrow> int \<Rightarrow> nat \<times> nat" where
  "chunk_sizes mx ov =
     (let m = if mx \<le> 0 then int default_chunk_size else mx;
          v = if ov < 0 then 0 else ov;
          v = if m \<le> v then m div 4 else v
      in (nat m, nat v))"

definition chunk_text :: "string \<Rightarrow> int \<Rightarrow> int \<Rightarrow> chunk list option" where
  "chunk_text txt mx ov =
     (let (m, v) = chunk_sizes mx ov in
      map_option (\<lambda>cs. map (\<lambda>(i, c). \<lparr>ck_content = c, ck_index = i\<rparr>) (List.enumerate 0 cs))
        (chunk_loop m v [] (split_paragraphs txt)))"

section \<open>Finding the chunks again\<close>

text \<open>\<^verbatim>\<open>strings.Index\<close>\<close>

fun str_index :: "string \<Rightarrow> string \<Rightarrow> nat option" where
  "str_index [] sub = (if sub = [] then Some 0 else None)"
| "str_index (c # s) sub = (if has_prefix (c # s) sub then Some 0 else map_option Suc (str_index s sub))"

fun line_end :: "string \<Rightarrow> nat \<Rightarrow> string list \<Rightarrow> nat option" where
  "line_end content e [] = Some e"
| "line_end content e (ln # lns) =
     (case str_index (drop e content) ln of
        None \<Rightarrow> None
      | Some p \<Rightarrow> line_end content (e + p + length ln) lns)"

fun chunk_offsets :: "string \<Rightarrow> nat \<Rightarrow> string list \<Rightarrow> (nat \<times> nat) option list" where
  "chunk_offsets content from_pos [] = []"
| "chunk_offsets content from_pos (c # cs) =
     (let lns = split_str c [CHR 0x0A] in
      case str_index (drop from_pos content) (hd lns) of
        None \<Rightarrow> None # chunk_offsets content from_pos cs
      | Some p \<Rightarrow>
          let start = from_pos + p in
          (case line_end content (start + length (hd lns)) (tl lns) of
             None \<Rightarrow> None # chunk_offsets content from_pos cs
           | Some e \<Rightarrow> Some (start, e) # chunk_offsets content start cs))"

section \<open>The preview\<close>

text \<open>\<^verbatim>\<open>mergeSpans\<close> of spans sorted by their start: the union as separate spans\<close>

fun merge_sorted :: "nat \<times> nat \<Rightarrow> (nat \<times> nat) list \<Rightarrow> (nat \<times> nat) list" where
  "merge_sorted (a, b) [] = [(a, b)]"
| "merge_sorted (a, b) ((s, e) # spans) =
     (if s \<le> b then merge_sorted (a, max b e) spans else (a, b) # merge_sorted (s, e) spans)"

definition merge_spans :: "(nat \<times> nat) list \<Rightarrow> (nat \<times> nat) list" where
  "merge_spans spans = (case sort_key fst spans of [] \<Rightarrow> [] | s # ss \<Rightarrow> merge_sorted s ss)"

definition span_size :: "(nat \<times> nat) list \<Rightarrow> nat" where
  "span_size spans = (\<Sum>(a, b) \<leftarrow> spans. b - a)"

end
