(* ===== verification/Kb_Sources.thy ===== *)
theory Kb_Sources
  imports Complex_Main Kb_Chunker Cron_Tools "HOL-Library.AList" "HOL-Library.Char_ord" "HOL-Library.List_Lexorder"
begin

text \<open>
  The sources of the knowledge base: articles, flashes and todos with their chunks and vectors
  (\<^verbatim>\<open>internal/kb/store.go\<close>, \<^verbatim>\<open>store_types.go\<close>), the cleaning before the chunks are cut (\<^verbatim>\<open>govern.go\<close>),
  the merge of articles (\<^verbatim>\<open>store_merge.go\<close>), the new derivation of old chunks (\<^verbatim>\<open>rewash.go\<close>), the checks against
  duplicates and the parked articles (\<^verbatim>\<open>store_dedup.go\<close>), and the sweep of the reminders
  (\<^verbatim>\<open>internal/gateway/gateway_due_todo.go\<close>). Times are written into the tables as texts, as in the code, and compared as
  texts. Vectors are abstract; the embedding service, the similarity of two vectors and the answer of the model are
  arguments. The statements of the database succeed. The column \<^verbatim>\<open>kb_entries.uuid\<close>, which nothing reads, is left out.
\<close>

section \<open>Times as texts\<close>

definition two_digits :: "int \<Rightarrow> string" where
  "two_digits n = (if n < 10 then ''0'' else []) @ int_str n"

definition four_digits :: "int \<Rightarrow> string" where
  "four_digits n = (if n < 10 then ''000'' else if n < 100 then ''00'' else if n < 1000 then ''0'' else []) @ int_str n"

text \<open>\<^verbatim>\<open>t.UTC().Format(time.RFC3339)\<close> of a time in seconds.\<close>

definition rfc3339_utc :: "int \<Rightarrow> string" where
  "rfc3339_utc t =
     (case civil_from_days (t div 86400) of
        (y, m, d) \<Rightarrow>
          four_digits y @ ''-'' @ two_digits m @ ''-'' @ two_digits d @ ''T'' @ two_digits (t mod 86400 div 3600) @ '':''
            @ two_digits (t mod 3600 div 60) @ '':'' @ two_digits (t mod 60) @ ''Z'')"

section \<open>Cleaning\<close>

text \<open>The three rules for every text: invisible code points, blanks at the end of a line, runs of empty lines.\<close>

definition zero_width :: "nat list" where
  "zero_width = [8203, 8204, 8205, 65279]"

function strip_zero_width :: "string \<Rightarrow> string" where
  "strip_zero_width s =
     (if s = [] then []
      else
        let (r, w) = decode_rune s in
        (if r \<in> set zero_width then [] else take w s) @ strip_zero_width (drop w s))"
  by pat_completeness auto
termination
  by (relation "measure length") (auto dest: width_pos)

declare strip_zero_width.simps [simp del]

definition is_blank :: "char \<Rightarrow> bool" where
  "is_blank c = (c \<in> {CHR '' '', CHR 0x09})"

definition strip_trailing_blanks :: "string \<Rightarrow> string" where
  "strip_trailing_blanks s =
     join_str (map (\<lambda>l. rev (dropWhile is_blank (rev l))) (split_str s [CHR 0x0A])) [CHR 0x0A]"

fun collapse_blank_lines :: "nat \<Rightarrow> string \<Rightarrow> string" where
  "collapse_blank_lines k [] = []"
| "collapse_blank_lines k (c # s) =
     (if c = CHR 0x0A then (if k < 2 then c # collapse_blank_lines (Suc k) s else collapse_blank_lines k s)
      else c # collapse_blank_lines 0 s)"

text \<open>
  The rules for pages delete whole lines. A pattern is a list of gaps (at most so many code points) and of fixed words, given by
  their code points, one of which must occur.
\<close>

datatype line_item = Gap nat | OneOf "nat list list"

fun line_fits :: "line_item list \<Rightarrow> nat list \<Rightarrow> bool" where
  "line_fits [] r = (r = [])"
| "line_fits (Gap n # ps) r = list_ex (\<lambda>k. line_fits ps (drop k r)) [0..<Suc (min n (length r))]"
| "line_fits (OneOf ws # ps) r = list_ex (\<lambda>w. has_prefix r w \<and> line_fits ps (drop (length w) r)) ws"

definition ascii_word :: "string \<Rightarrow> nat list" where
  "ascii_word s = map byte s"

definition web_rules :: "line_item list list" where
  "web_rules =
     [[OneOf [[26412, 25991, 32422]], Gap 12, OneOf [[23383]], Gap 20, OneOf [[20998, 38047]], Gap 8],
      [Gap 6, OneOf [[38405, 35835, 21407, 25991]], Gap 10],
      [Gap 8, OneOf [[38271, 25353], [25195, 25551], [25195, 30721]], Gap 6, OneOf [[20108, 32500, 30721]], Gap 20],
      [Gap 10, OneOf [[20851, 27880]], Gap 12, OneOf [[20844, 20247, 21495], [35746, 38405, 21495]], Gap 10],
      [Gap 8, OneOf [[20998, 20139, 21040, 26379, 21451, 22280], [28857, 20987, 22312, 30475], [28857, 20010, 22312, 30475],
         [28857, 19979, 22312, 30475], [20998, 20139, 26379, 21451, 22280]], Gap 10],
      [Gap 4, OneOf [ascii_word ''This site uses cookies'', ascii_word ''We use cookies'',
         [26412, 32593, 31449, 20351, 29992] @ ascii_word '' Cookie'', [26412, 32593, 20351, 29992] @ ascii_word '' Cookie''], Gap 60]]"

fun delete_lines :: "(string \<Rightarrow> bool) \<Rightarrow> string list \<Rightarrow> string" where
  "delete_lines p [] = []"
| "delete_lines p [l] = (if p l then [] else l)"
| "delete_lines p (l # ls) = (if p l then [] else l @ [CHR 0x0A]) @ delete_lines p ls"

definition apply_line_rule :: "string \<Rightarrow> line_item list \<Rightarrow> string" where
  "apply_line_rule txt rule = delete_lines (\<lambda>l. line_fits rule (runes l)) (split_str txt [CHR 0x0A])"

definition govern_content :: "string \<Rightarrow> string \<Rightarrow> string" where
  "govern_content txt source_type =
     (let out = collapse_blank_lines 0 (strip_trailing_blanks (strip_zero_width txt)) in
      if source_type = ''url'' then foldl apply_line_rule out web_rules else out)"

section \<open>The tables\<close>

record kb_source =
  sr_id :: string
  sr_agent :: string
  sr_title :: string
  sr_source_type :: string
  sr_source_ref :: string
  sr_entry_count :: nat
  sr_total_chars :: nat
  sr_type :: string
  sr_status :: string
  sr_start_at :: string
  sr_end_at :: string
  sr_reminded_at :: string
  sr_session :: string
  sr_seqs :: "(int \<times> int) list"   \<comment> \<open>the ranges inside the JSON text\<close>
  sr_created :: string
  sr_updated :: string
  sr_wiki_generated :: "string option"
  sr_wiki_dirty :: "string option"
  sr_orig :: string
  sr_hash :: string

record kb_entry =
  en_id :: nat
  en_agent :: string
  en_source :: string
  en_index :: nat
  en_content :: string
  en_span :: "(nat \<times> nat) option"   \<comment> \<open>None is -1 in both columns\<close>

record kb_pending =
  pn_id :: string
  pn_agent :: string
  pn_type :: string
  pn_title :: string
  pn_content :: string
  pn_source_type :: string
  pn_source_ref :: string
  pn_session :: string
  pn_seqs :: "(int \<times> int) list"
  pn_candidate :: string
  pn_candidate_title :: string
  pn_similarity :: rat
  pn_created :: string
  pn_expires :: string

record 'v kb_store =
  kr_sources :: "kb_source list"
  kr_entries :: "kb_entry list"
  kr_next :: nat
  kr_vectors :: "(nat \<times> string \<times> 'v) list"
  kr_insights :: "(string \<times> string) list"   \<comment> \<open>source and agent\<close>
  kr_pending :: "kb_pending list"

record kb_origin =
  og_session :: string
  og_seq :: int

datatype kb_error = ENoContent | ENotFound | ENotArticle string | ENotFlash string | EBadStatus string | EModel | EEmptyAnswer | EDiverges

definition is_source :: "string \<Rightarrow> string \<Rightarrow> kb_source \<Rightarrow> bool" where
  "is_source agent sid s = (sr_id s = sid \<and> sr_agent s = agent)"

definition of_source :: "string \<Rightarrow> string \<Rightarrow> kb_entry \<Rightarrow> bool" where
  "of_source agent sid e = (en_source e = sid \<and> en_agent e = agent)"

definition change_sources :: "(kb_source \<Rightarrow> bool) \<Rightarrow> (kb_source \<Rightarrow> kb_source) \<Rightarrow> 'v kb_store \<Rightarrow> 'v kb_store" where
  "change_sources p f st = st\<lparr>kr_sources := map (\<lambda>s. if p s then f s else s) (kr_sources st)\<rparr>"

definition drop_entries :: "(kb_entry \<Rightarrow> bool) \<Rightarrow> 'v kb_store \<Rightarrow> 'v kb_store" where
  "drop_entries p st = st\<lparr>kr_entries := List.filter (\<lambda>e. \<not> p e) (kr_entries st)\<rparr>"

fun add_entries :: "string \<Rightarrow> string \<Rightarrow> nat \<Rightarrow> (string \<times> (nat \<times> nat) option) list \<Rightarrow> 'v kb_store \<Rightarrow> 'v kb_store" where
  "add_entries agent sid i [] st = st"
| "add_entries agent sid i ((c, sp) # cs) st =
     add_entries agent sid (Suc i) cs
       (st\<lparr>kr_entries := kr_entries st @ [\<lparr>en_id = kr_next st, en_agent = agent, en_source = sid, en_index = i, en_content = c, en_span = sp\<rparr>],
          kr_next := Suc (kr_next st)\<rparr>)"

definition encode_seq_ranges :: "int \<Rightarrow> (int \<times> int) list" where
  "encode_seq_ranges seq = (if seq \<le> 0 then [] else [(seq, seq)])"

definition new_source :: "string \<Rightarrow> string \<Rightarrow> kb_origin \<Rightarrow> string \<Rightarrow> string \<Rightarrow> string \<Rightarrow> string \<Rightarrow> nat \<Rightarrow> nat \<Rightarrow> kb_source" where
  "new_source sid now og agent title stype sref n chars =
     \<lparr>sr_id = sid, sr_agent = agent, sr_title = title, sr_source_type = stype, sr_source_ref = sref, sr_entry_count = n,
      sr_total_chars = chars, sr_type = ''article'', sr_status = [], sr_start_at = [], sr_end_at = [], sr_reminded_at = [],
      sr_session = og_session og, sr_seqs = encode_seq_ranges (og_seq og), sr_created = now, sr_updated = now,
      sr_wiki_generated = None, sr_wiki_dirty = None, sr_orig = [], sr_hash = []\<rparr>"

section \<open>Articles\<close>

text \<open>The chunks of a text with their spans.\<close>

definition cut_text :: "string \<Rightarrow> (string \<times> (nat \<times> nat) option) list option" where
  "cut_text txt =
     (case chunk_text txt 0 0 of None \<Rightarrow> None
      | Some cs \<Rightarrow> Some (zip (map ck_content cs) (chunk_offsets txt 0 (map ck_content cs))))"

definition ingest_text ::
    "string \<Rightarrow> string \<Rightarrow> string \<Rightarrow> kb_origin \<Rightarrow> string \<Rightarrow> string \<Rightarrow> string \<Rightarrow> string \<Rightarrow> string \<Rightarrow> 'v kb_store \<Rightarrow> (kb_error, string) res \<times> 'v kb_store" where
  "ingest_text sid now hash og agent title content stype sref st =
     (let cleaned = govern_content content stype in
      case cut_text cleaned of None \<Rightarrow> (Inl EDiverges, st)
      | Some cs \<Rightarrow>
          if cs = [] then (Inl ENoContent, st)
          else
            (Inr sid,
             add_entries agent sid 0 cs
               (st\<lparr>kr_sources := kr_sources st
                   @ [(new_source sid now og agent title stype sref (length cs) (length cleaned))\<lparr>sr_orig := content, sr_hash := hash\<rparr>]\<rparr>)))"

definition list_entries :: "string \<Rightarrow> string \<Rightarrow> int \<Rightarrow> int \<Rightarrow> 'v kb_store \<Rightarrow> kb_entry list" where
  "list_entries agent sid limit offset st =
     take (if limit \<le> 0 then 50 else nat limit)
       (drop (nat offset) (sort_key en_index (List.filter (of_source agent sid) (kr_entries st))))"

definition delete_source :: "string \<Rightarrow> string \<Rightarrow> 'v kb_store \<Rightarrow> kb_error option \<times> 'v kb_store" where
  "delete_source agent sid st =
     (let st1 = drop_entries (of_source agent sid) st;
          st2 = st1\<lparr>kr_insights := List.filter (\<lambda>(s, a). \<not> (s = sid \<and> a = agent)) (kr_insights st1)\<rparr>;
          st3 = st2\<lparr>kr_sources := List.filter (\<lambda>s. \<not> is_source agent sid s) (kr_sources st2)\<rparr>
      in (if list_ex (is_source agent sid) (kr_sources st2) then None else Some ENotFound, st3))"

definition mark_source_generated :: "string \<Rightarrow> string \<Rightarrow> 'v kb_store \<Rightarrow> 'v kb_store" where
  "mark_source_generated now sid = change_sources (\<lambda>s. sr_id s = sid) (\<lambda>s. s\<lparr>sr_wiki_generated := Some now\<rparr>)"

definition save_insights :: "string \<Rightarrow> string \<Rightarrow> 'v kb_store \<Rightarrow> 'v kb_store" where
  "save_insights agent sid st = st\<lparr>kr_insights := AList.update sid agent (kr_insights st)\<rparr>"

subsection \<open>Merging\<close>

definition clipped_note :: string where
  "clipped_note = [CHR 0x0A, CHR 0x0A] @ ''...('' @ concat (map encode_rune [24050, 25130, 26029]) @ '')''"

definition clip_for_merge :: "string \<Rightarrow> string" where
  "clip_for_merge s = (if length s \<le> 30000 then s else take 30000 s @ clipped_note)"

definition replace_article_content :: "string \<Rightarrow> string \<Rightarrow> string \<Rightarrow> string \<Rightarrow> 'v kb_store \<Rightarrow> kb_error option \<times> 'v kb_store" where
  "replace_article_content now agent sid content st =
     (case chunk_text content 0 0 of None \<Rightarrow> (Some EDiverges, st)
      | Some cs \<Rightarrow>
          if cs = [] then (Some ENoContent, st)
          else
            let old = map en_id (List.filter (of_source agent sid) (kr_entries st));
                st1 = st\<lparr>kr_vectors := List.filter (\<lambda>(i, v). i \<notin> set old) (kr_vectors st)\<rparr>;
                st2 = drop_entries (of_source agent sid) st1;
                st3 = add_entries agent sid 0 (map (\<lambda>c. (ck_content c, None)) cs) st2
            in (None,
                change_sources (\<lambda>s. sr_id s = sid)
                  (\<lambda>s. s\<lparr>sr_total_chars := length content, sr_entry_count := length cs, sr_updated := now\<rparr>) st3))"

definition merge_articles ::
    "(string \<Rightarrow> string \<Rightarrow> string option) option \<Rightarrow> string \<Rightarrow> string \<Rightarrow> string \<Rightarrow> string \<Rightarrow> 'v kb_store \<Rightarrow> (kb_error, string) res \<times> 'v kb_store" where
  "merge_articles invoker now agent sid content st =
     (case invoker of None \<Rightarrow> (Inl EModel, st)
      | Some ask \<Rightarrow>
          (case List.find (is_source agent sid) (kr_sources st) of None \<Rightarrow> (Inl ENotFound, st)
           | Some s \<Rightarrow>
               if sr_type s \<in> {''flash'', ''todo''} then (Inl (ENotArticle (sr_type s)), st)
               else
                 let old = clip_for_merge (join_str (map en_content (list_entries agent sid 10000 0 st)) [CHR 0x0A, CHR 0x0A]) in
                 (case ask old (clip_for_merge content) of None \<Rightarrow> (Inl EModel, st)
                  | Some answer \<Rightarrow>
                      let merged = trim_space answer in
                      if merged = [] then (Inl EEmptyAnswer, st)
                      else
                        (case replace_article_content now agent sid merged st of
                           (Some e, st1) \<Rightarrow> (Inl e, st1)
                         | (None, st1) \<Rightarrow>
                             (Inr merged,
                              change_sources (is_source agent sid) (\<lambda>s. s\<lparr>sr_wiki_dirty := Some now, sr_updated := now\<rparr>)
                                (st1\<lparr>kr_insights := List.filter (\<lambda>(s, a). \<not> (s = sid \<and> a = agent)) (kr_insights st1)\<rparr>))))))"

subsection \<open>Deriving the chunks anew\<close>

record rewash_report =
  rp_scanned :: nat
  rp_would_change :: nat
  rp_rewashed :: nat
  rp_fresh :: nat
  rp_empty :: nat
  rp_missing :: nat

definition rewash_one :: "string \<Rightarrow> string \<Rightarrow> string \<Rightarrow> string \<Rightarrow> string \<Rightarrow> (string \<times> (nat \<times> nat) option) list \<Rightarrow> 'v kb_store \<Rightarrow> 'v kb_store" where
  "rewash_one now hash agent sid governed cs st =
     change_sources (\<lambda>s. sr_id s = sid)
       (\<lambda>s. s\<lparr>sr_entry_count := length cs, sr_total_chars := length governed, sr_hash := hash, sr_wiki_dirty := Some now, sr_updated := now\<rparr>)
       (add_entries agent sid 0 cs (drop_entries (\<lambda>e. en_source e = sid) st))"

definition rewash_step ::
    "bool \<Rightarrow> string \<Rightarrow> string \<Rightarrow> string \<Rightarrow> kb_source \<Rightarrow> rewash_report \<times> 'v kb_store \<Rightarrow> rewash_report \<times> 'v kb_store" where
  "rewash_step apply_it now hash agent v acc =
     (let (rep0, st) = acc; rep = rep0\<lparr>rp_scanned := Suc (rp_scanned rep0)\<rparr> in
      if sr_orig v = [] then (rep\<lparr>rp_missing := Suc (rp_missing rep)\<rparr>, st)
      else if sr_hash v = hash then (rep\<lparr>rp_fresh := Suc (rp_fresh rep)\<rparr>, st)
      else
        let governed = govern_content (sr_orig v) (sr_source_type v) in
        (case cut_text governed of None \<Rightarrow> (rep, st)
         | Some cs \<Rightarrow>
             if cs = [] then (rep\<lparr>rp_empty := Suc (rp_empty rep)\<rparr>, st)
             else
               let rep1 = rep\<lparr>rp_would_change := Suc (rp_would_change rep)\<rparr> in
               if apply_it then (rep1\<lparr>rp_rewashed := Suc (rp_rewashed rep1)\<rparr>, rewash_one now hash agent (sr_id v) governed cs st)
               else (rep1, st)))"

definition rewash_sources :: "bool \<Rightarrow> string \<Rightarrow> string \<Rightarrow> string \<Rightarrow> 'v kb_store \<Rightarrow> rewash_report \<times> 'v kb_store" where
  "rewash_sources apply_it now hash agent st =
     foldl (\<lambda>acc v. rewash_step apply_it now hash agent v acc)
       (\<lparr>rp_scanned = 0, rp_would_change = 0, rp_rewashed = 0, rp_fresh = 0, rp_empty = 0, rp_missing = 0\<rparr>, st)
       (List.filter (\<lambda>s. sr_agent s = agent \<and> (sr_type s = ''article'' \<or> sr_type s = [])) (kr_sources st))"

section \<open>Vectors\<close>

definition save_entry_embedding :: "string \<Rightarrow> nat \<Rightarrow> 'v \<Rightarrow> 'v kb_store \<Rightarrow> 'v kb_store" where
  "save_entry_embedding agent i v st = st\<lparr>kr_vectors := AList.update i (agent, v) (kr_vectors st)\<rparr>"

definition save_vectors :: "string \<Rightarrow> kb_entry list \<Rightarrow> 'v list \<Rightarrow> 'v kb_store \<Rightarrow> 'v kb_store" where
  "save_vectors agent es vs st = foldl (\<lambda>s (e, v). save_entry_embedding agent (en_id e) v s) st (zip es vs)"

definition clear_entry_embeddings :: "string \<Rightarrow> 'v kb_store \<Rightarrow> 'v kb_store" where
  "clear_entry_embeddings agent st = st\<lparr>kr_vectors := List.filter (\<lambda>(i, a, v). a \<noteq> agent) (kr_vectors st)\<rparr>"

definition embed_source_entries :: "(string list \<Rightarrow> 'v list option) option \<Rightarrow> string \<Rightarrow> string \<Rightarrow> 'v kb_store \<Rightarrow> 'v kb_store" where
  "embed_source_entries emb agent sid st =
     (case emb of None \<Rightarrow> st
      | Some f \<Rightarrow>
          let es = list_entries agent sid 10000 0 st in
          if es = [] then st
          else (case f (map en_content es) of None \<Rightarrow> st
                | Some vs \<Rightarrow> if length vs \<noteq> length es then st else save_vectors agent es vs st))"

text \<open>The hourly pass over the entries without a vector, in batches of 64; a batch that fails is skipped.\<close>

definition embed_batch :: "(string list \<Rightarrow> 'v list option) \<Rightarrow> string \<Rightarrow> kb_entry list \<Rightarrow> nat \<times> nat \<times> 'v kb_store \<Rightarrow> nat \<times> nat \<times> 'v kb_store" where
  "embed_batch f agent batch acc =
     (let (done_n, failed_n, st) = acc in
      case f (map en_content batch) of
        None \<Rightarrow> (done_n, failed_n + length batch, st)
      | Some vs \<Rightarrow>
          if length vs \<noteq> length batch then (done_n, failed_n + length batch, st)
          else (done_n + length batch, failed_n, save_vectors agent batch vs st))"

function backfill_batches :: "(string list \<Rightarrow> 'v list option) \<Rightarrow> string \<Rightarrow> kb_entry list \<Rightarrow> nat \<times> nat \<times> 'v kb_store \<Rightarrow> nat \<times> nat \<times> 'v kb_store" where
  "backfill_batches f agent es acc =
     (if es = [] then acc else backfill_batches f agent (drop 64 es) (embed_batch f agent (take 64 es) acc))"
  by pat_completeness auto
termination
  by (relation "measure (\<lambda>(f, a, es, acc). length es)") auto

declare backfill_batches.simps [simp del]

definition backfill_entry_embeddings :: "(string list \<Rightarrow> 'v list option) option \<Rightarrow> string \<Rightarrow> 'v kb_store \<Rightarrow> (nat \<times> nat \<times> 'v kb_store) option" where
  "backfill_entry_embeddings emb agent st =
     (case emb of None \<Rightarrow> None
      | Some f \<Rightarrow>
          if agent = [] then None
          else
            Some (backfill_batches f agent
              (sort_key en_id (List.filter (\<lambda>e. en_agent e = agent \<and> map_of (kr_vectors st) (en_id e) = None) (kr_entries st)))
              (0, 0, st)))"

end
