(* ===== verification/Kb_Items.thy ===== *)
theory Kb_Items
  imports Kb_Sources
begin

text \<open>
  Flashes and todos (\<^verbatim>\<open>internal/kb/store_types.go\<close>), the checks against duplicates with the articles parked for the
  user (\<^verbatim>\<open>store_dedup.go\<close>), the tools and endpoints that use them (\<^verbatim>\<open>tools.go\<close>,
  \<^verbatim>\<open>internal/setup/handlers_kb.go\<close>) and the reminders (\<^verbatim>\<open>internal/gateway/gateway_due_todo.go\<close>).
  The embedding in the background after a write is the operation \<open>embed_source_entries\<close> of its own.
\<close>

section \<open>Single chunks\<close>

text \<open>\<^verbatim>\<open>clipUTF8\<close>: at most so many bytes, back to the first byte of a code point.\<close>

definition clip_utf8 :: "string \<Rightarrow> nat \<Rightarrow> string" where
  "clip_utf8 s n = (if length s \<le> n then s else take (back_to_start s n) s)"

definition ellipsis_rune :: string where
  "ellipsis_rune = encode_rune 8230"

definition clip_line :: "string \<Rightarrow> string" where
  "clip_line s = (if 50 < length s then clip_utf8 s 50 @ ellipsis_rune else s)"

definition derive_title :: "string \<Rightarrow> string" where
  "derive_title content =
     (case List.find (\<lambda>l. l \<noteq> []) (map trim_space (split_str content [CHR 0x0A])) of
        Some l \<Rightarrow> clip_line l
      | None \<Rightarrow> clip_line content)"

definition valid_todo_status :: "string \<Rightarrow> bool" where
  "valid_todo_status s = (s \<in> {''pending'', ''in_progress'', ''done'', ''cancelled''})"

definition save_single_chunk ::
    "string \<Rightarrow> string \<Rightarrow> kb_origin \<Rightarrow> string \<Rightarrow> string \<Rightarrow> string \<Rightarrow> string \<Rightarrow> string \<Rightarrow> string \<Rightarrow> string \<Rightarrow> 'v kb_store \<Rightarrow> 'v kb_store" where
  "save_single_chunk sid now og agent ty title content status start_at end_at st =
     add_entries agent sid 0 [(content, None)]
       (st\<lparr>kr_sources := kr_sources st
           @ [(new_source sid now og agent title ''text'' ''manual'' 1 (length content))
                \<lparr>sr_type := ty, sr_status := status, sr_start_at := start_at, sr_end_at := end_at\<rparr>]\<rparr>)"

definition save_flash :: "string \<Rightarrow> string \<Rightarrow> kb_origin \<Rightarrow> string \<Rightarrow> string \<Rightarrow> 'v kb_store \<Rightarrow> (kb_error, string) res \<times> 'v kb_store" where
  "save_flash sid now og agent content0 st =
     (let content = trim_space content0 in
      if content = [] then (Inl ENoContent, st)
      else (Inr sid, save_single_chunk sid now og agent ''flash'' (derive_title content) content [] [] [] st))"

definition rewrite_chunk :: "string \<Rightarrow> string \<Rightarrow> string \<Rightarrow> 'v kb_store \<Rightarrow> 'v kb_store" where
  "rewrite_chunk agent sid content st =
     st\<lparr>kr_entries := map (\<lambda>e. if of_source agent sid e \<and> en_index e = 0 then e\<lparr>en_content := content\<rparr> else e) (kr_entries st)\<rparr>"

definition update_flash :: "string \<Rightarrow> string \<Rightarrow> string \<Rightarrow> string \<Rightarrow> 'v kb_store \<Rightarrow> kb_error option \<times> 'v kb_store" where
  "update_flash now agent sid content0 st =
     (let content = trim_space content0 in
      if content = [] then (Some ENoContent, st)
      else
        (case List.find (is_source agent sid) (kr_sources st) of None \<Rightarrow> (Some ENotFound, st)
         | Some s \<Rightarrow>
             if sr_type s \<noteq> ''flash'' then (Some (ENotFlash (sr_type s)), st)
             else
               (None,
                change_sources (is_source agent sid)
                  (\<lambda>s. s\<lparr>sr_title := derive_title content, sr_total_chars := length content, sr_updated := now\<rparr>)
                  (rewrite_chunk agent sid content st))))"

section \<open>Todos\<close>

definition save_todo ::
    "string \<Rightarrow> string \<Rightarrow> kb_origin \<Rightarrow> string \<Rightarrow> string \<Rightarrow> string \<Rightarrow> string \<Rightarrow> string \<Rightarrow> 'v kb_store \<Rightarrow> (kb_error, string) res \<times> 'v kb_store" where
  "save_todo sid now og agent content0 status0 start_at end_at st =
     (let content = trim_space content0; status = (if status0 = [] then ''pending'' else status0) in
      if content = [] then (Inl ENoContent, st)
      else if \<not> valid_todo_status status then (Inl (EBadStatus status), st)
      else (Inr sid, save_single_chunk sid now og agent ''todo'' (derive_title content) content status start_at end_at st))"

definition is_todo :: "string \<Rightarrow> string \<Rightarrow> kb_source \<Rightarrow> bool" where
  "is_todo agent sid s = (is_source agent sid s \<and> sr_type s = ''todo'')"

definition set_todo :: "string \<Rightarrow> string \<Rightarrow> string \<Rightarrow> string \<Rightarrow> string \<Rightarrow> kb_source \<Rightarrow> kb_source" where
  "set_todo now content status start_at end_at s =
     (let s1 = (if content \<noteq> [] then s\<lparr>sr_title := derive_title content, sr_total_chars := length content\<rparr> else s);
          s2 = (if status \<noteq> [] then s1\<lparr>sr_status := status\<rparr> else s1);
          s3 = (if start_at \<noteq> [] then s2\<lparr>sr_start_at := start_at\<rparr> else s2);
          s4 = (if end_at \<noteq> [] then s3\<lparr>sr_end_at := end_at\<rparr> else s3)
      in s4\<lparr>sr_reminded_at := [], sr_updated := now\<rparr>)"

definition update_todo ::
    "string \<Rightarrow> string \<Rightarrow> string \<Rightarrow> string \<Rightarrow> string \<Rightarrow> string \<Rightarrow> string \<Rightarrow> 'v kb_store \<Rightarrow> kb_error option \<times> 'v kb_store" where
  "update_todo now agent sid content0 status start_at end_at st =
     (let content = trim_space content0 in
      if status \<noteq> [] \<and> \<not> valid_todo_status status then (Some (EBadStatus status), st)
      else if content = [] \<and> status = [] \<and> start_at = [] \<and> end_at = [] then (None, st)
      else if \<not> list_ex (is_todo agent sid) (kr_sources st) then (Some ENotFound, st)
      else
        let st1 = change_sources (is_todo agent sid) (set_todo now content status start_at end_at) st in
        (None, if content \<noteq> [] then rewrite_chunk agent sid content st1 else st1))"

definition active_status :: "string \<Rightarrow> bool" where
  "active_status s = (s \<in> {''pending'', ''in_progress''})"

definition status_filter :: "string \<Rightarrow> kb_source \<Rightarrow> bool" where
  "status_filter status s =
     (if status = ''active'' then active_status (sr_status s) else status = [] \<or> sr_status s = status)"

text \<open>The order by a text descending keeps the order of the rows among equal texts.\<close>

definition newest_first :: "kb_source list \<Rightarrow> kb_source list" where
  "newest_first ss = rev (sort_key sr_updated (rev ss))"

definition due_by :: "string \<Rightarrow> kb_source \<Rightarrow> bool" where
  "due_by horizon s = (sr_end_at s \<noteq> [] \<and> sr_end_at s \<le> horizon)"

definition list_todos :: "int \<Rightarrow> string \<Rightarrow> string \<Rightarrow> int \<Rightarrow> 'v kb_store \<Rightarrow> kb_source list" where
  "list_todos now agent status hours st =
     (let base = List.filter (\<lambda>s. sr_agent s = agent \<and> sr_type s = ''todo'' \<and> status_filter status s) (kr_sources st) in
      if 0 < hours then sort_key sr_end_at (List.filter (due_by (rfc3339_utc (now + hours * 3600))) base)
      else newest_first base)"

definition list_flashes :: "string \<Rightarrow> int \<Rightarrow> 'v kb_store \<Rightarrow> kb_source list" where
  "list_flashes agent limit st =
     take (if limit \<le> 0 then 20 else nat limit)
       (newest_first (List.filter (\<lambda>s. sr_agent s = agent \<and> sr_type s = ''flash'') (kr_sources st)))"

definition todo_is_due :: "string \<Rightarrow> string \<Rightarrow> kb_source \<Rightarrow> bool" where
  "todo_is_due horizon agent s =
     (sr_agent s = agent \<and> sr_type s = ''todo'' \<and> active_status (sr_status s) \<and> due_by horizon s \<and> sr_reminded_at s = [])"

definition list_due_todos :: "int \<Rightarrow> string \<Rightarrow> int \<Rightarrow> 'v kb_store \<Rightarrow> kb_source list" where
  "list_due_todos now agent hours st =
     (let w = (if hours \<le> 0 then 24 else hours) in
      sort_key sr_end_at (List.filter (todo_is_due (rfc3339_utc (now + w * 3600)) agent) (kr_sources st)))"

definition mark_todo_reminded :: "string \<Rightarrow> string \<Rightarrow> string \<Rightarrow> 'v kb_store \<Rightarrow> 'v kb_store" where
  "mark_todo_reminded now agent sid = change_sources (is_todo agent sid) (\<lambda>s. s\<lparr>sr_reminded_at := now\<rparr>)"

text \<open>One pass of the reminders for an agent; \<open>delivered\<close> tells which messages reach the user.\<close>

definition sweep_due_todos :: "int \<Rightarrow> (kb_source \<Rightarrow> bool) \<Rightarrow> string \<Rightarrow> int \<Rightarrow> 'v kb_store \<Rightarrow> 'v kb_store" where
  "sweep_due_todos now delivered agent hours st =
     foldl (\<lambda>s t. if delivered t then mark_todo_reminded (rfc3339_utc now) agent (sr_id t) s else s) st
       (list_due_todos now agent hours st)"

section \<open>Duplicates\<close>

definition seq_ranges_overlap :: "(int \<times> int) list \<Rightarrow> (int \<times> int) list \<Rightarrow> bool" where
  "seq_ranges_overlap a b = list_ex (\<lambda>(xl, xh). list_ex (\<lambda>(yl, yh). max xl yl \<le> min xh yh) b) a"

record similar_hit =
  sh_source :: string
  sh_title :: string
  sh_score :: rat

text \<open>The best score of every source, in the order of the rows.\<close>

fun best_scores :: "(string \<times> string \<times> rat) list \<Rightarrow> similar_hit list \<Rightarrow> similar_hit list" where
  "best_scores [] best = best"
| "best_scores ((sid, title, x) # rows) best =
     best_scores rows
       (case List.find (\<lambda>h. sh_source h = sid) best of
          None \<Rightarrow> best @ [\<lparr>sh_source = sid, sh_title = title, sh_score = x\<rparr>]
        | Some h \<Rightarrow>
            if sh_score h < x then map (\<lambda>g. if sh_source g = sid then g\<lparr>sh_score := x\<rparr> else g) best else best)"

text \<open>The similarity of two vectors; none when their dimensions differ.\<close>

type_synonym 'v similarity = "'v \<Rightarrow> 'v \<Rightarrow> rat option"

definition scored_rows :: "'v similarity \<Rightarrow> 'v \<Rightarrow> string \<Rightarrow> string \<Rightarrow> 'v kb_store \<Rightarrow> (string \<times> string \<times> rat) list" where
  "scored_rows sim q agent ty st =
     List.map_filter (\<lambda>x. x)
       [case sim q v of None \<Rightarrow> None | Some x \<Rightarrow> Some (en_source e, sr_title s, x).
        (i, a, v) \<leftarrow> kr_vectors st, a = agent, e \<leftarrow> kr_entries st, en_id e = i, s \<leftarrow> kr_sources st, sr_id s = en_source e \<and> sr_type s = ty]"

definition find_similar ::
    "(string list \<Rightarrow> 'v list option) option \<Rightarrow> 'v similarity \<Rightarrow> string \<Rightarrow> string \<Rightarrow> string \<Rightarrow> rat \<Rightarrow> int \<Rightarrow> 'v kb_store \<Rightarrow> similar_hit list" where
  "find_similar emb sim agent content ty thr limit st =
     (case emb of None \<Rightarrow> []
      | Some f \<Rightarrow>
          if thr \<le> 0 then []
          else
            (case f [content] of
               Some [q] \<Rightarrow>
                 take (if limit \<le> 0 then 5 else nat limit)
                   (List.filter (\<lambda>h. thr \<le> sh_score h) (sort_key (\<lambda>h. - sh_score h) (best_scores (scored_rows sim q agent ty st) [])))
             | _ \<Rightarrow> []))"

text \<open>The function words that the comparison of titles drops; the classes of letters and digits are those of \<^verbatim>\<open>unicode\<close>.\<close>

definition cjk_stop_runes :: "nat list" where
  "cjk_stop_runes =
     [30340, 20102, 26159, 22312, 21644, 19982, 21450, 25110, 25105, 20320, 20182, 22905, 23427, 20204, 19978,
      19979, 20013, 36825, 37027, 20010, 19968, 19981, 20063, 37117, 23601, 25226, 34987, 35753, 32473, 21040]"

definition normalize_title :: "(nat \<Rightarrow> bool) \<Rightarrow> string \<Rightarrow> string" where
  "normalize_title alnum s =
     concat (map encode_rune (List.filter (\<lambda>r. r \<notin> set cjk_stop_runes \<and> alnum r) (runes (to_lower (trim_space s)))))"

record dup_result =
  du_reason :: string
  du_source :: string
  du_title :: string
  du_score :: rat

record 'v kb_env =
  kx_embed :: "(string list \<Rightarrow> 'v list option) option"
  kx_sim :: "'v similarity"
  kx_alnum :: "nat \<Rightarrow> bool"
  kx_high :: rat
  kx_mid :: rat
  kx_flash :: rat

definition check_duplicate :: "'v kb_env \<Rightarrow> kb_origin \<Rightarrow> string \<Rightarrow> string \<Rightarrow> string \<Rightarrow> string \<Rightarrow> rat \<Rightarrow> 'v kb_store \<Rightarrow> dup_result option" where
  "check_duplicate ev og agent ty title content thr st =
     (let mine = List.filter (\<lambda>s. sr_agent s = agent \<and> sr_type s = ty) (kr_sources st);
          l1 = (if og_session og \<noteq> [] \<and> 0 < og_seq og
                then List.find (\<lambda>s. sr_session s = og_session og \<and> seq_ranges_overlap [(og_seq og, og_seq og)] (sr_seqs s)) mine
                else None)
      in
      case l1 of Some s \<Rightarrow> Some \<lparr>du_reason = ''l1-origin'', du_source = sr_id s, du_title = sr_title s, du_score = 0\<rparr>
      | None \<Rightarrow>
          (case (if 0 < thr then find_similar (kx_embed ev) (kx_sim ev) agent content ty thr 1 st else []) of
             h # hs \<Rightarrow> Some \<lparr>du_reason = ''l2-vector'', du_source = sh_source h, du_title = sh_title h, du_score = sh_score h\<rparr>
           | [] \<Rightarrow>
               let key = normalize_title (kx_alnum ev) title in
               if key = [] then None
               else
                 (case List.find (\<lambda>s. normalize_title (kx_alnum ev) (sr_title s) = key) mine of
                    Some s \<Rightarrow> Some \<lparr>du_reason = ''l3-title'', du_source = sr_id s, du_title = sr_title s, du_score = 0\<rparr>
                  | None \<Rightarrow> None)))"

text \<open>\<^verbatim>\<open>SourceIDByRef\<close>: the newest source with a reference.\<close>

definition source_by_ref :: "string \<Rightarrow> string \<Rightarrow> 'v kb_store \<Rightarrow> (string \<times> string) option" where
  "source_by_ref agent ref st =
     (case rev (sort_key sr_created (rev (List.filter (\<lambda>s. sr_agent s = agent \<and> sr_source_ref s = ref) (kr_sources st)))) of
        [] \<Rightarrow> None | s # ss \<Rightarrow> Some (sr_id s, sr_title s))"

section \<open>Parked articles\<close>

definition create_pending ::
    "string \<Rightarrow> int \<Rightarrow> kb_origin \<Rightarrow> string \<Rightarrow> string \<Rightarrow> string \<Rightarrow> string \<Rightarrow> string \<Rightarrow> string \<Rightarrow> dup_result \<Rightarrow> 'v kb_store \<Rightarrow> 'v kb_store" where
  "create_pending pid now og agent ty title content stype sref dup st =
     st\<lparr>kr_pending := kr_pending st
         @ [\<lparr>pn_id = pid, pn_agent = agent, pn_type = ty, pn_title = title, pn_content = content, pn_source_type = stype, pn_source_ref = sref,
             pn_session = og_session og, pn_seqs = encode_seq_ranges (og_seq og), pn_candidate = du_source dup,
             pn_candidate_title = du_title dup, pn_similarity = du_score dup,
             pn_created = rfc3339_utc now, pn_expires = rfc3339_utc (now + 86400)\<rparr>]\<rparr>"

definition is_pending :: "string \<Rightarrow> string \<Rightarrow> kb_pending \<Rightarrow> bool" where
  "is_pending pid agent p = (pn_id p = pid \<and> pn_agent p = agent)"

definition get_pending :: "string \<Rightarrow> string \<Rightarrow> 'v kb_store \<Rightarrow> kb_pending option" where
  "get_pending pid agent st = List.find (is_pending pid agent) (kr_pending st)"

definition delete_pending :: "string \<Rightarrow> string \<Rightarrow> 'v kb_store \<Rightarrow> 'v kb_store" where
  "delete_pending pid agent st = st\<lparr>kr_pending := List.filter (\<lambda>p. \<not> is_pending pid agent p) (kr_pending st)\<rparr>"

definition prune_expired_pending :: "int \<Rightarrow> 'v kb_store \<Rightarrow> nat \<times> 'v kb_store" where
  "prune_expired_pending now st =
     (let gone = (\<lambda>p. pn_expires p < rfc3339_utc now) in
      (length (List.filter gone (kr_pending st)), st\<lparr>kr_pending := List.filter (\<lambda>p. \<not> gone p) (kr_pending st)\<rparr>))"

definition list_parked :: "int \<Rightarrow> string \<Rightarrow> 'v kb_store \<Rightarrow> kb_pending list" where
  "list_parked now agent st =
     sort_key pn_created (List.filter (\<lambda>p. pn_agent p = agent \<and> rfc3339_utc now \<le> pn_expires p) (kr_pending st))"

datatype resolve_reply = RSkipped | RCreated string | RMerged string | RGone | RUnknownAction | RFailed kb_error

text \<open>The endpoint works outside a turn, so its writes carry no origin.\<close>

definition no_origin :: kb_origin where
  "no_origin = \<lparr>og_session = [], og_seq = 0\<rparr>"

definition resolve_pending ::
    "(string \<Rightarrow> string \<Rightarrow> string option) option \<Rightarrow> string \<Rightarrow> int \<Rightarrow> string \<Rightarrow> string \<Rightarrow> string \<Rightarrow> string \<Rightarrow> 'v kb_store \<Rightarrow> resolve_reply \<times> 'v kb_store" where
  "resolve_pending invoker sid now hash agent pid action st =
     (case get_pending pid agent st of None \<Rightarrow> (RGone, st)
      | Some p \<Rightarrow>
          if action = ''skip'' then (RSkipped, delete_pending pid agent st)
          else if action = ''create'' then
            (case ingest_text sid (rfc3339_utc now) hash no_origin agent (pn_title p) (pn_content p) (pn_source_type p) (pn_source_ref p) st of
               (Inl e, st1) \<Rightarrow> (RFailed e, st1)
             | (Inr s, st1) \<Rightarrow> (RCreated s, delete_pending pid agent st1))
          else if action = ''merge'' then
            (case merge_articles invoker (rfc3339_utc now) agent (pn_candidate p) (pn_content p) st of
               (Inl e, st1) \<Rightarrow> (RFailed e, st1)
             | (Inr m, st1) \<Rightarrow> (RMerged (pn_candidate p), delete_pending pid agent st1))
          else (RUnknownAction, st))"

section \<open>The tools\<close>

datatype add_reply = AAdded string | APending string | ADuplicate dup_result | AKnownUrl string | AFailed kb_error

definition add_article ::
    "'v kb_env \<Rightarrow> string \<Rightarrow> string \<Rightarrow> int \<Rightarrow> string \<Rightarrow> kb_origin \<Rightarrow> string \<Rightarrow> string \<Rightarrow> string \<Rightarrow> string \<Rightarrow> string \<Rightarrow> 'v kb_store \<Rightarrow> add_reply \<times> 'v kb_store" where
  "add_article ev sid pid now hash og agent title content stype sref st =
     (case check_duplicate ev og agent ''article'' title content (kx_mid ev) st of
        Some dup \<Rightarrow>
          if du_reason dup = ''l2-vector'' \<and> du_score dup < kx_high ev
          then (APending pid, create_pending pid now og agent ''article'' title content stype sref dup st)
          else (ADuplicate dup, st)
      | None \<Rightarrow>
          (case ingest_text sid (rfc3339_utc now) hash og agent title content stype sref st of
             (Inl e, st1) \<Rightarrow> (AFailed e, st1) | (Inr s, st1) \<Rightarrow> (AAdded s, st1)))"

definition tool_add ::
    "'v kb_env \<Rightarrow> string \<Rightarrow> string \<Rightarrow> int \<Rightarrow> string \<Rightarrow> kb_origin \<Rightarrow> string \<Rightarrow> string \<Rightarrow> string \<Rightarrow> 'v kb_store \<Rightarrow> add_reply \<times> 'v kb_store" where
  "tool_add ev sid pid now hash og agent title content st =
     (if content = [] then (AFailed ENoContent, st)
      else add_article ev sid pid now hash og agent (if title = [] then ''Untitled'' else title) content ''text'' ''manual'' st)"

text \<open>The page behind the address, its title and its text, is an argument.\<close>

definition tool_ingest_url ::
    "'v kb_env \<Rightarrow> string \<Rightarrow> string \<Rightarrow> int \<Rightarrow> string \<Rightarrow> kb_origin \<Rightarrow> string \<Rightarrow> string \<Rightarrow> string \<Rightarrow> string \<Rightarrow> string \<Rightarrow> 'v kb_store \<Rightarrow> add_reply \<times> 'v kb_store" where
  "tool_ingest_url ev sid pid now hash og agent url page_title page_text title st =
     (case source_by_ref agent url st of
        Some (s, t) \<Rightarrow> (AKnownUrl s, st)
      | None \<Rightarrow> add_article ev sid pid now hash og agent (if title = [] then page_title else title) page_text ''url'' url st)"

definition tool_save_flash ::
    "'v kb_env \<Rightarrow> string \<Rightarrow> string \<Rightarrow> kb_origin \<Rightarrow> string \<Rightarrow> string \<Rightarrow> string \<Rightarrow> 'v kb_store \<Rightarrow> add_reply \<times> 'v kb_store" where
  "tool_save_flash ev sid now og agent content target st =
     (if content = [] then (AFailed ENoContent, st)
      else if target = [] then
        (case check_duplicate ev og agent ''flash'' (derive_title content) content (kx_flash ev) st of
           Some dup \<Rightarrow> (ADuplicate dup, st)
         | None \<Rightarrow>
             (case save_flash sid now og agent content st of
                (Inl e, st1) \<Rightarrow> (AFailed e, st1) | (Inr s, st1) \<Rightarrow> (AAdded s, st1)))
      else
        (case update_flash now agent target content st of
           (Some e, st1) \<Rightarrow> (AFailed e, st1) | (None, st1) \<Rightarrow> (AAdded target, st1)))"

end
