(* ===== verification/Kb_Source_Laws.thy ===== *)
theory Kb_Source_Laws
  imports Kb_Items
begin

text \<open>
  Laws of the sources of the knowledge base: the tables stay consistent under every operation, a merge is lost at the next
  derivation of the chunks, one message gives at most one new flash, a reminder is repeated until it is delivered and then
  stops, and an edited chunk can keep its old vector.
\<close>

section \<open>Consistent tables\<close>

text \<open>
  Sources and entries have distinct keys; every entry belongs to a source of its agent; and the entries of a source are
  numbered from zero, as many as the source counts.
\<close>

definition rows_of_source :: "string \<Rightarrow> kb_entry list \<Rightarrow> kb_entry list" where
  "rows_of_source sid es = List.filter (\<lambda>e. en_source e = sid) es"

definition kb_ok :: "kb_source list \<Rightarrow> kb_entry list \<Rightarrow> nat \<Rightarrow> bool" where
  "kb_ok ss es n =
     (distinct (map sr_id ss) \<and> distinct (map en_id es) \<and> (\<forall>e\<in>set es. en_id e < n)
      \<and> (\<forall>e\<in>set es. \<exists>s\<in>set ss. en_source e = sr_id s \<and> en_agent e = sr_agent s)
      \<and> (\<forall>s\<in>set ss. map en_index (rows_of_source (sr_id s) es) = [0..<sr_entry_count s] \<and> 0 < sr_entry_count s))"

definition kb_wf :: "'v kb_store \<Rightarrow> bool" where
  "kb_wf st = kb_ok (kr_sources st) (kr_entries st) (kr_next st)"

fun fresh_entries :: "string \<Rightarrow> string \<Rightarrow> nat \<Rightarrow> nat \<Rightarrow> (string \<times> (nat \<times> nat) option) list \<Rightarrow> kb_entry list" where
  "fresh_entries agent sid i n [] = []"
| "fresh_entries agent sid i n ((c, sp) # cs) =
     \<lparr>en_id = n, en_agent = agent, en_source = sid, en_index = i, en_content = c, en_span = sp\<rparr>
       # fresh_entries agent sid (Suc i) (Suc n) cs"

lemma add_entries_eq:
  "add_entries agent sid i cs st =
     st\<lparr>kr_entries := kr_entries st @ fresh_entries agent sid i (kr_next st) cs, kr_next := kr_next st + length cs\<rparr>"
  by (induction agent sid i cs st rule: add_entries.induct) simp_all

lemma fresh_facts:
  "map en_index (fresh_entries agent sid i n cs) = [i..<i + length cs]"
  "map en_id (fresh_entries agent sid i n cs) = [n..<n + length cs]"
  "map en_content (fresh_entries agent sid i n cs) = map fst cs"
  by (induction agent sid i n cs rule: fresh_entries.induct) (simp_all add: upt_conv_Cons del: upt_Suc)

lemma fresh_mem: "e \<in> set (fresh_entries agent sid i n cs) \<Longrightarrow> en_source e = sid \<and> en_agent e = agent \<and> n \<le> en_id e \<and> en_id e < n + length cs"
  by (induction cs arbitrary: i n) force+

lemma rows_of_fresh:
  "rows_of_source sid (fresh_entries agent sid i n cs) = fresh_entries agent sid i n cs"
  "t \<noteq> sid \<Longrightarrow> rows_of_source t (fresh_entries agent sid i n cs) = []"
  using fresh_mem [of _ agent sid i n cs] by (force simp: rows_of_source_def filter_id_conv filter_empty_conv)+

lemma rows_of_append [simp]: "rows_of_source t (xs @ ys) = rows_of_source t xs @ rows_of_source t ys"
  by (simp add: rows_of_source_def)

lemma distinct_fresh:
  assumes "distinct (map en_id es)" and "\<forall>e\<in>set es. en_id e < n"
  shows "distinct (map en_id (es @ fresh_entries agent sid i n cs))"
proof -
  have "set (map en_id es) \<inter> {n..<n + length cs} = {}" using assms(2) by auto
  then show ?thesis using assms(1) by (simp only: map_append fresh_facts(2) distinct_append set_upt) simp
qed

lemma ok_add_source:
  assumes "kb_ok ss es n" and "sr_id s \<notin> sr_id ` set ss" and "sr_entry_count s = length cs" and "cs \<noteq> []"
  shows "kb_ok (ss @ [s]) (es @ fresh_entries (sr_agent s) (sr_id s) 0 n cs) (n + length cs)"
proof -
  let ?f = "fresh_entries (sr_agent s) (sr_id s) 0 n cs"
  have old: "distinct (map sr_id ss)" "distinct (map en_id es)" "\<forall>e\<in>set es. en_id e < n"
    "\<forall>e\<in>set es. \<exists>s\<in>set ss. en_source e = sr_id s \<and> en_agent e = sr_agent s"
    "\<forall>s\<in>set ss. map en_index (rows_of_source (sr_id s) es) = [0..<sr_entry_count s] \<and> 0 < sr_entry_count s"
    using assms(1) by (simp_all add: kb_ok_def)
  have none: "rows_of_source (sr_id s) es = []"
    unfolding rows_of_source_def filter_empty_conv using old(4) assms(2) by (metis image_eqI)
  have other: "rows_of_source (sr_id t) ?f = []" if "t \<in> set ss" for t
    using that assms(2) by (intro rows_of_fresh(2)) (metis image_eqI)
  have "\<forall>e\<in>set (es @ ?f). \<exists>t\<in>set (ss @ [s]). en_source e = sr_id t \<and> en_agent e = sr_agent t"
    using old(4) fresh_mem by fastforce
  moreover have "\<forall>e\<in>set (es @ ?f). en_id e < n + length cs" using old(3) fresh_mem by fastforce
  moreover have "\<forall>t\<in>set (ss @ [s]). map en_index (rows_of_source (sr_id t) (es @ ?f)) = [0..<sr_entry_count t] \<and> 0 < sr_entry_count t"
    using old(5) none other assms(3,4) by (auto simp: rows_of_fresh fresh_facts(1))
  ultimately show ?thesis using old(1) assms(2) distinct_fresh [OF old(2,3)] by (simp add: kb_ok_def)
qed

lemma ok_replace:
  assumes "kb_ok ss es n" and "s \<in> set ss" and "cs \<noteq> []"
    and f: "\<And>t. sr_id (f t) = sr_id t \<and> sr_agent (f t) = sr_agent t \<and> sr_entry_count (f t) = length cs"
  shows "kb_ok (map (\<lambda>t. if sr_id t = sr_id s then f t else t) ss)
    (List.filter (\<lambda>e. en_source e \<noteq> sr_id s) es @ fresh_entries (sr_agent s) (sr_id s) 0 n cs) (n + length cs)"
proof -
  let ?f = "fresh_entries (sr_agent s) (sr_id s) 0 n cs" and ?es = "List.filter (\<lambda>e. en_source e \<noteq> sr_id s) es"
  let ?g = "\<lambda>t. if sr_id t = sr_id s then f t else t"
  have old: "distinct (map sr_id ss)" "distinct (map en_id es)" "\<forall>e\<in>set es. en_id e < n"
    "\<forall>e\<in>set es. \<exists>s\<in>set ss. en_source e = sr_id s \<and> en_agent e = sr_agent s"
    "\<forall>s\<in>set ss. map en_index (rows_of_source (sr_id s) es) = [0..<sr_entry_count s] \<and> 0 < sr_entry_count s"
    using assms(1) by (simp_all add: kb_ok_def)
  have g: "sr_id (?g t) = sr_id t" "sr_agent (?g t) = sr_agent t" for t using f by simp_all
  have ids: "map sr_id (map ?g ss) = map sr_id ss" using f by simp
  have own: "\<exists>t\<in>set (map ?g ss). en_source e = sr_id t \<and> en_agent e = sr_agent t" if e: "e \<in> set (?es @ ?f)" for e
  proof -
    have "\<exists>t\<in>set ss. en_source e = sr_id t \<and> en_agent e = sr_agent t"
      using e old(4) assms(2) fresh_mem by fastforce
    then obtain t where "t \<in> set ss" "en_source e = sr_id t" "en_agent e = sr_agent t" by blast
    then show ?thesis using g by (intro bexI [of _ "?g t"]) simp_all
  qed
  have dist: "distinct (map en_id (?es @ ?f))"
    by (rule distinct_fresh) (use old(2,3) in \<open>auto simp: distinct_map inj_on_def\<close>)
  have lt: "\<forall>e\<in>set (?es @ ?f). en_id e < n + length cs" using old(3) fresh_mem by fastforce
  have cnt: "map en_index (rows_of_source (sr_id u) (?es @ ?f)) = [0..<sr_entry_count u] \<and> 0 < sr_entry_count u" if u: "u \<in> set (map ?g ss)" for u
  proof -
    from u have "u \<in> ?g ` set ss" unfolding set_map .
    then obtain t where t: "u = ?g t" "t \<in> set ss" by (rule imageE)
    show ?thesis
    proof (cases "sr_id t = sr_id s")
      case True
      then have "rows_of_source (sr_id u) ?es = []" using t f by (auto simp: rows_of_source_def filter_empty_conv)
      then show ?thesis using True t f assms(3) by (simp add: rows_of_fresh fresh_facts(1))
    next
      case False
      then have "rows_of_source (sr_id t) ?es = rows_of_source (sr_id t) es" by (auto simp: rows_of_source_def intro!: filter_cong)
      then show ?thesis using False t old(5) rows_of_fresh(2) [of "sr_id t" "sr_id s"] by simp
    qed
  qed
  show ?thesis unfolding kb_ok_def ids by (intro conjI ballI old(1) dist own) (use lt cnt in blast)+
qed

lemma ok_change:
  assumes "kb_ok ss es n"
    and f: "\<And>t. p t \<Longrightarrow> sr_id (f t) = sr_id t \<and> sr_agent (f t) = sr_agent t \<and> sr_entry_count (f t) = sr_entry_count t"
  shows "kb_ok (map (\<lambda>t. if p t then f t else t) ss) es n"
proof -
  let ?g = "\<lambda>t. if p t then f t else t"
  have g: "sr_id (?g t) = sr_id t" "sr_agent (?g t) = sr_agent t" "sr_entry_count (?g t) = sr_entry_count t" for t using f by simp_all
  have m: "map sr_id (map ?g ss) = map sr_id ss" by (simp add: g comp_def)
  have o: "\<exists>t\<in>set (map ?g ss). en_source e = sr_id t \<and> en_agent e = sr_agent t" if e: "e \<in> set es" for e
  proof -
    obtain t where "t \<in> set ss" "en_source e = sr_id t" "en_agent e = sr_agent t" using assms(1) e unfolding kb_ok_def by blast
    then show ?thesis unfolding set_map by (intro bexI [of _ "?g t"] conjI imageI) (simp_all only: g)
  qed
  have c: "map en_index (rows_of_source (sr_id u) es) = [0..<sr_entry_count u] \<and> 0 < sr_entry_count u" if u: "u \<in> set (map ?g ss)" for u
  proof -
    from u have "u \<in> ?g ` set ss" unfolding set_map .
    then obtain t where "u = ?g t" "t \<in> set ss" by (rule imageE)
    then show ?thesis using assms(1) by (simp only: g kb_ok_def)
  qed
  have "distinct (map sr_id ss)" "distinct (map en_id es)" "\<forall>e\<in>set es. en_id e < n" using assms(1) by (simp_all add: kb_ok_def)
  then show ?thesis unfolding kb_ok_def m by (intro conjI ballI o c) blast+
qed

lemma same_source: "distinct (map sr_id ss) \<Longrightarrow> s \<in> set ss \<Longrightarrow> t \<in> set ss \<Longrightarrow> sr_id s = sr_id t \<Longrightarrow> s = t"
  by (auto simp: distinct_map dest: inj_onD)

lemma ok_delete:
  assumes "kb_ok ss es n"
  shows "kb_ok (List.filter (\<lambda>s. \<not> is_source agent sid s) ss) (List.filter (\<lambda>e. \<not> of_source agent sid e) es) n"
proof -
  let ?ss = "List.filter (\<lambda>s. \<not> is_source agent sid s) ss" and ?es = "List.filter (\<lambda>e. \<not> of_source agent sid e) es"
  have old: "distinct (map sr_id ss)" "distinct (map en_id es)" "\<forall>e\<in>set es. en_id e < n"
    "\<forall>e\<in>set es. \<exists>s\<in>set ss. en_source e = sr_id s \<and> en_agent e = sr_agent s"
    "\<forall>s\<in>set ss. map en_index (rows_of_source (sr_id s) es) = [0..<sr_entry_count s] \<and> 0 < sr_entry_count s"
    using assms(1) by (simp_all add: kb_ok_def)
  have "rows_of_source (sr_id t) ?es = rows_of_source (sr_id t) es" if t: "t \<in> set ?ss" for t
  proof -
    have "\<not> of_source agent sid e" if e: "e \<in> set es" "en_source e = sr_id t" for e
    proof -
      obtain s where s: "s \<in> set ss" "en_source e = sr_id s" "en_agent e = sr_agent s" using old(4) e(1) by blast
      have "t \<in> set ss" using t by simp
      then have "s = t" using same_source [OF old(1) s(1)] s(2) e(2) by simp
      with s show ?thesis using t by (auto simp: of_source_def is_source_def)
    qed
    then show ?thesis by (auto simp: rows_of_source_def intro!: filter_cong)
  qed
  moreover have "\<exists>s\<in>set ?ss. en_source e = sr_id s \<and> en_agent e = sr_agent s" if e: "e \<in> set ?es" for e
  proof -
    obtain s where s: "s \<in> set ss" "en_source e = sr_id s" "en_agent e = sr_agent s" using old(4) e by auto
    moreover have "\<not> is_source agent sid s" using e s by (simp add: of_source_def is_source_def)
    ultimately show ?thesis by auto
  qed
  moreover have "distinct (map sr_id ?ss)" "distinct (map en_id ?es)" using old(1,2) by (simp_all add: distinct_map_filter)
  ultimately show ?thesis using old(3,5) by (simp add: kb_ok_def)
qed

lemma ok_rewrite:
  assumes "kb_ok ss es n"
  shows "kb_ok ss (map (\<lambda>e. if p e then e\<lparr>en_content := c\<rparr> else e) es) n"
proof -
  let ?g = "\<lambda>e. if p e then e\<lparr>en_content := c\<rparr> else e"
  have g: "en_id (?g e) = en_id e" "en_agent (?g e) = en_agent e" "en_source (?g e) = en_source e" "en_index (?g e) = en_index e" for e
    by simp_all
  have m: "map en_id (map ?g es) = map en_id es" by (simp add: g comp_def)
  have i: "map en_index (rows_of_source t (map ?g es)) = map en_index (rows_of_source t es)" for t
    by (simp add: rows_of_source_def filter_map comp_def g)
  have "\<forall>e\<in>set (map ?g es). P (en_id e) (en_agent e) (en_source e)" if "\<forall>e\<in>set es. P (en_id e) (en_agent e) (en_source e)" for P
    using that by auto
  from this [of "\<lambda>i a s. i < n"] this [of "\<lambda>i a s. \<exists>t\<in>set ss. s = sr_id t \<and> a = sr_agent t"]
  show ?thesis using assms unfolding kb_ok_def m i by blast
qed

section \<open>Every operation keeps the tables consistent\<close>

lemma add_entries_simps [simp]:
  "kr_sources (add_entries agent sid i cs st) = kr_sources st"
  "kr_entries (add_entries agent sid i cs st) = kr_entries st @ fresh_entries agent sid i (kr_next st) cs"
  "kr_next (add_entries agent sid i cs st) = kr_next st + length cs"
  "kr_vectors (add_entries agent sid i cs st) = kr_vectors st"
  by (simp_all add: add_entries_eq)

lemma change_sources_simps [simp]:
  "kr_sources (change_sources p f st) = map (\<lambda>s. if p s then f s else s) (kr_sources st)"
  "kr_entries (change_sources p f st) = kr_entries st"
  "kr_next (change_sources p f st) = kr_next st"
  "kr_vectors (change_sources p f st) = kr_vectors st"
  by (simp_all add: change_sources_def)

lemma drop_entries_simps [simp]:
  "kr_sources (drop_entries p st) = kr_sources st"
  "kr_entries (drop_entries p st) = List.filter (\<lambda>e. \<not> p e) (kr_entries st)"
  "kr_next (drop_entries p st) = kr_next st"
  "kr_vectors (drop_entries p st) = kr_vectors st"
  by (simp_all add: drop_entries_def)

definition fresh_id :: "string \<Rightarrow> 'v kb_store \<Rightarrow> bool" where
  "fresh_id sid st = (sid \<notin> sr_id ` set (kr_sources st))"

lemma wf_change:
  assumes "kb_wf st" and "\<And>t. sr_id (f t) = sr_id t \<and> sr_agent (f t) = sr_agent t \<and> sr_entry_count (f t) = sr_entry_count t"
  shows "kb_wf (change_sources p f st)"
  using ok_change [of "kr_sources st" "kr_entries st" "kr_next st" p f] assms by (simp add: kb_wf_def)

lemma wf_ingest:
  assumes "kb_wf st" and "fresh_id sid st"
  shows "kb_wf (snd (ingest_text sid now hash og agent title content stype sref st))"
proof (cases "cut_text (govern_content content stype)")
  case (Some cs)
  show ?thesis
  proof (cases "cs = []")
    case False
    let ?s = "(new_source sid now og agent title stype sref (length cs) (length (govern_content content stype)))\<lparr>sr_orig := content, sr_hash := hash\<rparr>"
    have "sr_id ?s = sid" "sr_agent ?s = agent" "sr_entry_count ?s = length cs" by (simp_all add: new_source_def)
    then show ?thesis
      using ok_add_source [of "kr_sources st" "kr_entries st" "kr_next st" ?s cs] assms False Some
      by (simp add: ingest_text_def kb_wf_def fresh_id_def)
  qed (use assms Some in \<open>simp add: ingest_text_def\<close>)
qed (use assms in \<open>simp add: ingest_text_def\<close>)

lemma wf_single:
  assumes "kb_wf st" and "fresh_id sid st"
  shows "kb_wf (save_single_chunk sid now og agent ty title content status a b st)"
proof -
  let ?s = "(new_source sid now og agent title ''text'' ''manual'' 1 (length content))\<lparr>sr_type := ty, sr_status := status, sr_start_at := a, sr_end_at := b\<rparr>"
  have "sr_id ?s = sid" "sr_agent ?s = agent" "sr_entry_count ?s = length [(content, None :: (nat \<times> nat) option)]" by (simp_all add: new_source_def)
  then show ?thesis
    using ok_add_source [of "kr_sources st" "kr_entries st" "kr_next st" ?s "[(content, None)]"] assms
    by (simp add: save_single_chunk_def kb_wf_def fresh_id_def)
qed

lemma wf_save_flash: "kb_wf st \<Longrightarrow> fresh_id sid st \<Longrightarrow> kb_wf (snd (save_flash sid now og agent content st))"
  by (simp add: save_flash_def Let_def wf_single)

lemma wf_save_todo: "kb_wf st \<Longrightarrow> fresh_id sid st \<Longrightarrow> kb_wf (snd (save_todo sid now og agent content status a b st))"
  by (simp add: save_todo_def Let_def wf_single)

lemma wf_rewrite: "kb_wf st \<Longrightarrow> kb_wf (rewrite_chunk agent sid content st)"
  by (simp add: rewrite_chunk_def kb_wf_def ok_rewrite)

lemma wf_update_flash: "kb_wf st \<Longrightarrow> kb_wf (snd (update_flash now agent sid content st))"
  by (auto simp: update_flash_def Let_def intro!: wf_change wf_rewrite split: option.splits)

lemma wf_update_todo: "kb_wf st \<Longrightarrow> kb_wf (snd (update_todo now agent sid content status a b st))"
  by (auto simp: update_todo_def Let_def set_todo_def intro!: wf_change wf_rewrite)

lemma wf_mark_reminded: "kb_wf st \<Longrightarrow> kb_wf (mark_todo_reminded now agent sid st)"
  by (auto simp: mark_todo_reminded_def intro!: wf_change)

lemma wf_mark_generated: "kb_wf st \<Longrightarrow> kb_wf (mark_source_generated now sid st)"
  by (auto simp: mark_source_generated_def intro!: wf_change)

lemma wf_delete: "kb_wf st \<Longrightarrow> kb_wf (snd (delete_source agent sid st))"
  by (simp add: delete_source_def Let_def kb_wf_def ok_delete)

text \<open>Replacing the entries of one source.\<close>

lemma of_source_own:
  assumes "kb_ok ss es n" and "s \<in> set ss" and "e \<in> set es"
  shows "of_source (sr_agent s) (sr_id s) e = (en_source e = sr_id s)"
proof -
  obtain t where t: "t \<in> set ss" "en_source e = sr_id t" "en_agent e = sr_agent t" using assms(1,3) unfolding kb_ok_def by blast
  have "distinct (map sr_id ss)" using assms(1) by (simp add: kb_ok_def)
  then show ?thesis using same_source [OF _ t(1) assms(2)] t by (auto simp: of_source_def)
qed

lemma wf_replace:
  assumes "kb_wf st"
    and s: "List.find (is_source agent sid) (kr_sources st) = Some s"
  shows "kb_wf (snd (replace_article_content now agent sid content st))"
proof (cases "chunk_text content 0 0")
  case (Some cs)
  have m: "s \<in> set (kr_sources st)" "sr_id s = sid" "sr_agent s = agent" using s by (auto simp: find_Some_iff is_source_def)
  have ok: "kb_ok (kr_sources st) (kr_entries st) (kr_next st)" using assms(1) by (simp add: kb_wf_def)
  have "List.filter (\<lambda>e. \<not> of_source agent sid e) (kr_entries st) = List.filter (\<lambda>e. en_source e \<noteq> sid) (kr_entries st)"
    using of_source_own [OF ok m(1)] m by (intro filter_cong) simp_all
  moreover have "kb_ok (map (\<lambda>t. if sr_id t = sr_id s
        then t\<lparr>sr_total_chars := length content, sr_entry_count := length cs, sr_updated := now\<rparr> else t) (kr_sources st))
    (List.filter (\<lambda>e. en_source e \<noteq> sr_id s) (kr_entries st) @ fresh_entries (sr_agent s) (sr_id s) 0 (kr_next st) (map (\<lambda>c. (ck_content c, None)) cs))
    (kr_next st + length (map (\<lambda>c. (ck_content c, None :: (nat \<times> nat) option)) cs))" if "cs \<noteq> []"
    by (rule ok_replace [OF ok m(1)]) (use that in simp_all)
  ultimately show ?thesis using Some assms(1) m by (simp add: replace_article_content_def Let_def kb_wf_def)
qed (use assms in \<open>simp add: replace_article_content_def\<close>)

lemma replace_snd: "replace_article_content now agent sid content st = (e, st1) \<Longrightarrow> st1 = snd (replace_article_content now agent sid content st)"
  by simp

lemma wf_insights: "kb_wf (st\<lparr>kr_insights := x\<rparr>) = kb_wf st"
  by (simp add: kb_wf_def)

lemma wf_merge: "kb_wf st \<Longrightarrow> kb_wf (snd (merge_articles invoker now agent sid content st))"
  by (auto simp: merge_articles_def Let_def wf_insights dest!: replace_snd intro!: wf_change wf_replace split: option.splits prod.splits)

text \<open>The derivation of the chunks works on sources that are there, and changes no key.\<close>

lemma wf_rewash_one:
  assumes "kb_wf st" and m: "s \<in> set (kr_sources st)" "sr_id s = sid" "sr_agent s = agent" and "cs \<noteq> []"
  shows "kb_wf (rewash_one now hash agent sid governed cs st)"
proof -
  have ok: "kb_ok (kr_sources st) (kr_entries st) (kr_next st)" using assms(1) by (simp add: kb_wf_def)
  have "kb_ok (map (\<lambda>t. if sr_id t = sr_id s
        then t\<lparr>sr_entry_count := length cs, sr_total_chars := length governed, sr_hash := hash, sr_wiki_dirty := Some now, sr_updated := now\<rparr> else t) (kr_sources st))
    (List.filter (\<lambda>e. en_source e \<noteq> sr_id s) (kr_entries st) @ fresh_entries (sr_agent s) (sr_id s) 0 (kr_next st) cs) (kr_next st + length cs)"
    by (rule ok_replace [OF ok m(1) assms(5)]) simp
  then show ?thesis using m by (simp add: rewash_one_def kb_wf_def)
qed

definition source_keys :: "'v kb_store \<Rightarrow> (string \<times> string) set" where
  "source_keys st = set (map (\<lambda>s. (sr_id s, sr_agent s)) (kr_sources st))"

lemma keys_rewash_one [simp]: "source_keys (rewash_one now hash agent sid governed cs st) = source_keys st"
proof -
  have "map (\<lambda>s. (sr_id s, sr_agent s)) (kr_sources (rewash_one now hash agent sid governed cs st)) = map (\<lambda>s. (sr_id s, sr_agent s)) (kr_sources st)"
    by (simp add: rewash_one_def)
  then show ?thesis by (simp only: source_keys_def)
qed

lemma rewash_step_cases:
  "snd (rewash_step b now hash agent v (rep, st)) = st
   \<or> (\<exists>cs. cs \<noteq> [] \<and> snd (rewash_step b now hash agent v (rep, st)) = rewash_one now hash agent (sr_id v) (govern_content (sr_orig v) (sr_source_type v)) cs st)"
  by (auto simp: rewash_step_def Let_def split: option.splits)

lemma wf_rewash_step:
  assumes "kb_wf (snd acc)" and "(sr_id v, agent) \<in> source_keys (snd acc)"
  shows "kb_wf (snd (rewash_step b now hash agent v acc)) \<and> source_keys (snd (rewash_step b now hash agent v acc)) = source_keys (snd acc)"
proof -
  obtain rep st where acc: "acc = (rep, st)" by (metis surj_pair)
  obtain s where "s \<in> set (kr_sources st)" "sr_id s = sr_id v" "sr_agent s = agent" using assms(2) by (auto simp: source_keys_def acc)
  then show ?thesis
    using rewash_step_cases [of b now hash agent v rep st] assms(1) wf_rewash_one [of st s "sr_id v" agent]
    by (auto simp: acc)
qed

lemma wf_rewash_fold:
  assumes "kb_wf (snd acc)" and "\<forall>v\<in>set vs. (sr_id v, agent) \<in> source_keys (snd acc)"
  shows "kb_wf (snd (foldl (\<lambda>acc v. rewash_step b now hash agent v acc) acc vs))"
  using assms
proof (induction vs arbitrary: acc)
  case (Cons v vs)
  have "kb_wf (snd (rewash_step b now hash agent v acc))" "source_keys (snd (rewash_step b now hash agent v acc)) = source_keys (snd acc)"
    using wf_rewash_step [of acc v agent b now hash] Cons.prems by simp_all
  then show ?case using Cons.IH Cons.prems by simp
qed simp

lemma wf_rewash: "kb_wf st \<Longrightarrow> kb_wf (snd (rewash_sources b now hash agent st))"
  unfolding rewash_sources_def by (rule wf_rewash_fold) (auto simp: source_keys_def)

text \<open>Vectors, insights and parked articles are outside the invariant.\<close>

lemma save_vectors_rest:
  "kr_sources (save_vectors agent es vs st) = kr_sources st \<and> kr_entries (save_vectors agent es vs st) = kr_entries st
   \<and> kr_next (save_vectors agent es vs st) = kr_next st"
proof -
  have "kr_sources (foldl (\<lambda>s (e, v). save_entry_embedding agent (en_id e) v s) st xs) = kr_sources st
     \<and> kr_entries (foldl (\<lambda>s (e, v). save_entry_embedding agent (en_id e) v s) st xs) = kr_entries st
     \<and> kr_next (foldl (\<lambda>s (e, v). save_entry_embedding agent (en_id e) v s) st xs) = kr_next st" for xs
    by (induction xs arbitrary: st) (auto simp: save_entry_embedding_def)
  then show ?thesis by (simp add: save_vectors_def)
qed

lemma wf_save_vectors [simp]: "kb_wf (save_vectors agent es vs st) = kb_wf st"
  using save_vectors_rest [of agent es vs st] by (simp add: kb_wf_def)

lemma wf_embed: "kb_wf st \<Longrightarrow> kb_wf (embed_source_entries emb agent sid st)"
  by (auto simp: embed_source_entries_def Let_def split: option.splits)

lemma embed_batch_cases:
  obtains (none) a b where "embed_batch f agent batch (d, k, st) = (a, b, st)"
  | (saved) a b vs where "embed_batch f agent batch (d, k, st) = (a, b, save_vectors agent batch vs st)"
proof (cases "f (map en_content batch)")
  case None
  then show thesis by (intro none) (simp add: embed_batch_def)
next
  case (Some vs)
  then show thesis by (cases "length vs = length batch") (auto intro: none saved simp: embed_batch_def)
qed

lemma wf_batches: "kb_wf (snd (snd acc)) \<Longrightarrow> kb_wf (snd (snd (backfill_batches f agent es acc)))"
proof (induction f agent es acc rule: backfill_batches.induct)
  case (1 f agent es acc)
  obtain d k st where acc: "acc = (d, k, st)" by (metis surj_pair)
  have "kb_wf (snd (snd (embed_batch f agent (take 64 es) acc)))"
    unfolding acc using "1.prems" by (cases rule: embed_batch_cases [of f agent "take 64 es" d k st]) (simp_all add: acc)
  then show ?case using "1.prems" "1.IH" by (subst backfill_batches.simps) simp
qed

lemma wf_clear [simp]: "kb_wf (clear_entry_embeddings agent st) = kb_wf st"
  by (simp add: clear_entry_embeddings_def kb_wf_def)

lemma wf_pending [simp]: "kb_wf (st\<lparr>kr_pending := x\<rparr>) = kb_wf st"
  by (simp add: kb_wf_def)

lemma wf_sweep: "kb_wf st \<Longrightarrow> kb_wf (sweep_due_todos now delivered agent h st)"
proof -
  have "kb_wf st \<Longrightarrow> kb_wf (foldl (\<lambda>s t. if delivered t then mark_todo_reminded x agent (sr_id t) s else s) st ts)" for x ts
    by (induction ts arbitrary: st) (auto intro: wf_mark_reminded)
  then show "kb_wf st \<Longrightarrow> kb_wf (sweep_due_todos now delivered agent h st)" by (simp add: sweep_due_todos_def)
qed

section \<open>Runs\<close>

text \<open>
  A step is an operation of an agent or of a background pass, with any arguments; a new source has a key that is not in use.
\<close>

inductive kb_step :: "'v kb_store \<Rightarrow> 'v kb_store \<Rightarrow> bool" where
  ingest: "fresh_id sid st \<Longrightarrow> kb_step st (snd (ingest_text sid now hash og agent title content stype sref st))"
| flash: "fresh_id sid st \<Longrightarrow> kb_step st (snd (save_flash sid now og agent content st))"
| todo: "fresh_id sid st \<Longrightarrow> kb_step st (snd (save_todo sid now og agent content status a b st))"
| edit_flash: "kb_step st (snd (update_flash now agent sid content st))"
| edit_todo: "kb_step st (snd (update_todo now agent sid content status a b st))"
| remind: "kb_step st (sweep_due_todos t delivered agent h st)"
| generated: "kb_step st (mark_source_generated now sid st)"
| insights: "kb_step st (save_insights agent sid st)"
| delete: "kb_step st (snd (delete_source agent sid st))"
| merge: "kb_step st (snd (merge_articles invoker now agent sid content st))"
| rewash: "kb_step st (snd (rewash_sources b now hash agent st))"
| embed: "kb_step st (embed_source_entries emb agent sid st)"
| backfill: "backfill_entry_embeddings emb agent st = Some (d, k, st1) \<Longrightarrow> kb_step st st1"
| clear: "kb_step st (clear_entry_embeddings agent st)"
| park: "kb_step st (create_pending pid t og agent ty title content stype sref dup st)"
| unpark: "kb_step st (delete_pending pid agent st)"
| prune: "kb_step st (snd (prune_expired_pending t st))"

lemma wf_backfill: "kb_wf st \<Longrightarrow> backfill_entry_embeddings emb agent st = Some (d, k, st1) \<Longrightarrow> kb_wf st1"
proof -
  assume wf: "kb_wf st" and b: "backfill_entry_embeddings emb agent st = Some (d, k, st1)"
  then obtain f es where "backfill_batches f agent es (0, 0, st) = (d, k, st1)"
    by (auto simp: backfill_entry_embeddings_def split: option.splits if_splits)
  then show ?thesis using wf_batches [of "(0, 0, st)" f agent es] wf by simp
qed

lemma wf_rest:
  "kb_wf (save_insights agent sid st) = kb_wf st"
  "kb_wf (create_pending pid t og agent ty title content stype sref dup st) = kb_wf st"
  "kb_wf (delete_pending pid agent st) = kb_wf st"
  "kb_wf (snd (prune_expired_pending t st)) = kb_wf st"
  by (simp_all add: save_insights_def create_pending_def delete_pending_def prune_expired_pending_def Let_def wf_insights)

lemmas wf_operations = wf_ingest wf_save_flash wf_save_todo wf_update_flash wf_update_todo wf_sweep wf_mark_generated wf_delete
  wf_merge wf_rewash wf_embed

lemma wf_step: "kb_step st st1 \<Longrightarrow> kb_wf st \<Longrightarrow> kb_wf st1"
proof (erule kb_step.cases)
qed ((hypsubst, erule wf_ingest wf_save_flash wf_save_todo, assumption)
  | (hypsubst, erule wf_update_flash wf_update_todo wf_sweep wf_mark_generated wf_delete wf_merge wf_rewash wf_embed)
  | (hypsubst, simp only: wf_rest wf_clear)
  | (hypsubst, erule wf_backfill, assumption))+

definition empty_kb :: "'v kb_store" where
  "empty_kb = \<lparr>kr_sources = [], kr_entries = [], kr_next = 1, kr_vectors = [], kr_insights = [], kr_pending = []\<rparr>"

text \<open>
  C24. Whatever the agents and the background passes do, the tables stay consistent: distinct keys, every entry under a source
  of the same agent, and under every source its entries numbered from zero, as many as the source counts and at least one.
\<close>

theorem tables_stay_consistent:
  assumes "kb_step\<^sup>*\<^sup>* empty_kb st"
  shows "kb_ok (kr_sources st) (kr_entries st) (kr_next st)"
  using assms
proof (induction rule: rtranclp_induct)
  case base
  then show ?case by (simp add: empty_kb_def kb_ok_def)
next
  case (step st st1)
  then show ?case using wf_step by (auto simp: kb_wf_def)
qed

lemma tables_stay_consistent_witness:
  "let st = snd (save_flash ''s1'' ''t'' no_origin ''ann'' ''idea'' (empty_kb :: nat kb_store))
   in kb_ok (kr_sources st) (kr_entries st) (kr_next st) \<and> length (kr_entries st) = 1"
proof -
  let ?st = "snd (save_flash ''s1'' ''t'' no_origin ''ann'' ''idea'' (empty_kb :: nat kb_store))"
  have "kb_step empty_kb ?st" by (rule kb_step.flash) (simp add: fresh_id_def empty_kb_def)
  then have "kb_ok (kr_sources ?st) (kr_entries ?st) (kr_next ?st)" by (intro tables_stay_consistent r_into_rtranclp)
  moreover have "length (kr_entries ?st) = 1" 
    using trim_space_visible [of "''idea''"] by (simp add: save_flash_def save_single_chunk_def visible_def empty_kb_def Let_def)
  ultimately show ?thesis by (simp add: Let_def)
qed

section \<open>One flash for a message\<close>

lemma overlap_self: "0 < n \<Longrightarrow> seq_ranges_overlap [(n, n)] (encode_seq_ranges n)"
  by (simp add: seq_ranges_overlap_def encode_seq_ranges_def)

lemma saved_flash_row:
  assumes "save_flash sid now og agent content st = (Inr r, st1)"
  shows "r = sid \<and> (\<exists>s. kr_sources st1 = kr_sources st @ [s] \<and> sr_id s = sid \<and> sr_agent s = agent \<and> sr_type s = ''flash''
    \<and> sr_session s = og_session og \<and> sr_seqs s = encode_seq_ranges (og_seq og))"
  using assms by (auto simp: save_flash_def save_single_chunk_def new_source_def Let_def split: if_splits)

text \<open>
  C29. After the agent has saved one new flash for a message of a user, every other flash for the same message is refused as
  a repetition, whatever its text: the first check compares the origin only.
\<close>

theorem second_flash_is_refused:
  assumes "og_session og \<noteq> []" and "0 < og_seq og"
    and "tool_save_flash ev sid now og agent content [] st = (AAdded r, st1)" and "other \<noteq> []"
  shows "\<exists>dup. tool_save_flash ev sid2 now2 og agent other [] st1 = (ADuplicate dup, st1) \<and> du_reason dup = ''l1-origin''"
proof -
  obtain a st2 where f: "save_flash sid now og agent content st = (a, st2)" by (metis surj_pair)
  have "save_flash sid now og agent content st = (Inr r, st1)"
    using assms(3) by (simp add: tool_save_flash_def f split: if_splits option.splits sum.splits)
  then obtain s where s: "s \<in> set (kr_sources st1)" "sr_agent s = agent" "sr_type s = ''flash''" "sr_session s = og_session og"
      "sr_seqs s = encode_seq_ranges (og_seq og)"
    using saved_flash_row by (metis in_set_conv_decomp)
  let ?mine = "List.filter (\<lambda>s. sr_agent s = agent \<and> sr_type s = ''flash'') (kr_sources st1)"
  let ?p = "\<lambda>s. sr_session s = og_session og \<and> seq_ranges_overlap [(og_seq og, og_seq og)] (sr_seqs s)"
  have "s \<in> set ?mine" "?p s" using s overlap_self [OF assms(2)] by simp_all
  then have "List.find ?p ?mine \<noteq> None" by (auto simp: find_None_iff)
  then obtain t where "List.find ?p ?mine = Some t" by blast
  then have "check_duplicate ev og agent ''flash'' title body thr st1
      = Some \<lparr>du_reason = ''l1-origin'', du_source = sr_id t, du_title = sr_title t, du_score = 0\<rparr>" for title body thr
    using assms(1,2) by (simp add: check_duplicate_def Let_def)
  then show ?thesis using assms(4) by (simp add: tool_save_flash_def)
qed

definition plain_env :: "nat kb_env" where
  "plain_env = \<lparr>kx_embed = None, kx_sim = (\<lambda>a b. None), kx_alnum = (\<lambda>r. 97 \<le> r \<and> r \<le> 122), kx_high = 9 / 10, kx_mid = 72 / 100, kx_flash = 85 / 100\<rparr>"

definition chat_origin :: kb_origin where
  "chat_origin = \<lparr>og_session = ''web:1'', og_seq = 7\<rparr>"

lemma empty_has_no_duplicate: "check_duplicate ev og agent ty title txt 0 empty_kb = None"
  by (simp add: check_duplicate_def empty_kb_def Let_def)

lemma plain_has_no_duplicate: "check_duplicate plain_env og agent ty title txt thr (empty_kb :: nat kb_store) = None"
  by (simp add: check_duplicate_def empty_kb_def plain_env_def find_similar_def Let_def)

lemma second_flash_is_refused_witness:
  "\<exists>dup. tool_save_flash plain_env ''s2'' ''t'' chat_origin ''ann'' ''paint'' []
      (snd (tool_save_flash plain_env ''s1'' ''t'' chat_origin ''ann'' ''idea'' [] (empty_kb :: nat kb_store)))
    = (ADuplicate dup, snd (tool_save_flash plain_env ''s1'' ''t'' chat_origin ''ann'' ''idea'' [] (empty_kb :: nat kb_store)))
    \<and> du_reason dup = ''l1-origin''"
proof (rule second_flash_is_refused)
  show "og_session chat_origin \<noteq> []" "0 < og_seq chat_origin" by (simp_all add: chat_origin_def)
  have "fst (tool_save_flash plain_env ''s1'' ''t'' chat_origin ''ann'' ''idea'' [] (empty_kb :: nat kb_store)) = AAdded ''s1''"
    using trim_space_visible [of "''idea''"] by (simp add: tool_save_flash_def plain_has_no_duplicate save_flash_def visible_def Let_def)
  then show "tool_save_flash plain_env ''s1'' ''t'' chat_origin ''ann'' ''idea'' [] (empty_kb :: nat kb_store)
      = (AAdded ''s1'', snd (tool_save_flash plain_env ''s1'' ''t'' chat_origin ''ann'' ''idea'' [] (empty_kb :: nat kb_store)))"
    by (metis prod.collapse)
qed simp

section \<open>Reminders\<close>

lemma rfc3339_not_Nil [simp]: "rfc3339_utc t \<noteq> []"
  by (simp add: rfc3339_utc_def split: prod.split)

definition remind :: "(kb_source \<Rightarrow> bool) \<Rightarrow> string \<Rightarrow> kb_source \<Rightarrow> kb_source" where
  "remind p x s = (if p s then s\<lparr>sr_reminded_at := x\<rparr> else s)"

definition hit_by :: "(kb_source \<Rightarrow> bool) \<Rightarrow> string \<Rightarrow> kb_source list \<Rightarrow> kb_source \<Rightarrow> bool" where
  "hit_by d agent ts s = (\<exists>t\<in>set ts. d t \<and> is_todo agent (sr_id t) s)"

lemma is_todo_reminded [simp]: "is_todo agent sid (s\<lparr>sr_reminded_at := x\<rparr>) = is_todo agent sid s"
  by (simp add: is_todo_def is_source_def)

lemma hit_by_reminded [simp]: "hit_by d agent ts (s\<lparr>sr_reminded_at := x\<rparr>) = hit_by d agent ts s"
  by (simp add: hit_by_def)

lemma remind_step:
  "remind (hit_by d agent ts) x (if is_todo agent (sr_id t) s then s\<lparr>sr_reminded_at := x\<rparr> else s)
   = remind (\<lambda>s. is_todo agent (sr_id t) s \<or> hit_by d agent ts s) x s"
  by (simp add: remind_def)

lemma sweep_sources:
  "kr_sources (foldl (\<lambda>s t. if d t then mark_todo_reminded x agent (sr_id t) s else s) st ts)
   = map (remind (hit_by d agent ts) x) (kr_sources st)"
proof (induction ts arbitrary: st)
  case Nil
  have "remind (hit_by d agent []) x = (\<lambda>s. s)" by (rule ext) (simp add: remind_def hit_by_def)
  then show ?case by simp
next
  case (Cons t ts)
  have h: "hit_by d agent (t # ts) = (\<lambda>s. d t \<and> is_todo agent (sr_id t) s \<or> hit_by d agent ts s)"
    by (rule ext) (auto simp: hit_by_def)
  show ?case
    by (cases "d t") (simp_all add: Cons.IH h mark_todo_reminded_def comp_def remind_step)
qed

text \<open>
  C27. A reminder is repeated until it is delivered, and then stops: after a pass, the todos that are due are those that were
  due before and could not be delivered.
\<close>

theorem reminders_stop_when_delivered:
  assumes "distinct (map sr_id (kr_sources st))"
  shows "list_due_todos now agent h (sweep_due_todos now delivered agent h st)
    = List.filter (\<lambda>t. \<not> delivered t) (list_due_todos now agent h st)"
proof -
  define due where "due = todo_is_due (rfc3339_utc (now + (if h \<le> 0 then 24 else h) * 3600)) agent"
  define ts where "ts = sort_key sr_end_at (List.filter due (kr_sources st))"
  define g where "g = remind (hit_by delivered agent ts) (rfc3339_utc now)"
  have lists: "list_due_todos now agent h t = sort_key sr_end_at (List.filter due (kr_sources t))" for t :: "'a kb_store"
    by (simp add: list_due_todos_def Let_def due_def)
  have src: "kr_sources (sweep_due_todos now delivered agent h st) = map g (kr_sources st)"
    by (simp only: sweep_due_todos_def sweep_sources lists flip: ts_def g_def)
  have todo: "due s \<Longrightarrow> is_todo agent (sr_id s) s" for s
    by (simp add: due_def todo_is_due_def is_todo_def is_source_def)
  have over: "\<not> due (s\<lparr>sr_reminded_at := rfc3339_utc now\<rparr>)" for s
    by (simp add: due_def todo_is_due_def)
  have tset: "set ts = {t \<in> set (kr_sources st). due t}" by (simp add: ts_def)
  have hit: "hit_by delivered agent ts s = (due s \<and> delivered s)" if s: "s \<in> set (kr_sources st)" for s
  proof
    assume "hit_by delivered agent ts s"
    then obtain t where t: "t \<in> set (kr_sources st)" "due t" "delivered t" "is_todo agent (sr_id t) s"
      unfolding hit_by_def tset by blast
    then have "s = t" using same_source [OF assms s t(1)] by (simp add: is_todo_def is_source_def)
    then show "due s \<and> delivered s" using t by simp
  next
    assume "due s \<and> delivered s"
    then show "hit_by delivered agent ts s" unfolding hit_by_def tset using s todo by blast
  qed
  have after: "due (g s) = (due s \<and> \<not> delivered s)" "due (g s) \<Longrightarrow> g s = s" if s: "s \<in> set (kr_sources st)" for s
  proof -
    have "g s = (if due s \<and> delivered s then s\<lparr>sr_reminded_at := rfc3339_utc now\<rparr> else s)"
      by (simp only: g_def remind_def hit [OF s])
    then show "due (g s) = (due s \<and> \<not> delivered s)" "due (g s) \<Longrightarrow> g s = s" using over by (metis (full_types))+
  qed
  have "List.filter due (map g ss) = List.filter (\<lambda>s. \<not> delivered s) (List.filter due ss)" if "set ss \<subseteq> set (kr_sources st)" for ss
    using that
  proof (induction ss)
    case (Cons s ss)
    then have s: "s \<in> set (kr_sources st)" by simp
    show ?case
    proof (cases "due s \<and> \<not> delivered s")
      case True
      then have "due (g s)" "g s = s" using after [OF s] by simp_all
      then show ?thesis using True Cons by simp
    next
      case False
      then have "\<not> due (g s)" using after(1) [OF s] by simp
      then show ?thesis using False Cons by auto
    qed
  qed simp
  then have "List.filter due (map g (kr_sources st)) = List.filter (\<lambda>s. \<not> delivered s) (List.filter due (kr_sources st))" by blast
  then show ?thesis by (simp only: lists src filter_sort)
qed

definition one_todo :: "nat kb_store" where
  "one_todo = snd (save_todo ''s1'' ''t'' no_origin ''ann'' ''call'' [] [] ''2026-01-02T08:00:00Z'' empty_kb)"

lemma one_todo_sources:
  "kr_sources one_todo =
     [(new_source ''s1'' ''t'' no_origin ''ann'' (derive_title ''call'') ''text'' ''manual'' 1 4)
        \<lparr>sr_type := ''todo'', sr_status := ''pending'', sr_end_at := ''2026-01-02T08:00:00Z''\<rparr>]"
  using trim_space_visible [of "''call''"]
  by (simp add: one_todo_def save_todo_def valid_todo_status_def save_single_chunk_def visible_def empty_kb_def new_source_def Let_def)

lemma reminders_stop_when_delivered_witness:
  "length (list_due_todos 1767312000 ''ann'' 24 one_todo) = 1
   \<and> list_due_todos 1767312000 ''ann'' 24 (sweep_due_todos 1767312000 (\<lambda>t. True) ''ann'' 24 one_todo) = []"
proof
  have "rfc3339_utc (1767312000 + 24 * 3600) = ''2026-01-03T00:00:00Z''" by code_simp
  moreover have "''2026-01-02T08:00:00Z'' \<le> ''2026-01-03T00:00:00Z''" by code_simp
  ultimately have "''2026-01-02T08:00:00Z'' \<le> rfc3339_utc (1767312000 + 24 * 3600)" by (simp only:)
  then show "length (list_due_todos 1767312000 ''ann'' 24 one_todo) = 1"
    by (simp add: list_due_todos_def one_todo_sources todo_is_due_def due_by_def active_status_def new_source_def Let_def)
  have "distinct (map sr_id (kr_sources one_todo))" by (simp add: one_todo_sources)
  then show "list_due_todos 1767312000 ''ann'' 24 (sweep_due_todos 1767312000 (\<lambda>t. True) ''ann'' 24 one_todo) = []"
    using reminders_stop_when_delivered [of one_todo 1767312000 "''ann''" 24 "\<lambda>t. True"] by simp
qed

text \<open>
  The due date is compared as a text, though it may carry an offset: a todo that is due at this moment in China is not among
  the todos that are due within an hour.
\<close>

lemma offset_is_due: "parse_rfc3339 ''2026-01-02T08:00:00+08:00'' = Some (1767312000 * second)"
  by code_simp

lemma offset_not_listed:
  assumes "sr_end_at s = ''2026-01-02T08:00:00+08:00''"
  shows "s \<notin> set (list_todos 1767312000 agent status 1 st)"
proof -
  have "rfc3339_utc (1767312000 + 1 * 3600) = ''2026-01-02T01:00:00Z''" by code_simp
  moreover have "\<not> ''2026-01-02T08:00:00+08:00'' \<le> ''2026-01-02T01:00:00Z''" by code_simp
  ultimately have "\<not> due_by (rfc3339_utc (1767312000 + 1 * 3600)) s" using assms by (simp only: due_by_def) blast
  then show ?thesis by (simp add: list_todos_def)
qed

end
