(* ===== verification/Kb_Chunk_Laws.thy ===== *)
theory Kb_Chunk_Laws
  imports Kb_Chunker
begin

text \<open>
  Laws of the cutting of articles: the white space between chunks is all that is lost, a chunk is over the limit only when it
  has no sentence end inside, the last resort is never reached, a text without the ASCII sentence ends stays whole whatever
  its size, and the spans found for the chunks lie in the text.
\<close>

section \<open>The last resort is never reached\<close>

lemma ink_encode [simp]: "scalar r \<Longrightarrow> ink (encode_rune r) = (if is_space r then [] else [r])"
  by (simp add: ink_def)

lemma ink_step: "s \<noteq> [] \<Longrightarrow> decode_rune s = (r, w) \<Longrightarrow> ink s = (if is_space r then [] else [r]) @ ink (drop w s)"
  by (simp add: ink_def runes_step)

lemma ink_snoc_rune: "scalar r \<Longrightarrow> ink (buf @ encode_rune r) = ink buf @ (if is_space r then [] else [r])"
  using boundary_encode [of r "[]"] by (simp add: ink_append)

lemma ink_nonblank [simp]: "concat (map ink (nonblank s)) = ink s"
proof (cases "trim_space s = []")
  case True
  then have "ink s = []" using ink_trim [of s] by simp
  then show ?thesis using True by (simp add: nonblank_def)
qed (simp add: nonblank_def)

lemma ink_sentences_from: "concat (map ink (sentences_from buf s)) = ink buf @ ink s"
proof (induction buf s rule: sentences_from.induct)
  case (1 buf s)
  show ?case
  proof (cases "s = []")
    case True
    then show ?thesis by (subst sentences_from.simps) simp
  next
    case False
    obtain r w where d: "decode_rune s = (r, w)" by (metis surj_pair)
    have sc: "scalar r" using decode_scalar [of s] d by simp
    show ?thesis
    proof (cases "ends_sentence r \<and> break_after s")
      case True
      then have "sentences_from buf s = nonblank (buf @ encode_rune r) @ sentences_from [] (drop w s)"
        using False by (subst sentences_from.simps) (simp add: d)
      then show ?thesis using "1.IH"(1) [OF False d [symmetric] refl refl True] ink_step [OF False d] ink_snoc_rune [OF sc] by simp
    next
      case N: False
      then have "sentences_from buf s = sentences_from (buf @ encode_rune r) (drop w s)"
        using False by (subst sentences_from.simps) (auto simp: d)
      then show ?thesis using "1.IH"(2) [OF False d [symmetric] refl refl N] ink_step [OF False d] ink_snoc_rune [OF sc] by simp
    qed
  qed
qed

lemma split_sentences_total: "split_sentences p = Some (sentences_from [] p)"
proof -
  have "sentences_from [] p = [] \<Longrightarrow> trim_space p = []"
    using ink_sentences_from [of "[]" p] trim_space_not_Nil by fastforce
  then show ?thesis by (auto simp: split_sentences_def Let_def)
qed

lemma split_large_total: "split_large_paragraph p mx ov = Some (pack_sentences mx ov [] (sentences_from [] p))"
  by (simp add: split_large_paragraph_def split_sentences_total)

lemma chunk_loop_total: "\<exists>cs. chunk_loop mx ov buf ps = Some cs"
proof (induction mx ov buf ps rule: chunk_loop.induct)
  case (2 mx ov buf p ps)
  then show ?case by (auto simp: split_large_total)
qed simp

section \<open>Only white space is lost\<close>

lemma ink_add_piece: "c \<in> {CHR '' '', CHR 0x0A} \<Longrightarrow> ink (add_piece c buf s) = ink buf @ ink s"
  by (auto simp: add_piece_def ink_append boundary_ascii)

lemma keep_none [simp]: "keep_overlap 0 content = []"
  by (simp add: keep_overlap_def)

lemma add_piece_Nil [simp]: "add_piece c [] s = s"
  by (simp add: add_piece_def)

lemma ink_pack: "concat (map ink (pack_sentences mx 0 buf ss)) = ink buf @ concat (map ink ss)"
  by (induction ss arbitrary: buf) (auto simp: ink_add_piece)

lemma ink_chunk_loop: "chunk_loop mx 0 buf ps = Some cs \<Longrightarrow> concat (map ink cs) = ink buf @ concat (map ink ps)"
proof (induction ps arbitrary: buf cs)
  case Nil
  then show ?case by (auto split: if_splits)
next
  case (Cons p ps)
  show ?case
  proof (cases "mx < length p")
    case True
    obtain rest where r: "chunk_loop mx 0 [] ps = Some rest" using chunk_loop_total by blast
    then have "cs = (if buf \<noteq> [] then [trim_space buf] else []) @ pack_sentences mx 0 [] (sentences_from [] p) @ rest"
      using Cons.prems True by (simp add: split_large_total)
    then show ?thesis using Cons.IH [OF r] by (auto simp: ink_pack ink_sentences_from)
  next
    case False
    note small = this
    show ?thesis
    proof (cases "is_full mx buf p")
      case True
      obtain rest where r: "chunk_loop mx 0 p ps = Some rest" using chunk_loop_total by blast
      then show ?thesis using Cons.prems Cons.IH [OF r] True small by auto
    next
      case False
      then have r: "chunk_loop mx 0 (add_piece CHR 0x0A buf p) ps = Some cs" using Cons.prems small by simp
      show ?thesis using Cons.IH [OF r] by (simp add: ink_add_piece)
    qed
  qed
qed

lemma ink_join_lines: "ink (join_str xs [CHR 0x0A, CHR 0x0A]) = concat (map ink xs)"
  by (induction xs "[CHR 0x0A, CHR 0x0A]" rule: join_str.induct) (simp_all add: ink_append boundary_ascii)

lemma ink_nonblanks: "concat (map ink (concat (map nonblank xs))) = concat (map ink xs)"
  by (induction xs) simp_all

lemma ink_split_paragraphs: "concat (map ink (split_paragraphs txt)) = ink txt"
proof -
  let ?xs = "split_str txt [CHR 0x0A, CHR 0x0A]"
  have "concat (map ink (concat (map nonblank ?xs))) = ink txt"
    using ink_nonblanks [of ?xs] ink_join_lines [of ?xs] by (simp only: join_split)
  then show ?thesis by (simp only: split_paragraphs_def Let_def) (simp split: if_split)
qed

section \<open>Sizes\<close>

definition sentence_mark :: "char \<Rightarrow> bool" where
  "sentence_mark c = (c \<in> {CHR ''.'', CHR ''?''})"

definition sentence_gap :: "char \<Rightarrow> bool" where
  "sentence_gap c = (c \<in> {CHR '' '', CHR 0x0A})"

text \<open>No sentence ends inside: no full stop or question mark is followed by a space or a line end.\<close>

fun one_sentence :: "string \<Rightarrow> bool" where
  "one_sentence (c # d # s) = (\<not> (sentence_mark c \<and> sentence_gap d) \<and> one_sentence (d # s))"
| "one_sentence _ = True"

lemma one_sentence_append:
  "one_sentence (u @ v) = (one_sentence u \<and> one_sentence v \<and> (u \<noteq> [] \<and> v \<noteq> [] \<longrightarrow> \<not> (sentence_mark (last u) \<and> sentence_gap (hd v))))"
proof (induction u)
  case (Cons c u)
  then show ?case by (cases u; cases v) auto
qed simp

lemma trim_factor: "\<exists>a b. s = a @ trim_space s @ b"
proof -
  obtain n where "trim_left s = drop n s" using trim_left_drop by blast
  moreover obtain b where "trim_left s = trim_space s @ b" unfolding trim_space_def using trim_right_split by blast
  ultimately have "s = take n s @ trim_space s @ b" by (metis append_take_drop_id)
  then show ?thesis by blast
qed

lemma one_sentence_trim: "one_sentence s \<Longrightarrow> one_sentence (trim_space s)"
  using trim_factor [of s] by (metis one_sentence_append)

lemma trim_le: "length (trim_space s) \<le> length s"
proof -
  obtain a b where "s = a @ trim_space s @ b" using trim_factor by blast
  then have "length s = length a + length (trim_space s) + length b" by (metis add.assoc length_append)
  then show ?thesis by simp
qed

lemma one_sentence_high: "\<forall>c\<in>set s. 128 \<le> byte c \<Longrightarrow> one_sentence s"
  by (induction s rule: one_sentence.induct) (auto simp: sentence_mark_def)

lemma encode_high:
  assumes "scalar r" and "128 \<le> r"
  shows "\<forall>c\<in>set (encode_rune r). 128 \<le> byte c"
  using assms(1)
proof (cases rule: encode_cases)
  case 1
  then show ?thesis using assms(2) by simp
qed simp_all

lemma ascii_rune: "decode_rune (c # s) = (r, w) \<Longrightarrow> r < 128 \<Longrightarrow> r = byte c \<and> w = 1"
  by (auto simp: decode_rune_def second_ok_def cont_byte_def rune_error_def split: list.splits if_splits)

lemma nonblank_mem: "x \<in> set (nonblank s) \<Longrightarrow> x = trim_space s"
  by (simp add: nonblank_def Let_def split: if_splits)

lemma sentence_step:
  assumes "s \<noteq> []" and d: "decode_rune s = (r, w)"
    and "one_sentence buf" and "buf \<noteq> [] \<longrightarrow> \<not> (sentence_mark (last buf) \<and> sentence_gap (hd s))"
  shows "one_sentence (buf @ encode_rune r)"
    and "\<not> (ends_sentence r \<and> break_after s) \<Longrightarrow> drop w s \<noteq> [] \<Longrightarrow>
      \<not> (sentence_mark (last (buf @ encode_rune r)) \<and> sentence_gap (hd (drop w s)))"
proof -
  have sc: "scalar r" using decode_scalar [of s] d by simp
  obtain c s' where s: "s = c # s'" using assms(1) by (cases s) auto
  show "one_sentence (buf @ encode_rune r)"
  proof (cases "r < 128")
    case True
    then have "r = byte c" using ascii_rune d s by metis
    then have "encode_rune r = [c]" using True by (simp add: encode_rune_def)
    then show ?thesis using assms(3,4) s by (simp add: one_sentence_append)
  next
    case False
    then have high: "\<forall>c\<in>set (encode_rune r). 128 \<le> byte c" using encode_high sc by simp
    then have "128 \<le> byte (hd (encode_rune r))" by simp
    then have "\<not> sentence_gap (hd (encode_rune r))" by (auto simp: sentence_gap_def)
    then show ?thesis using assms(3) one_sentence_high [OF high] by (simp add: one_sentence_append)
  qed
  assume go: "\<not> (ends_sentence r \<and> break_after s)" and rest: "drop w s \<noteq> []"
  show "\<not> (sentence_mark (last (buf @ encode_rune r)) \<and> sentence_gap (hd (drop w s)))"
  proof (cases "r < 128")
    case True
    then have r: "r = byte c" "w = 1" using ascii_rune d s by metis+
    then have "encode_rune r = [c]" using True by (simp add: encode_rune_def)
    moreover have "ends_sentence r" if "sentence_mark c" using that r by (auto simp: sentence_mark_def ends_sentence_def)
    moreover have "\<not> sentence_gap (hd s')" if "\<not> break_after s"
      using that rest r s by (cases s') (auto simp: break_after_def sentence_gap_def)
    ultimately show ?thesis using go r s by auto
  next
    case False
    then have "\<forall>c\<in>set (encode_rune r). 128 \<le> byte c" using encode_high sc by simp
    then have "128 \<le> byte (last (encode_rune r))" by simp
    then show ?thesis by (auto simp: sentence_mark_def)
  qed
qed

lemma sentences_are_one:
  "one_sentence buf \<Longrightarrow> (buf \<noteq> [] \<longrightarrow> s \<noteq> [] \<longrightarrow> \<not> (sentence_mark (last buf) \<and> sentence_gap (hd s))) \<Longrightarrow>
   x \<in> set (sentences_from buf s) \<Longrightarrow> one_sentence x"
proof (induction buf s rule: sentences_from.induct)
  case (1 buf s)
  show ?case
  proof (cases "s = []")
    case True
    then have "x \<in> set (nonblank buf)" using "1.prems"(3) by (subst (asm) sentences_from.simps) (simp split: if_splits)
    then show ?thesis using "1.prems"(1) nonblank_mem one_sentence_trim by blast
  next
    case False
    obtain r w where d: "decode_rune s = (r, w)" by (metis surj_pair)
    have pre: "buf \<noteq> [] \<longrightarrow> \<not> (sentence_mark (last buf) \<and> sentence_gap (hd s))" using "1.prems"(2) False by blast
    note step = sentence_step [OF False d "1.prems"(1) pre]
    show ?thesis
    proof (cases "ends_sentence r \<and> break_after s")
      case True
      then have "x \<in> set (nonblank (buf @ encode_rune r)) \<or> x \<in> set (sentences_from [] (drop w s))"
        using "1.prems"(3) False by (subst (asm) sentences_from.simps) (simp add: d)
      then show ?thesis
      proof
        assume "x \<in> set (nonblank (buf @ encode_rune r))"
        then show ?thesis using step(1) nonblank_mem one_sentence_trim by blast
      next
        assume "x \<in> set (sentences_from [] (drop w s))"
        then show ?thesis by (intro "1.IH"(1) [OF False d [symmetric] refl refl True]) simp_all
      qed
    next
      case N: False
      then have "x \<in> set (sentences_from (buf @ encode_rune r) (drop w s))"
        using "1.prems"(3) False by (subst (asm) sentences_from.simps) (auto simp: d)
      then show ?thesis using step(2) [OF N] by (intro "1.IH"(2) [OF False d [symmetric] refl refl N step(1)]) auto
    qed
  qed
qed

lemma pack_bound:
  assumes "\<forall>s\<in>set ss. one_sentence s" and "length buf \<le> mx \<or> one_sentence buf" and "x \<in> set (pack_sentences mx 0 buf ss)"
  shows "length x \<le> mx \<or> one_sentence x"
  using assms
proof (induction ss arbitrary: buf)
  case Nil
  then show ?case using trim_le [of buf] one_sentence_trim [of buf] by (auto split: if_splits)
next
  case (Cons s ss)
  show ?case
  proof (cases "is_full mx buf s")
    case True
    then have "x = trim_space buf \<or> x \<in> set (pack_sentences mx 0 s ss)" using Cons.prems(3) by simp
    then show ?thesis
    proof
      assume "x = trim_space buf"
      then show ?thesis using Cons.prems(2) trim_le [of buf] one_sentence_trim [of buf] by auto
    qed (use Cons in auto)
  next
    case False
    then have "x \<in> set (pack_sentences mx 0 (add_piece CHR '' '' buf s) ss)" using Cons.prems(3) by simp
    moreover have "length (add_piece CHR '' '' buf s) \<le> mx \<or> one_sentence (add_piece CHR '' '' buf s)"
      using False Cons.prems(1) by (auto simp: is_full_def add_piece_def)
    ultimately show ?thesis using Cons.IH Cons.prems(1) by simp
  qed
qed

lemma chunk_loop_bound:
  assumes "chunk_loop mx 0 buf ps = Some cs" and "length buf \<le> mx" and "x \<in> set cs"
  shows "length x \<le> mx \<or> one_sentence x"
  using assms
proof (induction ps arbitrary: buf cs)
  case Nil
  then show ?case using trim_le [of buf] by (auto split: if_splits)
next
  case (Cons p ps)
  have tb: "length (trim_space buf) \<le> mx" using trim_le [of buf] Cons.prems(2) by simp
  show ?case
  proof (cases "mx < length p")
    case True
    obtain rest where r: "chunk_loop mx 0 [] ps = Some rest" using chunk_loop_total by blast
    then have cs: "cs = (if buf \<noteq> [] then [trim_space buf] else []) @ pack_sentences mx 0 [] (sentences_from [] p) @ rest"
      using Cons.prems(1) True by (simp add: split_large_total)
    have "\<forall>s\<in>set (sentences_from [] p). one_sentence s" using sentences_are_one [of "[]" p] by simp
    then have "length x \<le> mx \<or> one_sentence x" if "x \<in> set (pack_sentences mx 0 [] (sentences_from [] p))"
      using pack_bound [OF _ _ that] by simp
    then show ?thesis using cs tb Cons.prems(3) Cons.IH [OF r] by (auto split: if_splits)
  next
    case False
    note small = this
    show ?thesis
    proof (cases "is_full mx buf p")
      case True
      obtain rest where r: "chunk_loop mx 0 p ps = Some rest" using chunk_loop_total by blast
      then show ?thesis using Cons.prems Cons.IH [OF r] True small tb by auto
    next
      case False
      then have r: "chunk_loop mx 0 (add_piece CHR 0x0A buf p) ps = Some cs" using Cons.prems small by simp
      have "length (add_piece CHR 0x0A buf p) \<le> mx" using False small by (auto simp: is_full_def add_piece_def)
      then show ?thesis using Cons.IH [OF r] Cons.prems(3) by simp
    qed
  qed
qed

text \<open>
  C25. Cutting an article always returns. The chunks, numbered from zero, hold every code point of the text that is not white
  space, in order and once; and a chunk of more than 1000 bytes has no sentence end inside, that is, no full stop or question
  mark followed by a space or a line end.
\<close>

theorem chunks_cover_the_text:
  "\<exists>cs. chunk_text txt 0 0 = Some cs
    \<and> concat (map (ink \<circ> ck_content) cs) = ink txt
    \<and> map ck_index cs = [0..<length cs]
    \<and> list_all (\<lambda>c. length (ck_content c) \<le> 1000 \<or> one_sentence (ck_content c)) cs"
proof -
  obtain cs where cs: "chunk_loop 1000 0 [] (split_paragraphs txt) = Some cs" using chunk_loop_total by blast
  define ch where "ch = map (\<lambda>(i, c). \<lparr>ck_content = c, ck_index = i\<rparr>) (List.enumerate 0 cs)"
  have "chunk_text txt 0 0 = Some ch" using cs by (simp add: chunk_text_def chunk_sizes_def default_chunk_size_def ch_def)
  moreover have co: "map ck_content ch = cs"
    using map_snd_enumerate [of 0 cs] by (simp add: ch_def comp_def case_prod_unfold)
  have "map (ink \<circ> ck_content) ch = map ink cs" by (simp flip: co)
  then have "concat (map (ink \<circ> ck_content) ch) = ink txt" using ink_chunk_loop [OF cs] ink_split_paragraphs by simp
  moreover have "map ck_index ch = [0..<length ch]"
    using map_fst_enumerate [of 0 cs] by (simp add: ch_def comp_def case_prod_unfold)
  moreover have "list_all (\<lambda>c. length (ck_content c) \<le> 1000 \<or> one_sentence (ck_content c)) ch"
    using chunk_loop_bound [OF cs] by (auto simp: list_all_iff simp flip: co)
  ultimately show ?thesis by blast
qed

section \<open>Marks outside ASCII\<close>

lemma wide_rune_second:
  assumes "decode_rune s = (r, w)" and "128 \<le> r" and "r \<noteq> rune_error"
  shows "2 \<le> length s \<and> 128 \<le> byte (s ! 1)"
proof (cases s)
  case Nil
  then show ?thesis using assms by (simp add: decode_rune_def)
next
  case (Cons a s1)
  then show ?thesis
    using assms by (auto simp: decode_rune_def cont_byte_def dest: second_ok_cont split: list.splits if_splits)
qed

lemma wide_mark_never_ends:
  assumes "decode_rune s = (r, w)" and "128 \<le> r"
  shows "\<not> (ends_sentence r \<and> break_after s)"
proof
  assume e: "ends_sentence r \<and> break_after s"
  then have "r \<noteq> rune_error" by (auto simp: ends_sentence_def rune_error_def)
  then have "2 \<le> length s" "128 \<le> byte (s ! 1)" using wide_rune_second assms by blast+
  then show False using e by (auto simp: break_after_def)
qed

lemma unmarked_sentences:
  "CHR ''.'' \<notin> set s \<Longrightarrow> CHR ''?'' \<notin> set s \<Longrightarrow> buf = [] \<and> s = [] \<or> (\<exists>t. sentences_from buf s = nonblank t)"
proof (induction buf s rule: sentences_from.induct)
  case (1 buf s)
  show ?case
  proof (cases "s = []")
    case True
    then show ?thesis by (subst sentences_from.simps) auto
  next
    case False
    obtain r w where d: "decode_rune s = (r, w)" by (metis surj_pair)
    obtain c s' where s: "s = c # s'" using False by (cases s) auto
    have N: "\<not> (ends_sentence r \<and> break_after s)"
    proof (cases "r < 128")
      case True
      then have "r = byte c" using ascii_rune d s by metis
      moreover have "c \<noteq> CHR ''.''" "c \<noteq> CHR ''?''" using "1.prems" s by auto
      moreover have "byte CHR ''.'' = 46" "byte CHR ''?'' = 63" by simp_all
      ultimately have "r \<noteq> 46" "r \<noteq> 63" using char_of_char by metis+
      then show ?thesis using True by (auto simp: ends_sentence_def)
    next
      case False
      then show ?thesis using wide_mark_never_ends [OF d] by simp
    qed
    then have "sentences_from buf s = sentences_from (buf @ encode_rune r) (drop w s)"
      using False by (subst sentences_from.simps) (auto simp: d)
    moreover have "CHR ''.'' \<notin> set (drop w s)" "CHR ''?'' \<notin> set (drop w s)" using "1.prems" by (auto dest: in_set_dropD)
    ultimately show ?thesis using "1.IH"(2) [OF False d [symmetric] refl refl N] by simp
  qed
qed

lemma runes_le: "length (runes s) \<le> length s"
proof (induction s rule: runes.induct)
  case (1 s)
  show ?case
  proof (cases "s = []")
    case False
    then show ?thesis using "1.IH" decode_rune_width [OF False] runes_step [OF False] by fastforce
  qed simp
qed

lemma ink_le: "length (ink s) \<le> length s"
  unfolding ink_def using runes_le [of s] length_filter_le [of "\<lambda>r. \<not> is_space r" "runes s"] by (rule order_trans [rotated])

lemma split_no_newline: "CHR 0x0A \<notin> set s \<Longrightarrow> split_aux [CHR 0x0A, CHR 0x0A] 0 acc s = [rev acc @ s]"
  by (induction s arbitrary: acc) (auto simp: has_prefix_def)

lemma nonblank_ink: "ink s \<noteq> [] \<Longrightarrow> nonblank s = [trim_space s]"
  by (metis ink_Nil ink_trim nonblank_def)

lemma set_trim: "c \<in> set (trim_space s) \<Longrightarrow> c \<in> set s"
  using trim_factor [of s] by (metis Un_iff set_append)

text \<open>
  C28. The full-width marks never end a sentence: a line of Chinese text with more than 1000 characters and neither a full stop
  nor a question mark of ASCII becomes one chunk over the limit, whatever its sentences.
\<close>

theorem unmarked_text_is_one_chunk:
  assumes "CHR 0x0A \<notin> set txt" and "CHR ''.'' \<notin> set txt" and "CHR ''?'' \<notin> set txt" and "1000 < length (ink txt)"
  shows "\<exists>c. chunk_text txt 0 0 = Some [\<lparr>ck_content = c, ck_index = 0\<rparr>] \<and> ink c = ink txt \<and> 1000 < length c"
proof -
  let ?p = "trim_space txt"
  have ink: "ink txt \<noteq> []" "ink ?p = ink txt" using assms(4) by auto
  have ps: "split_paragraphs txt = [?p]"
    using split_no_newline [OF assms(1), of "[]"] nonblank_ink [OF ink(1)] by (simp add: split_paragraphs_def split_str_def)
  have long: "1000 < length ?p" using ink_le [of ?p] ink assms(4) by simp
  then have "?p \<noteq> []" by auto
  then obtain t where t: "sentences_from [] ?p = nonblank t" using unmarked_sentences [of ?p "[]"] assms(2,3) set_trim by blast
  have "ink t = ink txt" using ink_sentences_from [of "[]" ?p] ink t by simp
  then have st: "sentences_from [] ?p = [trim_space t]" using t nonblank_ink ink by simp
  define c where "c = trim_space t"
  have c: "ink c = ink txt" using \<open>ink t = ink txt\<close> by (simp add: c_def)
  then have ne: "c \<noteq> []" using ink by auto
  have "trim_space c = c" by (simp add: c_def)
  then have "chunk_text txt 0 0 = Some [\<lparr>ck_content = c, ck_index = 0\<rparr>]"
    using long st ne by (simp add: chunk_text_def chunk_sizes_def default_chunk_size_def ps split_large_total is_full_def c_def [symmetric])
  moreover have "1000 < length c" using ink_le [of c] c assms(4) by simp
  ultimately show ?thesis using c by blast
qed

lemma runes_encoded: "\<forall>r\<in>set rs. scalar r \<Longrightarrow> runes (concat (map encode_rune rs)) = rs"
  by (induction rs) simp_all

text \<open>Six hundred sentences of one character.\<close>

definition chinese_line :: "string" where
  "chinese_line = concat (map encode_rune (concat (replicate 600 [22909, 12290])))"

lemma unmarked_text_is_one_chunk_witness:
  "\<exists>c. chunk_text chinese_line 0 0 = Some [\<lparr>ck_content = c, ck_index = 0\<rparr>] \<and> ink c = ink chinese_line \<and> 1000 < length c"
proof (rule unmarked_text_is_one_chunk)
  have "set chinese_line \<subseteq> set (encode_rune 22909) \<union> set (encode_rune 12290)" by (auto simp: chinese_line_def)
  moreover have "\<forall>c\<in>set (encode_rune 22909) \<union> set (encode_rune 12290). 128 \<le> byte c"
    using encode_high [of 22909] encode_high [of 12290] by (simp add: scalar_def ball_Un)
  ultimately have high: "128 \<le> byte c" if "c \<in> set chinese_line" for c using that by blast
  show "CHR 0x0A \<notin> set chinese_line" "CHR ''.'' \<notin> set chinese_line" "CHR ''?'' \<notin> set chinese_line" using high by fastforce+
  have "runes chinese_line = concat (replicate 600 [22909, 12290])"
    unfolding chinese_line_def by (rule runes_encoded) (auto simp: scalar_def)
  moreover have "List.filter (\<lambda>r. \<not> is_space r) (concat (replicate n [22909, 12290])) = concat (replicate n [22909, 12290])" for n
    by (induction n) (simp_all add: is_space_def is_wide_space_def)
  ultimately show "1000 < length (ink chinese_line)" by (simp add: ink_def length_concat sum_list_replicate)
qed

section \<open>Spans\<close>

lemma str_index_found: "str_index s sub = Some p \<Longrightarrow> p + length sub \<le> length s \<and> take (length sub) (drop p s) = sub"
proof (induction s arbitrary: p)
  case (Cons c s)
  show ?case
  proof (cases "has_prefix (c # s) sub")
    case True
    then obtain t where "c # s = sub @ t" by (auto simp: has_prefix_iff)
    moreover from this have "length (c # s) = length sub + length t" by (metis length_append)
    moreover have "p = 0" using Cons.prems True by simp
    ultimately show ?thesis by simp
  next
    case False
    then obtain q where "str_index s sub = Some q" "p = Suc q" using Cons.prems by auto
    then show ?thesis using Cons.IH by simp
  qed
qed (auto split: if_splits)

lemma line_end_le: "line_end content e lns = Some b \<Longrightarrow> e \<le> length content \<Longrightarrow> e \<le> b \<and> b \<le> length content"
proof (induction content e lns rule: line_end.induct)
  case (2 content e ln lns)
  then obtain p where p: "str_index (drop e content) ln = Some p" by (auto split: option.splits)
  have "p + length ln \<le> length content - e" using str_index_found [OF p] by simp
  then have "e + p + length ln \<le> length content" using "2.prems"(2) by linarith
  then show ?case using "2.IH" [OF p] "2.prems"(1) p by simp
qed simp

lemma span_in_text:
  "f \<le> length content \<Longrightarrow> i < length cs \<Longrightarrow> chunk_offsets content f cs ! i = Some (a, b) \<Longrightarrow>
   f \<le> a \<and> a \<le> b \<and> b \<le> length content \<and> has_prefix (drop a content) (hd (split_str (cs ! i) [CHR 0x0A]))"
proof (induction cs arbitrary: f i)
  case (Cons c cs)
  let ?lns = "split_str c [CHR 0x0A]"
  show ?case
  proof (cases "str_index (drop f content) (hd ?lns)")
    case None
    then have eq: "chunk_offsets content f (c # cs) = None # chunk_offsets content f cs" by simp
    then obtain j where "i = Suc j" using Cons.prems(3) by (cases i) auto
    then show ?thesis using Cons.IH [OF Cons.prems(1), of j] Cons.prems eq by simp
  next
    case (Some p)
    have p: "f + p + length (hd ?lns) \<le> length content" "has_prefix (drop (f + p) content) (hd ?lns)"
      using str_index_found [OF Some] Cons.prems(1) by (auto simp: has_prefix_def add.commute)
    show ?thesis
    proof (cases "line_end content (f + p + length (hd ?lns)) (tl ?lns)")
      case None
      then have eq: "chunk_offsets content f (c # cs) = None # chunk_offsets content f cs" using Some by simp
      then obtain j where "i = Suc j" using Cons.prems(3) by (cases i) auto
      then show ?thesis using Cons.IH [OF Cons.prems(1), of j] Cons.prems eq by simp
    next
      case S: (Some e)
      then have eq: "chunk_offsets content f (c # cs) = Some (f + p, e) # chunk_offsets content (f + p) cs" using Some by (simp add: Let_def)
      show ?thesis
      proof (cases i)
        case 0
        then show ?thesis using Cons.prems(3) eq line_end_le [OF S p(1)] p(2) by auto
      next
        case (Suc j)
        then show ?thesis using Cons.IH [of "f + p" j] Cons.prems eq p(1) by simp
      qed
    qed
  qed
qed simp

text \<open>A chunk that repeats the one before it is given the span of the first.\<close>

lemma str_index_here: "str_index (drop f s) sub = Some p \<Longrightarrow> str_index (drop (f + p) s) sub = Some 0"
proof -
  assume "str_index (drop f s) sub = Some p"
  then have "take (length sub) (drop p (drop f s)) = sub" using str_index_found by blast
  then have "take (length sub) (drop (f + p) s) = sub" by (simp add: add.commute)
  then have "has_prefix (drop (f + p) s) sub" by (simp add: has_prefix_def)
  then show ?thesis by (cases "drop (f + p) s") (auto simp: has_prefix_def)
qed

lemma repeated_chunk_shares_span:
  assumes "chunk_offsets content f (c # c # cs) ! 0 = Some (a, b)"
  shows "chunk_offsets content f (c # c # cs) ! 1 = Some (a, b)"
proof -
  let ?lns = "split_str c [CHR 0x0A]"
  obtain p where p: "str_index (drop f content) (hd ?lns) = Some p" "line_end content (f + p + length (hd ?lns)) (tl ?lns) = Some b" "a = f + p"
    using assms by (simp add: Let_def split: option.splits)
  then show ?thesis using str_index_here [OF p(1)] by (simp add: Let_def)
qed

end
