(* ===== verification/Kb_Merge_Laws.thy ===== *)
theory Kb_Merge_Laws
  imports Kb_Source_Laws Kb_Chunk_Laws
begin

text \<open>
  Two operations on the sources of the knowledge base that do not fit: the merge of an article and the derivation of its
  chunks from the kept original, and the edit of a flash and the pass that fills in missing vectors.
\<close>

section \<open>A merge does not survive the next derivation\<close>

definition kept_columns :: "kb_source \<Rightarrow> string \<times> string \<times> string \<times> string \<times> string \<times> string" where
  "kept_columns s = (sr_id s, sr_agent s, sr_type s, sr_source_type s, sr_orig s, sr_hash s)"

lemma kept_change:
  "(\<And>s. kept_columns (f s) = kept_columns s) \<Longrightarrow> map kept_columns (kr_sources (change_sources p f st)) = map kept_columns (kr_sources st)"
  by simp

lemma kept_replace: "map kept_columns (kr_sources (snd (replace_article_content now agent sid content st))) = map kept_columns (kr_sources st)"
  by (auto simp: replace_article_content_def Let_def kept_columns_def split: option.split)

lemma kept_merge:
  assumes "merge_articles invoker now agent sid content st = (Inr merged, st1)"
  shows "map kept_columns (kr_sources st1) = map kept_columns (kr_sources st)"
proof -
  have dirty: "map kept_columns (kr_sources (change_sources p (\<lambda>s. s\<lparr>sr_wiki_dirty := Some now, sr_updated := now\<rparr>) u)) = map kept_columns (kr_sources u)"
    for p and u :: "'a kb_store"
    by (rule kept_change) (simp add: kept_columns_def)
  obtain x st2 where rep: "replace_article_content now agent sid merged st = (x, st2)" by (metis surj_pair)
  then have st2: "map kept_columns (kr_sources st2) = map kept_columns (kr_sources st)" using kept_replace by (metis snd_conv)
  have "\<exists>p y. st1 = change_sources p (\<lambda>s. s\<lparr>sr_wiki_dirty := Some now, sr_updated := now\<rparr>) (st2\<lparr>kr_insights := y\<rparr>)"
    using assms rep by (auto simp: merge_articles_def Let_def split: option.splits if_splits prod.splits)
  then obtain p y where "st1 = change_sources p (\<lambda>s. s\<lparr>sr_wiki_dirty := Some now, sr_updated := now\<rparr>) (st2\<lparr>kr_insights := y\<rparr>)" by blast
  then have "map kept_columns (kr_sources st1) = map kept_columns (kr_sources (st2\<lparr>kr_insights := y\<rparr>))" by (simp only: dirty)
  then show ?thesis using st2 by simp
qed

lemma entries_rewash_one:
  "rows_of_source t (kr_entries (rewash_one now hash agent sid governed cs st))
   = (if t = sid then fresh_entries agent sid 0 (kr_next st) cs else rows_of_source t (kr_entries st))"
proof (cases "t = sid")
  case True
  have "rows_of_source sid (List.filter (\<lambda>e. en_source e \<noteq> sid) (kr_entries st)) = []" by (auto simp: rows_of_source_def filter_empty_conv)
  then show ?thesis using True by (simp add: rewash_one_def rows_of_fresh)
next
  case False
  have "rows_of_source t (List.filter (\<lambda>e. en_source e \<noteq> sid) (kr_entries st)) = rows_of_source t (kr_entries st)"
    using False by (auto simp: rows_of_source_def intro!: filter_cong)
  then show ?thesis using False by (simp add: rewash_one_def rows_of_fresh)
qed

lemma entries_rewash_step: "t \<noteq> sr_id v \<Longrightarrow> rows_of_source t (kr_entries (snd (rewash_step b now hash agent v acc))) = rows_of_source t (kr_entries (snd acc))"
proof -
  assume "t \<noteq> sr_id v"
  moreover obtain rep st where "acc = (rep, st)" by (metis surj_pair)
  ultimately show ?thesis using rewash_step_cases [of b now hash agent v rep st] by (auto simp: entries_rewash_one)
qed

lemma entries_rewash_fold:
  "t \<notin> sr_id ` set vs \<Longrightarrow>
   rows_of_source t (kr_entries (snd (foldl (\<lambda>acc v. rewash_step b now hash agent v acc) acc vs))) = rows_of_source t (kr_entries (snd acc))"
  by (induction vs arbitrary: acc) (auto simp: entries_rewash_step)

lemma rewash_derives:
  assumes "distinct (map sr_id (kr_sources st))" and "v \<in> set (kr_sources st)" and "sr_agent v = agent" and "sr_type v = ''article''"
    and "sr_orig v \<noteq> []" and "sr_hash v \<noteq> hash"
    and "cut_text (govern_content (sr_orig v) (sr_source_type v)) = Some cs" and "cs \<noteq> []"
  shows "map en_content (rows_of_source (sr_id v) (kr_entries (snd (rewash_sources True now hash agent st)))) = map fst cs"
proof -
  let ?vs = "List.filter (\<lambda>s. sr_agent s = agent \<and> (sr_type s = ''article'' \<or> sr_type s = [])) (kr_sources st)"
  have "v \<in> set ?vs" using assms(2-4) by simp
  then obtain xs ys where vs: "?vs = xs @ v # ys" by (meson split_list)
  have "distinct (map sr_id ?vs)" using assms(1) by (rule distinct_map_filter)
  then have ys: "sr_id v \<notin> sr_id ` set ys" by (simp add: vs)
  define acc where "acc = foldl (\<lambda>acc v. rewash_step True now hash agent v acc)
       (\<lparr>rp_scanned = 0, rp_would_change = 0, rp_rewashed = 0, rp_fresh = 0, rp_empty = 0, rp_missing = 0\<rparr>, st) xs"
  obtain rep st1 where acc1: "acc = (rep, st1)" by (metis surj_pair)
  have "snd (rewash_step True now hash agent v acc) = rewash_one now hash agent (sr_id v) (govern_content (sr_orig v) (sr_source_type v)) cs st1"
    using assms(5-8) by (simp add: rewash_step_def acc1 Let_def)
  then have "rows_of_source (sr_id v) (kr_entries (snd (rewash_sources True now hash agent st))) = fresh_entries agent (sr_id v) 0 (kr_next st1) cs"
    unfolding rewash_sources_def vs foldl_append foldl.simps acc_def [symmetric] by (simp only: entries_rewash_fold [OF ys] entries_rewash_one) simp
  then show ?thesis by (simp add: fresh_facts)
qed

text \<open>
  C26. The merge of an article is undone by the next derivation of the chunks: the merge replaces the chunks and leaves the kept
  original and its hash, so that when the rules change, the chunks are cut from the original again and the merged text is gone.
\<close>

theorem rewash_undoes_merge:
  assumes "distinct (map sr_id (kr_sources st))" and "s \<in> set (kr_sources st)" and "is_source agent sid s" and "sr_type s = ''article''"
    and "sr_orig s \<noteq> []" and "sr_hash s \<noteq> hash"
    and "cut_text (govern_content (sr_orig s) (sr_source_type s)) = Some cs" and "cs \<noteq> []"
    and merge: "merge_articles invoker now agent sid content st = (Inr merged, st1)"
  shows "map en_content (rows_of_source sid (kr_entries (snd (rewash_sources True now2 hash agent st1)))) = map fst cs"
proof -
  have kept: "map kept_columns (kr_sources st1) = map kept_columns (kr_sources st)" by (rule kept_merge [OF merge])
  then have "map fst (map kept_columns (kr_sources st1)) = map fst (map kept_columns (kr_sources st))" by simp
  then have ids: "distinct (map sr_id (kr_sources st1))" using assms(1) by (simp add: kept_columns_def comp_def)
  have "kept_columns s \<in> set (map kept_columns (kr_sources st1))" unfolding kept using assms(2) by simp
  then obtain v where v: "v \<in> set (kr_sources st1)" "kept_columns s = kept_columns v" by auto
  then have cols: "sr_id v = sid" "sr_agent v = agent" "sr_type v = ''article''" "sr_orig v \<noteq> []" "sr_hash v \<noteq> hash"
      "cut_text (govern_content (sr_orig v) (sr_source_type v)) = Some cs"
    using assms(3-7) by (auto simp: kept_columns_def is_source_def)
  show ?thesis using rewash_derives [OF ids v(1) cols(2-6) assms(8), of now2] cols(1) by simp
qed

text \<open>An article of one word, merged into another word, after which the rules change.\<close>

definition one_article :: "nat kb_store" where
  "one_article = snd (ingest_text ''s1'' ''t1'' ''h1'' no_origin ''ann'' ''Fruit'' ''apple'' ''text'' ''manual'' empty_kb)"

definition after_merge :: "nat kb_store" where
  "after_merge = snd (merge_articles (Some (\<lambda>old new. Some ''pear'')) ''t2'' ''ann'' ''s1'' ''pear'' one_article)"

text \<open>A short text of visible characters is cleaned to itself and is one chunk.\<close>

definition plain_word :: "string \<Rightarrow> bool" where
  "plain_word s = (s \<noteq> [] \<and> list_all visible s \<and> length s \<le> 1000)"

lemma plain_facts:
  assumes "plain_word s"
  shows "s \<noteq> []" and "\<And>c. c \<in> set s \<Longrightarrow> visible c" and "length s \<le> 1000" and "CHR 0x0A \<notin> set s" and "trim_space s = s"
proof -
  show ne: "s \<noteq> []" and vis: "\<And>c. c \<in> set s \<Longrightarrow> visible c" and "length s \<le> 1000"
    using assms by (auto simp: plain_word_def list_all_iff)
  show "CHR 0x0A \<notin> set s" using vis [of "CHR 0x0A"] by (auto simp: visible_def)
  show "trim_space s = s" using ne vis by (intro trim_space_visible) simp_all
qed

lemma strip_ascii: "list_all visible s \<Longrightarrow> strip_zero_width s = s"
proof (induction s)
  case Nil
  then show ?case by (subst strip_zero_width.simps) simp
next
  case (Cons c s)
  then have "byte c \<notin> set zero_width" by (auto simp: zero_width_def visible_def)
  then show ?case using Cons by (subst strip_zero_width.simps) simp
qed

lemma collapse_plain: "CHR 0x0A \<notin> set s \<Longrightarrow> collapse_blank_lines k s = s"
  by (induction s arbitrary: k) auto

lemma trailing_plain:
  assumes "plain_word s"
  shows "strip_trailing_blanks s = s"
proof -
  have "visible (hd (rev s))" using plain_facts(1,2) [OF assms] by (simp add: hd_rev)
  then have "dropWhile is_blank (rev s) = rev s"
    using plain_facts(1) [OF assms] by (cases "rev s") (auto simp: is_blank_def visible_def)
  then show ?thesis
    using split_aux_char_end [OF plain_facts(4) [OF assms], of "[]"] by (simp add: strip_trailing_blanks_def split_str_def)
qed

lemma govern_plain: "plain_word s \<Longrightarrow> govern_content s ''text'' = s"
  using trailing_plain [of s] collapse_plain [of s 0] plain_facts(4) [of s]
  by (simp add: govern_content_def strip_ascii plain_word_def)

lemma chunk_plain:
  assumes "plain_word s"
  shows "chunk_text s 0 0 = Some [\<lparr>ck_content = s, ck_index = 0\<rparr>]"
proof -
  have "split_paragraphs s = [s]"
    using split_no_newline [OF plain_facts(4) [OF assms], of "[]"] plain_facts(1,5) [OF assms]
    by (simp add: split_paragraphs_def split_str_def nonblank_def)
  then show ?thesis
    using plain_facts(1,3,5) [OF assms] by (simp add: chunk_text_def chunk_sizes_def default_chunk_size_def is_full_def)
qed

lemma cut_plain:
  assumes "plain_word s"
  shows "cut_text s = Some [(s, Some (0, length s))]"
proof -
  have "str_index s s = Some 0" using plain_facts(1) [OF assms] by (cases s) (auto simp: has_prefix_def)
  moreover have "split_str s [CHR 0x0A] = [s]" using split_aux_char_end [OF plain_facts(4) [OF assms], of "[]"] by (simp add: split_str_def)
  ultimately show ?thesis by (simp add: cut_text_def chunk_plain [OF assms])
qed

lemma plain_words: "plain_word ''apple''" "plain_word ''pear''"
  by (simp_all add: plain_word_def visible_def)

lemma one_article_eq:
  "one_article = empty_kb
    \<lparr>kr_sources := [(new_source ''s1'' ''t1'' no_origin ''ann'' ''Fruit'' ''text'' ''manual'' 1 5)\<lparr>sr_orig := ''apple'', sr_hash := ''h1''\<rparr>],
     kr_entries := [\<lparr>en_id = 1, en_agent = ''ann'', en_source = ''s1'', en_index = 0, en_content = ''apple'', en_span = Some (0, 5)\<rparr>],
     kr_next := 2\<rparr>"
  by (simp add: one_article_def ingest_text_def govern_plain cut_plain plain_words empty_kb_def new_source_def Let_def)

lemma merge_of_one: "merge_articles (Some (\<lambda>old new. Some ''pear'')) ''t2'' ''ann'' ''s1'' ''pear'' one_article = (Inr ''pear'', after_merge)"
proof -
  have "fst (merge_articles (Some (\<lambda>old new. Some ''pear'')) ''t2'' ''ann'' ''s1'' ''pear'' one_article) = Inr ''pear''"
    by (simp add: merge_articles_def one_article_eq is_source_def new_source_def plain_facts(5) plain_words replace_article_content_def
        chunk_plain Let_def)
  then show ?thesis unfolding after_merge_def by (metis prod.collapse)
qed

lemma rewash_undoes_merge_witness:
  "merge_articles (Some (\<lambda>old new. Some ''pear'')) ''t2'' ''ann'' ''s1'' ''pear'' one_article = (Inr ''pear'', after_merge)
   \<and> map en_content (rows_of_source ''s1'' (kr_entries (snd (rewash_sources True ''t3'' ''h2'' ''ann'' after_merge)))) = [''apple'']"
proof
  let ?s = "(new_source ''s1'' ''t1'' no_origin ''ann'' ''Fruit'' ''text'' ''manual'' 1 5)\<lparr>sr_orig := ''apple'', sr_hash := ''h1''\<rparr>"
  have "map en_content (rows_of_source ''s1'' (kr_entries (snd (rewash_sources True ''t3'' ''h2'' ''ann'' after_merge)))) = map fst [(''apple'', Some (0 :: nat, 5 :: nat))]"
    by (rule rewash_undoes_merge [of one_article ?s, OF _ _ _ _ _ _ _ _ merge_of_one])
      (simp_all add: one_article_eq is_source_def new_source_def govern_plain cut_plain plain_words)
  then show "map en_content (rows_of_source ''s1'' (kr_entries (snd (rewash_sources True ''t3'' ''h2'' ''ann'' after_merge)))) = [''apple'']" by simp
qed (rule merge_of_one)

section \<open>An edited flash keeps its old vector\<close>

lemma vectors_save: "map_of (kr_vectors (save_vectors agent es vs st)) i = map_of (kr_vectors st) i" if "i \<notin> en_id ` set es"
proof -
  have "\<forall>x\<in>set xs. en_id (fst x) \<noteq> i \<Longrightarrow>
      map_of (kr_vectors (foldl (\<lambda>s (e, v). save_entry_embedding agent (en_id e) v s) st xs)) i = map_of (kr_vectors st) i" for xs
  proof (induction xs arbitrary: st)
    case (Cons x xs)
    then show ?case by (cases x) (simp add: save_entry_embedding_def update_conv')
  qed simp
  moreover have "\<forall>x\<in>set (zip es vs). en_id (fst x) \<noteq> i" using that by (auto dest: set_zip_leftD)
  ultimately show ?thesis unfolding save_vectors_def by blast
qed

lemma batches_entries: "kr_entries (snd (snd (backfill_batches f agent es acc))) = kr_entries (snd (snd acc))"
proof (induction f agent es acc rule: backfill_batches.induct)
  case (1 f agent es acc)
  obtain d k st where acc: "acc = (d, k, st)" by (metis surj_pair)
  have "kr_entries (snd (snd (embed_batch f agent (take 64 es) acc))) = kr_entries st"
    unfolding acc by (cases rule: embed_batch_cases [of f agent "take 64 es" d k st]) (simp_all add: save_vectors_rest)
  then show ?case using "1.IH" acc by (subst backfill_batches.simps) simp
qed

lemma batches_keep:
  "i \<notin> en_id ` set es \<Longrightarrow>
   map_of (kr_vectors (snd (snd (backfill_batches f agent es acc)))) i = map_of (kr_vectors (snd (snd acc))) i"
proof (induction f agent es acc rule: backfill_batches.induct)
  case (1 f agent es acc)
  obtain d k st where acc: "acc = (d, k, st)" by (metis surj_pair)
  have t: "i \<notin> en_id ` set (take 64 es)" and dr: "i \<notin> en_id ` set (drop 64 es)"
    using "1.prems" by (auto dest: in_set_takeD in_set_dropD)
  have "map_of (kr_vectors (snd (snd (embed_batch f agent (take 64 es) acc)))) i = map_of (kr_vectors st) i"
    unfolding acc
    by (cases rule: embed_batch_cases [of f agent "take 64 es" d k st]) (simp_all add: vectors_save [OF t])
  then show ?case using "1.IH" [OF _ dr] acc by (subst backfill_batches.simps) simp
qed

text \<open>
  When the embedding after an edit fails, the chunk of the flash keeps the vector of its old text for good: the hourly pass
  only looks at chunks without a vector, whatever the embedding service answers then.
\<close>

theorem edited_flash_keeps_old_vector:
  assumes "e \<in> set (kr_entries st)" and "of_source agent sid e" and "en_index e = 0"
    and "map_of (kr_vectors st) (en_id e) = Some (agent, v)"
    and edit: "update_flash now agent sid content st = (None, st1)"
    and pass: "backfill_entry_embeddings (Some f) agent st1 = Some (d, k, st2)"
  shows "e\<lparr>en_content := trim_space content\<rparr> \<in> set (kr_entries st2) \<and> map_of (kr_vectors st2) (en_id e) = Some (agent, v)"
proof -
  have st1: "kr_vectors st1 = kr_vectors st"
    "kr_entries st1 = map (\<lambda>e. if of_source agent sid e \<and> en_index e = 0 then e\<lparr>en_content := trim_space content\<rparr> else e) (kr_entries st)"
    using edit by (auto simp: update_flash_def rewrite_chunk_def Let_def split: option.splits if_splits)
  have "e\<lparr>en_content := trim_space content\<rparr> \<in> set (kr_entries st1)" using assms(1-3) by (force simp: st1)
  define es where "es = sort_key en_id (List.filter (\<lambda>e. en_agent e = agent \<and> map_of (kr_vectors st1) (en_id e) = None) (kr_entries st1))"
  have b: "backfill_batches f agent es (0, 0, st1) = (d, k, st2)"
    using pass by (simp add: backfill_entry_embeddings_def es_def split: if_splits)
  have "en_id e \<notin> en_id ` set es" using assms(4) by (auto simp: es_def st1(1))
  then show ?thesis using batches_keep [of "en_id e" es f agent "(0, 0, st1)"] batches_entries [of f agent es "(0, 0, st1)"] b assms(4) st1(1)
      \<open>e\<lparr>en_content := trim_space content\<rparr> \<in> set (kr_entries st1)\<close> by simp
qed

text \<open>A flash with a vector, edited while the embedding service is down.\<close>

definition one_flash :: "nat kb_store" where
  "one_flash = save_vectors ''ann'' [\<lparr>en_id = 1, en_agent = ''ann'', en_source = ''s1'', en_index = 0, en_content = ''apple'', en_span = None\<rparr>] [7]
     (snd (save_flash ''s1'' ''t1'' no_origin ''ann'' ''apple'' empty_kb))"

definition edited_flash :: "nat kb_store" where
  "edited_flash = snd (update_flash ''t2'' ''ann'' ''s1'' ''pear'' one_flash)"

definition filled_flash :: "nat kb_store" where
  "filled_flash = snd (snd (the (backfill_entry_embeddings (Some (\<lambda>ts. Some (map (\<lambda>t. 8) ts))) ''ann'' edited_flash)))"

lemma one_flash_parts:
  "kr_entries one_flash = [\<lparr>en_id = 1, en_agent = ''ann'', en_source = ''s1'', en_index = 0, en_content = ''apple'', en_span = None\<rparr>]"
  "kr_vectors one_flash = [(1, ''ann'', 7)]"
  "kr_sources one_flash = [(new_source ''s1'' ''t1'' no_origin ''ann'' (derive_title ''apple'') ''text'' ''manual'' 1 5)\<lparr>sr_type := ''flash''\<rparr>]"
  by (simp_all add: one_flash_def save_vectors_def save_entry_embedding_def save_flash_def save_single_chunk_def plain_facts(5) plain_words
      empty_kb_def new_source_def Let_def)

lemma edit_one_flash:
  "update_flash ''t2'' ''ann'' ''s1'' ''pear'' one_flash = (None, edited_flash)"
  "kr_entries edited_flash = [\<lparr>en_id = 1, en_agent = ''ann'', en_source = ''s1'', en_index = 0, en_content = ''pear'', en_span = None\<rparr>]"
proof -
  have find: "List.find (is_source ''ann'' ''s1'') (kr_sources one_flash)
      = Some ((new_source ''s1'' ''t1'' no_origin ''ann'' (derive_title ''apple'') ''text'' ''manual'' 1 5)\<lparr>sr_type := ''flash''\<rparr>)"
    by (simp add: one_flash_parts is_source_def new_source_def)
  have "fst (update_flash ''t2'' ''ann'' ''s1'' ''pear'' one_flash) = None"
    by (simp add: update_flash_def find plain_facts(5) plain_words Let_def is_source_def new_source_def)
  then show "update_flash ''t2'' ''ann'' ''s1'' ''pear'' one_flash = (None, edited_flash)" unfolding edited_flash_def by (metis prod.collapse)
  show "kr_entries edited_flash = [\<lparr>en_id = 1, en_agent = ''ann'', en_source = ''s1'', en_index = 0, en_content = ''pear'', en_span = None\<rparr>]"
    by (simp add: edited_flash_def update_flash_def find plain_facts(5) plain_words rewrite_chunk_def one_flash_parts of_source_def Let_def
        is_source_def new_source_def)
qed

lemma edited_flash_keeps_old_vector_witness:
  "map en_content (kr_entries filled_flash) = [''pear''] \<and> map_of (kr_vectors filled_flash) 1 = Some (''ann'', 7)"
proof -
  let ?e = "\<lparr>en_id = 1, en_agent = ''ann'', en_source = ''s1'', en_index = 0, en_content = ''apple'', en_span = None\<rparr>"
  define f :: "string list \<Rightarrow> nat list option" where "f = (\<lambda>ts. Some (map (\<lambda>t. 8) ts))"
  obtain x where x: "backfill_entry_embeddings (Some f) ''ann'' edited_flash = Some x" by (simp add: backfill_entry_embeddings_def)
  obtain d k st2 where dk: "x = (d, k, st2)" by (metis surj_pair)
  have pass: "backfill_entry_embeddings (Some f) ''ann'' edited_flash = Some (d, k, st2)" using x dk by simp
  have st2: "filled_flash = st2" using pass by (simp add: filled_flash_def f_def)
  have "map_of (kr_vectors st2) (en_id ?e) = Some (''ann'', 7)"
    by (rule edited_flash_keeps_old_vector [OF _ _ _ _ edit_one_flash(1) pass, THEN conjunct2]) (simp_all add: one_flash_parts of_source_def)
  moreover obtain es where b: "backfill_batches f ''ann'' es (0, 0, edited_flash) = (d, k, st2)"
    using pass by (simp add: backfill_entry_embeddings_def)
  have "kr_entries st2 = kr_entries edited_flash" using batches_entries [of f "''ann''" es "(0, 0, edited_flash)"] by (simp add: b)
  ultimately show ?thesis by (simp add: edit_one_flash(2) st2)
qed

end
