(* ===== verification/Spec2Isabelle.thy ===== *)
theory Spec2Isabelle
  imports Workflow_Laws Workflow_Retention Workflow_Run File_Tools Auth_Session Cron_Tools Access_Login Session_Laws Turn_Retry Turn_Pairing
    Channel_Lease Task_Queue Agent_Goal Failure_Laws Usage_Quota Config_Edit_Laws Chat_Claims_Laws Skill_Pending Kb_Card_Laws Wiki_Laws Card_Generate Kb_Merge_Laws
begin

text \<open>
  A verification development for Fluctio, a multi-tenant platform for agents written in Go: users chat with
  agents over the web and over messengers, an agent answers with a language model that calls tools, and
  workflows, scheduled jobs and a knowledge base surround the chats. Paths below are relative to
  \<^verbatim>\<open>src/\<close>.

  \<^bold>\<open>The parts and how they meet.\<close> A message enters through the routing, which drops redeliveries, finds
  the agent and queues the message by chat; a worker takes it from the queue, checks the quota and runs a
  turn; the turn reads the session, asks the provider, sends every tool call through the authorization gate
  and stores the messages. Failed turns are replayed by the failure sweep, scheduled ones are started by the
  cron scheduler, and a workflow is a graph of such calls whose progress is rows of the database. Accounts,
  keys and the layered configuration decide who may do what.

  \<^bold>\<open>Libraries.\<close> \<open>Go_Strings\<close>, \<open>Go_Trim\<close>, \<open>Go_Runes\<close>, \<open>Go_Path\<close>,
  \<open>Go_Float\<close>, \<open>Go_Time\<close>, \<open>Go_Values\<close> and \<open>Go_Regexp\<close> are what the code uses of Go's standard library: byte strings and
  runes, paths, binary64 numbers, calendars and durations, dynamic values with the JSON reader and printer,
  and regular expressions. \<open>Table_Upsert\<close> is the common law of tables that are written with an upsert,
  as a locale that the rows of the configuration and of the channels interpret.

  \<^bold>\<open>Workflows\<close> (\<^verbatim>\<open>internal/workflow\<close>, \<^verbatim>\<open>internal/store/workflow.go\<close>).
  \<open>Workflow_Types\<close>, \<open>Workflow_Graph\<close>, \<open>Workflow_Refs\<close>, \<open>Workflow_Validate\<close>
  and \<open>Workflow_Runner\<close> model the definitions, Kahn's algorithm, references and conditions, validation and
  the walk; \<open>Workflow_Store\<close> the rows of runs and node outputs, \<open>Workflow_Retention\<close> their sweeps.
  \<open>Workflow_Laws\<close>, \<open>Workflow_Walk\<close> and \<open>Workflow_Run\<close> show that a run returns, that its result is
  what is persisted, and that a resumed run appends the next attempts; \<open>Workflow_Example\<close> is a graph for
  the witnesses. The walk has fuel one above the number
  of nodes, which is enough because no node is executed twice; the store is the locale \<open>run_store\<close>.

  \<^bold>\<open>Tools\<close> (\<^verbatim>\<open>internal/agent/tools\<close>). \<open>Tool_Paths\<close> models where a path of a model
  leads and shows that an accepted path stays inside; \<open>Patch_Parse\<close>, \<open>Patch_Apply\<close>,
  \<open>Patch_Engine\<close> and \<open>Patch_Backend\<close> model \<^verbatim>\<open>apply_patch\<close> over the locale of a backend,
  interpreted on the host and on a sandbox, and show that a failed patch changes nothing and that a printed
  patch is read back; \<open>File_Tools\<close> models reading, writing and editing.

  \<^bold>\<open>Authorization and turns\<close> (\<^verbatim>\<open>internal/agent\<close>, \<^verbatim>\<open>internal/session\<close>,
  \<^verbatim>\<open>internal/provider\<close>). \<open>Auth_Gate\<close> and \<open>Auth_Session\<close>: the tiers of shell commands,
  what is parked, approved and run, and that nothing runs without consent. \<open>Session_Messages\<close>,
  \<open>Session_Store\<close>, \<open>Session_Log\<close>, \<open>Session_Manager\<close>, \<open>Session_Repair\<close> and
  \<open>Session_Laws\<close>: pairing of calls and results, compaction, the rows, the cache, forks and repair.
  \<open>Turn_Retry\<close>, \<open>Provider_Wire\<close>, \<open>Turn_Loop\<close> and \<open>Turn_Pairing\<close>: one call of the model
  with its retries (a partial function of which termination is proved), the messages on the wire, the rounds
  of a turn (bounded by the limit of iterations) and the pairing that a turn keeps. \<open>Agent_Goal\<close>: goals and
  their budgets.

  \<^bold>\<open>Background work\<close>. \<open>Cron_Expr\<close>, \<open>Cron_Store\<close>, \<open>Cron_Scheduler\<close>,
  \<open>Cron_Pass\<close> and \<open>Cron_Tools\<close> (\<^verbatim>\<open>internal/cron\<close>): the next occurrence is the first
  one, and a pass treats every row on its own. \<open>Failure_Sweep\<close> and \<open>Failure_Laws\<close>
  (\<^verbatim>\<open>internal/gateway/gateway_failure_sweep.go\<close>): every failed session is found, replays are capped.
  \<open>Channel_Lease\<close> and \<open>Task_Queue\<close> are step relations with reachable states: one adapter at a time,
  one turn at a time in a chat.

  \<^bold>\<open>Access, configuration and routing\<close>. \<open>Access_Identity\<close>, \<open>Access_Limits\<close> and
  \<open>Access_Login\<close>: accounts, keys, the limiters and what an identity is backed by. \<open>Usage_Meter\<close> and
  \<open>Usage_Quota\<close>: two meters of one interface (locale \<open>usage_meter\<close>), quotas and billing windows.
  \<open>Config_Rows\<close>, \<open>Config_Scope\<close>, \<open>Config_Laws\<close>, \<open>Channel_Rows\<close>,
  \<open>Config_Handlers\<close> and \<open>Config_Edit_Laws\<close>: the rows of the configuration, their layers and the
  endpoints that edit them. \<open>Routing\<close>, \<open>Routing_Laws\<close>, \<open>Chat_Claims\<close> and
  \<open>Chat_Claims_Laws\<close>: from a message to an agent, administrators and claim codes.
  \<open>Skill_Pending\<close>: the approval of edits of skills.

  \<^bold>\<open>Knowledge base and wiki\<close> (\<^verbatim>\<open>internal/kb\<close>, \<^verbatim>\<open>internal/wiki\<close>, \<^verbatim>\<open>internal/cardsgen\<close>).
  \<open>Kb_Chunker\<close> cuts articles into chunks, \<open>Kb_Sources\<close> cleans and stores them with their vectors, merges
  articles and derives the chunks anew, \<open>Kb_Items\<close> holds flashes, todos, reminders and the checks against
  duplicates. \<open>Kb_Chunk_Laws\<close>, \<open>Kb_Source_Laws\<close> and \<open>Kb_Merge_Laws\<close> show that cutting loses only
  white space, that the tables stay consistent in every run of the operations, that a reminder is repeated until it is
  delivered, and where two operations do not fit. \<open>Kb_Cards\<close> and \<open>Kb_Card_Laws\<close>: flash cards, the
  spacing of their reviews, the queue of due cards and the streak; \<open>Card_Generate\<close>: their nightly generation.
  \<open>Wiki_Store\<close>, \<open>Wiki_Generate\<close> and \<open>Wiki_Laws\<close>: pages under a key of type and slug, the links
  between them, and the run that writes them from the plan of a model, whose answers are fields of an environment. The
  splitting of sentences at a fixed size can loop and is a partial function; that it is never reached is a lemma.

  \<^bold>\<open>What the theorems show.\<close> Most say that the code does what it means to do. Some are theorems about a
  defect: they state exactly what the code does there, and the text in front of them says what it means to
  do.

  \<^bold>\<open>Conventions.\<close> Errors are values; the wording of messages is kept where the code compares it and is a
  constructor otherwise. Randomness, clocks, the language model, HTTP services, hashes (SHA-256, bcrypt) and
  embeddings are arguments of the definitions. One operation sees one time. Rows are lists in the order of
  insertion; \<^verbatim>\<open>ORDER BY\<close> is a stable sort, \<^verbatim>\<open>LIKE\<close> is written out with the letter
  case as an argument. JSON columns that the code writes and reads back itself are taken to be lossless.

  \<^bold>\<open>Not modelled.\<close> The loader of workflow files and the leaves of a workflow (they are the environment of
  the runner); DDL and migrations; failures of the database in the middle of an operation and transactions
  as a source of concurrency beyond the atomic steps of leases, queue and goals; symbolic links; letters
  beyond ASCII in case conversion; the executors of sandboxes, the protocols of the messengers, plugins, MCP
  and HTTP; prompts and the texts for the model; floating point scores of the search; the counters of the
  usage beyond their width of 64 bits; the browser application. These parts are glue around libraries and
  services that are not part of the repository, or texts, and a model of them would say nothing about the
  program.
\<close>

end
